(* ===== verification/Prelude.thy ===== *)
theory Prelude
  imports Main "HOL-Library.Word"
begin

text \<open>
  Shared vocabulary of the development: the result type that stands for Rust's
  \<open>Result<T, Error>\<close> and the \<open>?\<close> operator, checked machine arithmetic, big-endian
  byte strings (\<open>to_be_bytes\<close> / \<open>from_be_bytes\<close>), and the generic transition-system
  locale whose interpretations lift one-step invariants to every reachable state.
\<close>

named_theorems reads_intro \<open>forward rules: a reader accepts what the encoder wrote\<close>
named_theorems wire_elim \<open>inversion rules: what a successful read says about its input\<close>
named_theorems wire_defs \<open>definitions of encoders and decoders\<close>

type_synonym byte = "8 word"
type_synonym bytes = "8 word list"
type_synonym u32 = "32 word"
type_synonym u64 = "64 word"

section \<open>Results\<close>

text \<open>\<open>and_then m f\<close> is \<open>let x = m?; f x\<close>: the first error ends the computation.\<close>

definition and_then :: "'e + 'a \<Rightarrow> ('a \<Rightarrow> 'e + 'b) \<Rightarrow> 'e + 'b" where
  "and_then m f = (case m of Inl e \<Rightarrow> Inl e | Inr x \<Rightarrow> f x)"

lemma and_then_simps [simp]:
  "and_then (Inl e) f = Inl e"
  "and_then (Inr x) f = f x"
  by (simp_all add: and_then_def)

lemma and_then_Inr_iff [simp]:
  "and_then m f = Inr y \<longleftrightarrow> (\<exists>x. m = Inr x \<and> f x = Inr y)"
  by (cases m) auto

lemma and_then_assoc: "and_then (and_then m f) g = and_then m (\<lambda>x. and_then (f x) g)"
  by (cases m) auto

lemma and_then_cong [fundef_cong]:
  assumes "m = m'" and "\<And>x. m' = Inr x \<Longrightarrow> f x = f' x"
  shows "and_then m f = and_then m' f'"
  using assms by (cases m') auto

lemma and_then_split:
  "P (and_then m f) \<longleftrightarrow> (\<forall>e. m = Inl e \<longrightarrow> P (Inl e)) \<and> (\<forall>x. m = Inr x \<longrightarrow> P (f x))"
  by (cases m) auto

text \<open>\<open>guard_ok b e\<close> is \<open>if !b { return Err(e) }\<close>.\<close>

definition guard_ok :: "bool \<Rightarrow> 'e \<Rightarrow> 'e + unit" where
  "guard_ok b e = (if b then Inr () else Inl e)"

lemma guard_ok_simps [simp]:
  "guard_ok True e = Inr ()"
  "guard_ok False e = Inl e"
  "guard_ok b e = Inr u \<longleftrightarrow> b"
  by (auto simp: guard_ok_def)

definition ok_or :: "'a option \<Rightarrow> 'e \<Rightarrow> 'e + 'a" where
  "ok_or m e = (case m of None \<Rightarrow> Inl e | Some x \<Rightarrow> Inr x)"

lemma ok_or_simps [simp]:
  "ok_or None e = Inl e"
  "ok_or (Some x) e = Inr x"
  "ok_or m e = Inr y \<longleftrightarrow> m = Some y"
  by (auto simp: ok_or_def split: option.splits)

definition is_ok :: "'e + 'a \<Rightarrow> bool" where
  "is_ok m = (case m of Inl _ \<Rightarrow> False | Inr _ \<Rightarrow> True)"

lemma is_ok_simps [simp]: "is_ok (Inl e) = False" "is_ok (Inr x) = True"
  by (simp_all add: is_ok_def)

lemma is_ok_iff: "is_ok m \<longleftrightarrow> (\<exists>x. m = Inr x)"
  by (cases m) auto

text \<open>A loop whose body may return early with an error.\<close>

fun fold_ok :: "('a \<Rightarrow> 's \<Rightarrow> 'e + 's) \<Rightarrow> 'a list \<Rightarrow> 's \<Rightarrow> 'e + 's" where
  "fold_ok f [] s = Inr s"
| "fold_ok f (x # xs) s = and_then (f x s) (fold_ok f xs)"

lemma fold_ok_append:
  "fold_ok f (xs @ ys) s = and_then (fold_ok f xs s) (fold_ok f ys)"
  by (induction xs arbitrary: s) (auto simp: and_then_assoc split: and_then_split)

lemma fold_ok_invariant:
  assumes "fold_ok f xs s = Inr t" and "P s"
    and "\<And>x s t. x \<in> set xs \<Longrightarrow> P s \<Longrightarrow> f x s = Inr t \<Longrightarrow> P t"
  shows "P t"
  using assms by (induction xs arbitrary: s) auto

lemma fold_ok_unit: "fold_ok (\<lambda>x _. f x) xs () = Inr u \<longleftrightarrow> (\<forall>x \<in> set xs. f x = Inr ())"
  by (induction xs) auto

text \<open>\<open>iter().map(f).collect::<Result<Vec<_>>>()\<close>.\<close>

fun map_ok :: "('a \<Rightarrow> 'e + 'b) \<Rightarrow> 'a list \<Rightarrow> 'e + 'b list" where
  "map_ok f [] = Inr []"
| "map_ok f (x # xs) = and_then (f x) (\<lambda>y. and_then (map_ok f xs) (\<lambda>ys. Inr (y # ys)))"

lemma map_ok_Inr_iff: "map_ok f xs = Inr ys \<longleftrightarrow> list_all2 (\<lambda>x y. f x = Inr y) xs ys"
  by (induction xs arbitrary: ys) (auto simp: list_all2_Cons1)

lemma map_ok_total: "(\<And>x. x \<in> set xs \<Longrightarrow> f x = Inr (g x)) \<Longrightarrow> map_ok f xs = Inr (map g xs)"
  by (induction xs) auto

section \<open>Checked arithmetic\<close>

text \<open>
  \<open>usize\<close> is 64 bits wide on the supported targets, and no Rust slice or vector is longer
  than \<open>isize::MAX\<close> bytes; lengths are natural numbers, and every \<open>checked_add\<close> of the
  source is a comparison with \<open>usize_max\<close>.
\<close>

definition usize_max :: nat where
  "usize_max = 18446744073709551615"

definition checked_add :: "'a::len word \<Rightarrow> 'a word \<Rightarrow> 'a word option" where
  "checked_add a b = (if unat a + unat b < 2 ^ LENGTH('a) then Some (a + b) else None)"

definition saturating_add :: "'a::len word \<Rightarrow> 'a word \<Rightarrow> 'a word" where
  "saturating_add a b = (if unat a + unat b < 2 ^ LENGTH('a) then a + b else - 1)"

definition usize_add :: "nat \<Rightarrow> nat \<Rightarrow> nat option" where
  "usize_add a b = (if a + b \<le> usize_max then Some (a + b) else None)"

definition div_ceil :: "nat \<Rightarrow> nat \<Rightarrow> nat" where
  "div_ceil a b = (a + b - 1) div b"

lemma checked_add_SomeD: "checked_add a b = Some c \<Longrightarrow> unat c = unat a + unat b"
  by (auto simp: checked_add_def unat_word_ariths split: if_splits)

lemma checked_add_Some_iff:
  fixes a b c :: "'a::len word"
  shows "checked_add a b = Some c \<longleftrightarrow> unat a + unat b < 2 ^ LENGTH('a) \<and> c = a + b"
  by (auto simp: checked_add_def)

lemma checked_add_one: "(\<exists>n. checked_add l 1 = Some n) \<longleftrightarrow> l \<noteq> (- 1 :: 64 word)"
proof -
  have "unat (- 1 :: 64 word) = 18446744073709551615"
    by (simp add: unsigned_minus_1_eq_mask mask_eq_exp_minus_1)
  then show ?thesis
    using unsigned_less [of l, where 'a = nat] by (auto simp: checked_add_def word_unat_eq_iff [of l])
qed

lemma checked_add_one_less:
  fixes a :: u64
  shows "checked_add a 1 = Some c \<Longrightarrow> a < c"
  by (drule checked_add_SomeD) (simp add: word_less_nat_alt)

lemma usize_add_Some_iff [simp]: "usize_add a b = Some c \<longleftrightarrow> a + b \<le> usize_max \<and> c = a + b"
  by (auto simp: usize_add_def)

section \<open>Big-endian byte strings\<close>

text \<open>\<open>be_bytes k n\<close> is the \<open>k\<close>-byte big-endian form of \<open>n\<close>, \<open>be_val\<close> reads it back.\<close>

primrec be_bytes :: "nat \<Rightarrow> nat \<Rightarrow> bytes" where
  "be_bytes 0 n = []"
| "be_bytes (Suc k) n = be_bytes k (n div 256) @ [of_nat (n mod 256)]"

definition be_val :: "bytes \<Rightarrow> nat" where
  "be_val bs = foldl (\<lambda>a b. a * 256 + unat b) 0 bs"

lemma length_be_bytes [simp]: "length (be_bytes k n) = k"
  by (induction k arbitrary: n) auto

lemma be_val_Nil [simp]: "be_val [] = 0"
  by (simp add: be_val_def)

lemma be_val_snoc [simp]: "be_val (bs @ [b]) = be_val bs * 256 + unat b"
  by (simp add: be_val_def)

lemma unat_byte_less [simp]: "unat (b :: byte) < 256"
proof -
  have "unat b < 2 ^ LENGTH(8)" by (rule unsigned_less)
  then show ?thesis by simp
qed

lemma be_val_bound: "be_val bs < 256 ^ length bs"
proof (induction bs rule: rev_induct)
  case (snoc b bs)
  have "be_val bs * 256 + unat b < (be_val bs + 1) * 256"
    by (simp add: unat_byte_less)
  also have "\<dots> \<le> 256 ^ length bs * 256"
    using snoc by (intro mult_le_mono1) simp
  finally show ?case by simp
qed simp

lemma be_val_be_bytes: "be_val (be_bytes k n) = n mod 256 ^ k"
proof (induction k arbitrary: n)
  case (Suc k)
  have "unat (of_nat (n mod 256) :: byte) = n mod 256"
    by (simp add: unat_of_nat)
  then have "be_val (be_bytes (Suc k) n) = (n div 256) mod 256 ^ k * 256 + n mod 256"
    by (simp add: Suc)
  then show ?case
    by (simp add: mod_mult2_eq [of n 256 "256 ^ k", symmetric] mult.commute add.commute)
      (metis add.commute mod_mult2_eq)
qed simp

lemma be_bytes_be_val: "length bs = k \<Longrightarrow> be_bytes k (be_val bs) = bs"
proof (induction bs arbitrary: k rule: rev_induct)
  case (snoc b bs)
  have d: "(be_val bs * 256 + unat b) div 256 = be_val bs"
    and m: "(be_val bs * 256 + unat b) mod 256 = unat b"
    using unat_byte_less [of b] by auto
  from snoc obtain k' where k: "k = Suc k'" and "length bs = k'"
    by (cases k) auto
  with snoc.IH [of k'] d m show ?case by simp
qed simp

definition to_be_bytes :: "'a::len word \<Rightarrow> bytes" where
  "to_be_bytes w = be_bytes (LENGTH('a) div 8) (unat w)"

definition from_be_bytes :: "bytes \<Rightarrow> 'a::len word" where
  "from_be_bytes bs = of_nat (be_val bs)"

lemma length_to_be_bytes [simp]: "length (to_be_bytes (w :: 'a::len word)) = LENGTH('a) div 8"
  by (simp add: to_be_bytes_def)

lemma from_to_be_bytes_gen:
  fixes w :: "'a::len word"
  assumes "LENGTH('a) = 8 * (LENGTH('a) div 8)"
  shows "from_be_bytes (to_be_bytes w) = w"
proof -
  have "(256::nat) ^ (LENGTH('a) div 8) = 2 ^ LENGTH('a)"
    by (subst (2) assms) (simp add: power_mult)
  moreover have "unat w < 2 ^ LENGTH('a)"
    by (rule unsigned_less)
  ultimately have "unat w mod 256 ^ (LENGTH('a) div 8) = unat w"
    by simp
  then show ?thesis
    by (simp add: from_be_bytes_def to_be_bytes_def be_val_be_bytes)
qed

lemma to_from_be_bytes_gen:
  assumes "LENGTH('a::len) = 8 * length bs"
  shows "to_be_bytes (from_be_bytes bs :: 'a word) = bs"
proof -
  have "be_val bs < 2 ^ LENGTH('a)"
    using be_val_bound [of bs] by (simp add: assms power_mult)
  then have "unat (of_nat (be_val bs) :: 'a word) = be_val bs"
    by (simp add: unat_of_nat)
  then show ?thesis
    by (simp add: to_be_bytes_def from_be_bytes_def assms be_bytes_be_val)
qed

lemma from_to_be_bytes [simp]:
  "from_be_bytes (to_be_bytes (a :: 8 word)) = a"
  "from_be_bytes (to_be_bytes (b :: 32 word)) = b"
  "from_be_bytes (to_be_bytes (c :: 64 word)) = c"
  "from_be_bytes (to_be_bytes (d :: 128 word)) = d"
  "from_be_bytes (to_be_bytes (e :: 256 word)) = e"
  by (rule from_to_be_bytes_gen, simp)+

lemma to_from_be_bytes [simp]:
  "length bs = 4 \<Longrightarrow> to_be_bytes (from_be_bytes bs :: 32 word) = bs"
  "length bs = 8 \<Longrightarrow> to_be_bytes (from_be_bytes bs :: 64 word) = bs"
  "length bs = 16 \<Longrightarrow> to_be_bytes (from_be_bytes bs :: 128 word) = bs"
  "length bs = 32 \<Longrightarrow> to_be_bytes (from_be_bytes bs :: 256 word) = bs"
  by (rule to_from_be_bytes_gen, simp)+

lemma to_be_bytes_inject_gen:
  fixes v w :: "'a::len word"
  assumes "LENGTH('a) = 8 * (LENGTH('a) div 8)"
  shows "to_be_bytes v = to_be_bytes w \<longleftrightarrow> v = w"
  by (metis assms from_to_be_bytes_gen)

lemma to_be_bytes_inject [simp]:
  "to_be_bytes (c :: 64 word) = to_be_bytes c' \<longleftrightarrow> c = c'"
  "to_be_bytes (e :: 256 word) = to_be_bytes e' \<longleftrightarrow> e = e'"
  by (rule to_be_bytes_inject_gen, simp)+

text \<open>ASCII literals of the source as bytes.\<close>

definition ascii :: "string \<Rightarrow> bytes" where
  "ascii s = map of_char s"

lemma length_ascii [simp]: "length (ascii s) = length s"
  by (simp add: ascii_def)

lemma take_exact: "n = length xs \<Longrightarrow> take n (xs @ ys) = xs"
  and drop_exact: "n = length xs \<Longrightarrow> drop n (xs @ ys) = ys"
  by simp_all

section \<open>Transition systems\<close>

text \<open>
  A component is a set of initial states and a step relation. A predicate that the initial
  states satisfy and every step keeps holds in all reachable states.
\<close>

inductive run_steps :: "('s \<Rightarrow> 's \<Rightarrow> bool) \<Rightarrow> 's \<Rightarrow> 's \<Rightarrow> bool" for step where
  run_refl: "run_steps step s s"
| run_snoc: "run_steps step s t \<Longrightarrow> step t u \<Longrightarrow> run_steps step s u"

locale transition_system =
  fixes init :: "'s \<Rightarrow> bool"
    and step :: "'s \<Rightarrow> 's \<Rightarrow> bool"
    and inv :: "'s \<Rightarrow> bool"
  assumes init_inv: "init s \<Longrightarrow> inv s"
    and step_inv: "inv s \<Longrightarrow> step s t \<Longrightarrow> inv t"
begin

lemma runs_inv: "run_steps step s t \<Longrightarrow> inv s \<Longrightarrow> inv t"
  by (induction rule: run_steps.induct) (auto intro: step_inv)

lemma reachable_inv: "init s \<Longrightarrow> run_steps step s t \<Longrightarrow> inv t"
  by (blast intro: runs_inv init_inv)

end

end
