(* ===== verification/Ids.thy ===== *)
theory Ids
  imports Prelude
begin

text \<open>
  Identifiers and errors: \<open>backend/src/ids.rs\<close>, \<open>backend/src/error.rs\<close> and the
  two identifiers of \<open>backend/src/net/mod.rs\<close>. A Rust \<open>[u8; N]\<close> is the word of
  \<open>8 * N\<close> bits with these bytes in big-endian order, so the length is part of the type.
  The derived \<open>Ord\<close> of a byte array is lexicographic on unsigned bytes, which is the
  order of the words (\<open>to_be_bytes_less_iff\<close> below); every newtype takes it over by an
  instantiation of \<open>linorder\<close>.
\<close>

datatype PeerId = PeerId (peer_raw: "256 word")

datatype FileId = FileId (file_raw: "256 word")

datatype ChunkId = ChunkId (chunk_raw: "256 word")

datatype VaultId = VaultId (vault_raw: "256 word")

datatype JoinCode = JoinCode (code_raw: "128 word")

datatype Epoch = Epoch (epoch_raw: "64 word")

datatype Seq = Seq (seq_raw: "64 word")

instantiation PeerId :: linorder
begin

definition less_eq_PeerId :: "PeerId \<Rightarrow> PeerId \<Rightarrow> bool" where
  "less_eq_PeerId a b \<longleftrightarrow> peer_raw a \<le> peer_raw b"

definition less_PeerId :: "PeerId \<Rightarrow> PeerId \<Rightarrow> bool" where
  "less_PeerId a b \<longleftrightarrow> peer_raw a < peer_raw b"

instance
  by standard (auto simp: less_eq_PeerId_def less_PeerId_def intro: PeerId.expand)

end

instantiation FileId :: linorder
begin

definition less_eq_FileId :: "FileId \<Rightarrow> FileId \<Rightarrow> bool" where
  "less_eq_FileId a b \<longleftrightarrow> file_raw a \<le> file_raw b"

definition less_FileId :: "FileId \<Rightarrow> FileId \<Rightarrow> bool" where
  "less_FileId a b \<longleftrightarrow> file_raw a < file_raw b"

instance
  by standard (auto simp: less_eq_FileId_def less_FileId_def intro: FileId.expand)

end

instantiation ChunkId :: linorder
begin

definition less_eq_ChunkId :: "ChunkId \<Rightarrow> ChunkId \<Rightarrow> bool" where
  "less_eq_ChunkId a b \<longleftrightarrow> chunk_raw a \<le> chunk_raw b"

definition less_ChunkId :: "ChunkId \<Rightarrow> ChunkId \<Rightarrow> bool" where
  "less_ChunkId a b \<longleftrightarrow> chunk_raw a < chunk_raw b"

instance
  by standard (auto simp: less_eq_ChunkId_def less_ChunkId_def intro: ChunkId.expand)

end

instantiation VaultId :: linorder
begin

definition less_eq_VaultId :: "VaultId \<Rightarrow> VaultId \<Rightarrow> bool" where
  "less_eq_VaultId a b \<longleftrightarrow> vault_raw a \<le> vault_raw b"

definition less_VaultId :: "VaultId \<Rightarrow> VaultId \<Rightarrow> bool" where
  "less_VaultId a b \<longleftrightarrow> vault_raw a < vault_raw b"

instance
  by standard (auto simp: less_eq_VaultId_def less_VaultId_def intro: VaultId.expand)

end

instantiation JoinCode :: linorder
begin

definition less_eq_JoinCode :: "JoinCode \<Rightarrow> JoinCode \<Rightarrow> bool" where
  "less_eq_JoinCode a b \<longleftrightarrow> code_raw a \<le> code_raw b"

definition less_JoinCode :: "JoinCode \<Rightarrow> JoinCode \<Rightarrow> bool" where
  "less_JoinCode a b \<longleftrightarrow> code_raw a < code_raw b"

instance
  by standard (auto simp: less_eq_JoinCode_def less_JoinCode_def intro: JoinCode.expand)

end

instantiation Epoch :: linorder
begin

definition less_eq_Epoch :: "Epoch \<Rightarrow> Epoch \<Rightarrow> bool" where
  "less_eq_Epoch a b \<longleftrightarrow> epoch_raw a \<le> epoch_raw b"

definition less_Epoch :: "Epoch \<Rightarrow> Epoch \<Rightarrow> bool" where
  "less_Epoch a b \<longleftrightarrow> epoch_raw a < epoch_raw b"

instance
  by standard (auto simp: less_eq_Epoch_def less_Epoch_def intro: Epoch.expand)

end

instantiation Seq :: linorder
begin

definition less_eq_Seq :: "Seq \<Rightarrow> Seq \<Rightarrow> bool" where
  "less_eq_Seq a b \<longleftrightarrow> seq_raw a \<le> seq_raw b"

definition less_Seq :: "Seq \<Rightarrow> Seq \<Rightarrow> bool" where
  "less_Seq a b \<longleftrightarrow> seq_raw a < seq_raw b"

instance
  by standard (auto simp: less_eq_Seq_def less_Seq_def intro: Seq.expand)

end

lemmas id_order_defs =
  less_eq_PeerId_def less_PeerId_def
  less_eq_FileId_def less_FileId_def
  less_eq_ChunkId_def less_ChunkId_def
  less_eq_VaultId_def less_VaultId_def
  less_eq_JoinCode_def less_JoinCode_def
  less_eq_Epoch_def less_Epoch_def
  less_eq_Seq_def less_Seq_def

lemma PeerId_less_simps [simp]:
  "PeerId a < PeerId b \<longleftrightarrow> a < b"
  "PeerId a \<le> PeerId b \<longleftrightarrow> a \<le> b"
  by (simp_all add: id_order_defs)

lemma FileId_less_simps [simp]:
  "FileId a < FileId b \<longleftrightarrow> a < b"
  "FileId a \<le> FileId b \<longleftrightarrow> a \<le> b"
  by (simp_all add: id_order_defs)

lemma ChunkId_less_simps [simp]:
  "ChunkId a < ChunkId b \<longleftrightarrow> a < b"
  "ChunkId a \<le> ChunkId b \<longleftrightarrow> a \<le> b"
  by (simp_all add: id_order_defs)

lemma VaultId_less_simps [simp]:
  "VaultId a < VaultId b \<longleftrightarrow> a < b"
  "VaultId a \<le> VaultId b \<longleftrightarrow> a \<le> b"
  by (simp_all add: id_order_defs)

lemma JoinCode_less_simps [simp]:
  "JoinCode a < JoinCode b \<longleftrightarrow> a < b"
  "JoinCode a \<le> JoinCode b \<longleftrightarrow> a \<le> b"
  by (simp_all add: id_order_defs)

lemma Epoch_less_simps [simp]:
  "Epoch a < Epoch b \<longleftrightarrow> a < b"
  "Epoch a \<le> Epoch b \<longleftrightarrow> a \<le> b"
  by (simp_all add: id_order_defs)

lemma Seq_less_simps [simp]:
  "Seq a < Seq b \<longleftrightarrow> a < b"
  "Seq a \<le> Seq b \<longleftrightarrow> a \<le> b"
  by (simp_all add: id_order_defs)

section \<open>The byte order of identifiers\<close>

definition byte_lt :: "(byte \<times> byte) set" where
  "byte_lt = {(a, b). a < b}"

lemma lexord_snoc:
  "length xs = length ys \<Longrightarrow>
    (xs @ [a], ys @ [b]) \<in> lexord r \<longleftrightarrow> (xs, ys) \<in> lexord r \<or> xs = ys \<and> (a, b) \<in> r"
  by (induction xs ys rule: list_induct2) auto

lemma be_bytes_inject:
  "m < 256 ^ k \<Longrightarrow> n < 256 ^ k \<Longrightarrow> be_bytes k m = be_bytes k n \<longleftrightarrow> m = n"
  by (metis be_val_be_bytes mod_less)

lemma less_div_mod_256:
  fixes m n :: nat
  shows "m div 256 < n div 256 \<or> m div 256 = n div 256 \<and> m mod 256 < n mod 256 \<longleftrightarrow> m < n"
proof -
  have split: "k = 256 * (k div 256) + k mod 256" "k mod 256 < 256" for k :: nat
    by simp_all
  show ?thesis
    using split [of m] split [of n]
    by (cases "m div 256" "n div 256" rule: linorder_cases) linarith+
qed

lemma be_bytes_less_iff:
  assumes "m < 256 ^ k" and "n < 256 ^ k"
  shows "(be_bytes k m, be_bytes k n) \<in> lexord byte_lt \<longleftrightarrow> m < n"
  using assms
proof (induction k arbitrary: m n)
  case (Suc k)
  have low: "of_nat (m mod 256) < (of_nat (n mod 256) :: byte) \<longleftrightarrow> m mod 256 < n mod 256"
    by (simp add: word_less_nat_alt unat_of_nat)
  have bound: "m div 256 < 256 ^ k" "n div 256 < 256 ^ k"
    using Suc.prems by (simp_all add: less_mult_imp_div_less mult.commute)
  have "(be_bytes (Suc k) m, be_bytes (Suc k) n) \<in> lexord byte_lt \<longleftrightarrow>
      (be_bytes k (m div 256), be_bytes k (n div 256)) \<in> lexord byte_lt \<or>
      be_bytes k (m div 256) = be_bytes k (n div 256) \<and> m mod 256 < n mod 256"
    by (simp add: lexord_snoc byte_lt_def low)
  also have "\<dots> \<longleftrightarrow> m div 256 < n div 256 \<or> m div 256 = n div 256 \<and> m mod 256 < n mod 256"
    by (simp only: Suc.IH [OF bound] be_bytes_inject [OF bound])
  also have "\<dots> \<longleftrightarrow> m < n"
    by (rule less_div_mod_256)
  finally show ?case .
qed simp

lemma to_be_bytes_less_iff:
  fixes v w :: "256 word"
  shows "(to_be_bytes v, to_be_bytes w) \<in> lexord byte_lt \<longleftrightarrow> v < w"
proof -
  have "unat v < 256 ^ 32" and "unat w < 256 ^ 32"
    using unsigned_less [of v] unsigned_less [of w] by simp_all
  then show ?thesis
    by (simp add: to_be_bytes_def be_bytes_less_iff word_less_nat_alt)
qed

section \<open>Errors\<close>

text \<open>The error enum of the crate. An operating-system error keeps no payload.\<close>

datatype error =
    NotImplemented string
  | InvalidInput string
  | AuthenticationFailed
  | KeyUnavailable
  | State string
  | ReplayRejected
  | EpochConflict Epoch
  | VaultSessionConflict PeerId VaultId VaultId
  | Io

type_synonym 'a result = "error + 'a"

end
