(* ===== verification/BTree.thy ===== *)
theory BTree
  imports Prelude
begin

text \<open>
  \<open>BTreeMap\<close> and \<open>BTreeSet\<close> of the standard library, as far as the sources use them:
  association lists (lists) in strictly increasing key order, so that iteration order is
  the list order and every operation computes. The \<open>ordered_map\<close> and \<open>ordered_set\<close>
  locales state what clients rely on; the interpretations discharge the laws for the list
  functions.
\<close>

type_synonym ('k, 'v) btree_map = "('k \<times> 'v) list"
type_synonym 'k btree_set = "'k list"

section \<open>Maps\<close>

definition bm_ok :: "('k::linorder, 'v) btree_map \<Rightarrow> bool" where
  "bm_ok m \<longleftrightarrow> sorted_wrt (<) (map fst m)"

abbreviation bm_get :: "('k, 'v) btree_map \<Rightarrow> 'k \<Rightarrow> 'v option" where
  "bm_get \<equiv> map_of"

abbreviation bm_values :: "('k, 'v) btree_map \<Rightarrow> 'v list" where
  "bm_values m \<equiv> map snd m"

abbreviation bm_keys :: "('k, 'v) btree_map \<Rightarrow> 'k list" where
  "bm_keys m \<equiv> map fst m"

definition bm_contains :: "('k, 'v) btree_map \<Rightarrow> 'k \<Rightarrow> bool" where
  "bm_contains m k = (map_of m k \<noteq> None)"

fun bm_insert :: "'k::linorder \<Rightarrow> 'v \<Rightarrow> ('k, 'v) btree_map \<Rightarrow> ('k, 'v) btree_map" where
  "bm_insert k v [] = [(k, v)]"
| "bm_insert k v ((k', v') # m) =
     (if k < k' then (k, v) # (k', v') # m
      else if k = k' then (k, v) # m
      else (k', v') # bm_insert k v m)"

definition bm_remove :: "'k \<Rightarrow> ('k, 'v) btree_map \<Rightarrow> ('k, 'v) btree_map" where
  "bm_remove k m = filter (\<lambda>e. fst e \<noteq> k) m"

definition bm_retain :: "('k \<Rightarrow> 'v \<Rightarrow> bool) \<Rightarrow> ('k, 'v) btree_map \<Rightarrow> ('k, 'v) btree_map" where
  "bm_retain P m = filter (\<lambda>e. P (fst e) (snd e)) m"

definition bm_or_default :: "'v \<Rightarrow> ('k, 'v) btree_map \<Rightarrow> 'k \<Rightarrow> 'v" where
  "bm_or_default d m k = (case map_of m k of None \<Rightarrow> d | Some v \<Rightarrow> v)"

lemma bm_ok_Nil [simp, intro!]: "bm_ok []"
  by (simp add: bm_ok_def)

lemma bm_ok_Cons [simp]: "bm_ok (e # m) \<longleftrightarrow> (\<forall>e' \<in> set m. fst e < fst e') \<and> bm_ok m"
  by (auto simp: bm_ok_def)

lemma bm_ok_distinct: "bm_ok m \<Longrightarrow> distinct (map fst m)"
  by (induction m) (auto simp: image_iff)

lemma set_bm_insert_keys [simp]: "fst ` set (bm_insert k v m) = insert k (fst ` set m)"
  by (induction k v m rule: bm_insert.induct) auto

lemma set_bm_insert_sub: "set (bm_insert k v m) \<subseteq> insert (k, v) (set m)"
  by (induction k v m rule: bm_insert.induct) auto

lemma bm_insert_in [simp]: "(k, v) \<in> set (bm_insert k v m)"
  by (induction k v m rule: bm_insert.induct) auto

lemma bm_ok_insert [simp, intro]: "bm_ok m \<Longrightarrow> bm_ok (bm_insert k v m)"
proof (induction k v m rule: bm_insert.induct)
  case (2 k v k' v' m)
  have "\<forall>e \<in> set (bm_insert k v m). k' < fst e" if "k' < k"
    using 2 that set_bm_insert_sub [of k v m] by fastforce
  with 2 show ?case by (auto intro: less_trans)
qed simp

lemma bm_get_None_below:
  fixes k :: "'k::linorder"
  shows "\<forall>e \<in> set m. k' < fst e \<Longrightarrow> k \<le> k' \<Longrightarrow> bm_get m k = None"
  by (induction m) (auto simp: not_less [symmetric])

lemma bm_get_insert [simp]: "bm_ok m \<Longrightarrow> bm_get (bm_insert k v m) = (bm_get m)(k \<mapsto> v)"
proof (induction k v m rule: bm_insert.induct)
  case (2 k v k' v' m)
  have "bm_get m k = None" if "k < k'"
    using "2.prems" that by (intro bm_get_None_below [of m k']) auto
  with 2 show ?case by (auto simp: fun_eq_iff)
qed (simp add: fun_eq_iff)

lemma bm_ok_filter [simp, intro]: "bm_ok m \<Longrightarrow> bm_ok (filter P m)"
  by (induction m) auto

lemma bm_ok_remove [simp, intro]: "bm_ok m \<Longrightarrow> bm_ok (bm_remove k m)"
  by (simp add: bm_remove_def)

lemma bm_ok_retain [simp, intro]: "bm_ok m \<Longrightarrow> bm_ok (bm_retain P m)"
  by (simp add: bm_retain_def)

lemma bm_get_remove [simp]: "bm_get (bm_remove k m) = (bm_get m)(k := None)"
  by (induction m) (auto simp: bm_remove_def fun_eq_iff)

lemma set_bm_remove [simp]: "set (bm_remove k m) = {e \<in> set m. fst e \<noteq> k}"
  by (auto simp: bm_remove_def)

lemma set_bm_retain [simp]: "set (bm_retain P m) = {e \<in> set m. P (fst e) (snd e)}"
  by (auto simp: bm_retain_def)

lemma bm_get_iff: "bm_ok m \<Longrightarrow> bm_get m k = Some v \<longleftrightarrow> (k, v) \<in> set m"
  by (simp add: bm_ok_distinct)

lemma bm_get_retain:
  "bm_ok m \<Longrightarrow> bm_get (bm_retain P m) k =
     (case bm_get m k of Some v \<Rightarrow> if P k v then Some v else None | None \<Rightarrow> None)"
proof (induction m)
  case (Cons e m)
  have "bm_get m (fst e) = None"
    using Cons.prems by (intro bm_get_None_below [of m "fst e"]) auto
  with Cons show ?case
    by (cases e) (auto simp: bm_retain_def split: option.splits)
qed (simp add: bm_retain_def)

lemma bm_set_insert:
  assumes "bm_ok m"
  shows "set (bm_insert k v m) = insert (k, v) {e \<in> set m. fst e \<noteq> k}"
proof -
  have "(a, b) \<in> set (bm_insert k v m) \<longleftrightarrow> (a, b) \<in> insert (k, v) {e \<in> set m. fst e \<noteq> k}"
    for a b
    using assms by (auto simp: bm_get_iff [symmetric] split: if_splits)
  then show ?thesis by auto
qed

lemma bm_contains_iff [simp]: "bm_contains m k \<longleftrightarrow> k \<in> fst ` set m"
  by (auto simp: bm_contains_def map_of_eq_None_iff)

lemma bm_insert_append:
  "bm_ok (m @ [(k, v)]) \<Longrightarrow> bm_insert k v m = m @ [(k, v)]"
  by (induction m) (auto simp: not_less dest: less_asym)

lemma bm_fold_insert:
  "sorted_wrt (<) (map key xs) \<Longrightarrow>
    fold (\<lambda>x. bm_insert (key x) (val x)) xs [] = map (\<lambda>x. (key x, val x)) xs"
proof (induction xs rule: rev_induct)
  case (snoc x xs)
  then show ?case
    by (auto simp: sorted_wrt_append bm_ok_def comp_def intro!: bm_insert_append)
qed simp

text \<open>Equal lookups mean equal maps: the list form is canonical.\<close>

lemma bm_ext: "bm_ok m \<Longrightarrow> bm_ok m' \<Longrightarrow> bm_get m = bm_get m' \<Longrightarrow> m = m'"
proof (induction m arbitrary: m')
  case Nil
  then show ?case by (cases m') (auto simp: fun_eq_iff split: if_splits)
next
  case (Cons e m)
  obtain k v where e: "e = (k, v)" by force
  from Cons.prems(3) e have "bm_get m' k = Some v"
    by (metis fun_upd_same map_of.simps(2) fst_conv snd_conv)
  then obtain e' r where m': "m' = e' # r" by (cases m') auto
  obtain k' v' where e': "e' = (k', v')" by force
  have "bm_get (e # m) k' = Some v'"
    using fun_cong [OF Cons.prems(3), of k'] m' e' by simp
  then have "k' \<in> fst ` set (e # m)" and "k \<in> fst ` set m'"
    using \<open>bm_get m' k = Some v\<close> by (metis map_of_eq_None_iff option.distinct(1))+
  then have "k = k'"
    using Cons.prems(1,2) e e' m' by (auto dest: less_asym)
  then have "v = v'"
    using \<open>bm_get m' k = Some v\<close> m' e' by simp
  have "bm_get m k = None" and "bm_get r k = None"
    using Cons.prems(1,2) e e' m' \<open>k = k'\<close>
    by (simp_all add: bm_get_None_below [OF _ order_refl])
  then have "bm_get m = bm_get r"
    using Cons.prems(3) e e' m' \<open>k = k'\<close> \<open>v = v'\<close>
    by (metis fun_upd_triv fun_upd_upd map_of.simps(2) fst_conv snd_conv)
  with Cons.IH Cons.prems(1,2) m' have "m = r" by auto
  with e e' m' \<open>k = k'\<close> \<open>v = v'\<close> show ?case by simp
qed

text \<open>A map whose keys are a function of the values: an index of a collection.\<close>

definition bm_keyed :: "('v \<Rightarrow> 'k) \<Rightarrow> ('k, 'v) btree_map \<Rightarrow> bool" where
  "bm_keyed f m \<longleftrightarrow> (\<forall>p \<in> set m. fst p = f (snd p))"

lemma bm_keyed_set: "bm_keyed f m \<Longrightarrow> set m = (\<lambda>e. (f e, e)) ` set (bm_values m)"
  by (force simp: bm_keyed_def image_iff)

lemma bm_keyed_eq: "bm_keyed f m \<Longrightarrow> m = map (\<lambda>e. (f e, e)) (bm_values m)"
  by (induction m) (auto simp: bm_keyed_def)

lemma bm_keyed_get:
  "bm_ok m \<Longrightarrow> bm_keyed f m \<Longrightarrow> bm_get m k = Some e \<longleftrightarrow> e \<in> set (bm_values m) \<and> f e = k"
  by (auto simp: bm_get_iff bm_keyed_set simp del: set_map)

lemma bm_keyed_insert: "bm_keyed f m \<Longrightarrow> bm_keyed f (bm_insert (f x) x m)"
  using set_bm_insert_sub [of "f x" x m] by (fastforce simp: bm_keyed_def)

lemma bm_keyed_remove: "bm_keyed f m \<Longrightarrow> bm_keyed f (bm_remove k m)"
  by (simp add: bm_keyed_def)

lemma bm_values_insert:
  assumes "bm_ok m" and "bm_keyed f m"
  shows "set (bm_values (bm_insert (f x) x m)) = insert x {e \<in> set (bm_values m). f e \<noteq> f x}"
proof -
  have "set (bm_values (bm_insert (f x) x m)) = snd ` (insert (f x, x) {p \<in> set m. fst p \<noteq> f x})"
    by (simp add: bm_set_insert [OF assms(1)])
  also have "\<dots> = insert x (snd ` {p \<in> (\<lambda>e. (f e, e)) ` set (bm_values m). fst p \<noteq> f x})"
    by (subst bm_keyed_set [OF assms(2)]) simp
  also have "\<dots> = insert x {e \<in> set (bm_values m). f e \<noteq> f x}"
    by force
  finally show ?thesis .
qed

lemma bm_values_remove:
  assumes "bm_keyed f m"
  shows "set (bm_values (bm_remove k m)) = {e \<in> set (bm_values m). f e \<noteq> k}"
proof -
  have "set (bm_values (bm_remove k m)) = snd ` {p \<in> set m. fst p \<noteq> k}"
    by simp
  also have "\<dots> = {e \<in> set (bm_values m). f e \<noteq> k}"
    using assms by (force simp: bm_keyed_def)
  finally show ?thesis .
qed

locale ordered_map =
  fixes get :: "'m \<Rightarrow> 'k \<Rightarrow> 'v option"
    and ins :: "'k \<Rightarrow> 'v \<Rightarrow> 'm \<Rightarrow> 'm"
    and del :: "'k \<Rightarrow> 'm \<Rightarrow> 'm"
    and ok :: "'m \<Rightarrow> bool"
  assumes get_ins: "ok m \<Longrightarrow> get (ins k v m) = (get m)(k \<mapsto> v)"
    and get_del: "ok m \<Longrightarrow> get (del k m) = (get m)(k := None)"
    and ok_ins: "ok m \<Longrightarrow> ok (ins k v m)"
    and ok_del: "ok m \<Longrightarrow> ok (del k m)"
    and ext: "ok m \<Longrightarrow> ok m' \<Longrightarrow> get m = get m' \<Longrightarrow> m = m'"
begin

lemma ins_overwrites: "ok m \<Longrightarrow> ins k v (ins k u m) = ins k v m"
  by (rule ext) (simp_all add: ok_ins get_ins)

lemma ins_commute: "ok m \<Longrightarrow> k \<noteq> l \<Longrightarrow> ins k v (ins l u m) = ins l u (ins k v m)"
  by (rule ext) (simp_all add: ok_ins get_ins fun_upd_twist)

lemma del_ins: "ok m \<Longrightarrow> get m k = None \<Longrightarrow> del k (ins k v m) = m"
  by (rule ext) (simp_all add: ok_ins ok_del get_ins get_del fun_upd_idem)

lemma ins_get_id: "ok m \<Longrightarrow> get m k = Some v \<Longrightarrow> ins k v m = m"
  by (rule ext) (simp_all add: ok_ins get_ins fun_upd_idem)

end

interpretation bm: ordered_map map_of bm_insert bm_remove bm_ok
  by unfold_locales (auto intro: bm_ext)

section \<open>Sets\<close>

definition bs_ok :: "'k::linorder btree_set \<Rightarrow> bool" where
  "bs_ok s \<longleftrightarrow> sorted_wrt (<) s"

fun bs_insert :: "'k::linorder \<Rightarrow> 'k btree_set \<Rightarrow> 'k btree_set" where
  "bs_insert x [] = [x]"
| "bs_insert x (y # s) =
     (if x < y then x # y # s else if x = y then y # s else y # bs_insert x s)"

definition bs_remove :: "'k \<Rightarrow> 'k btree_set \<Rightarrow> 'k btree_set" where
  "bs_remove x s = filter (\<lambda>y. y \<noteq> x) s"

definition bs_extend :: "'k::linorder list \<Rightarrow> 'k btree_set \<Rightarrow> 'k btree_set" where
  "bs_extend xs s = fold bs_insert xs s"

lemma bs_ok_Nil [simp, intro!]: "bs_ok []"
  by (simp add: bs_ok_def)

lemma bs_ok_Cons [simp]: "bs_ok (x # s) \<longleftrightarrow> (\<forall>y \<in> set s. x < y) \<and> bs_ok s"
  by (auto simp: bs_ok_def)

lemma set_bs_insert [simp]: "set (bs_insert x s) = insert x (set s)"
  by (induction x s rule: bs_insert.induct) auto

lemma bs_ok_insert [simp, intro]: "bs_ok s \<Longrightarrow> bs_ok (bs_insert x s)"
  by (induction x s rule: bs_insert.induct) (auto intro: less_trans)

lemma set_bs_remove [simp]: "set (bs_remove x s) = set s - {x}"
  by (auto simp: bs_remove_def)

lemma bs_ok_filter [simp, intro]: "bs_ok s \<Longrightarrow> bs_ok (filter P s)"
  by (induction s) auto

lemma bs_ok_remove [simp, intro]: "bs_ok s \<Longrightarrow> bs_ok (bs_remove x s)"
  by (simp add: bs_remove_def)

lemma set_bs_extend [simp]: "set (bs_extend xs s) = set xs \<union> set s"
  unfolding bs_extend_def by (induction xs arbitrary: s) auto

lemma bs_ok_extend [simp, intro]: "bs_ok s \<Longrightarrow> bs_ok (bs_extend xs s)"
  unfolding bs_extend_def by (induction xs arbitrary: s) auto

lemma bs_ok_distinct: "bs_ok s \<Longrightarrow> distinct s"
  by (induction s) auto

lemma bs_ok_sorted: "bs_ok s \<Longrightarrow> sorted s"
  by (induction s) (auto intro: less_imp_le)

lemma bs_ext: "bs_ok s \<Longrightarrow> bs_ok t \<Longrightarrow> set s = set t \<Longrightarrow> s = t"
  by (intro sorted_distinct_set_unique) (auto intro: bs_ok_distinct bs_ok_sorted)

lemma bs_insert_append: "bs_ok (s @ [x]) \<Longrightarrow> bs_insert x s = s @ [x]"
  by (induction s) (auto simp: not_less dest: less_asym)

lemma bs_fold_insert: "bs_ok xs \<Longrightarrow> fold bs_insert xs [] = xs"
proof (induction xs rule: rev_induct)
  case (snoc x xs)
  then have "bs_ok xs"
    by (simp add: bs_ok_def sorted_wrt_append)
  with snoc show ?case
    by (simp add: bs_insert_append)
qed simp

locale ordered_set =
  fixes elems :: "'s \<Rightarrow> 'k set"
    and ins :: "'k \<Rightarrow> 's \<Rightarrow> 's"
    and del :: "'k \<Rightarrow> 's \<Rightarrow> 's"
    and ok :: "'s \<Rightarrow> bool"
  assumes elems_ins: "ok s \<Longrightarrow> elems (ins x s) = insert x (elems s)"
    and elems_del: "ok s \<Longrightarrow> elems (del x s) = elems s - {x}"
    and ok_ins: "ok s \<Longrightarrow> ok (ins x s)"
    and ok_del: "ok s \<Longrightarrow> ok (del x s)"
    and ext: "ok s \<Longrightarrow> ok t \<Longrightarrow> elems s = elems t \<Longrightarrow> s = t"
begin

lemma ins_idem: "ok s \<Longrightarrow> x \<in> elems s \<Longrightarrow> ins x s = s"
  by (rule ext) (auto simp: ok_ins elems_ins)

lemma del_ins: "ok s \<Longrightarrow> x \<notin> elems s \<Longrightarrow> del x (ins x s) = s"
  by (rule ext) (auto simp: ok_ins ok_del elems_ins elems_del)

end

interpretation bs: ordered_set set bs_insert bs_remove bs_ok
  by unfold_locales (auto intro: bs_ext)

end
