(* ===== verification/Wire.thy ===== *)
theory Wire
  imports Ids BTree
begin

text \<open>
  The byte-level layer of \<open>backend/src/encoding.rs\<close>: \<open>push_length\<close>,
  \<open>push_variable\<close> and the bounded \<open>Reader\<close>. A reader-passing parser is a function
  from the reader to a result and the advanced reader; \<open>p_bind\<close> sequences two reads as
  consecutive statements with \<open>?\<close> do. Two facts describe a parser: \<open>reads p x e post\<close>
  (it accepts the bytes \<open>e\<close> in front of \<open>post\<close> and returns \<open>x\<close>) and an inversion rule
  (a successful read consumed exactly the encoding of what it returned). The locale
  \<open>codec\<close> packages both with a size bound; its lemmas lift them to counted sequences and
  to whole messages once for every message of the protocol.
\<close>

section \<open>Writing\<close>

definition push_length :: "bytes \<Rightarrow> nat \<Rightarrow> bytes result" where
  "push_length out len =
     (if len < 2 ^ 32 then Inr (out @ to_be_bytes (of_nat len :: u32))
      else Inl (InvalidInput ''variable field exceeds u32 encoding limit''))"

definition push_variable :: "bytes \<Rightarrow> bytes \<Rightarrow> bytes result" where
  "push_variable out value =
     and_then (push_length out (length value)) (\<lambda>out. Inr (out @ value))"

text \<open>The pure forms the proofs use: a length prefix and a length-prefixed field.\<close>

definition len_bytes :: "nat \<Rightarrow> bytes" where
  "len_bytes n = to_be_bytes (of_nat n :: u32)"

definition var_bytes :: "bytes \<Rightarrow> bytes" where
  "var_bytes v = len_bytes (length v) @ v"

definition short :: "'a list \<Rightarrow> bool" where
  "short v \<longleftrightarrow> length v < 2 ^ 32"

lemma push_length_Inr [simp]:
  "push_length out n = Inr r \<longleftrightarrow> n < 2 ^ 32 \<and> r = out @ len_bytes n"
  by (auto simp: push_length_def len_bytes_def)

lemma push_variable_Inr [simp]:
  "push_variable out v = Inr r \<longleftrightarrow> short v \<and> r = out @ var_bytes v"
  by (auto simp: push_variable_def var_bytes_def short_def)

lemma length_len_bytes [simp]: "length (len_bytes n) = 4"
  by (simp add: len_bytes_def)

lemma length_var_bytes [simp]: "length (var_bytes v) = 4 + length v"
  by (simp add: var_bytes_def)

section \<open>The reader\<close>

record reader =
  rd_bytes :: bytes
  rd_position :: nat

type_synonym 'a parser = "reader \<Rightarrow> ('a \<times> reader) result"

definition reader_new :: "bytes \<Rightarrow> reader" where
  "reader_new bs = \<lparr>rd_bytes = bs, rd_position = 0\<rparr>"

definition remaining :: "reader \<Rightarrow> nat" where
  "remaining r = length (rd_bytes r) - rd_position r"

definition rd_take :: "nat \<Rightarrow> bytes parser" where
  "rd_take len r =
     (case usize_add (rd_position r) len of
        None \<Rightarrow> Inl (InvalidInput ''local encoding length overflow'')
      | Some stop \<Rightarrow>
          if stop \<le> length (rd_bytes r)
          then Inr (take len (drop (rd_position r) (rd_bytes r)), r\<lparr>rd_position := stop\<rparr>)
          else Inl (InvalidInput ''truncated local encoding''))"

definition p_bind :: "'a parser \<Rightarrow> ('a \<Rightarrow> 'b parser) \<Rightarrow> 'b parser" where
  "p_bind p f r = and_then (p r) (\<lambda>(x, r'). f x r')"

definition p_ret :: "'a \<Rightarrow> 'a parser" where
  "p_ret x r = Inr (x, r)"

definition p_lift :: "'a result \<Rightarrow> 'a parser" where
  "p_lift m r = and_then m (\<lambda>x. Inr (x, r))"

definition p_guard :: "bool \<Rightarrow> error \<Rightarrow> unit parser" where
  "p_guard b e = p_lift (guard_ok b e)"

definition p_remaining :: "nat parser" where
  "p_remaining r = Inr (remaining r, r)"

text \<open>\<open>array\<close> copies \<open>N\<close> bytes; the identifier newtypes wrap them.\<close>

definition rd_array :: "nat \<Rightarrow> bytes parser" where
  "rd_array n = rd_take n"

definition rd_u32 :: "u32 parser" where
  "rd_u32 = p_bind (rd_array 4) (\<lambda>b. p_ret (from_be_bytes b))"

definition rd_byte :: "byte parser" where
  "rd_byte = p_bind (rd_array 1) (\<lambda>b. p_ret (b ! 0))"

definition rd_u64 :: "u64 parser" where
  "rd_u64 = p_bind (rd_array 8) (\<lambda>b. p_ret (from_be_bytes b))"

definition rd_id32 :: "256 word parser" where
  "rd_id32 = p_bind (rd_array 32) (\<lambda>b. p_ret (from_be_bytes b))"

definition rd_id16 :: "128 word parser" where
  "rd_id16 = p_bind (rd_array 16) (\<lambda>b. p_ret (from_be_bytes b))"

definition rd_variable :: "bytes parser" where
  "rd_variable = p_bind rd_u32 (\<lambda>n. rd_take (unat n))"

definition rd_count :: "nat \<Rightarrow> nat parser" where
  "rd_count minimum_record_size =
     p_bind rd_u32 (\<lambda>n.
     p_bind p_remaining (\<lambda>rest.
     p_bind (p_guard (\<not> unat n > rest div minimum_record_size)
       (InvalidInput ''invalid local encoding record count'')) (\<lambda>_.
     p_ret (unat n))))"

definition rd_require_prefix :: "bytes \<Rightarrow> unit parser" where
  "rd_require_prefix prefix =
     p_bind (rd_take (length prefix)) (\<lambda>b.
     p_guard (b = prefix) (InvalidInput ''invalid local encoding magic''))"

definition LOCAL_FORMAT_VERSION :: byte where
  "LOCAL_FORMAT_VERSION = 1"

definition rd_require_version :: "unit parser" where
  "rd_require_version =
     p_bind (rd_take 1) (\<lambda>b.
     p_guard (b = [LOCAL_FORMAT_VERSION]) (InvalidInput ''unsupported local encoding version''))"

definition rd_finish :: "unit parser" where
  "rd_finish r =
     (if remaining r \<noteq> 0 then Inl (InvalidInput ''trailing local encoding bytes'')
      else Inr ((), r))"

definition run_parser :: "'a parser \<Rightarrow> bytes \<Rightarrow> 'a result" where
  "run_parser p bs = and_then (p (reader_new bs)) (\<lambda>(x, r). Inr x)"

text \<open>The counted loops of the decoders: \<open>for _ in 0..count { s = body(s)?; }\<close>.\<close>

fun rd_fold :: "nat \<Rightarrow> ('s \<Rightarrow> 's parser) \<Rightarrow> 's \<Rightarrow> 's parser" where
  "rd_fold 0 body s = p_ret s"
| "rd_fold (Suc n) body s = p_bind (body s) (rd_fold n body)"

definition rd_many :: "nat \<Rightarrow> 'a parser \<Rightarrow> 'a list parser" where
  "rd_many n p = rd_fold n (\<lambda>xs. p_bind p (\<lambda>x. p_ret (xs @ [x]))) []"

section \<open>What a parser accepts\<close>

text \<open>A reader that has consumed \<open>pre\<close> and has \<open>rest\<close> in front of it.\<close>

definition at :: "bytes \<Rightarrow> bytes \<Rightarrow> reader" where
  "at pre rest = \<lparr>rd_bytes = pre @ rest, rd_position = length pre\<rparr>"

definition reads :: "'a parser \<Rightarrow> 'a \<Rightarrow> bytes \<Rightarrow> bytes \<Rightarrow> bool" where
  "reads p x e post \<longleftrightarrow>
     (\<forall>pre. length (pre @ e @ post) \<le> usize_max \<longrightarrow> p (at pre (e @ post)) = Inr (x, at (pre @ e) post))"

lemma reader_new_at [simp]: "reader_new bs = at [] bs"
  by (simp add: reader_new_def at_def)

lemma remaining_at [simp]: "remaining (at pre rest) = length rest"
  by (simp add: remaining_def at_def)

lemma p_bind_Inr [simp]:
  "p_bind p f r = Inr (y, r'') \<longleftrightarrow> (\<exists>x r'. p r = Inr (x, r') \<and> f x r' = Inr (y, r''))"
  by (auto simp: p_bind_def)

lemma p_bind_assoc: "p_bind (p_bind p f) g = p_bind p (\<lambda>x. p_bind (f x) g)"
  by (auto simp: p_bind_def and_then_assoc fun_eq_iff split: prod.splits intro!: arg_cong2 [where f = and_then])

lemma p_ret_Inr [simp]: "p_ret x r = Inr (y, r') \<longleftrightarrow> y = x \<and> r' = r"
  by (auto simp: p_ret_def)

lemma p_lift_Inr [simp]: "p_lift m r = Inr (y, r') \<longleftrightarrow> m = Inr y \<and> r' = r"
  by (auto simp: p_lift_def)

lemma p_guard_Inr [simp]: "p_guard b e r = Inr (u, r') \<longleftrightarrow> b \<and> r' = r"
  by (auto simp: p_guard_def)

lemma p_remaining_Inr [simp]: "p_remaining r = Inr (n, r') \<longleftrightarrow> n = remaining r \<and> r' = r"
  by (auto simp: p_remaining_def)

lemma readsI:
  assumes "\<And>pre. length pre + length e + length post \<le> usize_max \<Longrightarrow>
    p (at pre (e @ post)) = Inr (x, at (pre @ e) post)"
  shows "reads p x e post"
  using assms by (simp add: reads_def)

lemma readsD:
  "reads p x e post \<Longrightarrow> length pre + length e + length post \<le> usize_max \<Longrightarrow>
    p (at pre (e @ post)) = Inr (x, at (pre @ e) post)"
  by (simp add: reads_def)

lemma reads_bind [reads_intro]:
  assumes "reads p x e1 (e2 @ post)" and "reads (f x) y e2 post"
  shows "reads (p_bind p f) y (e1 @ e2) post"
proof (rule readsI)
  fix pre :: bytes
  assume "length pre + length (e1 @ e2) + length post \<le> usize_max"
  then show "p_bind p f (at pre ((e1 @ e2) @ post)) = Inr (y, at (pre @ e1 @ e2) post)"
    using readsD [OF assms(1), of pre] readsD [OF assms(2), of "pre @ e1"] by simp
qed

lemma reads_bind_nil:
  assumes "reads p x [] (e @ post)" and "reads (f x) y e post"
  shows "reads (p_bind p f) y e post"
  using reads_bind [of p x "[]" e post f y] assms by simp

lemma reads_bind_last:
  assumes "reads p x e post" and "reads (f x) y [] post"
  shows "reads (p_bind p f) y e post"
  using reads_bind [of p x e "[]" post f y] assms by simp

lemma reads_ret [reads_intro]: "reads (p_ret x) x [] post"
  by (simp add: reads_def p_ret_def)

lemma reads_ret': "x = y \<Longrightarrow> reads (p_ret x) y [] post"
  by (simp add: reads_ret)

lemma reads_lift: "m = Inr x \<Longrightarrow> reads (p_lift m) x [] post"
  by (simp add: reads_def p_lift_def)

lemma reads_guard: "b \<Longrightarrow> reads (p_guard b e) () [] post"
  by (simp add: reads_def p_guard_def p_lift_def)

lemma reads_remaining: "reads p_remaining (length post) [] post"
  by (simp add: reads_def p_remaining_def)

lemma reads_finish [reads_intro]: "reads rd_finish () [] []"
  by (simp add: reads_def rd_finish_def)

lemma reads_take: "length e = n \<Longrightarrow> reads (rd_take n) e e post"
  by (rule readsI) (simp add: rd_take_def at_def usize_add_def)

lemma reads_u32 [reads_intro]: "reads rd_u32 w (to_be_bytes w) post"
  unfolding rd_u32_def rd_array_def
  by (rule reads_bind_last [OF reads_take]) (simp_all add: reads_ret')

lemma reads_u64 [reads_intro]: "reads rd_u64 w (to_be_bytes w) post"
  unfolding rd_u64_def rd_array_def
  by (rule reads_bind_last [OF reads_take]) (simp_all add: reads_ret')

lemma reads_id32 [reads_intro]: "reads rd_id32 w (to_be_bytes w) post"
  unfolding rd_id32_def rd_array_def
  by (rule reads_bind_last [OF reads_take]) (simp_all add: reads_ret')

lemma reads_id16 [reads_intro]: "reads rd_id16 w (to_be_bytes w) post"
  unfolding rd_id16_def rd_array_def
  by (rule reads_bind_last [OF reads_take]) (simp_all add: reads_ret')

lemma reads_byte [reads_intro]: "reads rd_byte b [b] post"
  unfolding rd_byte_def rd_array_def
  by (rule reads_bind_last [OF reads_take]) (simp_all add: reads_ret')

lemma reads_byte_bind: "reads (f b) y e post \<Longrightarrow> reads (p_bind rd_byte f) y (b # e) post"
  using reads_bind [OF reads_byte, of f b y e post] by simp

lemma unat_of_nat_short: "n < 2 ^ 32 \<Longrightarrow> unat (of_nat n :: u32) = n"
  by (simp add: unat_of_nat)

lemma reads_variable [reads_intro]: "short v \<Longrightarrow> reads rd_variable v (var_bytes v) post"
  unfolding rd_variable_def var_bytes_def len_bytes_def
  by (rule reads_bind [OF reads_u32 reads_take]) (simp add: unat_of_nat_short short_def)

lemma reads_count:
  assumes "n < 2 ^ 32" and "n * m \<le> length post" and "0 < m"
  shows "reads (rd_count m) n (len_bytes n) post"
proof -
  have "n \<le> length post div m"
    using assms by (simp add: less_eq_div_iff_mult_less_eq)
  then show ?thesis
    unfolding rd_count_def len_bytes_def
    by (intro reads_bind_last [OF reads_u32] reads_bind_nil [OF reads_remaining]
        reads_bind_nil [OF reads_guard] reads_ret') (use assms(1) in \<open>simp_all add: unat_of_nat_short\<close>)
qed

lemma reads_require_prefix: "reads (rd_require_prefix p) () p post"
  unfolding rd_require_prefix_def
  by (rule reads_bind_last [OF reads_take reads_guard]) simp_all

lemma reads_require_version: "reads rd_require_version () [LOCAL_FORMAT_VERSION] post"
  unfolding rd_require_version_def
  by (rule reads_bind_last [OF reads_take reads_guard]) simp_all

lemma run_parser_reads:
  "reads p x bs [] \<Longrightarrow> length bs \<le> usize_max \<Longrightarrow> run_parser p bs = Inr x"
  using readsD [of p x bs "[]" "[]"] by (simp add: run_parser_def)

section \<open>What a successful read says\<close>

lemma run_parser_Inr [simp]: "run_parser p bs = Inr x \<longleftrightarrow> (\<exists>r. p (at [] bs) = Inr (x, r))"
  by (auto simp: run_parser_def)

lemma rd_take_inv [wire_elim]:
  assumes "rd_take n (at pre rest) = Inr (v, r')"
  obtains post where "rest = v @ post" and "length v = n" and "r' = at (pre @ v) post"
proof
  show "rest = v @ drop n rest" and "length v = n" and "r' = at (pre @ v) (drop n rest)"
    using assms by (auto simp: rd_take_def at_def usize_add_def split: if_splits)
qed

lemma rd_u32_inv [wire_elim]:
  assumes "rd_u32 (at pre rest) = Inr (v, r')"
  obtains post where "rest = to_be_bytes v @ post" and "r' = at (pre @ to_be_bytes v) post"
  using assms by (auto simp: rd_u32_def rd_array_def elim!: rd_take_inv)

lemma rd_u64_inv [wire_elim]:
  assumes "rd_u64 (at pre rest) = Inr (v, r')"
  obtains post where "rest = to_be_bytes v @ post" and "r' = at (pre @ to_be_bytes v) post"
  using assms by (auto simp: rd_u64_def rd_array_def elim!: rd_take_inv)

lemma rd_id32_inv [wire_elim]:
  assumes "rd_id32 (at pre rest) = Inr (v, r')"
  obtains post where "rest = to_be_bytes v @ post" and "r' = at (pre @ to_be_bytes v) post"
  using assms by (auto simp: rd_id32_def rd_array_def elim!: rd_take_inv)

lemma rd_id16_inv [wire_elim]:
  assumes "rd_id16 (at pre rest) = Inr (v, r')"
  obtains post where "rest = to_be_bytes v @ post" and "r' = at (pre @ to_be_bytes v) post"
  using assms by (auto simp: rd_id16_def rd_array_def elim!: rd_take_inv)

lemma rd_byte_inv [wire_elim]:
  assumes "rd_byte (at pre rest) = Inr (v, r')"
  obtains post where "rest = v # post" and "r' = at (pre @ [v]) post"
  using assms by (auto simp: rd_byte_def rd_array_def length_Suc_conv elim!: rd_take_inv)

lemma len_bytes_unat: "len_bytes (unat (n :: u32)) = to_be_bytes n"
  by (simp add: len_bytes_def)

lemma unat_u32_less: "unat (n :: u32) < 4294967296"
proof -
  have "unat n < 2 ^ LENGTH(32)" by (rule unsigned_less)
  then show ?thesis by simp
qed

lemma rd_variable_inv [wire_elim]:
  assumes "rd_variable (at pre rest) = Inr (v, r')"
  obtains post where "rest = var_bytes v @ post" and "short v" and "r' = at (pre @ var_bytes v) post"
  using assms
  by (auto simp: rd_variable_def var_bytes_def short_def len_bytes_unat unat_u32_less
      elim!: rd_u32_inv rd_take_inv)

lemma rd_count_inv [wire_elim]:
  assumes "rd_count m (at pre rest) = Inr (n, r')"
  obtains post where "rest = len_bytes n @ post" and "n < 2 ^ 32" and "n \<le> length post div m"
    and "r' = at (pre @ len_bytes n) post"
  using assms
  by (auto simp: rd_count_def len_bytes_unat unat_u32_less elim!: rd_u32_inv)

lemma rd_finish_inv [wire_elim]:
  assumes "rd_finish (at pre rest) = Inr (u, r')"
  obtains "rest = []" and "r' = at pre []"
  using assms by (auto simp: rd_finish_def split: if_splits)

lemma rd_require_prefix_inv [wire_elim]:
  assumes "rd_require_prefix p (at pre rest) = Inr (u, r')"
  obtains post where "rest = p @ post" and "r' = at (pre @ p) post"
  using assms by (auto simp: rd_require_prefix_def elim!: rd_take_inv)

lemma rd_require_version_inv [wire_elim]:
  assumes "rd_require_version (at pre rest) = Inr (u, r')"
  obtains post where "rest = LOCAL_FORMAT_VERSION # post"
    and "r' = at (pre @ [LOCAL_FORMAT_VERSION]) post"
  using assms by (auto simp: rd_require_version_def elim!: rd_take_inv)

section \<open>Loops\<close>

lemma reads_fold:
  assumes step: "\<And>s x xs post. I s (x # xs) \<Longrightarrow> reads (body s) (upd x s) (enc x) post \<and> I (upd x s) xs"
    and "I s xs" and "n = length xs"
  shows "reads (rd_fold n body s) (fold upd xs s) (concat (map enc xs)) post"
  using assms(2,3)
proof (induction xs arbitrary: s n)
  case (Cons x xs)
  have body: "reads (body s) (upd x s) (enc x) (concat (map enc xs) @ post)"
    and rest: "I (upd x s) xs"
    using step [OF Cons.prems(1)] by auto
  have "reads (rd_fold (length xs) body (upd x s)) (fold upd xs (upd x s)) (concat (map enc xs)) post"
    by (rule Cons.IH [OF rest refl])
  with Cons.prems(2) show ?case
    by (simp add: reads_bind [OF body])
qed (simp add: reads_ret)

lemma rd_fold_inv:
  assumes step: "\<And>s pre rest s' r'. body s (at pre rest) = Inr (s', r') \<Longrightarrow>
      \<exists>x post. V s x \<and> s' = upd x s \<and> rest = enc x @ post \<and> r' = at (pre @ enc x) post"
    and run: "rd_fold n body s (at pre rest) = Inr (t, r')"
  shows "\<exists>xs post. length xs = n \<and> t = fold upd xs s \<and> rest = concat (map enc xs) @ post \<and>
      r' = at (pre @ concat (map enc xs)) post \<and>
      (\<forall>i < n. V (fold upd (take i xs) s) (xs ! i))"
  using run
proof (induction n arbitrary: s pre rest)
  case (Suc n)
  then obtain s1 r1 where b: "body s (at pre rest) = Inr (s1, r1)"
    and f: "rd_fold n body s1 r1 = Inr (t, r')"
    by auto
  from step [OF b] obtain x post where x: "V s x" "s1 = upd x s" "rest = enc x @ post"
    "r1 = at (pre @ enc x) post" by blast
  from Suc.IH f x(2,4) obtain xs post' where xs: "length xs = n" "t = fold upd xs s1"
    "post = concat (map enc xs) @ post'" "r' = at ((pre @ enc x) @ concat (map enc xs)) post'"
    and v: "\<forall>i < n. V (fold upd (take i xs) s1) (xs ! i)"
    by blast
  have "\<forall>i < Suc n. V (fold upd (take i (x # xs)) s) ((x # xs) ! i)"
    using v x(1,2) by (auto simp: less_Suc_eq_0_disj)
  with x xs show ?case
    by (intro exI [of _ "x # xs"] exI [of _ post']) simp
qed simp

lemma fold_snoc [simp]: "fold (\<lambda>x xs. xs @ [x]) xs ys = ys @ xs"
  by (induction xs arbitrary: ys) auto

lemma rd_fold_many:
  "rd_fold n (\<lambda>xs. p_bind p (\<lambda>x. p_ret (xs @ [x]))) [] = rd_many n p"
  by (simp add: rd_many_def)

section \<open>Ordered sequences\<close>

text \<open>
  Canonical collections are written in strictly increasing key order, and their readers keep the
  previous key: \<open>if previous.is_some_and(|p| p >= key) \<open>{\<close> return Err(..) \<open>}\<close>\<close>.
\<close>

definition above :: "'k::linorder option \<Rightarrow> 'k \<Rightarrow> bool" where
  "above previous k = (case previous of None \<Rightarrow> True | Some q \<Rightarrow> \<not> q \<ge> k)"

definition rd_ascending ::
  "nat \<Rightarrow> ('k option \<Rightarrow> ('k \<times> 'a) parser) \<Rightarrow> ('a \<Rightarrow> 's \<Rightarrow> 's) \<Rightarrow> 's \<Rightarrow> 's parser" where
  "rd_ascending n step ins s =
     p_bind (rd_fold n (\<lambda>(previous, s).
       p_bind (step previous) (\<lambda>(k, x). p_ret (Some k, ins x s))) (None, s)) (\<lambda>(_, s). p_ret s)"

definition checked ::
  "('a \<Rightarrow> 'k::linorder) \<Rightarrow> string \<Rightarrow> 'a parser \<Rightarrow> 'k option \<Rightarrow> ('k \<times> 'a) parser" where
  "checked key msg p previous =
     p_bind p (\<lambda>x.
     p_bind (p_guard (above previous (key x)) (InvalidInput msg)) (\<lambda>_.
     p_ret (key x, x)))"

definition push_ascending ::
  "('a \<Rightarrow> 'k::linorder) \<Rightarrow> string \<Rightarrow> ('a \<Rightarrow> bytes result) \<Rightarrow> 'a list \<Rightarrow> bytes \<Rightarrow> bytes result" where
  "push_ascending key msg enc xs out =
     and_then (fold_ok (\<lambda>x (previous, out).
       and_then (guard_ok (above previous (key x)) (InvalidInput msg)) (\<lambda>_.
       and_then (enc x) (\<lambda>b.
       Inr (Some (key x), out @ b)))) xs (None, out)) (\<lambda>(_, out). Inr out)"

fun chain_above :: "('a \<Rightarrow> 'k::linorder) \<Rightarrow> 'k option \<Rightarrow> 'a list \<Rightarrow> bool" where
  "chain_above key previous [] = True"
| "chain_above key previous (x # xs) = (above previous (key x) \<and> chain_above key (Some (key x)) xs)"

lemma chain_above_Some:
  "chain_above key (Some q) xs \<longleftrightarrow> (\<forall>x \<in> set xs. q < key x) \<and> sorted_wrt (<) (map key xs)"
  by (induction xs arbitrary: q) (auto simp: above_def not_le intro: less_trans)

lemma chain_above_None: "chain_above key None xs \<longleftrightarrow> sorted_wrt (<) (map key xs)"
  by (cases xs) (auto simp: above_def chain_above_Some)

lemma push_ascending_Inr:
  "push_ascending key msg enc xs out = Inr r \<longleftrightarrow>
    sorted_wrt (<) (map key xs) \<and> (\<exists>bs. map_ok enc xs = Inr bs \<and> r = out @ concat bs)"
proof -
  have "fold_ok (\<lambda>x (previous, out).
       and_then (guard_ok (above previous (key x)) (InvalidInput msg)) (\<lambda>_.
       and_then (enc x) (\<lambda>b.
       Inr (Some (key x), out @ b)))) xs (previous, out) = Inr t \<longleftrightarrow>
      chain_above key previous xs \<and> (\<exists>bs. map_ok enc xs = Inr bs \<and>
        t = (if xs = [] then previous else Some (key (last xs)), out @ concat bs))"
    for previous out t
    by (induction xs arbitrary: previous out) auto
  then show ?thesis
    by (auto simp: push_ascending_def chain_above_None)
qed

locale ascending =
  fixes step :: "'k::linorder option \<Rightarrow> ('k \<times> 'a) parser"
    and key :: "'a \<Rightarrow> 'k"
    and enc :: "'a \<Rightarrow> bytes"
    and valid :: "'a \<Rightarrow> bool"
    and lo :: nat
  assumes step_enc: "valid x \<Longrightarrow> above previous (key x) \<Longrightarrow> reads (step previous) (key x, x) (enc x) post"
    and enc_step: "step previous (at pre rest) = Inr ((k, x), r') \<Longrightarrow>
      k = key x \<and> valid x \<and> above previous (key x) \<and> (\<exists>post. rest = enc x @ post \<and> r' = at (pre @ enc x) post)"
    and step_size: "valid x \<Longrightarrow> lo \<le> length (enc x)"
begin

lemma seq_size: "\<forall>x \<in> set xs. valid x \<Longrightarrow> length xs * lo \<le> length (concat (map enc xs))"
  by (induction xs) (auto intro: add_mono step_size)

lemma fold_state: "snd (fold (\<lambda>x (previous, s). (Some (key x), ins x s)) xs (previous, s)) = fold ins xs s"
  by (induction xs arbitrary: previous s) auto

lemma reads_ascending:
  assumes "\<forall>x \<in> set xs. valid x" and "sorted_wrt (<) (map key xs)" and "n = length xs"
  shows "reads (rd_ascending n step ins s) (fold ins xs s) (concat (map enc xs)) post"
proof -
  let ?upd = "\<lambda>x (previous, s). (Some (key x), ins x s)"
  have "reads (rd_fold n (\<lambda>(previous, s). p_bind (step previous) (\<lambda>(k, x). p_ret (Some k, ins x s))) (None, s))
      (fold ?upd xs (None, s)) (concat (map enc xs)) post"
    by (rule reads_fold [where I = "\<lambda>st xs. (\<forall>x \<in> set xs. valid x) \<and> chain_above key (fst st) xs"])
      (use assms in \<open>auto simp: chain_above_None intro!: reads_bind_last [OF step_enc] reads_ret'\<close>)
  then show ?thesis
    unfolding rd_ascending_def
    by (rule reads_bind_last)
      (use fold_state [of ins xs None s] in \<open>auto split: prod.splits intro!: reads_ret'\<close>)
qed

lemma ascending_inv:
  assumes "rd_ascending n step ins s (at pre rest) = Inr (t, r')"
  shows "\<exists>xs post. length xs = n \<and> t = fold ins xs s \<and> (\<forall>x \<in> set xs. valid x) \<and>
    sorted_wrt (<) (map key xs) \<and> rest = concat (map enc xs) @ post \<and>
    r' = at (pre @ concat (map enc xs)) post"
proof -
  have "\<exists>previous. rd_fold n (\<lambda>(previous, s). p_bind (step previous) (\<lambda>(k, x). p_ret (Some k, ins x s)))
      (None, s) (at pre rest) = Inr ((previous, t), r')"
    using assms by (auto simp: rd_ascending_def)
  moreover have "\<exists>xs post. length xs = n \<and> t = fold ins xs s \<and> (\<forall>x \<in> set xs. valid x) \<and>
      chain_above key previous xs \<and> rest = concat (map enc xs) @ post \<and>
      r' = at (pre @ concat (map enc xs)) post"
    if "rd_fold n (\<lambda>(previous, s). p_bind (step previous) (\<lambda>(k, x). p_ret (Some k, ins x s)))
      (previous, s) (at pre rest) = Inr ((previous', t), r')" for previous previous'
    using that
  proof (induction n arbitrary: previous s pre rest)
    case (Suc n)
    from Suc.prems obtain k x r1 where st: "step previous (at pre rest) = Inr ((k, x), r1)"
      and more: "rd_fold n (\<lambda>(previous, s). p_bind (step previous) (\<lambda>(k, x). p_ret (Some k, ins x s)))
        (Some k, ins x s) r1 = Inr ((previous', t), r')"
      by auto
    from enc_step [OF st] obtain post where x: "k = key x" "valid x" "above previous (key x)"
      "rest = enc x @ post" "r1 = at (pre @ enc x) post" by blast
    from Suc.IH [OF more [unfolded x(5)]] obtain xs post' where "length xs = n" "t = fold ins xs (ins x s)"
      "\<forall>y \<in> set xs. valid y" "chain_above key (Some k) xs" "post = concat (map enc xs) @ post'"
      "r' = at ((pre @ enc x) @ concat (map enc xs)) post'" by blast
    with x show ?case
      by (intro exI [of _ "x # xs"] exI [of _ post']) simp
  qed auto
  ultimately show ?thesis
    by (metis chain_above_None)
qed

end

section \<open>Codecs\<close>

locale codec =
  fixes p :: "'a parser"
    and enc :: "'a \<Rightarrow> bytes"
    and valid :: "'a \<Rightarrow> bool"
    and lo :: nat
  assumes dec_enc: "valid x \<Longrightarrow> reads p x (enc x) post"
    and enc_dec: "p (at pre rest) = Inr (x, r') \<Longrightarrow>
      valid x \<and> (\<exists>post. rest = enc x @ post \<and> r' = at (pre @ enc x) post)"
    and enc_size: "valid x \<Longrightarrow> lo \<le> length (enc x)"
    and lo_pos: "0 < lo"
begin

definition counted :: "'a list \<Rightarrow> bytes" where
  "counted xs = len_bytes (length xs) @ concat (map enc xs)"

lemma concat_size: "\<forall>x \<in> set xs. valid x \<Longrightarrow> length xs * lo \<le> length (concat (map enc xs))"
  by (induction xs) (auto intro: add_mono enc_size)

lemma reads_many:
  assumes "\<forall>x \<in> set xs. valid x" and "n = length xs"
  shows "reads (rd_many n p) xs (concat (map enc xs)) post"
proof -
  have "reads (rd_many n p) (fold (\<lambda>x xs. xs @ [x]) xs []) (concat (map enc xs)) post"
    unfolding rd_many_def
    by (rule reads_fold [where I = "\<lambda>s xs. \<forall>x \<in> set xs. valid x", OF _ assms])
      (auto intro: reads_bind_last [OF dec_enc reads_ret])
  then show ?thesis by simp
qed

lemma many_inv:
  assumes "rd_many n p (at pre rest) = Inr (xs, r')"
  shows "length xs = n \<and> (\<forall>x \<in> set xs. valid x) \<and>
    (\<exists>post. rest = concat (map enc xs) @ post \<and> r' = at (pre @ concat (map enc xs)) post)"
proof -
  have "\<exists>x post. valid x \<and> s' = s @ [x] \<and> rest = enc x @ post \<and> r' = at (pre @ enc x) post"
    if "p_bind p (\<lambda>x. p_ret (s @ [x])) (at pre rest) = Inr (s', r')" for s pre rest s' r'
    using that by (auto dest!: enc_dec)
  from rd_fold_inv [where V = "\<lambda>s x. valid x" and upd = "\<lambda>x xs. xs @ [x]" and enc = enc,
      OF this assms [unfolded rd_many_def]]
  show ?thesis by (auto simp: in_set_conv_nth)
qed

lemma reads_counted:
  assumes "\<forall>x \<in> set xs. valid x" and "short xs" and "0 < m" and "m \<le> lo"
  shows "reads (p_bind (rd_count m) (\<lambda>n. rd_many n p)) xs (counted xs) post"
proof -
  have "length xs * m \<le> length (concat (map enc xs))"
    using concat_size [OF assms(1)] assms(4) by (meson le_trans mult_le_mono2)
  with assms show ?thesis
    unfolding counted_def by (intro reads_bind [OF reads_count] reads_many) (auto simp: short_def)
qed

lemma counted_inv:
  assumes "p_bind (rd_count m) (\<lambda>n. rd_many n p) (at pre rest) = Inr (xs, r')"
  shows "short xs \<and> (\<forall>x \<in> set xs. valid x) \<and>
    (\<exists>post. rest = counted xs @ post \<and> r' = at (pre @ counted xs) post)"
  using assms by (auto simp: counted_def short_def elim!: rd_count_inv dest!: many_inv)

lemma ascending_checked: "ascending (checked key msg p) key enc valid lo"
proof
  fix x previous post
  assume "valid x" "above previous (key x)"
  then show "reads (checked key msg p previous) (key x, x) (enc x) post"
    unfolding checked_def
    by (intro reads_bind_last [OF dec_enc] reads_bind_nil [OF reads_guard] reads_ret)
next
  fix previous pre rest k x r'
  assume "checked key msg p previous (at pre rest) = Inr ((k, x), r')"
  then show "k = key x \<and> valid x \<and> above previous (key x) \<and>
      (\<exists>post. rest = enc x @ post \<and> r' = at (pre @ enc x) post)"
    by (auto simp: checked_def dest!: enc_dec)
qed (rule enc_size)

lemma codec_counted:
  assumes "0 < m" and "m \<le> lo"
  shows "codec (p_bind (rd_count m) (\<lambda>n. rd_many n p)) counted (\<lambda>xs. short xs \<and> (\<forall>x \<in> set xs. valid x)) 4"
proof
  fix xs post
  assume "short xs \<and> (\<forall>x \<in> set xs. valid x)"
  then show "reads (p_bind (rd_count m) (\<lambda>n. rd_many n p)) xs (counted xs) post"
    using reads_counted assms by blast
next
  fix pre rest xs r'
  assume "p_bind (rd_count m) (\<lambda>n. rd_many n p) (at pre rest) = Inr (xs, r')"
  then show "(short xs \<and> (\<forall>x \<in> set xs. valid x)) \<and> (\<exists>post. rest = counted xs @ post \<and> r' = at (pre @ counted xs) post)"
    using counted_inv by blast
qed (simp_all add: counted_def)

text \<open>A message that is exactly one record: decoding inverts encoding, both ways.\<close>

lemma whole_iff:
  assumes "length bs \<le> usize_max"
  shows "run_parser (p_bind p (\<lambda>x. p_bind rd_finish (\<lambda>_. p_ret x))) bs = Inr x \<longleftrightarrow>
    valid x \<and> bs = enc x"
proof
  assume "run_parser (p_bind p (\<lambda>x. p_bind rd_finish (\<lambda>_. p_ret x))) bs = Inr x"
  then show "valid x \<and> bs = enc x"
    by (auto dest!: enc_dec elim!: rd_finish_inv)
next
  assume "valid x \<and> bs = enc x"
  then have "reads (p_bind p (\<lambda>x. p_bind rd_finish (\<lambda>_. p_ret x))) x bs []"
    by (auto intro!: reads_bind_last [OF dec_enc] reads_bind_last [OF reads_finish] reads_ret)
  with assms show "run_parser (p_bind p (\<lambda>x. p_bind rd_finish (\<lambda>_. p_ret x))) bs = Inr x"
    by (blast intro: run_parser_reads)
qed

end

interpretation c_byte: codec rd_byte "\<lambda>b. [b]" "\<lambda>_. True" 1
  by unfold_locales (auto intro: reads_byte elim!: rd_byte_inv)

interpretation c_u64: codec rd_u64 to_be_bytes "\<lambda>_. True" 8
  by unfold_locales (auto intro: reads_u64 elim!: rd_u64_inv)

interpretation c_id32: codec rd_id32 to_be_bytes "\<lambda>_. True" 32
  by unfold_locales (auto intro: reads_id32 elim!: rd_id32_inv)

interpretation c_var: codec rd_variable var_bytes short 4
  by unfold_locales (auto intro: reads_variable elim!: rd_variable_inv)

section \<open>Keyed sequences\<close>

text \<open>A map entry: the key is read and compared with the previous one before the value is read.\<close>

definition keyed ::
  "string \<Rightarrow> 'k::linorder parser \<Rightarrow> ('k \<Rightarrow> 'v parser) \<Rightarrow> 'k option \<Rightarrow> ('k \<times> 'k \<times> 'v) parser" where
  "keyed msg pk pv previous =
     p_bind pk (\<lambda>k.
     p_bind (p_guard (above previous k) (InvalidInput msg)) (\<lambda>_.
     p_bind (pv k) (\<lambda>v.
     p_ret (k, k, v))))"

lemma ascending_keyed:
  assumes "codec pk enck (\<lambda>_. True) lo" and "\<And>k. codec (pv k) encv (ok k) lo'"
  shows "ascending (keyed msg pk pv) fst (\<lambda>e. enck (fst e) @ encv (snd e)) (\<lambda>e. ok (fst e) (snd e)) (lo + lo')"
proof
  fix e previous post
  assume "ok (fst e) (snd e)" "above previous (fst e)"
  then show "reads (keyed msg pk pv previous) (fst e, e) (enck (fst e) @ encv (snd e)) post"
    unfolding keyed_def
    by (intro reads_bind [OF codec.dec_enc [OF assms(1)]] reads_bind_nil [OF reads_guard]
        reads_bind_last [OF codec.dec_enc [OF assms(2)]] reads_ret') auto
next
  fix previous pre rest k e r'
  assume "keyed msg pk pv previous (at pre rest) = Inr ((k, e), r')"
  then obtain v r1 where r1: "pk (at pre rest) = Inr (k, r1)" "above previous k" "pv k r1 = Inr (v, r')" "e = (k, v)"
    by (auto simp: keyed_def)
  from codec.enc_dec [OF assms(1) r1(1)] obtain post where post: "rest = enck k @ post" "r1 = at (pre @ enck k) post"
    by blast
  from codec.enc_dec [OF assms(2) r1(3) [unfolded post(2)]] post r1(2,4)
  show "k = fst e \<and> ok (fst e) (snd e) \<and> above previous (fst e) \<and>
      (\<exists>post. rest = (enck (fst e) @ encv (snd e)) @ post \<and> r' = at (pre @ enck (fst e) @ encv (snd e)) post)"
    by auto
next
  fix e assume "ok (fst e) (snd e)"
  then show "lo + lo' \<le> length (enck (fst e) @ encv (snd e))"
    using codec.enc_size [OF assms(1), of "fst e"] codec.enc_size [OF assms(2), of "fst e" "snd e"] by simp
qed

lemma codec_pair:
  assumes "codec p enc ok lo" and "codec q enc' ok' lo'"
  shows "codec (p_bind p (\<lambda>x. p_bind q (\<lambda>y. p_ret (x, y)))) (\<lambda>z. enc (fst z) @ enc' (snd z))
    (\<lambda>z. ok (fst z) \<and> ok' (snd z)) (lo + lo')"
proof
  fix z post
  assume "ok (fst z) \<and> ok' (snd z)"
  then show "reads (p_bind p (\<lambda>x. p_bind q (\<lambda>y. p_ret (x, y)))) z (enc (fst z) @ enc' (snd z)) post"
    by (intro reads_bind [OF codec.dec_enc [OF assms(1)]] reads_bind_last [OF codec.dec_enc [OF assms(2)]] reads_ret') auto
next
  fix pre rest z r'
  assume "p_bind p (\<lambda>x. p_bind q (\<lambda>y. p_ret (x, y))) (at pre rest) = Inr (z, r')"
  then obtain x y r1 where x: "p (at pre rest) = Inr (x, r1)" "q r1 = Inr (y, r')" "z = (x, y)"
    by auto
  from codec.enc_dec [OF assms(1) x(1)] obtain post where post: "rest = enc x @ post" "r1 = at (pre @ enc x) post" "ok x"
    by blast
  from codec.enc_dec [OF assms(2) x(2) [unfolded post(2)]] post x(3)
  show "(ok (fst z) \<and> ok' (snd z)) \<and>
      (\<exists>post. rest = (enc (fst z) @ enc' (snd z)) @ post \<and> r' = at (pre @ enc (fst z) @ enc' (snd z)) post)"
    by auto
next
  show "0 < lo + lo'" using codec.lo_pos [OF assms(1)] by simp
  fix z assume "ok (fst z) \<and> ok' (snd z)"
  then show "lo + lo' \<le> length (enc (fst z) @ enc' (snd z))"
    using codec.enc_size [OF assms(1), of "fst z"] codec.enc_size [OF assms(2), of "snd z"] by simp
qed

lemma fold_map_insert: "bm_ok m \<Longrightarrow> fold (\<lambda>e. bm_insert (fst e) (snd e)) m [] = m"
  using bm_fold_insert [of fst m snd] by (simp add: bm_ok_def)

text \<open>A writer loop whose body appends one encoded record.\<close>

definition push_all :: "('a \<Rightarrow> bytes result) \<Rightarrow> 'a list \<Rightarrow> bytes \<Rightarrow> bytes result" where
  "push_all enc xs out = fold_ok (\<lambda>x out. and_then (enc x) (\<lambda>b. Inr (out @ b))) xs out"

lemma push_all_Inr:
  assumes "\<And>x b. x \<in> set xs \<Longrightarrow> enc x = Inr b \<longleftrightarrow> ok x \<and> b = e x"
  shows "push_all enc xs out = Inr r \<longleftrightarrow> (\<forall>x \<in> set xs. ok x) \<and> r = out @ concat (map e xs)"
  unfolding push_all_def using assms by (induction xs arbitrary: out) auto

end
