(* ===== verification/Messages.thy ===== *)
theory Messages
  imports Wire
begin

text \<open>
  The data of the protocol, one record per struct and one datatype per enum, with the
  source's fields in their order: \<open>protocol/\<close>, \<open>crypto/identity.rs\<close>,
  \<open>crypto/wrap.rs\<close>, \<open>net/join.rs\<close>, \<open>net/directory.rs\<close>, \<open>sync/host.rs\<close>,
  \<open>store/tree.rs\<close>. A \<open>String\<close> is its UTF-8 byte sequence; \<open>utf8_ok\<close> is the check of
  \<open>std::str::from_utf8\<close>, which every \<open>String\<close> satisfies.
\<close>

section \<open>UTF-8\<close>

definition utf8_cont :: "byte \<Rightarrow> bool" where
  "utf8_cont b \<longleftrightarrow> 128 \<le> b \<and> b \<le> 191"

fun utf8_ok :: "bytes \<Rightarrow> bool" where
  "utf8_ok [] = True"
| "utf8_ok (a # s) =
     (if a \<le> 127 then utf8_ok s
      else if 194 \<le> a \<and> a \<le> 223 then
        (case s of b # s \<Rightarrow> utf8_cont b \<and> utf8_ok s | _ \<Rightarrow> False)
      else if 224 \<le> a \<and> a \<le> 239 then
        (case s of b # c # s \<Rightarrow>
           (if a = 224 then 160 \<le> b \<and> b \<le> 191
            else if a = 237 then 128 \<le> b \<and> b \<le> 159
            else utf8_cont b) \<and> utf8_cont c \<and> utf8_ok s
         | _ \<Rightarrow> False)
      else if 240 \<le> a \<and> a \<le> 244 then
        (case s of b # c # d # s \<Rightarrow>
           (if a = 240 then 144 \<le> b \<and> b \<le> 191
            else if a = 244 then 128 \<le> b \<and> b \<le> 143
            else utf8_cont b) \<and> utf8_cont c \<and> utf8_cont d \<and> utf8_ok s
         | _ \<Rightarrow> False)
      else False)"

lemma utf8_ok_ascii: "\<forall>b \<in> set s. b \<le> 127 \<Longrightarrow> utf8_ok s"
  by (induction s) auto

section \<open>Packets\<close>

record PacketHeader =
  hdr_version :: byte
  hdr_sender_id :: PeerId
  hdr_receiver_id :: PeerId
  hdr_epoch :: Epoch
  hdr_seq :: Seq

record ControlPacket =
  cp_header :: PacketHeader
  cp_ciphertext :: bytes

datatype Direction = Inbound | Outbound

datatype PayloadType = Packet | ChunkBody

record ReplayWindowKey =
  rk_peer_id :: PeerId
  rk_epoch :: Epoch
  rk_direction :: Direction
  rk_payload_type :: PayloadType

record ChunkBodyFrame =
  cbf_header :: PacketHeader
  cbf_file_id :: FileId
  cbf_index :: u64
  cbf_ciphertext :: bytes

definition PROTOCOL_VERSION :: byte where
  "PROTOCOL_VERSION = 1"

section \<open>Identities and wraps\<close>

record IdentityDocument =
  id_peer_id :: PeerId
  id_ek :: bytes
  id_vk :: bytes
  id_created_at :: u64
  id_signature :: bytes

record WrapMessage =
  wm_kem_ct :: bytes
  wm_wrap_ct :: bytes
  wm_epoch :: Epoch
  wm_min_id :: PeerId
  wm_max_id :: PeerId
  wm_signature :: bytes

section \<open>Files\<close>

record Manifest =
  mf_file_id :: FileId
  mf_chunk_ids :: "ChunkId list"
  mf_size :: u64
  mf_writer_id :: PeerId
  mf_version :: u64
  mf_signature :: bytes

record Dirent =
  de_parent :: FileId
  de_name :: bytes
  de_child :: FileId
  de_is_dir :: bool

record PullRequest =
  pr_chunk_ids :: "ChunkId list"

record HaveQuery =
  hq_file_id :: FileId
  hq_chunk_ids :: "ChunkId list"

record HaveReply =
  hr_file_id :: FileId
  hr_chunk_ids :: "ChunkId list"
  hr_have_bitset :: bytes

section \<open>Host instructions and mailboxes\<close>

datatype ControlUpdate =
    NewManifest Manifest
  | Add FileId
  | Kick PeerId
  | Clear FileId
  | Remove FileId
  | Link FileId bytes FileId bool
  | Unlink FileId bytes
  | Rename FileId bytes FileId bytes

record ControlRecord =
  cr_id :: u64
  cr_update :: ControlUpdate

datatype QueueContent =
    QControl ControlRecord
  | QChunk FileId u64 ChunkId

datatype MailboxFrame =
    MfControl bytes
  | MfChunkBody FileId u64 bytes

record MailboxEnvelope =
  me_recipient_id :: PeerId
  me_sender_id :: PeerId
  me_epoch :: Epoch
  me_seq :: Seq
  me_queued_at :: u64
  me_ciphertext :: bytes

datatype FlushChallenge = FlushChallenge "256 word"

section \<open>Admission\<close>

record JoinRequest =
  jr_vault_id :: VaultId
  jr_join_code :: JoinCode
  jr_document :: IdentityDocument
  jr_signature :: bytes

record NetWelcome =
  nw_vault_id :: VaultId
  nw_members :: "IdentityDocument list"
  nw_historical :: "IdentityDocument list"
  nw_denied :: "PeerId btree_set"

record FlushOffer =
  fo_challenge :: FlushChallenge
  fo_frame_count :: u32
  fo_historical :: "IdentityDocument list"
  fo_bootstrap_through :: "u64 option"

datatype NetControl =
    JoinAccepted VaultId "IdentityDocument list" "IdentityDocument list" "PeerId btree_set"
  | JoinRejected VaultId VaultId
  | AdmissionDenied
  | FlushEnd "256 word"
  | FlushApplied "256 word"
  | Ready
  | Heartbeat
  | HeartbeatApplied u64

record VaultMetadata =
  vm_vault_id :: VaultId
  vm_join_code :: JoinCode
  vm_issued_at :: u64
  vm_members :: "PeerId list"
  vm_denied :: "PeerId btree_set"

record DirForget =
  df_peer_id :: PeerId
  df_vault_id :: VaultId
  df_join_code :: JoinCode
  df_issued_at :: u64
  df_signature :: bytes

end
