(* ===== verification/Encoding_Packet.thy ===== *)
theory Encoding_Packet
  imports Messages
begin

text \<open>
  The first third of \<open>backend/src/encoding.rs\<close>: AEAD associated data and nonces, identity
  documents, wraps, control and chunk packets, epoch hints, wrap acknowledgements, directory
  forget requests and join requests. Each encoder has its decoder; the theorems show that the
  decoder accepts exactly what the encoder writes.
\<close>

unbundle bit_operations_syntax

abbreviation peer_bytes :: "PeerId \<Rightarrow> bytes" where
  "peer_bytes p \<equiv> to_be_bytes (peer_raw p)"

abbreviation file_bytes :: "FileId \<Rightarrow> bytes" where
  "file_bytes f \<equiv> to_be_bytes (file_raw f)"

abbreviation chunk_bytes :: "ChunkId \<Rightarrow> bytes" where
  "chunk_bytes c \<equiv> to_be_bytes (chunk_raw c)"

abbreviation vault_bytes :: "VaultId \<Rightarrow> bytes" where
  "vault_bytes v \<equiv> to_be_bytes (vault_raw v)"

abbreviation code_bytes :: "JoinCode \<Rightarrow> bytes" where
  "code_bytes c \<equiv> to_be_bytes (code_raw c)"

abbreviation epoch_bytes :: "Epoch \<Rightarrow> bytes" where
  "epoch_bytes e \<equiv> to_be_bytes (epoch_raw e)"

abbreviation seq_bytes :: "Seq \<Rightarrow> bytes" where
  "seq_bytes e \<equiv> to_be_bytes (seq_raw e)"

section \<open>Hashes of identities and chunks\<close>

text \<open>SHA-256 is the \<open>sha2\<close> crate; it is a parameter of every definition that uses it.\<close>

definition PEER_ID_DOMAIN :: bytes where
  "PEER_ID_DOMAIN = ascii ''qfs/v1/peer''"

definition peer_id :: "(bytes \<Rightarrow> 256 word) \<Rightarrow> bytes \<Rightarrow> PeerId" where
  "peer_id sha256 vk = PeerId (sha256 (PEER_ID_DOMAIN @ vk))"

definition chunk_id :: "(bytes \<Rightarrow> 256 word) \<Rightarrow> FileId \<Rightarrow> u64 \<Rightarrow> bytes \<Rightarrow> ChunkId" where
  "chunk_id sha256 file_id index plaintext =
     ChunkId (sha256 (file_bytes file_id @ to_be_bytes index @ plaintext))"

lemma chunk_preimage_inj:
  "file_bytes f @ to_be_bytes i @ p = file_bytes f' @ to_be_bytes i' @ p' \<Longrightarrow>
    f = f' \<and> (i :: u64) = i' \<and> p = p'"
  by (auto simp: append_eq_append_conv intro: FileId.expand)

section \<open>Associated data and nonces\<close>

definition require_sorted_pair :: "PeerId \<Rightarrow> PeerId \<Rightarrow> unit result" where
  "require_sorted_pair min_id max_id =
     guard_ok (\<not> min_id \<ge> max_id) (InvalidInput ''wrap requires min_id < max_id as unsigned bytes'')"

definition WRAP_PAIR_DOMAIN :: bytes where
  "WRAP_PAIR_DOMAIN = ascii ''qfs/v1/wrap/pair/''"

definition wrap_hkdf_info :: "PeerId \<Rightarrow> PeerId \<Rightarrow> Epoch \<Rightarrow> bytes result" where
  "wrap_hkdf_info min_id max_id epoch =
     and_then (require_sorted_pair min_id max_id) (\<lambda>_.
     Inr (WRAP_PAIR_DOMAIN @ peer_bytes min_id @ [58] @ peer_bytes max_id @ [47] @
          epoch_bytes epoch))"

definition packet_aad :: "PacketHeader \<Rightarrow> bytes" where
  "packet_aad h = [hdr_version h] @ peer_bytes (hdr_sender_id h) @ peer_bytes (hdr_receiver_id h) @
     epoch_bytes (hdr_epoch h) @ seq_bytes (hdr_seq h)"

definition chunk_aad :: "PacketHeader \<Rightarrow> FileId \<Rightarrow> u64 \<Rightarrow> bytes" where
  "chunk_aad h file_id index = packet_aad h @ file_bytes file_id @ to_be_bytes index"

definition slice :: "bytes \<Rightarrow> nat \<Rightarrow> nat \<Rightarrow> bytes" where
  "slice bs i j = take (j - i) (drop i bs)"

definition decode_aad :: "bytes \<Rightarrow> (PacketHeader \<times> PayloadType) result" where
  "decode_aad aad =
     and_then (if length aad = 81 then Inr Packet
               else if length aad = 121 then Inr ChunkBody
               else Inl (InvalidInput ''invalid AEAD AAD length'')) (\<lambda>payload_type.
     and_then (guard_ok (aad ! 0 = PROTOCOL_VERSION) (InvalidInput ''unsupported packet version'')) (\<lambda>_.
     Inr (\<lparr>hdr_version = aad ! 0,
           hdr_sender_id = PeerId (from_be_bytes (slice aad 1 33)),
           hdr_receiver_id = PeerId (from_be_bytes (slice aad 33 65)),
           hdr_epoch = Epoch (from_be_bytes (slice aad 65 73)),
           hdr_seq = Seq (from_be_bytes (slice aad 73 81))\<rparr>, payload_type)))"

definition wrap_aad :: "PeerId \<Rightarrow> PeerId \<Rightarrow> Epoch \<Rightarrow> bytes result" where
  "wrap_aad min_id max_id epoch =
     and_then (require_sorted_pair min_id max_id) (\<lambda>_.
     Inr (peer_bytes min_id @ peer_bytes max_id @ epoch_bytes epoch))"

definition nonce :: "PacketHeader \<Rightarrow> PayloadType \<Rightarrow> bytes" where
  "nonce h payload_type =
     (let type_bit = (if payload_type = ChunkBody then 1 else 0) :: byte;
          dir_bit = (if hdr_sender_id h > hdr_receiver_id h then 1 else 0) :: byte
      in (push_bit 7 type_bit OR push_bit 6 dir_bit) # [0, 0, 0] @ seq_bytes (hdr_seq h))"

lemma length_packet_aad [simp]: "length (packet_aad h) = 81"
  by (simp add: packet_aad_def)

lemma length_chunk_aad [simp]: "length (chunk_aad h f i) = 121"
  by (simp add: chunk_aad_def)

lemma length_nonce [simp]: "length (nonce h t) = 12"
  by (simp add: nonce_def Let_def)

lemma packet_aad_slices:
  assumes "aad = packet_aad h @ post"
  shows "aad ! 0 = hdr_version h"
    and "slice aad 1 33 = peer_bytes (hdr_sender_id h)"
    and "slice aad 33 65 = peer_bytes (hdr_receiver_id h)"
    and "slice aad 65 73 = epoch_bytes (hdr_epoch h)"
    and "slice aad 73 81 = seq_bytes (hdr_seq h)"
  using assms by (simp_all add: packet_aad_def slice_def drop_Cons')

lemma decode_aad_packet:
  "hdr_version h = PROTOCOL_VERSION \<Longrightarrow> decode_aad (packet_aad h) = Inr (h, Packet)"
  using packet_aad_slices [of "packet_aad h" h "[]"]
  by (simp add: decode_aad_def)

lemma decode_aad_chunk:
  "hdr_version h = PROTOCOL_VERSION \<Longrightarrow> decode_aad (chunk_aad h f i) = Inr (h, ChunkBody)"
  using packet_aad_slices [of "chunk_aad h f i" h "file_bytes f @ to_be_bytes i"]
  by (simp add: decode_aad_def) (simp add: chunk_aad_def)

lemma slices_partition:
  assumes "81 \<le> length aad"
  shows "[aad ! 0] @ slice aad 1 33 @ slice aad 33 65 @ slice aad 65 73 @ slice aad 73 81 = take 81 aad"
proof -
  have split: "take n (drop i aad) @ take m (drop (i + n) aad) = take (n + m) (drop i aad)" for i n m
    by (simp add: take_add add.commute [of i n])
  have "[aad ! 0] = take 1 (drop 0 aad)"
    using assms by (cases aad) auto
  then show ?thesis
    using split [of 8 65 8] split [of 32 33 16] split [of 32 1 48] split [of 1 0 80]
    by (simp add: slice_def)
qed

lemma length_slice: "j \<le> length bs \<Longrightarrow> i \<le> j \<Longrightarrow> length (slice bs i j) = j - i"
  by (simp add: slice_def)

lemma decode_aad_inv:
  assumes "decode_aad aad = Inr (h, t)"
  shows "hdr_version h = PROTOCOL_VERSION" and "take 81 aad = packet_aad h"
    and "t = Packet \<and> length aad = 81 \<or> t = ChunkBody \<and> length aad = 121"
proof -
  show t: "t = Packet \<and> length aad = 81 \<or> t = ChunkBody \<and> length aad = 121"
    using assms by (auto simp: decode_aad_def split: if_splits)
  then have len: "81 \<le> length aad" by auto
  have h: "h = \<lparr>hdr_version = aad ! 0,
      hdr_sender_id = PeerId (from_be_bytes (slice aad 1 33)),
      hdr_receiver_id = PeerId (from_be_bytes (slice aad 33 65)),
      hdr_epoch = Epoch (from_be_bytes (slice aad 65 73)),
      hdr_seq = Seq (from_be_bytes (slice aad 73 81))\<rparr>" and "aad ! 0 = PROTOCOL_VERSION"
    using assms by (auto simp: decode_aad_def split: if_splits)
  then show "hdr_version h = PROTOCOL_VERSION" by simp
  show "take 81 aad = packet_aad h"
    using slices_partition [OF len] len by (simp add: h packet_aad_def length_slice)
qed

lemma packet_aad_inject: "packet_aad h = packet_aad h' \<longleftrightarrow> h = h'"
  by (auto simp: packet_aad_def intro!: PacketHeader.equality PeerId.expand Epoch.expand Seq.expand)

lemma nonce_eq_iff:
  "nonce h t = nonce h' t' \<longleftrightarrow>
     t = t' \<and> hdr_seq h = hdr_seq h' \<and>
     (hdr_sender_id h > hdr_receiver_id h \<longleftrightarrow> hdr_sender_id h' > hdr_receiver_id h')"
  by (cases t; cases t') (auto simp: nonce_def Let_def intro: Seq.expand)

section \<open>Identity documents\<close>

definition identity_m :: "IdentityDocument \<Rightarrow> bytes result" where
  "identity_m document =
     and_then (push_variable (peer_bytes (id_peer_id document)) (id_ek document)) (\<lambda>out.
     and_then (push_variable out (id_vk document)) (\<lambda>out.
     Inr (out @ to_be_bytes (id_created_at document))))"

definition encode_identity :: "IdentityDocument \<Rightarrow> bytes result" where
  "encode_identity document =
     and_then (identity_m document) (\<lambda>m.
     and_then (push_variable [] m) (\<lambda>out.
     push_variable out (id_signature document)))"

definition decode_identity_document :: "bytes \<Rightarrow> bytes \<Rightarrow> IdentityDocument result" where
  "decode_identity_document message signature = run_parser (
     p_bind rd_id32 (\<lambda>peer_id.
     p_bind rd_variable (\<lambda>ek.
     p_bind rd_variable (\<lambda>vk.
     p_bind rd_u64 (\<lambda>created_at.
     p_bind rd_finish (\<lambda>_.
     p_ret \<lparr>id_peer_id = PeerId peer_id, id_ek = ek, id_vk = vk, id_created_at = created_at,
            id_signature = signature\<rparr>)))))) message"

definition decode_identity :: "bytes \<Rightarrow> IdentityDocument result" where
  "decode_identity bs = run_parser (
     p_bind rd_variable (\<lambda>message.
     p_bind rd_variable (\<lambda>signature.
     p_bind rd_finish (\<lambda>_.
     p_lift (decode_identity_document message signature))))) bs"

definition identity_bytes :: "IdentityDocument \<Rightarrow> bytes" where
  "identity_bytes d = peer_bytes (id_peer_id d) @ var_bytes (id_ek d) @ var_bytes (id_vk d) @
     to_be_bytes (id_created_at d)"

definition identity_ok :: "IdentityDocument \<Rightarrow> bool" where
  "identity_ok d \<longleftrightarrow> short (id_ek d) \<and> short (id_vk d)"

lemma identity_m_Inr [simp]: "identity_m d = Inr m \<longleftrightarrow> identity_ok d \<and> m = identity_bytes d"
  by (auto simp: identity_m_def identity_ok_def identity_bytes_def)

lemma decode_identity_document_Inr:
  assumes "length m \<le> usize_max"
  shows "decode_identity_document m s = Inr d \<longleftrightarrow>
    identity_ok d \<and> m = identity_bytes d \<and> id_signature d = s"
proof
  assume "decode_identity_document m s = Inr d"
  then show "identity_ok d \<and> m = identity_bytes d \<and> id_signature d = s"
    by (auto simp: decode_identity_document_def identity_ok_def identity_bytes_def elim!: wire_elim)
next
  assume d: "identity_ok d \<and> m = identity_bytes d \<and> id_signature d = s"
  show "decode_identity_document m s = Inr d"
    unfolding decode_identity_document_def
    by (rule run_parser_reads [OF _ assms])
      (use d in \<open>auto simp: identity_ok_def identity_bytes_def
        intro!: reads_intro reads_bind_last [OF reads_u64] reads_bind_last [OF reads_finish] reads_ret'\<close>)
qed

lemma encode_identity_Inr:
  "encode_identity d = Inr bs \<longleftrightarrow> identity_ok d \<and> short (identity_bytes d) \<and> short (id_signature d) \<and>
     bs = var_bytes (identity_bytes d) @ var_bytes (id_signature d)"
  by (auto simp: encode_identity_def)

section \<open>Signed messages\<close>

text \<open>
  The shape shared by identities, wraps, directory forget requests and manifests on the wire: the
  signed message \<open>M\<close> and the detached signature, each length-prefixed.
\<close>

lemma short_usize: "short v \<Longrightarrow> length v \<le> usize_max"
  by (simp add: short_def usize_max_def)

definition p_signed :: "(bytes \<Rightarrow> bytes \<Rightarrow> 'a result) \<Rightarrow> 'a parser" where
  "p_signed dm =
     p_bind rd_variable (\<lambda>message.
     p_bind rd_variable (\<lambda>signature.
     p_bind rd_finish (\<lambda>_.
     p_lift (dm message signature))))"

locale signed_message =
  fixes dm :: "bytes \<Rightarrow> bytes \<Rightarrow> 'a result"
    and ok :: "'a \<Rightarrow> bool"
    and body :: "'a \<Rightarrow> bytes"
    and sg :: "'a \<Rightarrow> bytes"
  assumes message_iff: "length m \<le> usize_max \<Longrightarrow>
    dm m s = Inr x \<longleftrightarrow> ok x \<and> m = body x \<and> sg x = s"
begin

lemma signed_iff:
  assumes "length bs \<le> usize_max"
  shows "run_parser (p_signed dm) bs = Inr x \<longleftrightarrow>
    ok x \<and> short (body x) \<and> short (sg x) \<and> bs = var_bytes (body x) @ var_bytes (sg x)"
proof
  assume "run_parser (p_signed dm) bs = Inr x"
  then show "ok x \<and> short (body x) \<and> short (sg x) \<and> bs = var_bytes (body x) @ var_bytes (sg x)"
    by (auto simp: p_signed_def message_iff short_usize elim!: wire_elim)
next
  assume x: "ok x \<and> short (body x) \<and> short (sg x) \<and> bs = var_bytes (body x) @ var_bytes (sg x)"
  then have "reads (p_signed dm) x bs []"
    unfolding p_signed_def
    by (auto simp: message_iff short_usize
        intro!: reads_intro reads_bind_last [OF reads_variable] reads_bind_last [OF reads_finish] reads_lift)
  then show "run_parser (p_signed dm) bs = Inr x"
    by (rule run_parser_reads [OF _ assms])
qed

end

interpretation si_identity: signed_message decode_identity_document identity_ok identity_bytes id_signature
  by unfold_locales (rule decode_identity_document_Inr)

lemma decode_identity_iff:
  assumes "length bs \<le> usize_max"
  shows "decode_identity bs = Inr d \<longleftrightarrow> encode_identity d = Inr bs"
  using si_identity.signed_iff [OF assms, of d]
  by (simp add: decode_identity_def encode_identity_Inr p_signed_def [symmetric])

section \<open>Wraps\<close>

definition wrap_m :: "WrapMessage \<Rightarrow> bytes result" where
  "wrap_m message =
     and_then (require_sorted_pair (wm_min_id message) (wm_max_id message)) (\<lambda>_.
     and_then (push_variable [] (wm_kem_ct message)) (\<lambda>out.
     and_then (push_variable out (wm_wrap_ct message)) (\<lambda>out.
     Inr (out @ epoch_bytes (wm_epoch message) @ peer_bytes (wm_min_id message) @
          peer_bytes (wm_max_id message)))))"

definition encode_wrap :: "WrapMessage \<Rightarrow> bytes result" where
  "encode_wrap message =
     and_then (wrap_m message) (\<lambda>m.
     and_then (push_variable [] m) (\<lambda>out.
     push_variable out (wm_signature message)))"

definition decode_wrap_message :: "bytes \<Rightarrow> bytes \<Rightarrow> WrapMessage result" where
  "decode_wrap_message message signature = run_parser (
     p_bind rd_variable (\<lambda>kem_ct.
     p_bind rd_variable (\<lambda>wrap_ct.
     p_bind rd_u64 (\<lambda>epoch.
     p_bind rd_id32 (\<lambda>min_id.
     p_bind rd_id32 (\<lambda>max_id.
     p_bind rd_finish (\<lambda>_.
     p_bind (p_lift (require_sorted_pair (PeerId min_id) (PeerId max_id))) (\<lambda>_.
     p_ret \<lparr>wm_kem_ct = kem_ct, wm_wrap_ct = wrap_ct, wm_epoch = Epoch epoch,
            wm_min_id = PeerId min_id, wm_max_id = PeerId max_id, wm_signature = signature\<rparr>)))))))) message"

definition decode_wrap :: "bytes \<Rightarrow> WrapMessage result" where
  "decode_wrap bs = run_parser (
     p_bind rd_variable (\<lambda>message.
     p_bind rd_variable (\<lambda>signature.
     p_bind rd_finish (\<lambda>_.
     p_lift (decode_wrap_message message signature))))) bs"

definition wrap_bytes :: "WrapMessage \<Rightarrow> bytes" where
  "wrap_bytes w = var_bytes (wm_kem_ct w) @ var_bytes (wm_wrap_ct w) @ epoch_bytes (wm_epoch w) @
     peer_bytes (wm_min_id w) @ peer_bytes (wm_max_id w)"

definition wrap_ok :: "WrapMessage \<Rightarrow> bool" where
  "wrap_ok w \<longleftrightarrow> wm_min_id w < wm_max_id w \<and> short (wm_kem_ct w) \<and> short (wm_wrap_ct w)"

lemma require_sorted_pair_Inr [simp]: "require_sorted_pair a b = Inr u \<longleftrightarrow> a < b"
  by (simp add: require_sorted_pair_def not_le)

lemma wrap_m_Inr [simp]: "wrap_m w = Inr m \<longleftrightarrow> wrap_ok w \<and> m = wrap_bytes w"
  by (auto simp: wrap_m_def wrap_ok_def wrap_bytes_def)

lemma encode_wrap_Inr:
  "encode_wrap w = Inr bs \<longleftrightarrow> wrap_ok w \<and> short (wrap_bytes w) \<and> short (wm_signature w) \<and>
     bs = var_bytes (wrap_bytes w) @ var_bytes (wm_signature w)"
  by (auto simp: encode_wrap_def)

lemma decode_wrap_message_Inr:
  assumes "length m \<le> usize_max"
  shows "decode_wrap_message m s = Inr w \<longleftrightarrow> wrap_ok w \<and> m = wrap_bytes w \<and> wm_signature w = s"
proof
  assume "decode_wrap_message m s = Inr w"
  then show "wrap_ok w \<and> m = wrap_bytes w \<and> wm_signature w = s"
    by (auto simp: decode_wrap_message_def wrap_ok_def wrap_bytes_def elim!: wire_elim)
next
  assume w: "wrap_ok w \<and> m = wrap_bytes w \<and> wm_signature w = s"
  show "decode_wrap_message m s = Inr w"
    unfolding decode_wrap_message_def
    by (rule run_parser_reads [OF _ assms])
      (use w in \<open>auto simp: wrap_ok_def wrap_bytes_def
        intro!: reads_intro reads_bind_last [OF reads_id32] reads_bind_last [OF reads_finish]
          reads_bind_last [OF reads_lift] reads_ret'\<close>)
qed

interpretation si_wrap: signed_message decode_wrap_message wrap_ok wrap_bytes wm_signature
  by unfold_locales (rule decode_wrap_message_Inr)

lemma decode_wrap_iff:
  assumes "length bs \<le> usize_max"
  shows "decode_wrap bs = Inr w \<longleftrightarrow> encode_wrap w = Inr bs"
  using si_wrap.signed_iff [OF assms, of w]
  by (simp add: decode_wrap_def encode_wrap_Inr p_signed_def [symmetric])

section \<open>Packets on the wire\<close>

definition encode_control_packet :: "ControlPacket \<Rightarrow> bytes result" where
  "encode_control_packet packet = push_variable (packet_aad (cp_header packet)) (cp_ciphertext packet)"

definition decode_control_packet :: "bytes \<Rightarrow> ControlPacket result" where
  "decode_control_packet bs = run_parser (
     p_bind (rd_take 81) (\<lambda>aad.
     p_bind (p_lift (decode_aad aad)) (\<lambda>(header, payload_type).
     p_bind (p_guard (payload_type = Packet) (InvalidInput ''control packet has chunk AAD'')) (\<lambda>_.
     p_bind rd_variable (\<lambda>ciphertext.
     p_bind rd_finish (\<lambda>_.
     p_ret \<lparr>cp_header = header, cp_ciphertext = ciphertext\<rparr>)))))) bs"

definition encode_chunk_body_frame :: "ChunkBodyFrame \<Rightarrow> bytes result" where
  "encode_chunk_body_frame frame =
     push_variable (chunk_aad (cbf_header frame) (cbf_file_id frame) (cbf_index frame)) (cbf_ciphertext frame)"

definition decode_chunk_body_frame :: "bytes \<Rightarrow> ChunkBodyFrame result" where
  "decode_chunk_body_frame bs = run_parser (
     p_bind (rd_take 121) (\<lambda>aad.
     p_bind (p_lift (decode_aad aad)) (\<lambda>(header, payload_type).
     p_bind (p_guard (payload_type = ChunkBody) (InvalidInput ''chunk body frame has packet AAD'')) (\<lambda>_.
     p_bind rd_variable (\<lambda>ciphertext.
     p_bind rd_finish (\<lambda>_.
     p_ret \<lparr>cbf_header = header, cbf_file_id = FileId (from_be_bytes (slice aad 81 113)),
            cbf_index = from_be_bytes (slice aad 113 121), cbf_ciphertext = ciphertext\<rparr>)))))) bs"

lemma decode_aad_81:
  "length aad = 81 \<Longrightarrow> decode_aad aad = Inr (h, t) \<longleftrightarrow>
     t = Packet \<and> hdr_version h = PROTOCOL_VERSION \<and> aad = packet_aad h"
  using decode_aad_inv [of aad h t] decode_aad_packet [of h] by auto

lemma chunk_aad_slices:
  "slice (chunk_aad h f i) 81 113 = file_bytes f" "slice (chunk_aad h f i) 113 121 = to_be_bytes i"
  by (simp_all add: chunk_aad_def slice_def)

lemma decode_aad_121:
  assumes "length aad = 121" and "decode_aad aad = Inr (h, t)"
  shows "t = ChunkBody \<and> hdr_version h = PROTOCOL_VERSION \<and>
    aad = chunk_aad h (FileId (from_be_bytes (slice aad 81 113))) (from_be_bytes (slice aad 113 121))"
proof -
  have "aad = take 81 aad @ slice aad 81 113 @ slice aad 113 121"
    using assms(1) append_take_drop_id [of 32 "drop 81 aad"] by (simp add: slice_def)
  with assms decode_aad_inv [OF assms(2)] show ?thesis
    by (auto simp: chunk_aad_def length_slice)
qed

lemma decode_control_packet_Inr:
  assumes "length bs \<le> usize_max"
  shows "decode_control_packet bs = Inr p \<longleftrightarrow>
    hdr_version (cp_header p) = PROTOCOL_VERSION \<and> encode_control_packet p = Inr bs"
proof
  assume "decode_control_packet bs = Inr p"
  then show "hdr_version (cp_header p) = PROTOCOL_VERSION \<and> encode_control_packet p = Inr bs"
    by (auto simp: decode_control_packet_def encode_control_packet_def decode_aad_81 elim!: wire_elim)
next
  assume p: "hdr_version (cp_header p) = PROTOCOL_VERSION \<and> encode_control_packet p = Inr bs"
  then show "decode_control_packet bs = Inr p"
    unfolding decode_control_packet_def
    by (intro run_parser_reads [OF _ assms])
      (auto simp: encode_control_packet_def intro!: reads_bind [OF reads_take]
        reads_bind_nil [OF reads_lift] reads_bind_nil [OF reads_guard] reads_bind_last [OF reads_variable]
        reads_bind_last [OF reads_finish] reads_ret' decode_aad_packet)
qed

lemma decode_chunk_body_frame_Inr:
  assumes "length bs \<le> usize_max"
  shows "decode_chunk_body_frame bs = Inr p \<longleftrightarrow>
    hdr_version (cbf_header p) = PROTOCOL_VERSION \<and> encode_chunk_body_frame p = Inr bs"
proof
  assume "decode_chunk_body_frame bs = Inr p"
  then show "hdr_version (cbf_header p) = PROTOCOL_VERSION \<and> encode_chunk_body_frame p = Inr bs"
    by (auto simp: decode_chunk_body_frame_def encode_chunk_body_frame_def dest!: decode_aad_121
        elim!: wire_elim)
next
  assume p: "hdr_version (cbf_header p) = PROTOCOL_VERSION \<and> encode_chunk_body_frame p = Inr bs"
  then show "decode_chunk_body_frame bs = Inr p"
    unfolding decode_chunk_body_frame_def
    by (intro run_parser_reads [OF _ assms])
      (auto simp: encode_chunk_body_frame_def chunk_aad_slices intro!: reads_bind [OF reads_take]
        reads_bind_nil [OF reads_lift] reads_bind_nil [OF reads_guard] reads_bind_last [OF reads_variable]
        reads_bind_last [OF reads_finish] reads_ret' decode_aad_chunk)
qed

section \<open>Epoch hints and wrap acknowledgements\<close>

definition epoch_hint_m :: "PeerId \<Rightarrow> Epoch \<Rightarrow> bytes" where
  "epoch_hint_m pid epoch = peer_bytes pid @ epoch_bytes epoch"

definition decode_epoch_hint :: "bytes \<Rightarrow> (PeerId \<times> Epoch) result" where
  "decode_epoch_hint bs = run_parser (
     p_bind rd_id32 (\<lambda>pid.
     p_bind rd_u64 (\<lambda>epoch.
     p_bind rd_finish (\<lambda>_.
     p_ret (PeerId pid, Epoch epoch))))) bs"

definition encode_wrap_ack :: "Epoch \<Rightarrow> bool \<Rightarrow> bytes" where
  "encode_wrap_ack epoch retry_pending = epoch_bytes epoch @ [if retry_pending then 1 else 0]"

text \<open>\<open>match reader.byte()? \<open>{\<close> 0 => false, 1 => true, _ => Err \<open>}\<close>\<close>, used by four decoders.\<close>

definition flag_of_byte :: "string \<Rightarrow> byte \<Rightarrow> bool result" where
  "flag_of_byte msg b = (if b = 0 then Inr False else if b = 1 then Inr True else Inl (InvalidInput msg))"

definition decode_wrap_ack :: "bytes \<Rightarrow> (Epoch \<times> bool) result" where
  "decode_wrap_ack bs = run_parser (
     p_bind rd_u64 (\<lambda>epoch.
     p_bind rd_byte (\<lambda>b.
     p_bind (p_lift (flag_of_byte ''invalid WrapAck retry flag'' b)) (\<lambda>retry_pending.
     p_bind rd_finish (\<lambda>_.
     p_ret (Epoch epoch, retry_pending)))))) bs"

lemma flag_of_byte_Inr [simp]: "flag_of_byte msg b = Inr f \<longleftrightarrow> b = (if f then 1 else 0)"
  by (auto simp: flag_of_byte_def)

lemma decode_epoch_hint_iff:
  assumes "length bs \<le> usize_max"
  shows "decode_epoch_hint bs = Inr (p, e) \<longleftrightarrow> bs = epoch_hint_m p e"
proof
  assume "decode_epoch_hint bs = Inr (p, e)"
  then show "bs = epoch_hint_m p e"
    by (auto simp: decode_epoch_hint_def epoch_hint_m_def elim!: wire_elim)
next
  assume "bs = epoch_hint_m p e"
  then show "decode_epoch_hint bs = Inr (p, e)"
    unfolding decode_epoch_hint_def
    by (intro run_parser_reads [OF _ assms])
      (auto simp: epoch_hint_m_def intro!: reads_bind [OF reads_id32] reads_bind_last [OF reads_u64]
        reads_bind_last [OF reads_finish] reads_ret')
qed

lemma decode_wrap_ack_iff:
  assumes "length bs \<le> usize_max"
  shows "decode_wrap_ack bs = Inr (e, r) \<longleftrightarrow> bs = encode_wrap_ack e r"
proof
  assume "decode_wrap_ack bs = Inr (e, r)"
  then show "bs = encode_wrap_ack e r"
    by (auto simp: decode_wrap_ack_def encode_wrap_ack_def elim!: wire_elim)
next
  assume "bs = encode_wrap_ack e r"
  then show "decode_wrap_ack bs = Inr (e, r)"
    unfolding decode_wrap_ack_def
    by (intro run_parser_reads [OF _ assms])
      (auto simp: encode_wrap_ack_def intro!: reads_bind [OF reads_u64] reads_bind_last [OF reads_byte]
        reads_bind_nil [OF reads_lift] reads_bind_last [OF reads_finish] reads_ret')
qed

section \<open>Directory forget requests and join requests\<close>

definition dir_forget_m :: "DirForget \<Rightarrow> bytes" where
  "dir_forget_m request = peer_bytes (df_peer_id request) @ vault_bytes (df_vault_id request) @
     code_bytes (df_join_code request) @ to_be_bytes (df_issued_at request)"

definition encode_dir_forget :: "DirForget \<Rightarrow> bytes result" where
  "encode_dir_forget request =
     and_then (push_variable [] (dir_forget_m request)) (\<lambda>out.
     push_variable out (df_signature request))"

definition dir_forget_body :: "bytes \<Rightarrow> bytes \<Rightarrow> DirForget result" where
  "dir_forget_body message signature = run_parser (
     p_bind rd_id32 (\<lambda>pid.
     p_bind rd_id32 (\<lambda>vault_id.
     p_bind rd_id16 (\<lambda>join_code.
     p_bind rd_u64 (\<lambda>issued_at.
     p_bind rd_finish (\<lambda>_.
     p_ret \<lparr>df_peer_id = PeerId pid, df_vault_id = VaultId vault_id, df_join_code = JoinCode join_code,
            df_issued_at = issued_at, df_signature = signature\<rparr>)))))) message"

definition decode_dir_forget :: "bytes \<Rightarrow> DirForget result" where
  "decode_dir_forget bs = run_parser (
     p_bind rd_variable (\<lambda>message.
     p_bind rd_variable (\<lambda>signature.
     p_bind rd_finish (\<lambda>_.
     p_lift (dir_forget_body message signature))))) bs"

lemma dir_forget_body_Inr:
  assumes "length m \<le> usize_max"
  shows "dir_forget_body m s = Inr x \<longleftrightarrow> True \<and> m = dir_forget_m x \<and> df_signature x = s"
proof
  assume "dir_forget_body m s = Inr x"
  then show "True \<and> m = dir_forget_m x \<and> df_signature x = s"
    by (auto simp: dir_forget_body_def dir_forget_m_def elim!: wire_elim)
next
  assume x: "True \<and> m = dir_forget_m x \<and> df_signature x = s"
  show "dir_forget_body m s = Inr x"
    unfolding dir_forget_body_def
    by (rule run_parser_reads [OF _ assms])
      (use x in \<open>auto simp: dir_forget_m_def intro!: reads_bind [OF reads_id32] reads_bind [OF reads_id16]
        reads_bind_last [OF reads_u64] reads_bind_last [OF reads_finish] reads_ret'\<close>)
qed

interpretation si_forget: signed_message dir_forget_body "\<lambda>_. True" dir_forget_m df_signature
  by unfold_locales (rule dir_forget_body_Inr)

lemma decode_dir_forget_iff:
  assumes "length bs \<le> usize_max"
  shows "decode_dir_forget bs = Inr x \<longleftrightarrow> encode_dir_forget x = Inr bs"
  using si_forget.signed_iff [OF assms, of x]
  by (auto simp: decode_dir_forget_def encode_dir_forget_def p_signed_def [symmetric])

definition join_request_m :: "JoinRequest \<Rightarrow> bytes result" where
  "join_request_m request =
     and_then (identity_m (jr_document request)) (\<lambda>m.
     Inr (vault_bytes (jr_vault_id request) @ code_bytes (jr_join_code request) @ m))"

definition encode_join_request :: "JoinRequest \<Rightarrow> bytes result" where
  "encode_join_request request =
     and_then (join_request_m request) (\<lambda>m.
     and_then (push_variable [] m) (\<lambda>out.
     push_variable out (jr_signature request)))"

definition join_request_body :: "IdentityDocument \<Rightarrow> bytes \<Rightarrow> bytes \<Rightarrow> JoinRequest result" where
  "join_request_body exchanged message signature = run_parser (
     p_bind rd_id32 (\<lambda>vault_id.
     p_bind rd_id16 (\<lambda>join_code.
     p_bind p_remaining (\<lambda>n.
     p_bind (rd_take n) (\<lambda>identity.
     p_bind (p_lift (identity_m exchanged)) (\<lambda>m.
     p_bind (p_guard (identity = m) AuthenticationFailed) (\<lambda>_.
     p_bind rd_finish (\<lambda>_.
     p_ret \<lparr>jr_vault_id = VaultId vault_id, jr_join_code = JoinCode join_code,
            jr_document = exchanged, jr_signature = signature\<rparr>)))))))) message"

definition decode_join_request :: "bytes \<Rightarrow> IdentityDocument \<Rightarrow> JoinRequest result" where
  "decode_join_request bs exchanged = run_parser (
     p_bind rd_variable (\<lambda>message.
     p_bind rd_variable (\<lambda>signature.
     p_bind rd_finish (\<lambda>_.
     p_lift (join_request_body exchanged message signature))))) bs"

definition join_bytes :: "JoinRequest \<Rightarrow> bytes" where
  "join_bytes r = vault_bytes (jr_vault_id r) @ code_bytes (jr_join_code r) @ identity_bytes (jr_document r)"

lemma reads_rest: "reads (p_bind p_remaining rd_take) e e []"
  by (rule reads_bind_nil [OF _ reads_take]) (auto simp: reads_def p_remaining_def)

lemma join_request_body_Inr:
  assumes "length m \<le> usize_max"
  shows "join_request_body d m s = Inr x \<longleftrightarrow>
    (identity_ok d \<and> jr_document x = d) \<and> m = join_bytes x \<and> jr_signature x = s"
proof
  assume "join_request_body d m s = Inr x"
  then show "(identity_ok d \<and> jr_document x = d) \<and> m = join_bytes x \<and> jr_signature x = s"
    by (auto simp: join_request_body_def join_bytes_def elim!: wire_elim)
next
  assume x: "(identity_ok d \<and> jr_document x = d) \<and> m = join_bytes x \<and> jr_signature x = s"
  show "join_request_body d m s = Inr x"
    unfolding join_request_body_def
    by (rule run_parser_reads [OF _ assms])
      (use x in \<open>auto simp: join_bytes_def p_bind_assoc [of p_remaining rd_take, symmetric]
        intro!: reads_bind [OF reads_id32] reads_bind [OF reads_id16]
        reads_bind_last [OF reads_rest] reads_bind_nil [OF reads_lift] reads_bind_nil [OF reads_guard]
        reads_bind_last [OF reads_finish] reads_ret'\<close>)
qed

interpretation si_join: signed_message "join_request_body d" "\<lambda>x. identity_ok d \<and> jr_document x = d"
    join_bytes jr_signature for d
  by unfold_locales (rule join_request_body_Inr)

lemma decode_join_request_iff:
  assumes "length bs \<le> usize_max"
  shows "decode_join_request bs d = Inr x \<longleftrightarrow> jr_document x = d \<and> encode_join_request x = Inr bs"
  using si_join.signed_iff [OF assms, of d x]
  by (auto simp: decode_join_request_def encode_join_request_def join_request_m_def join_bytes_def
      p_signed_def [symmetric])

end
