(* ===== verification/Replay.thy ===== *)
theory Replay
  imports Messages
begin

text \<open>
  The sliding replay window of \<open>backend/src/protocol/packet.rs\<close>: 1024 bits in sixteen 64-bit
  words, bit \<open>d\<close> standing for the sequence number \<open>d\<close> below the highest one seen. The
  abstract specification is the set of accepted sequence numbers; \<open>window_of\<close> relates the two.
\<close>

unbundle bit_operations_syntax

definition REPLAY_WINDOW_SIZE :: nat where
  "REPLAY_WINDOW_SIZE = 1024"

record ReplayWindowState =
  rw_highest_seen :: "u64 option"
  rw_seen :: "u64 list"

definition rw_default :: ReplayWindowState where
  "rw_default = \<lparr>rw_highest_seen = None, rw_seen = replicate (REPLAY_WINDOW_SIZE div 64) 0\<rparr>"

definition word_bit_is_set :: "u64 list \<Rightarrow> nat \<Rightarrow> bool" where
  "word_bit_is_set seen distance \<longleftrightarrow> (seen ! (distance div 64)) AND push_bit (distance mod 64) 1 \<noteq> 0"

definition word_set_bit :: "u64 list \<Rightarrow> nat \<Rightarrow> u64 list" where
  "word_set_bit seen distance =
     seen[distance div 64 := (seen ! (distance div 64)) OR push_bit (distance mod 64) 1]"

definition bit_is_set :: "ReplayWindowState \<Rightarrow> nat \<Rightarrow> bool" where
  "bit_is_set w distance = word_bit_is_set (rw_seen w) distance"

definition rw_set_bit :: "ReplayWindowState \<Rightarrow> nat \<Rightarrow> ReplayWindowState" where
  "rw_set_bit w distance = w\<lparr>rw_seen := word_set_bit (rw_seen w) distance\<rparr>"

definition rw_shift :: "ReplayWindowState \<Rightarrow> u64 \<Rightarrow> ReplayWindowState" where
  "rw_shift w advance =
     (if unat advance \<ge> REPLAY_WINDOW_SIZE then w\<lparr>rw_seen := map (\<lambda>_. 0) (rw_seen w)\<rparr>
      else w\<lparr>rw_seen := fold (\<lambda>old_distance shifted.
          if bit_is_set w old_distance then word_set_bit shifted (old_distance + unat advance) else shifted)
        [0 ..< REPLAY_WINDOW_SIZE - unat advance] (replicate (REPLAY_WINDOW_SIZE div 64) 0)\<rparr>)"

definition rw_check :: "ReplayWindowState \<Rightarrow> Seq \<Rightarrow> unit result" where
  "rw_check w seq =
     (case rw_highest_seen w of
        None \<Rightarrow> Inr ()
      | Some highest \<Rightarrow>
          if seq_raw seq > highest then Inr ()
          else
            (let distance = highest - seq_raw seq in
             if unat distance \<ge> REPLAY_WINDOW_SIZE \<or> bit_is_set w (unat distance)
             then Inl ReplayRejected else Inr ()))"

definition rw_accept :: "ReplayWindowState \<Rightarrow> Seq \<Rightarrow> ReplayWindowState result" where
  "rw_accept w seq =
     and_then (rw_check w seq) (\<lambda>_.
     Inr (case rw_highest_seen w of
            None \<Rightarrow> rw_set_bit (w\<lparr>rw_highest_seen := Some (seq_raw seq)\<rparr>) 0
          | Some highest \<Rightarrow>
              if seq_raw seq > highest
              then rw_set_bit ((rw_shift w (seq_raw seq - highest))\<lparr>rw_highest_seen := Some (seq_raw seq)\<rparr>) 0
              else rw_set_bit w (unat (highest - seq_raw seq))))"

section \<open>The bitmap\<close>

definition bitmap_ok :: "u64 list \<Rightarrow> bool" where
  "bitmap_ok seen \<longleftrightarrow> length seen = 16"

lemma push_one_and: "(w AND push_bit n (1 :: u64)) \<noteq> 0 \<longleftrightarrow> bit w n"
  using and_exp_eq_0_iff_not_bit [of w n] by (simp add: push_bit_of_1)

lemma word_bit_is_set_bit: "word_bit_is_set seen d \<longleftrightarrow> bit (seen ! (d div 64)) (d mod 64)"
  unfolding word_bit_is_set_def by (rule push_one_and)

lemma bitmap_ok_set [simp]: "bitmap_ok (word_set_bit seen d) \<longleftrightarrow> bitmap_ok seen"
  by (simp add: bitmap_ok_def word_set_bit_def)

lemma word_bit_set_iff:
  assumes "bitmap_ok seen" and "d < 1024" and "e < 1024"
  shows "word_bit_is_set (word_set_bit seen d) e \<longleftrightarrow> e = d \<or> word_bit_is_set seen e"
proof -
  have i: "d div 64 < length seen" and m: "e mod 64 < 64"
    using assms by (simp_all add: bitmap_ok_def)
  have e: "e = d \<longleftrightarrow> e div 64 = d div 64 \<and> e mod 64 = d mod 64"
    by (metis div_mult_mod_eq)
  show ?thesis
  proof (cases "e div 64 = d div 64")
    case True
    have "bit (push_bit (d mod 64) (1 :: u64)) (e mod 64) \<longleftrightarrow> e mod 64 = d mod 64"
      using m by (auto simp: bit_exp_iff)
    then show ?thesis
      unfolding e word_bit_is_set_bit word_set_bit_def using True i by (simp add: bit_or_iff del: push_bit_of_1) blast
  next
    case False
    then show ?thesis
      unfolding e word_bit_is_set_bit word_set_bit_def by simp
  qed
qed

lemma word_bit_zero: "e < 1024 \<Longrightarrow> \<not> word_bit_is_set (replicate 16 0) e"
  by (simp add: word_bit_is_set_bit)

lemma shift_fold:
  assumes "bitmap_ok seen" and "\<forall>x \<in> set ds. x + a < 1024" and "e < 1024"
  shows "word_bit_is_set (fold (\<lambda>x s. if P x then word_set_bit s (x + a) else s) ds seen) e \<longleftrightarrow>
    word_bit_is_set seen e \<or> (\<exists>x \<in> set ds. P x \<and> e = x + a)"
  using assms by (induction ds arbitrary: seen) (auto simp: word_bit_set_iff)

lemma shift_fold_ok:
  "bitmap_ok seen \<Longrightarrow> bitmap_ok (fold (\<lambda>x s. if P x then word_set_bit s (x + a) else s) ds seen)"
  by (induction ds arbitrary: seen) auto

lemma rw_shift_bits:
  assumes "bitmap_ok (rw_seen w)" and "e < 1024"
  shows "bitmap_ok (rw_seen (rw_shift w a))"
    and "word_bit_is_set (rw_seen (rw_shift w a)) e \<longleftrightarrow> unat a \<le> e \<and> bit_is_set w (e - unat a)"
proof -
  have base: "bitmap_ok (replicate 16 (0 :: u64))"
    by (simp add: bitmap_ok_def)
  show "bitmap_ok (rw_seen (rw_shift w a))"
    using assms(1) shift_fold_ok [OF base]
    by (simp add: rw_shift_def REPLAY_WINDOW_SIZE_def bitmap_ok_def)
  show "word_bit_is_set (rw_seen (rw_shift w a)) e \<longleftrightarrow> unat a \<le> e \<and> bit_is_set w (e - unat a)"
  proof (cases "unat a \<ge> 1024")
    case True
    have "e div 64 < 16" using assms(2) by simp
    with True assms show ?thesis
      by (simp add: rw_shift_def REPLAY_WINDOW_SIZE_def word_bit_is_set_bit bitmap_ok_def)
  next
    case False
    have "(\<exists>x \<in> set [0 ..< 1024 - unat a]. bit_is_set w x \<and> e = x + unat a) \<longleftrightarrow>
        unat a \<le> e \<and> bit_is_set w (e - unat a)"
      using False assms(2) by (auto intro!: bexI [of _ "e - unat a"])
    moreover have "\<forall>x \<in> set [0 ..< 1024 - unat a]. x + unat a < 1024"
      by auto
    ultimately show ?thesis
      using False shift_fold [OF base _ assms(2), of "[0 ..< 1024 - unat a]" "unat a" "bit_is_set w"]
      by (simp add: rw_shift_def REPLAY_WINDOW_SIZE_def word_bit_zero [OF assms(2)])
  qed
qed

section \<open>The window as a set of accepted numbers\<close>

definition window_of :: "u64 set \<Rightarrow> ReplayWindowState \<Rightarrow> bool" where
  "window_of A w \<longleftrightarrow>
     bitmap_ok (rw_seen w) \<and>
     (case rw_highest_seen w of
        None \<Rightarrow> A = {} \<and> (\<forall>d < 1024. \<not> bit_is_set w d)
      | Some h \<Rightarrow> h \<in> A \<and> (\<forall>a \<in> A. a \<le> h) \<and>
          (\<forall>d < 1024. bit_is_set w d \<longleftrightarrow> (\<exists>a \<in> A. unat h = unat a + d)))"

lemma window_of_default: "window_of {} rw_default"
  by (auto simp: window_of_def rw_default_def REPLAY_WINDOW_SIZE_def bitmap_ok_def bit_is_set_def
      word_bit_is_set_bit)

lemma unat_diff_le: "(b :: u64) \<le> a \<Longrightarrow> unat (a - b) = unat a - unat b"
  by (simp add: unat_sub word_le_nat_alt)

lemma rw_check_iff:
  assumes "window_of A w"
  shows "rw_check w seq = Inr () \<longleftrightarrow>
    seq_raw seq \<notin> A \<and> (\<forall>a \<in> A. unat a < unat (seq_raw seq) + REPLAY_WINDOW_SIZE)"
proof (cases "rw_highest_seen w")
  case None
  with assms show ?thesis by (simp add: rw_check_def window_of_def)
next
  case (Some h)
  let ?s = "seq_raw seq"
  have A: "h \<in> A" "\<forall>a \<in> A. a \<le> h"
    and bits: "\<forall>d < 1024. bit_is_set w d \<longleftrightarrow> (\<exists>a \<in> A. unat h = unat a + d)"
    using assms Some by (auto simp: window_of_def)
  show ?thesis
  proof (cases "?s > h")
    case True
    then have "?s \<notin> A" using A(2) by (auto simp: not_le)
    moreover have "unat a < unat ?s + 1024" if "a \<in> A" for a
      using A(2) that True by (fastforce simp: word_le_nat_alt word_less_nat_alt)
    ultimately show ?thesis
      using True Some by (simp add: rw_check_def REPLAY_WINDOW_SIZE_def)
  next
    case False
    then have le: "?s \<le> h" by simp
    have d: "unat (h - ?s) = unat h - unat ?s" "unat ?s \<le> unat h"
      using le by (simp_all add: unat_diff_le word_le_nat_alt)
    have same: "unat h = unat a + unat (h - ?s) \<longleftrightarrow> a = ?s" for a
      using d by (auto simp: word_unat_eq_iff)
    have "(\<exists>a \<in> A. unat h = unat a + unat (h - ?s)) \<longleftrightarrow> ?s \<in> A"
      unfolding same by blast
    moreover have "(\<forall>a \<in> A. unat a < unat ?s + 1024) \<longleftrightarrow> unat (h - ?s) < 1024"
    proof
      assume "\<forall>a \<in> A. unat a < unat ?s + 1024"
      with A(1) d show "unat (h - ?s) < 1024" by fastforce
    next
      assume "unat (h - ?s) < 1024"
      with d have "unat h < unat ?s + 1024" by linarith
      with A(2) show "\<forall>a \<in> A. unat a < unat ?s + 1024"
        by (auto simp: word_le_nat_alt intro: le_less_trans)
    qed
    ultimately show ?thesis
      using Some False bits by (auto simp: rw_check_def Let_def REPLAY_WINDOW_SIZE_def)
  qed
qed

lemma rw_accept_window:
  assumes "window_of A w" and "rw_accept w seq = Inr w'"
  shows "window_of (insert (seq_raw seq) A) w'"
proof (cases "rw_highest_seen w")
  case None
  with assms show ?thesis
    by (auto simp: window_of_def rw_accept_def rw_check_def rw_set_bit_def bit_is_set_def word_bit_set_iff)
next
  case (Some h)
  let ?s = "seq_raw seq"
  have A: "h \<in> A" "\<forall>a \<in> A. a \<le> h" "bitmap_ok (rw_seen w)"
    and bits: "\<And>d. d < 1024 \<Longrightarrow> bit_is_set w d \<longleftrightarrow> (\<exists>a \<in> A. unat h = unat a + d)"
    using assms(1) Some by (auto simp: window_of_def)
  show ?thesis
  proof (cases "?s > h")
    case True
    then have w': "w' = rw_set_bit ((rw_shift w (?s - h))\<lparr>rw_highest_seen := Some ?s\<rparr>) 0"
      using assms(2) Some by (auto simp: rw_accept_def)
    have adv: "unat (?s - h) = unat ?s - unat h" "unat h < unat ?s"
      using True by (simp_all add: unat_diff_le word_less_nat_alt less_imp_le)
    have "bit_is_set w' d \<longleftrightarrow> (\<exists>a \<in> insert ?s A. unat ?s = unat a + d)" if "d < 1024" for d
    proof -
      have "bit_is_set w' d \<longleftrightarrow> d = 0 \<or> unat (?s - h) \<le> d \<and> bit_is_set w (d - unat (?s - h))"
        using rw_shift_bits [OF A(3) that, of "?s - h"] that
        by (simp add: w' rw_set_bit_def bit_is_set_def word_bit_set_iff)
      also have "\<dots> \<longleftrightarrow> d = 0 \<or> unat (?s - h) \<le> d \<and> (\<exists>a \<in> A. unat h = unat a + (d - unat (?s - h)))"
        using bits that by auto
      also have "\<dots> \<longleftrightarrow> (\<exists>a \<in> insert ?s A. unat ?s = unat a + d)"
      proof -
        have "unat (?s - h) \<le> d \<and> unat h = unat a + (d - unat (?s - h)) \<longleftrightarrow> unat ?s = unat a + d"
          if "a \<in> A" for a
        proof -
          have "unat a \<le> unat h" using A(2) that by (simp add: word_le_nat_alt)
          with adv show ?thesis by linarith
        qed
        then show ?thesis by auto
      qed
      finally show ?thesis .
    qed
    moreover have "\<forall>a \<in> insert ?s A. a \<le> ?s"
      using A(2) True by (auto intro: order_trans less_imp_le)
    ultimately show ?thesis
      using rw_shift_bits(1) [OF A(3), of 0] by (simp add: window_of_def w' rw_set_bit_def)
  next
    case False
    then have w': "w' = rw_set_bit w (unat (h - ?s))" and small: "unat (h - ?s) < 1024"
      using assms(2) Some
      by (auto simp: rw_accept_def rw_check_def Let_def REPLAY_WINDOW_SIZE_def split: if_splits)
    have d: "unat (h - ?s) = unat h - unat ?s" "unat ?s \<le> unat h"
      using unat_diff_le [of ?s h] False by (simp_all add: not_less word_le_nat_alt)
    have "bit_is_set w' e \<longleftrightarrow> (\<exists>a \<in> insert ?s A. unat h = unat a + e)" if "e < 1024" for e
      using bits [OF that] that small A(3) d
      by (auto simp: w' rw_set_bit_def bit_is_set_def word_bit_set_iff)
    with A False Some show ?thesis
      by (simp add: window_of_def w' rw_set_bit_def)
  qed
qed

section \<open>A run of counters\<close>

text \<open>The window fed with a sequence of counters, and the specification that remembers every accepted one.\<close>

fun rw_feed :: "ReplayWindowState \<Rightarrow> Seq list \<Rightarrow> bool list" where
  "rw_feed w [] = []"
| "rw_feed w (s # ss) = (case rw_accept w s of Inl _ \<Rightarrow> False # rw_feed w ss | Inr w' \<Rightarrow> True # rw_feed w' ss)"

fun set_feed :: "u64 set \<Rightarrow> Seq list \<Rightarrow> bool list" where
  "set_feed A [] = []"
| "set_feed A (s # ss) =
     (if seq_raw s \<notin> A \<and> (\<forall>a \<in> A. unat a < unat (seq_raw s) + REPLAY_WINDOW_SIZE)
      then True # set_feed (insert (seq_raw s) A) ss else False # set_feed A ss)"

lemma rw_feed_set: "window_of A w \<Longrightarrow> rw_feed w ss = set_feed A ss"
proof (induction ss arbitrary: A w)
  case (Cons s ss)
  note chk = rw_check_iff [OF Cons.prems, of s]
  show ?case
  proof (cases "rw_check w s")
    case (Inl e)
    with chk Cons show ?thesis by (auto simp: rw_accept_def)
  next
    case (Inr u)
    then obtain w' where w': "rw_accept w s = Inr w'" by (auto simp: rw_accept_def)
    have "rw_feed w' ss = set_feed (insert (seq_raw s) A) ss"
      by (rule Cons.IH [OF rw_accept_window [OF Cons.prems w']])
    with chk Inr w' show ?thesis by auto
  qed
qed simp

end
