(* ===== verification/Aead.thy ===== *)
theory Aead
  imports Encoding_Packet Replay
begin

text \<open>
  Pairwise packet protection, \<open>backend/src/crypto/aead.rs\<close>: the per-key state with its two send
  counters and its replay windows, header validation, and the bodies of \<open>seal\<close> and
  \<open>open\<close> that run under the keystore lock. The AES-256-GCM cipher is the \<open>aes-gcm\<close> crate: a
  parameter, with decryption inverting encryption as the hypothesis \<open>gcm_correct\<close>.
\<close>

record gcm =
  gcm_encrypt :: "256 word \<Rightarrow> bytes \<Rightarrow> bytes \<Rightarrow> bytes \<Rightarrow> bytes option"
  gcm_decrypt :: "256 word \<Rightarrow> bytes \<Rightarrow> bytes \<Rightarrow> bytes \<Rightarrow> bytes option"

definition gcm_correct :: "gcm \<Rightarrow> bool" where
  "gcm_correct g \<longleftrightarrow>
     (\<forall>key nonce aad msg ct. gcm_encrypt g key nonce aad msg = Some ct \<longrightarrow>
        gcm_decrypt g key nonce aad ct = Some msg)"

record PairKeyHandle =
  ph_slot :: u64
  ph_store_id :: "256 word"

record PairKeyState =
  pk_key :: "256 word"
  pk_peer_id :: PeerId
  pk_epoch :: Epoch
  pk_send_packet :: "u64 option"
  pk_send_chunk :: "u64 option"
  pk_replay :: "ReplayWindowKey \<rightharpoonup> ReplayWindowState"

definition pair_key_new :: "256 word \<Rightarrow> PeerId \<Rightarrow> Epoch \<Rightarrow> PairKeyState" where
  "pair_key_new key pid epoch = \<lparr>pk_key = key, pk_peer_id = pid, pk_epoch = epoch,
     pk_send_packet = None, pk_send_chunk = None, pk_replay = Map.empty\<rparr>"

definition last_sent :: "PairKeyState \<Rightarrow> PayloadType \<Rightarrow> u64 option" where
  "last_sent st payload_type = (case payload_type of Packet \<Rightarrow> pk_send_packet st | ChunkBody \<Rightarrow> pk_send_chunk st)"

definition reserve_send :: "PairKeyState \<Rightarrow> PayloadType \<Rightarrow> Seq \<Rightarrow> PairKeyState result" where
  "reserve_send st payload_type seq =
     and_then (guard_ok (case last_sent st payload_type of None \<Rightarrow> True | Some previous \<Rightarrow> \<not> seq_raw seq \<le> previous)
       (State ''AEAD send counter must strictly increase'')) (\<lambda>_.
     Inr (case payload_type of
            Packet \<Rightarrow> st\<lparr>pk_send_packet := Some (seq_raw seq)\<rparr>
          | ChunkBody \<Rightarrow> st\<lparr>pk_send_chunk := Some (seq_raw seq)\<rparr>))"

definition next_outbound_seq :: "PairKeyState \<Rightarrow> PayloadType \<Rightarrow> Seq result" where
  "next_outbound_seq st payload_type =
     (case last_sent st payload_type of
        Some previous \<Rightarrow> and_then (ok_or (checked_add previous 1) (State ''AEAD send counter exhausted'')) (\<lambda>n. Inr (Seq n))
      | None \<Rightarrow> Inr (Seq 1))"

definition validate_header ::
  "PeerId \<Rightarrow> PairKeyState \<Rightarrow> PacketHeader \<Rightarrow> PayloadType \<Rightarrow> bytes \<Rightarrow> Direction \<Rightarrow> ReplayWindowKey result" where
  "validate_header local_id st header payload_type nonce_bytes direction =
     and_then (guard_ok (hdr_version header = PROTOCOL_VERSION) (InvalidInput ''unsupported packet version'')) (\<lambda>_.
     let endpoints_match = (case direction of
           Outbound \<Rightarrow> hdr_sender_id header = local_id \<and> hdr_receiver_id header = pk_peer_id st
         | Inbound \<Rightarrow> hdr_sender_id header = pk_peer_id st \<and> hdr_receiver_id header = local_id) in
     and_then (guard_ok (\<not> (\<not> endpoints_match \<or> hdr_epoch header \<noteq> pk_epoch st))
       (InvalidInput ''AAD does not match pair key'')) (\<lambda>_.
     and_then (guard_ok (nonce_bytes = nonce header payload_type)
       (InvalidInput ''nonce does not match AAD'')) (\<lambda>_.
     Inr \<lparr>rk_peer_id = pk_peer_id st, rk_epoch = pk_epoch st, rk_direction = direction,
          rk_payload_type = payload_type\<rparr>)))"

text \<open>
  The closures that \<open>seal\<close> and \<open>open\<close> hand to \<open>with_pair_state\<close>: the value returned and the state
  left behind, also when an error is returned.
\<close>

definition seal_in ::
  "gcm \<Rightarrow> PeerId \<Rightarrow> PacketHeader \<Rightarrow> PayloadType \<Rightarrow> bytes \<Rightarrow> bytes \<Rightarrow> bytes \<Rightarrow> PairKeyState \<Rightarrow>
    bytes result \<times> PairKeyState" where
  "seal_in g local_id header payload_type nonce_bytes aad plaintext st =
     (case validate_header local_id st header payload_type nonce_bytes Outbound of
        Inl e \<Rightarrow> (Inl e, st)
      | Inr _ \<Rightarrow>
          (case reserve_send st payload_type (hdr_seq header) of
             Inl e \<Rightarrow> (Inl e, st)
           | Inr st \<Rightarrow>
               (ok_or (gcm_encrypt g (pk_key st) nonce_bytes aad plaintext) AuthenticationFailed, st)))"

definition replay_entry :: "PairKeyState \<Rightarrow> ReplayWindowKey \<Rightarrow> ReplayWindowState" where
  "replay_entry st k = (case pk_replay st k of None \<Rightarrow> rw_default | Some w \<Rightarrow> w)"

definition open_in ::
  "gcm \<Rightarrow> PeerId \<Rightarrow> PacketHeader \<Rightarrow> PayloadType \<Rightarrow> bytes \<Rightarrow> bytes \<Rightarrow> bytes \<Rightarrow> PairKeyState \<Rightarrow>
    bytes result \<times> PairKeyState" where
  "open_in g local_id header payload_type nonce_bytes aad ciphertext st =
     (case validate_header local_id st header payload_type nonce_bytes Inbound of
        Inl e \<Rightarrow> (Inl e, st)
      | Inr replay_key \<Rightarrow>
          (let st = st\<lparr>pk_replay := (pk_replay st)(replay_key \<mapsto> replay_entry st replay_key)\<rparr> in
           case rw_check (replay_entry st replay_key) (hdr_seq header) of
             Inl e \<Rightarrow> (Inl e, st)
           | Inr _ \<Rightarrow>
               (case gcm_decrypt g (pk_key st) nonce_bytes aad ciphertext of
                  None \<Rightarrow> (Inl AuthenticationFailed, st)
                | Some plaintext \<Rightarrow>
                    (case rw_accept (replay_entry st replay_key) (hdr_seq header) of
                       Inl e \<Rightarrow> (Inl e, st)
                     | Inr w \<Rightarrow> (Inr plaintext, st\<lparr>pk_replay := (pk_replay st)(replay_key \<mapsto> w)\<rparr>)))))"

definition seal :: "gcm \<Rightarrow> PeerId \<Rightarrow> bytes \<Rightarrow> bytes \<Rightarrow> bytes \<Rightarrow> PairKeyState \<Rightarrow> bytes result \<times> PairKeyState" where
  "seal g local_id nonce_bytes aad plaintext st =
     (case decode_aad aad of
        Inl e \<Rightarrow> (Inl e, st)
      | Inr (header, payload_type) \<Rightarrow> seal_in g local_id header payload_type nonce_bytes aad plaintext st)"

definition aead_open :: "gcm \<Rightarrow> PeerId \<Rightarrow> bytes \<Rightarrow> bytes \<Rightarrow> bytes \<Rightarrow> PairKeyState \<Rightarrow> bytes result \<times> PairKeyState" where
  "aead_open g local_id nonce_bytes aad ciphertext st =
     (case decode_aad aad of
        Inl e \<Rightarrow> (Inl e, st)
      | Inr (header, payload_type) \<Rightarrow> open_in g local_id header payload_type nonce_bytes aad ciphertext st)"

section \<open>One operation\<close>

definition pair_identity :: "PairKeyState \<Rightarrow> 256 word \<times> PeerId \<times> Epoch" where
  "pair_identity st = (pk_key st, pk_peer_id st, pk_epoch st)"

lemma validate_header_Inr:
  "validate_header me st h t n d = Inr k \<longleftrightarrow>
    hdr_version h = PROTOCOL_VERSION \<and> hdr_epoch h = pk_epoch st \<and> n = nonce h t \<and>
    (case d of Outbound \<Rightarrow> hdr_sender_id h = me \<and> hdr_receiver_id h = pk_peer_id st
             | Inbound \<Rightarrow> hdr_sender_id h = pk_peer_id st \<and> hdr_receiver_id h = me) \<and>
    k = \<lparr>rk_peer_id = pk_peer_id st, rk_epoch = pk_epoch st, rk_direction = d, rk_payload_type = t\<rparr>"
  by (auto simp: validate_header_def Let_def)

lemma reserve_send_Inr:
  "reserve_send st t seq = Inr st' \<longleftrightarrow>
    (\<forall>l. last_sent st t = Some l \<longrightarrow> l < seq_raw seq) \<and>
    st' = (case t of Packet \<Rightarrow> st\<lparr>pk_send_packet := Some (seq_raw seq)\<rparr>
                   | ChunkBody \<Rightarrow> st\<lparr>pk_send_chunk := Some (seq_raw seq)\<rparr>)"
  by (auto simp: reserve_send_def split: option.splits)

lemma last_sent_reserve:
  "reserve_send st t seq = Inr st' \<Longrightarrow> last_sent st' u = (if u = t then Some (seq_raw seq) else last_sent st u)"
  by (cases t; cases u) (auto simp: reserve_send_Inr last_sent_def)

lemma reserve_send_frame:
  "reserve_send st t seq = Inr st' \<Longrightarrow> pair_identity st' = pair_identity st \<and> pk_replay st' = pk_replay st"
  by (cases t) (auto simp: reserve_send_Inr pair_identity_def)

lemma next_outbound_seq_reserves:
  "next_outbound_seq st t = Inr seq \<Longrightarrow> is_ok (reserve_send st t seq)"
  by (auto simp: next_outbound_seq_def is_ok_iff reserve_send_Inr dest: checked_add_one_less split: option.splits)

lemma sorted_last_greatest: "sorted_wrt (<) xs \<Longrightarrow> n \<in> set xs \<Longrightarrow> n \<le> (last xs :: 'a :: linorder)"
  by (induction xs) (auto intro: less_imp_le)

text \<open>The counters of one payload type among a sequence of reservations.\<close>

definition used_counters :: "PayloadType \<Rightarrow> (PayloadType \<times> Seq) list \<Rightarrow> u64 list" where
  "used_counters t calls = map (\<lambda>call. seq_raw (snd call)) (filter (\<lambda>call. fst call = t) calls)"

lemma used_counters_append:
  "used_counters t [] = []"
  "used_counters t (calls @ [(u, seq)]) = used_counters t calls @ (if u = t then [seq_raw seq] else [])"
  by (simp_all add: used_counters_def)

lemma reserved_counters:
  assumes "fold_ok (\<lambda>(t, seq) st. reserve_send st t seq) calls (pair_key_new key peer epoch) = Inr st"
  shows "sorted_wrt (<) (used_counters t calls) \<and>
    last_sent st t = (if used_counters t calls = [] then None else Some (last (used_counters t calls)))"
  using assms
proof (induction calls arbitrary: st rule: rev_induct)
  case Nil
  then show ?case by (cases t) (auto simp: used_counters_def pair_key_new_def last_sent_def)
next
  case (snoc call calls)
  obtain u seq where call: "call = (u, seq)" by (cases call)
  then obtain st1 where st1: "fold_ok (\<lambda>(t, seq) st. reserve_send st t seq) calls (pair_key_new key peer epoch) = Inr st1"
      "reserve_send st1 u seq = Inr st"
    using snoc.prems by (auto simp: fold_ok_append)
  note IH = snoc.IH [OF st1(1)]
  have "n < seq_raw seq" if "n \<in> set (used_counters t calls)" "u = t" for n
  proof -
    have "n \<le> last (used_counters t calls)"
      using IH that(1) by (blast intro: sorted_last_greatest)
    moreover have "last (used_counters t calls) < seq_raw seq"
      using IH st1(2) that by (auto simp: reserve_send_Inr split: if_splits)
    ultimately show ?thesis by simp
  qed
  with IH last_sent_reserve [OF st1(2)] show ?case
    by (auto simp: used_counters_append call sorted_wrt_append)
qed

lemma seal_Inr:
  "seal g me n aad p st = (Inr c, st') \<longleftrightarrow>
    (\<exists>h t k. decode_aad aad = Inr (h, t) \<and> validate_header me st h t n Outbound = Inr k \<and>
      reserve_send st t (hdr_seq h) = Inr st' \<and> gcm_encrypt g (pk_key st') n aad p = Some c)"
  by (auto simp: seal_def seal_in_def split: sum.splits prod.splits)

lemma seal_frame:
  assumes "seal g me n aad p st = (r, st')"
  shows "pair_identity st' = pair_identity st \<and> pk_replay st' = pk_replay st"
  using assms reserve_send_frame
  by (auto simp: seal_def seal_in_def split: sum.splits prod.splits)

lemma seal_counters:
  assumes "seal g me n aad p st = (r, st')" and "last_sent st u = Some l"
  shows "\<exists>l'. last_sent st' u = Some l' \<and> l \<le> l'"
  using assms last_sent_reserve [of st _ _ st' u]
  by (auto simp: seal_def seal_in_def reserve_send_Inr less_imp_le split: sum.splits prod.splits if_splits)

abbreviation inbound_key :: "PairKeyState \<Rightarrow> PayloadType \<Rightarrow> ReplayWindowKey" where
  "inbound_key st t \<equiv> \<lparr>rk_peer_id = pk_peer_id st, rk_epoch = pk_epoch st, rk_direction = Inbound, rk_payload_type = t\<rparr>"

lemma replay_entry_upd [simp]:
  "replay_entry (st\<lparr>pk_replay := (pk_replay st')(k \<mapsto> w)\<rparr>) l = (if l = k then w else replay_entry (st\<lparr>pk_replay := pk_replay st'\<rparr>) l)"
  by (simp add: replay_entry_def)

lemma replay_entry_self [simp]: "replay_entry (st\<lparr>pk_replay := pk_replay st\<rparr>) = replay_entry st"
  by (simp add: replay_entry_def fun_eq_iff)

lemma open_frame:
  assumes "aead_open g me n aad c st = (r, st')"
  shows "pair_identity st' = pair_identity st \<and> last_sent st' = last_sent st"
  using assms
  by (auto simp: aead_open_def open_in_def Let_def pair_identity_def last_sent_def fun_eq_iff
      split: sum.splits prod.splits option.splits PayloadType.splits)

lemma open_Inr:
  assumes "aead_open g me n aad c st = (Inr p, st')"
  shows "\<exists>h t w. decode_aad aad = Inr (h, t) \<and> n = nonce h t \<and>
      rw_accept (replay_entry st (inbound_key st t)) (hdr_seq h) = Inr w \<and>
      hdr_sender_id h = pk_peer_id st \<and> hdr_receiver_id h = me \<and> hdr_epoch h = pk_epoch st \<and>
      gcm_decrypt g (pk_key st) n aad c = Some p \<and>
      replay_entry st' = (replay_entry st)(inbound_key st t := w)"
  using assms
  by (auto simp: aead_open_def open_in_def Let_def validate_header_Inr fun_eq_iff
      split: sum.splits prod.splits option.splits)

lemma open_Inl:
  assumes "aead_open g me n aad c st = (Inl e, st')"
  shows "replay_entry st' = replay_entry st"
  using assms
  by (auto simp: aead_open_def open_in_def Let_def validate_header_Inr fun_eq_iff
      split: sum.splits prod.splits option.splits)

section \<open>Sequences of operations on one pair key\<close>

datatype aead_call =
    CallSeal bytes bytes bytes
  | CallOpen bytes bytes bytes

text \<open>
  A trace keeps, oldest first, the nonces of the ciphertexts produced and the counters of the
  packets accepted.
\<close>

record aead_trace =
  tr_sealed :: "bytes list"
  tr_opened :: "(PayloadType \<times> Seq) list"

fun aead_step :: "gcm \<Rightarrow> PeerId \<Rightarrow> aead_call \<Rightarrow> PairKeyState \<times> aead_trace \<Rightarrow> PairKeyState \<times> aead_trace" where
  "aead_step g me (CallSeal n aad p) (st, tr) =
     (case seal g me n aad p st of
        (Inl _, st') \<Rightarrow> (st', tr)
      | (Inr _, st') \<Rightarrow> (st', tr\<lparr>tr_sealed := tr_sealed tr @ [n]\<rparr>))"
| "aead_step g me (CallOpen n aad c) (st, tr) =
     (case aead_open g me n aad c st of
        (Inl _, st') \<Rightarrow> (st', tr)
      | (Inr _, st') \<Rightarrow>
          (st', case decode_aad aad of
                  Inl _ \<Rightarrow> tr
                | Inr (h, t) \<Rightarrow> tr\<lparr>tr_opened := tr_opened tr @ [(t, hdr_seq h)]\<rparr>))"

definition aead_run :: "gcm \<Rightarrow> PeerId \<Rightarrow> PairKeyState \<Rightarrow> aead_call list \<Rightarrow> PairKeyState \<times> aead_trace" where
  "aead_run g me st calls = fold (aead_step g me) calls (st, \<lparr>tr_sealed = [], tr_opened = []\<rparr>)"

text \<open>
  Every nonce produced names the local peer as sender and a counter no larger than the last one
  reserved; every accepted counter is in the replay window of its payload type.
\<close>

definition sealed_ok :: "PeerId \<Rightarrow> PairKeyState \<Rightarrow> bytes list \<Rightarrow> bool" where
  "sealed_ok me st ns \<longleftrightarrow> distinct ns \<and>
     (\<forall>n \<in> set ns. \<exists>h t l. n = nonce h t \<and> hdr_sender_id h = me \<and> hdr_receiver_id h = pk_peer_id st \<and>
        last_sent st t = Some l \<and> seq_raw (hdr_seq h) \<le> l)"

definition opened_ok :: "PairKeyState \<Rightarrow> (PayloadType \<times> Seq) list \<Rightarrow> bool" where
  "opened_ok st xs \<longleftrightarrow> distinct xs \<and>
     (\<forall>t. window_of {seq_raw s |s. (t, s) \<in> set xs} (replay_entry st (inbound_key st t)))"

definition aead_inv :: "PeerId \<Rightarrow> PairKeyState \<times> aead_trace \<Rightarrow> bool" where
  "aead_inv me s \<longleftrightarrow> sealed_ok me (fst s) (tr_sealed (snd s)) \<and> opened_ok (fst s) (tr_opened (snd s))"

lemma sealed_ok_mono:
  assumes "sealed_ok me st ns" and "pk_peer_id st' = pk_peer_id st"
    and "\<And>t l. last_sent st t = Some l \<Longrightarrow> \<exists>l'. last_sent st' t = Some l' \<and> l \<le> l'"
  shows "sealed_ok me st' ns"
proof -
  have "\<exists>h t l. n = nonce h t \<and> hdr_sender_id h = me \<and> hdr_receiver_id h = pk_peer_id st' \<and>
      last_sent st' t = Some l \<and> seq_raw (hdr_seq h) \<le> l" if n: "n \<in> set ns" for n
  proof -
    from n assms(1) obtain h t l where h: "n = nonce h t" "hdr_sender_id h = me"
      "hdr_receiver_id h = pk_peer_id st" "last_sent st t = Some l" "seq_raw (hdr_seq h) \<le> l"
      unfolding sealed_ok_def by blast
    from assms(3) [OF h(4)] obtain l' where "last_sent st' t = Some l'" "l \<le> l'" by blast
    with h assms(2) show ?thesis
      by (intro exI [of _ h] exI [of _ t] exI [of _ l']) simp
  qed
  with assms(1) show ?thesis unfolding sealed_ok_def by blast
qed

lemma sealed_ok_new:
  assumes "sealed_ok me st ns" and "seal g me n aad p st = (Inr c, st')"
  shows "sealed_ok me st' (ns @ [n])"
proof -
  obtain h t k where h: "decode_aad aad = Inr (h, t)" "validate_header me st h t n Outbound = Inr k"
    "reserve_send st t (hdr_seq h) = Inr st'"
    using assms(2) by (auto simp: seal_Inr)
  have n: "n = nonce h t" "hdr_sender_id h = me" "hdr_receiver_id h = pk_peer_id st"
    using h(2) by (auto simp: validate_header_Inr)
  have peer: "pk_peer_id st' = pk_peer_id st"
    using seal_frame [OF assms(2)] by (simp add: pair_identity_def)
  have fresh: "n \<notin> set ns"
  proof
    assume "n \<in> set ns"
    then obtain h' t' l where h': "n = nonce h' t'" "last_sent st t' = Some l" "seq_raw (hdr_seq h') \<le> l"
      using assms(1) by (auto simp: sealed_ok_def)
    then have "t' = t" "hdr_seq h' = hdr_seq h"
      using n(1) by (auto simp: nonce_eq_iff)
    with h' h(3) show False
      by (auto simp: reserve_send_Inr)
  qed
  have old: "sealed_ok me st' ns"
    using sealed_ok_mono [OF assms(1) peer seal_counters [OF assms(2)]] .
  have "last_sent st' t = Some (seq_raw (hdr_seq h))"
    using last_sent_reserve [OF h(3)] by simp
  with old fresh n peer show ?thesis
    unfolding sealed_ok_def by auto
qed

lemma opened_ok_new:
  assumes "opened_ok st xs" and "aead_open g me n aad c st = (Inr p, st')" and "decode_aad aad = Inr (h, t)"
  shows "opened_ok st' (xs @ [(t, hdr_seq h)])"
proof -
  have frame: "inbound_key st' = inbound_key st"
    using open_frame [OF assms(2)] by (auto simp: pair_identity_def)
  obtain w where acc: "rw_accept (replay_entry st (inbound_key st t)) (hdr_seq h) = Inr w"
    and upd: "replay_entry st' = (replay_entry st)(inbound_key st t := w)"
    using open_Inr [OF assms(2)] assms(3) by auto
  have win: "window_of {seq_raw s |s. (u, s) \<in> set xs} (replay_entry st (inbound_key st u))" for u
    using assms(1) by (simp add: opened_ok_def)
  have "rw_check (replay_entry st (inbound_key st t)) (hdr_seq h) = Inr ()"
    using acc by (auto simp: rw_accept_def)
  then have fresh: "(t, hdr_seq h) \<notin> set xs"
    using rw_check_iff [OF win [of t]] by auto
  have "{seq_raw s |s. (u, s) \<in> set (xs @ [(t, hdr_seq h)])} =
      (if u = t then insert (seq_raw (hdr_seq h)) {seq_raw s |s. (t, s) \<in> set xs}
       else {seq_raw s |s. (u, s) \<in> set xs})" for u
    by auto
  then have "window_of {seq_raw s |s. (u, s) \<in> set (xs @ [(t, hdr_seq h)])} (replay_entry st' (inbound_key st' u))" for u
    using win [of u] rw_accept_window [OF win [of t] acc] frame by (auto simp: upd fun_eq_iff)
  with fresh assms(1) show ?thesis
    by (auto simp: opened_ok_def)
qed

lemma opened_ok_same:
  "opened_ok st xs \<Longrightarrow> replay_entry st' = replay_entry st \<Longrightarrow> pair_identity st' = pair_identity st \<Longrightarrow>
    opened_ok st' xs"
  by (simp add: opened_ok_def pair_identity_def)

lemma aead_step_inv: "aead_inv me s \<Longrightarrow> aead_inv me (aead_step g me call s)"
proof -
  assume inv: "aead_inv me s"
  obtain st tr where s: "s = (st, tr)" by (cases s)
  have inv': "sealed_ok me st (tr_sealed tr)" "opened_ok st (tr_opened tr)"
    using inv by (simp_all add: aead_inv_def s)
  show ?thesis
  proof (cases call)
    case (CallSeal n aad p)
    obtain r st' where r: "seal g me n aad p st = (r, st')" by force
    have "replay_entry st' = replay_entry st" and "pair_identity st' = pair_identity st"
      using seal_frame [OF r] by (simp_all add: replay_entry_def fun_eq_iff)
    then have same: "opened_ok st' (tr_opened tr)"
      by (rule opened_ok_same [OF inv'(2)])
    show ?thesis
    proof (cases r)
      case (Inl e)
      moreover have "sealed_ok me st' (tr_sealed tr)"
        using sealed_ok_mono [OF inv'(1) _ seal_counters [OF r]] seal_frame [OF r] by (simp add: pair_identity_def)
      ultimately show ?thesis
        using same by (simp add: CallSeal s r aead_inv_def)
    next
      case (Inr c)
      with sealed_ok_new [OF inv'(1)] r same show ?thesis
        by (simp add: CallSeal s aead_inv_def)
    qed
  next
    case (CallOpen n aad c)
    obtain r st' where r: "aead_open g me n aad c st = (r, st')" by force
    have same: "sealed_ok me st' (tr_sealed tr)"
      using sealed_ok_mono [OF inv'(1)] open_frame [OF r] by (simp add: pair_identity_def)
    show ?thesis
    proof (cases r)
      case (Inl e)
      with r have "opened_ok st' (tr_opened tr)"
        using opened_ok_same [OF inv'(2)] open_Inl open_frame by blast
      with same Inl show ?thesis
        by (simp add: CallOpen s r aead_inv_def)
    next
      case (Inr p)
      with r obtain h t where "decode_aad aad = Inr (h, t)"
        using open_Inr by blast
      with Inr r same opened_ok_new [OF inv'(2)] show ?thesis
        by (simp add: CallOpen s aead_inv_def)
    qed
  qed
qed

lemma aead_inv_new: "aead_inv me (pair_key_new k p e, \<lparr>tr_sealed = [], tr_opened = []\<rparr>)"
  by (simp add: aead_inv_def sealed_ok_def opened_ok_def pair_key_new_def replay_entry_def window_of_default)

lemma aead_run_inv: "aead_inv me (aead_run g me (pair_key_new k p e) calls)"
proof -
  have "aead_inv me s \<Longrightarrow> aead_inv me (fold (aead_step g me) calls s)" for s
    by (induction calls arbitrary: s) (simp_all add: aead_step_inv)
  then show ?thesis
    by (simp add: aead_run_def aead_inv_new)
qed

lemma aead_run_peer: "pk_peer_id (fst (aead_run g me st calls)) = pk_peer_id st"
proof -
  have "pk_peer_id (fst (aead_step g me c s)) = pk_peer_id (fst s)" for c s
    by (cases s; cases c)
      (auto split: prod.splits sum.splits dest!: seal_frame open_frame simp: pair_identity_def)
  then have "pk_peer_id (fst (fold (aead_step g me) calls s)) = pk_peer_id (fst s)" for s
    by (induction calls arbitrary: s) simp_all
  then show ?thesis by (simp add: aead_run_def)
qed

end
