(* ===== verification/Encoding_Control.thy ===== *)
theory Encoding_Control
  imports Encoding_Packet
begin

text \<open>
  Manifests, instruction records, mailbox frames and envelopes with their delivery digests, pull
  requests and have queries: the middle part of \<open>backend/src/encoding.rs\<close> together with the
  bounded request types of \<open>protocol/pull.rs\<close> and \<open>protocol/locate.rs\<close>.
\<close>

section \<open>Identifiers in sequences\<close>

definition rd_peer :: "PeerId parser" where
  "rd_peer = p_bind rd_id32 (\<lambda>w. p_ret (PeerId w))"

definition rd_file :: "FileId parser" where
  "rd_file = p_bind rd_id32 (\<lambda>w. p_ret (FileId w))"

definition rd_chunk :: "ChunkId parser" where
  "rd_chunk = p_bind rd_id32 (\<lambda>w. p_ret (ChunkId w))"

lemma reads_peer [reads_intro]: "reads rd_peer p (peer_bytes p) post"
  unfolding rd_peer_def by (rule reads_bind_last [OF reads_id32]) (simp add: reads_ret')

lemma reads_file [reads_intro]: "reads rd_file p (file_bytes p) post"
  unfolding rd_file_def by (rule reads_bind_last [OF reads_id32]) (simp add: reads_ret')

lemma reads_chunk [reads_intro]: "reads rd_chunk p (chunk_bytes p) post"
  unfolding rd_chunk_def by (rule reads_bind_last [OF reads_id32]) (simp add: reads_ret')

lemma rd_peer_inv [wire_elim]:
  assumes "rd_peer (at pre rest) = Inr (v, r')"
  obtains post where "rest = peer_bytes v @ post" and "r' = at (pre @ peer_bytes v) post"
  using assms by (auto simp: rd_peer_def elim!: rd_id32_inv)

lemma rd_file_inv [wire_elim]:
  assumes "rd_file (at pre rest) = Inr (v, r')"
  obtains post where "rest = file_bytes v @ post" and "r' = at (pre @ file_bytes v) post"
  using assms by (auto simp: rd_file_def elim!: rd_id32_inv)

lemma rd_chunk_inv [wire_elim]:
  assumes "rd_chunk (at pre rest) = Inr (v, r')"
  obtains post where "rest = chunk_bytes v @ post" and "r' = at (pre @ chunk_bytes v) post"
  using assms by (auto simp: rd_chunk_def elim!: rd_id32_inv)

interpretation c_peer: codec rd_peer "\<lambda>p. peer_bytes p" "\<lambda>_. True" 32
  by unfold_locales (auto intro: reads_peer elim!: rd_peer_inv)

interpretation c_file: codec rd_file "\<lambda>p. file_bytes p" "\<lambda>_. True" 32
  by unfold_locales (auto intro: reads_file elim!: rd_file_inv)

interpretation c_chunk: codec rd_chunk "\<lambda>p. chunk_bytes p" "\<lambda>_. True" 32
  by unfold_locales (auto intro: reads_chunk elim!: rd_chunk_inv)

lemma length_chunk_seq [simp]: "length (concat (map (\<lambda>c. chunk_bytes c) cs)) = 32 * length cs"
  by (induction cs) auto

lemma length_peer_seq [simp]: "length (concat (map (\<lambda>c. peer_bytes c) cs)) = 32 * length cs"
  by (induction cs) auto

lemma rd_chunks_inv [wire_elim]:
  assumes "rd_many n rd_chunk (at pre rest) = Inr (v, r')"
  obtains post where "length v = n" and "rest = concat (map (\<lambda>c. chunk_bytes c) v) @ post"
    and "r' = at (pre @ concat (map (\<lambda>c. chunk_bytes c) v)) post"
  using c_chunk.many_inv [OF assms] by blast

section \<open>Manifests\<close>

definition manifest_m :: "Manifest \<Rightarrow> bytes result" where
  "manifest_m manifest =
     and_then (push_length (file_bytes (mf_file_id manifest) @ to_be_bytes (mf_version manifest) @
         to_be_bytes (mf_size manifest) @ peer_bytes (mf_writer_id manifest))
       (length (mf_chunk_ids manifest))) (\<lambda>out.
     Inr (out @ concat (map (\<lambda>c. chunk_bytes c) (mf_chunk_ids manifest))))"

definition decode_manifest_message :: "bytes \<Rightarrow> bytes \<Rightarrow> Manifest result" where
  "decode_manifest_message message signature = run_parser (
     p_bind rd_file (\<lambda>file_id.
     p_bind rd_u64 (\<lambda>version.
     p_bind rd_u64 (\<lambda>size.
     p_bind rd_peer (\<lambda>writer_id.
     p_bind (rd_count 32) (\<lambda>count.
     p_bind (rd_many count rd_chunk) (\<lambda>chunk_ids.
     p_bind rd_finish (\<lambda>_.
     p_ret \<lparr>mf_file_id = file_id, mf_chunk_ids = chunk_ids, mf_size = size, mf_writer_id = writer_id,
            mf_version = version, mf_signature = signature\<rparr>)))))))) message"

definition manifest_bytes :: "Manifest \<Rightarrow> bytes" where
  "manifest_bytes m = file_bytes (mf_file_id m) @ to_be_bytes (mf_version m) @ to_be_bytes (mf_size m) @
     peer_bytes (mf_writer_id m) @ len_bytes (length (mf_chunk_ids m)) @
     concat (map (\<lambda>c. chunk_bytes c) (mf_chunk_ids m))"

definition manifest_ok :: "Manifest \<Rightarrow> bool" where
  "manifest_ok m \<longleftrightarrow> short (mf_chunk_ids m)"

lemma manifest_m_Inr [simp]: "manifest_m x = Inr m \<longleftrightarrow> manifest_ok x \<and> m = manifest_bytes x"
  by (auto simp: manifest_m_def manifest_ok_def manifest_bytes_def short_def)

lemma decode_manifest_message_Inr:
  assumes "length m \<le> usize_max"
  shows "decode_manifest_message m s = Inr x \<longleftrightarrow> manifest_ok x \<and> m = manifest_bytes x \<and> mf_signature x = s"
proof
  assume "decode_manifest_message m s = Inr x"
  then show "manifest_ok x \<and> m = manifest_bytes x \<and> mf_signature x = s"
    by (auto simp: decode_manifest_message_def manifest_ok_def manifest_bytes_def short_def elim!: wire_elim)
next
  assume x: "manifest_ok x \<and> m = manifest_bytes x \<and> mf_signature x = s"
  show "decode_manifest_message m s = Inr x"
    unfolding decode_manifest_message_def
    by (rule run_parser_reads [OF _ assms])
      (use x in \<open>auto simp: manifest_ok_def manifest_bytes_def short_def
        intro!: reads_bind [OF reads_file] reads_bind [OF reads_u64] reads_bind [OF reads_peer]
          reads_bind [OF reads_count] reads_bind_last [OF c_chunk.reads_many]
          reads_bind_last [OF reads_finish] reads_ret'\<close>)
qed

lemma manifest_bytes_inject:
  assumes "manifest_bytes x = manifest_bytes y" and "manifest_ok x" and "length (manifest_bytes x) \<le> usize_max"
    and "manifest_ok y"
  shows "x\<lparr>mf_signature := []\<rparr> = y\<lparr>mf_signature := []\<rparr>"
proof -
  have "decode_manifest_message (manifest_bytes x) [] = Inr (z\<lparr>mf_signature := []\<rparr>)"
    if "manifest_bytes x = manifest_bytes z" "manifest_ok z" for z
    using that assms(3) by (simp add: decode_manifest_message_Inr) (simp add: manifest_ok_def manifest_bytes_def)
  from this [of x] this [of y] show ?thesis
    using assms by simp
qed

section \<open>Instruction records\<close>

definition decode_utf8_name :: "bytes \<Rightarrow> bytes result" where
  "decode_utf8_name bs = (if utf8_ok bs then Inr bs else Inl (InvalidInput ''directory name is not UTF-8''))"

definition bool_byte :: "bool \<Rightarrow> byte" where
  "bool_byte b = (if b then 1 else 0)"

definition encode_control_record :: "ControlRecord \<Rightarrow> bytes result" where
  "encode_control_record record =
     (let out = to_be_bytes (cr_id record) in
      case cr_update record of
        NewManifest manifest \<Rightarrow>
          and_then (manifest_m manifest) (\<lambda>m.
          and_then (push_variable (out @ [0]) m) (\<lambda>out.
          push_variable out (mf_signature manifest)))
      | Add file_id \<Rightarrow> Inr (out @ [1] @ file_bytes file_id)
      | Clear file_id \<Rightarrow> Inr (out @ [2] @ file_bytes file_id)
      | Remove file_id \<Rightarrow> Inr (out @ [3] @ file_bytes file_id)
      | Link parent name child is_dir \<Rightarrow>
          and_then (push_variable (out @ [4] @ file_bytes parent) name) (\<lambda>out.
          Inr (out @ file_bytes child @ [bool_byte is_dir]))
      | Unlink parent name \<Rightarrow> push_variable (out @ [5] @ file_bytes parent) name
      | Rename src_parent src_name dst_parent dst_name \<Rightarrow>
          and_then (push_variable (out @ [6] @ file_bytes src_parent) src_name) (\<lambda>out.
          push_variable (out @ file_bytes dst_parent) dst_name)
      | Kick pid \<Rightarrow> Inr (out @ [7] @ peer_bytes pid))"

definition rd_name :: "bytes parser" where
  "rd_name = p_bind rd_variable (\<lambda>b. p_lift (decode_utf8_name b))"

definition rd_update :: "ControlUpdate parser" where
  "rd_update = p_bind rd_byte (\<lambda>kind.
     if kind = 0 then
       p_bind rd_variable (\<lambda>message.
       p_bind rd_variable (\<lambda>signature.
       p_bind (p_lift (decode_manifest_message message signature)) (\<lambda>m. p_ret (NewManifest m))))
     else if kind = 1 then p_bind rd_file (\<lambda>f. p_ret (Add f))
     else if kind = 2 then p_bind rd_file (\<lambda>f. p_ret (Clear f))
     else if kind = 3 then p_bind rd_file (\<lambda>f. p_ret (Remove f))
     else if kind = 4 then
       p_bind rd_file (\<lambda>parent.
       p_bind rd_name (\<lambda>name.
       p_bind rd_file (\<lambda>child.
       p_bind rd_byte (\<lambda>b.
       p_bind (p_lift (flag_of_byte ''invalid Link directory flag'' b)) (\<lambda>is_dir.
       p_ret (Link parent name child is_dir))))))
     else if kind = 5 then
       p_bind rd_file (\<lambda>parent.
       p_bind rd_name (\<lambda>name.
       p_ret (Unlink parent name)))
     else if kind = 6 then
       p_bind rd_file (\<lambda>src_parent.
       p_bind rd_name (\<lambda>src_name.
       p_bind rd_file (\<lambda>dst_parent.
       p_bind rd_name (\<lambda>dst_name.
       p_ret (Rename src_parent src_name dst_parent dst_name)))))
     else if kind = 7 then p_bind rd_peer (\<lambda>p. p_ret (Kick p))
     else p_lift (Inl (InvalidInput ''unknown control record kind'')))"

definition decode_control_record :: "bytes \<Rightarrow> ControlRecord result" where
  "decode_control_record bs = run_parser (
     p_bind rd_u64 (\<lambda>id.
     p_bind rd_update (\<lambda>update.
     p_bind rd_finish (\<lambda>_.
     p_ret \<lparr>cr_id = id, cr_update = update\<rparr>)))) bs"

text \<open>Names inside a record are Rust strings, hence UTF-8.\<close>

fun update_utf8 :: "ControlUpdate \<Rightarrow> bool" where
  "update_utf8 (Link p n c d) = utf8_ok n"
| "update_utf8 (Unlink p n) = utf8_ok n"
| "update_utf8 (Rename p n q m) = (utf8_ok n \<and> utf8_ok m)"
| "update_utf8 _ = True"

fun update_ok :: "ControlUpdate \<Rightarrow> bool" where
  "update_ok (NewManifest m) = (manifest_ok m \<and> short (manifest_bytes m) \<and> short (mf_signature m))"
| "update_ok (Link p n c d) = short n"
| "update_ok (Unlink p n) = short n"
| "update_ok (Rename p n q m) = (short n \<and> short m)"
| "update_ok _ = True"

fun update_bytes :: "ControlUpdate \<Rightarrow> bytes" where
  "update_bytes (NewManifest m) = [0] @ var_bytes (manifest_bytes m) @ var_bytes (mf_signature m)"
| "update_bytes (Add f) = [1] @ file_bytes f"
| "update_bytes (Clear f) = [2] @ file_bytes f"
| "update_bytes (Remove f) = [3] @ file_bytes f"
| "update_bytes (Link p n c d) = [4] @ file_bytes p @ var_bytes n @ file_bytes c @ [bool_byte d]"
| "update_bytes (Unlink p n) = [5] @ file_bytes p @ var_bytes n"
| "update_bytes (Rename p n q m) = [6] @ file_bytes p @ var_bytes n @ file_bytes q @ var_bytes m"
| "update_bytes (Kick p) = [7] @ peer_bytes p"

lemma encode_control_record_Inr:
  "encode_control_record r = Inr bs \<longleftrightarrow>
     update_ok (cr_update r) \<and> bs = to_be_bytes (cr_id r) @ update_bytes (cr_update r)"
  by (cases "cr_update r") (auto simp: encode_control_record_def)

lemma decode_utf8_name_Inr [simp]: "decode_utf8_name bs = Inr n \<longleftrightarrow> utf8_ok bs \<and> n = bs"
  by (auto simp: decode_utf8_name_def)

lemma reads_name: "short n \<Longrightarrow> utf8_ok n \<Longrightarrow> reads rd_name n (var_bytes n) post"
  unfolding rd_name_def by (rule reads_bind_last [OF reads_variable reads_lift]) auto

lemma rd_name_inv [wire_elim]:
  assumes "rd_name (at pre rest) = Inr (v, r')"
  obtains post where "rest = var_bytes v @ post" and "short v" and "utf8_ok v"
    and "r' = at (pre @ var_bytes v) post"
  using assms by (auto simp: rd_name_def elim!: rd_variable_inv)

lemma reads_update:
  assumes "update_ok u" and "update_utf8 u"
  shows "reads rd_update u (update_bytes u) post"
  unfolding rd_update_def
  by (cases u) (use assms in \<open>auto simp: bool_byte_def decode_manifest_message_Inr short_usize simp del: append.simps
    intro!: reads_bind [OF reads_byte] reads_bind [OF reads_file] reads_bind [OF reads_name]
      reads_bind [OF reads_variable] reads_bind_last [OF reads_variable] reads_bind_last [OF reads_name]
      reads_bind_last [OF reads_file] reads_bind_last [OF reads_peer] reads_bind_last [OF reads_byte]
      reads_bind_nil [OF reads_lift] reads_ret'\<close>)

lemma rd_update_inv [wire_elim]:
  assumes "rd_update (at pre rest) = Inr (u, r')"
  obtains post where "rest = update_bytes u @ post" and "update_ok u" and "update_utf8 u"
    and "r' = at (pre @ update_bytes u) post"
  using assms
  by (auto simp: rd_update_def decode_manifest_message_Inr short_usize bool_byte_def elim!: wire_elim
      split: if_splits)

lemma decode_control_record_iff:
  assumes "length bs \<le> usize_max"
  shows "decode_control_record bs = Inr r \<longleftrightarrow> update_utf8 (cr_update r) \<and> encode_control_record r = Inr bs"
proof
  assume "decode_control_record bs = Inr r"
  then show "update_utf8 (cr_update r) \<and> encode_control_record r = Inr bs"
    by (auto simp: decode_control_record_def encode_control_record_Inr elim!: wire_elim)
next
  assume "update_utf8 (cr_update r) \<and> encode_control_record r = Inr bs"
  then show "decode_control_record bs = Inr r"
    unfolding decode_control_record_def
    by (intro run_parser_reads [OF _ assms])
      (auto simp: encode_control_record_Inr intro!: reads_bind [OF reads_u64]
        reads_bind_last [OF reads_update] reads_bind_last [OF reads_finish] reads_ret')
qed

section \<open>Mailbox frames and envelopes\<close>

definition encode_mailbox_frame :: "MailboxFrame \<Rightarrow> bytes result" where
  "encode_mailbox_frame frame =
     (case frame of
        MfControl ciphertext \<Rightarrow> push_variable [0] ciphertext
      | MfChunkBody file_id index ciphertext \<Rightarrow>
          push_variable ([1] @ file_bytes file_id @ to_be_bytes index) ciphertext)"

definition decode_mailbox_frame :: "bytes \<Rightarrow> MailboxFrame result" where
  "decode_mailbox_frame bs = run_parser (
     p_bind (p_bind rd_byte (\<lambda>kind.
       if kind = 0 then p_bind rd_variable (\<lambda>c. p_ret (MfControl c))
       else if kind = 1 then
         p_bind rd_file (\<lambda>f.
         p_bind rd_u64 (\<lambda>i.
         p_bind rd_variable (\<lambda>c.
         p_ret (MfChunkBody f i c))))
       else p_lift (Inl (InvalidInput ''unknown mailbox frame kind'')))) (\<lambda>frame.
     p_bind rd_finish (\<lambda>_.
     p_ret frame))) bs"

lemma decode_mailbox_frame_iff:
  assumes "length bs \<le> usize_max"
  shows "decode_mailbox_frame bs = Inr f \<longleftrightarrow> encode_mailbox_frame f = Inr bs"
proof
  assume "decode_mailbox_frame bs = Inr f"
  then show "encode_mailbox_frame f = Inr bs"
    by (auto simp: decode_mailbox_frame_def encode_mailbox_frame_def elim!: wire_elim split: if_splits)
next
  assume f: "encode_mailbox_frame f = Inr bs"
  show "decode_mailbox_frame bs = Inr f"
    unfolding decode_mailbox_frame_def
    by (rule run_parser_reads [OF _ assms], rule reads_bind_last, cases f)
      (use f in \<open>auto simp: encode_mailbox_frame_def
        intro!: reads_byte_bind reads_bind [OF reads_file] reads_bind [OF reads_u64]
          reads_bind_last [OF reads_variable] reads_bind_last [OF reads_finish] reads_ret'\<close>)
qed

definition envelope_header :: "MailboxEnvelope \<Rightarrow> PacketHeader" where
  "envelope_header e = \<lparr>hdr_version = PROTOCOL_VERSION, hdr_sender_id = me_sender_id e,
     hdr_receiver_id = me_recipient_id e, hdr_epoch = me_epoch e, hdr_seq = me_seq e\<rparr>"

definition encode_mailbox_envelope :: "MailboxEnvelope \<Rightarrow> bytes result" where
  "encode_mailbox_envelope envelope =
     (let header = envelope_header envelope in
      and_then (decode_mailbox_frame (me_ciphertext envelope)) (\<lambda>frame.
      case frame of
        MfControl ciphertext \<Rightarrow>
          and_then (encode_control_packet \<lparr>cp_header = header, cp_ciphertext = ciphertext\<rparr>) (\<lambda>p.
          push_variable [0] p)
      | MfChunkBody file_id index ciphertext \<Rightarrow>
          and_then (encode_chunk_body_frame \<lparr>cbf_header = header, cbf_file_id = file_id,
              cbf_index = index, cbf_ciphertext = ciphertext\<rparr>) (\<lambda>p.
          push_variable [1] p)))"

definition decode_mailbox_envelope :: "bytes \<Rightarrow> MailboxEnvelope result" where
  "decode_mailbox_envelope bs = run_parser (
     p_bind rd_byte (\<lambda>kind.
     p_bind (if kind = 0 then
         p_bind rd_variable (\<lambda>b.
         p_bind (p_lift (decode_control_packet b)) (\<lambda>packet.
         p_bind (p_lift (encode_mailbox_frame (MfControl (cp_ciphertext packet)))) (\<lambda>ciphertext.
         p_ret (cp_header packet, ciphertext))))
       else if kind = 1 then
         p_bind rd_variable (\<lambda>b.
         p_bind (p_lift (decode_chunk_body_frame b)) (\<lambda>frame.
         p_bind (p_lift (encode_mailbox_frame
           (MfChunkBody (cbf_file_id frame) (cbf_index frame) (cbf_ciphertext frame)))) (\<lambda>ciphertext.
         p_ret (cbf_header frame, ciphertext))))
       else p_lift (Inl (InvalidInput ''unknown mailbox transport kind''))) (\<lambda>(header, ciphertext).
     p_bind rd_finish (\<lambda>_.
     p_ret \<lparr>me_recipient_id = hdr_receiver_id header, me_sender_id = hdr_sender_id header,
            me_epoch = hdr_epoch header, me_seq = hdr_seq header, me_queued_at = 0,
            me_ciphertext = ciphertext\<rparr>)))) bs"

lemma encode_mailbox_frame_Inr:
  "encode_mailbox_frame (MfControl c) = Inr bs \<longleftrightarrow> short c \<and> bs = 0 # var_bytes c"
  "encode_mailbox_frame (MfChunkBody f i c) = Inr bs \<longleftrightarrow>
     short c \<and> bs = 1 # file_bytes f @ to_be_bytes i @ var_bytes c"
  by (auto simp: encode_mailbox_frame_def)

lemma MailboxFrame_ex:
  "(\<exists>f. P f) \<longleftrightarrow> (\<exists>c. P (MfControl c)) \<or> (\<exists>f i c. P (MfChunkBody f i c))"
  by (metis MailboxFrame.exhaust)

lemma encode_mailbox_envelope_Inr:
  assumes "length (me_ciphertext e) \<le> usize_max"
  shows "encode_mailbox_envelope e = Inr bs \<longleftrightarrow>
    (\<exists>c p. encode_mailbox_frame (MfControl c) = Inr (me_ciphertext e) \<and>
       encode_control_packet \<lparr>cp_header = envelope_header e, cp_ciphertext = c\<rparr> = Inr p \<and>
       short p \<and> bs = 0 # var_bytes p) \<or>
    (\<exists>f i c p. encode_mailbox_frame (MfChunkBody f i c) = Inr (me_ciphertext e) \<and>
       encode_chunk_body_frame \<lparr>cbf_header = envelope_header e, cbf_file_id = f, cbf_index = i,
         cbf_ciphertext = c\<rparr> = Inr p \<and>
       short p \<and> bs = 1 # var_bytes p)"
  unfolding encode_mailbox_envelope_def Let_def and_then_Inr_iff
  by (simp only: decode_mailbox_frame_iff [OF assms] MailboxFrame_ex MailboxFrame.case and_then_Inr_iff
      push_variable_Inr append.simps) auto

lemma envelope_roundtrip:
  assumes "encode_mailbox_envelope e = Inr bs" and "length (me_ciphertext e) \<le> usize_max"
    and "length bs \<le> usize_max"
  shows "decode_mailbox_envelope bs = Inr (e\<lparr>me_queued_at := 0\<rparr>)"
proof -
  consider (control) c p where "encode_mailbox_frame (MfControl c) = Inr (me_ciphertext e)"
      "encode_control_packet \<lparr>cp_header = envelope_header e, cp_ciphertext = c\<rparr> = Inr p"
      "short p" "bs = 0 # var_bytes p"
    | (chunk) f i c p where "encode_mailbox_frame (MfChunkBody f i c) = Inr (me_ciphertext e)"
      "encode_chunk_body_frame \<lparr>cbf_header = envelope_header e, cbf_file_id = f, cbf_index = i,
         cbf_ciphertext = c\<rparr> = Inr p"
      "short p" "bs = 1 # var_bytes p"
    using assms by (auto simp: encode_mailbox_envelope_Inr)
  then show ?thesis
  proof cases
    case control
    then have "decode_control_packet p = Inr \<lparr>cp_header = envelope_header e, cp_ciphertext = c\<rparr>"
      by (simp add: decode_control_packet_Inr short_usize envelope_header_def)
    with control show ?thesis
      unfolding decode_mailbox_envelope_def
      by (intro run_parser_reads [OF _ assms(3)])
        (simp, intro reads_byte_bind reads_bind_last [where x = "(envelope_header e, me_ciphertext e)"],
          auto simp: envelope_header_def intro!: reads_bind_last [OF reads_variable]
            reads_bind_nil [OF reads_lift] reads_bind_last [OF reads_finish] reads_ret')
  next
    case chunk
    then have "decode_chunk_body_frame p = Inr \<lparr>cbf_header = envelope_header e, cbf_file_id = f,
        cbf_index = i, cbf_ciphertext = c\<rparr>"
      by (simp add: decode_chunk_body_frame_Inr short_usize envelope_header_def)
    with chunk show ?thesis
      unfolding decode_mailbox_envelope_def
      by (intro run_parser_reads [OF _ assms(3)])
        (simp, intro reads_byte_bind reads_bind_last [where x = "(envelope_header e, me_ciphertext e)"],
          auto simp: envelope_header_def intro!: reads_bind_last [OF reads_variable]
            reads_bind_nil [OF reads_lift] reads_bind_last [OF reads_finish] reads_ret')
  qed
qed

section \<open>Delivery digests\<close>

definition mailbox_wire_m :: "MailboxEnvelope list \<Rightarrow> bytes result" where
  "mailbox_wire_m envelopes =
     and_then (push_length [] (length envelopes)) (\<lambda>out.
     fold_ok (\<lambda>envelope out.
       and_then (encode_mailbox_envelope envelope) (\<lambda>b. push_variable out b)) envelopes out)"

definition mailbox_digest :: "(bytes \<Rightarrow> 256 word) \<Rightarrow> MailboxEnvelope list \<Rightarrow> 256 word result" where
  "mailbox_digest sha256 envelopes =
     and_then (mailbox_wire_m envelopes) (\<lambda>m. Inr (sha256 m))"

definition flush_transport_digest ::
  "(bytes \<Rightarrow> 256 word) \<Rightarrow> MailboxEnvelope list \<Rightarrow> IdentityDocument list \<Rightarrow> 256 word result" where
  "flush_transport_digest sha256 envelopes historical =
     and_then (mailbox_digest sha256 envelopes) (\<lambda>mailbox.
     if historical = [] then Inr mailbox
     else
       and_then (push_length (to_be_bytes mailbox) (length historical)) (\<lambda>committed.
       and_then (fold_ok (\<lambda>document committed.
         and_then (encode_identity document) (\<lambda>b. push_variable committed b)) historical committed) (\<lambda>committed.
       Inr (sha256 committed))))"

definition flush_transport_digest_with_bootstrap ::
  "(bytes \<Rightarrow> 256 word) \<Rightarrow> MailboxEnvelope list \<Rightarrow> IdentityDocument list \<Rightarrow> u64 option \<Rightarrow>
    256 word result" where
  "flush_transport_digest_with_bootstrap sha256 envelopes historical bootstrap_through =
     and_then (flush_transport_digest sha256 envelopes historical) (\<lambda>digest.
     case bootstrap_through of
       None \<Rightarrow> Inr digest
     | Some through \<Rightarrow>
         Inr (sha256 (ascii ''qfs/v1/bootstrap/'' @ to_be_bytes digest @ to_be_bytes through)))"

text \<open>A sequence of length-prefixed encodings: what both digests commit to.\<close>

lemma fold_push_variable_Inr:
  "fold_ok (\<lambda>x out. and_then (enc x) (\<lambda>b. push_variable out b)) xs out = Inr r \<longleftrightarrow>
    (\<exists>bs. map_ok enc xs = Inr bs \<and> (\<forall>b \<in> set bs. short b) \<and> r = out @ concat (map var_bytes bs))"
  by (induction xs arbitrary: out) auto

lemma mailbox_wire_m_Inr:
  "mailbox_wire_m es = Inr m \<longleftrightarrow>
    (\<exists>bs. map_ok encode_mailbox_envelope es = Inr bs \<and> short bs \<and> (\<forall>b \<in> set bs. short b) \<and>
      m = c_var.counted bs)"
proof -
  have "length bs = length es" if "map_ok encode_mailbox_envelope es = Inr bs" for bs
    using that by (simp add: map_ok_Inr_iff list_all2_lengthD)
  then show ?thesis
    by (auto simp: mailbox_wire_m_def fold_push_variable_Inr c_var.counted_def short_def)
qed

lemma counted_var_inject:
  assumes "c_var.counted bs = c_var.counted cs" and "short bs" "\<forall>b \<in> set bs. short b"
    and "short cs" "\<forall>b \<in> set cs. short b"
  shows "bs = cs"
proof -
  have l: "length bs = length cs"
    using assms(1,2,4) by (auto simp: c_var.counted_def short_def len_bytes_def
        dest!: arg_cong [where f = "\<lambda>w. unat (from_be_bytes w :: u32)"] simp: unat_of_nat_short)
  have e: "concat (map var_bytes bs) = concat (map var_bytes cs)"
    using assms(1) l by (simp add: c_var.counted_def)
  have "length v = length w" if "var_bytes v @ x = var_bytes w @ y" "short v" "short w" for v w x y
  proof -
    have "len_bytes (length v) = len_bytes (length w)"
      using that(1) by (simp add: var_bytes_def)
    then have "of_nat (length v) = (of_nat (length w) :: u32)"
      by (simp add: len_bytes_def to_be_bytes_inject_gen)
    then show ?thesis
      using that(2,3) unat_of_nat_short by (metis short_def)
  qed
  then have hd: "v = w \<and> x = y" if "var_bytes v @ x = var_bytes w @ y" "short v" "short w" for v w x y
    using that by (metis append_eq_append_conv length_var_bytes var_bytes_def)
  show ?thesis
    using l e assms(3,5)
    by (induction bs cs rule: list_induct2) (auto dest!: hd)
qed

text \<open>
  The mailbox commitment determines the delivered envelopes, in order and up to the host-local
  queue time.
\<close>

lemma mailbox_wire_m_inject:
  assumes "mailbox_wire_m es = Inr m" and "mailbox_wire_m fs = Inr m"
    and "\<forall>e \<in> set es \<union> set fs. length (me_ciphertext e) \<le> usize_max"
  shows "map (\<lambda>e. e\<lparr>me_queued_at := 0\<rparr>) es = map (\<lambda>e. e\<lparr>me_queued_at := 0\<rparr>) fs"
proof -
  obtain bs where bs: "map_ok encode_mailbox_envelope es = Inr bs" "short bs" "\<forall>b \<in> set bs. short b"
    "m = c_var.counted bs" using assms(1) by (auto simp: mailbox_wire_m_Inr)
  obtain cs where cs: "map_ok encode_mailbox_envelope fs = Inr cs" "short cs" "\<forall>b \<in> set cs. short b"
    "m = c_var.counted cs" using assms(2) by (auto simp: mailbox_wire_m_Inr)
  have "bs = cs"
    using counted_var_inject bs cs by blast
  have dec: "map decode_mailbox_envelope bs' = map (\<lambda>e. Inr (e\<lparr>me_queued_at := 0\<rparr>)) xs"
    if "map_ok encode_mailbox_envelope xs = Inr bs'" "\<forall>b \<in> set bs'. short b"
      "\<forall>e \<in> set xs. length (me_ciphertext e) \<le> usize_max" for xs bs'
    using that(1) [unfolded map_ok_Inr_iff] that(2,3)
    by (induction rule: list_all2_induct) (auto intro!: envelope_roundtrip short_usize)
  have "map Inr (map (\<lambda>e. e\<lparr>me_queued_at := 0\<rparr>) es) =
      (map Inr (map (\<lambda>e. e\<lparr>me_queued_at := 0\<rparr>) fs) :: MailboxEnvelope result list)"
    using dec [OF bs(1,3)] dec [OF cs(1,3)] \<open>bs = cs\<close> assms(3) by (simp add: comp_def)
  then show ?thesis
    by (rule map_injective) (simp add: inj_def)
qed

section \<open>Pull requests and have queries\<close>

definition MAX_PULL_CHUNK_IDS :: nat where
  "MAX_PULL_CHUNK_IDS = 32"

definition pull_request_new :: "ChunkId list \<Rightarrow> PullRequest result" where
  "pull_request_new chunk_ids =
     (if length chunk_ids > MAX_PULL_CHUNK_IDS
      then Inl (InvalidInput ''pull request exceeds the 32 chunk identifier cap'')
      else Inr \<lparr>pr_chunk_ids = chunk_ids\<rparr>)"

definition encode_pull_request :: "PullRequest \<Rightarrow> bytes result" where
  "encode_pull_request request =
     and_then (push_length [] (length (pr_chunk_ids request))) (\<lambda>out.
     Inr (out @ concat (map (\<lambda>c. chunk_bytes c) (pr_chunk_ids request))))"

definition decode_pull_request :: "bytes \<Rightarrow> PullRequest result" where
  "decode_pull_request bs = run_parser (
     p_bind rd_u32 (\<lambda>n. let count = unat n in
     p_bind (p_guard (\<not> count > MAX_PULL_CHUNK_IDS)
       (InvalidInput ''pull request exceeds the 32 chunk identifier cap'')) (\<lambda>_.
     p_bind p_remaining (\<lambda>rest.
     p_bind (p_guard (\<not> count > rest div 32) (InvalidInput ''truncated pull request'')) (\<lambda>_.
     p_bind (rd_many count rd_chunk) (\<lambda>chunk_ids.
     p_bind rd_finish (\<lambda>_.
     p_lift (pull_request_new chunk_ids)))))))) bs"

definition HAVE_MAGIC :: bytes where
  "HAVE_MAGIC = ascii ''qfs/v1/have/''"

definition MAX_HAVE_CHUNK_IDS :: nat where
  "MAX_HAVE_CHUNK_IDS = 32"

definition require_count :: "nat \<Rightarrow> unit result" where
  "require_count count =
     guard_ok (1 \<le> count \<and> count \<le> MAX_HAVE_CHUNK_IDS)
       (InvalidInput ''have query requires between 1 and 32 chunk identifiers'')"

definition have_query_new :: "FileId \<Rightarrow> ChunkId list \<Rightarrow> HaveQuery result" where
  "have_query_new file_id chunk_ids =
     and_then (require_count (length chunk_ids)) (\<lambda>_.
     Inr \<lparr>hq_file_id = file_id, hq_chunk_ids = chunk_ids\<rparr>)"

definition have_reply_validate :: "HaveReply \<Rightarrow> HaveQuery \<Rightarrow> unit result" where
  "have_reply_validate reply query =
     and_then (require_count (length (hr_chunk_ids reply))) (\<lambda>_.
     and_then (guard_ok (\<not> (hr_file_id reply \<noteq> hq_file_id query \<or> hr_chunk_ids reply \<noteq> hq_chunk_ids query))
       AuthenticationFailed) (\<lambda>_.
     guard_ok (length (hr_have_bitset reply) = div_ceil (length (hr_chunk_ids reply)) 8)
       (InvalidInput ''have reply bitset length mismatch'')))"

definition have_reply_new :: "HaveQuery \<Rightarrow> bytes \<Rightarrow> HaveReply result" where
  "have_reply_new query have_bitset =
     (let reply = \<lparr>hr_file_id = hq_file_id query, hr_chunk_ids = hq_chunk_ids query,
                   hr_have_bitset = have_bitset\<rparr>
      in and_then (have_reply_validate reply query) (\<lambda>_. Inr reply))"

definition have_reply_has :: "HaveReply \<Rightarrow> nat \<Rightarrow> bool" where
  "have_reply_has reply index \<longleftrightarrow>
     index < length (hr_chunk_ids reply) \<and>
     index div 8 < length (hr_have_bitset reply) \<and>
     (hr_have_bitset reply ! (index div 8)) AND push_bit (index mod 8) 1 \<noteq> 0"

definition encode_have_query :: "HaveQuery \<Rightarrow> bytes result" where
  "encode_have_query query =
     and_then (require_count (length (hq_chunk_ids query))) (\<lambda>_.
     and_then (push_length (HAVE_MAGIC @ [1] @ file_bytes (hq_file_id query)) (length (hq_chunk_ids query))) (\<lambda>out.
     Inr (out @ concat (map (\<lambda>c. chunk_bytes c) (hq_chunk_ids query)))))"

definition decode_have_query :: "bytes \<Rightarrow> HaveQuery result" where
  "decode_have_query bs = run_parser (
     p_bind (rd_require_prefix HAVE_MAGIC) (\<lambda>_.
     p_bind rd_byte (\<lambda>kind.
     p_bind (p_guard (kind = 1) (InvalidInput ''invalid have query kind'')) (\<lambda>_.
     p_bind rd_file (\<lambda>file_id.
     p_bind rd_u32 (\<lambda>n. let count = unat n in
     p_bind (p_lift (require_count count)) (\<lambda>_.
     p_bind p_remaining (\<lambda>rest.
     p_bind (p_guard (\<not> count > rest div 32) (InvalidInput ''truncated have query'')) (\<lambda>_.
     p_bind (rd_many count rd_chunk) (\<lambda>chunk_ids.
     p_bind rd_finish (\<lambda>_.
     p_lift (have_query_new file_id chunk_ids)))))))))))) bs"

definition encode_have_reply :: "HaveReply \<Rightarrow> bytes result" where
  "encode_have_reply reply =
     and_then (require_count (length (hr_chunk_ids reply))) (\<lambda>_.
     and_then (guard_ok (length (hr_have_bitset reply) = div_ceil (length (hr_chunk_ids reply)) 8)
       (InvalidInput ''have reply bitset length mismatch'')) (\<lambda>_.
     and_then (push_length (HAVE_MAGIC @ [2] @ file_bytes (hr_file_id reply)) (length (hr_chunk_ids reply))) (\<lambda>out.
     Inr (out @ concat (map (\<lambda>c. chunk_bytes c) (hr_chunk_ids reply)) @ hr_have_bitset reply))))"

definition decode_have_reply :: "bytes \<Rightarrow> HaveReply result" where
  "decode_have_reply bs = run_parser (
     p_bind (rd_require_prefix HAVE_MAGIC) (\<lambda>_.
     p_bind rd_byte (\<lambda>kind.
     p_bind (p_guard (kind = 2) (InvalidInput ''invalid have reply kind'')) (\<lambda>_.
     p_bind rd_file (\<lambda>file_id.
     p_bind rd_u32 (\<lambda>n. let count = unat n in
     p_bind (p_lift (require_count count)) (\<lambda>_.
     p_bind (p_guard (count * 32 \<le> usize_max) (InvalidInput ''have reply length overflow'')) (\<lambda>_.
     p_bind p_remaining (\<lambda>rest.
     p_bind (p_guard (rest = count * 32 + div_ceil count 8) (InvalidInput ''have reply length mismatch'')) (\<lambda>_.
     p_bind (rd_many count rd_chunk) (\<lambda>chunk_ids.
     p_bind (rd_take (div_ceil count 8)) (\<lambda>have_bitset.
     p_bind rd_finish (\<lambda>_.
     p_ret \<lparr>hr_file_id = file_id, hr_chunk_ids = chunk_ids, hr_have_bitset = have_bitset\<rparr>))))))))))))) bs"

lemma pull_request_new_Inr [simp]:
  "pull_request_new cs = Inr r \<longleftrightarrow> length cs \<le> 32 \<and> r = \<lparr>pr_chunk_ids = cs\<rparr>"
  by (auto simp: pull_request_new_def MAX_PULL_CHUNK_IDS_def)

lemma require_count_Inr [simp]: "require_count n = Inr u \<longleftrightarrow> 1 \<le> n \<and> n \<le> 32"
  by (simp add: require_count_def MAX_HAVE_CHUNK_IDS_def)

lemma have_query_new_Inr [simp]:
  "have_query_new f cs = Inr q \<longleftrightarrow> 1 \<le> length cs \<and> length cs \<le> 32 \<and> q = \<lparr>hq_file_id = f, hq_chunk_ids = cs\<rparr>"
  by (auto simp: have_query_new_def)

lemma reads_len: "n < 2 ^ 32 \<Longrightarrow> reads rd_u32 (of_nat n) (len_bytes n) post"
  unfolding len_bytes_def by (rule reads_u32)

lemma decode_pull_request_iff:
  assumes "length bs \<le> usize_max"
  shows "decode_pull_request bs = Inr r \<longleftrightarrow> length (pr_chunk_ids r) \<le> 32 \<and> encode_pull_request r = Inr bs"
proof
  assume "decode_pull_request bs = Inr r"
  then show "length (pr_chunk_ids r) \<le> 32 \<and> encode_pull_request r = Inr bs"
    by (auto simp: decode_pull_request_def encode_pull_request_def Let_def len_bytes_unat elim!: wire_elim)
next
  assume r: "length (pr_chunk_ids r) \<le> 32 \<and> encode_pull_request r = Inr bs"
  show "decode_pull_request bs = Inr r"
    unfolding decode_pull_request_def Let_def
    by (rule run_parser_reads [OF _ assms])
      (use r in \<open>auto simp: encode_pull_request_def unat_of_nat_short MAX_PULL_CHUNK_IDS_def
        intro!: reads_bind [OF reads_len] reads_bind_nil [OF reads_guard] reads_bind_nil [OF reads_remaining]
          reads_bind_last [OF c_chunk.reads_many] reads_bind_last [OF reads_finish] reads_lift\<close>)
qed

lemma decode_have_query_iff:
  assumes "length bs \<le> usize_max"
  shows "decode_have_query bs = Inr q \<longleftrightarrow> encode_have_query q = Inr bs"
proof
  assume "decode_have_query bs = Inr q"
  then show "encode_have_query q = Inr bs"
    by (auto simp: decode_have_query_def encode_have_query_def Let_def len_bytes_unat elim!: wire_elim)
next
  assume q: "encode_have_query q = Inr bs"
  show "decode_have_query bs = Inr q"
    unfolding decode_have_query_def Let_def
    by (rule run_parser_reads [OF _ assms])
      (use q in \<open>auto simp: encode_have_query_def unat_of_nat_short
        intro!: reads_bind [OF reads_require_prefix] reads_byte_bind reads_bind [OF reads_file]
          reads_bind [OF reads_len] reads_bind_nil [OF reads_guard] reads_bind_nil [OF reads_remaining]
          reads_bind_nil [OF reads_lift]
          reads_bind_last [OF c_chunk.reads_many] reads_bind_last [OF reads_finish] reads_lift\<close>)
qed

lemma decode_have_reply_iff:
  assumes "length bs \<le> usize_max"
  shows "decode_have_reply bs = Inr q \<longleftrightarrow> encode_have_reply q = Inr bs"
proof
  assume "decode_have_reply bs = Inr q"
  then show "encode_have_reply q = Inr bs"
    by (auto simp: decode_have_reply_def encode_have_reply_def Let_def len_bytes_unat elim!: wire_elim)
next
  assume q: "encode_have_reply q = Inr bs"
  show "decode_have_reply bs = Inr q"
    unfolding decode_have_reply_def Let_def
    by (rule run_parser_reads [OF _ assms])
      (use q in \<open>auto simp: encode_have_reply_def unat_of_nat_short usize_max_def
        intro!: reads_bind [OF reads_require_prefix] reads_byte_bind reads_bind [OF reads_file]
          reads_bind [OF reads_len] reads_bind_nil [OF reads_guard] reads_bind_nil [OF reads_remaining]
          reads_bind_nil [OF reads_lift] reads_bind_last [OF reads_take]
          reads_bind [OF c_chunk.reads_many] reads_bind_last [OF reads_finish] reads_ret'\<close>)
qed

end
