(* ===== verification/Encoding_Net.thy ===== *)
theory Encoding_Net
  imports Encoding_Control
begin

text \<open>
  Admission and flush messages of \<open>backend/src/encoding.rs\<close>: the welcome with its versioned
  extension, the flush offer, encrypted network controls and the vault metadata file. Their readers
  also accept the older form without the extension, so the theorems are round trips from the
  encoder and well-formedness of whatever the decoder returns.
\<close>

section \<open>Identity documents as fields\<close>

definition rd_identity :: "IdentityDocument parser" where
  "rd_identity = p_bind rd_variable (\<lambda>b. p_lift (decode_identity b))"

definition identity_wire :: "IdentityDocument \<Rightarrow> bytes" where
  "identity_wire d = var_bytes (identity_bytes d) @ var_bytes (id_signature d)"

definition identity_valid :: "IdentityDocument \<Rightarrow> bool" where
  "identity_valid d \<longleftrightarrow> identity_ok d \<and> short (identity_bytes d) \<and> short (id_signature d) \<and> short (identity_wire d)"

definition push_identity :: "bytes \<Rightarrow> IdentityDocument \<Rightarrow> bytes result" where
  "push_identity out d = and_then (encode_identity d) (\<lambda>b. push_variable out b)"

lemma push_identity_Inr [simp]:
  "push_identity out d = Inr r \<longleftrightarrow> identity_valid d \<and> r = out @ var_bytes (identity_wire d)"
  by (auto simp: push_identity_def encode_identity_Inr identity_valid_def identity_wire_def)

lemma rd_identity_step: "short b \<Longrightarrow> decode_identity b = Inr d \<longleftrightarrow> identity_valid d \<and> b = identity_wire d"
  by (auto simp: decode_identity_iff [OF short_usize] encode_identity_Inr identity_valid_def identity_wire_def)

interpretation c_identity: codec rd_identity "\<lambda>d. var_bytes (identity_wire d)" identity_valid 56
proof
  fix d :: IdentityDocument and post :: bytes
  assume d: "identity_valid d"
  then have "short (identity_wire d)" by (simp add: identity_valid_def)
  then show "reads rd_identity d (var_bytes (identity_wire d)) post"
    unfolding rd_identity_def using d
    by (intro reads_bind_last [OF reads_variable] reads_lift) (simp_all add: rd_identity_step)
next
  fix pre rest r' and d :: IdentityDocument
  assume "rd_identity (at pre rest) = Inr (d, r')"
  then show "identity_valid d \<and>
      (\<exists>post. rest = var_bytes (identity_wire d) @ post \<and> r' = at (pre @ var_bytes (identity_wire d)) post)"
    by (auto simp: rd_identity_def rd_identity_step elim!: rd_variable_inv)
qed (simp_all add: identity_wire_def identity_bytes_def)

interpretation a_history: ascending "checked id_peer_id msg rd_identity" id_peer_id
    "\<lambda>d. var_bytes (identity_wire d)" identity_valid 56 for msg
  by (rule c_identity.ascending_checked)

interpretation a_peers: ascending "checked (\<lambda>p. p) msg rd_peer" "\<lambda>p. p" "\<lambda>p. peer_bytes p" "\<lambda>_. True" 32 for msg
  by (rule c_peer.ascending_checked)

lemma map_ok_push_identity:
  "map_ok (push_identity []) ds = Inr bs \<longleftrightarrow>
    (\<forall>d \<in> set ds. identity_valid d) \<and> bs = map (\<lambda>d. var_bytes (identity_wire d)) ds"
  by (induction ds arbitrary: bs) auto

lemma fold_push_identity:
  "fold_ok (\<lambda>d out. push_identity out d) ds out = Inr r \<longleftrightarrow>
    (\<forall>d \<in> set ds. identity_valid d) \<and> r = out @ concat (map (\<lambda>d. var_bytes (identity_wire d)) ds)"
  by (induction ds arbitrary: out) auto

abbreviation push_history :: "string \<Rightarrow> IdentityDocument list \<Rightarrow> bytes \<Rightarrow> bytes result" where
  "push_history msg ds out \<equiv> push_ascending id_peer_id msg (push_identity []) ds out"

abbreviation rd_history :: "string \<Rightarrow> nat \<Rightarrow> IdentityDocument list parser" where
  "rd_history msg n \<equiv> rd_ascending n (checked id_peer_id msg rd_identity) (\<lambda>d ds. ds @ [d]) []"

abbreviation rd_denylist :: "string \<Rightarrow> nat \<Rightarrow> PeerId btree_set parser" where
  "rd_denylist msg n \<equiv> rd_ascending n (checked (\<lambda>p. p) msg rd_peer) bs_insert []"

text \<open>The documents of a history are ordered by peer and each fits its length prefixes.\<close>

definition history_ok :: "IdentityDocument list \<Rightarrow> bool" where
  "history_ok ds \<longleftrightarrow> short ds \<and> (\<forall>d \<in> set ds. identity_valid d) \<and> sorted_wrt (<) (map id_peer_id ds)"

abbreviation history_bytes :: "IdentityDocument list \<Rightarrow> bytes" where
  "history_bytes ds \<equiv> concat (map (\<lambda>d. var_bytes (identity_wire d)) ds)"

abbreviation peers_bytes :: "PeerId list \<Rightarrow> bytes" where
  "peers_bytes ps \<equiv> concat (map (\<lambda>p. peer_bytes p) ps)"

lemma push_history_Inr:
  "short ds \<Longrightarrow> push_history msg ds out = Inr r \<longleftrightarrow> history_ok ds \<and> r = out @ history_bytes ds"
  by (auto simp: push_ascending_Inr map_ok_push_identity history_ok_def)

lemma reads_history:
  "history_ok ds \<Longrightarrow> n = length ds \<Longrightarrow> reads (rd_history msg n) ds (history_bytes ds) post"
  using a_history.reads_ascending [of ds n msg "\<lambda>d ds. ds @ [d]" "[]" post]
  by (simp add: history_ok_def)

lemma rd_history_inv [wire_elim]:
  assumes "rd_history msg n (at pre rest) = Inr (ds, r')"
  obtains post where "length ds = n" and "\<forall>d \<in> set ds. identity_valid d"
    and "sorted_wrt (<) (map id_peer_id ds)" and "rest = history_bytes ds @ post"
    and "r' = at (pre @ history_bytes ds) post"
  using a_history.ascending_inv [OF assms] by auto

lemma reads_denylist:
  "bs_ok ps \<Longrightarrow> n = length ps \<Longrightarrow> reads (rd_denylist msg n) ps (peers_bytes ps) post"
  using a_peers.reads_ascending [of ps n msg bs_insert "[]" post]
  by (simp add: bs_fold_insert bs_ok_def)

lemma rd_denylist_inv [wire_elim]:
  assumes "rd_denylist msg n (at pre rest) = Inr (ps, r')"
  obtains post where "length ps = n" and "bs_ok ps" and "rest = peers_bytes ps @ post"
    and "r' = at (pre @ peers_bytes ps) post"
  using a_peers.ascending_inv [OF assms]
  by (auto simp: bs_fold_insert simp flip: bs_ok_def)

lemma history_size: "history_ok ds \<Longrightarrow> length ds * 56 \<le> length (history_bytes ds)"
  by (rule a_history.seq_size) (simp add: history_ok_def)

section \<open>Welcomes\<close>

definition encode_net_welcome :: "NetWelcome \<Rightarrow> bytes result" where
  "encode_net_welcome welcome =
     and_then (push_length (vault_bytes (nw_vault_id welcome)) (length (nw_members welcome))) (\<lambda>out.
     and_then (fold_ok (\<lambda>member out. push_identity out member) (nw_members welcome) out) (\<lambda>out.
     and_then (push_length [1] (length (nw_historical welcome))) (\<lambda>extension.
     and_then (push_history ''welcome history is not canonical'' (nw_historical welcome) extension) (\<lambda>extension.
     and_then (push_length extension (length (nw_denied welcome))) (\<lambda>extension.
     push_variable out (extension @ peers_bytes (nw_denied welcome)))))))"

definition welcome_extension :: "bytes \<Rightarrow> (IdentityDocument list \<times> PeerId btree_set) result" where
  "welcome_extension bs = run_parser (
     p_bind rd_byte (\<lambda>version.
     p_bind (p_guard (version = 1) (InvalidInput ''unsupported welcome extension version'')) (\<lambda>_.
     p_bind (rd_count 4) (\<lambda>historical_count.
     p_bind (rd_history ''welcome history is not canonical'' historical_count) (\<lambda>historical.
     p_bind (rd_count 32) (\<lambda>denied_count.
     p_bind (rd_denylist ''welcome denylist is not canonical'' denied_count) (\<lambda>denied.
     p_bind rd_finish (\<lambda>_.
     p_ret (historical, denied))))))))) bs"

definition decode_net_welcome :: "bytes \<Rightarrow> NetWelcome result" where
  "decode_net_welcome bs = run_parser (
     p_bind rd_id32 (\<lambda>vault_id.
     p_bind (rd_count 56) (\<lambda>count.
     p_bind (rd_many count rd_identity) (\<lambda>members.
     p_bind p_remaining (\<lambda>rest.
     p_bind (if rest \<noteq> 0 then p_bind rd_variable (\<lambda>extension. p_lift (welcome_extension extension))
             else p_ret ([], [])) (\<lambda>(historical, denied).
     p_bind rd_finish (\<lambda>_.
     p_ret \<lparr>nw_vault_id = VaultId vault_id, nw_members = members, nw_historical = historical,
            nw_denied = denied\<rparr>))))))) bs"

definition welcome_ext_bytes :: "IdentityDocument list \<Rightarrow> PeerId btree_set \<Rightarrow> bytes" where
  "welcome_ext_bytes h d = 1 # len_bytes (length h) @ history_bytes h @ len_bytes (length d) @ peers_bytes d"

definition welcome_ok :: "NetWelcome \<Rightarrow> bool" where
  "welcome_ok w \<longleftrightarrow> short (nw_members w) \<and> (\<forall>d \<in> set (nw_members w). identity_valid d) \<and>
     history_ok (nw_historical w) \<and> short (nw_denied w)"

lemma encode_net_welcome_Inr:
  "encode_net_welcome w = Inr bs \<longleftrightarrow> welcome_ok w \<and>
     short (welcome_ext_bytes (nw_historical w) (nw_denied w)) \<and>
     bs = vault_bytes (nw_vault_id w) @ c_identity.counted (nw_members w) @
       var_bytes (welcome_ext_bytes (nw_historical w) (nw_denied w))"
  by (auto simp: encode_net_welcome_def fold_push_identity welcome_ok_def welcome_ext_bytes_def
      c_identity.counted_def push_ascending_Inr map_ok_push_identity history_ok_def short_def)

lemma welcome_extension_Inr:
  assumes "length bs \<le> usize_max"
  shows "welcome_extension bs = Inr (h, d) \<longleftrightarrow>
    history_ok h \<and> short d \<and> bs_ok d \<and> bs = welcome_ext_bytes h d"
proof
  assume "welcome_extension bs = Inr (h, d)"
  then show "history_ok h \<and> short d \<and> bs_ok d \<and> bs = welcome_ext_bytes h d"
    by (auto simp: welcome_extension_def welcome_ext_bytes_def history_ok_def short_def elim!: wire_elim)
next
  assume h: "history_ok h \<and> short d \<and> bs_ok d \<and> bs = welcome_ext_bytes h d"
  then have "length h < 2 ^ 32" and "length h * 4 \<le> length (history_bytes h)"
    using history_size [of h] by (auto simp: history_ok_def short_def)
  with h show "welcome_extension bs = Inr (h, d)"
    unfolding welcome_extension_def
    by (intro run_parser_reads [OF _ assms])
      (auto simp: welcome_ext_bytes_def short_def
        intro!: reads_byte_bind reads_bind_nil [OF reads_guard] reads_bind [OF reads_count]
          reads_bind [OF reads_history] reads_bind_last [OF reads_denylist]
          reads_bind_last [OF reads_finish] reads_ret')
qed

lemma net_welcome_roundtrip:
  assumes "encode_net_welcome w = Inr bs" and "bs_ok (nw_denied w)" and "length bs \<le> usize_max"
  shows "decode_net_welcome bs = Inr w"
proof -
  let ?ext = "welcome_ext_bytes (nw_historical w) (nw_denied w)"
  have ok: "welcome_ok w" and ext: "short ?ext" and bs: "bs = vault_bytes (nw_vault_id w) @
      c_identity.counted (nw_members w) @ var_bytes ?ext"
    using assms(1) by (auto simp: encode_net_welcome_Inr)
  have members: "reads (p_bind (rd_count 56) (\<lambda>n. rd_many n rd_identity)) (nw_members w)
      (c_identity.counted (nw_members w)) post" for post
    using ok by (intro c_identity.reads_counted) (auto simp: welcome_ok_def)
  have "welcome_extension ?ext = Inr (nw_historical w, nw_denied w)"
    using ok ext assms(2) by (subst welcome_extension_Inr) (auto simp: welcome_ok_def short_usize)
  then show ?thesis
    unfolding decode_net_welcome_def bs p_bind_assoc [symmetric, of "rd_count 56"]
    by (intro run_parser_reads assms(3) [unfolded bs] reads_bind [OF reads_id32])
      (auto simp: ext intro!: reads_bind [OF members] reads_bind_nil [OF reads_remaining]
          reads_bind_last [where x = "(nw_historical w, nw_denied w)"]
          reads_bind_last [OF reads_variable] reads_lift reads_bind_last [OF reads_finish] reads_ret')
qed

lemma net_welcome_decoded:
  assumes "decode_net_welcome bs = Inr w"
  shows "welcome_ok w \<and> bs_ok (nw_denied w)"
  using assms
  by (auto simp: decode_net_welcome_def welcome_ok_def short_def history_ok_def welcome_extension_Inr
      short_usize elim!: wire_elim dest!: c_identity.many_inv split: if_splits)

section \<open>Flush offers\<close>

definition FLUSH_FRAME_CAP :: u32 where
  "FLUSH_FRAME_CAP = 1000000"

definition challenge_raw :: "FlushChallenge \<Rightarrow> 256 word" where
  "challenge_raw c = (case c of FlushChallenge w \<Rightarrow> w)"

definition flush_m :: "FlushChallenge \<Rightarrow> bytes" where
  "flush_m challenge = to_be_bytes (challenge_raw challenge)"

definition encode_flush_offer :: "FlushOffer \<Rightarrow> bytes result" where
  "encode_flush_offer offer =
     and_then (guard_ok (\<not> fo_frame_count offer > FLUSH_FRAME_CAP)
       (InvalidInput ''flush frame count exceeds cap'')) (\<lambda>_.
     let out = to_be_bytes (challenge_raw (fo_challenge offer)) @ to_be_bytes (fo_frame_count offer) in
     if fo_historical offer \<noteq> [] \<or> fo_bootstrap_through offer \<noteq> None then
       and_then (push_length [if fo_bootstrap_through offer \<noteq> None then 2 else 1]
         (length (fo_historical offer))) (\<lambda>extension.
       and_then (push_history ''flush history is not canonical'' (fo_historical offer) extension) (\<lambda>extension.
       push_variable out (case fo_bootstrap_through offer of
           Some through \<Rightarrow> extension @ to_be_bytes through
         | None \<Rightarrow> extension)))
     else Inr out)"

definition flush_extension :: "bytes \<Rightarrow> (IdentityDocument list \<times> u64 option) result" where
  "flush_extension bs = run_parser (
     p_bind rd_byte (\<lambda>version.
     p_bind (p_guard (version = 1 \<or> version = 2)
       (InvalidInput ''unsupported flush offer extension version'')) (\<lambda>_.
     p_bind (rd_count 4) (\<lambda>count.
     p_bind (rd_history ''flush history is not canonical'' count) (\<lambda>historical.
     p_bind (if version = 2 then p_bind rd_u64 (\<lambda>t. p_ret (Some t)) else p_ret None) (\<lambda>bootstrap_through.
     p_bind rd_finish (\<lambda>_.
     p_ret (historical, bootstrap_through)))))))) bs"

definition decode_flush_offer :: "bytes \<Rightarrow> FlushOffer result" where
  "decode_flush_offer bs = run_parser (
     p_bind rd_id32 (\<lambda>challenge.
     p_bind rd_u32 (\<lambda>frame_count.
     p_bind p_remaining (\<lambda>rest.
     p_bind (if rest \<noteq> 0 then p_bind rd_variable (\<lambda>extension. p_lift (flush_extension extension))
             else p_ret ([], None)) (\<lambda>(historical, bootstrap_through).
     p_bind rd_finish (\<lambda>_.
     p_bind (p_guard (\<not> frame_count > FLUSH_FRAME_CAP) (InvalidInput ''flush frame count exceeds cap'')) (\<lambda>_.
     p_ret \<lparr>fo_challenge = FlushChallenge challenge, fo_frame_count = frame_count,
            fo_historical = historical, fo_bootstrap_through = bootstrap_through\<rparr>))))))) bs"

definition flush_ext_bytes :: "IdentityDocument list \<Rightarrow> u64 option \<Rightarrow> bytes" where
  "flush_ext_bytes h b = (case b of
       None \<Rightarrow> 1 # len_bytes (length h) @ history_bytes h
     | Some t \<Rightarrow> 2 # len_bytes (length h) @ history_bytes h @ to_be_bytes t)"

lemma flush_extension_Inr:
  assumes "length bs \<le> usize_max"
  shows "flush_extension bs = Inr (h, b) \<longleftrightarrow> history_ok h \<and> bs = flush_ext_bytes h b"
proof
  assume "flush_extension bs = Inr (h, b)"
  then show "history_ok h \<and> bs = flush_ext_bytes h b"
    by (auto simp: flush_extension_def flush_ext_bytes_def history_ok_def short_def elim!: wire_elim
        split: if_splits)
next
  assume h: "history_ok h \<and> bs = flush_ext_bytes h b"
  then have "length h < 2 ^ 32" and "length h * 4 \<le> length (history_bytes h)"
    using history_size [of h] by (auto simp: history_ok_def short_def)
  with h show "flush_extension bs = Inr (h, b)"
    unfolding flush_extension_def
    by (intro run_parser_reads [OF _ assms]; cases b)
      (auto simp: flush_ext_bytes_def
        intro!: reads_byte_bind reads_bind_nil [OF reads_guard] reads_bind [OF reads_count]
          reads_bind_last [OF reads_history] reads_bind [OF reads_history]
          reads_bind_last [OF reads_bind_last [OF reads_u64 reads_ret]]
          reads_bind_last [OF reads_ret] reads_bind_last [OF reads_finish] reads_ret')
qed

lemma encode_flush_offer_Inr:
  "encode_flush_offer f = Inr bs \<longleftrightarrow> fo_frame_count f \<le> FLUSH_FRAME_CAP \<and>
    (if fo_historical f \<noteq> [] \<or> fo_bootstrap_through f \<noteq> None
     then history_ok (fo_historical f) \<and> short (flush_ext_bytes (fo_historical f) (fo_bootstrap_through f)) \<and>
       bs = to_be_bytes (challenge_raw (fo_challenge f)) @ to_be_bytes (fo_frame_count f) @
         var_bytes (flush_ext_bytes (fo_historical f) (fo_bootstrap_through f))
     else bs = to_be_bytes (challenge_raw (fo_challenge f)) @ to_be_bytes (fo_frame_count f))"
  by (auto simp: encode_flush_offer_def Let_def not_less push_ascending_Inr map_ok_push_identity
      history_ok_def short_def flush_ext_bytes_def split: option.splits)

lemma flush_offer_roundtrip:
  assumes "encode_flush_offer f = Inr bs" and "length bs \<le> usize_max"
  shows "decode_flush_offer bs = Inr f"
proof (cases "fo_historical f \<noteq> [] \<or> fo_bootstrap_through f \<noteq> None")
  case True
  let ?ext = "flush_ext_bytes (fo_historical f) (fo_bootstrap_through f)"
  have f: "fo_frame_count f \<le> FLUSH_FRAME_CAP" "history_ok (fo_historical f)" "short ?ext"
    and bs: "bs = to_be_bytes (challenge_raw (fo_challenge f)) @ to_be_bytes (fo_frame_count f) @ var_bytes ?ext"
    using assms(1) True by (auto simp: encode_flush_offer_Inr)
  have "flush_extension ?ext = Inr (fo_historical f, fo_bootstrap_through f)"
    using f by (subst flush_extension_Inr) (auto simp: short_usize)
  with f show ?thesis
    unfolding decode_flush_offer_def bs
    by (intro run_parser_reads assms(2) [unfolded bs] reads_bind [OF reads_id32] reads_bind [OF reads_u32])
      (auto simp: not_less challenge_raw_def split: FlushChallenge.splits
        intro!: reads_bind_nil [OF reads_remaining]
          reads_bind_last [where x = "(fo_historical f, fo_bootstrap_through f)"]
          reads_bind_last [OF reads_variable] reads_lift reads_bind_last [OF reads_finish]
          reads_bind_nil [OF reads_guard] reads_ret')
next
  case False
  then have f: "fo_frame_count f \<le> FLUSH_FRAME_CAP" "fo_historical f = []" "fo_bootstrap_through f = None"
    and bs: "bs = to_be_bytes (challenge_raw (fo_challenge f)) @ to_be_bytes (fo_frame_count f)"
    using assms(1) by (auto simp: encode_flush_offer_Inr)
  then show ?thesis
    unfolding decode_flush_offer_def bs
    by (intro run_parser_reads assms(2) [unfolded bs] reads_bind [OF reads_id32] reads_bind_last [OF reads_u32])
      (auto simp: not_less challenge_raw_def split: FlushChallenge.splits
        intro!: reads_bind_nil [OF reads_remaining] reads_bind_last [OF reads_ret]
          reads_bind_last [OF reads_finish] reads_bind_nil [OF reads_guard] reads_ret')
qed

section \<open>Encrypted network controls\<close>

definition encode_net_control :: "NetControl \<Rightarrow> bytes result" where
  "encode_net_control control =
     (case control of
        JoinAccepted vault_id members historical denied \<Rightarrow>
          and_then (encode_net_welcome \<lparr>nw_vault_id = vault_id, nw_members = members,
            nw_historical = historical, nw_denied = denied\<rparr>) (\<lambda>b. Inr ([1] @ b))
      | FlushEnd digest \<Rightarrow> Inr ([2] @ to_be_bytes digest)
      | FlushApplied digest \<Rightarrow> Inr ([3] @ to_be_bytes digest)
      | Ready \<Rightarrow> Inr [4]
      | Heartbeat \<Rightarrow> Inr [5]
      | HeartbeatApplied through \<Rightarrow> Inr ([5] @ to_be_bytes through)
      | JoinRejected bound requested \<Rightarrow> Inr ([6] @ vault_bytes bound @ vault_bytes requested)
      | AdmissionDenied \<Rightarrow> Inr [7])"

definition net_control_body :: "byte \<Rightarrow> NetControl parser" where
  "net_control_body kind =
     (if kind = 1 then
        p_bind (p_bind p_remaining rd_take) (\<lambda>b.
        p_bind (p_lift (decode_net_welcome b)) (\<lambda>welcome.
        p_ret (JoinAccepted (nw_vault_id welcome) (nw_members welcome) (nw_historical welcome)
          (nw_denied welcome))))
      else if kind = 2 then p_bind rd_id32 (\<lambda>digest. p_ret (FlushEnd digest))
      else if kind = 3 then p_bind rd_id32 (\<lambda>digest. p_ret (FlushApplied digest))
      else if kind = 4 then p_ret Ready
      else if kind = 5 then
        p_bind p_remaining (\<lambda>rest.
        if rest = 0 then p_ret Heartbeat
        else if rest = 8 then p_bind rd_u64 (\<lambda>through. p_ret (HeartbeatApplied through))
        else p_lift (Inl (InvalidInput ''invalid heartbeat control length'')))
      else if kind = 6 then
        p_bind rd_id32 (\<lambda>bound.
        p_bind rd_id32 (\<lambda>requested.
        p_ret (JoinRejected (VaultId bound) (VaultId requested))))
      else if kind = 7 then p_ret AdmissionDenied
      else p_lift (Inl (InvalidInput ''unknown encrypted network control kind'')))"

definition decode_net_control :: "bytes \<Rightarrow> NetControl result" where
  "decode_net_control bs = run_parser (
     p_bind rd_byte (\<lambda>kind.
     p_bind (net_control_body kind) (\<lambda>control.
     p_bind rd_finish (\<lambda>_.
     p_ret control)))) bs"

fun control_denied :: "NetControl \<Rightarrow> PeerId btree_set" where
  "control_denied (JoinAccepted v m h d) = d"
| "control_denied _ = []"

lemma reads_net_control_body:
  assumes "encode_net_control c = Inr (k # e)" and "bs_ok (control_denied c)" and "length (k # e) \<le> usize_max"
  shows "reads (net_control_body k) c e []"
proof (cases c)
  case (JoinAccepted v m h d)
  let ?w = "\<lparr>nw_vault_id = v, nw_members = m, nw_historical = h, nw_denied = d\<rparr>"
  have k: "encode_net_welcome ?w = Inr e" "k = 1"
    using assms(1) JoinAccepted by (auto simp: encode_net_control_def)
  then have "decode_net_welcome e = Inr ?w"
    using assms(2,3) JoinAccepted by (intro net_welcome_roundtrip) auto
  then show ?thesis
    using k JoinAccepted
    by (auto simp: net_control_body_def
        intro!: reads_bind_last [OF reads_rest] reads_bind_nil [OF reads_lift] reads_ret')
qed (use assms(1) in \<open>auto simp: encode_net_control_def net_control_body_def
    intro!: reads_bind [OF reads_id32] reads_bind_last [OF reads_id32] reads_bind_last [OF reads_u64]
      reads_bind_nil [OF reads_remaining] reads_ret'\<close>)

lemma net_control_roundtrip:
  assumes "encode_net_control c = Inr bs" and "bs_ok (control_denied c)" and "length bs \<le> usize_max"
  shows "decode_net_control bs = Inr c"
proof -
  obtain k e where bs: "bs = k # e"
    using assms(1) by (cases c) (auto simp: encode_net_control_def)
  then have body: "reads (net_control_body k) c e []"
    using reads_net_control_body assms by simp
  show ?thesis
    unfolding decode_net_control_def bs
    by (rule run_parser_reads [OF _ assms(3) [unfolded bs]], rule reads_byte_bind, rule reads_bind_last [OF body])
      (auto intro!: reads_bind_last [OF reads_finish] reads_ret)
qed

section \<open>Vault metadata\<close>

definition VAULT_METADATA_MAGIC :: bytes where
  "VAULT_METADATA_MAGIC = ascii ''qfs/local/vault/''"

definition encode_vault_metadata :: "VaultMetadata \<Rightarrow> bytes result" where
  "encode_vault_metadata metadata =
     and_then (push_length (VAULT_METADATA_MAGIC @ [LOCAL_FORMAT_VERSION] @ vault_bytes (vm_vault_id metadata) @
         code_bytes (vm_join_code metadata) @ to_be_bytes (vm_issued_at metadata))
       (length (vm_members metadata))) (\<lambda>out.
     let out = out @ peers_bytes (vm_members metadata) in
     and_then (push_length [1] (length (vm_denied metadata))) (\<lambda>extension.
     push_variable out (extension @ peers_bytes (vm_denied metadata))))"

text \<open>The member loop rejects a repeated member.\<close>

definition rd_distinct_peers :: "nat \<Rightarrow> PeerId list parser" where
  "rd_distinct_peers n = rd_fold n (\<lambda>members.
     p_bind rd_peer (\<lambda>member.
     p_bind (p_guard (\<not> member \<in> set members) (InvalidInput ''duplicate vault member'')) (\<lambda>_.
     p_ret (members @ [member])))) []"

definition vault_extension :: "bytes \<Rightarrow> PeerId btree_set result" where
  "vault_extension bs = run_parser (
     p_bind rd_byte (\<lambda>version.
     p_bind (p_guard (version = 1) (InvalidInput ''unsupported vault metadata extension version'')) (\<lambda>_.
     p_bind (rd_count 32) (\<lambda>denied_count.
     p_bind (rd_denylist ''vault denylist is not canonical'' denied_count) (\<lambda>denied.
     p_bind rd_finish (\<lambda>_.
     p_ret denied)))))) bs"

definition decode_vault_metadata :: "bytes \<Rightarrow> VaultMetadata result" where
  "decode_vault_metadata bs = run_parser (
     p_bind (rd_require_prefix VAULT_METADATA_MAGIC) (\<lambda>_.
     p_bind rd_require_version (\<lambda>_.
     p_bind rd_id32 (\<lambda>vault_id.
     p_bind rd_id16 (\<lambda>join_code.
     p_bind rd_u64 (\<lambda>issued_at.
     p_bind (rd_count 32) (\<lambda>count.
     p_bind (rd_distinct_peers count) (\<lambda>members.
     p_bind p_remaining (\<lambda>rest.
     p_bind (if rest \<noteq> 0 then p_bind rd_variable (\<lambda>extension. p_lift (vault_extension extension))
             else p_ret []) (\<lambda>denied.
     p_bind rd_finish (\<lambda>_.
     p_ret \<lparr>vm_vault_id = VaultId vault_id, vm_join_code = JoinCode join_code, vm_issued_at = issued_at,
            vm_members = members, vm_denied = denied\<rparr>))))))))))) bs"

lemma reads_distinct_peers:
  assumes "distinct ps" and "n = length ps"
  shows "reads (rd_distinct_peers n) ps (peers_bytes ps) post"
proof -
  have "reads (rd_distinct_peers n) (fold (\<lambda>p ps. ps @ [p]) ps []) (peers_bytes ps) post"
    unfolding rd_distinct_peers_def
    by (rule reads_fold [where I = "\<lambda>s xs. distinct (s @ xs)"])
      (use assms in \<open>auto intro!: reads_bind_last [OF reads_peer] reads_bind_nil [OF reads_guard] reads_ret'\<close>)
  then show ?thesis by simp
qed

lemma rd_distinct_peers_inv [wire_elim]:
  assumes "rd_distinct_peers n (at pre rest) = Inr (ps, r')"
  obtains post where "length ps = n" and "distinct ps" and "rest = peers_bytes ps @ post"
    and "r' = at (pre @ peers_bytes ps) post"
proof -
  have "\<exists>x post. x \<notin> set s \<and> s' = s @ [x] \<and> rest = peer_bytes x @ post \<and> r' = at (pre @ peer_bytes x) post"
    if "p_bind rd_peer (\<lambda>member. p_bind (p_guard (\<not> member \<in> set s) (InvalidInput ''duplicate vault member''))
      (\<lambda>_. p_ret (s @ [member]))) (at pre rest) = Inr (s', r')" for s s' pre rest r'
    using that by (auto elim!: rd_peer_inv)
  from rd_fold_inv [where V = "\<lambda>s x. x \<notin> set s" and upd = "\<lambda>x xs. xs @ [x]" and enc = "\<lambda>p. peer_bytes p",
      OF this assms [unfolded rd_distinct_peers_def]]
  obtain xs post where xs: "length xs = n" "ps = xs" "rest = peers_bytes xs @ post"
    "r' = at (pre @ peers_bytes xs) post" "\<forall>i < n. xs ! i \<notin> set (take i xs)"
    by auto
  have "distinct xs"
    using xs(1,5) by (fastforce simp: distinct_conv_nth in_set_conv_nth nat_neq_iff)
  with xs show thesis by (auto intro: that)
qed

lemma vault_extension_Inr:
  assumes "length bs \<le> usize_max"
  shows "vault_extension bs = Inr d \<longleftrightarrow> short d \<and> bs_ok d \<and> bs = 1 # len_bytes (length d) @ peers_bytes d"
proof
  assume "vault_extension bs = Inr d"
  then show "short d \<and> bs_ok d \<and> bs = 1 # len_bytes (length d) @ peers_bytes d"
    by (auto simp: vault_extension_def short_def elim!: wire_elim)
next
  assume "short d \<and> bs_ok d \<and> bs = 1 # len_bytes (length d) @ peers_bytes d"
  then show "vault_extension bs = Inr d"
    unfolding vault_extension_def
    by (intro run_parser_reads [OF _ assms])
      (auto simp: short_def intro!: reads_byte_bind reads_bind_nil [OF reads_guard] reads_bind [OF reads_count]
          reads_bind_last [OF reads_denylist] reads_bind_last [OF reads_finish] reads_ret')
qed

definition vault_metadata_bytes :: "VaultMetadata \<Rightarrow> bytes" where
  "vault_metadata_bytes m = VAULT_METADATA_MAGIC @ [LOCAL_FORMAT_VERSION] @ vault_bytes (vm_vault_id m) @
     code_bytes (vm_join_code m) @ to_be_bytes (vm_issued_at m) @ len_bytes (length (vm_members m)) @
     peers_bytes (vm_members m) @ var_bytes (1 # len_bytes (length (vm_denied m)) @ peers_bytes (vm_denied m))"

definition vault_metadata_ok :: "VaultMetadata \<Rightarrow> bool" where
  "vault_metadata_ok m \<longleftrightarrow> short (vm_members m) \<and> short (vm_denied m) \<and>
     short (1 # len_bytes (length (vm_denied m)) @ peers_bytes (vm_denied m))"

lemma encode_vault_metadata_Inr:
  "encode_vault_metadata m = Inr bs \<longleftrightarrow> vault_metadata_ok m \<and> bs = vault_metadata_bytes m"
  by (auto simp: encode_vault_metadata_def vault_metadata_ok_def vault_metadata_bytes_def short_def Let_def)

text \<open>What a vault metadata value in memory satisfies: a set of members, a BTreeSet of denied peers.\<close>

definition vault_metadata_wf :: "VaultMetadata \<Rightarrow> bool" where
  "vault_metadata_wf m \<longleftrightarrow> distinct (vm_members m) \<and> bs_ok (vm_denied m)"

lemma vault_metadata_roundtrip:
  assumes "encode_vault_metadata m = Inr bs" and "vault_metadata_wf m" and "length bs \<le> usize_max"
  shows "decode_vault_metadata bs = Inr m"
proof -
  let ?ext = "1 # len_bytes (length (vm_denied m)) @ peers_bytes (vm_denied m)"
  have ok: "short (vm_members m)" "short (vm_denied m)" "short ?ext" and bs: "bs = vault_metadata_bytes m"
    using assms(1) by (auto simp: encode_vault_metadata_Inr vault_metadata_ok_def)
  have "vault_extension ?ext = Inr (vm_denied m)"
    using ok assms(2) short_usize [OF ok(3)] by (simp add: vault_extension_Inr vault_metadata_wf_def)
  then show ?thesis
    unfolding decode_vault_metadata_def
    by (intro run_parser_reads assms(3))
      (use assms(2) ok in \<open>auto simp: bs vault_metadata_bytes_def vault_metadata_wf_def short_def
        simp del: append.simps
        intro!: reads_bind [OF reads_require_prefix] reads_bind [OF reads_require_version]
          reads_bind [OF reads_id32] reads_bind [OF reads_id16] reads_bind [OF reads_u64]
          reads_bind [OF reads_count] reads_bind [OF reads_distinct_peers] reads_bind_nil [OF reads_remaining]
          reads_bind_last [OF reads_bind_last [OF reads_variable reads_lift]]
          reads_bind_last [OF reads_finish] reads_ret'\<close>)
qed

lemma vault_metadata_decoded: "decode_vault_metadata bs = Inr m \<Longrightarrow> vault_metadata_wf m"
  by (auto simp: decode_vault_metadata_def vault_metadata_wf_def vault_extension_Inr short_usize
      elim!: wire_elim split: if_splits)

end
