(* ===== verification/Identity.thy ===== *)
theory Identity
  imports Aead Encoding_Net
begin

text \<open>
  Principals: \<open>backend/src/crypto/sign.rs\<close>, \<open>backend/src/crypto/identity.rs\<close>,
  \<open>backend/src/protocol/manifest.rs\<close> and the local identity file of \<open>backend/src/encoding.rs\<close>.
  ML-DSA-65, X-Wing, HKDF, SHA-256 and AES-GCM are crates: the record \<open>crypto\<close> carries them, and
  \<open>crypto_correct\<close> states what their documentation promises (honest signatures verify, decapsulation
  under the matching key returns the encapsulated secret, generated keys are well formed, GCM
  decryption inverts encryption).
\<close>

record crypto =
  cr_sha256 :: "bytes \<Rightarrow> 256 word"
  cr_sign_vk :: "256 word \<Rightarrow> bytes"
  cr_sign :: "256 word \<Rightarrow> bytes \<Rightarrow> bytes \<Rightarrow> bytes option"
  cr_verify :: "bytes \<Rightarrow> bytes \<Rightarrow> bytes \<Rightarrow> bytes \<Rightarrow> bool"
  cr_ek_ok :: "bytes \<Rightarrow> bool"
  cr_kem_ek :: "256 word \<Rightarrow> bytes"
  cr_encaps :: "bytes \<Rightarrow> bytes \<Rightarrow> 256 word \<times> bytes"
  cr_decaps :: "256 word \<Rightarrow> bytes \<Rightarrow> 256 word option"
  cr_hkdf :: "256 word \<Rightarrow> bytes \<Rightarrow> 256 word"
  cr_gcm :: gcm

definition crypto_correct :: "crypto \<Rightarrow> bool" where
  "crypto_correct c \<longleftrightarrow>
     (\<forall>seed ctx m s. cr_sign c seed ctx m = Some s \<longrightarrow> cr_verify c (cr_sign_vk c seed) ctx m s) \<and>
     (\<forall>seed. cr_ek_ok c (cr_kem_ek c seed)) \<and>
     (\<forall>seed r ss ct. cr_encaps c (cr_kem_ek c seed) r = (ss, ct) \<longrightarrow> cr_decaps c seed ct = Some ss) \<and>
     gcm_correct (cr_gcm c)"

section \<open>Signatures\<close>

definition IDENTITY_CONTEXT :: bytes where "IDENTITY_CONTEXT = ascii ''qfs/v1/id''"
definition WRAP_CONTEXT :: bytes where "WRAP_CONTEXT = ascii ''qfs/v1/wrap''"
definition MANIFEST_CONTEXT :: bytes where "MANIFEST_CONTEXT = ascii ''qfs/v1/manifest''"
definition FLUSH_CONTEXT :: bytes where "FLUSH_CONTEXT = ascii ''qfs/v1/flush''"
definition DIRECTORY_CONTEXT :: bytes where "DIRECTORY_CONTEXT = ascii ''qfs/v1/dir''"
definition JOIN_CONTEXT :: bytes where "JOIN_CONTEXT = ascii ''qfs/v1/join''"

definition require_protocol_context :: "bytes \<Rightarrow> unit result" where
  "require_protocol_context context =
     guard_ok (context = IDENTITY_CONTEXT \<or> context = WRAP_CONTEXT \<or> context = MANIFEST_CONTEXT \<or>
       context = FLUSH_CONTEXT \<or> context = DIRECTORY_CONTEXT \<or> context = JOIN_CONTEXT)
       (InvalidInput ''unsupported ML-DSA context'')"

definition mldsa_sign :: "crypto \<Rightarrow> 256 word \<Rightarrow> bytes \<Rightarrow> bytes \<Rightarrow> bytes result" where
  "mldsa_sign c seed context message =
     and_then (require_protocol_context context) (\<lambda>_.
     ok_or (cr_sign c seed context message) AuthenticationFailed)"

definition mldsa_verify :: "crypto \<Rightarrow> bytes \<Rightarrow> bytes \<Rightarrow> bytes \<Rightarrow> bytes \<Rightarrow> unit result" where
  "mldsa_verify c vk context message signature =
     and_then (require_protocol_context context) (\<lambda>_.
     guard_ok (cr_verify c vk context message signature) AuthenticationFailed)"

lemmas context_defs = IDENTITY_CONTEXT_def WRAP_CONTEXT_def MANIFEST_CONTEXT_def FLUSH_CONTEXT_def
  DIRECTORY_CONTEXT_def JOIN_CONTEXT_def

lemma protocol_contexts [simp]:
  "require_protocol_context IDENTITY_CONTEXT = Inr ()" "require_protocol_context WRAP_CONTEXT = Inr ()"
  "require_protocol_context MANIFEST_CONTEXT = Inr ()" "require_protocol_context FLUSH_CONTEXT = Inr ()"
  "require_protocol_context DIRECTORY_CONTEXT = Inr ()" "require_protocol_context JOIN_CONTEXT = Inr ()"
  by (simp_all add: require_protocol_context_def)

text \<open>A signature of one purpose is never checked under another: the contexts are distinct.\<close>

lemma contexts_distinct:
  "distinct [IDENTITY_CONTEXT, WRAP_CONTEXT, MANIFEST_CONTEXT, FLUSH_CONTEXT, DIRECTORY_CONTEXT, JOIN_CONTEXT]"
  by (simp add: context_defs ascii_def)

lemma mldsa_verify_Inr [simp]:
  "mldsa_verify c vk ctx m s = Inr u \<longleftrightarrow> require_protocol_context ctx = Inr () \<and> cr_verify c vk ctx m s"
  by (auto simp: mldsa_verify_def)

lemma mldsa_sign_verifies:
  "crypto_correct c \<Longrightarrow> mldsa_sign c seed ctx m = Inr s \<Longrightarrow> mldsa_verify c (cr_sign_vk c seed) ctx m s = Inr ()"
  by (auto simp: mldsa_sign_def crypto_correct_def)

section \<open>Identity documents\<close>

definition validate_public_key :: "crypto \<Rightarrow> bytes \<Rightarrow> unit result" where
  "validate_public_key c bs = guard_ok (cr_ek_ok c bs) AuthenticationFailed"

definition peer_id_for :: "crypto \<Rightarrow> bytes \<Rightarrow> PeerId" where
  "peer_id_for c vk = peer_id (cr_sha256 c) vk"

definition identity_verify :: "crypto \<Rightarrow> IdentityDocument \<Rightarrow> unit result" where
  "identity_verify c document =
     and_then (validate_public_key c (id_ek document)) (\<lambda>_.
     and_then (guard_ok (id_peer_id document = peer_id_for c (id_vk document)) AuthenticationFailed) (\<lambda>_.
     and_then (identity_m document) (\<lambda>m.
     mldsa_verify c (id_vk document) IDENTITY_CONTEXT m (id_signature document))))"

record LocalIdentity =
  li_document :: IdentityDocument
  li_signing_seed :: "256 word"
  li_kem_seed :: "256 word"

definition local_identity_new :: "crypto \<Rightarrow> 256 word \<Rightarrow> 256 word \<Rightarrow> u64 \<Rightarrow> LocalIdentity result" where
  "local_identity_new c signing_seed kem_seed created_at =
     (let vk = cr_sign_vk c signing_seed;
          document = \<lparr>id_peer_id = peer_id_for c vk, id_ek = cr_kem_ek c kem_seed, id_vk = vk,
            id_created_at = created_at, id_signature = []\<rparr> in
      and_then (identity_m document) (\<lambda>m.
      and_then (mldsa_sign c signing_seed IDENTITY_CONTEXT m) (\<lambda>signature.
      Inr \<lparr>li_document = document\<lparr>id_signature := signature\<rparr>, li_signing_seed = signing_seed,
           li_kem_seed = kem_seed\<rparr>)))"

text \<open>Fresh seeds and the clock are inputs: both can be unavailable.\<close>

definition local_identity_generate ::
  "crypto \<Rightarrow> (256 word) result \<Rightarrow> (256 word) result \<Rightarrow> u64 result \<Rightarrow> LocalIdentity result" where
  "local_identity_generate c signing_entropy kem_entropy unix_time =
     and_then signing_entropy (\<lambda>signing_seed.
     and_then kem_entropy (\<lambda>kem_seed.
     and_then unix_time (\<lambda>now.
     local_identity_new c signing_seed kem_seed now)))"

definition local_identity_from_seeds ::
  "crypto \<Rightarrow> 256 word \<Rightarrow> 256 word \<Rightarrow> IdentityDocument \<Rightarrow> LocalIdentity result" where
  "local_identity_from_seeds c signing_seed kem_seed document =
     and_then (identity_verify c document) (\<lambda>_.
     and_then (guard_ok (\<not> (id_vk document \<noteq> cr_sign_vk c signing_seed \<or> id_ek document \<noteq> cr_kem_ek c kem_seed))
       AuthenticationFailed) (\<lambda>_.
     Inr \<lparr>li_document = document, li_signing_seed = signing_seed, li_kem_seed = kem_seed\<rparr>))"

definition rotate_ek :: "crypto \<Rightarrow> (256 word) result \<Rightarrow> u64 result \<Rightarrow> LocalIdentity \<Rightarrow> LocalIdentity result" where
  "rotate_ek c kem_entropy unix_time local =
     and_then kem_entropy (\<lambda>kem_seed.
     and_then (ok_or (checked_add (id_created_at (li_document local)) 1)
       (State ''identity creation time exhausted'')) (\<lambda>next_created_at.
     and_then unix_time (\<lambda>now.
     local_identity_new c (li_signing_seed local) kem_seed (max now next_created_at))))"

text \<open>What every constructor guarantees of a local identity.\<close>

definition local_identity_ok :: "crypto \<Rightarrow> LocalIdentity \<Rightarrow> bool" where
  "local_identity_ok c local \<longleftrightarrow> identity_verify c (li_document local) = Inr () \<and>
     id_vk (li_document local) = cr_sign_vk c (li_signing_seed local) \<and>
     id_ek (li_document local) = cr_kem_ek c (li_kem_seed local)"

lemma identity_verify_Inr:
  "identity_verify c d = Inr u \<longleftrightarrow> cr_ek_ok c (id_ek d) \<and> id_peer_id d = peer_id_for c (id_vk d) \<and> identity_ok d \<and>
     cr_verify c (id_vk d) IDENTITY_CONTEXT (identity_bytes d) (id_signature d)"
  by (auto simp: identity_verify_def validate_public_key_def)

lemma local_identity_new_ok:
  assumes "crypto_correct c" and "local_identity_new c s k t = Inr local"
  shows "local_identity_ok c local" and "id_created_at (li_document local) = t"
    and "li_signing_seed local = s" and "li_kem_seed local = k"
proof -
  let ?d = "\<lparr>id_peer_id = peer_id_for c (cr_sign_vk c s), id_ek = cr_kem_ek c k, id_vk = cr_sign_vk c s,
    id_created_at = t, id_signature = []\<rparr>"
  obtain g where g: "identity_ok ?d" "mldsa_sign c s IDENTITY_CONTEXT (identity_bytes ?d) = Inr g"
      and l: "local = \<lparr>li_document = ?d\<lparr>id_signature := g\<rparr>, li_signing_seed = s, li_kem_seed = k\<rparr>"
    using assms(2) by (auto simp: local_identity_new_def Let_def)
  have "cr_verify c (cr_sign_vk c s) IDENTITY_CONTEXT (identity_bytes (?d\<lparr>id_signature := g\<rparr>)) g"
    using mldsa_sign_verifies [OF assms(1) g(2)] by (simp add: identity_bytes_def)
  moreover have "identity_ok (?d\<lparr>id_signature := g\<rparr>)"
    using g(1) by (simp add: identity_ok_def)
  ultimately show "local_identity_ok c local"
    using assms(1) by (simp add: l local_identity_ok_def identity_verify_Inr crypto_correct_def)
qed (use assms(2) in \<open>auto simp: local_identity_new_def Let_def\<close>)

text \<open>Rotation keeps the principal and moves its creation time forward.\<close>

lemma rotate_ek_ok:
  assumes "crypto_correct c" and "local_identity_ok c local" and "rotate_ek c e now local = Inr local'"
  shows "local_identity_ok c local'" and "id_peer_id (li_document local') = id_peer_id (li_document local)"
    and "id_vk (li_document local') = id_vk (li_document local)"
    and "id_created_at (li_document local) < id_created_at (li_document local')"
proof -
  obtain k n t where r: "local_identity_new c (li_signing_seed local) k (max t n) = Inr local'"
      "checked_add (id_created_at (li_document local)) 1 = Some n"
    using assms(3) by (auto simp: rotate_ek_def)
  note ok = local_identity_new_ok [OF assms(1) r(1)]
  show "local_identity_ok c local'" by (rule ok(1))
  show vk: "id_vk (li_document local') = id_vk (li_document local)"
    using ok(1,3) assms(2) by (simp add: local_identity_ok_def)
  show "id_peer_id (li_document local') = id_peer_id (li_document local)"
    using ok(1) assms(2) vk by (simp add: local_identity_ok_def identity_verify_Inr)
  show "id_created_at (li_document local) < id_created_at (li_document local')"
    using checked_add_one_less [OF r(2)] ok(2) by (simp add: less_max_iff_disj)
qed

section \<open>The identity file\<close>

definition LOCAL_IDENTITY_MAGIC :: bytes where
  "LOCAL_IDENTITY_MAGIC = ascii ''qfs/local/identity/''"

definition encode_local_identity :: "LocalIdentity \<Rightarrow> bytes result" where
  "encode_local_identity local =
     and_then (identity_m (li_document local)) (\<lambda>document_m.
     let out = LOCAL_IDENTITY_MAGIC @ [LOCAL_FORMAT_VERSION] @ to_be_bytes (li_signing_seed local) @
           to_be_bytes (li_kem_seed local) in
     and_then (push_variable out document_m) (\<lambda>out.
     push_variable out (id_signature (li_document local))))"

definition decode_local_identity :: "crypto \<Rightarrow> bytes \<Rightarrow> LocalIdentity result" where
  "decode_local_identity c bs = run_parser (
     p_bind (rd_require_prefix LOCAL_IDENTITY_MAGIC) (\<lambda>_.
     p_bind rd_require_version (\<lambda>_.
     p_bind rd_id32 (\<lambda>signing_seed.
     p_bind rd_id32 (\<lambda>kem_seed.
     p_bind rd_variable (\<lambda>document_m.
     p_bind rd_variable (\<lambda>signature.
     p_bind rd_finish (\<lambda>_.
     p_bind (p_lift (decode_identity_document document_m signature)) (\<lambda>document.
     p_lift (local_identity_from_seeds c signing_seed kem_seed document)))))))))) bs"

lemma decode_local_identity_iff:
  assumes "length bs \<le> usize_max"
  shows "decode_local_identity c bs = Inr local \<longleftrightarrow> local_identity_ok c local \<and> encode_local_identity local = Inr bs"
proof
  assume "decode_local_identity c bs = Inr local"
  then show "local_identity_ok c local \<and> encode_local_identity local = Inr bs"
    by (auto simp: decode_local_identity_def encode_local_identity_def local_identity_from_seeds_def
        local_identity_ok_def Let_def decode_identity_document_Inr short_usize elim!: wire_elim)
next
  assume l: "local_identity_ok c local \<and> encode_local_identity local = Inr bs"
  show "decode_local_identity c bs = Inr local"
    unfolding decode_local_identity_def
    by (rule run_parser_reads [OF _ assms])
      (use l in \<open>auto simp: encode_local_identity_def Let_def local_identity_from_seeds_def local_identity_ok_def
          decode_identity_document_Inr short_usize
        intro!: reads_bind [OF reads_require_prefix] reads_bind [OF reads_require_version, simplified]
          reads_bind [OF reads_id32] reads_bind [OF reads_variable] reads_bind_last [OF reads_variable]
          reads_bind_last [OF reads_finish] reads_bind_nil [OF reads_lift] reads_lift\<close>)
qed

end
