(* ===== verification/Dir_Tree.thy ===== *)
theory Dir_Tree
  imports Messages "HOL-Library.List_Lexorder" "HOL-Library.Product_Lexorder"
begin

text \<open>
  The directory tree of \<open>backend/src/store/tree.rs\<close>: dirents keyed by parent and name, path
  syntax, lookup, and the four mutations. The walks to the root are loops over parent links;
  \<open>chain t c es\<close> is the specification they are compared with: \<open>es\<close> are the entries
  from \<open>c\<close> up to the root. The invariant \<open>tree_ok\<close> holds of every tree the code builds: unique
  links, directory parents, every entry under the root within the path limit.
\<close>

section \<open>Names and paths\<close>

definition MAX_COMPONENT_BYTES :: nat where
  "MAX_COMPONENT_BYTES = 255"

definition MAX_PATH_BYTES :: nat where
  "MAX_PATH_BYTES = 4096"

definition is_ascii_alphabetic :: "byte \<Rightarrow> bool" where
  "is_ascii_alphabetic b \<longleftrightarrow> 65 \<le> b \<and> b \<le> 90 \<or> 97 \<le> b \<and> b \<le> 122"

definition has_drive_prefix :: "bytes \<Rightarrow> bool" where
  "has_drive_prefix path \<longleftrightarrow> length path \<ge> 2 \<and> is_ascii_alphabetic (path ! 0) \<and> path ! 1 = 58"

definition validate_name :: "bytes \<Rightarrow> unit result" where
  "validate_name name =
     and_then (guard_ok (\<not> (name = [] \<or> name = [46] \<or> name = [46, 46]))
       (InvalidInput ''invalid empty or dot path component'')) (\<lambda>_.
     and_then (guard_ok (\<not> length name > MAX_COMPONENT_BYTES)
       (InvalidInput ''path component exceeds 255 bytes'')) (\<lambda>_.
     guard_ok (\<not> (47 \<in> set name \<or> 92 \<in> set name \<or> 0 \<in> set name \<or> has_drive_prefix name))
       (InvalidInput ''path component contains a forbidden character'')))"

fun split_slash :: "bytes \<Rightarrow> bytes list" where
  "split_slash [] = [[]]"
| "split_slash (b # bs) =
     (if b = 47 then [] # split_slash bs
      else case split_slash bs of [] \<Rightarrow> [[b]] | c # cs \<Rightarrow> (b # c) # cs)"

definition strip_slash :: "bytes \<Rightarrow> bytes" where
  "strip_slash path = (case path of [] \<Rightarrow> [] | b # bs \<Rightarrow> if b = 47 then bs else path)"

definition path_components :: "bytes \<Rightarrow> bytes list result" where
  "path_components path =
     and_then (guard_ok (\<not> length path > MAX_PATH_BYTES) (InvalidInput ''path exceeds 4096 bytes'')) (\<lambda>_.
     and_then (guard_ok (\<not> (0 \<in> set path \<or> 92 \<in> set path))
       (InvalidInput ''path contains a forbidden character'')) (\<lambda>_.
     let path = strip_slash path in
     and_then (guard_ok (\<not> ((path \<noteq> [] \<and> hd path = 47) \<or> has_drive_prefix path))
       (InvalidInput ''path is not vault-relative'')) (\<lambda>_.
     if path = [] then Inr []
     else
       (let components = split_slash path in
        and_then (fold_ok (\<lambda>component _. validate_name component) components ()) (\<lambda>_.
        Inr components)))))"

section \<open>The tree\<close>

record DirectoryTree =
  dt_expected_root :: FileId
  dt_entries :: "(FileId \<times> bytes, Dirent) btree_map"

definition root_dirent :: "FileId \<Rightarrow> Dirent" where
  "root_dirent root = \<lparr>de_parent = root, de_name = [], de_child = root, de_is_dir = True\<rparr>"

definition tree_new :: "FileId \<Rightarrow> DirectoryTree" where
  "tree_new expected_root = \<lparr>dt_expected_root = expected_root,
     dt_entries = [((expected_root, []), root_dirent expected_root)]\<rparr>"

definition dirents :: "DirectoryTree \<Rightarrow> Dirent list" where
  "dirents t = bm_values (dt_entries t)"

definition is_linked_file :: "DirectoryTree \<Rightarrow> FileId \<Rightarrow> bool" where
  "is_linked_file t file_id = list_ex (\<lambda>e. de_child e = file_id \<and> \<not> de_is_dir e) (dirents t)"

definition is_dir :: "DirectoryTree \<Rightarrow> FileId \<Rightarrow> bool" where
  "is_dir t file_id \<longleftrightarrow> file_id = dt_expected_root t \<or>
     list_ex (\<lambda>e. de_child e = file_id \<and> de_is_dir e) (dirents t)"

definition resolve_components :: "DirectoryTree \<Rightarrow> bytes list \<Rightarrow> FileId \<Rightarrow> FileId result" where
  "resolve_components t components current =
     fold_ok (\<lambda>component current.
       and_then (ok_or (bm_get (dt_entries t) (current, component)) (State ''path does not exist'')) (\<lambda>entry.
       Inr (de_child entry))) components current"

definition resolve :: "DirectoryTree \<Rightarrow> bytes \<Rightarrow> FileId result" where
  "resolve t path =
     and_then (path_components path) (\<lambda>components.
     resolve_components t components (dt_expected_root t))"

definition resolve_parent :: "DirectoryTree \<Rightarrow> bytes \<Rightarrow> (FileId \<times> bytes) result" where
  "resolve_parent t path =
     and_then (path_components path) (\<lambda>components.
     if components = [] then Inl (InvalidInput ''root has no parent'')
     else
       and_then (fold_ok (\<lambda>component parent.
         and_then (ok_or (bm_get (dt_entries t) (parent, component))
           (State ''parent path does not exist'')) (\<lambda>entry.
         and_then (guard_ok (de_is_dir entry) (State ''path parent is not a directory'')) (\<lambda>_.
         Inr (de_child entry)))) (butlast components) (dt_expected_root t)) (\<lambda>parent.
       Inr (parent, last components)))"

text \<open>The entry that links a child: \<open>values().find(|e| e.child == c)\<close>.\<close>

definition entry_of :: "DirectoryTree \<Rightarrow> FileId \<Rightarrow> Dirent option" where
  "entry_of t c = find (\<lambda>e. de_child e = c) (dirents t)"

lemma entry_of_Some: "entry_of t c = Some e \<Longrightarrow> e \<in> set (dirents t) \<and> de_child e = c"
  by (auto simp: entry_of_def find_Some_iff)

lemma entry_of_None: "entry_of t c = None \<longleftrightarrow> (\<forall>e \<in> set (dirents t). de_child e \<noteq> c)"
  by (auto simp: entry_of_def find_None_iff)

lemma walk_measure:
  assumes "c \<notin> set seen" and "entry_of t c = Some e"
  shows "card (de_child ` set (dirents t) - insert c (set seen)) < card (de_child ` set (dirents t) - set seen)"
proof (rule psubset_card_mono)
  show "de_child ` set (dirents t) - insert c (set seen) \<subset> de_child ` set (dirents t) - set seen"
    using assms by (auto dest!: entry_of_Some)
qed simp

function path_len_loop ::
  "DirectoryTree \<Rightarrow> FileId btree_set \<Rightarrow> FileId \<Rightarrow> nat \<Rightarrow> nat \<Rightarrow> (nat \<times> nat) result" where
  "path_len_loop t seen child component_bytes component_count =
     (if child = dt_expected_root t then Inr (component_bytes, component_count)
      else if child \<in> set seen then Inl (InvalidInput ''directory tree contains a cycle'')
      else case entry_of t child of
          None \<Rightarrow> Inl (InvalidInput ''directory entry is unreachable'')
        | Some entry \<Rightarrow>
            (case usize_add component_bytes (length (de_name entry)) of
               None \<Rightarrow> Inl (InvalidInput ''path length overflow'')
             | Some component_bytes \<Rightarrow>
                 path_len_loop t (bs_insert child seen) (de_parent entry) component_bytes (component_count + 1)))"
  by pat_completeness auto
termination
  by (relation "measure (\<lambda>(t, seen, _, _, _). card (de_child ` set (dirents t) - set seen))")
    (auto intro: walk_measure)

declare path_len_loop.simps [simp del]

definition path_len :: "DirectoryTree \<Rightarrow> FileId \<Rightarrow> nat result" where
  "path_len t child =
     (if child = dt_expected_root t then Inr 0
      else
        and_then (path_len_loop t [] child 0 0) (\<lambda>(component_bytes, component_count).
        and_then (ok_or (usize_add component_bytes (component_count - 1))
          (InvalidInput ''path length overflow'')) (\<lambda>len.
        and_then (guard_ok (\<not> len > MAX_PATH_BYTES) (InvalidInput ''path exceeds 4096 bytes'')) (\<lambda>_.
        Inr len))))"

function cycle_loop :: "DirectoryTree \<Rightarrow> FileId btree_set \<Rightarrow> FileId \<Rightarrow> unit result" where
  "cycle_loop t seen current =
     (if current = dt_expected_root t then Inr ()
      else if current \<in> set seen then Inl (InvalidInput ''directory tree contains a cycle'')
      else case entry_of t current of
          None \<Rightarrow> Inl (InvalidInput ''directory entry is unreachable'')
        | Some entry \<Rightarrow> cycle_loop t (bs_insert current seen) (de_parent entry))"
  by pat_completeness auto
termination
  by (relation "measure (\<lambda>(t, seen, _). card (de_child ` set (dirents t) - set seen))")
    (auto intro: walk_measure)

declare cycle_loop.simps [simp del]

definition validate_entry :: "DirectoryTree \<Rightarrow> Dirent \<Rightarrow> unit result" where
  "validate_entry t entry =
     and_then (guard_ok (is_dir t (de_parent entry)) (InvalidInput ''dirent parent is not a directory'')) (\<lambda>_.
     and_then (cycle_loop t [] (de_child entry)) (\<lambda>_.
     and_then (path_len t (de_child entry)) (\<lambda>_. Inr ())))"

definition validate_graph :: "DirectoryTree \<Rightarrow> unit result" where
  "validate_graph t =
     fold_ok (\<lambda>entry _. validate_entry t entry) (filter (\<lambda>e. de_name e \<noteq> []) (dirents t)) ()"

definition from_dirents_step ::
  "FileId \<Rightarrow> Dirent \<Rightarrow>
    (FileId \<times> bytes, Dirent) btree_map \<times> FileId btree_set \<times> (FileId \<times> bytes) option \<Rightarrow>
    ((FileId \<times> bytes, Dirent) btree_map \<times> FileId btree_set \<times> (FileId \<times> bytes) option) result" where
  "from_dirents_step expected_root entry s =
     (case s of (entries, children, previous) \<Rightarrow>
      let key = (de_parent entry, de_name entry) in
      and_then (guard_ok (case previous of None \<Rightarrow> True | Some old \<Rightarrow> \<not> old \<ge> key)
        (InvalidInput ''dirents are not canonically ordered'')) (\<lambda>_.
      and_then
        (if de_name entry = [] then
           and_then (guard_ok (\<not> (de_parent entry \<noteq> expected_root \<or> de_child entry \<noteq> expected_root \<or>
             \<not> de_is_dir entry)) (InvalidInput ''invalid root dirent'')) (\<lambda>_. Inr children)
         else
           and_then (validate_name (de_name entry)) (\<lambda>_.
           and_then (guard_ok (\<not> (de_child entry = expected_root \<or> de_child entry \<in> set children))
             (InvalidInput ''file id has multiple directory links'')) (\<lambda>_.
           Inr (bs_insert (de_child entry) children)))) (\<lambda>children.
      Inr (bm_insert key entry entries, children, Some key))))"

definition from_dirents :: "FileId \<Rightarrow> Dirent list \<Rightarrow> DirectoryTree result" where
  "from_dirents expected_root ds =
     (if ds = [] then Inr (tree_new expected_root)
      else
        and_then (fold_ok (from_dirents_step expected_root) ds ([], [], None)) (\<lambda>(entries, _, _).
        and_then (guard_ok (bm_contains entries (expected_root, [])) (InvalidInput ''missing root dirent'')) (\<lambda>_.
        let t = \<lparr>dt_expected_root = expected_root, dt_entries = entries\<rparr> in
        and_then (validate_graph t) (\<lambda>_. Inr t))))"

definition tree_link :: "DirectoryTree \<Rightarrow> FileId \<Rightarrow> bytes \<Rightarrow> FileId \<Rightarrow> bool \<Rightarrow> DirectoryTree result" where
  "tree_link t parent name child dir =
     and_then (validate_name name) (\<lambda>_.
     and_then (guard_ok (is_dir t parent) (State ''link parent is not a directory'')) (\<lambda>_.
     and_then (guard_ok (\<not> (child = dt_expected_root t \<or> list_ex (\<lambda>e. de_child e = child) (dirents t)))
       (State ''file id is already linked'')) (\<lambda>_.
     and_then (guard_ok (\<not> bm_contains (dt_entries t) (parent, name))
       (State ''directory name already exists'')) (\<lambda>_.
     and_then (path_len t parent) (\<lambda>parent_len.
     let separator = (if parent \<noteq> dt_expected_root t then 1 else 0) in
     and_then (guard_ok (case usize_add parent_len separator of
           None \<Rightarrow> False
         | Some l \<Rightarrow> (case usize_add l (length name) of None \<Rightarrow> False | Some l \<Rightarrow> \<not> l > MAX_PATH_BYTES))
       (InvalidInput ''path exceeds 4096 bytes'')) (\<lambda>_.
     Inr (t\<lparr>dt_entries := bm_insert (parent, name)
        \<lparr>de_parent = parent, de_name = name, de_child = child, de_is_dir = dir\<rparr> (dt_entries t)\<rparr>)))))))"

definition tree_unlink :: "DirectoryTree \<Rightarrow> FileId \<Rightarrow> bytes \<Rightarrow> (FileId \<times> DirectoryTree) result" where
  "tree_unlink t parent name =
     and_then (validate_name name) (\<lambda>_.
     and_then (ok_or (bm_get (dt_entries t) (parent, name)) (State ''directory entry does not exist'')) (\<lambda>entry.
     and_then (guard_ok (\<not> (de_is_dir entry \<and> list_ex (\<lambda>c. de_parent c = de_child entry) (dirents t)))
       (State ''directory is not empty'')) (\<lambda>_.
     Inr (de_child entry, t\<lparr>dt_entries := bm_remove (parent, name) (dt_entries t)\<rparr>))))"

text \<open>
  \<open>is_descendant\<close> follows parent links without remembering where it has been, so on a cyclic tree
  it would not return. A walk that is still going after one step per entry repeats an entry;
  \<open>None\<close> is that case, and \<open>is_descendant_returns\<close> below excludes it for well-formed trees.
\<close>

fun is_descendant_fuel :: "nat \<Rightarrow> DirectoryTree \<Rightarrow> FileId \<Rightarrow> FileId \<Rightarrow> bool option" where
  "is_descendant_fuel 0 t candidate ancestor = None"
| "is_descendant_fuel (Suc n) t candidate ancestor =
     (if candidate = dt_expected_root t then Some False
      else if candidate = ancestor then Some True
      else case entry_of t candidate of
          None \<Rightarrow> Some False
        | Some e \<Rightarrow> is_descendant_fuel n t (de_parent e) ancestor)"

definition is_descendant :: "DirectoryTree \<Rightarrow> FileId \<Rightarrow> FileId \<Rightarrow> bool option" where
  "is_descendant t = is_descendant_fuel (length (dt_entries t) + 2) t"

definition tree_rename ::
  "DirectoryTree \<Rightarrow> FileId \<Rightarrow> bytes \<Rightarrow> FileId \<Rightarrow> bytes \<Rightarrow> DirectoryTree result" where
  "tree_rename t src_parent src_name dst_parent dst_name =
     and_then (validate_name src_name) (\<lambda>_.
     and_then (validate_name dst_name) (\<lambda>_.
     and_then (guard_ok (is_dir t dst_parent) (State ''rename destination is not a directory'')) (\<lambda>_.
     let source_key = (src_parent, src_name); destination_key = (dst_parent, dst_name) in
     if source_key = destination_key then
       and_then (guard_ok (bm_contains (dt_entries t) source_key) (State ''rename source does not exist'')) (\<lambda>_.
       Inr t)
     else
       and_then (guard_ok (\<not> bm_contains (dt_entries t) destination_key)
         (State ''rename destination already exists'')) (\<lambda>_.
       and_then (ok_or (bm_get (dt_entries t) source_key) (State ''rename source does not exist'')) (\<lambda>entry.
       and_then (guard_ok (\<not> de_name entry = []) (InvalidInput ''cannot rename the vault root'')) (\<lambda>_.
       and_then (if de_is_dir entry
           then ok_or (is_descendant t dst_parent (de_child entry)) (State ''walk does not return'')
           else Inr False) (\<lambda>inside.
       and_then (guard_ok (\<not> inside) (State ''cannot move a directory into its descendant'')) (\<lambda>_.
       let staged = t\<lparr>dt_entries := bm_insert destination_key (entry\<lparr>de_parent := dst_parent, de_name := dst_name\<rparr>)
             (bm_remove source_key (dt_entries t))\<rparr> in
       and_then (validate_graph staged) (\<lambda>_. Inr staged)))))))))"

definition tree_remove_id :: "DirectoryTree \<Rightarrow> FileId \<Rightarrow> DirectoryTree result" where
  "tree_remove_id t file_id =
     (if file_id = dt_expected_root t then Inl (InvalidInput ''cannot remove the vault root'')
      else case find (\<lambda>(key, entry). de_child entry = file_id) (dt_entries t) of
          None \<Rightarrow> Inr t
        | Some ((parent, name), _) \<Rightarrow> and_then (tree_unlink t parent name) (\<lambda>(_, t'). Inr t'))"

section \<open>Walks to the root\<close>

inductive chain :: "DirectoryTree \<Rightarrow> FileId \<Rightarrow> Dirent list \<Rightarrow> bool" for t where
  chain_root: "chain t (dt_expected_root t) []"
| chain_step: "c \<noteq> dt_expected_root t \<Longrightarrow> entry_of t c = Some e \<Longrightarrow> chain t (de_parent e) es \<Longrightarrow>
    chain t c (e # es)"

inductive_simps chain_Nil_iff: "chain t c []"
inductive_simps chain_Cons_iff: "chain t c (e # es)"
inductive_cases chain_rootE: "chain t (dt_expected_root t) es"

definition names_len :: "Dirent list \<Rightarrow> nat" where
  "names_len es = sum_list (map (length \<circ> de_name) es)"

definition path_bytes :: "Dirent list \<Rightarrow> nat" where
  "path_bytes es = names_len es + (length es - 1)"

lemma names_len_simps [simp]: "names_len [] = 0" "names_len (e # es) = length (de_name e) + names_len es"
  by (simp_all add: names_len_def)

lemma chain_at_root: "chain t (dt_expected_root t) es \<longleftrightarrow> es = []"
  by (cases es) (auto simp: chain_Nil_iff chain_Cons_iff)

lemma chain_det: "chain t c es \<Longrightarrow> chain t c es' \<Longrightarrow> es = es'"
proof (induction arbitrary: es' rule: chain.induct)
  case chain_root
  then show ?case by (simp add: chain_at_root)
next
  case (chain_step c e es)
  from chain_step.prems chain_step.hyps(1,2) obtain es2 where "es' = e # es2" "chain t (de_parent e) es2"
    by (auto elim: chain.cases)
  with chain_step.IH show ?case by simp
qed

lemma chain_suffix: "chain t c es \<Longrightarrow> e \<in> set es \<Longrightarrow> \<exists>ys zs. es = ys @ zs \<and> chain t (de_child e) zs"
proof (induction rule: chain.induct)
  case (chain_step c e' es)
  show ?case
  proof (cases "e = e'")
    case True
    then have "de_child e = c"
      using chain_step.hyps(2) entry_of_Some by blast
    with chain_step.hyps show ?thesis
      using chain.chain_step by (intro exI [of _ "[]"] exI [of _ "e' # es"]) simp
  next
    case False
    with chain_step obtain ys zs where "es = ys @ zs" "chain t (de_child e) zs" by auto
    then show ?thesis
      by (intro exI [of _ "e' # ys"] exI [of _ zs]) simp
  qed
qed simp

lemma chain_distinct: "chain t c es \<Longrightarrow> distinct (map de_child es)"
proof (induction rule: chain.induct)
  case (chain_step c e es)
  have "de_child e \<notin> de_child ` set es"
  proof
    assume "de_child e \<in> de_child ` set es"
    then obtain e' where "e' \<in> set es" "de_child e' = de_child e" by auto
    with chain_suffix [OF chain_step.hyps(3)] obtain ys zs where zs: "es = ys @ zs" "chain t (de_child e) zs"
      by metis
    have "chain t (de_child e) (e # es)"
      using chain_step.hyps chain.chain_step entry_of_Some by metis
    with zs(2) have "zs = e # es" by (rule chain_det)
    with zs(1) show False by (metis append_Cons append_Nil impossible_Cons le_add2 length_append)
  qed
  with chain_step.IH show ?case by simp
qed simp

lemma chain_head_child: "chain t c (e # es) \<Longrightarrow> de_child e = c"
  using entry_of_Some by (auto simp: chain_Cons_iff)

lemma path_len_loop_chain:
  assumes "chain t c es" and "de_child ` set es \<inter> set seen = {}"
  shows "path_len_loop t seen c b k =
    (if es = [] \<or> b + names_len es \<le> usize_max then Inr (b + names_len es, k + length es)
     else Inl (InvalidInput ''path length overflow''))"
  using assms
proof (induction arbitrary: seen b k rule: chain.induct)
  case chain_root
  then show ?case by (simp add: path_len_loop.simps)
next
  case (chain_step c e es)
  have c: "de_child e = c"
    using chain_step.hyps(2) entry_of_Some by blast
  have "distinct (map de_child (e # es))"
    using chain_step.hyps by (intro chain_distinct [of t c] chain.chain_step)
  then have d: "de_child ` set es \<inter> set (bs_insert c seen) = {}"
    using chain_step.prems c by auto
  have "c \<notin> set seen"
    using chain_step.prems c by auto
  with chain_step.hyps chain_step.IH [OF d] show ?case
    by (subst path_len_loop.simps) (auto simp: usize_add_def add.assoc)
qed

lemma path_len_loop_inv:
  assumes "path_len_loop t seen c b k = Inr (b', k')" and "b \<le> usize_max"
  shows "\<exists>es. chain t c es \<and> b' = b + names_len es \<and> k' = k + length es \<and> b' \<le> usize_max"
  using assms
proof (induction t seen c b k rule: path_len_loop.induct)
  case (1 t seen c b k)
  show ?case
  proof (cases "c = dt_expected_root t")
    case True
    with 1 show ?thesis
      by (auto simp: path_len_loop.simps intro!: exI [of _ "[]"] chain_root)
  next
    case False
    then obtain e where e: "c \<notin> set seen" "entry_of t c = Some e" "b + length (de_name e) \<le> usize_max"
      and next_step: "path_len_loop t (bs_insert c seen) (de_parent e) (b + length (de_name e)) (k + 1) = Inr (b', k')"
      using "1.prems"(1)
      by (subst (asm) path_len_loop.simps) (auto simp: usize_add_def split: if_splits option.splits)
    from "1.IH" [OF False e(1,2) _ next_step e(3)] e(3)
    obtain es where "chain t (de_parent e) es" "b' = b + length (de_name e) + names_len es"
      "k' = k + 1 + length es" "b' \<le> usize_max" by (auto simp: usize_add_def)
    with False e(2) show ?thesis
      by (intro exI [of _ "e # es"]) (auto intro: chain_step)
  qed
qed

lemma path_len_Inr:
  "path_len t c = Inr n \<longleftrightarrow> (\<exists>es. chain t c es \<and> n = path_bytes es \<and> n \<le> MAX_PATH_BYTES)"
proof
  assume "path_len t c = Inr n"
  then show "\<exists>es. chain t c es \<and> n = path_bytes es \<and> n \<le> MAX_PATH_BYTES"
    by (auto simp: path_len_def path_bytes_def MAX_PATH_BYTES_def not_less split: if_splits
        intro: exI [of _ "[]"] chain_root dest!: path_len_loop_inv)
next
  assume "\<exists>es. chain t c es \<and> n = path_bytes es \<and> n \<le> MAX_PATH_BYTES"
  then obtain es where es: "chain t c es" "n = path_bytes es" "n \<le> MAX_PATH_BYTES" by blast
  show "path_len t c = Inr n"
  proof (cases "c = dt_expected_root t")
    case True
    with es show ?thesis by (simp add: chain_at_root path_len_def path_bytes_def)
  next
    case False
    have "names_len es \<le> usize_max" and "names_len es + (length es - 1) \<le> usize_max"
      using es(2,3) by (auto simp: path_bytes_def usize_max_def MAX_PATH_BYTES_def)
    with path_len_loop_chain [OF es(1), of "[]" 0 0] es(2,3) False show ?thesis
      by (simp add: path_len_def path_bytes_def)
  qed
qed

lemma cycle_loop_chain:
  assumes "chain t c es" and "de_child ` set es \<inter> set seen = {}"
  shows "cycle_loop t seen c = Inr ()"
  using assms
proof (induction arbitrary: seen rule: chain.induct)
  case chain_root
  then show ?case by (simp add: cycle_loop.simps)
next
  case (chain_step c e es)
  have c: "de_child e = c"
    using chain_step.hyps(2) entry_of_Some by blast
  have "distinct (map de_child (e # es))"
    using chain_step.hyps by (intro chain_distinct [of t c] chain.chain_step)
  then have d: "de_child ` set es \<inter> set (bs_insert c seen) = {}" and "c \<notin> set seen"
    using chain_step.prems c by auto
  with chain_step.hyps chain_step.IH [OF d] show ?case
    by (subst cycle_loop.simps) auto
qed

text \<open>The acceptance test of one entry: directory parent, a walk to the root, a short enough path.\<close>

definition anchored :: "DirectoryTree \<Rightarrow> Dirent \<Rightarrow> bool" where
  "anchored t e \<longleftrightarrow> is_dir t (de_parent e) \<and>
     (\<exists>es. chain t (de_child e) es \<and> path_bytes es \<le> MAX_PATH_BYTES)"

lemma validate_entry_Inr: "validate_entry t e = Inr () \<longleftrightarrow> anchored t e"
proof
  assume "anchored t e"
  then obtain es where "is_dir t (de_parent e)" "chain t (de_child e) es" "path_bytes es \<le> MAX_PATH_BYTES"
    by (auto simp: anchored_def)
  moreover from this have "cycle_loop t [] (de_child e) = Inr ()"
    by (auto intro: cycle_loop_chain)
  ultimately show "validate_entry t e = Inr ()"
    by (auto simp: validate_entry_def path_len_Inr)
qed (auto simp: validate_entry_def anchored_def path_len_Inr)

lemma validate_graph_Inr:
  "validate_graph t = Inr () \<longleftrightarrow> (\<forall>e \<in> set (dirents t). de_name e \<noteq> [] \<longrightarrow> anchored t e)"
  by (auto simp: validate_graph_def fold_ok_unit validate_entry_Inr)

section \<open>The invariant\<close>

abbreviation dkey :: "Dirent \<Rightarrow> FileId \<times> bytes" where
  "dkey e \<equiv> (de_parent e, de_name e)"

definition entry_ok :: "FileId \<Rightarrow> Dirent \<Rightarrow> bool" where
  "entry_ok root e \<longleftrightarrow>
     (if de_name e = [] then e = root_dirent root
      else validate_name (de_name e) = Inr () \<and> de_child e \<noteq> root)"

definition tree_ok :: "DirectoryTree \<Rightarrow> bool" where
  "tree_ok t \<longleftrightarrow>
     bm_ok (dt_entries t) \<and> bm_keyed dkey (dt_entries t) \<and>
     root_dirent (dt_expected_root t) \<in> set (dirents t) \<and>
     (\<forall>e \<in> set (dirents t). entry_ok (dt_expected_root t) e) \<and>
     (\<forall>e \<in> set (dirents t). de_name e \<noteq> [] \<longrightarrow> anchored t e) \<and>
     inj_on de_child (set (dirents t))"

lemma tree_okD:
  assumes "tree_ok t"
  shows "bm_ok (dt_entries t)" and "bm_keyed dkey (dt_entries t)"
    and "root_dirent (dt_expected_root t) \<in> set (dirents t)"
    and "e \<in> set (dirents t) \<Longrightarrow> entry_ok (dt_expected_root t) e"
    and "e \<in> set (dirents t) \<Longrightarrow> de_name e \<noteq> [] \<Longrightarrow> anchored t e"
    and "inj_on de_child (set (dirents t))"
  using assms unfolding tree_ok_def by blast+

lemma validate_name_Nil [simp]: "validate_name [] \<noteq> Inr u"
  by (simp add: validate_name_def)

lemma root_dirent_simps [simp]:
  "de_parent (root_dirent r) = r" "de_name (root_dirent r) = []" "de_child (root_dirent r) = r"
  "de_is_dir (root_dirent r)"
  by (simp_all add: root_dirent_def)

lemma get_entry:
  assumes "tree_ok t"
  shows "bm_get (dt_entries t) (p, n) = Some e \<longleftrightarrow> e \<in> set (dirents t) \<and> de_parent e = p \<and> de_name e = n"
  using bm_keyed_get [OF tree_okD(1,2) [OF assms], of "(p, n)" e] by (simp add: dirents_def)

lemma entry_of_iff:
  "inj_on de_child (set (dirents t)) \<Longrightarrow> entry_of t c = Some e \<longleftrightarrow> e \<in> set (dirents t) \<and> de_child e = c"
proof
  assume inj: "inj_on de_child (set (dirents t))" and e: "e \<in> set (dirents t) \<and> de_child e = c"
  then obtain e' where "entry_of t c = Some e'"
    using entry_of_None [of t c] by (cases "entry_of t c") auto
  with e inj show "entry_of t c = Some e"
    by (auto dest!: entry_of_Some dest: inj_onD)
qed (rule entry_of_Some)

lemma chain_mono:
  assumes "chain t c es" and "dt_expected_root t' = dt_expected_root t"
    and "\<And>e. e \<in> set es \<Longrightarrow> entry_of t' (de_child e) = Some e"
  shows "chain t' c es"
  using assms
proof (induction rule: chain.induct)
  case chain_root
  then show ?case by (metis chain.chain_root)
next
  case (chain_step c e es)
  then have "de_child e = c" using entry_of_Some by blast
  with chain_step show ?case
    by (auto intro: chain.chain_step)
qed

lemma chain_entries: "chain t c es \<Longrightarrow> e \<in> set es \<Longrightarrow> e \<in> set (dirents t) \<and> de_child e \<noteq> dt_expected_root t"
  by (induction rule: chain.induct) (auto dest: entry_of_Some)

lemma is_dir_iff:
  "is_dir t c \<longleftrightarrow> c = dt_expected_root t \<or> (\<exists>e \<in> set (dirents t). de_child e = c \<and> de_is_dir e)"
  by (simp add: is_dir_def list_ex_iff)

section \<open>Building a tree from dirents\<close>

abbreviation links :: "Dirent list \<Rightarrow> FileId list" where
  "links ds \<equiv> map de_child (filter (\<lambda>e. de_name e \<noteq> []) ds)"

lemma from_dirents_step_Inr:
  "from_dirents_step r e (m, ch, prev) = Inr s \<longleftrightarrow>
    above prev (dkey e) \<and> entry_ok r e \<and>
    (de_name e \<noteq> [] \<longrightarrow> de_child e \<notin> set ch) \<and>
    s = (bm_insert (dkey e) e m, if de_name e = [] then ch else bs_insert (de_child e) ch, Some (dkey e))"
  by (cases e) (auto simp: from_dirents_step_def entry_ok_def above_def root_dirent_def Let_def split: option.splits)

lemma from_dirents_fold:
  "(\<exists>ch' prev'. fold_ok (from_dirents_step r) ds (m, ch, prev) = Inr (m', ch', prev')) \<longleftrightarrow>
    chain_above dkey prev ds \<and> (\<forall>e \<in> set ds. entry_ok r e) \<and> distinct (links ds) \<and>
    set (links ds) \<inter> set ch = {} \<and> m' = fold (\<lambda>e. bm_insert (dkey e) e) ds m"
proof (induction ds arbitrary: m ch prev)
  case (Cons e ds)
  show ?case
    unfolding fold_ok.simps and_then_Inr_iff from_dirents_step_Inr
    using Cons.IH [of "bm_insert (dkey e) e m" "if de_name e = [] then ch else bs_insert (de_child e) ch" "Some (dkey e)"]
    by (cases "de_name e = []") auto
qed auto

lemma inj_on_child_iff:
  assumes "distinct ds" and "\<forall>e \<in> set ds. entry_ok r e"
  shows "inj_on de_child (set ds) \<longleftrightarrow> distinct (links ds)"
proof -
  have "set ds = set (filter (\<lambda>e. de_name e = []) ds) \<union> set (filter (\<lambda>e. de_name e \<noteq> []) ds)"
    by auto
  moreover have "e = root_dirent r" if "e \<in> set ds" "de_name e = []" for e
    using assms(2) that by (auto simp: entry_ok_def)
  moreover have "de_child e \<noteq> r" if "e \<in> set ds" "de_name e \<noteq> []" for e
    using assms(2) that by (auto simp: entry_ok_def)
  ultimately have "inj_on de_child (set ds) \<longleftrightarrow> inj_on de_child (set (filter (\<lambda>e. de_name e \<noteq> []) ds))"
    by (auto simp: inj_on_def) (metis root_dirent_simps(3))+
  then show ?thesis
    using assms(1) by (simp add: distinct_map)
qed

lemma sorted_keys_distinct: "sorted_wrt (<) (map dkey ds) \<Longrightarrow> distinct ds"
  using bm_ok_distinct [of "map (\<lambda>e. (dkey e, e)) ds"]
  by (auto simp: bm_ok_def comp_def distinct_map)

lemma dirents_of_map: "dirents \<lparr>dt_expected_root = r, dt_entries = map (\<lambda>e. (dkey e, e)) ds\<rparr> = ds"
  by (simp add: dirents_def comp_def)

lemma tree_ok_dirents:
  "tree_ok \<lparr>dt_expected_root = r, dt_entries = map (\<lambda>e. (dkey e, e)) ds\<rparr> \<longleftrightarrow>
    sorted_wrt (<) (map dkey ds) \<and> root_dirent r \<in> set ds \<and> (\<forall>e \<in> set ds. entry_ok r e) \<and>
    (\<forall>e \<in> set ds. de_name e \<noteq> [] \<longrightarrow>
      anchored \<lparr>dt_expected_root = r, dt_entries = map (\<lambda>e. (dkey e, e)) ds\<rparr> e) \<and>
    distinct (links ds)"
  using inj_on_child_iff [of ds r] sorted_keys_distinct [of ds]
  by (auto simp: tree_ok_def dirents_of_map bm_ok_def bm_keyed_def comp_def)

lemma from_dirents_nonempty:
  assumes "ds \<noteq> []"
  shows "from_dirents r ds = Inr t \<longleftrightarrow>
    t = \<lparr>dt_expected_root = r, dt_entries = map (\<lambda>e. (dkey e, e)) ds\<rparr> \<and> tree_ok t"
proof -
  let ?m = "map (\<lambda>e. (dkey e, e)) ds"
  let ?t = "\<lparr>dt_expected_root = r, dt_entries = ?m\<rparr>"
  have fold: "(\<exists>ch prev. fold_ok (from_dirents_step r) ds ([], [], None) = Inr (m, ch, prev)) \<longleftrightarrow>
      sorted_wrt (<) (map dkey ds) \<and> (\<forall>e \<in> set ds. entry_ok r e) \<and> distinct (links ds) \<and> m = ?m" for m
    using from_dirents_fold [of r ds "[]" "[]" None m]
    by (auto simp: chain_above_None bm_fold_insert)
  have root: "(r, []) \<in> dkey ` set ds \<longleftrightarrow> root_dirent r \<in> set ds" if "\<forall>e \<in> set ds. entry_ok r e"
    using that by (auto simp: entry_ok_def image_iff) (metis root_dirent_simps(1,2))+
  have "from_dirents r ds = Inr t \<longleftrightarrow>
      (\<exists>m. (\<exists>ch prev. fold_ok (from_dirents_step r) ds ([], [], None) = Inr (m, ch, prev)) \<and>
        (r, []) \<in> fst ` set m \<and> t = \<lparr>dt_expected_root = r, dt_entries = m\<rparr> \<and> validate_graph t = Inr ())"
    using assms by (auto simp: from_dirents_def Let_def)
  also have "\<dots> \<longleftrightarrow> t = ?t \<and> tree_ok t"
    unfolding fold using root
    by (auto simp: tree_ok_dirents validate_graph_Inr dirents_of_map image_image)
  finally show ?thesis .
qed

lemma tree_ok_entries: "tree_ok t \<Longrightarrow> dt_entries t = map (\<lambda>e. (dkey e, e)) (dirents t)"
  unfolding dirents_def by (rule bm_keyed_eq) (rule tree_okD(2))

lemma tree_ok_new [simp]: "tree_ok (tree_new r)"
  by (auto simp: tree_ok_def tree_new_def dirents_def entry_ok_def bm_keyed_def)

text \<open>Loading accepts exactly the listings of well-formed trees, and returns that tree.\<close>

lemma from_dirents_iff:
  "from_dirents r ds = Inr t \<longleftrightarrow>
    ds = [] \<and> t = tree_new r \<or> ds \<noteq> [] \<and> tree_ok t \<and> dt_expected_root t = r \<and> dirents t = ds"
proof (cases "ds = []")
  case False
  have "t = \<lparr>dt_expected_root = r, dt_entries = map (\<lambda>e. (dkey e, e)) ds\<rparr> \<and> tree_ok t \<longleftrightarrow>
      tree_ok t \<and> dt_expected_root t = r \<and> dirents t = ds"
    using tree_ok_entries [of t] by (auto simp: dirents_of_map intro: DirectoryTree.equality)
  with False show ?thesis
    by (simp add: from_dirents_nonempty)
qed (auto simp: from_dirents_def)

lemma dirents_new [simp]: "dirents (tree_new r) = [root_dirent r]"
  by (simp add: dirents_def tree_new_def)

lemma from_dirents_listing: "from_dirents r ds = Inr t \<Longrightarrow> from_dirents r (dirents t) = Inr t"
  by (auto simp: from_dirents_iff) (simp_all add: tree_new_def)

lemma from_dirents_names: "from_dirents r ds = Inr t \<Longrightarrow> e \<in> set (dirents t) \<Longrightarrow> e \<in> set ds \<or> de_name e = []"
  by (auto simp: from_dirents_iff)

section \<open>Mutations keep the invariant\<close>

lemma dirents_update: "dirents (t\<lparr>dt_entries := m\<rparr>) = bm_values m"
  by (simp add: dirents_def)

lemma chain_interior:
  assumes "chain t c es" and "x \<in> set es"
  shows "x = hd es \<or> (\<exists>e \<in> set es. de_parent e = de_child x)"
  using assms
proof (induction rule: chain.induct)
  case (chain_step c e es)
  show ?case
  proof (cases "x = e")
    case False
    with chain_step.prems have x: "x \<in> set es" by simp
    from chain_step.IH [OF x] show ?thesis
    proof
      assume "x = hd es"
      with x obtain es' where "es = x # es'" by (cases es) auto
      then have "de_child x = de_parent e"
        using chain_head_child chain_step.hyps(3) by blast
      then show ?thesis by (metis list.set_intros(1))
    qed (auto intro: list.set_intros(2))
  qed simp
qed simp

lemma anchored_mono:
  assumes "anchored t e" and "dt_expected_root t' = dt_expected_root t"
    and "is_dir t' (de_parent e)"
    and "\<And>es x. chain t (de_child e) es \<Longrightarrow> x \<in> set es \<Longrightarrow> entry_of t' (de_child x) = Some x"
  shows "anchored t' e"
  using assms chain_mono [of t "de_child e" _ t'] by (auto simp: anchored_def)

lemma link_dirents:
  assumes "tree_ok t" and "tree_link t p n c d = Inr t'"
  shows "set (dirents t') = insert \<lparr>de_parent = p, de_name = n, de_child = c, de_is_dir = d\<rparr> (set (dirents t))"
    and "dt_expected_root t' = dt_expected_root t"
    and "dt_entries t' = bm_insert (p, n) \<lparr>de_parent = p, de_name = n, de_child = c, de_is_dir = d\<rparr> (dt_entries t)"
proof -
  let ?x = "\<lparr>de_parent = p, de_name = n, de_child = c, de_is_dir = d\<rparr>"
  show e: "dt_entries t' = bm_insert (p, n) ?x (dt_entries t)" and "dt_expected_root t' = dt_expected_root t"
    using assms(2) by (auto simp: tree_link_def Let_def)
  have fresh: "(p, n) \<notin> fst ` set (dt_entries t)"
    using assms(2) by (auto simp: tree_link_def Let_def)
  have "bm_get (dt_entries t) (p, n) = None"
    using fresh by (simp add: map_of_eq_None_iff)
  then have "{e \<in> set (dirents t). dkey e \<noteq> (p, n)} = set (dirents t)"
    using get_entry [OF assms(1), of p n] by auto
  then show "set (dirents t') = insert ?x (set (dirents t))"
    using bm_values_insert [OF tree_okD(1,2) [OF assms(1)], of ?x] by (simp add: dirents_def e)
qed

lemma path_bytes_Cons:
  "path_bytes (e # es) = length (de_name e) + (if es = [] then 0 else path_bytes es + 1)"
  by (cases es) (auto simp: path_bytes_def)

lemma tree_ok_link:
  assumes "tree_ok t" and "tree_link t p n c d = Inr t'"
  shows "tree_ok t'"
proof -
  let ?x = "\<lparr>de_parent = p, de_name = n, de_child = c, de_is_dir = d\<rparr>"
  note ds = link_dirents [OF assms]
  have guards: "validate_name n = Inr ()" "is_dir t p" "c \<noteq> dt_expected_root t"
      "\<forall>e \<in> set (dirents t). de_child e \<noteq> c"
    using assms(2) by (auto simp: tree_link_def Let_def list_ex_iff)
  obtain es where es: "chain t p es" "path_bytes (?x # es) \<le> MAX_PATH_BYTES"
    using assms(2) unfolding tree_link_def Let_def
    by (auto simp: path_len_Inr path_bytes_Cons usize_add_def chain_at_root not_less chain_Nil_iff
        split: if_splits option.splits)
  have inj: "inj_on de_child (set (dirents t'))"
    using tree_okD(6) [OF assms(1)] guards(4) by (auto simp: ds(1) inj_on_insert)
  have keep: "entry_of t' (de_child e) = Some e" if "e \<in> set (dirents t)" for e
    using that by (simp add: entry_of_iff [OF inj] ds(1))
  have dir: "is_dir t' q" if "is_dir t q" for q
    using that by (auto simp: is_dir_iff ds)
  have "chain t' p es"
    using es(1) ds(2) keep chain_entries by (blast intro: chain_mono)
  then have "chain t' c (?x # es)"
    using guards(3) ds(2) by (intro chain_step) (auto simp: entry_of_iff [OF inj] ds(1))
  with es(2) dir guards(2) have "anchored t' ?x"
    by (auto simp: anchored_def)
  moreover have "anchored t' e" if "e \<in> set (dirents t)" "de_name e \<noteq> []" for e
  proof (rule anchored_mono [of t])
    show "anchored t e" using tree_okD(5) [OF assms(1) that] .
    then show "is_dir t' (de_parent e)" using dir by (simp add: anchored_def)
  qed (use ds(2) keep chain_entries in blast)+
  moreover have "bm_ok (dt_entries t')" and "bm_keyed dkey (dt_entries t')"
    using bm_keyed_insert [of dkey "dt_entries t" ?x] tree_okD(1,2) [OF assms(1)] by (simp_all add: ds(3))
  moreover have "entry_ok (dt_expected_root t) ?x"
    using guards by (auto simp: entry_ok_def)
  ultimately show ?thesis
    using assms(1) inj unfolding tree_ok_def ds(1,2) by auto
qed

lemma no_children:
  assumes "tree_ok t" and "x \<in> set (dirents t)" and "de_name x \<noteq> []"
    and "\<not> (de_is_dir x \<and> (\<exists>e \<in> set (dirents t). de_parent e = de_child x))"
    and "e \<in> set (dirents t)"
  shows "de_parent e \<noteq> de_child x"
proof
  assume p: "de_parent e = de_child x"
  have root: "de_child x \<noteq> dt_expected_root t"
    using tree_okD(4) [OF assms(1,2)] assms(3) by (simp add: entry_ok_def)
  have "de_name e \<noteq> []"
    using tree_okD(4) [OF assms(1,5)] p root by (auto simp: entry_ok_def)
  then have "is_dir t (de_child x)"
    using tree_okD(5) [OF assms(1,5)] p by (simp add: anchored_def)
  then obtain y where "y \<in> set (dirents t)" "de_child y = de_child x" "de_is_dir y"
    using root by (auto simp: is_dir_iff)
  then have "de_is_dir x"
    using tree_okD(6) [OF assms(1)] assms(2) by (auto dest: inj_onD)
  with assms(4,5) p show False by auto
qed

lemma tree_ok_unlink:
  assumes "tree_ok t" and "tree_unlink t p n = Inr (c, t')"
  shows "tree_ok t'"
proof -
  obtain x where x: "x \<in> set (dirents t)" "de_parent x = p" "de_name x = n" "validate_name n = Inr ()"
    and guard: "\<not> (de_is_dir x \<and> (\<exists>e \<in> set (dirents t). de_parent e = de_child x))"
    and t': "t' = t\<lparr>dt_entries := bm_remove (p, n) (dt_entries t)\<rparr>"
    using assms(2) get_entry [OF assms(1)] by (auto simp: tree_unlink_def list_ex_iff)
  have n: "de_name x \<noteq> []" using x by auto
  note kids = no_children [OF assms(1) x(1) n guard]
  have ds: "set (dirents t') = {e \<in> set (dirents t). dkey e \<noteq> (p, n)}"
    unfolding t' dirents_update using bm_values_remove [OF tree_okD(2) [OF assms(1)], of "(p, n)"]
    by (simp add: dirents_def)
  have "dkey e = (p, n) \<longleftrightarrow> e = x" if "e \<in> set (dirents t)" for e
    using that get_entry [OF assms(1), of p n e] get_entry [OF assms(1), of p n x] x by auto
  then have ds: "set (dirents t') = set (dirents t) - {x}"
    unfolding ds by blast
  have inj: "inj_on de_child (set (dirents t'))"
    using tree_okD(6) [OF assms(1)] by (simp add: ds inj_on_diff)
  have root: "dt_expected_root t' = dt_expected_root t" by (simp add: t')
  have "anchored t' e" if e: "e \<in> set (dirents t')" "de_name e \<noteq> []" for e
  proof (rule anchored_mono [of t])
    show "anchored t e"
      using tree_okD(5) [OF assms(1)] e by (auto simp: ds)
    then have "is_dir t (de_parent e)" by (simp add: anchored_def)
    moreover have "de_parent e \<noteq> de_child x" using kids e by (auto simp: ds)
    ultimately show "is_dir t' (de_parent e)"
      unfolding is_dir_iff ds root by auto
    fix es y
    assume ch: "chain t (de_child e) es" and y: "y \<in> set es"
    have "y \<noteq> x"
    proof
      assume "y = x"
      from chain_interior [OF ch y] show False
      proof
        assume "y = hd es"
        with y \<open>y = x\<close> obtain es' where "es = x # es'" by (cases es) auto
        with ch have "de_child x = de_child e" using chain_head_child by blast
        then show False
          using tree_okD(6) [OF assms(1)] x(1) e by (auto simp: ds dest: inj_onD)
      qed (use \<open>y = x\<close> kids chain_entries [OF ch] in blast)
    qed
    then show "entry_of t' (de_child y) = Some y"
      using chain_entries [OF ch y] by (simp add: entry_of_iff [OF inj] ds)
  qed (simp add: root)
  moreover have "root_dirent (dt_expected_root t) \<in> set (dirents t')"
    using tree_okD(3) [OF assms(1)] n by (auto simp: ds)
  ultimately show ?thesis
    using assms(1) inj bm_keyed_remove [OF tree_okD(2) [OF assms(1)], of "(p, n)"]
    unfolding tree_ok_def root by (simp add: t' ds [unfolded t'])
qed

lemma tree_ok_remove_id:
  assumes "tree_ok t" and "tree_remove_id t f = Inr t'"
  shows "tree_ok t'"
  using assms tree_ok_unlink [OF assms(1)]
  by (auto simp: tree_remove_id_def split: if_splits option.splits prod.splits)

text \<open>Walks are no longer than the number of entries, so \<open>is_descendant\<close> returns.\<close>

lemma is_descendant_fuel_chain:
  "chain t c es \<Longrightarrow> length es < n \<Longrightarrow> is_descendant_fuel n t c a = Some (a \<in> de_child ` set es)"
proof (induction arbitrary: n rule: chain.induct)
  case chain_root
  then show ?case by (cases n) auto
next
  case (chain_step c e es)
  from chain_step.hyps(2) have "de_child e = c" using entry_of_Some by blast
  with chain_step show ?case by (cases n) auto
qed

lemma chain_length:
  assumes "chain t c es"
  shows "length es \<le> length (dt_entries t)"
proof -
  have "length es = card (de_child ` set es)"
    using chain_distinct [OF assms] distinct_card by fastforce
  also have "\<dots> \<le> card (de_child ` set (dirents t))"
    using chain_entries [OF assms] by (intro card_mono) auto
  also have "\<dots> \<le> card (set (dirents t))"
    by (rule card_image_le) simp
  also have "\<dots> \<le> length (dt_entries t)"
    using card_length [of "dirents t"] by (simp add: dirents_def)
  finally show ?thesis .
qed

lemma is_dir_chain:
  assumes "tree_ok t" and "is_dir t c"
  obtains es where "chain t c es" and "path_bytes es \<le> MAX_PATH_BYTES"
proof (cases "c = dt_expected_root t")
  case True
  then show ?thesis by (intro that [of "[]"]) (simp_all add: chain_Nil_iff path_bytes_def MAX_PATH_BYTES_def)
next
  case False
  with assms(2) obtain e where e: "e \<in> set (dirents t)" "de_child e = c" by (auto simp: is_dir_iff)
  then have "de_name e \<noteq> []"
    using tree_okD(4) [OF assms(1) e(1)] False by (auto simp: entry_ok_def)
  with tree_okD(5) [OF assms(1) e(1)] e(2) show ?thesis
    using that by (auto simp: anchored_def)
qed

lemma is_descendant_spec:
  assumes "chain t c es"
  shows "is_descendant t c a = Some (a \<in> de_child ` set es)"
  unfolding is_descendant_def
  by (rule is_descendant_fuel_chain [OF assms]) (use chain_length [OF assms] in simp)

lemma tree_rename_Inr:
  assumes "(sp, sn) \<noteq> (dp, dn)"
  shows "tree_rename t sp sn dp dn = Inr t' \<longleftrightarrow>
    validate_name sn = Inr () \<and> validate_name dn = Inr () \<and> is_dir t dp \<and>
    bm_get (dt_entries t) (dp, dn) = None \<and>
    (\<exists>x. bm_get (dt_entries t) (sp, sn) = Some x \<and> de_name x \<noteq> [] \<and>
      (de_is_dir x \<longrightarrow> is_descendant t dp (de_child x) = Some False) \<and>
      t' = t\<lparr>dt_entries := bm_insert (dp, dn) (x\<lparr>de_parent := dp, de_name := dn\<rparr>)
        (bm_remove (sp, sn) (dt_entries t))\<rparr> \<and>
      validate_graph t' = Inr ())"
  unfolding tree_rename_def Let_def if_not_P [OF assms] bm_contains_def and_then_Inr_iff guard_ok_simps
    ok_or_simps
  by (simp only: if_distrib [of "\<lambda>m. m = Inr _"] ok_or_simps) (auto split: if_splits)

lemma rename_dirents:
  assumes "tree_ok t" and "tree_rename t sp sn dp dn = Inr t'" and "(sp, sn) \<noteq> (dp, dn)"
  obtains x where "x \<in> set (dirents t)" and "de_parent x = sp" and "de_name x = sn" and "de_name x \<noteq> []"
    and "validate_name dn = Inr ()" and "validate_graph t' = Inr ()" and "is_dir t dp"
    and "de_is_dir x \<Longrightarrow> is_descendant t dp (de_child x) = Some False"
    and "dt_entries t' = bm_insert (dp, dn) (x\<lparr>de_parent := dp, de_name := dn\<rparr>) (bm_remove (sp, sn) (dt_entries t))"
    and "dt_expected_root t' = dt_expected_root t"
    and "set (dirents t') = insert (x\<lparr>de_parent := dp, de_name := dn\<rparr>) (set (dirents t) - {x})"
proof -
  from assms(2) [unfolded tree_rename_Inr [OF assms(3)]] obtain x where
      g: "bm_get (dt_entries t) (sp, sn) = Some x" "de_name x \<noteq> []"
      "validate_name dn = Inr ()" "is_dir t dp" "bm_get (dt_entries t) (dp, dn) = None"
      "de_is_dir x \<longrightarrow> is_descendant t dp (de_child x) = Some False"
    and t': "t' = t\<lparr>dt_entries := bm_insert (dp, dn) (x\<lparr>de_parent := dp, de_name := dn\<rparr>)
      (bm_remove (sp, sn) (dt_entries t))\<rparr>" and v: "validate_graph t' = Inr ()"
    by blast
  have x: "x \<in> set (dirents t)" "de_parent x = sp" "de_name x = sn"
    using g(1) get_entry [OF assms(1)] by auto
  let ?m = "bm_remove (sp, sn) (dt_entries t)" and ?y = "x\<lparr>de_parent := dp, de_name := dn\<rparr>"
  note m = tree_okD(1,2) [OF assms(1)]
  have src: "dkey e = (sp, sn) \<longleftrightarrow> e = x" if "e \<in> set (dirents t)" for e
    using that get_entry [OF assms(1), of sp sn e] g(1) x by auto
  have dst: "dkey e \<noteq> (dp, dn)" if "e \<in> set (dirents t)" for e
    using that get_entry [OF assms(1), of dp dn] g(5) by auto
  have "set (bm_values ?m) = {e \<in> set (dirents t). dkey e \<noteq> (sp, sn)}"
    using bm_values_remove [OF m(2)] by (simp add: dirents_def)
  also have "\<dots> = set (dirents t) - {x}"
    using src by blast
  finally have rem: "set (bm_values ?m) = set (dirents t) - {x}" .
  have "set (bm_values (bm_insert (dkey ?y) ?y ?m)) = insert ?y {e \<in> set (bm_values ?m). dkey e \<noteq> dkey ?y}"
    by (intro bm_values_insert bm_ok_remove bm_keyed_remove m)
  also have "{e \<in> set (bm_values ?m). dkey e \<noteq> dkey ?y} = set (dirents t) - {x}"
    unfolding rem using dst by auto
  finally have "set (dirents t') = insert ?y (set (dirents t) - {x})"
    by (simp add: t' dirents_update)
  then show thesis
    using that [of x] x g(2,3,4,6) v t' by simp
qed

lemma tree_ok_rename:
  assumes "tree_ok t" and "tree_rename t sp sn dp dn = Inr t'"
  shows "tree_ok t'"
proof (cases "(sp, sn) = (dp, dn)")
  case True
  then have "t' = t" using assms(2) by (auto simp: tree_rename_def Let_def)
  with assms(1) show ?thesis by simp
next
  case False
  from rename_dirents [OF assms False] obtain x where
    x: "x \<in> set (dirents t)" "de_parent x = sp" "de_name x = sn" "de_name x \<noteq> []"
    and g: "validate_name dn = Inr ()" "validate_graph t' = Inr ()"
    and e: "dt_entries t' = bm_insert (dp, dn) (x\<lparr>de_parent := dp, de_name := dn\<rparr>) (bm_remove (sp, sn) (dt_entries t))"
    and r: "dt_expected_root t' = dt_expected_root t"
    and ds: "set (dirents t') = insert (x\<lparr>de_parent := dp, de_name := dn\<rparr>) (set (dirents t) - {x})"
    by metis
  let ?y = "x\<lparr>de_parent := dp, de_name := dn\<rparr>"
  note m = tree_okD(1,2) [OF assms(1)]
  have "bm_ok (dt_entries t')" and "bm_keyed dkey (dt_entries t')"
    using bm_keyed_insert [OF bm_keyed_remove [OF m(2), of "(sp, sn)"], of ?y] m(1) by (simp_all add: e)
  moreover have "root_dirent (dt_expected_root t) \<in> set (dirents t')"
    using tree_okD(3) [OF assms(1)] x(4) by (auto simp: ds)
  moreover have "\<forall>z \<in> set (dirents t'). entry_ok (dt_expected_root t) z"
    using tree_okD(4) [OF assms(1)] tree_okD(4) [OF assms(1) x(1)] x(4) g(1)
    by (auto simp: ds entry_ok_def)
  moreover have "inj_on de_child (set (dirents t'))"
    using tree_okD(6) [OF assms(1)] x(1)
    by (auto simp: ds inj_on_def)
  ultimately show ?thesis
    using g(2) unfolding tree_ok_def r validate_graph_Inr by simp
qed

section \<open>Paths and nodes\<close>

text \<open>The canonical path of a node: its names from the root, joined by slashes.\<close>

fun join_slash :: "bytes list \<Rightarrow> bytes" where
  "join_slash [] = []"
| "join_slash [n] = n"
| "join_slash (n # ns) = n @ 47 # join_slash ns"

definition canonical_path :: "Dirent list \<Rightarrow> bytes" where
  "canonical_path es = join_slash (rev (map de_name es))"

lemma join_slash_Cons: "ns \<noteq> [] \<Longrightarrow> join_slash (n # ns) = n @ 47 # join_slash ns"
  by (cases ns) auto

lemma length_join_slash: "length (join_slash ns) = sum_list (map length ns) + (length ns - 1)"
  by (induction ns rule: join_slash.induct) auto

lemma set_join_slash: "set (join_slash ns) \<subseteq> insert 47 (\<Union> (set ` set ns))"
  by (induction ns rule: join_slash.induct) auto

lemma split_slash_plain: "47 \<notin> set n \<Longrightarrow> split_slash n = [n]"
  by (induction n) auto

lemma split_slash_append:
  "47 \<notin> set n \<Longrightarrow> split_slash (n @ 47 # bs) = n # split_slash bs"
  by (induction n) auto

lemma split_join_slash: "ns \<noteq> [] \<Longrightarrow> \<forall>n \<in> set ns. 47 \<notin> set n \<Longrightarrow> split_slash (join_slash ns) = ns"
proof (induction ns rule: join_slash.induct)
  case (3 n m ns)
  then show ?case by (simp add: split_slash_append)
qed (simp_all add: split_slash_plain)

lemma validate_name_Inr:
  "validate_name n = Inr () \<longleftrightarrow> n \<noteq> [] \<and> n \<noteq> [46] \<and> n \<noteq> [46, 46] \<and> length n \<le> 255 \<and>
    47 \<notin> set n \<and> 92 \<notin> set n \<and> 0 \<notin> set n \<and> \<not> has_drive_prefix n"
  by (auto simp: validate_name_def MAX_COMPONENT_BYTES_def)

lemma drive_prefix_join:
  assumes "validate_name n = Inr ()"
  shows "\<not> has_drive_prefix (join_slash (n # ns))"
proof (cases ns)
  case (Cons m ms)
  from assms have "n \<noteq> []" "\<not> has_drive_prefix n" by (auto simp: validate_name_Inr)
  then show ?thesis
    by (cases n rule: list.exhaust; cases "tl n") (auto simp: Cons has_drive_prefix_def nth_append)
qed (use assms in \<open>simp add: validate_name_Inr\<close>)

lemma path_components_join:
  assumes "\<forall>n \<in> set ns. validate_name n = Inr ()" and "length (join_slash ns) \<le> MAX_PATH_BYTES"
  shows "path_components (join_slash ns) = Inr ns"
proof (cases ns)
  case (Cons n ms)
  have n: "n \<noteq> []" "47 \<notin> set n" using assms(1) Cons by (auto simp: validate_name_Inr)
  then obtain b bs where b: "join_slash ns = b # bs" "b \<noteq> 47"
    using Cons by (cases n; cases ms) auto
  have "0 \<notin> set (join_slash ns)" "92 \<notin> set (join_slash ns)"
    using set_join_slash [of ns] assms(1) by (auto simp: validate_name_Inr)
  moreover have "\<not> has_drive_prefix (join_slash ns)"
    using drive_prefix_join assms(1) Cons by simp
  moreover have "split_slash (join_slash ns) = ns"
    using assms(1) Cons by (intro split_join_slash) (auto simp: validate_name_Inr)
  ultimately show ?thesis
    using assms(2) b assms(1) by (auto simp: path_components_def strip_slash_def Let_def fold_ok_unit)
qed (simp add: path_components_def strip_slash_def has_drive_prefix_def MAX_PATH_BYTES_def)

lemma path_components_valid:
  "path_components p = Inr ns \<Longrightarrow> \<forall>n \<in> set ns. validate_name n = Inr ()"
  by (auto simp: path_components_def Let_def fold_ok_unit split: if_splits)

lemma chain_names: "tree_ok t \<Longrightarrow> chain t c es \<Longrightarrow> e \<in> set es \<Longrightarrow> validate_name (de_name e) = Inr ()"
  using chain_entries [of t c es e] tree_okD(4) [of t e]
  by (auto simp: entry_ok_def split: if_splits)

lemma resolve_components_chain:
  assumes "tree_ok t" and "[] \<notin> set ns"
  shows "resolve_components t ns (dt_expected_root t) = Inr c \<longleftrightarrow>
    (\<exists>es. chain t c es \<and> ns = rev (map de_name es))"
  using assms(2)
proof (induction ns arbitrary: c rule: rev_induct)
  case Nil
  then show ?case
    by (auto simp: resolve_components_def chain_Nil_iff)
next
  case (snoc n ns)
  have step: "resolve_components t (ns @ [n]) (dt_expected_root t) = Inr c \<longleftrightarrow>
      (\<exists>q e. resolve_components t ns (dt_expected_root t) = Inr q \<and> e \<in> set (dirents t) \<and>
        de_parent e = q \<and> de_name e = n \<and> de_child e = c)"
    by (auto simp: resolve_components_def fold_ok_append get_entry [OF assms(1)])
  have link: "e \<in> set (dirents t) \<and> de_name e = n \<and> de_child e = c \<longleftrightarrow>
      c \<noteq> dt_expected_root t \<and> entry_of t c = Some e \<and> de_name e = n" for e
  proof -
    have "de_child e \<noteq> dt_expected_root t" if "e \<in> set (dirents t)" "de_name e = n"
      using tree_okD(4) [OF assms(1) that(1)] that(2) snoc.prems by (auto simp: entry_ok_def)
    then show ?thesis
      by (auto simp: entry_of_iff [OF tree_okD(6) [OF assms(1)]])
  qed
  have "resolve_components t (ns @ [n]) (dt_expected_root t) = Inr c \<longleftrightarrow>
      (\<exists>e es. chain t c (e # es) \<and> ns = rev (map de_name es) \<and> de_name e = n)"
    unfolding step using snoc link by (auto simp: chain_Cons_iff)
  also have "\<dots> \<longleftrightarrow> (\<exists>es. chain t c es \<and> ns @ [n] = rev (map de_name es))"
  proof
    assume "\<exists>es. chain t c es \<and> ns @ [n] = rev (map de_name es)"
    then obtain es where "chain t c es" "ns @ [n] = rev (map de_name es)" by blast
    then show "\<exists>e es. chain t c (e # es) \<and> ns = rev (map de_name es) \<and> de_name e = n"
      by (cases es) auto
  qed force
  finally show ?case .
qed

lemma resolve_iff:
  assumes "tree_ok t"
  shows "resolve t p = Inr c \<longleftrightarrow>
    (\<exists>es. chain t c es \<and> path_components p = Inr (rev (map de_name es)))"
proof -
  have "[] \<notin> set ns" if "path_components p = Inr ns" for ns
    using path_components_valid [OF that] by auto
  then show ?thesis
    by (auto simp: resolve_def resolve_components_chain [OF assms])
qed

lemma resolve_canonical:
  assumes "tree_ok t" and "chain t c es" and "path_bytes es \<le> MAX_PATH_BYTES"
  shows "resolve t (canonical_path es) = Inr c"
proof -
  have "length (join_slash (rev (map de_name es))) = path_bytes es"
    by (simp add: length_join_slash path_bytes_def names_len_def comp_def rev_map [symmetric] sum_list_rev)
  then have "path_components (canonical_path es) = Inr (rev (map de_name es))"
    unfolding canonical_path_def using assms chain_names [OF assms(1,2)]
    by (intro path_components_join) auto
  with assms show ?thesis
    by (auto simp: resolve_iff)
qed

section \<open>Every sequence of mutations\<close>

text \<open>The mutations of the tree as one step relation.\<close>

inductive tree_step :: "DirectoryTree \<Rightarrow> DirectoryTree \<Rightarrow> bool" where
  step_link: "tree_link t p n c d = Inr t' \<Longrightarrow> tree_step t t'"
| step_unlink: "tree_unlink t p n = Inr (c, t') \<Longrightarrow> tree_step t t'"
| step_rename: "tree_rename t sp sn dp dn = Inr t' \<Longrightarrow> tree_step t t'"
| step_remove: "tree_remove_id t f = Inr t' \<Longrightarrow> tree_step t t'"
| step_load: "from_dirents r ds = Inr t' \<Longrightarrow> tree_step t t'"

interpretation dir_system: transition_system "\<lambda>t. \<exists>r. t = tree_new r" tree_step tree_ok
  by unfold_locales
    (auto elim!: tree_step.cases intro: tree_ok_link tree_ok_unlink tree_ok_rename tree_ok_remove_id
      simp: from_dirents_iff)

end
