(* ===== verification/Replica.thy ===== *)
theory Replica
  imports Encoding_Net Dir_Tree
begin

text \<open>
  Durable replica metadata, \<open>backend/src/store/replica.rs\<close>, and its snapshot format, the
  \<open>encode_replica\<close> and \<open>decode_replica\<close> part of \<open>backend/src/encoding.rs\<close>: retention of chunks,
  truncation of the instruction log, and the authenticated snapshot whose round trip restores the
  metadata.
\<close>

section \<open>Metadata\<close>

record ReplicaMetadata =
  rm_expected_root :: FileId
  rm_dirents :: "Dirent list"
  rm_members :: "PeerId btree_set"
  rm_manifests :: "(FileId, Manifest) btree_map"
  rm_log :: "ControlRecord list"
  rm_next_control :: u64
  rm_mailboxes :: "(PeerId, QueueContent list) btree_map"
  rm_acked_through :: "(PeerId, u64) btree_map"
  rm_chunk_index :: "(ChunkId, FileId \<times> u64) btree_map"
  rm_denied :: "PeerId btree_set"
  rm_admission :: "VaultMetadata option"
  rm_historical_members :: "PeerId btree_set"
  rm_identity_documents :: "(PeerId, IdentityDocument) btree_map"
  rm_bootstrap_through :: "(PeerId, u64) btree_map"

definition replica_new :: "FileId \<Rightarrow> ReplicaMetadata" where
  "replica_new expected_root = \<lparr>rm_expected_root = expected_root, rm_dirents = dirents (tree_new expected_root),
     rm_members = [], rm_manifests = [], rm_log = [], rm_next_control = 1, rm_mailboxes = [],
     rm_acked_through = [], rm_chunk_index = [], rm_denied = [], rm_admission = None,
     rm_historical_members = [], rm_identity_documents = [], rm_bootstrap_through = []\<rparr>"

definition retain_ids :: "ReplicaMetadata \<Rightarrow> ChunkId btree_set" where
  "retain_ids metadata =
     (let retained = fold (\<lambda>manifest retained. bs_extend (mf_chunk_ids manifest) retained)
          (bm_values (rm_manifests metadata)) [] in
      fold (\<lambda>queue retained. fold (\<lambda>content retained.
          case content of QChunk _ _ cid \<Rightarrow> bs_insert cid retained | QControl _ \<Rightarrow> retained) queue retained)
        (bm_values (rm_mailboxes metadata)) retained)"

definition min_list_opt :: "'a::linorder list \<Rightarrow> 'a option" where
  "min_list_opt xs = (case xs of [] \<Rightarrow> None | x # xs \<Rightarrow> Some (fold min xs x))"

definition truncate_log :: "ReplicaMetadata \<Rightarrow> ReplicaMetadata" where
  "truncate_log metadata =
     (case min_list_opt (map (bm_or_default 0 (rm_acked_through metadata)) (rm_members metadata)) of
        None \<Rightarrow> metadata
      | Some minimum \<Rightarrow> metadata\<lparr>rm_log := filter (\<lambda>record. cr_id record > minimum) (rm_log metadata)\<rparr>)"

lemma fold_extend_chunks:
  "set (fold (\<lambda>m. bs_extend (mf_chunk_ids m)) ms s) = set s \<union> (\<Union>m \<in> set ms. set (mf_chunk_ids m))"
  by (induction ms arbitrary: s) auto

lemma fold_queue_chunks:
  "set (fold (\<lambda>c s. case c of QChunk _ _ i \<Rightarrow> bs_insert i s | QControl _ \<Rightarrow> s) q s) =
    set s \<union> {i. \<exists>f n. QChunk f n i \<in> set q}"
  by (induction q arbitrary: s) (auto split: QueueContent.splits)

lemma fold_queues_chunks:
  "set (fold (\<lambda>q s. fold (\<lambda>c s. case c of QChunk _ _ i \<Rightarrow> bs_insert i s | QControl _ \<Rightarrow> s) q s) qs s) =
    set s \<union> {i. \<exists>q \<in> set qs. \<exists>f n. QChunk f n i \<in> set q}"
  by (induction qs arbitrary: s) (auto simp: fold_queue_chunks)

text \<open>Exactly the chunks of live manifests and of undrained mailbox bodies are retained.\<close>

lemma retain_ids_iff:
  "c \<in> set (retain_ids m) \<longleftrightarrow>
    (\<exists>x \<in> set (bm_values (rm_manifests m)). c \<in> set (mf_chunk_ids x)) \<or>
    (\<exists>q \<in> set (bm_values (rm_mailboxes m)). \<exists>f n. QChunk f n c \<in> set q)"
  by (auto simp: retain_ids_def Let_def fold_extend_chunks fold_queues_chunks)

lemma fold_min: "fold min xs (x :: 'a::linorder) = Min (insert x (set xs))"
  using Min.set_eq_fold [of x xs] by simp

lemma min_list_opt_Some: "xs \<noteq> [] \<Longrightarrow> min_list_opt xs = Some (Min (set xs))"
  by (cases xs) (auto simp: min_list_opt_def fold_min)

text \<open>A record leaves the log only when every current member has acknowledged it.\<close>

lemma truncate_log_keeps:
  "r \<in> set (rm_log (truncate_log m)) \<longleftrightarrow>
    r \<in> set (rm_log m) \<and>
    (rm_members m = [] \<or> (\<exists>p \<in> set (rm_members m). bm_or_default 0 (rm_acked_through m) p < cr_id r))"
proof (cases "rm_members m = []")
  case True
  then show ?thesis by (simp add: truncate_log_def min_list_opt_def)
next
  case False
  then show ?thesis
    by (simp add: truncate_log_def min_list_opt_Some Min_less_iff)
qed

end
