(* ===== verification/Snapshot.thy ===== *)
theory Snapshot
  imports Replica
begin

text \<open>
  The authenticated snapshot of a replica: \<open>encode_replica\<close> and \<open>decode_replica\<close> of
  \<open>backend/src/encoding.rs\<close>. The body is a sequence of canonical collections followed by a
  versioned extension; a SHA-256 digest over header and body closes it. The theorems are the round
  trip, and that nothing is parsed unless the digest matches.
\<close>

section \<open>Records of the body\<close>

definition encode_dirent :: "Dirent \<Rightarrow> bytes result" where
  "encode_dirent entry =
     and_then (push_variable (file_bytes (de_parent entry)) (de_name entry)) (\<lambda>body.
     Inr (body @ file_bytes (de_child entry) @ [bool_byte (de_is_dir entry)]))"

definition rd_dirent :: "Dirent parser" where
  "rd_dirent =
     p_bind rd_file (\<lambda>parent.
     p_bind rd_name (\<lambda>name.
     p_bind rd_file (\<lambda>child.
     p_bind rd_byte (\<lambda>b.
     p_bind (p_lift (flag_of_byte ''invalid dirent directory flag'' b)) (\<lambda>dir.
     p_ret \<lparr>de_parent = parent, de_name = name, de_child = child, de_is_dir = dir\<rparr>)))))"

definition encode_manifest_entry :: "FileId \<times> Manifest \<Rightarrow> bytes result" where
  "encode_manifest_entry entry = (case entry of (file_id, manifest) \<Rightarrow>
     and_then (guard_ok (mf_file_id manifest = file_id) (InvalidInput ''manifest map key does not match file id'')) (\<lambda>_.
     and_then (manifest_m manifest) (\<lambda>m.
     and_then (push_variable [] m) (\<lambda>body.
     push_variable body (mf_signature manifest)))))"

definition rd_manifest :: "Manifest parser" where
  "rd_manifest =
     p_bind rd_variable (\<lambda>message.
     p_bind rd_variable (\<lambda>signature.
     p_lift (decode_manifest_message message signature)))"

definition encode_log_entry :: "ControlRecord \<Rightarrow> bytes result" where
  "encode_log_entry record = and_then (encode_control_record record) (\<lambda>b. push_variable [] b)"

definition rd_record :: "ControlRecord parser" where
  "rd_record = p_bind rd_variable (\<lambda>b. p_lift (decode_control_record b))"

definition encode_queue_content :: "QueueContent \<Rightarrow> bytes result" where
  "encode_queue_content content =
     (case content of
        QControl record \<Rightarrow> and_then (encode_control_record record) (\<lambda>b. push_variable [0] b)
      | QChunk file_id index cid \<Rightarrow> Inr ([1] @ file_bytes file_id @ to_be_bytes index @ chunk_bytes cid))"

definition rd_queue_content :: "QueueContent parser" where
  "rd_queue_content =
     p_bind rd_byte (\<lambda>kind.
     if kind = 0 then p_bind rd_record (\<lambda>record. p_ret (QControl record))
     else if kind = 1 then
       p_bind rd_file (\<lambda>file_id.
       p_bind rd_u64 (\<lambda>index.
       p_bind rd_chunk (\<lambda>cid.
       p_ret (QChunk file_id index cid))))
     else p_lift (Inl (InvalidInput ''unknown durable mailbox content kind'')))"

definition encode_mailbox :: "PeerId \<times> QueueContent list \<Rightarrow> bytes result" where
  "encode_mailbox entry = (case entry of (pid, queue) \<Rightarrow>
     and_then (push_length (peer_bytes pid) (length queue)) (\<lambda>body.
     push_all encode_queue_content queue body))"

definition encode_document :: "PeerId \<times> IdentityDocument \<Rightarrow> bytes result" where
  "encode_document entry = (case entry of (pid, document) \<Rightarrow>
     and_then (guard_ok (id_peer_id document = pid)
       (InvalidInput ''identity document map key does not match peer id'')) (\<lambda>_.
     push_identity (peer_bytes pid) document))"

definition rd_document :: "PeerId \<Rightarrow> IdentityDocument parser" where
  "rd_document pid =
     p_bind rd_identity (\<lambda>document.
     p_bind (p_guard (id_peer_id document = pid)
       (InvalidInput ''identity document map key does not match peer id'')) (\<lambda>_.
     p_ret document))"

definition encode_bootstrap :: "PeerId btree_set \<Rightarrow> u64 \<Rightarrow> PeerId \<times> u64 \<Rightarrow> bytes result" where
  "encode_bootstrap members next_control entry = (case entry of (peer, through) \<Rightarrow>
     and_then (guard_ok (\<not> (peer \<notin> set members \<or> through \<ge> next_control))
       (InvalidInput ''invalid replica bootstrap coverage'')) (\<lambda>_.
     Inr (peer_bytes peer @ to_be_bytes through)))"

section \<open>Writing\<close>

definition encode_replica_extension :: "ReplicaMetadata \<Rightarrow> bytes result" where
  "encode_replica_extension metadata =
     and_then (push_length [2] (length (rm_denied metadata))) (\<lambda>extension.
     let extension = extension @ peers_bytes (rm_denied metadata) in
     and_then (case rm_admission metadata of
         Some admission \<Rightarrow> and_then (encode_vault_metadata admission) (\<lambda>b. push_variable (extension @ [1]) b)
       | None \<Rightarrow> Inr (extension @ [0])) (\<lambda>extension.
     and_then (push_length extension (length (rm_historical_members metadata))) (\<lambda>extension.
     let extension = extension @ peers_bytes (rm_historical_members metadata) in
     and_then (push_length extension (length (rm_identity_documents metadata))) (\<lambda>extension.
     and_then (push_all encode_document (rm_identity_documents metadata) extension) (\<lambda>extension.
     and_then (push_length extension (length (rm_bootstrap_through metadata))) (\<lambda>extension.
     push_all (encode_bootstrap (rm_members metadata) (rm_next_control metadata))
       (rm_bootstrap_through metadata) extension))))))"

definition encode_replica_body :: "ReplicaMetadata \<Rightarrow> bytes result" where
  "encode_replica_body metadata =
     and_then (from_dirents (rm_expected_root metadata) (rm_dirents metadata)) (\<lambda>tree.
     let entries = dirents tree in
     and_then (push_length (file_bytes (rm_expected_root metadata)) (length entries)) (\<lambda>body.
     and_then (push_all encode_dirent entries body) (\<lambda>body.
     and_then (push_length body (length (rm_members metadata))) (\<lambda>body.
     let body = body @ peers_bytes (rm_members metadata) in
     and_then (push_length body (length (rm_manifests metadata))) (\<lambda>body.
     and_then (push_all encode_manifest_entry (rm_manifests metadata) body) (\<lambda>body.
     and_then (push_length body (length (rm_log metadata))) (\<lambda>body.
     and_then (push_ascending cr_id ''instruction log is not strictly ordered'' encode_log_entry
       (rm_log metadata) body) (\<lambda>body.
     let body = body @ to_be_bytes (rm_next_control metadata) in
     and_then (push_length body (length (rm_mailboxes metadata))) (\<lambda>body.
     and_then (push_all encode_mailbox (rm_mailboxes metadata) body) (\<lambda>body.
     and_then (push_length body (length (rm_acked_through metadata))) (\<lambda>body.
     let body = body @ concat (map (\<lambda>(pid, applied). peer_bytes pid @ to_be_bytes applied) (rm_acked_through metadata)) in
     and_then (push_length body (length (rm_chunk_index metadata))) (\<lambda>body.
     let body = body @ concat (map (\<lambda>(cid, file_id, index).
         chunk_bytes cid @ file_bytes file_id @ to_be_bytes index) (rm_chunk_index metadata)) in
     and_then (encode_replica_extension metadata) (\<lambda>extension.
     push_variable body extension)))))))))))))"

definition REPLICA_MAGIC :: bytes where
  "REPLICA_MAGIC = ascii ''qfs/local/replica/''"

definition MAX_REPLICA_BYTES :: nat where
  "MAX_REPLICA_BYTES = 16 * 1024 * 1024"

definition encode_replica :: "(bytes \<Rightarrow> 256 word) \<Rightarrow> ReplicaMetadata \<Rightarrow> u64 \<Rightarrow> bytes result" where
  "encode_replica sha256 metadata generation =
     and_then (encode_replica_body metadata) (\<lambda>body.
     and_then (guard_ok (\<not> length body > MAX_REPLICA_BYTES) (InvalidInput ''replica metadata is too large'')) (\<lambda>_.
     and_then (guard_ok (length body < 2 ^ 32) (InvalidInput ''replica metadata is too large'')) (\<lambda>_.
     let out = REPLICA_MAGIC @ [LOCAL_FORMAT_VERSION] @ to_be_bytes generation @
           to_be_bytes (of_nat (length body) :: u32) @ body;
         out = out @ to_be_bytes (sha256 out) in
     and_then (guard_ok (\<not> length out > MAX_REPLICA_BYTES) (InvalidInput ''replica metadata is too large'')) (\<lambda>_.
     Inr out))))"

section \<open>Reading\<close>

record replica_extension =
  rx_denied :: "PeerId btree_set"
  rx_admission :: "VaultMetadata option"
  rx_historical_members :: "PeerId btree_set"
  rx_identity_documents :: "(PeerId, IdentityDocument) btree_map"
  rx_bootstrap_through :: "(PeerId, u64) btree_map"

abbreviation map_insert :: "'k \<times> 'v \<Rightarrow> ('k::linorder, 'v) btree_map \<Rightarrow> ('k, 'v) btree_map" where
  "map_insert e \<equiv> bm_insert (fst e) (snd e)"

definition rd_admission :: "VaultMetadata option parser" where
  "rd_admission =
     p_bind rd_byte (\<lambda>flag.
     if flag = 0 then p_ret None
     else if flag = 1 then
       p_bind rd_variable (\<lambda>b. p_bind (p_lift (decode_vault_metadata b)) (\<lambda>v. p_ret (Some v)))
     else p_lift (Inl (InvalidInput ''invalid replica admission flag'')))"

definition bootstrap_step ::
  "PeerId btree_set \<Rightarrow> u64 \<Rightarrow> PeerId option \<Rightarrow> (PeerId \<times> PeerId \<times> u64) parser" where
  "bootstrap_step members next_control previous =
     p_bind rd_peer (\<lambda>peer.
     p_bind rd_u64 (\<lambda>through.
     p_bind (p_guard (\<not> (\<not> above previous peer \<or> peer \<notin> set members \<or> through \<ge> next_control))
       (InvalidInput ''invalid replica bootstrap coverage'')) (\<lambda>_.
     p_ret (peer, peer, through))))"

definition decode_replica_extension ::
  "PeerId btree_set \<Rightarrow> u64 \<Rightarrow> bytes \<Rightarrow> replica_extension result" where
  "decode_replica_extension members next_control bs = run_parser (
     p_bind rd_byte (\<lambda>version.
     p_bind (p_guard (version = 1 \<or> version = 2) (InvalidInput ''unsupported replica extension version'')) (\<lambda>_.
     p_bind (rd_count 32) (\<lambda>denied_count.
     p_bind (rd_denylist ''replica denylist is not canonical'' denied_count) (\<lambda>denied.
     p_bind rd_admission (\<lambda>admission.
     p_bind (rd_count 32) (\<lambda>historical_count.
     p_bind (rd_denylist ''historical members are not canonical'' historical_count) (\<lambda>historical_members.
     p_bind (rd_count 36) (\<lambda>document_count.
     p_bind (rd_ascending document_count (keyed ''identity documents are not canonical'' rd_peer rd_document)
       map_insert []) (\<lambda>identity_documents.
     p_bind (if version \<ge> 2 then
         p_bind (rd_count 40) (\<lambda>count.
         rd_ascending count (bootstrap_step members next_control) map_insert [])
       else p_ret []) (\<lambda>bootstrap_through.
     p_bind rd_finish (\<lambda>_.
     p_ret \<lparr>rx_denied = denied, rx_admission = admission, rx_historical_members = historical_members,
            rx_identity_documents = identity_documents, rx_bootstrap_through = bootstrap_through\<rparr>)))))))))))) bs"

definition decode_replica_body :: "FileId \<Rightarrow> bytes \<Rightarrow> ReplicaMetadata result" where
  "decode_replica_body expected_root bs = run_parser (
     p_bind rd_file (\<lambda>stored_root.
     p_bind (p_guard (stored_root = expected_root) (State ''replica belongs to a different vault root'')) (\<lambda>_.
     p_bind (rd_count 69) (\<lambda>dirent_count.
     p_bind (rd_many dirent_count rd_dirent) (\<lambda>ds.
     p_bind (p_lift (from_dirents expected_root ds)) (\<lambda>tree.
     p_bind (rd_count 32) (\<lambda>member_count.
     p_bind (rd_denylist ''replica members are not canonical'' member_count) (\<lambda>members.
     p_bind (rd_count 8) (\<lambda>manifest_count.
     p_bind (rd_ascending manifest_count (checked mf_file_id ''replica manifests are not canonical'' rd_manifest)
       (\<lambda>manifest. bm_insert (mf_file_id manifest) manifest) []) (\<lambda>manifests.
     p_bind (rd_count 4) (\<lambda>log_count.
     p_bind (rd_ascending log_count (checked cr_id ''instruction log is not strictly ordered'' rd_record)
       (\<lambda>record records. records @ [record]) []) (\<lambda>records.
     p_bind rd_u64 (\<lambda>next_control.
     p_bind (rd_count 36) (\<lambda>mailbox_count.
     p_bind (rd_ascending mailbox_count (keyed ''replica mailboxes are not canonical'' rd_peer
       (\<lambda>_. p_bind (rd_count 1) (\<lambda>n. rd_many n rd_queue_content))) map_insert []) (\<lambda>mailboxes.
     p_bind (rd_count 40) (\<lambda>ack_count.
     p_bind (rd_ascending ack_count (keyed ''replica acknowledgements are not canonical'' rd_peer (\<lambda>_. rd_u64))
       map_insert []) (\<lambda>acked_through.
     p_bind (rd_count 72) (\<lambda>chunk_count.
     p_bind (rd_ascending chunk_count (keyed ''replica chunk index is not canonical'' rd_chunk
       (\<lambda>_. p_bind rd_file (\<lambda>f. p_bind rd_u64 (\<lambda>i. p_ret (f, i))))) map_insert []) (\<lambda>chunk_index.
     p_bind p_remaining (\<lambda>rest.
     p_bind (if rest \<noteq> 0 then
         p_bind rd_variable (\<lambda>b. p_lift (decode_replica_extension members next_control b))
       else p_ret \<lparr>rx_denied = [], rx_admission = None, rx_historical_members = members,
                   rx_identity_documents = [], rx_bootstrap_through = []\<rparr>) (\<lambda>ext.
     p_bind rd_finish (\<lambda>_.
     p_ret \<lparr>rm_expected_root = expected_root, rm_dirents = dirents tree, rm_members = members,
            rm_manifests = manifests, rm_log = records, rm_next_control = next_control,
            rm_mailboxes = mailboxes, rm_acked_through = acked_through, rm_chunk_index = chunk_index,
            rm_denied = rx_denied ext, rm_admission = rx_admission ext,
            rm_historical_members = rx_historical_members ext,
            rm_identity_documents = rx_identity_documents ext,
            rm_bootstrap_through = rx_bootstrap_through ext\<rparr>)))))))))))))))))))))) bs"

definition HASH_LEN :: nat where
  "HASH_LEN = 32"

definition replica_header_len :: nat where
  "replica_header_len = length REPLICA_MAGIC + 1 + 8 + 4"

definition decode_replica :: "(bytes \<Rightarrow> 256 word) \<Rightarrow> bytes \<Rightarrow> FileId \<Rightarrow> (u64 \<times> ReplicaMetadata) result" where
  "decode_replica sha256 bs expected_root =
     and_then (guard_ok (\<not> (length bs > MAX_REPLICA_BYTES \<or> length bs < replica_header_len + HASH_LEN))
       (InvalidInput ''invalid replica metadata length'')) (\<lambda>_.
     and_then (guard_ok (take (length REPLICA_MAGIC) bs = REPLICA_MAGIC)
       (InvalidInput ''invalid replica metadata magic'')) (\<lambda>_.
     and_then (guard_ok (bs ! length REPLICA_MAGIC = LOCAL_FORMAT_VERSION)
       (InvalidInput ''unsupported replica metadata version'')) (\<lambda>_.
     let generation_start = length REPLICA_MAGIC + 1;
         generation = from_be_bytes (slice bs generation_start (generation_start + 8));
         body_len_start = generation_start + 8;
         body_len = unat (from_be_bytes (slice bs body_len_start (body_len_start + 4)) :: u32) in
     and_then (ok_or (usize_add replica_header_len body_len) (InvalidInput ''replica metadata length overflow'')) (\<lambda>body_end.
     and_then (ok_or (usize_add body_end HASH_LEN) (InvalidInput ''replica metadata length overflow'')) (\<lambda>expected_len.
     and_then (guard_ok (expected_len = length bs) (InvalidInput ''replica metadata length mismatch'')) (\<lambda>_.
     and_then (guard_ok (to_be_bytes (sha256 (take body_end bs)) = drop body_end bs) AuthenticationFailed) (\<lambda>_.
     and_then (decode_replica_body expected_root (slice bs replica_header_len body_end)) (\<lambda>metadata.
     Inr (generation, metadata)))))))))"

section \<open>The records as codecs\<close>

definition dirent_bytes :: "Dirent \<Rightarrow> bytes" where
  "dirent_bytes e = file_bytes (de_parent e) @ var_bytes (de_name e) @ file_bytes (de_child e) @ [bool_byte (de_is_dir e)]"

definition dirent_valid :: "Dirent \<Rightarrow> bool" where
  "dirent_valid e \<longleftrightarrow> short (de_name e) \<and> utf8_ok (de_name e)"

lemma encode_dirent_Inr: "encode_dirent e = Inr b \<longleftrightarrow> short (de_name e) \<and> b = dirent_bytes e"
  by (auto simp: encode_dirent_def dirent_bytes_def)

interpretation c_dirent: codec rd_dirent dirent_bytes dirent_valid 69
proof
  fix e :: Dirent and post :: bytes
  assume "dirent_valid e"
  then show "reads rd_dirent e (dirent_bytes e) post"
    by (auto simp: rd_dirent_def dirent_bytes_def dirent_valid_def bool_byte_def
        intro!: reads_bind [OF reads_file] reads_bind [OF reads_name] reads_bind_last [OF reads_byte]
          reads_bind_nil [OF reads_lift] reads_ret')
next
  fix pre rest r' and e :: Dirent
  assume "rd_dirent (at pre rest) = Inr (e, r')"
  then show "dirent_valid e \<and> (\<exists>post. rest = dirent_bytes e @ post \<and> r' = at (pre @ dirent_bytes e) post)"
    by (auto simp: rd_dirent_def dirent_bytes_def dirent_valid_def bool_byte_def elim!: wire_elim)
qed (simp_all add: dirent_bytes_def)

definition manifest_wire :: "Manifest \<Rightarrow> bytes" where
  "manifest_wire m = var_bytes (manifest_bytes m) @ var_bytes (mf_signature m)"

abbreviation manifest_valid :: "Manifest \<Rightarrow> bool" where
  "manifest_valid m \<equiv> update_ok (NewManifest m)"

interpretation c_manifest: codec rd_manifest manifest_wire manifest_valid 8
proof
  fix m :: Manifest and post :: bytes
  assume "manifest_valid m"
  then show "reads rd_manifest m (manifest_wire m) post"
    by (auto simp: rd_manifest_def manifest_wire_def decode_manifest_message_Inr short_usize
        intro!: reads_bind [OF reads_variable] reads_bind_last [OF reads_variable] reads_lift)
next
  fix pre rest r' and m :: Manifest
  assume "rd_manifest (at pre rest) = Inr (m, r')"
  then show "manifest_valid m \<and> (\<exists>post. rest = manifest_wire m @ post \<and> r' = at (pre @ manifest_wire m) post)"
    by (auto simp: rd_manifest_def manifest_wire_def decode_manifest_message_Inr short_usize elim!: wire_elim)
qed (simp_all add: manifest_wire_def)

lemma encode_manifest_entry_Inr:
  "encode_manifest_entry e = Inr b \<longleftrightarrow> (mf_file_id (snd e) = fst e \<and> manifest_valid (snd e)) \<and> b = manifest_wire (snd e)"
  by (auto simp: encode_manifest_entry_def manifest_wire_def split: prod.splits)

definition record_bytes :: "ControlRecord \<Rightarrow> bytes" where
  "record_bytes r = to_be_bytes (cr_id r) @ update_bytes (cr_update r)"

definition record_valid :: "ControlRecord \<Rightarrow> bool" where
  "record_valid r \<longleftrightarrow> update_ok (cr_update r) \<and> update_utf8 (cr_update r) \<and> short (record_bytes r)"

lemma decode_record_short:
  "short b \<Longrightarrow> decode_control_record b = Inr r \<longleftrightarrow> record_valid r \<and> b = record_bytes r"
  by (auto simp: decode_control_record_iff short_usize encode_control_record_Inr record_valid_def record_bytes_def)

interpretation c_record: codec rd_record "\<lambda>r. var_bytes (record_bytes r)" record_valid 4
proof
  fix r :: ControlRecord and post :: bytes
  assume "record_valid r"
  then show "reads rd_record r (var_bytes (record_bytes r)) post"
    unfolding rd_record_def
    by (intro reads_bind_last [OF reads_variable] reads_lift) (simp_all add: decode_record_short record_valid_def)
next
  fix pre rest r' and r :: ControlRecord
  assume "rd_record (at pre rest) = Inr (r, r')"
  then show "record_valid r \<and>
      (\<exists>post. rest = var_bytes (record_bytes r) @ post \<and> r' = at (pre @ var_bytes (record_bytes r)) post)"
    by (auto simp: rd_record_def decode_record_short elim!: wire_elim)
qed simp_all

lemma encode_log_entry_Inr:
  "encode_log_entry r = Inr b \<longleftrightarrow> (update_ok (cr_update r) \<and> short (record_bytes r)) \<and> b = var_bytes (record_bytes r)"
  by (auto simp: encode_log_entry_def encode_control_record_Inr record_bytes_def)

fun content_bytes :: "QueueContent \<Rightarrow> bytes" where
  "content_bytes (QControl r) = 0 # var_bytes (record_bytes r)"
| "content_bytes (QChunk f i c) = 1 # file_bytes f @ to_be_bytes i @ chunk_bytes c"

fun content_valid :: "QueueContent \<Rightarrow> bool" where
  "content_valid (QControl r) = record_valid r"
| "content_valid (QChunk f i c) = True"

interpretation c_content: codec rd_queue_content content_bytes content_valid 5
proof
  fix c :: QueueContent and post :: bytes
  assume "content_valid c"
  then show "reads rd_queue_content c (content_bytes c) post"
    unfolding rd_queue_content_def
    by (cases c) (auto intro!: reads_byte_bind reads_bind_last [OF c_record.dec_enc] reads_bind [OF reads_file]
        reads_bind [OF reads_u64] reads_bind_last [OF reads_chunk] reads_ret')
next
  fix pre rest r' and c :: QueueContent
  assume "rd_queue_content (at pre rest) = Inr (c, r')"
  then show "content_valid c \<and> (\<exists>post. rest = content_bytes c @ post \<and> r' = at (pre @ content_bytes c) post)"
    by (auto simp: rd_queue_content_def elim!: wire_elim dest!: c_record.enc_dec split: if_splits)
next
  show "content_valid c \<Longrightarrow> 5 \<le> length (content_bytes c)" for c
    by (cases c) simp_all
qed simp

definition content_writable :: "QueueContent \<Rightarrow> bool" where
  "content_writable c = (case c of QControl r \<Rightarrow> update_ok (cr_update r) \<and> short (record_bytes r) | QChunk _ _ _ \<Rightarrow> True)"

lemma encode_queue_content_Inr:
  "encode_queue_content c = Inr b \<longleftrightarrow> content_writable c \<and> b = content_bytes c"
  by (cases c) (auto simp: encode_queue_content_def content_writable_def encode_control_record_Inr record_bytes_def)

lemma encode_mailbox_Inr:
  "encode_mailbox e = Inr b \<longleftrightarrow> (short (snd e) \<and> (\<forall>c \<in> set (snd e). content_writable c)) \<and>
     b = peer_bytes (fst e) @ c_content.counted (snd e)"
  by (cases e) (auto simp: encode_mailbox_def push_all_Inr [OF encode_queue_content_Inr] c_content.counted_def short_def)

lemma encode_document_Inr:
  "encode_document e = Inr b \<longleftrightarrow> (id_peer_id (snd e) = fst e \<and> identity_valid (snd e)) \<and>
     b = peer_bytes (fst e) @ var_bytes (identity_wire (snd e))"
  by (cases e) (auto simp: encode_document_def)

lemma codec_document:
  "codec (rd_document p) (\<lambda>d. var_bytes (identity_wire d)) (\<lambda>d. id_peer_id d = p \<and> identity_valid d) 56"
proof
  fix d post
  assume "id_peer_id d = p \<and> identity_valid d"
  then show "reads (rd_document p) d (var_bytes (identity_wire d)) post"
    unfolding rd_document_def
    by (intro reads_bind_last [OF c_identity.dec_enc] reads_bind_nil [OF reads_guard] reads_ret) auto
next
  fix pre rest d r'
  assume "rd_document p (at pre rest) = Inr (d, r')"
  then show "(id_peer_id d = p \<and> identity_valid d) \<and>
      (\<exists>post. rest = var_bytes (identity_wire d) @ post \<and> r' = at (pre @ var_bytes (identity_wire d)) post)"
    by (auto simp: rd_document_def dest!: c_identity.enc_dec)
qed (simp_all add: identity_wire_def identity_bytes_def)

lemmas codec_queue = c_content.codec_counted [of 1, simplified]

interpretation a_manifests: ascending "checked mf_file_id msg rd_manifest" mf_file_id manifest_wire manifest_valid 8 for msg
  by (rule c_manifest.ascending_checked)

interpretation a_log: ascending "checked cr_id msg rd_record" cr_id "\<lambda>r. var_bytes (record_bytes r)" record_valid 4 for msg
  by (rule c_record.ascending_checked)

interpretation a_mailboxes: ascending "keyed msg rd_peer (\<lambda>_. p_bind (rd_count (Suc 0)) (\<lambda>n. rd_many n rd_queue_content))"
    fst "\<lambda>e. peer_bytes (fst e) @ c_content.counted (snd e)"
    "\<lambda>e. short (snd e) \<and> (\<forall>x \<in> set (snd e). content_valid x)" "32 + 4" for msg
  by (rule ascending_keyed [OF c_peer.codec_axioms codec_queue])

interpretation a_acks: ascending "keyed msg rd_peer (\<lambda>_. rd_u64)" fst
    "\<lambda>e. peer_bytes (fst e) @ to_be_bytes (snd e)" "\<lambda>e. True" "32 + 8" for msg
  by (rule ascending_keyed [OF c_peer.codec_axioms c_u64.codec_axioms])

interpretation a_chunks: ascending "keyed msg rd_chunk (\<lambda>_. p_bind rd_file (\<lambda>f. p_bind rd_u64 (\<lambda>i. p_ret (f, i))))" fst
    "\<lambda>e. chunk_bytes (fst e) @ file_bytes (fst (snd e)) @ to_be_bytes (snd (snd e))" "\<lambda>e. True \<and> True" "32 + (32 + 8)" for msg
  by (rule ascending_keyed [OF c_chunk.codec_axioms codec_pair [OF c_file.codec_axioms c_u64.codec_axioms]])

interpretation a_documents: ascending "keyed msg rd_peer rd_document" fst
    "\<lambda>e. peer_bytes (fst e) @ var_bytes (identity_wire (snd e))"
    "\<lambda>e. id_peer_id (snd e) = fst e \<and> identity_valid (snd e)" "32 + 56" for msg
  by (rule ascending_keyed [OF c_peer.codec_axioms codec_document])

interpretation a_bootstrap: ascending "bootstrap_step ms n" fst
    "\<lambda>e. peer_bytes (fst e) @ to_be_bytes (snd e)" "\<lambda>e. fst e \<in> set ms \<and> snd e < n" 40 for ms n
proof
  fix e :: "PeerId \<times> u64" and previous :: "PeerId option" and post :: bytes
  assume "fst e \<in> set ms \<and> snd e < n" "above previous (fst e)"
  then show "reads (bootstrap_step ms n previous) (fst e, e) (peer_bytes (fst e) @ to_be_bytes (snd e)) post"
    unfolding bootstrap_step_def
    by (intro reads_bind [OF reads_peer] reads_bind_last [OF reads_u64] reads_bind_nil [OF reads_guard] reads_ret') auto
next
  fix previous pre rest k e r'
  assume "bootstrap_step ms n previous (at pre rest) = Inr ((k, e), r')"
  then show "k = fst e \<and> (fst e \<in> set ms \<and> snd e < n) \<and> above previous (fst e) \<and>
      (\<exists>post. rest = (peer_bytes (fst e) @ to_be_bytes (snd e)) @ post \<and>
        r' = at (pre @ peer_bytes (fst e) @ to_be_bytes (snd e)) post)"
    by (auto simp: bootstrap_step_def not_le elim!: wire_elim)
qed simp

section \<open>Round trip\<close>

text \<open>
  What the Rust types guarantee of a metadata value: ordered collections, UTF-8 names, and, inside
  the admission record, distinct members.
\<close>

definition replica_wf :: "ReplicaMetadata \<Rightarrow> bool" where
  "replica_wf m \<longleftrightarrow>
     bs_ok (rm_members m) \<and> bm_ok (rm_manifests m) \<and> bm_ok (rm_mailboxes m) \<and> bm_ok (rm_acked_through m) \<and>
     bm_ok (rm_chunk_index m) \<and> bs_ok (rm_denied m) \<and> bs_ok (rm_historical_members m) \<and>
     bm_ok (rm_identity_documents m) \<and> bm_ok (rm_bootstrap_through m) \<and>
     (\<forall>e \<in> set (rm_dirents m). utf8_ok (de_name e)) \<and>
     (\<forall>r \<in> set (rm_log m). update_utf8 (cr_update r)) \<and>
     (\<forall>q \<in> set (bm_values (rm_mailboxes m)). \<forall>r. QControl r \<in> set q \<longrightarrow> update_utf8 (cr_update r)) \<and>
     (case rm_admission m of None \<Rightarrow> True | Some a \<Rightarrow> vault_metadata_wf a)"

definition admission_ok :: "VaultMetadata option \<Rightarrow> bool" where
  "admission_ok a = (case a of None \<Rightarrow> True | Some v \<Rightarrow> vault_metadata_ok v \<and> short (vault_metadata_bytes v))"

definition admission_wire :: "VaultMetadata option \<Rightarrow> bytes" where
  "admission_wire a = (case a of None \<Rightarrow> [0] | Some v \<Rightarrow> 1 # var_bytes (vault_metadata_bytes v))"

abbreviation documents_bytes :: "(PeerId, IdentityDocument) btree_map \<Rightarrow> bytes" where
  "documents_bytes ds \<equiv> concat (map (\<lambda>e. peer_bytes (fst e) @ var_bytes (identity_wire (snd e))) ds)"

abbreviation marks_bytes :: "(PeerId, u64) btree_map \<Rightarrow> bytes" where
  "marks_bytes ms \<equiv> concat (map (\<lambda>e. peer_bytes (fst e) @ to_be_bytes (snd e)) ms)"

abbreviation chunk_index_bytes :: "(ChunkId, FileId \<times> u64) btree_map \<Rightarrow> bytes" where
  "chunk_index_bytes ms \<equiv> concat (map (\<lambda>e. chunk_bytes (fst e) @ file_bytes (fst (snd e)) @ to_be_bytes (snd (snd e))) ms)"

definition extension_bytes :: "ReplicaMetadata \<Rightarrow> bytes" where
  "extension_bytes m = 2 # len_bytes (length (rm_denied m)) @ peers_bytes (rm_denied m) @
     admission_wire (rm_admission m) @
     len_bytes (length (rm_historical_members m)) @ peers_bytes (rm_historical_members m) @
     len_bytes (length (rm_identity_documents m)) @ documents_bytes (rm_identity_documents m) @
     len_bytes (length (rm_bootstrap_through m)) @ marks_bytes (rm_bootstrap_through m)"

definition extension_ok :: "ReplicaMetadata \<Rightarrow> bool" where
  "extension_ok m \<longleftrightarrow>
     short (rm_denied m) \<and> admission_ok (rm_admission m) \<and> short (rm_historical_members m) \<and>
     short (rm_identity_documents m) \<and>
     (\<forall>e \<in> set (rm_identity_documents m). id_peer_id (snd e) = fst e \<and> identity_valid (snd e)) \<and>
     short (rm_bootstrap_through m) \<and>
     (\<forall>e \<in> set (rm_bootstrap_through m). fst e \<in> set (rm_members m) \<and> snd e < rm_next_control m)"

lemma encode_bootstrap_Inr:
  "encode_bootstrap ms n e = Inr b \<longleftrightarrow> (fst e \<in> set ms \<and> snd e < n) \<and> b = peer_bytes (fst e) @ to_be_bytes (snd e)"
  by (cases e) (auto simp: encode_bootstrap_def)

lemma encode_replica_extension_Inr:
  "encode_replica_extension m = Inr b \<longleftrightarrow> extension_ok m \<and> b = extension_bytes m"
  by (cases "rm_admission m")
    (auto simp: encode_replica_extension_def Let_def push_all_Inr [OF encode_document_Inr] push_all_Inr [OF encode_bootstrap_Inr]
      extension_ok_def extension_bytes_def admission_ok_def admission_wire_def encode_vault_metadata_Inr short_def)

lemma reads_admission:
  assumes "admission_ok a" and "case a of None \<Rightarrow> True | Some v \<Rightarrow> vault_metadata_wf v"
  shows "reads rd_admission a (admission_wire a) post"
proof (cases a)
  case (Some v)
  then have "decode_vault_metadata (vault_metadata_bytes v) = Inr v"
    using assms by (intro vault_metadata_roundtrip)
      (auto simp: encode_vault_metadata_Inr admission_ok_def short_usize)
  with assms Some show ?thesis
    by (auto simp: rd_admission_def admission_ok_def admission_wire_def
        intro!: reads_byte_bind reads_bind_last [OF reads_variable] reads_bind_nil [OF reads_lift] reads_ret')
qed (auto simp: rd_admission_def admission_wire_def intro!: reads_byte_bind reads_ret')

lemma reads_map:
  assumes "ascending step fst enc valid lo" and "bm_ok m" and "\<forall>e \<in> set m. valid e" and "n = length m"
  shows "reads (rd_ascending n step map_insert []) m (concat (map enc m)) post"
  using ascending.reads_ascending [OF assms(1,3), of n map_insert "[]" post] assms(2,4)
  by (simp add: bm_ok_def fold_map_insert)

lemma reads_count_of:
  assumes "ascending step key enc valid lo" and "short xs" and "\<forall>x \<in> set xs. valid x" and "0 < m" and "m \<le> lo"
    and "n = length xs"
  shows "reads (rd_count m) n (len_bytes n) (concat (map enc xs) @ post)"
proof (rule reads_count)
  have "length xs * m \<le> length xs * lo" using assms(5) by simp
  also have "\<dots> \<le> length (concat (map enc xs))"
    by (rule ascending.seq_size [OF assms(1,3)])
  finally show "n * m \<le> length (concat (map enc xs) @ post)"
    using assms(6) by simp
qed (use assms in \<open>simp_all add: short_def\<close>)

lemma reads_counted_map:
  assumes "ascending step fst enc valid lo" and "short m" and "\<forall>x \<in> set m. valid x" and "0 < k" and "k \<le> lo"
    and "bm_ok m"
  shows "reads (p_bind (rd_count k) (\<lambda>n. rd_ascending n step map_insert [])) m
    (len_bytes (length m) @ concat (map enc m)) post"
  using assms by (intro reads_bind [OF reads_count_of] reads_map) auto

definition extension_of :: "ReplicaMetadata \<Rightarrow> replica_extension" where
  "extension_of m = \<lparr>rx_denied = rm_denied m, rx_admission = rm_admission m,
     rx_historical_members = rm_historical_members m, rx_identity_documents = rm_identity_documents m,
     rx_bootstrap_through = rm_bootstrap_through m\<rparr>"

lemma decode_replica_extension_bytes:
  assumes "extension_ok m" and "replica_wf m" and "length (extension_bytes m) \<le> usize_max"
  shows "decode_replica_extension (rm_members m) (rm_next_control m) (extension_bytes m) = Inr (extension_of m)"
proof -
  have ok: "short (rm_denied m)" "admission_ok (rm_admission m)" "short (rm_historical_members m)"
     "short (rm_identity_documents m)" "short (rm_bootstrap_through m)"
     and docs: "\<forall>e \<in> set (rm_identity_documents m). id_peer_id (snd e) = fst e \<and> identity_valid (snd e)"
     and boot: "\<forall>e \<in> set (rm_bootstrap_through m). fst e \<in> set (rm_members m) \<and> snd e < rm_next_control m"
    using assms(1) by (auto simp: extension_ok_def)
  have wf: "bs_ok (rm_denied m)" "bs_ok (rm_historical_members m)" "bm_ok (rm_identity_documents m)"
     "bm_ok (rm_bootstrap_through m)" "case rm_admission m of None \<Rightarrow> True | Some v \<Rightarrow> vault_metadata_wf v"
    using assms(2) by (auto simp: replica_wf_def)
  have n: "length (rm_denied m) < 4294967296" "length (rm_historical_members m) < 4294967296"
      "length (rm_identity_documents m) < 4294967296"
    using ok by (simp_all add: short_def)
  have size: "length (rm_identity_documents m) * 36 \<le> length (documents_bytes (rm_identity_documents m))"
    using a_documents.seq_size [OF docs] by simp
  show ?thesis
    unfolding decode_replica_extension_def
    by (rule run_parser_reads [OF _ assms(3)], unfold extension_bytes_def)
      (auto simp: extension_of_def ok n wf trans_le_add1 [OF size]
        intro!: reads_byte_bind reads_bind_nil [OF reads_guard] reads_bind [OF reads_count]
          reads_bind [OF reads_denylist] reads_bind [OF reads_admission]
          reads_bind [OF reads_map [OF a_documents.ascending_axioms wf(3) docs]]
          reads_bind_last [OF reads_counted_map [OF a_bootstrap.ascending_axioms ok(5) boot _ _ wf(4)]]
          reads_bind_last [OF reads_finish] reads_ret')
qed

text \<open>The body: \<open>ds\<close> is the canonical listing of the directory tree.\<close>

definition body_bytes :: "Dirent list \<Rightarrow> ReplicaMetadata \<Rightarrow> bytes" where
  "body_bytes ds m = file_bytes (rm_expected_root m) @
     len_bytes (length ds) @ concat (map dirent_bytes ds) @
     len_bytes (length (rm_members m)) @ peers_bytes (rm_members m) @
     len_bytes (length (rm_manifests m)) @ concat (map (\<lambda>e. manifest_wire (snd e)) (rm_manifests m)) @
     len_bytes (length (rm_log m)) @ concat (map (\<lambda>r. var_bytes (record_bytes r)) (rm_log m)) @
     to_be_bytes (rm_next_control m) @
     len_bytes (length (rm_mailboxes m)) @
       concat (map (\<lambda>e. peer_bytes (fst e) @ c_content.counted (snd e)) (rm_mailboxes m)) @
     len_bytes (length (rm_acked_through m)) @ marks_bytes (rm_acked_through m) @
     len_bytes (length (rm_chunk_index m)) @ chunk_index_bytes (rm_chunk_index m) @
     var_bytes (extension_bytes m)"

definition body_ok :: "Dirent list \<Rightarrow> ReplicaMetadata \<Rightarrow> bool" where
  "body_ok ds m \<longleftrightarrow>
     short ds \<and> (\<forall>e \<in> set ds. short (de_name e)) \<and> short (rm_members m) \<and>
     short (rm_manifests m) \<and> (\<forall>e \<in> set (rm_manifests m). mf_file_id (snd e) = fst e \<and> manifest_valid (snd e)) \<and>
     short (rm_log m) \<and> (\<forall>r \<in> set (rm_log m). update_ok (cr_update r) \<and> short (record_bytes r)) \<and>
     sorted_wrt (<) (map cr_id (rm_log m)) \<and>
     short (rm_mailboxes m) \<and>
     (\<forall>e \<in> set (rm_mailboxes m). short (snd e) \<and> (\<forall>c \<in> set (snd e). content_writable c)) \<and>
     short (rm_acked_through m) \<and> short (rm_chunk_index m) \<and>
     extension_ok m \<and> short (extension_bytes m)"

lemma map_ok_log_entry:
  "map_ok encode_log_entry rs = Inr bs \<longleftrightarrow>
    (\<forall>r \<in> set rs. update_ok (cr_update r) \<and> short (record_bytes r)) \<and> bs = map (\<lambda>r. var_bytes (record_bytes r)) rs"
  by (induction rs arbitrary: bs) (auto simp: encode_log_entry_Inr)

lemma marks_bytes_case: "concat (map (\<lambda>(p, n). peer_bytes p @ to_be_bytes n) ms) = marks_bytes ms"
  by (simp add: case_prod_unfold)

lemma chunk_index_bytes_case:
  "concat (map (\<lambda>(c, f, i). chunk_bytes c @ file_bytes f @ to_be_bytes i) ms) = chunk_index_bytes ms"
  by (simp add: case_prod_unfold)

lemma encode_replica_body_Inr:
  "encode_replica_body m = Inr b \<longleftrightarrow>
    (\<exists>t. from_dirents (rm_expected_root m) (rm_dirents m) = Inr t \<and> body_ok (dirents t) m \<and> b = body_bytes (dirents t) m)"
proof -
  have "encode_replica_body m = Inr b \<longleftrightarrow>
    (\<exists>t. from_dirents (rm_expected_root m) (rm_dirents m) = Inr t \<and>
      (body_ok (dirents t) m \<and> b = body_bytes (dirents t) m))"
    unfolding encode_replica_body_def Let_def and_then_Inr_iff push_length_Inr push_ascending_Inr
      push_all_Inr [OF encode_dirent_Inr] push_all_Inr [OF encode_manifest_entry_Inr]
      push_all_Inr [OF encode_mailbox_Inr] encode_replica_extension_Inr push_variable_Inr map_ok_log_entry
      marks_bytes_case chunk_index_bytes_case
    by (intro arg_cong [where f = Ex] ext conj_cong refl)
      (simp add: body_ok_def body_bytes_def short_def comp_def, blast)
  then show ?thesis by simp
qed

lemma replica_wf_records:
  assumes "replica_wf m" and "body_ok ds m"
  shows "\<forall>r \<in> set (rm_log m). record_valid r"
    and "\<forall>e \<in> set (rm_mailboxes m). short (snd e) \<and> (\<forall>c \<in> set (snd e). content_valid c)"
proof -
  show "\<forall>r \<in> set (rm_log m). record_valid r"
    using assms by (auto simp: replica_wf_def body_ok_def record_valid_def)
  have "content_valid c" if "e \<in> set (rm_mailboxes m)" "c \<in> set (snd e)" for e c
  proof (cases c)
    case (QControl r)
    have "update_utf8 (cr_update r)"
      using assms(1) that QControl by (fastforce simp: replica_wf_def)
    moreover have "update_ok (cr_update r) \<and> short (record_bytes r)"
      using assms(2) that QControl by (fastforce simp: body_ok_def content_writable_def)
    ultimately show ?thesis
      by (simp add: QControl record_valid_def)
  qed simp
  then show "\<forall>e \<in> set (rm_mailboxes m). short (snd e) \<and> (\<forall>c \<in> set (snd e). content_valid c)"
    using assms(2) by (auto simp: body_ok_def)
qed

lemma reads_manifests:
  assumes "bm_ok ms" and "\<forall>e \<in> set ms. mf_file_id (snd e) = fst e \<and> manifest_valid (snd e)" and "n = length ms"
  shows "reads (rd_ascending n (checked mf_file_id msg rd_manifest) (\<lambda>m. bm_insert (mf_file_id m) m) []) ms
    (concat (map (\<lambda>e. manifest_wire (snd e)) ms)) post"
proof -
  have keys: "map (\<lambda>x. (mf_file_id (snd x), snd x)) ms = ms"
    using assms(2) by (induction ms) auto
  have "map mf_file_id (bm_values ms) = map fst ms"
    using assms(2) by (induction ms) auto
  then have sorted: "sorted_wrt (<) (map mf_file_id (bm_values ms))"
    using assms(1) unfolding bm_ok_def by (simp only:)
  have "\<forall>x \<in> set (bm_values ms). manifest_valid x" and "n = length (bm_values ms)"
    using assms(2,3) by auto
  from a_manifests.reads_ascending [OF this(1) sorted this(2), of msg "\<lambda>m. bm_insert (mf_file_id m) m" "[]" post]
  show ?thesis
    unfolding bm_fold_insert [OF sorted] map_map comp_def keys .
qed

lemma reads_log:
  assumes "\<forall>r \<in> set rs. record_valid r" and "sorted_wrt (<) (map cr_id rs)" and "n = length rs"
  shows "reads (rd_ascending n (checked cr_id msg rd_record) (\<lambda>r rs. rs @ [r]) []) rs
    (concat (map (\<lambda>r. var_bytes (record_bytes r)) rs)) post"
  using a_log.reads_ascending [OF assms, of msg "\<lambda>r rs. rs @ [r]" "[]" post] by simp

lemma decode_replica_body_bytes:
  assumes ok: "body_ok ds m" and wf: "replica_wf m" and len: "length (body_bytes ds m) \<le> usize_max"
    and tree: "from_dirents (rm_expected_root m) ds = Inr t" "dirents t = ds" and utf8: "\<forall>e \<in> set ds. utf8_ok (de_name e)"
  shows "decode_replica_body (rm_expected_root m) (body_bytes ds m) = Inr (m\<lparr>rm_dirents := ds\<rparr>)"
proof -
  have b: "short ds" "short (rm_members m)" "short (rm_manifests m)" "short (rm_log m)" "short (rm_mailboxes m)"
      "short (rm_acked_through m)" "short (rm_chunk_index m)" "short (extension_bytes m)" "extension_ok m"
      "sorted_wrt (<) (map cr_id (rm_log m))"
    and mf: "\<forall>e \<in> set (rm_manifests m). mf_file_id (snd e) = fst e \<and> manifest_valid (snd e)"
    using ok by (auto simp: body_ok_def)
  have w: "bs_ok (rm_members m)" "bm_ok (rm_manifests m)" "bm_ok (rm_mailboxes m)" "bm_ok (rm_acked_through m)"
      "bm_ok (rm_chunk_index m)"
    using wf by (auto simp: replica_wf_def)
  note rec = replica_wf_records [OF wf ok]
  have dv: "\<forall>e \<in> set ds. dirent_valid e"
    using ok utf8 by (auto simp: body_ok_def dirent_valid_def)
  have n: "length ds < 4294967296" "length (rm_members m) < 4294967296" "length (rm_manifests m) < 4294967296"
      "length (rm_log m) < 4294967296" "length (rm_mailboxes m) < 4294967296"
      "length (rm_acked_through m) < 4294967296" "length (rm_chunk_index m) < 4294967296"
    using b by (simp_all add: short_def)
  have mv: "\<forall>x \<in> set (bm_values (rm_manifests m)). manifest_valid x"
    using mf by auto
  have size: "length ds * 69 \<le> length (concat (map dirent_bytes ds))"
      "length (rm_manifests m) * 8 \<le> length (concat (map (\<lambda>e. manifest_wire (snd e)) (rm_manifests m)))"
      "length (rm_log m) * 4 \<le> length (concat (map (\<lambda>r. var_bytes (record_bytes r)) (rm_log m)))"
      "length (rm_mailboxes m) * 36 \<le> length (concat (map (\<lambda>e. peer_bytes (fst e) @ c_content.counted (snd e)) (rm_mailboxes m)))"
      "length (rm_acked_through m) * 40 \<le> length (marks_bytes (rm_acked_through m))"
      "length (rm_chunk_index m) * 72 \<le> length (chunk_index_bytes (rm_chunk_index m))"
    using c_dirent.concat_size [OF dv] a_manifests.seq_size [OF mv, unfolded map_map comp_def] a_log.seq_size [OF rec(1)]
      a_mailboxes.seq_size [OF rec(2)] a_acks.seq_size [of "rm_acked_through m"]
      a_chunks.seq_size [of "rm_chunk_index m"] by simp_all
  have ext: "decode_replica_extension (rm_members m) (rm_next_control m) (extension_bytes m) = Inr (extension_of m)"
    by (rule decode_replica_extension_bytes [OF b(9) wf short_usize [OF b(8)]])
  show ?thesis
    unfolding decode_replica_body_def One_nat_def
    by (rule run_parser_reads [OF _ len], unfold body_bytes_def)
      (auto simp: n w b(8,10) rec dv tree ext extension_of_def trans_le_add1 [OF size(1)] trans_le_add1 [OF size(2)]
          trans_le_add1 [OF size(3)] trans_le_add1 [OF size(4)] trans_le_add1 [OF size(5)] trans_le_add1 [OF size(6)]
        intro!: reads_bind [OF reads_file] reads_bind_nil [OF reads_guard] reads_bind [OF reads_count]
          reads_bind [OF c_dirent.reads_many] reads_bind_nil [OF reads_lift] reads_bind [OF reads_denylist]
          reads_bind [OF reads_manifests [OF w(2) mf]] reads_bind [OF reads_log] reads_bind [OF reads_u64]
          reads_bind [OF reads_map [OF a_mailboxes.ascending_axioms w(3) rec(2)]]
          reads_bind [OF reads_map [OF a_acks.ascending_axioms w(4)]]
          reads_bind [OF reads_map [OF a_chunks.ascending_axioms w(5)]]
          reads_bind_nil [OF reads_remaining]
          reads_bind_last [OF reads_bind_last [OF reads_variable reads_lift]]
          reads_bind_last [OF reads_finish] reads_ret')
qed

lemma encode_replica_Inr:
  "encode_replica sha256 m g = Inr bs \<longleftrightarrow>
    (\<exists>body. encode_replica_body m = Inr body \<and> length bs \<le> MAX_REPLICA_BYTES \<and>
      bs = (REPLICA_MAGIC @ [LOCAL_FORMAT_VERSION] @ to_be_bytes g @ len_bytes (length body) @ body) @
        to_be_bytes (sha256 (REPLICA_MAGIC @ [LOCAL_FORMAT_VERSION] @ to_be_bytes g @ len_bytes (length body) @ body)))"
  by (auto simp: encode_replica_def Let_def len_bytes_def MAX_REPLICA_BYTES_def not_less)

lemma replica_roundtrip:
  assumes "encode_replica sha256 m g = Inr bs" and "replica_wf m"
  shows "\<exists>t. from_dirents (rm_expected_root m) (rm_dirents m) = Inr t \<and>
    decode_replica sha256 bs (rm_expected_root m) = Inr (g, m\<lparr>rm_dirents := dirents t\<rparr>)"
proof -
  obtain body t where t: "from_dirents (rm_expected_root m) (rm_dirents m) = Inr t" "body_ok (dirents t) m"
      "body = body_bytes (dirents t) m" and len: "length bs \<le> MAX_REPLICA_BYTES"
    and bs: "bs = (REPLICA_MAGIC @ [LOCAL_FORMAT_VERSION] @ to_be_bytes g @ len_bytes (length body) @ body) @
        to_be_bytes (sha256 (REPLICA_MAGIC @ [LOCAL_FORMAT_VERSION] @ to_be_bytes g @ len_bytes (length body) @ body))"
    using assms(1) by (auto simp: encode_replica_Inr encode_replica_body_Inr)
  have magic: "length REPLICA_MAGIC = 18" by (simp add: REPLICA_MAGIC_def)
  have small: "length body < 2 ^ 32" "length body \<le> usize_max" "31 + length body + 32 \<le> usize_max"
    using len by (auto simp: bs magic MAX_REPLICA_BYTES_def usize_max_def)
  have listing: "from_dirents (rm_expected_root m) (dirents t) = Inr t" "\<forall>e \<in> set (dirents t). utf8_ok (de_name e)"
    using from_dirents_listing [OF t(1)] from_dirents_names [OF t(1)] assms(2)
    by (auto simp: replica_wf_def) force
  have body: "decode_replica_body (rm_expected_root m) body = Inr (m\<lparr>rm_dirents := dirents t\<rparr>)"
    unfolding t(3)
    by (rule decode_replica_body_bytes [OF t(2) assms(2) _ listing(1) refl listing(2)]) (use small t(3) in simp)
  have "unat (from_be_bytes (slice bs 27 31) :: u32) = length body"
    using small(1) by (simp add: bs magic slice_def len_bytes_def unat_of_nat_short)
  moreover have "slice bs 31 (31 + length body) = body" and "slice bs 19 27 = to_be_bytes g"
    by (simp_all add: bs magic slice_def)
  moreover have "take 18 bs = REPLICA_MAGIC" and "bs ! 18 = LOCAL_FORMAT_VERSION"
    by (simp_all add: bs magic nth_append)
  moreover have "length (REPLICA_MAGIC @ [LOCAL_FORMAT_VERSION] @ to_be_bytes g @ len_bytes (length body) @ body) = 31 + length body"
    by (simp add: magic)
  then have "take (31 + length body) bs = REPLICA_MAGIC @ [LOCAL_FORMAT_VERSION] @ to_be_bytes g @ len_bytes (length body) @ body"
    and "drop (31 + length body) bs =
      to_be_bytes (sha256 (REPLICA_MAGIC @ [LOCAL_FORMAT_VERSION] @ to_be_bytes g @ len_bytes (length body) @ body))"
    unfolding bs by (metis append_eq_conv_conj)+
  moreover have "length bs = 31 + length body + 32"
    by (simp add: bs magic)
  ultimately show ?thesis
    using t(1) body small len
    by (simp add: decode_replica_def replica_header_len_def HASH_LEN_def magic Let_def)
qed

end
