(* ===== verification/Transaction.thy ===== *)
theory Transaction
  imports Snapshot "HOL-Library.AList"
begin

text \<open>
  The admission transaction of \<open>backend/src/store/transaction.rs\<close>: the admission file and the
  replica snapshot are replaced together, under a rollback journal written first. Every file
  operation may succeed, fail, or be the last thing before a crash, and a failure or crash may
  come before or after its effect on disk (\<open>atomic_private_write\<close> renames a finished temporary
  file, so a target is never half written). Reads and writes consume a list of outcomes; the
  theorems quantify over all lists.
\<close>

section \<open>The journal record\<close>

definition ADMISSION_TRANSACTION_MAGIC :: bytes where
  "ADMISSION_TRANSACTION_MAGIC = ascii ''qfs/local/admission-txn/''"

definition MAX_VAULT_METADATA_BYTES :: nat where
  "MAX_VAULT_METADATA_BYTES = 1024 * 1024"

definition encode_admission_transaction :: "(bytes \<Rightarrow> 256 word) \<Rightarrow> bytes \<Rightarrow> bytes \<Rightarrow> bytes result" where
  "encode_admission_transaction sha256 old_replica old_admission =
     and_then (guard_ok (\<not> (length old_replica > MAX_REPLICA_BYTES \<or> length old_admission > MAX_VAULT_METADATA_BYTES))
       (InvalidInput ''admission transaction field is too large'')) (\<lambda>_.
     and_then (push_variable (ADMISSION_TRANSACTION_MAGIC @ [LOCAL_FORMAT_VERSION]) old_replica) (\<lambda>out.
     and_then (push_variable out old_admission) (\<lambda>out.
     Inr (out @ to_be_bytes (sha256 out)))))"

definition admission_transaction_fields :: "bytes \<Rightarrow> (bytes \<times> bytes) result" where
  "admission_transaction_fields content = run_parser (
     p_bind (rd_require_prefix ADMISSION_TRANSACTION_MAGIC) (\<lambda>_.
     p_bind rd_require_version (\<lambda>_.
     p_bind rd_variable (\<lambda>old_replica.
     p_bind rd_variable (\<lambda>old_admission.
     p_bind (p_guard (\<not> (length old_replica > MAX_REPLICA_BYTES \<or> length old_admission > MAX_VAULT_METADATA_BYTES))
       (InvalidInput ''admission transaction field is too large'')) (\<lambda>_.
     p_bind rd_finish (\<lambda>_.
     p_ret (old_replica, old_admission)))))))) content"

definition decode_admission_transaction :: "(bytes \<Rightarrow> 256 word) \<Rightarrow> bytes \<Rightarrow> (bytes \<times> bytes) result" where
  "decode_admission_transaction sha256 bs =
     (let maximum = length ADMISSION_TRANSACTION_MAGIC + 1 + 4 + MAX_REPLICA_BYTES + 4 +
            MAX_VAULT_METADATA_BYTES + HASH_LEN in
      and_then (guard_ok (\<not> (length bs > maximum \<or> length bs < length ADMISSION_TRANSACTION_MAGIC + 1 + 8 + HASH_LEN))
        (InvalidInput ''invalid admission transaction length'')) (\<lambda>_.
      let content_len = length bs - HASH_LEN in
      and_then (guard_ok (to_be_bytes (sha256 (take content_len bs)) = drop content_len bs) AuthenticationFailed) (\<lambda>_.
      admission_transaction_fields (take content_len bs))))"

lemma admission_transaction_roundtrip:
  assumes "encode_admission_transaction sha256 r a = Inr bs"
  shows "decode_admission_transaction sha256 bs = Inr (r, a)" and "length bs \<le> 17 * 1024 * 1024 + 256"
proof -
  let ?c = "ADMISSION_TRANSACTION_MAGIC @ [LOCAL_FORMAT_VERSION] @ var_bytes r @ var_bytes a"
  have sizes: "length r \<le> MAX_REPLICA_BYTES" "length a \<le> MAX_VAULT_METADATA_BYTES" "short r" "short a"
    and bs: "bs = ?c @ to_be_bytes (sha256 ?c)"
    using assms by (auto simp: encode_admission_transaction_def)
  have magic: "length ADMISSION_TRANSACTION_MAGIC = 24"
    by (simp add: ADMISSION_TRANSACTION_MAGIC_def)
  have len: "length ?c = 33 + length r + length a" "length bs = 65 + length r + length a"
    by (simp_all add: bs magic)
  with sizes show "length bs \<le> 17 * 1024 * 1024 + 256"
    by (simp add: MAX_REPLICA_BYTES_def MAX_VAULT_METADATA_BYTES_def)
  have "length ?c \<le> usize_max"
    using sizes len by (simp add: MAX_REPLICA_BYTES_def MAX_VAULT_METADATA_BYTES_def usize_max_def)
  then have fields: "admission_transaction_fields ?c = Inr (r, a)"
    unfolding admission_transaction_fields_def
    by (rule run_parser_reads [rotated])
      (use sizes in \<open>auto intro!: reads_bind [OF reads_require_prefix] reads_bind [OF reads_require_version, simplified]
        reads_bind [OF reads_variable] reads_bind_last [OF reads_variable] reads_bind_nil [OF reads_guard]
        reads_bind_last [OF reads_finish] reads_ret'\<close>)
  have cut: "take (33 + (length r + length a)) bs = ?c"
      "drop (33 + (length r + length a)) bs = to_be_bytes (sha256 ?c)"
    unfolding bs by (rule take_exact drop_exact, use len(1) in simp)+
  show "decode_admission_transaction sha256 bs = Inr (r, a)"
    using sizes len magic fields
    by (simp add: decode_admission_transaction_def Let_def HASH_LEN_def cut)
qed

section \<open>Files and outcomes\<close>

text \<open>A vault directory: the admission file, the snapshot, the journal, and the chunk files by name.\<close>

record dir =
  d_admission :: "bytes option"
  d_replica :: "bytes option"
  d_journal :: "bytes option"
  d_chunks :: "(string \<times> bytes) list"

datatype outcome = Done | FailBefore | FailAfter | CrashBefore | CrashAfter

datatype 'a run = Ret "'a result" | Crashed

type_synonym 'a io = "outcome list \<times> dir \<Rightarrow> 'a run \<times> outcome list \<times> dir"

definition io_ret :: "'a result \<Rightarrow> 'a io" where
  "io_ret x s = (Ret x, s)"

definition io_bind :: "'a io \<Rightarrow> ('a \<Rightarrow> 'b io) \<Rightarrow> 'b io" where
  "io_bind p f s = (case p s of
       (Ret (Inr x), s') \<Rightarrow> f x s'
     | (Ret (Inl e), s') \<Rightarrow> (Ret (Inl e), s')
     | (Crashed, s') \<Rightarrow> (Crashed, s'))"

definition io_catch :: "'a io \<Rightarrow> (error \<Rightarrow> 'a io) \<Rightarrow> 'a io" where
  "io_catch p h s = (case p s of
       (Ret (Inl e), s') \<Rightarrow> h e s'
     | (r, s') \<Rightarrow> (r, s'))"

text \<open>One operation with effect \<open>f\<close> on disk, under the next outcome (none left: success).\<close>

definition io_op :: "(dir \<Rightarrow> dir) \<Rightarrow> unit io" where
  "io_op f s = (case s of (os, d) \<Rightarrow>
     (case os of
        [] \<Rightarrow> (Ret (Inr ()), [], f d)
      | Done # os \<Rightarrow> (Ret (Inr ()), os, f d)
      | FailBefore # os \<Rightarrow> (Ret (Inl Io), os, d)
      | FailAfter # os \<Rightarrow> (Ret (Inl Io), os, f d)
      | CrashBefore # os \<Rightarrow> (Crashed, os, d)
      | CrashAfter # os \<Rightarrow> (Crashed, os, f d)))"

definition io_read :: "(dir \<Rightarrow> 'a result) \<Rightarrow> 'a io" where
  "io_read f = io_bind (io_op (\<lambda>d. d)) (\<lambda>_ s. (Ret (f (snd s)), s))"

datatype txn_file = Admission | Replica | Journal | ChunkFile string

definition file_get :: "txn_file \<Rightarrow> dir \<Rightarrow> bytes option" where
  "file_get f d = (case f of
       Admission \<Rightarrow> d_admission d | Replica \<Rightarrow> d_replica d | Journal \<Rightarrow> d_journal d
     | ChunkFile name \<Rightarrow> map_of (d_chunks d) name)"

definition file_set :: "txn_file \<Rightarrow> bytes option \<Rightarrow> dir \<Rightarrow> dir" where
  "file_set f b d = (case f of
       Admission \<Rightarrow> d\<lparr>d_admission := b\<rparr> | Replica \<Rightarrow> d\<lparr>d_replica := b\<rparr> | Journal \<Rightarrow> d\<lparr>d_journal := b\<rparr>
     | ChunkFile name \<Rightarrow> d\<lparr>d_chunks := (case b of
           None \<Rightarrow> AList.delete name (d_chunks d)
         | Some bs \<Rightarrow> AList.update name bs (d_chunks d))\<rparr>)"

section \<open>The transaction\<close>

definition MAX_ADMISSION_BYTES :: nat where
  "MAX_ADMISSION_BYTES = 1024 * 1024"

definition MAX_JOURNAL_BYTES :: nat where
  "MAX_JOURNAL_BYTES = 17 * 1024 * 1024 + 256"

definition MAX_STORE_BYTES :: nat where
  "MAX_STORE_BYTES = 16 * 1024 * 1024"

definition atomic_private_write_bounded :: "txn_file \<Rightarrow> bytes \<Rightarrow> nat \<Rightarrow> unit io" where
  "atomic_private_write_bounded path bs maximum =
     (if length bs > maximum then io_ret (Inl (InvalidInput ''keystore file is too large''))
      else io_op (file_set path (Some bs)))"

definition atomic_private_write :: "txn_file \<Rightarrow> bytes \<Rightarrow> unit io" where
  "atomic_private_write path bs = atomic_private_write_bounded path bs MAX_STORE_BYTES"

definition read_bounded :: "txn_file \<Rightarrow> nat \<Rightarrow> bytes option io" where
  "read_bounded path maximum = io_read (\<lambda>d.
     case file_get path d of
       None \<Rightarrow> Inr None
     | Some bs \<Rightarrow>
         if length bs > maximum then Inl (InvalidInput ''invalid admission transaction file'')
         else Inr (Some bs))"

definition clear_journal :: "unit io" where
  "clear_journal = io_op (file_set Journal None)"

definition restore :: "txn_file \<Rightarrow> bytes \<Rightarrow> unit io" where
  "restore path bs =
     (if bs \<noteq> [] then atomic_private_write path bs else io_op (file_set path None))"

definition unwrap_or_default :: "bytes option \<Rightarrow> bytes" where
  "unwrap_or_default b = (case b of None \<Rightarrow> [] | Some bs \<Rightarrow> bs)"

definition persist_inner :: "(bytes \<Rightarrow> 256 word) \<Rightarrow> bytes \<Rightarrow> bytes \<Rightarrow> unit io" where
  "persist_inner sha256 replica_bytes admission_bytes =
     (if length admission_bytes > MAX_ADMISSION_BYTES
      then io_ret (Inl (InvalidInput ''vault admission file is too large''))
      else
        io_bind (read_bounded Replica (16 * 1024 * 1024)) (\<lambda>old_replica.
        io_bind (read_bounded Admission MAX_ADMISSION_BYTES) (\<lambda>old_admission.
        let old_replica = unwrap_or_default old_replica; old_admission = unwrap_or_default old_admission in
        io_bind (io_ret (encode_admission_transaction sha256 old_replica old_admission)) (\<lambda>journal.
        io_bind (atomic_private_write_bounded Journal journal MAX_JOURNAL_BYTES) (\<lambda>_.
        io_catch
          (io_bind (atomic_private_write Admission admission_bytes) (\<lambda>_.
           io_bind (atomic_private_write Replica replica_bytes) (\<lambda>_.
           clear_journal)))
          (\<lambda>e.
           io_bind (atomic_private_write_bounded Journal journal MAX_JOURNAL_BYTES) (\<lambda>_.
           io_bind (restore Admission old_admission) (\<lambda>_.
           io_bind (restore Replica old_replica) (\<lambda>_.
           io_bind clear_journal (\<lambda>_.
           io_ret (Inl e)))))))))))"

definition persist :: "(bytes \<Rightarrow> 256 word) \<Rightarrow> bytes option \<Rightarrow> bytes \<Rightarrow> unit io" where
  "persist sha256 replica_bytes admission_bytes =
     (case replica_bytes of
        None \<Rightarrow>
          io_bind (read_bounded Admission MAX_ADMISSION_BYTES) (\<lambda>old_admission.
          io_catch (atomic_private_write Admission admission_bytes) (\<lambda>e.
            io_bind (restore Admission (unwrap_or_default old_admission)) (\<lambda>_.
            io_ret (Inl e))))
      | Some replica_bytes \<Rightarrow> persist_inner sha256 replica_bytes admission_bytes)"

definition recover_admission_transaction :: "(bytes \<Rightarrow> 256 word) \<Rightarrow> unit io" where
  "recover_admission_transaction sha256 =
     io_bind (read_bounded Journal MAX_JOURNAL_BYTES) (\<lambda>journal.
     case journal of
       None \<Rightarrow> io_ret (Inr ())
     | Some bs \<Rightarrow>
         io_bind (io_ret (decode_admission_transaction sha256 bs)) (\<lambda>(old_replica, old_admission).
         io_bind (restore Admission old_admission) (\<lambda>_.
         io_bind (restore Replica old_replica) (\<lambda>_.
         clear_journal))))"

section \<open>Triples\<close>

text \<open>\<open>triple P p Q E C\<close>: from \<open>P\<close>, a normal return is in \<open>Q\<close>, an error return in \<open>E\<close>, a crash in \<open>C\<close>.\<close>

definition triple ::
  "(dir \<Rightarrow> bool) \<Rightarrow> 'a io \<Rightarrow> ('a \<Rightarrow> dir \<Rightarrow> bool) \<Rightarrow> (dir \<Rightarrow> bool) \<Rightarrow> (dir \<Rightarrow> bool) \<Rightarrow> bool" where
  "triple P p Q E C \<longleftrightarrow>
     (\<forall>os d. P d \<longrightarrow> (case p (os, d) of
         (Ret (Inr x), _, d') \<Rightarrow> Q x d'
       | (Ret (Inl _), _, d') \<Rightarrow> E d'
       | (Crashed, _, d') \<Rightarrow> C d'))"

text \<open>What holds after the program whether it returned, failed or crashed.\<close>

lemma triple_always:
  assumes "triple P p Q E C" and "P d" and "\<And>x d. Q x d \<Longrightarrow> X d" and "\<And>d. E d \<Longrightarrow> X d" and "\<And>d. C d \<Longrightarrow> X d"
  shows "X (snd (snd (p (os, d))))"
proof -
  obtain r os' d' where p: "p (os, d) = (r, os', d')" by (metis prod_cases3)
  with assms(1) [unfolded triple_def, rule_format, OF assms(2), of os] assms(3-5) show ?thesis
    by (auto split: run.split_asm sum.split_asm)
qed

lemma triple_ret: "(\<And>d y. P d \<Longrightarrow> x = Inr y \<Longrightarrow> Q y d) \<Longrightarrow> (\<And>d e. P d \<Longrightarrow> x = Inl e \<Longrightarrow> E d) \<Longrightarrow> triple P (io_ret x) Q E C"
  by (auto simp: triple_def io_ret_def split: sum.splits)

lemma triple_never: "(\<And>d. \<not> P d) \<Longrightarrow> triple P p Q E C"
  by (simp add: triple_def)

lemma triple_bind:
  "triple P p Q E C \<Longrightarrow> (\<And>x. triple (Q x) (f x) R E C) \<Longrightarrow> triple P (io_bind p f) R E C"
  unfolding triple_def io_bind_def by (fastforce split: run.splits sum.splits prod.splits)

lemma triple_catch:
  "triple P p Q E C \<Longrightarrow> (\<And>e. triple E (h e) Q F C) \<Longrightarrow> triple P (io_catch p h) Q F C"
  unfolding triple_def io_catch_def by (fastforce split: run.splits sum.splits prod.splits)

lemma triple_op:
  assumes "\<And>d. P d \<Longrightarrow> Q () (f d) \<and> E d \<and> E (f d) \<and> C d \<and> C (f d)"
  shows "triple P (io_op f) Q E C"
  using assms by (auto simp: triple_def io_op_def split: list.splits outcome.splits)

lemma triple_weaken:
  "triple P p Q E C \<Longrightarrow> (\<And>d. P' d \<Longrightarrow> P d) \<Longrightarrow> (\<And>x d. Q x d \<Longrightarrow> Q' x d) \<Longrightarrow> (\<And>d. E d \<Longrightarrow> E' d) \<Longrightarrow>
    (\<And>d. C d \<Longrightarrow> C' d) \<Longrightarrow> triple P' p Q' E' C'"
  unfolding triple_def by (fastforce split: run.splits sum.splits prod.splits)

lemma triple_read:
  assumes "\<And>d. P d \<Longrightarrow> E d \<and> C d" and "\<And>d x. P d \<Longrightarrow> f d = Inr x \<Longrightarrow> Q x d"
  shows "triple P (io_read f) Q E C"
proof -
  have "triple P (io_op (\<lambda>d. d)) (\<lambda>_. P) E C"
    by (rule triple_op) (use assms(1) in blast)
  moreover have "triple P (\<lambda>s. (Ret (f (snd s)), s)) Q E C"
    using assms by (auto simp: triple_def split: sum.splits)
  ultimately show ?thesis
    unfolding io_read_def by (rule triple_bind)
qed

lemma triple_write:
  assumes "\<And>d. P d \<Longrightarrow> length b \<le> n \<Longrightarrow> Q () (file_set g (Some b) d) \<and> E (file_set g (Some b) d) \<and> C d \<and> C (file_set g (Some b) d)"
    and "\<And>d. P d \<Longrightarrow> E d"
  shows "triple P (atomic_private_write_bounded g b n) Q E C"
  using assms by (auto simp: atomic_private_write_bounded_def intro!: triple_ret triple_op)

lemma triple_restore:
  assumes "\<And>d. P d \<Longrightarrow> length b \<le> MAX_STORE_BYTES \<Longrightarrow>
      Q () (file_set g (if b = [] then None else Some b) d) \<and> E (file_set g (if b = [] then None else Some b) d) \<and>
      C d \<and> C (file_set g (if b = [] then None else Some b) d)"
    and "\<And>d. P d \<Longrightarrow> E d"
  shows "triple P (restore g b) Q E C"
  using assms
  by (auto simp: restore_def atomic_private_write_def MAX_STORE_BYTES_def intro!: triple_write triple_op)

lemmas file_set_simps = file_set_def file_get_def

section \<open>All or nothing\<close>

text \<open>An empty old file is recorded as absent.\<close>

definition file_norm :: "bytes \<Rightarrow> bytes option" where
  "file_norm b = (if b = [] then None else Some b)"

text \<open>
  The disk between the first write and the end of recovery: with the journal, anything; without
  it, both files old or both new.
\<close>

definition settled :: "bytes option \<times> bytes option \<Rightarrow> bytes option \<times> bytes option \<Rightarrow> dir \<Rightarrow> bool" where
  "settled old new d \<longleftrightarrow> d_journal d = None \<and>
     ((d_admission d, d_replica d) = old \<or> (d_admission d, d_replica d) = new \<or>
      (d_admission d, d_replica d) = (file_norm (unwrap_or_default (fst old)), file_norm (unwrap_or_default (snd old))))"

definition guarded ::
  "bytes \<Rightarrow> bytes option \<times> bytes option \<Rightarrow> bytes option \<times> bytes option \<Rightarrow> dir \<Rightarrow> bool" where
  "guarded j old new d \<longleftrightarrow> d_journal d = Some j \<or> settled old new d"

lemma persist_inner_triple:
  fixes d0 :: dir and admission_bytes replica_bytes :: bytes
  defines "old \<equiv> (d_admission d0, d_replica d0)" and "new \<equiv> (Some admission_bytes, Some replica_bytes)"
  assumes "d_journal d0 = None"
    and "encode_admission_transaction sha256 (unwrap_or_default (d_replica d0)) (unwrap_or_default (d_admission d0)) = Inr j"
  shows "triple (\<lambda>d. d = d0) (persist_inner sha256 replica_bytes admission_bytes)
    (\<lambda>_ d. d_journal d = None \<and> (d_admission d, d_replica d) = new) (guarded j old new) (guarded j old new)"
proof -
  let ?G = "guarded j old new"
  let ?a = "unwrap_or_default (d_admission d0)" and ?r = "unwrap_or_default (d_replica d0)"
  have G0: "?G d0"
    using assms(3) by (simp add: guarded_def settled_def old_def)
  have GJ: "?G d" if "d_journal d = Some j" for d
    using that by (simp add: guarded_def)
  have GN: "?G d" if "d_journal d = None" "(d_admission d, d_replica d) = new" for d
    using that by (simp add: guarded_def settled_def)
  have GO: "?G d" if "d_journal d = None" "d_admission d = file_norm ?a" "d_replica d = file_norm ?r" for d
    using that by (simp add: guarded_def settled_def old_def)
  let ?J = "\<lambda>d. d_journal d = Some j"
  let ?N = "\<lambda>d. (d_admission d, d_replica d) = new"
  have w1: "triple ?J (atomic_private_write Admission admission_bytes)
      (\<lambda>_ d. ?J d \<and> d_admission d = Some admission_bytes) ?G ?G"
    unfolding atomic_private_write_def by (rule triple_write) (auto simp: file_set_simps GJ)
  have w2: "triple (\<lambda>d. ?J d \<and> d_admission d = Some admission_bytes) (atomic_private_write Replica replica_bytes)
      (\<lambda>_ d. ?J d \<and> ?N d) ?G ?G"
    unfolding atomic_private_write_def by (rule triple_write) (auto simp: file_set_simps GJ [unfolded new_def] new_def)
  have w3: "triple (\<lambda>d. ?J d \<and> ?N d) clear_journal (\<lambda>_ d. d_journal d = None \<and> ?N d) ?G ?G"
    unfolding clear_journal_def by (rule triple_op) (simp add: file_set_simps GJ GN)
  have u1: "triple ?G (atomic_private_write_bounded Journal j MAX_JOURNAL_BYTES) (\<lambda>_. ?J) ?G ?G"
    by (rule triple_write) (auto simp: file_set_simps GJ)
  have u2: "triple ?J (restore Admission ?a) (\<lambda>_ d. ?J d \<and> d_admission d = file_norm ?a) ?G ?G"
    by (rule triple_restore) (auto simp: file_set_simps GJ file_norm_def)
  have u3: "triple (\<lambda>d. ?J d \<and> d_admission d = file_norm ?a) (restore Replica ?r)
      (\<lambda>_ d. ?J d \<and> d_admission d = file_norm ?a \<and> d_replica d = file_norm ?r) ?G ?G"
    by (rule triple_restore) (auto simp: file_set_simps GJ file_norm_def)
  have u4: "triple (\<lambda>d. ?J d \<and> d_admission d = file_norm ?a \<and> d_replica d = file_norm ?r) clear_journal (\<lambda>_. ?G) ?G ?G"
    unfolding clear_journal_def by (rule triple_op) (auto simp: file_set_simps GJ intro!: GO)
  have u5: "triple ?G (io_ret (Inl e)) (\<lambda>_ d. d_journal d = None \<and> ?N d) ?G ?G" for e
    by (rule triple_ret) auto
  have r1: "triple (\<lambda>d. d = d0) (read_bounded Replica n) (\<lambda>x d. d = d0 \<and> x = d_replica d0) ?G ?G" for n
    unfolding read_bounded_def
    by (rule triple_read) (auto simp: G0 file_get_def split: option.splits if_splits)
  have r2: "triple (\<lambda>d. d = d0 \<and> x = d_replica d0) (read_bounded Admission n)
      (\<lambda>y d. d = d0 \<and> x = d_replica d0 \<and> y = d_admission d0) ?G ?G" for n x
    unfolding read_bounded_def
    by (rule triple_read) (auto simp: G0 file_get_def split: option.splits if_splits)
  have r3: "triple (\<lambda>d. d = d0 \<and> x = d_replica d0 \<and> y = d_admission d0)
      (io_ret (encode_admission_transaction sha256 (unwrap_or_default x) (unwrap_or_default y)))
      (\<lambda>k d. d = d0 \<and> x = d_replica d0 \<and> y = d_admission d0 \<and> k = j) ?G ?G" for x y
    by (rule triple_ret) (auto simp: assms(4) G0)
  have r4: "triple (\<lambda>d. d = d0 \<and> x = d_replica d0 \<and> y = d_admission d0 \<and> k = j)
      (atomic_private_write_bounded Journal k MAX_JOURNAL_BYTES)
      (\<lambda>_ d. ?J d \<and> x = d_replica d0 \<and> y = d_admission d0 \<and> k = j) ?G ?G" for x y k
    by (rule triple_write) (auto simp: file_set_simps GJ G0)
  have work: "triple (\<lambda>d. ?J d \<and> x = d_replica d0 \<and> y = d_admission d0 \<and> k = j)
      (io_catch (io_bind (atomic_private_write Admission admission_bytes) (\<lambda>_.
         io_bind (atomic_private_write Replica replica_bytes) (\<lambda>_. clear_journal)))
       (\<lambda>e. io_bind (atomic_private_write_bounded Journal k MAX_JOURNAL_BYTES) (\<lambda>_.
         io_bind (restore Admission (unwrap_or_default y)) (\<lambda>_.
         io_bind (restore Replica (unwrap_or_default x)) (\<lambda>_.
         io_bind clear_journal (\<lambda>_. io_ret (Inl e)))))))
      (\<lambda>_ d. d_journal d = None \<and> ?N d) ?G ?G" for x y k
  proof (cases "x = d_replica d0 \<and> y = d_admission d0 \<and> k = j")
    case True
    have "triple ?J (io_catch (io_bind (atomic_private_write Admission admission_bytes) (\<lambda>_.
         io_bind (atomic_private_write Replica replica_bytes) (\<lambda>_. clear_journal)))
       (\<lambda>e. io_bind (atomic_private_write_bounded Journal j MAX_JOURNAL_BYTES) (\<lambda>_.
         io_bind (restore Admission ?a) (\<lambda>_.
         io_bind (restore Replica ?r) (\<lambda>_.
         io_bind clear_journal (\<lambda>_. io_ret (Inl e)))))))
      (\<lambda>_ d. d_journal d = None \<and> ?N d) ?G ?G"
      by (rule triple_catch)
        (rule triple_bind [OF w1] triple_bind [OF w2] w3 triple_bind [OF u1] triple_bind [OF u2] triple_bind [OF u3]
          triple_bind [OF u4] u5)+
    with True show ?thesis by simp
  qed (auto intro!: triple_never)
  have start: "triple (\<lambda>d. d = d0) (io_ret (Inl e)) (\<lambda>_ d. d_journal d = None \<and> ?N d) ?G ?G" for e
    by (rule triple_ret) (auto simp: G0)
  have main: "triple (\<lambda>d. d = d0)
        (io_bind (read_bounded Replica (16 * 1024 * 1024)) (\<lambda>old_replica.
        io_bind (read_bounded Admission MAX_ADMISSION_BYTES) (\<lambda>old_admission.
        io_bind (io_ret (encode_admission_transaction sha256 (unwrap_or_default old_replica) (unwrap_or_default old_admission))) (\<lambda>journal.
        io_bind (atomic_private_write_bounded Journal journal MAX_JOURNAL_BYTES) (\<lambda>_.
        io_catch
          (io_bind (atomic_private_write Admission admission_bytes) (\<lambda>_.
           io_bind (atomic_private_write Replica replica_bytes) (\<lambda>_.
           clear_journal)))
          (\<lambda>e.
           io_bind (atomic_private_write_bounded Journal journal MAX_JOURNAL_BYTES) (\<lambda>_.
           io_bind (restore Admission (unwrap_or_default old_admission)) (\<lambda>_.
           io_bind (restore Replica (unwrap_or_default old_replica)) (\<lambda>_.
           io_bind clear_journal (\<lambda>_.
           io_ret (Inl e))))))))))) (\<lambda>_ d. d_journal d = None \<and> ?N d) ?G ?G"
    by (rule triple_bind [OF r1] triple_bind [OF r2] triple_bind [OF r3] triple_bind [OF r4] work)+
  show ?thesis
    unfolding persist_inner_def Let_def if_distrib [of "\<lambda>p. triple _ p _ _ _"]
    by (cases "length admission_bytes > MAX_ADMISSION_BYTES") (simp_all only: if_True if_False start main)
qed

text \<open>Recovery from a guarded disk, whatever happens during it, leaves a guarded disk.\<close>

lemma recover_triple:
  assumes "encode_admission_transaction sha256 (unwrap_or_default (snd old)) (unwrap_or_default (fst old)) = Inr j"
  shows "triple (guarded j old new) (recover_admission_transaction sha256)
    (\<lambda>_. settled old new) (guarded j old new) (guarded j old new)"
proof -
  let ?G = "guarded j old new" and ?J = "\<lambda>d. d_journal d = Some j"
  let ?a = "unwrap_or_default (fst old)" and ?r = "unwrap_or_default (snd old)"
  have GJ: "?G d" if "d_journal d = Some j" for d
    using that by (simp add: guarded_def)
  have SO: "settled old new d" if "d_journal d = None" "d_admission d = file_norm ?a" "d_replica d = file_norm ?r" for d
    using that by (simp add: settled_def)
  have GS: "?G d" if "settled old new d" for d
    using that by (simp add: guarded_def)
  have r: "triple ?G (read_bounded Journal MAX_JOURNAL_BYTES)
      (\<lambda>x d. x = Some j \<and> ?J d \<or> x = None \<and> settled old new d) ?G ?G"
    unfolding read_bounded_def
    by (rule triple_read) (auto simp: guarded_def settled_def file_get_def split: option.splits if_splits)
  have u2: "triple ?J (restore Admission ?a) (\<lambda>_ d. ?J d \<and> d_admission d = file_norm ?a) ?G ?G"
    by (rule triple_restore) (auto simp: file_set_simps GJ file_norm_def)
  have u3: "triple (\<lambda>d. ?J d \<and> d_admission d = file_norm ?a) (restore Replica ?r)
      (\<lambda>_ d. ?J d \<and> d_admission d = file_norm ?a \<and> d_replica d = file_norm ?r) ?G ?G"
    by (rule triple_restore) (auto simp: file_set_simps GJ file_norm_def)
  have u4: "triple (\<lambda>d. ?J d \<and> d_admission d = file_norm ?a \<and> d_replica d = file_norm ?r) clear_journal
      (\<lambda>_. settled old new) ?G ?G"
    unfolding clear_journal_def by (rule triple_op) (auto simp: file_set_simps GJ intro!: SO GS)
  have d: "decode_admission_transaction sha256 j = Inr (?r, ?a)"
    by (rule admission_transaction_roundtrip [OF assms])
  have rest: "triple (\<lambda>d. x = Some j \<and> ?J d \<or> x = None \<and> settled old new d)
     (case x of None \<Rightarrow> io_ret (Inr ())
     | Some bs \<Rightarrow>
         io_bind (io_ret (decode_admission_transaction sha256 bs)) (\<lambda>(old_replica, old_admission).
         io_bind (restore Admission old_admission) (\<lambda>_.
         io_bind (restore Replica old_replica) (\<lambda>_.
         clear_journal)))) (\<lambda>_. settled old new) ?G ?G" for x
  proof (cases x)
    case None
    then show ?thesis by (auto intro!: triple_ret)
  next
    case (Some b)
    show ?thesis
    proof (cases "b = j")
      case True
      have "triple ?J (io_ret (Inr (?r, ?a))) (\<lambda>p d. p = (?r, ?a) \<and> ?J d) ?G ?G"
        by (rule triple_ret) auto
      moreover have "triple ?J (io_bind (restore Admission ?a) (\<lambda>_. io_bind (restore Replica ?r) (\<lambda>_. clear_journal)))
          (\<lambda>_. settled old new) ?G ?G"
        by (rule triple_bind [OF u2] triple_bind [OF u3] u4)+
      then have "triple (\<lambda>d. p = (?r, ?a) \<and> ?J d) (case p of (old_replica, old_admission) \<Rightarrow>
          io_bind (restore Admission old_admission) (\<lambda>_. io_bind (restore Replica old_replica) (\<lambda>_. clear_journal)))
          (\<lambda>_. settled old new) ?G ?G" for p
        by (cases "p = (?r, ?a)") (auto simp: triple_def)
      ultimately have "triple ?J (io_bind (io_ret (Inr (?r, ?a))) (\<lambda>(old_replica, old_admission).
          io_bind (restore Admission old_admission) (\<lambda>_. io_bind (restore Replica old_replica) (\<lambda>_. clear_journal))))
          (\<lambda>_. settled old new) ?G ?G"
        by (rule triple_bind)
      with True Some d show ?thesis by simp
    qed (simp add: Some triple_def)
  qed
  show ?thesis
    unfolding recover_admission_transaction_def by (rule triple_bind [OF r rest])
qed

lemma io_op_done: "io_op f ([], d) = (Ret (Inr ()), [], f d)"
  by (simp add: io_op_def)

lemma recover_succeeds:
  assumes "encode_admission_transaction sha256 (unwrap_or_default (snd old)) (unwrap_or_default (fst old)) = Inr j"
    and "guarded j old new d"
  shows "fst (recover_admission_transaction sha256 ([], d)) = Ret (Inr ())"
proof -
  have sizes: "length (unwrap_or_default (snd old)) \<le> MAX_STORE_BYTES" "length (unwrap_or_default (fst old)) \<le> MAX_STORE_BYTES"
    using assms(1) by (auto simp: encode_admission_transaction_def MAX_REPLICA_BYTES_def MAX_VAULT_METADATA_BYTES_def MAX_STORE_BYTES_def)
  have "length j \<le> MAX_JOURNAL_BYTES"
    using admission_transaction_roundtrip(2) [OF assms(1)] by (simp add: MAX_JOURNAL_BYTES_def)
  with sizes assms(2) admission_transaction_roundtrip(1) [OF assms(1)] show ?thesis
    by (auto simp: recover_admission_transaction_def read_bounded_def io_read_def io_bind_def io_op_def io_ret_def
        file_get_def guarded_def settled_def restore_def atomic_private_write_def atomic_private_write_bounded_def
        clear_journal_def)
qed

text \<open>Without outcomes left to consume none appear.\<close>

lemma recover_outcomes:
  assumes "recover_admission_transaction sha256 ([], d) = (r, os, d')"
  shows "os = []"
  using assms
  by (auto simp: recover_admission_transaction_def read_bounded_def io_read_def io_bind_def io_op_def io_ret_def
      restore_def atomic_private_write_def atomic_private_write_bounded_def clear_journal_def
      split: prod.splits run.splits sum.splits option.splits if_splits)

end
