(* ===== verification/Keystore.thy ===== *)
theory Keystore
  imports Identity Transaction
begin

text \<open>
  The keystore of \<open>backend/src/keystore.rs\<close>: verified peers, confirmed pairs and admission candidates,
  the active key slots with their counters, durable epoch watermarks, and the gates that hold back
  live traffic while a mailbox drains; and its state file, \<open>encode_store_state\<close> and
  \<open>decode_store_state\<close> of \<open>backend/src/encoding.rs\<close>. Operations run on the store together with its
  state file and a list of outcomes for the writes to come: a write can succeed or fail before or
  after taking effect (a crash outcome counts as a failure after which nothing more runs).
\<close>

section \<open>State\<close>

record PersistedPair =
  pp_peer_id :: PeerId
  pp_epoch :: Epoch
  pp_initiator :: PeerId
  pp_wrap :: WrapMessage

record PersistedKey =
  pkey_slot :: u64
  pkey_peer_id :: PeerId
  pkey_epoch :: Epoch
  pkey_key :: "256 word"

record PersistedState =
  ps_local_id :: PeerId
  ps_next_slot :: u64
  ps_peers :: "IdentityDocument list"
  ps_pairs :: "PersistedPair list"
  ps_candidates :: "PersistedPair list"
  ps_keys :: "PersistedKey list"
  ps_epoch_watermarks :: "(PeerId \<times> Epoch) list"

record StoreInner =
  si_local :: LocalIdentity
  si_peers :: "(PeerId, IdentityDocument) btree_map"
  si_pairs :: "(PeerId, PersistedPair) btree_map"
  si_candidates :: "(PeerId, PersistedPair) btree_map"
  si_keys :: "(u64, PairKeyState) btree_map"
  si_retry_epochs :: "(PeerId, Epoch) btree_map"
  si_candidate_retry_epochs :: "(PeerId, Epoch) btree_map"
  si_epoch_watermarks :: "(PeerId, Epoch) btree_map"
  si_instance_id :: "256 word"
  si_next_slot :: u64
  si_mailbox_gates :: "(PeerId, u64 btree_set) btree_map"
  si_admitted_pairs :: "(PeerId, Epoch) btree_map"
  si_failed :: bool

record PairSession =
  ses_peer_id :: PeerId
  ses_epoch :: Epoch
  ses_key_handle :: PairKeyHandle

abbreviation local_peer :: "StoreInner \<Rightarrow> PeerId" where
  "local_peer inner \<equiv> id_peer_id (li_document (si_local inner))"

definition MAX_ADMISSION_CANDIDATES :: nat where
  "MAX_ADMISSION_CANDIDATES = 32"

section \<open>The state file\<close>

definition STORE_STATE_MAGIC :: bytes where
  "STORE_STATE_MAGIC = ascii ''qfs/local/keys/''"

definition push_pair :: "PersistedPair \<Rightarrow> bytes result" where
  "push_pair pair =
     and_then (wrap_m (pp_wrap pair)) (\<lambda>m.
     and_then (push_variable (peer_bytes (pp_peer_id pair) @ epoch_bytes (pp_epoch pair) @ peer_bytes (pp_initiator pair)) m) (\<lambda>out.
     push_variable out (wm_signature (pp_wrap pair))))"

definition key_bytes :: "PersistedKey \<Rightarrow> bytes" where
  "key_bytes key = to_be_bytes (pkey_slot key) @ peer_bytes (pkey_peer_id key) @ epoch_bytes (pkey_epoch key) @
     to_be_bytes (pkey_key key)"

definition encode_candidates :: "PersistedPair list \<Rightarrow> bytes result" where
  "encode_candidates candidates =
     and_then (guard_ok (\<not> length candidates > MAX_ADMISSION_CANDIDATES) (InvalidInput ''candidate pair cap exceeded'')) (\<lambda>_.
     and_then (push_length [1] (length candidates)) (\<lambda>extension.
     push_ascending pp_peer_id ''candidate pairs are not canonical'' push_pair candidates extension))"

definition encode_store_state :: "PersistedState \<Rightarrow> bytes result" where
  "encode_store_state st =
     (let out = STORE_STATE_MAGIC @ [LOCAL_FORMAT_VERSION] @ peer_bytes (ps_local_id st) @ to_be_bytes (ps_next_slot st) in
      and_then (push_length out (length (ps_peers st))) (\<lambda>out.
      and_then (push_all encode_identity (ps_peers st) out) (\<lambda>out.
      and_then (push_length out (length (ps_pairs st))) (\<lambda>out.
      and_then (push_all push_pair (ps_pairs st) out) (\<lambda>out.
      and_then (push_length out (length (ps_keys st))) (\<lambda>out.
      let out = out @ concat (map key_bytes (ps_keys st)) in
      and_then (push_length out (length (ps_epoch_watermarks st))) (\<lambda>out.
      let out = out @ concat (map (\<lambda>(pid, epoch). peer_bytes pid @ epoch_bytes epoch) (ps_epoch_watermarks st)) in
      if ps_candidates st \<noteq> [] then
        and_then (encode_candidates (ps_candidates st)) (\<lambda>extension. push_variable out extension)
      else Inr out)))))))"

definition rd_document_pair :: "IdentityDocument parser" where
  "rd_document_pair =
     p_bind rd_variable (\<lambda>document_m.
     p_bind rd_variable (\<lambda>signature.
     p_lift (decode_identity_document document_m signature)))"

definition rd_pair_tail :: "PeerId \<Rightarrow> PersistedPair parser" where
  "rd_pair_tail pid =
     p_bind rd_u64 (\<lambda>epoch.
     p_bind rd_peer (\<lambda>initiator.
     p_bind rd_variable (\<lambda>message.
     p_bind rd_variable (\<lambda>signature.
     p_bind (p_lift (decode_wrap_message message signature)) (\<lambda>wrap.
     p_ret \<lparr>pp_peer_id = pid, pp_epoch = Epoch epoch, pp_initiator = initiator, pp_wrap = wrap\<rparr>)))))"

definition rd_pair :: "PersistedPair parser" where
  "rd_pair = p_bind rd_peer rd_pair_tail"

definition rd_key :: "PersistedKey parser" where
  "rd_key =
     p_bind rd_u64 (\<lambda>slot.
     p_bind rd_peer (\<lambda>pid.
     p_bind rd_u64 (\<lambda>epoch.
     p_bind rd_id32 (\<lambda>key.
     p_ret \<lparr>pkey_slot = slot, pkey_peer_id = pid, pkey_epoch = Epoch epoch, pkey_key = key\<rparr>))))"

definition rd_watermark :: "(PeerId \<times> Epoch) parser" where
  "rd_watermark = p_bind rd_peer (\<lambda>pid. p_bind rd_u64 (\<lambda>epoch. p_ret (pid, Epoch epoch)))"

text \<open>One canonical candidate: the order of the peers is checked before the rest is read.\<close>

definition candidate_step :: "PeerId option \<Rightarrow> (PeerId \<times> PersistedPair) parser" where
  "candidate_step previous =
     p_bind rd_peer (\<lambda>pid.
     p_bind (p_guard (above previous pid) (InvalidInput ''candidate pairs are not canonical'')) (\<lambda>_.
     p_bind (rd_pair_tail pid) (\<lambda>pair.
     p_ret (pid, pair))))"

definition decode_candidates :: "bytes \<Rightarrow> PersistedPair list result" where
  "decode_candidates bs = run_parser (
     p_bind rd_byte (\<lambda>version.
     p_bind (p_guard (version = 1) (InvalidInput ''unsupported candidate extension version'')) (\<lambda>_.
     p_bind (rd_count 160) (\<lambda>count.
     p_bind (p_guard (\<not> count > MAX_ADMISSION_CANDIDATES) (InvalidInput ''candidate pair cap exceeded'')) (\<lambda>_.
     p_bind (rd_ascending count candidate_step (\<lambda>pair pairs. pairs @ [pair]) []) (\<lambda>candidates.
     p_bind rd_finish (\<lambda>_.
     p_ret candidates)))))) ) bs"

definition decode_store_state :: "bytes \<Rightarrow> PersistedState result" where
  "decode_store_state bs = run_parser (
     p_bind (rd_require_prefix STORE_STATE_MAGIC) (\<lambda>_.
     p_bind rd_require_version (\<lambda>_.
     p_bind rd_peer (\<lambda>local_id.
     p_bind rd_u64 (\<lambda>next_slot.
     p_bind (rd_count 52) (\<lambda>peer_count.
     p_bind (rd_many peer_count rd_document_pair) (\<lambda>peers.
     p_bind (rd_count 160) (\<lambda>pair_count.
     p_bind (rd_many pair_count rd_pair) (\<lambda>pairs.
     p_bind (rd_count 80) (\<lambda>key_count.
     p_bind (rd_many key_count rd_key) (\<lambda>keys.
     p_bind p_remaining (\<lambda>rest.
     p_bind (if rest \<noteq> 0 then p_bind (rd_count 40) (\<lambda>n. rd_many n rd_watermark) else p_ret []) (\<lambda>watermarks.
     p_bind p_remaining (\<lambda>rest.
     p_bind (if rest \<noteq> 0 then p_bind rd_variable (\<lambda>b. p_lift (decode_candidates b)) else p_ret []) (\<lambda>candidates.
     p_bind rd_finish (\<lambda>_.
     p_ret \<lparr>ps_local_id = local_id, ps_next_slot = next_slot, ps_peers = peers, ps_pairs = pairs,
            ps_candidates = candidates, ps_keys = keys, ps_epoch_watermarks = watermarks\<rparr>)))))))))))))))) bs"

section \<open>Operations\<close>

record keystore =
  ks_inner :: StoreInner
  ks_state_file :: "bytes option"
  ks_identity_file :: "bytes option"

type_synonym 'a kop = "outcome list \<times> keystore \<Rightarrow> 'a result \<times> outcome list \<times> keystore"

definition k_ret :: "'a result \<Rightarrow> 'a kop" where
  "k_ret x s = (x, s)"

definition k_bind :: "'a kop \<Rightarrow> ('a \<Rightarrow> 'b kop) \<Rightarrow> 'b kop" where
  "k_bind p f s = (case p s of (Inl e, s') \<Rightarrow> (Inl e, s') | (Inr x, s') \<Rightarrow> f x s')"

definition k_inner :: "StoreInner kop" where
  "k_inner s = (Inr (ks_inner (snd s)), s)"

definition k_set :: "StoreInner \<Rightarrow> unit kop" where
  "k_set inner s = (Inr (), fst s, (snd s)\<lparr>ks_inner := inner\<rparr>)"

text \<open>A bounded atomic write of one of the two files, under the next outcome.\<close>

definition k_write :: "(bytes \<Rightarrow> keystore \<Rightarrow> keystore) \<Rightarrow> bytes \<Rightarrow> unit kop" where
  "k_write place bs s = (case s of (os, k) \<Rightarrow>
     if length bs > MAX_STORE_BYTES then (Inl (InvalidInput ''keystore file is too large''), os, k)
     else (case os of
        [] \<Rightarrow> (Inr (), [], place bs k)
      | Done # os \<Rightarrow> (Inr (), os, place bs k)
      | FailBefore # os \<Rightarrow> (Inl Io, os, k)
      | CrashBefore # os \<Rightarrow> (Inl Io, os, k)
      | FailAfter # os \<Rightarrow> (Inl Io, os, place bs k)
      | CrashAfter # os \<Rightarrow> (Inl Io, os, place bs k)))"

definition place_state :: "bytes \<Rightarrow> keystore \<Rightarrow> keystore" where
  "place_state bs k = k\<lparr>ks_state_file := Some bs\<rparr>"

definition place_identity :: "bytes \<Rightarrow> keystore \<Rightarrow> keystore" where
  "place_identity bs k = k\<lparr>ks_identity_file := Some bs\<rparr>"

text \<open>An operation whose error poisons the store.\<close>

definition k_or_fail :: "'a kop \<Rightarrow> 'a kop" where
  "k_or_fail p s = (case p s of
       (Inl e, os, k) \<Rightarrow> (Inl e, os, k\<lparr>ks_inner := (ks_inner k)\<lparr>si_failed := True\<rparr>\<rparr>)
     | (Inr x, s') \<Rightarrow> (Inr x, s'))"

definition persisted :: "StoreInner \<Rightarrow> PersistedState" where
  "persisted inner = \<lparr>ps_local_id = local_peer inner, ps_next_slot = si_next_slot inner,
     ps_peers = bm_values (si_peers inner), ps_pairs = bm_values (si_pairs inner),
     ps_candidates = bm_values (si_candidates inner),
     ps_keys = map (\<lambda>(slot, st). \<lparr>pkey_slot = slot, pkey_peer_id = pk_peer_id st, pkey_epoch = pk_epoch st,
       pkey_key = pk_key st\<rparr>) (si_keys inner),
     ps_epoch_watermarks = si_epoch_watermarks inner\<rparr>"

definition store_persist :: "unit kop" where
  "store_persist =
     k_bind k_inner (\<lambda>inner.
     k_or_fail (
       k_bind (k_ret (encode_store_state (persisted inner))) (\<lambda>bs.
       k_write place_state bs)))"

definition store_lock :: "StoreInner kop" where
  "store_lock =
     k_bind k_inner (\<lambda>inner.
     k_ret (if si_failed inner then Inl (State ''keystore persistence failed; reopen required'') else Inr inner))"

definition inner_session :: "StoreInner \<Rightarrow> PeerId \<Rightarrow> Epoch \<Rightarrow> PairSession result" where
  "inner_session inner pid epoch =
     and_then (ok_or (find (\<lambda>(slot, st). pk_peer_id st = pid \<and> pk_epoch st = epoch) (si_keys inner)) KeyUnavailable) (\<lambda>(slot, _).
     Inr \<lparr>ses_peer_id = pid, ses_epoch = epoch,
          ses_key_handle = \<lparr>ph_slot = slot, ph_store_id = si_instance_id inner\<rparr>\<rparr>)"

definition watermark_of :: "StoreInner \<Rightarrow> PeerId \<Rightarrow> Epoch" where
  "watermark_of inner pid = bm_or_default (Epoch 0) (si_epoch_watermarks inner) pid"

definition raise_watermark :: "PeerId \<Rightarrow> Epoch \<Rightarrow> StoreInner \<Rightarrow> StoreInner" where
  "raise_watermark pid epoch inner =
     inner\<lparr>si_epoch_watermarks := bm_insert pid (max (watermark_of inner pid) epoch) (si_epoch_watermarks inner)\<rparr>"

definition take_slot :: "u64 kop" where
  "take_slot =
     k_bind k_inner (\<lambda>inner.
     k_bind (k_ret (ok_or (checked_add (si_next_slot inner) 1) (State ''keystore slots exhausted''))) (\<lambda>following.
     k_bind (k_set (inner\<lparr>si_next_slot := following\<rparr>)) (\<lambda>_.
     k_ret (Inr (si_next_slot inner)))))"

definition drop_keys :: "PeerId \<Rightarrow> Epoch \<Rightarrow> StoreInner \<Rightarrow> StoreInner" where
  "drop_keys pid epoch inner =
     inner\<lparr>si_keys := bm_retain (\<lambda>_ st. pk_peer_id st \<noteq> pid \<or> pk_epoch st \<noteq> epoch) (si_keys inner)\<rparr>"

definition store_install :: "PeerId \<Rightarrow> PeerId \<Rightarrow> WrapMessage \<Rightarrow> 256 word \<Rightarrow> PairSession kop" where
  "store_install pid initiator message key =
     (let epoch = wm_epoch message in
      k_bind take_slot (\<lambda>slot.
      k_bind k_inner (\<lambda>inner.
      let inner = drop_keys pid epoch inner;
          inner = inner\<lparr>si_keys := bm_insert slot (pair_key_new key pid epoch) (si_keys inner)\<rparr>;
          inner = raise_watermark pid epoch inner;
          inner = inner\<lparr>si_pairs := bm_insert pid
            \<lparr>pp_peer_id = pid, pp_epoch = epoch, pp_initiator = initiator, pp_wrap = message\<rparr> (si_pairs inner)\<rparr> in
      k_bind (k_set inner) (\<lambda>_.
      k_bind store_persist (\<lambda>_.
      k_bind k_inner (\<lambda>inner. k_ret (inner_session inner pid epoch)))))))"

definition install_candidate :: "PeerId \<Rightarrow> PeerId \<Rightarrow> WrapMessage \<Rightarrow> 256 word \<Rightarrow> PairSession kop" where
  "install_candidate pid initiator message key =
     k_bind k_inner (\<lambda>inner.
     k_bind (k_ret (guard_ok (\<not> bm_contains (si_candidates inner) pid)
       (State ''peer admission candidate already exists''))) (\<lambda>_.
     k_bind (k_ret (guard_ok (\<not> length (si_candidates inner) \<ge> MAX_ADMISSION_CANDIDATES)
       (State ''too many retained admission candidates''))) (\<lambda>_.
     let epoch = wm_epoch message in
     k_bind take_slot (\<lambda>slot.
     k_bind k_inner (\<lambda>inner.
     let inner = inner\<lparr>si_keys := bm_insert slot (pair_key_new key pid epoch) (si_keys inner)\<rparr>;
         inner = raise_watermark pid epoch inner;
         inner = inner\<lparr>si_candidates := bm_insert pid
           \<lparr>pp_peer_id = pid, pp_epoch = epoch, pp_initiator = initiator, pp_wrap = message\<rparr> (si_candidates inner)\<rparr> in
     k_bind (k_set inner) (\<lambda>_.
     k_bind store_persist (\<lambda>_.
     k_bind k_inner (\<lambda>inner. k_ret (inner_session inner pid epoch)))))))))"

definition next_epoch :: "PeerId \<Rightarrow> Epoch kop" where
  "next_epoch pid =
     k_bind store_lock (\<lambda>inner.
     k_ret (and_then (ok_or (checked_add (epoch_raw (watermark_of inner pid)) 1) (State ''epoch exhausted'')) (\<lambda>n. Inr (Epoch n))))"

definition peer_epoch :: "PeerId \<Rightarrow> Epoch kop" where
  "peer_epoch pid = k_bind store_lock (\<lambda>inner. k_ret (Inr (watermark_of inner pid)))"

definition store_session :: "PeerId \<Rightarrow> Epoch \<Rightarrow> PairSession kop" where
  "store_session pid epoch = k_bind store_lock (\<lambda>inner. k_ret (inner_session inner pid epoch))"

definition current_session :: "PeerId \<Rightarrow> PairSession kop" where
  "current_session pid =
     k_bind store_lock (\<lambda>inner.
     k_ret (and_then (ok_or (bm_get (si_pairs inner) pid) KeyUnavailable) (\<lambda>pair.
       inner_session inner pid (pp_epoch pair))))"

definition candidate_session :: "PeerId \<Rightarrow> PairSession kop" where
  "candidate_session pid =
     k_bind store_lock (\<lambda>inner.
     k_ret (and_then (ok_or (bm_get (si_candidates inner) pid) KeyUnavailable) (\<lambda>pair.
       inner_session inner pid (pp_epoch pair))))"

definition mark_admitted :: "PeerId \<Rightarrow> unit kop" where
  "mark_admitted pid =
     k_bind store_lock (\<lambda>inner.
     k_bind (k_ret (ok_or (bm_get (si_pairs inner) pid) KeyUnavailable)) (\<lambda>pair.
     k_bind (k_ret (inner_session inner pid (pp_epoch pair))) (\<lambda>_.
     k_set (inner\<lparr>si_admitted_pairs := bm_insert pid (pp_epoch pair) (si_admitted_pairs inner)\<rparr>))))"

definition has_admitted_pair :: "PeerId \<Rightarrow> bool kop" where
  "has_admitted_pair pid =
     k_bind store_lock (\<lambda>inner.
     k_ret (Inr (case bm_get (si_admitted_pairs inner) pid of
         None \<Rightarrow> False
       | Some epoch \<Rightarrow>
           (case bm_get (si_pairs inner) pid of None \<Rightarrow> False | Some pair \<Rightarrow> pp_epoch pair = epoch) \<and>
           is_ok (inner_session inner pid epoch))))"

definition promote_candidate :: "PeerId \<Rightarrow> Epoch \<Rightarrow> PairSession kop" where
  "promote_candidate pid epoch =
     k_bind store_lock (\<lambda>inner.
     k_bind (k_ret (ok_or (bm_get (si_candidates inner) pid) KeyUnavailable)) (\<lambda>candidate.
     k_bind (k_ret (guard_ok (pp_epoch candidate = epoch) (State ''candidate epoch changed before admission''))) (\<lambda>_.
     k_bind (k_ret (guard_ok (\<not> (case bm_get (si_pairs inner) pid of
           None \<Rightarrow> False
         | Some confirmed \<Rightarrow> pp_epoch candidate \<le> pp_epoch confirmed))
       (State ''candidate is not newer than confirmed pair''))) (\<lambda>_.
     k_bind (k_set (inner\<lparr>si_candidates := bm_remove pid (si_candidates inner),
       si_pairs := bm_insert pid candidate (si_pairs inner),
       si_candidate_retry_epochs := bm_remove pid (si_candidate_retry_epochs inner)\<rparr>)) (\<lambda>_.
     k_bind store_persist (\<lambda>_.
     k_bind k_inner (\<lambda>inner. k_ret (inner_session inner pid epoch))))))))"

definition discard_candidate :: "PeerId \<Rightarrow> unit kop" where
  "discard_candidate pid =
     k_bind store_lock (\<lambda>inner.
     case bm_get (si_candidates inner) pid of
       None \<Rightarrow> k_ret (Inr ())
     | Some candidate \<Rightarrow>
         let inner = inner\<lparr>si_candidates := bm_remove pid (si_candidates inner)\<rparr>;
             inner = drop_keys pid (pp_epoch candidate) inner;
             inner = inner\<lparr>si_candidate_retry_epochs := bm_remove pid (si_candidate_retry_epochs inner)\<rparr> in
         k_bind (k_set inner) (\<lambda>_. store_persist))"

definition discard_pair :: "PeerId \<Rightarrow> unit kop" where
  "discard_pair pid =
     k_bind store_lock (\<lambda>inner.
     k_bind (k_set (inner\<lparr>
       si_keys := bm_retain (\<lambda>_ st. pk_peer_id st \<noteq> pid) (si_keys inner),
       si_pairs := bm_remove pid (si_pairs inner),
       si_candidates := bm_remove pid (si_candidates inner),
       si_retry_epochs := bm_remove pid (si_retry_epochs inner),
       si_candidate_retry_epochs := bm_remove pid (si_candidate_retry_epochs inner),
       si_mailbox_gates := bm_remove pid (si_mailbox_gates inner),
       si_peers := bm_remove pid (si_peers inner),
       si_admitted_pairs := bm_remove pid (si_admitted_pairs inner)\<rparr>)) (\<lambda>_.
     store_persist))"

definition observe_remote_epoch :: "PeerId \<Rightarrow> Epoch \<Rightarrow> unit kop" where
  "observe_remote_epoch pid epoch =
     k_bind store_lock (\<lambda>inner.
     k_bind (k_ret (guard_ok (bm_contains (si_peers inner) pid) KeyUnavailable)) (\<lambda>_.
     if epoch > watermark_of inner pid then
       k_bind (k_set (inner\<lparr>si_epoch_watermarks := bm_insert pid epoch (si_epoch_watermarks inner)\<rparr>)) (\<lambda>_. store_persist)
     else k_ret (Inr ())))"

definition retire :: "PairKeyHandle \<Rightarrow> unit kop" where
  "retire handle =
     k_bind store_lock (\<lambda>inner.
     k_bind (k_ret (guard_ok (\<not> (ph_store_id handle \<noteq> si_instance_id inner \<or> bm_get (si_keys inner) (ph_slot handle) = None))
       KeyUnavailable)) (\<lambda>_.
     k_bind (k_set (inner\<lparr>si_keys := bm_remove (ph_slot handle) (si_keys inner)\<rparr>)) (\<lambda>_. store_persist)))"

text \<open>\<open>with_pair_state\<close>: the operation's value, and its state stored back even when it is an error.\<close>

definition with_pair_state :: "PairKeyHandle \<Rightarrow> (PairKeyState \<Rightarrow> 'a result \<times> PairKeyState) \<Rightarrow> 'a kop" where
  "with_pair_state handle operation =
     k_bind store_lock (\<lambda>inner.
     k_bind (k_ret (guard_ok (\<not> ph_store_id handle \<noteq> si_instance_id inner) KeyUnavailable)) (\<lambda>_.
     k_bind (k_ret (ok_or (bm_get (si_keys inner) (ph_slot handle)) KeyUnavailable)) (\<lambda>key.
     let (r, key) = operation key in
     k_bind (k_set (inner\<lparr>si_keys := bm_insert (ph_slot handle) key (si_keys inner)\<rparr>)) (\<lambda>_. k_ret r))))"

definition block_live_traffic :: "PeerId \<Rightarrow> u64 \<Rightarrow> unit kop" where
  "block_live_traffic pid owner =
     k_bind store_lock (\<lambda>inner.
     k_set (inner\<lparr>si_mailbox_gates :=
       bm_insert pid (bs_insert owner (bm_or_default [] (si_mailbox_gates inner) pid)) (si_mailbox_gates inner)\<rparr>))"

definition unblock_live_traffic :: "PeerId \<Rightarrow> u64 \<Rightarrow> unit kop" where
  "unblock_live_traffic pid owner =
     k_bind store_lock (\<lambda>inner.
     case bm_get (si_mailbox_gates inner) pid of
       None \<Rightarrow> k_ret (Inr ())
     | Some owners \<Rightarrow>
         let owners = bs_remove owner owners in
         k_set (inner\<lparr>si_mailbox_gates :=
           if owners = [] then bm_remove pid (si_mailbox_gates inner)
           else bm_insert pid owners (si_mailbox_gates inner)\<rparr>))"

definition owns_live_gate :: "PeerId \<Rightarrow> u64 \<Rightarrow> bool kop" where
  "owns_live_gate peer owner =
     k_bind store_lock (\<lambda>inner.
     k_ret (Inr (case bm_get (si_mailbox_gates inner) peer of None \<Rightarrow> False | Some owners \<Rightarrow> owner \<in> set owners)))"

definition require_live_traffic :: "PeerId \<Rightarrow> unit kop" where
  "require_live_traffic pid =
     k_bind store_lock (\<lambda>inner.
     k_ret (guard_ok (\<not> (case bm_get (si_mailbox_gates inner) pid of None \<Rightarrow> False | Some owners \<Rightarrow> owners \<noteq> []))
       (State ''live traffic blocked until mailbox drain'')))"

definition load_verified_peer :: "PeerId \<Rightarrow> IdentityDocument kop" where
  "load_verified_peer pid = k_bind store_lock (\<lambda>inner. k_ret (ok_or (bm_get (si_peers inner) pid) KeyUnavailable))"

definition pending_wraps :: "WrapMessage list kop" where
  "pending_wraps =
     k_bind store_lock (\<lambda>inner.
     k_ret (Inr (map pp_wrap (filter (\<lambda>pair. pp_initiator pair = local_peer inner)
       (bm_values (si_pairs inner) @ bm_values (si_candidates inner))))))"

definition cached_pair :: "PeerId \<Rightarrow> (PeerId \<times> WrapMessage) option kop" where
  "cached_pair pid =
     k_bind store_lock (\<lambda>inner.
     k_ret (Inr (map_option (\<lambda>pair. (pp_initiator pair, pp_wrap pair)) (bm_get (si_pairs inner) pid))))"

definition cached_candidate :: "PeerId \<Rightarrow> (PeerId \<times> WrapMessage) option kop" where
  "cached_candidate pid =
     k_bind store_lock (\<lambda>inner.
     k_ret (Inr (map_option (\<lambda>pair. (pp_initiator pair, pp_wrap pair)) (bm_get (si_candidates inner) pid))))"

definition retry_epoch :: "PeerId \<Rightarrow> Epoch option kop" where
  "retry_epoch pid = k_bind store_lock (\<lambda>inner. k_ret (Inr (bm_get (si_retry_epochs inner) pid)))"

definition candidate_retry_epoch :: "PeerId \<Rightarrow> Epoch option kop" where
  "candidate_retry_epoch pid = k_bind store_lock (\<lambda>inner. k_ret (Inr (bm_get (si_candidate_retry_epochs inner) pid)))"

definition rotate_identity_ek :: "crypto \<Rightarrow> (256 word) result \<Rightarrow> u64 result \<Rightarrow> IdentityDocument kop" where
  "rotate_identity_ek c entropy unix_time =
     k_bind store_lock (\<lambda>inner.
     k_bind (k_ret (rotate_ek c entropy unix_time (si_local inner))) (\<lambda>rotated.
     k_bind (k_ret (encode_local_identity rotated)) (\<lambda>bs.
     k_bind (k_or_fail (k_write place_identity bs)) (\<lambda>_.
     k_bind k_inner (\<lambda>inner.
     k_bind (k_set (inner\<lparr>si_local := rotated\<rparr>)) (\<lambda>_.
     k_ret (Inr (li_document rotated))))))))"

end
