(* ===== verification/Wrap.thy ===== *)
theory Wrap
  imports Keystore
begin

text \<open>
  Construction B of \<open>backend/src/crypto/wrap.rs\<close>: wrapping a fresh pair key for a peer, unwrapping a
  peer's wrap, resolving two wraps that compete for an epoch, rotation; and the keystore operations
  that prepare wraps, \<open>import_peer\<close> and \<open>open\<close> of \<open>backend/src/keystore.rs\<close>. Entropy is an
  input: the pair key and the randomness of the encapsulation, each possibly unavailable.
\<close>

type_synonym entropy = "(256 word) result \<times> bytes result"

definition WRAP_GCM_NONCE :: bytes where
  "WRAP_GCM_NONCE = replicate 12 0"

definition encapsulate :: "crypto \<Rightarrow> bytes result \<Rightarrow> bytes \<Rightarrow> (256 word \<times> bytes) result" where
  "encapsulate c randomness peer_ek =
     and_then (guard_ok (cr_ek_ok c peer_ek) AuthenticationFailed) (\<lambda>_.
     and_then randomness (\<lambda>r. Inr (cr_encaps c peer_ek r)))"

definition decapsulate :: "crypto \<Rightarrow> 256 word \<Rightarrow> bytes \<Rightarrow> (256 word) result" where
  "decapsulate c seed kem_ct = ok_or (cr_decaps c seed kem_ct) AuthenticationFailed"

definition derive_wrap_key :: "crypto \<Rightarrow> 256 word \<Rightarrow> PeerId \<Rightarrow> PeerId \<Rightarrow> Epoch \<Rightarrow> (256 word) result" where
  "derive_wrap_key c secret min_id max_id epoch =
     and_then (wrap_hkdf_info min_id max_id epoch) (\<lambda>info. Inr (cr_hkdf c secret info))"

text \<open>The cryptographic half of \<open>create_inner\<close>: from the fresh pair key to the signed message.\<close>

definition wrap_message ::
  "crypto \<Rightarrow> entropy \<Rightarrow> LocalIdentity \<Rightarrow> PeerId \<Rightarrow> bytes \<Rightarrow> Epoch \<Rightarrow> (256 word \<times> WrapMessage) result" where
  "wrap_message c entropy local pid peer_ek epoch =
     (let min_id = min (id_peer_id (li_document local)) pid; max_id = max (id_peer_id (li_document local)) pid in
      and_then (fst entropy) (\<lambda>pair_key.
      and_then (encapsulate c (snd entropy) peer_ek) (\<lambda>(secret, kem_ct).
      and_then (derive_wrap_key c secret min_id max_id epoch) (\<lambda>wrap_key.
      and_then (wrap_aad min_id max_id epoch) (\<lambda>aad.
      and_then (ok_or (gcm_encrypt (cr_gcm c) wrap_key WRAP_GCM_NONCE aad (to_be_bytes pair_key)) AuthenticationFailed) (\<lambda>wrap_ct.
      let message = \<lparr>wm_kem_ct = kem_ct, wm_wrap_ct = wrap_ct, wm_epoch = epoch, wm_min_id = min_id,
        wm_max_id = max_id, wm_signature = []\<rparr> in
      and_then (wrap_m message) (\<lambda>m.
      and_then (mldsa_sign c (li_signing_seed local) WRAP_CONTEXT m) (\<lambda>signature.
      Inr (pair_key, message\<lparr>wm_signature := signature\<rparr>)))))))))"

text \<open>The cryptographic half of \<open>unwrap_inner\<close>.\<close>

definition open_wrap :: "crypto \<Rightarrow> LocalIdentity \<Rightarrow> WrapMessage \<Rightarrow> (256 word) result" where
  "open_wrap c local message =
     and_then (decapsulate c (li_kem_seed local) (wm_kem_ct message)) (\<lambda>secret.
     and_then (derive_wrap_key c secret (wm_min_id message) (wm_max_id message) (wm_epoch message)) (\<lambda>wrap_key.
     and_then (wrap_aad (wm_min_id message) (wm_max_id message) (wm_epoch message)) (\<lambda>aad.
     and_then (ok_or (gcm_decrypt (cr_gcm c) wrap_key WRAP_GCM_NONCE aad (wm_wrap_ct message)) AuthenticationFailed) (\<lambda>plaintext.
     and_then (guard_ok (length plaintext = 32) AuthenticationFailed) (\<lambda>_.
     Inr (from_be_bytes plaintext))))))"

section \<open>Creating a wrap\<close>

definition create_check :: "StoreInner \<Rightarrow> PeerId \<Rightarrow> bytes \<Rightarrow> Epoch \<Rightarrow> bool \<Rightarrow> unit result" where
  "create_check inner pid peer_ek epoch candidate =
     and_then (ok_or (bm_get (si_peers inner) pid) KeyUnavailable) (\<lambda>peer.
     and_then (guard_ok (id_ek peer = peer_ek) AuthenticationFailed) (\<lambda>_.
     and_then (guard_ok (\<not> (candidate \<and> bm_contains (si_candidates inner) pid))
       (State ''peer admission candidate already exists'')) (\<lambda>_.
     and_then (guard_ok (\<not> (\<not> bm_contains (si_pairs inner) pid \<and> local_peer inner \<ge> pid))
       (State ''smaller peer initiates first contact'')) (\<lambda>_.
     and_then (ok_or (checked_add (epoch_raw (watermark_of inner pid)) 1) (State ''epoch exhausted'')) (\<lambda>n.
     guard_ok (epoch_raw epoch = n) (InvalidInput ''wrap must use the next epoch''))))))"

definition create_inner ::
  "crypto \<Rightarrow> entropy \<Rightarrow> PeerId \<Rightarrow> bytes \<Rightarrow> Epoch \<Rightarrow> bool \<Rightarrow> (PairSession \<times> WrapMessage) kop" where
  "create_inner c entropy pid peer_ek epoch candidate =
     k_bind store_lock (\<lambda>inner.
     k_bind (k_ret (create_check inner pid peer_ek epoch candidate)) (\<lambda>_.
     k_bind (k_ret (wrap_message c entropy (si_local inner) pid peer_ek epoch)) (\<lambda>(pair_key, message).
     let inner = (if candidate
           then inner\<lparr>si_candidate_retry_epochs := bm_remove pid (si_candidate_retry_epochs inner)\<rparr>
           else inner\<lparr>si_retry_epochs := bm_remove pid (si_retry_epochs inner)\<rparr>) in
     k_bind (k_set inner) (\<lambda>_.
     k_bind (if candidate then install_candidate pid (local_peer inner) message pair_key
             else store_install pid (local_peer inner) message pair_key) (\<lambda>session.
     k_ret (Inr (session, message)))))))"

section \<open>Accepting a wrap\<close>

datatype verdict = Reuse | Proceed (is_collision: bool) (is_supersede: bool)

definition wrap_verdict ::
  "PeerId \<Rightarrow> PeerId \<Rightarrow> WrapMessage \<Rightarrow> bool \<Rightarrow> Epoch \<Rightarrow> PersistedPair option \<Rightarrow> verdict result" where
  "wrap_verdict local_id sender_id message candidate expected existing = (case existing of
       None \<Rightarrow>
         if \<not> candidate \<and> (sender_id \<ge> local_id \<or> wm_epoch message \<noteq> expected)
         then Inl (State ''invalid first-contact initiator or epoch'')
         else Inr (Proceed False False)
     | Some previous \<Rightarrow>
         if wm_epoch message < pp_epoch previous then Inl (State ''stale wrap epoch'')
         else if wm_epoch message = pp_epoch previous then
           (if pp_initiator previous = sender_id \<and> pp_wrap previous = message then Inr Reuse
            else if pp_initiator previous \<le> sender_id then
              and_then (ok_or (checked_add (epoch_raw (wm_epoch message)) 1) (State ''epoch exhausted'')) (\<lambda>n.
              Inl (EpochConflict (Epoch n)))
            else Inr (Proceed True False))
         else Inr (Proceed False candidate))"

definition unwrap_check ::
  "crypto \<Rightarrow> StoreInner \<Rightarrow> PeerId \<Rightarrow> WrapMessage \<Rightarrow> bool \<Rightarrow> verdict result" where
  "unwrap_check c inner sender_id message candidate =
     and_then (ok_or (bm_get (si_peers inner) sender_id) KeyUnavailable) (\<lambda>sender.
     and_then (guard_ok (\<not> (wm_min_id message \<noteq> min (local_peer inner) sender_id \<or>
         wm_max_id message \<noteq> max (local_peer inner) sender_id)) AuthenticationFailed) (\<lambda>_.
     and_then (wrap_m message) (\<lambda>m.
     and_then (mldsa_verify c (id_vk sender) WRAP_CONTEXT m (wm_signature message)) (\<lambda>_.
     and_then (ok_or (checked_add (epoch_raw (watermark_of inner sender_id)) 1) (State ''epoch exhausted'')) (\<lambda>n.
     and_then (wrap_verdict (local_peer inner) sender_id message candidate (Epoch n)
       (if candidate then bm_get (si_candidates inner) sender_id else bm_get (si_pairs inner) sender_id)) (\<lambda>v.
     case v of
       Reuse \<Rightarrow> Inr Reuse
     | Proceed collision supersede \<Rightarrow>
         and_then (guard_ok (\<not> (candidate \<and> \<not> collision \<and> wm_epoch message < Epoch n))
           (State ''invalid candidate initiator or epoch'')) (\<lambda>_.
         Inr v)))))))"

text \<open>What a collision or a newer candidate does to the retry epochs and to the replaced candidate.\<close>

definition note_collision :: "PeerId \<Rightarrow> WrapMessage \<Rightarrow> bool \<Rightarrow> bool \<Rightarrow> StoreInner \<Rightarrow> StoreInner result" where
  "note_collision sender_id message candidate collision inner =
     (if collision then
        and_then (ok_or (checked_add (epoch_raw (wm_epoch message)) 1) (State ''epoch exhausted'')) (\<lambda>n.
        Inr (if candidate
          then inner\<lparr>si_candidate_retry_epochs := bm_insert sender_id (Epoch n) (si_candidate_retry_epochs inner)\<rparr>
          else inner\<lparr>si_retry_epochs := bm_insert sender_id (Epoch n) (si_retry_epochs inner)\<rparr>))
      else Inr inner)"

definition replace_candidate :: "PeerId \<Rightarrow> bool \<Rightarrow> bool \<Rightarrow> StoreInner \<Rightarrow> StoreInner" where
  "replace_candidate sender_id collision supersede inner =
     (if supersede \<or> collision then
        (let inner = (case bm_get (si_candidates inner) sender_id of
               None \<Rightarrow> inner
             | Some previous \<Rightarrow> drop_keys sender_id (pp_epoch previous)
                 (inner\<lparr>si_candidates := bm_remove sender_id (si_candidates inner)\<rparr>)) in
         if supersede
         then inner\<lparr>si_candidate_retry_epochs := bm_remove sender_id (si_candidate_retry_epochs inner)\<rparr>
         else inner)
      else inner)"

definition unwrap_inner :: "crypto \<Rightarrow> PeerId \<Rightarrow> WrapMessage \<Rightarrow> bool \<Rightarrow> PairSession kop" where
  "unwrap_inner c sender_id message candidate =
     k_bind store_lock (\<lambda>inner.
     k_bind (k_ret (unwrap_check c inner sender_id message candidate)) (\<lambda>v.
     case v of
       Reuse \<Rightarrow> k_ret (inner_session inner sender_id (wm_epoch message))
     | Proceed collision supersede \<Rightarrow>
         k_bind (k_ret (open_wrap c (si_local inner) message)) (\<lambda>key.
         k_bind (k_ret (note_collision sender_id message candidate collision inner)) (\<lambda>inner.
         if candidate then
           k_bind (k_set (replace_candidate sender_id collision supersede inner)) (\<lambda>_.
           install_candidate sender_id sender_id message key)
         else
           k_bind (k_set inner) (\<lambda>_.
           store_install sender_id sender_id message key)))))"

section \<open>Retries and rotation\<close>

definition wrap_retry :: "WrapMessage \<Rightarrow> WrapMessage kop" where
  "wrap_retry message =
     k_bind store_lock (\<lambda>inner.
     k_ret (if list_ex (\<lambda>pair. pp_initiator pair = local_peer inner \<and> pp_wrap pair = message)
         (bm_values (si_pairs inner) @ bm_values (si_candidates inner))
       then Inr message else Inl (State ''wrap is not a cached local ciphertext'')))"

definition retry_collision :: "crypto \<Rightarrow> entropy \<Rightarrow> PeerId \<Rightarrow> (PairSession \<times> WrapMessage) kop" where
  "retry_collision c entropy pid =
     k_bind store_lock (\<lambda>inner.
     k_bind (k_ret (ok_or (bm_get (si_retry_epochs inner) pid) (State ''no losing wrap to retry''))) (\<lambda>epoch.
     k_bind (k_ret (ok_or (bm_get (si_peers inner) pid) KeyUnavailable)) (\<lambda>peer.
     create_inner c entropy pid (id_ek peer) epoch False)))"

definition retry_candidate_collision :: "crypto \<Rightarrow> entropy \<Rightarrow> PeerId \<Rightarrow> (PairSession \<times> WrapMessage) kop" where
  "retry_candidate_collision c entropy pid =
     k_bind store_lock (\<lambda>inner.
     k_bind (k_ret (ok_or (bm_get (si_candidate_retry_epochs inner) pid) (State ''no losing candidate wrap to retry''))) (\<lambda>epoch.
     k_bind (k_ret (ok_or (bm_get (si_peers inner) pid) KeyUnavailable)) (\<lambda>peer.
     k_bind (discard_candidate pid) (\<lambda>_.
     create_inner c entropy pid (id_ek peer) epoch True))))"

fun create_each :: "crypto \<Rightarrow> (PeerId \<Rightarrow> entropy) \<Rightarrow> (PeerId \<times> bytes) list \<Rightarrow> unit kop" where
  "create_each c entropy [] = k_ret (Inr ())"
| "create_each c entropy ((pid, ek) # peers) =
     k_bind (next_epoch pid) (\<lambda>epoch.
     k_bind (create_inner c (entropy pid) pid ek epoch False) (\<lambda>_.
     create_each c entropy peers))"

definition rotate_all :: "crypto \<Rightarrow> (PeerId \<Rightarrow> entropy) \<Rightarrow> nat kop" where
  "rotate_all c entropy =
     k_bind store_lock (\<lambda>inner.
     k_bind (k_ret (map_ok (\<lambda>pid.
         and_then (ok_or (bm_get (si_peers inner) pid) KeyUnavailable) (\<lambda>peer. Inr (pid, id_ek peer)))
       (bm_keys (si_pairs inner)))) (\<lambda>peers.
     k_bind (create_each c entropy peers) (\<lambda>_.
     k_ret (Inr (length peers)))))"

section \<open>Importing a peer\<close>

text \<open>An operation whose value is dropped and whose error is handled.\<close>

definition k_catch :: "'a kop \<Rightarrow> (error \<Rightarrow> unit kop) \<Rightarrow> unit kop" where
  "k_catch p handler s = (case p s of (Inl e, s') \<Rightarrow> handler e s' | (Inr _, s') \<Rightarrow> (Inr (), s'))"

definition import_peer :: "crypto \<Rightarrow> entropy \<Rightarrow> IdentityDocument \<Rightarrow> unit kop" where
  "import_peer c entropy document =
     k_bind (k_ret (identity_verify c document)) (\<lambda>_.
     k_bind store_lock (\<lambda>inner.
     k_bind (k_ret (guard_ok (id_peer_id document \<noteq> local_peer inner)
       (InvalidInput ''cannot import the local member as a peer''))) (\<lambda>_.
     k_bind (k_ret (guard_ok (\<not> (case bm_get (si_peers inner) (id_peer_id document) of
           None \<Rightarrow> False
         | Some previous \<Rightarrow> document \<noteq> previous \<and> id_created_at document \<le> id_created_at previous))
       AuthenticationFailed)) (\<lambda>_.
     let rewrap = (case bm_get (si_peers inner) (id_peer_id document) of
             None \<Rightarrow> False
           | Some previous \<Rightarrow> id_ek previous \<noteq> id_ek document \<and> bm_contains (si_pairs inner) (id_peer_id document)) in
     k_bind (k_set (inner\<lparr>si_peers := bm_insert (id_peer_id document) document (si_peers inner)\<rparr>)) (\<lambda>_.
     k_bind store_persist (\<lambda>_.
     if rewrap then
       k_bind (next_epoch (id_peer_id document)) (\<lambda>epoch.
       k_catch (create_inner c entropy (id_peer_id document) (id_ek document) epoch False) (\<lambda>error.
         k_bind store_lock (\<lambda>inner.
         k_bind (k_set (inner\<lparr>si_failed := True\<rparr>)) (\<lambda>_. k_ret (Inl error)))))
     else k_ret (Inr ())))))))"

section \<open>Opening the keystore\<close>

definition restore_watermark :: "PeerId \<times> Epoch \<Rightarrow> StoreInner \<Rightarrow> StoreInner result" where
  "restore_watermark entry inner = (case entry of (pid, epoch) \<Rightarrow>
     and_then (guard_ok (\<not> (epoch = Epoch 0 \<or> bm_contains (si_epoch_watermarks inner) pid))
       (InvalidInput ''invalid persisted epoch watermark'')) (\<lambda>_.
     Inr (inner\<lparr>si_epoch_watermarks := bm_insert pid epoch (si_epoch_watermarks inner)\<rparr>)))"

definition restore_peer :: "crypto \<Rightarrow> IdentityDocument \<Rightarrow> StoreInner \<Rightarrow> StoreInner result" where
  "restore_peer c peer inner =
     and_then (identity_verify c peer) (\<lambda>_.
     and_then (guard_ok (\<not> (id_peer_id peer = local_peer inner \<or> bm_contains (si_peers inner) (id_peer_id peer)))
       (InvalidInput ''duplicate or local persisted peer'')) (\<lambda>_.
     Inr (inner\<lparr>si_peers := bm_insert (id_peer_id peer) peer (si_peers inner)\<rparr>)))"

definition check_pair :: "crypto \<Rightarrow> PersistedPair \<Rightarrow> StoreInner \<Rightarrow> bool \<Rightarrow> unit result" where
  "check_pair c pair inner fresh =
     and_then (ok_or (bm_get (si_peers inner) (pp_peer_id pair)) AuthenticationFailed) (\<lambda>peer.
     and_then (if pp_initiator pair = local_peer inner then Inr (li_document (si_local inner))
               else if pp_initiator pair = id_peer_id peer then Inr peer
               else Inl AuthenticationFailed) (\<lambda>signer.
     and_then (guard_ok (\<not> (pp_epoch pair \<noteq> wm_epoch (pp_wrap pair) \<or>
         wm_min_id (pp_wrap pair) \<noteq> min (local_peer inner) (id_peer_id peer) \<or>
         wm_max_id (pp_wrap pair) \<noteq> max (local_peer inner) (id_peer_id peer) \<or> \<not> fresh)) AuthenticationFailed) (\<lambda>_.
     and_then (wrap_m (pp_wrap pair)) (\<lambda>m.
     mldsa_verify c (id_vk signer) WRAP_CONTEXT m (wm_signature (pp_wrap pair))))))"

definition restore_pair :: "crypto \<Rightarrow> PersistedPair \<Rightarrow> StoreInner \<Rightarrow> StoreInner result" where
  "restore_pair c pair inner =
     and_then (check_pair c pair inner True) (\<lambda>_.
     and_then (guard_ok (\<not> bm_contains (si_pairs inner) (pp_peer_id pair)) (InvalidInput ''duplicate persisted pair'')) (\<lambda>_.
     Inr (raise_watermark (pp_peer_id pair) (pp_epoch pair)
       (inner\<lparr>si_pairs := bm_insert (pp_peer_id pair) pair (si_pairs inner)\<rparr>))))"

definition restore_candidate ::
  "crypto \<Rightarrow> PersistedPair \<Rightarrow> PeerId btree_set \<times> StoreInner \<Rightarrow> (PeerId btree_set \<times> StoreInner) result" where
  "restore_candidate c pair acc = (case acc of (seen, inner) \<Rightarrow>
     and_then (check_pair c pair inner (pp_peer_id pair \<notin> set seen)) (\<lambda>_.
     Inr (bs_insert (pp_peer_id pair) seen, raise_watermark (pp_peer_id pair) (pp_epoch pair) inner)))"

definition restore_state :: "crypto \<Rightarrow> PersistedState \<Rightarrow> StoreInner \<Rightarrow> StoreInner result" where
  "restore_state c stored inner =
     and_then (guard_ok (ps_local_id stored = local_peer inner) AuthenticationFailed) (\<lambda>_.
     and_then (fold_ok restore_watermark (ps_epoch_watermarks stored) (inner\<lparr>si_next_slot := ps_next_slot stored\<rparr>)) (\<lambda>inner.
     and_then (fold_ok (restore_peer c) (ps_peers stored) inner) (\<lambda>inner.
     and_then (fold_ok (restore_pair c) (ps_pairs stored) inner) (\<lambda>inner.
     and_then (guard_ok (\<not> length (ps_candidates stored) > MAX_ADMISSION_CANDIDATES)
       (InvalidInput ''too many persisted admission candidates'')) (\<lambda>_.
     and_then (fold_ok (restore_candidate c) (ps_candidates stored) ([], inner)) (\<lambda>(_, inner).
     Inr inner))))))"

text \<open>
  \<open>KeyStore::open\<close>, once the advisory lock is held: \<open>identity_file\<close> is the content of the identity
  file, the store's own files are those of the keystore; keys of earlier runs are not activated,
  and every known pair (and first contact this side initiates) gets a wrap of a fresh epoch.
\<close>

definition initial_inner :: "LocalIdentity \<Rightarrow> 256 word \<Rightarrow> StoreInner" where
  "initial_inner local instance_id = \<lparr>si_local = local, si_peers = [], si_pairs = [], si_candidates = [], si_keys = [],
     si_retry_epochs = [], si_candidate_retry_epochs = [], si_epoch_watermarks = [], si_instance_id = instance_id,
     si_next_slot = 0, si_mailbox_gates = [], si_admitted_pairs = [], si_failed = False\<rparr>"

definition open_identity :: "crypto \<Rightarrow> LocalIdentity result \<Rightarrow> LocalIdentity kop" where
  "open_identity c generated s =
     (let identity_file = ks_identity_file (snd s); state_file = ks_state_file (snd s) in
      if (case identity_file of None \<Rightarrow> False | Some bs \<Rightarrow> length bs > MAX_STORE_BYTES)
      then (Inl (InvalidInput ''keystore file is too large''), s)
      else if (identity_file = None \<or> identity_file = Some []) \<and> state_file \<noteq> None
      then (Inl (State ''identity is missing while pair state exists''), s)
      else (case identity_file of
          Some (b # bs) \<Rightarrow> k_ret (decode_local_identity c (b # bs)) s
        | _ \<Rightarrow>
            k_bind (k_ret generated) (\<lambda>local.
            k_bind (k_ret (encode_local_identity local)) (\<lambda>bs.
            k_bind (k_write place_identity bs) (\<lambda>_.
            k_ret (Inr local)))) s))"

definition open_load :: "crypto \<Rightarrow> LocalIdentity \<Rightarrow> (256 word) result \<Rightarrow> unit kop" where
  "open_load c local instance_id s =
     k_bind (k_ret instance_id) (\<lambda>instance_id.
     k_bind (k_ret (case ks_state_file (snd s) of
         None \<Rightarrow> Inr (initial_inner local instance_id)
       | Some bs \<Rightarrow>
           if length bs > MAX_STORE_BYTES then Inl (InvalidInput ''keystore file is too large'')
           else and_then (decode_store_state bs) (\<lambda>stored.
             restore_state c stored (initial_inner local instance_id)))) (\<lambda>inner.
     k_bind (k_set inner) (\<lambda>_. store_persist))) s"

definition open_targets :: "StoreInner \<Rightarrow> (PeerId \<times> bytes) list" where
  "open_targets inner = map (\<lambda>peer. (id_peer_id peer, id_ek peer))
     (filter (\<lambda>peer. bm_contains (si_pairs inner) (id_peer_id peer) \<or> local_peer inner < id_peer_id peer)
       (bm_values (si_peers inner)))"

definition keystore_open ::
  "crypto \<Rightarrow> LocalIdentity result \<Rightarrow> (256 word) result \<Rightarrow> (PeerId \<Rightarrow> entropy) \<Rightarrow> unit kop" where
  "keystore_open c generated instance_id entropy =
     k_bind (open_identity c generated) (\<lambda>local.
     k_bind (open_load c local instance_id) (\<lambda>_.
     k_bind store_lock (\<lambda>inner.
     create_each c entropy (open_targets inner))))"

end
