(* ===== verification/Keystore_State.thy ===== *)
theory Keystore_State
  imports Keystore
begin

text \<open>
  The keystore's state file is a faithful copy of what is persisted: reading back what
  \<open>encode_store_state\<close> wrote returns it (\<open>backend/src/encoding.rs\<close>).
\<close>

interpretation c_store_document: codec rd_document_pair identity_wire
  "\<lambda>d. identity_ok d \<and> short (identity_bytes d) \<and> short (id_signature d)" 52
proof
  fix d :: IdentityDocument and post :: bytes
  assume "identity_ok d \<and> short (identity_bytes d) \<and> short (id_signature d)"
  then show "reads rd_document_pair d (identity_wire d) post"
    by (auto simp: rd_document_pair_def identity_wire_def decode_identity_document_Inr short_usize
        intro!: reads_bind [OF reads_variable] reads_bind_last [OF reads_variable] reads_lift)
next
  fix pre rest r' and d :: IdentityDocument
  assume "rd_document_pair (at pre rest) = Inr (d, r')"
  then show "(identity_ok d \<and> short (identity_bytes d) \<and> short (id_signature d)) \<and>
      (\<exists>post. rest = identity_wire d @ post \<and> r' = at (pre @ identity_wire d) post)"
    by (auto simp: rd_document_pair_def identity_wire_def decode_identity_document_Inr short_usize elim!: wire_elim)
qed (simp_all add: identity_wire_def identity_bytes_def)

definition pair_bytes :: "PersistedPair \<Rightarrow> bytes" where
  "pair_bytes p = peer_bytes (pp_peer_id p) @ epoch_bytes (pp_epoch p) @ peer_bytes (pp_initiator p) @
     var_bytes (wrap_bytes (pp_wrap p)) @ var_bytes (wm_signature (pp_wrap p))"

definition pair_valid :: "PersistedPair \<Rightarrow> bool" where
  "pair_valid p \<longleftrightarrow> wrap_ok (pp_wrap p) \<and> short (wrap_bytes (pp_wrap p)) \<and> short (wm_signature (pp_wrap p))"

lemma push_pair_Inr: "push_pair p = Inr b \<longleftrightarrow> pair_valid p \<and> b = pair_bytes p"
  by (auto simp: push_pair_def pair_valid_def pair_bytes_def)

lemma pair_size: "160 \<le> length (pair_bytes p)"
  by (simp add: pair_bytes_def wrap_bytes_def)

lemma reads_pair_tail:
  "pair_valid p \<Longrightarrow> pp_peer_id p = pid \<Longrightarrow>
    reads (rd_pair_tail pid) p (epoch_bytes (pp_epoch p) @ peer_bytes (pp_initiator p) @
      var_bytes (wrap_bytes (pp_wrap p)) @ var_bytes (wm_signature (pp_wrap p))) post"
  by (auto simp: rd_pair_tail_def pair_valid_def decode_wrap_message_Inr short_usize
      intro!: reads_bind [OF reads_u64] reads_bind [OF reads_peer] reads_bind [OF reads_variable]
        reads_bind_last [OF reads_variable] reads_bind_nil [OF reads_lift] reads_ret')

lemma rd_pair_tail_inv:
  assumes "rd_pair_tail pid (at pre rest) = Inr (p, r')"
  shows "pair_valid p \<and> pp_peer_id p = pid \<and>
    (\<exists>post. rest = epoch_bytes (pp_epoch p) @ peer_bytes (pp_initiator p) @ var_bytes (wrap_bytes (pp_wrap p)) @
       var_bytes (wm_signature (pp_wrap p)) @ post \<and>
     r' = at (pre @ epoch_bytes (pp_epoch p) @ peer_bytes (pp_initiator p) @ var_bytes (wrap_bytes (pp_wrap p)) @
       var_bytes (wm_signature (pp_wrap p))) post)"
  using assms by (auto simp: rd_pair_tail_def pair_valid_def decode_wrap_message_Inr short_usize elim!: wire_elim)

interpretation c_pair: codec rd_pair pair_bytes pair_valid 160
proof
  fix p :: PersistedPair and post :: bytes
  assume "pair_valid p"
  then show "reads rd_pair p (pair_bytes p) post"
    unfolding rd_pair_def pair_bytes_def by (intro reads_bind [OF reads_peer] reads_pair_tail) auto
next
  fix pre rest r' and p :: PersistedPair
  assume "rd_pair (at pre rest) = Inr (p, r')"
  then show "pair_valid p \<and> (\<exists>post. rest = pair_bytes p @ post \<and> r' = at (pre @ pair_bytes p) post)"
    by (auto simp: rd_pair_def pair_bytes_def elim!: rd_peer_inv dest!: rd_pair_tail_inv)
qed (simp_all add: pair_size)

interpretation a_candidates: ascending candidate_step pp_peer_id pair_bytes pair_valid 160
proof
  fix p :: PersistedPair and previous :: "PeerId option" and post :: bytes
  assume "pair_valid p" "above previous (pp_peer_id p)"
  then show "reads (candidate_step previous) (pp_peer_id p, p) (pair_bytes p) post"
    unfolding candidate_step_def pair_bytes_def
    by (intro reads_bind [OF reads_peer] reads_bind_nil [OF reads_guard] reads_bind_last [OF reads_pair_tail] reads_ret') auto
next
  fix previous pre rest k r' and p :: PersistedPair
  assume "candidate_step previous (at pre rest) = Inr ((k, p), r')"
  then show "k = pp_peer_id p \<and> pair_valid p \<and> above previous (pp_peer_id p) \<and>
      (\<exists>post. rest = pair_bytes p @ post \<and> r' = at (pre @ pair_bytes p) post)"
    by (auto simp: candidate_step_def pair_bytes_def elim!: rd_peer_inv dest!: rd_pair_tail_inv)
qed (simp add: pair_size)

interpretation c_key: codec rd_key key_bytes "\<lambda>_. True" 80
proof
  fix k :: PersistedKey and post :: bytes
  show "reads rd_key k (key_bytes k) post"
    unfolding rd_key_def key_bytes_def
    by (intro reads_bind [OF reads_u64] reads_bind [OF reads_peer] reads_bind_last [OF reads_id32] reads_ret') simp
next
  fix pre rest r' and k :: PersistedKey
  assume "rd_key (at pre rest) = Inr (k, r')"
  then show "True \<and> (\<exists>post. rest = key_bytes k @ post \<and> r' = at (pre @ key_bytes k) post)"
    by (auto simp: rd_key_def key_bytes_def elim!: wire_elim)
qed (simp_all add: key_bytes_def)

interpretation c_watermark: codec rd_watermark "\<lambda>e. peer_bytes (fst e) @ epoch_bytes (snd e)" "\<lambda>_. True" 40
proof
  fix e :: "PeerId \<times> Epoch" and post :: bytes
  show "reads rd_watermark e (peer_bytes (fst e) @ epoch_bytes (snd e)) post"
    unfolding rd_watermark_def
    by (intro reads_bind [OF reads_peer] reads_bind_last [OF reads_u64] reads_ret') simp
next
  fix pre rest r' and e :: "PeerId \<times> Epoch"
  assume "rd_watermark (at pre rest) = Inr (e, r')"
  then show "True \<and> (\<exists>post. rest = (peer_bytes (fst e) @ epoch_bytes (snd e)) @ post \<and>
      r' = at (pre @ peer_bytes (fst e) @ epoch_bytes (snd e)) post)"
    by (auto simp: rd_watermark_def elim!: wire_elim)
qed simp_all

section \<open>The extension\<close>

definition candidates_bytes :: "PersistedPair list \<Rightarrow> bytes" where
  "candidates_bytes cs = 1 # len_bytes (length cs) @ concat (map pair_bytes cs)"

lemma map_ok_push_pair:
  "map_ok push_pair ps = Inr bs \<longleftrightarrow> (\<forall>p \<in> set ps. pair_valid p) \<and> bs = map pair_bytes ps"
  by (induction ps arbitrary: bs) (auto simp: push_pair_Inr)

lemma encode_candidates_Inr:
  "encode_candidates cs = Inr b \<longleftrightarrow> length cs \<le> MAX_ADMISSION_CANDIDATES \<and> (\<forall>p \<in> set cs. pair_valid p) \<and>
     sorted_wrt (<) (map pp_peer_id cs) \<and> b = candidates_bytes cs"
  by (auto simp: encode_candidates_def push_ascending_Inr map_ok_push_pair candidates_bytes_def MAX_ADMISSION_CANDIDATES_def)

lemma decode_candidates_bytes:
  assumes "encode_candidates cs = Inr b" and "length b \<le> usize_max"
  shows "decode_candidates b = Inr cs"
proof -
  have cs: "length cs \<le> 32" "\<forall>p \<in> set cs. pair_valid p" "sorted_wrt (<) (map pp_peer_id cs)" and b: "b = candidates_bytes cs"
    using assms(1) by (auto simp: encode_candidates_Inr MAX_ADMISSION_CANDIDATES_def)
  have size: "length cs * 160 \<le> length (concat (map pair_bytes cs))"
    by (rule a_candidates.seq_size [OF cs(2)])
  have asc: "reads (rd_ascending (length cs) candidate_step (\<lambda>p ps. ps @ [p]) []) cs (concat (map pair_bytes cs)) post" for post
    using a_candidates.reads_ascending [OF cs(2,3) refl, of "\<lambda>p ps. ps @ [p]" "[]" post] by simp
  show ?thesis
    unfolding decode_candidates_def
    by (rule run_parser_reads [OF _ assms(2)], unfold b candidates_bytes_def)
      (use cs size in \<open>auto simp: MAX_ADMISSION_CANDIDATES_def intro!: reads_byte_bind reads_bind_nil [OF reads_guard]
         reads_bind [OF reads_count] reads_bind_last [OF asc] reads_bind_last [OF reads_finish] reads_ret'\<close>)
qed

section \<open>The file\<close>

definition store_bytes :: "PersistedState \<Rightarrow> bytes" where
  "store_bytes st = STORE_STATE_MAGIC @ [LOCAL_FORMAT_VERSION] @ peer_bytes (ps_local_id st) @ to_be_bytes (ps_next_slot st) @
     c_store_document.counted (ps_peers st) @ c_pair.counted (ps_pairs st) @ c_key.counted (ps_keys st) @
     c_watermark.counted (ps_epoch_watermarks st) @
     (if ps_candidates st = [] then [] else var_bytes (candidates_bytes (ps_candidates st)))"

definition store_valid :: "PersistedState \<Rightarrow> bool" where
  "store_valid st \<longleftrightarrow>
     short (ps_peers st) \<and> (\<forall>d \<in> set (ps_peers st). identity_ok d \<and> short (identity_bytes d) \<and> short (id_signature d)) \<and>
     short (ps_pairs st) \<and> (\<forall>p \<in> set (ps_pairs st). pair_valid p) \<and> short (ps_keys st) \<and> short (ps_epoch_watermarks st) \<and>
     (ps_candidates st \<noteq> [] \<longrightarrow> short (candidates_bytes (ps_candidates st)) \<and>
        encode_candidates (ps_candidates st) = Inr (candidates_bytes (ps_candidates st)))"

lemma encode_identity_wire:
  "encode_identity d = Inr b \<longleftrightarrow> (identity_ok d \<and> short (identity_bytes d) \<and> short (id_signature d)) \<and> b = identity_wire d"
  by (auto simp: encode_identity_Inr identity_wire_def)

lemma watermark_bytes_case:
  "concat (map (\<lambda>(p, e). peer_bytes p @ epoch_bytes e) ms) = concat (map (\<lambda>e. peer_bytes (fst e) @ epoch_bytes (snd e)) ms)"
  by (simp add: case_prod_unfold)

lemma encode_store_state_Inr: "encode_store_state st = Inr b \<longleftrightarrow> store_valid st \<and> b = store_bytes st"
  unfolding encode_store_state_def Let_def watermark_bytes_case
  by (auto simp: push_all_Inr [OF encode_identity_wire] push_all_Inr [OF push_pair_Inr] encode_candidates_Inr
      store_valid_def store_bytes_def c_store_document.counted_def c_pair.counted_def c_key.counted_def
      c_watermark.counted_def short_def)

lemma counted_rest: "p_bind (rd_count m) (\<lambda>n. p_bind (rd_many n q) f) = p_bind (p_bind (rd_count m) (\<lambda>n. rd_many n q)) f"
  by (simp add: p_bind_assoc)

lemma store_state_roundtrip:
  assumes "encode_store_state st = Inr b" and "length b \<le> usize_max"
  shows "decode_store_state b = Inr st"
proof -
  have st: "store_valid st" and b: "b = store_bytes st"
    using assms(1) by (auto simp: encode_store_state_Inr)
  let ?cs = "if ps_candidates st = [] then [] else var_bytes (candidates_bytes (ps_candidates st))"
  have cands: "reads (p_bind p_remaining (\<lambda>rest. if rest \<noteq> 0 then p_bind rd_variable (\<lambda>b. p_lift (decode_candidates b)) else p_ret []))
      (ps_candidates st) ?cs []"
  proof (cases "ps_candidates st = []")
    case True
    then show ?thesis
      using reads_bind_nil [OF reads_remaining, of "\<lambda>rest. if rest \<noteq> 0 then p_bind rd_variable (\<lambda>b. p_lift (decode_candidates b)) else p_ret []" "[]" "[]" "[]"]
      by (simp add: reads_ret)
  next
    case False
    then have "decode_candidates (candidates_bytes (ps_candidates st)) = Inr (ps_candidates st)"
      using st by (intro decode_candidates_bytes) (auto simp: store_valid_def short_usize)
    with False st show ?thesis
      by (auto simp: store_valid_def intro!: reads_bind_nil [OF reads_remaining] reads_bind_last [OF reads_variable] reads_lift)
  qed
  have marks: "reads (p_bind p_remaining (\<lambda>rest. if rest \<noteq> 0 then p_bind (rd_count 40) (\<lambda>n. rd_many n rd_watermark) else p_ret []))
      (ps_epoch_watermarks st) (c_watermark.counted (ps_epoch_watermarks st)) (?cs @ [])"
    by (rule reads_bind_nil [OF reads_remaining])
      (use st c_watermark.reads_counted [of "ps_epoch_watermarks st" 40] in \<open>auto simp: store_valid_def c_watermark.counted_def\<close>)
  have peers: "reads (p_bind (rd_count 52) (\<lambda>n. rd_many n rd_document_pair)) (ps_peers st) (c_store_document.counted (ps_peers st)) post"
    and pairs: "reads (p_bind (rd_count 160) (\<lambda>n. rd_many n rd_pair)) (ps_pairs st) (c_pair.counted (ps_pairs st)) post"
    and keys: "reads (p_bind (rd_count 80) (\<lambda>n. rd_many n rd_key)) (ps_keys st) (c_key.counted (ps_keys st)) post" for post
    using st by (auto simp: store_valid_def intro!: c_store_document.reads_counted c_pair.reads_counted c_key.reads_counted)
  show ?thesis
    unfolding decode_store_state_def counted_rest
    unfolding p_bind_assoc [of p_remaining, symmetric]
    by (rule run_parser_reads [OF _ assms(2)], unfold b store_bytes_def)
      (intro reads_bind [OF reads_require_prefix] reads_bind [OF reads_require_version] reads_bind [OF reads_peer]
        reads_bind [OF reads_u64] reads_bind [OF peers] reads_bind [OF pairs] reads_bind [OF keys] reads_bind [OF marks]
        reads_bind_last [OF cands] reads_bind_last [OF reads_finish] reads_ret', simp)
qed

end
