(* ===== verification/Keystore_Inv.thy ===== *)
theory Keystore_Inv
  imports Wrap Keystore_State
begin

text \<open>
  The invariant of the keystore and its durability. In memory: pairs, candidates and active keys
  never exceed the peer's epoch watermark, and no two slots hold keys for the same peer and epoch.
  On disk: the watermarks of the state file never exceed those in memory and equal them as long as
  no write has failed; neither ever decreases. Every operation keeps this, whatever its writes do.
\<close>

section \<open>Triples\<close>

definition kt :: "(keystore \<Rightarrow> bool) \<Rightarrow> 'a kop \<Rightarrow> ('a \<Rightarrow> keystore \<Rightarrow> bool) \<Rightarrow> (keystore \<Rightarrow> bool) \<Rightarrow> bool" where
  "kt P p Q R \<longleftrightarrow> (\<forall>os k. P k \<longrightarrow> (case p (os, k) of (Inr x, _, k') \<Rightarrow> Q x k' | (Inl _, _, k') \<Rightarrow> R k'))"

lemma kt_ret: "(\<And>k y. P k \<Longrightarrow> x = Inr y \<Longrightarrow> Q y k) \<Longrightarrow> (\<And>k e. P k \<Longrightarrow> x = Inl e \<Longrightarrow> R k) \<Longrightarrow> kt P (k_ret x) Q R"
  by (auto simp: kt_def k_ret_def split: sum.splits)

lemma kt_bind: "kt P p Q R \<Longrightarrow> (\<And>x. kt (Q x) (f x) S R) \<Longrightarrow> kt P (k_bind p f) S R"
  unfolding kt_def k_bind_def by (fastforce split: sum.splits prod.splits)

lemma kt_inner: "(\<And>k. P k \<Longrightarrow> Q (ks_inner k) k) \<Longrightarrow> kt P k_inner Q R"
  by (auto simp: kt_def k_inner_def)

lemma kt_set: "(\<And>k. P k \<Longrightarrow> Q () (k\<lparr>ks_inner := i\<rparr>)) \<Longrightarrow> kt P (k_set i) Q R"
  by (auto simp: kt_def k_set_def)

lemma kt_weaken:
  "kt P p Q R \<Longrightarrow> (\<And>k. P' k \<Longrightarrow> P k) \<Longrightarrow> (\<And>x k. Q x k \<Longrightarrow> Q' x k) \<Longrightarrow> (\<And>k. R k \<Longrightarrow> R' k) \<Longrightarrow> kt P' p Q' R'"
  unfolding kt_def by (fastforce split: sum.splits prod.splits)

lemma kt_pure: "(b \<Longrightarrow> kt P p Q R) \<Longrightarrow> kt (\<lambda>k. P k \<and> b) p Q R"
  by (cases b) (auto simp: kt_def)

lemma kt_write:
  assumes "\<And>k. P k \<Longrightarrow> Q () (place b k) \<and> R (place b k) \<and> R k"
  shows "kt P (k_write place b) Q R"
  using assms by (auto simp: kt_def k_write_def split: list.splits outcome.splits)

lemma kt_or_fail:
  "kt P p Q (\<lambda>k. R (k\<lparr>ks_inner := (ks_inner k)\<lparr>si_failed := True\<rparr>\<rparr>)) \<Longrightarrow> kt P (k_or_fail p) Q R"
  unfolding kt_def k_or_fail_def by (fastforce split: sum.splits prod.splits)

section \<open>The invariant\<close>

abbreviation wm :: "keystore \<Rightarrow> PeerId \<Rightarrow> Epoch" where
  "wm k \<equiv> watermark_of (ks_inner k)"

definition file_mark :: "keystore \<Rightarrow> PeerId \<Rightarrow> Epoch" where
  "file_mark k pid = (case ks_state_file k of
       None \<Rightarrow> Epoch 0
     | Some bs \<Rightarrow> (case decode_store_state bs of
         Inl _ \<Rightarrow> Epoch 0
       | Inr st \<Rightarrow> bm_or_default (Epoch 0) (ps_epoch_watermarks st) pid))"

definition pairs_inv :: "(PeerId \<Rightarrow> Epoch) \<Rightarrow> (PeerId, PersistedPair) btree_map \<Rightarrow> bool" where
  "pairs_inv w ps \<longleftrightarrow> bm_ok ps \<and> (\<forall>(pid, p) \<in> set ps. pp_peer_id p = pid \<and> pp_epoch p \<le> w pid)"

definition keys_inv :: "(PeerId \<Rightarrow> Epoch) \<Rightarrow> u64 \<Rightarrow> (u64, PairKeyState) btree_map \<Rightarrow> bool" where
  "keys_inv w n ks \<longleftrightarrow> bm_ok ks \<and> (\<forall>(s, st) \<in> set ks. s < n \<and> pk_epoch st \<le> w (pk_peer_id st)) \<and>
     (\<forall>(s, st) \<in> set ks. \<forall>(s', st') \<in> set ks.
        pk_peer_id st = pk_peer_id st' \<and> pk_epoch st = pk_epoch st' \<longrightarrow> s = s')"

definition store_inv :: "StoreInner \<Rightarrow> bool" where
  "store_inv inner \<longleftrightarrow> bm_ok (si_epoch_watermarks inner) \<and> bm_ok (si_peers inner) \<and>
     pairs_inv (watermark_of inner) (si_pairs inner) \<and> pairs_inv (watermark_of inner) (si_candidates inner) \<and>
     keys_inv (watermark_of inner) (si_next_slot inner) (si_keys inner)"

text \<open>\<open>ready\<close>: the invariant before a write; \<open>kinv\<close>: between operations. \<open>w\<close> and \<open>f\<close> are lower bounds.\<close>

definition ready :: "(PeerId \<Rightarrow> Epoch) \<Rightarrow> (PeerId \<Rightarrow> Epoch) \<Rightarrow> keystore \<Rightarrow> bool" where
  "ready w f k \<longleftrightarrow> store_inv (ks_inner k) \<and> (\<forall>pid. file_mark k pid \<le> wm k pid) \<and> (\<forall>pid. w pid \<le> wm k pid) \<and>
     (\<forall>pid. f pid \<le> file_mark k pid)"

definition kinv :: "(PeerId \<Rightarrow> Epoch) \<Rightarrow> (PeerId \<Rightarrow> Epoch) \<Rightarrow> keystore \<Rightarrow> bool" where
  "kinv w f k \<longleftrightarrow> ready w f k \<and> (\<not> si_failed (ks_inner k) \<longrightarrow> (\<forall>pid. file_mark k pid = wm k pid))"

lemma Epoch_zero_le [simp]: "Epoch 0 \<le> e"
  by (cases e) (simp add: less_eq_Epoch_def)

lemma wm_insert [simp]:
  "bm_ok (si_epoch_watermarks i) \<Longrightarrow>
    watermark_of (i\<lparr>si_epoch_watermarks := bm_insert p e (si_epoch_watermarks i)\<rparr>) = (watermark_of i)(p := e)"
  by (auto simp: watermark_of_def bm_or_default_def fun_eq_iff)

lemma wm_fields [simp]:
  "watermark_of (i\<lparr>si_peers := a\<rparr>) = watermark_of i" "watermark_of (i\<lparr>si_pairs := b\<rparr>) = watermark_of i"
  "watermark_of (i\<lparr>si_candidates := b\<rparr>) = watermark_of i" "watermark_of (i\<lparr>si_keys := c\<rparr>) = watermark_of i"
  "watermark_of (i\<lparr>si_retry_epochs := d\<rparr>) = watermark_of i" "watermark_of (i\<lparr>si_candidate_retry_epochs := d\<rparr>) = watermark_of i"
  "watermark_of (i\<lparr>si_next_slot := n\<rparr>) = watermark_of i" "watermark_of (i\<lparr>si_mailbox_gates := g\<rparr>) = watermark_of i"
  "watermark_of (i\<lparr>si_admitted_pairs := d\<rparr>) = watermark_of i" "watermark_of (i\<lparr>si_failed := x\<rparr>) = watermark_of i"
  "watermark_of (i\<lparr>si_local := l\<rparr>) = watermark_of i"
  by (simp_all add: watermark_of_def fun_eq_iff)

lemma file_mark_inner [simp]: "file_mark (k\<lparr>ks_inner := i\<rparr>) = file_mark k"
  by (simp add: file_mark_def fun_eq_iff)

lemma pairs_inv_mono: "pairs_inv w ps \<Longrightarrow> (\<And>p. w p \<le> w' p) \<Longrightarrow> pairs_inv w' ps"
  by (fastforce simp: pairs_inv_def intro: order_trans)

lemma pairs_inv_insert:
  "pairs_inv w ps \<Longrightarrow> pp_peer_id p = pid \<Longrightarrow> pp_epoch p \<le> w pid \<Longrightarrow> pairs_inv w (bm_insert pid p ps)"
  using set_bm_insert_sub [of pid p ps] by (fastforce simp: pairs_inv_def)

lemma pairs_inv_remove: "pairs_inv w ps \<Longrightarrow> pairs_inv w (bm_remove pid ps)"
  by (auto simp: pairs_inv_def)

lemma keys_inv_mono: "keys_inv w n ks \<Longrightarrow> (\<And>p. w p \<le> w' p) \<Longrightarrow> n \<le> n' \<Longrightarrow> keys_inv w' n' ks"
  unfolding keys_inv_def by (fastforce intro: order_trans less_le_trans)

lemma keys_inv_sub: "keys_inv w n ks \<Longrightarrow> set ks' \<subseteq> set ks \<Longrightarrow> bm_ok ks' \<Longrightarrow> keys_inv w n ks'"
  unfolding keys_inv_def by blast

lemma keys_inv_insert:
  assumes "keys_inv w n ks" and "s < n" and "pk_epoch st \<le> w (pk_peer_id st)"
    and "\<forall>(s', st') \<in> set ks. pk_peer_id st = pk_peer_id st' \<and> pk_epoch st = pk_epoch st' \<longrightarrow> s = s'"
  shows "keys_inv w n (bm_insert s st ks)"
proof -
  let ?M = "insert (s, st) (set ks)"
  have "\<forall>(s1, st1) \<in> ?M. s1 < n \<and> pk_epoch st1 \<le> w (pk_peer_id st1)"
    using assms by (simp add: keys_inv_def)
  moreover have "\<forall>(s1, st1) \<in> ?M. \<forall>(s2, st2) \<in> ?M.
      pk_peer_id st1 = pk_peer_id st2 \<and> pk_epoch st1 = pk_epoch st2 \<longrightarrow> s1 = s2"
  proof (intro ballI, clarify)
    fix s1 st1 s2 st2
    assume "(s1, st1) \<in> ?M" "(s2, st2) \<in> ?M" "pk_peer_id st1 = pk_peer_id st2" "pk_epoch st1 = pk_epoch st2"
    then consider "(s1, st1) = (s, st)" "(s2, st2) = (s, st)" | "(s1, st1) = (s, st)" "(s2, st2) \<in> set ks"
      | "(s1, st1) \<in> set ks" "(s2, st2) = (s, st)" | "(s1, st1) \<in> set ks" "(s2, st2) \<in> set ks"
      by blast
    then show "s1 = s2"
      using assms(1,4) \<open>pk_peer_id st1 = pk_peer_id st2\<close> \<open>pk_epoch st1 = pk_epoch st2\<close>
      by cases (auto simp: keys_inv_def)
  qed
  moreover have "set (bm_insert s st ks) \<subseteq> ?M"
    by (rule set_bm_insert_sub)
  moreover have "bm_ok (bm_insert s st ks)"
    using assms(1) by (simp add: keys_inv_def)
  ultimately show ?thesis
    unfolding keys_inv_def by blast
qed

lemma store_persist_kt:
  "kt (\<lambda>k. ready w f k \<and> ks_inner k = i) store_persist (\<lambda>_ k. kinv w f k \<and> ks_inner k = i) (kinv w f)"
proof -
  have mark: "file_mark (place_state b k) = wm k"
    if "encode_store_state (persisted (ks_inner k)) = Inr b" and "length b \<le> MAX_STORE_BYTES" for b k
  proof -
    have "decode_store_state b = Inr (persisted (ks_inner k))"
      by (rule store_state_roundtrip [OF that(1)]) (use that(2) in \<open>simp add: MAX_STORE_BYTES_def usize_max_def\<close>)
    then show ?thesis
      by (simp add: file_mark_def place_state_def persisted_def watermark_of_def fun_eq_iff)
  qed
  have w: "kt (\<lambda>k. ready w f k \<and> ks_inner k = i) (k_write place_state b) (\<lambda>_ k. kinv w f k \<and> ks_inner k = i)
      (\<lambda>k. kinv w f (k\<lparr>ks_inner := (ks_inner k)\<lparr>si_failed := True\<rparr>\<rparr>))"
    if e: "encode_store_state (persisted i) = Inr b" for b
  proof (cases "length b \<le> MAX_STORE_BYTES")
    case True
    have "file_mark (place_state b k) = wm k" "ks_inner (place_state b k) = ks_inner k" if "ks_inner k = i" for k
      using mark [OF e [folded that] True] by (simp_all add: place_state_def)
    then show ?thesis
      by (intro kt_write) (auto simp: kinv_def ready_def store_inv_def intro: order_trans)
  next
    case False
    then show ?thesis
      by (auto simp: kt_def k_write_def kinv_def ready_def store_inv_def)
  qed
  have fail: "kinv w f (k\<lparr>ks_inner := (ks_inner k)\<lparr>si_failed := True\<rparr>\<rparr>)" if "ready w f k \<and> ks_inner k = i" for k
    using that by (auto simp: kinv_def ready_def store_inv_def)
  show ?thesis
    unfolding store_persist_def
  proof (rule kt_bind [OF kt_inner [where Q = "\<lambda>j k. (ready w f k \<and> ks_inner k = i) \<and> j = i"]])
    fix j
    show "kt (\<lambda>k. (ready w f k \<and> ks_inner k = i) \<and> j = i)
        (k_or_fail (k_bind (k_ret (encode_store_state (persisted j))) (k_write place_state)))
        (\<lambda>_ k. kinv w f k \<and> ks_inner k = i) (kinv w f)"
    proof (rule kt_pure, rule kt_or_fail, rule kt_bind
          [OF kt_ret [where Q = "\<lambda>b k. (ready w f k \<and> ks_inner k = i) \<and> encode_store_state (persisted i) = Inr b"]])
      show "kt (\<lambda>k. (ready w f k \<and> ks_inner k = i) \<and> encode_store_state (persisted i) = Inr b) (k_write place_state b)
          (\<lambda>_ k. kinv w f k \<and> ks_inner k = i) (\<lambda>k. kinv w f (k\<lparr>ks_inner := (ks_inner k)\<lparr>si_failed := True\<rparr>\<rparr>))" for b
        by (rule kt_pure, rule w)
    qed (use fail in auto)
  qed simp
qed

lemma store_lock_kt:
  "kt (kinv w f) store_lock (\<lambda>i k. kinv w f k \<and> ks_inner k = i \<and> \<not> si_failed i) (kinv w f)"
  unfolding store_lock_def
  by (rule kt_bind [OF kt_inner [where Q = "\<lambda>i k. kinv w f k \<and> ks_inner k = i"]]) (auto intro!: kt_ret split: if_splits)

section \<open>Operations that do not write\<close>

text \<open>A change in memory that keeps the watermarks and the failure flag needs no write.\<close>

lemma kinv_set:
  assumes "kinv w f k" and "store_inv i" and "watermark_of i = wm k" and "si_failed i = si_failed (ks_inner k)"
  shows "kinv w f (k\<lparr>ks_inner := i\<rparr>)"
  using assms by (auto simp: kinv_def ready_def)

lemma ready_set:
  assumes "kinv w f k" and "store_inv i" and "\<And>p. wm k p \<le> watermark_of i p"
  shows "ready w f (k\<lparr>ks_inner := i\<rparr>)"
  using assms by (auto simp: kinv_def ready_def intro: order_trans)

lemma kinvD: "kinv w f k \<Longrightarrow> store_inv (ks_inner k)"
  by (simp add: kinv_def ready_def)

lemma store_inv_simps:
  "store_inv (i\<lparr>si_retry_epochs := d\<rparr>) = store_inv i" "store_inv (i\<lparr>si_candidate_retry_epochs := d\<rparr>) = store_inv i"
  "store_inv (i\<lparr>si_mailbox_gates := g\<rparr>) = store_inv i" "store_inv (i\<lparr>si_admitted_pairs := a\<rparr>) = store_inv i"
  "store_inv (i\<lparr>si_local := l\<rparr>) = store_inv i"
  by (simp_all add: store_inv_def)

lemma store_inv_remove:
  "store_inv i \<Longrightarrow> store_inv (i\<lparr>si_pairs := bm_remove p (si_pairs i)\<rparr>)"
  "store_inv i \<Longrightarrow> store_inv (i\<lparr>si_candidates := bm_remove p (si_candidates i)\<rparr>)"
  "store_inv i \<Longrightarrow> store_inv (i\<lparr>si_peers := bm_remove p (si_peers i)\<rparr>)"
  "store_inv i \<Longrightarrow> store_inv (i\<lparr>si_peers := bm_insert p d (si_peers i)\<rparr>)"
  "store_inv i \<Longrightarrow> store_inv (i\<lparr>si_keys := bm_remove s (si_keys i)\<rparr>)"
  "store_inv i \<Longrightarrow> store_inv (i\<lparr>si_keys := bm_retain P (si_keys i)\<rparr>)"
  by (auto simp: store_inv_def intro: pairs_inv_remove)
    (auto elim!: keys_inv_sub [rotated -1] simp: keys_inv_def)

lemma store_inv_drop_keys: "store_inv i \<Longrightarrow> store_inv (drop_keys p e i)"
  unfolding drop_keys_def by (rule store_inv_remove(6))

lemma drop_keys_wm [simp]: "watermark_of (drop_keys p e i) = watermark_of i"
  by (simp add: drop_keys_def)

lemma kt_query:
  "(\<And>i. kt (\<lambda>k. kinv w f k \<and> ks_inner k = i \<and> \<not> si_failed i) (q i) (\<lambda>_. kinv w f) (kinv w f)) \<Longrightarrow>
    kt (kinv w f) (k_bind store_lock q) (\<lambda>_. kinv w f) (kinv w f)"
  by (rule kt_bind [OF store_lock_kt])

lemma kt_ret_inv: "kt (\<lambda>k. kinv w f k \<and> b k) (k_ret x) (\<lambda>_. kinv w f) (kinv w f)"
  by (rule kt_ret) auto

lemma kt_guard:
  assumes "\<And>y. x = Inr y \<Longrightarrow> kt (\<lambda>k. kinv w f k \<and> B k) (g y) Q (kinv w f)"
  shows "kt (\<lambda>k. kinv w f k \<and> B k) (k_bind (k_ret x) g) Q (kinv w f)"
proof (rule kt_bind [OF kt_ret [where Q = "\<lambda>y k. (kinv w f k \<and> B k) \<and> x = Inr y"]])
  show "kt (\<lambda>k. (kinv w f k \<and> B k) \<and> x = Inr y) (g y) Q (kinv w f)" for y
    by (rule kt_pure) (rule assms)
qed auto

lemma kt_set_only:
  assumes "store_inv i \<Longrightarrow> store_inv i'" and "watermark_of i' = watermark_of i" and "si_failed i' = si_failed i"
  shows "kt (\<lambda>k. kinv w f k \<and> ks_inner k = i \<and> \<not> si_failed i) (k_set i') (\<lambda>_. kinv w f) (kinv w f)"
  by (rule kt_set) (use assms in \<open>auto intro!: kinv_set dest: kinvD\<close>)

lemma kt_set_keep:
  assumes "store_inv i \<Longrightarrow> store_inv i'" and "watermark_of i' = watermark_of i" and "si_failed i' = si_failed i"
  shows "kt (\<lambda>k. kinv w f k \<and> ks_inner k = i \<and> \<not> si_failed i) (k_set i')
    (\<lambda>_ k. kinv w f k \<and> ks_inner k = i' \<and> \<not> si_failed i') R"
  by (rule kt_set) (use assms in \<open>auto intro!: kinv_set dest: kinvD\<close>)

lemma kt_set_persist:
  assumes "store_inv i \<Longrightarrow> store_inv i'" and "store_inv i \<Longrightarrow> \<forall>p. watermark_of i p \<le> watermark_of i' p"
  shows "kt (\<lambda>k. kinv w f k \<and> ks_inner k = i \<and> \<not> si_failed i) (k_bind (k_set i') (\<lambda>_. store_persist))
    (\<lambda>_ k. kinv w f k \<and> ks_inner k = i') (kinv w f)"
proof (rule kt_bind [OF kt_set [where Q = "\<lambda>_ k. ready w f k \<and> ks_inner k = i'"]])
  show "kt (\<lambda>k. ready w f k \<and> ks_inner k = i') store_persist (\<lambda>_ k. kinv w f k \<and> ks_inner k = i') (kinv w f)"
    by (rule store_persist_kt)
qed (use assms in \<open>auto intro!: ready_set dest: kinvD\<close>)

lemma kt_set_write:
  assumes "store_inv i \<Longrightarrow> store_inv i'" and "store_inv i \<Longrightarrow> \<forall>p. watermark_of i p \<le> watermark_of i' p"
  shows "kt (\<lambda>k. kinv w f k \<and> ks_inner k = i \<and> \<not> si_failed i) (k_bind (k_set i') (\<lambda>_. store_persist))
    (\<lambda>_. kinv w f) (kinv w f)"
  by (rule kt_weaken [OF kt_set_persist [OF assms]]) auto

abbreviation kop_inv :: "'a kop \<Rightarrow> bool" where
  "kop_inv p \<equiv> \<forall>w f. kt (kinv w f) p (\<lambda>_. kinv w f) (kinv w f)"

lemma queries_kinv:
  "kop_inv (next_epoch p)" "kop_inv (peer_epoch p)" "kop_inv (store_session p e)" "kop_inv (current_session p)"
  "kop_inv (candidate_session p)" "kop_inv (has_admitted_pair p)" "kop_inv (owns_live_gate p owner)"
  "kop_inv (require_live_traffic p)" "kop_inv (load_verified_peer p)" "kop_inv pending_wraps" "kop_inv (cached_pair p)"
  "kop_inv (cached_candidate p)" "kop_inv (retry_epoch p)" "kop_inv (candidate_retry_epoch p)" "kop_inv (wrap_retry m)"
  unfolding next_epoch_def peer_epoch_def store_session_def current_session_def candidate_session_def has_admitted_pair_def
    owns_live_gate_def require_live_traffic_def load_verified_peer_def pending_wraps_def cached_pair_def cached_candidate_def
    retry_epoch_def candidate_retry_epoch_def wrap_retry_def
  by (intro allI kt_query kt_ret_inv)+

lemma mark_admitted_kinv: "kop_inv (mark_admitted p)"
  unfolding mark_admitted_def by (intro allI kt_query kt_guard kt_set_only) (simp_all add: store_inv_simps)

lemma block_kinv: "kop_inv (block_live_traffic p owner)"
  unfolding block_live_traffic_def by (intro allI kt_query kt_set_only) (simp_all add: store_inv_simps)

lemma unblock_kinv: "kop_inv (unblock_live_traffic p owner)"
proof (intro allI)
  fix w f
  have "kt (\<lambda>k. kinv w f k \<and> ks_inner k = i \<and> \<not> si_failed i)
      (case bm_get (si_mailbox_gates i) p of None \<Rightarrow> k_ret (Inr ())
       | Some owners \<Rightarrow> let owners = bs_remove owner owners in
           k_set (i\<lparr>si_mailbox_gates := if owners = [] then bm_remove p (si_mailbox_gates i)
             else bm_insert p owners (si_mailbox_gates i)\<rparr>)) (\<lambda>_. kinv w f) (kinv w f)" for i
    by (cases "bm_get (si_mailbox_gates i) p")
      (auto simp: Let_def store_inv_simps intro!: kt_ret_inv kt_set_only)
  then show "kt (kinv w f) (unblock_live_traffic p owner) (\<lambda>_. kinv w f) (kinv w f)"
    unfolding unblock_live_traffic_def by (rule kt_query)
qed

text \<open>An operation on a key slot that keeps the key's peer and epoch.\<close>

lemma with_pair_state_kinv:
  assumes "\<And>st. pk_peer_id (snd (op st)) = pk_peer_id st \<and> pk_epoch (snd (op st)) = pk_epoch st"
  shows "kop_inv (with_pair_state h op)"
proof (intro allI)
  fix w f
  have "store_inv (i\<lparr>si_keys := bm_insert (ph_slot h) (snd (op st)) (si_keys i)\<rparr>)"
    if "store_inv i" and "bm_get (si_keys i) (ph_slot h) = Some st" for i st
  proof -
    have "(ph_slot h, st) \<in> set (si_keys i)"
      using that by (auto simp: store_inv_def keys_inv_def bm_get_iff)
    then have "keys_inv (watermark_of i) (si_next_slot i) (bm_insert (ph_slot h) (snd (op st)) (si_keys i))"
      using that(1) assms [of st] by (intro keys_inv_insert) (auto simp: store_inv_def keys_inv_def)
    with that(1) show ?thesis by (simp add: store_inv_def)
  qed
  then show "kt (kinv w f) (with_pair_state h op) (\<lambda>_. kinv w f) (kinv w f)"
    unfolding with_pair_state_def case_prod_unfold Let_def
    by (intro kt_query kt_guard, intro kt_bind [OF kt_set_only] kt_ret_inv [where b = "\<lambda>_. True", simplified]) auto
qed

section \<open>Operations that write\<close>

lemma discard_pair_kinv: "kop_inv (discard_pair p)"
proof (intro allI)
  fix w f
  have inv: "store_inv (i\<lparr>si_keys := bm_retain (\<lambda>_ st. pk_peer_id st \<noteq> p) (si_keys i), si_pairs := bm_remove p (si_pairs i),
      si_candidates := bm_remove p (si_candidates i), si_retry_epochs := a, si_candidate_retry_epochs := b,
      si_mailbox_gates := g, si_peers := bm_remove p (si_peers i), si_admitted_pairs := d\<rparr>)"
    if "store_inv i" for i a b g d
    using that unfolding store_inv_def
    by (auto intro: pairs_inv_remove elim!: keys_inv_sub [rotated -1] simp: keys_inv_def)
  show "kt (kinv w f) (discard_pair p) (\<lambda>_. kinv w f) (kinv w f)"
    unfolding discard_pair_def
    by (rule kt_query, rule kt_set_write) (auto simp: inv)
qed

lemma discard_candidate_kinv: "kop_inv (discard_candidate p)"
proof (intro allI)
  fix w f
  have "kt (\<lambda>k. kinv w f k \<and> ks_inner k = i \<and> \<not> si_failed i)
      (k_bind (k_set ((drop_keys p e (i\<lparr>si_candidates := bm_remove p (si_candidates i)\<rparr>))
         \<lparr>si_candidate_retry_epochs := d\<rparr>)) (\<lambda>_. store_persist)) (\<lambda>_. kinv w f) (kinv w f)" for i e d
    by (rule kt_set_write)
      (auto simp: store_inv_simps store_inv_drop_keys store_inv_remove)
  then show "kt (kinv w f) (discard_candidate p) (\<lambda>_. kinv w f) (kinv w f)"
    unfolding discard_candidate_def Let_def
    by (intro kt_query) (auto split: option.splits intro!: kt_ret_inv)
qed

lemma retire_kinv: "kop_inv (retire h)"
proof (intro allI)
  fix w f
  show "kt (kinv w f) (retire h) (\<lambda>_. kinv w f) (kinv w f)"
    unfolding retire_def
    by (intro kt_query kt_guard, rule kt_set_write) (auto simp: store_inv_remove)
qed

lemma store_inv_raise:
  assumes "store_inv i" and "watermark_of i p \<le> e"
  shows "store_inv (i\<lparr>si_epoch_watermarks := bm_insert p e (si_epoch_watermarks i)\<rparr>)"
proof -
  have ok: "bm_ok (si_epoch_watermarks i)" using assms(1) by (simp add: store_inv_def)
  have up: "watermark_of i q \<le> ((watermark_of i)(p := e)) q" for q
    using assms(2) by simp
  have "pairs_inv ((watermark_of i)(p := e)) (si_pairs i)" "pairs_inv ((watermark_of i)(p := e)) (si_candidates i)"
      "keys_inv ((watermark_of i)(p := e)) (si_next_slot i) (si_keys i)"
    using assms(1) up by (auto simp: store_inv_def intro: pairs_inv_mono keys_inv_mono [OF _ _ order_refl])
  then show ?thesis
    using assms(1) by (simp add: store_inv_def wm_insert [OF ok])
qed

lemma observe_remote_epoch_kinv: "kop_inv (observe_remote_epoch p e)"
proof (intro allI)
  fix w f
  have "kt (\<lambda>k. kinv w f k \<and> ks_inner k = i \<and> \<not> si_failed i)
      (k_bind (k_set (i\<lparr>si_epoch_watermarks := bm_insert p e (si_epoch_watermarks i)\<rparr>)) (\<lambda>_. store_persist))
      (\<lambda>_. kinv w f) (kinv w f)" if "watermark_of i p < e" for i
    by (rule kt_set_write) (use that in \<open>auto simp: store_inv_raise less_imp_le store_inv_def [of i]\<close>)
  then show "kt (kinv w f) (observe_remote_epoch p e) (\<lambda>_. kinv w f) (kinv w f)"
    unfolding observe_remote_epoch_def
    by (intro kt_query kt_guard) (auto intro: kt_ret_inv)
qed

section \<open>Installing keys\<close>

lemma checked_slot: "checked_add (s :: u64) 1 = Some n \<Longrightarrow> n = s + 1 \<and> s < s + 1"
  using checked_add_one_less [of s n] by (auto simp: checked_add_Some_iff)

lemma take_slot_kt:
  "kt (\<lambda>k. kinv w f k \<and> ks_inner k = i \<and> \<not> si_failed i) take_slot
    (\<lambda>s k. kinv w f k \<and> ks_inner k = i\<lparr>si_next_slot := s + 1\<rparr> \<and> s = si_next_slot i \<and> s < s + 1 \<and> \<not> si_failed i) (kinv w f)"
proof -
  have inv: "store_inv (i\<lparr>si_next_slot := n\<rparr>)" if "store_inv i" "si_next_slot i \<le> n" for n i
    using that by (auto simp: store_inv_def intro: keys_inv_mono)
  have go: "kt (\<lambda>k. kinv w f k \<and> ks_inner k = i \<and> \<not> si_failed i)
      (k_bind (k_set (i\<lparr>si_next_slot := n\<rparr>)) (\<lambda>_. k_ret (Inr (si_next_slot i))))
      (\<lambda>s k. kinv w f k \<and> ks_inner k = i\<lparr>si_next_slot := s + 1\<rparr> \<and> s = si_next_slot i \<and> s < s + 1 \<and> \<not> si_failed i) (kinv w f)"
    if n: "checked_add (si_next_slot i) 1 = Some n" for n
    using checked_slot [OF n]
    by (intro kt_bind [OF kt_set [where Q = "\<lambda>_ k. kinv w f k \<and> ks_inner k = i\<lparr>si_next_slot := n\<rparr> \<and> \<not> si_failed i"]])
      (auto intro!: kt_ret kinv_set inv dest: kinvD simp: less_imp_le)
  show ?thesis
    unfolding take_slot_def
  proof (rule kt_bind [OF kt_inner [where Q = "\<lambda>j k. (kinv w f k \<and> ks_inner k = i \<and> \<not> si_failed i) \<and> j = i"]])
    fix j
    show "kt (\<lambda>k. (kinv w f k \<and> ks_inner k = i \<and> \<not> si_failed i) \<and> j = i)
      (k_bind (k_ret (ok_or (checked_add (si_next_slot j) 1) (State ''keystore slots exhausted''))) (\<lambda>following.
        k_bind (k_set (j\<lparr>si_next_slot := following\<rparr>)) (\<lambda>_. k_ret (Inr (si_next_slot j)))))
      (\<lambda>s k. kinv w f k \<and> ks_inner k = i\<lparr>si_next_slot := s + 1\<rparr> \<and> s = si_next_slot i \<and> s < s + 1 \<and> \<not> si_failed i) (kinv w f)"
      by (rule kt_pure, hypsubst, rule kt_guard) (use go in auto)
  qed simp
qed

lemma raise_watermark_eq:
  "raise_watermark p e i = i\<lparr>si_epoch_watermarks := bm_insert p (max (watermark_of i p) e) (si_epoch_watermarks i)\<rparr>"
  by (simp add: raise_watermark_def)

lemma store_inv_key:
  assumes "store_inv i" and "s < si_next_slot i" and "\<forall>(s', st) \<in> set (si_keys i). pk_peer_id st = p \<longrightarrow> pk_epoch st \<noteq> e"
    and "e \<le> watermark_of i p"
  shows "store_inv (i\<lparr>si_keys := bm_insert s (pair_key_new key p e) (si_keys i)\<rparr>)"
proof -
  have "keys_inv (watermark_of i) (si_next_slot i) (bm_insert s (pair_key_new key p e) (si_keys i))"
    by (rule keys_inv_insert) (use assms in \<open>auto simp: store_inv_def pair_key_new_def\<close>)
  with assms(1) show ?thesis by (simp add: store_inv_def)
qed

abbreviation new_pair :: "PeerId \<Rightarrow> PeerId \<Rightarrow> WrapMessage \<Rightarrow> PersistedPair" where
  "new_pair p initiator m \<equiv> \<lparr>pp_peer_id = p, pp_epoch = wm_epoch m, pp_initiator = initiator, pp_wrap = m\<rparr>"

text \<open>A new key enters under a slot of its own; no other slot may hold a key of its peer and epoch.\<close>

lemma store_inv_new_key:
  assumes "store_inv i" and "s < si_next_slot i" and "\<forall>(s', st) \<in> set (si_keys i). pk_peer_id st = p \<longrightarrow> pk_epoch st \<noteq> e"
  shows "store_inv (raise_watermark p e (i\<lparr>si_keys := bm_insert s (pair_key_new key p e) (si_keys i)\<rparr>))"
    and "watermark_of (raise_watermark p e (i\<lparr>si_keys := bm_insert s (pair_key_new key p e) (si_keys i)\<rparr>)) =
      (watermark_of i)(p := max (watermark_of i p) e)"
proof -
  have ok: "bm_ok (si_epoch_watermarks i)" using assms(1) by (simp add: store_inv_def)
  let ?i = "i\<lparr>si_epoch_watermarks := bm_insert p (max (watermark_of i p) e) (si_epoch_watermarks i)\<rparr>"
  have "store_inv ?i"
    by (rule store_inv_raise [OF assms(1)]) simp
  then have "store_inv (?i\<lparr>si_keys := bm_insert s (pair_key_new key p e) (si_keys ?i)\<rparr>)"
    by (rule store_inv_key) (use assms ok in auto)
  moreover have "?i\<lparr>si_keys := bm_insert s (pair_key_new key p e) (si_keys ?i)\<rparr> =
      raise_watermark p e (i\<lparr>si_keys := bm_insert s (pair_key_new key p e) (si_keys i)\<rparr>)"
    unfolding raise_watermark_eq watermark_of_def by (cases i) simp
  ultimately show "store_inv (raise_watermark p e (i\<lparr>si_keys := bm_insert s (pair_key_new key p e) (si_keys i)\<rparr>))"
    by simp
  show "watermark_of (raise_watermark p e (i\<lparr>si_keys := bm_insert s (pair_key_new key p e) (si_keys i)\<rparr>)) =
      (watermark_of i)(p := max (watermark_of i p) e)"
    unfolding raise_watermark_eq by (subst wm_insert) (use ok in auto)
qed

lemma store_inv_pair:
  "store_inv i \<Longrightarrow> pp_peer_id q = p \<Longrightarrow> pp_epoch q \<le> watermark_of i p \<Longrightarrow>
    store_inv (i\<lparr>si_pairs := bm_insert p q (si_pairs i)\<rparr>)"
  "store_inv i \<Longrightarrow> pp_peer_id q = p \<Longrightarrow> pp_epoch q \<le> watermark_of i p \<Longrightarrow>
    store_inv (i\<lparr>si_candidates := bm_insert p q (si_candidates i)\<rparr>)"
  by (auto simp: store_inv_def intro: pairs_inv_insert)

lemma drop_keys_gone: "\<forall>(s, st) \<in> set (si_keys (drop_keys p e i)). pk_peer_id st = p \<longrightarrow> pk_epoch st \<noteq> e"
  by (auto simp: drop_keys_def)

text \<open>Setting the state, writing it, and returning the session of the new key.\<close>

lemma kt_install_end:
  assumes "store_inv i \<Longrightarrow> store_inv i'" and "store_inv i \<Longrightarrow> \<forall>q. watermark_of i q \<le> watermark_of i' q"
  shows "kt (\<lambda>k. kinv w f k \<and> ks_inner k = i \<and> \<not> si_failed i)
    (k_bind (k_set i') (\<lambda>_. k_bind store_persist (\<lambda>_. k_bind k_inner (\<lambda>j. k_ret (inner_session j p e)))))
    (\<lambda>_. kinv w f) (kinv w f)"
proof -
  have "kt (\<lambda>k. kinv w f k \<and> ks_inner k = i \<and> \<not> si_failed i)
      (k_bind (k_bind (k_set i') (\<lambda>_. store_persist)) (\<lambda>_. k_bind k_inner (\<lambda>j. k_ret (inner_session j p e))))
      (\<lambda>_. kinv w f) (kinv w f)"
    by (rule kt_bind [OF kt_set_write [OF assms]], assumption, assumption,
        rule kt_bind [OF kt_inner [where Q = "\<lambda>_. kinv w f"]], assumption, rule kt_ret)
  moreover have "k_bind (k_bind (k_set i') (\<lambda>_. store_persist)) g = k_bind (k_set i') (\<lambda>_. k_bind store_persist g)" for g :: "unit \<Rightarrow> PairSession kop"
    by (simp add: fun_eq_iff k_bind_def k_set_def)
  ultimately show ?thesis by simp
qed

lemma store_install_kinv:
  "kt (\<lambda>k. kinv w f k \<and> ks_inner k = i \<and> \<not> si_failed i) (store_install p initiator m key) (\<lambda>_. kinv w f) (kinv w f)"
proof -
  let ?e = "wm_epoch m"
  let ?new = "\<lambda>s j. let j = drop_keys p ?e j; j = j\<lparr>si_keys := bm_insert s (pair_key_new key p ?e) (si_keys j)\<rparr>;
      j = raise_watermark p ?e j in j\<lparr>si_pairs := bm_insert p (new_pair p initiator m) (si_pairs j)\<rparr>"
  have new: "store_inv (?new s j)" "watermark_of j q \<le> watermark_of (?new s j) q" if "store_inv j" "s < si_next_slot j" for s j q
  proof -
    have d: "store_inv (drop_keys p ?e j)" "s < si_next_slot (drop_keys p ?e j)"
      using that by (simp_all add: store_inv_drop_keys) (simp add: drop_keys_def)
    note k = store_inv_new_key [OF d drop_keys_gone, of key]
    show "store_inv (?new s j)"
      unfolding Let_def by (rule store_inv_pair(1) [OF k(1)]) (simp_all add: k(2))
    show "watermark_of j q \<le> watermark_of (?new s j) q"
      by (simp add: Let_def k(2))
  qed
  have fin: "kt (\<lambda>k. kinv w f k \<and> ks_inner k = j \<and> \<not> si_failed j)
      (k_bind (k_set (?new s j)) (\<lambda>_. k_bind store_persist (\<lambda>_. k_bind k_inner (\<lambda>j. k_ret (inner_session j p ?e)))))
      (\<lambda>_. kinv w f) (kinv w f)" if "s < si_next_slot j" for s j
    by (rule kt_install_end) (use new [OF _ that] in auto)
  have step: "kt (\<lambda>k. kinv w f k \<and> ks_inner k = i\<lparr>si_next_slot := s + 1\<rparr> \<and> s = si_next_slot i \<and> s < s + 1 \<and> \<not> si_failed i)
      (k_bind k_inner (\<lambda>j. k_bind (k_set (?new s j)) (\<lambda>_. k_bind store_persist (\<lambda>_. k_bind k_inner (\<lambda>j. k_ret (inner_session j p ?e))))))
      (\<lambda>_. kinv w f) (kinv w f)" for s
  proof (rule kt_bind [OF kt_inner [where Q = "\<lambda>j k. (kinv w f k \<and> ks_inner k = j \<and> \<not> si_failed j) \<and> s < si_next_slot j"]])
    show "kt (\<lambda>k. (kinv w f k \<and> ks_inner k = j \<and> \<not> si_failed j) \<and> s < si_next_slot j)
      (k_bind (k_set (?new s j)) (\<lambda>_. k_bind store_persist (\<lambda>_. k_bind k_inner (\<lambda>j. k_ret (inner_session j p ?e)))))
      (\<lambda>_. kinv w f) (kinv w f)" for j
      by (rule kt_pure) (rule fin)
  qed auto
  show ?thesis
    using kt_bind [OF take_slot_kt step] unfolding store_install_def Let_def .
qed

lemma install_candidate_kinv:
  assumes "\<forall>(s, st) \<in> set (si_keys i). pk_peer_id st = p \<longrightarrow> pk_epoch st \<noteq> wm_epoch m"
  shows "kt (\<lambda>k. kinv w f k \<and> ks_inner k = i \<and> \<not> si_failed i) (install_candidate p initiator m key) (\<lambda>_. kinv w f) (kinv w f)"
proof -
  let ?e = "wm_epoch m"
  let ?new = "\<lambda>s j. let j = j\<lparr>si_keys := bm_insert s (pair_key_new key p ?e) (si_keys j)\<rparr>;
      j = raise_watermark p ?e j in j\<lparr>si_candidates := bm_insert p (new_pair p initiator m) (si_candidates j)\<rparr>"
  let ?tail = "\<lambda>s j. k_bind (k_set (?new s j)) (\<lambda>_. k_bind store_persist (\<lambda>_. k_bind k_inner (\<lambda>j. k_ret (inner_session j p ?e))))"
  have fin: "kt (\<lambda>k. kinv w f k \<and> ks_inner k = j \<and> \<not> si_failed j) (?tail s j) (\<lambda>_. kinv w f) (kinv w f)"
    if j: "s < si_next_slot j" "si_keys j = si_keys i" for s j
  proof (rule kt_install_end)
    assume inv: "store_inv j"
    note k = store_inv_new_key [OF inv j(1), of p ?e key, unfolded j(2), OF assms]
    show "store_inv (?new s j)"
      unfolding Let_def j(2) by (rule store_inv_pair(2) [OF k(1)]) (simp_all add: k(2))
    show "\<forall>q. watermark_of j q \<le> watermark_of (?new s j) q"
      by (simp add: Let_def k(2) j(2))
  qed
  have step: "kt (\<lambda>k. kinv w f k \<and> ks_inner k = i\<lparr>si_next_slot := s + 1\<rparr> \<and> s = si_next_slot i \<and> s < s + 1 \<and> \<not> si_failed i)
      (k_bind k_inner (?tail s)) (\<lambda>_. kinv w f) (kinv w f)" for s
  proof (rule kt_bind [OF kt_inner [where Q = "\<lambda>j k. (kinv w f k \<and> ks_inner k = j \<and> \<not> si_failed j) \<and>
        s < si_next_slot j \<and> si_keys j = si_keys i"]])
    show "kt (\<lambda>k. (kinv w f k \<and> ks_inner k = j \<and> \<not> si_failed j) \<and> s < si_next_slot j \<and> si_keys j = si_keys i)
      (?tail s j) (\<lambda>_. kinv w f) (kinv w f)" for j
      by (rule kt_pure) (use fin in blast)
  qed auto
  have "kt (\<lambda>k. kinv w f k \<and> ks_inner k = i \<and> \<not> si_failed i) (k_bind take_slot (\<lambda>s. k_bind k_inner (?tail s))) (\<lambda>_. kinv w f) (kinv w f)"
    by (rule kt_bind [OF take_slot_kt step])
  then show ?thesis
    unfolding install_candidate_def Let_def
    by (intro kt_bind [OF kt_inner [where Q = "\<lambda>j k. kinv w f k \<and> ks_inner k = i \<and> \<not> si_failed i"]] kt_guard) auto
qed

section \<open>Wraps\<close>

lemma create_check_Inr:
  "create_check i p ek e cand = Inr u \<longleftrightarrow>
    (\<exists>d. bm_get (si_peers i) p = Some d \<and> id_ek d = ek) \<and> \<not> (cand \<and> bm_contains (si_candidates i) p) \<and>
    (bm_contains (si_pairs i) p \<or> local_peer i < p) \<and> checked_add (epoch_raw (watermark_of i p)) 1 = Some (epoch_raw e)"
  by (auto simp: create_check_def not_le)

lemma epoch_next_less: "checked_add (epoch_raw a) 1 = Some (epoch_raw b) \<Longrightarrow> a < b"
  using checked_add_one_less [of "epoch_raw a" "epoch_raw b"] by (simp add: less_Epoch_def)

lemma fresh_epoch:
  "store_inv i \<Longrightarrow> watermark_of i p < e \<Longrightarrow> \<forall>(s, st) \<in> set (si_keys i). pk_peer_id st = p \<longrightarrow> pk_epoch st \<noteq> e"
  unfolding store_inv_def keys_inv_def by fastforce

lemma kt_split_inv:
  "(store_inv i \<Longrightarrow> kt (\<lambda>k. kinv w f k \<and> ks_inner k = i \<and> \<not> si_failed i) p Q R) \<Longrightarrow>
    kt (\<lambda>k. kinv w f k \<and> ks_inner k = i \<and> \<not> si_failed i) p Q R"
  by (cases "store_inv i") (auto simp: kt_def dest: kinvD)

lemma wrap_message_epoch: "wrap_message c en l p ek e = Inr (key, m) \<Longrightarrow> wm_epoch m = e"
  by (auto simp: wrap_message_def Let_def)

lemma create_inner_kinv: "kop_inv (create_inner c en p ek e cand)"
proof (intro allI)
  fix w f
  let ?i = "\<lambda>i. if cand then i\<lparr>si_candidate_retry_epochs := bm_remove p (si_candidate_retry_epochs i)\<rparr>
    else i\<lparr>si_retry_epochs := bm_remove p (si_retry_epochs i)\<rparr>"
  have go: "kt (\<lambda>k. kinv w f k \<and> ks_inner k = i \<and> \<not> si_failed i)
      (k_bind (k_set (?i i)) (\<lambda>_. k_bind (if cand then install_candidate p (local_peer (?i i)) m key
         else store_install p (local_peer (?i i)) m key) (\<lambda>s. k_ret (Inr (s, m))))) (\<lambda>_. kinv w f) (kinv w f)"
    if chk: "create_check i p ek e cand = Inr ()" and msg: "wrap_message c en (si_local i) p ek e = Inr (key, m)" for i key m
  proof (rule kt_split_inv)
    assume inv: "store_inv i"
    have "watermark_of i p < wm_epoch m"
      using chk epoch_next_less wrap_message_epoch [OF msg] by (auto simp: create_check_Inr)
    then have fresh: "\<forall>(s, st) \<in> set (si_keys (?i i)). pk_peer_id st = p \<longrightarrow> pk_epoch st \<noteq> wm_epoch m"
      using fresh_epoch [OF inv] by simp
    show "kt (\<lambda>k. kinv w f k \<and> ks_inner k = i \<and> \<not> si_failed i)
      (k_bind (k_set (?i i)) (\<lambda>_. k_bind (if cand then install_candidate p (local_peer (?i i)) m key
         else store_install p (local_peer (?i i)) m key) (\<lambda>s. k_ret (Inr (s, m))))) (\<lambda>_. kinv w f) (kinv w f)"
    proof (rule kt_bind [OF kt_set_keep])
      show "kt (\<lambda>k. kinv w f k \<and> ks_inner k = ?i i \<and> \<not> si_failed (?i i))
        (k_bind (if cand then install_candidate p (local_peer (?i i)) m key
         else store_install p (local_peer (?i i)) m key) (\<lambda>s. k_ret (Inr (s, m)))) (\<lambda>_. kinv w f) (kinv w f)" for u :: unit
        by (rule kt_bind [where Q = "\<lambda>_. kinv w f"], cases cand)
          (use install_candidate_kinv [OF fresh, of w f "local_peer (?i i)" key]
              store_install_kinv [of w f "?i i" p "local_peer (?i i)" m key] in \<open>auto intro!: kt_ret\<close>)
    qed (simp_all add: store_inv_simps)
  qed
  show "kt (kinv w f) (create_inner c en p ek e cand) (\<lambda>_. kinv w f) (kinv w f)"
    unfolding create_inner_def Let_def case_prod_unfold
    by (intro kt_query kt_guard, rule go) simp_all
qed

lemma rest_create_kinv:
  "kop_inv (retry_collision c en p)" "kop_inv (retry_candidate_collision c en p)" "kop_inv (create_each c ent ps)"
  "kop_inv (rotate_all c ent)"
proof -
  have forget: "kt (\<lambda>k. kinv w f k \<and> B k) q Q R" if "kt (kinv w f) q Q R" for w f B Q R and q :: "'b kop"
    using that by (auto simp: kt_def)
  show "kop_inv (retry_collision c en p)"
    unfolding retry_collision_def
    by (intro allI kt_query kt_guard forget create_inner_kinv [rule_format])
  show "kop_inv (retry_candidate_collision c en p)"
    unfolding retry_candidate_collision_def
    by (intro allI kt_query kt_guard forget kt_bind [OF discard_candidate_kinv [rule_format]] create_inner_kinv [rule_format])
  show each: "kop_inv (create_each c ent ps)"
    by (induction c ent ps rule: create_each.induct)
      (auto intro!: kt_ret kt_bind [OF queries_kinv(1) [rule_format]] kt_bind [OF create_inner_kinv [rule_format]])
  have each': "kop_inv (create_each c ent qs)" for qs
    by (induction c ent qs rule: create_each.induct)
      (auto intro!: kt_ret kt_bind [OF queries_kinv(1) [rule_format]] kt_bind [OF create_inner_kinv [rule_format]])
  show "kop_inv (rotate_all c ent)"
    unfolding rotate_all_def
    by (intro allI kt_query kt_guard forget kt_bind [OF each' [rule_format]] kt_ret)
qed

end
