(* ===== verification/Keystore_Steps.thy ===== *)
theory Keystore_Steps
  imports Keystore_Inv
begin

text \<open>
  The remaining keystore operations keep the invariant: accepting a peer's wrap, promoting a
  candidate, importing a peer, rotating the identity, and opening the store after a restart.
\<close>

section \<open>Accepting a wrap\<close>

lemma unwrap_check_fresh:
  assumes "unwrap_check c i s m True = Inr (Proceed collision supersede)"
  shows "watermark_of i s < wm_epoch m \<or>
    collision \<and> (\<exists>p. bm_get (si_candidates i) s = Some p \<and> pp_epoch p = wm_epoch m)"
proof -
  obtain n where n: "checked_add (epoch_raw (watermark_of i s)) 1 = Some n"
      and v: "wrap_verdict (local_peer i) s m True (Epoch n) (bm_get (si_candidates i) s) = Inr (Proceed collision supersede)"
      and g: "collision \<or> \<not> wm_epoch m < Epoch n"
    using assms by (auto simp: unwrap_check_def split: verdict.split_asm) (metis verdict.exhaust)
  have "watermark_of i s < Epoch n"
    by (rule epoch_next_less) (simp add: n)
  then show ?thesis
    using g v by (auto simp: wrap_verdict_def not_less split: option.splits if_splits)
qed

lemma replace_candidate_inv:
  assumes "store_inv i"
  shows "store_inv (replace_candidate s col spd i)" "watermark_of (replace_candidate s col spd i) = watermark_of i"
    "si_failed (replace_candidate s col spd i) = si_failed i" "set (si_keys (replace_candidate s col spd i)) \<subseteq> set (si_keys i)"
  using assms
  by (auto simp: replace_candidate_def Let_def store_inv_simps store_inv_drop_keys store_inv_remove split: option.splits)
    (auto simp: drop_keys_def)

lemma replace_candidate_fresh:
  assumes "store_inv i" and "unwrap_check c i s m True = Inr (Proceed col spd)"
  shows "\<forall>(sl, st) \<in> set (si_keys (replace_candidate s col spd i)). pk_peer_id st = s \<longrightarrow> pk_epoch st \<noteq> wm_epoch m"
  using unwrap_check_fresh [OF assms(2)]
proof
  assume "watermark_of i s < wm_epoch m"
  then show ?thesis
    using fresh_epoch [OF assms(1)] replace_candidate_inv(4) [OF assms(1), of s col spd] by blast
next
  assume "col \<and> (\<exists>p. bm_get (si_candidates i) s = Some p \<and> pp_epoch p = wm_epoch m)"
  then show ?thesis
    by (auto simp: replace_candidate_def Let_def drop_keys_def)
qed

lemma note_collision_keeps:
  assumes "note_collision s m cand col i = Inr i'"
  shows "\<exists>r r'. i' = i\<lparr>si_retry_epochs := r, si_candidate_retry_epochs := r'\<rparr>"
  using assms by (cases i) (auto simp: note_collision_def split: if_splits)

lemma replace_candidate_retry:
  "si_keys (replace_candidate s col spd (i\<lparr>si_retry_epochs := r, si_candidate_retry_epochs := r'\<rparr>)) =
    si_keys (replace_candidate s col spd i)"
  by (auto simp: replace_candidate_def Let_def drop_keys_def split: option.splits)

lemma unwrap_inner_kinv: "kop_inv (unwrap_inner c s m cand)"
proof (intro allI)
  fix w f
  let ?P = "\<lambda>i k. kinv w f k \<and> ks_inner k = i \<and> \<not> si_failed i"
  have install: "kt (?P i) (if cand then k_bind (k_set (replace_candidate s col spd i')) (\<lambda>_. install_candidate s s m key)
        else k_bind (k_set i') (\<lambda>_. store_install s s m key)) (\<lambda>_. kinv w f) (kinv w f)"
    if chk: "unwrap_check c i s m cand = Inr (Proceed col spd)" and noted: "note_collision s m cand col i = Inr i'"
    for i i' key col spd
  proof (rule kt_split_inv)
    assume inv: "store_inv i"
    obtain r r' where i': "i' = i\<lparr>si_retry_epochs := r, si_candidate_retry_epochs := r'\<rparr>"
      using note_collision_keeps [OF noted] by blast
    have inv': "store_inv i'" using inv i' by (simp add: store_inv_simps)
    note rep = replace_candidate_inv [OF inv', of s col spd]
    have cand: "kt (?P i) (k_bind (k_set (replace_candidate s col spd i')) (\<lambda>_. install_candidate s s m key)) (\<lambda>_. kinv w f) (kinv w f)"
      if "cand"
    proof (rule kt_bind [OF kt_set_keep])
      show "kt (?P (replace_candidate s col spd i')) (install_candidate s s m key) (\<lambda>_. kinv w f) (kinv w f)"
        by (rule install_candidate_kinv) (use replace_candidate_fresh [OF inv] chk that i' in \<open>simp add: replace_candidate_retry\<close>)
    qed (use rep i' in simp_all)
    have plain: "kt (?P i) (k_bind (k_set i') (\<lambda>_. store_install s s m key)) (\<lambda>_. kinv w f) (kinv w f)"
    proof (rule kt_bind [OF kt_set_keep])
      show "kt (?P i') (store_install s s m key) (\<lambda>_. kinv w f) (kinv w f)"
        by (rule store_install_kinv)
    qed (use inv' i' in simp_all)
    show "kt (?P i) (if cand then k_bind (k_set (replace_candidate s col spd i')) (\<lambda>_. install_candidate s s m key)
        else k_bind (k_set i') (\<lambda>_. store_install s s m key)) (\<lambda>_. kinv w f) (kinv w f)"
      using cand plain by simp
  qed
  have "kt (?P i) (case v of Reuse \<Rightarrow> k_ret (inner_session i s (wm_epoch m))
     | Proceed collision supersede \<Rightarrow>
         k_bind (k_ret (open_wrap c (si_local i) m)) (\<lambda>key.
         k_bind (k_ret (note_collision s m cand collision i)) (\<lambda>i'.
         if cand then k_bind (k_set (replace_candidate s collision supersede i')) (\<lambda>_. install_candidate s s m key)
         else k_bind (k_set i') (\<lambda>_. store_install s s m key)))) (\<lambda>_. kinv w f) (kinv w f)"
    if "unwrap_check c i s m cand = Inr v" for i v
  proof (cases v)
    case Reuse
    then show ?thesis by (simp add: kt_ret_inv)
  next
    case (Proceed col spd)
    show ?thesis
      unfolding Proceed verdict.case by (intro kt_guard) (rule install [OF that [unfolded Proceed]])
  qed
  then show "kt (kinv w f) (unwrap_inner c s m cand) (\<lambda>_. kinv w f) (kinv w f)"
    unfolding unwrap_inner_def by (intro kt_query kt_guard) blast
qed

section \<open>Promotion, import, rotation\<close>

lemma promote_candidate_kinv: "kop_inv (promote_candidate p e)"
proof (intro allI)
  fix w f
  have inv: "store_inv (i\<lparr>si_candidates := bm_remove p (si_candidates i), si_pairs := bm_insert p q (si_pairs i),
      si_candidate_retry_epochs := r\<rparr>)"
    if "store_inv i" and "bm_get (si_candidates i) p = Some q" for i q r
  proof -
    have "(p, q) \<in> set (si_candidates i)"
      using that by (auto simp: store_inv_def pairs_inv_def bm_get_iff)
    then have "pp_peer_id q = p" "pp_epoch q \<le> watermark_of i p"
      using that(1) by (auto simp: store_inv_def pairs_inv_def)
    then show ?thesis
      using that(1) by (auto simp: store_inv_def intro: pairs_inv_remove pairs_inv_insert)
  qed
  show "kt (kinv w f) (promote_candidate p e) (\<lambda>_. kinv w f) (kinv w f)"
    unfolding promote_candidate_def
    by (intro kt_query kt_guard, rule kt_install_end) (auto intro: inv)
qed

lemma kt_catch:
  "kt P p (\<lambda>_. Q) R \<Longrightarrow> (\<And>e. kt R (h e) (\<lambda>_. Q) R') \<Longrightarrow> kt P (k_catch p h) (\<lambda>_. Q) R'"
  unfolding kt_def k_catch_def by (fastforce split: sum.splits prod.splits)

lemma kinv_fail: "kinv w f k \<Longrightarrow> kinv w f (k\<lparr>ks_inner := (ks_inner k)\<lparr>si_failed := True\<rparr>\<rparr>)"
  by (auto simp: kinv_def ready_def store_inv_def)

lemma kt_mark_failed:
  "kt (kinv w f) (k_bind store_lock (\<lambda>i. k_bind (k_set (i\<lparr>si_failed := True\<rparr>)) (\<lambda>_. k_ret (Inl e)))) (\<lambda>_. kinv w f) (kinv w f)"
  by (rule kt_bind [OF store_lock_kt], rule kt_bind [OF kt_set [where Q = "\<lambda>_. kinv w f"]])
    (auto intro: kt_ret dest: kinv_fail)

lemma import_peer_kinv: "kop_inv (import_peer c en d)"
proof (intro allI)
  fix w f
  let ?p = "id_peer_id d"
  have rewrap: "kt (kinv w f) (if b then
       k_bind (next_epoch ?p) (\<lambda>epoch.
       k_catch (create_inner c en ?p (id_ek d) epoch False) (\<lambda>error.
         k_bind store_lock (\<lambda>inner.
         k_bind (k_set (inner\<lparr>si_failed := True\<rparr>)) (\<lambda>_. k_ret (Inl error)))))
     else k_ret (Inr ())) (\<lambda>_. kinv w f) (kinv w f)" for b
    by (cases b) (auto intro!: kt_bind [OF queries_kinv(1) [rule_format]] kt_catch [OF create_inner_kinv [rule_format]]
      kt_mark_failed kt_ret)
  have assoc: "k_bind (k_set i) (\<lambda>_. k_bind store_persist g) = k_bind (k_bind (k_set i) (\<lambda>_. store_persist)) g"
    for i and g :: "unit \<Rightarrow> unit kop"
    by (simp add: fun_eq_iff k_bind_def k_set_def)
  have "kt (kinv w f) (k_bind store_lock (\<lambda>inner.
     k_bind (k_ret (guard_ok (?p \<noteq> local_peer inner) (InvalidInput ''cannot import the local member as a peer''))) (\<lambda>_.
     k_bind (k_ret (guard_ok (\<not> (case bm_get (si_peers inner) ?p of None \<Rightarrow> False
         | Some previous \<Rightarrow> d \<noteq> previous \<and> id_created_at d \<le> id_created_at previous)) AuthenticationFailed)) (\<lambda>_.
     k_bind (k_set (inner\<lparr>si_peers := bm_insert ?p d (si_peers inner)\<rparr>)) (\<lambda>_. k_bind store_persist (\<lambda>_.
       if b inner then
       k_bind (next_epoch ?p) (\<lambda>epoch.
       k_catch (create_inner c en ?p (id_ek d) epoch False) (\<lambda>error.
         k_bind store_lock (\<lambda>inner.
         k_bind (k_set (inner\<lparr>si_failed := True\<rparr>)) (\<lambda>_. k_ret (Inl error)))))
     else k_ret (Inr ()))))))) (\<lambda>_. kinv w f) (kinv w f)" for b
    unfolding assoc
    by (intro kt_query kt_guard, rule kt_bind [OF kt_set_write], erule store_inv_remove(4), simp, rule rewrap)
  note body = this
  show "kt (kinv w f) (import_peer c en d) (\<lambda>_. kinv w f) (kinv w f)"
    unfolding import_peer_def Let_def
    by (rule kt_bind [OF kt_ret [where Q = "\<lambda>_. kinv w f"]], assumption, assumption, rule body)
qed

lemma kinv_files: "kinv w f k \<Longrightarrow> kinv w f (k\<lparr>ks_identity_file := x\<rparr>)"
  by (simp add: kinv_def ready_def file_mark_def)

lemma rotate_identity_kinv: "kop_inv (rotate_identity_ek c en t)"
proof (intro allI)
  fix w f
  have "kt (\<lambda>k. kinv w f k \<and> ks_inner k = i \<and> \<not> si_failed i)
      (k_bind (k_or_fail (k_write place_identity b)) (\<lambda>_.
       k_bind k_inner (\<lambda>inner. k_bind (k_set (inner\<lparr>si_local := l\<rparr>)) (\<lambda>_. k_ret (Inr (li_document l))))))
      (\<lambda>_. kinv w f) (kinv w f)" for i b l
  proof (rule kt_bind [OF kt_or_fail [OF kt_write]])
    show "kt (\<lambda>k. kinv w f k \<and> ks_inner k = i \<and> \<not> si_failed i)
        (k_bind k_inner (\<lambda>inner. k_bind (k_set (inner\<lparr>si_local := l\<rparr>)) (\<lambda>_. k_ret (Inr (li_document l)))))
        (\<lambda>_. kinv w f) (kinv w f)" for u :: unit
      by (rule kt_bind [OF kt_inner [where Q = "\<lambda>j k. (kinv w f k \<and> ks_inner k = j \<and> \<not> si_failed j)"]])
        (auto intro!: kt_bind [OF kt_set_only] kt_ret simp: store_inv_simps)
  qed (auto simp: place_identity_def kinv_files kinv_fail intro: kinv_fail [OF kinv_files, simplified])
  then show "kt (kinv w f) (rotate_identity_ek c en t) (\<lambda>_. kinv w f) (kinv w f)"
    unfolding rotate_identity_ek_def by (intro kt_query kt_guard) blast
qed

section \<open>Opening\<close>

definition restored :: "(PeerId \<Rightarrow> Epoch) \<Rightarrow> StoreInner \<Rightarrow> bool" where
  "restored w i \<longleftrightarrow> store_inv i \<and> \<not> si_failed i \<and> si_candidates i = [] \<and> si_keys i = [] \<and> (\<forall>p. w p \<le> watermark_of i p)"

lemma restored_initial: "restored (\<lambda>_. Epoch 0) (initial_inner l n)"
  by (simp add: restored_def initial_inner_def store_inv_def pairs_inv_def keys_inv_def)

lemma restored_raise:
  "restored w i \<Longrightarrow> watermark_of i p \<le> e \<Longrightarrow> restored w (i\<lparr>si_epoch_watermarks := bm_insert p e (si_epoch_watermarks i)\<rparr>)"
  by (auto simp: restored_def store_inv_raise) (auto simp: store_inv_def intro: order_trans)

lemma restore_watermarks:
  assumes "fold_ok restore_watermark ws i = Inr i'" and "restored w i"
  shows "restored w i'" and "\<And>p. bm_or_default (Epoch 0) ws p \<le> watermark_of i' p" and "\<And>p. watermark_of i p \<le> watermark_of i' p"
proof -
  have "restored w i' \<and> (\<forall>p. bm_or_default (Epoch 0) ws p \<le> watermark_of i' p) \<and> (\<forall>p. watermark_of i p \<le> watermark_of i' p)"
    using assms
  proof (induction ws arbitrary: i)
    case Nil
    then show ?case by (simp add: bm_or_default_def)
  next
    case (Cons e ws)
    obtain p n where e: "e = (p, n)" by (cases e)
    let ?i = "i\<lparr>si_epoch_watermarks := bm_insert p n (si_epoch_watermarks i)\<rparr>"
    have ok: "bm_ok (si_epoch_watermarks i)" using Cons.prems(2) by (simp add: restored_def store_inv_def)
    have new: "p \<notin> fst ` set (si_epoch_watermarks i)" and r: "fold_ok restore_watermark ws ?i = Inr i'"
      using Cons.prems(1) e by (auto simp: restore_watermark_def [of "(p, n)"])
    then have zero: "watermark_of i p = Epoch 0"
      by (auto simp: watermark_of_def bm_or_default_def map_of_eq_None_iff split: option.splits)
         (metis map_of_eq_None_iff option.distinct(1))
    have "restored w ?i"
      by (rule restored_raise) (use Cons.prems(2) zero in auto)
    from Cons.IH [OF r this] have IH: "restored w i'" "\<And>q. bm_or_default (Epoch 0) ws q \<le> watermark_of i' q"
        "\<And>q. watermark_of ?i q \<le> watermark_of i' q" by auto
    have "bm_or_default (Epoch 0) (e # ws) q \<le> watermark_of i' q" for q
      using IH(2) [of q] IH(3) [of q] by (auto simp: e wm_insert [OF ok] bm_or_default_def split: if_splits)
    moreover have "watermark_of i q \<le> watermark_of i' q" for q
      using IH(3) [of q] zero by (auto simp: wm_insert [OF ok] split: if_splits)
    ultimately show ?case using IH(1) by blast
  qed
  then show "restored w i'" and "\<And>p. bm_or_default (Epoch 0) ws p \<le> watermark_of i' p" and "\<And>p. watermark_of i p \<le> watermark_of i' p"
    by auto
qed

lemma restored_raise_watermark: "restored w i \<Longrightarrow> restored w (raise_watermark p e i)"
  unfolding raise_watermark_eq by (rule restored_raise) auto

lemma restored_steps:
  "restore_peer c d i = Inr i' \<Longrightarrow> restored w i \<Longrightarrow> restored w i'"
  "restore_pair c q i = Inr i' \<Longrightarrow> restored w i \<Longrightarrow> restored w i'"
  "restore_candidate c q (seen, i) = Inr (seen', i') \<Longrightarrow> restored w i \<Longrightarrow> restored w i'"
proof -
  show "restore_peer c d i = Inr i' \<Longrightarrow> restored w i \<Longrightarrow> restored w i'"
    by (auto simp: restore_peer_def restored_def store_inv_remove)
  show "restored w i'" if "restore_pair c q i = Inr i'" "restored w i"
  proof -
    have ok: "bm_ok (si_epoch_watermarks i)" using that(2) by (simp add: restored_def store_inv_def)
    let ?i = "raise_watermark (pp_peer_id q) (pp_epoch q) i"
    have r: "restored w ?i" by (rule restored_raise_watermark [OF that(2)])
    have "pp_epoch q \<le> watermark_of ?i (pp_peer_id q)"
      unfolding raise_watermark_eq by (simp add: wm_insert [OF ok])
    then have "store_inv (?i\<lparr>si_pairs := bm_insert (pp_peer_id q) q (si_pairs ?i)\<rparr>)"
      using r by (intro store_inv_pair) (auto simp: restored_def)
    moreover have "?i\<lparr>si_pairs := bm_insert (pp_peer_id q) q (si_pairs ?i)\<rparr> = i'"
      using that(1) by (cases i) (auto simp: restore_pair_def raise_watermark_def watermark_of_def)
    ultimately show ?thesis using r by (auto simp: restored_def)
  qed
  show "restore_candidate c q (seen, i) = Inr (seen', i') \<Longrightarrow> restored w i \<Longrightarrow> restored w i'"
    by (auto simp: restore_candidate_def restored_raise_watermark)
qed

lemma restore_state_restored:
  assumes "restore_state c st (initial_inner l n) = Inr i"
  shows "restored (bm_or_default (Epoch 0) (ps_epoch_watermarks st)) i"
proof -
  let ?w = "bm_or_default (Epoch 0) (ps_epoch_watermarks st)"
  obtain i1 i2 i3 seen where i1: "fold_ok restore_watermark (ps_epoch_watermarks st)
        ((initial_inner l n)\<lparr>si_next_slot := ps_next_slot st\<rparr>) = Inr i1"
      and i2: "fold_ok (restore_peer c) (ps_peers st) i1 = Inr i2" and i3: "fold_ok (restore_pair c) (ps_pairs st) i2 = Inr i3"
      and i4: "fold_ok (restore_candidate c) (ps_candidates st) ([], i3) = Inr (seen, i)"
    using assms by (auto simp: restore_state_def)
  have "restored (\<lambda>_. Epoch 0) ((initial_inner l n)\<lparr>si_next_slot := ps_next_slot st\<rparr>)"
    by (simp add: restored_def initial_inner_def store_inv_def pairs_inv_def keys_inv_def)
  from restore_watermarks [OF i1 this] have "restored ?w i1" by (auto simp: restored_def)
  then have "restored ?w i2" by (rule fold_ok_invariant [OF i2]) (rule restored_steps)
  then have "restored ?w i3" by (rule fold_ok_invariant [OF i3]) (rule restored_steps)
  then have "restored ?w (snd (seen, i))"
    by (intro fold_ok_invariant [OF i4, where P = "\<lambda>s. restored ?w (snd s)"]) (auto intro: restored_steps)
  then show ?thesis by simp
qed

lemma ktD: "kt P p Q R \<Longrightarrow> P k \<Longrightarrow> case p (os, k) of (Inr x, _, k') \<Rightarrow> Q x k' | (Inl _, _, k') \<Rightarrow> R k'"
  by (simp add: kt_def)

lemma ready_restored:
  assumes "restored w i" and "\<And>p. file_mark k p \<le> w p"
  shows "ready w (file_mark k) (k\<lparr>ks_inner := i\<rparr>)"
  using assms by (auto simp: restored_def ready_def intro: order_trans)

lemma open_load_kinv:
  "kt (\<lambda>k. file_mark k = f) (open_load c l n) (\<lambda>_. kinv f f) (\<lambda>k. f = file_mark k \<or> kinv f f k)"
proof -
  have "case open_load c l n (os, k) of (Inr x, _, k') \<Rightarrow> kinv f f k' | (Inl _, _, k') \<Rightarrow> f = file_mark k' \<or> kinv f f k'"
    if f: "file_mark k = f" for os k
  proof -
    define loaded where "loaded = (\<lambda>n. case ks_state_file k of
         None \<Rightarrow> Inr (initial_inner l n)
       | Some bs \<Rightarrow>
           if length bs > MAX_STORE_BYTES then Inl (InvalidInput ''keystore file is too large'')
           else and_then (decode_store_state bs) (\<lambda>stored. restore_state c stored (initial_inner l n)))"
    have load: "restored f i" if L: "loaded n' = Inr i" for n' i
    proof (cases "ks_state_file k")
      case None
      have "f = (\<lambda>_. Epoch 0)"
        using None unfolding f [symmetric] by (simp add: file_mark_def fun_eq_iff)
      with None L show ?thesis
        by (auto simp: loaded_def restored_initial)
    next
      case (Some bs)
      then obtain st where st: "decode_store_state bs = Inr st" "restore_state c st (initial_inner l n') = Inr i"
        using L by (auto simp: loaded_def split: if_splits)
      have "f = bm_or_default (Epoch 0) (ps_epoch_watermarks st)"
        using Some st unfolding f [symmetric] by (simp add: file_mark_def fun_eq_iff)
      with restore_state_restored [OF st(2)] show ?thesis by simp
    qed
    show ?thesis
    proof (cases n)
      case (Inl e)
      with f show ?thesis by (auto simp: open_load_def k_bind_def k_ret_def)
    next
      case (Inr n')
      show ?thesis
      proof (cases "loaded n'")
        case (Inl e)
        with Inr f show ?thesis by (auto simp: open_load_def k_bind_def k_ret_def loaded_def)
      next
        case (Inr i)
        have run: "open_load c l n (os, k) = store_persist (os, k\<lparr>ks_inner := i\<rparr>)"
          using Inr \<open>n = Inr n'\<close> by (simp add: open_load_def k_bind_def k_ret_def k_set_def loaded_def)
        have "ready f f (k\<lparr>ks_inner := i\<rparr>)"
          using ready_restored [OF load [OF Inr], of k] f by simp
        then show ?thesis
          unfolding run by (intro ktD [OF kt_weaken [OF store_persist_kt [of f f i], of "\<lambda>k. ready f f k \<and> ks_inner k = i"]]) auto
      qed
    qed
  qed
  then show ?thesis by (simp add: kt_def)
qed

text \<open>A successful open leaves a store that satisfies the invariant and has forgotten no watermark of
  the state file; a failed one has not lowered the file's watermarks either.\<close>

lemma open_identity_marks:
  "kt (\<lambda>k. file_mark k = f) (open_identity c g) (\<lambda>_ k. file_mark k = f) (\<lambda>k. file_mark k = f)"
  unfolding kt_def
  by (auto simp: open_identity_def Let_def k_bind_def k_ret_def k_write_def place_identity_def file_mark_def fun_eq_iff
      split: option.splits list.splits sum.splits outcome.splits)

lemma keystore_open_kinv:
  "kt (\<lambda>k. file_mark k = f) (keystore_open c g n en) (\<lambda>_. kinv f f) (\<lambda>k. f = file_mark k \<or> kinv f f k)"
proof -
  have "kt (kinv f f) (k_bind store_lock (\<lambda>inner. create_each c en (open_targets inner))) (\<lambda>_. kinv f f) (kinv f f)"
    by (rule kt_query, rule kt_weaken [OF rest_create_kinv(3) [rule_format]]) auto
  then have rest: "kt (kinv f f) (k_bind store_lock (\<lambda>inner. create_each c en (open_targets inner))) (\<lambda>_. kinv f f)
      (\<lambda>k. f = file_mark k \<or> kinv f f k)"
    by (rule kt_weaken) auto
  show ?thesis
    unfolding keystore_open_def
    by (rule kt_bind [OF kt_weaken [OF open_identity_marks]], assumption, assumption, simp, rule kt_bind [OF open_load_kinv rest])
qed

section \<open>The life of a keystore\<close>

text \<open>\<open>seal\<close> and \<open>open\<close> of the packet cipher, on a handle of the store.\<close>

definition store_seal :: "crypto \<Rightarrow> PairKeyHandle \<Rightarrow> bytes \<Rightarrow> bytes \<Rightarrow> bytes \<Rightarrow> bytes kop" where
  "store_seal c handle nonce_bytes aad plaintext =
     k_bind store_lock (\<lambda>inner.
     k_bind (k_ret (decode_aad aad)) (\<lambda>_.
     with_pair_state handle (seal (cr_gcm c) (local_peer inner) nonce_bytes aad plaintext)))"

definition store_open :: "crypto \<Rightarrow> PairKeyHandle \<Rightarrow> bytes \<Rightarrow> bytes \<Rightarrow> bytes \<Rightarrow> bytes kop" where
  "store_open c handle nonce_bytes aad ciphertext =
     k_bind store_lock (\<lambda>inner.
     k_bind (k_ret (decode_aad aad)) (\<lambda>_.
     with_pair_state handle (aead_open (cr_gcm c) (local_peer inner) nonce_bytes aad ciphertext)))"

text \<open>The calls that change a running store, with their arguments and entropy.\<close>

datatype kcall =
    Create entropy PeerId bytes Epoch bool
  | Unwrap PeerId WrapMessage bool
  | RetryCollision entropy PeerId
  | RetryCandidateCollision entropy PeerId
  | RotateAll "PeerId \<Rightarrow> entropy"
  | ImportPeer entropy IdentityDocument
  | RotateIdentity "(256 word) result" "u64 result"
  | MarkAdmitted PeerId
  | PromoteCandidate PeerId Epoch
  | DiscardCandidate PeerId
  | DiscardPair PeerId
  | ObserveRemoteEpoch PeerId Epoch
  | Retire PairKeyHandle
  | BlockLiveTraffic PeerId u64
  | UnblockLiveTraffic PeerId u64
  | Seal PairKeyHandle bytes bytes bytes
  | Open PairKeyHandle bytes bytes bytes

definition k_void :: "'a kop \<Rightarrow> unit kop" where
  "k_void p = k_bind p (\<lambda>_. k_ret (Inr ()))"

fun kcall_run :: "crypto \<Rightarrow> kcall \<Rightarrow> unit kop" where
  "kcall_run c (Create en p ek e cand) = k_void (create_inner c en p ek e cand)"
| "kcall_run c (Unwrap p m cand) = k_void (unwrap_inner c p m cand)"
| "kcall_run c (RetryCollision en p) = k_void (retry_collision c en p)"
| "kcall_run c (RetryCandidateCollision en p) = k_void (retry_candidate_collision c en p)"
| "kcall_run c (RotateAll en) = k_void (rotate_all c en)"
| "kcall_run c (ImportPeer en d) = import_peer c en d"
| "kcall_run c (RotateIdentity en t) = k_void (rotate_identity_ek c en t)"
| "kcall_run c (MarkAdmitted p) = mark_admitted p"
| "kcall_run c (PromoteCandidate p e) = k_void (promote_candidate p e)"
| "kcall_run c (DiscardCandidate p) = discard_candidate p"
| "kcall_run c (DiscardPair p) = discard_pair p"
| "kcall_run c (ObserveRemoteEpoch p e) = observe_remote_epoch p e"
| "kcall_run c (Retire h) = retire h"
| "kcall_run c (BlockLiveTraffic p owner) = block_live_traffic p owner"
| "kcall_run c (UnblockLiveTraffic p owner) = unblock_live_traffic p owner"
| "kcall_run c (Seal h n a m) = k_void (store_seal c h n a m)"
| "kcall_run c (Open h n a m) = k_void (store_open c h n a m)"

text \<open>
  A keystore's files with the process that may have them open. A running process makes calls, under
  any outcomes of their writes; it can stop or be killed at any time; a stopped one can be opened
  again, which may fail. Reads of a running store do not appear: they change nothing.
\<close>

inductive kstep :: "crypto \<Rightarrow> keystore \<times> bool \<Rightarrow> keystore \<times> bool \<Rightarrow> bool" for c where
  step_call: "kcall_run c call (os, k) = (r, os', k') \<Longrightarrow> kstep c (k, True) (k', True)"
| step_stop: "kstep c (k, running) (k, False)"
| step_open: "keystore_open c g n en (os, k) = (Inr (), os', k') \<Longrightarrow> kstep c (k, False) (k', True)"
| step_open_fails: "keystore_open c g n en (os, k) = (Inl e, os', k') \<Longrightarrow> kstep c (k, False) (k', False)"

inductive_cases kstep_cases: "kstep c (k, running) (k', running')"

lemma kt_void: "kt P p (\<lambda>_. Q) R \<Longrightarrow> kt P (k_void p) (\<lambda>_. Q) R"
  unfolding k_void_def by (erule kt_bind) (auto intro: kt_ret)

lemma seal_ops_kinv: "kop_inv (store_seal c h n a m)" "kop_inv (store_open c h n a m)"
proof -
  have forget: "kt (\<lambda>k. kinv w f k \<and> B k) q Q R" if "kt (kinv w f) q Q R" for w f B Q R and q :: "'b kop"
    using that by (auto simp: kt_def)
  have "kop_inv (with_pair_state h (seal (cr_gcm c) me n a m))" for me
    by (rule with_pair_state_kinv) (use seal_frame [OF surjective_pairing] in \<open>simp add: pair_identity_def\<close>)
  then show "kop_inv (store_seal c h n a m)"
    unfolding store_seal_def by (intro allI kt_query kt_guard forget) blast
  have "kop_inv (with_pair_state h (aead_open (cr_gcm c) me n a m))" for me
    by (rule with_pair_state_kinv) (use open_frame [OF surjective_pairing] in \<open>simp add: pair_identity_def\<close>)
  then show "kop_inv (store_open c h n a m)"
    unfolding store_open_def by (intro allI kt_query kt_guard forget) blast
qed

lemma kcall_kinv: "kop_inv (kcall_run c call)"
  by (cases call)
    (simp_all add: kt_void create_inner_kinv unwrap_inner_kinv rest_create_kinv import_peer_kinv rotate_identity_kinv
      mark_admitted_kinv promote_candidate_kinv discard_candidate_kinv discard_pair_kinv observe_remote_epoch_kinv
      retire_kinv block_kinv unblock_kinv seal_ops_kinv)

definition ksys_inv :: "keystore \<times> bool \<Rightarrow> bool" where
  "ksys_inv s \<longleftrightarrow> (snd s \<longrightarrow> kinv (\<lambda>_. Epoch 0) (\<lambda>_. Epoch 0) (fst s))"

lemma kinv_bounds: "kinv w f k \<longleftrightarrow> kinv (\<lambda>_. Epoch 0) (\<lambda>_. Epoch 0) k \<and> (\<forall>p. w p \<le> wm k p) \<and> (\<forall>p. f p \<le> file_mark k p)"
  by (auto simp: kinv_def ready_def)

lemma kstep_marks:
  assumes "kstep c s t" and "ksys_inv s"
  shows "ksys_inv t \<and> (\<forall>p. file_mark (fst s) p \<le> file_mark (fst t) p)"
  using assms
proof cases
  case (step_call call os k r os' k')
  have "kinv (\<lambda>_. Epoch 0) (file_mark k) k"
    using assms(2) step_call(1) kinv_bounds [of "\<lambda>_. Epoch 0" "file_mark k"] by (auto simp: ksys_inv_def)
  from ktD [OF kcall_kinv [rule_format] this, of c call os] show ?thesis
    using step_call kinv_bounds [of "\<lambda>_. Epoch 0" "file_mark k"] by (auto simp: ksys_inv_def split: sum.splits)
next
  case (step_open g n en os k os' k')
  with ktD [OF keystore_open_kinv, of k "file_mark k" c g n en os] show ?thesis
    using kinv_bounds [of "file_mark k" "file_mark k"] by (auto simp: ksys_inv_def)
next
  case (step_open_fails g n en os k e os' k')
  with ktD [OF keystore_open_kinv, of k "file_mark k" c g n en os] show ?thesis
    using kinv_bounds [of "file_mark k" "file_mark k"] by (auto simp: ksys_inv_def)
qed (auto simp: ksys_inv_def)

interpretation keystore_life: transition_system "\<lambda>s. \<not> snd s" "kstep c" ksys_inv for c
  by unfold_locales (simp add: ksys_inv_def, simp add: kstep_marks)

lemma kruns_marks:
  "run_steps (kstep c) s t \<Longrightarrow> ksys_inv s \<Longrightarrow> file_mark (fst s) p \<le> file_mark (fst t) p"
proof (induction rule: run_steps.induct)
  case (run_snoc t u)
  with keystore_life.runs_inv kstep_marks show ?case by (blast intro: order_trans)
qed simp

end
