(* ===== verification/Agreement.thy ===== *)
theory Agreement
  imports Keystore_Steps
begin

text \<open>
  What the invariant of the keystore gives its users: sessions carry durable epochs, a wrap created
  later never reuses one, both ends of a wrap hold the same key, a repeated wrap finds the session it
  made, and the gates of live traffic.
\<close>

section \<open>Successful operations\<close>

lemma k_bind_Inr: "k_bind p f s = (Inr y, s') \<longleftrightarrow> (\<exists>x t. p s = (Inr x, t) \<and> f x t = (Inr y, s'))"
  by (auto simp: k_bind_def split: sum.splits prod.splits)

lemma k_simps:
  "k_ret x s = (Inr y, s') \<longleftrightarrow> x = Inr y \<and> s' = s"
  "k_inner (os, k) = (Inr i, s') \<longleftrightarrow> i = ks_inner k \<and> s' = (os, k)"
  "k_set i (os, k) = (Inr u, s') \<longleftrightarrow> s' = (os, k\<lparr>ks_inner := i\<rparr>)"
  by (auto simp: k_ret_def k_inner_def k_set_def)

lemma store_lock_Inr: "store_lock (os, k) = (Inr i, s') \<longleftrightarrow> \<not> si_failed (ks_inner k) \<and> i = ks_inner k \<and> s' = (os, k)"
  by (auto simp: store_lock_def k_bind_Inr k_simps)

lemma store_persist_Inr: "store_persist (os, k) = (Inr u, os', k') \<Longrightarrow> ks_inner k' = ks_inner k"
  by (auto simp: store_persist_def k_bind_def k_inner_def k_or_fail_def k_ret_def k_write_def place_state_def
      split: sum.splits prod.splits list.splits outcome.splits if_splits)

lemma take_slot_Inr:
  "take_slot (os, k) = (Inr s, os', k') \<longleftrightarrow> checked_add (si_next_slot (ks_inner k)) 1 = Some (s + 1) \<and>
    s = si_next_slot (ks_inner k) \<and> os' = os \<and> k' = k\<lparr>ks_inner := (ks_inner k)\<lparr>si_next_slot := s + 1\<rparr>\<rparr>"
  by (auto simp: take_slot_def k_bind_Inr k_simps dest: checked_slot)

lemma store_install_Inr:
  assumes "store_install p ini m key (os, k) = (Inr s, os', k')"
  shows "(si_next_slot (ks_inner k), pair_key_new key p (wm_epoch m)) \<in> set (si_keys (ks_inner k')) \<and>
    inner_session (ks_inner k') p (wm_epoch m) = Inr s \<and> si_failed (ks_inner k') = si_failed (ks_inner k)"
  using assms
  by (auto simp: store_install_def Let_def k_bind_Inr k_simps take_slot_Inr drop_keys_def raise_watermark_def dest!: store_persist_Inr)

lemma install_candidate_Inr:
  assumes "install_candidate p ini m key (os, k) = (Inr s, os', k')"
  shows "(si_next_slot (ks_inner k), pair_key_new key p (wm_epoch m)) \<in> set (si_keys (ks_inner k')) \<and>
    inner_session (ks_inner k') p (wm_epoch m) = Inr s \<and> si_failed (ks_inner k') = si_failed (ks_inner k)"
  using assms
  by (auto simp: install_candidate_def Let_def k_bind_Inr k_simps take_slot_Inr raise_watermark_def dest!: store_persist_Inr)

lemma create_inner_Inr:
  assumes "create_inner c en p ek e cand (os, k) = (Inr (s, m), os', k')"
  shows "\<exists>key slot. wrap_message c en (si_local (ks_inner k)) p ek e = Inr (key, m) \<and>
    create_check (ks_inner k) p ek e cand = Inr () \<and> \<not> si_failed (ks_inner k) \<and>
    (slot, pair_key_new key p e) \<in> set (si_keys (ks_inner k')) \<and>
    inner_session (ks_inner k') p e = Inr s \<and> \<not> si_failed (ks_inner k')"
proof -
  let ?i = "if cand then (ks_inner k)\<lparr>si_candidate_retry_epochs := bm_remove p (si_candidate_retry_epochs (ks_inner k))\<rparr>
    else (ks_inner k)\<lparr>si_retry_epochs := bm_remove p (si_retry_epochs (ks_inner k))\<rparr>"
  from assms obtain key where key: "wrap_message c en (si_local (ks_inner k)) p ek e = Inr (key, m)"
      "create_check (ks_inner k) p ek e cand = Inr ()" "\<not> si_failed (ks_inner k)"
      and inst: "(if cand then install_candidate p (local_peer ?i) m key else store_install p (local_peer ?i) m key)
        (os, k\<lparr>ks_inner := ?i\<rparr>) = (Inr s, os', k')"
    by (cases cand) (auto simp: create_inner_def Let_def k_bind_Inr k_simps store_lock_Inr split: prod.splits)
  from inst have "\<exists>slot. (slot, pair_key_new key p (wm_epoch m)) \<in> set (si_keys (ks_inner k')) \<and>
      inner_session (ks_inner k') p (wm_epoch m) = Inr s \<and> si_failed (ks_inner k') = si_failed (ks_inner k)"
    by (cases cand) (auto dest!: store_install_Inr install_candidate_Inr)
  with key wrap_message_epoch [OF key(1)] show ?thesis by auto
qed

section \<open>Epochs\<close>

lemma inner_session_Inr:
  assumes "inner_session i p e = Inr s"
  obtains st where "(ph_slot (ses_key_handle s), st) \<in> set (si_keys i)" "pk_peer_id st = p" "pk_epoch st = e"
    "ses_peer_id s = p" "ses_epoch s = e"
proof -
  obtain slot st where f: "find (\<lambda>(slot, st). pk_peer_id st = p \<and> pk_epoch st = e) (si_keys i) = Some (slot, st)"
      and s: "s = \<lparr>ses_peer_id = p, ses_epoch = e, ses_key_handle = \<lparr>ph_slot = slot, ph_store_id = si_instance_id i\<rparr>\<rparr>"
    using assms by (auto simp: inner_session_def)
  have "(slot, st) \<in> set (si_keys i) \<and> pk_peer_id st = p \<and> pk_epoch st = e"
    using f by (auto simp: find_Some_iff in_set_conv_nth)
  with s show ?thesis by (intro that [of st]) auto
qed

lemma session_mark:
  "store_inv i \<Longrightarrow> inner_session i p e = Inr s \<Longrightarrow> e \<le> watermark_of i p \<and> ses_epoch s = e"
  by (erule inner_session_Inr) (auto simp: store_inv_def keys_inv_def)

lemma running_marks:
  assumes "ksys_inv (k, True)" and "\<not> si_failed (ks_inner k)"
  shows "store_inv (ks_inner k)" "file_mark k p = wm k p"
  using assms by (auto simp: ksys_inv_def kinv_def ready_def)

lemma session_durable:
  assumes "ksys_inv (k, True)" and "store_session p e (os, k) = (Inr s, t)"
  shows "e \<le> file_mark k p \<and> ses_epoch s = e"
  using assms(2) session_mark [of "ks_inner k" p e s] running_marks [OF assms(1)]
  by (auto simp: store_session_def k_bind_Inr k_simps store_lock_Inr)

lemma create_above:
  assumes "ksys_inv (k, True)" and "create_inner c en p ek e cand (os, k) = (Inr (s, m), t)"
  shows "file_mark k p < e \<and> ses_epoch s = e"
proof -
  obtain os' k' where t: "t = (os', k')" by (cases t)
  obtain key slot where new: "create_check (ks_inner k) p ek e cand = Inr ()" "\<not> si_failed (ks_inner k)"
      "inner_session (ks_inner k') p e = Inr s"
    using create_inner_Inr [OF assms(2) [unfolded t]] by blast
  then have "wm k p < e"
    by (auto simp: create_check_Inr intro: epoch_next_less)
  moreover have "ses_epoch s = e" using new(3) by (rule inner_session_Inr)
  ultimately show ?thesis using running_marks [OF assms(1) new(2)] by simp
qed

section \<open>Agreement\<close>

lemma wrap_message_opens:
  assumes "crypto_correct c" and "wrap_message c en l p (cr_kem_ek c (li_kem_seed l')) e = Inr (key, m)"
  shows "open_wrap c l' m = Inr key"
proof -
  from assms(2) obtain r ss ct info aad where
    "cr_encaps c (cr_kem_ek c (li_kem_seed l')) r = (ss, ct)" "wm_kem_ct m = ct"
    "derive_wrap_key c ss (wm_min_id m) (wm_max_id m) (wm_epoch m) = Inr info"
    "wrap_aad (wm_min_id m) (wm_max_id m) (wm_epoch m) = Inr aad"
    "gcm_encrypt (cr_gcm c) info WRAP_GCM_NONCE aad (to_be_bytes key) = Some (wm_wrap_ct m)"
    by (auto simp: wrap_message_def Let_def encapsulate_def split: prod.splits)
  with assms(1) show ?thesis
    by (simp add: open_wrap_def decapsulate_def crypto_correct_def gcm_correct_def)
qed

lemma wrap_message_signed:
  assumes "crypto_correct c" and "wrap_message c en l p ek e = Inr (key, m)"
  shows "\<exists>b. wrap_m m = Inr b \<and> mldsa_verify c (cr_sign_vk c (li_signing_seed l)) WRAP_CONTEXT b (wm_signature m) = Inr ()"
    "wm_min_id m = min (id_peer_id (li_document l)) p" "wm_max_id m = max (id_peer_id (li_document l)) p"
proof -
  show "\<exists>b. wrap_m m = Inr b \<and> mldsa_verify c (cr_sign_vk c (li_signing_seed l)) WRAP_CONTEXT b (wm_signature m) = Inr ()"
    using assms(2)
    by (auto simp: wrap_message_def Let_def wrap_ok_def wrap_bytes_def dest: mldsa_sign_verifies [OF assms(1)])
  show "wm_min_id m = min (id_peer_id (li_document l)) p" "wm_max_id m = max (id_peer_id (li_document l)) p"
    using assms(2) by (auto simp: wrap_message_def Let_def)
qed

definition session_key :: "keystore \<Rightarrow> PairSession \<Rightarrow> 256 word option" where
  "session_key k s = map_option pk_key (bm_get (si_keys (ks_inner k)) (ph_slot (ses_key_handle s)))"

lemma session_key_new:
  assumes "store_inv (ks_inner k)" and "(slot, pair_key_new key p e) \<in> set (si_keys (ks_inner k))"
    and "inner_session (ks_inner k) p e = Inr s"
  shows "session_key k s = Some key"
proof -
  obtain st where st: "(ph_slot (ses_key_handle s), st) \<in> set (si_keys (ks_inner k))" "pk_peer_id st = p" "pk_epoch st = e"
    using assms(3) by (rule inner_session_Inr)
  have "ph_slot (ses_key_handle s) = slot"
    using assms(1,2) st unfolding store_inv_def keys_inv_def by (fastforce simp: pair_key_new_def)
  then have "bm_get (si_keys (ks_inner k)) (ph_slot (ses_key_handle s)) = Some (pair_key_new key p e)"
    using assms(1,2) by (simp add: store_inv_def keys_inv_def bm_get_iff)
  then show ?thesis by (simp add: session_key_def pair_key_new_def)
qed

lemma unwrap_inner_Inr:
  assumes "unwrap_inner c p m cand (os, k) = (Inr s, os', k')"
    and "unwrap_check c (ks_inner k) p m cand = Inr (Proceed col spd)"
  shows "\<exists>key slot. open_wrap c (si_local (ks_inner k)) m = Inr key \<and>
    (slot, pair_key_new key p (wm_epoch m)) \<in> set (si_keys (ks_inner k')) \<and> inner_session (ks_inner k') p (wm_epoch m) = Inr s"
proof -
  from assms obtain key i os'' where "open_wrap c (si_local (ks_inner k)) m = Inr key"
      "(if cand then install_candidate p p m key else store_install p p m key) (os'', k\<lparr>ks_inner := i\<rparr>) = (Inr s, os', k')"
    by (cases cand) (auto simp: unwrap_inner_def k_bind_Inr k_simps store_lock_Inr)
  then show ?thesis
    by (cases cand) (auto dest!: store_install_Inr install_candidate_Inr)
qed

text \<open>
  The receiving side: \<open>knows\<close> says that B's store names A's verification key, and that the wrap is
  for B's identity. A first contact needs the smaller peer as initiator and the next epoch; a known
  pair needs a newer epoch.
\<close>

definition knows :: "crypto \<Rightarrow> LocalIdentity \<Rightarrow> StoreInner \<Rightarrow> bool" where
  "knows c a b \<longleftrightarrow> \<not> si_failed b \<and> (\<exists>d. bm_get (si_peers b) (id_peer_id (li_document a)) = Some d \<and>
     id_vk d = cr_sign_vk c (li_signing_seed a))"

definition expects :: "StoreInner \<Rightarrow> PeerId \<Rightarrow> Epoch \<Rightarrow> bool" where
  "expects b a e \<longleftrightarrow> (\<exists>n. checked_add (epoch_raw (watermark_of b a)) 1 = Some n \<and>
     (case bm_get (si_pairs b) a of None \<Rightarrow> a < local_peer b \<and> e = Epoch n | Some p \<Rightarrow> pp_epoch p < e))"

lemma unwrap_check_accepts:
  assumes "crypto_correct c" and "wrap_message c en l (local_peer b) ek e = Inr (key, m)" and "knows c l b"
    and "expects b (id_peer_id (li_document l)) e"
  shows "unwrap_check c b (id_peer_id (li_document l)) m False = Inr (Proceed False False)"
proof -
  obtain bs where bs: "wrap_m m = Inr bs" "mldsa_verify c (cr_sign_vk c (li_signing_seed l)) WRAP_CONTEXT bs (wm_signature m) = Inr ()"
    using wrap_message_signed(1) [OF assms(1,2)] by blast
  have "wm_min_id m = min (local_peer b) (id_peer_id (li_document l))" "wm_max_id m = max (local_peer b) (id_peer_id (li_document l))"
    using wrap_message_signed(2,3) [OF assms(1,2)] by (simp_all add: min.commute max.commute)
  moreover have ep: "wm_epoch m = e" by (rule wrap_message_epoch [OF assms(2)])
  moreover obtain d n where d: "bm_get (si_peers b) (id_peer_id (li_document l)) = Some d" "id_vk d = cr_sign_vk c (li_signing_seed l)"
      and n: "checked_add (epoch_raw (watermark_of b (id_peer_id (li_document l)))) 1 = Some n"
      and x: "case bm_get (si_pairs b) (id_peer_id (li_document l)) of
        None \<Rightarrow> id_peer_id (li_document l) < local_peer b \<and> e = Epoch n | Some p \<Rightarrow> pp_epoch p < e"
    using assms(3,4) by (auto simp: knows_def expects_def)
  moreover have "wrap_verdict (local_peer b) (id_peer_id (li_document l)) m False (Epoch n)
      (bm_get (si_pairs b) (id_peer_id (li_document l))) = Inr (Proceed False False)"
    using x ep by (cases "bm_get (si_pairs b) (id_peer_id (li_document l))") (auto simp: wrap_verdict_def not_le)
  ultimately show ?thesis
    using bs by (simp add: unwrap_check_def)
qed

lemma create_unwrap_agree:
  assumes "crypto_correct c"
    and "ksys_inv (ka, True)" and "ksys_inv (kb, True)"
    and create: "create_inner c en (local_peer (ks_inner kb)) (cr_kem_ek c (li_kem_seed (si_local (ks_inner kb)))) e False (os, ka) =
      (Inr (sa, m), os', ka')"
    and "knows c (si_local (ks_inner ka)) (ks_inner kb)" and "expects (ks_inner kb) (local_peer (ks_inner ka)) e"
  shows "\<exists>key. session_key ka' sa = Some key \<and> open_wrap c (si_local (ks_inner kb)) m = Inr key \<and>
    unwrap_check c (ks_inner kb) (local_peer (ks_inner ka)) m False = Inr (Proceed False False) \<and>
    (\<forall>os sb os' kb'. unwrap_inner c (local_peer (ks_inner ka)) m False (os, kb) = (Inr sb, os', kb') \<longrightarrow>
      session_key kb' sb = Some key \<and> ses_epoch sb = ses_epoch sa)"
proof -
  have inv: "store_inv (ks_inner k')" if "kop_inv p" "ksys_inv (k, True)" "p (o1, k) = (Inr x, o2, k')" for p :: "'x kop" and k o1 o2 k' x
    using ktD [OF that(1) [rule_format], of "\<lambda>_. Epoch 0" "\<lambda>_. Epoch 0" k o1] that(2,3)
    by (auto simp: ksys_inv_def dest: kinvD)
  obtain key slot where new: "wrap_message c en (si_local (ks_inner ka)) (local_peer (ks_inner kb))
        (cr_kem_ek c (li_kem_seed (si_local (ks_inner kb)))) e = Inr (key, m)"
      "(slot, pair_key_new key (local_peer (ks_inner kb)) e) \<in> set (si_keys (ks_inner ka'))"
      "inner_session (ks_inner ka') (local_peer (ks_inner kb)) e = Inr sa"
    using create_inner_Inr [OF create] by blast
  have a: "session_key ka' sa = Some key"
    using inv [OF create_inner_kinv assms(2) create] new(2,3) by (rule session_key_new)
  have o: "open_wrap c (si_local (ks_inner kb)) m = Inr key"
    by (rule wrap_message_opens [OF assms(1) new(1)])
  have u: "unwrap_check c (ks_inner kb) (local_peer (ks_inner ka)) m False = Inr (Proceed False False)"
    by (rule unwrap_check_accepts [OF assms(1) new(1) assms(5,6)])
  have ep: "wm_epoch m = e" by (rule wrap_message_epoch [OF new(1)])
  have "session_key kb' sb = Some key \<and> ses_epoch sb = ses_epoch sa"
    if un: "unwrap_inner c (local_peer (ks_inner ka)) m False (os, kb) = (Inr sb, os', kb')" for os sb os' kb'
  proof -
    obtain slot' where s: "(slot', pair_key_new key (local_peer (ks_inner ka)) e) \<in> set (si_keys (ks_inner kb'))"
        "inner_session (ks_inner kb') (local_peer (ks_inner ka)) e = Inr sb"
      using unwrap_inner_Inr [OF un u] o ep by auto
    have "session_key kb' sb = Some key"
      using inv [OF unwrap_inner_kinv assms(3) un] s by (rule session_key_new)
    moreover have "ses_epoch sb = e" using s(2) by (rule inner_session_Inr)
    moreover have "ses_epoch sa = e" using new(3) by (rule inner_session_Inr)
    ultimately show ?thesis by simp
  qed
  with a o u show ?thesis by blast
qed

text \<open>The identical wrap, received again, returns the session it made and touches nothing.\<close>

lemma unwrap_again:
  assumes "bm_get (si_pairs (ks_inner k)) p = Some q" and "pp_initiator q = p" and "pp_wrap q = m" and "pp_epoch q = wm_epoch m"
    and "unwrap_inner c p m False (os, k) = (r, s)" and "is_ok (unwrap_check c (ks_inner k) p m False)"
  shows "s = (os, k) \<and> (\<not> si_failed (ks_inner k) \<longrightarrow> r = inner_session (ks_inner k) p (wm_epoch m))"
proof -
  have "unwrap_check c (ks_inner k) p m False = Inr Reuse"
    using assms(1-4,6) by (auto simp: unwrap_check_def wrap_verdict_def is_ok_iff)
  then show ?thesis
    using assms(5) by (auto simp: unwrap_inner_def store_lock_def k_bind_def k_inner_def k_ret_def split: if_splits)
qed

section \<open>Gates\<close>

definition gate_owners :: "keystore \<Rightarrow> PeerId \<Rightarrow> u64 set" where
  "gate_owners k p = (case bm_get (si_mailbox_gates (ks_inner k)) p of None \<Rightarrow> {} | Some owners \<Rightarrow> set owners)"

lemma gate_block:
  assumes "bm_ok (si_mailbox_gates (ks_inner k))" and "block_live_traffic p owner (os, k) = (Inr (), os', k')"
  shows "gate_owners k' = (gate_owners k)(p := insert owner (gate_owners k p)) \<and> bm_ok (si_mailbox_gates (ks_inner k'))"
  using assms
  by (auto simp: block_live_traffic_def k_bind_Inr k_simps store_lock_Inr gate_owners_def bm_or_default_def fun_eq_iff
      split: option.splits)

lemma gate_unblock:
  assumes "bm_ok (si_mailbox_gates (ks_inner k))" and "unblock_live_traffic p owner (os, k) = (Inr (), os', k')"
  shows "gate_owners k' = (gate_owners k)(p := gate_owners k p - {owner}) \<and> bm_ok (si_mailbox_gates (ks_inner k'))"
proof -
  have "bs_remove owner owners = [] \<longleftrightarrow> set owners - {owner} = {}" for owners
    by (metis set_bs_remove set_empty)
  with assms show ?thesis
    by (auto simp: unblock_live_traffic_def k_bind_Inr k_simps store_lock_Inr gate_owners_def Let_def fun_eq_iff
        split: option.splits if_splits)
qed

lemma gate_open:
  "require_live_traffic p (os, k) = (Inr (), t) \<longleftrightarrow> \<not> si_failed (ks_inner k) \<and> gate_owners k p = {} \<and> t = (os, k)"
  by (auto simp: require_live_traffic_def k_bind_Inr k_simps store_lock_Inr gate_owners_def split: option.splits)

section \<open>Operations that succeed\<close>

text \<open>With writes that go through and a state that fits its file, nothing else can fail.\<close>

definition fits :: "StoreInner \<Rightarrow> bool" where
  "fits i \<longleftrightarrow> (\<exists>b. encode_store_state (persisted i) = Inr b \<and> length b \<le> MAX_STORE_BYTES)"

lemma fits_bytes: "fits i \<longleftrightarrow> store_valid (persisted i) \<and> length (store_bytes (persisted i)) \<le> MAX_STORE_BYTES"
  by (auto simp: fits_def encode_store_state_Inr)

lemma store_persist_done: "fits (ks_inner k) \<Longrightarrow> \<exists>b. store_persist ([], k) = (Inr (), [], k\<lparr>ks_state_file := Some b\<rparr>)"
  by (auto simp: fits_def store_persist_def k_bind_def k_inner_def k_or_fail_def k_ret_def k_write_def place_state_def)

definition installed :: "PeerId \<Rightarrow> PeerId \<Rightarrow> WrapMessage \<Rightarrow> 256 word \<Rightarrow> StoreInner \<Rightarrow> StoreInner" where
  "installed p ini m key i =
     (let i' = drop_keys p (wm_epoch m) (i\<lparr>si_next_slot := si_next_slot i + 1\<rparr>);
          i' = i'\<lparr>si_keys := bm_insert (si_next_slot i) (pair_key_new key p (wm_epoch m)) (si_keys i')\<rparr>;
          i' = raise_watermark p (wm_epoch m) i' in
      i'\<lparr>si_pairs := bm_insert p (new_pair p ini m) (si_pairs i')\<rparr>)"

lemma inner_session_found:
  assumes "(slot, pair_key_new key p e) \<in> set (si_keys i)"
  shows "\<exists>s. inner_session i p e = Inr s"
proof -
  have "find (\<lambda>(slot, st). pk_peer_id st = p \<and> pk_epoch st = e) (si_keys i) \<noteq> None"
    using bexI [OF _ assms, of "\<lambda>(slot, st). pk_peer_id st = p \<and> pk_epoch st = e"]
    by (simp add: find_None_iff pair_key_new_def case_prod_unfold Bex_def)
  then show ?thesis by (auto simp: inner_session_def)
qed

lemma installed_key: "(si_next_slot i, pair_key_new key p (wm_epoch m)) \<in> set (si_keys (installed p ini m key i))"
  by (simp add: installed_def Let_def raise_watermark_def)

lemma store_install_done:
  assumes "checked_add (si_next_slot (ks_inner k)) 1 = Some n" and "fits (installed p ini m key (ks_inner k))"
  shows "\<exists>s b. store_install p ini m key ([], k) =
    (Inr s, [], k\<lparr>ks_inner := installed p ini m key (ks_inner k), ks_state_file := Some b\<rparr>)"
proof -
  let ?i = "installed p ini m key (ks_inner k)"
  have n: "n = si_next_slot (ks_inner k) + 1" using checked_slot [OF assms(1)] by simp
  obtain b where b: "store_persist ([], k\<lparr>ks_inner := ?i\<rparr>) = (Inr (), [], k\<lparr>ks_inner := ?i, ks_state_file := Some b\<rparr>)"
    using store_persist_done [of "k\<lparr>ks_inner := ?i\<rparr>"] assms(2) by auto
  obtain s where s: "inner_session ?i p (wm_epoch m) = Inr s"
    using inner_session_found [OF installed_key] by blast
  have "store_install p ini m key ([], k) = (Inr s, [], k\<lparr>ks_inner := ?i, ks_state_file := Some b\<rparr>)"
    using assms(1) b s
    by (simp add: store_install_def take_slot_def k_bind_def k_inner_def k_ret_def k_set_def Let_def n installed_def)
  then show ?thesis by blast
qed

lemma create_inner_done:
  assumes "\<not> si_failed (ks_inner k)" and "create_check (ks_inner k) p ek e False = Inr ()"
    and "wrap_message c en (si_local (ks_inner k)) p ek e = Inr (key, m)"
    and "checked_add (si_next_slot (ks_inner k)) 1 = Some n"
    and "fits (installed p (local_peer (ks_inner k)) m key
      ((ks_inner k)\<lparr>si_retry_epochs := bm_remove p (si_retry_epochs (ks_inner k))\<rparr>))"
  shows "\<exists>s b. create_inner c en p ek e False ([], k) = (Inr (s, m), [], k\<lparr>ks_inner :=
    installed p (local_peer (ks_inner k)) m key ((ks_inner k)\<lparr>si_retry_epochs := bm_remove p (si_retry_epochs (ks_inner k))\<rparr>),
    ks_state_file := Some b\<rparr>)"
  using assms store_install_done [of "k\<lparr>ks_inner := (ks_inner k)\<lparr>si_retry_epochs := bm_remove p (si_retry_epochs (ks_inner k))\<rparr>\<rparr>"
    n p "local_peer (ks_inner k)" m key]
  by (auto simp: create_inner_def store_lock_def k_bind_def k_inner_def k_ret_def k_set_def Let_def)

lemma unwrap_inner_done:
  assumes "\<not> si_failed (ks_inner k)" and "unwrap_check c (ks_inner k) p m False = Inr (Proceed False spd)"
    and "open_wrap c (si_local (ks_inner k)) m = Inr key"
    and "checked_add (si_next_slot (ks_inner k)) 1 = Some n" and "fits (installed p p m key (ks_inner k))"
  shows "\<exists>s b. unwrap_inner c p m False ([], k) =
    (Inr s, [], k\<lparr>ks_inner := installed p p m key (ks_inner k), ks_state_file := Some b\<rparr>)"
  using assms store_install_done [of k n p p m key]
  by (auto simp: unwrap_inner_def store_lock_def k_bind_def k_inner_def k_ret_def k_set_def note_collision_def)

lemma import_peer_done:
  assumes "\<not> si_failed (ks_inner k)" and "identity_verify c d = Inr ()" and "id_peer_id d \<noteq> local_peer (ks_inner k)"
    and "bm_get (si_peers (ks_inner k)) (id_peer_id d) = None"
    and "fits ((ks_inner k)\<lparr>si_peers := bm_insert (id_peer_id d) d (si_peers (ks_inner k))\<rparr>)"
  shows "\<exists>b. import_peer c en d ([], k) = (Inr (), [], k\<lparr>ks_inner :=
    (ks_inner k)\<lparr>si_peers := bm_insert (id_peer_id d) d (si_peers (ks_inner k))\<rparr>, ks_state_file := Some b\<rparr>)"
proof -
  let ?k = "k\<lparr>ks_inner := (ks_inner k)\<lparr>si_peers := bm_insert (id_peer_id d) d (si_peers (ks_inner k))\<rparr>\<rparr>"
  obtain b where b: "store_persist ([], ?k) = (Inr (), [], ?k\<lparr>ks_state_file := Some b\<rparr>)"
    using store_persist_done [of ?k] assms(5) by auto
  have "import_peer c en d ([], k) = (Inr (), [], ?k\<lparr>ks_state_file := Some b\<rparr>)"
    using assms(1-4) b
    by (simp add: import_peer_def store_lock_def k_bind_def k_inner_def k_ret_def k_set_def Let_def)
  then show ?thesis by auto
qed

text \<open>The first start on an empty directory.\<close>

lemma open_first_time:
  assumes "encode_local_identity l = Inr b" and "length b \<le> MAX_STORE_BYTES"
  shows "\<exists>b'. keystore_open c (Inr l) (Inr n) en ([], \<lparr>ks_inner = i, ks_state_file = None, ks_identity_file = None\<rparr>) =
    (Inr (), [], \<lparr>ks_inner = initial_inner l n, ks_state_file = Some b', ks_identity_file = Some b\<rparr>)"
proof -
  let ?k = "\<lparr>ks_inner = initial_inner l n, ks_state_file = None, ks_identity_file = Some b\<rparr>"
  have "fits (initial_inner l n)"
    unfolding fits_bytes
    by (simp add: persisted_def initial_inner_def store_valid_def store_bytes_def c_store_document.counted_def c_pair.counted_def c_key.counted_def c_watermark.counted_def MAX_STORE_BYTES_def
        len_bytes_def STORE_STATE_MAGIC_def short_def)
  then obtain b' where p: "store_persist ([], ?k) = (Inr (), [], ?k\<lparr>ks_state_file := Some b'\<rparr>)"
    using store_persist_done [of ?k] by auto
  show ?thesis
    using assms p
    by (simp add: keystore_open_def open_identity_def open_load_def k_bind_def k_ret_def k_write_def k_set_def place_identity_def
        store_lock_def k_inner_def Let_def)
      (simp add: initial_inner_def open_targets_def k_ret_def)
qed

section \<open>Epochs below the watermark\<close>

text \<open>
  For a known pair, \<open>unwrap\<close> compares the message's epoch with the confirmed pair only: a signed wrap
  newer than the pair is accepted whatever the watermark says.
\<close>

lemma unwrap_ignores_watermark:
  assumes "bm_get (si_pairs i) p = Some q" and "pp_epoch q < wm_epoch m" and "bm_get (si_peers i) p = Some d"
    and "wm_min_id m = min (local_peer i) p" and "wm_max_id m = max (local_peer i) p"
    and "wrap_m m = Inr b" and "mldsa_verify c (id_vk d) WRAP_CONTEXT b (wm_signature m) = Inr ()"
    and "checked_add (epoch_raw (watermark_of i p)) 1 = Some n"
  shows "unwrap_check c i p m False = Inr (Proceed False False)"
proof -
  have "\<not> wm_epoch m < pp_epoch q" "wm_epoch m \<noteq> pp_epoch q" using assms(2) by auto
  with assms show ?thesis by (simp add: unwrap_check_def wrap_verdict_def)
qed

end
