(* ===== verification/Durable.thy ===== *)
theory Durable
  imports Transaction
begin

text \<open>
  The chunk store of \<open>backend/src/store/chunks.rs\<close> over the durable store of
  \<open>backend/src/store/durable.rs\<close>: content-addressed chunks in memory and as files, the replica
  snapshot, and opening a vault directory. Operations run under the outcome lists of the
  transaction theory; those that return an error and also change the in-memory state return a
  pair. The theorems: chunks stay content addressed, publishing a snapshot is atomic across
  failures and crashes, and opening the directory afterwards restores the snapshot that is on disk
  with every chunk it pins.
\<close>

section \<open>State\<close>

record ChunkRecord =
  ck_file_id :: FileId
  ck_index :: u64
  ck_plaintext :: bytes

type_synonym chunk_map = "(ChunkId, ChunkRecord) btree_map"

record DurableInner =
  di_generation :: u64
  di_expected_root :: FileId
  di_live_metadata :: "ReplicaMetadata option"
  di_fail_next_persist :: bool
  di_failed :: bool

record MemoryChunkStore =
  mc_chunks :: chunk_map
  mc_durable :: "DurableInner option"
  mc_metadata :: "ReplicaMetadata option"

definition memory_new :: MemoryChunkStore where
  "memory_new = \<lparr>mc_chunks = [], mc_durable = None, mc_metadata = None\<rparr>"

section \<open>Queries of the chunk store\<close>

definition get_record :: "MemoryChunkStore \<Rightarrow> ChunkId \<Rightarrow> ChunkRecord option" where
  "get_record store cid = bm_get (mc_chunks store) cid"

definition chunk_get :: "MemoryChunkStore \<Rightarrow> ChunkId \<Rightarrow> bytes option" where
  "chunk_get store cid = map_option ck_plaintext (bm_get (mc_chunks store) cid)"

definition chunk_has :: "MemoryChunkStore \<Rightarrow> ChunkId \<Rightarrow> bool" where
  "chunk_has store cid = bm_contains (mc_chunks store) cid"

definition mark_bit :: "('a \<Rightarrow> bool) \<Rightarrow> nat \<times> 'a \<Rightarrow> bytes \<Rightarrow> bytes" where
  "mark_bit has entry bits = (case entry of (index, x) \<Rightarrow>
     if has x then bits[index div 8 := (bits ! (index div 8)) OR push_bit (index mod 8) 1] else bits)"

definition have_bitset :: "MemoryChunkStore \<Rightarrow> ChunkId list \<Rightarrow> bytes" where
  "have_bitset store chunk_ids =
     fold (mark_bit (chunk_has store)) (enumerate 0 chunk_ids) (replicate (div_ceil (length chunk_ids) 8) 0)"

definition linked_file :: "ReplicaMetadata \<Rightarrow> FileId \<Rightarrow> bool" where
  "linked_file metadata file_id = list_ex (\<lambda>e. de_child e = file_id \<and> \<not> de_is_dir e) (rm_dirents metadata)"

definition accepts_file :: "MemoryChunkStore \<Rightarrow> FileId \<Rightarrow> bool" where
  "accepts_file store file_id = (case mc_metadata store of
       None \<Rightarrow> False
     | Some metadata \<Rightarrow> bm_contains (rm_manifests metadata) file_id \<and> linked_file metadata file_id)"

definition accepts_chunk :: "MemoryChunkStore \<Rightarrow> FileId \<Rightarrow> u64 \<Rightarrow> ChunkId \<Rightarrow> bool" where
  "accepts_chunk store file_id index cid = (case mc_metadata store of
       None \<Rightarrow> False
     | Some metadata \<Rightarrow>
         if \<not> linked_file metadata file_id then False
         else (case bm_get (rm_manifests metadata) file_id of
             None \<Rightarrow> False
           | Some manifest \<Rightarrow>
               unat index < length (mf_chunk_ids manifest) \<and> mf_chunk_ids manifest ! unat index = cid))"

definition file_chunk_count :: "MemoryChunkStore \<Rightarrow> FileId \<Rightarrow> nat" where
  "file_chunk_count store file_id =
     length (filter (\<lambda>record. ck_file_id record = file_id) (bm_values (mc_chunks store)))"

definition chunks_len :: "MemoryChunkStore \<Rightarrow> nat" where
  "chunks_len store = length (mc_chunks store)"

definition remove_file :: "MemoryChunkStore \<Rightarrow> FileId \<Rightarrow> MemoryChunkStore" where
  "remove_file store file_id =
     store\<lparr>mc_chunks := bm_retain (\<lambda>_ record. ck_file_id record \<noteq> file_id) (mc_chunks store),
           mc_metadata := map_option (\<lambda>metadata. metadata\<lparr>rm_chunk_index :=
             bm_retain (\<lambda>_ (indexed_file, _). indexed_file \<noteq> file_id) (rm_chunk_index metadata)\<rparr>) (mc_metadata store)\<rparr>"

section \<open>Chunk files\<close>

definition MAX_CHUNK_BYTES :: nat where
  "MAX_CHUNK_BYTES = 1024 * 1024"

definition HEX :: string where
  "HEX = ''0123456789abcdef''"

definition chunk_file_name :: "ChunkId \<Rightarrow> string" where
  "chunk_file_name cid =
     concat (map (\<lambda>b. [HEX ! unat (drop_bit 4 b), HEX ! unat (b AND 15)]) (chunk_bytes cid))"

definition chunk_path :: "ChunkId \<Rightarrow> txn_file" where
  "chunk_path cid = ChunkFile (chunk_file_name cid)"

text \<open>\<open>io_try\<close> hands an error to the caller as a value.\<close>

definition io_try :: "'a io \<Rightarrow> 'a result io" where
  "io_try p s = (case p s of (Ret r, s') \<Rightarrow> (Ret (Inr r), s') | (Crashed, s') \<Rightarrow> (Crashed, s'))"

definition read_private :: "txn_file \<Rightarrow> bytes option io" where
  "read_private path = io_read (\<lambda>d.
     case file_get path d of
       None \<Rightarrow> Inr None
     | Some bs \<Rightarrow>
         if length bs > MAX_STORE_BYTES then Inl (InvalidInput ''keystore file is too large'')
         else Inr (Some bs))"

definition read_chunk :: "txn_file \<Rightarrow> bytes option io" where
  "read_chunk path = io_read (\<lambda>d.
     case file_get path d of
       None \<Rightarrow> Inr None
     | Some plaintext \<Rightarrow>
         if length plaintext > MAX_CHUNK_BYTES then Inl (InvalidInput ''invalid chunk file'')
         else Inr (Some plaintext))"

definition discard_chunk_file :: "txn_file \<Rightarrow> unit io" where
  "discard_chunk_file path = io_op (file_set path None)"

text \<open>The directory entries that are regular files, in directory order.\<close>

fun sweep_entries :: "string list \<Rightarrow> string list \<Rightarrow> bool \<Rightarrow> bool io" where
  "sweep_entries retained [] changed = io_ret (Inr changed)"
| "sweep_entries retained (name # names) changed =
     (if name \<in> set retained then sweep_entries retained names changed
      else
        io_bind (io_op (\<lambda>d. d)) (\<lambda>_.
        io_bind (io_op (file_set (ChunkFile name) None)) (\<lambda>_.
        sweep_entries retained names True)))"

definition sweep_directory :: "ChunkId list \<Rightarrow> unit io" where
  "sweep_directory retained =
     io_bind (io_read (\<lambda>d. Inr (map fst (d_chunks d)))) (\<lambda>names.
     io_bind (sweep_entries (map chunk_file_name retained) names False) (\<lambda>changed.
     if changed then io_op (\<lambda>d. d) else io_ret (Inr ())))"

definition check_existing_chunk :: "DurableInner \<Rightarrow> ChunkId \<Rightarrow> bytes \<Rightarrow> (DurableInner \<times> unit result) io" where
  "check_existing_chunk inner cid plaintext =
     io_bind (io_try (read_chunk (chunk_path cid))) (\<lambda>r.
     io_ret (Inr (inner, case r of
         Inl e \<Rightarrow> Inl e
       | Inr (Some existing) \<Rightarrow>
           if existing = plaintext then Inr ()
           else Inl (State ''existing content-addressed chunk bytes differ'')
       | Inr None \<Rightarrow> Inl (State ''existing chunk disappeared during put''))))"

definition write_new_chunk :: "DurableInner \<Rightarrow> ChunkId \<Rightarrow> bytes \<Rightarrow> (DurableInner \<times> unit result) io" where
  "write_new_chunk inner cid plaintext =
     io_bind (io_try (atomic_private_write (chunk_path cid) plaintext)) (\<lambda>r.
     io_ret (Inr (case r of
         Inl e \<Rightarrow> (inner\<lparr>di_failed := True\<rparr>, Inl e)
       | Inr _ \<Rightarrow> (inner, Inr ()))))"

definition write_chunk :: "DurableInner \<Rightarrow> ChunkId \<Rightarrow> bytes \<Rightarrow> (DurableInner \<times> unit result) io" where
  "write_chunk inner cid plaintext =
     (if length plaintext > MAX_CHUNK_BYTES then io_ret (Inr (inner, Inl (InvalidInput ''chunk exceeds 1 MiB'')))
      else if di_failed inner then io_ret (Inr (inner, Inl (State ''durable store is poisoned'')))
      else
        io_bind (io_try (io_read (\<lambda>d. Inr (file_get (chunk_path cid) d \<noteq> None)))) (\<lambda>exists.
        case exists of
          Inl e \<Rightarrow> io_ret (Inr (inner, Inl e))
        | Inr True \<Rightarrow> check_existing_chunk inner cid plaintext
        | Inr False \<Rightarrow> write_new_chunk inner cid plaintext))"

section \<open>Publishing a snapshot\<close>

definition stage_index :: "ReplicaMetadata \<Rightarrow> chunk_map \<Rightarrow> ReplicaMetadata" where
  "stage_index metadata chunks = metadata\<lparr>rm_chunk_index :=
     fold (\<lambda>cid index. case bm_get chunks cid of
         Some record \<Rightarrow> bm_insert cid (ck_file_id record, ck_index record) index
       | None \<Rightarrow> index) (retain_ids metadata) []\<rparr>"

definition mailboxes_available :: "ReplicaMetadata \<Rightarrow> chunk_map \<Rightarrow> bool" where
  "mailboxes_available metadata chunks =
     list_all (list_all (\<lambda>content. case content of
         QChunk _ _ cid \<Rightarrow> bm_contains chunks cid
       | QControl _ \<Rightarrow> True)) (bm_values (rm_mailboxes metadata))"

definition stage_snapshot ::
  "(bytes \<Rightarrow> 256 word) \<Rightarrow> DurableInner \<Rightarrow> ReplicaMetadata \<Rightarrow> chunk_map \<Rightarrow> (ReplicaMetadata \<times> u64 \<times> bytes) result" where
  "stage_snapshot sha256 inner metadata chunks =
     and_then (guard_ok (rm_expected_root metadata = di_expected_root inner)
       (InvalidInput ''replica root differs from open store'')) (\<lambda>_.
     let staged = stage_index metadata chunks in
     and_then (guard_ok (mailboxes_available staged chunks)
       (State ''mailbox references a missing plaintext chunk'')) (\<lambda>_.
     and_then (ok_or (checked_add (di_generation inner) 1) (State ''replica generation exhausted'')) (\<lambda>generation.
     and_then (encode_replica sha256 staged generation) (\<lambda>encoded.
     and_then (guard_ok (\<not> length encoded > MAX_STORE_BYTES) (InvalidInput ''replica snapshot is too large'')) (\<lambda>_.
     Inr (staged, generation, encoded))))))"

text \<open>
  \<open>DurableStore::persist\<close> and \<open>persist_with_admission\<close> differ only in how the encoded snapshot
  reaches the disk.
\<close>

definition durable_publish ::
  "(bytes \<Rightarrow> 256 word) \<Rightarrow> (bytes \<Rightarrow> unit io) \<Rightarrow> DurableInner \<Rightarrow> ReplicaMetadata \<Rightarrow> chunk_map \<Rightarrow>
    (DurableInner \<times> chunk_map \<times> ReplicaMetadata result) io" where
  "durable_publish sha256 write inner metadata chunks =
     (if di_failed inner then io_ret (Inr (inner, chunks, Inl (State ''durable store is poisoned'')))
      else if di_fail_next_persist inner then
        io_ret (Inr (inner\<lparr>di_fail_next_persist := False\<rparr>, chunks, Inl (State ''injected replica persist failure'')))
      else (case stage_snapshot sha256 inner metadata chunks of
          Inl e \<Rightarrow> io_ret (Inr (inner, chunks, Inl e))
        | Inr (staged, generation, encoded) \<Rightarrow>
            io_bind (io_try (write encoded)) (\<lambda>r.
            case r of
              Inl e \<Rightarrow> io_ret (Inr (inner\<lparr>di_failed := True\<rparr>, chunks, Inl e))
            | Inr _ \<Rightarrow>
                let inner = inner\<lparr>di_generation := generation, di_live_metadata := Some staged\<rparr>;
                    chunks = bm_retain (\<lambda>cid _. cid \<in> set (retain_ids metadata)) chunks in
                io_bind (io_try (sweep_directory (bm_keys chunks))) (\<lambda>_.
                io_ret (Inr (inner, chunks, Inr staged))))))"

definition durable_persist ::
  "(bytes \<Rightarrow> 256 word) \<Rightarrow> DurableInner \<Rightarrow> ReplicaMetadata \<Rightarrow> chunk_map \<Rightarrow>
    (DurableInner \<times> chunk_map \<times> ReplicaMetadata result) io" where
  "durable_persist sha256 = durable_publish sha256 (\<lambda>encoded. atomic_private_write Replica encoded)"

definition persist_with_admission ::
  "(bytes \<Rightarrow> 256 word) \<Rightarrow> DurableInner \<Rightarrow> ReplicaMetadata \<Rightarrow> chunk_map \<Rightarrow> bytes \<Rightarrow>
    (DurableInner \<times> chunk_map \<times> ReplicaMetadata result) io" where
  "persist_with_admission sha256 inner metadata chunks admission =
     durable_publish sha256 (\<lambda>encoded. persist sha256 (Some encoded) admission) inner metadata chunks"

section \<open>Opening a vault directory\<close>

fun load_chunks ::
  "(bytes \<Rightarrow> 256 word) \<Rightarrow> ChunkId list \<Rightarrow> (ChunkId \<times> FileId \<times> u64) list \<Rightarrow> chunk_map \<Rightarrow> chunk_map io" where
  "load_chunks sha256 retained [] records = io_ret (Inr records)"
| "load_chunks sha256 retained ((cid, file_id, index) # entries) records =
     (if cid \<notin> set retained then load_chunks sha256 retained entries records
      else
        io_bind (io_try (read_chunk (chunk_path cid))) (\<lambda>r.
        case r of
          Inr None \<Rightarrow> load_chunks sha256 retained entries records
        | Inr (Some plaintext) \<Rightarrow>
            if chunk_id sha256 file_id index plaintext = cid
            then load_chunks sha256 retained entries
              (bm_insert cid \<lparr>ck_file_id = file_id, ck_index = index, ck_plaintext = plaintext\<rparr> records)
            else io_bind (discard_chunk_file (chunk_path cid)) (\<lambda>_. load_chunks sha256 retained entries records)
        | Inl _ \<Rightarrow> io_bind (discard_chunk_file (chunk_path cid)) (\<lambda>_. load_chunks sha256 retained entries records)))"

definition load_replica :: "(bytes \<Rightarrow> 256 word) \<Rightarrow> FileId \<Rightarrow> bytes option \<Rightarrow> (u64 \<times> ReplicaMetadata option) result" where
  "load_replica sha256 expected_root contents = (case contents of
       None \<Rightarrow> Inr (0, None)
     | Some bs \<Rightarrow>
         and_then (guard_ok (bs \<noteq> []) (InvalidInput ''empty replica snapshot'')) (\<lambda>_.
         and_then (decode_replica sha256 bs expected_root) (\<lambda>(generation, metadata).
         Inr (generation, Some metadata))))"

definition load_records :: "(bytes \<Rightarrow> 256 word) \<Rightarrow> ReplicaMetadata option \<Rightarrow> chunk_map io" where
  "load_records sha256 metadata = (case metadata of
       None \<Rightarrow> io_ret (Inr [])
     | Some metadata \<Rightarrow>
         io_bind (load_chunks sha256 (retain_ids metadata) (rm_chunk_index metadata) []) (\<lambda>records.
         io_bind (io_ret (guard_ok (mailboxes_available metadata records)
           (State ''mailbox references an unavailable plaintext chunk''))) (\<lambda>_.
         io_ret (Inr records))))"

definition open_store ::
  "(bytes \<Rightarrow> 256 word) \<Rightarrow> unit result \<Rightarrow> FileId \<Rightarrow> (ReplicaMetadata option \<times> MemoryChunkStore) io" where
  "open_store sha256 data_dir_lock expected_root =
     io_bind (io_ret data_dir_lock) (\<lambda>_.
     io_bind (recover_admission_transaction sha256) (\<lambda>_.
     io_bind (io_op (\<lambda>d. d)) (\<lambda>_.
     io_bind (io_op (\<lambda>d. d)) (\<lambda>_.
     io_bind (read_private Replica) (\<lambda>contents.
     io_bind (io_ret (load_replica sha256 expected_root contents)) (\<lambda>(generation, metadata).
     io_bind (load_records sha256 metadata) (\<lambda>records.
     io_bind (sweep_directory (bm_keys records)) (\<lambda>_.
     io_ret (Inr (metadata,
       \<lparr>mc_chunks = records,
        mc_durable = Some \<lparr>di_generation = generation, di_expected_root = expected_root,
          di_live_metadata = metadata, di_fail_next_persist = False, di_failed = False\<rparr>,
        mc_metadata = metadata\<rparr>))))))))))"

section \<open>Updates of the chunk store\<close>

definition chunk_put ::
  "(bytes \<Rightarrow> 256 word) \<Rightarrow> MemoryChunkStore \<Rightarrow> FileId \<Rightarrow> u64 \<Rightarrow> bytes \<Rightarrow> (MemoryChunkStore \<times> ChunkId result) io" where
  "chunk_put sha256 store file_id index plaintext =
     (let cid = chunk_id sha256 file_id index plaintext;
          record = \<lparr>ck_file_id = file_id, ck_index = index, ck_plaintext = plaintext\<rparr> in
      if bm_contains (mc_chunks store) cid then io_ret (Inr (store, Inr cid))
      else (case mc_durable store of
          None \<Rightarrow> io_ret (Inr (store\<lparr>mc_chunks := bm_insert cid record (mc_chunks store)\<rparr>, Inr cid))
        | Some inner \<Rightarrow>
            io_bind (write_chunk inner cid plaintext) (\<lambda>(inner, r).
            let store = store\<lparr>mc_durable := Some inner\<rparr> in
            io_ret (Inr (case r of
                Inl e \<Rightarrow> (store, Inl e)
              | Inr _ \<Rightarrow> (store\<lparr>mc_chunks := bm_insert cid record (mc_chunks store)\<rparr>, Inr cid))))))"

definition adopt_published ::
  "MemoryChunkStore \<Rightarrow> DurableInner \<times> chunk_map \<times> ReplicaMetadata result \<Rightarrow> MemoryChunkStore \<times> unit result" where
  "adopt_published store published = (case published of (inner, chunks, r) \<Rightarrow>
     let store = store\<lparr>mc_durable := Some inner, mc_chunks := chunks\<rparr> in
     (case r of
        Inl e \<Rightarrow> (store, Inl e)
      | Inr staged \<Rightarrow> (store\<lparr>mc_metadata := Some staged\<rparr>, Inr ())))"

definition persist_metadata ::
  "(bytes \<Rightarrow> 256 word) \<Rightarrow> MemoryChunkStore \<Rightarrow> ReplicaMetadata \<Rightarrow> (MemoryChunkStore \<times> unit result) io" where
  "persist_metadata sha256 store metadata =
     (case mc_durable store of
        Some inner \<Rightarrow>
          io_bind (durable_persist sha256 inner metadata (mc_chunks store)) (\<lambda>published.
          io_ret (Inr (adopt_published store published)))
      | None \<Rightarrow> io_ret (Inr (store\<lparr>mc_metadata := Some metadata\<rparr>, Inr ())))"

definition persist_metadata_with_admission ::
  "(bytes \<Rightarrow> 256 word) \<Rightarrow> MemoryChunkStore \<Rightarrow> ReplicaMetadata \<Rightarrow> bytes \<Rightarrow> (MemoryChunkStore \<times> unit result) io" where
  "persist_metadata_with_admission sha256 store metadata admission =
     (case mc_durable store of
        Some inner \<Rightarrow>
          io_bind (persist_with_admission sha256 inner metadata (mc_chunks store) admission) (\<lambda>published.
          io_ret (Inr (adopt_published store published)))
      | None \<Rightarrow>
          io_bind (io_try (persist sha256 None admission)) (\<lambda>r.
          io_ret (Inr (case r of
              Inl e \<Rightarrow> (store, Inl e)
            | Inr _ \<Rightarrow> (store\<lparr>mc_metadata := Some metadata\<rparr>, Inr ())))))"

definition persist_current :: "(bytes \<Rightarrow> 256 word) \<Rightarrow> MemoryChunkStore \<Rightarrow> (MemoryChunkStore \<times> unit result) io" where
  "persist_current sha256 store = (case mc_metadata store of
       None \<Rightarrow> io_ret (Inr (store, Inr ()))
     | Some metadata \<Rightarrow> persist_metadata sha256 store metadata)"

section \<open>The bit set of held chunks\<close>

lemma mark_bit_bit:
  assumes "n div 8 < length bits" and "k div 8 < length bits"
  shows "bit (mark_bit P (n, x) bits ! (k div 8)) (k mod 8) \<longleftrightarrow> bit (bits ! (k div 8)) (k mod 8) \<or> k = n \<and> P x"
proof -
  have same: "k div 8 = n div 8 \<Longrightarrow> k mod 8 = n mod 8 \<longleftrightarrow> k = n"
    by (metis div_mult_mod_eq)
  have eight: "k mod 8 < LENGTH(8)" by simp
  show ?thesis
    using assms same eight
    by (auto simp: mark_bit_def nth_list_update bit_or_iff bit_push_bit_iff bit_1_iff bit_exp_iff
        possible_bit_word)
qed

lemma fold_mark_length [simp]: "length (fold (mark_bit P) es bits) = length bits"
  by (induction es arbitrary: bits) (auto simp: mark_bit_def split: prod.splits)

lemma fold_mark_bit:
  assumes "n + length xs \<le> 8 * length bits" and "k < 8 * length bits"
  shows "bit (fold (mark_bit P) (enumerate n xs) bits ! (k div 8)) (k mod 8) \<longleftrightarrow>
    bit (bits ! (k div 8)) (k mod 8) \<or> n \<le> k \<and> k < n + length xs \<and> P (xs ! (k - n))"
  using assms
proof (induction xs arbitrary: n bits)
  case (Cons x xs)
  let ?b = "mark_bit P (n, x) bits"
  have len: "length ?b = length bits"
    by (simp add: mark_bit_def)
  have "bit (fold (mark_bit P) (enumerate n (x # xs)) bits ! (k div 8)) (k mod 8) \<longleftrightarrow>
      bit (?b ! (k div 8)) (k mod 8) \<or> Suc n \<le> k \<and> k < Suc n + length xs \<and> P (xs ! (k - Suc n))"
    using Cons.IH [of "Suc n" ?b] Cons.prems len by simp
  moreover have "n div 8 < length bits" "k div 8 < length bits"
    using Cons.prems by auto
  ultimately show ?case
    using mark_bit_bit [of n bits k P x]
    by (cases "k = n") (auto simp: nth_Cons')
qed auto

lemma length_have_bitset [simp]: "length (have_bitset s cs) = div_ceil (length cs) 8"
  by (simp add: have_bitset_def)

lemma have_bitset_bit:
  assumes "k < length cs"
  shows "bit (have_bitset s cs ! (k div 8)) (k mod 8) \<longleftrightarrow> chunk_has s (cs ! k)"
proof -
  have "length cs \<le> 8 * div_ceil (length cs) 8"
    by (simp add: div_ceil_def)
  with assms have k: "0 + length cs \<le> 8 * length (replicate (div_ceil (length cs) 8) (0::byte))"
    and k8: "k < 8 * length (replicate (div_ceil (length cs) 8) (0::byte))"
    by auto
  then have "k div 8 < div_ceil (length cs) 8"
    by auto
  with assms show ?thesis
    unfolding have_bitset_def by (subst fold_mark_bit [OF k k8]) simp
qed

section \<open>Chunk file names\<close>

lemma hex_byte_inj:
  fixes a b :: byte
  assumes "HEX ! unat (drop_bit 4 a) = HEX ! unat (drop_bit 4 b)" and "HEX ! unat (a AND 15) = HEX ! unat (b AND 15)"
  shows "a = b"
proof -
  have lo: "unat (x AND 15) < 16" for x :: byte
    using word_and_le1 [of x 15] by (simp add: word_le_nat_alt)
  have hi: "unat (drop_bit 4 x) < 16" for x :: byte
  proof -
    have "unat (drop_bit 4 x) = unat x div 16"
      by (subst unat_drop_bit_eq) (simp add: drop_bit_eq_div)
    then show ?thesis
      by (simp add: less_mult_imp_div_less)
  qed
  have "distinct HEX" and "length HEX = 16"
    by (simp_all add: HEX_def)
  then have "unat (drop_bit 4 a) = unat (drop_bit 4 b)" and "unat (a AND 15) = unat (b AND 15)"
    using assms lo hi by (simp_all add: nth_eq_iff_index_eq)
  then have "drop_bit 4 a = drop_bit 4 b" and "a AND 15 = b AND 15"
    by (simp_all only: word_unat_eq_iff)
  then have "bit a n = bit b n" for n
  proof (cases "n < 4")
    case True
    have "bit (a AND 15) n = bit (b AND 15) n"
      using \<open>a AND 15 = b AND 15\<close> by simp
    moreover have "(15 :: byte) = mask 4"
      by (simp add: mask_eq_exp_minus_1)
    ultimately show ?thesis
      using True by (simp add: bit_and_iff bit_mask_iff)
  next
    case False
    then have "n = 4 + (n - 4)" by simp
    then show ?thesis
      using \<open>drop_bit 4 a = drop_bit 4 b\<close> by (metis bit_drop_bit_eq comp_apply)
  qed
  then show ?thesis by (rule bit_eqI)
qed

lemma hex_bytes_inj:
  fixes as bs :: bytes
  shows "length as = length bs \<Longrightarrow>
    concat (map (\<lambda>b. [HEX ! unat (drop_bit 4 b), HEX ! unat (b AND 15)]) as) =
    concat (map (\<lambda>b. [HEX ! unat (drop_bit 4 b), HEX ! unat (b AND 15)]) bs) \<Longrightarrow> as = bs"
  by (induction as bs rule: list_induct2) (auto intro: hex_byte_inj)

lemma chunk_file_name_inject [simp]: "chunk_file_name c = chunk_file_name c' \<longleftrightarrow> c = c'"
  by (cases c; cases c') (auto simp: chunk_file_name_def dest!: hex_bytes_inj [rotated])

section \<open>Chunks in memory and on disk\<close>

definition addressed :: "(bytes \<Rightarrow> 256 word) \<Rightarrow> chunk_map \<Rightarrow> bool" where
  "addressed sha256 chunks \<longleftrightarrow> bm_ok chunks \<and>
     (\<forall>(cid, r) \<in> set chunks. chunk_id sha256 (ck_file_id r) (ck_index r) (ck_plaintext r) = cid)"

definition chunk_on_disk :: "ChunkId \<Rightarrow> bytes \<Rightarrow> dir \<Rightarrow> bool" where
  "chunk_on_disk cid plaintext d \<longleftrightarrow>
     map_of (d_chunks d) (chunk_file_name cid) = Some plaintext \<and> length plaintext \<le> MAX_CHUNK_BYTES"

definition on_disk :: "chunk_map \<Rightarrow> dir \<Rightarrow> bool" where
  "on_disk chunks d \<longleftrightarrow> (\<forall>(cid, r) \<in> set chunks. chunk_on_disk cid (ck_plaintext r) d)"

text \<open>\<open>kept names d d'\<close>: the named chunk files and everything outside the chunk directory are unchanged.\<close>

definition kept :: "string set \<Rightarrow> dir \<Rightarrow> dir \<Rightarrow> bool" where
  "kept names d d' \<longleftrightarrow> d_admission d' = d_admission d \<and> d_replica d' = d_replica d \<and> d_journal d' = d_journal d \<and>
     (\<forall>n \<in> names. map_of (d_chunks d') n = map_of (d_chunks d) n)"

lemma kept_refl [simp]: "kept names d d"
  by (simp add: kept_def)

lemma kept_trans: "kept names d d' \<Longrightarrow> kept names d' d'' \<Longrightarrow> kept names d d''"
  by (simp add: kept_def)

lemma kept_remove: "n \<notin> names \<Longrightarrow> kept names d (file_set (ChunkFile n) None d)"
  by (auto simp: kept_def file_set_def delete_conv)

lemma kept_chunk: "kept names d d' \<Longrightarrow> chunk_file_name c \<in> names \<Longrightarrow> chunk_on_disk c p d' \<longleftrightarrow> chunk_on_disk c p d"
  by (simp add: kept_def chunk_on_disk_def)

lemma triple_try:
  assumes "triple P p Q E C"
  shows "triple P (io_try p) (\<lambda>r d. case r of Inl _ \<Rightarrow> E d | Inr x \<Rightarrow> Q x d) (\<lambda>_. False) C"
  using assms unfolding triple_def io_try_def by (fastforce split: run.splits sum.splits prod.splits)

lemma sweep_entries_triple:
  "triple (kept (set R) d0) (sweep_entries R ns c) (\<lambda>_. kept (set R) d0) (kept (set R) d0) (kept (set R) d0)"
proof (induction R ns c rule: sweep_entries.induct)
  case (2 R n ns c)
  have same: "triple (kept (set R) d0) (io_op (\<lambda>d. d)) (\<lambda>_. kept (set R) d0) (kept (set R) d0) (kept (set R) d0)"
    by (rule triple_op) simp
  have "triple (kept (set R) d0) (io_op (file_set (ChunkFile n) None)) (\<lambda>_. kept (set R) d0) (kept (set R) d0) (kept (set R) d0)"
    if "n \<notin> set R"
    by (rule triple_op) (use that in \<open>blast intro: kept_trans kept_remove\<close>)
  with 2 same show ?case
    by (simp del: map_of.simps) (blast intro: triple_bind)
qed (auto intro!: triple_ret)

lemma sweep_triple:
  "triple (kept (chunk_file_name ` set R) d0) (sweep_directory R) (\<lambda>_. kept (chunk_file_name ` set R) d0)
    (kept (chunk_file_name ` set R) d0) (kept (chunk_file_name ` set R) d0)"
proof -
  let ?K = "kept (chunk_file_name ` set R) d0"
  have r: "triple ?K (io_read (\<lambda>d. Inr (map fst (d_chunks d)))) (\<lambda>_. ?K) ?K ?K"
    by (rule triple_read) auto
  have s: "triple ?K (sweep_entries (map chunk_file_name R) ns c) (\<lambda>_. ?K) ?K ?K" for ns c
    using sweep_entries_triple [of "map chunk_file_name R" d0 ns c] by simp
  have t: "triple ?K (if c then io_op (\<lambda>d. d) else io_ret (Inr ())) (\<lambda>_. ?K) ?K ?K" for c
    by (auto intro!: triple_ret triple_op)
  show ?thesis
    unfolding sweep_directory_def by (intro triple_bind [OF r] triple_bind [OF s] t)
qed

text \<open>Without failures the sweep succeeds.\<close>

lemma io_bind_done: "p ([], d) = (Ret (Inr x), [], d') \<Longrightarrow> io_bind p f ([], d) = f x ([], d')"
  by (simp add: io_bind_def)

lemma io_read_done: "io_read f ([], d) = (Ret (f d), [], d)"
  by (simp add: io_read_def io_bind_def io_op_def)

lemma io_bind_op_done: "io_bind (io_op f) g ([], d) = g () ([], f d)"
  by (simp add: io_bind_def io_op_def)

lemma io_bind_read_done: "f d = Inr x \<Longrightarrow> io_bind (io_read f) g ([], d) = g x ([], d)"
  by (simp add: io_bind_def io_read_done)

lemma io_try_done: "p ([], d) = (Ret r, s) \<Longrightarrow> io_try p ([], d) = (Ret (Inr r), s)"
  by (simp add: io_try_def)

lemma sweep_entries_done: "\<exists>c' d'. sweep_entries R ns c ([], d) = (Ret (Inr c'), [], d')"
  by (induction R ns c arbitrary: d rule: sweep_entries.induct) (auto simp: io_ret_def io_bind_op_done)

lemma sweep_done: "\<exists>d'. sweep_directory R ([], d) = (Ret (Inr ()), [], d')"
proof -
  obtain c d' where "sweep_entries (map chunk_file_name R) (map fst (d_chunks d)) False ([], d) = (Ret (Inr c), [], d')"
    using sweep_entries_done by blast
  then show ?thesis
    by (cases c) (auto simp: sweep_directory_def io_bind_read_done io_bind_done io_op_done io_ret_def)
qed

lemma triple_done: "triple P p Q E C \<Longrightarrow> p ([], d) = (Ret (Inr x), [], d') \<Longrightarrow> P d \<Longrightarrow> Q x d'"
  by (auto simp: triple_def dest!: spec [of _ "[]"])

section \<open>Putting a chunk\<close>

lemma addressed_insert:
  assumes "addressed sha256 chunks" and "chunk_id sha256 (ck_file_id r) (ck_index r) (ck_plaintext r) = cid"
  shows "addressed sha256 (bm_insert cid r chunks)"
  using assms set_bm_insert_sub [of cid r chunks] by (fastforce simp: addressed_def)

lemma on_disk_insert:
  "on_disk chunks d \<Longrightarrow> chunk_on_disk cid (ck_plaintext r) d \<Longrightarrow> on_disk (bm_insert cid r chunks) d"
  using set_bm_insert_sub [of cid r chunks] by (fastforce simp: on_disk_def)

text \<open>
  Writing a chunk file: whatever happens, no other file changes, an existing file of the chunk
  stays as it is, and a success means the plaintext is the content of the chunk's file.
\<close>

definition chunk_step :: "ChunkId \<Rightarrow> dir \<Rightarrow> dir \<Rightarrow> bool" where
  "chunk_step cid d0 d \<longleftrightarrow> kept (- {chunk_file_name cid}) d0 d \<and>
     (map_of (d_chunks d0) (chunk_file_name cid) \<noteq> None \<longrightarrow> d = d0)"

lemma chunk_step_refl [simp]: "chunk_step cid d d"
  by (simp add: chunk_step_def)

lemma triple_False [simp]: "triple (\<lambda>_. False) p Q E C"
  by (rule triple_never) simp

lemma triple_at: "(\<And>d0. P d0 \<Longrightarrow> triple (\<lambda>d. d = d0) p Q E C) \<Longrightarrow> triple P p Q E C"
  by (simp add: triple_def)

lemma triple_value: "(\<And>d. P d \<Longrightarrow> Q x d) \<Longrightarrow> triple P (io_ret (Inr x)) Q E C"
  by (rule triple_ret) auto

abbreviation chunk_written :: "ChunkId \<Rightarrow> bytes \<Rightarrow> dir \<Rightarrow> DurableInner \<times> unit result \<Rightarrow> dir \<Rightarrow> bool" where
  "chunk_written cid pt d0 p d \<equiv> chunk_step cid d0 d \<and> (snd p = Inr () \<longrightarrow> chunk_on_disk cid pt d)"

lemma check_existing_chunk_triple:
  assumes "length pt \<le> MAX_CHUNK_BYTES"
  shows "triple (\<lambda>d. d = d0) (check_existing_chunk inner cid pt) (chunk_written cid pt d0) (\<lambda>_. False) (chunk_step cid d0)"
proof -
  have r: "triple (\<lambda>d. d = d0) (io_try (read_chunk (chunk_path cid)))
      (\<lambda>r d. case r of Inl _ \<Rightarrow> d = d0 | Inr b \<Rightarrow> d = d0 \<and> b = map_of (d_chunks d0) (chunk_file_name cid))
      (\<lambda>_. False) (chunk_step cid d0)"
    unfolding read_chunk_def
    by (rule triple_try, rule triple_read) (auto simp: file_get_def chunk_path_def split: option.splits if_splits)
  show ?thesis
    unfolding check_existing_chunk_def
    by (rule triple_bind [OF r], rule triple_value) (use assms in \<open>auto simp: chunk_on_disk_def split: sum.splits option.splits if_splits\<close>)
qed

lemma write_new_chunk_triple:
  assumes "length pt \<le> MAX_CHUNK_BYTES" and "map_of (d_chunks d0) (chunk_file_name cid) = None"
  shows "triple (\<lambda>d. d = d0) (write_new_chunk inner cid pt) (chunk_written cid pt d0) (\<lambda>_. False) (chunk_step cid d0)"
proof -
  let ?d = "file_set (chunk_path cid) (Some pt) d0"
  have new: "chunk_step cid d0 ?d" "chunk_on_disk cid pt ?d"
    using assms by (auto simp: chunk_step_def kept_def chunk_on_disk_def chunk_path_def file_set_def update_conv)
  have w: "triple (\<lambda>d. d = d0) (io_try (atomic_private_write (chunk_path cid) pt))
      (\<lambda>r d. case r of Inl _ \<Rightarrow> chunk_step cid d0 d | Inr _ \<Rightarrow> d = ?d) (\<lambda>_. False) (chunk_step cid d0)"
    unfolding atomic_private_write_def by (rule triple_try, rule triple_write) (auto simp: new)
  show ?thesis
    unfolding write_new_chunk_def
    by (rule triple_bind [OF w], rule triple_value) (auto simp: new split: sum.splits)
qed

lemma write_chunk_triple:
  "triple (\<lambda>d. d = d0) (write_chunk inner cid pt) (chunk_written cid pt d0) (\<lambda>_. False) (chunk_step cid d0)"
proof -
  have err: "triple (\<lambda>d. d = d0) (io_ret (Inr (inner, Inl e))) (chunk_written cid pt d0) (\<lambda>_. False) (chunk_step cid d0)" for e
    by (rule triple_value) auto
  have "triple (\<lambda>d. d = d0) (io_try (io_read (\<lambda>d. Inr (file_get (chunk_path cid) d \<noteq> None))))
      (\<lambda>r d. case r of Inl _ \<Rightarrow> d = d0 | Inr b \<Rightarrow> d = d0 \<and> (b \<longleftrightarrow> map_of (d_chunks d0) (chunk_file_name cid) \<noteq> None))
      (\<lambda>_. False) (chunk_step cid d0)"
    by (rule triple_try, rule triple_read) (auto simp: file_get_def chunk_path_def)
  moreover have "triple (\<lambda>d. case x of Inl _ \<Rightarrow> d = d0
        | Inr b \<Rightarrow> d = d0 \<and> (b \<longleftrightarrow> map_of (d_chunks d0) (chunk_file_name cid) \<noteq> None))
      (case x of Inl e \<Rightarrow> io_ret (Inr (inner, Inl e))
        | Inr True \<Rightarrow> check_existing_chunk inner cid pt | Inr False \<Rightarrow> write_new_chunk inner cid pt)
      (chunk_written cid pt d0) (\<lambda>_. False) (chunk_step cid d0)"
    if "length pt \<le> MAX_CHUNK_BYTES" for x
    using err check_existing_chunk_triple [OF that, of d0 inner cid] write_new_chunk_triple [OF that, of d0 cid inner]
    by (cases x; cases "map_of (d_chunks d0) (chunk_file_name cid)") (auto split: bool.splits)
  ultimately show ?thesis
    using err by (auto simp: write_chunk_def not_less intro: triple_bind)
qed

text \<open>
  Putting a chunk keeps the store content addressed and its chunks on disk; on success the chunk
  is held under its identifier.
\<close>

definition store_ok :: "(bytes \<Rightarrow> 256 word) \<Rightarrow> MemoryChunkStore \<Rightarrow> dir \<Rightarrow> bool" where
  "store_ok sha256 store d \<longleftrightarrow> addressed sha256 (mc_chunks store) \<and>
     (mc_durable store \<noteq> None \<longrightarrow> on_disk (mc_chunks store) d)"

lemma on_disk_step:
  assumes "on_disk chunks d0" and "chunk_step cid d0 d" 
  shows "on_disk chunks d"
  unfolding on_disk_def
proof (clarify)
  fix c r assume "(c, r) \<in> set chunks"
  then have "chunk_on_disk c (ck_plaintext r) d0"
    using assms(1) by (auto simp: on_disk_def)
  then show "chunk_on_disk c (ck_plaintext r) d"
    using assms(2) by (cases "c = cid") (auto simp: chunk_step_def kept_def chunk_on_disk_def)
qed

lemma chunk_put_triple:
  assumes "store_ok sha256 store d0"
  shows "triple (\<lambda>d. d = d0) (chunk_put sha256 store f i pt)
    (\<lambda>(store', r) d. store_ok sha256 store' d \<and> chunk_step (chunk_id sha256 f i pt) d0 d \<and>
       (\<forall>c. r = Inr c \<longrightarrow> c = chunk_id sha256 f i pt \<and> chunk_has store' c \<and>
         (chunk_has store c \<or> chunk_get store' c = Some pt)))
    (\<lambda>_. False) (\<lambda>d. store_ok sha256 store d)"
proof -
  let ?c = "chunk_id sha256 f i pt" and ?r = "\<lparr>ck_file_id = f, ck_index = i, ck_plaintext = pt\<rparr>"
  let ?Q = "\<lambda>(store', r) d. store_ok sha256 store' d \<and> chunk_step ?c d0 d \<and>
       (\<forall>c. r = Inr c \<longrightarrow> c = ?c \<and> chunk_has store' c \<and> (chunk_has store c \<or> chunk_get store' c = Some pt))"
  have ok: "addressed sha256 (mc_chunks store)" and bm: "bm_ok (mc_chunks store)"
    using assms by (auto simp: store_ok_def addressed_def)
  have ins: "addressed sha256 (bm_insert ?c ?r (mc_chunks store))"
    by (rule addressed_insert [OF ok]) simp
  have written: "?Q (case p of (inner', r) \<Rightarrow> case r of
        Inl e \<Rightarrow> (store\<lparr>mc_durable := Some inner'\<rparr>, Inl e)
      | Inr _ \<Rightarrow> (store\<lparr>mc_durable := Some inner', mc_chunks := bm_insert ?c ?r (mc_chunks store)\<rparr>, Inr ?c)) d"
    if "mc_durable store = Some inner" and "chunk_written ?c pt d0 p d" for inner p d
    using that assms ok ins bm on_disk_step [of "mc_chunks store" d0 ?c d] on_disk_insert [of "mc_chunks store" d ?c ?r]
    by (auto simp: store_ok_def chunk_has_def chunk_get_def split: prod.splits sum.splits)
  show ?thesis
  proof (cases "bm_contains (mc_chunks store) ?c \<or> mc_durable store = None")
    case True
    with assms ins bm show ?thesis
      by (auto simp: chunk_put_def Let_def chunk_has_def chunk_get_def store_ok_def intro!: triple_value)
  next
    case False
    then obtain inner where inner: "mc_durable store = Some inner" by auto
    have w: "triple (\<lambda>d. d = d0) (write_chunk inner ?c pt) (chunk_written ?c pt d0) (\<lambda>_. False) (\<lambda>d. store_ok sha256 store d)"
      by (rule triple_weaken [OF write_chunk_triple])
        (use assms on_disk_step in \<open>auto simp: store_ok_def\<close>)
    have put: "chunk_put sha256 store f i pt = io_bind (write_chunk inner ?c pt) (\<lambda>p.
        io_ret (Inr (case p of (inner', r) \<Rightarrow> case r of
            Inl e \<Rightarrow> (store\<lparr>mc_durable := Some inner'\<rparr>, Inl e)
          | Inr _ \<Rightarrow> (store\<lparr>mc_durable := Some inner', mc_chunks := bm_insert ?c ?r (mc_chunks store)\<rparr>, Inr ?c))))"
      using False inner by (simp add: chunk_put_def Let_def case_prod_unfold cong: sum.case_cong)
    show ?thesis
      unfolding put by (rule triple_bind [OF w], rule triple_value, rule written [OF inner])
  qed
qed

section \<open>The staged snapshot\<close>

lemma fold_index:
  fixes chunks :: chunk_map and m :: "(ChunkId, FileId \<times> u64) btree_map"
  assumes "bm_ok m"
  shows "bm_ok (fold (\<lambda>c m. case bm_get chunks c of Some r \<Rightarrow> bm_insert c (ck_file_id r, ck_index r) m | None \<Rightarrow> m) cs m)"
    and "bm_get (fold (\<lambda>c m. case bm_get chunks c of Some r \<Rightarrow> bm_insert c (ck_file_id r, ck_index r) m | None \<Rightarrow> m) cs m) c =
      (if c \<in> set cs \<and> bm_get chunks c \<noteq> None
       then map_option (\<lambda>r. (ck_file_id r, ck_index r)) (bm_get chunks c) else bm_get m c)"
  using assms by (induction cs arbitrary: m) (auto split: option.splits)

lemma stage_index_fields [simp]:
  "retain_ids (stage_index m chunks) = retain_ids m"
  "rm_expected_root (stage_index m chunks) = rm_expected_root m"
  "rm_dirents (stage_index m chunks) = rm_dirents m"
  "rm_mailboxes (stage_index m chunks) = rm_mailboxes m"
  by (simp_all add: stage_index_def retain_ids_def)

text \<open>The staged index lists exactly the retained chunks the store holds.\<close>

lemma stage_index_iff:
  "(c, f, i) \<in> set (rm_chunk_index (stage_index m chunks)) \<longleftrightarrow>
    c \<in> set (retain_ids m) \<and> (\<exists>r. bm_get chunks c = Some r \<and> f = ck_file_id r \<and> i = ck_index r)"
proof -
  let ?m = "rm_chunk_index (stage_index m chunks)"
  have "bm_ok ?m"
    by (simp add: stage_index_def fold_index(1))
  then have "(c, f, i) \<in> set ?m \<longleftrightarrow> bm_get ?m c = Some (f, i)"
    by (simp add: bm_get_iff)
  then show ?thesis
    by (auto simp: stage_index_def fold_index(2))
qed

lemma stage_index_wf: "replica_wf m \<Longrightarrow> replica_wf (stage_index m chunks)"
  by (simp add: replica_wf_def stage_index_def fold_index(1))

lemma mailboxes_available_iff:
  "mailboxes_available m chunks \<longleftrightarrow>
    (\<forall>q \<in> set (bm_values (rm_mailboxes m)). \<forall>f i c. QChunk f i c \<in> set q \<longrightarrow> c \<in> fst ` set chunks)"
  by (fastforce simp: mailboxes_available_def list_all_iff split: QueueContent.splits)

section \<open>What a vault directory holds\<close>

text \<open>
  \<open>disk_state sha256 root m d\<close>: the directory is a readable vault with root \<open>root\<close> whose snapshot is
  \<open>m\<close> (none at all for \<open>None\<close>), every indexed chunk it retains is readable and authentic, and every
  chunk a mailbox waits for is among them.
\<close>

definition pinned :: "(bytes \<Rightarrow> 256 word) \<Rightarrow> ReplicaMetadata \<Rightarrow> dir \<Rightarrow> bool" where
  "pinned sha256 m d \<longleftrightarrow>
     (\<forall>(c, f, i) \<in> set (rm_chunk_index m). c \<in> set (retain_ids m) \<longrightarrow>
       (\<exists>p. chunk_on_disk c p d \<and> chunk_id sha256 f i p = c)) \<and>
     (\<forall>q \<in> set (bm_values (rm_mailboxes m)). \<forall>f i c. QChunk f i c \<in> set q \<longrightarrow> c \<in> fst ` set (rm_chunk_index m))"

definition disk_state :: "(bytes \<Rightarrow> 256 word) \<Rightarrow> FileId \<Rightarrow> ReplicaMetadata option \<Rightarrow> dir \<Rightarrow> bool" where
  "disk_state sha256 root m d \<longleftrightarrow> (case m of
       None \<Rightarrow> d_replica d = None
     | Some m \<Rightarrow> (\<exists>bs g. d_replica d = Some bs \<and> length bs \<le> MAX_STORE_BYTES \<and> decode_replica sha256 bs root = Inr (g, m)) \<and>
         pinned sha256 m d)"

text \<open>The metadata that a publication leaves on disk: indexed anew, directory entries in canonical order.\<close>

definition published :: "ReplicaMetadata \<Rightarrow> chunk_map \<Rightarrow> ReplicaMetadata \<Rightarrow> bool" where
  "published metadata chunks m \<longleftrightarrow>
     (\<exists>t. from_dirents (rm_expected_root metadata) (rm_dirents metadata) = Inr t \<and>
       m = (stage_index metadata chunks)\<lparr>rm_dirents := dirents t\<rparr>)"

lemma pinned_kept:
  assumes "pinned sha256 m d" and "kept names d d'" and "chunk_file_name ` set (retain_ids m) \<subseteq> names"
  shows "pinned sha256 m d'"
  using assms kept_chunk [OF assms(2)] unfolding pinned_def by (fastforce simp: image_subset_iff)

lemma published_pinned:
  assumes "published metadata chunks m" and "addressed sha256 chunks" and "on_disk chunks d"
    and "mailboxes_available (stage_index metadata chunks) chunks"
  shows "pinned sha256 m d"
proof -
  have m: "retain_ids m = retain_ids metadata" "rm_mailboxes m = rm_mailboxes metadata"
      "rm_chunk_index m = rm_chunk_index (stage_index metadata chunks)"
    using assms(1) by (auto simp: published_def stage_index_def retain_ids_def)
  have bm: "bm_ok chunks" using assms(2) by (simp add: addressed_def)
  have "\<exists>p. chunk_on_disk c p d \<and> chunk_id sha256 f i p = c" if idx: "(c, f, i) \<in> set (rm_chunk_index m)" for c f i
  proof -
    obtain r where r: "bm_get chunks c = Some r" "f = ck_file_id r" "i = ck_index r"
      using idx unfolding m(3) stage_index_iff by blast
    then have "(c, r) \<in> set chunks" using bm by (simp add: bm_get_iff)
    then show ?thesis
      using r assms(2,3) by (auto simp: addressed_def on_disk_def)
  qed
  moreover have "c \<in> fst ` set (rm_chunk_index m)"
    if q: "q \<in> set (bm_values (rm_mailboxes m))" and c: "QChunk f i c \<in> set q" for q f i c
  proof -
    have "c \<in> set (retain_ids metadata)"
      using q c unfolding m(2) by (auto simp: retain_ids_iff simp del: set_map)
    moreover have "c \<in> fst ` set chunks"
      using assms(4) q c by (auto simp: mailboxes_available_iff m simp del: set_map)
    then obtain r where "bm_get chunks c = Some r"
      using bm by (force simp: bm_get_iff)
    ultimately have "(c, ck_file_id r, ck_index r) \<in> set (rm_chunk_index m)"
      by (simp add: m stage_index_iff)
    then show ?thesis by force
  qed
  ultimately show ?thesis by (auto simp: pinned_def)
qed

lemma stage_snapshot_Inr:
  "stage_snapshot sha256 inner m chunks = Inr (staged, g, bs) \<longleftrightarrow>
    rm_expected_root m = di_expected_root inner \<and> staged = stage_index m chunks \<and> mailboxes_available staged chunks \<and>
    checked_add (di_generation inner) 1 = Some g \<and> encode_replica sha256 staged g = Inr bs \<and> length bs \<le> MAX_STORE_BYTES"
  by (auto simp: stage_snapshot_def Let_def not_less)

text \<open>Once the encoded snapshot is the replica file, the directory holds the published metadata.\<close>

lemma snapshot_on_disk:
  assumes "stage_snapshot sha256 inner metadata chunks = Inr (staged, g, bs)" and "replica_wf metadata"
    and "addressed sha256 chunks" and "on_disk chunks d" and "d_replica d = Some bs"
  shows "\<exists>m. published metadata chunks m \<and> disk_state sha256 (rm_expected_root metadata) (Some m) d"
proof -
  have st: "staged = stage_index metadata chunks" "mailboxes_available staged chunks"
      "encode_replica sha256 staged g = Inr bs" "length bs \<le> MAX_STORE_BYTES"
    using assms(1) by (auto simp: stage_snapshot_Inr)
  obtain t where t: "from_dirents (rm_expected_root metadata) (rm_dirents metadata) = Inr t"
      "decode_replica sha256 bs (rm_expected_root metadata) = Inr (g, staged\<lparr>rm_dirents := dirents t\<rparr>)"
    using replica_roundtrip [OF st(3)] stage_index_wf [OF assms(2)] by (auto simp: st(1))
  then have pub: "published metadata chunks (staged\<lparr>rm_dirents := dirents t\<rparr>)"
    by (auto simp: published_def st(1))
  moreover have "pinned sha256 (staged\<lparr>rm_dirents := dirents t\<rparr>) d"
    by (rule published_pinned [OF pub assms(3,4)]) (use st in simp)
  ultimately show ?thesis
    using t assms(5) st(4) by (auto simp: disk_state_def)
qed

section \<open>Publishing is atomic\<close>

text \<open>
  \<open>publish_outcome\<close>: the directory still holds the old snapshot, or it holds the published one.
\<close>

definition publish_outcome ::
  "(bytes \<Rightarrow> 256 word) \<Rightarrow> ReplicaMetadata option \<Rightarrow> ReplicaMetadata \<Rightarrow> chunk_map \<Rightarrow> dir \<Rightarrow> bool" where
  "publish_outcome sha256 old metadata chunks d \<longleftrightarrow>
     disk_state sha256 (rm_expected_root metadata) old d \<or>
     (\<exists>m. published metadata chunks m \<and> disk_state sha256 (rm_expected_root metadata) (Some m) d)"

lemma disk_state_kept:
  assumes "disk_state sha256 root (Some m) d" and "kept names d d'" and "chunk_file_name ` set (retain_ids m) \<subseteq> names"
  shows "disk_state sha256 root (Some m) d'"
  using assms pinned_kept [OF _ assms(2,3)] by (auto simp: disk_state_def kept_def)

lemma retained_fst: "fst ` set (bm_retain (\<lambda>c _. c \<in> S) chunks) = fst ` set chunks \<inter> S"
  by force

lemma on_disk_kept:
  "on_disk chunks d \<Longrightarrow> kept (chunk_file_name ` fst ` set chunks) d d' \<Longrightarrow> on_disk chunks d'"
  using kept_chunk by (fastforce simp: on_disk_def)

text \<open>
  The sweep after a publication removes only files of chunks that the published snapshot does not
  pin: an indexed chunk is retained and held.
\<close>

lemma disk_state_sweep:
  assumes "published metadata chunks m" and "disk_state sha256 root (Some m) d"
    and "kept (chunk_file_name ` fst ` set (bm_retain (\<lambda>c _. c \<in> set (retain_ids metadata)) chunks)) d d'"
  shows "disk_state sha256 root (Some m) d'"
proof -
  have m: "retain_ids m = retain_ids metadata" "rm_chunk_index m = rm_chunk_index (stage_index metadata chunks)"
    using assms(1) by (auto simp: published_def stage_index_def retain_ids_def)
  have held: "c \<in> fst ` set (bm_retain (\<lambda>c _. c \<in> set (retain_ids metadata)) chunks)"
    if "(c, f, i) \<in> set (rm_chunk_index m)" for c f i
    using that unfolding m(2) stage_index_iff retained_fst by (force dest: map_of_SomeD)
  have "pinned sha256 m d'"
    using assms(2) kept_chunk [OF assms(3) imageI [OF held]] unfolding disk_state_def pinned_def by fastforce
  then show ?thesis
    using assms(2,3) by (auto simp: disk_state_def kept_def)
qed

definition publish_result ::
  "(bytes \<Rightarrow> 256 word) \<Rightarrow> ReplicaMetadata \<Rightarrow> chunk_map \<Rightarrow> DurableInner \<times> chunk_map \<times> ReplicaMetadata result \<Rightarrow> dir \<Rightarrow> bool" where
  "publish_result sha256 metadata chunks p d = (case p of (inner', chunks', r) \<Rightarrow>
     \<forall>staged. r = Inr staged \<longrightarrow>
       addressed sha256 chunks' \<and> on_disk chunks' d \<and> staged = stage_index metadata chunks \<and>
       di_live_metadata inner' = Some staged \<and> di_failed inner' = False \<and>
       fst ` set chunks' = fst ` set chunks \<inter> set (retain_ids metadata) \<and>
       (\<exists>m. published metadata chunks m \<and> disk_state sha256 (rm_expected_root metadata) (Some m) d))"

text \<open>
  The common part of both publications: \<open>write\<close> puts the snapshot on disk and establishes \<open>J\<close> (about
  the journal and the admission file); \<open>C\<close> is what holds if it fails or the process stops.
\<close>

lemma publish_written_triple:
  fixes J :: "dir \<Rightarrow> bool"
  assumes st: "stage_snapshot sha256 inner metadata chunks = Inr (staged, g, bs)" and alive: "\<not> di_failed inner"
    and mem: "addressed sha256 chunks" "on_disk chunks d0" "replica_wf metadata"
    and close: "\<And>d m. published metadata chunks m \<Longrightarrow> disk_state sha256 (rm_expected_root metadata) (Some m) d \<Longrightarrow> J d \<Longrightarrow> C d"
    and stable: "\<And>d d' names. J d \<Longrightarrow> kept names d d' \<Longrightarrow> J d'"
  shows "triple (\<lambda>d. d_replica d = Some bs \<and> d_chunks d = d_chunks d0 \<and> J d)
    (io_bind (io_try (sweep_directory (bm_keys (bm_retain (\<lambda>c _. c \<in> set (retain_ids metadata)) chunks)))) (\<lambda>_.
      io_ret (Inr (inner\<lparr>di_generation := g, di_live_metadata := Some staged\<rparr>,
        bm_retain (\<lambda>c _. c \<in> set (retain_ids metadata)) chunks, Inr staged))))
    (\<lambda>p d. C d \<and> publish_result sha256 metadata chunks p d) (\<lambda>_. False) C"
    (is "triple ?P _ ?Q _ _")
proof -
  let ?kept = "bm_retain (\<lambda>c _. c \<in> set (retain_ids metadata)) chunks"
  let ?K = "kept (chunk_file_name ` set (bm_keys ?kept))"
  have disk: "on_disk chunks d" if "?P d" for d
    using mem(2) that by (simp add: on_disk_def chunk_on_disk_def)
  have new: "C d' \<and> (\<exists>m. published metadata chunks m \<and> disk_state sha256 (rm_expected_root metadata) (Some m) d')"
    if d: "?P d" and k: "?K d d'" for d d'
  proof -
    obtain m where m: "published metadata chunks m" "disk_state sha256 (rm_expected_root metadata) (Some m) d"
      using snapshot_on_disk [OF st mem(3,1) disk [OF d]] d by auto
    then have "disk_state sha256 (rm_expected_root metadata) (Some m) d'"
      using disk_state_sweep [OF m] k by (simp add: image_image)
    then show ?thesis
      using m(1) close stable [OF _ k] d by blast
  qed
  have fin: "?Q (inner\<lparr>di_generation := g, di_live_metadata := Some staged\<rparr>, ?kept, Inr staged) d'"
    if "?P d" and "?K d d'" for d d'
  proof -
    have "addressed sha256 ?kept" "on_disk ?kept d"
      using mem(1) disk [OF that(1)] by (auto simp: addressed_def on_disk_def)
    moreover from this have "on_disk ?kept d'"
      using on_disk_kept that(2) by (simp add: image_image)
    ultimately show ?thesis
      using new [OF that] alive st by (auto simp: publish_result_def stage_snapshot_Inr retained_fst)
  qed
  have sw: "triple (\<lambda>d. d = d1) (io_try (sweep_directory (bm_keys ?kept))) (\<lambda>_. ?K d1) (\<lambda>_. False) C" if "?P d1" for d1
    by (rule triple_weaken [OF triple_try [OF sweep_triple [where ?d0.0 = d1]]])
      (use new [OF that] in \<open>auto split: sum.splits\<close>)
  show ?thesis
  proof (rule triple_at)
    fix d1 assume "?P d1"
    then show "triple (\<lambda>d. d = d1) (io_bind (io_try (sweep_directory (bm_keys ?kept))) (\<lambda>_.
        io_ret (Inr (inner\<lparr>di_generation := g, di_live_metadata := Some staged\<rparr>, ?kept, Inr staged)))) ?Q (\<lambda>_. False) C"
      by (intro triple_bind [OF sw] triple_value fin)
  qed
qed

lemma durable_publish_triple:
  fixes J :: "dir \<Rightarrow> bool"
  assumes mem: "addressed sha256 chunks" "on_disk chunks d0" "replica_wf metadata" and start: "C d0"
    and wr: "\<And>staged g bs. stage_snapshot sha256 inner metadata chunks = Inr (staged, g, bs) \<Longrightarrow>
      triple (\<lambda>d. d = d0) (write bs) (\<lambda>_ d. d_replica d = Some bs \<and> d_chunks d = d_chunks d0 \<and> J d) C C"
    and close: "\<And>d m. published metadata chunks m \<Longrightarrow> disk_state sha256 (rm_expected_root metadata) (Some m) d \<Longrightarrow> J d \<Longrightarrow> C d"
    and stable: "\<And>d d' names. J d \<Longrightarrow> kept names d d' \<Longrightarrow> J d'"
  shows "triple (\<lambda>d. d = d0) (durable_publish sha256 write inner metadata chunks)
    (\<lambda>p d. C d \<and> publish_result sha256 metadata chunks p d) (\<lambda>_. False) C"
    (is "triple ?P _ ?Q _ _")
proof -
  have err: "triple P (io_ret (Inr (inner', chunks', Inl e))) ?Q (\<lambda>_. False) C" if "\<And>d. P d \<Longrightarrow> C d" for P inner' chunks' e
    by (rule triple_value) (use that in \<open>auto simp: publish_result_def\<close>)
  have start': "\<And>d. d = d0 \<Longrightarrow> C d" using start by simp
  show ?thesis
  proof (cases "di_failed inner \<or> di_fail_next_persist inner \<or> (\<exists>e. stage_snapshot sha256 inner metadata chunks = Inl e)")
    case True
    then show ?thesis
      using err [OF start'] by (auto simp: durable_publish_def)
  next
    case False
    then obtain staged g bs where st: "stage_snapshot sha256 inner metadata chunks = Inr (staged, g, bs)"
      by (metis old.prod.exhaust sum.exhaust)
    have alive: "\<not> di_failed inner" using False by simp
    note w = triple_try [OF wr [OF st]]
    note fin = publish_written_triple [OF st alive mem close stable]
    show ?thesis
      using False st fin err
      by (auto simp: durable_publish_def Let_def split: sum.splits intro!: triple_bind [OF w])
  qed
qed

text \<open>An error is reported with the directory untouched, or the store refuses all further publications.\<close>

lemma durable_publish_error:
  assumes "durable_publish sha256 write inner metadata chunks (os, d0) = (Ret (Inr (inner', chunks', Inl e)), os', d)"
  shows "di_failed inner' \<or> d = d0"
  using assms
  by (auto simp: durable_publish_def io_ret_def io_bind_def Let_def split: if_splits sum.splits run.splits prod.splits)

lemma durable_persist_triple:
  assumes "addressed sha256 chunks" and "on_disk chunks d0" and "replica_wf metadata"
    and "disk_state sha256 (rm_expected_root metadata) old d0"
  shows "triple (\<lambda>d. d = d0) (durable_persist sha256 inner metadata chunks)
    (\<lambda>p d. (d_journal d = d_journal d0 \<and> publish_outcome sha256 old metadata chunks d) \<and> publish_result sha256 metadata chunks p d)
    (\<lambda>_. False) (\<lambda>d. d_journal d = d_journal d0 \<and> publish_outcome sha256 old metadata chunks d)"
  unfolding durable_persist_def
proof (rule durable_publish_triple [OF assms(1-3), where J = "\<lambda>d. d_journal d = d_journal d0"])
  fix staged g bs
  assume st: "stage_snapshot sha256 inner metadata chunks = Inr (staged, g, bs)"
  have "\<exists>m. published metadata chunks m \<and> disk_state sha256 (rm_expected_root metadata) (Some m) (d0\<lparr>d_replica := Some bs\<rparr>)"
    by (rule snapshot_on_disk [OF st assms(3,1)]) (use assms(2) in \<open>simp_all add: on_disk_def chunk_on_disk_def\<close>)
  then show "triple (\<lambda>d. d = d0) (atomic_private_write Replica bs)
      (\<lambda>_ d. d_replica d = Some bs \<and> d_chunks d = d_chunks d0 \<and> d_journal d = d_journal d0)
      (\<lambda>d. d_journal d = d_journal d0 \<and> publish_outcome sha256 old metadata chunks d)
      (\<lambda>d. d_journal d = d_journal d0 \<and> publish_outcome sha256 old metadata chunks d)"
    unfolding atomic_private_write_def
    by (intro triple_write) (use assms(4) in \<open>auto simp: file_set_def publish_outcome_def\<close>)
qed (use assms(4) in \<open>auto simp: publish_outcome_def kept_def\<close>)

section \<open>Opening restores what is on disk\<close>

lemma read_chunk_done:
  assumes "chunk_on_disk c p d"
  shows "io_try (read_chunk (chunk_path c)) ([], d) = (Ret (Inr (Inr (Some p))), [], d)"
  by (rule io_try_done)
    (use assms in \<open>simp add: read_chunk_def io_read_done chunk_on_disk_def file_get_def chunk_path_def\<close>)

lemma load_chunks_done:
  assumes "\<forall>(c, f, i) \<in> set es. c \<in> set R \<longrightarrow> (\<exists>p. chunk_on_disk c p d \<and> chunk_id sha256 f i p = c)"
    and "addressed sha256 rs" and "on_disk rs d"
  shows "\<exists>rs'. load_chunks sha256 R es rs ([], d) = (Ret (Inr rs'), [], d) \<and> addressed sha256 rs' \<and> on_disk rs' d \<and>
    fst ` set rs' = fst ` set rs \<union> (fst ` set es \<inter> set R)"
  using assms
proof (induction es arbitrary: rs)
  case Nil
  then show ?case by (simp add: io_ret_def)
next
  case (Cons e es)
  obtain c f i where e: "e = (c, f, i)" by (cases e)
  show ?case
  proof (cases "c \<in> set R")
    case False
    with Cons.IH [of rs] Cons.prems e show ?thesis by auto
  next
    case True
    then obtain p where p: "chunk_on_disk c p d" "chunk_id sha256 f i p = c"
      using Cons.prems(1) e by auto
    let ?r = "\<lparr>ck_file_id = f, ck_index = i, ck_plaintext = p\<rparr>"
    have "addressed sha256 (bm_insert c ?r rs)" "on_disk (bm_insert c ?r rs) d"
      using Cons.prems(2,3) p by (auto intro: addressed_insert on_disk_insert)
    then obtain rs' where rs': "load_chunks sha256 R es (bm_insert c ?r rs) ([], d) = (Ret (Inr rs'), [], d)"
        "addressed sha256 rs'" "on_disk rs' d" "fst ` set rs' = insert c (fst ` set rs) \<union> (fst ` set es \<inter> set R)"
      using Cons.IH [of "bm_insert c ?r rs"] Cons.prems(1) by auto
    have "load_chunks sha256 R (e # es) rs ([], d) = (Ret (Inr rs'), [], d)"
      using True p(2) rs'(1) read_chunk_done [OF p(1)] by (simp add: e io_bind_done)
    with rs' True e show ?thesis by auto
  qed
qed

definition held_chunks :: "ReplicaMetadata option \<Rightarrow> ChunkId set" where
  "held_chunks m = (case m of None \<Rightarrow> {} | Some m \<Rightarrow> fst ` set (rm_chunk_index m) \<inter> set (retain_ids m))"

lemma load_records_done:
  assumes "disk_state sha256 root m d"
  shows "\<exists>rs. load_records sha256 m ([], d) = (Ret (Inr rs), [], d) \<and> addressed sha256 rs \<and> on_disk rs d \<and>
    fst ` set rs = held_chunks m"
proof (cases m)
  case None
  then show ?thesis
    by (auto simp: load_records_def io_ret_def addressed_def on_disk_def held_chunks_def)
next
  case (Some m')
  have pin: "pinned sha256 m' d"
    using assms Some by (simp add: disk_state_def)
  then obtain rs where rs: "load_chunks sha256 (retain_ids m') (rm_chunk_index m') [] ([], d) = (Ret (Inr rs), [], d)"
      "addressed sha256 rs" "on_disk rs d" "fst ` set rs = fst ` set (rm_chunk_index m') \<inter> set (retain_ids m')"
    using load_chunks_done [of "rm_chunk_index m'" "retain_ids m'" d sha256 "[]"]
    by (auto simp: pinned_def addressed_def on_disk_def)
  have "c \<in> set (retain_ids m')" if "q \<in> set (bm_values (rm_mailboxes m'))" "QChunk f i c \<in> set q" for q f i c
    using that by (auto simp: retain_ids_iff simp del: set_map)
  then have "mailboxes_available m' rs"
    using pin unfolding mailboxes_available_iff rs(4) pinned_def by blast
  with rs Some show ?thesis
    by (auto simp: load_records_def io_bind_done io_ret_def held_chunks_def)
qed

lemma load_replica_done:
  assumes "disk_state sha256 root m d"
  shows "\<exists>g. load_replica sha256 root (d_replica d) = Inr (g, m)" and "read_private Replica ([], d) = (Ret (Inr (d_replica d)), [], d)"
proof -
  have "decode_replica sha256 [] root \<noteq> Inr (g, m')" for g m'
    by (simp add: decode_replica_def HASH_LEN_def)
  with assms show "\<exists>g. load_replica sha256 root (d_replica d) = Inr (g, m)"
    by (fastforce simp: load_replica_def disk_state_def split: option.splits)
  show "read_private Replica ([], d) = (Ret (Inr (d_replica d)), [], d)"
    using assms by (auto simp: read_private_def io_read_done file_get_def disk_state_def split: option.splits)
qed

lemma io_ret_bind: "io_bind (io_ret (Inr x)) f s = f x s"
  by (simp add: io_bind_def io_ret_def)

lemma disk_state_open:
  assumes "disk_state sha256 root m d" and "kept (chunk_file_name ` held_chunks m) d d'"
  shows "disk_state sha256 root m d'"
proof (cases m)
  case (Some m')
  have "chunk_on_disk c p d' \<longleftrightarrow> chunk_on_disk c p d" if "(c, f, i) \<in> set (rm_chunk_index m')" "c \<in> set (retain_ids m')" for c f i p
    by (rule kept_chunk [OF assms(2)]) (use that Some in \<open>force simp: held_chunks_def\<close>)
  then have "pinned sha256 m' d'"
    using assms(1) Some unfolding disk_state_def pinned_def by fastforce
  with assms Some show ?thesis
    by (auto simp: disk_state_def kept_def)
qed (use assms in \<open>auto simp: disk_state_def kept_def\<close>)

text \<open>
  Once recovery has settled the directory, opening it succeeds and yields its snapshot together with
  all the chunks it holds, content addressed and on disk.
\<close>

lemma open_store_done:
  assumes rec: "recover_admission_transaction sha256 ([], d) = (Ret (Inr ()), [], d1)"
    and state: "disk_state sha256 root m d1" and journal: "d_journal d1 = None"
  shows "\<exists>store d'. open_store sha256 (Inr ()) root ([], d) = (Ret (Inr (m, store)), [], d') \<and>
    mc_metadata store = m \<and> fst ` set (mc_chunks store) = held_chunks m \<and> store_ok sha256 store d' \<and>
    disk_state sha256 root m d' \<and> d_journal d' = None \<and> d_admission d' = d_admission d1"
proof -
  obtain rs where rs: "load_records sha256 m ([], d1) = (Ret (Inr rs), [], d1)" "addressed sha256 rs" "on_disk rs d1"
      "fst ` set rs = held_chunks m"
    using load_records_done [OF state] by blast
  obtain g where g: "load_replica sha256 root (d_replica d1) = Inr (g, m)"
    using load_replica_done(1) [OF state] by blast
  obtain d' where sw: "sweep_directory (bm_keys rs) ([], d1) = (Ret (Inr ()), [], d')"
    using sweep_done by blast
  then have k: "kept (chunk_file_name ` held_chunks m) d1 d'"
    using triple_done [OF sweep_triple sw kept_refl] rs(4) by simp
  have disk: "on_disk rs d'"
    by (rule on_disk_kept [OF rs(3)]) (use k rs(4) in simp)
  show ?thesis
    using rs disk disk_state_open [OF state k] k journal rec sw load_replica_done(2) [OF state] g
    by (simp add: open_store_def io_ret_bind io_bind_op_done io_bind_done)
      (auto simp: io_ret_def store_ok_def kept_def)
qed

lemma recover_nothing:
  "d_journal d = None \<Longrightarrow> recover_admission_transaction sha256 ([], d) = (Ret (Inr ()), [], d)"
  by (simp add: recover_admission_transaction_def read_bounded_def io_bind_def io_read_done file_get_def io_ret_def)

section \<open>Publishing with the admission file\<close>

lemma triple_conj:
  "triple P p Q E C \<Longrightarrow> triple P' p Q' E' C' \<Longrightarrow>
    triple (\<lambda>d. P d \<and> P' d) p (\<lambda>x d. Q x d \<and> Q' x d) (\<lambda>d. E d \<and> E' d) (\<lambda>d. C d \<and> C' d)"
  unfolding triple_def by (fastforce split: run.splits sum.splits prod.splits)

text \<open>The transaction never touches the chunk files.\<close>

definition spares_chunks :: "'a io \<Rightarrow> bool" where
  "spares_chunks p \<longleftrightarrow> (\<forall>cs. triple (\<lambda>d. d_chunks d = cs) p (\<lambda>_ d. d_chunks d = cs) (\<lambda>d. d_chunks d = cs) (\<lambda>d. d_chunks d = cs))"

lemma spares_ret [intro!]: "spares_chunks (io_ret x)"
  by (simp add: spares_chunks_def triple_ret)

lemma spares_bind [intro!]: "spares_chunks p \<Longrightarrow> (\<And>x. spares_chunks (f x)) \<Longrightarrow> spares_chunks (io_bind p f)"
  unfolding spares_chunks_def by (blast intro: triple_bind)

lemma spares_catch [intro!]: "spares_chunks p \<Longrightarrow> (\<And>e. spares_chunks (h e)) \<Longrightarrow> spares_chunks (io_catch p h)"
  unfolding spares_chunks_def by (blast intro: triple_catch)

lemma spares_op [intro!]: "(\<And>d. d_chunks (f d) = d_chunks d) \<Longrightarrow> spares_chunks (io_op f)"
  by (auto simp: spares_chunks_def intro!: triple_op)

lemma spares_read [intro!]: "spares_chunks (io_read f)"
  by (auto simp: spares_chunks_def intro!: triple_read)

lemmas transaction_defs = persist_inner_def recover_admission_transaction_def read_bounded_def
  atomic_private_write_def atomic_private_write_bounded_def restore_def clear_journal_def Let_def

lemma persist_inner_spares: "spares_chunks (persist_inner sha256 r a)"
  unfolding transaction_defs by (auto simp: file_set_def)

lemma recover_spares: "spares_chunks (recover_admission_transaction sha256)"
  unfolding transaction_defs by (auto simp: file_set_def split: option.splits prod.splits)

lemma persist_inner_oversize:
  assumes "encode_admission_transaction sha256 (unwrap_or_default (d_replica d0)) (unwrap_or_default (d_admission d0)) = Inl e"
  shows "triple (\<lambda>d. d = d0) (persist_inner sha256 r a) (\<lambda>_ _. False) (\<lambda>d. d = d0) (\<lambda>d. d = d0)"
proof -
  have r1: "triple (\<lambda>d. d = d0) (read_bounded Replica n) (\<lambda>x d. d = d0 \<and> x = d_replica d0) (\<lambda>d. d = d0) (\<lambda>d. d = d0)" for n
    unfolding read_bounded_def by (rule triple_read) (auto simp: file_get_def split: option.splits if_splits)
  have r2: "triple (\<lambda>d. d = d0 \<and> x = d_replica d0) (read_bounded Admission n)
      (\<lambda>y d. d = d0 \<and> x = d_replica d0 \<and> y = d_admission d0) (\<lambda>d. d = d0) (\<lambda>d. d = d0)" for n x
    unfolding read_bounded_def by (rule triple_read) (auto simp: file_get_def split: option.splits if_splits)
  have r3: "triple (\<lambda>d. d = d0 \<and> x = d_replica d0 \<and> y = d_admission d0)
      (io_bind (io_ret (encode_admission_transaction sha256 (unwrap_or_default x) (unwrap_or_default y))) f)
      (\<lambda>_ _. False) (\<lambda>d. d = d0) (\<lambda>d. d = d0)" for x y and f :: "bytes \<Rightarrow> unit io"
    using assms by (auto simp: triple_def io_bind_def io_ret_def)
  have "triple (\<lambda>d. d = d0) (io_ret (Inl e)) (\<lambda>_ _. False) (\<lambda>d. d = d0) (\<lambda>d. d = d0)" for e
    by (rule triple_ret) auto
  then show ?thesis
    unfolding persist_inner_def Let_def
    by (auto intro!: triple_bind [OF r1] triple_bind [OF r2] r3)
qed

text \<open>
  What a publication with admission leaves: the untouched directory, a directory in the middle of
  the transaction, or the new state.
\<close>

definition admission_outcome ::
  "(bytes \<Rightarrow> 256 word) \<Rightarrow> dir \<Rightarrow> ReplicaMetadata \<Rightarrow> chunk_map \<Rightarrow> bytes \<Rightarrow> bytes \<Rightarrow> dir \<Rightarrow> bool" where
  "admission_outcome sha256 d0 metadata chunks bs admission d \<longleftrightarrow>
     d = d0 \<or>
     (\<exists>j. encode_admission_transaction sha256 (unwrap_or_default (d_replica d0)) (unwrap_or_default (d_admission d0)) = Inr j \<and>
       guarded j (d_admission d0, d_replica d0) (Some admission, Some bs) d \<and> d_chunks d = d_chunks d0) \<or>
     d_journal d = None \<and> d_admission d = Some admission \<and>
       (\<exists>m. published metadata chunks m \<and> disk_state sha256 (rm_expected_root metadata) (Some m) d)"

lemma persist_with_admission_triple:
  assumes mem: "addressed sha256 chunks" "on_disk chunks d0" "replica_wf metadata" and journal: "d_journal d0 = None"
    and st: "stage_snapshot sha256 inner metadata chunks = Inr (staged, g, bs)"
  shows "triple (\<lambda>d. d = d0) (persist_with_admission sha256 inner metadata chunks admission)
    (\<lambda>p d. admission_outcome sha256 d0 metadata chunks bs admission d \<and> publish_result sha256 metadata chunks p d)
    (\<lambda>_. False) (admission_outcome sha256 d0 metadata chunks bs admission)"
  unfolding persist_with_admission_def
proof (rule durable_publish_triple [OF mem, where J = "\<lambda>d. d_journal d = None \<and> d_admission d = Some admission"])
  let ?C = "admission_outcome sha256 d0 metadata chunks bs admission"
  fix staged' g' bs'
  assume "stage_snapshot sha256 inner metadata chunks = Inr (staged', g', bs')"
  with st have bs: "bs' = bs" by simp
  show "triple (\<lambda>d. d = d0) (persist sha256 (Some bs') admission)
    (\<lambda>_ d. d_replica d = Some bs' \<and> d_chunks d = d_chunks d0 \<and> d_journal d = None \<and> d_admission d = Some admission) ?C ?C"
  proof (cases "encode_admission_transaction sha256 (unwrap_or_default (d_replica d0)) (unwrap_or_default (d_admission d0))")
    case (Inl e)
    from persist_inner_oversize [OF this] show ?thesis
      unfolding persist_def option.case by (rule triple_weaken) (auto simp: admission_outcome_def)
  next
    case (Inr j)
    have "triple (\<lambda>d. d_chunks d = d_chunks d0) (persist_inner sha256 bs admission)
        (\<lambda>_ d. d_chunks d = d_chunks d0) (\<lambda>d. d_chunks d = d_chunks d0) (\<lambda>d. d_chunks d = d_chunks d0)"
      using persist_inner_spares by (simp add: spares_chunks_def)
    from triple_conj [OF persist_inner_triple [OF journal Inr] this] show ?thesis
      unfolding persist_def option.case bs by (rule triple_weaken) (use Inr in \<open>auto simp: admission_outcome_def\<close>)
  qed
qed (auto simp: admission_outcome_def kept_def)

text \<open>Recovery settles each of these outcomes on the old or the new pair of files.\<close>

lemma admission_outcome_recovers:
  assumes "admission_outcome sha256 d0 metadata chunks bs admission d" and "d_journal d0 = None"
    and old: "disk_state sha256 (rm_expected_root metadata) old d0"
    and new: "\<And>d. d_replica d = Some bs \<Longrightarrow> d_chunks d = d_chunks d0 \<Longrightarrow>
      \<exists>m. published metadata chunks m \<and> disk_state sha256 (rm_expected_root metadata) (Some m) d"
  shows "\<exists>d1 m. recover_admission_transaction sha256 ([], d) = (Ret (Inr ()), [], d1) \<and> d_journal d1 = None \<and>
    disk_state sha256 (rm_expected_root metadata) m d1 \<and>
    (m = old \<and> unwrap_or_default (d_admission d1) = unwrap_or_default (d_admission d0) \<or>
     d_admission d1 = Some admission \<and> (\<exists>m'. m = Some m' \<and> published metadata chunks m'))"
  using assms(1) unfolding admission_outcome_def
proof (elim disjE exE conjE)
  assume "d = d0"
  with assms(2) old show ?thesis by (auto simp: recover_nothing)
next
  fix j
  assume j: "encode_admission_transaction sha256 (unwrap_or_default (d_replica d0)) (unwrap_or_default (d_admission d0)) = Inr j"
    and G: "guarded j (d_admission d0, d_replica d0) (Some admission, Some bs) d" and cs: "d_chunks d = d_chunks d0"
  have j': "encode_admission_transaction sha256 (unwrap_or_default (snd (d_admission d0, d_replica d0)))
      (unwrap_or_default (fst (d_admission d0, d_replica d0))) = Inr j"
    using j by simp
  obtain os d1 where run: "recover_admission_transaction sha256 ([], d) = (Ret (Inr ()), os, d1)"
    using recover_succeeds [OF j' G] by (metis fst_conv surj_pair)
  have nil: "os = []"
    using recover_outcomes [OF run] .
  have S: "settled (d_admission d0, d_replica d0) (Some admission, Some bs) d1"
    by (rule triple_done [OF recover_triple [OF j'] run [unfolded nil] G])
  have cs1: "d_chunks d1 = d_chunks d0"
    by (rule triple_done [OF recover_spares [unfolded spares_chunks_def, rule_format] run [unfolded nil] cs])
  have same: "file_norm (unwrap_or_default (d_replica d0)) = d_replica d0"
    using old by (auto simp: disk_state_def file_norm_def unwrap_or_default_def decode_replica_def HASH_LEN_def split: option.splits)
  have norm: "unwrap_or_default (file_norm (unwrap_or_default a)) = unwrap_or_default a" for a
    by (auto simp: file_norm_def unwrap_or_default_def split: option.splits)
  consider (old) "d_replica d1 = d_replica d0" "unwrap_or_default (d_admission d1) = unwrap_or_default (d_admission d0)"
    | (new) "d_replica d1 = Some bs" "d_admission d1 = Some admission"
    using S same norm unfolding settled_def by auto
  then show ?thesis
  proof cases
    case old
    then have "disk_state sha256 (rm_expected_root metadata) old d1"
      using assms(3) cs1 by (auto simp: disk_state_def pinned_def chunk_on_disk_def split: option.splits)
    with old S run nil show ?thesis by (auto simp: settled_def)
  next
    case new
    with assms(4) cs1 S run nil show ?thesis by (fastforce simp: settled_def)
  qed
next
  fix m assume "d_journal d = None" and "d_admission d = Some admission" and "published metadata chunks m"
    and "disk_state sha256 (rm_expected_root metadata) (Some m) d"
  then show ?thesis by (auto simp: recover_nothing)
qed

end
