(* ===== verification/Sample.thy ===== *)
theory Sample
  imports Agreement Durable
begin

text \<open>
  A concrete instance of the keystore's parameters: a deliberately weak but correct \<open>crypto\<close>, two
  identities under it, and a store that has started on an empty directory and imported the other.
\<close>

definition sample_crypto :: crypto where
  "sample_crypto = \<lparr>cr_sha256 = (\<lambda>b. of_nat (length b)), cr_sign_vk = (\<lambda>seed. if seed = 1 then [7] else [7, 7]),
     cr_sign = (\<lambda>_ _ _. Some [1]), cr_verify = (\<lambda>_ _ _ _. True), cr_ek_ok = (\<lambda>_. True), cr_kem_ek = (\<lambda>_. [2]),
     cr_encaps = (\<lambda>_ _. (3, [4])), cr_decaps = (\<lambda>_ _. Some 3), cr_hkdf = (\<lambda>s _. s),
     cr_gcm = \<lparr>gcm_encrypt = \<lambda>_ _ _ m. Some m, gcm_decrypt = \<lambda>_ _ _ m. Some m\<rparr>\<rparr>"

lemma sample_correct: "crypto_correct sample_crypto"
  by (simp add: crypto_correct_def sample_crypto_def gcm_correct_def)

definition sample_document :: "bytes \<Rightarrow> IdentityDocument" where
  "sample_document vk = \<lparr>id_peer_id = peer_id_for sample_crypto vk, id_ek = [2], id_vk = vk, id_created_at = 1, id_signature = [1]\<rparr>"

definition sample_identity :: "256 word \<Rightarrow> LocalIdentity" where
  "sample_identity seed = \<lparr>li_document = sample_document (cr_sign_vk sample_crypto seed), li_signing_seed = seed, li_kem_seed = 0\<rparr>"

definition sample_entropy :: entropy where
  "sample_entropy = (Inr 9, Inr [])"

definition sample_empty :: keystore where
  "sample_empty = \<lparr>ks_inner = initial_inner (sample_identity 1) 0, ks_state_file = None, ks_identity_file = None\<rparr>"

abbreviation "low \<equiv> sample_document [7]"
abbreviation "high \<equiv> sample_document [7, 7]"

lemma sample_documents:
  "li_document (sample_identity 1) = low" "li_document (sample_identity 2) = high"
  "id_peer_id low < id_peer_id high"
  by (simp_all add: sample_identity_def sample_document_def sample_crypto_def peer_id_for_def peer_id_def
      PEER_ID_DOMAIN_def less_PeerId_def)

lemma sample_verify: "identity_verify sample_crypto low = Inr ()" "identity_verify sample_crypto high = Inr ()"
  by (simp_all add: identity_verify_def validate_public_key_def sample_document_def sample_crypto_def identity_ok_def short_def)

text \<open>The store of \<open>me\<close> after its first start and the import of \<open>other\<close>.\<close>

definition sample_inner :: "256 word \<Rightarrow> IdentityDocument \<Rightarrow> StoreInner" where
  "sample_inner me other = (initial_inner (sample_identity me) 0)\<lparr>si_peers := [(id_peer_id other, other)]\<rparr>"

lemmas sample_size_defs = fits_bytes persisted_def store_valid_def store_bytes_def c_store_document.counted_def c_pair.counted_def
  c_key.counted_def c_watermark.counted_def MAX_STORE_BYTES_def len_bytes_def STORE_STATE_MAGIC_def short_def identity_ok_def
  identity_wire_def var_bytes_def identity_bytes_def

lemma sample_fits: "fits (sample_inner me low)" "fits (sample_inner me high)"
  by (simp_all add: sample_size_defs sample_inner_def initial_inner_def sample_document_def)

lemma sample_identity_encodes:
  assumes "me = 1 \<or> me = 2"
  shows "\<exists>b. encode_local_identity (sample_identity me) = Inr b \<and> length b \<le> MAX_STORE_BYTES"
  using assms sample_documents
  by (auto simp: encode_local_identity_def sample_document_def identity_ok_def short_def MAX_STORE_BYTES_def
      var_bytes_def len_bytes_def identity_bytes_def LOCAL_IDENTITY_MAGIC_def)

lemma sample_running:
  assumes "me = 1 \<and> other = high \<or> me = 2 \<and> other = low"
  shows "\<exists>k. run_steps (kstep sample_crypto) (sample_empty, False) (k, True) \<and> ks_inner k = sample_inner me other"
proof -
  let ?l = "sample_identity me"
  have "\<exists>b. encode_local_identity ?l = Inr b \<and> length b \<le> MAX_STORE_BYTES"
    using assms sample_identity_encodes by blast
  then obtain b b' where o: "keystore_open sample_crypto (Inr ?l) (Inr 0) (\<lambda>_. sample_entropy) ([], sample_empty) =
      (Inr (), [], \<lparr>ks_inner = initial_inner ?l 0, ks_state_file = Some b', ks_identity_file = Some b\<rparr>)"
    using open_first_time [of ?l _ sample_crypto 0] unfolding sample_empty_def by blast
  let ?k = "\<lparr>ks_inner = initial_inner ?l 0, ks_state_file = Some b', ks_identity_file = Some b\<rparr>"
  have "(ks_inner ?k)\<lparr>si_peers := bm_insert (id_peer_id other) other (si_peers (ks_inner ?k))\<rparr> = sample_inner me other"
    by (simp add: sample_inner_def initial_inner_def)
  moreover have "id_peer_id other \<noteq> local_peer (ks_inner ?k)"
    using assms sample_documents by (auto simp: initial_inner_def)
  ultimately obtain b'' where i: "import_peer sample_crypto sample_entropy other ([], ?k) =
      (Inr (), [], ?k\<lparr>ks_inner := sample_inner me other, ks_state_file := Some b''\<rparr>)"
    using import_peer_done [of ?k sample_crypto other sample_entropy] assms sample_verify sample_fits
    by (auto simp: initial_inner_def)
  have "run_steps (kstep sample_crypto) (sample_empty, False) (?k, True)"
    by (rule run_snoc [OF run_refl]) (rule step_open [OF o])
  then have "run_steps (kstep sample_crypto) (sample_empty, False) (?k\<lparr>ks_inner := sample_inner me other, ks_state_file := Some b''\<rparr>, True)"
    by (rule run_snoc) (rule step_call [where call = "ImportPeer sample_entropy other"], use i in simp)
  then show ?thesis by fastforce
qed

section \<open>Two epochs\<close>

definition sample_wrap :: "Epoch \<Rightarrow> WrapMessage" where
  "sample_wrap e = \<lparr>wm_kem_ct = [4], wm_wrap_ct = to_be_bytes (9 :: 256 word), wm_epoch = e, wm_min_id = id_peer_id low,
     wm_max_id = id_peer_id high, wm_signature = [1]\<rparr>"

lemma sample_wrap_fields [simp]:
  "wm_kem_ct (sample_wrap e) = [4]" "length (wm_wrap_ct (sample_wrap e)) = 32" "wm_epoch (sample_wrap e) = e"
  "wm_signature (sample_wrap e) = [1]"
  by (simp_all add: sample_wrap_def)

lemma sample_wrap_ok: "wrap_ok (sample_wrap e)" "wrap_ok ((sample_wrap e)\<lparr>wm_signature := []\<rparr>)"
  using sample_documents(3) by (simp_all add: wrap_ok_def sample_wrap_def short_def)

lemma sample_wrap_message:
  "wrap_message sample_crypto sample_entropy (sample_identity 1) (id_peer_id high) [2] e = Inr (9, sample_wrap e)"
proof -
  let ?m = "\<lparr>wm_kem_ct = [4], wm_wrap_ct = to_be_bytes (9 :: 256 word), wm_epoch = e, wm_min_id = id_peer_id low,
     wm_max_id = id_peer_id high, wm_signature = []\<rparr>"
  have m: "wrap_m ?m = Inr (wrap_bytes ?m)"
    using sample_wrap_ok(2) [of e] by (simp add: sample_wrap_def)
  have mm: "min (id_peer_id low) (id_peer_id high) = id_peer_id low" "max (id_peer_id low) (id_peer_id high) = id_peer_id high"
    using sample_documents(3) by auto
  have "require_sorted_pair (id_peer_id low) (id_peer_id high) = Inr ()"
    by (simp add: sample_documents)
  with m show ?thesis
    by (simp add: wrap_message_def sample_entropy_def encapsulate_def derive_wrap_key_def wrap_hkdf_info_def wrap_aad_def
        mldsa_sign_def sample_documents mm Let_def)
      (simp add: sample_crypto_def sample_wrap_def sample_identity_def sample_documents(3) [unfolded sample_crypto_def])
qed

definition sample_first :: StoreInner where
  "sample_first = installed (id_peer_id high) (id_peer_id low) (sample_wrap (Epoch 1)) 9 (sample_inner 1 high)"

definition sample_second :: StoreInner where
  "sample_second = installed (id_peer_id high) (id_peer_id low) (sample_wrap (Epoch 2)) 9 sample_first"

lemmas sample_state_defs = sample_second_def sample_first_def installed_def sample_inner_def initial_inner_def drop_keys_def
  raise_watermark_def watermark_of_def bm_or_default_def bm_retain_def pair_key_new_def

lemma sample_created_fits: "fits sample_first" "fits sample_second"
  using sample_wrap_ok
  by (simp_all add: sample_size_defs sample_state_defs Let_def pair_valid_def pair_bytes_def key_bytes_def wrap_bytes_def less_Epoch_def
      max_def sample_document_def)

lemma sample_low: "local_peer (sample_inner 1 high) = id_peer_id low" "local_peer sample_first = id_peer_id low"
    "si_local (sample_inner 1 high) = sample_identity 1" "si_local sample_first = sample_identity 1"
  using sample_documents(1) by (simp_all add: sample_state_defs Let_def)

lemma sample_create:
  assumes "ks_inner k = sample_inner 1 high"
  shows "\<exists>s b. create_inner sample_crypto sample_entropy (id_peer_id high) [2] (Epoch 1) False ([], k) =
    (Inr (s, sample_wrap (Epoch 1)), [], k\<lparr>ks_inner := sample_first, ks_state_file := Some b\<rparr>)"
proof -
  have same: "(sample_inner 1 high)\<lparr>si_retry_epochs := bm_remove p (si_retry_epochs (sample_inner 1 high))\<rparr> = sample_inner 1 high" for p
    by (simp add: sample_inner_def initial_inner_def bm_remove_def)
  have "create_check (sample_inner 1 high) (id_peer_id high) [2] (Epoch 1) False = Inr ()"
    using sample_documents(3) sample_low
    by (simp add: create_check_Inr) (simp add: sample_state_defs sample_document_def checked_add_def)
  moreover have "checked_add (si_next_slot (sample_inner 1 high)) 1 = Some 1" "\<not> si_failed (sample_inner 1 high)"
    by (simp_all add: sample_state_defs checked_add_def)
  ultimately show ?thesis
    using create_inner_done [of k "id_peer_id high" "[2]" "Epoch 1" sample_crypto sample_entropy 9 "sample_wrap (Epoch 1)" 1]
      sample_wrap_message sample_created_fits(1) assms sample_low
    by (simp add: same sample_first_def)
qed

lemma sample_create_again:
  assumes "ks_inner k = sample_first"
  shows "\<exists>s b. create_inner sample_crypto sample_entropy (id_peer_id high) [2] (Epoch 2) False ([], k) =
    (Inr (s, sample_wrap (Epoch 2)), [], k\<lparr>ks_inner := sample_second, ks_state_file := Some b\<rparr>)"
proof -
  have same: "sample_first\<lparr>si_retry_epochs := bm_remove p (si_retry_epochs sample_first)\<rparr> = sample_first" for p
    by (simp add: sample_state_defs Let_def bm_remove_def)
  have "create_check sample_first (id_peer_id high) [2] (Epoch 2) False = Inr ()"
    using sample_documents(3) sample_low
    by (simp add: create_check_Inr) (simp add: sample_state_defs Let_def sample_document_def checked_add_def max_def less_eq_Epoch_def)
  moreover have "checked_add (si_next_slot sample_first) 1 = Some 2" "\<not> si_failed sample_first"
    by (simp_all add: sample_state_defs Let_def checked_add_def)
  ultimately show ?thesis
    using create_inner_done [of k "id_peer_id high" "[2]" "Epoch 2" sample_crypto sample_entropy 9 "sample_wrap (Epoch 2)" 2]
      sample_wrap_message sample_created_fits(2) assms sample_low
    by (simp add: same sample_second_def)
qed

text \<open>The store of the other side after accepting the first wrap.\<close>

definition sample_received :: StoreInner where
  "sample_received = installed (id_peer_id low) (id_peer_id low) (sample_wrap (Epoch 1)) 9 (sample_inner 2 low)"

lemma sample_received:
  "bm_get (si_pairs sample_received) (id_peer_id low) = Some (new_pair (id_peer_id low) (id_peer_id low) (sample_wrap (Epoch 1)))"
  "unwrap_check sample_crypto sample_received (id_peer_id low) (sample_wrap (Epoch 1)) False = Inr Reuse"
  "\<not> si_failed sample_received"
proof -
  show 1: "bm_get (si_pairs sample_received) (id_peer_id low) = Some (new_pair (id_peer_id low) (id_peer_id low) (sample_wrap (Epoch 1)))"
    and "\<not> si_failed sample_received"
    by (simp_all add: sample_received_def sample_state_defs Let_def)
  have l: "local_peer sample_received = id_peer_id high" "bm_get (si_peers sample_received) (id_peer_id low) = Some low"
    using sample_documents by (simp_all add: sample_received_def sample_state_defs Let_def)
  have "watermark_of sample_received (id_peer_id low) = Epoch 1"
    by (simp add: sample_received_def sample_state_defs Let_def max_def less_eq_Epoch_def)
  moreover have "wm_min_id (sample_wrap (Epoch 1)) = min (id_peer_id high) (id_peer_id low)"
      "wm_max_id (sample_wrap (Epoch 1)) = max (id_peer_id high) (id_peer_id low)"
    using sample_documents(3) by (auto simp: sample_wrap_def min_def max_def)
  moreover have "cr_verify sample_crypto vk ctx m sg" for vk ctx m sg
    by (simp add: sample_crypto_def)
  ultimately show "unwrap_check sample_crypto sample_received (id_peer_id low) (sample_wrap (Epoch 1)) False = Inr Reuse"
    using 1 l sample_wrap_ok(1) [of "Epoch 1"] by (simp add: unwrap_check_def wrap_verdict_def checked_add_def)
qed

text \<open>The same store after a candidate of epoch 3 was discarded.\<close>

definition sample_discarded :: keystore where
  "sample_discarded = \<lparr>ks_inner = raise_watermark (id_peer_id low) (Epoch 3) sample_received, ks_state_file = None, ks_identity_file = None\<rparr>"

lemma sample_discarded:
  fixes k defines "k \<equiv> sample_discarded"
  shows "\<not> si_failed (ks_inner k)" "bm_get (si_peers (ks_inner k)) (id_peer_id low) = Some low"
    "bm_get (si_pairs (ks_inner k)) (id_peer_id low) = Some (new_pair (id_peer_id low) (id_peer_id low) (sample_wrap (Epoch 1)))"
    "pp_epoch (new_pair (id_peer_id low) (id_peer_id low) (sample_wrap (Epoch 1))) < wm_epoch (sample_wrap (Epoch 2))"
    "wm_epoch (sample_wrap (Epoch 2)) \<le> watermark_of (ks_inner k) (id_peer_id low)"
    "epoch_raw (watermark_of (ks_inner k) (id_peer_id low)) < - 1"
    "wm_min_id (sample_wrap (Epoch 2)) = min (local_peer (ks_inner k)) (id_peer_id low)"
    "wm_max_id (sample_wrap (Epoch 2)) = max (local_peer (ks_inner k)) (id_peer_id low)"
    "wrap_m (sample_wrap (Epoch 2)) = Inr (wrap_bytes (sample_wrap (Epoch 2)))"
    "mldsa_verify sample_crypto (id_vk low) WRAP_CONTEXT (wrap_bytes (sample_wrap (Epoch 2))) (wm_signature (sample_wrap (Epoch 2))) = Inr ()"
    "open_wrap sample_crypto (si_local (ks_inner k)) (sample_wrap (Epoch 2)) = Inr 9"
    "checked_add (si_next_slot (ks_inner k)) 1 = Some 2"
    "fits (installed (id_peer_id low) (id_peer_id low) (sample_wrap (Epoch 2)) 9 (ks_inner k))"
proof -
  have l: "local_peer (ks_inner k) = id_peer_id high"
    using sample_documents by (simp add: k_def sample_discarded_def sample_received_def sample_state_defs Let_def)
  then show "wm_min_id (sample_wrap (Epoch 2)) = min (local_peer (ks_inner k)) (id_peer_id low)"
      "wm_max_id (sample_wrap (Epoch 2)) = max (local_peer (ks_inner k)) (id_peer_id low)"
    using sample_documents(3) by (auto simp: sample_wrap_def min_def max_def)
  have w: "watermark_of (ks_inner k) (id_peer_id low) = Epoch 3"
    by (simp add: k_def sample_discarded_def sample_received_def sample_state_defs Let_def max_def less_eq_Epoch_def)
  then show "wm_epoch (sample_wrap (Epoch 2)) \<le> watermark_of (ks_inner k) (id_peer_id low)"
      "epoch_raw (watermark_of (ks_inner k) (id_peer_id low)) < - 1"
    by (simp_all add: less_eq_Epoch_def)
  show "open_wrap sample_crypto (si_local (ks_inner k)) (sample_wrap (Epoch 2)) = Inr 9"
    using sample_documents(3)
    by (simp add: open_wrap_def decapsulate_def derive_wrap_key_def wrap_hkdf_info_def wrap_aad_def sample_wrap_def Let_def)
      (simp add: sample_crypto_def)
  show "mldsa_verify sample_crypto (id_vk low) WRAP_CONTEXT (wrap_bytes (sample_wrap (Epoch 2))) (wm_signature (sample_wrap (Epoch 2))) = Inr ()"
    by (simp add: mldsa_verify_def sample_crypto_def)
  show "wrap_m (sample_wrap (Epoch 2)) = Inr (wrap_bytes (sample_wrap (Epoch 2)))"
    using sample_wrap_ok by simp
  show "fits (installed (id_peer_id low) (id_peer_id low) (sample_wrap (Epoch 2)) 9 (ks_inner k))"
    using sample_wrap_ok
    by (simp add: k_def sample_discarded_def sample_received_def sample_size_defs sample_state_defs Let_def pair_valid_def pair_bytes_def
        key_bytes_def wrap_bytes_def less_Epoch_def max_def sample_document_def)
qed (simp_all add: k_def sample_discarded_def sample_received_def sample_state_defs Let_def less_Epoch_def checked_add_def)

section \<open>A tree and a directory\<close>

text \<open>A vault with one directory, \<open>a\<close>, linked below its root.\<close>

definition sample_entry :: Dirent where
  "sample_entry = \<lparr>de_parent = FileId 1, de_name = [97], de_child = FileId 2, de_is_dir = True\<rparr>"

definition sample_tree :: DirectoryTree where
  "sample_tree = (tree_new (FileId 1))\<lparr>dt_entries := bm_insert (FileId 1, [97]) sample_entry (dt_entries (tree_new (FileId 1)))\<rparr>"

lemma sample_link: "tree_link (tree_new (FileId 1)) (FileId 1) [97] (FileId 2) True = Inr sample_tree"
proof -
  have "path_len (tree_new (FileId 1)) (FileId 1) = Inr 0"
    by (simp add: path_len_def tree_new_def)
  then show ?thesis
    by (simp add: tree_link_def validate_name_def MAX_COMPONENT_BYTES_def has_drive_prefix_def is_dir_def
        MAX_PATH_BYTES_def usize_add_def usize_max_def sample_tree_def sample_entry_def)
      (simp add: tree_new_def root_dirent_def)
qed

lemma sample_tree_ok: "tree_ok sample_tree"
  by (rule tree_ok_link [OF _ sample_link]) simp

lemma sample_tree_entry: "sample_entry \<in> set (dirents sample_tree)"
  using link_dirents(1) [OF _ sample_link] by (simp add: sample_entry_def)

text \<open>An empty vault directory and the metadata of a new vault.\<close>

definition sample_dir :: dir where
  "sample_dir = \<lparr>d_admission = None, d_replica = None, d_journal = None, d_chunks = []\<rparr>"

definition sample_durable :: DurableInner where
  "sample_durable = \<lparr>di_generation = 0, di_expected_root = FileId 1, di_live_metadata = None, di_fail_next_persist = False,
     di_failed = False\<rparr>"

lemma sample_metadata_wf: "replica_wf (replica_new (FileId 1))"
  by (simp add: replica_wf_def replica_new_def root_dirent_def)

lemma sample_replica_encodes: "\<exists>bs. encode_replica h (replica_new (FileId 1)) g = Inr bs"
proof -
  have "from_dirents (FileId 1) (rm_dirents (replica_new (FileId 1))) = Inr (tree_new (FileId 1))"
    using from_dirents_listing [of "FileId 1" "[]"] by (simp add: from_dirents_def replica_new_def)
  then show ?thesis
    by (simp add: encode_replica_Inr)
      (simp add: encode_replica_Inr encode_replica_body_def encode_replica_extension_def replica_new_def
        tree_new_def root_dirent_def dirents_def encode_dirent_def push_length_def push_variable_def push_all_def push_ascending_def
        MAX_REPLICA_BYTES_def REPLICA_MAGIC_def Let_def)
qed

text \<open>A queued envelope; only its queueing time varies.\<close>

definition sample_envelope :: "u64 \<Rightarrow> MailboxEnvelope" where
  "sample_envelope t = \<lparr>me_recipient_id = PeerId 1, me_sender_id = PeerId 2, me_epoch = Epoch 1, me_seq = Seq 1,
     me_queued_at = t, me_ciphertext = [0] @ to_be_bytes (1 :: u32) @ [3]\<rparr>"

lemma sample_mailbox_wire: "\<exists>m. mailbox_wire_m [sample_envelope s] = Inr m \<and> mailbox_wire_m [sample_envelope t] = Inr m"
proof -
  have f: "decode_mailbox_frame (0 # to_be_bytes (1 :: u32) @ [3]) = Inr (MfControl [3])"
    by (subst decode_mailbox_frame_iff) (simp_all add: encode_mailbox_frame_def push_variable_def push_length_def usize_max_def)
  have "\<exists>b. encode_mailbox_envelope (sample_envelope u) = Inr b \<and> length b < 200" for u
    by (simp add: sample_envelope_def encode_mailbox_envelope_def encode_control_packet_def push_variable_def push_length_def f Let_def)
  moreover have "encode_mailbox_envelope (sample_envelope u) = encode_mailbox_envelope (sample_envelope v)" for u v
    by (simp add: sample_envelope_def encode_mailbox_envelope_def envelope_header_def)
  ultimately obtain b where "\<And>u. encode_mailbox_envelope (sample_envelope u) = Inr b" "length b < 200"
    by metis
  then show ?thesis
    by (simp add: mailbox_wire_m_def push_length_def push_variable_def)
qed

end
