(* ===== verification/Frame.thy ===== *)
theory Frame
  imports Wire
begin

text \<open>
  TCP frames, \<open>backend/src/net/frame.rs\<close>: a version byte, the length of the body as a 32-bit word, and
  the body, a kind byte with the payload, at most 1 MiB. A stream is the list of bytes still to be
  read; reading past its end is the I/O error of a closed connection.
\<close>

definition FRAME_VERSION :: byte where "FRAME_VERSION = 1"
definition MAX_FRAME_BODY_LEN :: u32 where "MAX_FRAME_BODY_LEN = 1048576"
definition MIN_FRAME_KIND :: byte where "MIN_FRAME_KIND = 1"
definition MAX_FRAME_KIND :: byte where "MAX_FRAME_KIND = 14"
definition IDENTITY_KIND :: byte where "IDENTITY_KIND = 1"
definition EPOCH_HINT_KIND :: byte where "EPOCH_HINT_KIND = 2"
definition WRAP_KIND :: byte where "WRAP_KIND = 3"
definition WRAP_ACK_KIND :: byte where "WRAP_ACK_KIND = 4"
definition DIR_LOOKUP_KIND :: byte where "DIR_LOOKUP_KIND = 5"
definition DIR_AD_KIND :: byte where "DIR_AD_KIND = 6"
definition DIR_PUT_KIND :: byte where "DIR_PUT_KIND = 7"
definition DIR_FORGET_KIND :: byte where "DIR_FORGET_KIND = 8"
definition JOIN_KIND :: byte where "JOIN_KIND = 9"
definition GCM_PACKET_KIND :: byte where "GCM_PACKET_KIND = 10"
definition GCM_CHUNK_KIND :: byte where "GCM_CHUNK_KIND = 11"
definition FLUSH_CHALLENGE_KIND :: byte where "FLUSH_CHALLENGE_KIND = 12"
definition FLUSH_SIGNATURE_KIND :: byte where "FLUSH_SIGNATURE_KIND = 13"
definition HEARTBEAT_KIND :: byte where "HEARTBEAT_KIND = 14"

lemmas frame_kinds = FRAME_VERSION_def MAX_FRAME_BODY_LEN_def MIN_FRAME_KIND_def MAX_FRAME_KIND_def IDENTITY_KIND_def
  EPOCH_HINT_KIND_def WRAP_KIND_def WRAP_ACK_KIND_def DIR_LOOKUP_KIND_def DIR_AD_KIND_def DIR_PUT_KIND_def DIR_FORGET_KIND_def
  JOIN_KIND_def GCM_PACKET_KIND_def GCM_CHUNK_KIND_def FLUSH_CHALLENGE_KIND_def FLUSH_SIGNATURE_KIND_def HEARTBEAT_KIND_def

record Frame =
  fr_kind :: byte
  fr_payload :: bytes

definition validate_kind :: "byte \<Rightarrow> unit result" where
  "validate_kind kind =
     guard_ok (MIN_FRAME_KIND \<le> kind \<and> kind \<le> MAX_FRAME_KIND) (InvalidInput ''unknown TCP frame type'')"

definition frame_new :: "byte \<Rightarrow> bytes \<Rightarrow> Frame result" where
  "frame_new kind payload =
     and_then (validate_kind kind) (\<lambda>_.
     and_then (ok_or (usize_add (length payload) 1) (InvalidInput ''TCP frame body length overflow'')) (\<lambda>body_len.
     and_then (guard_ok (\<not> body_len > unat MAX_FRAME_BODY_LEN) (InvalidInput ''TCP frame body exceeds 1 MiB'')) (\<lambda>_.
     Inr \<lparr>fr_kind = kind, fr_payload = payload\<rparr>)))"

text \<open>\<open>read_exact\<close> on the stream.\<close>

definition read_exact :: "nat \<Rightarrow> bytes \<Rightarrow> (bytes \<times> bytes) result" where
  "read_exact n stream = (if length stream < n then Inl Io else Inr (take n stream, drop n stream))"

definition read_frame :: "bytes \<Rightarrow> (Frame \<times> bytes) result" where
  "read_frame stream =
     and_then (read_exact 1 stream) (\<lambda>(version, stream).
     and_then (guard_ok (version = [FRAME_VERSION]) (InvalidInput ''unsupported TCP frame version'')) (\<lambda>_.
     and_then (read_exact 4 stream) (\<lambda>(len, stream).
     let body_len = (from_be_bytes len :: u32) in
     and_then (guard_ok (body_len \<noteq> 0) (InvalidInput ''TCP frame body omits type'')) (\<lambda>_.
     and_then (guard_ok (\<not> body_len > MAX_FRAME_BODY_LEN) (InvalidInput ''TCP frame body exceeds 1 MiB'')) (\<lambda>_.
     and_then (read_exact (unat body_len) stream) (\<lambda>(body, stream).
     and_then (validate_kind (hd body)) (\<lambda>_.
     Inr (\<lparr>fr_kind = hd body, fr_payload = tl body\<rparr>, stream))))))))"

definition write_frame :: "Frame \<Rightarrow> bytes result" where
  "write_frame f =
     and_then (validate_kind (fr_kind f)) (\<lambda>_.
     and_then (ok_or (usize_add (length (fr_payload f)) 1) (InvalidInput ''TCP frame body length overflow'')) (\<lambda>body_len.
     and_then (guard_ok (body_len < 2 ^ 32) (InvalidInput ''TCP frame body exceeds u32 encoding limit'')) (\<lambda>_.
     let body_len = (of_nat body_len :: u32) in
     and_then (guard_ok (\<not> body_len > MAX_FRAME_BODY_LEN) (InvalidInput ''TCP frame body exceeds 1 MiB'')) (\<lambda>_.
     Inr (FRAME_VERSION # to_be_bytes body_len @ fr_kind f # fr_payload f)))))"

definition frame_ok :: "Frame \<Rightarrow> bool" where
  "frame_ok f \<longleftrightarrow> validate_kind (fr_kind f) = Inr () \<and> length (fr_payload f) < 1048576"

lemma frame_new_Inr: "frame_new k p = Inr f \<longleftrightarrow> frame_ok f \<and> f = \<lparr>fr_kind = k, fr_payload = p\<rparr>"
  by (auto simp: frame_new_def frame_ok_def frame_kinds usize_max_def)

lemma u32_len: "n < 1048576 \<Longrightarrow> unat (of_nat (Suc n) :: u32) = Suc n"
  by (simp add: unat_of_nat take_bit_nat_eq_self_iff del: of_nat_Suc)

lemma body_len_ok: "n < 1048576 \<Longrightarrow> (of_nat (Suc n) :: u32) \<noteq> 0 \<and> \<not> (of_nat (Suc n) :: u32) > MAX_FRAME_BODY_LEN"
  using u32_len [of n] by (auto simp: MAX_FRAME_BODY_LEN_def word_less_nat_alt word_le_nat_alt simp flip: unat_eq_0)

lemma body_len_le: "n < 2 ^ 32 \<Longrightarrow> (of_nat n :: u32) > MAX_FRAME_BODY_LEN \<longleftrightarrow> n > 1048576"
  by (simp add: MAX_FRAME_BODY_LEN_def word_less_nat_alt unat_of_nat take_bit_nat_eq_self_iff)

lemma write_frame_Inr:
  "write_frame f = Inr b \<longleftrightarrow> frame_ok f \<and>
    b = FRAME_VERSION # to_be_bytes (of_nat (Suc (length (fr_payload f))) :: u32) @ fr_kind f # fr_payload f"
proof -
  have "Suc (length (fr_payload f)) \<le> usize_max \<and> Suc (length (fr_payload f)) < 2 ^ 32 \<and>
      \<not> (of_nat (Suc (length (fr_payload f))) :: u32) > MAX_FRAME_BODY_LEN \<longleftrightarrow> length (fr_payload f) < 1048576"
    using body_len_le [of "Suc (length (fr_payload f))"] by (auto simp: usize_max_def simp del: of_nat_Suc)
  then show ?thesis
    by (auto simp: write_frame_def frame_ok_def Let_def simp del: of_nat_Suc)
qed

lemma read_write_frame:
  assumes "write_frame f = Inr b"
  shows "read_frame (b @ rest) = Inr (f, rest)"
proof -
  let ?n = "length (fr_payload f)"
  have f: "frame_ok f" "b = FRAME_VERSION # to_be_bytes (of_nat (Suc ?n) :: u32) @ fr_kind f # fr_payload f"
    using assms by (auto simp: write_frame_Inr)
  then have n: "?n < 1048576" by (simp add: frame_ok_def)
  show ?thesis
    using f(1) u32_len [OF n] body_len_ok [OF n]
    by (simp add: f(2) read_frame_def read_exact_def frame_ok_def Let_def take_exact del: of_nat_Suc)
qed

lemma read_frame_inv:
  assumes "read_frame s = Inr (f, rest)"
  shows "\<exists>b. write_frame f = Inr b \<and> s = b @ rest"
proof -
  obtain len body where s: "s = FRAME_VERSION # len @ body @ rest" and len: "length len = 4"
      and body: "length body = unat (from_be_bytes len :: u32)" "(from_be_bytes len :: u32) \<noteq> 0"
        "\<not> (from_be_bytes len :: u32) > MAX_FRAME_BODY_LEN"
      and f: "validate_kind (hd body) = Inr ()" "f = \<lparr>fr_kind = hd body, fr_payload = tl body\<rparr>"
  proof -
    let ?len = "take 4 (tl s)"
    let ?n = "unat (from_be_bytes ?len :: u32)"
    obtain t where t: "s = FRAME_VERSION # t" "4 \<le> length t" "?n \<le> length (drop 4 t)" "rest = drop ?n (drop 4 t)"
        "(from_be_bytes ?len :: u32) \<noteq> 0" "\<not> (from_be_bytes ?len :: u32) > MAX_FRAME_BODY_LEN"
        "validate_kind (hd (take ?n (drop 4 t))) = Inr ()"
        "f = \<lparr>fr_kind = hd (take ?n (drop 4 t)), fr_payload = tl (take ?n (drop 4 t))\<rparr>"
      using assms by (cases s) (auto simp: read_frame_def read_exact_def Let_def not_less split: if_splits)
    show ?thesis
    proof (rule that [of ?len "take ?n (drop 4 t)"])
      show "s = FRAME_VERSION # ?len @ take ?n (drop 4 t) @ rest"
        using t(1,4) by (metis append_take_drop_id list.sel(3))
    qed (use t in \<open>auto simp: min_def\<close>)
  qed
  have "body \<noteq> []" using body(1,2) by (auto simp: unat_eq_0)
  then have n: "Suc (length (tl body)) = unat (from_be_bytes len :: u32)" "hd body # tl body = body"
    using body(1) by (cases body; simp)+
  have "frame_ok f"
    using f body n by (auto simp: frame_ok_def MAX_FRAME_BODY_LEN_def word_less_nat_alt)
  moreover have "to_be_bytes (of_nat (Suc (length (tl body))) :: u32) = len"
    unfolding n(1) using len by simp
  ultimately show ?thesis
    using s f n by (auto simp: write_frame_Inr simp del: of_nat_Suc)
qed

end
