(* ===== verification/Locate.thy ===== *)
theory Locate
  imports Frame Keystore_Steps Durable
begin

text \<open>
  Packets on a pair session and the location of chunks: \<open>seal_packet\<close> and \<open>open_packet\<close> of
  \<open>backend/src/net/session.rs\<close>, \<open>backend/src/sync/locate.rs\<close> (the \<open>Locator\<close>) and the exchange of
  \<open>backend/src/net/locate.rs\<close>. What another node answers is an input: \<open>ask\<close> is an operation of the
  caller, and a query sent over a stream meets a received frame or none.
\<close>

section \<open>Identity of the store\<close>

definition store_peer_id :: "PeerId kop" where
  "store_peer_id = k_bind store_lock (\<lambda>inner. k_ret (Inr (local_peer inner)))"

definition store_identity :: "IdentityDocument kop" where
  "store_identity = k_bind store_lock (\<lambda>inner. k_ret (Inr (li_document (si_local inner))))"

definition store_next_outbound_seq :: "PairKeyHandle \<Rightarrow> PayloadType \<Rightarrow> Seq kop" where
  "store_next_outbound_seq handle payload_type =
     with_pair_state handle (\<lambda>st. (next_outbound_seq st payload_type, st))"

section \<open>Control packets\<close>

definition seal_packet_with_session :: "crypto \<Rightarrow> PairSession \<Rightarrow> bytes \<Rightarrow> ControlPacket kop" where
  "seal_packet_with_session c session plaintext =
     k_bind store_peer_id (\<lambda>sender_id.
     k_bind (store_next_outbound_seq (ses_key_handle session) Packet) (\<lambda>seq.
     let header = \<lparr>hdr_version = PROTOCOL_VERSION, hdr_sender_id = sender_id, hdr_receiver_id = ses_peer_id session,
           hdr_epoch = ses_epoch session, hdr_seq = seq\<rparr> in
     k_bind (store_seal c (ses_key_handle session) (nonce header Packet) (packet_aad header) plaintext) (\<lambda>ciphertext.
     k_ret (Inr \<lparr>cp_header = header, cp_ciphertext = ciphertext\<rparr>))))"

definition seal_packet :: "crypto \<Rightarrow> PeerId \<Rightarrow> bytes \<Rightarrow> ControlPacket kop" where
  "seal_packet c pid plaintext =
     k_bind (current_session pid) (\<lambda>session. seal_packet_with_session c session plaintext)"

definition open_packet_with_session :: "crypto \<Rightarrow> PairSession \<Rightarrow> ControlPacket \<Rightarrow> bytes kop" where
  "open_packet_with_session c session packet =
     store_open c (ses_key_handle session) (nonce (cp_header packet) Packet) (packet_aad (cp_header packet)) (cp_ciphertext packet)"

definition open_packet :: "crypto \<Rightarrow> PeerId \<Rightarrow> ControlPacket \<Rightarrow> bytes kop" where
  "open_packet c pid packet =
     k_bind (current_session pid) (\<lambda>session. open_packet_with_session c session packet)"

definition require_header :: "PeerId \<Rightarrow> PacketHeader \<Rightarrow> unit kop" where
  "require_header peer header =
     (if hdr_version header \<noteq> PROTOCOL_VERSION \<or> hdr_sender_id header \<noteq> peer then k_ret (Inl AuthenticationFailed)
      else
        k_bind store_peer_id (\<lambda>me.
        if hdr_receiver_id header \<noteq> me then k_ret (Inl AuthenticationFailed)
        else
          k_bind (current_session peer) (\<lambda>session.
          k_ret (guard_ok (hdr_epoch header = ses_epoch session) AuthenticationFailed))))"

section \<open>The locator\<close>

record Locator =
  lo_members :: "PeerId btree_set"
  lo_host_id :: PeerId

definition locator_new :: "PeerId btree_set \<Rightarrow> PeerId \<Rightarrow> Locator kop" where
  "locator_new members host_id =
     k_bind store_peer_id (\<lambda>me.
     k_ret (and_then (guard_ok (\<not> (me \<notin> set members \<or> host_id \<notin> set members))
       (InvalidInput ''locator identities must be vault members'')) (\<lambda>_.
     Inr \<lparr>lo_members = members, lo_host_id = host_id\<rparr>)))"

text \<open>The result of an operation that only reads the store.\<close>

definition k_peek :: "'a kop \<Rightarrow> keystore \<Rightarrow> 'a result" where
  "k_peek p k = fst (p ([], k))"

definition session_is_live :: "Locator \<Rightarrow> keystore \<Rightarrow> PeerId \<Rightarrow> bool" where
  "session_is_live loc k pid \<longleftrightarrow>
     pid \<in> set (lo_members loc) \<and>
     (case k_peek store_peer_id k of Inl _ \<Rightarrow> False | Inr me \<Rightarrow> me \<noteq> pid) \<and>
     is_ok (k_peek (current_session pid) k) \<and> is_ok (k_peek (require_live_traffic pid) k)"

definition live_member_candidates :: "Locator \<Rightarrow> keystore \<Rightarrow> PeerId list" where
  "live_member_candidates loc k =
     filter (\<lambda>peer. peer \<noteq> lo_host_id loc \<and> session_is_live loc k peer) (lo_members loc)"

definition usable_reply :: "HaveQuery \<Rightarrow> HaveReply \<Rightarrow> bool" where
  "usable_reply query reply \<longleftrightarrow>
     is_ok (have_reply_validate reply query) \<and> list_ex (have_reply_has reply) [0..<length (hq_chunk_ids query)]"

fun ask_each :: "Locator \<Rightarrow> HaveQuery \<Rightarrow> (PeerId \<Rightarrow> HaveQuery \<Rightarrow> HaveReply kop) \<Rightarrow> PeerId list \<Rightarrow> PeerId list kop" where
  "ask_each loc query ask [] s = (Inr [], s)"
| "ask_each loc query ask (pid # pids) s = (case ask pid query s of
       (Inl _, s') \<Rightarrow> ask_each loc query ask pids s'
     | (Inr reply, s') \<Rightarrow>
         (case ask_each loc query ask pids s' of
            (r, s'') \<Rightarrow> (and_then r (\<lambda>holders.
              Inr (if session_is_live loc (snd s') pid \<and> usable_reply query reply then pid # holders else holders)), s'')))"

definition holders :: "Locator \<Rightarrow> HaveQuery \<Rightarrow> (PeerId \<Rightarrow> HaveQuery \<Rightarrow> HaveReply kop) \<Rightarrow> PeerId list kop" where
  "holders loc query ask s =
     (if session_is_live loc (snd s) (lo_host_id loc) then (Inr [lo_host_id loc], s)
      else ask_each loc query ask (live_member_candidates loc (snd s)) s)"

text \<open>
  \<open>holders_async\<close>: the queries run at once; \<open>arrivals\<close> lists the answers that came before the
  deadline, in their order, each with the store as it was then.
\<close>

definition holders_async ::
  "Locator \<Rightarrow> HaveQuery \<Rightarrow> keystore \<Rightarrow> (PeerId \<times> HaveReply result \<times> keystore) list \<Rightarrow> PeerId list" where
  "holders_async loc query k arrivals =
     (if session_is_live loc k (lo_host_id loc) then [lo_host_id loc]
      else sorted_list_of_set (set (concat (map (\<lambda>(pid, result, k').
        case result of
          Inl _ \<Rightarrow> []
        | Inr reply \<Rightarrow> if session_is_live loc k' pid \<and> usable_reply query reply then [pid] else [])
        (filter (\<lambda>(pid, _). pid \<in> set (live_member_candidates loc k)) arrivals)))))"

section \<open>Answering\<close>

definition answer_have :: "MemoryChunkStore \<Rightarrow> HaveQuery \<Rightarrow> HaveReply result" where
  "answer_have chunks query = have_reply_new query (have_bitset chunks (hq_chunk_ids query))"

text \<open>
  The two ends of the exchange: the frame written, and what is done with the frame received for it.
  Timeouts and broken connections end the exchange with an error before the second part runs.
\<close>

definition packet_frame :: "ControlPacket \<Rightarrow> Frame result" where
  "packet_frame packet = and_then (encode_control_packet packet) (frame_new GCM_PACKET_KIND)"

definition seal_have_query :: "crypto \<Rightarrow> PeerId \<Rightarrow> HaveQuery \<Rightarrow> Frame kop" where
  "seal_have_query c peer query =
     k_bind (require_live_traffic peer) (\<lambda>_.
     k_bind (k_ret (encode_have_query query)) (\<lambda>plaintext.
     k_bind (seal_packet c peer plaintext) (\<lambda>packet.
     k_ret (packet_frame packet))))"

definition open_have_reply :: "crypto \<Rightarrow> PeerId \<Rightarrow> HaveQuery \<Rightarrow> Frame \<Rightarrow> HaveReply kop" where
  "open_have_reply c peer query received =
     k_bind (require_live_traffic peer) (\<lambda>_.
     k_bind (k_ret (guard_ok (fr_kind received = GCM_PACKET_KIND) (State ''expected encrypted have reply''))) (\<lambda>_.
     k_bind (k_ret (decode_control_packet (fr_payload received))) (\<lambda>packet.
     k_bind (require_header peer (cp_header packet)) (\<lambda>_.
     k_bind (open_packet c peer packet) (\<lambda>plaintext.
     k_bind (k_ret (decode_have_reply plaintext)) (\<lambda>reply.
     k_bind (k_ret (have_reply_validate reply query)) (\<lambda>_.
     k_ret (Inr reply))))))))"

definition serve_have :: "crypto \<Rightarrow> PeerId \<Rightarrow> MemoryChunkStore \<Rightarrow> Frame \<Rightarrow> Frame kop" where
  "serve_have c peer chunks received =
     k_bind (require_live_traffic peer) (\<lambda>_.
     k_bind (k_ret (guard_ok (fr_kind received = GCM_PACKET_KIND) (State ''expected encrypted have query''))) (\<lambda>_.
     k_bind (k_ret (decode_control_packet (fr_payload received))) (\<lambda>packet.
     k_bind (require_header peer (cp_header packet)) (\<lambda>_.
     k_bind (open_packet c peer packet) (\<lambda>plaintext.
     k_bind (k_ret (decode_have_query plaintext)) (\<lambda>query.
     k_bind (k_ret (answer_have chunks query)) (\<lambda>reply.
     k_bind (k_ret (encode_have_reply reply)) (\<lambda>answer.
     k_bind (seal_packet c peer answer) (\<lambda>packet.
     k_ret (packet_frame packet))))))))))"

section \<open>What the answers mean\<close>

lemma have_reply_has_bit:
  "have_reply_has reply k \<longleftrightarrow> k < length (hr_chunk_ids reply) \<and> k div 8 < length (hr_have_bitset reply) \<and>
    bit (hr_have_bitset reply ! (k div 8)) (k mod 8)"
proof -
  have "(w AND push_bit n 1 \<noteq> 0) = bit w n" for w :: byte and n
    using and_exp_eq_0_iff_not_bit [of w n] by (simp add: push_bit_of_1)
  then show ?thesis by (auto simp: have_reply_has_def)
qed

lemma answer_have_spec:
  assumes "answer_have chunks query = Inr reply"
  shows "have_reply_validate reply query = Inr ()"
    and "have_reply_has reply k \<longleftrightarrow> k < length (hq_chunk_ids query) \<and> chunk_has chunks (hq_chunk_ids query ! k)"
proof -
  have r: "reply = \<lparr>hr_file_id = hq_file_id query, hr_chunk_ids = hq_chunk_ids query,
      hr_have_bitset = have_bitset chunks (hq_chunk_ids query)\<rparr>" and v: "have_reply_validate reply query = Inr ()"
    using assms by (auto simp: answer_have_def have_reply_new_def Let_def)
  show "have_reply_validate reply query = Inr ()" by (rule v)
  have "k div 8 < div_ceil n 8" if "k < n" for n
    using that by (simp add: div_ceil_def)
  then show "have_reply_has reply k \<longleftrightarrow> k < length (hq_chunk_ids query) \<and> chunk_has chunks (hq_chunk_ids query ! k)"
    by (auto simp: have_reply_has_bit r have_bitset_bit)
qed

lemma answer_have_total: "1 \<le> length (hq_chunk_ids query) \<Longrightarrow> length (hq_chunk_ids query) \<le> 32 \<Longrightarrow> \<exists>r. answer_have chunks query = Inr r"
  by (simp add: answer_have_def have_reply_new_def have_reply_validate_def Let_def)

lemma usable_reply_spec:
  "usable_reply query reply \<longleftrightarrow> have_reply_validate reply query = Inr () \<and>
    (\<exists>k < length (hq_chunk_ids query). have_reply_has reply k)"
  by (auto simp: usable_reply_def list_ex_iff is_ok_iff)

lemma ask_each_sound:
  "ask_each loc query ask pids s = (Inr hs, s') \<Longrightarrow> set hs \<subseteq> set pids \<and>
    (\<forall>h \<in> set hs. \<exists>t t' reply. ask h query t = (Inr reply, t') \<and> session_is_live loc (snd t') h \<and> usable_reply query reply)"
proof (induction pids arbitrary: s hs)
  case (Cons p ps)
  obtain r t where a: "ask p query s = (r, t)" by (cases "ask p query s")
  show ?case
  proof (cases r)
    case (Inl e)
    with Cons a show ?thesis by fastforce
  next
    case (Inr reply)
    let ?ok = "session_is_live loc (snd t) p \<and> usable_reply query reply"
    obtain hs' where hs': "ask_each loc query ask ps t = (Inr hs', s')" "hs = (if ?ok then p # hs' else hs')"
      using Cons.prems a Inr by (auto split: prod.splits)
    have "\<exists>t t' reply. ask p query t = (Inr reply, t') \<and> session_is_live loc (snd t') p \<and> usable_reply query reply" if ?ok
      using that a Inr by blast
    with Cons.IH [OF hs'(1)] hs'(2) show ?thesis by (cases ?ok) (simp, blast, simp, blast)
  qed
qed simp

end
