(* ===== verification/Node.thy ===== *)
theory Node
  imports Locate Agreement
begin

text \<open>
  Operations of a node that uses its keystore and its vault directory together. The world holds the
  keystore, the directory and the outcomes of the coming writes of each; an operation also carries a
  state of its own (the host service, a member replica, a chunk store), which keeps its changes when the
  operation ends with an error, as a Rust method on \<open>&mut self\<close> does, and is lost in a crash.
\<close>

record world =
  wd_key_outcomes :: "outcome list"
  wd_keys :: keystore
  wd_outcomes :: "outcome list"
  wd_dir :: dir

type_synonym ('h, 'a) hop = "'h \<times> world \<Rightarrow> 'a run \<times> 'h \<times> world"

definition h_ret :: "'a result \<Rightarrow> ('h, 'a) hop" where
  "h_ret x s = (Ret x, s)"

definition h_bind :: "('h, 'a) hop \<Rightarrow> ('a \<Rightarrow> ('h, 'b) hop) \<Rightarrow> ('h, 'b) hop" where
  "h_bind p f s = (case p s of
       (Ret (Inr x), s') \<Rightarrow> f x s'
     | (Ret (Inl e), s') \<Rightarrow> (Ret (Inl e), s')
     | (Crashed, s') \<Rightarrow> (Crashed, s'))"

definition h_get :: "('h, 'h) hop" where
  "h_get s = (Ret (Inr (fst s)), s)"

definition h_modify :: "('h \<Rightarrow> 'h) \<Rightarrow> ('h, unit) hop" where
  "h_modify f s = (Ret (Inr ()), f (fst s), snd s)"

definition h_key :: "'a kop \<Rightarrow> ('h, 'a) hop" where
  "h_key p s = (case s of (h, w) \<Rightarrow>
     (case p (wd_key_outcomes w, wd_keys w) of
        (r, os, k) \<Rightarrow> (Ret r, h, w\<lparr>wd_key_outcomes := os, wd_keys := k\<rparr>)))"

definition h_io :: "'a io \<Rightarrow> ('h, 'a) hop" where
  "h_io p s = (case s of (h, w) \<Rightarrow>
     (case p (wd_outcomes w, wd_dir w) of
        (r, os, d) \<Rightarrow> (r, h, w\<lparr>wd_outcomes := os, wd_dir := d\<rparr>)))"

text \<open>An error handed to the caller as a value, and an operation on a state of its own.\<close>

definition h_try :: "('h, 'a) hop \<Rightarrow> ('h, 'a result) hop" where
  "h_try p s = (case p s of (Ret r, s') \<Rightarrow> (Ret (Inr r), s') | (Crashed, s') \<Rightarrow> (Crashed, s'))"

definition h_local :: "'l \<Rightarrow> ('l, 'a) hop \<Rightarrow> ('h, 'a result \<times> 'l) hop" where
  "h_local l p s = (case p (l, snd s) of
       (Ret r, l', w) \<Rightarrow> (Ret (Inr (r, l')), fst s, w)
     | (Crashed, l', w) \<Rightarrow> (Crashed, fst s, w))"

fun h_iter :: "('x \<Rightarrow> ('h, unit) hop) \<Rightarrow> 'x list \<Rightarrow> ('h, unit) hop" where
  "h_iter f [] = h_ret (Inr ())"
| "h_iter f (x # xs) = h_bind (f x) (\<lambda>_. h_iter f xs)"

fun h_map :: "('x \<Rightarrow> ('h, 'y) hop) \<Rightarrow> 'x list \<Rightarrow> ('h, 'y list) hop" where
  "h_map f [] = h_ret (Inr [])"
| "h_map f (x # xs) = h_bind (f x) (\<lambda>y. h_bind (h_map f xs) (\<lambda>ys. h_ret (Inr (y # ys))))"

abbreviation h_guard :: "bool \<Rightarrow> error \<Rightarrow> ('h, unit) hop" where
  "h_guard b e \<equiv> h_ret (guard_ok b e)"

text \<open>Something to do when an operation fails, before its error is returned.\<close>

definition h_or :: "('h, unit) hop \<Rightarrow> ('h, unit) hop \<Rightarrow> ('h, unit) hop" where
  "h_or p handler =
     h_bind (h_try p) (\<lambda>r.
     case r of
       Inl e \<Rightarrow> h_bind handler (\<lambda>_. h_ret (Inl e))
     | Inr _ \<Rightarrow> h_ret (Inr ()))"

text \<open>
  An operation on a clone of the chunk store. The clone shares the durable store with the original, which
  sees its generation and failure flag whatever becomes of the clone.
\<close>

definition share_durable :: "MemoryChunkStore \<Rightarrow> MemoryChunkStore \<Rightarrow> MemoryChunkStore" where
  "share_durable clone store = store\<lparr>mc_durable := mc_durable clone\<rparr>"

definition on_clone ::
  "((MemoryChunkStore \<Rightarrow> MemoryChunkStore) \<Rightarrow> 'h \<Rightarrow> 'h) \<Rightarrow> (MemoryChunkStore \<times> 'a result) io \<Rightarrow>
    ('h, MemoryChunkStore \<times> 'a) hop" where
  "on_clone upd op =
     h_bind (h_io op) (\<lambda>(clone, r).
     h_bind (h_modify (upd (share_durable clone))) (\<lambda>_.
     h_ret (and_then r (\<lambda>x. Inr (clone, x)))))"

section \<open>Reasoning\<close>

lemma h_simps:
  "h_ret r s = (Ret (Inr x), s') \<longleftrightarrow> r = Inr x \<and> s' = s"
  "h_get s = (Ret (Inr h), s') \<longleftrightarrow> h = fst s \<and> s' = s"
  "h_modify f s = (Ret (Inr u), s') \<longleftrightarrow> s' = (f (fst s), snd s)"
  by (auto simp: h_ret_def h_get_def h_modify_def)

lemma h_key_Inr:
  "h_key p (h, w) = (Ret (Inr x), h', w') \<longleftrightarrow> h' = h \<and> (\<exists>os k. p (wd_key_outcomes w, wd_keys w) = (Inr x, os, k) \<and>
    w' = w\<lparr>wd_key_outcomes := os, wd_keys := k\<rparr>)"
  by (auto simp: h_key_def split: prod.splits)

lemma h_io_Inr:
  "h_io p (h, w) = (Ret (Inr x), h', w') \<longleftrightarrow> h' = h \<and> (\<exists>os d. p (wd_outcomes w, wd_dir w) = (Ret (Inr x), os, d) \<and>
    w' = w\<lparr>wd_outcomes := os, wd_dir := d\<rparr>)"
  by (auto simp: h_io_def split: prod.splits)

lemma h_try_key: "h_try (h_key p) (h, w) = (Ret (Inr r), s) \<Longrightarrow> fst s = h"
  by (auto simp: h_try_def h_key_def split: prod.splits)

lemma on_clone_Inr:
  "on_clone upd p (h, w) = (Ret (Inr (clone, x)), h', w') \<longleftrightarrow> h' = upd (share_durable clone) h \<and>
    (\<exists>os d. p (wd_outcomes w, wd_dir w) = (Ret (Inr (clone, Inr x)), os, d) \<and> w' = w\<lparr>wd_outcomes := os, wd_dir := d\<rparr>)"
proof -
  obtain r os d where "p (wd_outcomes w, wd_dir w) = (r, os, d)" by (metis prod_cases3)
  then show ?thesis
    by (cases r) (auto simp: on_clone_def h_bind_def h_io_def h_modify_def h_ret_def split: sum.splits prod.splits)
qed

lemma share_durable_simps [simp]:
  "mc_chunks (share_durable clone store) = mc_chunks store"
  "mc_metadata (share_durable clone store) = mc_metadata store"
  by (simp_all add: share_durable_def)

text \<open>
  \<open>hold I p Q\<close>: from a state with \<open>I\<close>, an operation that returns leaves \<open>I\<close>, and \<open>Q\<close> if it succeeds.
\<close>

definition hold :: "('h \<times> world \<Rightarrow> bool) \<Rightarrow> ('h, 'a) hop \<Rightarrow> ('a \<Rightarrow> 'h \<times> world \<Rightarrow> bool) \<Rightarrow> ('h \<times> world \<Rightarrow> bool) \<Rightarrow> bool" where
  "hold P p Q E \<longleftrightarrow> (\<forall>s. P s \<longrightarrow> (case p s of
       (Ret (Inr x), s') \<Rightarrow> Q x s'
     | (Ret (Inl _), s') \<Rightarrow> E s'
     | (Crashed, _) \<Rightarrow> True))"

lemma holdI:
  assumes "\<And>s x s'. P s \<Longrightarrow> p s = (Ret (Inr x), s') \<Longrightarrow> Q x s'" and "\<And>s e s'. P s \<Longrightarrow> p s = (Ret (Inl e), s') \<Longrightarrow> E s'"
  shows "hold P p Q E"
  using assms unfolding hold_def by (auto split: run.splits sum.splits)

lemma hold_Inr: "hold P p Q E \<Longrightarrow> P s \<Longrightarrow> p s = (Ret (Inr x), s') \<Longrightarrow> Q x s'"
  unfolding hold_def by fastforce

lemma hold_Inl: "hold P p Q E \<Longrightarrow> P s \<Longrightarrow> p s = (Ret (Inl e), s') \<Longrightarrow> E s'"
  unfolding hold_def by fastforce

lemma hold_ret: "(\<And>s x. P s \<Longrightarrow> r = Inr x \<Longrightarrow> Q x s) \<Longrightarrow> (\<And>s e. P s \<Longrightarrow> r = Inl e \<Longrightarrow> E s) \<Longrightarrow> hold P (h_ret r) Q E"
  by (auto simp: hold_def h_ret_def split: sum.splits)

lemma h_bind_Inr:
  "h_bind p f s = (Ret (Inr y), s') \<longleftrightarrow> (\<exists>x s1. p s = (Ret (Inr x), s1) \<and> f x s1 = (Ret (Inr y), s'))"
  by (auto simp: h_bind_def split: run.splits sum.splits prod.splits)

lemma h_bind_Inl:
  "h_bind p f s = (Ret (Inl e), s') \<longleftrightarrow>
    p s = (Ret (Inl e), s') \<or> (\<exists>x s1. p s = (Ret (Inr x), s1) \<and> f x s1 = (Ret (Inl e), s'))"
  by (auto simp: h_bind_def split: run.splits sum.splits prod.splits)

lemma hold_bind:
  assumes "hold P p R E" and "\<And>x. hold (R x) (f x) Q E"
  shows "hold P (h_bind p f) Q E"
proof (rule holdI)
  fix s y s' assume "P s" "h_bind p f s = (Ret (Inr y), s')"
  then obtain x s1 where "p s = (Ret (Inr x), s1)" "f x s1 = (Ret (Inr y), s')" unfolding h_bind_Inr by blast
  with \<open>P s\<close> show "Q y s'" using hold_Inr [OF assms(1)] hold_Inr [OF assms(2)] by blast
next
  fix s e s' assume "P s" "h_bind p f s = (Ret (Inl e), s')"
  then show "E s'" unfolding h_bind_Inl using hold_Inl [OF assms(1)] hold_Inr [OF assms(1)] hold_Inl [OF assms(2)] by blast
qed

lemma hold_weaken:
  assumes "hold P p Q E" and "\<And>s. P' s \<Longrightarrow> P s" and "\<And>x s. Q x s \<Longrightarrow> Q' x s" and "\<And>s. E s \<Longrightarrow> E' s"
  shows "hold P' p Q' E'"
  by (rule holdI) (use assms hold_Inr [OF assms(1)] hold_Inl [OF assms(1)] in blast)+

lemma hold_try: "hold P p Q E \<Longrightarrow> hold P (h_try p) (\<lambda>r s. case r of Inl _ \<Rightarrow> E s | Inr x \<Rightarrow> Q x s) F"
  unfolding hold_def h_try_def by (fastforce split: run.splits sum.splits prod.splits)

lemma hold_iter:
  assumes "\<And>x. x \<in> set xs \<Longrightarrow> hold P (f x) (\<lambda>_. P) E"
  shows "hold P (h_iter f xs) (\<lambda>_. P) E"
  using assms by (induction xs) (auto intro!: hold_ret hold_bind)

text \<open>Keystore calls and file operations do not touch the node's own state.\<close>

lemma hold_own:
  shows "hold (\<lambda>s. P (fst s)) (h_key p) (\<lambda>_ s. P (fst s)) (\<lambda>s. P (fst s))"
    and "hold (\<lambda>s. P (fst s)) (h_io q) (\<lambda>_ s. P (fst s)) (\<lambda>s. P (fst s))"
  by (auto simp: hold_def h_key_def h_io_def split: run.splits sum.splits prod.splits)

section \<open>Conditions on the node's own state\<close>

definition keeps :: "('h \<Rightarrow> bool) \<Rightarrow> ('h, 'a) hop \<Rightarrow> ('a \<Rightarrow> 'h \<Rightarrow> bool) \<Rightarrow> ('h \<Rightarrow> bool) \<Rightarrow> bool" where
  "keeps P p Q E \<longleftrightarrow> hold (\<lambda>s. P (fst s)) p (\<lambda>x s. Q x (fst s)) (\<lambda>s. E (fst s))"

lemma keepsI:
  assumes "\<And>h w x h' w'. P h \<Longrightarrow> p (h, w) = (Ret (Inr x), h', w') \<Longrightarrow> Q x h'"
    and "\<And>h w e h' w'. P h \<Longrightarrow> p (h, w) = (Ret (Inl e), h', w') \<Longrightarrow> E h'"
  shows "keeps P p Q E"
  unfolding keeps_def
proof (rule holdI)
  fix s x s' assume "P (fst s)" "p s = (Ret (Inr x), s')"
  then show "Q x (fst s')" using assms(1) [of "fst s" "snd s" x "fst s'" "snd s'"] by simp
next
  fix s e s' assume "P (fst s)" "p s = (Ret (Inl e), s')"
  then show "E (fst s')" using assms(2) [of "fst s" "snd s" e "fst s'" "snd s'"] by simp
qed

lemma keeps_Inr: "keeps P p Q E \<Longrightarrow> P h \<Longrightarrow> p (h, w) = (Ret (Inr x), h', w') \<Longrightarrow> Q x h'"
  unfolding keeps_def by (drule hold_Inr) auto

lemma keeps_Inl: "keeps P p Q E \<Longrightarrow> P h \<Longrightarrow> p (h, w) = (Ret (Inl e), h', w') \<Longrightarrow> E h'"
  unfolding keeps_def by (drule hold_Inl) auto

lemma keeps_ret:
  "(\<And>h x. P h \<Longrightarrow> r = Inr x \<Longrightarrow> Q x h) \<Longrightarrow> (\<And>h e. P h \<Longrightarrow> r = Inl e \<Longrightarrow> E h) \<Longrightarrow> keeps P (h_ret r) Q E"
  unfolding keeps_def by (rule hold_ret) auto

lemma keeps_bind: "keeps P p R E \<Longrightarrow> (\<And>x. keeps (R x) (f x) Q E) \<Longrightarrow> keeps P (h_bind p f) Q E"
  unfolding keeps_def by (rule hold_bind)

lemma keeps_weaken:
  "keeps P p Q E \<Longrightarrow> (\<And>h. P' h \<Longrightarrow> P h) \<Longrightarrow> (\<And>x h. Q x h \<Longrightarrow> Q' x h) \<Longrightarrow> (\<And>h. E h \<Longrightarrow> E' h) \<Longrightarrow> keeps P' p Q' E'"
  unfolding keeps_def by (erule hold_weaken) auto

lemma h_bind_ret:
  "h_bind (h_ret (Inl e)) f = h_ret (Inl e)"
  "h_bind (h_ret (Inr x)) f = f x"
  by (auto simp: h_bind_def h_ret_def)

lemma keeps_bind_ret:
  "(\<And>x. r = Inr x \<Longrightarrow> keeps P (f x) Q E) \<Longrightarrow> (\<And>h e. P h \<Longrightarrow> r = Inl e \<Longrightarrow> E h) \<Longrightarrow> keeps P (h_bind (h_ret r) f) Q E"
  by (cases r) (auto simp: h_bind_ret intro: keeps_ret)

lemma keeps_bind_get: "(\<And>h. P h \<Longrightarrow> keeps (\<lambda>h'. h' = h) (f h) Q E) \<Longrightarrow> keeps P (h_bind h_get f) Q E"
  by (auto simp: keeps_def hold_def h_bind_def h_get_def)

lemma keeps_key: "(\<And>h x. P h \<Longrightarrow> Q x h) \<Longrightarrow> (\<And>h. P h \<Longrightarrow> E h) \<Longrightarrow> keeps P (h_key p) Q E"
  by (auto simp: keeps_def hold_def h_key_def split: prod.splits sum.splits)

lemma keeps_bind_key:
  assumes k: "\<And>x s s'. p s = (Inr x, s') \<Longrightarrow> keeps P (f x) Q E" and e: "\<And>h. P h \<Longrightarrow> E h"
  shows "keeps P (h_bind (h_key p) f) Q E"
proof (rule keepsI)
  fix h w y h' w' assume P: "P h" and "h_bind (h_key p) f (h, w) = (Ret (Inr y), h', w')"
  then obtain x w1 s s' where "p s = (Inr x, s')" "f x (h, w1) = (Ret (Inr y), h', w')"
    by (auto simp: h_bind_Inr h_key_def split: prod.splits)
  then show "Q y h'" using keeps_Inr [OF k P] by blast
next
  fix h w y h' w' assume P: "P h" and "h_bind (h_key p) f (h, w) = (Ret (Inl y), h', w')"
  then have "h' = h \<or> (\<exists>x w1 s s'. p s = (Inr x, s') \<and> f x (h, w1) = (Ret (Inl y), h', w'))"
    by (simp add: h_bind_Inl h_key_def split: prod.splits) blast
  then show "E h'" using keeps_Inl [OF k P] e P by blast
qed

lemma keeps_modify: "(\<And>h. P h \<Longrightarrow> Q () (f h)) \<Longrightarrow> keeps P (h_modify f) Q E"
  by (auto simp: keeps_def hold_def h_modify_def)

lemma keeps_bind_modify:
  "keeps (\<lambda>h'. \<exists>h. P h \<and> h' = m h) (f ()) Q E \<Longrightarrow> keeps P (h_bind (h_modify m) f) Q E"
  by (rule keepsI) (auto simp: h_bind_def h_modify_def elim!: keeps_Inr keeps_Inl)

lemma keeps_try: "keeps P p Q E \<Longrightarrow> keeps P (h_try p) (\<lambda>r h. case r of Inl _ \<Rightarrow> E h | Inr x \<Rightarrow> Q x h) F"
  unfolding keeps_def by (drule hold_try [where F = "\<lambda>s. F (fst s)"]) (auto simp: hold_def split: sum.splits)

lemma keeps_bind_local:
  assumes k: "\<And>r l' w w'. p (l, w) = (Ret r, l', w') \<Longrightarrow> keeps P (f (r, l')) Q E"
  shows "keeps P (h_bind (h_local l p) f) Q E"
proof (rule keepsI)
  fix h w y h' w' assume P: "P h" and "h_bind (h_local l p) f (h, w) = (Ret (Inr y), h', w')"
  then obtain r l' w1 where "p (l, w) = (Ret r, l', w1)" "f (r, l') (h, w1) = (Ret (Inr y), h', w')"
    by (auto simp: h_bind_def h_local_def split: run.splits prod.splits)
  then show "Q y h'" using keeps_Inr [OF k P] by blast
next
  fix h w y h' w' assume P: "P h" and "h_bind (h_local l p) f (h, w) = (Ret (Inl y), h', w')"
  then obtain r l' w1 where "p (l, w) = (Ret r, l', w1)" "f (r, l') (h, w1) = (Ret (Inl y), h', w')"
    by (auto simp: h_bind_def h_local_def split: run.splits prod.splits)
  then show "E h'" using keeps_Inl [OF k P] by blast
qed

lemma keeps_iter: "(\<And>x. x \<in> set xs \<Longrightarrow> keeps P (f x) (\<lambda>_. P) E) \<Longrightarrow> (\<And>h. P h \<Longrightarrow> E h) \<Longrightarrow> keeps P (h_iter f xs) (\<lambda>_. P) E"
  unfolding keeps_def by (rule hold_iter) auto

lemma keeps_map:
  assumes "\<And>x. x \<in> set xs \<Longrightarrow> keeps P (f x) (\<lambda>_. P) E" and "\<And>h. P h \<Longrightarrow> E h"
  shows "keeps P (h_map f xs) (\<lambda>_. P) E"
  using assms by (induction xs) (auto intro!: keeps_ret keeps_bind)

lemma keeps_False [simp, intro!]: "keeps (\<lambda>_. False) p Q E"
  by (simp add: keeps_def hold_def)

lemma keeps_pure: "(A \<Longrightarrow> keeps P p Q E) \<Longrightarrow> keeps (\<lambda>h. P h \<and> A) p Q E"
  by (cases A) auto

lemma keeps_start: "(\<And>h. P h \<Longrightarrow> keeps (\<lambda>h'. h' = h) p Q E) \<Longrightarrow> keeps P p Q E"
  by (auto simp: keeps_def hold_def)

text \<open>Rules that take an operation apart along its structure, with its own state known exactly.\<close>

lemma keeps_bind_modify_at: "keeps (\<lambda>h'. h' = m h) (f ()) Q E \<Longrightarrow> keeps (\<lambda>h'. h' = h) (h_bind (h_modify m) f) Q E"
  by (rule keeps_bind_modify) simp

lemma h_bind_assoc: "h_bind (h_bind p g) f = h_bind p (\<lambda>x. h_bind (g x) f)"
  by (rule ext) (auto simp: h_bind_def split: run.splits sum.splits prod.splits)

lemma keeps_bind_bind: "keeps P (h_bind p (\<lambda>x. h_bind (g x) f)) Q E \<Longrightarrow> keeps P (h_bind (h_bind p g) f) Q E"
  by (simp only: h_bind_assoc)

lemma keeps_if:
  "(b \<Longrightarrow> keeps P p Q E) \<Longrightarrow> (\<not> b \<Longrightarrow> keeps P q Q E) \<Longrightarrow> keeps P (if b then p else q) Q E"
  "(b \<Longrightarrow> keeps P (h_bind p' f) Q E) \<Longrightarrow> (\<not> b \<Longrightarrow> keeps P (h_bind q' f) Q E) \<Longrightarrow> keeps P (h_bind (if b then p' else q') f) Q E"
  by auto

lemma keeps_case:
  "(\<And>a b. x = (a, b) \<Longrightarrow> keeps P (g a b) Q E) \<Longrightarrow> keeps P (case x of (a, b) \<Rightarrow> g a b) Q E"
  "(\<And>e. r = Inl e \<Longrightarrow> keeps P (l e) Q E) \<Longrightarrow> (\<And>y. r = Inr y \<Longrightarrow> keeps P (k y) Q E) \<Longrightarrow>
    keeps P (case r of Inl e \<Rightarrow> l e | Inr y \<Rightarrow> k y) Q E"
  "(z = None \<Longrightarrow> keeps P n Q E) \<Longrightarrow> (\<And>y. z = Some y \<Longrightarrow> keeps P (m y) Q E) \<Longrightarrow>
    keeps P (case z of None \<Rightarrow> n | Some y \<Rightarrow> m y) Q E"
  by (auto split: prod.splits sum.splits option.splits)

lemma keeps_bind_io:
  assumes k: "\<And>x s s'. p s = (Ret (Inr x), s') \<Longrightarrow> keeps P (f x) Q E" and e: "\<And>h. P h \<Longrightarrow> E h"
  shows "keeps P (h_bind (h_io p) f) Q E"
proof (rule keepsI)
  fix h w y h' w' assume P: "P h" and "h_bind (h_io p) f (h, w) = (Ret (Inr y), h', w')"
  then obtain x w1 s s' where "p s = (Ret (Inr x), s')" "f x (h, w1) = (Ret (Inr y), h', w')"
    by (auto simp: h_bind_Inr h_io_def split: prod.splits)
  then show "Q y h'" using keeps_Inr [OF k P] by blast
next
  fix h w y h' w' assume P: "P h" and "h_bind (h_io p) f (h, w) = (Ret (Inl y), h', w')"
  then have "h' = h \<or> (\<exists>x w1 s s'. p s = (Ret (Inr x), s') \<and> f x (h, w1) = (Ret (Inl y), h', w'))"
    by (simp add: h_bind_Inl h_io_def split: prod.splits) blast
  then show "E h'" using keeps_Inl [OF k P] e P by blast
qed

lemma keeps_bind_on_clone:
  assumes k: "\<And>clone x s s'. op s = (Ret (Inr (clone, Inr x)), s') \<Longrightarrow> keeps (\<lambda>h'. h' = upd (share_durable clone) h) (f (clone, x)) Q E"
    and e: "E h" "\<And>clone. E (upd (share_durable clone) h)"
  shows "keeps (\<lambda>h'. h' = h) (h_bind (on_clone upd op) f) Q E"
  unfolding on_clone_def
proof (rule keeps_bind_bind, rule keeps_bind_io)
  fix x s s' assume x: "op s = (Ret (Inr x), s')"
  obtain clone r where cr: "x = (clone, r)" by fastforce
  show "keeps (\<lambda>h'. h' = h) (h_bind (case x of (clone, r) \<Rightarrow> h_bind (h_modify (upd (share_durable clone)))
      (\<lambda>_. h_ret (and_then r (\<lambda>x. Inr (clone, x))))) f) Q E"
    unfolding cr prod.case
    by (rule keeps_bind_bind, rule keeps_bind_modify_at, rule keeps_bind_ret) (use k [where s = s and s' = s' and clone = clone] x cr e in auto)
qed (simp add: e)

text \<open>Handling an error: the state in which the handler starts is one in which the operation failed.\<close>

lemma keeps_bind_try:
  assumes "keeps P p R F" and "\<And>x. keeps (R x) (f (Inr x)) Q E" and "\<And>e. keeps F (f (Inl e)) Q E"
  shows "keeps P (h_bind (h_try p) f) Q E"
proof (rule keeps_bind [OF keeps_try [OF assms(1)]])
  show "keeps (\<lambda>h. case r of Inl _ \<Rightarrow> F h | Inr x \<Rightarrow> R x h) (f r) Q E" for r
    using assms(2,3) by (cases r) auto
qed

lemma keeps_or:
  assumes "keeps P p Q F" and "keeps F handler (\<lambda>_. E) E"
  shows "keeps P (h_or p handler) Q E"
  unfolding h_or_def
  by (rule keeps_bind_try [OF assms(1)]) (auto intro: keeps_ret keeps_bind [OF assms(2)])

lemma keeps_at:
  "(\<And>x. r = Inr x \<Longrightarrow> Q1 x h) \<Longrightarrow> (\<And>e. r = Inl e \<Longrightarrow> E h) \<Longrightarrow> keeps (\<lambda>h'. h' = h) (h_ret r) Q1 E"
  "(\<And>x. r = Inr x \<Longrightarrow> keeps (\<lambda>h'. h' = h) (f x) Q E) \<Longrightarrow> (\<And>e. r = Inl e \<Longrightarrow> E h) \<Longrightarrow> keeps (\<lambda>h'. h' = h) (h_bind (h_ret r) f) Q E"
  "(\<And>x. Q2 x h) \<Longrightarrow> E h \<Longrightarrow> keeps (\<lambda>h'. h' = h) (h_key q) Q2 E"
  "(\<And>x s s'. q s = (Inr x, s') \<Longrightarrow> keeps (\<lambda>h'. h' = h) (g x) Q E) \<Longrightarrow> E h \<Longrightarrow> keeps (\<lambda>h'. h' = h) (h_bind (h_key q) g) Q E"
  "(\<And>x s s'. p s = (Ret (Inr x), s') \<Longrightarrow> keeps (\<lambda>h'. h' = h) (k x) Q E) \<Longrightarrow> E h \<Longrightarrow> keeps (\<lambda>h'. h' = h) (h_bind (h_io p) k) Q E"
  "Q3 () (m h) \<Longrightarrow> keeps (\<lambda>h'. h' = h) (h_modify m) Q3 E"
  by (rule keeps_ret keeps_bind_ret keeps_key keeps_bind_key keeps_bind_io keeps_modify; simp)+

lemma keeps_from: "keeps P p Q E \<Longrightarrow> P h \<Longrightarrow> keeps (\<lambda>h'. h' = h) p Q E"
  by (erule keeps_weaken) auto

lemma keeps_then:
  "keeps P p (\<lambda>_. P) E \<Longrightarrow> (\<And>x. keeps P (f x) Q E) \<Longrightarrow> P h \<Longrightarrow> keeps (\<lambda>h'. h' = h) (h_bind p f) Q E"
  by (rule keeps_from [of P]) (rule keeps_bind)

lemma keeps_trivial [simp, intro!]: "keeps P p (\<lambda>_ _. True) (\<lambda>_. True)"
  by (simp add: keepsI)

lemma keeps_failing: "keeps P (h_bind p (\<lambda>_. h_ret (Inl e))) Q (\<lambda>_. True)"
  by (rule keeps_bind [OF keeps_trivial]) (rule keeps_ret; simp)

lemmas keeps_intros = keeps_bind_bind keeps_if keeps_case keeps_bind_get keeps_bind_modify_at keeps_bind_on_clone keeps_at

end
