(* ===== verification/Instructions.thy ===== *)
theory Instructions
  imports Replica
begin

text \<open>
  What a host instruction does to the directory tree, \<open>apply_tree_update\<close> and \<open>validate_link_kind\<close> of
  \<open>backend/src/sync/host/filesystem.rs\<close>, and the instructions that bring a new member up to date,
  \<open>bootstrap_records\<close> of \<open>backend/src/sync/host.rs\<close>. Instructions keep trees well formed; the bootstrap
  instructions exist for every well-formed tree, carry consecutive numbers up to the coverage mark, and
  replaying them on an empty tree gives back the tree they were made from.
\<close>

section \<open>Trusted manifests\<close>

datatype TrustedManifest = TrustedManifest (tm_manifest: Manifest)

type_synonym trusted_map = "(FileId, TrustedManifest) btree_map"

section \<open>Instructions on the tree\<close>

definition validate_link_kind :: "trusted_map \<Rightarrow> ControlUpdate \<Rightarrow> unit result" where
  "validate_link_kind manifests update =
     guard_ok (\<not> (case update of Link _ _ child True \<Rightarrow> bm_contains manifests child | _ \<Rightarrow> False))
       (InvalidInput ''file manifest cannot become a directory'')"

definition apply_tree_update :: "DirectoryTree \<Rightarrow> ControlUpdate \<Rightarrow> (DirectoryTree \<times> FileId option) result" where
  "apply_tree_update tree update = (case update of
       NewManifest manifest \<Rightarrow>
         and_then (guard_ok (\<not> is_dir tree (mf_file_id manifest)) (InvalidInput ''cannot save a directory as a file''))
           (\<lambda>_. Inr (tree, None))
     | Kick _ \<Rightarrow> Inr (tree, None)
     | Add _ \<Rightarrow> Inr (tree, None)
     | Clear file_id \<Rightarrow> Inr (tree, Some file_id)
     | Remove file_id \<Rightarrow> and_then (tree_remove_id tree file_id) (\<lambda>t. Inr (t, Some file_id))
     | Link parent name child dir \<Rightarrow> and_then (tree_link tree parent name child dir) (\<lambda>t. Inr (t, None))
     | Unlink parent name \<Rightarrow> and_then (tree_unlink tree parent name) (\<lambda>(child, t). Inr (t, Some child))
     | Rename src_parent src_name dst_parent dst_name \<Rightarrow>
         and_then (tree_rename tree src_parent src_name dst_parent dst_name) (\<lambda>t. Inr (t, None)))"

section \<open>Bootstrap instructions\<close>

text \<open>One pass over the remaining entries: those whose parent is already linked, and the others.\<close>

fun link_pass ::
  "Dirent list \<Rightarrow> FileId btree_set \<Rightarrow> ControlUpdate list \<Rightarrow> Dirent list \<times> FileId btree_set \<times> ControlUpdate list" where
  "link_pass [] directories updates = ([], directories, updates)"
| "link_pass (entry # entries) directories updates =
     (if de_parent entry \<notin> set directories then
        (case link_pass entries directories updates of
           (deferred, directories, updates) \<Rightarrow> (entry # deferred, directories, updates))
      else link_pass entries
        (if de_is_dir entry then bs_insert (de_child entry) directories else directories)
        (updates @ [Link (de_parent entry) (de_name entry) (de_child entry) (de_is_dir entry)]))"

lemma link_pass_length: "length (fst (link_pass es ds us)) \<le> length es"
  by (induction es ds us rule: link_pass.induct) (auto split: prod.splits)

function link_passes :: "Dirent list \<Rightarrow> FileId btree_set \<Rightarrow> ControlUpdate list \<Rightarrow> ControlUpdate list result" where
  "link_passes entries directories updates =
     (if entries = [] then Inr updates
      else (case link_pass entries directories updates of
          (deferred, directories, updates) \<Rightarrow>
            if length deferred = length entries then Inl (State ''replica tree is not rooted'')
            else link_passes deferred directories updates))"
  by pat_completeness auto
termination
proof (relation "measure (\<lambda>(entries, _, _). length entries)", simp)
  fix entries ds us and deferred :: "Dirent list" and y and ds' :: "FileId btree_set" and us' :: "ControlUpdate list"
  assume "(deferred, y) = link_pass entries ds us" "length deferred \<noteq> length entries"
  then have "length deferred < length entries"
    using link_pass_length [of entries ds us] by (metis fst_conv nat_less_le)
  then show "((deferred, ds', us'), entries, ds, us) \<in> measure (\<lambda>(entries, _, _). length entries)" by simp
qed

declare link_passes.simps [simp del]

definition checked_sub :: "'a::len word \<Rightarrow> 'a word \<Rightarrow> 'a word option" where
  "checked_sub a b = (if b \<le> a then Some (a - b) else None)"

definition bootstrap_updates :: "FileId \<Rightarrow> trusted_map \<Rightarrow> DirectoryTree \<Rightarrow> u64 \<Rightarrow> ControlUpdate list result" where
  "bootstrap_updates expected_root manifests tree through =
     and_then (link_passes (filter (\<lambda>entry. de_name entry \<noteq> []) (dirents tree)) [expected_root]
       (map (\<lambda>trusted. NewManifest (tm_manifest trusted)) (bm_values manifests))) (\<lambda>updates.
     Inr (if updates = [] \<and> through \<noteq> 0 then [Add (FileId 0)] else updates))"

definition bootstrap_records :: "FileId \<Rightarrow> trusted_map \<Rightarrow> DirectoryTree \<Rightarrow> u64 \<Rightarrow> ControlRecord list result" where
  "bootstrap_records expected_root manifests tree through =
     and_then (bootstrap_updates expected_root manifests tree through) (\<lambda>updates.
     and_then (guard_ok (length updates < 2 ^ 64) (State ''bootstrap instruction count overflow'')) (\<lambda>_.
     and_then (ok_or (case checked_sub through (of_nat (length updates)) of
           None \<Rightarrow> None
         | Some n \<Rightarrow> checked_add n 1) (State ''bootstrap state exceeds instruction history'')) (\<lambda>first.
     map_ok (\<lambda>(offset, update).
       and_then (ok_or (checked_add first (of_nat offset)) (State ''bootstrap instruction id overflow'')) (\<lambda>n.
       Inr \<lparr>cr_id = n, cr_update = update\<rparr>)) (enumerate 0 updates))))"

section \<open>Well-formedness\<close>

lemma apply_tree_update_ok:
  assumes "tree_ok t" and "apply_tree_update t u = Inr (t', r)"
  shows "tree_ok t'" and "dt_expected_root t' = dt_expected_root t"
proof -
  have "tree_ok t' \<and> dt_expected_root t' = dt_expected_root t"
  proof (cases u)
    case (Link p n c d)
    with assms show ?thesis by (auto simp: apply_tree_update_def tree_ok_link link_dirents)
  next
    case (Unlink p n)
    with assms show ?thesis by (auto simp: apply_tree_update_def tree_ok_unlink) (auto simp: tree_unlink_def Let_def)
  next
    case (Remove f)
    with assms show ?thesis
      by (auto simp: apply_tree_update_def tree_ok_remove_id)
        (auto simp: tree_remove_id_def tree_unlink_def Let_def split: if_splits option.splits)
  next
    case (Rename sp sn dp dn)
    with assms show ?thesis
      by (auto simp: apply_tree_update_def tree_ok_rename) (auto simp: tree_rename_def Let_def split: if_splits)
  qed (use assms in \<open>auto simp: apply_tree_update_def\<close>)
  then show "tree_ok t'" and "dt_expected_root t' = dt_expected_root t" by blast+
qed

section \<open>Rebuilding a tree from its bootstrap instructions\<close>

definition tree_after :: "ControlUpdate list \<Rightarrow> DirectoryTree \<Rightarrow> DirectoryTree result" where
  "tree_after us t = fold_ok (\<lambda>u t. and_then (apply_tree_update t u) (\<lambda>(t, _). Inr t)) us t"

lemma tree_after_simps [simp]:
  "tree_after [] t = Inr t"
  "tree_after (u # us) t = and_then (apply_tree_update t u) (\<lambda>(t, _). tree_after us t)"
  "tree_after (us @ vs) t = and_then (tree_after us t) (\<lambda>t. tree_after vs t)"
  by (simp_all add: tree_after_def fold_ok_append and_then_assoc case_prod_unfold)

abbreviation link_of :: "Dirent \<Rightarrow> ControlUpdate" where
  "link_of e \<equiv> Link (de_parent e) (de_name e) (de_child e) (de_is_dir e)"

text \<open>A part of \<open>t\<close> that is a tree itself, with its directories.\<close>

definition part_of :: "DirectoryTree \<Rightarrow> DirectoryTree \<Rightarrow> FileId btree_set \<Rightarrow> bool" where
  "part_of t T ds \<longleftrightarrow> tree_ok T \<and> dt_expected_root T = dt_expected_root t \<and> set (dirents T) \<subseteq> set (dirents t) \<and>
     (\<forall>c. c \<in> set ds \<longleftrightarrow> is_dir T c)"

lemma tree_ok_eqI:
  assumes "tree_ok t" and "tree_ok T" and "dt_expected_root T = dt_expected_root t" and "set (dirents T) = set (dirents t)"
  shows "T = t"
proof -
  have "bm_get (dt_entries T) k = bm_get (dt_entries t) k" for k
  proof -
    have "bm_get (dt_entries T) k = Some e \<longleftrightarrow> bm_get (dt_entries t) k = Some e" for e
      using get_entry [OF assms(1), of "fst k" "snd k" e] get_entry [OF assms(2), of "fst k" "snd k" e] assms(4) by simp
    then show ?thesis by (metis option.exhaust)
  qed
  then have "dt_entries T = dt_entries t"
    by (intro bm_ext tree_okD(1) assms(1,2) ext)
  with assms(3) show ?thesis by (simp add: DirectoryTree.equality)
qed

lemma link_extends_part:
  assumes t: "tree_ok t" and part: "part_of t T ds"
    and e: "e \<in> set (dirents t)" "de_name e \<noteq> []" "e \<notin> set (dirents T)" "de_parent e \<in> set ds"
  obtains T' where "apply_tree_update T (link_of e) = Inr (T', None)"
    and "part_of t T' (if de_is_dir e then bs_insert (de_child e) ds else ds)"
    and "set (dirents T') = insert e (set (dirents T))"
proof -
  have T: "tree_ok T" "dt_expected_root T = dt_expected_root t" "set (dirents T) \<subseteq> set (dirents t)" "is_dir T (de_parent e)"
    using part e(4) by (auto simp: part_of_def)
  have root: "de_child e \<noteq> dt_expected_root t" and name: "validate_name (de_name e) = Inr ()"
    using tree_okD(4) [OF t e(1)] e(2) by (auto simp: entry_ok_def)
  have "entry_of t (de_child e) = Some e"
    using entry_of_iff [OF tree_okD(6) [OF t]] e(1) by simp
  moreover obtain es where "chain t (de_child e) es" and short: "path_bytes es \<le> MAX_PATH_BYTES"
    using tree_okD(5) [OF t e(1,2)] by (auto simp: anchored_def)
  ultimately obtain es' where es: "es = e # es'" "chain t (de_parent e) es'"
    using root by (auto elim: chain.cases)
  obtain es'' where up: "chain T (de_parent e) es''" "path_bytes es'' \<le> MAX_PATH_BYTES"
    by (rule is_dir_chain [OF T(1,4)])
  have "chain t (de_parent e) es''"
  proof (rule chain_mono [OF up(1) T(2) [symmetric]])
    fix x assume "x \<in> set es''"
    then show "entry_of t (de_child x) = Some x"
      using chain_entries [OF up(1)] T(3) by (auto simp: entry_of_iff [OF tree_okD(6) [OF t]])
  qed
  with es(2) have "es'' = es'" using chain_det by blast
  then have len: "path_len T (de_parent e) = Inr (path_bytes es')"
    using up by (auto simp: path_len_Inr)
  have sep: "de_parent e = dt_expected_root T \<longleftrightarrow> es' = []"
    using up(1) \<open>es'' = es'\<close> chain_at_root [of T es'] by (cases es') (auto simp: chain_Nil_iff chain_Cons_iff)
  have new: "bm_get (dt_entries T) (de_parent e, de_name e) = None"
  proof (rule ccontr)
    assume "bm_get (dt_entries T) (de_parent e, de_name e) \<noteq> None"
    then obtain x where "x \<in> set (dirents T)" "de_parent x = de_parent e" "de_name x = de_name e"
      using get_entry [OF T(1)] by blast
    moreover from this have "x = e"
      using get_entry [OF t, of "de_parent e" "de_name e"] T(3) e(1) by (metis option.inject subsetD)
    ultimately show False using e(3) by simp
  qed
  have free: "\<forall>x \<in> set (dirents T). de_child x \<noteq> de_child e"
    using e(1,3) T(3) tree_okD(6) [OF t] by (metis inj_onD subsetD)
  have "\<exists>T'. tree_link T (de_parent e) (de_name e) (de_child e) (de_is_dir e) = Inr T'"
    using name T root len sep new free short
    by (cases es')
      (simp_all add: tree_link_def list_ex_iff es(1) path_bytes_Cons usize_add_def MAX_PATH_BYTES_def usize_max_def Let_def
        map_of_eq_None_iff path_bytes_def)
  then obtain T' where T': "tree_link T (de_parent e) (de_name e) (de_child e) (de_is_dir e) = Inr T'" by blast
  have ds: "set (dirents T') = insert e (set (dirents T))"
    using link_dirents(1) [OF T(1) T'] by (cases e) simp
  show thesis
  proof (rule that)
    show "apply_tree_update T (link_of e) = Inr (T', None)" by (simp add: apply_tree_update_def T')
    show "part_of t T' (if de_is_dir e then bs_insert (de_child e) ds else ds)"
      using part e(1) tree_ok_link [OF T(1) T'] link_dirents(2) [OF T(1) T'] ds
      by (auto simp: part_of_def is_dir_iff)
  qed (rule ds)
qed

lemma link_pass_part:
  assumes "tree_ok t" and "part_of t T ds" and "distinct es" and "set es \<inter> set (dirents T) = {}"
    and "\<forall>e \<in> set es. e \<in> set (dirents t) \<and> de_name e \<noteq> []" and "link_pass es ds us = (es', ds', us')"
  shows "\<exists>vs T'. us' = us @ vs \<and> tree_after vs T = Inr T' \<and> part_of t T' ds' \<and> distinct es' \<and> set es' \<subseteq> set es \<and>
    set (dirents T') = set (dirents T) \<union> (set es - set es')"
  using assms(2-)
proof (induction es ds us arbitrary: T es' ds' us' rule: link_pass.induct)
  case (1 ds us)
  then show ?case by auto
next
  case (2 e es ds us)
  show ?case
  proof (cases "de_parent e \<in> set ds")
    case False
    then obtain es2 where es2: "link_pass es ds us = (es2, ds', us')" "es' = e # es2"
      using "2.prems" by (auto split: prod.splits)
    from "2.IH"(1) [OF False "2.prems"(1) _ _ _ es2(1)] "2.prems" obtain vs T' where
      "us' = us @ vs" "tree_after vs T = Inr T'" "part_of t T' ds'" "distinct es2" "set es2 \<subseteq> set es"
      "set (dirents T') = set (dirents T) \<union> (set es - set es2)" by auto
    with "2.prems"(2) es2(2) show ?thesis by (intro exI [of _ vs] exI [of _ T']) auto
  next
    case True
    let ?ds = "if de_is_dir e then bs_insert (de_child e) ds else ds"
    obtain T1 where T1: "apply_tree_update T (link_of e) = Inr (T1, None)" "part_of t T1 ?ds"
        "set (dirents T1) = insert e (set (dirents T))"
      using link_extends_part [OF assms(1) "2.prems"(1) _ _ _ True] "2.prems" by auto
    have "link_pass es ?ds (us @ [link_of e]) = (es', ds', us')"
      using True "2.prems" by simp
    from "2.IH"(2) [OF _ T1(2) _ _ _ this] True "2.prems" T1(3) obtain vs T' where
      "us' = us @ [link_of e] @ vs" "tree_after vs T1 = Inr T'" "part_of t T' ds'" "distinct es'" "set es' \<subseteq> set es"
      "set (dirents T') = set (dirents T1) \<union> (set es - set es')" by auto
    with T1 "2.prems"(2) show ?thesis by (intro exI [of _ "link_of e # vs"] exI [of _ T']) auto
  qed
qed

lemma link_pass_shortens:
  "e \<in> set es \<Longrightarrow> de_parent e \<in> set ds \<Longrightarrow> length (fst (link_pass es ds us)) < length es"
proof (induction es ds us rule: link_pass.induct)
  case (2 e' es ds us)
  show ?case
  proof (cases "de_parent e' \<in> set ds")
    case False
    with 2 show ?thesis by (auto split: prod.splits)
  next
    case True
    then show ?thesis
      using link_pass_length [of es] by (simp add: le_imp_less_Suc)
  qed
qed simp

text \<open>While entries remain, one of them hangs below a directory that is linked already.\<close>

lemma chain_leaves_part:
  assumes "tree_ok t" and "part_of t T ds" and "chain t c es" and "\<exists>e \<in> set es. e \<notin> set (dirents T)"
  shows "\<exists>e \<in> set es. e \<notin> set (dirents T) \<and> de_parent e \<in> set ds"
  using assms(3,4)
proof (induction rule: chain.induct)
  case (chain_step c e es)
  show ?case
  proof (cases "\<exists>e \<in> set es. e \<notin> set (dirents T)")
    case True
    with chain_step.IH show ?thesis by auto
  next
    case False
    with chain_step.prems have "e \<notin> set (dirents T)" by auto
    have e: "e \<in> set (dirents t)" "de_child e \<noteq> dt_expected_root t"
      using chain_step.hyps entry_of_Some by blast+
    then have "de_name e \<noteq> []"
      using tree_okD(4) [OF assms(1), of e] by (auto simp: entry_ok_def)
    then have up: "is_dir t (de_parent e)"
      using tree_okD(5) [OF assms(1) e(1)] by (simp add: anchored_def)
    have "is_dir T (de_parent e)"
    proof (cases es)
      case Nil
      with chain_step.hyps(3) assms(2) show ?thesis by (auto simp: chain_Nil_iff is_dir_iff part_of_def)
    next
      case (Cons f fs)
      then have f: "f \<in> set (dirents T)" "de_child f = de_parent e" "de_child f \<noteq> dt_expected_root t"
        using False chain_head_child chain_step.hyps(3) chain_entries by fastforce+
      obtain x where "x \<in> set (dirents t)" "de_child x = de_parent e" "de_is_dir x"
        using up f by (auto simp: is_dir_iff)
      moreover have "f \<in> set (dirents t)" using f(1) assms(2) by (auto simp: part_of_def)
      ultimately have "de_is_dir f" using f(2) inj_onD [OF tree_okD(6) [OF assms(1)], of f x] by simp
      with f show ?thesis by (auto simp: is_dir_iff)
    qed
    with \<open>e \<notin> set (dirents T)\<close> assms(2) show ?thesis by (auto simp: part_of_def)
  qed
qed simp

lemma link_passes_rebuild:
  assumes "tree_ok t" and "part_of t T ds" and "distinct es" and "set es = set (dirents t) - set (dirents T)"
  shows "\<exists>vs. link_passes es ds us = Inr (us @ vs) \<and> tree_after vs T = Inr t"
  using assms(2-)
proof (induction "length es" arbitrary: es ds us T rule: less_induct)
  case less
  have root: "root_dirent (dt_expected_root t) \<in> set (dirents T)"
    using less.prems(1) tree_okD(3) by (metis part_of_def)
  have named: "\<forall>e \<in> set es. e \<in> set (dirents t) \<and> de_name e \<noteq> []"
    using less.prems(3) root tree_okD(4) [OF assms(1)] by (auto simp: entry_ok_def)
  show ?case
  proof (cases es)
    case Nil
    then have "T = t"
      using less.prems assms(1) by (intro tree_ok_eqI) (auto simp: part_of_def)
    with Nil show ?thesis by (simp add: link_passes.simps)
  next
    case (Cons e0 _)
    then obtain ch where ch: "chain t (de_child e0) ch"
      using named tree_okD(5) [OF assms(1), of e0] by (auto simp: anchored_def)
    have "e0 \<in> set ch"
      using ch named Cons tree_okD(4) [OF assms(1), of e0] entry_of_iff [OF tree_okD(6) [OF assms(1)], of "de_child e0" e0]
      by (auto simp: entry_ok_def elim: chain.cases)
    then obtain e where e: "e \<in> set ch" "e \<notin> set (dirents T)" "de_parent e \<in> set ds"
      using chain_leaves_part [OF assms(1) less.prems(1) ch] less.prems(3) Cons by auto
    then have "e \<in> set es"
      using less.prems(3) chain_entries [OF ch] by auto
    obtain es' ds' us' where pass: "link_pass es ds us = (es', ds', us')" by (metis prod_cases3)
    have shorter: "length es' < length es"
      using link_pass_shortens [OF \<open>e \<in> set es\<close> e(3), of us] pass by simp
    obtain vs T' where T': "us' = us @ vs" "tree_after vs T = Inr T'" "part_of t T' ds'" "distinct es'" "set es' \<subseteq> set es"
        "set (dirents T') = set (dirents T) \<union> (set es - set es')"
      using link_pass_part [OF assms(1) less.prems(1,2) _ named pass] less.prems(3) by blast
    then have "set es' = set (dirents t) - set (dirents T')"
      using less.prems(3) by auto
    from less.hyps [OF shorter T'(3,4) this, of us'] obtain ws where
      "link_passes es' ds' us' = Inr (us' @ ws)" "tree_after ws T' = Inr t" by blast
    with T' pass shorter have "link_passes es ds us = Inr (us @ vs @ ws)" "tree_after (vs @ ws) T = Inr t"
      by (auto simp: link_passes.simps [of es])
    then show ?thesis by blast
  qed
qed

section \<open>The bootstrap instructions\<close>

lemma checked_add_of_nat:
  "checked_add a (of_nat n :: u64) = Some b \<longleftrightarrow> unat a + n mod 2 ^ 64 < 2 ^ 64 \<and> b = a + of_nat n"
  by (simp add: checked_add_Some_iff unat_of_nat)

lemma bootstrap_links:
  assumes "tree_ok t"
  shows "\<exists>vs. link_passes (filter (\<lambda>e. de_name e \<noteq> []) (dirents t)) [dt_expected_root t] us = Inr (us @ vs) \<and>
    tree_after vs (tree_new (dt_expected_root t)) = Inr t"
proof (rule link_passes_rebuild [OF assms])
  let ?r = "dt_expected_root t"
  have "root_dirent ?r \<in> set (dirents t)" by (rule tree_okD(3) [OF assms])
  then show "part_of t (tree_new ?r) [?r]"
    by (auto simp: part_of_def is_dir_iff) (simp_all add: tree_new_def)
  have "e = root_dirent ?r \<longleftrightarrow> de_name e = []" if "e \<in> set (dirents t)" for e
    using tree_okD(4) [OF assms that] by (auto simp: entry_ok_def)
  then show "set (filter (\<lambda>e. de_name e \<noteq> []) (dirents t)) = set (dirents t) - set (dirents (tree_new ?r))"
    by auto
  have "distinct (map fst (map (\<lambda>e. (dkey e, e)) (dirents t)))"
    using bm_ok_distinct [OF tree_okD(1) [OF assms]] tree_ok_entries [OF assms] by simp
  then show "distinct (filter (\<lambda>e. de_name e \<noteq> []) (dirents t))"
    by (simp add: distinct_map)
qed

text \<open>Manifests do not change the tree, as long as no file takes the place of the root.\<close>

lemma tree_after_manifests:
  assumes "\<forall>m \<in> set ms. mf_file_id (tm_manifest m) \<noteq> r"
  shows "tree_after (map (\<lambda>m. NewManifest (tm_manifest m)) ms) (tree_new r) = Inr (tree_new r)"
  using assms by (induction ms) (auto simp: apply_tree_update_def is_dir_iff, simp_all add: tree_new_def)

lemma bootstrap_updates_rebuild:
  assumes "tree_ok t" and "\<forall>m \<in> set (bm_values ms). mf_file_id (tm_manifest m) \<noteq> dt_expected_root t"
  shows "\<exists>us. bootstrap_updates (dt_expected_root t) ms t through = Inr us \<and>
    tree_after us (tree_new (dt_expected_root t)) = Inr t \<and>
    (\<forall>m \<in> set (bm_values ms). NewManifest (tm_manifest m) \<in> set us) \<and> (through \<noteq> 0 \<longrightarrow> us \<noteq> [])"
proof -
  let ?ms = "map (\<lambda>m. NewManifest (tm_manifest m)) (bm_values ms)"
  obtain vs where vs: "link_passes (filter (\<lambda>e. de_name e \<noteq> []) (dirents t)) [dt_expected_root t] ?ms = Inr (?ms @ vs)"
      "tree_after vs (tree_new (dt_expected_root t)) = Inr t"
    using bootstrap_links [OF assms(1), of ?ms] by blast
  have "tree_after (?ms @ vs) (tree_new (dt_expected_root t)) = Inr t"
    using vs(2) tree_after_manifests [OF assms(2)] by simp
  then show ?thesis
    using vs(1) by (auto simp: bootstrap_updates_def) (auto simp: apply_tree_update_def)
qed

lemma number_records:
  assumes "unat first + length us \<le> 2 ^ 64"
  shows "map_ok (\<lambda>(offset, update).
       and_then (ok_or (checked_add first (of_nat offset :: u64)) (State ''bootstrap instruction id overflow'')) (\<lambda>n.
       Inr \<lparr>cr_id = n, cr_update = update\<rparr>)) (enumerate 0 us) =
    Inr (map (\<lambda>(offset, update). \<lparr>cr_id = first + of_nat offset, cr_update = update\<rparr>) (enumerate 0 us))"
proof (rule map_ok_total)
  fix x assume x: "x \<in> set (enumerate 0 us)"
  obtain i u where iu: "x = (i, u)" by fastforce
  with x have "i < length us" by (simp add: in_set_enumerate_eq)
  with assms have "checked_add first (of_nat i :: u64) = Some (first + of_nat i)"
    by (simp add: checked_add_of_nat)
  with iu show "(case x of (offset, update) \<Rightarrow> and_then (ok_or (checked_add first (of_nat offset :: u64))
      (State ''bootstrap instruction id overflow'')) (\<lambda>n. Inr \<lparr>cr_id = n, cr_update = update\<rparr>)) =
    Inr (case x of (offset, update) \<Rightarrow> \<lparr>cr_id = first + of_nat offset, cr_update = update\<rparr>)" by simp
qed

lemma bootstrap_records_Inr:
  assumes "bootstrap_updates r ms t through = Inr us" and "length us \<le> unat through" and "us \<noteq> []"
  shows "bootstrap_records r ms t through =
    Inr (map (\<lambda>(i, u). \<lparr>cr_id = through - of_nat (length us) + 1 + of_nat i, cr_update = u\<rparr>) (enumerate 0 us))"
proof -
  have n: "length us < 2 ^ 64" "unat (of_nat (length us) :: u64) = length us"
    using assms(2) unsigned_less [of through, where 'a = nat] by (simp_all add: unat_of_nat)
  then have le: "(of_nat (length us) :: u64) \<le> through"
    using assms(2) by (simp add: word_le_nat_alt)
  let ?d = "through - of_nat (length us)"
  have d: "unat ?d = unat through - length us"
    using le n by (simp add: unat_sub)
  moreover have "0 < length us" "unat through < 2 ^ 64" using assms(3) unsigned_less [of through, where 'a = nat] by simp_all
  ultimately have "unat ?d + 1 < 2 ^ 64"
    using assms(2) by linarith
  then have "checked_add ?d 1 = Some (?d + 1)" "unat (?d + 1) = unat through - length us + 1"
    using d by (simp_all add: checked_add_Some_iff unat_word_ariths)
  with number_records [of "?d + 1" us] n assms le unsigned_less [of through, where 'a = nat] show ?thesis
    by (simp add: bootstrap_records_def checked_sub_def)
qed

section \<open>The content of a vault\<close>

text \<open>
  What an instruction means for the files of a vault: the directory tree and the manifest of each file.
  The host and the members both follow this function.
\<close>

type_synonym content = "DirectoryTree \<times> (FileId, Manifest) btree_map"

definition plain :: "trusted_map \<Rightarrow> (FileId, Manifest) btree_map" where
  "plain manifests = map (\<lambda>(file_id, trusted). (file_id, tm_manifest trusted)) manifests"

definition content_step :: "ControlUpdate \<Rightarrow> content \<Rightarrow> content result" where
  "content_step update content = (case content of (tree, manifests) \<Rightarrow>
     and_then (guard_ok (\<not> (case update of Link _ _ child True \<Rightarrow> bm_contains manifests child | _ \<Rightarrow> False))
       (InvalidInput ''file manifest cannot become a directory'')) (\<lambda>_.
     and_then (apply_tree_update tree update) (\<lambda>(tree, removed_file).
     let manifests = (case update of NewManifest manifest \<Rightarrow> bm_insert (mf_file_id manifest) manifest manifests | _ \<Rightarrow> manifests) in
     Inr (tree, case removed_file of None \<Rightarrow> manifests | Some file_id \<Rightarrow> bm_remove file_id manifests))))"

lemma plain_get: "bm_get (plain manifests) k = map_option tm_manifest (bm_get manifests k)"
  by (induction manifests) (auto simp: plain_def)

lemma plain_keys [simp]: "fst ` set (plain manifests) = fst ` set manifests"
  by (force simp: plain_def image_iff)

lemma plain_insert [simp]: "plain (bm_insert k t manifests) = bm_insert k (tm_manifest t) (plain manifests)"
  by (induction k t manifests rule: bm_insert.induct) (auto simp: plain_def)

lemma plain_remove [simp]: "plain (bm_remove k manifests) = bm_remove k (plain manifests)"
  by (induction manifests) (auto simp: plain_def bm_remove_def)

lemma content_step_plain:
  assumes "validate_link_kind manifests update = Inr u" and "apply_tree_update tree update = Inr (tree', removed)"
    and "manifests' = (case update of NewManifest manifest \<Rightarrow> bm_insert (mf_file_id manifest) t manifests | _ \<Rightarrow> manifests)"
    and "\<And>manifest. update = NewManifest manifest \<Longrightarrow> tm_manifest t = manifest"
  shows "content_step update (tree, plain manifests) =
    Inr (tree', plain (case removed of None \<Rightarrow> manifests' | Some file_id \<Rightarrow> bm_remove file_id manifests'))"
  using assms by (auto simp: content_step_def validate_link_kind_def Let_def split: option.splits ControlUpdate.splits bool.splits)

end
