(* ===== verification/Pull.thy ===== *)
theory Pull
  imports Node Instructions
begin

text \<open>
  Trusted manifests, \<open>backend/src/protocol/manifest.rs\<close>, and the transfer of chunks between nodes,
  \<open>backend/src/sync/pull.rs\<close>: sealing chunk bodies, serving requests, and accepting answers into the chunk
  store. Only chunks that the trusted manifest lists, whose content has the listed address, are accepted;
  a pull that reports nothing missing has every chunk it was asked for in the store.
\<close>

section \<open>Trusted manifests\<close>

definition check_manifest :: "crypto \<Rightarrow> IdentityDocument \<Rightarrow> Manifest \<Rightarrow> TrustedManifest result" where
  "check_manifest c writer manifest =
     and_then (manifest_m manifest) (\<lambda>m.
     and_then (mldsa_verify c (id_vk writer) MANIFEST_CONTEXT m (mf_signature manifest)) (\<lambda>_.
     Inr (TrustedManifest manifest)))"

definition trusted_verify :: "crypto \<Rightarrow> PeerId btree_set \<Rightarrow> Manifest \<Rightarrow> TrustedManifest kop" where
  "trusted_verify c members manifest =
     (if mf_writer_id manifest \<notin> set members then k_ret (Inl AuthenticationFailed)
      else
        k_bind store_peer_id (\<lambda>me.
        k_bind (if mf_writer_id manifest = me then store_identity else load_verified_peer (mf_writer_id manifest)) (\<lambda>writer.
        k_ret (check_manifest c writer manifest))))"

definition verify_accepted :: "crypto \<Rightarrow> IdentityDocument \<Rightarrow> Manifest \<Rightarrow> TrustedManifest result" where
  "verify_accepted c writer manifest =
     and_then (identity_verify c writer) (\<lambda>_.
     and_then (guard_ok (mf_writer_id manifest = id_peer_id writer) AuthenticationFailed) (\<lambda>_.
     check_manifest c writer manifest))"

section \<open>Chunk bodies\<close>

definition encrypt_at_send :: "crypto \<Rightarrow> PairSession \<Rightarrow> FileId \<Rightarrow> u64 \<Rightarrow> bytes \<Rightarrow> ChunkBodyFrame kop" where
  "encrypt_at_send c session file_id index plaintext =
     k_bind store_peer_id (\<lambda>sender_id.
     k_bind (store_next_outbound_seq (ses_key_handle session) ChunkBody) (\<lambda>seq.
     let header = \<lparr>hdr_version = PROTOCOL_VERSION, hdr_sender_id = sender_id, hdr_receiver_id = ses_peer_id session,
           hdr_epoch = ses_epoch session, hdr_seq = seq\<rparr> in
     k_bind (store_seal c (ses_key_handle session) (nonce header ChunkBody) (chunk_aad header file_id index) plaintext) (\<lambda>ciphertext.
     k_ret (Inr \<lparr>cbf_header = header, cbf_file_id = file_id, cbf_index = index, cbf_ciphertext = ciphertext\<rparr>))))"

definition listed_chunk :: "Manifest \<Rightarrow> u64 \<Rightarrow> ChunkId option" where
  "listed_chunk manifest index =
     (if unat index < length (mf_chunk_ids manifest) then Some (mf_chunk_ids manifest ! unat index) else None)"

definition open_chunk :: "crypto \<Rightarrow> PairSession \<Rightarrow> ChunkBodyFrame \<Rightarrow> TrustedManifest \<Rightarrow> bytes kop" where
  "open_chunk c session frame trusted =
     (let manifest = tm_manifest trusted in
      k_bind (store_open c (ses_key_handle session) (nonce (cbf_header frame) ChunkBody)
        (chunk_aad (cbf_header frame) (cbf_file_id frame) (cbf_index frame)) (cbf_ciphertext frame)) (\<lambda>plaintext.
      k_ret (
        and_then (guard_ok (cbf_file_id frame = mf_file_id manifest) AuthenticationFailed) (\<lambda>_.
        and_then (ok_or (listed_chunk manifest (cbf_index frame)) AuthenticationFailed) (\<lambda>expected.
        and_then (guard_ok (chunk_id (cr_sha256 c) (cbf_file_id frame) (cbf_index frame) plaintext = expected)
          AuthenticationFailed) (\<lambda>_.
        Inr plaintext))))))"

definition receive_chunk ::
  "crypto \<Rightarrow> PairSession \<Rightarrow> ChunkBodyFrame \<Rightarrow> TrustedManifest \<Rightarrow> (MemoryChunkStore, bool) hop" where
  "receive_chunk c session frame trusted =
     h_bind (h_key (open_chunk c session frame trusted)) (\<lambda>plaintext.
     h_bind h_get (\<lambda>store.
     let expected = chunk_id (cr_sha256 c) (cbf_file_id frame) (cbf_index frame) plaintext in
     if \<not> accepts_chunk store (cbf_file_id frame) (cbf_index frame) expected then h_ret (Inr False)
     else if chunk_has store expected then h_ret (Inr False)
     else
       h_bind (on_clone (\<lambda>f. f) (chunk_put (cr_sha256 c) store (cbf_file_id frame) (cbf_index frame) plaintext)) (\<lambda>(clone, _).
       h_bind (on_clone (\<lambda>f. f) (persist_current (cr_sha256 c) clone)) (\<lambda>(clone, _).
       h_bind (h_modify (\<lambda>_. clone)) (\<lambda>_.
       h_ret (Inr True))))))"

section \<open>Serving\<close>

record PullResponse =
  pl_body :: ChunkBodyFrame

fun seal_records :: "crypto \<Rightarrow> PairSession \<Rightarrow> ChunkRecord list \<Rightarrow> PullResponse list kop" where
  "seal_records c session [] = k_ret (Inr [])"
| "seal_records c session (record # records) =
     k_bind (encrypt_at_send c session (ck_file_id record) (ck_index record) (ck_plaintext record)) (\<lambda>body.
     k_bind (seal_records c session records) (\<lambda>responses.
     k_ret (Inr (\<lparr>pl_body = body\<rparr> # responses))))"

definition pull_serve :: "crypto \<Rightarrow> MemoryChunkStore \<Rightarrow> PullRequest \<Rightarrow> PeerId \<Rightarrow> PullResponse list kop" where
  "pull_serve c chunks request requester_id =
     k_bind (require_live_traffic requester_id) (\<lambda>_.
     k_bind (current_session requester_id) (\<lambda>session.
     seal_records c session (List.map_filter (get_record chunks) (pr_chunk_ids request))))"

definition encrypt_request :: "crypto \<Rightarrow> PeerId \<Rightarrow> PullRequest \<Rightarrow> ControlPacket kop" where
  "encrypt_request c holder_id request =
     k_bind (require_live_traffic holder_id) (\<lambda>_.
     k_bind (current_session holder_id) (\<lambda>session.
     k_bind store_peer_id (\<lambda>sender_id.
     k_bind (store_next_outbound_seq (ses_key_handle session) Packet) (\<lambda>seq.
     let header = \<lparr>hdr_version = PROTOCOL_VERSION, hdr_sender_id = sender_id, hdr_receiver_id = holder_id,
           hdr_epoch = ses_epoch session, hdr_seq = seq\<rparr> in
     k_bind (k_ret (encode_pull_request request)) (\<lambda>plaintext.
     k_bind (store_seal c (ses_key_handle session) (nonce header Packet) (packet_aad header) plaintext) (\<lambda>ciphertext.
     k_ret (Inr \<lparr>cp_header = header, cp_ciphertext = ciphertext\<rparr>)))))))"

definition serve_packet :: "crypto \<Rightarrow> MemoryChunkStore \<Rightarrow> ControlPacket \<Rightarrow> PullResponse list kop" where
  "serve_packet c chunks packet =
     (let sender_id = hdr_sender_id (cp_header packet) in
      k_bind (require_live_traffic sender_id) (\<lambda>_.
      k_bind (current_session sender_id) (\<lambda>session.
      k_bind (store_open c (ses_key_handle session) (nonce (cp_header packet) Packet) (packet_aad (cp_header packet))
        (cp_ciphertext packet)) (\<lambda>plaintext.
      k_bind (k_ret (decode_pull_request plaintext)) (\<lambda>request.
      pull_serve c chunks request sender_id)))))"

section \<open>Accepting\<close>

fun stage_responses ::
  "crypto \<Rightarrow> MemoryChunkStore \<Rightarrow> TrustedManifest \<Rightarrow> PullResponse list \<Rightarrow> (FileId \<times> u64 \<times> bytes) list \<Rightarrow>
    ChunkId btree_set \<Rightarrow> (FileId \<times> u64 \<times> bytes) list kop" where
  "stage_responses c chunks trusted [] staged staged_ids = k_ret (Inr staged)"
| "stage_responses c chunks trusted (response # responses) staged staged_ids =
     (let body = pl_body response in
      k_bind (require_live_traffic (hdr_sender_id (cbf_header body))) (\<lambda>_.
      k_bind (current_session (hdr_sender_id (cbf_header body))) (\<lambda>session.
      k_bind (open_chunk c session body trusted) (\<lambda>plaintext.
      let expected = chunk_id (cr_sha256 c) (cbf_file_id body) (cbf_index body) plaintext in
      if chunk_has chunks expected \<or> expected \<in> set staged_ids
      then stage_responses c chunks trusted responses staged staged_ids
      else stage_responses c chunks trusted responses (staged @ [(cbf_file_id body, cbf_index body, plaintext)])
        (bs_insert expected staged_ids)))))"

fun put_staged ::
  "crypto \<Rightarrow> (FileId \<times> u64 \<times> bytes) list \<Rightarrow> MemoryChunkStore \<Rightarrow> nat \<Rightarrow> (MemoryChunkStore, MemoryChunkStore \<times> nat) hop" where
  "put_staged c [] clone count = h_ret (Inr (clone, count))"
| "put_staged c ((file_id, index, plaintext) # staged) clone count =
     h_bind h_get (\<lambda>chunks.
     let cid = chunk_id (cr_sha256 c) file_id index plaintext in
     if \<not> accepts_chunk chunks file_id index cid then put_staged c staged clone count
     else if \<not> chunk_has clone cid then
       h_bind (on_clone (\<lambda>f. f) (chunk_put (cr_sha256 c) clone file_id index plaintext)) (\<lambda>(clone, _).
       put_staged c staged clone (count + 1))
     else put_staged c staged clone count)"

definition pull_accept :: "crypto \<Rightarrow> PullResponse list \<Rightarrow> TrustedManifest \<Rightarrow> (MemoryChunkStore, nat) hop" where
  "pull_accept c responses trusted =
     h_bind h_get (\<lambda>chunks.
     h_bind (h_key (stage_responses c chunks trusted responses [] [])) (\<lambda>staged.
     h_bind (put_staged c staged chunks 0) (\<lambda>(clone, count).
     if count \<noteq> 0 then
       h_bind (on_clone (\<lambda>f. f) (persist_current (cr_sha256 c) clone)) (\<lambda>(clone, _).
       h_bind (h_modify (\<lambda>_. clone)) (\<lambda>_.
       h_ret (Inr count)))
     else h_ret (Inr count))))"

record PullReport =
  rp_chunks_written :: nat
  rp_holders_tried :: nat
  rp_missing :: "ChunkId list"

definition missing_chunks :: "MemoryChunkStore \<Rightarrow> PullRequest \<Rightarrow> ChunkId list" where
  "missing_chunks chunks request = filter (\<lambda>cid. \<not> chunk_has chunks cid) (pr_chunk_ids request)"

definition begin_pull :: "MemoryChunkStore \<Rightarrow> PullRequest \<Rightarrow> TrustedManifest \<Rightarrow> PullReport result" where
  "begin_pull chunks request trusted =
     and_then (guard_ok (\<not> list_ex (\<lambda>cid. cid \<notin> set (mf_chunk_ids (tm_manifest trusted))) (pr_chunk_ids request))
       AuthenticationFailed) (\<lambda>_.
     Inr \<lparr>rp_chunks_written = 0, rp_holders_tried = 0, rp_missing = missing_chunks chunks request\<rparr>)"

definition solicited :: "PeerId \<Rightarrow> TrustedManifest \<Rightarrow> PullRequest \<Rightarrow> PullResponse \<Rightarrow> bool" where
  "solicited holder trusted asked response \<longleftrightarrow>
     hdr_sender_id (cbf_header (pl_body response)) = holder \<and>
     cbf_file_id (pl_body response) = mf_file_id (tm_manifest trusted) \<and>
     (case listed_chunk (tm_manifest trusted) (cbf_index (pl_body response)) of
        None \<Rightarrow> False | Some cid \<Rightarrow> cid \<in> set (pr_chunk_ids asked))"

definition accept_holder ::
  "crypto \<Rightarrow> PeerId \<Rightarrow> PullResponse list \<Rightarrow> TrustedManifest \<Rightarrow> PullRequest \<Rightarrow> PullReport \<Rightarrow> (MemoryChunkStore, PullReport) hop" where
  "accept_holder c holder responses trusted asked report =
     (if length responses > length (pr_chunk_ids asked) \<or> \<not> list_all (solicited holder trusted asked) responses
      then h_ret (Inl AuthenticationFailed)
      else
        h_bind (pull_accept c responses trusted) (\<lambda>n.
        h_ret (Inr (report\<lparr>rp_chunks_written := rp_chunks_written report + n\<rparr>))))"

fun pull_loop ::
  "crypto \<Rightarrow> (PeerId \<Rightarrow> ControlPacket \<Rightarrow> PullResponse list result) \<Rightarrow> PullRequest \<Rightarrow> TrustedManifest \<Rightarrow> PeerId btree_set \<Rightarrow>
    PeerId list \<Rightarrow> PullReport \<Rightarrow> (MemoryChunkStore, PullReport) hop" where
  "pull_loop c fetch request trusted tried [] report = h_ret (Inr report)"
| "pull_loop c fetch request trusted tried (holder # candidates) report =
     (if rp_missing report = [] then h_ret (Inr report)
      else if holder \<in> set tried then pull_loop c fetch request trusted tried candidates report
      else
        (let tried = bs_insert holder tried in
         h_bind (h_ret (pull_request_new (rp_missing report))) (\<lambda>asked.
         h_bind (h_try (h_key (encrypt_request c holder asked))) (\<lambda>packet.
         case packet of
           Inl _ \<Rightarrow> pull_loop c fetch request trusted tried candidates report
         | Inr packet \<Rightarrow>
             (let report = report\<lparr>rp_holders_tried := rp_holders_tried report + 1\<rparr> in
              h_bind (case fetch holder packet of
                  Inl _ \<Rightarrow> h_ret (Inr report)
                | Inr responses \<Rightarrow> accept_holder c holder responses trusted asked report) (\<lambda>report.
              h_bind h_get (\<lambda>chunks.
              pull_loop c fetch request trusted tried candidates (report\<lparr>rp_missing := missing_chunks chunks request\<rparr>))))))))"

text \<open>\<open>fetch\<close> is the network exchange with a holder, whose answer is not trusted.\<close>

definition pull_from_holders ::
  "crypto \<Rightarrow> (PeerId \<Rightarrow> ControlPacket \<Rightarrow> PullResponse list result) \<Rightarrow> PullRequest \<Rightarrow> TrustedManifest \<Rightarrow> PeerId list \<Rightarrow>
    (MemoryChunkStore, PullReport) hop" where
  "pull_from_holders c fetch request trusted candidates =
     h_bind h_get (\<lambda>chunks.
     h_bind (h_ret (begin_pull chunks request trusted)) (\<lambda>report.
     pull_loop c fetch request trusted [] candidates report))"

text \<open>Over the network an exchange may also run out of time: no answer at all.\<close>

definition pull_from_holders_async ::
  "crypto \<Rightarrow> (PeerId \<Rightarrow> ControlPacket \<Rightarrow> PullResponse list result option) \<Rightarrow> PullRequest \<Rightarrow> TrustedManifest \<Rightarrow> PeerId list \<Rightarrow>
    (MemoryChunkStore, PullReport) hop" where
  "pull_from_holders_async c fetch =
     pull_from_holders c (\<lambda>holder packet. case fetch holder packet of None \<Rightarrow> Inl (State ''timeout'') | Some answer \<Rightarrow> answer)"

section \<open>What acceptance puts into the store\<close>

lemma chunk_put_done:
  assumes "chunk_put sha256 store file_id index plaintext s = (Ret (Inr (store', Inr cid)), s')"
  shows "cid = chunk_id sha256 file_id index plaintext" and "mc_metadata store' = mc_metadata store"
    and "fst ` set (mc_chunks store') = insert cid (fst ` set (mc_chunks store))"
    and "addressed sha256 (mc_chunks store) \<Longrightarrow> addressed sha256 (mc_chunks store')"
proof -
  let ?cid = "chunk_id sha256 file_id index plaintext"
  let ?r = "\<lparr>ck_file_id = file_id, ck_index = index, ck_plaintext = plaintext\<rparr>"
  have *: "cid = ?cid \<and> mc_metadata store' = mc_metadata store \<and> (?cid \<in> fst ` set (mc_chunks store) \<and> mc_chunks store' = mc_chunks store \<or>
      mc_chunks store' = bm_insert ?cid ?r (mc_chunks store))"
    using assms
    by (auto simp: chunk_put_def io_ret_def io_bind_def Let_def simp del: bm_contains_iff
        split: if_splits option.splits run.splits sum.splits prod.splits) simp
  then show "cid = ?cid" "mc_metadata store' = mc_metadata store" by blast+
  from * show "fst ` set (mc_chunks store') = insert cid (fst ` set (mc_chunks store))"
    by (elim conjE disjE) (simp_all add: insert_absorb)
  from * show "addressed sha256 (mc_chunks store) \<Longrightarrow> addressed sha256 (mc_chunks store')"
    by (elim conjE disjE) (simp_all add: addressed_insert)
qed

lemma accepts_retained:
  assumes "accepts_chunk store file_id index cid" and "mc_metadata store = Some m"
  shows "cid \<in> set (retain_ids m)"
proof -
  obtain manifest where "bm_get (rm_manifests m) file_id = Some manifest" "unat index < length (mf_chunk_ids manifest)"
      "mf_chunk_ids manifest ! unat index = cid"
    using assms by (auto simp: accepts_chunk_def split: if_splits option.splits)
  then show ?thesis
    unfolding retain_ids_iff by (metis imageI list.set_map map_of_SomeD nth_mem snd_conv)
qed

text \<open>Persisting the current metadata drops only chunks that nothing refers to.\<close>

lemma persist_current_done:
  assumes "persist_current sha256 store s = (Ret (Inr (store', Inr u)), s')"
  shows "set (mc_chunks store') \<subseteq> set (mc_chunks store)"
    and "\<lbrakk>chunk_has store cid; accepts_chunk store file_id index cid\<rbrakk> \<Longrightarrow> chunk_has store' cid"
    and "addressed sha256 (mc_chunks store) \<Longrightarrow> addressed sha256 (mc_chunks store')"
proof -
  have "mc_chunks store' = mc_chunks store \<or>
    (\<exists>m. mc_metadata store = Some m \<and> mc_chunks store' = bm_retain (\<lambda>c _. c \<in> set (retain_ids m)) (mc_chunks store))"
    using assms
    by (auto simp: persist_current_def persist_metadata_def durable_persist_def durable_publish_def adopt_published_def io_ret_def
        io_bind_def Let_def split: if_splits option.splits run.splits sum.splits prod.splits)
  then show "set (mc_chunks store') \<subseteq> set (mc_chunks store)"
      "\<lbrakk>chunk_has store cid; accepts_chunk store file_id index cid\<rbrakk> \<Longrightarrow> chunk_has store' cid"
      "addressed sha256 (mc_chunks store) \<Longrightarrow> addressed sha256 (mc_chunks store')"
    using accepts_retained [of store file_id index cid]
    by (auto simp: chunk_has_def addressed_def image_iff)
qed

lemma open_chunk_Inr:
  assumes "open_chunk c session frame trusted s = (Inr plaintext, s')"
  shows "cbf_file_id frame = mf_file_id (tm_manifest trusted)"
    and "listed_chunk (tm_manifest trusted) (cbf_index frame) =
      Some (chunk_id (cr_sha256 c) (cbf_file_id frame) (cbf_index frame) plaintext)"
  using assms by (auto simp: open_chunk_def Let_def k_bind_Inr k_simps)

text \<open>The chunks a response may deliver.\<close>

definition delivers :: "TrustedManifest \<Rightarrow> PullResponse \<Rightarrow> ChunkId \<Rightarrow> bool" where
  "delivers trusted response cid \<longleftrightarrow>
     cbf_file_id (pl_body response) = mf_file_id (tm_manifest trusted) \<and>
     listed_chunk (tm_manifest trusted) (cbf_index (pl_body response)) = Some cid"

definition staged_id :: "crypto \<Rightarrow> FileId \<times> u64 \<times> bytes \<Rightarrow> ChunkId" where
  "staged_id c x = (case x of (file_id, index, plaintext) \<Rightarrow> chunk_id (cr_sha256 c) file_id index plaintext)"

definition staged_from :: "crypto \<Rightarrow> TrustedManifest \<Rightarrow> PullResponse list \<Rightarrow> FileId \<times> u64 \<times> bytes \<Rightarrow> bool" where
  "staged_from c trusted responses x \<longleftrightarrow> (\<exists>r \<in> set responses. delivers trusted r (staged_id c x) \<and>
     fst x = cbf_file_id (pl_body r) \<and> fst (snd x) = cbf_index (pl_body r))"

lemma staged_from_mono: "staged_from c trusted rs x \<Longrightarrow> staged_from c trusted (r # rs) x"
  by (auto simp: staged_from_def)

lemma stage_responses_Inr:
  assumes "stage_responses c chunks trusted responses staged ids s = (Inr staged', s')"
  shows "set staged \<subseteq> set staged' \<and> (\<forall>x \<in> set staged'. x \<in> set staged \<or> staged_from c trusted responses x) \<and>
    (set ids \<subseteq> staged_id c ` set staged \<longrightarrow>
      (\<forall>r \<in> set responses. \<exists>cid. delivers trusted r cid \<and> (chunk_has chunks cid \<or> cid \<in> staged_id c ` set staged')))"
  using assms
proof (induction responses arbitrary: staged ids s)
  case Nil
  then show ?case by (auto simp: k_simps)
next
  case (Cons r rs)
  let ?b = "pl_body r"
  obtain session plaintext s1 s2 where o: "open_chunk c session ?b trusted s1 = (Inr plaintext, s2)"
    and rest: "(let expected = chunk_id (cr_sha256 c) (cbf_file_id ?b) (cbf_index ?b) plaintext in
      if chunk_has chunks expected \<or> expected \<in> set ids
      then stage_responses c chunks trusted rs staged ids
      else stage_responses c chunks trusted rs (staged @ [(cbf_file_id ?b, cbf_index ?b, plaintext)])
        (bs_insert expected ids)) s2 = (Inr staged', s')"
    using Cons.prems by (auto simp: Let_def k_bind_Inr k_simps)
  define x where "x = (cbf_file_id ?b, cbf_index ?b, plaintext)"
  have d: "delivers trusted r (staged_id c x)" and new: "staged_from c trusted (r # rs) x"
    using open_chunk_Inr [OF o] by (auto simp: delivers_def staged_from_def staged_id_def x_def)
  show ?case
  proof (cases "chunk_has chunks (staged_id c x) \<or> staged_id c x \<in> set ids")
    case True
    then have "stage_responses c chunks trusted rs staged ids s2 = (Inr staged', s')"
      using rest by (simp add: x_def staged_id_def)
    note ih = Cons.IH [OF this]
    show ?thesis
    proof (intro conjI impI ballI)
      show "set staged \<subseteq> set staged'" using ih by blast
      show "y \<in> set staged \<or> staged_from c trusted (r # rs) y" if "y \<in> set staged'" for y
        using ih that staged_from_mono by blast
      fix r' assume ids: "set ids \<subseteq> staged_id c ` set staged" and r': "r' \<in> set (r # rs)"
      show "\<exists>cid. delivers trusted r' cid \<and> (chunk_has chunks cid \<or> cid \<in> staged_id c ` set staged')"
      proof (cases "r' = r")
        case same: True
        with True d ids ih show ?thesis by (intro exI [of _ "staged_id c x"]) blast
      next
        case False
        with r' ids ih show ?thesis by auto
      qed
    qed
  next
    case False
    have "stage_responses c chunks trusted rs (staged @ [x]) (bs_insert (staged_id c x) ids) s2 = (Inr staged', s')"
      using rest False by (simp add: x_def staged_id_def)
    note ih = Cons.IH [OF this]
    have x: "x \<in> set staged'" using ih by simp
    show ?thesis
    proof (intro conjI impI ballI)
      show "set staged \<subseteq> set staged'" using ih by simp
      show "y \<in> set staged \<or> staged_from c trusted (r # rs) y" if "y \<in> set staged'" for y
      proof -
        have "y = x \<or> y \<in> set staged \<or> staged_from c trusted rs y" using ih that by simp
        then show ?thesis using new staged_from_mono by blast
      qed
      fix r' assume ids: "set ids \<subseteq> staged_id c ` set staged" and r': "r' \<in> set (r # rs)"
      show "\<exists>cid. delivers trusted r' cid \<and> (chunk_has chunks cid \<or> cid \<in> staged_id c ` set staged')"
      proof (cases "r' = r")
        case True
        with d x show ?thesis by (intro exI [of _ "staged_id c x"]) blast
      next
        case False
        moreover have "set (bs_insert (staged_id c x) ids) \<subseteq> staged_id c ` set (staged @ [x])" using ids by auto
        ultimately show ?thesis using r' ih by auto
      qed
    qed
  qed
qed

definition accepted_ids :: "crypto \<Rightarrow> MemoryChunkStore \<Rightarrow> (FileId \<times> u64 \<times> bytes) list \<Rightarrow> ChunkId set" where
  "accepted_ids c store staged = staged_id c ` {x \<in> set staged. accepts_chunk store (fst x) (fst (snd x)) (staged_id c x)}"

lemma accepted_ids_simps [simp]:
  "accepted_ids c store [] = {}"
  "accepted_ids c store (x # xs) =
    (if accepts_chunk store (fst x) (fst (snd x)) (staged_id c x) then insert (staged_id c x) (accepted_ids c store xs)
     else accepted_ids c store xs)"
  "accepted_ids c (share_durable k store) xs = accepted_ids c store xs"
  by (auto simp: accepted_ids_def accepts_chunk_def)

lemma put_staged_Inr:
  assumes "put_staged c staged clone n (store, w) = (Ret (Inr (clone', n')), store', w')"
    and "mc_metadata clone = mc_metadata store"
  shows "mc_metadata clone' = mc_metadata store \<and> mc_chunks store' = mc_chunks store \<and> mc_metadata store' = mc_metadata store \<and>
    fst ` set (mc_chunks clone') = fst ` set (mc_chunks clone) \<union> accepted_ids c store staged \<and>
    (addressed (cr_sha256 c) (mc_chunks clone) \<longrightarrow> addressed (cr_sha256 c) (mc_chunks clone')) \<and> n \<le> n' \<and>
    (n' = n \<longrightarrow> mc_chunks clone' = mc_chunks clone)"
  using assms
proof (induction staged arbitrary: clone n store w)
  case Nil
  then show ?case by (auto simp: h_simps)
next
  case (Cons x staged)
  obtain f i p where x: "x = (f, i, p)" by (cases x)
  have id: "chunk_id (cr_sha256 c) f i p = staged_id c x" by (simp add: x staged_id_def)
  have step: "(if \<not> accepts_chunk store f i (staged_id c x) then put_staged c staged clone n
      else if \<not> chunk_has clone (staged_id c x) then
        h_bind (on_clone (\<lambda>f. f) (chunk_put (cr_sha256 c) clone f i p)) (\<lambda>(clone, _). put_staged c staged clone (n + 1))
      else put_staged c staged clone n) (store, w) = (Ret (Inr (clone', n')), store', w')"
    using Cons.prems(1) unfolding x put_staged.simps h_bind_Inr h_simps Let_def id [unfolded x] by force
  show ?case
  proof (cases "accepts_chunk store f i (staged_id c x) \<and> \<not> chunk_has clone (staged_id c x)")
    case False
    then have "put_staged c staged clone n (store, w) = (Ret (Inr (clone', n')), store', w')"
      using step by (auto split: if_splits)
    from Cons.IH [OF this Cons.prems(2)] False show ?thesis by (auto simp: x chunk_has_def)
  next
    case True
    then obtain k u w1 where k: "on_clone (\<lambda>f. f) (chunk_put (cr_sha256 c) clone f i p) (store, w) = (Ret (Inr (k, u)), share_durable k store, w1)"
      and rest: "put_staged c staged k (n + 1) (share_durable k store, w1) = (Ret (Inr (clone', n')), store', w')"
      using step by (auto simp: h_bind_Inr on_clone_Inr)
    then obtain os d where "chunk_put (cr_sha256 c) clone f i p (wd_outcomes w, wd_dir w) = (Ret (Inr (k, Inr u)), os, d)"
      by (auto simp: on_clone_Inr)
    note put_done = chunk_put_done [OF this, unfolded id]
    have "mc_metadata k = mc_metadata (share_durable k store)" using put_done(2) Cons.prems(2) by simp
    from Cons.IH [OF rest this] True put_done show ?thesis by (auto simp: x)
  qed
qed

lemma put_staged_store:
  "put_staged c staged clone n (store, w) = (r, store', w') \<Longrightarrow> mc_chunks store' = mc_chunks store \<and> mc_metadata store' = mc_metadata store"
proof (induction staged arbitrary: clone n store w)
  case Nil
  then show ?case by (auto simp: h_ret_def)
next
  case (Cons x staged)
  obtain f i p where x: "x = (f, i, p)" by (cases x)
  show ?case
    using Cons.prems Cons.IH unfolding x put_staged.simps Let_def
    by (fastforce simp: h_bind_def h_get_def on_clone_def h_io_def h_modify_def h_ret_def
        split: if_splits run.splits sum.splits prod.splits)
qed

text \<open>
  A successful acceptance: every response was for a listed chunk; those the metadata still accepts are in
  the store afterwards; nothing else was added; the store stays content addressed.
\<close>

lemma delivers_listed: "delivers trusted r cid \<Longrightarrow> cid \<in> set (mf_chunk_ids (tm_manifest trusted))"
  by (auto simp: delivers_def listed_chunk_def split: if_splits)

lemma delivers_slot:
  assumes "delivers trusted r cid" and "delivers trusted r' cid" and "distinct (mf_chunk_ids (tm_manifest trusted))"
  shows "cbf_file_id (pl_body r') = cbf_file_id (pl_body r)" and "cbf_index (pl_body r') = cbf_index (pl_body r)"
  using assms by (auto simp: delivers_def listed_chunk_def nth_eq_iff_index_eq word_unat_eq_iff split: if_splits)

lemma pull_accept_Inr:
  assumes "pull_accept c responses trusted (store, w) = (Ret (Inr n), store', w')"
  shows "distinct (mf_chunk_ids (tm_manifest trusted)) \<Longrightarrow> \<forall>r \<in> set responses. \<exists>cid. delivers trusted r cid \<and>
      (accepts_chunk store (cbf_file_id (pl_body r)) (cbf_index (pl_body r)) cid \<longrightarrow> chunk_has store' cid)"
    and "chunk_has store' cid \<Longrightarrow> chunk_has store cid \<or> (\<exists>r \<in> set responses. delivers trusted r cid)"
    and "addressed (cr_sha256 c) (mc_chunks store) \<Longrightarrow> addressed (cr_sha256 c) (mc_chunks store')"
proof -
  obtain staged w1 clone n1 store1 w2 where
      st: "h_key (stage_responses c store trusted responses [] []) (store, w) = (Ret (Inr staged), store, w1)"
      and put: "put_staged c staged store 0 (store, w1) = (Ret (Inr (clone, n1)), store1, w2)"
      and fin: "(if n1 \<noteq> 0 then
         h_bind (on_clone (\<lambda>f. f) (persist_current (cr_sha256 c) clone)) (\<lambda>(clone, _).
         h_bind (h_modify (\<lambda>_. clone)) (\<lambda>_. h_ret (Inr n1)))
       else h_ret (Inr n1)) (store1, w2) = (Ret (Inr n), store', w')"
    using assms unfolding pull_accept_def h_bind_Inr h_simps by (auto simp: h_key_Inr)
  obtain s s' where "stage_responses c store trusted responses [] [] s = (Inr staged, s')"
    using st by (auto simp: h_key_Inr)
  note staged = stage_responses_Inr [OF this]
  note put_done = put_staged_Inr [OF put refl]
  have final: "set (mc_chunks store') \<subseteq> set (mc_chunks clone) \<and>
      (\<forall>cid f i. chunk_has clone cid \<longrightarrow> accepts_chunk store f i cid \<longrightarrow> chunk_has store' cid) \<and>
      (addressed (cr_sha256 c) (mc_chunks clone) \<longrightarrow> addressed (cr_sha256 c) (mc_chunks store'))"
  proof (cases "n1 = 0")
    case True
    then show ?thesis using fin put_done by (auto simp: h_simps chunk_has_def)
  next
    case False
    then obtain k u os d os' d' where "persist_current (cr_sha256 c) clone (os, d) = (Ret (Inr (k, Inr u)), os', d')" "store' = k"
      using fin by (auto simp: h_bind_Inr h_simps on_clone_Inr)
    moreover have "accepts_chunk clone = accepts_chunk store"
      using put_done by (simp add: accepts_chunk_def fun_eq_iff)
    ultimately show ?thesis
      using persist_current_done [of "cr_sha256 c" clone "(os, d)" k u "(os', d')"] by metis
  qed
  have keys: "chunk_has clone cid \<longleftrightarrow> chunk_has store cid \<or> cid \<in> accepted_ids c store staged" for cid
    using put_done by (auto simp: chunk_has_def)
  show "\<forall>r \<in> set responses. \<exists>cid. delivers trusted r cid \<and>
      (accepts_chunk store (cbf_file_id (pl_body r)) (cbf_index (pl_body r)) cid \<longrightarrow> chunk_has store' cid)"
    if distinct: "distinct (mf_chunk_ids (tm_manifest trusted))"
  proof
    fix r assume r: "r \<in> set responses"
    then obtain cid where d: "delivers trusted r cid" "chunk_has store cid \<or> cid \<in> staged_id c ` set staged"
      using staged by auto
    have "chunk_has store' cid" if acc: "accepts_chunk store (cbf_file_id (pl_body r)) (cbf_index (pl_body r)) cid"
    proof (cases "chunk_has store cid")
      case True
      then show ?thesis using final keys acc by blast
    next
      case False
      then obtain x where x: "x \<in> set staged" "cid = staged_id c x" using d by blast
      then obtain r' where r': "delivers trusted r' cid" "fst x = cbf_file_id (pl_body r')" "fst (snd x) = cbf_index (pl_body r')"
        using staged by (fastforce simp: staged_from_def)
      have "accepts_chunk store (fst x) (fst (snd x)) cid"
        using acc r'(2,3) delivers_slot [OF d(1) r'(1) distinct] by simp
      then have "cid \<in> accepted_ids c store staged" using x by (auto simp: accepted_ids_def)
      then show ?thesis using final keys acc by blast
    qed
    with d(1) show "\<exists>cid. delivers trusted r cid \<and>
        (accepts_chunk store (cbf_file_id (pl_body r)) (cbf_index (pl_body r)) cid \<longrightarrow> chunk_has store' cid)" by blast
  qed
  show "chunk_has store cid \<or> (\<exists>r \<in> set responses. delivers trusted r cid)" if "chunk_has store' cid"
  proof -
    have "chunk_has clone cid" using that final by (force simp: chunk_has_def)
    then show ?thesis
      unfolding keys using staged by (fastforce simp: accepted_ids_def staged_from_def)
  qed
  show "addressed (cr_sha256 c) (mc_chunks store) \<Longrightarrow> addressed (cr_sha256 c) (mc_chunks store')"
    using final put_done by blast
qed

section \<open>Pulling\<close>

lemma pull_loop_Inr:
  assumes "pull_loop c fetch request trusted tried hs report (store, w) = (Ret (Inr report'), store', w')"
    and "rp_missing report = missing_chunks store request"
  shows "rp_missing report' = missing_chunks store' request \<and>
    (addressed (cr_sha256 c) (mc_chunks store) \<longrightarrow> addressed (cr_sha256 c) (mc_chunks store')) \<and>
    (\<forall>cid. chunk_has store' cid \<longrightarrow> chunk_has store cid \<or> cid \<in> set (mf_chunk_ids (tm_manifest trusted)))"
  using assms
proof (induction hs arbitrary: tried report store w)
  case Nil
  then show ?case by (auto simp: h_simps)
next
  case (Cons holder hs)
  show ?case
  proof (cases "rp_missing report = [] \<or> holder \<in> set tried")
    case True
    with Cons show ?thesis by (auto simp: h_simps split: if_splits)
  next
    case False
    then obtain asked packet w1 where
        asked: "pull_request_new (rp_missing report) = Inr asked"
        and key: "h_try (h_key (encrypt_request c holder asked)) (store, w) = (Ret (Inr packet), store, w1)"
        and rest: "(case packet of
           Inl _ \<Rightarrow> pull_loop c fetch request trusted (bs_insert holder tried) hs report
         | Inr packet \<Rightarrow>
             (let report = report\<lparr>rp_holders_tried := rp_holders_tried report + 1\<rparr> in
              h_bind (case fetch holder packet of
                  Inl _ \<Rightarrow> h_ret (Inr report)
                | Inr responses \<Rightarrow> accept_holder c holder responses trusted asked report) (\<lambda>report.
              h_bind h_get (\<lambda>chunks.
              pull_loop c fetch request trusted (bs_insert holder tried) hs (report\<lparr>rp_missing := missing_chunks chunks request\<rparr>)))))
          (store, w1) = (Ret (Inr report'), store', w')"
    proof -
      have f: "(rp_missing report = []) = False" "(holder \<in> set tried) = False" using False by simp_all
      show ?thesis
        using Cons.prems(1) unfolding pull_loop.simps Let_def f if_False
          h_bind_Inr [where p = "h_ret _"] h_bind_Inr [where p = "h_try _"] h_simps
        using that [unfolded Let_def] h_try_key by (metis prod.collapse)
    qed
    show ?thesis
    proof (cases packet)
      case (Inl e)
      with rest Cons.IH Cons.prems(2) show ?thesis by simp
    next
      case (Inr p)
      then obtain report1 store1 w2 where
          got: "(case fetch holder p of
                  Inl _ \<Rightarrow> h_ret (Inr (report\<lparr>rp_holders_tried := rp_holders_tried report + 1\<rparr>))
                | Inr responses \<Rightarrow> accept_holder c holder responses trusted asked
                    (report\<lparr>rp_holders_tried := rp_holders_tried report + 1\<rparr>)) (store, w1) = (Ret (Inr report1), store1, w2)"
          and more: "pull_loop c fetch request trusted (bs_insert holder tried) hs
            (report1\<lparr>rp_missing := missing_chunks store1 request\<rparr>) (store1, w2) = (Ret (Inr report'), store', w')"
        using rest by (auto simp: Let_def h_bind_Inr h_simps simp del: add_Suc_right Suc_eq_plus1_left One_nat_def add_0_right add_Suc)
      have "(addressed (cr_sha256 c) (mc_chunks store) \<longrightarrow> addressed (cr_sha256 c) (mc_chunks store1)) \<and>
          (\<forall>cid. chunk_has store1 cid \<longrightarrow> chunk_has store cid \<or> cid \<in> set (mf_chunk_ids (tm_manifest trusted)))"
      proof (cases "fetch holder p")
        case (Inl e)
        with got show ?thesis by (auto simp: h_simps)
      next
        case (Inr responses)
        then obtain n where "pull_accept c responses trusted (store, w1) = (Ret (Inr n), store1, w2)"
          using got by (auto simp: accept_holder_def h_bind_Inr h_simps split: if_splits)
        from pull_accept_Inr(2,3) [OF this] delivers_listed show ?thesis by blast
      qed
      with Cons.IH [OF more] show ?thesis by auto
    qed
  qed
qed

end
