(* ===== verification/Host.thy ===== *)
theory Host
  imports Pull
begin

text \<open>
  The host service, \<open>backend/src/sync/host.rs\<close> and \<open>backend/src/sync/host/\<close>: the state of a vault, the
  queues of undelivered instructions and chunk bodies per member, committing an instruction, admission of
  members, kicking, acknowledgements and mailbox flushes. Every change is staged on a copy of the state
  and becomes visible only when its snapshot has been written. Clock readings, random values and signing
  keys are arguments of the operations.
\<close>

section \<open>State\<close>

record Queued =
  qd_envelope :: MailboxEnvelope
  qd_content :: QueueContent

record OnlineControl =
  oc_packet :: ControlPacket
  oc_record :: ControlRecord
  oc_queued_at :: u64

record HostState =
  hs_expected_root :: FileId
  hs_tree :: DirectoryTree
  hs_acked_through :: "(PeerId, u64) btree_map"
  hs_host_id :: PeerId
  hs_members :: "PeerId btree_set"
  hs_denied :: "PeerId btree_set"
  hs_historical_members :: "PeerId btree_set"
  hs_identity_documents :: "(PeerId, IdentityDocument) btree_map"
  hs_bootstrap_through :: "(PeerId, u64) btree_map"
  hs_chunks :: MemoryChunkStore
  hs_manifests :: trusted_map
  hs_log :: "ControlRecord list"
  hs_next_control :: u64
  hs_mailboxes :: "(PeerId, Queued list) btree_map"
  hs_online :: "(PeerId, OnlineControl list) btree_map"
  hs_gate_owner :: u64
  hs_admission :: "VaultMetadata option"

record HostService =
  h_state :: HostState
  h_presence :: "(PeerId, nat) btree_map"
  h_challenges :: "(PeerId, FlushChallenge) btree_map"
  h_running :: bool
  h_defer_persistence :: bool
  h_admission_path :: bool
  h_disconnects :: "PeerId list"
  h_recent_ops :: "(u64 \<times> PeerId \<times> u64) list"
  h_last_seen :: "(PeerId, u64) btree_map"

definition MAX_BOOTSTRAP_FRAMES :: nat where "MAX_BOOTSTRAP_FRAMES = 100000"
definition MAX_BOOTSTRAP_BYTES :: nat where "MAX_BOOTSTRAP_BYTES = 64 * 1024 * 1024"
definition BOOTSTRAP_FRAME_OVERHEAD :: nat where "BOOTSTRAP_FRAME_OVERHEAD = 256"
definition RECENT_OPS :: nat where "RECENT_OPS = 2048"

text \<open>
  What an operation reads of the outside: the instant at which a member's presence is checked, the wall
  clock in seconds (twice) and milliseconds, and a fresh join code.
\<close>

record host_env =
  he_now :: "PeerId \<Rightarrow> nat"
  he_time :: "u64 result"
  he_kick_time :: "u64 result"
  he_millis :: u64
  he_code :: "JoinCode result"

definition upd_state :: "(HostState \<Rightarrow> HostState) \<Rightarrow> HostService \<Rightarrow> HostService" where
  "upd_state f self = self\<lparr>h_state := f (h_state self)\<rparr>"

definition upd_chunks :: "(MemoryChunkStore \<Rightarrow> MemoryChunkStore) \<Rightarrow> HostService \<Rightarrow> HostService" where
  "upd_chunks f = upd_state (\<lambda>st. st\<lparr>hs_chunks := f (hs_chunks st)\<rparr>)"

section \<open>Sealing\<close>

definition seal_control :: "crypto \<Rightarrow> PairSession \<Rightarrow> ControlRecord \<Rightarrow> ControlPacket kop" where
  "seal_control c session record =
     k_bind store_peer_id (\<lambda>sender_id.
     k_bind (store_next_outbound_seq (ses_key_handle session) Packet) (\<lambda>seq.
     let header = \<lparr>hdr_version = PROTOCOL_VERSION, hdr_sender_id = sender_id, hdr_receiver_id = ses_peer_id session,
           hdr_epoch = ses_epoch session, hdr_seq = seq\<rparr> in
     k_bind (k_ret (encode_control_record record)) (\<lambda>plaintext.
     k_bind (store_seal c (ses_key_handle session) (nonce header Packet) (packet_aad header) plaintext) (\<lambda>ciphertext.
     k_ret (Inr \<lparr>cp_header = header, cp_ciphertext = ciphertext\<rparr>)))))"

definition control_envelope :: "ControlPacket \<Rightarrow> u64 \<Rightarrow> MailboxEnvelope result" where
  "control_envelope packet queued_at =
     and_then (encode_mailbox_frame (MfControl (cp_ciphertext packet))) (\<lambda>ciphertext.
     Inr \<lparr>me_recipient_id = hdr_receiver_id (cp_header packet), me_sender_id = hdr_sender_id (cp_header packet),
          me_epoch = hdr_epoch (cp_header packet), me_seq = hdr_seq (cp_header packet), me_queued_at = queued_at,
          me_ciphertext = ciphertext\<rparr>)"

definition chunk_envelope :: "ChunkBodyFrame \<Rightarrow> u64 \<Rightarrow> MailboxEnvelope result" where
  "chunk_envelope frame queued_at =
     and_then (encode_mailbox_frame (MfChunkBody (cbf_file_id frame) (cbf_index frame) (cbf_ciphertext frame))) (\<lambda>ciphertext.
     Inr \<lparr>me_recipient_id = hdr_receiver_id (cbf_header frame), me_sender_id = hdr_sender_id (cbf_header frame),
          me_epoch = hdr_epoch (cbf_header frame), me_seq = hdr_seq (cbf_header frame), me_queued_at = queued_at,
          me_ciphertext = ciphertext\<rparr>)"

definition queue_control :: "crypto \<Rightarrow> PairSession \<Rightarrow> u64 \<Rightarrow> ControlRecord \<Rightarrow> Queued kop" where
  "queue_control c session queued_at record =
     k_bind (seal_control c session record) (\<lambda>packet.
     k_bind (k_ret (control_envelope packet queued_at)) (\<lambda>envelope.
     k_ret (Inr \<lparr>qd_envelope = envelope, qd_content = QControl record\<rparr>)))"

definition queue_chunk :: "crypto \<Rightarrow> PairSession \<Rightarrow> u64 \<Rightarrow> FileId \<Rightarrow> u64 \<Rightarrow> ChunkId \<Rightarrow> bytes \<Rightarrow> Queued kop" where
  "queue_chunk c session queued_at file_id index cid plaintext =
     k_bind (encrypt_at_send c session file_id index plaintext) (\<lambda>frame.
     k_bind (k_ret (chunk_envelope frame queued_at)) (\<lambda>envelope.
     k_ret (Inr \<lparr>qd_envelope = envelope, qd_content = QChunk file_id index cid\<rparr>)))"

section \<open>Snapshots of the state\<close>

fun controls_of :: "QueueContent list \<Rightarrow> ControlRecord list" where
  "controls_of [] = []"
| "controls_of (QControl record # queue) = record # controls_of queue"
| "controls_of (QChunk _ _ _ # queue) = controls_of queue"

definition is_chunk :: "QueueContent \<Rightarrow> bool" where
  "is_chunk content = (case content of QChunk _ _ _ \<Rightarrow> True | QControl _ \<Rightarrow> False)"

text \<open>A member's queue with every instruction of the log that it may still need.\<close>

definition recoverable_queue :: "HostState \<Rightarrow> PeerId \<Rightarrow> QueueContent list \<Rightarrow> QueueContent list" where
  "recoverable_queue st peer queue =
     (let covered = max (bm_or_default 0 (hs_acked_through st) peer) (bm_or_default 0 (hs_bootstrap_through st) peer);
          known = map cr_id (controls_of queue);
          missing = filter (\<lambda>record. cr_id record > covered \<and> cr_id record \<notin> set known) (hs_log st) in
      if missing = [] then queue
      else map QControl (sort_key cr_id (controls_of queue @ missing)) @ filter is_chunk queue)"

definition host_metadata :: "HostState \<Rightarrow> ReplicaMetadata" where
  "host_metadata st =
     (let contents = map (\<lambda>(peer, queue). (peer, map qd_content queue)) (hs_mailboxes st);
          mailboxes = fold (\<lambda>peer mailboxes.
            if peer = hs_host_id st then mailboxes
            else bm_insert peer (recoverable_queue st peer (bm_or_default [] mailboxes peer)) mailboxes)
            (hs_members st) contents in
      (replica_new (hs_expected_root st))\<lparr>rm_members := hs_members st, rm_denied := hs_denied st,
        rm_historical_members := hs_historical_members st, rm_identity_documents := hs_identity_documents st,
        rm_bootstrap_through := hs_bootstrap_through st, rm_admission := hs_admission st,
        rm_dirents := dirents (hs_tree st), rm_manifests := map (\<lambda>(file_id, trusted). (file_id, tm_manifest trusted)) (hs_manifests st),
        rm_log := hs_log st, rm_next_control := hs_next_control st, rm_acked_through := hs_acked_through st,
        rm_mailboxes := bm_retain (\<lambda>_ queue. queue \<noteq> []) mailboxes\<rparr>)"

section \<open>Archived identities\<close>

text \<open>An unknown peer is not an error here.\<close>

definition k_known :: "'a kop \<Rightarrow> 'a option kop" where
  "k_known p s = (case p s of
       (Inr x, s') \<Rightarrow> (Inr (Some x), s')
     | (Inl e, s') \<Rightarrow> (if e = KeyUnavailable then Inr None else Inl e, s'))"

fun archive_documents ::
  "crypto \<Rightarrow> PeerId list \<Rightarrow> (PeerId, IdentityDocument) btree_map \<Rightarrow> (PeerId, IdentityDocument) btree_map kop" where
  "archive_documents c [] archive = k_ret (Inr archive)"
| "archive_documents c (peer # peers) archive =
     (if bm_contains archive peer then archive_documents c peers archive
      else
        k_bind store_peer_id (\<lambda>me.
        k_bind (if peer = me then k_bind store_identity (\<lambda>d. k_ret (Inr (Some d))) else k_known (load_verified_peer peer)) (\<lambda>document.
        case document of
          None \<Rightarrow> archive_documents c peers archive
        | Some document \<Rightarrow>
            k_bind (k_ret (identity_verify c document)) (\<lambda>_.
            archive_documents c peers (bm_insert peer document archive)))))"

definition writers_of :: "ControlRecord list \<Rightarrow> PeerId list" where
  "writers_of log = List.map_filter (\<lambda>record. case cr_update record of NewManifest manifest \<Rightarrow> Some (mf_writer_id manifest) | _ \<Rightarrow> None) log"

definition require_writer_documents ::
  "trusted_map \<Rightarrow> ControlRecord list \<Rightarrow> (PeerId, IdentityDocument) btree_map \<Rightarrow> unit result" where
  "require_writer_documents manifests log documents =
     fold_ok (\<lambda>writer _. guard_ok (bm_contains documents writer) KeyUnavailable)
       (map (\<lambda>trusted. mf_writer_id (tm_manifest trusted)) (bm_values manifests) @ writers_of log) ()"

definition archive_host :: "crypto \<Rightarrow> HostState \<Rightarrow> HostState kop" where
  "archive_host c staged =
     (let staged = staged\<lparr>hs_historical_members := bs_extend (hs_members staged) (hs_historical_members staged)\<rparr> in
      k_bind (archive_documents c (hs_historical_members staged) (hs_identity_documents staged)) (\<lambda>documents.
      k_bind (k_ret (require_writer_documents (hs_manifests staged) (hs_log staged) documents)) (\<lambda>_.
      k_ret (Inr (staged\<lparr>hs_identity_documents := documents\<rparr>)))))"

section \<open>Publishing\<close>

definition log_floor :: "HostState \<Rightarrow> u64" where
  "log_floor st = (case min_list_opt (map (bm_or_default 0 (hs_acked_through st)) (hs_members st)) of None \<Rightarrow> 0 | Some n \<Rightarrow> n)"

definition trim_state :: "HostState \<Rightarrow> HostState" where
  "trim_state st =
     (let st = st\<lparr>hs_admission := map_option (\<lambda>admission.
            admission\<lparr>vm_members := hs_members st, vm_denied := hs_denied st\<rparr>) (hs_admission st)\<rparr> in
      st\<lparr>hs_log := filter (\<lambda>record. cr_id record > log_floor st) (hs_log st)\<rparr>)"

definition write_snapshot :: "crypto \<Rightarrow> HostService \<Rightarrow> MemoryChunkStore \<Rightarrow> ReplicaMetadata \<Rightarrow> (MemoryChunkStore \<times> unit result) io" where
  "write_snapshot c self chunks metadata =
     (if h_defer_persistence self then io_ret (Inr (chunks\<lparr>mc_metadata := Some metadata\<rparr>, Inr ()))
      else (case (if h_admission_path self then rm_admission metadata else None) of
          Some admission \<Rightarrow>
            (case encode_vault_metadata admission of
               Inl e \<Rightarrow> io_ret (Inr (chunks, Inl e))
             | Inr bs \<Rightarrow> persist_metadata_with_admission (cr_sha256 c) chunks metadata bs)
        | None \<Rightarrow> persist_metadata (cr_sha256 c) chunks metadata))"

definition publish_state :: "crypto \<Rightarrow> HostState \<Rightarrow> (HostService, unit) hop" where
  "publish_state c staged =
     h_bind (h_key (archive_host c staged)) (\<lambda>staged.
     let staged = trim_state staged in
     h_bind h_get (\<lambda>self.
     h_bind (on_clone upd_chunks (write_snapshot c self (hs_chunks staged) (host_metadata staged))) (\<lambda>(chunks, _).
     h_modify (upd_state (\<lambda>_. staged\<lparr>hs_chunks := chunks\<rparr>)))))"

section \<open>Queries\<close>

definition require_running :: "HostService \<Rightarrow> unit result" where
  "require_running self = guard_ok (h_running self) (State ''host is not running'')"

definition require_member :: "HostService \<Rightarrow> PeerId \<Rightarrow> unit result" where
  "require_member self peer = guard_ok (peer \<in> set (hs_members (h_state self))) AuthenticationFailed"

text \<open>The time a heartbeat stays valid, if it has not run out at \<open>now\<close>.\<close>

definition host_presence :: "HostService \<Rightarrow> nat \<Rightarrow> PeerId \<Rightarrow> nat option result" where
  "host_presence self now peer =
     and_then (require_running self) (\<lambda>_.
     and_then (require_member self peer) (\<lambda>_.
     Inr (case bm_get (h_presence self) peer of
         None \<Rightarrow> None
       | Some expires \<Rightarrow> if now \<le> expires \<and> expires - now \<noteq> 0 then Some (expires - now) else None)))"

text \<open>\<open>expires\<close> is the present instant plus the time to live, unless that is not an instant.\<close>

definition heartbeat :: "u64 \<Rightarrow> nat option \<Rightarrow> PeerId \<Rightarrow> (HostService, unit) hop" where
  "heartbeat millis expires peer =
     h_bind h_get (\<lambda>self.
     h_bind (h_ret (require_running self)) (\<lambda>_.
     h_bind (h_ret (require_member self peer)) (\<lambda>_.
     h_bind (h_ret (ok_or expires (InvalidInput ''presence TTL overflow''))) (\<lambda>expires.
     h_modify (\<lambda>self. self\<lparr>h_presence := bm_insert peer expires (h_presence self),
       h_last_seen := bm_insert peer millis (h_last_seen self)\<rparr>)))))"

definition queued_ops :: "HostService \<Rightarrow> PeerId \<Rightarrow> nat" where
  "queued_ops self peer = (case bm_get (hs_mailboxes (h_state self)) peer of None \<Rightarrow> 0 | Some queue \<Rightarrow> length queue)"

definition recent_ops_since :: "HostService \<Rightarrow> u64 \<Rightarrow> (u64 \<times> PeerId \<times> u64) list" where
  "recent_ops_since self since = filter (\<lambda>(n, _, _). n > since) (h_recent_ops self)"

definition used_bytes :: "HostService \<Rightarrow> u64" where
  "used_bytes self = fold (\<lambda>(_, trusted) total. saturating_add total (mf_size (tm_manifest trusted)))
     (filter (\<lambda>(file_id, _). is_linked_file (hs_tree (h_state self)) file_id) (hs_manifests (h_state self))) 0"

definition note_recent_op :: "u64 \<Rightarrow> PeerId \<Rightarrow> u64 \<Rightarrow> HostService \<Rightarrow> HostService" where
  "note_recent_op millis sender_id id_before self =
     (if hs_next_control (h_state self) \<le> id_before \<or>
         (h_recent_ops self \<noteq> [] \<and> fst (List.last (h_recent_ops self)) = id_before) then self
      else
        (let ops = (if length (h_recent_ops self) \<ge> RECENT_OPS then tl (h_recent_ops self) else h_recent_ops self) in
         self\<lparr>h_recent_ops := ops @ [(id_before, sender_id, millis)]\<rparr>))"

definition validate_chunk :: "crypto \<Rightarrow> MemoryChunkStore \<Rightarrow> Manifest \<Rightarrow> nat \<times> ChunkId \<Rightarrow> u64 \<Rightarrow> u64 result" where
  "validate_chunk c chunks manifest entry n = (case entry of (index, cid) \<Rightarrow>
     and_then (ok_or (get_record chunks cid) (State ''committed chunk missing on H'')) (\<lambda>record.
     and_then (guard_ok (\<not> (ck_file_id record \<noteq> mf_file_id manifest \<or> ck_index record \<noteq> of_nat index \<or>
         chunk_id (cr_sha256 c) (mf_file_id manifest) (of_nat index) (ck_plaintext record) \<noteq> cid)) AuthenticationFailed) (\<lambda>_.
     ok_or (checked_add n (of_nat (length (ck_plaintext record)))) AuthenticationFailed)))"

definition validate_replica :: "crypto \<Rightarrow> MemoryChunkStore \<Rightarrow> TrustedManifest \<Rightarrow> unit result" where
  "validate_replica c chunks trusted =
     (let manifest = tm_manifest trusted in
      and_then (fold_ok (validate_chunk c chunks manifest) (enumerate 0 (mf_chunk_ids manifest)) 0) (\<lambda>total.
      guard_ok (total = mf_size manifest) AuthenticationFailed))"

section \<open>Re-sealing for a new epoch\<close>

definition k_try :: "'a kop \<Rightarrow> 'a result kop" where
  "k_try p s = (case p s of (r, s') \<Rightarrow> (Inr r, s'))"

text \<open>
  Entries are sealed again in place: what was done before an error stays. The loops return the entries
  with the outcome.
\<close>

fun reseal_pending :: "crypto \<Rightarrow> PairSession \<Rightarrow> OnlineControl list \<Rightarrow> (OnlineControl list \<times> unit result) kop" where
  "reseal_pending c session [] = k_ret (Inr ([], Inr ()))"
| "reseal_pending c session (old # pending) =
     k_bind (if hdr_epoch (cp_header (oc_packet old)) \<noteq> ses_epoch session
         then k_try (seal_control c session (oc_record old)) else k_ret (Inr (Inr (oc_packet old)))) (\<lambda>packet.
     case packet of
       Inl e \<Rightarrow> k_ret (Inr (old # pending, Inl e))
     | Inr packet \<Rightarrow>
         k_bind (reseal_pending c session pending) (\<lambda>(pending, r).
         k_ret (Inr (old\<lparr>oc_packet := packet\<rparr> # pending, r))))"

definition reseal_entry :: "crypto \<Rightarrow> MemoryChunkStore \<Rightarrow> PairSession \<Rightarrow> Queued \<Rightarrow> Queued kop" where
  "reseal_entry c chunks session entry =
     (let time = me_queued_at (qd_envelope entry) in
      k_bind (case qd_content entry of
          QControl record \<Rightarrow>
            k_bind (seal_control c session record) (\<lambda>packet. k_ret (control_envelope packet time))
        | QChunk file_id index cid \<Rightarrow>
            k_bind (k_ret (ok_or (chunk_get chunks cid) (State ''queued plaintext missing''))) (\<lambda>plaintext.
            k_bind (encrypt_at_send c session file_id index plaintext) (\<lambda>frame.
            k_ret (chunk_envelope frame time)))) (\<lambda>envelope.
      k_ret (Inr (entry\<lparr>qd_envelope := envelope\<rparr>))))"

fun reseal_queue :: "crypto \<Rightarrow> MemoryChunkStore \<Rightarrow> PairSession \<Rightarrow> Queued list \<Rightarrow> (Queued list \<times> unit result) kop" where
  "reseal_queue c chunks session [] = k_ret (Inr ([], Inr ()))"
| "reseal_queue c chunks session (entry # queue) =
     k_bind (if me_epoch (qd_envelope entry) = ses_epoch session
         then k_ret (Inr (Inr entry)) else k_try (reseal_entry c chunks session entry)) (\<lambda>sealed.
     case sealed of
       Inl e \<Rightarrow> k_ret (Inr (entry # queue, Inl e))
     | Inr sealed \<Rightarrow>
         k_bind (reseal_queue c chunks session queue) (\<lambda>(queue, r).
         k_ret (Inr (sealed # queue, r))))"

definition refresh_mailbox :: "crypto \<Rightarrow> PeerId \<Rightarrow> (HostService, unit) hop" where
  "refresh_mailbox c peer =
     h_bind h_get (\<lambda>self.
     let st = h_state self; queue = bm_or_default [] (hs_mailboxes st) peer in
     if queue = [] then h_ret (Inr ())
     else
       h_bind (h_key (block_live_traffic peer (hs_gate_owner st))) (\<lambda>_.
       h_bind (h_key (current_session peer)) (\<lambda>session.
       let stale_chunks = list_ex (\<lambda>entry. me_epoch (qd_envelope entry) \<noteq> ses_epoch session \<and> is_chunk (qd_content entry)) queue;
           new_chunks = list_ex (\<lambda>entry. me_epoch (qd_envelope entry) = ses_epoch session \<and> is_chunk (qd_content entry)) queue in
       h_bind (if stale_chunks \<and> \<not> new_chunks then
           h_bind (h_key (store_next_outbound_seq (ses_key_handle session) ChunkBody)) (\<lambda>seq.
           h_guard (\<not> seq \<noteq> Seq 1) (State ''new epoch was used before mailbox re-seal''))
         else h_ret (Inr ())) (\<lambda>_.
       h_bind (h_key (reseal_queue c (hs_chunks st) session queue)) (\<lambda>(queue, r).
       h_bind (h_modify (upd_state (\<lambda>st. st\<lparr>hs_mailboxes := bm_insert peer queue (hs_mailboxes st)\<rparr>))) (\<lambda>_.
       h_ret r))))))"

definition refresh_mailboxes :: "crypto \<Rightarrow> (HostService, unit) hop" where
  "refresh_mailboxes c =
     h_bind h_get (\<lambda>self.
     h_bind (h_ret (require_running self)) (\<lambda>_.
     h_iter (refresh_mailbox c) (bm_keys (hs_mailboxes (h_state self)))))"

section \<open>Committing an instruction\<close>

record prepared =
  pq_queues :: "(PeerId, Queued list) btree_map"
  pq_online :: "(PeerId, OnlineControl list) btree_map"
  pq_blocked :: "PeerId list"

definition migrate_pending :: "OnlineControl list \<Rightarrow> Queued list result" where
  "migrate_pending pending = map_ok (\<lambda>old.
     and_then (control_envelope (oc_packet old) (oc_queued_at old)) (\<lambda>envelope.
     Inr \<lparr>qd_envelope = envelope, qd_content = QControl (oc_record old)\<rparr>)) pending"

definition of_file :: "FileId \<Rightarrow> Queued \<Rightarrow> bool" where
  "of_file file_id entry = (case qd_content entry of QChunk old _ _ \<Rightarrow> old = file_id | QControl _ \<Rightarrow> False)"

definition of_slot :: "FileId \<Rightarrow> u64 \<Rightarrow> Queued \<Rightarrow> bool" where
  "of_slot file_id index entry =
     (case qd_content entry of QChunk old old_index _ \<Rightarrow> old = file_id \<and> old_index = index | QControl _ \<Rightarrow> False)"

definition keep_body :: "bool \<Rightarrow> Manifest \<Rightarrow> Queued \<Rightarrow> bool" where
  "keep_body bootstrap_pending current entry = (case qd_content entry of
       QChunk file_id index cid \<Rightarrow>
         if file_id = mf_file_id current then bootstrap_pending \<or> listed_chunk current index = Some cid else True
     | QControl _ \<Rightarrow> True)"

definition slot_changed :: "TrustedManifest option \<Rightarrow> nat \<Rightarrow> ChunkId \<Rightarrow> bool" where
  "slot_changed prior index cid = (case prior of
       None \<Rightarrow> True
     | Some old \<Rightarrow> \<not> (index < length (mf_chunk_ids (tm_manifest old)) \<and> mf_chunk_ids (tm_manifest old) ! index = cid))"

fun queue_bodies ::
  "crypto \<Rightarrow> HostState \<Rightarrow> PairSession \<Rightarrow> u64 \<Rightarrow> Manifest \<Rightarrow> (nat \<times> ChunkId) list \<Rightarrow> Queued list \<Rightarrow> Queued list kop" where
  "queue_bodies c st session queued_at current [] queue = k_ret (Inr queue)"
| "queue_bodies c st session queued_at current ((slot, cid) # slots) queue =
     (if \<not> slot_changed (bm_get (hs_manifests st) (mf_file_id current)) slot cid
      then queue_bodies c st session queued_at current slots queue
      else
        (let index = of_nat slot in
         k_bind (k_ret (ok_or (chunk_get (hs_chunks st) cid) (State ''committed plaintext missing''))) (\<lambda>plaintext.
         k_bind (queue_chunk c session queued_at (mf_file_id current) index cid plaintext) (\<lambda>entry.
         queue_bodies c st session queued_at current slots
           (filter (\<lambda>e. \<not> of_slot (mf_file_id current) index e) queue @ [entry])))))"

text \<open>An offline recipient's queue: earlier live instructions, the new one, and the bodies it needs.\<close>

definition prepare_queue ::
  "crypto \<Rightarrow> HostState \<Rightarrow> PairSession \<Rightarrow> ControlRecord \<Rightarrow> TrustedManifest option \<Rightarrow> FileId option \<Rightarrow> u64 \<Rightarrow> ControlPacket \<Rightarrow>
    PeerId \<Rightarrow> OnlineControl list \<Rightarrow> Queued list \<Rightarrow> Queued list kop" where
  "prepare_queue c st session record trusted removed_file queued_at packet peer undelivered queue =
     k_bind (k_ret (migrate_pending undelivered)) (\<lambda>migrated.
     k_bind (k_ret (control_envelope packet queued_at)) (\<lambda>envelope.
     let queue = queue @ migrated @ [\<lparr>qd_envelope = envelope, qd_content = QControl record\<rparr>];
         queue = (case removed_file of None \<Rightarrow> queue | Some file_id \<Rightarrow> filter (\<lambda>e. \<not> of_file file_id e) queue) in
     case cr_update record of
       NewManifest _ \<Rightarrow>
         k_bind (k_ret (ok_or trusted (State ''missing verified commit''))) (\<lambda>trusted.
         let current = tm_manifest trusted in
         queue_bodies c st session queued_at current (enumerate 0 (mf_chunk_ids current))
           (filter (keep_body (bm_contains (hs_bootstrap_through st) peer) current) queue))
     | _ \<Rightarrow> k_ret (Inr queue)))"

definition is_live :: "HostService \<Rightarrow> nat \<Rightarrow> PeerId \<Rightarrow> bool kop" where
  "is_live self now peer =
     k_bind (k_ret (host_presence self now peer)) (\<lambda>presence.
     if presence = None then k_ret (Inr False)
     else k_bind (k_try (require_live_traffic peer)) (\<lambda>r. k_ret (Inr (is_ok r))))"

definition prepare_recipient ::
  "crypto \<Rightarrow> (PeerId \<Rightarrow> nat) \<Rightarrow> HostService \<Rightarrow> ControlRecord \<Rightarrow> TrustedManifest option \<Rightarrow> FileId option \<Rightarrow> u64 \<Rightarrow> PeerId \<Rightarrow>
    (prepared, unit) hop" where
  "prepare_recipient c now self record trusted removed_file queued_at peer =
     (let st = h_state self in
      h_bind (h_key (is_live self (now peer) peer)) (\<lambda>live.
      h_bind (if live then h_ret (Inr ())
        else h_bind (h_key (block_live_traffic peer (hs_gate_owner st))) (\<lambda>_.
          h_modify (\<lambda>p. p\<lparr>pq_blocked := pq_blocked p @ [peer]\<rparr>))) (\<lambda>_.
      h_bind (h_key (current_session peer)) (\<lambda>session.
      h_bind h_get (\<lambda>p.
      h_bind (h_key (reseal_pending c session (bm_or_default [] (pq_online p) peer))) (\<lambda>(pending, r).
      h_bind (h_ret r) (\<lambda>_.
      h_bind (h_key (seal_control c session record)) (\<lambda>packet.
      if live then
        h_modify (\<lambda>p. p\<lparr>pq_online := bm_insert peer
          (pending @ [\<lparr>oc_packet = packet, oc_record = record, oc_queued_at = queued_at\<rparr>]) (pq_online p)\<rparr>)
      else
        h_bind (h_key (prepare_queue c st session record trusted removed_file queued_at packet peer pending
          (bm_or_default [] (pq_queues p) peer))) (\<lambda>queue.
        h_modify (\<lambda>p. p\<lparr>pq_queues := bm_insert peer queue (pq_queues p),
          pq_online := bm_remove peer (pq_online p)\<rparr>))))))))))"

text \<open>After a failed commit the gates it closed open again, except for members that have mail.\<close>

definition unblock_idle :: "PeerId list \<Rightarrow> (HostService, unit) hop" where
  "unblock_idle blocked =
     h_iter (\<lambda>peer.
       h_bind h_get (\<lambda>self.
       if bm_or_default [] (hs_mailboxes (h_state self)) peer = []
       then h_key (unblock_live_traffic peer (hs_gate_owner (h_state self))) else h_ret (Inr ()))) blocked"

definition rotate_admission :: "host_env \<Rightarrow> JoinCode option \<Rightarrow> VaultMetadata \<Rightarrow> VaultMetadata result" where
  "rotate_admission env rotated admission =
     and_then (case rotated of Some code \<Rightarrow> Inr code | None \<Rightarrow> he_code env) (\<lambda>code.
     and_then (he_kick_time env) (\<lambda>now.
     and_then (ok_or (checked_add (vm_issued_at admission) 1) (State ''ad timestamp exhausted'')) (\<lambda>successor.
     and_then (ok_or (checked_add (max now successor) 1) (State ''ad timestamp exhausted'')) (\<lambda>issued_at.
     Inr (admission\<lparr>vm_join_code := code, vm_issued_at := issued_at\<rparr>)))))"

definition stage_kick :: "host_env \<Rightarrow> JoinCode option \<Rightarrow> PeerId \<Rightarrow> HostState \<Rightarrow> HostState result" where
  "stage_kick env rotated target staged =
     (let staged = staged\<lparr>hs_members := bs_remove target (hs_members staged),
            hs_acked_through := bm_remove target (hs_acked_through staged),
            hs_bootstrap_through := bm_remove target (hs_bootstrap_through staged),
            hs_mailboxes := bm_remove target (hs_mailboxes staged),
            hs_online := bm_remove target (hs_online staged),
            hs_denied := bs_insert target (hs_denied staged)\<rparr> in
      case hs_admission staged of
        None \<Rightarrow> Inr staged
      | Some admission \<Rightarrow>
          and_then (rotate_admission env rotated admission) (\<lambda>admission.
          Inr (staged\<lparr>hs_admission := Some admission\<rparr>)))"

definition stage_manifest :: "ControlUpdate \<Rightarrow> TrustedManifest option \<Rightarrow> HostState \<Rightarrow> HostState result" where
  "stage_manifest update trusted staged = (case update of
       NewManifest manifest \<Rightarrow>
         and_then (ok_or trusted (State ''missing trusted commit'')) (\<lambda>trusted.
         Inr (staged\<lparr>hs_manifests := bm_insert (mf_file_id manifest) trusted (hs_manifests staged)\<rparr>))
     | _ \<Rightarrow> Inr staged)"

definition stage_removal :: "FileId option \<Rightarrow> HostState \<Rightarrow> HostState" where
  "stage_removal removed_file staged = (case removed_file of
       None \<Rightarrow> staged
     | Some file_id \<Rightarrow> staged\<lparr>hs_chunks := remove_file (hs_chunks staged) file_id,
         hs_manifests := bm_remove file_id (hs_manifests staged)\<rparr>)"

definition stage_commit ::
  "host_env \<Rightarrow> ControlRecord \<Rightarrow> TrustedManifest option \<Rightarrow> JoinCode option \<Rightarrow> DirectoryTree \<Rightarrow> FileId option \<Rightarrow> u64 \<Rightarrow> prepared \<Rightarrow>
    HostState \<Rightarrow> HostState result" where
  "stage_commit env record trusted rotated tree removed_file next_id p st =
     and_then (stage_manifest (cr_update record) trusted (st\<lparr>hs_tree := tree\<rparr>)) (\<lambda>staged.
     let staged = (stage_removal removed_file staged)\<lparr>hs_mailboxes := pq_queues p, hs_online := pq_online p\<rparr> in
     and_then (case cr_update record of Kick target \<Rightarrow> stage_kick env rotated target staged | _ \<Rightarrow> Inr staged) (\<lambda>staged.
     Inr (staged\<lparr>hs_acked_through := bm_insert (hs_host_id staged) (cr_id record) (hs_acked_through staged),
       hs_log := hs_log staged @ [record], hs_next_control := next_id\<rparr>)))"

definition commit_recipients :: "HostState \<Rightarrow> ControlUpdate \<Rightarrow> PeerId list" where
  "commit_recipients st update = filter (\<lambda>peer. peer \<noteq> hs_host_id st \<and>
     (case update of Kick target \<Rightarrow> peer \<noteq> target | _ \<Rightarrow> True)) (hs_members st)"

definition publish_commit :: "crypto \<Rightarrow> PeerId list \<Rightarrow> HostState result \<Rightarrow> (HostService, unit) hop" where
  "publish_commit c blocked staged =
     h_or (h_bind (h_ret staged) (publish_state c)) (unblock_idle blocked)"

definition commit_record ::
  "crypto \<Rightarrow> host_env \<Rightarrow> ControlUpdate \<Rightarrow> TrustedManifest option \<Rightarrow> JoinCode option \<Rightarrow> DirectoryTree \<Rightarrow> FileId option \<Rightarrow>
    (HostService, unit) hop" where
  "commit_record c env update trusted rotated tree removed_file =
     h_bind h_get (\<lambda>self.
     let st = h_state self in
     h_bind (h_ret (ok_or (checked_add (hs_next_control st) 1) (State ''instruction ids exhausted''))) (\<lambda>next_id.
     let record = \<lparr>cr_id = hs_next_control st, cr_update = update\<rparr>; recipients = commit_recipients st update in
     h_bind (h_ret (he_time env)) (\<lambda>queued_at.
     h_bind (h_iter (\<lambda>peer. h_bind (h_key (current_session peer)) (\<lambda>_. h_ret (Inr ()))) recipients) (\<lambda>_.
     h_bind (h_local \<lparr>pq_queues = hs_mailboxes st, pq_online = hs_online st, pq_blocked = []\<rparr>
         (h_iter (prepare_recipient c (he_now env) self record trusted removed_file queued_at) recipients)) (\<lambda>(r, p).
     case r of
       Inl e \<Rightarrow> h_bind (unblock_idle (pq_blocked p)) (\<lambda>_. h_ret (Inl e))
     | Inr _ \<Rightarrow> publish_commit c (pq_blocked p) (stage_commit env record trusted rotated tree removed_file next_id p st))))))"

definition commit_verified_with_code ::
  "crypto \<Rightarrow> host_env \<Rightarrow> ControlUpdate \<Rightarrow> TrustedManifest option \<Rightarrow> JoinCode option \<Rightarrow> (HostService, unit) hop" where
  "commit_verified_with_code c env update trusted rotated =
     h_bind h_get (\<lambda>self.
     h_bind (h_ret (validate_link_kind (hs_manifests (h_state self)) update)) (\<lambda>_.
     h_bind (h_ret (apply_tree_update (hs_tree (h_state self)) update)) (\<lambda>(tree, removed_file).
     h_bind (refresh_mailboxes c) (\<lambda>_.
     commit_record c env update trusted rotated tree removed_file))))"

definition commit_verified ::
  "crypto \<Rightarrow> host_env \<Rightarrow> ControlUpdate \<Rightarrow> TrustedManifest option \<Rightarrow> (HostService, unit) hop" where
  "commit_verified c env update trusted = commit_verified_with_code c env update trusted None"

end
