(* ===== verification/Host_Service.thy ===== *)
theory Host_Service
  imports Host
begin

text \<open>
  The operations that the host service offers, \<open>backend/src/sync/host.rs\<close> and its submodules: commits and
  fan-out, changes of the directory tree, uploads of a writer, admission and revocation of members,
  mailboxes and their flush, acknowledgements, and opening a host from a vault directory.
\<close>

section \<open>Commits\<close>

definition note_op :: "host_env \<Rightarrow> PeerId \<Rightarrow> u64 \<Rightarrow> (HostService, unit) hop" where
  "note_op env sender_id id_before = h_modify (note_recent_op (he_millis env) sender_id id_before)"

definition kick_with_code :: "crypto \<Rightarrow> host_env \<Rightarrow> PeerId \<Rightarrow> JoinCode option \<Rightarrow> (HostService, PeerId) hop" where
  "kick_with_code c env target code =
     h_bind h_get (\<lambda>self.
     h_bind (h_ret (require_running self)) (\<lambda>_.
     h_bind (h_ret (require_member self target)) (\<lambda>_.
     h_bind (h_guard (target \<noteq> hs_host_id (h_state self)) (InvalidInput ''cannot kick H'')) (\<lambda>_.
     h_bind (commit_verified_with_code c env (Kick target) None code) (\<lambda>_.
     h_bind (note_op env (hs_host_id (h_state self)) (hs_next_control (h_state self))) (\<lambda>_.
     h_bind (h_modify (\<lambda>self. self\<lparr>h_presence := bm_remove target (h_presence self),
       h_challenges := bm_remove target (h_challenges self), h_disconnects := h_disconnects self @ [target]\<rparr>)) (\<lambda>_.
     h_bind (h_key (discard_pair target)) (\<lambda>_.
     h_ret (Inr target)))))))))"

definition commit :: "crypto \<Rightarrow> host_env \<Rightarrow> Manifest \<Rightarrow> (HostService, unit) hop" where
  "commit c env manifest =
     h_bind h_get (\<lambda>self.
     let st = h_state self in
     h_bind (h_ret (require_running self)) (\<lambda>_.
     h_bind (h_key (trusted_verify c (hs_members st) manifest)) (\<lambda>trusted.
     h_bind (h_ret (validate_replica c (hs_chunks st) trusted)) (\<lambda>_.
     if (case bm_get (hs_manifests st) (mf_file_id (tm_manifest trusted)) of
           None \<Rightarrow> False | Some old \<Rightarrow> tm_manifest old = tm_manifest trusted)
     then h_ret (Inr ())
     else commit_verified c env (NewManifest (tm_manifest trusted)) (Some trusted)))))"

definition commit_instruction :: "crypto \<Rightarrow> host_env \<Rightarrow> ControlUpdate \<Rightarrow> (HostService, unit) hop" where
  "commit_instruction c env update = (case update of
       NewManifest manifest \<Rightarrow> commit c env manifest
     | Kick target \<Rightarrow> h_bind (kick_with_code c env target None) (\<lambda>_. h_ret (Inr ()))
     | _ \<Rightarrow>
         h_bind h_get (\<lambda>self.
         h_bind (h_ret (require_running self)) (\<lambda>_.
         commit_verified c env update None)))"

definition may_send :: "HostState \<Rightarrow> PeerId \<Rightarrow> ControlUpdate \<Rightarrow> bool" where
  "may_send st sender_id update = (case update of
       NewManifest manifest \<Rightarrow> mf_writer_id manifest = sender_id
     | Link _ _ _ _ \<Rightarrow> True
     | Unlink _ _ \<Rightarrow> True
     | Rename _ _ _ _ \<Rightarrow> True
     | _ \<Rightarrow> sender_id = hs_host_id st)"

definition fan_out_control :: "crypto \<Rightarrow> host_env \<Rightarrow> PeerId \<Rightarrow> ControlUpdate \<Rightarrow> (HostService, unit) hop" where
  "fan_out_control c env sender_id update =
     h_bind h_get (\<lambda>self.
     h_bind (h_ret (require_running self)) (\<lambda>_.
     h_bind (h_ret (require_member self sender_id)) (\<lambda>_.
     h_bind (h_guard (may_send (h_state self) sender_id update) AuthenticationFailed) (\<lambda>_.
     h_bind (commit_instruction c env update) (\<lambda>_.
     note_op env sender_id (hs_next_control (h_state self)))))))"

section \<open>Directory tree\<close>

definition host_resolve_parent :: "PeerId \<Rightarrow> bytes \<Rightarrow> (HostService, FileId \<times> bytes) hop" where
  "host_resolve_parent sender path =
     h_bind h_get (\<lambda>self.
     h_bind (h_ret (require_running self)) (\<lambda>_.
     h_bind (h_ret (require_member self sender)) (\<lambda>_.
     h_ret (resolve_parent (hs_tree (h_state self)) path))))"

definition host_mkdir :: "crypto \<Rightarrow> host_env \<Rightarrow> (256 word) result \<Rightarrow> PeerId \<Rightarrow> bytes \<Rightarrow> (HostService, FileId) hop" where
  "host_mkdir c env entropy sender path =
     h_bind (host_resolve_parent sender path) (\<lambda>(parent, name).
     h_bind (h_ret entropy) (\<lambda>raw.
     h_bind (fan_out_control c env sender (Link parent name (FileId raw) True)) (\<lambda>_.
     h_ret (Inr (FileId raw)))))"

definition link_file :: "crypto \<Rightarrow> host_env \<Rightarrow> PeerId \<Rightarrow> bytes \<Rightarrow> FileId \<Rightarrow> (HostService, unit) hop" where
  "link_file c env sender path child =
     h_bind (host_resolve_parent sender path) (\<lambda>(parent, name).
     fan_out_control c env sender (Link parent name child False))"

definition host_unlink :: "crypto \<Rightarrow> host_env \<Rightarrow> PeerId \<Rightarrow> bytes \<Rightarrow> (HostService, unit) hop" where
  "host_unlink c env sender path =
     h_bind (host_resolve_parent sender path) (\<lambda>(parent, name).
     fan_out_control c env sender (Unlink parent name))"

definition host_rename :: "crypto \<Rightarrow> host_env \<Rightarrow> PeerId \<Rightarrow> bytes \<Rightarrow> bytes \<Rightarrow> (HostService, unit) hop" where
  "host_rename c env sender source destination =
     h_bind (host_resolve_parent sender source) (\<lambda>(src_parent, src_name).
     h_bind (host_resolve_parent sender destination) (\<lambda>(dst_parent, dst_name).
     fan_out_control c env sender (Rename src_parent src_name dst_parent dst_name)))"

section \<open>Uploads\<close>

definition verify_writer_manifest :: "crypto \<Rightarrow> PeerId \<Rightarrow> Manifest \<Rightarrow> (HostService, TrustedManifest) hop" where
  "verify_writer_manifest c sender manifest =
     h_bind h_get (\<lambda>self.
     h_bind (h_ret (require_running self)) (\<lambda>_.
     h_bind (h_ret (require_member self sender)) (\<lambda>_.
     h_bind (h_guard (mf_writer_id manifest = sender) AuthenticationFailed) (\<lambda>_.
     h_key (trusted_verify c (hs_members (h_state self)) manifest)))))"

definition upload_link_ok :: "Manifest \<Rightarrow> ControlUpdate option \<Rightarrow> bool" where
  "upload_link_ok manifest link = (case link of
       None \<Rightarrow> True
     | Some (Link _ _ child False) \<Rightarrow> child = mf_file_id manifest
     | _ \<Rightarrow> False)"

definition put_body :: "crypto \<Rightarrow> FileId \<Rightarrow> u64 \<times> bytes \<Rightarrow> (HostService, unit) hop" where
  "put_body c file_id body = (case body of (index, plaintext) \<Rightarrow>
     h_bind h_get (\<lambda>self.
     h_bind (h_io (chunk_put (cr_sha256 c) (hs_chunks (h_state self)) file_id index plaintext)) (\<lambda>(chunks, r).
     h_bind (h_modify (upd_chunks (\<lambda>_. chunks))) (\<lambda>_.
     h_bind (h_ret r) (\<lambda>_. h_ret (Inr ()))))))"

definition upload_transaction ::
  "crypto \<Rightarrow> host_env \<times> host_env \<Rightarrow> PeerId \<Rightarrow> Manifest \<Rightarrow> (u64, bytes) btree_map \<Rightarrow> ControlUpdate option \<Rightarrow> (HostService, unit) hop" where
  "upload_transaction c envs sender manifest bodies link =
     h_bind (h_iter (put_body c (mf_file_id manifest)) bodies) (\<lambda>_.
     h_bind (fan_out_control c (fst envs) sender (NewManifest manifest)) (\<lambda>_.
     case link of None \<Rightarrow> h_ret (Inr ()) | Some link \<Rightarrow> fan_out_control c (snd envs) sender link))"

definition reopen_gates :: "(PeerId \<times> bool) list \<Rightarrow> (HostService, unit) hop" where
  "reopen_gates gates_before =
     h_iter (\<lambda>(peer, owned_before).
       if owned_before then h_ret (Inr ())
       else h_bind h_get (\<lambda>self. h_key (unblock_live_traffic peer (hs_gate_owner (h_state self))))) gates_before"

text \<open>
  The instructions of an upload are committed on a copy of the service that does not write snapshots;
  one snapshot at the end publishes them together.
\<close>

definition commit_writer_upload ::
  "crypto \<Rightarrow> host_env \<times> host_env \<Rightarrow> PeerId \<Rightarrow> Manifest \<Rightarrow> (u64, bytes) btree_map \<Rightarrow> ControlUpdate option \<Rightarrow> (HostService, unit) hop" where
  "commit_writer_upload c envs sender manifest bodies link =
     h_bind (verify_writer_manifest c sender manifest) (\<lambda>_.
     h_bind (h_guard (upload_link_ok manifest link) (InvalidInput ''upload link does not match file'')) (\<lambda>_.
     h_bind (refresh_mailboxes c) (\<lambda>_.
     h_bind h_get (\<lambda>self.
     let st = h_state self in
     h_bind (h_map (\<lambda>peer. h_bind (h_key (owns_live_gate peer (hs_gate_owner st))) (\<lambda>b. h_ret (Inr (peer, b)))) (hs_members st)) (\<lambda>gates_before.
     h_bind (h_local (self\<lparr>h_defer_persistence := True, h_disconnects := [], h_recent_ops := [], h_last_seen := []\<rparr>)
         (upload_transaction c envs sender manifest bodies link)) (\<lambda>(r, transaction).
     h_bind (h_modify (upd_chunks (share_durable (hs_chunks (h_state transaction))))) (\<lambda>_.
     h_bind (h_try (h_bind (h_ret r) (\<lambda>_. publish_state c (h_state transaction)))) (\<lambda>r.
     case r of
       Inl e \<Rightarrow> h_bind (reopen_gates gates_before) (\<lambda>_. h_ret (Inl e))
     | Inr _ \<Rightarrow>
         h_bind h_get (\<lambda>self.
         h_iter (\<lambda>n. note_op (fst envs) sender (of_nat n))
           [unat (hs_next_control st)..<unat (hs_next_control (h_state self))])))))))))"

definition upload_slot :: "crypto \<Rightarrow> nat \<times> bytes \<Rightarrow> Manifest \<Rightarrow> Manifest result" where
  "upload_slot c entry manifest = (case entry of (index, plaintext) \<Rightarrow>
     and_then (guard_ok (length plaintext \<le> MAX_CHUNK_BYTES) (InvalidInput ''chunk exceeds 1 MiB'')) (\<lambda>_.
     and_then (ok_or (checked_add (mf_size manifest) (of_nat (length plaintext))) (InvalidInput ''file size overflow'')) (\<lambda>n.
     Inr (manifest\<lparr>mf_size := n,
       mf_chunk_ids := mf_chunk_ids manifest @ [chunk_id (cr_sha256 c) (mf_file_id manifest) (of_nat index) plaintext]\<rparr>))))"

definition next_version :: "TrustedManifest option \<Rightarrow> u64 result" where
  "next_version previous = (case previous of
       None \<Rightarrow> Inr 1
     | Some m \<Rightarrow> ok_or (checked_add (mf_version (tm_manifest m)) 1) (State ''manifest version exhausted''))"

text \<open>The writer's keystore is that of another process: \<open>writer\<close> is its identity, if it can be read.\<close>

definition save_file ::
  "crypto \<Rightarrow> host_env \<times> host_env \<Rightarrow> (256 word) result \<Rightarrow> LocalIdentity result \<Rightarrow> bytes \<Rightarrow> bytes list \<Rightarrow> (HostService, FileId) hop" where
  "save_file c envs entropy writer path bodies =
     h_bind h_get (\<lambda>self.
     let st = h_state self in
     h_bind (h_ret (require_running self)) (\<lambda>_.
     h_bind (h_ret writer) (\<lambda>identity.
     let sender = id_peer_id (li_document identity) in
     h_bind (h_ret (require_member self sender)) (\<lambda>_.
     h_bind (h_ret (resolve_parent (hs_tree st) path)) (\<lambda>(parent, name).
     let existing = (case resolve (hs_tree st) path of Inl _ \<Rightarrow> None | Inr f \<Rightarrow> Some f) in
     h_bind (h_guard (\<not> (case existing of None \<Rightarrow> False | Some f \<Rightarrow> is_dir (hs_tree st) f))
       (InvalidInput ''cannot save a directory'')) (\<lambda>_.
     h_bind (h_ret (case existing of Some f \<Rightarrow> Inr f | None \<Rightarrow> and_then entropy (\<lambda>raw. Inr (FileId raw)))) (\<lambda>file_id.
     h_bind (h_ret (next_version (bm_get (hs_manifests st) file_id))) (\<lambda>version.
     h_bind (h_ret (fold_ok (upload_slot c) (enumerate 0 bodies)
       \<lparr>mf_file_id = file_id, mf_chunk_ids = [], mf_size = 0, mf_writer_id = sender, mf_version = version, mf_signature = []\<rparr>)) (\<lambda>manifest.
     h_bind (h_ret (manifest_m manifest)) (\<lambda>m.
     h_bind (h_ret (mldsa_sign c (li_signing_seed identity) MANIFEST_CONTEXT m)) (\<lambda>signature.
     h_bind (commit_writer_upload c envs sender (manifest\<lparr>mf_signature := signature\<rparr>)
       (map (\<lambda>(i, body). (of_nat i, body)) (enumerate 0 bodies))
       (if existing = None then Some (Link parent name file_id False) else None)) (\<lambda>_.
     h_ret (Inr file_id)))))))))))))"

section \<open>Admission and revocation\<close>

definition attach_admission :: "crypto \<Rightarrow> VaultMetadata \<Rightarrow> (HostService, unit) hop" where
  "attach_admission c metadata =
     h_bind h_get (\<lambda>self.
     h_bind (h_guard (FileId (vault_raw (vm_vault_id metadata)) = hs_expected_root (h_state self))
       (InvalidInput ''vault admission root mismatch'')) (\<lambda>_.
     let old_path = h_admission_path self; staged = h_state self in
     h_bind (h_modify (\<lambda>self. self\<lparr>h_admission_path := True\<rparr>)) (\<lambda>_.
     h_or (
       h_bind (h_guard (\<not> (case hs_admission staged of
             None \<Rightarrow> False
           | Some stored \<Rightarrow> FileId (vault_raw (vm_vault_id stored)) \<noteq> hs_expected_root staged))
         (InvalidInput ''stored admission root mismatch'')) (\<lambda>_.
       publish_state c (if hs_admission staged = None
         then staged\<lparr>hs_denied := bs_extend (vm_denied metadata) (hs_denied staged), hs_admission := Some metadata\<rparr>
         else staged)))
       (h_modify (\<lambda>self. self\<lparr>h_admission_path := old_path\<rparr>)))))"

definition set_admission :: "crypto \<Rightarrow> VaultMetadata \<Rightarrow> (HostService, unit) hop" where
  "set_admission c metadata =
     h_bind h_get (\<lambda>self.
     let st = h_state self in
     h_bind (h_ret (require_running self)) (\<lambda>_.
     h_bind (h_guard (\<not> (FileId (vault_raw (vm_vault_id metadata)) \<noteq> hs_expected_root st \<or>
         bs_extend (vm_members metadata) [] \<noteq> hs_members st \<or> vm_denied metadata \<noteq> hs_denied st))
       (InvalidInput ''admission membership differs from replica'')) (\<lambda>_.
     publish_state c (st\<lparr>hs_admission := Some metadata\<rparr>))))"

definition take_disconnects :: "(HostService, PeerId list) hop" where
  "take_disconnects =
     h_bind h_get (\<lambda>self.
     h_bind (h_modify (\<lambda>self. self\<lparr>h_disconnects := []\<rparr>)) (\<lambda>_.
     h_ret (Inr (h_disconnects self))))"

definition historical_documents :: "HostService \<Rightarrow> IdentityDocument list" where
  "historical_documents self = bm_values (hs_identity_documents (h_state self))"

definition usize_total :: "nat list \<Rightarrow> nat option" where
  "usize_total ns = fold (\<lambda>n acc. case acc of None \<Rightarrow> None | Some acc \<Rightarrow> usize_add acc n) ns (Some 0)"

definition frame_cost :: "nat \<Rightarrow> nat \<Rightarrow> nat result" where
  "frame_cost payload acc =
     ok_or (case usize_add acc payload of None \<Rightarrow> None | Some n \<Rightarrow> usize_add n BOOTSTRAP_FRAME_OVERHEAD)
       (State ''bootstrap byte count overflow'')"

definition manifest_slots :: "HostState \<Rightarrow> (FileId \<times> nat \<times> ChunkId) list" where
  "manifest_slots st = concat (map (\<lambda>trusted.
     map (\<lambda>(index, cid). (mf_file_id (tm_manifest trusted), index, cid)) (enumerate 0 (mf_chunk_ids (tm_manifest trusted))))
       (bm_values (hs_manifests st)))"

text \<open>The number of frames of a bootstrap, refused when it or the size in bytes exceeds its budget.\<close>

definition bootstrap_budget :: "HostState \<Rightarrow> ControlRecord list \<Rightarrow> nat result" where
  "bootstrap_budget st records =
     and_then (ok_or (usize_total (map (\<lambda>trusted. length (mf_chunk_ids (tm_manifest trusted))) (bm_values (hs_manifests st))))
       (State ''bootstrap frame count overflow'')) (\<lambda>chunks.
     and_then (ok_or (usize_add (length records) chunks) (State ''bootstrap frame count overflow'')) (\<lambda>frames.
     and_then (guard_ok (frames \<le> MAX_BOOTSTRAP_FRAMES) (State ''bootstrap exceeds frame budget'')) (\<lambda>_.
     and_then (fold_ok (\<lambda>record acc.
       and_then (encode_control_record record) (\<lambda>bs. frame_cost (length bs) acc)) records 0) (\<lambda>acc.
     and_then (fold_ok (\<lambda>(_, _, cid) acc.
       and_then (ok_or (chunk_get (hs_chunks st) cid) (State ''committed plaintext missing'')) (\<lambda>plaintext.
       frame_cost (length plaintext) acc)) (manifest_slots st) acc) (\<lambda>acc.
     and_then (guard_ok (acc \<le> MAX_BOOTSTRAP_BYTES) (State ''bootstrap exceeds byte budget'')) (\<lambda>_.
     Inr frames))))))"

fun queue_records :: "crypto \<Rightarrow> PairSession option \<Rightarrow> u64 \<Rightarrow> ControlRecord list \<Rightarrow> Queued list kop" where
  "queue_records c session queued_at [] = k_ret (Inr [])"
| "queue_records c session queued_at (record # records) =
     k_bind (k_ret (ok_or session KeyUnavailable)) (\<lambda>s.
     k_bind (queue_control c s queued_at record) (\<lambda>entry.
     k_bind (queue_records c session queued_at records) (\<lambda>queue.
     k_ret (Inr (entry # queue)))))"

fun queue_slots ::
  "crypto \<Rightarrow> MemoryChunkStore \<Rightarrow> PairSession option \<Rightarrow> u64 \<Rightarrow> (FileId \<times> nat \<times> ChunkId) list \<Rightarrow> Queued list kop" where
  "queue_slots c chunks session queued_at [] = k_ret (Inr [])"
| "queue_slots c chunks session queued_at ((file_id, index, cid) # slots) =
     k_bind (k_ret (ok_or (chunk_get chunks cid) (State ''committed plaintext missing''))) (\<lambda>plaintext.
     k_bind (k_ret (ok_or session KeyUnavailable)) (\<lambda>s.
     k_bind (queue_chunk c s queued_at file_id (of_nat index) cid plaintext) (\<lambda>entry.
     k_bind (queue_slots c chunks session queued_at slots) (\<lambda>queue.
     k_ret (Inr (entry # queue))))))"

definition saturating_pred :: "u64 \<Rightarrow> u64" where
  "saturating_pred n = (if n = 0 then 0 else n - 1)"

definition admit :: "IdentityDocument \<Rightarrow> HostState \<Rightarrow> HostState" where
  "admit document st = st\<lparr>hs_identity_documents := bm_insert (id_peer_id document) document (hs_identity_documents st),
     hs_historical_members := bs_insert (id_peer_id document) (hs_historical_members st),
     hs_members := bs_insert (id_peer_id document) (hs_members st)\<rparr>"

definition add_member :: "crypto \<Rightarrow> host_env \<Rightarrow> entropy \<Rightarrow> IdentityDocument \<Rightarrow> (HostService, unit) hop" where
  "add_member c env entropy document =
     h_bind h_get (\<lambda>self.
     h_bind (h_ret (require_running self)) (\<lambda>_.
     h_bind (h_ret (identity_verify c document)) (\<lambda>_.
     let peer = id_peer_id document in
     h_bind (h_guard (peer \<notin> set (hs_denied (h_state self))) AuthenticationFailed) (\<lambda>_.
     if peer \<in> set (hs_members (h_state self)) then h_ret (Inr ())
     else
       h_bind (h_key (import_peer c entropy document)) (\<lambda>_.
       h_bind (h_key (archive_host c (admit document (h_state self)))) (\<lambda>staged.
       let through = saturating_pred (hs_next_control staged) in
       h_bind (h_ret (bootstrap_records (hs_expected_root staged) (hs_manifests staged) (hs_tree staged) through)) (\<lambda>records.
       h_bind (h_ret (bootstrap_budget staged records)) (\<lambda>frames.
       h_bind (if frames = 0 then h_ret (Inr None)
         else h_bind (h_key (current_session peer)) (\<lambda>session. h_ret (Inr (Some session)))) (\<lambda>session.
       h_bind (h_ret (he_time env)) (\<lambda>queued_at.
       h_bind (h_key (queue_records c session queued_at records)) (\<lambda>controls.
       h_bind (h_key (queue_slots c (hs_chunks staged) session queued_at (manifest_slots staged))) (\<lambda>bodies.
       h_bind (h_key (block_live_traffic peer (hs_gate_owner staged))) (\<lambda>_.
       h_or (publish_state c (staged\<lparr>
         hs_mailboxes := bm_insert peer (controls @ bodies) (hs_mailboxes staged),
         hs_bootstrap_through := bm_insert peer through (hs_bootstrap_through staged)\<rparr>))
         (h_key (unblock_live_traffic peer (hs_gate_owner (h_state self)))))))))))))))))"

section \<open>Delivery\<close>

definition take_online_control :: "crypto \<Rightarrow> PeerId \<Rightarrow> (HostService, ControlPacket list) hop" where
  "take_online_control c recipient =
     h_bind h_get (\<lambda>self.
     h_bind (h_ret (require_running self)) (\<lambda>_.
     h_bind (h_ret (require_member self recipient)) (\<lambda>_.
     h_bind (h_key (require_live_traffic recipient)) (\<lambda>_.
     h_bind (h_key (current_session recipient)) (\<lambda>session.
     let pending = bm_or_default [] (hs_online (h_state self)) recipient in
     if pending = [] then h_ret (Inr [])
     else
       h_bind (h_key (reseal_pending c session pending)) (\<lambda>(pending, r).
       h_bind (h_modify (upd_state (\<lambda>st. st\<lparr>hs_online := bm_insert recipient pending (hs_online st)\<rparr>))) (\<lambda>_.
       h_bind (h_ret r) (\<lambda>_.
       h_bind h_get (\<lambda>self.
       h_bind (publish_state c ((h_state self)\<lparr>hs_online := bm_remove recipient (hs_online (h_state self))\<rparr>)) (\<lambda>_.
       h_ret (Inr (map oc_packet pending))))))))))))"

definition envelopes_of :: "HostState \<Rightarrow> PeerId \<Rightarrow> MailboxEnvelope list" where
  "envelopes_of st peer = map qd_envelope (bm_or_default [] (hs_mailboxes st) peer)"

definition host_mailbox :: "crypto \<Rightarrow> PeerId \<Rightarrow> (HostService, MailboxEnvelope list) hop" where
  "host_mailbox c recipient =
     h_bind h_get (\<lambda>self.
     h_bind (h_ret (require_member self recipient)) (\<lambda>_.
     h_bind (refresh_mailboxes c) (\<lambda>_.
     h_bind h_get (\<lambda>self.
     h_ret (Inr (envelopes_of (h_state self) recipient))))))"

definition append_mailbox :: "crypto \<Rightarrow> host_env \<Rightarrow> PeerId \<Rightarrow> FileId \<Rightarrow> u64 \<Rightarrow> (HostService, unit) hop" where
  "append_mailbox c env recipient file_id index =
     h_bind h_get (\<lambda>self.
     h_bind (h_ret (require_running self)) (\<lambda>_.
     h_bind (h_ret (require_member self recipient)) (\<lambda>_.
     h_bind (h_ret (ok_or (bm_get (hs_manifests (h_state self)) file_id) AuthenticationFailed)) (\<lambda>trusted.
     h_bind (h_ret (ok_or (listed_chunk (tm_manifest trusted) index) AuthenticationFailed)) (\<lambda>cid.
     h_bind (refresh_mailboxes c) (\<lambda>_.
     h_bind h_get (\<lambda>self.
     let st = h_state self in
     h_bind (h_key (current_session recipient)) (\<lambda>session.
     h_bind (h_ret (ok_or (chunk_get (hs_chunks st) cid) (State ''queued plaintext missing''))) (\<lambda>plaintext.
     h_bind (h_key (block_live_traffic recipient (hs_gate_owner st))) (\<lambda>_.
     h_bind (h_key (encrypt_at_send c session file_id index plaintext)) (\<lambda>sealed.
     h_bind (h_ret (he_time env)) (\<lambda>queued_at.
     h_bind (h_ret (chunk_envelope sealed queued_at)) (\<lambda>envelope.
     let queue = filter (\<lambda>e. \<not> of_slot file_id index e) (bm_or_default [] (hs_mailboxes st) recipient)
           @ [\<lparr>qd_envelope = envelope, qd_content = QChunk file_id index cid\<rparr>] in
     h_or (publish_state c (st\<lparr>hs_mailboxes := bm_insert recipient queue (hs_mailboxes st)\<rparr>)) (unblock_idle [recipient]))))))))))))))"

section \<open>Flushing a mailbox\<close>

record PreparedHostFlush =
  hf_peer_id :: PeerId
  hf_challenge :: FlushChallenge
  hf_envelopes :: "MailboxEnvelope list"
  hf_bootstrap_through :: "u64 option"

definition issue_flush_challenge :: "(256 word) result \<Rightarrow> PeerId \<Rightarrow> (HostService, FlushChallenge) hop" where
  "issue_flush_challenge entropy recipient =
     h_bind h_get (\<lambda>self.
     h_bind (h_ret (require_running self)) (\<lambda>_.
     h_bind (h_ret (require_member self recipient)) (\<lambda>_.
     h_bind (h_ret entropy) (\<lambda>raw.
     h_bind (h_modify (\<lambda>self. self\<lparr>h_challenges := bm_insert recipient (FlushChallenge raw) (h_challenges self)\<rparr>)) (\<lambda>_.
     h_ret (Inr (FlushChallenge raw)))))))"

definition prepare_flush :: "crypto \<Rightarrow> PeerId \<Rightarrow> FlushChallenge \<Rightarrow> bytes \<Rightarrow> (HostService, PreparedHostFlush) hop" where
  "prepare_flush c peer challenge signature =
     h_bind h_get (\<lambda>self.
     h_bind (h_ret (require_running self)) (\<lambda>_.
     h_bind (h_ret (require_member self peer)) (\<lambda>_.
     h_bind (h_guard (bm_get (h_challenges self) peer = Some challenge) AuthenticationFailed) (\<lambda>_.
     h_bind (h_key (load_verified_peer peer)) (\<lambda>identity.
     h_bind (h_ret (mldsa_verify c (id_vk identity) FLUSH_CONTEXT (flush_m challenge) signature)) (\<lambda>_.
     h_bind (refresh_mailboxes c) (\<lambda>_.
     h_bind h_get (\<lambda>self.
     h_bind (h_key (block_live_traffic peer (hs_gate_owner (h_state self)))) (\<lambda>_.
     h_ret (Inr \<lparr>hf_peer_id = peer, hf_challenge = challenge, hf_envelopes = envelopes_of (h_state self) peer,
       hf_bootstrap_through = bm_get (hs_bootstrap_through (h_state self)) peer\<rparr>))))))))))"

definition flushed_through :: "HostState \<Rightarrow> PeerId \<Rightarrow> u64" where
  "flushed_through st peer =
     (let ids = map cr_id (controls_of (map qd_content (bm_or_default [] (hs_mailboxes st) peer))) in
      max (fold max ids 0) (bm_or_default 0 (hs_bootstrap_through st) peer))"

definition acknowledge_flush :: "crypto \<Rightarrow> PeerId \<Rightarrow> PreparedHostFlush \<Rightarrow> (HostService, unit) hop" where
  "acknowledge_flush c peer flush =
     h_bind h_get (\<lambda>self.
     let st = h_state self in
     h_bind (h_ret (require_running self)) (\<lambda>_.
     h_bind (h_guard (\<not> (hf_peer_id flush \<noteq> peer \<or> bm_get (h_challenges self) peer \<noteq> Some (hf_challenge flush)))
       AuthenticationFailed) (\<lambda>_.
     h_bind (h_guard (bm_get (hs_bootstrap_through st) peer = hf_bootstrap_through flush)
       (State ''bootstrap changed before flush acknowledgement'')) (\<lambda>_.
     h_bind (h_guard (envelopes_of st peer = hf_envelopes flush) (State ''mailbox changed before flush acknowledgement'')) (\<lambda>_.
     h_bind (publish_state c (st\<lparr>
       hs_acked_through := bm_insert peer (max (bm_or_default 0 (hs_acked_through st) peer) (flushed_through st peer)) (hs_acked_through st),
       hs_mailboxes := bm_remove peer (hs_mailboxes st),
       hs_bootstrap_through := bm_remove peer (hs_bootstrap_through st)\<rparr>)) (\<lambda>_.
     h_bind (h_modify (\<lambda>self. self\<lparr>h_challenges := bm_remove peer (h_challenges self)\<rparr>)) (\<lambda>_.
     h_bind h_get (\<lambda>self.
     h_key (unblock_live_traffic peer (hs_gate_owner (h_state self)))))))))))"

definition host_acked_through :: "HostService \<Rightarrow> PeerId \<Rightarrow> u64" where
  "host_acked_through self peer = bm_or_default 0 (hs_acked_through (h_state self)) peer"

definition acknowledge_applied :: "crypto \<Rightarrow> PeerId \<Rightarrow> u64 \<Rightarrow> (HostService, unit) hop" where
  "acknowledge_applied c peer through =
     h_bind h_get (\<lambda>self.
     let st = h_state self in
     h_bind (h_ret (require_running self)) (\<lambda>_.
     h_bind (h_ret (require_member self peer)) (\<lambda>_.
     h_bind (h_guard (\<not> through \<ge> hs_next_control st) (InvalidInput ''ack exceeds host log'')) (\<lambda>_.
     if host_acked_through self peer \<ge> through then h_ret (Inr ())
     else publish_state c (st\<lparr>hs_acked_through :=
       bm_insert peer (max (host_acked_through self peer) through) (hs_acked_through st)\<rparr>)))))"

definition host_evict_file :: "FileId \<Rightarrow> (HostService, nat) hop" where
  "host_evict_file file_id = h_ret (Inl (State ''H cannot evict its availability copy''))"

section \<open>Opening a host\<close>

definition host_service :: "HostState \<Rightarrow> HostService" where
  "host_service st = \<lparr>h_state = st, h_presence = [], h_challenges = [], h_running = True, h_defer_persistence = False,
     h_admission_path = False, h_disconnects = [], h_recent_ops = [], h_last_seen = []\<rparr>"

text \<open>A new host on a chunk store that it shares with its caller.\<close>

definition host_new :: "u64 result \<Rightarrow> PeerId btree_set \<Rightarrow> (MemoryChunkStore, HostService) hop" where
  "host_new gate members =
     h_bind (h_key store_peer_id) (\<lambda>host_id.
     h_bind (h_guard (host_id \<in> set members) (InvalidInput ''H must be a vault member'')) (\<lambda>_.
     let root = FileId 0; tree = tree_new root in
     h_bind (h_modify (\<lambda>chunks. chunks\<lparr>mc_metadata := Some ((replica_new root)\<lparr>rm_members := members, rm_dirents := dirents tree\<rparr>)\<rparr>)) (\<lambda>_.
     h_bind h_get (\<lambda>chunks.
     h_bind (h_ret gate) (\<lambda>gate_owner.
     h_ret (Inr (host_service \<lparr>hs_expected_root = root, hs_tree = tree, hs_acked_through = [], hs_host_id = host_id,
       hs_members = members, hs_denied = [], hs_historical_members = members, hs_identity_documents = [],
       hs_bootstrap_through = [], hs_chunks = chunks, hs_manifests = [], hs_log = [], hs_next_control = 1,
       hs_mailboxes = [], hs_online = [], hs_gate_owner = gate_owner, hs_admission = None\<rparr>)))))))"

definition host_new_in_vault :: "u64 result \<Rightarrow> PeerId btree_set \<Rightarrow> FileId \<Rightarrow> (MemoryChunkStore, HostService) hop" where
  "host_new_in_vault gate members root =
     h_bind (host_new gate members) (\<lambda>host.
     let st = (h_state host)\<lparr>hs_expected_root := root, hs_tree := tree_new root\<rparr> in
     h_bind (h_modify (\<lambda>chunks. chunks\<lparr>mc_metadata := Some (host_metadata st)\<rparr>)) (\<lambda>_.
     h_bind h_get (\<lambda>chunks.
     h_ret (Inr (host\<lparr>h_state := st\<lparr>hs_chunks := chunks\<rparr>\<rparr>)))))"

definition block_mailboxes :: "(HostService, unit) hop" where
  "block_mailboxes =
     h_bind h_get (\<lambda>self.
     h_iter (\<lambda>(peer, queue). if queue = [] then h_ret (Inr ()) else h_key (block_live_traffic peer (hs_gate_owner (h_state self))))
       (hs_mailboxes (h_state self)))"

definition migrate_online :: "HostState \<Rightarrow> HostState result" where
  "migrate_online st =
     and_then (fold_ok (\<lambda>(peer, updates) mailboxes.
       and_then (migrate_pending updates) (\<lambda>migrated.
       Inr (bm_insert peer (bm_or_default [] mailboxes peer @ migrated) mailboxes))) (hs_online st) (hs_mailboxes st)) (\<lambda>mailboxes.
     Inr (st\<lparr>hs_online := [], hs_mailboxes := mailboxes\<rparr>))"

definition host_resume :: "crypto \<Rightarrow> HostState \<Rightarrow> ('h, HostService) hop" where
  "host_resume c st =
     h_bind (h_key store_peer_id) (\<lambda>me.
     h_bind (h_guard (me = hs_host_id st) AuthenticationFailed) (\<lambda>_.
     h_bind (h_ret (migrate_online st)) (\<lambda>st.
     h_bind (h_local (host_service st) (h_bind block_mailboxes (\<lambda>_. refresh_mailboxes c))) (\<lambda>(r, host).
     h_bind (h_ret r) (\<lambda>_.
     h_ret (Inr host))))))"

definition verify_document :: "crypto \<Rightarrow> PeerId \<times> IdentityDocument \<Rightarrow> unit result" where
  "verify_document c entry = (case entry of (peer, document) \<Rightarrow>
     and_then (guard_ok (peer = id_peer_id document) AuthenticationFailed) (\<lambda>_. identity_verify c document))"

definition writer_document :: "ReplicaMetadata \<Rightarrow> PeerId \<Rightarrow> IdentityDocument kop" where
  "writer_document metadata writer = (case bm_get (rm_identity_documents metadata) writer of
       Some document \<Rightarrow> k_ret (Inr document)
     | None \<Rightarrow> k_bind store_peer_id (\<lambda>me. if writer = me then store_identity else load_verified_peer writer))"

fun verify_stored :: "crypto \<Rightarrow> ReplicaMetadata \<Rightarrow> (FileId \<times> Manifest) list \<Rightarrow> trusted_map kop" where
  "verify_stored c metadata [] = k_ret (Inr [])"
| "verify_stored c metadata ((file_id, manifest) # manifests) =
     k_bind (writer_document metadata (mf_writer_id manifest)) (\<lambda>writer.
     k_bind (k_ret (verify_accepted c writer manifest)) (\<lambda>trusted.
     k_bind (verify_stored c metadata manifests) (\<lambda>rest.
     k_ret (Inr ((file_id, trusted) # rest)))))"

definition verified_manifests :: "crypto \<Rightarrow> ReplicaMetadata \<Rightarrow> trusted_map kop" where
  "verified_manifests c metadata =
     k_bind (k_ret (fold_ok (\<lambda>entry _. verify_document c entry) (rm_identity_documents metadata) ())) (\<lambda>_.
     verify_stored c metadata (rm_manifests metadata))"

text \<open>Stored queues carry no ciphertext: their entries are sealed again when they are refreshed.\<close>

definition unsealed :: "PeerId \<Rightarrow> PeerId \<Rightarrow> QueueContent \<Rightarrow> Queued" where
  "unsealed me peer content =
     \<lparr>qd_envelope = \<lparr>me_recipient_id = peer, me_sender_id = me, me_epoch = Epoch 0, me_seq = Seq 0,
        me_queued_at = 0, me_ciphertext = []\<rparr>, qd_content = content\<rparr>"

definition restored_state :: "FileId \<Rightarrow> PeerId \<Rightarrow> ReplicaMetadata \<Rightarrow> MemoryChunkStore \<Rightarrow> trusted_map \<Rightarrow> DirectoryTree \<Rightarrow> u64 \<Rightarrow> HostState" where
  "restored_state root me metadata chunks manifests tree gate =
     \<lparr>hs_expected_root = root, hs_tree = tree, hs_acked_through = rm_acked_through metadata, hs_host_id = me,
      hs_members = rm_members metadata, hs_denied = rm_denied metadata, hs_historical_members = rm_historical_members metadata,
      hs_identity_documents = rm_identity_documents metadata, hs_bootstrap_through = rm_bootstrap_through metadata,
      hs_chunks = chunks, hs_manifests = manifests, hs_log = rm_log metadata, hs_next_control = rm_next_control metadata,
      hs_mailboxes = map (\<lambda>(peer, queue). (peer, map (unsealed me peer) queue)) (rm_mailboxes metadata),
      hs_online = [], hs_gate_owner = gate, hs_admission = rm_admission metadata\<rparr>"

definition host_open_durable :: "crypto \<Rightarrow> unit result \<Rightarrow> u64 result \<Rightarrow> FileId \<Rightarrow> PeerId btree_set \<Rightarrow> ('h, HostService) hop" where
  "host_open_durable c data_dir_lock gate root initial_members =
     h_bind (h_io (open_store (cr_sha256 c) data_dir_lock root)) (\<lambda>(stored, chunks).
     h_bind (h_key store_peer_id) (\<lambda>me.
     let metadata = (case stored of Some metadata \<Rightarrow> metadata | None \<Rightarrow> (replica_new root)\<lparr>rm_members := initial_members\<rparr>) in
     h_bind (h_guard (me \<in> set (rm_members metadata)) AuthenticationFailed) (\<lambda>_.
     h_bind (h_key (verified_manifests c metadata)) (\<lambda>manifests.
     h_bind (h_ret (from_dirents root (rm_dirents metadata))) (\<lambda>tree.
     h_bind (h_ret gate) (\<lambda>gate_owner.
     h_bind (h_local (host_service (restored_state root me metadata chunks manifests tree gate_owner))
         (h_bind block_mailboxes (\<lambda>_.
          if stored = None then h_bind h_get (\<lambda>host. publish_state c (h_state host)) else h_ret (Inr ())))) (\<lambda>(r, host).
     h_bind (h_ret r) (\<lambda>_.
     h_ret (Inr host)))))))))"

end
