(* ===== verification/Host_Commit.thy ===== *)
theory Host_Commit
  imports Host_Service
begin

text \<open>
  Commits of the host are all or nothing. What the host may change without publishing a snapshot is the
  sealing of queued entries and the generation of its durable store; everything else of its state, and
  the contents of every queue, is as before when an operation returns an error.
\<close>

section \<open>The view of a host\<close>

definition contents :: "(PeerId, Queued list) btree_map \<Rightarrow> (PeerId, QueueContent list) btree_map" where
  "contents mailboxes = map (\<lambda>(peer, queue). (peer, map qd_content queue)) mailboxes"

definition host_view :: "HostService \<Rightarrow> HostService \<times> (PeerId, QueueContent list) btree_map" where
  "host_view self =
     (upd_state (\<lambda>st. st\<lparr>hs_mailboxes := [], hs_chunks := (hs_chunks st)\<lparr>mc_durable := None\<rparr>\<rparr>) self,
      contents (hs_mailboxes (h_state self)))"

abbreviation viewed :: "HostService \<times> (PeerId, QueueContent list) btree_map \<Rightarrow> HostService \<Rightarrow> bool" where
  "viewed v self \<equiv> host_view self = v"

text \<open>Operations that leave the view as it is, and operations that do so when they fail.\<close>

abbreviation silent :: "HostService \<times> (PeerId, QueueContent list) btree_map \<Rightarrow> (HostService, 'a) hop \<Rightarrow> bool" where
  "silent v p \<equiv> keeps (viewed v) p (\<lambda>_. viewed v) (viewed v)"

abbreviation atomic :: "HostService \<times> (PeerId, QueueContent list) btree_map \<Rightarrow> (HostService, 'a) hop \<Rightarrow> bool" where
  "atomic v p \<equiv> keeps (viewed v) p (\<lambda>_ _. True) (viewed v)"

lemma contents_keys [simp]: "map fst (contents m) = map fst m"
  by (auto simp: contents_def)

lemma bm_ok_contents [simp]: "bm_ok (contents m) \<longleftrightarrow> bm_ok m"
  by (simp add: bm_ok_def)

lemma contents_insert:
  assumes "bm_ok m" and "bm_get m k = Some q" and "map qd_content q' = map qd_content q"
  shows "contents (bm_insert k q' m) = contents m"
  using assms
proof (induction k q' m rule: bm_insert.induct)
  case (2 k v k' v' m)
  have "bm_get m k = None" if "k < k'"
    using "2.prems"(1) that by (intro bm_get_None_below [of m k']) auto
  with 2 show ?case by (auto simp: contents_def split: if_splits)
qed simp

lemma host_view_sealed:
  assumes "bm_ok (hs_mailboxes (h_state self))" and "bm_get (hs_mailboxes (h_state self)) k = Some q"
    and "map qd_content q' = map qd_content q"
  shows "host_view (upd_state (\<lambda>st. st\<lparr>hs_mailboxes := bm_insert k q' (hs_mailboxes st)\<rparr>) self) = host_view self"
  using contents_insert [OF assms] by (simp add: host_view_def upd_state_def)

lemma host_view_share [simp]: "host_view (upd_chunks (share_durable clone) self) = host_view self"
  by (simp add: host_view_def upd_chunks_def upd_state_def share_durable_def)

section \<open>Re-sealing\<close>

lemma reseal_entry_content: "reseal_entry c chunks session e s = (Inr e', s') \<Longrightarrow> qd_content e' = qd_content e"
  by (auto simp: reseal_entry_def Let_def k_bind_def k_ret_def split: prod.splits sum.splits)

lemma reseal_queue_contents:
  "reseal_queue c chunks session q s = (Inr (q', r), s') \<Longrightarrow> map qd_content q' = map qd_content q"
proof (induction q arbitrary: q' r s s')
  case (Cons e q)
  then show ?case
    by (auto simp: k_bind_def k_ret_def k_try_def dest!: reseal_entry_content Cons.IH split: if_splits prod.splits sum.splits)
qed (auto simp: k_ret_def)

lemma silent_refresh_mailbox:
  assumes "bm_ok (snd v)"
  shows "silent v (refresh_mailbox c peer)"
proof -
  have sealed: "host_view (upd_state (\<lambda>st. st\<lparr>hs_mailboxes := bm_insert peer q (hs_mailboxes st)\<rparr>) self) = v"
    if v: "host_view self = v" and q: "bm_or_default [] (hs_mailboxes (h_state self)) peer \<noteq> []"
      "map qd_content q = map qd_content (bm_or_default [] (hs_mailboxes (h_state self)) peer)" for self q
  proof -
    have "bm_ok (hs_mailboxes (h_state self))" using assms v by (auto simp: host_view_def)
    from host_view_sealed [OF this] q v show ?thesis by (auto simp: bm_or_default_def split: option.splits)
  qed
  show ?thesis
    unfolding refresh_mailbox_def Let_def
    by (intro keeps_intros; (assumption | (rule sealed, assumption, assumption, hypsubst, erule reseal_queue_contents)))
qed

lemma silent_refresh_mailboxes:
  assumes "bm_ok (snd v)"
  shows "silent v (refresh_mailboxes c)"
  unfolding refresh_mailboxes_def
proof (rule keeps_bind_get, rule keeps_bind_ret)
  fix self assume v: "host_view self = v"
  show "keeps (\<lambda>h. h = self) (h_iter (refresh_mailbox c) (bm_keys (hs_mailboxes (h_state self)))) (\<lambda>_. viewed v) (viewed v)"
    by (rule keeps_weaken [OF keeps_iter [OF silent_refresh_mailbox [OF assms]]]) (use v in auto)
qed simp

section \<open>Publishing\<close>

lemma publish_state_fails: "atomic v (publish_state c staged)"
  unfolding publish_state_def Let_def
  by (rule keeps_start, intro keeps_intros TrueI) simp_all

section \<open>Commits are all or nothing\<close>

lemma silent_unblock_idle: "silent v (unblock_idle blocked)"
  unfolding unblock_idle_def by (rule keeps_iter; (intro keeps_intros)?; simp)

lemma fail_after: "silent v p \<Longrightarrow> keeps (viewed v) (h_bind p (\<lambda>_. h_ret (Inl e))) Q (viewed v)"
  by (rule keeps_bind [where R = "\<lambda>_. viewed v"]) (auto intro: keeps_ret)

lemma atomic_publish_commit: "atomic v (publish_commit c blocked staged)"
  unfolding publish_commit_def
  by (rule keeps_or [OF _ silent_unblock_idle], rule keeps_bind_ret) (rule publish_state_fails)

lemma keeps_sessions:
  "(\<And>h. P h \<Longrightarrow> E h) \<Longrightarrow>
    keeps P (h_iter (\<lambda>peer. h_bind (h_key (current_session peer)) (\<lambda>_. h_ret (Inr ()))) peers) (\<lambda>_. P) E"
  by (rule keeps_iter, rule keeps_bind_key, rule keeps_ret) simp_all

lemma atomic_commit_record: "atomic v (commit_record c env update trusted rotated tree removed)"
  unfolding commit_record_def Let_def
proof (rule keeps_bind_get, rule keeps_at, rule keeps_at, rule keeps_bind, rule keeps_sessions, simp, rule keeps_bind_local,
    rule keeps_case, rule keeps_case)
  fix self x y e and p :: prepared
  assume "viewed v self"
  then show "keeps (\<lambda>h. h = self) (h_bind (unblock_idle (pq_blocked p)) (\<lambda>_. h_ret (Inl e))) (\<lambda>_ _. True) (viewed v)"
    by (rule keeps_from [OF fail_after [OF silent_unblock_idle]])
  show "keeps (\<lambda>h. h = self) (publish_commit c (pq_blocked p) (stage_commit env
      \<lparr>cr_id = hs_next_control (h_state self), cr_update = update\<rparr> trusted rotated tree removed x p (h_state self))) (\<lambda>_ _. True) (viewed v)"
    by (rule keeps_from [OF atomic_publish_commit \<open>viewed v self\<close>])
qed simp_all

lemma atomic_commit_verified_with_code:
  assumes "bm_ok (snd v)"
  shows "atomic v (commit_verified_with_code c env update trusted rotated)"
  unfolding commit_verified_with_code_def
  by (rule keeps_bind_get, rule keeps_at, rule keeps_at, rule keeps_case,
      rule keeps_then [OF silent_refresh_mailboxes [OF assms] atomic_commit_record]) simp_all

section \<open>What a commit publishes\<close>

definition published_as :: "HostState \<Rightarrow> HostService \<Rightarrow> HostService \<Rightarrow> bool" where
  "published_as staged self self' \<longleftrightarrow>
     (\<exists>documents chunks. self' = self\<lparr>h_state := (trim_state (staged\<lparr>
        hs_historical_members := bs_extend (hs_members staged) (hs_historical_members staged),
        hs_identity_documents := documents\<rparr>))\<lparr>hs_chunks := chunks\<rparr>\<rparr> \<and>
      require_writer_documents (hs_manifests staged) (hs_log staged) documents = Inr ())"

lemma archive_host_Inr:
  assumes "archive_host c staged s = (Inr staged', s')"
  obtains documents where "staged' = staged\<lparr>hs_historical_members := bs_extend (hs_members staged) (hs_historical_members staged),
      hs_identity_documents := documents\<rparr>" "require_writer_documents (hs_manifests staged) (hs_log staged) documents = Inr ()"
  using assms by (auto simp: archive_host_def Let_def k_bind_def k_ret_def split: prod.splits sum.splits)

lemma publish_state_published: "keeps (\<lambda>h. h = self) (publish_state c staged) (\<lambda>_. published_as staged self) (\<lambda>_. True)"
  unfolding publish_state_def Let_def
proof (intro keeps_intros TrueI)
  fix x s s' self' clone u a b
  assume "archive_host c staged s = (Inr x, s')" "self' = self"
  then show "published_as staged self (upd_state (\<lambda>_. (trim_state x)\<lparr>hs_chunks := a\<rparr>) (upd_chunks (share_durable clone) self'))"
    by (elim archive_host_Inr) (auto simp: published_as_def upd_state_def upd_chunks_def)
qed

lemma publish_commit_published:
  "keeps (\<lambda>h. h = self) (publish_commit c blocked staged) (\<lambda>_ self'. \<exists>st. staged = Inr st \<and> published_as st self self') (\<lambda>_. True)"
  unfolding publish_commit_def
  by (rule keeps_or [OF _ keeps_trivial], rule keeps_bind_ret)
    (auto intro!: keeps_weaken [OF publish_state_published])

text \<open>The instruction that a commit publishes, and the queues it was prepared with.\<close>

definition prepared_by :: "crypto \<Rightarrow> host_env \<Rightarrow> HostService \<Rightarrow> ControlUpdate \<Rightarrow> TrustedManifest option \<Rightarrow> FileId option \<Rightarrow> prepared \<Rightarrow> bool" where
  "prepared_by c env self update trusted removed p \<longleftrightarrow>
     (\<exists>queued_at w w'. h_iter (prepare_recipient c (he_now env) self \<lparr>cr_id = hs_next_control (h_state self), cr_update = update\<rparr>
        trusted removed queued_at) (commit_recipients (h_state self) update)
        (\<lparr>pq_queues = hs_mailboxes (h_state self), pq_online = hs_online (h_state self), pq_blocked = []\<rparr>, w) = (Ret (Inr ()), p, w'))"

definition committed_as ::
  "crypto \<Rightarrow> host_env \<Rightarrow> ControlUpdate \<Rightarrow> TrustedManifest option \<Rightarrow> JoinCode option \<Rightarrow> DirectoryTree \<Rightarrow> FileId option \<Rightarrow>
    HostService \<Rightarrow> HostService \<Rightarrow> bool" where
  "committed_as c env update trusted rotated tree removed self self' \<longleftrightarrow>
     (\<exists>next_id p staged. checked_add (hs_next_control (h_state self)) 1 = Some next_id \<and>
        prepared_by c env self update trusted removed p \<and>
        stage_commit env \<lparr>cr_id = hs_next_control (h_state self), cr_update = update\<rparr> trusted rotated tree removed next_id p (h_state self)
          = Inr staged \<and> published_as staged self self')"

lemma commit_record_commits:
  "keeps (\<lambda>h. h = self) (commit_record c env update trusted rotated tree removed)
     (\<lambda>_. committed_as c env update trusted rotated tree removed self) (\<lambda>_. True)"
  unfolding commit_record_def Let_def
proof (rule keeps_bind_get, rule keeps_at, rule keeps_at, rule keeps_bind, rule keeps_sessions, simp, rule keeps_bind_local,
    rule keeps_case, rule keeps_case)
  fix h :: HostService and x queued_at r l' w w' a p u
  let ?rcd = "\<lparr>cr_id = hs_next_control (h_state h), cr_update = update\<rparr>"
  let ?staged = "stage_commit env ?rcd trusted rotated tree removed x p (h_state h)"
  assume "h = self" "ok_or (checked_add (hs_next_control (h_state h)) 1) (State ''instruction ids exhausted'') = Inr x"
    "h_iter (prepare_recipient c (he_now env) h ?rcd trusted removed queued_at) (commit_recipients (h_state h) update)
        (\<lparr>pq_queues = hs_mailboxes (h_state h), pq_online = hs_online (h_state h), pq_blocked = []\<rparr>, w) = (Ret r, l', w')"
    "(r, l') = (a, p)" "a = Inr u"
  then have "prepared_by c env self update trusted removed p" "checked_add (hs_next_control (h_state self)) 1 = Some x"
    unfolding prepared_by_def by auto
  then show "keeps (\<lambda>h'. h' = h) (publish_commit c (pq_blocked p) ?staged)
      (\<lambda>_. committed_as c env update trusted rotated tree removed self) (\<lambda>_. True)"
    using \<open>h = self\<close> by (intro keeps_weaken [OF publish_commit_published]) (auto simp: committed_as_def)
qed (auto intro: keeps_failing)

lemma host_view_eq:
  assumes "host_view a = host_view b"
  shows "hs_tree (h_state a) = hs_tree (h_state b)" "hs_manifests (h_state a) = hs_manifests (h_state b)"
    "hs_members (h_state a) = hs_members (h_state b)" "hs_denied (h_state a) = hs_denied (h_state b)"
    "hs_next_control (h_state a) = hs_next_control (h_state b)" "hs_log (h_state a) = hs_log (h_state b)"
    "hs_host_id (h_state a) = hs_host_id (h_state b)" "hs_acked_through (h_state a) = hs_acked_through (h_state b)"
    "hs_bootstrap_through (h_state a) = hs_bootstrap_through (h_state b)" "hs_online (h_state a) = hs_online (h_state b)"
    "hs_expected_root (h_state a) = hs_expected_root (h_state b)" "hs_admission (h_state a) = hs_admission (h_state b)"
    "contents (hs_mailboxes (h_state a)) = contents (hs_mailboxes (h_state b))"
    "mc_chunks (hs_chunks (h_state a)) = mc_chunks (hs_chunks (h_state b))"
    "h_running a = h_running b" "h_presence a = h_presence b" "h_recent_ops a = h_recent_ops b"
  using assms by (cases a; cases b; cases "h_state a"; cases "h_state b"; cases "hs_chunks (h_state a)"; cases "hs_chunks (h_state b)";
      simp add: host_view_def upd_state_def)+

lemma commit_verified_commits:
  assumes "bm_ok (hs_mailboxes (h_state self))"
  shows "keeps (\<lambda>h. h = self) (commit_verified_with_code c env update trusted rotated)
    (\<lambda>_ self'. \<exists>self1 tree removed. host_view self1 = host_view self \<and> validate_link_kind (hs_manifests (h_state self)) update = Inr () \<and>
       apply_tree_update (hs_tree (h_state self)) update = Inr (tree, removed) \<and>
       committed_as c env update trusted rotated tree removed self1 self') (\<lambda>_. True)"
  unfolding commit_verified_with_code_def
proof (rule keeps_bind_get, rule keeps_at, rule keeps_at, rule keeps_case, rule keeps_bind [where R = "\<lambda>_. viewed (host_view self)"])
  fix h x y tree removed
  assume h: "h = self" "validate_link_kind (hs_manifests (h_state h)) update = Inr x"
    "apply_tree_update (hs_tree (h_state h)) update = Inr y" "y = (tree, removed)"
  have "bm_ok (snd (host_view self))" using assms by (simp add: host_view_def)
  then show "keeps (\<lambda>h'. h' = h) (refresh_mailboxes c) (\<lambda>_. viewed (host_view self)) (\<lambda>_. True)"
    by (rule keeps_weaken [OF silent_refresh_mailboxes]) (auto simp: h)
  show "keeps (viewed (host_view self)) (commit_record c env update trusted rotated tree removed)
    (\<lambda>_ self'. \<exists>self1 tree removed. host_view self1 = host_view self \<and> validate_link_kind (hs_manifests (h_state self)) update = Inr () \<and>
       apply_tree_update (hs_tree (h_state self)) update = Inr (tree, removed) \<and>
       committed_as c env update trusted rotated tree removed self1 self') (\<lambda>_. True)"
    by (rule keeps_start, rule keeps_weaken [OF commit_record_commits]) (use h in auto)
qed auto

section \<open>The state after a commit\<close>

definition host_content :: "HostState \<Rightarrow> content" where
  "host_content st = (hs_tree st, plain (hs_manifests st))"

lemma stage_manifest_fields:
  assumes "stage_manifest update trusted st = Inr staged"
  shows "\<exists>t. (\<forall>m. update = NewManifest m \<longrightarrow> trusted = Some t) \<and> staged = st\<lparr>hs_manifests :=
    (case update of NewManifest m \<Rightarrow> bm_insert (mf_file_id m) t (hs_manifests st) | _ \<Rightarrow> hs_manifests st)\<rparr>"
  using assms by (cases update) (auto simp: stage_manifest_def)

lemma stage_removal_fields:
  "stage_removal removed st = st\<lparr>hs_chunks := (case removed of None \<Rightarrow> hs_chunks st | Some f \<Rightarrow> remove_file (hs_chunks st) f),
     hs_manifests := (case removed of None \<Rightarrow> hs_manifests st | Some f \<Rightarrow> bm_remove f (hs_manifests st))\<rparr>"
  by (cases removed) (simp_all add: stage_removal_def)

definition when_kick :: "ControlUpdate \<Rightarrow> (PeerId \<Rightarrow> 'a \<Rightarrow> 'a) \<Rightarrow> 'a \<Rightarrow> 'a" where
  "when_kick update f x = (case update of Kick target \<Rightarrow> f target x | _ \<Rightarrow> x)"

lemma stage_kick_fields:
  assumes "(case update of Kick target \<Rightarrow> stage_kick env rotated target st | _ \<Rightarrow> Inr st) = Inr staged"
  shows "\<exists>admission. staged = st\<lparr>hs_members := when_kick update bs_remove (hs_members st),
    hs_acked_through := when_kick update bm_remove (hs_acked_through st),
    hs_bootstrap_through := when_kick update bm_remove (hs_bootstrap_through st),
    hs_mailboxes := when_kick update bm_remove (hs_mailboxes st), hs_online := when_kick update bm_remove (hs_online st),
    hs_denied := when_kick update bs_insert (hs_denied st), hs_admission := admission\<rparr>"
  using assms by (cases update) (auto simp: stage_kick_def when_kick_def Let_def intro: exI [of _ "hs_admission st"] split: option.splits)

lemma stage_commit_fields:
  assumes "stage_commit env record trusted rotated tree removed next_id p st = Inr staged"
  shows "hs_tree staged = tree" "hs_next_control staged = next_id" "hs_log staged = hs_log st @ [record]"
    "hs_host_id staged = hs_host_id st" "hs_expected_root staged = hs_expected_root st"
    "hs_members staged = when_kick (cr_update record) bs_remove (hs_members st)"
    "hs_denied staged = when_kick (cr_update record) bs_insert (hs_denied st)"
    "hs_mailboxes staged = when_kick (cr_update record) bm_remove (pq_queues p)"
    "hs_online staged = when_kick (cr_update record) bm_remove (pq_online p)"
    "hs_bootstrap_through staged = when_kick (cr_update record) bm_remove (hs_bootstrap_through st)"
    "hs_acked_through staged = bm_insert (hs_host_id st) (cr_id record) (when_kick (cr_update record) bm_remove (hs_acked_through st))"
    "\<exists>t. (\<forall>m. cr_update record = NewManifest m \<longrightarrow> trusted = Some t) \<and>
       hs_manifests staged = (let ms = (case cr_update record of NewManifest m \<Rightarrow> bm_insert (mf_file_id m) t (hs_manifests st) | _ \<Rightarrow> hs_manifests st)
         in case removed of None \<Rightarrow> ms | Some f \<Rightarrow> bm_remove f ms)"
proof -
  obtain s1 s2 where s1: "stage_manifest (cr_update record) trusted (st\<lparr>hs_tree := tree\<rparr>) = Inr s1"
    and s2: "(case cr_update record of Kick target \<Rightarrow> stage_kick env rotated target
        ((stage_removal removed s1)\<lparr>hs_mailboxes := pq_queues p, hs_online := pq_online p\<rparr>)
      | _ \<Rightarrow> Inr ((stage_removal removed s1)\<lparr>hs_mailboxes := pq_queues p, hs_online := pq_online p\<rparr>)) = Inr s2"
    and s3: "staged = s2\<lparr>hs_acked_through := bm_insert (hs_host_id s2) (cr_id record) (hs_acked_through s2),
       hs_log := hs_log s2 @ [record], hs_next_control := next_id\<rparr>"
    using assms by (auto simp: stage_commit_def Let_def)
  obtain admission where s2': "s2 = ((stage_removal removed s1)\<lparr>hs_mailboxes := pq_queues p, hs_online := pq_online p\<rparr>)\<lparr>
    hs_members := when_kick (cr_update record) bs_remove (hs_members s1),
    hs_acked_through := when_kick (cr_update record) bm_remove (hs_acked_through s1),
    hs_bootstrap_through := when_kick (cr_update record) bm_remove (hs_bootstrap_through s1),
    hs_mailboxes := when_kick (cr_update record) bm_remove (pq_queues p), hs_online := when_kick (cr_update record) bm_remove (pq_online p),
    hs_denied := when_kick (cr_update record) bs_insert (hs_denied s1), hs_admission := admission\<rparr>"
    using stage_kick_fields [OF s2] by (auto simp: stage_removal_fields)
  obtain t where t: "\<forall>m. cr_update record = NewManifest m \<longrightarrow> trusted = Some t" and s1': "s1 = (st\<lparr>hs_tree := tree\<rparr>)\<lparr>hs_manifests :=
    (case cr_update record of NewManifest m \<Rightarrow> bm_insert (mf_file_id m) t (hs_manifests (st\<lparr>hs_tree := tree\<rparr>))
     | _ \<Rightarrow> hs_manifests (st\<lparr>hs_tree := tree\<rparr>))\<rparr>"
    using stage_manifest_fields [OF s1] by blast
  note staged = s3 s2' stage_removal_fields s1'
  show "hs_tree staged = tree" "hs_next_control staged = next_id" "hs_log staged = hs_log st @ [record]"
    "hs_host_id staged = hs_host_id st" "hs_expected_root staged = hs_expected_root st"
    "hs_members staged = when_kick (cr_update record) bs_remove (hs_members st)"
    "hs_denied staged = when_kick (cr_update record) bs_insert (hs_denied st)"
    "hs_mailboxes staged = when_kick (cr_update record) bm_remove (pq_queues p)"
    "hs_online staged = when_kick (cr_update record) bm_remove (pq_online p)"
    "hs_bootstrap_through staged = when_kick (cr_update record) bm_remove (hs_bootstrap_through st)"
    "hs_acked_through staged = bm_insert (hs_host_id st) (cr_id record) (when_kick (cr_update record) bm_remove (hs_acked_through st))"
    by (simp_all add: staged)
  show "\<exists>t. (\<forall>m. cr_update record = NewManifest m \<longrightarrow> trusted = Some t) \<and>
       hs_manifests staged = (let ms = (case cr_update record of NewManifest m \<Rightarrow> bm_insert (mf_file_id m) t (hs_manifests st) | _ \<Rightarrow> hs_manifests st)
         in case removed of None \<Rightarrow> ms | Some f \<Rightarrow> bm_remove f ms)"
    by (rule exI [of _ t], rule conjI [OF t]) (cases removed; cases "cr_update record"; simp add: staged Let_def)
qed

lemma trim_state_fields [simp]:
  "hs_tree (trim_state st) = hs_tree st" "hs_next_control (trim_state st) = hs_next_control st"
  "hs_host_id (trim_state st) = hs_host_id st" "hs_expected_root (trim_state st) = hs_expected_root st"
  "hs_members (trim_state st) = hs_members st" "hs_denied (trim_state st) = hs_denied st"
  "hs_mailboxes (trim_state st) = hs_mailboxes st" "hs_online (trim_state st) = hs_online st"
  "hs_bootstrap_through (trim_state st) = hs_bootstrap_through st" "hs_acked_through (trim_state st) = hs_acked_through st"
  "hs_manifests (trim_state st) = hs_manifests st" "hs_identity_documents (trim_state st) = hs_identity_documents st"
  "hs_historical_members (trim_state st) = hs_historical_members st" "hs_gate_owner (trim_state st) = hs_gate_owner st"
  "hs_log (trim_state st) = filter (\<lambda>record. cr_id record > log_floor st) (hs_log st)"
  by (simp_all add: trim_state_def log_floor_def)

lemma published_as_fields:
  assumes "published_as staged self self'"
  shows "hs_tree (h_state self') = hs_tree staged" "hs_next_control (h_state self') = hs_next_control staged"
    "hs_host_id (h_state self') = hs_host_id staged" "hs_expected_root (h_state self') = hs_expected_root staged"
    "hs_members (h_state self') = hs_members staged" "hs_denied (h_state self') = hs_denied staged"
    "hs_mailboxes (h_state self') = hs_mailboxes staged" "hs_online (h_state self') = hs_online staged"
    "hs_bootstrap_through (h_state self') = hs_bootstrap_through staged" "hs_acked_through (h_state self') = hs_acked_through staged"
    "hs_manifests (h_state self') = hs_manifests staged"
    "hs_log (h_state self') = filter (\<lambda>record. cr_id record > log_floor staged) (hs_log staged)"
    "h_running self' = h_running self" "h_presence self' = h_presence self"
  using assms by (auto simp: published_as_def log_floor_def)

text \<open>
  A commit changes the content of the vault exactly as its instruction says, gives the instruction the
  next number and hands it to the log; only a kick changes the membership.
\<close>

lemma committed_step:
  assumes "committed_as c env update trusted rotated tree removed self self'"
    and "validate_link_kind (hs_manifests (h_state self)) update = Inr ()"
    and "apply_tree_update (hs_tree (h_state self)) update = Inr (tree, removed)"
    and "\<And>m. update = NewManifest m \<Longrightarrow> map_option tm_manifest trusted = Some m"
  shows "content_step update (host_content (h_state self)) = Inr (host_content (h_state self'))"
    and "unat (hs_next_control (h_state self')) = Suc (unat (hs_next_control (h_state self)))"
    and "hs_members (h_state self') = when_kick update bs_remove (hs_members (h_state self))"
    and "hs_denied (h_state self') = when_kick update bs_insert (hs_denied (h_state self))"
    and "set (hs_log (h_state self')) \<subseteq> insert \<lparr>cr_id = hs_next_control (h_state self), cr_update = update\<rparr> (set (hs_log (h_state self)))"
proof -
  let ?rcd = "\<lparr>cr_id = hs_next_control (h_state self), cr_update = update\<rparr>"
  obtain next_id p staged where next_id: "checked_add (hs_next_control (h_state self)) 1 = Some next_id"
    and staged: "stage_commit env ?rcd trusted rotated tree removed next_id p (h_state self) = Inr staged"
    and pub: "published_as staged self self'"
    using assms(1) unfolding committed_as_def by blast
  note fields = published_as_fields [OF pub] stage_commit_fields(1-11) [OF staged]
  obtain t where t: "\<And>m. update = NewManifest m \<Longrightarrow> trusted = Some t"
    and ms: "hs_manifests staged = (let ms = (case update of NewManifest m \<Rightarrow> bm_insert (mf_file_id m) t (hs_manifests (h_state self))
        | _ \<Rightarrow> hs_manifests (h_state self)) in case removed of None \<Rightarrow> ms | Some f \<Rightarrow> bm_remove f ms)"
    using stage_commit_fields(12) [OF staged] by auto
  have "tm_manifest t = m" if "update = NewManifest m" for m using t [OF that] assms(4) [OF that] by simp
  from content_step_plain [OF assms(2,3) refl this]
  show "content_step update (host_content (h_state self)) = Inr (host_content (h_state self'))"
    by (simp add: host_content_def fields ms Let_def)
  show "unat (hs_next_control (h_state self')) = Suc (unat (hs_next_control (h_state self)))"
    using checked_add_SomeD [OF next_id] by (simp add: fields)
  show "hs_members (h_state self') = when_kick update bs_remove (hs_members (h_state self))"
    "hs_denied (h_state self') = when_kick update bs_insert (hs_denied (h_state self))"
    by (simp_all add: fields)
  show "set (hs_log (h_state self')) \<subseteq> insert ?rcd (set (hs_log (h_state self)))"
    by (auto simp: fields)
qed

end
