(* ===== verification/Host_Inv.thy ===== *)
theory Host_Inv
  imports Host_Commit
begin

text \<open>
  The invariant of the host's state: its tree is well formed, it is a member of its own vault, and its log
  holds, without a gap, every instruction that some member may still need. It holds in every state that a
  host reaches by its operations.
\<close>

section \<open>The invariant\<close>

text \<open>The last instruction that a member needs no more: acknowledged, or part of its bootstrap.\<close>

definition covered :: "HostState \<Rightarrow> PeerId \<Rightarrow> u64" where
  "covered st peer = max (bm_or_default 0 (hs_acked_through st) peer) (bm_or_default 0 (hs_bootstrap_through st) peer)"

definition log_from :: "nat \<Rightarrow> HostState \<Rightarrow> bool" where
  "log_from a st \<longleftrightarrow> map (\<lambda>record. unat (cr_id record)) (hs_log st) = [a..<unat (hs_next_control st)] \<and>
     0 < a \<and> a \<le> unat (hs_next_control st) \<and> (\<forall>peer \<in> set (hs_members st). a \<le> Suc (unat (covered st peer)))"

definition host_wf :: "HostState \<Rightarrow> bool" where
  "host_wf st \<longleftrightarrow> tree_ok (hs_tree st) \<and> dt_expected_root (hs_tree st) = hs_expected_root st \<and>
     hs_host_id st \<in> set (hs_members st) \<and> bs_ok (hs_members st) \<and> bm_ok (hs_manifests st) \<and> bm_ok (hs_mailboxes st) \<and>
     bm_ok (hs_acked_through st) \<and> bm_ok (hs_bootstrap_through st) \<and> (\<exists>a. log_from a st)"

lemma host_wf_view:
  assumes "host_view a = host_view b"
  shows "host_wf (h_state a) = host_wf (h_state b)"
proof -
  have "bm_ok (hs_mailboxes (h_state a)) = bm_ok (hs_mailboxes (h_state b))"
    using host_view_eq(13) [OF assms] by (metis bm_ok_contents)
  then show ?thesis
    unfolding host_wf_def log_from_def covered_def host_view_eq [OF assms] by (simp only:)
qed

lemma log_floor_le: "peer \<in> set (hs_members st) \<Longrightarrow> log_floor st \<le> bm_or_default 0 (hs_acked_through st) peer"
  by (cases "hs_members st = []") (auto simp: log_floor_def min_list_opt_Some)

lemma filter_upt: "filter (\<lambda>n. f < n) [a..<b] = [max a (Suc f)..<b]"
  by (induction b) (auto simp: max_def)

lemma filter_log:
  assumes "map (\<lambda>record. unat (cr_id record)) log = [a..<b]"
  shows "map (\<lambda>record. unat (cr_id record)) (filter (\<lambda>record. cr_id record > f) log) = [max a (Suc (unat f))..<b]"
proof -
  have "map (\<lambda>record. unat (cr_id record)) (filter (\<lambda>record. cr_id record > f) log) =
    filter (\<lambda>n. unat f < n) (map (\<lambda>record. unat (cr_id record)) log)"
    by (simp add: filter_map o_def word_less_nat_alt)
  then show ?thesis by (simp add: assms filter_upt)
qed

section \<open>Publishing\<close>

lemma host_wf_trim:
  assumes "host_wf st"
  shows "host_wf (trim_state st)"
proof -
  obtain a where a: "log_from a st" using assms by (auto simp: host_wf_def)
  let ?a = "min (max a (Suc (unat (log_floor st)))) (unat (hs_next_control st))"
  have "?a \<le> Suc (unat (covered st peer))" if "peer \<in> set (hs_members st)" for peer
  proof -
    have "unat (log_floor st) \<le> unat (covered st peer)"
      using log_floor_le [OF that] by (auto simp: covered_def word_le_nat_alt [symmetric] max.coboundedI1)
    moreover have "a \<le> Suc (unat (covered st peer))" using a that by (simp add: log_from_def)
    ultimately show ?thesis by linarith
  qed
  moreover have "[max a (Suc (unat (log_floor st)))..<unat (hs_next_control st)] = [?a..<unat (hs_next_control st)]"
    by (cases "max a (Suc (unat (log_floor st))) \<le> unat (hs_next_control st)") auto
  ultimately have "log_from ?a (trim_state st)"
    using a filter_log [of "hs_log st" a _ "log_floor st"] by (auto simp: log_from_def covered_def)
  then show ?thesis using assms unfolding host_wf_def by auto
qed

lemma host_wf_published:
  assumes "published_as staged self self'" and "host_wf staged"
  shows "host_wf (h_state self')"
proof -
  have "host_wf (staged\<lparr>hs_historical_members := h, hs_identity_documents := d\<rparr>)" for h d
    using assms(2) by (simp add: host_wf_def log_from_def covered_def)
  from host_wf_trim [OF this] have "host_wf ((trim_state (staged\<lparr>hs_historical_members := h, hs_identity_documents := d\<rparr>))\<lparr>hs_chunks := k\<rparr>)" for h d k
    unfolding host_wf_def log_from_def covered_def by simp
  then show ?thesis using assms(1) by (auto simp: published_as_def)
qed

section \<open>Changes of the state\<close>

lemma prepare_recipient_ok:
  "keeps (\<lambda>p. bm_ok (pq_queues p)) (prepare_recipient c now self record trusted removed queued_at peer) (\<lambda>_ p. bm_ok (pq_queues p)) (\<lambda>_. True)"
  unfolding prepare_recipient_def Let_def
  by (rule keeps_start, intro keeps_intros TrueI) auto

lemma prepared_ok:
  assumes "prepared_by c env self update trusted removed p" and "bm_ok (hs_mailboxes (h_state self))"
  shows "bm_ok (pq_queues p)"
proof -
  have "keeps (\<lambda>p. bm_ok (pq_queues p)) (h_iter (prepare_recipient c now self rcd trusted removed queued_at) peers)
    (\<lambda>_ p. bm_ok (pq_queues p)) (\<lambda>_. True)" for now rcd queued_at peers
    by (rule keeps_iter) (auto intro: prepare_recipient_ok)
  note keep = keeps_Inr [OF this, of "\<lparr>pq_queues = hs_mailboxes (h_state self), pq_online = hs_online (h_state self), pq_blocked = []\<rparr>"]
  from assms(1) show ?thesis unfolding prepared_by_def by (elim exE) (rule keep, simp add: assms(2))
qed

lemma when_kick_bm_ok [simp]: "bm_ok m \<Longrightarrow> bm_ok (when_kick update bm_remove m)"
  by (cases update) (auto simp: when_kick_def)

lemma when_kick_members [simp]:
  "bs_ok m \<Longrightarrow> bs_ok (when_kick update bs_remove m)"
  "x \<in> set m \<Longrightarrow> update \<noteq> Kick x \<Longrightarrow> x \<in> set (when_kick update bs_remove m)"
  by (cases update; auto simp: when_kick_def)+

lemma when_kick_subset: "x \<in> set (when_kick update bs_remove m) \<Longrightarrow> x \<in> set m \<and> update \<noteq> Kick x"
  by (cases update) (auto simp: when_kick_def)

lemma when_kick_get: "update \<noteq> Kick x \<Longrightarrow> bm_or_default d (when_kick update bm_remove m) x = bm_or_default d m x"
  by (cases update) (auto simp: when_kick_def bm_or_default_def)

lemma bm_or_default_insert: "bm_ok m \<Longrightarrow> bm_or_default d (bm_insert k v m) x = (if x = k then v else bm_or_default d m x)"
  by (simp add: bm_or_default_def)

lemma host_wf_commit:
  assumes ok: "host_wf st"
    and staged: "stage_commit env \<lparr>cr_id = hs_next_control st, cr_update = update\<rparr> trusted rotated tree removed next_id p st = Inr staged"
    and next_id: "checked_add (hs_next_control st) 1 = Some next_id" and p: "bm_ok (pq_queues p)"
    and tree: "apply_tree_update (hs_tree st) update = Inr (tree, removed)" and kick: "update \<noteq> Kick (hs_host_id st)"
  shows "host_wf staged"
proof -
  note fields = stage_commit_fields(1-11) [OF staged]
  have oks: "tree_ok (hs_tree st)" "bm_ok (hs_acked_through st)" "bm_ok (hs_manifests st)"
    using ok by (auto simp: host_wf_def)
  have ms: "bm_ok (hs_manifests staged)"
    using stage_commit_fields(12) [OF staged] oks(3) by (cases removed; cases update; auto simp: Let_def)
  obtain a where a: "log_from a st" using ok by (auto simp: host_wf_def)
  have "a \<le> Suc (unat (covered staged peer))" if "peer \<in> set (hs_members staged)" for peer
  proof -
    have peer: "peer \<in> set (hs_members st)" "update \<noteq> Kick peer" using that by (auto simp: fields dest: when_kick_subset)
    have "covered staged peer = (if peer = hs_host_id st then max (hs_next_control st) (bm_or_default 0 (hs_bootstrap_through st) peer) else covered st peer)"
      by (simp add: covered_def fields bm_or_default_insert oks when_kick_get peer)
    moreover have "hs_next_control st \<le> max (hs_next_control st) n" for n by simp
    then have "unat (hs_next_control st) \<le> unat (max (hs_next_control st) n)" for n by (simp only: word_le_nat_alt)
    ultimately show ?thesis using a peer(1) unfolding log_from_def by (metis le_Suc_eq le_trans)
  qed
  then have "log_from a staged"
    using a checked_add_SomeD [OF next_id] by (simp add: log_from_def fields)
  then show ?thesis
    using ok p kick apply_tree_update_ok [OF oks(1) tree] ms by (auto simp: host_wf_def fields)
qed

lemma host_wf_same:
  assumes "host_wf st" and "hs_tree st' = hs_tree st" "hs_expected_root st' = hs_expected_root st" "hs_host_id st' = hs_host_id st"
    "hs_members st' = hs_members st" "hs_manifests st' = hs_manifests st" "bm_ok (hs_mailboxes st')"
    "bm_ok (hs_acked_through st')" "bm_ok (hs_bootstrap_through st')" "hs_log st' = hs_log st" "hs_next_control st' = hs_next_control st"
    "\<And>peer. covered st peer \<le> covered st' peer"
  shows "host_wf st'"
proof -
  obtain a where "log_from a st" using assms(1) by (auto simp: host_wf_def)
  moreover have "unat (covered st peer) \<le> unat (covered st' peer)" for peer using assms(12) by (simp add: word_le_nat_alt)
  ultimately have "log_from a st'" using assms unfolding log_from_def by (metis Suc_le_mono le_trans)
  then show ?thesis using assms unfolding host_wf_def by auto
qed

lemma host_wf_admission:
  assumes ok: "host_wf st"
  shows "host_wf (st\<lparr>hs_admission := a\<rparr>)" "host_wf (st\<lparr>hs_denied := ds, hs_admission := a\<rparr>)" "host_wf (st\<lparr>hs_chunks := k\<rparr>)"
  by (rule host_wf_same [OF ok]; use ok in \<open>auto simp: host_wf_def covered_def\<close>)+

lemma host_wf_mailbox:
  assumes ok: "host_wf st"
  shows "host_wf (st\<lparr>hs_mailboxes := bm_insert peer queue (hs_mailboxes st)\<rparr>)"
  by (rule host_wf_same [OF ok]) (use ok in \<open>auto simp: host_wf_def covered_def\<close>)

text \<open>A new member needs nothing before its bootstrap, which ends with the last instruction.\<close>

lemma host_wf_admitted:
  assumes ok: "host_wf st" and m: "hs_members st' = bs_insert peer (hs_members st)"
    and b: "hs_bootstrap_through st' = bm_insert peer (saturating_pred (hs_next_control st)) (hs_bootstrap_through st)"
    and rest: "hs_tree st' = hs_tree st" "hs_expected_root st' = hs_expected_root st" "hs_host_id st' = hs_host_id st"
      "hs_manifests st' = hs_manifests st" "bm_ok (hs_mailboxes st')" "hs_acked_through st' = hs_acked_through st"
      "hs_log st' = hs_log st" "hs_next_control st' = hs_next_control st" and new: "peer \<notin> set (hs_members st)"
  shows "host_wf st'"
proof -
  obtain a where a: "log_from a st" using ok by (auto simp: host_wf_def)
  have boot: "bm_ok (hs_bootstrap_through st)" using ok by (simp add: host_wf_def)
  have "0 < unat (hs_next_control st)" using a by (simp add: log_from_def)
  then have pos: "hs_next_control st \<noteq> 0" by auto
  have "a \<le> Suc (unat (covered st' q))" if "q \<in> set (hs_members st')" for q
  proof (cases "q = peer")
    case True
    have "saturating_pred (hs_next_control st) \<le> covered st' peer"
      by (simp add: covered_def b boot bm_or_default_insert)
    moreover have "Suc (unat (saturating_pred (hs_next_control st))) = unat (hs_next_control st)"
      using pos by (simp add: saturating_pred_def unat_minus_one unat_gt_0)
    ultimately show ?thesis using True a by (simp add: log_from_def word_le_nat_alt)
  next
    case False
    then have "covered st' q = covered st q" "q \<in> set (hs_members st)"
      using that by (auto simp: covered_def b rest boot bm_or_default_insert m)
    then show ?thesis using a by (simp add: log_from_def)
  qed
  then have "log_from a st'" using a by (simp add: log_from_def rest)
  then show ?thesis using ok by (auto simp: host_wf_def rest m b)
qed

lemma host_wf_online:
  assumes ok: "host_wf st"
  shows "host_wf (st\<lparr>hs_online := online\<rparr>)"
  by (rule host_wf_same [OF ok]) (use ok in \<open>auto simp: host_wf_def covered_def\<close>)

lemma host_wf_flushed:
  assumes ok: "host_wf st"
  shows "host_wf (st\<lparr>
    hs_acked_through := bm_insert peer (max (bm_or_default 0 (hs_acked_through st) peer) (flushed_through st peer)) (hs_acked_through st),
    hs_mailboxes := bm_remove peer (hs_mailboxes st), hs_bootstrap_through := bm_remove peer (hs_bootstrap_through st)\<rparr>)"
proof (rule host_wf_same [OF ok])
  have oks: "bm_ok (hs_acked_through st)" using ok by (simp add: host_wf_def)
  show "covered st q \<le> covered (st\<lparr>hs_acked_through := bm_insert peer (max (bm_or_default 0 (hs_acked_through st) peer) (flushed_through st peer)) (hs_acked_through st),
    hs_mailboxes := bm_remove peer (hs_mailboxes st), hs_bootstrap_through := bm_remove peer (hs_bootstrap_through st)\<rparr>) q" for q
    by (cases "q = peer")
      (auto simp: covered_def bm_or_default_insert [OF oks] flushed_through_def Let_def bm_or_default_def [of 0 "bm_remove _ _"] bm_or_default_def [symmetric] le_max_iff_disj)
qed (use ok in \<open>auto simp: host_wf_def\<close>)

lemma host_wf_acked:
  assumes ok: "host_wf st"
  shows "host_wf (st\<lparr>hs_acked_through := bm_insert peer (max (bm_or_default 0 (hs_acked_through st) peer) through) (hs_acked_through st)\<rparr>)"
  by (rule host_wf_same [OF ok]) (use ok in \<open>auto simp: host_wf_def covered_def bm_or_default_insert max.coboundedI1 max.coboundedI2\<close>)

lemma keeps_bind_modify_inv: "(\<And>h. P h \<Longrightarrow> P (m h)) \<Longrightarrow> keeps P (f ()) Q E \<Longrightarrow> keeps P (h_bind (h_modify m) f) Q E"
  by (rule keeps_bind [where R = "\<lambda>_. P"]) (auto intro: keeps_modify)

section \<open>Invariants of the operations\<close>

text \<open>
  What a condition on the state must satisfy so that every operation of the host keeps it: it does not
  depend on how entries are sealed or which chunks are stored, snapshots keep it, and so does each change
  that an operation stages.
\<close>

locale host_invariant =
  fixes I :: "HostState \<Rightarrow> bool"
  assumes boxes: "I st \<Longrightarrow> bm_ok (hs_mailboxes st)"
    and view: "host_view a = host_view b \<Longrightarrow> I (h_state a) = I (h_state b)"
    and snapshot: "published_as staged self self' \<Longrightarrow> I staged \<Longrightarrow> I (h_state self')"
    and committed: "\<lbrakk>I st; stage_commit env \<lparr>cr_id = hs_next_control st, cr_update = update\<rparr> trusted rotated tree removed next_id p st = Inr staged;
        checked_add (hs_next_control st) 1 = Some next_id; bm_ok (pq_queues p);
        apply_tree_update (hs_tree st) update = Inr (tree, removed); update \<noteq> Kick (hs_host_id st)\<rbrakk> \<Longrightarrow> I staged"
    and chunks: "I (st\<lparr>hs_chunks := k\<rparr>) = I st"
    and admission: "I st \<Longrightarrow> I (st\<lparr>hs_admission := adm\<rparr>)"
      "I st \<Longrightarrow> I (st\<lparr>hs_denied := bs_extend ds (hs_denied st), hs_admission := adm\<rparr>)"
    and mailbox: "I st \<Longrightarrow> I (st\<lparr>hs_mailboxes := bm_insert peer queue (hs_mailboxes st)\<rparr>)"
    and online: "I st \<Longrightarrow> I (st\<lparr>hs_online := pending\<rparr>)"
    and admitted: "\<lbrakk>I st; peer \<notin> set (hs_members st); peer \<notin> set (hs_denied st); hs_members st' = bs_insert peer (hs_members st);
        hs_bootstrap_through st' = bm_insert peer (saturating_pred (hs_next_control st)) (hs_bootstrap_through st);
        hs_tree st' = hs_tree st; hs_expected_root st' = hs_expected_root st; hs_host_id st' = hs_host_id st;
        hs_manifests st' = hs_manifests st; bm_ok (hs_mailboxes st'); hs_acked_through st' = hs_acked_through st;
        hs_log st' = hs_log st; hs_next_control st' = hs_next_control st; hs_denied st' = hs_denied st\<rbrakk> \<Longrightarrow> I st'"
    and flushed: "I st \<Longrightarrow> I (st\<lparr>
        hs_acked_through := bm_insert peer (max (bm_or_default 0 (hs_acked_through st) peer) (flushed_through st peer)) (hs_acked_through st),
        hs_mailboxes := bm_remove peer (hs_mailboxes st), hs_bootstrap_through := bm_remove peer (hs_bootstrap_through st)\<rparr>)"
    and acked: "I st \<Longrightarrow> I (st\<lparr>hs_acked_through :=
        bm_insert peer (max (bm_or_default 0 (hs_acked_through st) peer) through) (hs_acked_through st)\<rparr>)"
begin

abbreviation host_ok :: "HostService \<Rightarrow> bool" where
  "host_ok self \<equiv> I (h_state self)"

abbreviation sound :: "(HostService, 'a) hop \<Rightarrow> bool" where
  "sound p \<equiv> keeps host_ok p (\<lambda>_. host_ok) host_ok"

lemma sound_publish:
  assumes "I staged"
  shows "sound (publish_state c staged)"
proof (rule keeps_start, rule keepsI)
  fix self h w x h' w' assume "h = self" "publish_state c staged (h, w) = (Ret (Inr x), h', w')"
  from keeps_Inr [OF publish_state_published this] show "host_ok h'" by (rule snapshot) (rule assms)
next
  fix self h w e h' w' assume "host_ok self" "h = self" "publish_state c staged (h, w) = (Ret (Inl e), h', w')"
  then show "host_ok h'" using keeps_Inl [OF publish_state_fails refl] view by blast
qed

lemma sound_silent:
  assumes "\<And>v. bm_ok (snd v) \<Longrightarrow> silent v p"
  shows "sound p"
proof (rule keeps_start)
  fix self assume ok: "host_ok self"
  then have "bm_ok (snd (host_view self))" by (simp add: host_view_def boxes)
  from assms [OF this] show "keeps (\<lambda>h. h = self) p (\<lambda>_. host_ok) host_ok"
    by (rule keeps_weaken) (use ok view in blast)+
qed

lemma sound_refresh: "sound (refresh_mailboxes c)"
  by (rule sound_silent) (rule silent_refresh_mailboxes)

lemma sound_commit:
  assumes kick: "\<And>self. host_ok self \<Longrightarrow> P self \<Longrightarrow> update \<noteq> Kick (hs_host_id (h_state self))"
  shows "keeps (\<lambda>self. host_ok self \<and> P self) (commit_verified_with_code c env update trusted rotated) (\<lambda>_. host_ok) host_ok"
proof (rule keeps_start, rule keepsI)
  fix self h w x h' w'
  assume self: "host_ok self \<and> P self" "h = self" and run: "commit_verified_with_code c env update trusted rotated (h, w) = (Ret (Inr x), h', w')"
  have self_boxes: "bm_ok (hs_mailboxes (h_state self))" using self boxes by simp
  obtain self1 tree removed where v: "host_view self1 = host_view self"
    and t: "apply_tree_update (hs_tree (h_state self)) update = Inr (tree, removed)"
    and com: "committed_as c env update trusted rotated tree removed self1 h'"
    using keeps_Inr [OF commit_verified_commits [OF self_boxes] self(2) run] by blast
  have ok1: "host_ok self1" using view [OF v] self by simp
  obtain next_id p staged where n: "checked_add (hs_next_control (h_state self1)) 1 = Some next_id"
    and p: "prepared_by c env self1 update trusted removed p" and pub: "published_as staged self1 h'"
    and staged: "stage_commit env \<lparr>cr_id = hs_next_control (h_state self1), cr_update = update\<rparr> trusted rotated tree removed next_id p (h_state self1) = Inr staged"
    using com unfolding committed_as_def by blast
  have "bm_ok (hs_mailboxes (h_state self1))" using ok1 boxes by simp
  moreover have "update \<noteq> Kick (hs_host_id (h_state self1))" using kick self host_view_eq(7) [OF v] by metis
  ultimately have "I staged"
    using committed [OF ok1 staged n prepared_ok [OF p]] t by (simp add: host_view_eq(1) [OF v])
  then show "host_ok h'" by (rule snapshot [OF pub])
next
  fix self h w e h' w'
  assume self: "host_ok self \<and> P self" "h = self" and run: "commit_verified_with_code c env update trusted rotated (h, w) = (Ret (Inl e), h', w')"
  have "bm_ok (snd (host_view h))" using self by (simp add: host_view_def boxes)
  from keeps_Inl [OF atomic_commit_verified_with_code [OF this] refl run] show "host_ok h'"
    using self view by blast
qed

lemma note_recent_op_state [simp]: "h_state (note_recent_op millis sender n self) = h_state self"
  by (simp add: note_recent_op_def Let_def)

lemma sound_note_op [simp, intro]: "sound (note_op env sender n)"
  unfolding note_op_def by (rule keeps_modify) simp

lemma sound_kick: "sound (kick_with_code c env target code)"
  unfolding kick_with_code_def
proof (rule keeps_bind_get, rule keeps_at, rule keeps_at, rule keeps_at, rule keeps_bind)
  fix self and u :: unit
  assume ok: "host_ok self" and guard: "guard_ok (target \<noteq> hs_host_id (h_state self)) (InvalidInput ''cannot kick H'') = Inr u"
  have "keeps (\<lambda>h. host_ok h \<and> h = self) (commit_verified_with_code c env (Kick target) None code) (\<lambda>_. host_ok) host_ok"
    by (rule sound_commit) (use guard in auto)
  then show "keeps (\<lambda>h. h = self) (commit_verified_with_code c env (Kick target) None code) (\<lambda>_. host_ok) host_ok"
    by (rule keeps_weaken) (use ok in auto)
  show "keeps host_ok (h_bind (note_op env (hs_host_id (h_state self)) (hs_next_control (h_state self))) (\<lambda>_.
     h_bind (h_modify (\<lambda>self. self\<lparr>h_presence := bm_remove target (h_presence self),
       h_challenges := bm_remove target (h_challenges self), h_disconnects := h_disconnects self @ [target]\<rparr>)) (\<lambda>_.
     h_bind (h_key (discard_pair target)) (\<lambda>_.
     h_ret (Inr target))))) (\<lambda>_. host_ok) host_ok"
    by (rule keeps_bind, rule sound_note_op, rule keeps_bind_modify_inv, simp, rule keeps_bind_key, rule keeps_ret) simp_all
qed simp_all

lemma sound_commit_verified: "(\<And>p. update \<noteq> Kick p) \<Longrightarrow> sound (commit_verified c env update trusted)"
  unfolding commit_verified_def using sound_commit [where P = "\<lambda>_. True"] by simp

lemma sound_commit_manifest: "sound (commit c env manifest)"
  unfolding commit_def Let_def
  by (rule keeps_bind_get, rule keeps_at, rule keeps_at, rule keeps_at, rule keeps_if)
    (auto intro: keeps_at keeps_from [OF sound_commit_verified])

lemma sound_commit_instruction: "sound (commit_instruction c env update)"
proof -
  have other: "sound (h_bind h_get (\<lambda>self. h_bind (h_ret (require_running self)) (\<lambda>_. commit_verified c env update None)))"
    if "\<And>p. update \<noteq> Kick p"
    by (rule keeps_bind_get, rule keeps_at) (auto intro: keeps_from [OF sound_commit_verified [OF that]])
  show ?thesis
  proof (cases update)
    case (Kick p)
    have "sound (h_bind (kick_with_code c env p None) (\<lambda>_. h_ret (Inr ())))"
      by (rule keeps_bind [OF sound_kick]) (rule keeps_ret; simp)
    with Kick show ?thesis by (simp add: commit_instruction_def)
  qed (use other sound_commit_manifest in \<open>simp_all add: commit_instruction_def\<close>)
qed

lemma sound_fan_out: "sound (fan_out_control c env sender update)"
  unfolding fan_out_control_def
  by (rule keeps_bind_get, rule keeps_at, rule keeps_at, rule keeps_at, rule keeps_then [OF sound_commit_instruction sound_note_op]) simp_all

lemma sound_resolve_parent: "sound (host_resolve_parent sender path)"
  unfolding host_resolve_parent_def by (intro keeps_intros) simp_all

lemma sound_tree_operations:
  "sound (host_mkdir c env entropy sender path)" "sound (link_file c env sender path child)"
  "sound (host_unlink c env sender path)" "sound (host_rename c env sender source destination)"
  unfolding host_mkdir_def link_file_def host_unlink_def host_rename_def
  by (rule keeps_bind [OF sound_resolve_parent], rule keeps_case,
      (rule keeps_bind [OF sound_resolve_parent], rule keeps_case)?,
      ((rule keeps_bind_ret)?, (rule keeps_bind [OF sound_fan_out])?; (rule sound_fan_out | (rule keeps_ret; simp) | simp)))+

lemma sound_run: "sound p \<Longrightarrow> host_ok h \<Longrightarrow> p (h, w) = (Ret r, h', w') \<Longrightarrow> host_ok h'"
  by (cases r) (auto dest: keeps_Inr keeps_Inl)

lemma host_ok_upd_chunks [simp]: "host_ok (upd_chunks f self) = host_ok self"
  by (simp add: upd_chunks_def upd_state_def chunks)

lemma sound_or: "sound p \<Longrightarrow> sound q \<Longrightarrow> sound (h_or p q)"
  by (rule keeps_or)

lemma sound_put_body: "sound (put_body c file_id body)"
  unfolding put_body_def by (rule keeps_case, rule keeps_bind_get, rule keeps_at, rule keeps_case) (intro keeps_intros; simp)+

lemma sound_upload_transaction: "sound (upload_transaction c envs sender manifest bodies link)"
  unfolding upload_transaction_def
  by (rule keeps_bind [OF keeps_iter [OF sound_put_body]], simp, rule keeps_bind [OF sound_fan_out])
    (cases link; simp add: sound_fan_out keeps_ret)

lemma sound_reopen_gates: "sound (reopen_gates gates)"
  unfolding reopen_gates_def by (rule keeps_iter) (auto intro!: keeps_if keeps_ret keeps_bind_get keeps_at split: prod.splits)

lemma sound_verify_writer_manifest: "sound (verify_writer_manifest c sender manifest)"
  unfolding verify_writer_manifest_def by (intro keeps_intros) simp_all

lemma sound_upload: "sound (commit_writer_upload c envs sender manifest bodies link)"
  unfolding commit_writer_upload_def Let_def
proof (rule keeps_bind [OF sound_verify_writer_manifest], rule keeps_bind_ret, rule keeps_bind [OF sound_refresh],
    rule keeps_bind_get, rule keeps_bind [where R = "\<lambda>_. host_ok"])
  fix self assume ok: "host_ok self"
  show "keeps (\<lambda>h. h = self) (h_map (\<lambda>peer. h_bind (h_key (owns_live_gate peer (hs_gate_owner (h_state self)))) (\<lambda>b. h_ret (Inr (peer, b))))
      (hs_members (h_state self))) (\<lambda>_. host_ok) host_ok"
    by (rule keeps_from [of host_ok], rule keeps_map, rule keeps_bind_key, rule keeps_ret) (use ok in simp_all)
  fix gates
  let ?t = "self\<lparr>h_defer_persistence := True, h_disconnects := [], h_recent_ops := [], h_last_seen := []\<rparr>"
  have ok': "host_ok ?t" using ok by simp
  have "sound (h_bind (h_modify (upd_chunks (share_durable (hs_chunks (h_state transaction))))) (\<lambda>_.
      h_bind (h_try (h_bind (h_ret r) (\<lambda>_. publish_state c (h_state transaction)))) (\<lambda>r.
      case r of
        Inl e \<Rightarrow> h_bind (reopen_gates gates) (\<lambda>_. h_ret (Inl e))
      | Inr _ \<Rightarrow> h_bind h_get (\<lambda>self'. h_iter (\<lambda>n. note_op (fst envs) sender (of_nat n))
           [unat (hs_next_control (h_state self))..<unat (hs_next_control (h_state self'))]))))"
    if "host_ok transaction" for r :: "unit result" and transaction
  proof (rule keeps_bind_modify_inv, simp, rule keeps_bind_try)
    show "sound (h_bind (h_ret r) (\<lambda>_. publish_state c (h_state transaction)))"
      by (rule keeps_bind_ret) (auto intro: sound_publish that)
    show "sound (case Inl e of Inl e \<Rightarrow> h_bind (reopen_gates gates) (\<lambda>_. h_ret (Inl e)) | Inr (_ :: unit) \<Rightarrow> p)" for e p
      by (simp, rule keeps_bind [OF sound_reopen_gates]) (auto intro: keeps_ret)
    show "sound (case Inr x of Inl (e :: error) \<Rightarrow> p e | Inr (_ :: unit) \<Rightarrow> h_bind h_get (\<lambda>self'. h_iter (\<lambda>n. note_op (fst envs) sender (of_nat n))
           [unat (hs_next_control (h_state self))..<unat (hs_next_control (h_state self'))]))" for x p
      by (simp, rule keeps_bind_get, rule keeps_from [OF keeps_iter]) auto
  qed
  then show "keeps host_ok (h_bind (h_local ?t (upload_transaction c envs sender manifest bodies link)) (\<lambda>(r, transaction).
      h_bind (h_modify (upd_chunks (share_durable (hs_chunks (h_state transaction))))) (\<lambda>_.
      h_bind (h_try (h_bind (h_ret r) (\<lambda>_. publish_state c (h_state transaction)))) (\<lambda>r.
      case r of
        Inl e \<Rightarrow> h_bind (reopen_gates gates) (\<lambda>_. h_ret (Inl e))
      | Inr _ \<Rightarrow> h_bind h_get (\<lambda>self'. h_iter (\<lambda>n. note_op (fst envs) sender (of_nat n))
           [unat (hs_next_control (h_state self))..<unat (hs_next_control (h_state self'))]))))) (\<lambda>_. host_ok) host_ok"
    by (intro keeps_bind_local) (auto dest: sound_run [OF sound_upload_transaction ok'])
qed simp

lemma sound_save_file: "sound (save_file c envs entropy writer path bodies)"
  unfolding save_file_def Let_def
  by (rule keeps_bind_get, (rule keeps_at | rule keeps_case | rule keeps_then [OF sound_upload])+) (auto intro: keeps_ret)

lemma sound_attach_admission: "sound (attach_admission c metadata)"
  unfolding attach_admission_def Let_def
proof (rule keeps_bind_get, rule keeps_at, rule keeps_then [of host_ok])
  fix self assume ok: "host_ok self"
  let ?staged = "if hs_admission (h_state self) = None
    then (h_state self)\<lparr>hs_denied := bs_extend (vm_denied metadata) (hs_denied (h_state self)), hs_admission := Some metadata\<rparr>
    else h_state self"
  have "I ?staged" using ok by (simp add: admission)
  then show "sound (h_or (h_bind (h_ret r) (\<lambda>_. publish_state c ?staged)) (h_modify (\<lambda>h. h\<lparr>h_admission_path := h_admission_path self\<rparr>)))" for r :: "unit result"
    by (intro sound_or keeps_bind_ret sound_publish keeps_modify) simp_all
qed (auto intro: keeps_modify)

lemma sound_set_admission: "sound (set_admission c metadata)"
  unfolding set_admission_def Let_def
  by (intro keeps_intros; (assumption | (rule keeps_from [OF sound_publish [OF admission(1)]]; assumption)))

lemma sound_publish_bootstrap:
  assumes ok: "host_ok self" and new: "peer \<notin> set (hs_members (h_state self))" and peer: "peer = id_peer_id document"
    and allowed: "guard_ok (peer \<notin> set (hs_denied (h_state self))) AuthenticationFailed = Inr u"
    and staged: "archive_host c (admit document (h_state self)) s = (Inr staged, s')"
  shows "keeps (\<lambda>h. h = self) (h_or (publish_state c (staged\<lparr>hs_mailboxes := bm_insert peer q (hs_mailboxes staged),
      hs_bootstrap_through := bm_insert peer (saturating_pred (hs_next_control staged)) (hs_bootstrap_through staged)\<rparr>)) (h_key k))
      (\<lambda>_. host_ok) host_ok"
proof -
  have "I (staged\<lparr>hs_mailboxes := bm_insert peer q (hs_mailboxes staged),
      hs_bootstrap_through := bm_insert peer (saturating_pred (hs_next_control staged)) (hs_bootstrap_through staged)\<rparr>)"
    by (rule archive_host_Inr [OF staged], rule admitted [OF ok new])
      (use boxes [OF ok] allowed in \<open>auto simp: admit_def peer\<close>)
  from sound_or [OF sound_publish [OF this] keeps_key] show ?thesis by (rule keeps_from) (use ok in auto)
qed

lemma sound_add_member: "sound (add_member c env entropy document)"
  unfolding add_member_def Let_def
  by (intro keeps_intros; (assumption | (rule sound_publish_bootstrap [OF _ _ refl]; assumption)))

lemma sound_take_online_control: "sound (take_online_control c recipient)"
  unfolding take_online_control_def Let_def
  by (intro keeps_intros keeps_then [OF sound_publish [OF online]] keeps_ret; simp add: upd_state_def online)

lemma sound_host_mailbox: "sound (host_mailbox c recipient)"
  unfolding host_mailbox_def
  by (rule keeps_bind_get, rule keeps_at, rule keeps_then [OF sound_refresh], rule keeps_bind_get, rule keeps_at) simp_all

lemma sound_unblock_idle: "sound (unblock_idle blocked)"
  by (rule sound_silent) (rule silent_unblock_idle)

lemma sound_append_mailbox: "sound (append_mailbox c env recipient file_id index)"
  unfolding append_mailbox_def Let_def
  by (rule keeps_bind_get, rule keeps_at, rule keeps_at, rule keeps_at, rule keeps_at, rule keeps_then [OF sound_refresh],
      intro keeps_intros keeps_from [OF sound_or [OF sound_publish [OF mailbox] sound_unblock_idle]]; simp)

lemma sound_issue_flush_challenge: "sound (issue_flush_challenge entropy recipient)"
  unfolding issue_flush_challenge_def by (intro keeps_intros) simp_all

lemma sound_prepare_flush: "sound (prepare_flush c peer challenge signature)"
  unfolding prepare_flush_def
  by (rule keeps_bind_get, rule keeps_at, rule keeps_at, rule keeps_at, rule keeps_at, rule keeps_at, rule keeps_then [OF sound_refresh],
      intro keeps_intros; simp)

lemma sound_acknowledge_flush: "sound (acknowledge_flush c peer flush)"
  unfolding acknowledge_flush_def Let_def
  by (rule keeps_bind_get, rule keeps_at, rule keeps_at, rule keeps_at, rule keeps_at,
      rule keeps_then [OF sound_publish [OF flushed]])
    (assumption | rule keeps_bind_modify_inv keeps_bind_get keeps_at | simp)+

lemma sound_acknowledge_applied: "sound (acknowledge_applied c peer through)"
  unfolding acknowledge_applied_def host_acked_through_def Let_def
  by (intro keeps_intros; (assumption | (rule keeps_from [OF sound_publish [OF acked]]; assumption)))

lemma sound_heartbeat: "sound (heartbeat millis expires peer)"
  unfolding heartbeat_def by (intro keeps_intros) simp_all

lemma sound_take_disconnects: "sound take_disconnects"
  unfolding take_disconnects_def by (intro keeps_intros) simp_all

end

interpretation hw: host_invariant host_wf
proof unfold_locales
  show "host_wf st \<Longrightarrow> bm_ok (hs_mailboxes st)" for st by (simp add: host_wf_def)
  show "host_wf (st\<lparr>hs_chunks := k\<rparr>) = host_wf st" for st k by (simp add: host_wf_def log_from_def covered_def)
qed ((rule host_wf_view host_wf_admission host_wf_mailbox host_wf_online host_wf_flushed host_wf_acked; assumption)
    | (rule host_wf_published; assumption) | (rule host_wf_commit; assumption) | (rule host_wf_admitted; assumption))+

section \<open>Revocation\<close>

text \<open>A revoked peer is on the list of the denied and not a member: it stays so.\<close>

definition revoked :: "PeerId \<Rightarrow> HostState \<Rightarrow> bool" where
  "revoked peer st \<longleftrightarrow> peer \<in> set (hs_denied st) \<and> peer \<notin> set (hs_members st)"

lemma when_kick_denied: "x \<in> set m \<Longrightarrow> x \<in> set (when_kick update bs_insert m)"
  by (cases update) (auto simp: when_kick_def)

interpretation hr: host_invariant "\<lambda>st. host_wf st \<and> revoked target st" for target
proof unfold_locales
  show "host_wf staged \<and> revoked target staged" if "host_wf st \<and> revoked target st"
    "stage_commit env \<lparr>cr_id = hs_next_control st, cr_update = update\<rparr> trusted rotated tree removed next_id p st = Inr staged"
    "checked_add (hs_next_control st) 1 = Some next_id" "bm_ok (pq_queues p)"
    "apply_tree_update (hs_tree st) update = Inr (tree, removed)" "update \<noteq> Kick (hs_host_id st)"
    for st env update trusted rotated tree removed next_id p staged
    using host_wf_commit [OF _ that(2-6)] that(1) stage_commit_fields(6,7) [OF that(2)]
    by (auto simp: revoked_def when_kick_denied dest: when_kick_subset)
  show "(host_wf (h_state a) \<and> revoked target (h_state a)) = (host_wf (h_state b) \<and> revoked target (h_state b))"
    if "host_view a = host_view b" for a b
    using host_wf_view [OF that] host_view_eq(3,4) [OF that] by (simp add: revoked_def)
  show "host_wf (h_state self') \<and> revoked target (h_state self')"
    if "published_as staged self self'" "host_wf staged \<and> revoked target staged" for staged self self'
    using host_wf_published [OF that(1)] published_as_fields(5,6) [OF that(1)] that(2) by (simp add: revoked_def)
  show "host_wf st' \<and> revoked target st'" if "host_wf st \<and> revoked target st" "peer \<notin> set (hs_members st)" "peer \<notin> set (hs_denied st)"
    "hs_members st' = bs_insert peer (hs_members st)"
    "hs_bootstrap_through st' = bm_insert peer (saturating_pred (hs_next_control st)) (hs_bootstrap_through st)"
    "hs_tree st' = hs_tree st" "hs_expected_root st' = hs_expected_root st" "hs_host_id st' = hs_host_id st"
    "hs_manifests st' = hs_manifests st" "bm_ok (hs_mailboxes st')" "hs_acked_through st' = hs_acked_through st"
    "hs_log st' = hs_log st" "hs_next_control st' = hs_next_control st" "hs_denied st' = hs_denied st" for st peer st'
    using host_wf_admitted [OF _ that(4-13,2)] that by (auto simp: revoked_def)
qed (auto simp: revoked_def hw.chunks hw.boxes hw.admission hw.mailbox hw.online hw.flushed hw.acked)

end
