(* ===== verification/Host_Run.thy ===== *)
theory Host_Run
  imports Host_Inv
begin

text \<open>
  The host as a state machine: its operations as steps, the states it reaches from a start (a new vault, or
  one opened from a directory), and what holds in all of them. A snapshot of a reachable state restores to
  a state with the same invariant, and holds for every member each instruction it has not acknowledged.
\<close>

section \<open>Steps\<close>

inductive host_step :: "crypto \<Rightarrow> HostService \<times> world \<Rightarrow> HostService \<times> world \<Rightarrow> bool" for c where
  heartbeat: "heartbeat millis expires peer s = (Ret r1, s') \<Longrightarrow> host_step c s s'"
| fan_out_control: "fan_out_control c env sender update s = (Ret r2, s') \<Longrightarrow> host_step c s s'"
| kick: "kick_with_code c env target code s = (Ret r3, s') \<Longrightarrow> host_step c s s'"
| commit: "commit c env manifest s = (Ret r4, s') \<Longrightarrow> host_step c s s'"
| mkdir: "host_mkdir c env entropy sender path s = (Ret r5, s') \<Longrightarrow> host_step c s s'"
| link_file: "link_file c env sender path child s = (Ret r6, s') \<Longrightarrow> host_step c s s'"
| unlink: "host_unlink c env sender path s = (Ret r7, s') \<Longrightarrow> host_step c s s'"
| rename: "host_rename c env sender source destination s = (Ret r8, s') \<Longrightarrow> host_step c s s'"
| upload: "commit_writer_upload c envs sender manifest bodies link s = (Ret r9, s') \<Longrightarrow> host_step c s s'"
| save_file: "save_file c envs entropy writer path bodies' s = (Ret r10, s') \<Longrightarrow> host_step c s s'"
| attach_admission: "attach_admission c metadata s = (Ret r11, s') \<Longrightarrow> host_step c s s'"
| set_admission: "set_admission c metadata s = (Ret r12, s') \<Longrightarrow> host_step c s s'"
| add_member: "add_member c env entropies document s = (Ret r13, s') \<Longrightarrow> host_step c s s'"
| take_online_control: "take_online_control c recipient s = (Ret r14, s') \<Longrightarrow> host_step c s s'"
| refresh_mailboxes: "refresh_mailboxes c s = (Ret r15, s') \<Longrightarrow> host_step c s s'"
| host_mailbox: "host_mailbox c recipient s = (Ret r16, s') \<Longrightarrow> host_step c s s'"
| append_mailbox: "append_mailbox c env recipient file_id index s = (Ret r17, s') \<Longrightarrow> host_step c s s'"
| issue_flush_challenge: "issue_flush_challenge entropy recipient s = (Ret r18, s') \<Longrightarrow> host_step c s s'"
| prepare_flush: "prepare_flush c peer challenge signature s = (Ret r19, s') \<Longrightarrow> host_step c s s'"
| acknowledge_flush: "acknowledge_flush c peer flush s = (Ret r20, s') \<Longrightarrow> host_step c s s'"
| acknowledge_applied: "acknowledge_applied c peer through s = (Ret r21, s') \<Longrightarrow> host_step c s s'"
| take_disconnects: "take_disconnects s = (Ret r22, s') \<Longrightarrow> host_step c s s'"

context host_invariant
begin

lemma run: "sound p \<Longrightarrow> p s = (Ret r, s') \<Longrightarrow> host_ok (fst s) \<Longrightarrow> host_ok (fst s')"
  using sound_run [of p "fst s" "snd s" r "fst s'" "snd s'"] by simp

lemmas sound_operations = sound_heartbeat sound_fan_out sound_kick sound_commit_manifest sound_tree_operations sound_upload
  sound_save_file sound_attach_admission sound_set_admission sound_add_member sound_take_online_control sound_refresh
  sound_host_mailbox sound_append_mailbox sound_issue_flush_challenge sound_prepare_flush sound_acknowledge_flush
  sound_acknowledge_applied sound_take_disconnects

lemma step: "host_step c s s' \<Longrightarrow> host_ok (fst s) \<Longrightarrow> host_ok (fst s')"
  by (induction rule: host_step.induct) (erule sound_operations [THEN run], assumption)+

lemma steps: "(host_step c)\<^sup>*\<^sup>* s s' \<Longrightarrow> host_ok (fst s) \<Longrightarrow> host_ok (fst s')"
  by (induction rule: rtranclp_induct) (auto dest: step)

end

section \<open>Snapshots\<close>

definition snapshot_wf :: "ReplicaMetadata \<Rightarrow> bool" where
  "snapshot_wf m \<longleftrightarrow> bs_ok (rm_members m) \<and> bm_ok (rm_manifests m) \<and> bm_ok (rm_mailboxes m) \<and> bm_ok (rm_acked_through m) \<and>
     bm_ok (rm_bootstrap_through m) \<and>
     (\<exists>a. map (\<lambda>record. unat (cr_id record)) (rm_log m) = [a..<unat (rm_next_control m)] \<and> 0 < a \<and> a \<le> unat (rm_next_control m) \<and>
        (\<forall>peer \<in> set (rm_members m). a \<le> Suc (unat (max (bm_or_default 0 (rm_acked_through m) peer)
           (bm_or_default 0 (rm_bootstrap_through m) peer)))))"

lemma bm_ok_plain [simp]: "bm_ok (plain manifests) = bm_ok manifests"
  by (simp add: bm_ok_def plain_def o_def case_prod_beta)

lemma bm_ok_fold:
  assumes "bm_ok m" and "\<And>x m. x \<in> set xs \<Longrightarrow> bm_ok m \<Longrightarrow> bm_ok (f x m)"
  shows "bm_ok (fold f xs m)"
  using assms by (induction xs arbitrary: m) auto

lemma host_metadata_fields:
  "rm_members (host_metadata st) = hs_members st" "rm_log (host_metadata st) = hs_log st" "rm_next_control (host_metadata st) = hs_next_control st"
  "rm_acked_through (host_metadata st) = hs_acked_through st" "rm_bootstrap_through (host_metadata st) = hs_bootstrap_through st"
  "rm_manifests (host_metadata st) = plain (hs_manifests st)" "rm_dirents (host_metadata st) = dirents (hs_tree st)"
  "rm_denied (host_metadata st) = hs_denied st"
  by (simp_all add: host_metadata_def Let_def plain_def)

lemma snapshot_wf_host: "host_wf st \<Longrightarrow> snapshot_wf (host_metadata st)"
proof -
  assume ok: "host_wf st"
  then have "bm_ok (contents (hs_mailboxes st))" by (simp add: host_wf_def)
  then have "bm_ok (rm_mailboxes (host_metadata st))"
    unfolding host_metadata_def Let_def contents_def by (auto intro!: bm_ok_fold bm_ok_retain)
  then show ?thesis
    using ok by (auto simp: snapshot_wf_def host_wf_def host_metadata_fields log_from_def covered_def)
qed

text \<open>A restored host satisfies the invariant when its snapshot does.\<close>

lemma verify_stored_keys: "verify_stored c m manifests s = (Inr ts, s') \<Longrightarrow> map fst ts = map fst manifests"
  by (induction manifests arbitrary: ts s s') (auto simp: k_ret_def k_bind_def split: prod.splits sum.splits)

lemma host_wf_restored:
  assumes m: "snapshot_wf m" and me: "me \<in> set (rm_members m)" and ms: "map fst manifests = map fst (rm_manifests m)"
    and tree: "from_dirents root (rm_dirents m) = Inr tree"
  shows "host_wf (restored_state root me m chunks manifests tree gate)"
proof -
  have "tree_ok tree" "dt_expected_root tree = root" using tree tree_ok_new by (auto simp: from_dirents_iff tree_new_def)
  moreover have "bm_ok manifests" using m ms by (simp add: snapshot_wf_def bm_ok_def)
  moreover have "bm_ok (map (\<lambda>(peer, queue). (peer, map (unsealed me peer) queue)) (rm_mailboxes m))"
    using m by (simp add: snapshot_wf_def bm_ok_def o_def case_prod_beta)
  ultimately show ?thesis
    using m me by (auto simp: host_wf_def restored_state_def snapshot_wf_def log_from_def covered_def)
qed

section \<open>Reachable states\<close>

inductive host_reach :: "crypto \<Rightarrow> HostService \<times> world \<Rightarrow> bool" for c where
  created: "host_new_in_vault gate members root (chunks, w) = (Ret (Inr self), chunks', w') \<Longrightarrow> bs_ok members \<Longrightarrow>
    host_reach c (self, w')"
| opened: "host_open_durable c data_dir_lock gate root initial_members ((), w) = (Ret (Inr self), u, w') \<Longrightarrow>
    h_io (open_store (cr_sha256 c) data_dir_lock root) ((), w) = (Ret (Inr (stored, chunks)), u', w1) \<Longrightarrow>
    (case stored of None \<Rightarrow> bs_ok initial_members | Some m \<Rightarrow> snapshot_wf m) \<Longrightarrow> host_reach c (self, w')"
| stepped: "host_reach c s \<Longrightarrow> host_step c s s' \<Longrightarrow> host_reach c s'"

lemma log_from_start: "hs_log st = [] \<Longrightarrow> hs_next_control st = 1 \<Longrightarrow> log_from 1 st"
  by (simp add: log_from_def)

lemma created_ok:
  assumes "host_new_in_vault gate members root (chunks, w) = (Ret (Inr self), chunks', w')" and "bs_ok members"
  shows "host_wf (h_state self)"
proof -
  have "host_wf (h_state self)" if "hs_log (h_state self) = []" "hs_next_control (h_state self) = 1" "hs_tree (h_state self) = tree_new root"
    "hs_expected_root (h_state self) = root" "hs_host_id (h_state self) \<in> set (hs_members (h_state self))" "hs_members (h_state self) = members"
    "hs_manifests (h_state self) = []" "hs_mailboxes (h_state self) = []" "hs_acked_through (h_state self) = []" "hs_bootstrap_through (h_state self) = []"
    using log_from_start [of "h_state self"] that assms(2) tree_ok_new by (auto simp: host_wf_def tree_new_def)
  then show ?thesis
    using assms(1)
    by (auto simp: host_new_in_vault_def host_new_def Let_def h_bind_Inr h_simps h_key_Inr host_service_def split: prod.splits)
qed

lemma snapshot_wf_fresh: "bs_ok members \<Longrightarrow> snapshot_wf ((replica_new root)\<lparr>rm_members := members\<rparr>)"
  by (auto simp: snapshot_wf_def replica_new_def intro: exI [of _ 1])

lemma sound_block_mailboxes: "hw.sound block_mailboxes"
  unfolding block_mailboxes_def
  by (rule keeps_bind_get, rule keeps_from [OF keeps_iter]) (auto intro!: keeps_if keeps_ret keeps_key split: prod.splits)

lemma h_bind_after: "p s = (Ret (Inr x), s1) \<Longrightarrow> h_bind p f s = f x s1"
  by (simp add: h_bind_def)

lemma restored_ok:
  assumes m: "snapshot_wf m" and me: "me \<in> set (rm_members m)" and tree: "from_dirents root (rm_dirents m) = Inr tree"
    and ms: "verified_manifests c m s = (Inr manifests, s')"
    and run: "h_bind block_mailboxes (\<lambda>_. if fresh then h_bind h_get (\<lambda>host. publish_state c (h_state host)) else h_ret (Inr ()))
      (host_service (restored_state root me m chunks manifests tree gate), w) = (Ret (Inr u), self, w')"
  shows "host_wf (h_state self)"
proof -
  have "map fst manifests = map fst (rm_manifests m)"
    using ms by (auto simp: verified_manifests_def k_bind_def k_ret_def split: prod.splits sum.splits dest: verify_stored_keys)
  then have "host_wf (restored_state root me m chunks manifests tree gate)" using host_wf_restored [OF m me _ tree] by simp
  moreover have "hw.sound (h_bind block_mailboxes (\<lambda>_. if fresh then h_bind h_get (\<lambda>host. publish_state c (h_state host)) else h_ret (Inr ())))"
    by (rule keeps_bind [OF sound_block_mailboxes]) (auto intro!: keeps_if keeps_bind_get keeps_from [OF hw.sound_publish] keeps_ret)
  ultimately show ?thesis using hw.run [where p = "h_bind block_mailboxes q" for q, OF _ run] by (simp add: host_service_def)
qed

lemma opened_ok:
  assumes run: "host_open_durable c data_dir_lock gate root initial_members s = (Ret (Inr self), s')"
    and store: "h_io (open_store (cr_sha256 c) data_dir_lock root) s = (Ret (Inr (stored, chunks)), s1)"
    and stored: "case stored of None \<Rightarrow> bs_ok initial_members | Some m \<Rightarrow> snapshot_wf m"
  shows "host_wf (h_state self)"
proof -
  let ?m = "case stored of Some metadata \<Rightarrow> metadata | None \<Rightarrow> (replica_new root)\<lparr>rm_members := initial_members\<rparr>"
  have m: "snapshot_wf ?m" using stored snapshot_wf_fresh by (auto split: option.splits)
  have "keeps (\<lambda>_. True) (h_bind (h_key store_peer_id) (\<lambda>me.
     h_bind (h_guard (me \<in> set (rm_members ?m)) AuthenticationFailed) (\<lambda>_.
     h_bind (h_key (verified_manifests c ?m)) (\<lambda>manifests.
     h_bind (h_ret (from_dirents root (rm_dirents ?m))) (\<lambda>tree.
     h_bind (h_ret gate) (\<lambda>gate_owner.
     h_bind (h_local (host_service (restored_state root me ?m chunks manifests tree gate_owner))
         (h_bind block_mailboxes (\<lambda>_.
          if stored = None then h_bind h_get (\<lambda>host. publish_state c (h_state host)) else h_ret (Inr ())))) (\<lambda>(r, host).
     h_bind (h_ret r) (\<lambda>_.
     h_ret (Inr host))))))))) (\<lambda>self _. host_wf (h_state self)) (\<lambda>_. True)"
    by (intro keeps_bind_key keeps_bind_ret keeps_bind_local) (auto intro!: keeps_bind_ret keeps_ret elim: restored_ok [OF m])
  then show ?thesis
    using run unfolding host_open_durable_def h_bind_after [where p = "h_io q" for q, OF store] prod.case Let_def
    using keeps_Inr [where h = "fst s1" and w = "snd s1" and h' = "fst s'" and w' = "snd s'"] by fastforce
qed

theorem host_reach_wf: "host_reach c s \<Longrightarrow> host_wf (h_state (fst s))"
  by (induction rule: host_reach.induct) (auto dest: hw.step simp: created_ok elim: opened_ok)

section \<open>What a snapshot lets a member recover\<close>

lemma bm_or_default_retain: "bm_ok m \<Longrightarrow> bm_or_default d (bm_retain (\<lambda>_ v. v \<noteq> d) m) k = bm_or_default d m k"
  by (auto simp: bm_or_default_def bm_get_retain split: option.splits)

lemma fold_insert_get:
  fixes me :: "'k::linorder" and f d
  defines "step \<equiv> \<lambda>p m. if p = me then m else bm_insert p (f p (bm_or_default d m p)) m"
  assumes "bm_ok m" and "distinct ps"
  shows "bm_ok (fold step ps m)"
    and "bm_or_default d (fold step ps m) k = (if k \<in> set ps \<and> k \<noteq> me then f k (bm_or_default d m k) else bm_or_default d m k)"
  using assms(2,3) by (induction ps arbitrary: m) (auto simp: step_def bm_or_default_insert)

lemma host_metadata_mailbox:
  assumes "host_wf st" and "peer \<in> set (hs_members st)" and "peer \<noteq> hs_host_id st"
  shows "bm_or_default [] (rm_mailboxes (host_metadata st)) peer =
    recoverable_queue st peer (map qd_content (bm_or_default [] (hs_mailboxes st) peer))"
proof -
  let ?contents = "map (\<lambda>(peer, queue). (peer, map qd_content queue)) (hs_mailboxes st)"
  have ok: "bm_ok ?contents" using assms(1) by (simp add: host_wf_def bm_ok_def o_def case_prod_beta)
  have distinct: "distinct (hs_members st)" using assms(1) by (simp add: host_wf_def bs_ok_distinct)
  have "bm_or_default [] ?contents peer = map qd_content (bm_or_default [] (hs_mailboxes st) peer)"
    by (auto simp: bm_or_default_def map_of_map split: option.splits)
  then show ?thesis
    using assms(2,3) by (simp add: host_metadata_def Let_def bm_or_default_retain fold_insert_get [OF ok distinct])
qed

lemma controls_of_append [simp]: "controls_of (xs @ ys) = controls_of xs @ controls_of ys"
  by (induction xs rule: controls_of.induct) auto

lemma controls_of_QControl [simp]: "controls_of (map QControl rs) = rs"
  by (induction rs) auto

lemma recoverable_queue_controls:
  "cr_id ` set (controls_of queue) \<union> {cr_id r |r. r \<in> set (hs_log st) \<and> covered st peer < cr_id r} \<subseteq>
    cr_id ` set (controls_of (recoverable_queue st peer queue))"
  by (auto simp: recoverable_queue_def Let_def covered_def filter_empty_conv)

lemma log_has:
  assumes "host_wf st" and "peer \<in> set (hs_members st)" and "covered st peer < n" and "n < hs_next_control st"
  shows "n \<in> cr_id ` set (hs_log st)"
proof -
  obtain a where a: "map (\<lambda>record. unat (cr_id record)) (hs_log st) = [a..<unat (hs_next_control st)]" and "a \<le> Suc (unat (covered st peer))"
    using assms(1,2) by (auto simp: host_wf_def log_from_def)
  then have "unat n \<in> set [a..<unat (hs_next_control st)]"
    using assms(3,4) by (auto simp: word_less_nat_alt)
  then have "unat n \<in> (\<lambda>record. unat (cr_id record)) ` set (hs_log st)" unfolding a [symmetric] by simp
  then show ?thesis by (auto simp: word_unat_eq_iff)
qed

lemma recoverable:
  assumes "host_wf st" and "peer \<in> set (hs_members st)" and "peer \<noteq> hs_host_id st" and "covered st peer < n" and "n < hs_next_control st"
  shows "n \<in> cr_id ` set (controls_of (bm_or_default [] (rm_mailboxes (host_metadata st)) peer))"
  using log_has [OF assms(1,2,4,5)] recoverable_queue_controls [of "map qd_content (bm_or_default [] (hs_mailboxes st) peer)" st peer] assms(4)
  unfolding host_metadata_mailbox [OF assms(1-3)] by auto

section \<open>Commits as steps of the vault\<close>

text \<open>
  \<open>committed update st st'\<close>: the vault's content has changed as the instruction says, the instruction
  took the next number, and the membership changed only if it was a kick.
\<close>

definition committed :: "ControlUpdate \<Rightarrow> HostState \<Rightarrow> HostState \<Rightarrow> bool" where
  "committed update st st' \<longleftrightarrow> content_step update (host_content st) = Inr (host_content st') \<and>
     unat (hs_next_control st') = Suc (unat (hs_next_control st)) \<and>
     hs_members st' = when_kick update bs_remove (hs_members st) \<and> hs_denied st' = when_kick update bs_insert (hs_denied st)"

lemma commit_verified_committed:
  assumes ok: "bm_ok (hs_mailboxes (h_state self))" and t: "\<And>m. update = NewManifest m \<Longrightarrow> map_option tm_manifest trusted = Some m"
  shows "keeps (\<lambda>h. h = self) (commit_verified_with_code c env update trusted rotated)
    (\<lambda>_ self'. committed update (h_state self) (h_state self')) (\<lambda>_. True)"
proof (rule keeps_weaken [OF commit_verified_commits [OF ok]])
  fix self'
  assume "\<exists>self1 tree removed. host_view self1 = host_view self \<and> validate_link_kind (hs_manifests (h_state self)) update = Inr () \<and>
    apply_tree_update (hs_tree (h_state self)) update = Inr (tree, removed) \<and>
    committed_as c env update trusted rotated tree removed self1 self'"
  then obtain self1 tree removed where v: "host_view self1 = host_view self"
    and s: "committed_as c env update trusted rotated tree removed self1 self'"
      "validate_link_kind (hs_manifests (h_state self)) update = Inr ()"
      "apply_tree_update (hs_tree (h_state self)) update = Inr (tree, removed)" by blast
  note view = host_view_eq [OF v]
  show "committed update (h_state self) (h_state self')"
    using committed_step [OF s(1) _ _ t] s(2,3) by (simp add: view committed_def host_content_def)
qed simp_all

lemma trusted_verify_manifest: "trusted_verify c members manifest s = (Inr trusted, s') \<Longrightarrow> tm_manifest trusted = manifest"
  by (auto simp: trusted_verify_def check_manifest_def k_bind_def k_ret_def split: prod.splits sum.splits if_splits)

lemma kick_committed:
  assumes "bm_ok (hs_mailboxes (h_state self))"
  shows "keeps (\<lambda>h. h = self) (kick_with_code c env target code)
    (\<lambda>_ self'. committed (Kick target) (h_state self) (h_state self')) (\<lambda>_. True)"
proof -
  have "keeps (\<lambda>h. committed (Kick target) (h_state self) (h_state h)) (h_bind (note_op env p n) (\<lambda>_.
     h_bind (h_modify (\<lambda>self. self\<lparr>h_presence := bm_remove target (h_presence self),
       h_challenges := bm_remove target (h_challenges self), h_disconnects := h_disconnects self @ [target]\<rparr>)) (\<lambda>_.
     h_bind (h_key (discard_pair target)) (\<lambda>_. h_ret (Inr target)))))
     (\<lambda>_ self'. committed (Kick target) (h_state self) (h_state self')) (\<lambda>_. True)" for p n
    unfolding note_op_def
    by (rule keeps_start, intro keeps_intros TrueI) (auto simp: note_recent_op_def Let_def)
  from keeps_bind [OF commit_verified_committed [OF assms] this] show ?thesis
    unfolding kick_with_code_def by (intro keeps_bind_get keeps_at TrueI) auto
qed

lemma commit_committed:
  assumes "bm_ok (hs_mailboxes (h_state self))"
  shows "keeps (\<lambda>h. h = self) (commit c env manifest) (\<lambda>_ self'. committed (NewManifest manifest) (h_state self) (h_state self') \<or>
      map_option tm_manifest (bm_get (hs_manifests (h_state self)) (mf_file_id manifest)) = Some manifest \<and> self' = self) (\<lambda>_. True)"
  unfolding commit_def Let_def commit_verified_def
proof (rule keeps_bind_get, rule keeps_at(2), rule keeps_at(4), rule keeps_at(2), rule keeps_if(1))
  fix h s s' trusted
  assume h: "h = self" and "trusted_verify c (hs_members (h_state h)) manifest s = (Inr trusted, s')"
  then have x: "tm_manifest trusted = manifest" by (simp add: trusted_verify_manifest)
  let ?Q = "\<lambda>_ self'. committed (NewManifest manifest) (h_state self) (h_state self') \<or>
        map_option tm_manifest (bm_get (hs_manifests (h_state self)) (mf_file_id manifest)) = Some manifest \<and> self' = self"
  show "keeps (\<lambda>h'. h' = h) (h_ret (Inr ())) ?Q (\<lambda>_. True)"
    if "case bm_get (hs_manifests (h_state h)) (mf_file_id (tm_manifest trusted)) of None \<Rightarrow> False
      | Some old \<Rightarrow> tm_manifest old = tm_manifest trusted"
    using that h x by (intro keeps_at) (auto split: option.splits)
  show "keeps (\<lambda>h'. h' = h) (commit_verified_with_code c env (NewManifest (tm_manifest trusted)) (Some trusted) None) ?Q (\<lambda>_. True)"
    unfolding h x by (rule keeps_weaken [OF commit_verified_committed [OF assms]]) (auto simp: x)
qed simp_all

text \<open>What an accepted request of a member does: nothing for a manifest that is the current one, else a commit.\<close>

definition answered :: "ControlUpdate \<Rightarrow> HostState \<Rightarrow> HostState \<Rightarrow> bool" where
  "answered update st st' \<longleftrightarrow> committed update st st' \<or>
     (\<exists>m. update = NewManifest m \<and> bm_get (plain (hs_manifests st)) (mf_file_id m) = Some m) \<and> st' = st"

lemma fan_out_answered:
  assumes "bm_ok (hs_mailboxes (h_state self))"
  shows "keeps (\<lambda>h. h = self) (fan_out_control c env sender update) (\<lambda>_ self'. answered update (h_state self) (h_state self')) (\<lambda>_. True)"
proof -
  have "keeps (\<lambda>h. h = self) (commit_instruction c env update) (\<lambda>_ self'. answered update (h_state self) (h_state self')) (\<lambda>_. True)"
    unfolding commit_instruction_def commit_verified_def answered_def plain_get
    by (cases update)
      (auto intro!: keeps_bind_get keeps_at intro: keeps_weaken [OF commit_committed [OF assms]]
        keeps_weaken [OF commit_verified_committed [OF assms]] keeps_bind [OF kick_committed [OF assms]] keeps_ret)
  moreover have "keeps (\<lambda>h. answered update (h_state self) (h_state h)) (note_op env p n) (\<lambda>_ self'. answered update (h_state self) (h_state self')) (\<lambda>_. True)" for p n
    unfolding note_op_def by (rule keeps_modify) (simp add: note_recent_op_def Let_def)
  ultimately show ?thesis
    unfolding fan_out_control_def by (intro keeps_bind_get keeps_at TrueI) (auto intro!: keeps_bind)
qed

section \<open>Refused requests\<close>

lemma atomic_commit: "bm_ok (snd v) \<Longrightarrow> atomic v (commit c env manifest)"
  unfolding commit_def Let_def commit_verified_def
  by (rule keeps_bind_get, rule keeps_at(2), rule keeps_at(4), rule keeps_at(2), rule keeps_if(1))
    (auto intro: keeps_at keeps_from [OF atomic_commit_verified_with_code])

lemma atomic_fan_out:
  assumes "bm_ok (snd v)" and "\<And>target. update \<noteq> Kick target"
  shows "atomic v (fan_out_control c env sender update)"
proof -
  have "atomic v (h_bind h_get (\<lambda>self. h_bind (h_ret (require_running self)) (\<lambda>_. commit_verified c env u None)))" for u
    unfolding commit_verified_def
    by (intro keeps_bind_get keeps_at(2)) (erule keeps_from [OF atomic_commit_verified_with_code [OF assms(1)]])
  then have "atomic v (commit_instruction c env update)"
    using assms(2) unfolding commit_instruction_def by (cases update) (auto simp: atomic_commit [OF assms(1)])
  moreover have "keeps (\<lambda>_. True) (note_op env p n) (\<lambda>_ _. True) (viewed v)" for p n
    unfolding note_op_def by (rule keeps_modify) simp
  ultimately show ?thesis
    unfolding fan_out_control_def by (intro keeps_bind_get keeps_at(2)) (erule keeps_from [OF keeps_bind])
qed

end
