(* ===== verification/Host_Sample.thy ===== *)
theory Host_Sample
  imports Sample Host_Run
begin

text \<open>
  A concrete host: the node whose keystore is the sample store runs a new vault, alone or with one other
  member, and commits instructions in it.
\<close>

definition sample_keys :: keystore where
  "sample_keys = \<lparr>ks_inner = sample_inner 1 high, ks_state_file = None, ks_identity_file = None\<rparr>"

definition sample_world :: world where
  "sample_world = \<lparr>wd_key_outcomes = [], wd_keys = sample_keys, wd_outcomes = [], wd_dir = sample_dir\<rparr>"

definition sample_env :: host_env where
  "sample_env = \<lparr>he_now = (\<lambda>_. 0), he_time = Inr 1, he_kick_time = Inr 1, he_millis = 1, he_code = Inl AuthenticationFailed\<rparr>"

definition sample_state :: "PeerId btree_set \<Rightarrow> HostState" where
  "sample_state members = \<lparr>hs_expected_root = FileId 1, hs_tree = tree_new (FileId 1), hs_acked_through = [], hs_host_id = id_peer_id low,
     hs_members = members, hs_denied = [], hs_historical_members = members, hs_identity_documents = [], hs_bootstrap_through = [],
     hs_chunks = memory_new, hs_manifests = [], hs_log = [], hs_next_control = 1, hs_mailboxes = [], hs_online = [],
     hs_gate_owner = 0, hs_admission = None\<rparr>"

definition sample_host :: "PeerId btree_set \<Rightarrow> HostService" where
  "sample_host members = host_service ((sample_state members)\<lparr>hs_chunks :=
     memory_new\<lparr>mc_metadata := Some (host_metadata ((sample_state members)\<lparr>hs_chunks :=
       memory_new\<lparr>mc_metadata := Some ((replica_new (FileId 0))\<lparr>rm_members := members, rm_dirents := dirents (tree_new (FileId 0))\<rparr>)\<rparr>\<rparr>))\<rparr>\<rparr>)"

lemma sample_local [simp]: "local_peer (sample_inner 1 other) = id_peer_id low"
  by (simp add: sample_inner_def initial_inner_def sample_documents)

lemma sample_key_ops:
  "store_peer_id (os, sample_keys) = (Inr (id_peer_id low), os, sample_keys)"
  "store_identity (os, sample_keys) = (Inr low, os, sample_keys)"
  "load_verified_peer (id_peer_id high) (os, sample_keys) = (Inr high, os, sample_keys)"
  by (simp_all add: store_peer_id_def store_identity_def load_verified_peer_def store_lock_def k_bind_def k_ret_def k_inner_def sample_keys_def)
    (simp_all add: sample_inner_def initial_inner_def sample_documents)

lemma sample_new:
  assumes "id_peer_id low \<in> set members"
  shows "\<exists>chunks. host_new_in_vault (Inr 0) members (FileId 1) (memory_new, sample_world) = (Ret (Inr (sample_host members)), chunks, sample_world)"
  using assms
  by (simp add: host_new_in_vault_def host_new_def h_bind_def h_key_def h_ret_def h_get_def h_modify_def Let_def sample_world_def sample_key_ops)
    (simp add: sample_host_def sample_state_def host_service_def)

abbreviation sample_pair :: "PeerId btree_set" where
  "sample_pair \<equiv> [id_peer_id low, id_peer_id high]"

lemma sample_pair_ok: "bs_ok sample_pair" "id_peer_id low \<noteq> id_peer_id high"
  using sample_documents(3) by simp_all

lemma sample_reached: "host_reach c (sample_host sample_pair, sample_world)" "host_reach c (sample_host [id_peer_id low], sample_world)"
  using sample_new [of sample_pair] sample_new [of "[id_peer_id low]"] sample_pair_ok(1) by (fastforce intro: host_reach.created)+

lemma sample_archive:
  assumes "members = sample_pair \<or> members = [id_peer_id low]"
  shows "archive_documents sample_crypto members [] (os, sample_keys) =
    (Inr (if members = sample_pair then [(id_peer_id low, low), (id_peer_id high, high)] else [(id_peer_id low, low)]), os, sample_keys)"
  using assms sample_pair_ok sample_documents(3)
  by (auto simp: k_bind_def k_ret_def k_known_def sample_key_ops sample_verify)

lemma sample_host_fields [simp]:
  "hs_mailboxes (h_state (sample_host members)) = []" "hs_manifests (h_state (sample_host members)) = []"
  "hs_tree (h_state (sample_host members)) = tree_new (FileId 1)" "h_running (sample_host members)"
  "hs_host_id (h_state (sample_host members)) = id_peer_id low" "hs_members (h_state (sample_host members)) = members"
  "hs_next_control (h_state (sample_host members)) = 1" "hs_log (h_state (sample_host members)) = []"
  "hs_historical_members (h_state (sample_host members)) = members" "hs_identity_documents (h_state (sample_host members)) = []"
  "hs_admission (h_state (sample_host members)) = None" "h_defer_persistence (sample_host members) = False"
  "h_admission_path (sample_host members) = False" "mc_durable (hs_chunks (h_state (sample_host members))) = None"
  by (simp_all add: sample_host_def host_service_def sample_state_def memory_new_def)

text \<open>An instruction that has no recipient is committed at once.\<close>

lemma sample_publish:
  assumes "members = sample_pair \<or> members = [id_peer_id low]" and "hs_historical_members staged = members"
    and "hs_members staged = members \<or> hs_members staged = [id_peer_id low]"
    and "hs_identity_documents staged = []" and "hs_manifests staged = []" and "hs_log staged = [\<lparr>cr_id = 1, cr_update = update\<rparr>]"
    and "\<And>m. update \<noteq> NewManifest m" and "hs_admission staged = None" and "mc_durable (hs_chunks staged) = None"
  shows "\<exists>self'. publish_state sample_crypto staged (sample_host members, sample_world) = (Ret (Inr ()), self', sample_world)"
proof -
  have m: "bs_extend (hs_members staged) members = members"
    using assms(1,3) sample_pair_ok sample_documents(3) by (auto simp: bs_extend_def)
  have w: "writers_of [\<lparr>cr_id = 1, cr_update = update\<rparr>] = []"
    using assms(7) by (cases update) (auto simp: writers_of_def List.map_filter_def)
  show ?thesis
    by (simp add: publish_state_def Let_def h_bind_def h_key_def sample_world_def archive_host_def k_bind_def k_ret_def assms(2,4-6) m
        sample_archive [OF assms(1)] require_writer_documents_def w h_get_def on_clone_def h_io_def write_snapshot_def
        host_metadata_def trim_state_def assms(8) persist_metadata_def assms(9) io_ret_def h_modify_def h_ret_def)
qed

lemma sample_commit:
  assumes "members = sample_pair \<and> update = Kick (id_peer_id high) \<or> members = [id_peer_id low] \<and> update = Link (FileId 1) [97] (FileId 2) True"
  shows "\<exists>self'. commit_verified_with_code sample_crypto sample_env update None None (sample_host members, sample_world) =
    (Ret (Inr ()), self', sample_world)"
proof -
  obtain tree where v: "validate_link_kind [] update = Inr ()" and t: "apply_tree_update (tree_new (FileId 1)) update = Inr (tree, None)"
    using assms by (auto simp: validate_link_kind_def apply_tree_update_def sample_link)
  have r: "commit_recipients (h_state (sample_host members)) update = []" using assms by (auto simp: commit_recipients_def)
  have m: "members = sample_pair \<or> members = [id_peer_id low]" "\<And>m. update \<noteq> NewManifest m" using assms by auto
  let ?p = "\<lparr>pq_queues = [], pq_online = hs_online (h_state (sample_host members)), pq_blocked = []\<rparr>"
  obtain staged where staged: "stage_commit sample_env \<lparr>cr_id = 1, cr_update = update\<rparr> None None tree None 2 ?p (h_state (sample_host members)) = Inr staged"
    and f: "hs_historical_members staged = members" "hs_members staged = members \<or> hs_members staged = [id_peer_id low]"
      "hs_identity_documents staged = []" "hs_manifests staged = []" "hs_log staged = [\<lparr>cr_id = 1, cr_update = update\<rparr>]"
      "hs_admission staged = None" "mc_durable (hs_chunks staged) = None"
    using assms sample_pair_ok(2) by (auto simp: stage_commit_def stage_manifest_def stage_removal_def stage_kick_def Let_def bs_remove_def)
  obtain self' where "publish_state sample_crypto staged (sample_host members, sample_world) = (Ret (Inr ()), self', sample_world)"
    using sample_publish [OF m(1) f(1,2,3,4,5) m(2) f(6,7)] by blast
  then show ?thesis
    by (simp add: commit_verified_with_code_def h_bind_def h_get_def h_ret_def v t refresh_mailboxes_def require_running_def commit_record_def Let_def
        checked_add_def r h_local_def sample_env_def publish_commit_def h_or_def h_try_def staged [unfolded sample_env_def])
qed

lemma sample_fan_out:
  "\<exists>self'. fan_out_control sample_crypto sample_env (id_peer_id low) (Link (FileId 1) [97] (FileId 2) True)
    (sample_host [id_peer_id low], sample_world) = (Ret (Inr ()), self', sample_world)"
  using sample_commit [of "[id_peer_id low]" "Link (FileId 1) [97] (FileId 2) True"]
  by (auto simp: fan_out_control_def h_bind_def h_get_def h_ret_def require_running_def require_member_def may_send_def
      commit_instruction_def commit_verified_def note_op_def h_modify_def)

lemma sample_kick:
  "\<exists>self' w'. kick_with_code sample_crypto sample_env (id_peer_id high) None (sample_host sample_pair, sample_world) =
    (Ret (Inr (id_peer_id high)), self', w')"
proof -
  let ?inner = "(sample_inner 1 high)\<lparr>si_peers := []\<rparr>"
  have "fits ?inner"
    by (simp add: sample_size_defs sample_inner_def initial_inner_def sample_document_def)
  then obtain b where "store_persist ([], sample_keys\<lparr>ks_inner := ?inner\<rparr>) = (Inr (), [], sample_keys\<lparr>ks_inner := ?inner, ks_state_file := Some b\<rparr>)"
    using store_persist_done [of "sample_keys\<lparr>ks_inner := ?inner\<rparr>"] by auto
  then have "discard_pair (id_peer_id high) ([], sample_keys) = (Inr (), [], sample_keys\<lparr>ks_inner := ?inner, ks_state_file := Some b\<rparr>)"
    by (simp add: discard_pair_def k_bind_def k_set_def store_lock_def k_inner_def k_ret_def sample_keys_def)
     (simp add: sample_inner_def initial_inner_def bm_retain_def bm_remove_def)
  then show ?thesis
    using sample_commit [of sample_pair "Kick (id_peer_id high)"] sample_pair_ok
    by (auto simp: kick_with_code_def h_bind_def h_get_def h_ret_def require_running_def require_member_def note_op_def h_modify_def h_key_def
        sample_world_def)
qed

end
