(* ===== verification/Member.thy ===== *)
theory Member
  imports Host_Service
begin

text \<open>
  The replica of a member, \<open>MemberReplica\<close> of \<open>backend/src/sync/host.rs\<close> and its submodules: it applies the
  host's instructions, one live packet or one mailbox at a time. A change is staged on a copy of the
  replica and becomes visible when its snapshot has been written.
\<close>

section \<open>State\<close>

datatype Opened =
    OControl ControlRecord
  | OChunk FileId u64 bytes

record MemberReplica =
  mr_host_id :: PeerId
  mr_members :: "PeerId btree_set"
  mr_denied :: "PeerId btree_set"
  mr_historical_members :: "PeerId btree_set"
  mr_identity_documents :: "(PeerId, IdentityDocument) btree_map"
  mr_chunks :: MemoryChunkStore
  mr_manifests :: trusted_map
  mr_controls :: "(u64, ControlRecord) btree_map"
  mr_log :: "ControlRecord list"
  mr_receipts :: "(MailboxEnvelope \<times> Opened) list"
  mr_online_receipts :: "ControlPacket list"
  mr_expected_root :: FileId
  mr_tree :: DirectoryTree
  mr_last_applied :: u64
  mr_bootstrap_through :: u64

record StagedReplica =
  sr_members :: "PeerId btree_set"
  sr_denied :: "PeerId btree_set"
  sr_historical_members :: "PeerId btree_set"
  sr_identity_documents :: "(PeerId, IdentityDocument) btree_map"
  sr_tree :: DirectoryTree
  sr_chunks :: MemoryChunkStore
  sr_manifests :: trusted_map
  sr_controls :: "(u64, ControlRecord) btree_map"
  sr_log :: "ControlRecord list"
  sr_bootstrap_through :: u64

record FlushReport =
  fr_controls :: nat
  fr_chunks_written :: nat

record PreparedReplicaFlush =
  prf_peer_id :: PeerId
  prf_host_id :: PeerId
  prf_base_controls :: "(u64, ControlRecord) btree_map"
  prf_staged :: StagedReplica
  prf_report :: FlushReport

definition upd_replica_chunks :: "(MemoryChunkStore \<Rightarrow> MemoryChunkStore) \<Rightarrow> MemberReplica \<Rightarrow> MemberReplica" where
  "upd_replica_chunks f self = self\<lparr>mr_chunks := f (mr_chunks self)\<rparr>"

section \<open>Staging and publishing\<close>

definition replica_stage :: "MemberReplica \<Rightarrow> StagedReplica" where
  "replica_stage self = \<lparr>sr_members = mr_members self, sr_denied = mr_denied self,
     sr_historical_members = mr_historical_members self, sr_identity_documents = mr_identity_documents self,
     sr_tree = mr_tree self, sr_chunks = mr_chunks self, sr_manifests = mr_manifests self, sr_controls = mr_controls self,
     sr_log = mr_log self, sr_bootstrap_through = mr_bootstrap_through self\<rparr>"

definition archive_replica :: "crypto \<Rightarrow> StagedReplica \<Rightarrow> StagedReplica kop" where
  "archive_replica c staged =
     (let staged = staged\<lparr>sr_historical_members := bs_extend (sr_members staged) (sr_historical_members staged)\<rparr> in
      k_bind (archive_documents c (sr_historical_members staged) (sr_identity_documents staged)) (\<lambda>documents.
      k_bind (k_ret (require_writer_documents (sr_manifests staged) (sr_log staged) documents)) (\<lambda>_.
      k_ret (Inr (staged\<lparr>sr_identity_documents := documents\<rparr>)))))"

definition staged_last :: "MemberReplica \<Rightarrow> StagedReplica \<Rightarrow> u64" where
  "staged_last self staged =
     max (if sr_log staged = [] then mr_last_applied self else cr_id (List.last (sr_log staged))) (sr_bootstrap_through staged)"

definition metadata_for :: "MemberReplica \<Rightarrow> StagedReplica \<Rightarrow> ReplicaMetadata kop" where
  "metadata_for self staged =
     k_bind (if sr_bootstrap_through staged \<noteq> 0
         then k_bind store_peer_id (\<lambda>me. k_ret (Inr [(me, sr_bootstrap_through staged)])) else k_ret (Inr [])) (\<lambda>bootstrap.
     k_bind (k_ret (ok_or (checked_add (staged_last self staged) 1) (State ''instruction ids exhausted''))) (\<lambda>next_control.
     k_bind store_peer_id (\<lambda>me.
     k_ret (Inr ((replica_new (mr_expected_root self))\<lparr>rm_members := sr_members staged, rm_denied := sr_denied staged,
       rm_historical_members := sr_historical_members staged, rm_identity_documents := sr_identity_documents staged,
       rm_dirents := dirents (sr_tree staged), rm_manifests := map (\<lambda>(file_id, trusted). (file_id, tm_manifest trusted)) (sr_manifests staged),
       rm_log := sr_log staged, rm_bootstrap_through := bootstrap, rm_next_control := next_control,
       rm_acked_through := [(me, staged_last self staged)]\<rparr>)))))"

definition replica_install :: "StagedReplica \<Rightarrow> MemoryChunkStore \<Rightarrow> MemberReplica \<Rightarrow> MemberReplica" where
  "replica_install staged chunks self = self\<lparr>mr_chunks := chunks, mr_members := sr_members staged, mr_denied := sr_denied staged,
     mr_historical_members := sr_historical_members staged, mr_identity_documents := sr_identity_documents staged,
     mr_tree := sr_tree staged, mr_manifests := sr_manifests staged, mr_controls := sr_controls staged, mr_log := sr_log staged,
     mr_bootstrap_through := sr_bootstrap_through staged, mr_last_applied := staged_last self staged\<rparr>"

definition apply_staged :: "crypto \<Rightarrow> StagedReplica \<Rightarrow> (MemberReplica, unit) hop" where
  "apply_staged c staged =
     h_bind (h_key (archive_replica c staged)) (\<lambda>staged.
     h_bind h_get (\<lambda>self.
     h_bind (h_key (metadata_for self staged)) (\<lambda>metadata.
     h_bind (on_clone upd_replica_chunks (persist_metadata (cr_sha256 c) (sr_chunks staged) metadata)) (\<lambda>(chunks, _).
     h_bind (h_modify (replica_install staged chunks)) (\<lambda>_.
     h_iter (\<lambda>peer. h_key (discard_pair peer)) (filter (\<lambda>peer. peer \<notin> set (mr_denied self)) (sr_denied staged)))))))"

section \<open>Instructions\<close>

definition verify_record_manifest ::
  "crypto \<Rightarrow> PeerId btree_set \<Rightarrow> (PeerId, IdentityDocument) btree_map \<Rightarrow> Manifest \<Rightarrow> TrustedManifest kop" where
  "verify_record_manifest c members archive manifest =
     (if mf_writer_id manifest \<notin> set members then k_ret (Inl AuthenticationFailed)
      else case bm_get archive (mf_writer_id manifest) of
        Some writer \<Rightarrow> k_ret (verify_accepted c writer manifest)
      | None \<Rightarrow> trusted_verify c members manifest)"

definition stage_new_manifest :: "crypto \<Rightarrow> bool \<Rightarrow> Manifest \<Rightarrow> StagedReplica \<Rightarrow> StagedReplica kop" where
  "stage_new_manifest c accepted_snapshot manifest staged =
     (let writer = mf_writer_id manifest;
          staged = (if \<not> accepted_snapshot \<and> writer \<notin> set (sr_denied staged) \<and> writer \<in> set (sr_historical_members staged)
            then staged\<lparr>sr_members := bs_insert writer (sr_members staged)\<rparr> else staged) in
      k_bind (if accepted_snapshot
          then k_ret (and_then (ok_or (bm_get (sr_identity_documents staged) writer) AuthenticationFailed) (\<lambda>writer.
            verify_accepted c writer manifest))
          else verify_record_manifest c (sr_members staged) (sr_identity_documents staged) manifest) (\<lambda>trusted.
      k_ret (Inr (staged\<lparr>sr_manifests := bm_insert (mf_file_id (tm_manifest trusted)) trusted (sr_manifests staged)\<rparr>))))"

definition stage_member_kick :: "PeerId \<Rightarrow> PeerId \<Rightarrow> StagedReplica \<Rightarrow> StagedReplica result" where
  "stage_member_kick host_id target staged =
     (if target = host_id \<or> target \<notin> set (sr_members staged) then Inl AuthenticationFailed
      else Inr (staged\<lparr>sr_members := bs_remove target (sr_members staged), sr_denied := bs_insert target (sr_denied staged)\<rparr>))"

definition stage_member_removal :: "FileId option \<Rightarrow> StagedReplica \<Rightarrow> StagedReplica" where
  "stage_member_removal removed_file staged = (case removed_file of
       None \<Rightarrow> staged
     | Some file_id \<Rightarrow> staged\<lparr>sr_chunks := remove_file (sr_chunks staged) file_id,
         sr_manifests := bm_remove file_id (sr_manifests staged)\<rparr>)"

definition stage_update :: "crypto \<Rightarrow> PeerId \<Rightarrow> bool \<Rightarrow> ControlRecord \<Rightarrow> StagedReplica \<Rightarrow> StagedReplica kop" where
  "stage_update c host_id accepted_snapshot record staged =
     k_bind (k_ret (validate_link_kind (sr_manifests staged) (cr_update record))) (\<lambda>_.
     k_bind (k_ret (apply_tree_update (sr_tree staged) (cr_update record))) (\<lambda>(tree, removed_file).
     k_bind (case cr_update record of NewManifest manifest \<Rightarrow> stage_new_manifest c accepted_snapshot manifest staged
       | _ \<Rightarrow> k_ret (Inr staged)) (\<lambda>staged.
     k_bind (k_ret (case cr_update record of Kick target \<Rightarrow> stage_member_kick host_id target staged | _ \<Rightarrow> Inr staged)) (\<lambda>staged.
     let staged = stage_member_removal removed_file staged in
     k_ret (Inr (staged\<lparr>sr_tree := tree, sr_controls := bm_insert (cr_id record) record (sr_controls staged),
       sr_log := sr_log staged @ [record]\<rparr>))))))"

text \<open>Whether the instruction was new; one that was applied before has no effect again.\<close>

definition stage_control_mode :: "crypto \<Rightarrow> PeerId \<Rightarrow> bool \<Rightarrow> ControlRecord \<Rightarrow> StagedReplica \<Rightarrow> (StagedReplica \<times> bool) kop" where
  "stage_control_mode c host_id accepted_snapshot record staged =
     (if cr_id record \<le> sr_bootstrap_through staged then k_ret (Inr (staged, False))
      else case bm_get (sr_controls staged) (cr_id record) of
        Some prior \<Rightarrow> k_ret (if prior = record then Inr (staged, False) else Inl AuthenticationFailed)
      | None \<Rightarrow>
          if sr_controls staged \<noteq> [] \<and> cr_id record \<le> fst (List.last (sr_controls staged))
          then k_ret (Inl (State ''host instructions arrived out of order''))
          else k_bind (stage_update c host_id accepted_snapshot record staged) (\<lambda>staged. k_ret (Inr (staged, True))))"

definition stage_control :: "crypto \<Rightarrow> PeerId \<Rightarrow> ControlRecord \<Rightarrow> StagedReplica \<Rightarrow> (StagedReplica \<times> bool) kop" where
  "stage_control c host_id record staged = stage_control_mode c host_id False record staged"

section \<open>Live instructions\<close>

definition check_header_for_session :: "PeerId \<Rightarrow> PacketHeader \<Rightarrow> PairSession \<Rightarrow> unit kop" where
  "check_header_for_session host_id header session =
     (if ses_peer_id session \<noteq> host_id \<or> hdr_sender_id header \<noteq> host_id then k_ret (Inl AuthenticationFailed)
      else
        k_bind store_peer_id (\<lambda>me.
        k_ret (guard_ok (\<not> (hdr_receiver_id header \<noteq> me \<or> hdr_version header \<noteq> PROTOCOL_VERSION \<or>
          hdr_epoch header \<noteq> ses_epoch session)) AuthenticationFailed)))"

definition check_header :: "PeerId \<Rightarrow> PacketHeader \<Rightarrow> unit kop" where
  "check_header host_id header =
     k_bind (current_session host_id) (\<lambda>session. check_header_for_session host_id header session)"

definition apply_authenticated_control :: "crypto \<Rightarrow> ControlRecord \<Rightarrow> (MemberReplica, unit) hop" where
  "apply_authenticated_control c record =
     h_bind h_get (\<lambda>self.
     h_bind (h_key (require_live_traffic (mr_host_id self))) (\<lambda>_.
     h_bind (h_key (stage_control c (mr_host_id self) record (replica_stage self))) (\<lambda>(staged, _).
     apply_staged c staged)))"

definition apply_control :: "crypto \<Rightarrow> ControlPacket \<Rightarrow> (MemberReplica, unit) hop" where
  "apply_control c packet =
     h_bind h_get (\<lambda>self.
     h_bind (h_key (require_live_traffic (mr_host_id self))) (\<lambda>_.
     h_bind (h_key (check_header (mr_host_id self) (cp_header packet))) (\<lambda>_.
     if packet \<in> set (mr_online_receipts self) then h_ret (Inr ())
     else
       h_bind (h_key (current_session (mr_host_id self))) (\<lambda>session.
       h_bind (h_key (open_packet_with_session c session packet)) (\<lambda>plaintext.
       h_bind (h_ret (decode_control_record plaintext)) (\<lambda>record.
       h_bind (h_key (stage_control c (mr_host_id self) record (replica_stage self))) (\<lambda>(staged, _).
       h_bind (apply_staged c staged) (\<lambda>_.
       h_modify (\<lambda>self. self\<lparr>mr_online_receipts := mr_online_receipts self @ [packet]\<rparr>)))))))))"

section \<open>Mailboxes\<close>

text \<open>What the loop over a mailbox carries along; \<open>installing\<close> is the mark of a bootstrap that is being installed.\<close>

record flush_state =
  fs_staged :: StagedReplica
  fs_controls :: nat
  fs_last_packet :: "Seq option"
  fs_last_chunk :: "Seq option"
  fs_bodies :: "(FileId \<times> u64 \<times> bytes) list"
  fs_saw_bootstrap_end :: bool

definition stage_bootstrap :: "MemberReplica \<Rightarrow> u64 option \<Rightarrow> (StagedReplica \<times> u64 option) result" where
  "stage_bootstrap self bootstrap_through =
     (let staged = replica_stage self in
      case bootstrap_through of
        None \<Rightarrow> Inr (staged, None)
      | Some through \<Rightarrow>
          if through = mr_bootstrap_through self then Inr (staged, None)
          else if through < mr_bootstrap_through self \<or> mr_last_applied self > through then Inl AuthenticationFailed
          else if through > mr_bootstrap_through self then
            (if mr_last_applied self \<noteq> 0 then Inl AuthenticationFailed
             else Inr (staged\<lparr>sr_tree := tree_new (mr_expected_root self), sr_manifests := [], sr_controls := [], sr_log := []\<rparr>, Some through))
          else Inr (staged, None))"

definition stage_document :: "crypto \<Rightarrow> IdentityDocument \<Rightarrow> StagedReplica \<Rightarrow> StagedReplica result" where
  "stage_document c document staged =
     and_then (identity_verify c document) (\<lambda>_.
     Inr (staged\<lparr>sr_historical_members := bs_insert (id_peer_id document) (sr_historical_members staged),
       sr_identity_documents := bm_insert (id_peer_id document) document (sr_identity_documents staged)\<rparr>))"

definition is_control_frame :: "MailboxFrame \<Rightarrow> bool" where
  "is_control_frame frame = (case frame of MfControl _ \<Rightarrow> True | MfChunkBody _ _ _ \<Rightarrow> False)"

definition note_counter :: "Seq \<Rightarrow> MailboxFrame \<Rightarrow> flush_state \<Rightarrow> flush_state result" where
  "note_counter seq frame acc =
     (let last = (if is_control_frame frame then fs_last_packet acc else fs_last_chunk acc) in
      if (case last of None \<Rightarrow> False | Some previous \<Rightarrow> seq \<le> previous)
      then Inl (State ''mailbox counters are not in queued order'')
      else Inr (if is_control_frame frame then acc\<lparr>fs_last_packet := Some seq\<rparr> else acc\<lparr>fs_last_chunk := Some seq\<rparr>))"

definition open_envelope :: "crypto \<Rightarrow> PairSession \<Rightarrow> PacketHeader \<Rightarrow> StagedReplica \<Rightarrow> MailboxFrame \<Rightarrow> Opened kop" where
  "open_envelope c session header staged frame = (case frame of
       MfControl ciphertext \<Rightarrow>
         k_bind (store_open c (ses_key_handle session) (nonce header Packet) (packet_aad header) ciphertext) (\<lambda>plaintext.
         k_bind (k_ret (decode_control_record plaintext)) (\<lambda>record.
         k_ret (Inr (OControl record))))
     | MfChunkBody file_id index ciphertext \<Rightarrow>
         k_bind (k_ret (ok_or (bm_get (sr_manifests staged) file_id) AuthenticationFailed)) (\<lambda>trusted.
         k_bind (open_chunk c session \<lparr>cbf_header = header, cbf_file_id = file_id, cbf_index = index, cbf_ciphertext = ciphertext\<rparr> trusted)
           (\<lambda>plaintext. k_ret (Inr (OChunk file_id index plaintext)))))"

definition stage_opened :: "crypto \<Rightarrow> PeerId \<Rightarrow> u64 option \<Rightarrow> Opened \<Rightarrow> flush_state \<Rightarrow> flush_state kop" where
  "stage_opened c host_id installing opened acc = (case opened of
       OControl record \<Rightarrow>
         (let accepted_snapshot = (case installing of None \<Rightarrow> False | Some through \<Rightarrow> cr_id record \<le> through);
              acc = (if accepted_snapshot \<and> installing = Some (cr_id record) then acc\<lparr>fs_saw_bootstrap_end := True\<rparr> else acc) in
          k_bind (stage_control_mode c host_id accepted_snapshot record (fs_staged acc)) (\<lambda>(staged, applied).
          k_ret (Inr (acc\<lparr>fs_staged := staged, fs_controls := fs_controls acc + (if applied then 1 else 0)\<rparr>))))
     | OChunk file_id index plaintext \<Rightarrow>
         k_ret (
           and_then (ok_or (bm_get (sr_manifests (fs_staged acc)) file_id) AuthenticationFailed) (\<lambda>trusted.
           and_then (guard_ok (listed_chunk (tm_manifest trusted) index = Some (chunk_id (cr_sha256 c) file_id index plaintext))
             AuthenticationFailed) (\<lambda>_.
           Inr (acc\<lparr>fs_bodies := fs_bodies acc @ [(file_id, index, plaintext)]\<rparr>)))))"

definition cached_receipt :: "MemberReplica \<Rightarrow> MailboxEnvelope \<Rightarrow> Opened option" where
  "cached_receipt self envelope = map_option snd (find (\<lambda>(prior, _). prior = envelope) (mr_receipts self))"

definition cache_receipt :: "MailboxEnvelope \<Rightarrow> Opened \<Rightarrow> MemberReplica \<Rightarrow> MemberReplica" where
  "cache_receipt envelope opened self =
     (if list_ex (\<lambda>(prior, _). prior = envelope) (mr_receipts self) then self
      else self\<lparr>mr_receipts := mr_receipts self @ [(envelope, opened)]\<rparr>)"

definition prepare_envelope ::
  "crypto \<Rightarrow> PairSession \<Rightarrow> u64 option \<Rightarrow> MailboxEnvelope \<Rightarrow> flush_state \<Rightarrow> (MemberReplica, flush_state) hop" where
  "prepare_envelope c session installing envelope acc =
     h_bind h_get (\<lambda>self.
     let header = envelope_header envelope in
     h_bind (h_key (check_header_for_session (mr_host_id self) header session)) (\<lambda>_.
     h_bind (h_ret (decode_mailbox_frame (me_ciphertext envelope))) (\<lambda>frame.
     h_bind (h_ret (note_counter (me_seq envelope) frame acc)) (\<lambda>acc.
     h_bind (case cached_receipt self envelope of
         Some opened \<Rightarrow> h_ret (Inr opened)
       | None \<Rightarrow> h_key (open_envelope c session header (fs_staged acc) frame)) (\<lambda>opened.
     h_bind (h_modify (cache_receipt envelope opened)) (\<lambda>_.
     h_key (stage_opened c (mr_host_id self) installing opened acc)))))))"

fun prepare_envelopes ::
  "crypto \<Rightarrow> PairSession \<Rightarrow> u64 option \<Rightarrow> MailboxEnvelope list \<Rightarrow> flush_state \<Rightarrow> (MemberReplica, flush_state) hop" where
  "prepare_envelopes c session installing [] acc = h_ret (Inr acc)"
| "prepare_envelopes c session installing (envelope # envelopes) acc =
     h_bind (prepare_envelope c session installing envelope acc) (prepare_envelopes c session installing envelopes)"

text \<open>All instructions are staged before any body reaches the replica.\<close>

fun put_bodies :: "crypto \<Rightarrow> (FileId \<times> u64 \<times> bytes) list \<Rightarrow> StagedReplica \<Rightarrow> nat \<Rightarrow> (MemberReplica, StagedReplica \<times> nat) hop" where
  "put_bodies c [] staged written = h_ret (Inr (staged, written))"
| "put_bodies c ((file_id, index, plaintext) # bodies) staged written =
     (let cid = chunk_id (cr_sha256 c) file_id index plaintext in
      if (case bm_get (sr_manifests staged) file_id of None \<Rightarrow> None | Some m \<Rightarrow> listed_chunk (tm_manifest m) index) \<noteq> Some cid
      then put_bodies c bodies staged written
      else if \<not> is_linked_file (sr_tree staged) file_id then put_bodies c bodies staged written
      else if \<not> chunk_has (sr_chunks staged) cid then
        h_bind (on_clone upd_replica_chunks (chunk_put (cr_sha256 c) (sr_chunks staged) file_id index plaintext)) (\<lambda>(chunks, _).
        put_bodies c bodies (staged\<lparr>sr_chunks := chunks\<rparr>) (written + 1))
      else put_bodies c bodies staged written)"

definition finish_flush :: "crypto \<Rightarrow> MemberReplica \<Rightarrow> u64 option \<Rightarrow> flush_state \<Rightarrow> (MemberReplica, PreparedReplicaFlush) hop" where
  "finish_flush c self installing acc =
     h_bind (put_bodies c (fs_bodies acc) (fs_staged acc) 0) (\<lambda>(staged, written).
     h_bind (h_ret (case installing of
         None \<Rightarrow> Inr staged
       | Some through \<Rightarrow> and_then (guard_ok (fs_saw_bootstrap_end acc) AuthenticationFailed) (\<lambda>_.
           Inr (staged\<lparr>sr_bootstrap_through := through\<rparr>)))) (\<lambda>staged.
     h_bind (h_key store_peer_id) (\<lambda>me.
     h_ret (Inr \<lparr>prf_peer_id = me, prf_host_id = mr_host_id self, prf_base_controls = mr_controls self, prf_staged = staged,
       prf_report = \<lparr>fr_controls = fs_controls acc, fr_chunks_written = written\<rparr>\<rparr>))))"

definition prepare_mailbox_for_session ::
  "crypto \<Rightarrow> MailboxEnvelope list \<Rightarrow> IdentityDocument list \<Rightarrow> u64 option \<Rightarrow> PairSession \<Rightarrow> (MemberReplica, PreparedReplicaFlush) hop" where
  "prepare_mailbox_for_session c envelopes history bootstrap_through session =
     h_bind h_get (\<lambda>self.
     h_bind (h_guard (ses_peer_id session = mr_host_id self) AuthenticationFailed) (\<lambda>_.
     h_bind (h_modify (\<lambda>self. self\<lparr>mr_receipts := filter (\<lambda>(prior, _). prior \<in> set envelopes) (mr_receipts self)\<rparr>)) (\<lambda>_.
     h_bind (h_ret (stage_bootstrap self bootstrap_through)) (\<lambda>(staged, installing).
     h_bind (h_ret (fold_ok (stage_document c) history staged)) (\<lambda>staged.
     h_bind (prepare_envelopes c session installing envelopes \<lparr>fs_staged = staged, fs_controls = 0, fs_last_packet = None,
       fs_last_chunk = None, fs_bodies = [], fs_saw_bootstrap_end = (installing = Some 0)\<rparr>) (\<lambda>acc.
     finish_flush c self installing acc))))))"

definition prepare_mailbox_with_bootstrap ::
  "crypto \<Rightarrow> MailboxEnvelope list \<Rightarrow> IdentityDocument list \<Rightarrow> u64 option \<Rightarrow> (MemberReplica, PreparedReplicaFlush) hop" where
  "prepare_mailbox_with_bootstrap c envelopes history bootstrap_through =
     h_bind h_get (\<lambda>self.
     h_bind (h_key (current_session (mr_host_id self))) (\<lambda>session.
     prepare_mailbox_for_session c envelopes history bootstrap_through session))"

definition commit_prepared :: "crypto \<Rightarrow> PreparedReplicaFlush \<Rightarrow> (MemberReplica, FlushReport) hop" where
  "commit_prepared c flush =
     h_bind h_get (\<lambda>self.
     h_bind (h_key store_peer_id) (\<lambda>me.
     h_bind (h_guard (\<not> (prf_peer_id flush \<noteq> me \<or> prf_host_id flush \<noteq> mr_host_id self \<or> prf_base_controls flush \<noteq> mr_controls self))
       (State ''replica changed before prepared flush commit'')) (\<lambda>_.
     h_bind (apply_staged c (prf_staged flush)) (\<lambda>_.
     h_ret (Inr (prf_report flush))))))"

definition finish_receipts :: "(MemberReplica, unit) hop" where
  "finish_receipts = h_modify (\<lambda>self. self\<lparr>mr_receipts := []\<rparr>)"

section \<open>Membership\<close>

definition add_members :: "crypto \<Rightarrow> PeerId btree_set \<Rightarrow> (MemberReplica, unit) hop" where
  "add_members c members =
     h_bind h_get (\<lambda>self.
     h_bind (h_guard (mr_host_id self \<in> set members) AuthenticationFailed) (\<lambda>_.
     h_bind (h_key store_peer_id) (\<lambda>me.
     h_bind (h_guard (me \<in> set members) AuthenticationFailed) (\<lambda>_.
     let staged = replica_stage self in
     apply_staged c (staged\<lparr>sr_members := bs_extend (filter (\<lambda>peer. peer \<notin> set (sr_denied staged)) members) (sr_members staged),
       sr_historical_members := bs_extend members (sr_historical_members staged)\<rparr>)))))"

definition learn_history :: "crypto \<Rightarrow> IdentityDocument list \<Rightarrow> (MemberReplica, unit) hop" where
  "learn_history c documents =
     h_bind h_get (\<lambda>self.
     if list_all (\<lambda>document. bm_get (mr_identity_documents self) (id_peer_id document) = Some document) documents then h_ret (Inr ())
     else
       h_bind (h_ret (fold_ok (stage_document c) documents (replica_stage self))) (\<lambda>staged.
       apply_staged c staged))"

definition reconcile_members :: "crypto \<Rightarrow> PeerId btree_set \<Rightarrow> PeerId btree_set \<Rightarrow> (MemberReplica, unit) hop" where
  "reconcile_members c members denied =
     h_bind h_get (\<lambda>self.
     h_bind (h_guard (mr_host_id self \<in> set members) AuthenticationFailed) (\<lambda>_.
     h_bind (h_key store_peer_id) (\<lambda>me.
     h_bind (h_guard (\<not> (me \<notin> set members \<or> list_ex (\<lambda>peer. peer \<in> set denied) members \<or> mr_host_id self \<in> set denied))
       AuthenticationFailed) (\<lambda>_.
     if mr_members self = members \<and> mr_denied self = denied then h_ret (Inr ())
     else
       let staged = replica_stage self in
       h_bind (h_guard (list_all (\<lambda>peer. peer \<in> set denied) (sr_denied staged)) AuthenticationFailed) (\<lambda>_.
       apply_staged c (staged\<lparr>sr_members := members,
         sr_historical_members := bs_extend members (sr_historical_members staged), sr_denied := denied\<rparr>))))))"

section \<open>Eviction\<close>

definition pins_file :: "FileId \<Rightarrow> QueueContent \<Rightarrow> bool" where
  "pins_file file_id content = (case content of QChunk queued _ _ \<Rightarrow> queued = file_id | QControl _ \<Rightarrow> False)"

definition member_evict_file :: "crypto \<Rightarrow> FileId \<Rightarrow> (MemberReplica, nat) hop" where
  "member_evict_file c file_id =
     h_bind h_get (\<lambda>self.
     h_bind (h_key store_peer_id) (\<lambda>me.
     h_bind (h_guard (\<not> (me = mr_host_id self \<or> me \<notin> set (mr_members self) \<or> mr_host_id self \<notin> set (mr_members self)))
       (State ''replica is not a live member with H'')) (\<lambda>_.
     h_bind (h_key (current_session (mr_host_id self))) (\<lambda>_.
     h_bind (h_key (require_live_traffic (mr_host_id self))) (\<lambda>_.
     let store = mr_chunks self in
     h_bind (h_ret (ok_or (mc_metadata store) (State ''replica metadata is unavailable''))) (\<lambda>metadata.
     h_bind (h_guard (\<not> list_ex (pins_file file_id) (concat (bm_values (rm_mailboxes metadata)))) (State ''mailbox pins file chunks'')) (\<lambda>_.
     let staged = remove_file store file_id in
     h_bind (h_ret (ok_or (mc_metadata staged) (State ''replica metadata is unavailable''))) (\<lambda>metadata.
     h_bind (on_clone upd_replica_chunks (persist_metadata (cr_sha256 c) staged metadata)) (\<lambda>(chunks, _).
     h_bind (h_modify (\<lambda>self. self\<lparr>mr_chunks := chunks\<rparr>)) (\<lambda>_.
     h_ret (Inr (file_chunk_count store file_id))))))))))))"

section \<open>Opening\<close>

definition member_replica :: "PeerId \<Rightarrow> FileId \<Rightarrow> PeerId btree_set \<Rightarrow> MemoryChunkStore \<Rightarrow> MemberReplica" where
  "member_replica host_id root members chunks = \<lparr>mr_host_id = host_id, mr_members = members, mr_denied = [],
     mr_historical_members = members, mr_identity_documents = [], mr_chunks = chunks, mr_manifests = [], mr_controls = [],
     mr_log = [], mr_receipts = [], mr_online_receipts = [], mr_expected_root = root, mr_tree = tree_new root,
     mr_last_applied = 0, mr_bootstrap_through = 0\<rparr>"

text \<open>A new replica on a chunk store that it shares with its caller.\<close>

definition member_new :: "PeerId \<Rightarrow> PeerId btree_set \<Rightarrow> (MemoryChunkStore, MemberReplica) hop" where
  "member_new host_id members =
     h_bind (h_guard (host_id \<in> set members) AuthenticationFailed) (\<lambda>_.
     h_bind (h_key store_peer_id) (\<lambda>me.
     h_bind (h_guard (me \<in> set members) AuthenticationFailed) (\<lambda>_.
     h_bind (h_modify (\<lambda>chunks. chunks\<lparr>mc_metadata := Some ((replica_new (FileId 0))\<lparr>rm_members := members,
       rm_dirents := dirents (tree_new (FileId 0))\<rparr>)\<rparr>)) (\<lambda>_.
     h_bind h_get (\<lambda>chunks.
     h_ret (Inr (member_replica host_id (FileId 0) members chunks)))))))"

definition member_new_in_vault :: "PeerId \<Rightarrow> PeerId btree_set \<Rightarrow> FileId \<Rightarrow> (MemoryChunkStore, MemberReplica) hop" where
  "member_new_in_vault host_id members root =
     h_bind (member_new host_id members) (\<lambda>replica.
     let replica = replica\<lparr>mr_expected_root := root, mr_tree := tree_new root\<rparr> in
     h_bind (h_key (metadata_for replica (replica_stage replica))) (\<lambda>metadata.
     h_bind (h_modify (\<lambda>chunks. chunks\<lparr>mc_metadata := Some metadata\<rparr>)) (\<lambda>_.
     h_bind h_get (\<lambda>chunks.
     h_ret (Inr (replica\<lparr>mr_chunks := chunks\<rparr>))))))"

definition restored_replica :: "FileId \<Rightarrow> PeerId \<Rightarrow> PeerId \<Rightarrow> ReplicaMetadata \<Rightarrow> MemoryChunkStore \<Rightarrow> trusted_map \<Rightarrow> DirectoryTree \<Rightarrow> MemberReplica" where
  "restored_replica root host_id me metadata chunks manifests tree = \<lparr>mr_host_id = host_id, mr_members = rm_members metadata,
     mr_denied = rm_denied metadata, mr_historical_members = rm_historical_members metadata,
     mr_identity_documents = rm_identity_documents metadata, mr_chunks = chunks, mr_manifests = manifests,
     mr_controls = fold (\<lambda>record. bm_insert (cr_id record) record) (rm_log metadata) [], mr_log = rm_log metadata,
     mr_receipts = [], mr_online_receipts = [], mr_expected_root = root, mr_tree = tree,
     mr_last_applied = bm_or_default 0 (rm_acked_through metadata) me,
     mr_bootstrap_through = bm_or_default 0 (rm_bootstrap_through metadata) me\<rparr>"

definition member_open_durable ::
  "crypto \<Rightarrow> unit result \<Rightarrow> FileId \<Rightarrow> PeerId \<Rightarrow> PeerId btree_set \<Rightarrow> ('h, MemberReplica) hop" where
  "member_open_durable c data_dir_lock root host_id initial_members =
     h_bind (h_io (open_store (cr_sha256 c) data_dir_lock root)) (\<lambda>(stored, chunks).
     h_bind (h_key store_peer_id) (\<lambda>me.
     let metadata = (case stored of Some metadata \<Rightarrow> metadata | None \<Rightarrow> (replica_new root)\<lparr>rm_members := initial_members\<rparr>) in
     h_bind (h_guard (\<not> (host_id \<notin> set (rm_members metadata) \<or> me \<notin> set (rm_members metadata))) AuthenticationFailed) (\<lambda>_.
     h_bind (h_guard (rm_mailboxes metadata = []) (InvalidInput ''host replica cannot be opened as a member'')) (\<lambda>_.
     h_bind (h_key (verified_manifests c metadata)) (\<lambda>manifests.
     h_bind (h_ret (from_dirents root (rm_dirents metadata))) (\<lambda>tree.
     let replica = restored_replica root host_id me metadata chunks manifests tree in
     h_bind (h_local replica (if stored = None then apply_staged c (replica_stage replica) else h_ret (Inr ()))) (\<lambda>(r, replica).
     h_bind (h_ret r) (\<lambda>_.
     h_ret (Inr replica)))))))))"

section \<open>A flush between two nodes\<close>

text \<open>
  \<open>flush_mailbox\<close> runs in one process on the host and a member's replica, each with its own keystore and
  directory: the member and its world are part of the state, the host's world is the world.
\<close>

record node_pair =
  np_host :: HostService
  np_member :: MemberReplica
  np_world :: world

definition on_host :: "(HostService, 'a) hop \<Rightarrow> (node_pair, 'a) hop" where
  "on_host p s = (case p (np_host (fst s), snd s) of (r, host, w) \<Rightarrow> (r, (fst s)\<lparr>np_host := host\<rparr>, w))"

definition on_member :: "(MemberReplica, 'a) hop \<Rightarrow> (node_pair, 'a) hop" where
  "on_member p s = (case p (np_member (fst s), np_world (fst s)) of
     (r, member, w) \<Rightarrow> (r, (fst s)\<lparr>np_member := member, np_world := w\<rparr>, snd s))"

definition flush_mailbox :: "crypto \<Rightarrow> FlushChallenge \<Rightarrow> bytes \<Rightarrow> (node_pair, FlushReport) hop" where
  "flush_mailbox c challenge signature =
     h_bind h_get (\<lambda>pair.
     let host = np_host pair; st = h_state host in
     h_bind (h_ret (require_running host)) (\<lambda>_.
     h_bind (on_member (h_key store_peer_id)) (\<lambda>peer.
     h_bind (h_ret (require_member host peer)) (\<lambda>_.
     h_bind (h_guard (\<not> (mr_host_id (np_member pair) \<noteq> hs_host_id st \<or> bm_get (h_challenges host) peer \<noteq> Some challenge))
       AuthenticationFailed) (\<lambda>_.
     h_bind (on_member (h_key (current_session (hs_host_id st)))) (\<lambda>theirs.
     h_bind (on_host (h_key (current_session peer))) (\<lambda>ours.
     h_bind (h_guard (ses_epoch theirs = ses_epoch ours) (State ''finish the current pair wrap before mailbox flush'')) (\<lambda>_.
     h_bind (on_host (prepare_flush c peer challenge signature)) (\<lambda>flush.
     h_bind (on_member (h_key (block_live_traffic (hs_host_id st) (hs_gate_owner st)))) (\<lambda>_.
     h_bind h_get (\<lambda>pair.
     h_bind (on_member (prepare_mailbox_with_bootstrap c (hf_envelopes flush) (historical_documents (np_host pair))
       (hf_bootstrap_through flush))) (\<lambda>staged.
     h_bind (on_member (commit_prepared c staged)) (\<lambda>report.
     h_bind (on_member finish_receipts) (\<lambda>_.
     h_bind (on_host (acknowledge_flush c peer flush)) (\<lambda>_.
     h_bind (on_member (h_key (unblock_live_traffic (hs_host_id st) (hs_gate_owner st)))) (\<lambda>_.
     h_ret (Inr report)))))))))))))))))"

end
