(* ===== verification/Member_Inv.thy ===== *)
theory Member_Inv
  imports Member Host_Run
begin

text \<open>
  What holds of a member's replica in every state it reaches: its tree and manifests are exactly what its
  log of applied instructions gives, the log's numbers rise, and the host is a member that cannot be
  denied. Staging an instruction extends the log by that instruction or leaves everything as it is.
\<close>

section \<open>Replaying a log\<close>

definition replay :: "FileId \<Rightarrow> ControlRecord list \<Rightarrow> content result" where
  "replay root log = fold_ok (\<lambda>record. content_step (cr_update record)) log (tree_new root, [])"

lemma and_then_done [simp]: "and_then r (fold_ok f []) = r"
  by (cases r) simp_all

lemma replay_simps [simp]:
  "replay root [] = Inr (tree_new root, [])"
  "replay root (log @ [record]) = and_then (replay root log) (content_step (cr_update record))"
  by (cases "replay root log"; simp add: replay_def fold_ok_append)+

text \<open>Instructions make only those directories that they link as such.\<close>

lemma unlink_dirs: "tree_unlink t p n = Inr (c, t') \<Longrightarrow> is_dir t' f \<Longrightarrow> is_dir t f"
  by (auto simp: tree_unlink_def is_dir_iff dirents_def)

lemma rename_dirs:
  assumes "tree_ok t" and "tree_rename t sp sn dp dn = Inr t'" and "is_dir t' f"
  shows "is_dir t f"
proof (cases "(sp, sn) = (dp, dn)")
  case True
  then show ?thesis using assms(2,3) by (auto simp: tree_rename_def Let_def split: if_splits)
next
  case False
  obtain x where x: "x \<in> set (dirents t)" "dt_expected_root t' = dt_expected_root t"
    "set (dirents t') = insert (x\<lparr>de_parent := dp, de_name := dn\<rparr>) (set (dirents t) - {x})"
    by (rule rename_dirents [OF assms(1,2) False]) (rule that)
  from assms(3) show ?thesis unfolding is_dir_iff x(2,3) using x(1) by auto
qed

lemma apply_tree_update_dirs:
  assumes "tree_ok t" and "apply_tree_update t u = Inr (t', r)" and "is_dir t' f"
  shows "is_dir t f \<or> (\<exists>p n. u = Link p n f True)"
proof (cases u)
  case (Link p n child d)
  with assms show ?thesis by (auto simp: apply_tree_update_def is_dir_iff link_dirents)
next
  case (Unlink p n)
  with assms show ?thesis by (auto simp: apply_tree_update_def dest: unlink_dirs)
next
  case (Remove file_id)
  with assms show ?thesis
    by (auto simp: apply_tree_update_def tree_remove_id_def dest: unlink_dirs split: if_splits option.splits prod.splits)
next
  case (Rename sp sn dp dn)
  with assms show ?thesis by (auto simp: apply_tree_update_def dest: rename_dirs)
qed (use assms in \<open>auto simp: apply_tree_update_def\<close>)

definition content_ok :: "FileId \<Rightarrow> content \<Rightarrow> bool" where
  "content_ok root content \<longleftrightarrow> (case content of (tree, manifests) \<Rightarrow> tree_ok tree \<and> dt_expected_root tree = root \<and> bm_ok manifests \<and>
     bm_keyed mf_file_id manifests \<and> (\<forall>file_id \<in> fst ` set manifests. \<not> is_dir tree file_id))"

lemma content_ok_step:
  assumes "content_ok root content" and "content_step update content = Inr content'"
  shows "content_ok root content'"
proof -
  obtain tree manifests where c: "content = (tree, manifests)" by fastforce
  obtain tree' removed where t: "apply_tree_update tree update = Inr (tree', removed)"
    and v: "\<not> (case update of Link _ _ child True \<Rightarrow> bm_contains manifests child | _ \<Rightarrow> False)" and c': "content' = (tree',
      let manifests = (case update of NewManifest manifest \<Rightarrow> bm_insert (mf_file_id manifest) manifest manifests | _ \<Rightarrow> manifests) in
      case removed of None \<Rightarrow> manifests | Some file_id \<Rightarrow> bm_remove file_id manifests)"
    using assms(2) by (auto simp: c content_step_def Let_def)
  let ?ms = "case update of NewManifest manifest \<Rightarrow> bm_insert (mf_file_id manifest) manifest manifests | _ \<Rightarrow> manifests"
  have ok: "tree_ok tree" "\<forall>file_id \<in> fst ` set manifests. \<not> is_dir tree file_id" using assms(1) by (auto simp: c content_ok_def)
  have "\<not> is_dir tree' file_id" if "file_id \<in> fst ` set ?ms" for file_id
  proof
    assume d: "is_dir tree' file_id"
    from apply_tree_update_dirs [OF ok(1) t d] show False
    proof
      assume "is_dir tree file_id"
      then show False using ok(2) that t by (cases update) (auto simp: apply_tree_update_def)
    qed (use v that in force)
  qed
  then show ?thesis
    using assms(1) apply_tree_update_ok [OF ok(1) t] unfolding c c' content_ok_def
    by (auto simp: Let_def bm_keyed_insert bm_keyed_remove split: option.splits ControlUpdate.splits)
qed

lemma replay_ok: "replay root log = Inr content \<Longrightarrow> content_ok root content"
proof (induction log arbitrary: content rule: rev_induct)
  case Nil
  then show ?case using tree_ok_new by (auto simp: content_ok_def tree_new_def bm_keyed_def)
next
  case (snoc r log)
  then show ?case by (auto elim: content_ok_step)
qed

section \<open>Well-formed replicas\<close>

definition staged_content :: "StagedReplica \<Rightarrow> content" where
  "staged_content staged = (sr_tree staged, plain (sr_manifests staged))"

definition log_wf :: "ControlRecord list \<Rightarrow> bool" where
  "log_wf log \<longleftrightarrow> sorted_wrt (<) (map cr_id log) \<and> (\<forall>record \<in> set log. 0 < cr_id record)"

definition staged_wf :: "FileId \<Rightarrow> PeerId \<Rightarrow> StagedReplica \<Rightarrow> bool" where
  "staged_wf root host_id staged \<longleftrightarrow> replay root (sr_log staged) = Inr (staged_content staged) \<and> log_wf (sr_log staged) \<and>
     sr_controls staged = map (\<lambda>record. (cr_id record, record)) (sr_log staged) \<and>
     bs_ok (sr_members staged) \<and> bs_ok (sr_denied staged) \<and> host_id \<in> set (sr_members staged) \<and> set (sr_members staged) \<inter> set (sr_denied staged) = {}"

definition member_wf :: "MemberReplica \<Rightarrow> bool" where
  "member_wf self \<longleftrightarrow> staged_wf (mr_expected_root self) (mr_host_id self) (replica_stage self) \<and>
     (\<forall>record \<in> set (mr_log self). cr_id record \<le> mr_last_applied self)"

section \<open>Staging an instruction\<close>

lemma k_bind_Inr': "k_bind p f s = (Inr y, s') \<longleftrightarrow> (\<exists>x s1. p s = (Inr x, s1) \<and> f x s1 = (Inr y, s'))"
  by (auto simp: k_bind_def split: sum.splits prod.splits)

lemma verified_manifest:
  "verify_accepted c writer manifest = Inr trusted \<Longrightarrow> tm_manifest trusted = manifest"
  "verify_record_manifest c members archive manifest s = (Inr trusted, s') \<Longrightarrow> tm_manifest trusted = manifest"
  by (auto simp: verify_accepted_def check_manifest_def verify_record_manifest_def k_ret_def dest: trusted_verify_manifest
      split: if_splits option.splits)

lemma stage_new_manifest_Inr:
  assumes "stage_new_manifest c accepted manifest staged s = (Inr staged', s')"
  obtains trusted members where "tm_manifest trusted = manifest" "members = sr_members staged \<or>
      members = bs_insert (mf_writer_id manifest) (sr_members staged) \<and> mf_writer_id manifest \<notin> set (sr_denied staged)"
    "staged' = staged\<lparr>sr_members := members, sr_manifests := bm_insert (mf_file_id manifest) trusted (sr_manifests staged)\<rparr>"
proof -
  let ?members = "if \<not> accepted \<and> mf_writer_id manifest \<notin> set (sr_denied staged) \<and> mf_writer_id manifest \<in> set (sr_historical_members staged)
    then bs_insert (mf_writer_id manifest) (sr_members staged) else sr_members staged"
  obtain trusted where t: "tm_manifest trusted = manifest"
    "staged' = staged\<lparr>sr_members := ?members, sr_manifests := bm_insert (mf_file_id (tm_manifest trusted)) trusted (sr_manifests staged)\<rparr>"
    using assms unfolding stage_new_manifest_def Let_def k_bind_Inr'
    by (auto simp: k_ret_def dest: verified_manifest split: if_splits)
  show thesis by (rule that [OF t(1), of ?members]) (use t in auto)
qed

lemma stage_member_kick_Inr:
  assumes "(case update of Kick target \<Rightarrow> stage_member_kick host_id target staged | _ \<Rightarrow> Inr staged) = Inr staged'"
  shows "staged' = staged\<lparr>sr_members := when_kick update bs_remove (sr_members staged), sr_denied := when_kick update bs_insert (sr_denied staged)\<rparr>"
    and "update \<noteq> Kick host_id"
  using assms by (auto simp: stage_member_kick_def when_kick_def split: ControlUpdate.splits if_splits)

definition writer_added :: "ControlUpdate \<Rightarrow> StagedReplica \<Rightarrow> PeerId btree_set \<Rightarrow> bool" where
  "writer_added update staged members \<longleftrightarrow> members = sr_members staged \<or>
     (\<exists>manifest. update = NewManifest manifest \<and> mf_writer_id manifest \<notin> set (sr_denied staged) \<and>
        members = bs_insert (mf_writer_id manifest) (sr_members staged))"

lemma stage_update_Inr:
  assumes "stage_update c host_id accepted rcd staged s = (Inr staged', s')"
  shows "content_step (cr_update rcd) (staged_content staged) = Inr (staged_content staged')"
    and "sr_log staged' = sr_log staged @ [rcd]" and "sr_controls staged' = bm_insert (cr_id rcd) rcd (sr_controls staged)"
    and "sr_denied staged' = when_kick (cr_update rcd) bs_insert (sr_denied staged)" and "cr_update rcd \<noteq> Kick host_id"
    and "\<exists>members. writer_added (cr_update rcd) staged members \<and> sr_members staged' = when_kick (cr_update rcd) bs_remove members"
    and "sr_bootstrap_through staged' = sr_bootstrap_through staged"
proof -
  obtain tree removed sr1 sr2 s1 where v: "validate_link_kind (sr_manifests staged) (cr_update rcd) = Inr ()"
    and t: "apply_tree_update (sr_tree staged) (cr_update rcd) = Inr (tree, removed)"
    and m: "(case cr_update rcd of NewManifest manifest \<Rightarrow> stage_new_manifest c accepted manifest staged
       | _ \<Rightarrow> k_ret (Inr staged)) s = (Inr sr1, s1)"
    and k: "(case cr_update rcd of Kick target \<Rightarrow> stage_member_kick host_id target sr1 | _ \<Rightarrow> Inr sr1) = Inr sr2"
    and staged': "staged' = (stage_member_removal removed sr2)\<lparr>sr_tree := tree,
      sr_controls := bm_insert (cr_id rcd) rcd (sr_controls (stage_member_removal removed sr2)),
      sr_log := sr_log (stage_member_removal removed sr2) @ [rcd]\<rparr>"
    using assms by (auto simp: stage_update_def Let_def k_bind_Inr' k_simps)
  obtain trusted members where sr1: "writer_added (cr_update rcd) staged members"
    "\<And>manifest. cr_update rcd = NewManifest manifest \<Longrightarrow> tm_manifest trusted = manifest"
    "sr1 = staged\<lparr>sr_members := members, sr_manifests := (case cr_update rcd of
       NewManifest manifest \<Rightarrow> bm_insert (mf_file_id manifest) trusted (sr_manifests staged) | _ \<Rightarrow> sr_manifests staged)\<rparr>"
  proof (cases "\<exists>manifest. cr_update rcd = NewManifest manifest")
    case True
    then obtain manifest where u: "cr_update rcd = NewManifest manifest" by blast
    then have "stage_new_manifest c accepted manifest staged s = (Inr sr1, s1)" using m by simp
    then show thesis by (elim stage_new_manifest_Inr) (rule that; auto simp: u writer_added_def)
  next
    case False
    then have "sr1 = staged" using m by (auto simp: k_ret_def split: ControlUpdate.splits)
    with False show thesis by (intro that [of "sr_members staged"]) (auto simp: writer_added_def split: ControlUpdate.splits)
  qed
  note sr2 = stage_member_kick_Inr [OF k]
  have fields: "sr_manifests staged' = (case removed of None \<Rightarrow> sr_manifests sr1 | Some f \<Rightarrow> bm_remove f (sr_manifests sr1))" "sr_tree staged' = tree"
    by (simp_all add: staged' stage_member_removal_def sr2(1) split: option.splits)
  show "content_step (cr_update rcd) (staged_content staged) = Inr (staged_content staged')"
    unfolding staged_content_def fields
    by (rule content_step_plain [OF v t _ sr1(2)]) (simp_all add: sr1(3) split: ControlUpdate.splits)
  show "sr_log staged' = sr_log staged @ [rcd]" "sr_controls staged' = bm_insert (cr_id rcd) rcd (sr_controls staged)"
    "sr_denied staged' = when_kick (cr_update rcd) bs_insert (sr_denied staged)" "sr_bootstrap_through staged' = sr_bootstrap_through staged"
    by (simp_all add: staged' stage_member_removal_def sr2(1) sr1(3) split: option.splits)
  have "sr_members staged' = when_kick (cr_update rcd) bs_remove members"
    by (simp add: staged' stage_member_removal_def sr2(1) sr1(3) split: option.splits)
  with sr1(1) show "\<exists>members. writer_added (cr_update rcd) staged members \<and> sr_members staged' = when_kick (cr_update rcd) bs_remove members"
    by blast
  show "cr_update rcd \<noteq> Kick host_id" by (rule sr2(2))
qed

lemma log_wf_snoc: "log_wf log \<Longrightarrow> 0 < cr_id rcd \<Longrightarrow> (log \<noteq> [] \<Longrightarrow> cr_id (List.last log) < cr_id rcd) \<Longrightarrow> log_wf (log @ [rcd])"
  by (cases log rule: rev_cases) (auto simp: log_wf_def sorted_wrt_append intro: order.strict_trans)

lemma controls_snoc:
  assumes "log_wf (log @ [rcd])"
  shows "bm_insert (cr_id rcd) rcd (map (\<lambda>r. (cr_id r, r)) log) = map (\<lambda>r. (cr_id r, r)) (log @ [rcd])"
  using assms by (auto simp: log_wf_def sorted_wrt_append bm_ok_def comp_def intro!: bm_insert_append)

lemma staged_members_step:
  assumes "bs_ok (sr_members staged)" "bs_ok (sr_denied staged)" "host_id \<in> set (sr_members staged)"
    "set (sr_members staged) \<inter> set (sr_denied staged) = {}" "writer_added update staged members" "update \<noteq> Kick host_id"
  shows "bs_ok (when_kick update bs_remove members)" "bs_ok (when_kick update bs_insert (sr_denied staged))"
    "host_id \<in> set (when_kick update bs_remove members)"
    "set (when_kick update bs_remove members) \<inter> set (when_kick update bs_insert (sr_denied staged)) = {}"
  using assms by (auto simp: when_kick_def writer_added_def split: ControlUpdate.splits)

lemma staged_wf_update:
  assumes wf: "staged_wf root host_id staged" and run: "stage_update c host_id accepted rcd staged s = (Inr staged', s')"
    and n: "0 < cr_id rcd" "sr_controls staged \<noteq> [] \<Longrightarrow> fst (List.last (sr_controls staged)) < cr_id rcd"
  shows "staged_wf root host_id staged'"
proof -
  note u = stage_update_Inr [OF run]
  obtain members where m: "writer_added (cr_update rcd) staged members" "sr_members staged' = when_kick (cr_update rcd) bs_remove members"
    using u(6) by blast
  have "log_wf (sr_log staged @ [rcd])"
    using wf n by (intro log_wf_snoc) (auto simp: staged_wf_def last_map)
  then have "sr_controls staged' = map (\<lambda>r. (cr_id r, r)) (sr_log staged')" "log_wf (sr_log staged')"
    using wf controls_snoc by (simp_all add: u(2,3) staged_wf_def)
  moreover have "replay root (sr_log staged') = Inr (staged_content staged')" using wf u(1,2) by (simp add: staged_wf_def)
  moreover note staged_members_step [OF _ _ _ _ m(1) u(5)]
  ultimately show ?thesis using wf by (simp add: staged_wf_def m(2) u(4))
qed

lemma stage_control_mode_Inr:
  assumes "stage_control_mode c host_id accepted rcd staged s = (Inr (staged', applied), s')"
  shows "\<not> applied \<and> staged' = staged \<and> (cr_id rcd \<le> sr_bootstrap_through staged \<or> bm_get (sr_controls staged) (cr_id rcd) = Some rcd) \<or>
    applied \<and> sr_bootstrap_through staged < cr_id rcd \<and> (sr_controls staged \<noteq> [] \<longrightarrow> fst (List.last (sr_controls staged)) < cr_id rcd) \<and>
    stage_update c host_id accepted rcd staged s = (Inr staged', s')"
  using assms by (auto simp: stage_control_mode_def k_bind_Inr' k_simps not_le split: if_splits option.splits)

text \<open>\<open>advanced\<close>: a well-formed state whose log extends an earlier one by instructions from a given list, in their order.\<close>

definition advanced :: "FileId \<Rightarrow> PeerId \<Rightarrow> StagedReplica \<Rightarrow> StagedReplica \<Rightarrow> bool" where
  "advanced root host_id staged staged' \<longleftrightarrow> staged_wf root host_id staged' \<and> (\<exists>rs. sr_log staged' = sr_log staged @ rs)"

lemma advanced_refl: "staged_wf root host_id staged \<Longrightarrow> advanced root host_id staged staged"
  by (simp add: advanced_def)

lemma advanced_trans: "advanced root host_id a b \<Longrightarrow> advanced root host_id b d \<Longrightarrow> advanced root host_id a d"
  by (auto simp: advanced_def)

lemma advanced_control:
  assumes "staged_wf root host_id staged" and "stage_control_mode c host_id accepted rcd staged s = (Inr (staged', applied), s')"
  shows "advanced root host_id staged staged'"
  using stage_control_mode_Inr [OF assms(2)]
proof
  assume "applied \<and> sr_bootstrap_through staged < cr_id rcd \<and> (sr_controls staged \<noteq> [] \<longrightarrow> fst (List.last (sr_controls staged)) < cr_id rcd) \<and>
    stage_update c host_id accepted rcd staged s = (Inr staged', s')"
  then have u: "stage_update c host_id accepted rcd staged s = (Inr staged', s')" and
    n: "sr_bootstrap_through staged < cr_id rcd" "sr_controls staged \<noteq> [] \<Longrightarrow> fst (List.last (sr_controls staged)) < cr_id rcd"
    by blast+
  have "0 < cr_id rcd" using n(1) by (rule order.strict_trans1 [OF word_zero_le])
  then show ?thesis
    using staged_wf_update [OF assms(1) u _ n(2)] stage_update_Inr(2) [OF u] by (simp add: advanced_def)
qed (use assms(1) in \<open>simp add: advanced_refl\<close>)

section \<open>Publishing\<close>

text \<open>The part of a replica that instructions and the host's membership decide; the rest are caches and the chunk store.\<close>

definition core :: "MemberReplica \<Rightarrow> FileId \<times> PeerId \<times> PeerId btree_set \<times> PeerId btree_set \<times> content \<times> (u64, ControlRecord) btree_map \<times>
    ControlRecord list \<times> u64 \<times> u64" where
  "core self = (mr_expected_root self, mr_host_id self, mr_members self, mr_denied self, (mr_tree self, plain (mr_manifests self)),
     mr_controls self, mr_log self, mr_last_applied self, mr_bootstrap_through self)"

abbreviation at_core where
  "at_core k self \<equiv> core self = k"

lemma core_upd [simp]:
  "core (self\<lparr>mr_chunks := chunks\<rparr>) = core self" "core (upd_replica_chunks f self) = core self"
  "core (self\<lparr>mr_receipts := receipts\<rparr>) = core self" "core (self\<lparr>mr_online_receipts := packets\<rparr>) = core self"
  "core (cache_receipt envelope opened self) = core self"
  by (simp_all add: core_def upd_replica_chunks_def cache_receipt_def)

lemma member_wf_core: "core a = core b \<Longrightarrow> member_wf a = member_wf b"
  by (simp add: member_wf_def staged_wf_def core_def replica_stage_def staged_content_def)

lemma archive_replica_Inr:
  assumes "archive_replica c staged s = (Inr staged', s')"
  shows "\<exists>historical documents. staged' = staged\<lparr>sr_historical_members := historical, sr_identity_documents := documents\<rparr>"
  using assms by (auto simp: archive_replica_def Let_def k_bind_Inr' k_simps)

definition installed_core where
  "installed_core self staged = core (replica_install staged (mr_chunks self) self)"

lemma core_install:
  assumes "core a = core b"
    and "staged' = staged\<lparr>sr_historical_members := historical, sr_identity_documents := documents\<rparr>"
  shows "core (replica_install staged' chunks a) = installed_core b staged"
  using assms by (simp add: core_def installed_core_def replica_install_def staged_last_def)

lemma apply_staged_core:
  "keeps (\<lambda>h. core h = core self) (apply_staged c staged) (\<lambda>_. at_core (installed_core self staged))
    (\<lambda>h. core h = core self \<or> core h = installed_core self staged)"
  unfolding apply_staged_def
proof (rule keeps_bind_key, rule keeps_bind_get, rule keeps_at(4), rule keeps_bind_on_clone)
  fix staged' s s' h metadata s1 s1' chunks u s2 s2'
  assume "archive_replica c staged s = (Inr staged', s')" and h: "core h = core self"
  then have installed: "core (replica_install staged' chunks (upd_replica_chunks (share_durable chunks) h)) = installed_core self staged"
    using archive_replica_Inr core_install by (metis core_upd(2))
  show "keeps (\<lambda>h'. h' = upd_replica_chunks (share_durable chunks) h)
      (case (chunks, u) of (chunks, _) \<Rightarrow> h_bind (h_modify (replica_install staged' chunks)) (\<lambda>_.
        h_iter (\<lambda>peer. h_key (discard_pair peer)) (filter (\<lambda>peer. peer \<notin> set (mr_denied h)) (sr_denied staged'))))
      (\<lambda>_. at_core (installed_core self staged)) (\<lambda>h. core h = core self \<or> core h = installed_core self staged)"
    unfolding prod.case
    by (rule keeps_bind_modify_at, rule keeps_from [OF keeps_iter]) (auto intro: keeps_key simp: installed)
qed auto

section \<open>The invariant of the operations\<close>

text \<open>A well-formed replica of a given vault and host whose log begins with a given one.\<close>

definition mem_ok :: "FileId \<Rightarrow> PeerId \<Rightarrow> ControlRecord list \<Rightarrow> MemberReplica \<Rightarrow> bool" where
  "mem_ok root host_id log self \<longleftrightarrow> mr_expected_root self = root \<and> mr_host_id self = host_id \<and> member_wf self \<and> (\<exists>rs. mr_log self = log @ rs)"

abbreviation msound :: "FileId \<Rightarrow> PeerId \<Rightarrow> ControlRecord list \<Rightarrow> (MemberReplica, 'a) hop \<Rightarrow> bool" where
  "msound root host_id log p \<equiv> keeps (mem_ok root host_id log) p (\<lambda>_. mem_ok root host_id log) (mem_ok root host_id log)"

lemma mem_ok_core: "core a = core b \<Longrightarrow> mem_ok root host_id log a = mem_ok root host_id log b"
  using member_wf_core [of a b] by (auto simp: mem_ok_def core_def)

lemma mem_ok_stage: "mem_ok root host_id log self \<Longrightarrow> staged_wf root host_id (replica_stage self)"
  by (auto simp: mem_ok_def member_wf_def)

lemma staged_wf_chunks [simp]: "staged_wf root host_id (staged\<lparr>sr_chunks := chunks\<rparr>) = staged_wf root host_id staged"
  by (simp add: staged_wf_def staged_content_def)

lemma replica_stage_install: "replica_stage (replica_install staged chunks self) = staged\<lparr>sr_chunks := chunks\<rparr>"
  by (simp add: replica_stage_def replica_install_def)

lemma log_wf_last: "log_wf log \<Longrightarrow> r \<in> set log \<Longrightarrow> log \<noteq> [] \<and> cr_id r \<le> cr_id (List.last log)"
  by (cases log rule: rev_cases) (auto simp: log_wf_def sorted_wrt_append less_imp_le)

lemma mem_ok_installed:
  assumes "mem_ok root host_id log self" and "advanced root host_id (replica_stage self) staged" and "core h = installed_core self staged"
  shows "mem_ok root host_id log h"
proof -
  let ?new = "replica_install staged (mr_chunks self) self"
  have "mr_expected_root ?new = root" "mr_host_id ?new = host_id" "mr_log ?new = sr_log staged" "sr_log (replica_stage self) = mr_log self"
    using assms(1) by (simp_all add: mem_ok_def replica_install_def replica_stage_def)
  moreover have "\<forall>r \<in> set (sr_log staged). cr_id r \<le> mr_last_applied ?new"
    using assms(2) log_wf_last by (fastforce simp: advanced_def staged_wf_def replica_install_def staged_last_def le_max_iff_disj)
  ultimately have "mem_ok root host_id log ?new"
    using assms(1,2) by (auto simp: mem_ok_def member_wf_def replica_stage_install advanced_def)
  then show ?thesis using mem_ok_core [of h ?new] assms(3) by (simp add: installed_core_def)
qed

lemma apply_staged_ok:
  assumes "mem_ok root host_id log self" and "advanced root host_id (replica_stage self) staged"
  shows "keeps (\<lambda>h. core h = core self) (apply_staged c staged) (\<lambda>_. mem_ok root host_id log) (mem_ok root host_id log)"
  by (rule keeps_weaken [OF apply_staged_core])
    (use assms mem_ok_installed [OF assms] mem_ok_core in blast)+

lemma apply_staged_at:
  assumes "mem_ok root host_id log self" and "advanced root host_id (replica_stage self) staged"
  shows "keeps (\<lambda>h. h = self) (apply_staged c staged) (\<lambda>_. mem_ok root host_id log) (mem_ok root host_id log)"
  by (rule keeps_weaken [OF apply_staged_ok [OF assms]]) simp_all

lemma msound_authenticated: "msound root host_id log (apply_authenticated_control c rcd)"
  unfolding apply_authenticated_control_def stage_control_def
proof (rule keeps_bind_get, rule keeps_at(4), rule keeps_at(4), rule keeps_case(1))
  fix self x s s' staged applied s1 s1' u s2 s2'
  assume self: "mem_ok root host_id log self" "stage_control_mode c (mr_host_id self) False rcd (replica_stage self) s1 = (Inr x, s1')"
    "x = (staged, applied)"
  then have "advanced root host_id (replica_stage self) staged"
    using advanced_control [OF mem_ok_stage [OF self(1)]] by (auto simp: mem_ok_def)
  then show "keeps (\<lambda>h. h = self) (apply_staged c staged) (\<lambda>_. mem_ok root host_id log) (mem_ok root host_id log)"
    by (rule apply_staged_at [OF self(1)])
qed auto

lemma advanced_staged:
  assumes "mem_ok root host_id log self" and "stage_control_mode c (mr_host_id self) accepted rcd (replica_stage self) s = (Inr (staged, applied), s')"
  shows "advanced root host_id (replica_stage self) staged"
  using advanced_control [OF mem_ok_stage [OF assms(1)]] assms by (auto simp: mem_ok_def)

lemma msound_modify: "(\<And>self. core (f self) = core self) \<Longrightarrow> msound root host_id log (h_modify f)"
  by (rule keeps_modify) (use mem_ok_core in blast)

lemma msound_apply_control: "msound root host_id log (apply_control c packet)"
  unfolding apply_control_def stage_control_def
proof (rule keeps_bind_get, rule keeps_at(4), rule keeps_at(4), rule keeps_if(1))
  fix self assume self: "mem_ok root host_id log self"
  show "keeps (\<lambda>h. h = self) (h_ret (Inr ())) (\<lambda>_. mem_ok root host_id log) (mem_ok root host_id log)"
    by (rule keeps_at) (simp_all add: self)
  show "keeps (\<lambda>h. h = self) (h_bind (h_key (current_session (mr_host_id self))) (\<lambda>session.
       h_bind (h_key (open_packet_with_session c session packet)) (\<lambda>plaintext.
       h_bind (h_ret (decode_control_record plaintext)) (\<lambda>rcd.
       h_bind (h_key (stage_control_mode c (mr_host_id self) False rcd (replica_stage self))) (\<lambda>(staged, _).
       h_bind (apply_staged c staged) (\<lambda>_.
       h_modify (\<lambda>self. self\<lparr>mr_online_receipts := mr_online_receipts self @ [packet]\<rparr>)))))))
     (\<lambda>_. mem_ok root host_id log) (mem_ok root host_id log)"
  proof (rule keeps_at(4), rule keeps_at(4), rule keeps_at(2), rule keeps_at(4), rule keeps_case(1))
    fix rcd x staged applied s s'
    assume "stage_control_mode c (mr_host_id self) False rcd (replica_stage self) s = (Inr x, s')" "x = (staged, applied)"
    then show "keeps (\<lambda>h. h = self) (h_bind (apply_staged c staged) (\<lambda>_.
        h_modify (\<lambda>self. self\<lparr>mr_online_receipts := mr_online_receipts self @ [packet]\<rparr>)))
      (\<lambda>_. mem_ok root host_id log) (mem_ok root host_id log)"
      by (intro keeps_bind [OF apply_staged_at [OF self]] msound_modify) (simp_all add: advanced_staged [OF self])
  qed (auto simp: self)
qed auto

lemma advanced_members:
  assumes "mem_ok root host_id log self" and "sr_log staged = sr_log (replica_stage self)" "staged_content staged = staged_content (replica_stage self)"
    "sr_controls staged = sr_controls (replica_stage self)" "bs_ok (sr_members staged)" "bs_ok (sr_denied staged)" "host_id \<in> set (sr_members staged)"
    "set (sr_members staged) \<inter> set (sr_denied staged) = {}"
  shows "advanced root host_id (replica_stage self) staged"
  using mem_ok_stage [OF assms(1)] assms(2-) by (simp add: advanced_def staged_wf_def)

lemma stage_documents_Inr:
  assumes "fold_ok (stage_document c) documents staged = Inr staged'"
  shows "\<exists>historical archive. staged' = staged\<lparr>sr_historical_members := historical, sr_identity_documents := archive\<rparr>"
proof (rule fold_ok_invariant [OF assms])
  show "\<exists>historical archive. staged = staged\<lparr>sr_historical_members := historical, sr_identity_documents := archive\<rparr>"
    by (intro exI [of _ "sr_historical_members staged"] exI [of _ "sr_identity_documents staged"]) simp
qed (auto simp: stage_document_def, blast)

lemma advanced_documents:
  assumes "staged_wf root host_id staged" and "fold_ok (stage_document c) documents staged = Inr staged'"
  shows "advanced root host_id staged staged'"
  using stage_documents_Inr [OF assms(2)] assms(1) by (auto simp: advanced_def staged_wf_def staged_content_def)

lemma replica_stage_fields:
  "sr_members (replica_stage self) = mr_members self" "sr_denied (replica_stage self) = mr_denied self"
  "sr_log (replica_stage self) = mr_log self" "sr_controls (replica_stage self) = mr_controls self"
  "sr_tree (replica_stage self) = mr_tree self" "sr_manifests (replica_stage self) = mr_manifests self"
  "sr_bootstrap_through (replica_stage self) = mr_bootstrap_through self"
  by (simp_all add: replica_stage_def)

lemma mem_ok_sets:
  assumes "mem_ok root host_id log self"
  shows "bs_ok (mr_members self)" "bs_ok (mr_denied self)" "host_id \<in> set (mr_members self)" "set (mr_members self) \<inter> set (mr_denied self) = {}"
    "mr_controls self = map (\<lambda>r. (cr_id r, r)) (mr_log self)" "log_wf (mr_log self)" "mr_host_id self = host_id" "mr_expected_root self = root"
  using mem_ok_stage [OF assms] assms by (simp_all add: staged_wf_def replica_stage_fields mem_ok_def)

lemma msound_add_members: "bs_ok members \<Longrightarrow> msound root host_id log (add_members c members)"
  unfolding add_members_def Let_def
proof (rule keeps_bind_get, rule keeps_at(2), rule keeps_at(4), rule keeps_at(2))
  fix self assume "mem_ok root host_id log self" "bs_ok members"
  then show "keeps (\<lambda>h. h = self) (apply_staged c (replica_stage self\<lparr>
      sr_members := bs_extend (filter (\<lambda>peer. peer \<notin> set (sr_denied (replica_stage self))) members) (sr_members (replica_stage self)),
      sr_historical_members := bs_extend members (sr_historical_members (replica_stage self))\<rparr>)) (\<lambda>_. mem_ok root host_id log) (mem_ok root host_id log)"
    using mem_ok_sets [of root host_id log self]
    by (intro apply_staged_at advanced_members) (auto simp: staged_content_def replica_stage_fields)
qed auto

lemma msound_learn_history: "msound root host_id log (learn_history c documents)"
  unfolding learn_history_def
  by (rule keeps_bind_get, rule keeps_if(1), rule keeps_at, simp, simp, rule keeps_at(2))
    (auto intro: apply_staged_at advanced_documents mem_ok_stage)

lemma msound_reconcile:
  assumes "bs_ok members" and "bs_ok denied"
  shows "msound root host_id log (reconcile_members c members denied)"
  unfolding reconcile_members_def Let_def
proof (rule keeps_bind_get, rule keeps_at(2), rule keeps_at(4), rule keeps_at(2), rule keeps_if(1),
    (rule keeps_at(1); assumption), rule keeps_at(2))
  fix self x me y
  assume self: "mem_ok root host_id log self" "guard_ok (mr_host_id self \<in> set members) AuthenticationFailed = Inr x"
    "guard_ok (\<not> (me \<notin> set members \<or> list_ex (\<lambda>peer. peer \<in> set denied) members \<or> mr_host_id self \<in> set denied)) AuthenticationFailed = Inr y"
  then show "keeps (\<lambda>h. h = self) (apply_staged c (replica_stage self\<lparr>sr_members := members,
      sr_historical_members := bs_extend members (sr_historical_members (replica_stage self)), sr_denied := denied\<rparr>))
      (\<lambda>_. mem_ok root host_id log) (mem_ok root host_id log)"
    using mem_ok_sets [OF self(1)] assms
    by (intro apply_staged_at advanced_members) (auto simp: staged_content_def replica_stage_fields list_ex_iff)
qed auto

section \<open>Mailboxes\<close>

lemma stage_opened_Inr:
  assumes "staged_wf root host_id (fs_staged acc)" and "stage_opened c host_id installing opened acc s = (Inr acc', s')"
  shows "advanced root host_id (fs_staged acc) (fs_staged acc')"
proof (cases opened)
  case (OControl rcd)
  then obtain accepted staged applied s1 where "stage_control_mode c host_id accepted rcd (fs_staged acc) s = (Inr (staged, applied), s1)"
    and "fs_staged acc' = staged"
    using assms(2) by (auto simp: stage_opened_def Let_def k_bind_Inr' k_simps split: if_splits)
  then show ?thesis using advanced_control [OF assms(1)] by auto
next
  case (OChunk file_id index plaintext)
  then show ?thesis using assms by (auto simp: stage_opened_def k_simps advanced_refl)
qed

lemma note_counter_staged: "note_counter seq frame acc = Inr acc' \<Longrightarrow> fs_staged acc' = fs_staged acc"
  by (auto simp: note_counter_def Let_def split: if_splits)

lemma prepare_envelope_core:
  assumes "staged_wf root host_id (fs_staged acc)" and "fst (snd k) = host_id"
  shows "keeps (at_core k) (prepare_envelope c session installing envelope acc)
    (\<lambda>acc' h. core h = k \<and> advanced root host_id (fs_staged acc) (fs_staged acc')) (at_core k)"
proof -
  have staged: "keeps (at_core k) (h_key (stage_opened c host_id installing opened acc'))
      (\<lambda>acc' h. core h = k \<and> advanced root host_id (fs_staged acc) (fs_staged acc')) (at_core k)"
    if "fs_staged acc' = fs_staged acc" for opened acc'
    by (rule keepsI) (use that assms(1) stage_opened_Inr [of root host_id acc'] in \<open>auto simp: h_key_Inr h_key_def split: prod.splits\<close>)
  have rest: "keeps (at_core k) (h_bind (h_modify (cache_receipt envelope opened)) (\<lambda>_. h_key (stage_opened c host_id installing opened acc')))
      (\<lambda>acc' h. core h = k \<and> advanced root host_id (fs_staged acc) (fs_staged acc')) (at_core k)"
    if "fs_staged acc' = fs_staged acc" for opened acc'
    by (rule keeps_bind [where R = "\<lambda>_. at_core k", OF keeps_modify staged [OF that]]) simp
  show ?thesis
    unfolding prepare_envelope_def Let_def
  proof (rule keeps_bind_get, rule keeps_at(4), rule keeps_at(2), rule keeps_at(2), rule keeps_from [where P = "at_core k"], rule keeps_bind)
    fix self frame acc' opened
    assume "core self = k" "note_counter (me_seq envelope) frame acc = Inr acc'"
    then show "keeps (at_core k) (h_bind (h_modify (cache_receipt envelope opened)) (\<lambda>_. h_key (stage_opened c (mr_host_id self) installing opened acc')))
      (\<lambda>acc' h. core h = k \<and> advanced root host_id (fs_staged acc) (fs_staged acc')) (at_core k)"
      using rest note_counter_staged assms(2) by (auto simp: core_def)
    show "keeps (at_core k) (case cached_receipt self envelope of Some opened \<Rightarrow> h_ret (Inr opened)
        | None \<Rightarrow> h_key (open_envelope c session (envelope_header envelope) (fs_staged acc') frame)) (\<lambda>_. at_core k) (at_core k)"
      by (rule keeps_case(3)) (auto intro: keeps_key keeps_ret)
  qed auto
qed

lemma prepare_envelopes_core:
  assumes "staged_wf root host_id (fs_staged acc)" and "fst (snd k) = host_id"
  shows "keeps (at_core k) (prepare_envelopes c session installing envelopes acc)
    (\<lambda>acc' h. core h = k \<and> advanced root host_id (fs_staged acc) (fs_staged acc')) (at_core k)"
  using assms(1)
proof (induction envelopes arbitrary: acc)
  case Nil
  then show ?case by (auto intro: keeps_ret advanced_refl)
next
  case (Cons envelope envelopes)
  show ?case
    unfolding prepare_envelopes.simps
  proof (rule keeps_bind [OF prepare_envelope_core [OF Cons.prems assms(2)]])
    fix acc'
    show "keeps (\<lambda>h. core h = k \<and> advanced root host_id (fs_staged acc) (fs_staged acc')) (prepare_envelopes c session installing envelopes acc')
      (\<lambda>acc' h. core h = k \<and> advanced root host_id (fs_staged acc) (fs_staged acc')) (at_core k)"
    proof (rule keeps_pure)
      assume a: "advanced root host_id (fs_staged acc) (fs_staged acc')"
      show "keeps (at_core k) (prepare_envelopes c session installing envelopes acc')
        (\<lambda>acc' h. core h = k \<and> advanced root host_id (fs_staged acc) (fs_staged acc')) (at_core k)"
        by (rule keeps_weaken [OF Cons.IH]) (use a in \<open>auto simp: advanced_def\<close>)
    qed
  qed
qed

lemma put_bodies_core:
  assumes "staged_wf root host_id staged"
  shows "keeps (at_core k) (put_bodies c bodies staged written)
    (\<lambda>x h. core h = k \<and> advanced root host_id staged (fst x)) (at_core k)"
  using assms
proof (induction c bodies staged written rule: put_bodies.induct)
  case (2 c file_id index plaintext bodies staged written)
  show ?case
    unfolding put_bodies.simps Let_def
  proof (intro keeps_if(1))
    show "keeps (at_core k) (h_bind (on_clone upd_replica_chunks (chunk_put (cr_sha256 c) (sr_chunks staged) file_id index plaintext))
        (\<lambda>(chunks, _). put_bodies c bodies (staged\<lparr>sr_chunks := chunks\<rparr>) (written + 1)))
      (\<lambda>x h. core h = k \<and> advanced root host_id staged (fst x)) (at_core k)"
      if "\<not> (case bm_get (sr_manifests staged) file_id of None \<Rightarrow> None | Some m \<Rightarrow> listed_chunk (tm_manifest m) index) \<noteq>
          Some (chunk_id (cr_sha256 c) file_id index plaintext)" "\<not> \<not> is_linked_file (sr_tree staged) file_id"
        "\<not> chunk_has (sr_chunks staged) (chunk_id (cr_sha256 c) file_id index plaintext)"
    proof (rule keeps_start, rule keeps_bind_on_clone)
      fix h chunks x s s' assume "core h = k"
      moreover have "keeps (at_core k) (put_bodies c bodies (staged\<lparr>sr_chunks := chunks\<rparr>) (written + 1))
          (\<lambda>x h. core h = k \<and> advanced root host_id (staged\<lparr>sr_chunks := chunks\<rparr>) (fst x)) (at_core k)"
        using "2.prems" by (intro "2.IH"(3) [OF refl that]) simp
      ultimately show "keeps (\<lambda>h'. h' = upd_replica_chunks (share_durable chunks) h)
          (case (chunks, x) of (chunks, _) \<Rightarrow> put_bodies c bodies (staged\<lparr>sr_chunks := chunks\<rparr>) (written + 1))
          (\<lambda>x h. core h = k \<and> advanced root host_id staged (fst x)) (at_core k)"
        by (auto simp: advanced_def elim: keeps_weaken)
    qed auto
  qed (use 2 in auto)
qed (auto intro!: keeps_ret advanced_refl)

text \<open>A prepared flush continues the log from which it was prepared.\<close>

definition flush_ok :: "FileId \<Rightarrow> PeerId \<Rightarrow> PreparedReplicaFlush \<Rightarrow> bool" where
  "flush_ok root host_id flush \<longleftrightarrow> staged_wf root host_id (prf_staged flush) \<and>
     (\<exists>rs. sr_log (prf_staged flush) = map snd (prf_base_controls flush) @ rs)"

lemma mem_ok_unapplied: "mem_ok root host_id log self \<Longrightarrow> mr_last_applied self = 0 \<Longrightarrow> mr_log self = []"
  by (cases "mr_log self") (auto simp: mem_ok_def member_wf_def staged_wf_def log_wf_def replica_stage_fields)

lemma stage_bootstrap_Inr:
  assumes ok: "mem_ok root host_id log self" and run: "stage_bootstrap self through = Inr (staged, installing)"
  shows "advanced root host_id (replica_stage self) staged"
proof (cases "staged = replica_stage self")
  case True
  with mem_ok_stage [OF ok] show ?thesis by (simp add: advanced_refl)
next
  case False
  then have z: "mr_last_applied self = 0" and
    staged: "staged = (replica_stage self)\<lparr>sr_tree := tree_new (mr_expected_root self), sr_manifests := [], sr_controls := [], sr_log := []\<rparr>"
    using run by (auto simp: stage_bootstrap_def Let_def split: option.splits if_splits)
  with mem_ok_unapplied [OF ok z] mem_ok_sets [OF ok] show ?thesis
    by (simp add: advanced_def staged_wf_def replica_stage_fields log_wf_def staged_content_def plain_def)
qed

lemma prepared_flush_ok:
  assumes "mem_ok root host_id log self" and "advanced root host_id (replica_stage self) staged" and "prf_staged flush = staged"
    and "prf_base_controls flush = mr_controls self"
  shows "flush_ok root host_id flush"
  using assms mem_ok_sets(5) [OF assms(1)] by (auto simp: flush_ok_def advanced_def replica_stage_fields o_def)

lemma finish_flush_ok:
  assumes ok: "mem_ok root host_id log self" and adv: "advanced root host_id (replica_stage self) (fs_staged acc)"
  shows "keeps (at_core (core self)) (finish_flush c self installing acc)
    (\<lambda>flush h. core h = core self \<and> flush_ok root host_id flush) (at_core (core self))"
  unfolding finish_flush_def
proof (rule keeps_bind [OF put_bodies_core], rule adv [unfolded advanced_def, THEN conjunct1], rule keeps_pure, rule keeps_case(1))
  fix x staged and written :: nat assume "x = (staged, written)" "advanced root host_id (fs_staged acc) (fst x)"
  then have adv2: "advanced root host_id (replica_stage self) staged" using adv by (auto dest: advanced_trans)
  have "flush_ok root host_id \<lparr>prf_peer_id = me, prf_host_id = mr_host_id self, prf_base_controls = mr_controls self, prf_staged = staged', prf_report = r\<rparr>"
    if "staged' = staged \<or> (\<exists>through. staged' = staged\<lparr>sr_bootstrap_through := through\<rparr>)" for staged' me r
    by (rule prepared_flush_ok [OF ok, of staged']) (use that adv2 in \<open>auto simp: advanced_def staged_wf_def staged_content_def\<close>)
  then show "keeps (at_core (core self)) (h_bind (h_ret (case installing of
       None \<Rightarrow> Inr staged
     | Some through \<Rightarrow> and_then (guard_ok (fs_saw_bootstrap_end acc) AuthenticationFailed) (\<lambda>_.
         Inr (staged\<lparr>sr_bootstrap_through := through\<rparr>)))) (\<lambda>staged.
     h_bind (h_key store_peer_id) (\<lambda>me.
     h_ret (Inr \<lparr>prf_peer_id = me, prf_host_id = mr_host_id self, prf_base_controls = mr_controls self, prf_staged = staged,
       prf_report = \<lparr>fr_controls = fs_controls acc, fr_chunks_written = written\<rparr>\<rparr>))))
    (\<lambda>flush h. core h = core self \<and> flush_ok root host_id flush) (at_core (core self))"
    by (intro keeps_bind_ret keeps_bind_key keeps_ret) (auto split: option.splits)
qed

lemma prepare_mailbox_ok:
  assumes ok: "mem_ok root host_id log self"
  shows "keeps (\<lambda>h. h = self) (prepare_mailbox_for_session c envelopes history through session)
    (\<lambda>flush h. core h = core self \<and> flush_ok root host_id flush) (at_core (core self))"
  unfolding prepare_mailbox_for_session_def
proof (rule keeps_bind_get, rule keeps_at(2), rule keeps_bind_modify_at, rule keeps_at(2), rule keeps_case(1), rule keeps_at(2),
    rule keeps_from [where P = "at_core (core self)"], rule keeps_bind)
  fix h x y staged installing staged1 acc
  assume h: "h = self" and "stage_bootstrap h through = Inr y" "y = (staged, installing)" "fold_ok (stage_document c) history staged = Inr staged1"
  then have adv: "advanced root host_id (replica_stage self) staged1"
    using stage_bootstrap_Inr [OF ok] advanced_documents advanced_trans by (metis advanced_def)
  then have wf: "staged_wf root host_id staged1" by (simp add: advanced_def)
  have host: "fst (snd (core self)) = host_id" using ok by (simp add: mem_ok_def core_def)
  show "keeps (at_core (core self)) (prepare_envelopes c session installing envelopes \<lparr>fs_staged = staged1, fs_controls = 0, fs_last_packet = None,
      fs_last_chunk = None, fs_bodies = [], fs_saw_bootstrap_end = (installing = Some 0)\<rparr>)
    (\<lambda>acc h. core h = core self \<and> advanced root host_id staged1 (fs_staged acc)) (at_core (core self))"
    by (rule keeps_weaken [OF prepare_envelopes_core [OF _ host]]) (simp_all add: wf)
  show "keeps (\<lambda>h. core h = core self \<and> advanced root host_id staged1 (fs_staged acc)) (finish_flush c h installing acc)
    (\<lambda>flush h. core h = core self \<and> flush_ok root host_id flush) (at_core (core self))"
    unfolding h by (rule keeps_pure, rule finish_flush_ok [OF ok advanced_trans [OF adv]])
qed auto

lemma msound_commit_prepared:
  assumes "flush_ok root host_id flush"
  shows "msound root host_id log (commit_prepared c flush)"
  unfolding commit_prepared_def
proof (rule keeps_bind_get, rule keeps_at(4), rule keeps_at(2), rule keeps_bind)
  fix self me s s' x
  assume self: "mem_ok root host_id log self"
    "guard_ok (\<not> (prf_peer_id flush \<noteq> me \<or> prf_host_id flush \<noteq> mr_host_id self \<or> prf_base_controls flush \<noteq> mr_controls self))
      (State ''replica changed before prepared flush commit'') = Inr x"
  then have "advanced root host_id (replica_stage self) (prf_staged flush)"
    using assms mem_ok_sets(5) [OF self(1)] by (auto simp: flush_ok_def advanced_def replica_stage_fields o_def)
  then show "keeps (\<lambda>h. h = self) (apply_staged c (prf_staged flush)) (\<lambda>_. mem_ok root host_id log) (mem_ok root host_id log)"
    by (rule apply_staged_at [OF self(1)])
qed (auto intro: keeps_ret)

lemma msound_finish_receipts: "msound root host_id log finish_receipts"
  unfolding finish_receipts_def by (rule msound_modify) simp

lemma msound_evict: "msound root host_id log (member_evict_file c file_id)"
  unfolding member_evict_file_def Let_def
proof (rule keeps_bind_get, rule keeps_at(4), rule keeps_at(2), rule keeps_at(4), rule keeps_at(4), rule keeps_at(2), rule keeps_at(2), rule keeps_at(2),
    rule keeps_bind_on_clone, rule keeps_case(1), rule keeps_bind_modify_at, rule keeps_at(1))
  fix self clone chunks assume self: "mem_ok root host_id log self"
  have c: "core ((upd_replica_chunks (share_durable clone) self)\<lparr>mr_chunks := chunks\<rparr>) = core self"
    "core (upd_replica_chunks (share_durable clone) self) = core self" by simp_all
  show "mem_ok root host_id log ((upd_replica_chunks (share_durable clone) self)\<lparr>mr_chunks := chunks\<rparr>)"
    and "mem_ok root host_id log ((upd_replica_chunks (share_durable clone) self)\<lparr>mr_chunks := chunks\<rparr>)"
    and "mem_ok root host_id log (upd_replica_chunks (share_durable clone) self)"
    using self c [THEN mem_ok_core] by blast+
qed auto

end
