(* ===== verification/Member_Run.thy ===== *)
theory Member_Run
  imports Member_Inv
begin

text \<open>
  A member's replica as a state machine: its operations as steps, with mailbox flushes that are prepared and
  committed at different times, the states it reaches, what its snapshots restore to, and how its content
  relates to the host's.
\<close>

section \<open>Steps\<close>

text \<open>
  The second component holds the flushes that have been prepared and not yet committed. Between its
  operations the keystore and the directory may change in any way.
\<close>

inductive member_step :: "crypto \<Rightarrow> (MemberReplica \<times> world) \<times> PreparedReplicaFlush list \<Rightarrow>
    (MemberReplica \<times> world) \<times> PreparedReplicaFlush list \<Rightarrow> bool" for c where
  authenticated: "apply_authenticated_control c rcd s = (Ret r1, s') \<Longrightarrow> member_step c (s, fs) (s', fs)"
| live: "apply_control c packet s = (Ret r2, s') \<Longrightarrow> member_step c (s, fs) (s', fs)"
| add_members: "bs_ok members \<Longrightarrow> add_members c members s = (Ret r3, s') \<Longrightarrow> member_step c (s, fs) (s', fs)"
| learn_history: "learn_history c documents s = (Ret r4, s') \<Longrightarrow> member_step c (s, fs) (s', fs)"
| reconcile: "bs_ok members \<Longrightarrow> bs_ok denied \<Longrightarrow> reconcile_members c members denied s = (Ret r5, s') \<Longrightarrow> member_step c (s, fs) (s', fs)"
| evict: "member_evict_file c file_id s = (Ret r6, s') \<Longrightarrow> member_step c (s, fs) (s', fs)"
| finish: "finish_receipts s = (Ret r7, s') \<Longrightarrow> member_step c (s, fs) (s', fs)"
| prepare: "prepare_mailbox_for_session c envelopes history through session s = (Ret (Inr flush), s') \<Longrightarrow> member_step c (s, fs) (s', flush # fs)"
| prepare_fails: "prepare_mailbox_for_session c envelopes history through session s = (Ret (Inl e), s') \<Longrightarrow> member_step c (s, fs) (s', fs)"
| commit: "flush \<in> set fs \<Longrightarrow> commit_prepared c flush s = (Ret r8, s') \<Longrightarrow> member_step c (s, fs) (s', remove1 flush fs)"
| elsewhere: "member_step c ((self, w), fs) ((self, w'), fs)"

definition members_ok :: "FileId \<Rightarrow> PeerId \<Rightarrow> ControlRecord list \<Rightarrow> (MemberReplica \<times> world) \<times> PreparedReplicaFlush list \<Rightarrow> bool" where
  "members_ok root host_id log s \<longleftrightarrow> mem_ok root host_id log (fst (fst s)) \<and> (\<forall>flush \<in> set (snd s). flush_ok root host_id flush)"

lemma msound_run:
  assumes "msound root host_id log p" and "p s = (Ret r, s')" and "mem_ok root host_id log (fst s)"
  shows "mem_ok root host_id log (fst s')"
proof (cases r)
  case (Inl e)
  with keeps_Inl [OF assms(1,3), of "snd s" e "fst s'" "snd s'"] assms(2) show ?thesis by simp
next
  case (Inr x)
  with keeps_Inr [OF assms(1,3), of "snd s" x "fst s'" "snd s'"] assms(2) show ?thesis by simp
qed

lemmas msound_operations = msound_authenticated msound_apply_control msound_learn_history msound_evict msound_finish_receipts

lemma prepare_run:
  assumes "prepare_mailbox_for_session c envelopes history through session s = (Ret r, s')" and "mem_ok root host_id log (fst s)"
  shows "mem_ok root host_id log (fst s')" and "\<And>flush. r = Inr flush \<Longrightarrow> flush_ok root host_id flush"
proof -
  note k = prepare_mailbox_ok [OF assms(2), of c envelopes history through session]
  have "core (fst s') = core (fst s) \<and> (\<forall>flush. r = Inr flush \<longrightarrow> flush_ok root host_id flush)"
  proof (cases r)
    case (Inl e)
    with keeps_Inl [OF k refl, of "snd s" e "fst s'" "snd s'"] assms(1) show ?thesis by simp
  next
    case (Inr x)
    with keeps_Inr [OF k refl, of "snd s" x "fst s'" "snd s'"] assms(1) show ?thesis by simp
  qed
  then show "mem_ok root host_id log (fst s')" "\<And>flush. r = Inr flush \<Longrightarrow> flush_ok root host_id flush"
    using mem_ok_core [of "fst s'" "fst s"] assms(2) by blast+
qed

lemma members_ok_step:
  assumes "member_step c s s'" and "members_ok root host_id log s"
  shows "members_ok root host_id log s'"
  using assms
proof (induction rule: member_step.induct)
  case (commit flush fs s r8 s')
  then have "msound root host_id log (commit_prepared c flush)" by (intro msound_commit_prepared) (auto simp: members_ok_def)
  with commit msound_run show ?case by (fastforce simp: members_ok_def dest: notin_set_remove1)
next
  case (add_members members s r3 s' fs)
  then show ?case using msound_run [OF msound_add_members] by (auto simp: members_ok_def)
next
  case (reconcile members denied s r5 s' fs)
  then show ?case using msound_run [OF msound_reconcile] by (auto simp: members_ok_def)
qed (auto simp: members_ok_def intro: msound_operations [THEN msound_run] prepare_run)

lemma members_ok_steps: "(member_step c)\<^sup>*\<^sup>* s s' \<Longrightarrow> members_ok root host_id log s \<Longrightarrow> members_ok root host_id log s'"
  by (induction rule: rtranclp_induct) (auto dest: members_ok_step)

section \<open>Snapshots and reachable states\<close>

text \<open>What a member needs of the metadata it opens: the directory entries and manifests are those its log gives.\<close>

definition member_snapshot_wf :: "PeerId \<Rightarrow> FileId \<Rightarrow> ReplicaMetadata \<Rightarrow> bool" where
  "member_snapshot_wf me root m \<longleftrightarrow> bs_ok (rm_members m) \<and> bs_ok (rm_denied m) \<and> set (rm_members m) \<inter> set (rm_denied m) = {} \<and>
     log_wf (rm_log m) \<and> (\<forall>record \<in> set (rm_log m). cr_id record \<le> bm_or_default 0 (rm_acked_through m) me) \<and>
     (\<exists>tree. from_dirents root (rm_dirents m) = Inr tree \<and> replay root (rm_log m) = Inr (tree, rm_manifests m))"

lemma verify_stored_plain: "verify_stored c m manifests s = (Inr ts, s') \<Longrightarrow> plain ts = manifests"
  by (induction manifests arbitrary: ts s s')
    (auto simp: plain_def k_bind_Inr' k_simps dest!: verified_manifest(1))

lemma restored_replica_wf:
  assumes m: "member_snapshot_wf me root m" and host: "host_id \<in> set (rm_members m)" and tree: "from_dirents root (rm_dirents m) = Inr tree"
    and ms: "verified_manifests c m s = (Inr manifests, s')"
  shows "mem_ok root host_id [] (restored_replica root host_id me m chunks manifests tree)"
proof -
  have "plain manifests = rm_manifests m"
    using ms by (auto simp: verified_manifests_def k_bind_Inr' k_simps dest: verify_stored_plain)
  moreover have "fold (\<lambda>r. bm_insert (cr_id r) r) (rm_log m) [] = map (\<lambda>r. (cr_id r, r)) (rm_log m)"
    using m bm_fold_insert [of cr_id "rm_log m" "\<lambda>r. r"] by (simp add: member_snapshot_wf_def log_wf_def)
  ultimately show ?thesis
    using m host tree by (auto simp: mem_ok_def member_wf_def staged_wf_def staged_content_def restored_replica_def replica_stage_def member_snapshot_wf_def)
qed

lemma snapshot_fresh: "bs_ok members \<Longrightarrow> member_snapshot_wf me root ((replica_new root)\<lparr>rm_members := members\<rparr>)"
  using from_dirents_listing [of root "[]"]
  by (auto simp: member_snapshot_wf_def replica_new_def log_wf_def from_dirents_def)

text \<open>Every snapshot that a well-formed replica writes can be opened again.\<close>

lemma metadata_for_wf:
  assumes ok: "mem_ok root host_id log self" and adv: "advanced root host_id (replica_stage self) staged"
    and run: "metadata_for self staged s = (Inr m, s')" and me: "store_peer_id s = (Inr me, s1)"
  shows "member_snapshot_wf me root m"
proof -
  have st: "staged_wf root host_id staged" using adv by (simp add: advanced_def)
  then have "content_ok root (staged_content staged)" by (intro replay_ok [of root "sr_log staged"]) (simp add: staged_wf_def)
  then have tree: "from_dirents root (dirents (sr_tree staged)) = Inr (sr_tree staged)"
    using tree_okD(3) [of "sr_tree staged"] by (auto simp: content_ok_def staged_content_def from_dirents_iff)
  have "\<forall>r \<in> set (sr_log staged). cr_id r \<le> staged_last self staged"
    using st log_wf_last by (fastforce simp: staged_wf_def staged_last_def le_max_iff_disj)
  moreover have "rm_members m = sr_members staged" "rm_denied m = sr_denied staged" "rm_dirents m = dirents (sr_tree staged)"
    "rm_manifests m = plain (sr_manifests staged)" "rm_log m = sr_log staged" "rm_acked_through m = [(me, staged_last self staged)]"
    using run me by (auto simp: metadata_for_def k_bind_Inr' k_simps plain_def store_peer_id_def store_lock_def k_inner_def split: if_splits)
  ultimately show ?thesis
    using st tree unfolding member_snapshot_wf_def by (auto simp: staged_wf_def staged_content_def bm_or_default_def)
qed

inductive member_reach :: "crypto \<Rightarrow> (MemberReplica \<times> world) \<times> PreparedReplicaFlush list \<Rightarrow> bool" for c where
  created: "member_new_in_vault host_id members root (chunks, w) = (Ret (Inr self), chunks', w') \<Longrightarrow> bs_ok members \<Longrightarrow>
    member_reach c ((self, w'), [])"
| opened: "member_open_durable c data_dir_lock root host_id initial_members ((), w) = (Ret (Inr self), u, w') \<Longrightarrow>
    h_io (open_store (cr_sha256 c) data_dir_lock root) ((), w) = (Ret (Inr (stored, chunks)), s1) \<Longrightarrow>
    h_key store_peer_id s1 = (Ret (Inr me), s2) \<Longrightarrow>
    (case stored of None \<Rightarrow> bs_ok initial_members | Some m \<Rightarrow> member_snapshot_wf me root m) \<Longrightarrow> member_reach c ((self, w'), [])"
| stepped: "member_reach c s \<Longrightarrow> member_step c s s' \<Longrightarrow> member_reach c s'"

lemma member_created_ok:
  assumes "member_new_in_vault host_id members root s = (Ret (Inr self), s')" and "bs_ok members"
  shows "mem_ok root host_id [] self"
proof -
  have "host_id \<in> set members" "core self = core (member_replica host_id root members memory_new)"
    using assms(1) by (auto simp: member_new_in_vault_def member_new_def Let_def h_bind_Inr h_simps core_def member_replica_def)
  moreover have "mem_ok root host_id [] (member_replica host_id root members memory_new)"
    using assms(2) \<open>host_id \<in> set members\<close>
    by (simp add: mem_ok_def member_wf_def staged_wf_def replica_stage_def member_replica_def staged_content_def plain_def log_wf_def)
  ultimately show ?thesis using mem_ok_core by blast
qed

lemma member_opened_ok:
  assumes run: "member_open_durable c data_dir_lock root host_id initial_members s = (Ret (Inr self), s')"
    and store: "h_io (open_store (cr_sha256 c) data_dir_lock root) s = (Ret (Inr (stored, chunks)), s1)"
    and me: "h_key store_peer_id s1 = (Ret (Inr me), s2)"
    and stored: "case stored of None \<Rightarrow> bs_ok initial_members | Some m \<Rightarrow> member_snapshot_wf me root m"
  shows "mem_ok root host_id [] self"
proof -
  let ?m = "case stored of Some metadata \<Rightarrow> metadata | None \<Rightarrow> (replica_new root)\<lparr>rm_members := initial_members\<rparr>"
  have m: "member_snapshot_wf me root ?m" using stored snapshot_fresh by (auto split: option.splits)
  have "keeps (\<lambda>_. True) (h_bind (h_guard (\<not> (host_id \<notin> set (rm_members ?m) \<or> me \<notin> set (rm_members ?m))) AuthenticationFailed) (\<lambda>_.
     h_bind (h_guard (rm_mailboxes ?m = []) (InvalidInput ''host replica cannot be opened as a member'')) (\<lambda>_.
     h_bind (h_key (verified_manifests c ?m)) (\<lambda>manifests.
     h_bind (h_ret (from_dirents root (rm_dirents ?m))) (\<lambda>tree.
     let replica = restored_replica root host_id me ?m chunks manifests tree in
     h_bind (h_local replica (if stored = None then apply_staged c (replica_stage replica) else h_ret (Inr ()))) (\<lambda>(r, replica).
     h_bind (h_ret r) (\<lambda>_.
     h_ret (Inr replica))))))))
    (\<lambda>self _. mem_ok root host_id [] self) (\<lambda>_. True)"
    unfolding Let_def
  proof (intro keeps_bind_key keeps_bind_ret keeps_bind_local keeps_case(1))
    fix x y manifests t t' tree r replica w w' r' replica'
    assume "guard_ok (\<not> (host_id \<notin> set (rm_members ?m) \<or> me \<notin> set (rm_members ?m))) AuthenticationFailed = Inr x"
      and ms: "verified_manifests c ?m t = (Inr manifests, t')" and tree: "from_dirents root (rm_dirents ?m) = Inr tree"
      and run: "(if stored = None then apply_staged c (replica_stage (restored_replica root host_id me ?m chunks manifests tree)) else h_ret (Inr ()))
        (restored_replica root host_id me ?m chunks manifests tree, w) = (Ret r, replica, w')"
      and eq: "(r, replica) = (r', replica')"
    then have ok: "mem_ok root host_id [] (restored_replica root host_id me ?m chunks manifests tree)"
      by (intro restored_replica_wf [OF m _ tree ms]) simp
    then have "keeps (\<lambda>h. h = restored_replica root host_id me ?m chunks manifests tree)
        (if stored = None then apply_staged c (replica_stage (restored_replica root host_id me ?m chunks manifests tree)) else h_ret (Inr ()))
        (\<lambda>_. mem_ok root host_id []) (mem_ok root host_id [])"
      by (intro keeps_if(1) apply_staged_at advanced_refl mem_ok_stage keeps_at) auto
    then have "mem_ok root host_id [] replica'"
      using run eq by (cases r) (auto dest: keeps_Inr keeps_Inl)
    then show "keeps (\<lambda>_. True) (h_ret (Inr replica')) (\<lambda>self _. mem_ok root host_id [] self) (\<lambda>_. True)"
      by (auto intro: keeps_ret)
  qed auto
  then show ?thesis
    using run unfolding member_open_durable_def h_bind_after [where p = "h_io q" for q, OF store] prod.case
      h_bind_after [where p = "h_key q" for q, OF me] Let_def
    using keeps_Inr [where h = "fst s2" and w = "snd s2" and h' = "fst s'" and w' = "snd s'"] by fastforce
qed

theorem member_reach_ok: "member_reach c s \<Longrightarrow> \<exists>root host_id. members_ok root host_id [] s"
proof (induction rule: member_reach.induct)
  case (created host_id members root chunks w self chunks' w')
  have "mem_ok root host_id [] self" using created by (rule member_created_ok)
  then show ?case by (auto simp: members_ok_def)
next
  case (opened data_dir_lock root host_id initial_members w self u w' stored chunks s1 me s2)
  have "mem_ok root host_id [] self" using opened by (rule member_opened_ok)
  then show ?case by (auto simp: members_ok_def)
next
  case (stepped s s')
  then show ?case using members_ok_step by blast
qed

end
