(* ===== verification/Converge.thy ===== *)
theory Converge
  imports Member_Run
begin

text \<open>
  Host and members hold the same vault: a member that has installed the bootstrap made at some state of the
  host and applied the instructions committed since has the host's directory tree and manifests.
\<close>

section \<open>Bootstrap instructions rebuild the content\<close>

definition contents_after :: "ControlUpdate list \<Rightarrow> content \<Rightarrow> content result" where
  "contents_after updates content = fold_ok content_step updates content"

lemma contents_after_simps [simp]:
  "contents_after [] k = Inr k"
  "contents_after (u # us) k = and_then (content_step u k) (contents_after us)"
  "contents_after (us @ vs) k = and_then (contents_after us k) (contents_after vs)"
  by (simp_all add: contents_after_def fold_ok_append fun_eq_iff [of "contents_after _"] split: and_then_split)

lemma link_pass_links:
  "link_pass es ds us = (deferred, ds', us') \<Longrightarrow> set deferred \<subseteq> set es \<and> (\<exists>vs. us' = us @ vs \<and> set vs \<subseteq> link_of ` set es)"
proof (induction es ds us arbitrary: deferred ds' us' rule: link_pass.induct)
  case (2 e es ds us)
  show ?case
  proof (cases "de_parent e \<in> set ds")
    case True
    then obtain vs where "set deferred \<subseteq> set es" "us' = (us @ [link_of e]) @ vs" "set vs \<subseteq> link_of ` set es"
      using "2.IH"(2) "2.prems" by auto
    then show ?thesis by auto
  next
    case False
    then obtain d where "link_pass es ds us = (d, ds', us')" "deferred = e # d" using "2.prems" by (auto split: prod.splits)
    with "2.IH"(1) False show ?thesis by fastforce
  qed
qed auto

lemma link_passes_links: "link_passes es ds us = Inr us' \<Longrightarrow> \<exists>vs. us' = us @ vs \<and> set vs \<subseteq> link_of ` set es"
proof (induction es ds us rule: link_passes.induct)
  case (1 es ds us)
  show ?case
  proof (cases "es = []")
    case True
    with "1.prems" show ?thesis by (simp add: link_passes.simps)
  next
    case False
    obtain deferred ds1 us1 where p: "link_pass es ds us = (deferred, ds1, us1)" by (metis prod_cases3)
    then have r: "length deferred \<noteq> length es" "link_passes deferred ds1 us1 = Inr us'"
      using "1.prems" False by (simp_all add: link_passes.simps [of es] split: if_splits)
    obtain vs where "us' = us1 @ vs" "set vs \<subseteq> link_of ` set deferred" using "1.IH" [OF False p [symmetric] refl r(1) r(2)] by blast
    with link_pass_links [OF p] show ?thesis by force
  qed
qed

lemma contents_after_manifests:
  assumes "\<forall>m \<in> set ms. \<not> is_dir tree (mf_file_id m)"
  shows "contents_after (map NewManifest ms) (tree, manifests) = Inr (tree, fold (\<lambda>m. bm_insert (mf_file_id m) m) ms manifests)"
  using assms by (induction ms arbitrary: manifests) (auto simp: content_step_def apply_tree_update_def Let_def)

lemma contents_after_links:
  assumes "\<forall>u \<in> set us. \<exists>p n child d. u = Link p n child d \<and> (d \<longrightarrow> child \<notin> fst ` set manifests)" and "tree_after us tree = Inr tree'"
  shows "contents_after us (tree, manifests) = Inr (tree', manifests)"
  using assms
proof (induction us arbitrary: tree)
  case (Cons u us)
  then obtain p n child d where u: "u = Link p n child d" "d \<longrightarrow> child \<notin> fst ` set manifests" by auto
  then obtain t where "tree_link tree p n child d = Inr t" "tree_after us t = Inr tree'"
    using Cons.prems(2) by (auto simp: apply_tree_update_def)
  with Cons u show ?case by (auto simp: content_step_def apply_tree_update_def Let_def split: bool.splits)
qed simp

lemma plain_values: "bm_values (plain ms) = map tm_manifest (bm_values ms)"
  by (simp add: plain_def o_def case_prod_beta)

lemma bootstrap_content:
  assumes ok: "content_ok root (tree, plain ms)"
  shows "\<exists>us. bootstrap_updates root ms tree through = Inr us \<and> contents_after us (tree_new root, []) = Inr (tree, plain ms)"
proof -
  let ?new = "map NewManifest (bm_values (plain ms))" and ?es = "filter (\<lambda>e. de_name e \<noteq> []) (dirents tree)"
  have tree: "tree_ok tree" "dt_expected_root tree = root" and keyed: "bm_ok (plain ms)" "bm_keyed mf_file_id (plain ms)"
    and dirs: "\<And>f. f \<in> fst ` set (plain ms) \<Longrightarrow> \<not> is_dir tree f"
    using ok unfolding content_ok_def prod.case by blast+
  obtain vs where vs: "link_passes ?es [root] ?new = Inr (?new @ vs)" "tree_after vs (tree_new root) = Inr tree"
    using bootstrap_links [OF tree(1), of ?new] tree(2) by blast
  have "mf_file_id m \<in> fst ` set (plain ms)" if "m \<in> set (bm_values (plain ms))" for m
    using that keyed(2) by (auto simp: bm_keyed_def)
  then have "\<not> is_dir tree (mf_file_id m)" if "m \<in> set (bm_values (plain ms))" for m using that dirs by blast
  then have "\<forall>m \<in> set (bm_values (plain ms)). mf_file_id m \<noteq> root" unfolding is_dir_iff tree(2) by blast
  then have "\<forall>m \<in> set (bm_values (plain ms)). \<not> is_dir (tree_new root) (mf_file_id m)" by (auto simp: is_dir_def tree_new_def dirents_def)
  moreover have eq: "map (\<lambda>m. (mf_file_id m, m)) (bm_values (plain ms)) = plain ms" using bm_keyed_eq [OF keyed(2)] by (rule sym)
  have "map mf_file_id (bm_values (plain ms)) = map fst (plain ms)" by (subst (2) eq [symmetric]) (simp add: o_def)
  then have "sorted_wrt (<) (map mf_file_id (bm_values (plain ms)))" using keyed(1) by (simp only: bm_ok_def)
  from bm_fold_insert [OF this, of "\<lambda>m. m"] have "fold (\<lambda>m. bm_insert (mf_file_id m) m) (bm_values (plain ms)) [] = plain ms"
    by (simp only: eq)
  ultimately have new: "contents_after ?new (tree_new root, []) = Inr (tree_new root, plain ms)"
    using contents_after_manifests [of "bm_values (plain ms)" "tree_new root" "[]"] by simp
  have "\<exists>p n child d. u = Link p n child d \<and> (d \<longrightarrow> child \<notin> fst ` set (plain ms))" if u: "u \<in> set vs" for u
  proof -
    obtain e where "e \<in> set (dirents tree)" "u = link_of e" using link_passes_links [OF vs(1)] u by auto
    with dirs show ?thesis by (fastforce simp: is_dir_iff)
  qed
  then have "contents_after (?new @ vs) (tree_new root, []) = Inr (tree, plain ms)"
    using new contents_after_links [OF _ vs(2)] by simp
  moreover have "contents_after [Add (FileId 0)] k = Inr k" for k
    by (cases k) (simp add: content_step_def apply_tree_update_def)
  moreover have "map (\<lambda>trusted. NewManifest (tm_manifest trusted)) (bm_values ms) = ?new" by (simp add: plain_values o_def)
  then have "bootstrap_updates root ms tree through = Inr (if ?new @ vs = [] \<and> through \<noteq> 0 then [Add (FileId 0)] else ?new @ vs)"
    using vs(1) by (simp only: bootstrap_updates_def and_then_simps)
  ultimately show ?thesis by (cases "?new @ vs = []") auto
qed

section \<open>The host's history and its members\<close>

text \<open>
  The updates that the host commits between two of its states. Operations that leave tree and manifests as
  they are may happen in between.
\<close>

inductive history :: "ControlUpdate list \<Rightarrow> HostState \<Rightarrow> HostState \<Rightarrow> bool" where
  start: "history [] st st"
| quiet: "history us st st1 \<Longrightarrow> host_content st2 = host_content st1 \<Longrightarrow> history us st st2"
| commit: "history us st st1 \<Longrightarrow> committed u st1 st2 \<Longrightarrow> history (us @ [u]) st st2"

lemma history_content: "history us st st' \<Longrightarrow> contents_after us (host_content st) = Inr (host_content st')"
  by (induction rule: history.induct) (auto simp: committed_def)

lemma contents_after_ok: "content_ok root k \<Longrightarrow> contents_after us k = Inr k' \<Longrightarrow> content_ok root k'"
  by (induction us arbitrary: k) (auto dest: content_ok_step)

definition member_content :: "MemberReplica \<Rightarrow> content" where
  "member_content self = (mr_tree self, plain (mr_manifests self))"

lemma fold_ok_map: "fold_ok f (map g xs) k = fold_ok (\<lambda>x. f (g x)) xs k"
  by (induction xs arbitrary: k) (auto split: and_then_split)

lemma replay_contents: "replay root log = contents_after (map cr_update log) (tree_new root, [])"
  by (simp add: replay_def contents_after_def fold_ok_map)

lemma member_content_replayed:
  "members_ok root host_id log s \<Longrightarrow> contents_after (map cr_update (mr_log (fst (fst s)))) (tree_new root, []) = Inr (member_content (fst (fst s)))"
  by (auto simp: members_ok_def mem_ok_def member_wf_def staged_wf_def replay_contents [symmetric] member_content_def staged_content_def
      replica_stage_fields)

lemma converged:
  assumes "host_content st0 = (tree_new root, [])" and "history us0 st0 st1"
    and "bootstrap_updates root (hs_manifests st1) (hs_tree st1) through = Inr boot" and "history us st1 st2"
    and "members_ok root host_id log s" and "map cr_update (mr_log (fst (fst s))) = boot @ us"
  shows "member_content (fst (fst s)) = host_content st2"
proof -
  have "content_ok root (tree_new root, [])" using replay_ok [of root "[]"] by simp
  then have "content_ok root (host_content st1)"
    using history_content [OF assms(2)] contents_after_ok by (simp add: assms(1))
  then have "contents_after boot (tree_new root, []) = Inr (host_content st1)"
    using bootstrap_content [of root "hs_tree st1" "hs_manifests st1" through] assms(3) by (auto simp: host_content_def)
  then show ?thesis
    using member_content_replayed [OF assms(5)] history_content [OF assms(4)] by (simp add: assms(6))
qed

end
