(* ===== verification/Member_Sample.thy ===== *)
theory Member_Sample
  imports Host_Sample Converge
begin

text \<open>
  A concrete member: the node of the sample store joins a vault whose host is the other node and applies
  the host's first instruction.
\<close>

abbreviation sample_root :: FileId where
  "sample_root \<equiv> FileId 1"

definition sample_record :: ControlRecord where
  "sample_record = \<lparr>cr_id = 1, cr_update = Link sample_root [97] (FileId 2) True\<rparr>"

definition sample_member :: "MemoryChunkStore \<Rightarrow> MemberReplica" where
  "sample_member chunks = (member_replica (id_peer_id high) sample_root sample_pair memory_new)\<lparr>mr_chunks := chunks\<rparr>"

lemma sample_member_created:
  "\<exists>chunks. member_new_in_vault (id_peer_id high) sample_pair sample_root (memory_new, sample_world) =
    (Ret (Inr (sample_member chunks)), chunks, sample_world) \<and> mc_durable chunks = None"
  by (simp add: member_new_in_vault_def member_new_def h_bind_def h_ret_def h_key_def h_modify_def h_get_def Let_def sample_world_def sample_key_ops
      metadata_for_def k_bind_def k_ret_def staged_last_def replica_stage_def member_replica_def checked_add_def memory_new_def sample_member_def)

lemma sample_member_reached: "\<exists>chunks. member_reach c ((sample_member chunks, sample_world), []) \<and> mc_durable chunks = None"
  using sample_member_created member_reach.created [OF _ sample_pair_ok(1)] by blast

definition sample_staged :: "MemoryChunkStore \<Rightarrow> StagedReplica" where
  "sample_staged chunks = (replica_stage (sample_member chunks))\<lparr>sr_tree := sample_tree, sr_controls := [(1, sample_record)], sr_log := [sample_record]\<rparr>"

lemma sample_stage_control:
  "stage_control c (id_peer_id high) sample_record (replica_stage (sample_member chunks)) s = (Inr (sample_staged chunks, True), s)"
  by (simp add: stage_control_def stage_control_mode_def replica_stage_def sample_member_def member_replica_def sample_record_def stage_update_def
      k_bind_def k_ret_def validate_link_kind_def apply_tree_update_def sample_link stage_member_removal_def sample_staged_def)

lemma sample_apply_staged:
  assumes "mc_durable chunks = None"
  shows "\<exists>self'. apply_staged sample_crypto (sample_staged chunks) (sample_member chunks, sample_world) = (Ret (Inr ()), self', sample_world) \<and>
    mr_log self' = [sample_record] \<and> mr_expected_root self' = sample_root"
proof -
  have m: "bs_extend sample_pair sample_pair = sample_pair" using sample_documents(3) by (auto simp: bs_extend_def)
  have w: "writers_of [sample_record] = []" by (simp add: writers_of_def List.map_filter_def sample_record_def)
  have a: "archive_documents sample_crypto sample_pair [] ([], sample_keys) = (Inr [(id_peer_id low, low), (id_peer_id high, high)], [], sample_keys)"
    using sample_archive [of sample_pair] by simp
  have i: "cr_id sample_record = 1" by (simp add: sample_record_def)
  show ?thesis
    using assms i
    by (simp add: apply_staged_def h_bind_def h_key_def h_get_def sample_world_def archive_replica_def Let_def k_bind_def k_ret_def
        sample_staged_def sample_member_def replica_stage_def member_replica_def m a require_writer_documents_def w metadata_for_def staged_last_def
        sample_key_ops on_clone_def h_io_def persist_metadata_def io_ret_def h_modify_def h_ret_def replica_install_def checked_add_def upd_replica_chunks_def
        del: archive_documents.simps)
qed

lemma sample_member_applies:
  assumes "mc_durable chunks = None"
  shows "\<exists>self'. apply_authenticated_control sample_crypto sample_record (sample_member chunks, sample_world) = (Ret (Inr ()), self', sample_world) \<and>
    mr_log self' = [sample_record] \<and> mr_expected_root self' = sample_root"
proof -
  have live: "require_live_traffic (id_peer_id high) ([], sample_keys) = (Inr (), [], sample_keys)"
    by (simp add: require_live_traffic_def store_lock_def k_bind_def k_inner_def k_ret_def sample_keys_def sample_inner_def initial_inner_def)
  have host: "mr_host_id (sample_member chunks) = id_peer_id high" by (simp add: sample_member_def member_replica_def)
  show ?thesis
    using sample_apply_staged [OF assms]
    by (simp add: apply_authenticated_control_def h_bind_def h_get_def h_key_def host live sample_stage_control sample_world_def)
qed

text \<open>The host of the other sample commits the same update as its first instruction.\<close>

lemma sample_history:
  "\<exists>st. history [cr_update sample_record] (sample_state [id_peer_id low]) st"
proof -
  let ?host = "sample_host [id_peer_id low]"
  obtain self' where run: "commit_verified_with_code sample_crypto sample_env (cr_update sample_record) None None (?host, sample_world) =
      (Ret (Inr ()), self', sample_world)"
    using sample_commit [of "[id_peer_id low]" "cr_update sample_record"] by (auto simp: sample_record_def)
  have "committed (cr_update sample_record) (h_state ?host) (h_state self')"
    by (rule keeps_Inr [OF commit_verified_committed refl run]) (simp_all add: sample_record_def)
  moreover have "host_content (h_state ?host) = host_content (sample_state [id_peer_id low])"
    by (simp add: host_content_def sample_state_def)
  ultimately have "history ([] @ [cr_update sample_record]) (sample_state [id_peer_id low]) (h_state self')"
    by (blast intro: history.intros)
  then show ?thesis by auto
qed

end
