(* ===== verification/Socket_Addr.thy ===== *)
theory Socket_Addr
  imports Messages
begin

text \<open>
  Numeric socket addresses, as \<open>backend/src/net/directory.rs\<close> advertises them: the data of
  \<open>std::net::SocketAddr\<close>, its \<open>to_string\<close> (the text an advertisement signs and carries) and its
  \<open>from_str\<close> (what a reader accepts). An IPv6 address is eight 16-bit segments; its longest run of at
  least two zero segments is written \<open>::\<close>, a mapped IPv4 address in dotted form, and a scope after
  a percent sign. The flow information of an IPv6 address is not part of the text.
\<close>

datatype SocketAddr =
    V4 (v4_ip: "32 word") (v4_port: "16 word")
  | V6 (v6_ip: "128 word") (v6_port: "16 word") (v6_flowinfo: "32 word") (v6_scope: "32 word")

section \<open>Numbers\<close>

definition digit_char :: "nat \<Rightarrow> byte" where
  "digit_char d = (if d < 10 then of_nat (48 + d) else of_nat (87 + d))"

text \<open>\<open>char::to_digit\<close>.\<close>

definition to_digit :: "nat \<Rightarrow> byte \<Rightarrow> nat option" where
  "to_digit radix b =
     (let n = unat b;
          d = (if 48 \<le> n \<and> n \<le> 57 then Some (n - 48)
               else if 97 \<le> n \<and> n \<le> 122 then Some (n - 87)
               else if 65 \<le> n \<and> n \<le> 90 then Some (n - 55) else None) in
      case d of None \<Rightarrow> None | Some v \<Rightarrow> if v < radix then Some v else None)"

fun digits_of :: "nat \<Rightarrow> nat \<Rightarrow> nat list" where
  "digits_of radix n =
     (if n < radix \<or> radix < 2 then [n] else digits_of radix (n div radix) @ [n mod radix])"

declare digits_of.simps [simp del]

definition number_text :: "nat \<Rightarrow> nat \<Rightarrow> bytes" where
  "number_text radix n = map digit_char (digits_of radix n)"

text \<open>
  \<open>read_number\<close>: the digits up to the first other character. With a limit on the digits the value is
  converted at the end, without one each step is checked.
\<close>

fun number_loop :: "nat \<Rightarrow> nat option \<Rightarrow> nat \<Rightarrow> nat \<Rightarrow> nat \<Rightarrow> bytes \<Rightarrow> (nat \<times> nat \<times> bytes) option" where
  "number_loop radix max_digits most value count [] = Some (value, count, [])"
| "number_loop radix max_digits most value count (b # s) =
     (case to_digit radix b of
        None \<Rightarrow> Some (value, count, b # s)
      | Some d \<Rightarrow>
          (let value = value * radix + d; count = count + 1 in
           if (case max_digits of Some m \<Rightarrow> count > m | None \<Rightarrow> value > most) then None
           else number_loop radix max_digits most value count s))"

definition read_number :: "nat \<Rightarrow> nat option \<Rightarrow> bool \<Rightarrow> nat \<Rightarrow> bytes \<Rightarrow> (nat \<times> bytes) option" where
  "read_number radix max_digits allow_zero_prefix most s =
     (case number_loop radix max_digits most 0 0 s of
        None \<Rightarrow> None
      | Some (value, count, rest) \<Rightarrow>
          if count = 0 then None
          else if \<not> allow_zero_prefix \<and> hd s = 48 \<and> count > 1 then None
          else if value > most then None
          else Some (value, rest))"

section \<open>Reading\<close>

definition read_char :: "byte \<Rightarrow> bytes \<Rightarrow> bytes option" where
  "read_char b s = (case s of [] \<Rightarrow> None | c # s \<Rightarrow> if c = b then Some s else None)"

text \<open>\<open>read_separator\<close>: the separator stands before every group but the first.\<close>

definition read_separator :: "byte \<Rightarrow> nat \<Rightarrow> (bytes \<Rightarrow> ('a \<times> bytes) option) \<Rightarrow> bytes \<Rightarrow> ('a \<times> bytes) option" where
  "read_separator sep i inner s =
     (if i > 0 then (case read_char sep s of None \<Rightarrow> None | Some s \<Rightarrow> inner s) else inner s)"

fun read_octets :: "nat \<Rightarrow> nat \<Rightarrow> bytes \<Rightarrow> (nat list \<times> bytes) option" where
  "read_octets i 0 s = Some ([], s)"
| "read_octets i (Suc n) s =
     (case read_separator 46 i (read_number 10 (Some 3) False 255) s of
        None \<Rightarrow> None
      | Some (v, s) \<Rightarrow>
          (case read_octets (Suc i) n s of None \<Rightarrow> None | Some (vs, s) \<Rightarrow> Some (v # vs, s)))"

definition read_ipv4_addr :: "bytes \<Rightarrow> (bytes \<times> bytes) option" where
  "read_ipv4_addr s = (case read_octets 0 4 s of None \<Rightarrow> None | Some (vs, s) \<Rightarrow> Some (map of_nat vs, s))"

text \<open>\<open>read_groups\<close>: the groups read, whether a dotted address ended them, and the rest.\<close>

fun read_groups :: "nat \<Rightarrow> nat \<Rightarrow> bytes \<Rightarrow> nat list \<times> bool \<times> bytes" where
  "read_groups i 0 s = ([], False, s)"
| "read_groups i (Suc n) s =
     (case (if n > 0 then read_separator 58 i read_ipv4_addr s else None) of
        Some (o4, s) \<Rightarrow> ([be_val (take 2 o4), be_val (drop 2 o4)], True, s)
      | None \<Rightarrow>
          (case read_separator 58 i (read_number 16 (Some 4) True 65535) s of
             None \<Rightarrow> ([], False, s)
           | Some (g, s) \<Rightarrow>
               (case read_groups (Suc i) n s of (gs, v4, s) \<Rightarrow> (g # gs, v4, s))))"

definition segments_ip :: "nat list \<Rightarrow> 128 word" where
  "segments_ip gs = from_be_bytes (concat (map (be_bytes 2) gs))"

definition read_ipv6_addr :: "bytes \<Rightarrow> (128 word \<times> bytes) option" where
  "read_ipv6_addr s =
     (case read_groups 0 8 s of (head, head_ipv4, s) \<Rightarrow>
        if length head = 8 then Some (segments_ip head, s)
        else if head_ipv4 then None
        else (case Option.bind (read_char 58 s) (read_char 58) of
            None \<Rightarrow> None
          | Some s \<Rightarrow>
              (case read_groups 0 (8 - (length head + 1)) s of (tail, _, s) \<Rightarrow>
                 Some (segments_ip (head @ replicate (8 - length head - length tail) 0 @ tail), s))))"

definition read_port :: "bytes \<Rightarrow> (16 word \<times> bytes) option" where
  "read_port s =
     (case read_char 58 s of None \<Rightarrow> None
      | Some s \<Rightarrow> (case read_number 10 None True 65535 s of None \<Rightarrow> None | Some (v, s) \<Rightarrow> Some (of_nat v, s)))"

definition read_scope_id :: "bytes \<Rightarrow> (32 word \<times> bytes) option" where
  "read_scope_id s =
     (case read_char 37 s of None \<Rightarrow> None
      | Some s \<Rightarrow> (case read_number 10 None True 4294967295 s of None \<Rightarrow> None | Some (v, s) \<Rightarrow> Some (of_nat v, s)))"

definition read_socket_addr_v4 :: "bytes \<Rightarrow> (SocketAddr \<times> bytes) option" where
  "read_socket_addr_v4 s =
     (case read_ipv4_addr s of None \<Rightarrow> None
      | Some (ip, s) \<Rightarrow> (case read_port s of None \<Rightarrow> None | Some (port, s) \<Rightarrow> Some (V4 (from_be_bytes ip) port, s)))"

definition read_socket_addr_v6 :: "bytes \<Rightarrow> (SocketAddr \<times> bytes) option" where
  "read_socket_addr_v6 s =
     (case read_char 91 s of None \<Rightarrow> None
      | Some s \<Rightarrow> (case read_ipv6_addr s of None \<Rightarrow> None
      | Some (ip, s) \<Rightarrow>
          (case (case read_scope_id s of None \<Rightarrow> (0, s) | Some x \<Rightarrow> x) of (scope, s) \<Rightarrow>
             (case read_char 93 s of None \<Rightarrow> None
              | Some s \<Rightarrow> (case read_port s of None \<Rightarrow> None | Some (port, s) \<Rightarrow> Some (V6 ip port 0 scope, s))))))"

text \<open>\<open>SocketAddr::from_str\<close>: the whole text is one address.\<close>

definition addr_parse :: "bytes \<Rightarrow> SocketAddr option" where
  "addr_parse s =
     (case (case read_socket_addr_v4 s of Some x \<Rightarrow> Some x | None \<Rightarrow> read_socket_addr_v6 s) of
        Some (a, []) \<Rightarrow> Some a
      | _ \<Rightarrow> None)"

section \<open>Writing\<close>

fun separated :: "byte \<Rightarrow> bytes list \<Rightarrow> bytes" where
  "separated sep [] = []"
| "separated sep (x # xs) = x @ concat (map (\<lambda>y. sep # y) xs)"

definition ipv4_text :: "bytes \<Rightarrow> bytes" where
  "ipv4_text o4 = separated 46 (map (\<lambda>b. number_text 10 (unat b)) o4)"

fun pairs_of :: "bytes \<Rightarrow> nat list" where
  "pairs_of (a # b # s) = be_val [a, b] # pairs_of s"
| "pairs_of _ = []"

definition segments :: "128 word \<Rightarrow> nat list" where
  "segments ip = pairs_of (to_be_bytes ip)"

text \<open>The first longest run of zero segments: \<open>(start, length)\<close>.\<close>

fun zero_span :: "nat \<Rightarrow> nat \<times> nat \<Rightarrow> nat \<times> nat \<Rightarrow> nat list \<Rightarrow> nat \<times> nat" where
  "zero_span i longest current [] = longest"
| "zero_span i longest current (g # gs) =
     (if g = 0 then
        (let current = (if snd current = 0 then i else fst current, snd current + 1);
             longest = (if snd current > snd longest then current else longest) in
         zero_span (Suc i) longest current gs)
      else zero_span (Suc i) longest (0, 0) gs)"

definition fmt_subslice :: "nat list \<Rightarrow> bytes" where
  "fmt_subslice gs = separated 58 (map (number_text 16) gs)"

definition ipv6_text :: "128 word \<Rightarrow> bytes" where
  "ipv6_text ip =
     (let gs = segments ip in
      if take 6 gs = [0, 0, 0, 0, 0, 65535] then
        ascii ''::ffff:'' @ ipv4_text (drop 12 (to_be_bytes ip))
      else (case zero_span 0 (0, 0) (0, 0) gs of (start, len) \<Rightarrow>
        if len > 1 then fmt_subslice (take start gs) @ ascii ''::'' @ fmt_subslice (drop (start + len) gs)
        else fmt_subslice gs))"

fun addr_text :: "SocketAddr \<Rightarrow> bytes" where
  "addr_text (V4 ip port) = ipv4_text (to_be_bytes ip) @ 58 # number_text 10 (unat port)"
| "addr_text (V6 ip port flowinfo scope) =
     91 # ipv6_text ip @ (if scope = 0 then [] else 37 # number_text 10 (unat scope)) @
     93 # 58 # number_text 10 (unat port)"

section \<open>Numbers are read as written\<close>

lemma unat_digit_char: "d < 16 \<Longrightarrow> unat (digit_char d) = (if d < 10 then 48 + d else 87 + d)"
  by (simp add: digit_char_def unat_of_nat take_bit_nat_eq_self_iff del: of_nat_add)

lemma to_digit_char: "d < radix \<Longrightarrow> radix \<le> 16 \<Longrightarrow> to_digit radix (digit_char d) = Some d"
  by (auto simp: to_digit_def Let_def unat_digit_char)

lemma digits_less: "2 \<le> radix \<Longrightarrow> d \<in> set (digits_of radix n) \<Longrightarrow> d < radix"
proof (induction radix n rule: digits_of.induct)
  case (1 radix n)
  then show ?case by (subst (asm) (2) digits_of.simps) (auto split: if_splits)
qed

lemma digits_val: "foldl (\<lambda>a d. a * radix + d) 0 (digits_of radix n) = n"
proof (induction radix n rule: digits_of.induct)
  case (1 radix n)
  then show ?case by (subst digits_of.simps) auto
qed

lemma digits_nonempty [simp]: "digits_of radix n \<noteq> []"
  by (subst digits_of.simps) auto

lemma digits_length: "2 \<le> radix \<Longrightarrow> n < radix ^ Suc k \<Longrightarrow> length (digits_of radix n) \<le> Suc k"
proof (induction k arbitrary: n)
  case 0
  then show ?case by (subst digits_of.simps) simp
next
  case (Suc k)
  then have "n div radix < radix ^ Suc k" by (simp add: less_mult_imp_div_less mult.commute)
  with Suc show ?case by (subst digits_of.simps) auto
qed

lemma digits_leading: "hd (digits_of radix n) = 0 \<Longrightarrow> length (digits_of radix n) = 1"
proof (induction radix n rule: digits_of.induct)
  case (1 radix n)
  show ?case
  proof (cases "n < radix \<or> radix < 2")
    case True
    then show ?thesis by (subst digits_of.simps) simp
  next
    case False
    have "digits_of radix n = digits_of radix (n div radix) @ [n mod radix]"
      using False by (subst digits_of.simps) auto
    moreover have "n div radix \<noteq> 0" using False by (simp add: div_eq_0_iff)
    moreover have "n div radix = 0" if "length (digits_of radix (n div radix)) = 1" "hd (digits_of radix (n div radix)) = 0"
      using that digits_val [of radix "n div radix"] by (cases "digits_of radix (n div radix)") auto
    ultimately show ?thesis using 1 False by auto
  qed
qed

lemma foldl_grows: "(v::nat) \<le> foldl (\<lambda>a d. a * radix + d) v ds" if "1 \<le> radix"
proof (induction ds arbitrary: v)
  case (Cons d ds)
  have "v \<le> v * radix + d" using that by (metis mult_le_mono2 nat_mult_1_right trans_le_add1)
  also have "\<dots> \<le> foldl (\<lambda>a d. a * radix + d) v (d # ds)" using Cons by simp
  finally show ?case .
qed simp

text \<open>The character after a number is not one of its digits.\<close>

definition ends_number :: "nat \<Rightarrow> bytes \<Rightarrow> bool" where
  "ends_number radix rest \<longleftrightarrow> rest = [] \<or> to_digit radix (hd rest) = None"

lemma number_loop_digits:
  assumes "2 \<le> radix" "radix \<le> 16" "\<forall>d \<in> set ds. d < radix" "ends_number radix rest"
    and "case max_digits of Some m \<Rightarrow> count + length ds \<le> m | None \<Rightarrow> foldl (\<lambda>a d. a * radix + d) v ds \<le> most"
  shows "number_loop radix max_digits most v count (map digit_char ds @ rest) =
    Some (foldl (\<lambda>a d. a * radix + d) v ds, count + length ds, rest)"
  using assms(3,5)
proof (induction ds arbitrary: v count)
  case Nil
  then show ?case using assms(4) by (cases rest) (auto simp: ends_number_def)
next
  case (Cons d ds)
  have "v * radix + d \<le> foldl (\<lambda>a d. a * radix + d) v (d # ds)"
    using foldl_grows [of radix "v * radix + d" ds] assms(1) by simp
  then show ?case
    using Cons assms(1,2) by (auto simp: to_digit_char Let_def split: option.splits)
qed

lemma digit_char_zero: "d < 16 \<Longrightarrow> digit_char d = 48 \<longleftrightarrow> d = 0"
  using unat_digit_char [of d] by (auto simp: word_unat_eq_iff)

lemma read_number_text:
  assumes "2 \<le> radix" "radix \<le> 16" "n \<le> most" "ends_number radix rest"
    and "case max_digits of Some m \<Rightarrow> 0 < m \<and> n < radix ^ m | None \<Rightarrow> True"
  shows "read_number radix max_digits z most (number_text radix n @ rest) = Some (n, rest)"
proof -
  let ?ds = "digits_of radix n"
  have len: "length ?ds \<le> m" if "max_digits = Some m" for m
    using assms(5) that digits_length [OF assms(1), of n "m - 1"] by simp
  have "number_loop radix max_digits most 0 0 (number_text radix n @ rest) = Some (n, length ?ds, rest)"
    using number_loop_digits [OF assms(1,2) _ assms(4), where ds = ?ds and max_digits = max_digits and v = 0 and count = 0 and most = most] digits_less [OF assms(1)] len assms(3)
    by (auto simp: number_text_def digits_val split: option.splits)
  moreover have "length ?ds = 1" if "hd (number_text radix n @ rest) = 48"
  proof -
    have "hd ?ds < radix" using digits_less [OF assms(1), of "hd ?ds" n] by simp
    moreover have "digit_char (hd ?ds) = 48" using that by (simp add: number_text_def hd_map)
    ultimately show ?thesis using digit_char_zero [of "hd ?ds"] assms(2) digits_leading [of radix n] by simp
  qed
  ultimately show ?thesis using assms(3) by (auto simp: read_number_def)
qed


section \<open>Addresses are read as written\<close>

lemma not_digits [simp]:
  "to_digit 10 46 = None" "to_digit 10 58 = None" "to_digit 10 93 = None" "to_digit 10 37 = None"
  "to_digit 16 46 = None" "to_digit 16 58 = None" "to_digit 16 93 = None" "to_digit 16 37 = None"
  by (simp_all add: to_digit_def)

lemma number_loop_rest:
  "number_loop radix md most v n s = Some (v', n', r) \<Longrightarrow>
    \<exists>pre. s = pre @ r \<and> (\<forall>b \<in> set pre. to_digit radix b \<noteq> None)"
proof (induction radix md most v n s rule: number_loop.induct)
  case (2 radix md most v n b s)
  show ?case
  proof (cases "to_digit radix b")
    case None
    with 2 show ?thesis by (intro exI [of _ "[]"]) simp
  next
    case (Some d)
    with 2 obtain pre where "s = pre @ r" "\<forall>b \<in> set pre. to_digit radix b \<noteq> None"
      by (auto simp: Let_def split: option.splits if_splits)
    with Some show ?thesis by (intro exI [of _ "b # pre"]) simp
  qed
qed simp

lemma unat_octet: "unat (b :: byte) \<le> 255" "unat b < 1000"
  using unat_byte_less [of b] by linarith+

lemma read_octet:
  "ends_number 10 rest \<Longrightarrow> read_number 10 (Some 3) False 255 (number_text 10 (unat (b :: byte)) @ rest) = Some (unat b, rest)"
  by (rule read_number_text) (simp_all add: unat_octet)

lemma four_octets: "length xs = 4 \<Longrightarrow> \<exists>a b c d. xs = [a, b, c, d]"
  by (auto simp: length_Suc_conv eval_nat_numeral)

lemma read_ipv4_text:
  assumes "length o4 = 4" and "ends_number 10 rest"
  shows "read_ipv4_addr (ipv4_text o4 @ rest) = Some (o4, rest)"
proof -
  obtain a b c d where o4: "o4 = [a, b, c, d]"
    using four_octets [OF assms(1)] by blast
  have dot: "ends_number 10 (46 # s)" for s by (simp add: ends_number_def)
  have four: "(4 :: nat) = Suc (Suc (Suc (Suc 0)))" by simp
  show ?thesis
    unfolding read_ipv4_addr_def four
    by (simp add: o4 ipv4_text_def read_separator_def read_char_def read_octet [OF dot] read_octet [OF assms(2)])
qed

text \<open>What follows a group: the next field of the address.\<close>

definition group_stop :: "bytes \<Rightarrow> bool" where
  "group_stop rest \<longleftrightarrow> (\<exists>s. rest = 93 # s \<or> rest = 37 # s \<or> rest = 58 # 58 # s)"

lemma read_ipv4_fails:
  assumes "46 \<notin> set hs" and "rest \<noteq> []" and "hd rest \<noteq> 46" and "to_digit 10 (hd rest) = None"
  shows "read_ipv4_addr (hs @ rest) = None"
proof -
  have "read_separator 46 (Suc 0) f r = None" if num: "read_number 10 (Some 3) False 255 (hs @ rest) = Some (v, r)" for v r and f :: "bytes \<Rightarrow> (nat \<times> bytes) option"
  proof -
    obtain c where "number_loop 10 (Some 3) 255 0 0 (hs @ rest) = Some (v, c, r)"
      using num by (cases "number_loop 10 (Some 3) 255 0 0 (hs @ rest)")
        (auto simp: read_number_def simp del: append_assoc split: if_splits)
    then obtain pre where pre: "hs @ rest = pre @ r" "\<forall>b \<in> set pre. to_digit 10 b \<noteq> None"
      by (blast dest: number_loop_rest)
    have "\<exists>z. hs = pre @ z \<and> r = z @ rest"
    proof -
      from pre(1) obtain z where z: "hs = pre @ z \<and> z @ rest = r \<or> hs @ z = pre \<and> rest = z @ r"
        by (auto simp: append_eq_append_conv2)
      moreover have "z = []" if "hs @ z = pre" "rest = z @ r"
        using that pre(2) assms(4) by (cases z) auto
      ultimately show ?thesis by auto
    qed
    then obtain z where "hs = pre @ z" "r = z @ rest" by blast
    then have "hd r \<noteq> 46" using assms by (cases z) auto
    then show ?thesis by (auto simp: read_separator_def read_char_def split: list.splits)
  qed
  then show ?thesis
    by (auto simp: read_ipv4_addr_def numeral_eq_Suc read_separator_def split: option.splits prod.splits)
qed

lemma hex_text_no_dot: "46 \<notin> set (number_text 16 n)"
proof
  assume "46 \<in> set (number_text 16 n)"
  then obtain d where "d < 16" "digit_char d = 46"
    using digits_less [of 16] by (fastforce simp: number_text_def)
  with to_digit_char [of d 16] show False by simp
qed

lemma group_fails:
  assumes "hd rest = 58 \<or> hd rest = 93 \<or> hd rest = 37" and "rest \<noteq> []"
  shows "read_ipv4_addr rest = None" and "read_number 16 (Some 4) True 65535 rest = None"
proof -
  show "read_ipv4_addr rest = None"
    using read_ipv4_fails [of "[]" rest] assms by auto
  show "read_number 16 (Some 4) True 65535 rest = None"
    using assms by (cases rest) (auto simp: read_number_def)
qed

lemma group_stop_fails:
  assumes "group_stop rest"
  shows "read_separator 58 i read_ipv4_addr rest = None"
    and "read_separator 58 i (read_number 16 (Some 4) True 65535) rest = None"
proof -
  from assms obtain s where "rest = 93 # s \<or> rest = 37 # s \<or> rest = 58 # 58 # s"
    by (auto simp: group_stop_def)
  then show "read_separator 58 i read_ipv4_addr rest = None"
    and "read_separator 58 i (read_number 16 (Some 4) True 65535) rest = None"
    by (auto simp: read_separator_def read_char_def group_fails)
qed

lemma read_groups_stop: "group_stop rest \<Longrightarrow> read_groups i n rest = ([], False, rest)"
  by (cases n) (simp_all add: group_stop_fails)

lemma read_group:
  assumes "g < 65536" and "hd rest = 58 \<or> hd rest = 93 \<or> hd rest = 37" and "rest \<noteq> []"
  shows "read_ipv4_addr (number_text 16 g @ rest) = None"
    and "read_number 16 (Some 4) True 65535 (number_text 16 g @ rest) = Some (g, rest)"
proof -
  show "read_ipv4_addr (number_text 16 g @ rest) = None"
    using assms by (intro read_ipv4_fails hex_text_no_dot) auto
  show "read_number 16 (Some 4) True 65535 (number_text 16 g @ rest) = Some (g, rest)"
    using assms by (intro read_number_text) (auto simp: ends_number_def)
qed

definition more_groups :: "nat list \<Rightarrow> bytes" where
  "more_groups gs = concat (map (\<lambda>g. 58 # number_text 16 g) gs)"

lemma fmt_subslice_Cons: "fmt_subslice (g # gs) = number_text 16 g @ more_groups gs"
  by (simp add: fmt_subslice_def more_groups_def comp_def)

lemma more_groups_next:
  assumes "group_stop rest"
  shows "more_groups gs @ rest \<noteq> []" and "hd (more_groups gs @ rest) = 58 \<or> hd (more_groups gs @ rest) = 93 \<or> hd (more_groups gs @ rest) = 37"
  using assms by (cases gs; auto simp: more_groups_def group_stop_def)+

lemma read_groups_more:
  assumes "group_stop rest" and "\<forall>g \<in> set gs. g < 65536" and "length gs \<le> n"
  shows "read_groups (Suc i) n (more_groups gs @ rest) = (gs, False, rest)"
  using assms(2,3)
proof (induction gs arbitrary: i n)
  case Nil
  then show ?case by (simp add: more_groups_def read_groups_stop [OF assms(1)])
next
  case (Cons g gs)
  then obtain m where n: "n = Suc m" "length gs \<le> m" by (cases n) auto
  have "more_groups (g # gs) @ rest = 58 # number_text 16 g @ more_groups gs @ rest" by (simp add: more_groups_def)
  then show ?case
    using Cons n read_group [of g "more_groups gs @ rest", OF _ more_groups_next(2,1) [OF assms(1)]]
    by (auto simp: read_separator_def read_char_def more_groups_def)
qed

lemma read_groups_text:
  assumes "group_stop rest" and "\<forall>g \<in> set gs. g < 65536" and "length gs \<le> n"
  shows "read_groups 0 n (fmt_subslice gs @ rest) = (gs, False, rest)"
proof (cases gs)
  case Nil
  then show ?thesis by (simp add: fmt_subslice_def read_groups_stop [OF assms(1)])
next
  case (Cons g gs')
  then obtain m where "n = Suc m" "length gs' \<le> m" using assms(3) by (cases n) auto
  then show ?thesis
    using Cons assms read_group [of g "more_groups gs' @ rest", OF _ more_groups_next(2,1) [OF assms(1)]]
      read_groups_more [OF assms(1), of gs' m 0]
    by (auto simp: read_separator_def fmt_subslice_Cons more_groups_def)
qed


section \<open>Segments\<close>

lemma be_bytes_2: "be_bytes 2 (be_val [a, b]) = [a, b]"
  by (rule be_bytes_be_val) simp

lemma pairs_concat: "even (length s) \<Longrightarrow> concat (map (be_bytes 2) (pairs_of s)) = s"
  by (induction s rule: pairs_of.induct) (simp_all add: be_bytes_2)

lemma length_pairs: "length (pairs_of s) = length s div 2"
  by (induction s rule: pairs_of.induct) auto

lemma pairs_bound: "g \<in> set (pairs_of s) \<Longrightarrow> g < 65536"
proof (induction s rule: pairs_of.induct)
  case (1 a b s)
  then show ?case using be_val_bound [of "[a, b]"] by auto
qed auto

lemma drop_pairs: "drop n (pairs_of s) = pairs_of (drop (2 * n) s)"
  by (induction s arbitrary: n rule: pairs_of.induct) (auto simp: drop_Cons split: nat.splits)

lemma segments_ip_segments: "segments_ip (segments ip) = ip"
  by (simp add: segments_ip_def segments_def pairs_concat)

lemma length_segments [simp]: "length (segments ip) = 8"
  by (simp add: segments_def length_pairs)

lemma segments_bound: "g \<in> set (segments ip) \<Longrightarrow> g < 65536"
  by (auto simp: segments_def intro: pairs_bound)

definition span_ok :: "nat list \<Rightarrow> nat \<times> nat \<Rightarrow> bool" where
  "span_ok gs s \<longleftrightarrow> fst s + snd s \<le> length gs \<and> (\<forall>j. fst s \<le> j \<and> j < fst s + snd s \<longrightarrow> gs ! j = 0)"

lemma zero_span_ok:
  assumes "drop i gs = rest" and "span_ok gs longest" and "snd current = 0 \<or> fst current + snd current = i \<and> span_ok gs current"
  shows "span_ok gs (zero_span i longest current rest)"
  using assms
proof (induction rest arbitrary: i longest current)
  case (Cons g rest)
  have "i < length gs"
    using Cons.prems(1) by (metis drop_all list.distinct(1) not_le)
  then have i: "i < length gs" "gs ! i = g" "drop (Suc i) gs = rest"
    using Cons.prems(1) by (simp_all add: Cons_nth_drop_Suc [symmetric])
  let ?c = "(if snd current = 0 then i else fst current, snd current + 1)"
  have c: "fst ?c + snd ?c = Suc i" "span_ok gs ?c" if "g = 0"
    using Cons.prems(3) i that by (auto simp: span_ok_def less_Suc_eq)
  show ?case
  proof (cases "g = 0")
    case True
    show ?thesis
      using True c [OF True] Cons.prems(2) by (auto simp: Let_def intro!: Cons.IH [OF i(3)])
  qed (use Cons.prems(2) in \<open>auto intro!: Cons.IH [OF i(3)]\<close>)
qed simp

lemma span_replicate:
  assumes "span_ok gs (start, len)"
  shows "take start gs @ replicate len 0 @ drop (start + len) gs = gs"
proof -
  have "take len (drop start gs) = replicate len 0"
    using assms by (intro nth_equalityI) (auto simp: span_ok_def)
  then show ?thesis
    by (metis append_take_drop_id drop_drop add.commute)
qed


section \<open>The text of an address determines it\<close>

lemma ascii_colons: "ascii ''::'' = [58, 58]" "ascii ''::ffff:'' = 58 # 58 # number_text 16 65535 @ [58]"
  by (simp_all add: ascii_def number_text_def digits_of.simps digit_char_def)

lemma read_mapped:
  assumes "group_stop rest" and "hd rest \<noteq> 58" and "take 6 (segments ip) = [0, 0, 0, 0, 0, 65535]"
  shows "read_ipv6_addr (ascii ''::ffff:'' @ ipv4_text (drop 12 (to_be_bytes ip)) @ rest) = Some (ip, rest)"
proof -
  let ?o = "drop 12 (to_be_bytes ip)"
  have o4: "length ?o = 4" by simp
  have "ends_number 10 rest"
    using assms(1,2) by (auto simp: group_stop_def ends_number_def)
  note v4 = read_ipv4_text [OF o4 this]
  have six: "(6 :: nat) = Suc 5" "(7 :: nat) = Suc 6" by simp_all
  have tail: "read_groups 0 7 (number_text 16 65535 @ 58 # ipv4_text ?o @ rest) =
      ([65535, be_val (take 2 ?o), be_val (drop 2 ?o)], True, rest)"
    unfolding six using read_group [of 65535 "58 # ipv4_text ?o @ rest"]
    by (simp add: read_separator_def read_char_def v4 del: Suc_numeral)
  obtain a b c d where abcd: "?o = [a, b, c, d]"
    using four_octets [OF o4] by blast
  then have "drop 6 (segments ip) = [be_val (take 2 ?o), be_val (drop 2 ?o)]"
    by (simp add: segments_def drop_pairs)
  then have "segments ip = [0, 0, 0, 0, 0] @ [65535, be_val (take 2 ?o), be_val (drop 2 ?o)]"
    using assms(3) append_take_drop_id [of 6 "segments ip"] by simp
  moreover have "replicate 5 0 = [0, 0, 0, 0, 0 :: nat]" by (simp add: eval_nat_numeral)
  ultimately have "segments_ip (replicate 5 0 @ [65535, be_val (take 2 ?o), be_val (drop 2 ?o)]) = ip"
    using segments_ip_segments [of ip] by simp
  moreover have "read_groups 0 8 (58 # 58 # s) = ([], False, 58 # 58 # s)" for s
    by (rule read_groups_stop) (simp add: group_stop_def)
  ultimately show ?thesis
    using tail by (simp add: read_ipv6_addr_def ascii_colons read_char_def)
qed

lemma read_ipv6_text:
  assumes "group_stop rest" and "hd rest \<noteq> 58"
  shows "read_ipv6_addr (ipv6_text ip @ rest) = Some (ip, rest)"
proof (cases "take 6 (segments ip) = [0, 0, 0, 0, 0, 65535]")
  case True
  then show ?thesis using read_mapped [OF assms True] by (simp add: ipv6_text_def Let_def)
next
  case False
  let ?gs = "segments ip"
  obtain start len where span: "zero_span 0 (0, 0) (0, 0) ?gs = (start, len)" by force
  have "span_ok ?gs (start, len)"
    using zero_span_ok [of 0 ?gs ?gs "(0, 0)" "(0, 0)"] by (simp add: span span_ok_def)
  note ok = this span_replicate [OF this]
  show ?thesis
  proof (cases "len > 1")
    case True
    let ?h = "take start ?gs" and ?t = "drop (start + len) ?gs"
    have le: "start + len \<le> 8" using ok(1) by (simp add: span_ok_def)
    have head: "read_groups 0 8 (fmt_subslice ?h @ 58 # 58 # fmt_subslice ?t @ rest) = (?h, False, 58 # 58 # fmt_subslice ?t @ rest)"
      by (rule read_groups_text) (auto simp: group_stop_def dest!: in_set_takeD intro: segments_bound)
    have tail: "read_groups 0 (8 - (length ?h + 1)) (fmt_subslice ?t @ rest) = (?t, False, rest)"
      using le True by (intro read_groups_text assms(1)) (auto dest!: in_set_dropD intro: segments_bound)
    have "8 - length ?h - length ?t = len" using le by simp
    then show ?thesis
      using False True head tail ok(2) le
      by (simp add: ipv6_text_def Let_def span read_ipv6_addr_def ascii_colons read_char_def segments_ip_segments)
  next
    case len: False
    have "read_groups 0 8 (fmt_subslice ?gs @ rest) = (?gs, False, rest)"
      by (rule read_groups_text [OF assms(1)]) (auto intro: segments_bound)
    then show ?thesis
      using False len by (simp add: ipv6_text_def Let_def span read_ipv6_addr_def segments_ip_segments)
  qed
qed

lemma unat_port: "unat (p :: 16 word) \<le> 65535" and unat_scope: "unat (w :: 32 word) \<le> 4294967295"
proof -
  have "unat p < 2 ^ LENGTH(16)" "unat w < 2 ^ LENGTH(32)" by (rule unsigned_less)+
  then show "unat p \<le> 65535" "unat w \<le> 4294967295" by simp_all
qed

lemma read_port_text: "read_port (58 # number_text 10 (unat p)) = Some (p, [])"
proof -
  have "read_number 10 None True 65535 (number_text 10 (unat p) @ []) = Some (unat p, [])"
    by (rule read_number_text) (simp_all add: unat_port ends_number_def)
  then show ?thesis by (simp add: read_port_def read_char_def)
qed

lemma read_scope_text: "read_scope_id (37 # number_text 10 (unat w) @ 93 # s) = Some (w, 93 # s)"
proof -
  have "read_number 10 None True 4294967295 (number_text 10 (unat w) @ 93 # s) = Some (unat w, 93 # s)"
    by (rule read_number_text) (simp_all add: unat_scope ends_number_def)
  then show ?thesis by (simp add: read_scope_id_def read_char_def)
qed

definition addr_plain :: "SocketAddr \<Rightarrow> bool" where
  "addr_plain a \<longleftrightarrow> (case a of V4 _ _ \<Rightarrow> True | V6 _ _ flowinfo _ \<Rightarrow> flowinfo = 0)"

lemma addr_parse_text:
  assumes "addr_plain a"
  shows "addr_parse (addr_text a) = Some a"
proof (cases a)
  case (V4 ip port)
  have "read_ipv4_addr (ipv4_text (to_be_bytes ip) @ 58 # number_text 10 (unat port)) = Some (to_be_bytes ip, 58 # number_text 10 (unat port))"
    by (rule read_ipv4_text) (simp_all add: ends_number_def)
  with V4 show ?thesis by (simp add: addr_parse_def read_socket_addr_v4_def read_port_text)
next
  case (V6 ip port flowinfo scope)
  let ?tail = "93 # 58 # number_text 10 (unat port)"
  let ?s = "(if scope = 0 then [] else 37 # number_text 10 (unat scope)) @ ?tail"
  have six: "read_ipv6_addr (ipv6_text ip @ ?s) = Some (ip, ?s)"
    by (rule read_ipv6_text) (auto simp: group_stop_def)
  have v4: "read_ipv4_addr (91 # s) = None" for s
    using read_ipv4_fails [of "[]" "91 # s"] by (simp add: to_digit_def)
  have "read_scope_id ?tail = None" by (simp add: read_scope_id_def read_char_def)
  with six V6 assms show ?thesis
    by (auto simp: addr_parse_def addr_plain_def read_socket_addr_v4_def v4 read_socket_addr_v6_def read_char_def read_scope_text read_port_text)
qed

lemma addr_parse_plain: "addr_parse s = Some a \<Longrightarrow> addr_plain a"
  by (auto simp: addr_parse_def addr_plain_def read_socket_addr_v4_def read_socket_addr_v6_def
      split: option.splits prod.splits list.splits SocketAddr.splits)


section \<open>The text is short and ASCII\<close>

definition plain_text :: "nat \<Rightarrow> bytes \<Rightarrow> bool" where
  "plain_text n s \<longleftrightarrow> length s \<le> n \<and> (\<forall>b \<in> set s. b \<le> 127)"

lemma plain_append: "plain_text m s \<Longrightarrow> plain_text n t \<Longrightarrow> plain_text (m + n) (s @ t)"
  by (auto simp: plain_text_def)

lemma plain_Cons: "b \<le> 127 \<Longrightarrow> plain_text n t \<Longrightarrow> plain_text (Suc n) (b # t)"
  by (auto simp: plain_text_def)

lemma plain_mono: "plain_text m s \<Longrightarrow> m \<le> n \<Longrightarrow> plain_text n s"
  by (auto simp: plain_text_def)

lemma plain_Nil: "plain_text 0 []"
  by (simp add: plain_text_def)

lemma plain_number:
  assumes "2 \<le> radix" "radix \<le> 16" "n < radix ^ k" "0 < k"
  shows "plain_text k (number_text radix n)"
proof -
  have "length (digits_of radix n) \<le> k"
    using digits_length [OF assms(1), of n "k - 1"] assms(3,4) by simp
  moreover have "digit_char d \<le> 127" if "d \<in> set (digits_of radix n)" for d
    using digits_less [OF assms(1) that] assms(2) unat_digit_char [of d] by (simp add: word_le_nat_alt)
  ultimately show ?thesis by (auto simp: plain_text_def number_text_def)
qed

lemma plain_octet: "plain_text 3 (number_text 10 (unat (b :: byte)))"
  using plain_number [of 10 "unat b" 3] unat_octet(2) [of b] by simp

lemma plain_port: "plain_text 5 (number_text 10 (unat (p :: 16 word)))"
  using plain_number [of 10 "unat p" 5] unat_port [of p] by simp

lemma plain_segment: "g < 65536 \<Longrightarrow> plain_text 4 (number_text 16 g)"
  using plain_number [of 16 g 4] by simp

lemma plain_separated:
  assumes "\<forall>x \<in> set xs. plain_text k x" and "sep \<le> 127"
  shows "plain_text (length xs * Suc k) (separated sep xs)"
proof (cases xs)
  case (Cons y ys)
  have "plain_text (length ys * Suc k) (concat (map (\<lambda>y. sep # y) ys))" if "\<forall>x \<in> set ys. plain_text k x" for ys
    using that
  proof (induction ys)
    case (Cons z zs)
    then have "plain_text (Suc k + length zs * Suc k) ((sep # z) @ concat (map ((#) sep) zs))"
      by (intro plain_append plain_Cons assms(2)) auto
    then show ?case by (simp add: ac_simps)
  qed (simp add: plain_text_def)
  then have "plain_text (k + length ys * Suc k) (y @ concat (map (\<lambda>y. sep # y) ys))"
    using Cons assms(1) by (intro plain_append) auto
  then show ?thesis
    unfolding Cons separated.simps by (rule plain_mono) simp
qed (simp add: plain_text_def)

lemma plain_ipv4: "length o4 = 4 \<Longrightarrow> plain_text 16 (ipv4_text o4)"
  using plain_separated [of "map (\<lambda>b. number_text 10 (unat b)) o4" 3 46] by (auto simp: ipv4_text_def plain_octet)

lemma plain_subslice: "\<forall>g \<in> set gs. g < 65536 \<Longrightarrow> plain_text (length gs * 5) (fmt_subslice gs)"
  using plain_separated [of "map (number_text 16) gs" 4 58] by (auto simp: fmt_subslice_def plain_segment)

lemma plain_ipv6: "plain_text 82 (ipv6_text ip)"
proof -
  have sub: "plain_text 40 (fmt_subslice gs)" if "set gs \<subseteq> set (segments ip)" "length gs \<le> 8" for gs
    using that segments_bound [of _ ip] by (intro plain_mono [OF plain_subslice]) auto
  have colons: "plain_text 2 (ascii ''::'')" "plain_text 7 (ascii ''::ffff:'')"
    by (simp_all add: plain_text_def ascii_def)
  show ?thesis
    using plain_append [OF colons(2) plain_ipv4 [of "drop 12 (to_be_bytes ip)"]]
      plain_append [OF sub plain_append [OF colons(1) sub], OF set_take_subset _ set_drop_subset] sub [of "segments ip"]
    by (auto simp: ipv6_text_def Let_def split: prod.split intro: plain_mono)
qed

lemma addr_text_plain: "plain_text 200 (addr_text a)"
proof (cases a)
  case (V4 ip port)
  have "plain_text 5 (number_text 10 (unat port))"
    by (rule plain_port)
  then have "plain_text (16 + Suc 5) (addr_text a)"
    unfolding V4 addr_text.simps by (intro plain_append plain_Cons plain_ipv4) auto
  then show ?thesis by (rule plain_mono) simp
next
  case (V6 ip port flowinfo scope)
  have p: "plain_text 5 (number_text 10 (unat port))"
    by (rule plain_port)
  have w: "plain_text 10 (number_text 10 (unat scope))"
    using plain_number [of 10 "unat scope" 10] unat_scope [of scope] by simp
  have "plain_text 11 (if scope = 0 then [] else 37 # number_text 10 (unat scope))"
    using plain_Cons [OF _ w, of 37] by (auto simp: plain_text_def)
  then have "plain_text (Suc (82 + (11 + Suc (Suc 5)))) (addr_text a)"
    unfolding V6 addr_text.simps by (intro plain_Cons plain_append plain_ipv6 p) auto
  then show ?thesis by (rule plain_mono) simp
qed

lemma addr_text_short [simp]: "short (addr_text a)" and addr_text_utf8 [simp]: "utf8_ok (addr_text a)"
  using addr_text_plain [of a] by (auto simp: plain_text_def short_def intro: utf8_ok_ascii)

end
