(* ===== verification/Directory.thy ===== *)
theory Directory
  imports Socket_Addr Locate
begin

text \<open>
  The directory service, \<open>backend/src/net/directory.rs\<close> with its part of \<open>backend/src/encoding.rs\<close>:
  signed advertisements that map a join code to the host's address, and signed requests that retire
  them. The server keeps one advertisement per join code and, per peer and vault, a watermark with the
  time and key of the newest record it accepted; both are written to a private file before a request
  is answered, and a record is taken only when it is newer than its watermark.
\<close>

section \<open>Data\<close>

record DirectoryAd =
  da_peer_id :: PeerId
  da_vault_id :: VaultId
  da_addr :: SocketAddr
  da_ek :: bytes
  da_vk :: bytes
  da_issued_at :: u64
  da_signature :: bytes

record DirectoryWatermark =
  dw_peer_id :: PeerId
  dw_vault_id :: VaultId
  dw_issued_at :: u64
  dw_vk :: bytes

record DirectoryState =
  dst_ads :: "(JoinCode \<times> DirectoryAd) list"
  dst_watermarks :: "DirectoryWatermark list"

definition MAX_AD_AGE_SECS :: u64 where "MAX_AD_AGE_SECS = 604800"
definition MAX_FUTURE_SKEW_SECS :: u64 where "MAX_FUTURE_SKEW_SECS = 120"
definition MAX_ADS_PER_PEER :: nat where "MAX_ADS_PER_PEER = 32"
definition MAX_TOTAL_ADS :: nat where "MAX_TOTAL_ADS = 10000"
definition MAX_STATE_BYTES :: nat where "MAX_STATE_BYTES = 128 * 1024 * 1024"
definition MAX_DIRECTORY_RECORDS :: nat where "MAX_DIRECTORY_RECORDS = 10000"
definition DIRECTORY_STATE_MAGIC :: bytes where "DIRECTORY_STATE_MAGIC = ascii ''qfs/local/directory/''"

section \<open>Encoding\<close>

definition directory_ad_m :: "DirectoryAd \<Rightarrow> bytes result" where
  "directory_ad_m ad =
     and_then (push_variable (peer_bytes (da_peer_id ad) @ vault_bytes (da_vault_id ad)) (addr_text (da_addr ad))) (\<lambda>out.
     and_then (push_variable out (da_ek ad)) (\<lambda>out.
     and_then (push_variable out (da_vk ad)) (\<lambda>out.
     Inr (out @ to_be_bytes (da_issued_at ad)))))"

definition encode_directory_ad :: "DirectoryAd \<Rightarrow> bytes result" where
  "encode_directory_ad ad =
     and_then (directory_ad_m ad) (\<lambda>m.
     and_then (push_variable [] m) (\<lambda>out.
     push_variable out (da_signature ad)))"

definition decode_directory_ad_message :: "bytes \<Rightarrow> bytes \<Rightarrow> DirectoryAd result" where
  "decode_directory_ad_message message signature = run_parser (
     p_bind rd_id32 (\<lambda>pid.
     p_bind rd_id32 (\<lambda>vault_id.
     p_bind rd_variable (\<lambda>addr.
     p_bind (p_guard (utf8_ok addr) (InvalidInput ''directory address is not UTF-8'')) (\<lambda>_.
     p_bind (p_lift (ok_or (addr_parse addr) (InvalidInput ''directory address is not a numeric socket address''))) (\<lambda>addr.
     p_bind rd_variable (\<lambda>ek.
     p_bind rd_variable (\<lambda>vk.
     p_bind rd_u64 (\<lambda>issued_at.
     p_bind rd_finish (\<lambda>_.
     p_ret \<lparr>da_peer_id = PeerId pid, da_vault_id = VaultId vault_id, da_addr = addr, da_ek = ek, da_vk = vk,
            da_issued_at = issued_at, da_signature = signature\<rparr>)))))))))) message"

definition decode_directory_ad :: "bytes \<Rightarrow> DirectoryAd result" where
  "decode_directory_ad bs = run_parser (
     p_bind rd_variable (\<lambda>message.
     p_bind rd_variable (\<lambda>signature.
     p_bind rd_finish (\<lambda>_.
     p_lift (decode_directory_ad_message message signature))))) bs"

definition push_directory_entry :: "JoinCode \<times> DirectoryAd \<Rightarrow> bytes result" where
  "push_directory_entry e = and_then (encode_directory_ad (snd e)) (\<lambda>b. push_variable (code_bytes (fst e)) b)"

definition push_watermark :: "DirectoryWatermark \<Rightarrow> bytes result" where
  "push_watermark w =
     push_variable (peer_bytes (dw_peer_id w) @ vault_bytes (dw_vault_id w) @ to_be_bytes (dw_issued_at w)) (dw_vk w)"

definition encode_directory_state :: "DirectoryState \<Rightarrow> bytes result" where
  "encode_directory_state st =
     and_then (push_length (DIRECTORY_STATE_MAGIC @ [LOCAL_FORMAT_VERSION]) (length (dst_ads st))) (\<lambda>out.
     and_then (push_all push_directory_entry (dst_ads st) out) (\<lambda>out.
     and_then (push_length out (length (dst_watermarks st))) (\<lambda>out.
     push_all push_watermark (dst_watermarks st) out)))"

definition rd_directory_entry :: "(JoinCode \<times> DirectoryAd) parser" where
  "rd_directory_entry =
     p_bind rd_id16 (\<lambda>code.
     p_bind rd_variable (\<lambda>b.
     p_bind (p_lift (decode_directory_ad b)) (\<lambda>ad.
     p_ret (JoinCode code, ad))))"

definition rd_directory_watermark :: "DirectoryWatermark parser" where
  "rd_directory_watermark =
     p_bind rd_id32 (\<lambda>pid.
     p_bind rd_id32 (\<lambda>vault_id.
     p_bind rd_u64 (\<lambda>issued_at.
     p_bind rd_variable (\<lambda>vk.
     p_ret \<lparr>dw_peer_id = PeerId pid, dw_vault_id = VaultId vault_id, dw_issued_at = issued_at, dw_vk = vk\<rparr>))))"

definition decode_directory_state :: "bytes \<Rightarrow> DirectoryState result" where
  "decode_directory_state bs = run_parser (
     p_bind (rd_require_prefix DIRECTORY_STATE_MAGIC) (\<lambda>_.
     p_bind rd_require_version (\<lambda>_.
     p_bind (rd_count 20) (\<lambda>ad_count.
     p_bind (p_guard (\<not> ad_count > MAX_DIRECTORY_RECORDS) (InvalidInput ''directory ad count exceeds cap'')) (\<lambda>_.
     p_bind (rd_many ad_count rd_directory_entry) (\<lambda>ads.
     p_bind (rd_count 76) (\<lambda>watermark_count.
     p_bind (p_guard (\<not> watermark_count > MAX_DIRECTORY_RECORDS) (InvalidInput ''directory watermark count exceeds cap'')) (\<lambda>_.
     p_bind (rd_many watermark_count rd_directory_watermark) (\<lambda>watermarks.
     p_bind rd_finish (\<lambda>_.
     p_ret \<lparr>dst_ads = ads, dst_watermarks = watermarks\<rparr>)))))))))) bs"

section \<open>Records are read as written\<close>

definition ad_bytes :: "DirectoryAd \<Rightarrow> bytes" where
  "ad_bytes ad = peer_bytes (da_peer_id ad) @ vault_bytes (da_vault_id ad) @ var_bytes (addr_text (da_addr ad)) @
     var_bytes (da_ek ad) @ var_bytes (da_vk ad) @ to_be_bytes (da_issued_at ad)"

definition ad_wire :: "DirectoryAd \<Rightarrow> bytes" where
  "ad_wire ad = var_bytes (ad_bytes ad) @ var_bytes (da_signature ad)"

definition ad_fits :: "DirectoryAd \<Rightarrow> bool" where
  "ad_fits ad \<longleftrightarrow> short (da_ek ad) \<and> short (da_vk ad) \<and> short (ad_bytes ad) \<and> short (da_signature ad)"

lemma directory_ad_m_Inr: "directory_ad_m ad = Inr m \<longleftrightarrow> short (da_ek ad) \<and> short (da_vk ad) \<and> m = ad_bytes ad"
  by (auto simp: directory_ad_m_def ad_bytes_def)

lemma encode_directory_ad_Inr: "encode_directory_ad ad = Inr b \<longleftrightarrow> ad_fits ad \<and> b = ad_wire ad"
  by (auto simp: encode_directory_ad_def directory_ad_m_Inr ad_fits_def ad_wire_def)

lemma decode_directory_ad_wire:
  assumes "ad_fits ad" and "addr_plain (da_addr ad)" and "length (ad_wire ad) \<le> usize_max"
  shows "decode_directory_ad (ad_wire ad) = Inr ad"
proof -
  have size: "length (ad_bytes ad) \<le> usize_max"
    using assms(1) by (simp add: ad_fits_def short_usize)
  have "decode_directory_ad_message (ad_bytes ad) (da_signature ad) = Inr ad"
    unfolding decode_directory_ad_message_def
    by (rule run_parser_reads [OF _ size])
      (use assms in \<open>auto simp: ad_bytes_def ad_fits_def short_usize addr_parse_text intro!: reads_bind [OF reads_id32]
        reads_bind [OF reads_variable] reads_bind_nil [OF reads_guard] reads_bind_nil [OF reads_lift]
        reads_bind_last [OF reads_u64] reads_bind_last [OF reads_finish] reads_ret'\<close>)
  then show ?thesis
    unfolding decode_directory_ad_def
    by (intro run_parser_reads [OF _ assms(3)])
      (use assms(1) in \<open>auto simp: ad_wire_def ad_fits_def intro!: reads_bind [OF reads_variable]
        reads_bind_last [OF reads_variable] reads_bind_last [OF reads_finish] reads_lift\<close>)
qed

lemma decode_directory_ad_plain: "decode_directory_ad bs = Inr ad \<Longrightarrow> addr_plain (da_addr ad)"
  by (auto simp: decode_directory_ad_def decode_directory_ad_message_def intro: addr_parse_plain)

lemma reads_many_written:
  assumes "\<And>x post. x \<in> set xs \<Longrightarrow> reads p x (enc x) post" and "n = length xs"
  shows "reads (rd_many n p) xs (concat (map enc xs)) post"
proof -
  have "reads (rd_many n p) (fold (\<lambda>x xs. xs @ [x]) xs []) (concat (map enc xs)) post"
    unfolding rd_many_def
    by (rule reads_fold [where I = "\<lambda>_ ys. set ys \<subseteq> set xs"])
      (use assms in \<open>auto intro: reads_bind_last [OF _ reads_ret]\<close>)
  then show ?thesis by simp
qed

definition entry_bytes :: "JoinCode \<times> DirectoryAd \<Rightarrow> bytes" where
  "entry_bytes e = code_bytes (fst e) @ var_bytes (ad_wire (snd e))"

definition watermark_bytes :: "DirectoryWatermark \<Rightarrow> bytes" where
  "watermark_bytes w = peer_bytes (dw_peer_id w) @ vault_bytes (dw_vault_id w) @ to_be_bytes (dw_issued_at w) @ var_bytes (dw_vk w)"

lemma push_directory_entry_Inr:
  "push_directory_entry e = Inr b \<longleftrightarrow> (ad_fits (snd e) \<and> short (ad_wire (snd e))) \<and> b = entry_bytes e"
  by (auto simp: push_directory_entry_def encode_directory_ad_Inr entry_bytes_def)

lemma push_watermark_Inr: "push_watermark w = Inr b \<longleftrightarrow> short (dw_vk w) \<and> b = watermark_bytes w"
  by (auto simp: push_watermark_def watermark_bytes_def)

definition directory_bytes :: "DirectoryState \<Rightarrow> bytes" where
  "directory_bytes st = DIRECTORY_STATE_MAGIC @ [LOCAL_FORMAT_VERSION] @
     len_bytes (length (dst_ads st)) @ concat (map entry_bytes (dst_ads st)) @
     len_bytes (length (dst_watermarks st)) @ concat (map watermark_bytes (dst_watermarks st))"

definition directory_fits :: "DirectoryState \<Rightarrow> bool" where
  "directory_fits st \<longleftrightarrow> short (dst_ads st) \<and> short (dst_watermarks st) \<and>
     (\<forall>e \<in> set (dst_ads st). ad_fits (snd e) \<and> short (ad_wire (snd e))) \<and> (\<forall>w \<in> set (dst_watermarks st). short (dw_vk w))"

lemma encode_directory_state_Inr: "encode_directory_state st = Inr b \<longleftrightarrow> directory_fits st \<and> b = directory_bytes st"
  unfolding encode_directory_state_def
  by (auto simp: push_all_Inr [OF push_directory_entry_Inr] push_all_Inr [OF push_watermark_Inr]
      directory_fits_def directory_bytes_def short_def)

lemma concat_length_ge: "(\<And>x. x \<in> set xs \<Longrightarrow> k \<le> length (f x)) \<Longrightarrow> length xs * k \<le> length (concat (map f xs))"
  by (induction xs) (auto intro: add_mono)

lemma directory_state_roundtrip:
  assumes "encode_directory_state st = Inr b" and "length b \<le> usize_max"
    and "length (dst_ads st) \<le> MAX_DIRECTORY_RECORDS" and "length (dst_watermarks st) \<le> MAX_DIRECTORY_RECORDS"
    and "\<forall>e \<in> set (dst_ads st). addr_plain (da_addr (snd e))"
  shows "decode_directory_state b = Inr st"
proof -
  have st: "directory_fits st" and b: "b = directory_bytes st"
    using assms(1) by (auto simp: encode_directory_state_Inr)
  have entry: "reads rd_directory_entry e (entry_bytes e) post" if "e \<in> set (dst_ads st)" for e post
    using that st assms(5) unfolding rd_directory_entry_def entry_bytes_def directory_fits_def
    by (intro reads_bind [OF reads_id16] reads_bind_last [OF reads_variable] reads_bind_nil [OF reads_lift] reads_ret')
      (auto intro!: decode_directory_ad_wire short_usize)
  have mark: "reads rd_directory_watermark w (watermark_bytes w) post" if "w \<in> set (dst_watermarks st)" for w post
    using that st unfolding rd_directory_watermark_def watermark_bytes_def directory_fits_def
    by (intro reads_bind [OF reads_id32] reads_bind [OF reads_u64] reads_bind_last [OF reads_variable] reads_ret') auto
  have sizes: "length (dst_ads st) * 20 \<le> length (concat (map entry_bytes (dst_ads st)))"
    "length (dst_watermarks st) * 76 \<le> length (concat (map watermark_bytes (dst_watermarks st)))"
    by (rule concat_length_ge, simp add: entry_bytes_def watermark_bytes_def)+
  show ?thesis
    unfolding decode_directory_state_def
    by (rule run_parser_reads [OF _ assms(2)], unfold b directory_bytes_def)
      (use st sizes assms(3,4) in \<open>auto simp: directory_fits_def short_def simp del: append.simps intro!: reads_bind [OF reads_require_prefix]
        reads_bind [OF reads_require_version] reads_bind [OF reads_count] reads_bind_nil [OF reads_guard]
        reads_bind [OF reads_many_written [OF entry refl]] reads_bind_last [OF reads_many_written [OF mark refl]]
        reads_bind_last [OF reads_finish] reads_ret'\<close>)
qed


section \<open>Signing and checking\<close>

text \<open>\<open>now.saturating_sub(issued_at) > MAX_AD_AGE_SECS\<close>.\<close>

definition is_expired :: "u64 \<Rightarrow> u64 \<Rightarrow> bool" where
  "is_expired issued_at now \<longleftrightarrow> (if issued_at \<le> now then now - issued_at else 0) > MAX_AD_AGE_SECS"

definition require_current :: "u64 \<Rightarrow> u64 \<Rightarrow> unit result" where
  "require_current issued_at now =
     and_then (guard_ok (\<not> issued_at > saturating_add now MAX_FUTURE_SKEW_SECS)
       (InvalidInput ''directory record is too far in the future'')) (\<lambda>_.
     guard_ok (\<not> is_expired issued_at now) (InvalidInput ''directory record is expired''))"

text \<open>\<open>IpAddr::is_unspecified\<close>: all bits zero.\<close>

definition require_advertisable :: "SocketAddr \<Rightarrow> unit result" where
  "require_advertisable addr =
     guard_ok (\<not> (case addr of V4 ip port \<Rightarrow> port = 0 \<or> ip = 0 | V6 ip port _ _ \<Rightarrow> port = 0 \<or> ip = 0))
       (InvalidInput ''directory address is not connectable'')"

definition store_signing_key :: "(256 word) kop" where
  "store_signing_key = k_bind store_lock (\<lambda>inner. k_ret (Inr (li_signing_seed (si_local inner))))"

definition ad_sign :: "crypto \<Rightarrow> VaultId \<Rightarrow> SocketAddr \<Rightarrow> u64 \<Rightarrow> DirectoryAd kop" where
  "ad_sign c vault_id addr issued_at =
     k_bind (k_ret (require_advertisable addr)) (\<lambda>_.
     k_bind store_identity (\<lambda>identity.
     let ad = \<lparr>da_peer_id = id_peer_id identity, da_vault_id = vault_id, da_addr = addr, da_ek = id_ek identity,
           da_vk = id_vk identity, da_issued_at = issued_at, da_signature = []\<rparr> in
     k_bind store_signing_key (\<lambda>seed.
     k_bind (k_ret (directory_ad_m ad)) (\<lambda>m.
     k_bind (k_ret (mldsa_sign c seed DIRECTORY_CONTEXT m)) (\<lambda>signature.
     k_ret (Inr (ad\<lparr>da_signature := signature\<rparr>)))))))"

definition ad_verify_signature :: "crypto \<Rightarrow> DirectoryAd \<Rightarrow> unit result" where
  "ad_verify_signature c ad =
     and_then (require_advertisable (da_addr ad)) (\<lambda>_.
     and_then (validate_public_key c (da_ek ad)) (\<lambda>_.
     and_then (guard_ok (da_peer_id ad = peer_id_for c (da_vk ad)) AuthenticationFailed) (\<lambda>_.
     and_then (directory_ad_m ad) (\<lambda>m.
     mldsa_verify c (da_vk ad) DIRECTORY_CONTEXT m (da_signature ad)))))"

definition ad_verify :: "crypto \<Rightarrow> DirectoryAd \<Rightarrow> u64 \<Rightarrow> unit result" where
  "ad_verify c ad now = and_then (require_current (da_issued_at ad) now) (\<lambda>_. ad_verify_signature c ad)"

definition dir_forget_sign :: "crypto \<Rightarrow> VaultId \<Rightarrow> JoinCode \<Rightarrow> u64 \<Rightarrow> DirForget kop" where
  "dir_forget_sign c vault_id join_code issued_at =
     k_bind store_peer_id (\<lambda>pid.
     let request = \<lparr>df_peer_id = pid, df_vault_id = vault_id, df_join_code = join_code, df_issued_at = issued_at,
           df_signature = []\<rparr> in
     k_bind store_signing_key (\<lambda>seed.
     k_bind (k_ret (mldsa_sign c seed DIRECTORY_CONTEXT (dir_forget_m request))) (\<lambda>signature.
     k_ret (Inr (request\<lparr>df_signature := signature\<rparr>)))))"

definition dir_forget_verify :: "crypto \<Rightarrow> DirForget \<Rightarrow> bytes \<Rightarrow> u64 \<Rightarrow> unit result" where
  "dir_forget_verify c request verification_key now =
     and_then (require_current (df_issued_at request) now) (\<lambda>_.
     and_then (guard_ok (df_peer_id request = peer_id_for c verification_key) AuthenticationFailed) (\<lambda>_.
     mldsa_verify c verification_key DIRECTORY_CONTEXT (dir_forget_m request) (df_signature request)))"

section \<open>The store\<close>

type_synonym ads = "(JoinCode, DirectoryAd) btree_map"
type_synonym watermarks = "(PeerId \<times> VaultId, DirectoryWatermark) btree_map"

record DirectoryStore =
  ds_ads :: ads
  ds_watermarks :: watermarks
  ds_failed :: bool

text \<open>
  What is at the path of the store: nothing, something that is not a regular file, or a file with its
  permission bits. A write replaces it whole or not at all; it may fail before any effect or, after
  the rename, in the directory's own synchronisation.
\<close>

datatype fs_entry = Missing | NotRegular | Regular "32 word" bytes

datatype write_outcome = Written | NoEntropy | FailedBefore | FailedAfter

definition directory_read_private :: "unit result \<Rightarrow> fs_entry \<Rightarrow> bytes option result" where
  "directory_read_private reading entry =
     (case entry of
        Missing \<Rightarrow> Inr None
      | NotRegular \<Rightarrow> Inl (InvalidInput ''directory store path must be a regular file'')
      | Regular mode bs \<Rightarrow>
          and_then (guard_ok (\<not> and mode 63 \<noteq> 0) (InvalidInput ''directory store permissions must be owner-only (0600)'')) (\<lambda>_.
          and_then (guard_ok (\<not> length bs > MAX_STATE_BYTES) (InvalidInput ''directory store is too large'')) (\<lambda>_.
          and_then reading (\<lambda>_.
          Inr (Some bs)))))"

definition directory_private_write :: "write_outcome \<Rightarrow> bytes \<Rightarrow> fs_entry \<Rightarrow> unit result \<times> fs_entry" where
  "directory_private_write w bs entry =
     (if length bs > MAX_STATE_BYTES then (Inl (InvalidInput ''directory store is too large''), entry)
      else case w of
        Written \<Rightarrow> (Inr (), Regular 384 bs)
      | NoEntropy \<Rightarrow> (Inl (State ''OS entropy unavailable''), entry)
      | FailedBefore \<Rightarrow> (Inl Io, entry)
      | FailedAfter \<Rightarrow> (Inl Io, Regular 384 bs))"

definition require_peer_caps :: "ads \<Rightarrow> unit result" where
  "require_peer_caps ads =
     and_then (fold_ok (\<lambda>ad counts.
       let count = bm_or_default 0 counts (da_peer_id ad) + (1 :: nat) in
       and_then (guard_ok (\<not> count > MAX_ADS_PER_PEER) (InvalidInput ''directory peer ad cap exceeded'')) (\<lambda>_.
       Inr (bm_insert (da_peer_id ad) count counts))) (bm_values ads) []) (\<lambda>_. Inr ())"

definition open_ads :: "crypto \<Rightarrow> (JoinCode \<times> DirectoryAd) list \<Rightarrow> ads result" where
  "open_ads c entries =
     fold_ok (\<lambda>(code, ad) ads.
       and_then (ad_verify_signature c ad) (\<lambda>_.
       and_then (guard_ok (\<not> bm_contains ads code) (InvalidInput ''duplicate directory join code'')) (\<lambda>_.
       Inr (bm_insert code ad ads)))) entries []"

definition open_watermarks :: "crypto \<Rightarrow> DirectoryWatermark list \<Rightarrow> watermarks result" where
  "open_watermarks c entries =
     fold_ok (\<lambda>w watermarks.
       and_then (guard_ok (dw_peer_id w = peer_id_for c (dw_vk w)) AuthenticationFailed) (\<lambda>_.
       let key = (dw_peer_id w, dw_vault_id w) in
       and_then (guard_ok (\<not> bm_contains watermarks key) (InvalidInput ''duplicate directory watermark'')) (\<lambda>_.
       Inr (bm_insert key w watermarks)))) entries []"

definition load_state :: "bytes option \<Rightarrow> DirectoryState result" where
  "load_state bs =
     (case bs of
        Some bs \<Rightarrow> if bs \<noteq> [] then decode_directory_state bs else Inr \<lparr>dst_ads = [], dst_watermarks = []\<rparr>
      | None \<Rightarrow> Inr \<lparr>dst_ads = [], dst_watermarks = []\<rparr>)"

definition require_watermarks :: "ads \<Rightarrow> watermarks \<Rightarrow> unit result" where
  "require_watermarks ads watermarks =
     fold_ok (\<lambda>ad _.
       and_then (ok_or (bm_get watermarks (da_peer_id ad, da_vault_id ad))
         (InvalidInput ''directory ad has no watermark'')) (\<lambda>w.
       guard_ok (\<not> (dw_issued_at w < da_issued_at ad \<or> dw_vk w \<noteq> da_vk ad))
         (InvalidInput ''directory ad watermark mismatch''))) (bm_values ads) ()"

text \<open>
  \<open>setup\<close> is the result of creating the parent directory and opening the lock file, \<open>locked\<close>
  whether another process holds it, \<open>reading\<close> the result of reading the file.
\<close>

definition directory_open ::
  "crypto \<Rightarrow> unit result \<Rightarrow> bool \<Rightarrow> unit result \<Rightarrow> fs_entry \<Rightarrow> DirectoryStore result" where
  "directory_open c setup locked reading entry =
     and_then setup (\<lambda>_.
     and_then (guard_ok (\<not> locked) (State ''directory store is already open'')) (\<lambda>_.
     and_then (directory_read_private reading entry) (\<lambda>bs.
     and_then (load_state bs) (\<lambda>st.
     and_then (open_ads c (dst_ads st)) (\<lambda>ads.
     and_then (open_watermarks c (dst_watermarks st)) (\<lambda>watermarks.
     and_then (guard_ok (\<not> (length ads > MAX_TOTAL_ADS \<or> length watermarks > MAX_TOTAL_ADS))
       (InvalidInput ''directory store exceeds entry cap'')) (\<lambda>_.
     and_then (require_peer_caps ads) (\<lambda>_.
     and_then (require_watermarks ads watermarks) (\<lambda>_.
     Inr \<lparr>ds_ads = ads, ds_watermarks = watermarks, ds_failed = False\<rparr>)))))))))"

definition require_healthy :: "DirectoryStore \<Rightarrow> unit result" where
  "require_healthy self =
     guard_ok (\<not> ds_failed self) (State ''directory persistence failed; reopen required'')"

definition pruned :: "DirectoryStore \<Rightarrow> u64 \<Rightarrow> ads \<times> watermarks" where
  "pruned self now =
     (bm_retain (\<lambda>_ ad. \<not> is_expired (da_issued_at ad) now) (ds_ads self),
      bm_retain (\<lambda>_ w. \<not> is_expired (dw_issued_at w) now) (ds_watermarks self))"

type_synonym 'a dop = "DirectoryStore \<times> fs_entry \<Rightarrow> 'a result \<times> DirectoryStore \<times> fs_entry"

definition state_of :: "ads \<Rightarrow> watermarks \<Rightarrow> DirectoryState" where
  "state_of ads watermarks = \<lparr>dst_ads = ads, dst_watermarks = bm_values watermarks\<rparr>"

definition directory_commit :: "write_outcome \<Rightarrow> ads \<Rightarrow> watermarks \<Rightarrow> unit dop" where
  "directory_commit w ads watermarks s = (case s of (self, disk) \<Rightarrow>
     (case encode_directory_state (state_of ads watermarks) of
        Inl e \<Rightarrow> (Inl e, self, disk)
      | Inr bs \<Rightarrow>
          (case directory_private_write w bs disk of
             (Inl e, disk) \<Rightarrow> (Inl e, self\<lparr>ds_failed := True\<rparr>, disk)
           | (Inr _, disk) \<Rightarrow> (Inr (), self\<lparr>ds_ads := ads, ds_watermarks := watermarks\<rparr>, disk))))"

text \<open>\<open>put\<close> up to the commit: the maps with the advertisement taken in.\<close>

definition admit_ad :: "crypto \<Rightarrow> JoinCode \<Rightarrow> DirectoryAd \<Rightarrow> u64 \<Rightarrow> DirectoryStore \<Rightarrow> (ads \<times> watermarks) result" where
  "admit_ad c code ad now self =
     and_then (require_healthy self) (\<lambda>_.
     and_then (ad_verify c ad now) (\<lambda>_.
     case pruned self now of (ads, watermarks) \<Rightarrow>
     and_then (guard_ok (\<not> (case bm_get ads code of Some existing \<Rightarrow> da_peer_id existing \<noteq> da_peer_id ad | None \<Rightarrow> False))
       AuthenticationFailed) (\<lambda>_.
     let pair = (da_peer_id ad, da_vault_id ad) in
     and_then (guard_ok (\<not> (case bm_get watermarks pair of Some w \<Rightarrow> da_issued_at ad \<le> dw_issued_at w | None \<Rightarrow> False))
       ReplayRejected) (\<lambda>_.
     and_then (guard_ok (\<not> (\<not> bm_contains watermarks pair \<and> length watermarks \<ge> MAX_TOTAL_ADS))
       (InvalidInput ''directory watermark cap reached'')) (\<lambda>_.
     let replaces_same_peer = (case bm_get ads code of Some existing \<Rightarrow> da_peer_id existing = da_peer_id ad | None \<Rightarrow> False);
         peer_count = length (filter (\<lambda>existing. da_peer_id existing = da_peer_id ad) (bm_values ads)) in
     and_then (guard_ok (\<not> (\<not> replaces_same_peer \<and> peer_count \<ge> MAX_ADS_PER_PEER))
       (InvalidInput ''directory peer ad cap reached'')) (\<lambda>_.
     and_then (guard_ok (\<not> (\<not> bm_contains ads code \<and> length ads \<ge> MAX_TOTAL_ADS))
       (InvalidInput ''directory ad cap reached'')) (\<lambda>_.
     Inr (bm_insert code ad ads,
          bm_insert pair \<lparr>dw_peer_id = da_peer_id ad, dw_vault_id = da_vault_id ad, dw_issued_at = da_issued_at ad,
            dw_vk = da_vk ad\<rparr> watermarks))))))))"

definition directory_put :: "crypto \<Rightarrow> write_outcome \<Rightarrow> JoinCode \<Rightarrow> DirectoryAd \<Rightarrow> u64 \<Rightarrow> unit dop" where
  "directory_put c w code ad now s =
     (case admit_ad c code ad now (fst s) of
        Inl e \<Rightarrow> (Inl e, s)
      | Inr (ads, watermarks) \<Rightarrow> directory_commit w ads watermarks s)"

definition directory_lookup :: "write_outcome \<Rightarrow> JoinCode \<Rightarrow> u64 \<Rightarrow> DirectoryAd option dop" where
  "directory_lookup w code now s =
     (case require_healthy (fst s) of
        Inl e \<Rightarrow> (Inl e, s)
      | Inr _ \<Rightarrow>
          (case pruned (fst s) now of (ads, watermarks) \<Rightarrow>
             if length ads \<noteq> length (ds_ads (fst s)) \<or> length watermarks \<noteq> length (ds_watermarks (fst s)) then
               (case directory_commit w ads watermarks s of
                  (Inl e, s) \<Rightarrow> (Inl e, s)
                | (Inr _, s) \<Rightarrow> (Inr (bm_get (ds_ads (fst s)) code), s))
             else (Inr (bm_get (ds_ads (fst s)) code), s)))"

definition retire_ad :: "crypto \<Rightarrow> DirForget \<Rightarrow> u64 \<Rightarrow> DirectoryStore \<Rightarrow> (ads \<times> watermarks) result" where
  "retire_ad c request now self =
     and_then (require_healthy self) (\<lambda>_.
     case pruned self now of (ads, watermarks) \<Rightarrow>
     and_then (guard_ok (\<not> (case bm_get ads (df_join_code request) of
         Some existing \<Rightarrow> da_peer_id existing \<noteq> df_peer_id request \<or> da_vault_id existing \<noteq> df_vault_id request
       | None \<Rightarrow> False)) AuthenticationFailed) (\<lambda>_.
     let pair = (df_peer_id request, df_vault_id request) in
     and_then (ok_or (bm_get watermarks pair) AuthenticationFailed) (\<lambda>w.
     and_then (dir_forget_verify c request (dw_vk w) now) (\<lambda>_.
     and_then (guard_ok (\<not> df_issued_at request \<le> dw_issued_at w) ReplayRejected) (\<lambda>_.
     Inr (bm_remove (df_join_code request) ads,
          bm_insert pair \<lparr>dw_peer_id = df_peer_id request, dw_vault_id = df_vault_id request,
            dw_issued_at = df_issued_at request, dw_vk = dw_vk w\<rparr> watermarks))))))"

definition directory_forget :: "crypto \<Rightarrow> write_outcome \<Rightarrow> DirForget \<Rightarrow> u64 \<Rightarrow> unit dop" where
  "directory_forget c w request now s =
     (case retire_ad c request now (fst s) of
        Inl e \<Rightarrow> (Inl e, s)
      | Inr (ads, watermarks) \<Rightarrow> directory_commit w ads watermarks s)"

section \<open>Requests\<close>

definition decode_join_code :: "bytes \<Rightarrow> JoinCode result" where
  "decode_join_code payload =
     (if length payload = 16 then Inr (JoinCode (from_be_bytes payload))
      else Inl (InvalidInput ''directory lookup requires a 16-byte join code''))"

definition decode_put :: "bytes \<Rightarrow> (JoinCode \<times> DirectoryAd) result" where
  "decode_put payload =
     and_then (guard_ok (16 \<le> length payload) (InvalidInput ''directory put omits join code'')) (\<lambda>_.
     and_then (decode_join_code (take 16 payload)) (\<lambda>code.
     and_then (decode_directory_ad (drop 16 payload)) (\<lambda>ad.
     Inr (code, ad))))"

text \<open>
  \<open>handle_connection\<close> after its frame is read: the answer's frame, or an error, after which the
  connection is closed without an answer.
\<close>

definition handle_request :: "crypto \<Rightarrow> write_outcome \<Rightarrow> u64 result \<Rightarrow> Frame \<Rightarrow> Frame dop" where
  "handle_request c w unix_time request s =
     (case unix_time of
        Inl e \<Rightarrow> (Inl e, s)
      | Inr now \<Rightarrow>
          if fr_kind request = DIR_LOOKUP_KIND then
            (case decode_join_code (fr_payload request) of
               Inl e \<Rightarrow> (Inl e, s)
             | Inr code \<Rightarrow>
                 (case directory_lookup w code now s of
                    (Inl e, s) \<Rightarrow> (Inl e, s)
                  | (Inr found, s) \<Rightarrow>
                      (and_then (ok_or found (InvalidInput ''directory join code not found'')) (\<lambda>ad.
                       and_then (encode_directory_ad ad) (frame_new DIR_AD_KIND)), s)))
          else if fr_kind request = DIR_PUT_KIND then
            (case decode_put (fr_payload request) of
               Inl e \<Rightarrow> (Inl e, s)
             | Inr (code, ad) \<Rightarrow>
                 (case directory_put c w code ad now s of
                    (Inl e, s) \<Rightarrow> (Inl e, s)
                  | (Inr _, s) \<Rightarrow> (frame_new DIR_PUT_KIND [], s)))
          else if fr_kind request = DIR_FORGET_KIND then
            (case decode_dir_forget (fr_payload request) of
               Inl e \<Rightarrow> (Inl e, s)
             | Inr request \<Rightarrow>
                 (case directory_forget c w request now s of
                    (Inl e, s) \<Rightarrow> (Inl e, s)
                  | (Inr _, s) \<Rightarrow> (frame_new DIR_FORGET_KIND [], s)))
          else (Inl (InvalidInput ''unsupported directory request type''), s))"

text \<open>The bytes of a connection: the request read from the stream, the answer written to it.\<close>

definition handle_connection :: "crypto \<Rightarrow> write_outcome \<Rightarrow> u64 result \<Rightarrow> bytes \<Rightarrow> bytes dop" where
  "handle_connection c w unix_time stream s =
     (case read_frame stream of
        Inl e \<Rightarrow> (Inl e, s)
      | Inr (request, _) \<Rightarrow>
          (case handle_request c w unix_time request s of (response, s) \<Rightarrow> (and_then response write_frame, s)))"

section \<open>The client\<close>

text \<open>
  A request as a frame, and what is made of the answer; a connection that ends early is the error of
  reading past the end of the stream. \<open>Eof\<close> tells it from the other I/O errors.
\<close>

datatype reply = Eof | ReplyError error | Received Frame

definition reply_result :: "reply \<Rightarrow> Frame result" where
  "reply_result r = (case r of Eof \<Rightarrow> Inl Io | ReplyError e \<Rightarrow> Inl e | Received f \<Rightarrow> Inr f)"

definition require_empty_ack :: "Frame \<Rightarrow> byte \<Rightarrow> unit result" where
  "require_empty_ack response expected_kind =
     guard_ok (\<not> (fr_kind response \<noteq> expected_kind \<or> fr_payload response \<noteq> [])) (InvalidInput ''invalid directory acknowledgement'')"

definition client_put_request :: "JoinCode \<Rightarrow> DirectoryAd \<Rightarrow> Frame result" where
  "client_put_request code ad =
     and_then (encode_directory_ad ad) (\<lambda>b. frame_new DIR_PUT_KIND (code_bytes code @ b))"

definition client_put :: "(Frame \<Rightarrow> reply) \<Rightarrow> JoinCode \<Rightarrow> DirectoryAd \<Rightarrow> unit result" where
  "client_put exchange code ad =
     and_then (client_put_request code ad) (\<lambda>request.
     and_then (reply_result (exchange request)) (\<lambda>response.
     require_empty_ack response DIR_PUT_KIND))"

definition client_lookup :: "(Frame \<Rightarrow> reply) \<Rightarrow> JoinCode \<Rightarrow> DirectoryAd option result" where
  "client_lookup exchange code =
     and_then (frame_new DIR_LOOKUP_KIND (code_bytes code)) (\<lambda>request.
     case exchange request of
       Eof \<Rightarrow> Inr None
     | ReplyError e \<Rightarrow> Inl e
     | Received response \<Rightarrow>
         and_then (guard_ok (fr_kind response = DIR_AD_KIND) (InvalidInput ''unexpected directory response type'')) (\<lambda>_.
         and_then (decode_directory_ad (fr_payload response)) (\<lambda>ad. Inr (Some ad))))"

definition client_forget :: "(Frame \<Rightarrow> reply) \<Rightarrow> DirForget \<Rightarrow> unit result" where
  "client_forget exchange request =
     and_then (encode_dir_forget request) (\<lambda>payload.
     and_then (frame_new DIR_FORGET_KIND payload) (\<lambda>frame.
     and_then (reply_result (exchange frame)) (\<lambda>response.
     require_empty_ack response DIR_FORGET_KIND)))"

end
