(* ===== verification/Directory_Inv.thy ===== *)
theory Directory_Inv
  imports Directory
begin

text \<open>
  What the directory server keeps: its invariant through every request and restart, that no record is
  accepted twice or after a newer one of its peer and vault, also across pruning, failed writes and
  restarts, and that an accepted record is in the file and found by the next lookup.
\<close>

section \<open>Time\<close>

lemma is_expired_unat:
  "is_expired t now \<longleftrightarrow> unat t + unat MAX_AD_AGE_SECS < unat now"
proof (cases "t \<le> now")
  case True
  then have "unat (now - t) = unat now - unat t" "unat t \<le> unat now"
    by (simp_all add: unat_sub word_le_nat_alt)
  with True show ?thesis by (auto simp: is_expired_def word_less_nat_alt)
next
  case False
  then show ?thesis by (auto simp: is_expired_def word_le_nat_alt not_le)
qed

lemma is_expired_older: "t \<le> t' \<Longrightarrow> is_expired t' now \<Longrightarrow> is_expired t now"
  by (simp add: is_expired_unat word_le_nat_alt)

lemma is_expired_later: "now \<le> now' \<Longrightarrow> is_expired t now \<Longrightarrow> is_expired t now'"
  by (simp add: is_expired_unat word_le_nat_alt)

lemma require_current_fresh: "require_current t now = Inr () \<Longrightarrow> \<not> is_expired t now"
  by (simp add: require_current_def)

section \<open>The invariant\<close>

definition peer_ads :: "PeerId \<Rightarrow> ads \<Rightarrow> nat" where
  "peer_ads pid ads = length (filter (\<lambda>ad. da_peer_id ad = pid) (bm_values ads))"

definition watermark_key :: "DirectoryWatermark \<Rightarrow> PeerId \<times> VaultId" where
  "watermark_key w = (dw_peer_id w, dw_vault_id w)"

definition watermarks_ok :: "crypto \<Rightarrow> watermarks \<Rightarrow> bool" where
  "watermarks_ok c watermarks \<longleftrightarrow> bm_ok watermarks \<and> bm_keyed watermark_key watermarks \<and> length watermarks \<le> MAX_TOTAL_ADS \<and>
     (\<forall>w \<in> set (bm_values watermarks). dw_peer_id w = peer_id_for c (dw_vk w))"

definition ads_ok :: "crypto \<Rightarrow> ads \<Rightarrow> bool" where
  "ads_ok c ads \<longleftrightarrow> bm_ok ads \<and> length ads \<le> MAX_TOTAL_ADS \<and> (\<forall>pid. peer_ads pid ads \<le> MAX_ADS_PER_PEER) \<and>
     (\<forall>ad \<in> set (bm_values ads). ad_verify_signature c ad = Inr () \<and> addr_plain (da_addr ad))"

definition dominated :: "ads \<Rightarrow> watermarks \<Rightarrow> bool" where
  "dominated ads watermarks \<longleftrightarrow> (\<forall>ad \<in> set (bm_values ads). \<exists>w. bm_get watermarks (da_peer_id ad, da_vault_id ad) = Some w \<and>
     da_issued_at ad \<le> dw_issued_at w)"

definition maps_ok :: "crypto \<Rightarrow> ads \<Rightarrow> watermarks \<Rightarrow> bool" where
  "maps_ok c ads watermarks \<longleftrightarrow> ads_ok c ads \<and> watermarks_ok c watermarks \<and> dominated ads watermarks"

definition directory_ok :: "crypto \<Rightarrow> DirectoryStore \<Rightarrow> bool" where
  "directory_ok c self \<longleftrightarrow> maps_ok c (ds_ads self) (ds_watermarks self)"

lemma bm_length_insert: "length (bm_insert k v m) \<le> Suc (length m)"
  by (induction k v m rule: bm_insert.induct) auto

lemma bm_length_insert_in: "bm_ok m \<Longrightarrow> bm_contains m k \<Longrightarrow> length (bm_insert k v m) = length m"
proof (induction k v m rule: bm_insert.induct)
  case (2 k v k' v' m)
  then show ?case by (auto dest: less_asym)
qed simp

lemma peer_ads_retain: "peer_ads pid (bm_retain P ads) \<le> peer_ads pid ads"
  by (induction ads) (auto simp: peer_ads_def bm_retain_def)

lemma peer_ads_remove: "peer_ads pid (bm_remove k ads) \<le> peer_ads pid ads"
  by (induction ads) (auto simp: peer_ads_def bm_remove_def)

lemma peer_ads_insert:
  "peer_ads pid (bm_insert k ad ads) \<le> peer_ads pid ads + (if da_peer_id ad = pid then 1 else 0)"
  by (induction k ad ads rule: bm_insert.induct) (auto simp: peer_ads_def)

lemma peer_ads_replace:
  assumes "bm_ok ads" and "bm_get ads k = Some old" and "da_peer_id old = da_peer_id ad"
  shows "peer_ads pid (bm_insert k ad ads) = peer_ads pid ads"
  using assms
proof (induction k ad ads rule: bm_insert.induct)
  case (2 k ad k' ad' ads)
  show ?case
  proof (cases "k < k'")
    case True
    have "bm_get ads k = None" using 2 True by (intro bm_get_None_below [of ads k']) auto
    with 2 True show ?thesis by (auto split: if_splits)
  qed (use 2 in \<open>auto simp: peer_ads_def split: if_splits\<close>)
qed simp

lemma peer_caps_loop:
  assumes "bm_ok counts"
  shows "is_ok (fold_ok (\<lambda>ad counts.
       let count = bm_or_default 0 counts (da_peer_id ad) + (1 :: nat) in
       and_then (guard_ok (\<not> count > MAX_ADS_PER_PEER) e) (\<lambda>_.
       Inr (bm_insert (da_peer_id ad) count counts))) xs counts) \<longleftrightarrow>
    (\<forall>pid. length (filter (\<lambda>ad. da_peer_id ad = pid) xs) = 0 \<or>
      bm_or_default 0 counts pid + length (filter (\<lambda>ad. da_peer_id ad = pid) xs) \<le> MAX_ADS_PER_PEER)"
  using assms
proof (induction xs arbitrary: counts)
  case (Cons x xs)
  let ?n = "bm_or_default 0 counts (da_peer_id x) + 1"
  have d: "bm_or_default 0 (bm_insert (da_peer_id x) ?n counts) pid =
      (if pid = da_peer_id x then ?n else bm_or_default 0 counts pid)" for pid
    using Cons.prems by (simp add: bm_or_default_def)
  show ?case
  proof (cases "?n > MAX_ADS_PER_PEER")
    case True
    then show ?thesis by (auto simp: Let_def intro!: exI [of _ "da_peer_id x"])
  next
    case False
    have "(length (filter (\<lambda>ad. da_peer_id ad = pid) xs) = 0 \<or>
        bm_or_default 0 (bm_insert (da_peer_id x) ?n counts) pid + length (filter (\<lambda>ad. da_peer_id ad = pid) xs) \<le> MAX_ADS_PER_PEER) \<longleftrightarrow>
      (length (filter (\<lambda>ad. da_peer_id ad = pid) (x # xs)) = 0 \<or>
        bm_or_default 0 counts pid + length (filter (\<lambda>ad. da_peer_id ad = pid) (x # xs)) \<le> MAX_ADS_PER_PEER)" for pid
      using False unfolding d by (cases "pid = da_peer_id x"; cases "length (filter (\<lambda>ad. da_peer_id ad = pid) xs) = 0") auto
    with False Cons.IH [of "bm_insert (da_peer_id x) ?n counts"] Cons.prems show ?thesis
      by (simp add: Let_def)
  qed
qed simp

lemma require_peer_caps_iff: "require_peer_caps ads = Inr () \<longleftrightarrow> (\<forall>pid. peer_ads pid ads \<le> MAX_ADS_PER_PEER)"
proof -
  have "require_peer_caps ads = Inr () \<longleftrightarrow> is_ok (fold_ok (\<lambda>ad counts.
       let count = bm_or_default 0 counts (da_peer_id ad) + (1 :: nat) in
       and_then (guard_ok (\<not> count > MAX_ADS_PER_PEER) (InvalidInput ''directory peer ad cap exceeded'')) (\<lambda>_.
       Inr (bm_insert (da_peer_id ad) count counts))) (bm_values ads) [])"
    by (auto simp: require_peer_caps_def is_ok_iff)
  also have "\<dots> \<longleftrightarrow> (\<forall>pid. peer_ads pid ads \<le> MAX_ADS_PER_PEER)"
    by (subst peer_caps_loop) (auto simp: peer_ads_def bm_or_default_def intro: le_trans [OF eq_imp_le])
  finally show ?thesis .
qed

section \<open>Opening\<close>

lemma open_ads_ok:
  assumes "open_ads c entries = Inr ads"
  shows "bm_ok ads" and "\<forall>ad \<in> set (bm_values ads). ad_verify_signature c ad = Inr () \<and> ad \<in> snd ` set entries"
proof -
  have "bm_ok ads \<and> (\<forall>ad \<in> set (bm_values ads). ad_verify_signature c ad = Inr () \<and> ad \<in> snd ` set entries)"
    using assms unfolding open_ads_def
  proof (rule fold_ok_invariant)
    fix e ads ads'
    assume e: "e \<in> set entries" and ok: "bm_ok ads \<and> (\<forall>ad \<in> set (bm_values ads). ad_verify_signature c ad = Inr () \<and> ad \<in> snd ` set entries)"
      and r: "(case e of (code, ad) \<Rightarrow> \<lambda>ads. and_then (ad_verify_signature c ad) (\<lambda>_. and_then (guard_ok (\<not> bm_contains ads code)
         (InvalidInput ''duplicate directory join code'')) (\<lambda>_. Inr (bm_insert code ad ads)))) ads = Inr ads'"
    obtain code ad where "e = (code, ad)" by force
    with ok r e show "bm_ok ads' \<and> (\<forall>ad \<in> set (bm_values ads'). ad_verify_signature c ad = Inr () \<and> ad \<in> snd ` set entries)"
      using set_bm_insert_sub [of code ad ads] by force
  qed simp
  then show "bm_ok ads" "\<forall>ad \<in> set (bm_values ads). ad_verify_signature c ad = Inr () \<and> ad \<in> snd ` set entries" by auto
qed

lemma open_watermarks_ok:
  assumes "open_watermarks c entries = Inr watermarks"
  shows "bm_ok watermarks" and "bm_keyed watermark_key watermarks"
    and "\<forall>w \<in> set (bm_values watermarks). dw_peer_id w = peer_id_for c (dw_vk w)"
proof -
  let ?P = "\<lambda>watermarks. bm_ok watermarks \<and> bm_keyed watermark_key watermarks \<and>
    (\<forall>w \<in> set (bm_values watermarks). dw_peer_id w = peer_id_for c (dw_vk w))"
  have "?P watermarks"
    using assms unfolding open_watermarks_def
  proof (rule fold_ok_invariant)
    fix w watermarks watermarks'
    assume ok: "?P watermarks" and r: "and_then (guard_ok (dw_peer_id w = peer_id_for c (dw_vk w)) AuthenticationFailed) (\<lambda>_.
       let key = (dw_peer_id w, dw_vault_id w) in
       and_then (guard_ok (\<not> bm_contains watermarks key) (InvalidInput ''duplicate directory watermark'')) (\<lambda>_.
       Inr (bm_insert key w watermarks))) = Inr watermarks'"
    have "watermarks' = bm_insert (watermark_key w) w watermarks" "dw_peer_id w = peer_id_for c (dw_vk w)"
      using r by (auto simp: Let_def watermark_key_def)
    with ok show "?P watermarks'"
      using set_bm_insert_sub [of "watermark_key w" w watermarks] by (auto intro: bm_keyed_insert)
  qed (simp add: bm_keyed_def)
  then show "bm_ok watermarks" "bm_keyed watermark_key watermarks"
    "\<forall>w \<in> set (bm_values watermarks). dw_peer_id w = peer_id_for c (dw_vk w)" by auto
qed

lemma decode_directory_state_plain:
  assumes "decode_directory_state bs = Inr st"
  shows "\<forall>e \<in> set (dst_ads st). addr_plain (da_addr (snd e))"
proof -
  have "\<exists>n r r' ads. rd_many n rd_directory_entry r = Inr (ads, r') \<and> dst_ads st = ads"
    using assms by (clarsimp simp: decode_directory_state_def) blast
  then obtain n r r' where "rd_fold n (\<lambda>xs. p_bind rd_directory_entry (\<lambda>x. p_ret (xs @ [x]))) [] r = Inr (dst_ads st, r')"
    by (auto simp: rd_many_def)
  moreover have "\<forall>e \<in> set ys. addr_plain (da_addr (snd e))"
    if "rd_fold n (\<lambda>xs. p_bind rd_directory_entry (\<lambda>x. p_ret (xs @ [x]))) xs r = Inr (ys, r')"
      "\<forall>e \<in> set xs. addr_plain (da_addr (snd e))" for n xs r ys r'
    using that
  proof (induction n arbitrary: xs r)
    case (Suc n)
    then obtain x r1 where x: "rd_directory_entry r = Inr (x, r1)"
        "rd_fold n (\<lambda>xs. p_bind rd_directory_entry (\<lambda>x. p_ret (xs @ [x]))) (xs @ [x]) r1 = Inr (ys, r')"
      by auto
    from x(1) have "addr_plain (da_addr (snd x))"
      by (auto simp: rd_directory_entry_def dest: decode_directory_ad_plain)
    with Suc.IH [OF x(2)] Suc.prems(2) show ?case by simp
  qed simp
  ultimately show ?thesis by fastforce
qed

lemma load_state_plain: "load_state bs = Inr st \<Longrightarrow> \<forall>e \<in> set (dst_ads st). addr_plain (da_addr (snd e))"
  using decode_directory_state_plain [of _ st] by (auto simp: load_state_def split: option.splits if_splits)

lemma require_watermarks_iff:
  "require_watermarks ads watermarks = Inr () \<longleftrightarrow> (\<forall>ad \<in> set (bm_values ads). \<exists>w.
     bm_get watermarks (da_peer_id ad, da_vault_id ad) = Some w \<and> da_issued_at ad \<le> dw_issued_at w \<and> dw_vk w = da_vk ad)"
  unfolding require_watermarks_def fold_ok_unit by (fastforce simp: not_less)

lemma directory_open_Inr:
  "directory_open c setup locked reading entry = Inr self \<longleftrightarrow> setup = Inr () \<and> \<not> locked \<and>
     (\<exists>bs st. directory_read_private reading entry = Inr bs \<and> load_state bs = Inr st \<and>
       open_ads c (dst_ads st) = Inr (ds_ads self) \<and> open_watermarks c (dst_watermarks st) = Inr (ds_watermarks self)) \<and>
     length (ds_ads self) \<le> MAX_TOTAL_ADS \<and> length (ds_watermarks self) \<le> MAX_TOTAL_ADS \<and>
     require_peer_caps (ds_ads self) = Inr () \<and> require_watermarks (ds_ads self) (ds_watermarks self) = Inr () \<and> \<not> ds_failed self"
  by (cases self) (auto simp: directory_open_def not_less)

lemma directory_open_ok:
  assumes "directory_open c setup locked reading entry = Inr self"
  shows "directory_ok c self" and "\<not> ds_failed self"
proof -
  obtain bs st where st: "load_state bs = Inr st" "open_ads c (dst_ads st) = Inr (ds_ads self)"
      "open_watermarks c (dst_watermarks st) = Inr (ds_watermarks self)"
    using assms by (auto simp: directory_open_Inr)
  show "\<not> ds_failed self" using assms by (simp add: directory_open_Inr)
  have "\<forall>ad \<in> set (bm_values (ds_ads self)). addr_plain (da_addr ad)"
    using open_ads_ok(2) [OF st(2)] load_state_plain [OF st(1)] by fastforce
  then show "directory_ok c self"
    using open_ads_ok [OF st(2)] open_watermarks_ok [OF st(3)] assms
    by (auto simp: directory_open_Inr directory_ok_def maps_ok_def ads_ok_def watermarks_ok_def require_peer_caps_iff
        require_watermarks_iff dominated_def)
qed

section \<open>Changes of the maps\<close>

lemma retained_ok:
  assumes "directory_ok c self" and "pruned self now = (ads, watermarks)"
  shows "maps_ok c ads watermarks" and "\<And>k. bm_get watermarks k = (case bm_get (ds_watermarks self) k of
      Some w \<Rightarrow> if is_expired (dw_issued_at w) now then None else Some w | None \<Rightarrow> None)"
    and "\<And>k. bm_get ads k = (case bm_get (ds_ads self) k of
      Some ad \<Rightarrow> if is_expired (da_issued_at ad) now then None else Some ad | None \<Rightarrow> None)"
proof -
  let ?A = "ds_ads self" and ?W = "ds_watermarks self"
  have self: "ads_ok c ?A" "watermarks_ok c ?W" "dominated ?A ?W"
    using assms(1) by (auto simp: directory_ok_def maps_ok_def)
  have p: "ads = bm_retain (\<lambda>_ ad. \<not> is_expired (da_issued_at ad) now) ?A"
    "watermarks = bm_retain (\<lambda>_ w. \<not> is_expired (dw_issued_at w) now) ?W"
    using assms(2) by (auto simp: pruned_def)
  show w: "bm_get watermarks k = (case bm_get (ds_watermarks self) k of
      Some w \<Rightarrow> if is_expired (dw_issued_at w) now then None else Some w | None \<Rightarrow> None)" for k
    using self(2) by (auto simp: p bm_get_retain watermarks_ok_def split: option.splits)
  show "bm_get ads k = (case bm_get (ds_ads self) k of
      Some ad \<Rightarrow> if is_expired (da_issued_at ad) now then None else Some ad | None \<Rightarrow> None)" for k
    using self(1) by (auto simp: p bm_get_retain ads_ok_def split: option.splits)
  have "ads_ok c ads"
    using self(1) peer_ads_retain [of _ "\<lambda>_ ad. \<not> is_expired (da_issued_at ad) now" ?A]
    by (auto simp: p ads_ok_def bm_retain_def intro: le_trans [OF length_filter_le] le_trans)
  moreover have "watermarks_ok c watermarks"
    using self(2) by (auto simp: p watermarks_ok_def bm_retain_def bm_keyed_def intro: le_trans [OF length_filter_le])
  moreover have "dominated ads watermarks"
    unfolding dominated_def
  proof
    fix ad assume ad: "ad \<in> set (bm_values ads)"
    then obtain w where "bm_get ?W (da_peer_id ad, da_vault_id ad) = Some w" "da_issued_at ad \<le> dw_issued_at w"
      using self(3) by (auto simp: dominated_def p)
    then show "\<exists>w. bm_get watermarks (da_peer_id ad, da_vault_id ad) = Some w \<and> da_issued_at ad \<le> dw_issued_at w"
      using ad is_expired_older [of "da_issued_at ad" "dw_issued_at w" now] by (auto simp: w p(1))
  qed
  ultimately show "maps_ok c ads watermarks" by (simp add: maps_ok_def)
qed


lemma ads_ok_insert:
  assumes ads: "ads_ok c ads" and v: "ad_verify_signature c ad = Inr ()" "addr_plain (da_addr ad)"
    and caps: "bm_contains ads code \<or> length ads < MAX_TOTAL_ADS"
    and peer: "(\<exists>old. bm_get ads code = Some old \<and> da_peer_id old = da_peer_id ad) \<or> peer_ads (da_peer_id ad) ads < MAX_ADS_PER_PEER"
  shows "ads_ok c (bm_insert code ad ads)"
proof -
  have ok: "bm_ok ads" "length ads \<le> MAX_TOTAL_ADS" and p: "\<And>pid. peer_ads pid ads \<le> MAX_ADS_PER_PEER"
    using ads by (auto simp: ads_ok_def)
  have "length (bm_insert code ad ads) \<le> MAX_TOTAL_ADS"
    using caps ok bm_length_insert [of code ad ads] bm_length_insert_in [OF ok(1), of code ad] by linarith
  moreover have "peer_ads pid (bm_insert code ad ads) \<le> MAX_ADS_PER_PEER" for pid
  proof (cases "\<exists>old. bm_get ads code = Some old \<and> da_peer_id old = da_peer_id ad")
    case True
    then show ?thesis using peer_ads_replace [OF ok(1)] p by fastforce
  next
    case False
    then show ?thesis using peer peer_ads_insert [of pid code ad ads] p [of pid] by (auto split: if_splits)
  qed
  moreover have "set (bm_values (bm_insert code ad ads)) \<subseteq> insert ad (set (bm_values ads))"
    using set_bm_insert_sub [of code ad ads] by fastforce
  then have "\<forall>a \<in> set (bm_values (bm_insert code ad ads)). ad_verify_signature c a = Inr () \<and> addr_plain (da_addr a)"
    using ads v by (auto simp: ads_ok_def simp del: set_map)
  ultimately show ?thesis using ok by (simp add: ads_ok_def)
qed

lemma watermarks_ok_insert:
  assumes "watermarks_ok c watermarks" and "dw_peer_id w = peer_id_for c (dw_vk w)"
    and caps: "bm_contains watermarks (watermark_key w) \<or> length watermarks < MAX_TOTAL_ADS"
  shows "watermarks_ok c (bm_insert (watermark_key w) w watermarks)"
proof -
  have "length (bm_insert (watermark_key w) w watermarks) \<le> MAX_TOTAL_ADS"
    using caps assms(1) bm_length_insert [of "watermark_key w" w watermarks] bm_length_insert_in [of watermarks "watermark_key w" w]
    unfolding watermarks_ok_def by linarith
  moreover have "set (bm_values (bm_insert (watermark_key w) w watermarks)) \<subseteq> insert w (set (bm_values watermarks))"
    using set_bm_insert_sub [of "watermark_key w" w watermarks] by fastforce
  ultimately show ?thesis
    using assms(1,2) by (auto simp: watermarks_ok_def bm_keyed_insert simp del: set_map)
qed

lemma dominated_raise:
  assumes "dominated ads watermarks" and "bm_ok watermarks"
    and "set (bm_values ads') \<subseteq> set (bm_values ads) \<union> {ad. watermark_key w = (da_peer_id ad, da_vault_id ad) \<and> da_issued_at ad \<le> dw_issued_at w}"
    and "\<And>old. bm_get watermarks (watermark_key w) = Some old \<Longrightarrow> dw_issued_at old \<le> dw_issued_at w"
  shows "dominated ads' (bm_insert (watermark_key w) w watermarks)"
  unfolding dominated_def
proof
  fix ad assume "ad \<in> set (bm_values ads')"
  with assms(3) consider "ad \<in> set (bm_values ads)" | "watermark_key w = (da_peer_id ad, da_vault_id ad)" "da_issued_at ad \<le> dw_issued_at w"
    by blast
  then show "\<exists>v. bm_get (bm_insert (watermark_key w) w watermarks) (da_peer_id ad, da_vault_id ad) = Some v \<and> da_issued_at ad \<le> dw_issued_at v"
  proof cases
    case 1
    then obtain v where "bm_get watermarks (da_peer_id ad, da_vault_id ad) = Some v" "da_issued_at ad \<le> dw_issued_at v"
      using assms(1) by (auto simp: dominated_def)
    then show ?thesis using assms(2,4) by (fastforce intro: order_trans)
  qed (use assms(2) in simp)
qed

text \<open>A record of a peer and vault: an advertisement or a retirement with the time it was issued.\<close>

definition newer :: "watermarks \<Rightarrow> PeerId \<times> VaultId \<Rightarrow> u64 \<Rightarrow> bool" where
  "newer watermarks k t \<longleftrightarrow> (\<forall>w. bm_get watermarks k = Some w \<longrightarrow> dw_issued_at w < t)"

lemma admit_ad_spec:
  assumes "directory_ok c self" and "addr_plain (da_addr ad)" and "admit_ad c code ad now self = Inr (ads', watermarks')"
  obtains ads watermarks where "pruned self now = (ads, watermarks)" and "maps_ok c ads' watermarks'"
    and "ads' = bm_insert code ad ads" and "\<not> is_expired (da_issued_at ad) now"
    and "watermarks' = bm_insert (da_peer_id ad, da_vault_id ad) \<lparr>dw_peer_id = da_peer_id ad, dw_vault_id = da_vault_id ad,
          dw_issued_at = da_issued_at ad, dw_vk = da_vk ad\<rparr> watermarks"
    and "newer watermarks (da_peer_id ad, da_vault_id ad) (da_issued_at ad)"
proof -
  obtain ads watermarks where p: "pruned self now = (ads, watermarks)" by force
  let ?w = "\<lparr>dw_peer_id = da_peer_id ad, dw_vault_id = da_vault_id ad, dw_issued_at = da_issued_at ad, dw_vk = da_vk ad\<rparr>"
  have a: "ad_verify c ad now = Inr ()" "ads' = bm_insert code ad ads" "watermarks' = bm_insert (watermark_key ?w) ?w watermarks"
      "newer watermarks (watermark_key ?w) (da_issued_at ad)"
      "bm_contains watermarks (watermark_key ?w) \<or> length watermarks < MAX_TOTAL_ADS"
      "(\<exists>old. bm_get ads code = Some old \<and> da_peer_id old = da_peer_id ad) \<or> peer_ads (da_peer_id ad) ads < MAX_ADS_PER_PEER"
      "bm_contains ads code \<or> length ads < MAX_TOTAL_ADS"
    using assms(3) p
    by (auto simp: admit_ad_def Let_def watermark_key_def newer_def peer_ads_def not_le not_less split: option.splits)
  note ok = retained_ok(1) [OF assms(1) p]
  have v: "ad_verify_signature c ad = Inr ()" "da_peer_id ad = peer_id_for c (da_vk ad)" "\<not> is_expired (da_issued_at ad) now"
    using a(1) by (auto simp: ad_verify_def ad_verify_signature_def require_current_def)
  have "dominated ads' watermarks'"
    unfolding a(3)
    using ok a(2,4) set_bm_insert_sub [of code ad ads]
    by (intro dominated_raise [of ads]) (auto simp: maps_ok_def watermarks_ok_def newer_def watermark_key_def intro: less_imp_le)
  then have "maps_ok c ads' watermarks'"
    using ok ads_ok_insert [of c ads ad code] watermarks_ok_insert [of c watermarks ?w] v a assms(2) by (simp add: maps_ok_def)
  with a v p show thesis
    by (intro that [of ads watermarks]) (auto simp: watermark_key_def)
qed

lemma retire_ad_spec:
  assumes "directory_ok c self" and "retire_ad c request now self = Inr (ads', watermarks')"
  obtains ads watermarks w where "pruned self now = (ads, watermarks)" and "maps_ok c ads' watermarks'"
    and "bm_get watermarks (df_peer_id request, df_vault_id request) = Some w"
    and "ads' = bm_remove (df_join_code request) ads" and "\<not> is_expired (df_issued_at request) now"
    and "watermarks' = bm_insert (df_peer_id request, df_vault_id request) \<lparr>dw_peer_id = df_peer_id request,
          dw_vault_id = df_vault_id request, dw_issued_at = df_issued_at request, dw_vk = dw_vk w\<rparr> watermarks"
    and "newer watermarks (df_peer_id request, df_vault_id request) (df_issued_at request)"
proof -
  obtain ads watermarks where p: "pruned self now = (ads, watermarks)" by force
  note ok = retained_ok(1) [OF assms(1) p]
  obtain w where w: "bm_get watermarks (df_peer_id request, df_vault_id request) = Some w"
      "dir_forget_verify c request (dw_vk w) now = Inr ()" "dw_issued_at w < df_issued_at request"
      "ads' = bm_remove (df_join_code request) ads"
      "watermarks' = bm_insert (df_peer_id request, df_vault_id request) \<lparr>dw_peer_id = df_peer_id request,
          dw_vault_id = df_vault_id request, dw_issued_at = df_issued_at request, dw_vk = dw_vk w\<rparr> watermarks"
    using assms(2) p by (auto simp: retire_ad_def Let_def not_le split: option.splits)
  let ?w = "\<lparr>dw_peer_id = df_peer_id request, dw_vault_id = df_vault_id request, dw_issued_at = df_issued_at request, dw_vk = dw_vk w\<rparr>"
  have k: "watermark_key ?w = (df_peer_id request, df_vault_id request)" by (simp add: watermark_key_def)
  have v: "df_peer_id request = peer_id_for c (dw_vk w)" "\<not> is_expired (df_issued_at request) now"
    using w(2) by (auto simp: dir_forget_verify_def require_current_def)
  have "ads_ok c ads'"
    using ok peer_ads_remove [of _ "df_join_code request" ads] unfolding w(4) maps_ok_def ads_ok_def
    by (auto simp: bm_remove_def intro: le_trans [OF length_filter_le] le_trans)
  moreover have "bm_contains watermarks (watermark_key ?w)"
    using w(1) by (simp add: k bm_contains_def del: bm_contains_iff)
  then have "watermarks_ok c watermarks'"
    unfolding w(5) k [symmetric] using ok v(1) by (intro watermarks_ok_insert) (auto simp: maps_ok_def)
  moreover have "dominated ads' watermarks'"
    unfolding w(5) k [symmetric]
    using ok w(1,3,4) by (intro dominated_raise [of ads]) (auto simp: maps_ok_def watermarks_ok_def k intro: less_imp_le)
  ultimately have "maps_ok c ads' watermarks'" by (simp add: maps_ok_def)
  with w v p show thesis by (intro that [of ads watermarks w]) (auto simp: newer_def)
qed


section \<open>The file\<close>

definition holds_state :: "fs_entry \<Rightarrow> ads \<Rightarrow> watermarks \<Rightarrow> bool" where
  "holds_state disk ads watermarks \<longleftrightarrow> (\<exists>bs. disk = Regular 384 bs \<and> encode_directory_state (state_of ads watermarks) = Inr bs \<and>
     length bs \<le> MAX_STATE_BYTES)"

lemma directory_commit_cases:
  assumes "directory_commit w ads watermarks (self, disk) = (r, self', disk')"
  obtains (refused) e where "r = Inl e" "self' = self" "disk' = disk"
  | (failed) e where "r = Inl e" "self' = self\<lparr>ds_failed := True\<rparr>" "disk' = disk \<or> holds_state disk' ads watermarks"
  | (committed) "r = Inr ()" "self' = self\<lparr>ds_ads := ads, ds_watermarks := watermarks\<rparr>" "holds_state disk' ads watermarks"
proof (cases "encode_directory_state (state_of ads watermarks)")
  case (Inl e)
  then show thesis using assms by (intro refused [of e]) (simp_all add: directory_commit_def)
next
  case (Inr bs)
  then have "(\<exists>e. r = Inl e \<and> self' = self\<lparr>ds_failed := True\<rparr> \<and> (disk' = disk \<or> holds_state disk' ads watermarks)) \<or>
      r = Inr () \<and> self' = self\<lparr>ds_ads := ads, ds_watermarks := watermarks\<rparr> \<and> holds_state disk' ads watermarks"
    using assms by (auto simp: directory_commit_def directory_private_write_def holds_state_def split: if_splits write_outcome.splits)
  then show thesis using failed committed by blast
qed

lemma open_ads_self:
  assumes "bm_ok ads" and "\<forall>ad \<in> set (bm_values ads). ad_verify_signature c ad = Inr ()"
  shows "open_ads c ads = Inr ads"
proof -
  have "fold_ok (\<lambda>(code, ad) ads. and_then (ad_verify_signature c ad) (\<lambda>_.
       and_then (guard_ok (\<not> bm_contains ads code) (InvalidInput ''duplicate directory join code'')) (\<lambda>_.
       Inr (bm_insert code ad ads)))) xs acc = Inr (acc @ xs)"
    if "bm_ok (acc @ xs)" "\<forall>ad \<in> set (bm_values xs). ad_verify_signature c ad = Inr ()" for acc xs
    using that
  proof (induction xs arbitrary: acc)
    case (Cons e xs)
    obtain code ad where e: "e = (code, ad)" by force
    have a: "bm_ok (acc @ [(code, ad)])" "\<not> bm_contains acc code"
      using Cons.prems(1) by (auto simp: e bm_ok_def sorted_wrt_append)
    with Cons.IH [of "acc @ [(code, ad)]"] Cons.prems show ?case
      by (simp add: e bm_insert_append [OF a(1)] del: bm_contains_iff)
  qed simp
  from this [of "[]" ads] assms show ?thesis by (simp add: open_ads_def)
qed

lemma open_watermarks_loop:
  assumes "bm_ok (acc @ xs)" "bm_keyed watermark_key xs" "\<forall>w \<in> set (bm_values xs). dw_peer_id w = peer_id_for c (dw_vk w)"
  shows "fold_ok (\<lambda>w watermarks. and_then (guard_ok (dw_peer_id w = peer_id_for c (dw_vk w)) AuthenticationFailed) (\<lambda>_.
       let key = (dw_peer_id w, dw_vault_id w) in
       and_then (guard_ok (\<not> bm_contains watermarks key) (InvalidInput ''duplicate directory watermark'')) (\<lambda>_.
       Inr (bm_insert key w watermarks)))) (bm_values xs) acc = Inr (acc @ xs)"
  (is "fold_ok ?f _ _ = _")
  using assms
proof (induction xs arbitrary: acc)
  case (Cons e xs)
  obtain w where e: "e = (watermark_key w, w)" using Cons.prems(2) by (cases e) (auto simp: bm_keyed_def)
  have a: "bm_ok (acc @ [(watermark_key w, w)])" "\<not> bm_contains acc (watermark_key w)"
    using Cons.prems(1) by (auto simp: e bm_ok_def sorted_wrt_append)
  have "dw_peer_id w = peer_id_for c (dw_vk w)" using Cons.prems(3) by (simp add: e)
  then have "?f w acc = Inr (acc @ [(watermark_key w, w)])"
    using a(2) bm_insert_append [OF a(1)] by (simp add: Let_def watermark_key_def del: bm_contains_iff)
  moreover have "fold_ok ?f (bm_values xs) (acc @ [(watermark_key w, w)]) = Inr ((acc @ [(watermark_key w, w)]) @ xs)"
    by (rule Cons.IH) (use Cons.prems in \<open>simp_all add: e bm_keyed_def\<close>)
  ultimately show ?case by (simp only: e list.map snd_conv fold_ok.simps and_then_simps append_assoc append.simps)
qed simp

lemma open_watermarks_self: "watermarks_ok c watermarks \<Longrightarrow> open_watermarks c (bm_values watermarks) = Inr watermarks"
  using open_watermarks_loop [of "[]" watermarks c] by (simp add: open_watermarks_def watermarks_ok_def)

lemma load_holds:
  assumes "maps_ok c ads watermarks" and "encode_directory_state (state_of ads watermarks) = Inr bs" and "length bs \<le> MAX_STATE_BYTES"
  shows "load_state (Some bs) = Inr (state_of ads watermarks)"
proof -
  have "bs \<noteq> []" using assms(2) by (auto simp: encode_directory_state_Inr directory_bytes_def)
  moreover have "decode_directory_state bs = Inr (state_of ads watermarks)"
    using assms by (intro directory_state_roundtrip [OF assms(2)])
      (auto simp: state_of_def maps_ok_def ads_ok_def watermarks_ok_def MAX_STATE_BYTES_def usize_max_def
        MAX_TOTAL_ADS_def MAX_DIRECTORY_RECORDS_def)
  ultimately show ?thesis by (simp add: load_state_def)
qed

lemma read_held:
  assumes "length bs \<le> MAX_STATE_BYTES"
  shows "directory_read_private reading (Regular 384 bs) = Inr x \<longleftrightarrow> reading = Inr () \<and> x = Some bs"
  using assms by (auto simp: directory_read_private_def)

lemma directory_open_holds:
  assumes "maps_ok c ads watermarks" and "holds_state disk ads watermarks" and "directory_open c setup locked reading disk = Inr self"
  shows "ds_ads self = ads" and "ds_watermarks self = watermarks"
proof -
  obtain bs where bs: "disk = Regular 384 bs" "encode_directory_state (state_of ads watermarks) = Inr bs" "length bs \<le> MAX_STATE_BYTES"
    using assms(2) by (auto simp: holds_state_def)
  have "open_ads c ads = Inr ads" "open_watermarks c (bm_values watermarks) = Inr watermarks"
    using assms(1) by (auto simp: maps_ok_def ads_ok_def intro!: open_ads_self open_watermarks_self)
  then show "ds_ads self = ads" and "ds_watermarks self = watermarks"
    using assms(3) load_holds [OF assms(1) bs(2,3)] by (auto simp: directory_open_Inr bs(1) read_held [OF bs(3)] state_of_def)
qed

text \<open>The keys of the advertisements are those of the watermarks unless two keys hash to the same peer.\<close>

definition keys_agree :: "ads \<Rightarrow> watermarks \<Rightarrow> bool" where
  "keys_agree ads watermarks \<longleftrightarrow> (\<forall>ad \<in> set (bm_values ads). \<forall>w. bm_get watermarks (da_peer_id ad, da_vault_id ad) = Some w \<longrightarrow>
     dw_vk w = da_vk ad)"

lemma directory_reopens:
  assumes "maps_ok c ads watermarks" and "holds_state disk ads watermarks" and "keys_agree ads watermarks"
  shows "directory_open c (Inr ()) False (Inr ()) disk = Inr \<lparr>ds_ads = ads, ds_watermarks = watermarks, ds_failed = False\<rparr>"
proof -
  obtain bs where bs: "disk = Regular 384 bs" "encode_directory_state (state_of ads watermarks) = Inr bs" "length bs \<le> MAX_STATE_BYTES"
    using assms(2) by (auto simp: holds_state_def)
  have "open_ads c ads = Inr ads" "open_watermarks c (bm_values watermarks) = Inr watermarks"
    using assms(1) by (auto simp: maps_ok_def ads_ok_def intro!: open_ads_self open_watermarks_self)
  moreover have "require_peer_caps ads = Inr ()" "require_watermarks ads watermarks = Inr ()"
      "length ads \<le> MAX_TOTAL_ADS" "length watermarks \<le> MAX_TOTAL_ADS"
    using assms(1,3) unfolding require_peer_caps_iff require_watermarks_iff keys_agree_def
    by (auto simp: maps_ok_def ads_ok_def watermarks_ok_def dominated_def)
  ultimately show ?thesis
    using load_holds [OF assms(1) bs(2,3)] by (auto simp: directory_open_Inr bs(1) read_held [OF bs(3)] state_of_def)
qed

section \<open>The running server\<close>

type_synonym dir_record = "(PeerId \<times> VaultId) \<times> u64"

definition record_of :: "Frame \<Rightarrow> dir_record option" where
  "record_of request =
     (if fr_kind request = DIR_PUT_KIND then
        (case decode_put (fr_payload request) of
           Inr (_, ad) \<Rightarrow> Some ((da_peer_id ad, da_vault_id ad), da_issued_at ad) | Inl _ \<Rightarrow> None)
      else if fr_kind request = DIR_FORGET_KIND then
        (case decode_dir_forget (fr_payload request) of
           Inr r \<Rightarrow> Some ((df_peer_id r, df_vault_id r), df_issued_at r) | Inl _ \<Rightarrow> None)
      else None)"

definition log_answer :: "Frame \<Rightarrow> Frame result \<Rightarrow> dir_record list \<Rightarrow> dir_record list" where
  "log_answer request response log =
     (if is_ok response then (case record_of request of Some r \<Rightarrow> log @ [r] | None \<Rightarrow> log) else log)"

text \<open>
  The time of the last request, the records accepted so far, the store while the server runs, and
  the file. A crash during a write is a failed write followed by a stop.
\<close>

type_synonym dir_state = "u64 \<times> dir_record list \<times> DirectoryStore option \<times> fs_entry"

inductive directory_step :: "crypto \<Rightarrow> dir_state \<Rightarrow> dir_state \<Rightarrow> bool" for c where
  serve_step: "now \<le> now' \<Longrightarrow> handle_request c w (Inr now') request (self, disk) = (response, self', disk') \<Longrightarrow>
    directory_step c (now, log, Some self, disk) (now', log_answer request response log, Some self', disk')"
| stop_step: "directory_step c (now, log, Some self, disk) (now, log, None, disk)"
| open_step: "directory_open c setup locked reading disk = Inr self \<Longrightarrow>
    directory_step c (now, log, None, disk) (now, log, Some self, disk)"

definition directory_start :: "dir_state \<Rightarrow> bool" where
  "directory_start s \<longleftrightarrow> (case s of (now, log, running, disk) \<Rightarrow> log = [] \<and> running = None)"

definition covers :: "watermarks \<Rightarrow> dir_record list \<Rightarrow> u64 \<Rightarrow> bool" where
  "covers watermarks log now \<longleftrightarrow> (\<forall>(k, t) \<in> set log. is_expired t now \<or> (\<exists>w. bm_get watermarks k = Some w \<and> t \<le> dw_issued_at w))"

definition increasing :: "dir_record list \<Rightarrow> bool" where
  "increasing log \<longleftrightarrow> sorted_wrt (\<lambda>a b. fst a = fst b \<longrightarrow> snd a < snd b) log"

definition disk_covers :: "crypto \<Rightarrow> fs_entry \<Rightarrow> dir_record list \<Rightarrow> u64 \<Rightarrow> bool" where
  "disk_covers c disk log now \<longleftrightarrow> (\<forall>setup locked reading self. directory_open c setup locked reading disk = Inr self \<longrightarrow>
     covers (ds_watermarks self) log now)"

definition directory_inv :: "crypto \<Rightarrow> dir_state \<Rightarrow> bool" where
  "directory_inv c s \<longleftrightarrow> (case s of (now, log, running, disk) \<Rightarrow> increasing log \<and> disk_covers c disk log now \<and>
     (\<forall>self. running = Some self \<longrightarrow> directory_ok c self \<and> covers (ds_watermarks self) log now))"

lemma covers_later: "covers watermarks log now \<Longrightarrow> now \<le> now' \<Longrightarrow> covers watermarks log now'"
  by (fastforce simp: covers_def intro: is_expired_later)

lemma disk_covers_later: "disk_covers c disk log now \<Longrightarrow> now \<le> now' \<Longrightarrow> disk_covers c disk log now'"
  unfolding disk_covers_def by (blast intro: covers_later)

lemma disk_covers_held:
  "maps_ok c ads watermarks \<Longrightarrow> holds_state disk ads watermarks \<Longrightarrow> covers watermarks log now \<Longrightarrow> disk_covers c disk log now"
  by (auto simp: disk_covers_def directory_open_holds(2))

lemma covers_pruned:
  assumes "directory_ok c self" and "pruned self now = (ads, watermarks)" and "covers (ds_watermarks self) log now"
  shows "covers watermarks log now"
  using assms(3) is_expired_older [of _ _ now] unfolding covers_def retained_ok(2) [OF assms(1,2)] by fastforce

lemma covers_raise:
  assumes "covers watermarks log now" and "bm_ok watermarks" and "newer watermarks k t" and "dw_issued_at w = t"
  shows "covers (bm_insert k w watermarks) log now"
  unfolding covers_def
proof (clarify, rule ccontr)
  fix p v u
  assume u: "((p, v), u) \<in> set log" "\<nexists>x. bm_get (bm_insert k w watermarks) (p, v) = Some x \<and> u \<le> dw_issued_at x"
  assume "\<not> is_expired u now"
  then obtain x where x: "bm_get watermarks (p, v) = Some x" "u \<le> dw_issued_at x"
    using assms(1) u(1) by (auto simp: covers_def)
  have "k = (p, v)" using u(2) x assms(2) by (metis bm_get_insert fun_upd_other)
  with x assms(3) have "u < t" by (auto simp: newer_def intro: le_less_trans)
  with u(2) \<open>k = (p, v)\<close> assms(2,4) show False by (simp add: less_imp_le)
qed

lemma covers_newer:
  assumes "covers watermarks log now" and "newer watermarks k t" and "\<not> is_expired t now" and "(k, u) \<in> set log"
  shows "u < t"
proof (rule ccontr)
  assume "\<not> u < t"
  then have "\<not> is_expired u now" using assms(3) is_expired_older [of t u now] by (auto simp: not_less)
  then obtain w where "bm_get watermarks k = Some w" "u \<le> dw_issued_at w"
    using assms(1,4) by (auto simp: covers_def)
  with assms(2) \<open>\<not> u < t\<close> show False by (auto simp: newer_def)
qed


definition serve_inv :: "crypto \<Rightarrow> dir_record list \<Rightarrow> u64 \<Rightarrow> DirectoryStore \<times> fs_entry \<Rightarrow> bool" where
  "serve_inv c log now s \<longleftrightarrow> increasing log \<and> directory_ok c (fst s) \<and> covers (ds_watermarks (fst s)) log now \<and>
     disk_covers c (snd s) log now"

lemma commit_keeps:
  assumes "serve_inv c log now (self, disk)" and "maps_ok c ads watermarks" and "covers watermarks log now"
    and "directory_commit w ads watermarks (self, disk) = (r, s')"
  shows "serve_inv c log now s'" and "is_ok r \<Longrightarrow> ds_watermarks (fst s') = watermarks \<and> ds_ads (fst s') = ads \<and> holds_state (snd s') ads watermarks"
proof -
  obtain self' disk' where s': "s' = (self', disk')" by force
  from assms(4) [unfolded s'] show "serve_inv c log now s'"
  proof (cases rule: directory_commit_cases)
    case (failed e)
    then show ?thesis using assms by (auto simp: s' serve_inv_def directory_ok_def intro: disk_covers_held)
  next
    case committed
    then show ?thesis using assms by (auto simp: s' serve_inv_def directory_ok_def intro: disk_covers_held)
  qed (use assms(1) in \<open>simp add: s'\<close>)
  from assms(4) [unfolded s'] show "ds_watermarks (fst s') = watermarks \<and> ds_ads (fst s') = ads \<and> holds_state (snd s') ads watermarks" if "is_ok r"
    by (cases rule: directory_commit_cases) (use that in \<open>auto simp: s'\<close>)
qed

lemma accepted_keeps:
  assumes inv: "serve_inv c log now (self, disk)" and p: "pruned self now = (ads, watermarks)"
    and maps: "maps_ok c ads' (bm_insert k mark watermarks)" and t: "newer watermarks k t" "\<not> is_expired t now" "dw_issued_at mark = t"
    and run: "directory_commit w ads' (bm_insert k mark watermarks) (self, disk) = (r, s')"
  shows "serve_inv c (if is_ok r then log @ [(k, t)] else log) now s'"
proof -
  have self: "directory_ok c self" "covers (ds_watermarks self) log now" "increasing log"
    using inv by (auto simp: serve_inv_def)
  note old = covers_pruned [OF self(1) p self(2)]
  have ok: "bm_ok watermarks"
    using retained_ok(1) [OF self(1) p] by (simp add: maps_ok_def watermarks_ok_def)
  have new: "covers (bm_insert k mark watermarks) log now"
    by (rule covers_raise [OF old ok t(1) t(3)])
  note keeps = commit_keeps [OF inv maps new run]
  show ?thesis
  proof (cases "is_ok r")
    case True
    have cov: "covers (bm_insert k mark watermarks) (log @ [(k, t)]) now"
      using new ok t(3) by (auto simp: covers_def)
    have "increasing (log @ [(k, t)])"
      using self(3) covers_newer [OF old t(1,2)] by (auto simp: increasing_def sorted_wrt_append)
    moreover have "directory_ok c (fst s')" using keeps(1) by (simp add: serve_inv_def)
    moreover have "disk_covers c (snd s') (log @ [(k, t)]) now"
      using keeps(2) [OF True] by (intro disk_covers_held [OF maps _ cov]) simp
    ultimately show ?thesis using True keeps(2) [OF True] cov by (simp add: serve_inv_def)
  qed (use keeps(1) in simp)
qed

lemma put_keeps:
  assumes "serve_inv c log now s" and "addr_plain (da_addr ad)" and "directory_put c w code ad now s = (r, s')"
  shows "serve_inv c (if is_ok r then log @ [((da_peer_id ad, da_vault_id ad), da_issued_at ad)] else log) now s'"
proof (cases "admit_ad c code ad now (fst s)")
  case (Inl e)
  then show ?thesis using assms by (auto simp: directory_put_def)
next
  case (Inr x)
  obtain ads' watermarks' where x: "x = (ads', watermarks')" by force
  have "directory_ok c (fst s)" using assms(1) by (simp add: serve_inv_def)
  from admit_ad_spec [OF this assms(2) Inr [unfolded x]] show ?thesis
  proof cases
    case (1 ads watermarks)
    have run: "directory_commit w ads' watermarks' (fst s, snd s) = (r, s')"
      using assms(3) Inr x by (simp add: directory_put_def)
    show ?thesis
      by (rule accepted_keeps [OF _ 1(1) 1(2) [unfolded 1(5)] 1(6,4) _ run [unfolded 1(5)]]) (use assms(1) in simp_all)
  qed
qed

lemma forget_keeps:
  assumes "serve_inv c log now s" and "directory_forget c w request now s = (r, s')"
  shows "serve_inv c (if is_ok r then log @ [((df_peer_id request, df_vault_id request), df_issued_at request)] else log) now s'"
proof (cases "retire_ad c request now (fst s)")
  case (Inl e)
  then show ?thesis using assms by (auto simp: directory_forget_def)
next
  case (Inr x)
  obtain ads' watermarks' where x: "x = (ads', watermarks')" by force
  have "directory_ok c (fst s)" using assms(1) by (simp add: serve_inv_def)
  from retire_ad_spec [OF this Inr [unfolded x]] show ?thesis
  proof cases
    case (1 ads watermarks v)
    have run: "directory_commit w ads' watermarks' (fst s, snd s) = (r, s')"
      using assms(2) Inr x by (simp add: directory_forget_def)
    show ?thesis
      by (rule accepted_keeps [OF _ 1(1) 1(2) [unfolded 1(6)] 1(7,5) _ run [unfolded 1(6)]]) (use assms(1) in simp_all)
  qed
qed

lemma lookup_keeps:
  assumes "serve_inv c log now s" and "directory_lookup w code now s = (r, s')"
  shows "serve_inv c log now s'"
proof -
  obtain self disk ads watermarks where s: "s = (self, disk)" and p: "pruned self now = (ads, watermarks)"
    by (metis surj_pair)
  have self: "directory_ok c self" "covers (ds_watermarks self) log now"
    using assms(1) by (auto simp: serve_inv_def s)
  have "s' = s \<or> (\<exists>r'. directory_commit w ads watermarks (self, disk) = (r', s'))"
    using assms(2) by (auto simp: directory_lookup_def s p split: sum.splits if_splits prod.splits)
  then show ?thesis
    using assms(1) commit_keeps(1) [OF assms(1) [unfolded s] retained_ok(1) [OF self(1) p] covers_pruned [OF self(1) p self(2)]] by blast
qed

lemma decode_put_plain: "decode_put b = Inr (code, ad) \<Longrightarrow> addr_plain (da_addr ad)"
  by (auto simp: decode_put_def dest: decode_directory_ad_plain)

lemma frame_kind_ne: "DIR_LOOKUP_KIND \<noteq> DIR_PUT_KIND" "DIR_LOOKUP_KIND \<noteq> DIR_FORGET_KIND" "DIR_PUT_KIND \<noteq> DIR_FORGET_KIND"
  by (simp_all add: frame_kinds)

lemma request_keeps:
  assumes "serve_inv c log now s" and "handle_request c w (Inr now) request s = (response, s')"
  shows "serve_inv c (log_answer request response log) now s'"
proof -
  consider "fr_kind request = DIR_LOOKUP_KIND" | "fr_kind request = DIR_PUT_KIND" | "fr_kind request = DIR_FORGET_KIND"
    | "fr_kind request \<notin> {DIR_LOOKUP_KIND, DIR_PUT_KIND, DIR_FORGET_KIND}" by auto
  then show ?thesis
  proof cases
    case 1
    then have "log_answer request response log = log" by (simp add: log_answer_def record_of_def frame_kind_ne)
    then show ?thesis
      using 1 assms lookup_keeps [OF assms(1), of w] by (auto simp: handle_request_def split: sum.splits prod.splits)
  next
    case 2
    have ok: "is_ok (frame_new DIR_PUT_KIND [])" by (simp add: frame_new_def validate_kind_def frame_kinds usize_max_def usize_add_def)
    show ?thesis
    proof (cases "decode_put (fr_payload request)")
      case (Inr x)
      obtain code ad where x: "x = (code, ad)" by force
      obtain r t where put: "directory_put c w code ad now s = (r, t)" by (meson surj_pair)
      have "is_ok response = is_ok r" "s' = t"
        using 2 assms(2) Inr x put ok frame_kind_ne by (auto simp: handle_request_def split: sum.splits)
      then show ?thesis
        using put_keeps [OF assms(1) decode_put_plain [OF Inr [unfolded x]] put] 2 Inr x by (auto simp: log_answer_def record_of_def split: if_splits)
    qed (use 2 assms frame_kind_ne in \<open>auto simp: handle_request_def log_answer_def\<close>)
  next
    case 3
    have ok: "is_ok (frame_new DIR_FORGET_KIND [])" by (simp add: frame_new_def validate_kind_def frame_kinds usize_max_def usize_add_def)
    show ?thesis
    proof (cases "decode_dir_forget (fr_payload request)")
      case (Inr x)
      obtain r t where run: "directory_forget c w x now s = (r, t)" by (meson surj_pair)
      have "is_ok response = is_ok r" "s' = t"
        using 3 assms(2) Inr run ok frame_kind_ne by (auto simp: handle_request_def split: sum.splits)
      then show ?thesis
        using forget_keeps [OF assms(1) run] 3 Inr frame_kind_ne by (auto simp: log_answer_def record_of_def)
    qed (use 3 assms frame_kind_ne in \<open>auto simp: handle_request_def log_answer_def\<close>)
  qed (use assms in \<open>auto simp: handle_request_def log_answer_def\<close>)
qed

interpretation directory: transition_system directory_start "directory_step c" "directory_inv c" for c
proof
  fix s assume "directory_start s"
  then show "directory_inv c s"
    by (auto simp: directory_start_def directory_inv_def increasing_def disk_covers_def covers_def)
next
  fix s t assume "directory_inv c s" "directory_step c s t"
  from this(2,1) show "directory_inv c t"
  proof (cases rule: directory_step.cases)
    case (serve_step now now' w request self disk response self' disk' log)
    assume "directory_inv c s"
    then have "serve_inv c log now' (self, disk)"
      using serve_step by (auto simp: directory_inv_def serve_inv_def intro: covers_later disk_covers_later)
    from request_keeps [OF this serve_step(4)] serve_step show ?thesis by (simp add: directory_inv_def serve_inv_def)
  next
    case (open_step prep locked reading disk self now log)
    assume "directory_inv c s"
    with open_step show ?thesis
      using directory_open_ok(1) [OF open_step(3)] by (auto simp: directory_inv_def disk_covers_def)
  qed (auto simp: directory_inv_def)
qed


section \<open>Lookup after publication\<close>

definition server_answer :: "crypto \<Rightarrow> write_outcome \<Rightarrow> u64 \<Rightarrow> DirectoryStore \<times> fs_entry \<Rightarrow> Frame \<Rightarrow> reply" where
  "server_answer c w now s request =
     (case fst (handle_request c w (Inr now) request s) of Inr response \<Rightarrow> Received response | Inl _ \<Rightarrow> Eof)"

definition healthy :: "crypto \<Rightarrow> DirectoryStore \<times> fs_entry \<Rightarrow> bool" where
  "healthy c s \<longleftrightarrow> directory_ok c (fst s) \<and> \<not> ds_failed (fst s) \<and> holds_state (snd s) (ds_ads (fst s)) (ds_watermarks (fst s))"

lemma filter_bytes: "length (concat (map f (filter P xs))) \<le> length (concat (map f xs))"
  by (induction xs) auto

lemma pruned_fits:
  assumes "encode_directory_state (state_of ads watermarks) = Inr bs" and "length bs \<le> MAX_STATE_BYTES"
  shows "\<exists>bs'. encode_directory_state (state_of (bm_retain P ads) (bm_retain Q watermarks)) = Inr bs' \<and> length bs' \<le> MAX_STATE_BYTES"
proof -
  let ?st = "state_of ads watermarks" and ?st' = "state_of (bm_retain P ads) (bm_retain Q watermarks)"
  have st: "directory_fits ?st" "bs = directory_bytes ?st"
    using assms(1) by (auto simp: encode_directory_state_Inr)
  have "directory_fits ?st'"
    using st(1) by (auto simp: directory_fits_def state_of_def bm_retain_def short_def intro: le_less_trans [OF length_filter_le])
  moreover have "length (directory_bytes ?st') \<le> length (directory_bytes ?st)"
    using filter_bytes [of entry_bytes "\<lambda>e. P (fst e) (snd e)" ads]
      filter_bytes [of "\<lambda>e. watermark_bytes (snd e)" "\<lambda>e. Q (fst e) (snd e)" watermarks]
    by (simp add: directory_bytes_def state_of_def bm_retain_def comp_def)
  ultimately show ?thesis
    using assms(2) st(2) by (auto simp: encode_directory_state_Inr)
qed

lemma directory_lookup_current:
  assumes "healthy c s"
  shows "fst (directory_lookup Written code now s) =
    Inr (case bm_get (ds_ads (fst s)) code of Some ad \<Rightarrow> if is_expired (da_issued_at ad) now then None else Some ad | None \<Rightarrow> None)"
proof -
  obtain self disk ads watermarks where s: "s = (self, disk)" and p: "pruned self now = (ads, watermarks)"
    by (metis surj_pair)
  have ok: "directory_ok c self" "\<not> ds_failed self" "holds_state disk (ds_ads self) (ds_watermarks self)"
    using assms by (auto simp: healthy_def s)
  have get: "bm_get ads code = (case bm_get (ds_ads self) code of Some ad \<Rightarrow> if is_expired (da_issued_at ad) now then None else Some ad | None \<Rightarrow> None)"
    by (rule retained_ok(3) [OF ok(1) p])
  obtain bs where bs: "encode_directory_state (state_of ads watermarks) = Inr bs" "length bs \<le> MAX_STATE_BYTES"
    using ok(3) p pruned_fits by (fastforce simp: holds_state_def pruned_def)
  have same: "ads = ds_ads self" if "length ads = length (ds_ads self)"
    using that p length_filter_less [of _ "ds_ads self" "\<lambda>e. \<not> is_expired (da_issued_at (snd e)) now"]
    by (auto simp: pruned_def bm_retain_def filter_id_conv)
  show ?thesis
  proof (cases "length ads \<noteq> length (ds_ads self) \<or> length watermarks \<noteq> length (ds_watermarks self)")
    case True
    then show ?thesis
      using ok(2) bs get by (simp add: directory_lookup_def s p require_healthy_def directory_commit_def directory_private_write_def)
  next
    case False
    then show ?thesis
      using ok(2) get same by (simp add: directory_lookup_def s p require_healthy_def)
  qed
qed

lemma decode_join_code_bytes: "decode_join_code (code_bytes code) = Inr code"
  by (simp add: decode_join_code_def)

lemma client_lookup_current:
  assumes "healthy c s" and "bm_get (ds_ads (fst s)) code = Some ad" and "\<not> is_expired (da_issued_at ad) now"
    and "ad_fits ad" and "addr_plain (da_addr ad)" and "length (ad_wire ad) < 1048576"
  shows "client_lookup (server_answer c Written now s) code = Inr (Some ad)"
proof -
  obtain t where l: "directory_lookup Written code now s = (Inr (Some ad), t)"
    using directory_lookup_current [OF assms(1), of code now] assms(2,3) by (cases "directory_lookup Written code now s") auto
  let ?q = "\<lparr>fr_kind = DIR_LOOKUP_KIND, fr_payload = code_bytes code\<rparr>"
  have q: "frame_new DIR_LOOKUP_KIND (code_bytes code) = Inr ?q"
    by (simp add: frame_new_Inr frame_ok_def validate_kind_def frame_kinds)
  have "frame_new DIR_AD_KIND (ad_wire ad) = Inr \<lparr>fr_kind = DIR_AD_KIND, fr_payload = ad_wire ad\<rparr>"
    using assms(6) by (simp add: frame_new_Inr frame_ok_def validate_kind_def frame_kinds)
  moreover have "encode_directory_ad ad = Inr (ad_wire ad)"
    using assms(4) by (simp add: encode_directory_ad_Inr)
  ultimately have "server_answer c Written now s ?q = Received \<lparr>fr_kind = DIR_AD_KIND, fr_payload = ad_wire ad\<rparr>"
    by (simp add: server_answer_def handle_request_def decode_join_code_bytes l)
  moreover have "decode_directory_ad (ad_wire ad) = Inr ad"
    using assms(4-6) by (intro decode_directory_ad_wire) (simp_all add: usize_max_def)
  ultimately show ?thesis by (simp add: client_lookup_def q)
qed

lemma client_lookup_absent:
  assumes "healthy c s" and "bm_get (ds_ads (fst s)) code = None"
  shows "client_lookup (server_answer c Written now s) code = Inr None"
proof -
  obtain t where l: "directory_lookup Written code now s = (Inr None, t)"
    using directory_lookup_current [OF assms(1), of code now] assms(2) by (cases "directory_lookup Written code now s") auto
  let ?q = "\<lparr>fr_kind = DIR_LOOKUP_KIND, fr_payload = code_bytes code\<rparr>"
  have q: "frame_new DIR_LOOKUP_KIND (code_bytes code) = Inr ?q"
    by (simp add: frame_new_Inr frame_ok_def validate_kind_def frame_kinds)
  have "server_answer c Written now s ?q = Eof"
    by (simp add: server_answer_def handle_request_def decode_join_code_bytes l)
  then show ?thesis by (simp add: client_lookup_def q)
qed

lemma client_put_request_Inr:
  "client_put_request code ad = Inr f \<longleftrightarrow> ad_fits ad \<and> length (ad_wire ad) + 16 < 1048576 \<and>
     f = \<lparr>fr_kind = DIR_PUT_KIND, fr_payload = code_bytes code @ ad_wire ad\<rparr>"
  by (auto simp: client_put_request_def encode_directory_ad_Inr frame_new_Inr frame_ok_def validate_kind_def frame_kinds)

lemma put_answered:
  assumes "directory_ok c self" and "addr_plain (da_addr ad)" and "client_put_request code ad = Inr request"
    and "handle_request c w (Inr now) request (self, disk) = (Inr response, s')"
  shows "require_empty_ack response DIR_PUT_KIND = Inr ()" and "healthy c s'"
    and "bm_get (ds_ads (fst s')) code = Some ad" and "ad_fits ad" and "length (ad_wire ad) < 1048576"
proof -
  have f: "ad_fits ad" "length (ad_wire ad) + 16 < 1048576" and q: "request = \<lparr>fr_kind = DIR_PUT_KIND, fr_payload = code_bytes code @ ad_wire ad\<rparr>"
    using assms(3) by (auto simp: client_put_request_Inr)
  show "ad_fits ad" and "length (ad_wire ad) < 1048576" using f by simp_all
  have "decode_directory_ad (ad_wire ad) = Inr ad"
    using f assms(2) by (intro decode_directory_ad_wire) (simp_all add: usize_max_def)
  then have d: "decode_put (code_bytes code @ ad_wire ad) = Inr (code, ad)"
    by (simp add: decode_put_def decode_join_code_bytes)
  have put: "directory_put c w code ad now (self, disk) = (Inr (), s')" and resp: "frame_new DIR_PUT_KIND [] = Inr response"
    using assms(4) d frame_kind_ne by (auto simp: q handle_request_def split: sum.splits prod.splits)
  show "require_empty_ack response DIR_PUT_KIND = Inr ()"
    using resp by (auto simp: require_empty_ack_def frame_new_Inr)
  obtain ads' watermarks' where a: "admit_ad c code ad now self = Inr (ads', watermarks')"
      "directory_commit w ads' watermarks' (self, disk) = (Inr (), s')"
    using put by (auto simp: directory_put_def split: sum.splits)
  obtain self' disk' where s': "s' = (self', disk')" by force
  have failed: "\<not> ds_failed self" using a(1) by (simp add: admit_ad_def require_healthy_def)
  show "healthy c s'" and "bm_get (ds_ads (fst s')) code = Some ad"
  proof -
    obtain ads watermarks where p: "pruned self now = (ads, watermarks)" "maps_ok c ads' watermarks'" "ads' = bm_insert code ad ads"
      by (rule admit_ad_spec [OF assms(1,2) a(1)])
    have "bm_ok ads" using retained_ok(1) [OF assms(1) p(1)] by (simp add: maps_ok_def ads_ok_def)
    moreover from a(2) [unfolded s'] have "self' = self\<lparr>ds_ads := ads', ds_watermarks := watermarks'\<rparr>" "holds_state disk' ads' watermarks'"
      by (auto elim: directory_commit_cases)
    ultimately show "healthy c s'" and "bm_get (ds_ads (fst s')) code = Some ad"
      using p failed by (simp_all add: healthy_def s' directory_ok_def)
  qed
qed

section \<open>A route between its publication and its expiry\<close>

text \<open>The requests that can end a route: a new advertisement of the same peer for the code, and its withdrawal.\<close>

definition replaces_route :: "JoinCode \<Rightarrow> PeerId \<Rightarrow> Frame \<Rightarrow> bool" where
  "replaces_route code pid request \<longleftrightarrow>
     fr_kind request = DIR_PUT_KIND \<and> (\<exists>ad. decode_put (fr_payload request) = Inr (code, ad) \<and> da_peer_id ad = pid) \<or>
     fr_kind request = DIR_FORGET_KIND \<and> (\<exists>r. decode_dir_forget (fr_payload request) = Inr r \<and> df_join_code r = code)"

definition routed :: "crypto \<Rightarrow> JoinCode \<Rightarrow> DirectoryAd \<Rightarrow> DirectoryStore \<times> fs_entry \<Rightarrow> bool" where
  "routed c code ad s \<longleftrightarrow> ds_failed (fst s) \<or> healthy c s \<and> bm_get (ds_ads (fst s)) code = Some ad"

lemma routed_commit:
  assumes "routed c code ad s" and "maps_ok c ads watermarks" and "bm_get ads code = Some ad"
  shows "routed c code ad (snd (directory_commit w ads watermarks s))"
proof -
  obtain self disk r self' disk' where s: "s = (self, disk)" and run: "directory_commit w ads watermarks (self, disk) = (r, self', disk')"
    by (metis surj_pair)
  from run show ?thesis
    by (cases rule: directory_commit_cases) (use assms in \<open>auto simp: s run routed_def healthy_def directory_ok_def\<close>)
qed

lemma routed_pruned:
  assumes "healthy c s" and "bm_get (ds_ads (fst s)) code = Some ad" and "\<not> is_expired (da_issued_at ad) now" and "pruned (fst s) now = (ads, watermarks)"
  shows "maps_ok c ads watermarks" and "bm_get ads code = Some ad"
  using assms retained_ok(1,3) [of c "fst s" now ads watermarks] by (auto simp: healthy_def)

lemma routed_lookup:
  assumes "routed c code ad s" and "\<not> is_expired (da_issued_at ad) now"
  shows "routed c code ad (snd (directory_lookup w other now s))"
proof (cases "ds_failed (fst s)")
  case True
  then show ?thesis using assms(1) by (simp add: directory_lookup_def require_healthy_def)
next
  case False
  obtain ads watermarks where p: "pruned (fst s) now = (ads, watermarks)" by force
  have "routed c code ad (snd (directory_commit w ads watermarks s))"
    using assms False by (intro routed_commit routed_pruned [OF _ _ assms(2) p]) (auto simp: routed_def)
  with assms(1) False show ?thesis by (auto simp: directory_lookup_def require_healthy_def p split: sum.splits prod.splits)
qed

lemma routed_put:
  assumes "routed c code ad s" and "\<not> is_expired (da_issued_at ad) now" and "addr_plain (da_addr new)"
    and "\<not> (other = code \<and> da_peer_id new = da_peer_id ad)"
  shows "routed c code ad (snd (directory_put c w other new now s))"
proof (cases "admit_ad c other new now (fst s)")
  case (Inl e)
  then show ?thesis using assms(1) by (simp add: directory_put_def)
next
  case (Inr x)
  obtain ads' watermarks' where x: "x = (ads', watermarks')" by force
  have healthy: "healthy c s" "bm_get (ds_ads (fst s)) code = Some ad"
    using assms(1) Inr by (auto simp: routed_def admit_ad_def require_healthy_def)
  then have ok: "directory_ok c (fst s)" by (simp add: healthy_def)
  obtain ads watermarks where p: "pruned (fst s) now = (ads, watermarks)" "maps_ok c ads' watermarks'" "ads' = bm_insert other new ads"
    by (rule admit_ad_spec [OF ok assms(3) Inr [unfolded x]])
  have old: "bm_ok ads" "bm_get ads code = Some ad"
    using routed_pruned [OF healthy assms(2) p(1)] by (auto simp: maps_ok_def ads_ok_def)
  have "other \<noteq> code" using Inr old(2) assms(4) by (auto simp: admit_ad_def p(1))
  then have "bm_get ads' code = Some ad" using old by (simp add: p(3) bm_get_insert)
  with p(2) assms(1) show ?thesis by (simp add: directory_put_def Inr x routed_commit)
qed

lemma routed_forget:
  assumes "routed c code ad s" and "\<not> is_expired (da_issued_at ad) now" and "df_join_code request \<noteq> code"
  shows "routed c code ad (snd (directory_forget c w request now s))"
proof (cases "retire_ad c request now (fst s)")
  case (Inl e)
  then show ?thesis using assms(1) by (simp add: directory_forget_def)
next
  case (Inr x)
  obtain ads' watermarks' where x: "x = (ads', watermarks')" by force
  have healthy: "healthy c s" "bm_get (ds_ads (fst s)) code = Some ad"
    using assms(1) Inr by (auto simp: routed_def retire_ad_def require_healthy_def)
  then have ok: "directory_ok c (fst s)" by (simp add: healthy_def)
  obtain ads watermarks where p: "pruned (fst s) now = (ads, watermarks)" "maps_ok c ads' watermarks'" "ads' = bm_remove (df_join_code request) ads"
    by (rule retire_ad_spec [OF ok Inr [unfolded x]])
  have "bm_ok ads" "bm_get ads code = Some ad"
    using routed_pruned [OF healthy assms(2) p(1)] by (auto simp: maps_ok_def ads_ok_def)
  then have "bm_get ads' code = Some ad" using assms(3) by (simp add: p(3))
  with p(2) assms(1) show ?thesis by (simp add: directory_forget_def Inr x routed_commit)
qed

lemma handle_request_state:
  "snd (handle_request c w (Inr now) request s) =
    (if fr_kind request = DIR_LOOKUP_KIND then
       (case decode_join_code (fr_payload request) of Inl _ \<Rightarrow> s | Inr code \<Rightarrow> snd (directory_lookup w code now s))
     else if fr_kind request = DIR_PUT_KIND then
       (case decode_put (fr_payload request) of Inl _ \<Rightarrow> s | Inr (code, ad) \<Rightarrow> snd (directory_put c w code ad now s))
     else if fr_kind request = DIR_FORGET_KIND then
       (case decode_dir_forget (fr_payload request) of Inl _ \<Rightarrow> s | Inr r \<Rightarrow> snd (directory_forget c w r now s))
     else s)"
  by (simp add: handle_request_def split: sum.split prod.split)

lemma routed_request:
  assumes "routed c code ad s" and "\<not> is_expired (da_issued_at ad) now" and "\<not> replaces_route code (da_peer_id ad) request"
  shows "routed c code ad (snd (handle_request c w (Inr now) request s))"
proof -
  note steps = routed_lookup [OF assms(1,2)] routed_put [OF assms(1,2)] routed_forget [OF assms(1,2)]
  have put: "routed c code ad (snd (directory_put c w other new now s))"
    if "fr_kind request = DIR_PUT_KIND" "decode_put (fr_payload request) = Inr (other, new)" for other new
    using that assms(3) decode_put_plain by (intro steps(2)) (auto simp: replaces_route_def)
  have forget: "routed c code ad (snd (directory_forget c w r now s))"
    if "fr_kind request = DIR_FORGET_KIND" "decode_dir_forget (fr_payload request) = Inr r" for r
    using that assms(3) by (intro steps(3)) (auto simp: replaces_route_def)
  show ?thesis
    unfolding handle_request_state using assms(1) steps(1) put forget by (simp split: sum.split prod.split)
qed

lemma routed_requests:
  assumes "\<forall>(w, now, request) \<in> set qs. \<not> is_expired (da_issued_at ad) now \<and> \<not> replaces_route code (da_peer_id ad) request"
  shows "routed c code ad s \<Longrightarrow> routed c code ad (fold (\<lambda>(w, now, request) s. snd (handle_request c w (Inr now) request s)) qs s)"
  using assms
proof (induction qs arbitrary: s)
  case (Cons q qs)
  obtain w now request where q: "q = (w, now, request)" by (cases q)
  have "routed c code ad (snd (handle_request c w (Inr now) request s))"
    using Cons.prems by (intro routed_request) (auto simp: q)
  with Cons show ?case by (simp add: q)
qed simp

end
