(* ===== verification/Directory_Sample.thy ===== *)
theory Directory_Sample
  imports Directory_Inv Sample
begin

text \<open>
  A directory server that starts without a file, publishes an advertisement and replaces it by a newer
  one: the concrete run at which the properties of the directory are evaluated.
\<close>

definition sample_ad :: "u64 \<Rightarrow> DirectoryAd" where
  "sample_ad t = \<lparr>da_peer_id = id_peer_id low, da_vault_id = VaultId 5, da_addr = V4 2130706433 9, da_ek = [2], da_vk = [7],
     da_issued_at = t, da_signature = [1]\<rparr>"

definition sample_watermark :: "u64 \<Rightarrow> DirectoryWatermark" where
  "sample_watermark t = \<lparr>dw_peer_id = id_peer_id low, dw_vault_id = VaultId 5, dw_issued_at = t, dw_vk = [7]\<rparr>"

definition sample_directory :: "u64 option \<Rightarrow> DirectoryStore" where
  "sample_directory t = (case t of
     None \<Rightarrow> \<lparr>ds_ads = [], ds_watermarks = [], ds_failed = False\<rparr>
   | Some t \<Rightarrow> \<lparr>ds_ads = [(JoinCode 3, sample_ad t)], ds_watermarks = [((id_peer_id low, VaultId 5), sample_watermark t)], ds_failed = False\<rparr>)"

definition sample_put :: "u64 \<Rightarrow> Frame" where
  "sample_put t = \<lparr>fr_kind = DIR_PUT_KIND, fr_payload = code_bytes (JoinCode 3) @ ad_wire (sample_ad t)\<rparr>"

lemma sample_ad_size: "length (ad_bytes (sample_ad t)) \<le> 300"
  using addr_text_plain [of "V4 2130706433 9"] by (simp add: ad_bytes_def sample_ad_def plain_text_def)

lemma sample_ad_fits: "ad_fits (sample_ad t)" "length (ad_wire (sample_ad t)) \<le> 320" "addr_plain (da_addr (sample_ad t))"
  using sample_ad_size [of t] by (simp_all add: ad_fits_def short_def ad_wire_def sample_ad_def addr_plain_def)

lemma sample_put_request: "client_put_request (JoinCode 3) (sample_ad t) = Inr (sample_put t)"
  using sample_ad_fits [of t] by (simp add: client_put_request_Inr sample_put_def)

lemma sample_ad_verify: "t \<le> now \<Longrightarrow> now \<le> t + 10 \<Longrightarrow> t < 1000 \<Longrightarrow> ad_verify sample_crypto (sample_ad t) now = Inr ()"
proof -
  assume t: "t \<le> now" "now \<le> t + 10" "t < 1000"
  have u: "unat (t + 10) = unat t + 10"
    using t(3) by (subst unat_add_lem [THEN iffD1]) (simp_all add: word_less_nat_alt)
  have "\<not> is_expired t now"
    using t(2) u by (simp add: is_expired_unat MAX_AD_AGE_SECS_def word_le_nat_alt)
  moreover have "\<not> t > saturating_add now MAX_FUTURE_SKEW_SECS"
  proof -
    have n: "unat now + 120 < 2 ^ 64" using t u by (simp add: word_le_nat_alt word_less_nat_alt)
    then have "unat (now + 120) = unat now + 120" by (subst unat_add_lem [THEN iffD1]) simp_all
    then show ?thesis using t(1) n by (auto simp: saturating_add_def MAX_FUTURE_SKEW_SECS_def word_less_nat_alt word_le_nat_alt)
  qed
  ultimately show ?thesis
    using sample_ad_fits [of t]
    by (simp add: ad_verify_def require_current_def ad_verify_signature_def require_advertisable_def validate_public_key_def
        directory_ad_m_Inr ad_fits_def mldsa_verify_def sample_ad_def)
      (simp add: sample_document_def sample_crypto_def)
qed


lemma sample_maps_fit:
  "\<exists>bs. encode_directory_state (state_of (ds_ads (sample_directory (Some t))) (ds_watermarks (sample_directory (Some t)))) = Inr bs \<and>
    length bs \<le> MAX_STATE_BYTES"
  using sample_ad_fits [of t]
  by (simp add: encode_directory_state_Inr sample_directory_def state_of_def directory_fits_def directory_bytes_def entry_bytes_def
      watermark_bytes_def short_def sample_watermark_def MAX_STATE_BYTES_def DIRECTORY_STATE_MAGIC_def)

lemma sample_decode_put: "decode_put (fr_payload (sample_put t)) = Inr (JoinCode 3, sample_ad t)"
proof -
  have "decode_directory_ad (ad_wire (sample_ad t)) = Inr (sample_ad t)"
    using sample_ad_fits [of t] by (intro decode_directory_ad_wire) (simp_all add: usize_max_def)
  then show ?thesis
    using decode_join_code_bytes [of "JoinCode 3"] by (simp add: decode_put_def sample_put_def)
qed

lemma sample_admit:
  assumes "ad_verify sample_crypto (sample_ad t) t = Inr ()" and "old = None \<or> old = Some u \<and> u < t \<and> \<not> is_expired u t"
  shows "admit_ad sample_crypto (JoinCode 3) (sample_ad t) t (sample_directory old) =
    Inr (ds_ads (sample_directory (Some t)), ds_watermarks (sample_directory (Some t)))"
  using assms
  by (auto simp: admit_ad_def require_healthy_def pruned_def sample_directory_def bm_retain_def Let_def MAX_TOTAL_ADS_def
      MAX_ADS_PER_PEER_def sample_watermark_def) (simp_all add: sample_ad_def)

lemma sample_served:
  assumes "ad_verify sample_crypto (sample_ad t) t = Inr ()" and "old = None \<or> old = Some u \<and> u < t \<and> \<not> is_expired u t"
  shows "\<exists>disk'. handle_request sample_crypto Written (Inr t) (sample_put t) (sample_directory old, disk) =
    (frame_new DIR_PUT_KIND [], sample_directory (Some t), disk')"
proof -
  obtain bs where bs: "encode_directory_state (state_of (ds_ads (sample_directory (Some t))) (ds_watermarks (sample_directory (Some t)))) = Inr bs"
      "length bs \<le> MAX_STATE_BYTES"
    using sample_maps_fit by blast
  have "directory_put sample_crypto Written (JoinCode 3) (sample_ad t) t (sample_directory old, disk) =
      (Inr (), sample_directory (Some t), Regular 384 bs)"
    using sample_admit [OF assms] bs
    by (simp add: directory_put_def directory_commit_def directory_private_write_def)
      (simp add: sample_directory_def split: option.split)
  then show ?thesis
    using sample_decode_put [of t] frame_kind_ne by (simp add: handle_request_def) (simp add: sample_put_def)
qed

lemma sample_times: "ad_verify sample_crypto (sample_ad 100) 100 = Inr ()" "ad_verify sample_crypto (sample_ad 101) 101 = Inr ()"
    "\<not> is_expired 100 101"
  by (rule sample_ad_verify, simp_all)+ (simp add: is_expired_def MAX_AD_AGE_SECS_def)

abbreviation "sample_dir_record t \<equiv> ((id_peer_id low, VaultId 5), t :: u64)"

lemma sample_directory_run:
  "\<exists>disk. run_steps (directory_step sample_crypto) (0, [], None, Missing)
     (101, [sample_dir_record 100, sample_dir_record 101], Some (sample_directory (Some 101)), disk)"
proof -
  have o: "directory_open sample_crypto (Inr ()) False (Inr ()) Missing = Inr (sample_directory None)"
    by (simp add: directory_open_def directory_read_private_def load_state_def open_ads_def open_watermarks_def require_peer_caps_def
        require_watermarks_def sample_directory_def)
  obtain d1 where p1: "handle_request sample_crypto Written (Inr 100) (sample_put 100) (sample_directory None, Missing) =
      (frame_new DIR_PUT_KIND [], sample_directory (Some 100), d1)"
    using sample_served [OF sample_times(1), of None] by blast
  obtain d2 where p2: "handle_request sample_crypto Written (Inr 101) (sample_put 101) (sample_directory (Some 100), d1) =
      (frame_new DIR_PUT_KIND [], sample_directory (Some 101), d2)"
    using sample_served [OF sample_times(2), of "Some 100" 100] sample_times(3) by auto
  have r: "is_ok (frame_new DIR_PUT_KIND [])" by (simp add: frame_new_def validate_kind_def frame_kinds usize_max_def usize_add_def)
  have l: "log_answer (sample_put t) (frame_new DIR_PUT_KIND []) log = log @ [sample_dir_record t]" for t log
    using r sample_decode_put [of t] by (simp add: log_answer_def record_of_def) (simp add: sample_put_def sample_ad_def)
  have "run_steps (directory_step sample_crypto) (0, [], None, Missing) (0, [], Some (sample_directory None), Missing)"
    by (rule run_snoc [OF run_refl]) (rule open_step [OF o])
  then have "run_steps (directory_step sample_crypto) (0, [], None, Missing) (100, [sample_dir_record 100], Some (sample_directory (Some 100)), d1)"
    using serve_step [OF _ p1, of 0 "[]"] by (auto simp: l intro: run_snoc)
  then have "run_steps (directory_step sample_crypto) (0, [], None, Missing)
      (101, [sample_dir_record 100, sample_dir_record 101], Some (sample_directory (Some 101)), d2)"
    using serve_step [OF _ p2, of 100 "[sample_dir_record 100]"] by (auto simp: l intro: run_snoc)
  then show ?thesis by blast
qed

end
