(* ===== verification/Session.thy ===== *)
theory Session
  imports Node Instructions Directory
begin

text \<open>
  The pair handshake of \<open>backend/src/net/session.rs\<close>: the two ends exchange their identities and epoch
  hints, agree on who sends a wrap, and end with an acknowledged epoch. An operation's own state is its
  end of the connection: the results of the coming \<open>read_frame\<close> calls (a frame, or the error of a broken
  stream or an elapsed timeout; after the last one the connection is closed), the frames written, how many
  more frames can be written before the connection breaks, the randomness still to be drawn, and the
  caller's \<open>HandshakeProgress\<close>.
\<close>

record HandshakeProgress =
  hp_peer_id :: "PeerId option"
  hp_wrap_acknowledged :: bool
  hp_had_pair :: bool

record EstablishedSession =
  es_peer :: IdentityDocument
  es_session :: PairSession

record link =
  ln_in :: "Frame result list"
  ln_out :: "Frame list"
  ln_room :: nat
  ln_entropy :: "entropy list"
  ln_progress :: HandshakeProgress

section \<open>Reading and writing\<close>

definition next_frame :: "(link, Frame) hop" where
  "next_frame =
     h_bind h_get (\<lambda>l.
     case ln_in l of
       [] \<Rightarrow> h_ret (Inl Io)
     | r # rs \<Rightarrow> h_bind (h_modify (\<lambda>l. l\<lparr>ln_in := rs\<rparr>)) (\<lambda>_. h_ret r))"

definition put_frame :: "byte \<Rightarrow> bytes \<Rightarrow> (link, unit) hop" where
  "put_frame kind payload =
     h_bind (h_ret (frame_new kind payload)) (\<lambda>f.
     h_bind (h_ret (write_frame f)) (\<lambda>_.
     h_bind h_get (\<lambda>l.
     h_bind (h_guard (ln_room l \<noteq> 0) Io) (\<lambda>_.
     h_modify (\<lambda>l. l\<lparr>ln_out := ln_out l @ [f], ln_room := ln_room l - 1\<rparr>)))))"

definition no_entropy :: entropy where
  "no_entropy = (Inl (State ''OS entropy unavailable''), Inl (State ''OS entropy unavailable''))"

definition draw_entropy :: "(link, entropy) hop" where
  "draw_entropy =
     h_bind h_get (\<lambda>l.
     case ln_entropy l of
       [] \<Rightarrow> h_ret (Inr no_entropy)
     | e # es \<Rightarrow> h_bind (h_modify (\<lambda>l. l\<lparr>ln_entropy := es\<rparr>)) (\<lambda>_. h_ret (Inr e)))"

definition note_progress :: "(HandshakeProgress \<Rightarrow> HandshakeProgress) \<Rightarrow> (link, unit) hop" where
  "note_progress f = h_modify (\<lambda>l. l\<lparr>ln_progress := f (ln_progress l)\<rparr>)"

text \<open>A call whose error counts as an answer, \<open>.is_ok_and(test)\<close>.\<close>

definition ok_and :: "'a kop \<Rightarrow> ('a \<Rightarrow> bool) \<Rightarrow> ('h, bool) hop" where
  "ok_and p test = h_bind (h_try (h_key p)) (\<lambda>r. h_ret (Inr (case r of Inl _ \<Rightarrow> False | Inr x \<Rightarrow> test x)))"

text \<open>
  A loop that reads a frame and handles it, until the handler has a result. It runs at most once per
  frame still to come, and once more to find the connection closed.
\<close>

fun read_loop :: "nat \<Rightarrow> (Frame \<Rightarrow> (link, 'a option) hop) \<Rightarrow> (link, 'a) hop" where
  "read_loop n handler =
     h_bind next_frame (\<lambda>frame.
     h_bind (handler frame) (\<lambda>r.
     case r of
       Some x \<Rightarrow> h_ret (Inr x)
     | None \<Rightarrow> (case n of 0 \<Rightarrow> h_ret (Inl Io) | Suc n \<Rightarrow> read_loop n handler)))"

declare read_loop.simps [simp del]

definition frame_loop :: "(Frame \<Rightarrow> (link, 'a option) hop) \<Rightarrow> (link, 'a) hop" where
  "frame_loop handler = h_bind h_get (\<lambda>l. read_loop (length (ln_in l)) handler)"

section \<open>Frames of the handshake\<close>

definition require_kind :: "Frame \<Rightarrow> byte \<Rightarrow> unit result" where
  "require_kind frame expected = guard_ok (fr_kind frame = expected) (State ''unexpected frame during pair handshake'')"

definition send_wrap :: "WrapMessage \<Rightarrow> (link, unit) hop" where
  "send_wrap message = h_bind (h_ret (encode_wrap message)) (\<lambda>bs. put_frame WRAP_KIND bs)"

definition send_ack :: "Epoch \<Rightarrow> bool \<Rightarrow> (link, unit) hop" where
  "send_ack epoch retry_pending = put_frame WRAP_ACK_KIND (encode_wrap_ack epoch retry_pending)"

definition verify_wrap :: "crypto \<Rightarrow> IdentityDocument \<Rightarrow> WrapMessage \<Rightarrow> unit result" where
  "verify_wrap c peer message =
     and_then (wrap_m message) (\<lambda>m. mldsa_verify c (id_vk peer) WRAP_CONTEXT m (wm_signature message))"

definition established :: "IdentityDocument \<Rightarrow> PairSession \<Rightarrow> (link, EstablishedSession) hop" where
  "established peer session =
     h_bind (note_progress (\<lambda>p. p\<lparr>hp_wrap_acknowledged := True\<rparr>)) (\<lambda>_.
     h_ret (Inr \<lparr>es_peer = peer, es_session = session\<rparr>))"

definition some_established :: "IdentityDocument \<Rightarrow> PairSession \<Rightarrow> (link, EstablishedSession option) hop" where
  "some_established peer session = h_bind (established peer session) (\<lambda>e. h_ret (Inr (Some e)))"

abbreviation continue_loop :: "(link, 'a option) hop" where
  "continue_loop \<equiv> h_ret (Inr None)"

section \<open>The wrap of a new or resumed pair\<close>

definition initial_wrap ::
  "crypto \<Rightarrow> IdentityDocument \<Rightarrow> IdentityDocument \<Rightarrow> Epoch \<Rightarrow> Epoch \<Rightarrow> (link, WrapMessage option) hop" where
  "initial_wrap c local peer local_epoch remote_epoch =
     (let pid = id_peer_id peer; floor = max local_epoch remote_epoch in
      h_bind (h_key (cached_pair pid)) (\<lambda>cached.
      h_bind (ok_and (current_session pid) (\<lambda>_. True)) (\<lambda>has_active.
      let eligible = (case cached of
            None \<Rightarrow> False
          | Some (initiator, message) \<Rightarrow> initiator = id_peer_id local \<and> wm_epoch message = floor \<and> has_active) in
      if eligible \<and> (local_epoch \<ge> remote_epoch \<or> id_peer_id local < pid) then
        h_bind (h_ret (ok_or cached (State ''eligible cached wrap disappeared''))) (\<lambda>(_, message).
        h_bind (h_key (wrap_retry message)) (\<lambda>m. h_ret (Inr (Some m))))
      else if id_peer_id local < pid \<and>
          (local_epoch \<noteq> remote_epoch \<or> cached = None \<or> local_epoch = Epoch 0 \<or> \<not> has_active) then
        h_bind (h_key (observe_remote_epoch pid floor)) (\<lambda>_.
        h_bind (h_key (next_epoch pid)) (\<lambda>epoch.
        h_bind draw_entropy (\<lambda>entropy.
        h_bind (h_key (create_inner c entropy pid (id_ek peer) epoch False)) (\<lambda>(_, message).
        h_ret (Inr (Some message))))))
      else h_ret (Inr None))))"

definition prepare_incoming_floor :: "crypto \<Rightarrow> IdentityDocument \<Rightarrow> WrapMessage \<Rightarrow> (link, unit) hop" where
  "prepare_incoming_floor c peer message =
     (let pid = id_peer_id peer in
      h_bind (ok_and (current_session pid) (\<lambda>_. True)) (\<lambda>active.
      if active then h_ret (Inr ())
      else
        h_bind (h_key store_peer_id) (\<lambda>local_id.
        if pid \<ge> local_id \<or> wm_min_id message \<noteq> min pid local_id \<or> wm_max_id message \<noteq> max pid local_id
        then h_ret (Inr ())
        else
          h_bind (h_key (peer_epoch pid)) (\<lambda>floor.
          case checked_sub (epoch_raw (wm_epoch message)) 1 of
            None \<Rightarrow> h_ret (Inr ())
          | Some predecessor \<Rightarrow>
              if predecessor > epoch_raw floor then
                h_bind (h_ret (verify_wrap c peer message)) (\<lambda>_.
                h_key (observe_remote_epoch pid (Epoch predecessor)))
              else h_ret (Inr ())))))"

definition handle_wrap :: "crypto \<Rightarrow> IdentityDocument \<Rightarrow> Frame \<Rightarrow> (link, EstablishedSession option) hop" where
  "handle_wrap c peer frame =
     (let pid = id_peer_id peer in
      if fr_kind frame = WRAP_KIND then
        h_bind (h_ret (decode_wrap (fr_payload frame))) (\<lambda>message.
        h_bind (ok_and (current_session pid) (\<lambda>session. wm_epoch message < ses_epoch session)) (\<lambda>stale.
        if stale then h_bind (h_ret (verify_wrap c peer message)) (\<lambda>_. continue_loop)
        else
          h_bind (prepare_incoming_floor c peer message) (\<lambda>_.
          h_bind (h_try (h_key (unwrap_inner c pid message False))) (\<lambda>r.
          case r of
            Inr session \<Rightarrow>
              h_bind (h_key (retry_epoch pid)) (\<lambda>retry.
              if retry \<noteq> None then
                h_bind (send_ack (wm_epoch message) True) (\<lambda>_.
                h_bind draw_entropy (\<lambda>entropy.
                h_bind (h_key (retry_collision c entropy pid)) (\<lambda>(_, retry).
                h_bind (send_wrap retry) (\<lambda>_. continue_loop))))
              else
                h_bind (send_ack (ses_epoch session) False) (\<lambda>_. some_established peer session))
          | Inl (EpochConflict _) \<Rightarrow> continue_loop
          | Inl e \<Rightarrow> h_ret (Inl e)))))
      else if fr_kind frame = WRAP_ACK_KIND then
        h_bind (h_ret (decode_wrap_ack (fr_payload frame))) (\<lambda>(epoch, retry_pending).
        if retry_pending then continue_loop
        else
          h_bind (h_key (current_session pid)) (\<lambda>session.
          h_bind (h_guard (epoch = ses_epoch session) (State ''WrapAck epoch does not match active session'')) (\<lambda>_.
          some_established peer session)))
      else h_ret (Inl (State ''unexpected frame during pair handshake'')))"

definition finish_wrap :: "crypto \<Rightarrow> IdentityDocument \<Rightarrow> (link, EstablishedSession) hop" where
  "finish_wrap c peer = frame_loop (handle_wrap c peer)"

section \<open>The candidate of an admission, and a pair in use\<close>

definition offer_candidate ::
  "crypto \<Rightarrow> IdentityDocument \<Rightarrow> Epoch \<Rightarrow> Epoch \<Rightarrow> Epoch \<Rightarrow> (link, unit) hop" where
  "offer_candidate c peer confirmed_epoch local_epoch remote_epoch =
     (let pid = id_peer_id peer in
      h_bind (h_key (cached_candidate pid)) (\<lambda>cached.
      case cached of
        Some (initiator, message) \<Rightarrow>
          h_bind (h_key store_peer_id) (\<lambda>me.
          if initiator = me then h_bind (h_key (wrap_retry message)) (\<lambda>m. send_wrap m)
          else h_ret (Inr ()))
      | None \<Rightarrow>
          h_bind (h_key store_peer_id) (\<lambda>me.
          if me < pid \<or> local_epoch > confirmed_epoch \<and> local_epoch \<ge> remote_epoch then
            h_bind (h_key (next_epoch pid)) (\<lambda>epoch.
            h_bind draw_entropy (\<lambda>entropy.
            h_bind (h_key (create_inner c entropy pid (id_ek peer) epoch True)) (\<lambda>(_, message).
            send_wrap message)))
          else h_ret (Inr ()))))"

definition handle_candidate :: "crypto \<Rightarrow> IdentityDocument \<Rightarrow> Frame \<Rightarrow> (link, EstablishedSession option) hop" where
  "handle_candidate c peer frame =
     (let pid = id_peer_id peer in
      if fr_kind frame = WRAP_KIND then
        h_bind (h_ret (decode_wrap (fr_payload frame))) (\<lambda>incoming.
        h_bind (ok_and (candidate_session pid) (\<lambda>candidate. wm_epoch incoming < ses_epoch candidate)) (\<lambda>stale.
        if stale then h_bind (h_ret (verify_wrap c peer incoming)) (\<lambda>_. continue_loop)
        else
          h_bind (h_try (h_key (unwrap_inner c pid incoming True))) (\<lambda>r.
          case r of
            Inr candidate \<Rightarrow>
              h_bind (h_key (candidate_retry_epoch pid)) (\<lambda>retry.
              if retry \<noteq> None then
                h_bind (send_ack (ses_epoch candidate) True) (\<lambda>_.
                h_bind draw_entropy (\<lambda>entropy.
                h_bind (h_key (retry_candidate_collision c entropy pid)) (\<lambda>(_, retry).
                h_bind (send_wrap retry) (\<lambda>_. continue_loop))))
              else
                h_bind (send_ack (ses_epoch candidate) False) (\<lambda>_. some_established peer candidate))
          | Inl (EpochConflict _) \<Rightarrow> continue_loop
          | Inl e \<Rightarrow> h_ret (Inl e))))
      else if fr_kind frame = WRAP_ACK_KIND then
        h_bind (h_ret (decode_wrap_ack (fr_payload frame))) (\<lambda>(epoch, retry_pending).
        if retry_pending then h_bind (h_key (discard_candidate pid)) (\<lambda>_. continue_loop)
        else
          h_bind (h_key (candidate_session pid)) (\<lambda>candidate.
          h_bind (h_guard (ses_epoch candidate = epoch) (State ''WrapAck epoch does not match admission candidate'')) (\<lambda>_.
          some_established peer candidate)))
      else h_ret (Inl (State ''unexpected frame during candidate handshake'')))"

definition finish_candidate ::
  "crypto \<Rightarrow> IdentityDocument \<Rightarrow> Epoch \<Rightarrow> Epoch \<Rightarrow> (link, EstablishedSession) hop" where
  "finish_candidate c peer local_epoch remote_epoch =
     h_bind (h_key (current_session (id_peer_id peer))) (\<lambda>confirmed.
     h_bind (offer_candidate c peer (ses_epoch confirmed) local_epoch remote_epoch) (\<lambda>_.
     frame_loop (handle_candidate c peer)))"

abbreviation no_rotation :: error where
  "no_rotation \<equiv> State ''active pair cannot rotate during another Join''"

definition confirm_preserved ::
  "crypto \<Rightarrow> IdentityDocument \<Rightarrow> PairSession \<Rightarrow> bool \<Rightarrow> WrapMessage \<Rightarrow> Frame \<Rightarrow> (link, unit) hop" where
  "confirm_preserved c peer session local_initiated cached frame =
     (if fr_kind frame = WRAP_KIND \<and> \<not> local_initiated then
        h_bind (h_ret (decode_wrap (fr_payload frame))) (\<lambda>incoming.
        h_bind (h_guard (incoming = cached) no_rotation) (\<lambda>_.
        h_bind (h_key (unwrap_inner c (id_peer_id peer) incoming False)) (\<lambda>opened.
        h_bind (h_guard (ses_epoch opened = ses_epoch session) no_rotation) (\<lambda>_.
        send_ack (ses_epoch session) False))))
      else if fr_kind frame = WRAP_ACK_KIND \<and> local_initiated then
        h_bind (h_ret (decode_wrap_ack (fr_payload frame))) (\<lambda>(epoch, retry_pending).
        h_guard (\<not> (retry_pending \<or> epoch \<noteq> ses_epoch session)) no_rotation)
      else h_ret (Inl no_rotation))"

definition finish_preserved ::
  "crypto \<Rightarrow> IdentityDocument \<Rightarrow> Epoch \<Rightarrow> Epoch \<Rightarrow> (link, EstablishedSession) hop" where
  "finish_preserved c peer local_epoch remote_epoch =
     (let pid = id_peer_id peer in
      h_bind (h_key (current_session pid)) (\<lambda>session.
      if local_epoch \<noteq> ses_epoch session \<or> remote_epoch \<noteq> ses_epoch session then
        finish_candidate c peer local_epoch remote_epoch
      else
        h_bind (h_key (cached_pair pid)) (\<lambda>cached.
        h_bind (h_ret (ok_or cached (State ''active pair has no cached wrap''))) (\<lambda>(initiator, cached).
        h_bind (h_key store_peer_id) (\<lambda>me.
        let local_initiated = (initiator = me) in
        h_bind (if local_initiated then h_bind (h_key (wrap_retry cached)) (\<lambda>m. send_wrap m) else h_ret (Inr ())) (\<lambda>_.
        h_bind next_frame (\<lambda>frame.
        h_bind (confirm_preserved c peer session local_initiated cached frame) (\<lambda>_.
        established peer session))))))))"

section \<open>The handshake\<close>

text \<open>The peer's identity: decoded, verified, and the one of the expected advertisement.\<close>

definition read_identity :: "crypto \<Rightarrow> DirectoryAd option \<Rightarrow> (link, IdentityDocument) hop" where
  "read_identity c expected =
     h_bind next_frame (\<lambda>frame.
     h_bind (h_ret (require_kind frame IDENTITY_KIND)) (\<lambda>_.
     h_bind (h_ret (decode_identity (fr_payload frame))) (\<lambda>peer.
     h_bind (h_ret (identity_verify c peer)) (\<lambda>_.
     h_bind (h_guard (\<not> (case expected of
           None \<Rightarrow> False
         | Some ad \<Rightarrow> da_peer_id ad \<noteq> id_peer_id peer \<or> da_ek ad \<noteq> id_ek peer \<or> da_vk ad \<noteq> id_vk peer))
       AuthenticationFailed) (\<lambda>_.
     h_ret (Inr peer))))))"

definition note_peer :: "PeerId \<Rightarrow> (link, bool) hop" where
  "note_peer pid =
     h_bind (note_progress (\<lambda>p. p\<lparr>hp_peer_id := Some pid\<rparr>)) (\<lambda>_.
     h_bind (ok_and (current_session pid) (\<lambda>_. True)) (\<lambda>active.
     h_bind (if active then h_ret (Inr True) else h_bind (h_key (cached_pair pid)) (\<lambda>p. h_ret (Inr (p \<noteq> None)))) (\<lambda>had_pair.
     h_bind (note_progress (\<lambda>p. p\<lparr>hp_had_pair := had_pair\<rparr>)) (\<lambda>_.
     h_ret (Inr had_pair)))))"

definition settle_identity :: "crypto \<Rightarrow> IdentityDocument \<Rightarrow> bool \<Rightarrow> bool \<Rightarrow> (link, unit) hop" where
  "settle_identity c peer preserve_existing had_pair =
     (if preserve_existing then
        h_bind (h_key (load_verified_peer (id_peer_id peer))) (\<lambda>known.
        h_guard (\<not> (known \<noteq> peer \<or> \<not> had_pair)) AuthenticationFailed)
      else
        h_bind draw_entropy (\<lambda>entropy. h_key (import_peer c entropy peer)))"

definition exchange_hints :: "PeerId \<Rightarrow> PeerId \<Rightarrow> (link, Epoch \<times> Epoch) hop" where
  "exchange_hints me pid =
     h_bind (h_key (peer_epoch pid)) (\<lambda>local_epoch.
     h_bind (put_frame EPOCH_HINT_KIND (epoch_hint_m me local_epoch)) (\<lambda>_.
     h_bind next_frame (\<lambda>frame.
     h_bind (h_ret (require_kind frame EPOCH_HINT_KIND)) (\<lambda>_.
     h_bind (h_ret (decode_epoch_hint (fr_payload frame))) (\<lambda>(hint_peer, remote_epoch).
     h_bind (h_guard (hint_peer = pid) AuthenticationFailed) (\<lambda>_.
     h_ret (Inr (local_epoch, remote_epoch))))))))"

definition establish_guarded ::
  "crypto \<Rightarrow> DirectoryAd option \<Rightarrow> (PeerId \<Rightarrow> bool result) \<Rightarrow> (link, EstablishedSession) hop" where
  "establish_guarded c expected preserve_existing =
     h_bind (h_key store_identity) (\<lambda>local.
     h_bind (h_ret (encode_identity local)) (\<lambda>bs.
     h_bind (put_frame IDENTITY_KIND bs) (\<lambda>_.
     h_bind (read_identity c expected) (\<lambda>peer.
     h_bind (note_peer (id_peer_id peer)) (\<lambda>had_pair.
     h_bind (h_ret (preserve_existing (id_peer_id peer))) (\<lambda>preserve.
     h_bind (settle_identity c peer preserve had_pair) (\<lambda>_.
     h_bind (exchange_hints (id_peer_id local) (id_peer_id peer)) (\<lambda>(local_epoch, remote_epoch).
     if preserve then finish_preserved c peer local_epoch remote_epoch
     else
       h_bind (initial_wrap c local peer local_epoch remote_epoch) (\<lambda>message.
       h_bind (case message of None \<Rightarrow> h_ret (Inr ()) | Some m \<Rightarrow> send_wrap m) (\<lambda>_.
       finish_wrap c peer))))))))))"

definition establish :: "crypto \<Rightarrow> DirectoryAd option \<Rightarrow> (link, EstablishedSession) hop" where
  "establish c expected = establish_guarded c expected (\<lambda>_. Inr False)"

end
