(* ===== verification/Session_Inv.thy ===== *)
theory Session_Inv
  imports Session
begin

text \<open>
  What a handshake does, whatever the other end sends: it ends, keeps the invariant of the keystore, and
  returns a session only for the verified identity at an epoch one of the two ends has acknowledged.
\<close>

section \<open>The connection\<close>

lemma next_frame_Inr:
  "next_frame (l, w) = (Ret (Inr f), s') \<longleftrightarrow> (\<exists>rs. ln_in l = Inr f # rs \<and> s' = (l\<lparr>ln_in := rs\<rparr>, w))"
  by (cases "ln_in l") (auto simp: next_frame_def h_bind_def h_get_def h_modify_def h_ret_def split: sum.splits)

lemma put_frame_Inr:
  "put_frame kind p (l, w) = (Ret (Inr u), s') \<longleftrightarrow> frame_ok \<lparr>fr_kind = kind, fr_payload = p\<rparr> \<and> ln_room l \<noteq> 0 \<and>
    s' = (l\<lparr>ln_out := ln_out l @ [\<lparr>fr_kind = kind, fr_payload = p\<rparr>], ln_room := ln_room l - 1\<rparr>, w)"
  by (auto simp: put_frame_def h_bind_Inr h_simps frame_new_Inr write_frame_Inr)

lemma draw_entropy_Inr:
  "draw_entropy (l, w) = (Ret (Inr e), s') \<Longrightarrow> \<exists>es. s' = (l\<lparr>ln_entropy := es\<rparr>, w)"
  by (cases "ln_entropy l") (auto simp: draw_entropy_def h_bind_Inr h_simps intro: exI [of _ "ln_entropy l"])

lemma note_progress_Inr:
  "note_progress f (l, w) = (Ret (Inr u), s') \<longleftrightarrow> s' = (l\<lparr>ln_progress := f (ln_progress l)\<rparr>, w)"
  by (auto simp: note_progress_def h_simps)

text \<open>The loop of the source: the bound on the iterations is never what ends it.\<close>

definition shrinks :: "(link, 'a) hop \<Rightarrow> bool" where
  "shrinks p \<longleftrightarrow> (\<forall>s. length (ln_in (fst (snd (p s)))) \<le> length (ln_in (fst s)))"

lemma read_loop_cases:
  obtains (stopped) r s1 where "next_frame (l, w) = (r, s1)" "\<forall>f. r \<noteq> Ret (Inr f)"
  | (frame) f rs where "ln_in l = Inr f # rs" "next_frame (l, w) = (Ret (Inr f), l\<lparr>ln_in := rs\<rparr>, w)"
proof -
  obtain r s1 where n: "next_frame (l, w) = (r, s1)" by (meson surj_pair)
  show ?thesis
  proof (cases "\<exists>f. r = Ret (Inr f)")
    case True
    with n show ?thesis using frame by (auto simp: next_frame_Inr)
  next
    case False
    with n show ?thesis using stopped by blast
  qed
qed

lemma shrinksD: "shrinks p \<Longrightarrow> p (l, w) = (r, l', w') \<Longrightarrow> length (ln_in l') \<le> length (ln_in l)"
  unfolding shrinks_def by (drule spec [of _ "(l, w)"]) simp

lemma read_loop_enough:
  assumes "\<And>f. shrinks (handler f)"
  shows "length (ln_in l) \<le> n \<Longrightarrow> length (ln_in l) \<le> m \<Longrightarrow> read_loop n handler (l, w) = read_loop m handler (l, w)"
proof (induction n arbitrary: m l w rule: less_induct)
  case (less n)
  show ?case
  proof (cases rule: read_loop_cases [of l w])
    case (stopped r s1)
    then show ?thesis
      by (subst (1 2) read_loop.simps) (auto simp: h_bind_def split: run.splits sum.splits)
  next
    case (frame f rs)
    obtain n' m' where nm: "n = Suc n'" "m = Suc m'" "length rs \<le> n'" "length rs \<le> m'"
      using less.prems frame(1) by (cases n; cases m; simp)
    obtain r2 l2 w2 where h: "handler f (l\<lparr>ln_in := rs\<rparr>, w) = (r2, l2, w2)" by (metis prod_cases3)
    have "length (ln_in l2) \<le> length rs"
      using shrinksD [OF assms h] by simp
    then have "read_loop n' handler (l2, w2) = read_loop m' handler (l2, w2)"
      using less.IH [of n' l2 m' w2] nm by simp
    then show ?thesis
      using frame(2) h nm by (subst (1 2) read_loop.simps) (auto simp: h_bind_def split: run.splits sum.splits option.splits)
  qed
qed

lemma frame_loop_unfold:
  assumes "\<And>f. shrinks (handler f)"
  shows "frame_loop handler = h_bind next_frame (\<lambda>frame. h_bind (handler frame) (\<lambda>r.
    case r of Some x \<Rightarrow> h_ret (Inr x) | None \<Rightarrow> frame_loop handler))"
proof -
  have enough: "read_loop n handler (l, w) = frame_loop handler (l, w)" if "length (ln_in l) \<le> n" for l w n
    using read_loop_enough [OF assms that order_refl] by (simp add: frame_loop_def h_bind_def h_get_def)
  have "frame_loop handler (l, w) = h_bind next_frame (\<lambda>frame. h_bind (handler frame) (\<lambda>r.
    case r of Some x \<Rightarrow> h_ret (Inr x) | None \<Rightarrow> frame_loop handler)) (l, w)" for l w
  proof (cases rule: read_loop_cases [of l w])
    case (stopped r s1)
    then show ?thesis
      unfolding enough [OF order_refl, symmetric] by (subst read_loop.simps) (auto simp: h_bind_def split: run.splits sum.splits)
  next
    case (frame f rs)
    obtain r2 l2 w2 where h: "handler f (l\<lparr>ln_in := rs\<rparr>, w) = (r2, l2, w2)" by (metis prod_cases3)
    then have "read_loop (length rs) handler (l2, w2) = frame_loop handler (l2, w2)"
      using shrinksD [OF assms h] by (intro enough) simp
    then show ?thesis
      using frame h by (subst enough [OF order_refl, symmetric], subst read_loop.simps)
        (auto simp: h_bind_def split: run.splits sum.splits option.splits)
  qed
  then show ?thesis by auto
qed

lemma read_loop_Inr:
  assumes "read_loop n handler s = (Ret (Inr x), s')" and "I s"
    and "\<And>s f s1 s2. I s \<Longrightarrow> next_frame s = (Ret (Inr f), s1) \<Longrightarrow> handler f s1 = (Ret (Inr None), s2) \<Longrightarrow> I s2"
  shows "\<exists>s0 f s1. I s0 \<and> next_frame s0 = (Ret (Inr f), s1) \<and> handler f s1 = (Ret (Inr (Some x)), s')"
  using assms(1,2)
proof (induction n arbitrary: s)
  case (0 s)
  then obtain f s1 r s2 where f: "next_frame s = (Ret (Inr f), s1)" "handler f s1 = (Ret (Inr r), s2)"
      "(case r of Some x \<Rightarrow> h_ret (Inr x) | None \<Rightarrow> h_ret (Inl Io)) s2 = (Ret (Inr x), s')"
    by (subst (asm) read_loop.simps) (auto simp: h_bind_Inr)
  then have "handler f s1 = (Ret (Inr (Some x)), s')" by (cases r) (auto simp: h_simps)
  with 0 f(1) show ?case by blast
next
  case (Suc n)
  then obtain f s1 r s2 where f: "next_frame s = (Ret (Inr f), s1)" "handler f s1 = (Ret (Inr r), s2)"
      and r: "(case r of Some x \<Rightarrow> h_ret (Inr x) | None \<Rightarrow> read_loop n handler) s2 = (Ret (Inr x), s')"
    by (subst (asm) read_loop.simps) (auto simp: h_bind_Inr)
  show ?case
  proof (cases r)
    case None
    with f r show ?thesis using Suc.IH [of s2] assms(3) [OF Suc.prems(2) f(1)] by auto
  next
    case (Some y)
    then have "handler f s1 = (Ret (Inr (Some x)), s')" using f(2) r by (auto simp: h_simps)
    with f(1) Suc.prems(2) show ?thesis by blast
  qed
qed

section \<open>The keystore's invariant\<close>

text \<open>Conditions on the keystore alone.\<close>

definition khold :: "(keystore \<Rightarrow> bool) \<Rightarrow> ('h, 'a) hop \<Rightarrow> bool" where
  "khold P p \<longleftrightarrow> (\<forall>s. P (wd_keys (snd s)) \<longrightarrow> (case p s of (Ret _, s') \<Rightarrow> P (wd_keys (snd s')) | (Crashed, _) \<Rightarrow> False))"

lemma khold_bind: "khold P p \<Longrightarrow> (\<And>x. khold P (f x)) \<Longrightarrow> khold P (h_bind p f)"
  unfolding khold_def h_bind_def by (fastforce split: run.splits sum.splits prod.splits)

lemma khold_key: "kt P p (\<lambda>_. P) P \<Longrightarrow> khold P (h_key p)"
  unfolding khold_def kt_def h_key_def by (fastforce split: sum.splits prod.splits)

lemma khold_try: "khold P p \<Longrightarrow> khold P (h_try p)"
  unfolding khold_def h_try_def by (fastforce split: run.splits prod.splits)

lemma khold_basic: "khold P (h_ret r)" "khold P h_get" "khold P (h_modify f)"
  by (auto simp: khold_def h_ret_def h_get_def h_modify_def)

lemma khold_link: "khold P next_frame" "khold P (put_frame k b)" "khold P draw_entropy" "khold P (note_progress g)"
  unfolding next_frame_def put_frame_def draw_entropy_def note_progress_def
  by (auto intro!: khold_bind khold_basic split: list.splits)

lemma khold_ok_and: "kt P p (\<lambda>_. P) P \<Longrightarrow> khold P (ok_and p t)"
  unfolding ok_and_def by (intro khold_bind khold_try khold_key khold_basic)

lemma khold_send: "khold P (send_wrap m)" "khold P (send_ack e r)" "khold P (established d s)" "khold P (some_established d s)"
  unfolding send_wrap_def send_ack_def some_established_def established_def by (auto intro!: khold_bind khold_basic khold_link)

lemma khold_loop: "(\<And>f. khold P (handler f)) \<Longrightarrow> khold P (read_loop n handler)"
  by (induction n) (subst read_loop.simps, auto intro!: khold_bind khold_link khold_basic split: option.splits)+

lemma khold_frame_loop: "(\<And>f. khold P (handler f)) \<Longrightarrow> khold P (frame_loop handler)"
  unfolding frame_loop_def by (intro khold_bind khold_basic khold_loop)

lemma store_id_kinv: "kop_inv store_peer_id" "kop_inv store_identity"
  unfolding store_peer_id_def store_identity_def by (intro allI kt_query kt_ret_inv)+

lemmas handshake_kinv = queries_kinv [rule_format] store_id_kinv [rule_format] create_inner_kinv [rule_format]
  unwrap_inner_kinv [rule_format] rest_create_kinv [rule_format] import_peer_kinv [rule_format]
  observe_remote_epoch_kinv [rule_format] discard_candidate_kinv [rule_format]

lemmas khold_intros = khold_bind khold_key khold_try khold_basic khold_link khold_ok_and khold_send khold_frame_loop handshake_kinv

lemma khold_if: "(b \<Longrightarrow> khold P p) \<Longrightarrow> (\<not> b \<Longrightarrow> khold P q) \<Longrightarrow> khold P (if b then p else q)"
  by simp

lemma khold_wrap:
  "khold (kinv w f) (initial_wrap c l d e e')" "khold (kinv w f) (prepare_incoming_floor c d m)"
  "khold (kinv w f) (handle_wrap c d frame)" "khold (kinv w f) (finish_wrap c d)"
proof -
  show "khold (kinv w f) (initial_wrap c l d e e')"
    unfolding initial_wrap_def Let_def by (intro khold_intros khold_if) (auto intro!: khold_intros)
  show p: "khold (kinv w f) (prepare_incoming_floor c d m)" for m
    unfolding prepare_incoming_floor_def Let_def by (intro khold_intros khold_if) (auto intro!: khold_intros khold_if split: option.splits)
  show h: "khold (kinv w f) (handle_wrap c d frame)" for frame
    unfolding handle_wrap_def Let_def
    by (intro khold_if khold_intros p) (auto intro!: khold_intros khold_if split: sum.splits error.splits)
  show "khold (kinv w f) (finish_wrap c d)"
    unfolding finish_wrap_def by (intro khold_frame_loop h)
qed

lemma khold_candidate:
  "khold (kinv w f) (offer_candidate c d e0 e e')" "khold (kinv w f) (handle_candidate c d frame)"
  "khold (kinv w f) (finish_candidate c d e e')"
proof -
  show o: "khold (kinv w f) (offer_candidate c d e0 e e')" for e0
    unfolding offer_candidate_def Let_def
    by (intro khold_intros) (auto intro!: khold_intros khold_if split: option.splits)
  show h: "khold (kinv w f) (handle_candidate c d frame)" for frame
    unfolding handle_candidate_def Let_def
    by (intro khold_if khold_intros) (auto intro!: khold_intros khold_if split: sum.splits error.splits)
  show "khold (kinv w f) (finish_candidate c d e e')"
    unfolding finish_candidate_def by (intro khold_intros o h)
qed

lemma khold_preserved:
  "khold (kinv w f) (confirm_preserved c d s b m frame)" "khold (kinv w f) (finish_preserved c d e e')"
proof -
  show p: "khold (kinv w f) (confirm_preserved c d s b m frame)" for s b m frame
    unfolding confirm_preserved_def by (intro khold_if khold_intros) (auto intro!: khold_intros)
  show "khold (kinv w f) (finish_preserved c d e e')"
    unfolding finish_preserved_def Let_def
    by (intro khold_intros khold_if khold_candidate) (auto intro!: khold_intros p)
qed

lemma khold_establish: "khold (kinv w f) (establish_guarded c expected preserve)"
proof -
  have "khold (kinv w f) (read_identity c expected)"
    unfolding read_identity_def by (intro khold_intros)
  moreover have "khold (kinv w f) (note_peer p)" for p
    unfolding note_peer_def by (intro khold_intros khold_if)
  moreover have "khold (kinv w f) (settle_identity c d b b')" for d b b'
    unfolding settle_identity_def by (intro khold_intros khold_if)
  moreover have "khold (kinv w f) (exchange_hints p q)" for p q
    unfolding exchange_hints_def by (intro khold_intros) (auto intro!: khold_intros)
  ultimately show ?thesis
    unfolding establish_guarded_def
    by (intro khold_intros) (auto intro!: khold_intros khold_if khold_wrap khold_preserved split: option.splits)
qed

section \<open>The loops\<close>

lemma shrinksI: "(\<And>l w r l' w'. p (l, w) = (r, l', w') \<Longrightarrow> length (ln_in l') \<le> length (ln_in l)) \<Longrightarrow> shrinks p"
  unfolding shrinks_def by (metis prod.collapse)

lemma shrinks_bind: "shrinks p \<Longrightarrow> (\<And>x. shrinks (f x)) \<Longrightarrow> shrinks (h_bind p f)"
  by (rule shrinksI) (auto simp: h_bind_def dest!: shrinksD split: run.splits sum.splits prod.splits intro: order_trans)

lemma shrinks_basic: "shrinks (h_ret r)" "shrinks h_get" "shrinks (h_key p)" "shrinks draw_entropy" "shrinks (note_progress g)"
    "shrinks (put_frame k b)" "shrinks next_frame"
proof -
  show basic: "shrinks (h_ret r)" "shrinks h_get" "shrinks (h_key p)" "shrinks (note_progress g)" for r :: "'x result" and p :: "'y kop" and g
    by (auto simp: shrinks_def h_ret_def h_get_def h_key_def note_progress_def h_modify_def split: prod.splits)
  have m: "shrinks (h_modify g)" if "\<And>l. length (ln_in (g l)) \<le> length (ln_in l)" for g
    using that by (simp add: shrinks_def h_modify_def)
  show "shrinks draw_entropy"
    unfolding draw_entropy_def by (auto intro!: shrinks_bind basic m split: list.splits)
  show "shrinks (put_frame k b)"
    unfolding put_frame_def by (auto intro!: shrinks_bind basic m)
  show "shrinks next_frame"
    by (auto simp: shrinks_def next_frame_def h_bind_def h_get_def h_modify_def h_ret_def split: list.splits sum.splits)
qed

lemma shrinks_try: "shrinks p \<Longrightarrow> shrinks (h_try p)"
  by (rule shrinksI) (auto simp: h_try_def dest!: shrinksD split: run.splits prod.splits)

lemma shrinks_send: "shrinks (send_wrap m)" "shrinks (send_ack e r)" "shrinks (some_established d s)" "shrinks (ok_and p t)"
  unfolding send_wrap_def send_ack_def some_established_def established_def ok_and_def
  by (auto intro!: shrinks_bind shrinks_basic shrinks_try)

lemmas shrinks_intros = shrinks_bind shrinks_basic shrinks_try shrinks_send

lemma shrinks_if: "(b \<Longrightarrow> shrinks p) \<Longrightarrow> (\<not> b \<Longrightarrow> shrinks q) \<Longrightarrow> shrinks (if b then p else q)"
  by simp

lemma shrinks_handlers: "shrinks (handle_wrap c d frame)" "shrinks (handle_candidate c d frame)"
proof -
  have p: "shrinks (prepare_incoming_floor c d m)" for m
    unfolding prepare_incoming_floor_def Let_def
    by (intro shrinks_intros shrinks_if) (auto intro!: shrinks_intros shrinks_if split: option.splits)
  show "shrinks (handle_wrap c d frame)"
    unfolding handle_wrap_def Let_def
    by (intro shrinks_if shrinks_intros p) (auto intro!: shrinks_intros shrinks_if split: sum.splits error.splits)
  show "shrinks (handle_candidate c d frame)"
    unfolding handle_candidate_def Let_def
    by (intro shrinks_if shrinks_intros) (auto intro!: shrinks_intros shrinks_if split: sum.splits error.splits)
qed

lemmas finish_wrap_unfold = frame_loop_unfold [of "handle_wrap c d" for c d, OF shrinks_handlers(1), folded finish_wrap_def]
lemmas candidate_loop_unfold = frame_loop_unfold [of "handle_candidate c d" for c d, OF shrinks_handlers(2)]

section \<open>The whole handshake\<close>

lemma establish_keeps:
  assumes "ksys_inv (wd_keys w, True)"
  shows "\<exists>r l' w'. establish_guarded c expected preserve (l, w) = (Ret r, l', w') \<and> ksys_inv (wd_keys w', True) \<and>
    (\<forall>p. wm (wd_keys w) p \<le> wm (wd_keys w') p) \<and> (\<forall>p. file_mark (wd_keys w) p \<le> file_mark (wd_keys w') p)"
proof -
  have "kinv (wm (wd_keys w)) (file_mark (wd_keys w)) (wd_keys w)"
    using assms kinv_bounds [of "wm (wd_keys w)" "file_mark (wd_keys w)" "wd_keys w"] by (simp add: ksys_inv_def)
  moreover obtain r l' w' where run: "establish_guarded c expected preserve (l, w) = (r, l', w')" by (metis prod_cases3)
  ultimately obtain x where "r = Ret x" "kinv (wm (wd_keys w)) (file_mark (wd_keys w)) (wd_keys w')"
    using khold_establish [of "wm (wd_keys w)" "file_mark (wd_keys w)" c expected preserve, unfolded khold_def, rule_format, of "(l, w)"]
    by (auto split: run.splits)
  with run show ?thesis
    using kinv_bounds [of "wm (wd_keys w)" "file_mark (wd_keys w)" "wd_keys w'"] by (auto simp: ksys_inv_def)
qed

end
