(* ===== verification/Session_Auth.thy ===== *)
theory Session_Auth
  imports Session_Inv
begin

text \<open>
  What a returned session rests on: the identity imported and verified in this handshake, the pair (or
  admission candidate) the keystore holds, and the last frame read, which acknowledges the epoch or is a
  wrap the peer signed and this end acknowledged.
\<close>

section \<open>Calls that leave the known identities alone\<close>

abbreviation keep_peers :: "(PeerId, IdentityDocument) btree_map \<Rightarrow> 'a kop \<Rightarrow> bool" where
  "keep_peers P p \<equiv> kt (\<lambda>k. si_peers (ks_inner k) = P) p (\<lambda>_ k. si_peers (ks_inner k) = P) (\<lambda>k. si_peers (ks_inner k) = P)"

lemma peers_ret: "keep_peers P (k_ret r)"
  by (rule kt_ret)

lemma peers_set: "si_peers i = P \<Longrightarrow> keep_peers P (k_set i)"
  by (rule kt_set) simp

lemma peers_bind: "keep_peers P p \<Longrightarrow> (\<And>x. keep_peers P (f x)) \<Longrightarrow> keep_peers P (k_bind p f)"
  by (erule kt_bind)

lemma peers_bind_inner: "(\<And>i. si_peers i = P \<Longrightarrow> keep_peers P (f i)) \<Longrightarrow> keep_peers P (k_bind k_inner f)"
  by (auto simp: kt_def k_bind_def k_inner_def split: sum.splits prod.splits)

lemma peers_bind_lock: "(\<And>i. si_peers i = P \<Longrightarrow> keep_peers P (f i)) \<Longrightarrow> keep_peers P (k_bind store_lock f)"
  by (auto simp: kt_def k_bind_def k_inner_def store_lock_def k_ret_def split: sum.splits prod.splits)

lemma peers_bind_ret: "(\<And>x. r = Inr x \<Longrightarrow> keep_peers P (f x)) \<Longrightarrow> keep_peers P (k_bind (k_ret r) f)"
  by (auto simp: kt_def k_bind_def k_ret_def split: sum.splits prod.splits)

lemma peers_persist: "keep_peers P store_persist"
  by (auto simp: kt_def store_persist_def k_bind_def k_inner_def k_or_fail_def k_ret_def k_write_def place_state_def
      split: sum.splits prod.splits list.splits outcome.splits)

lemma peers_slot: "keep_peers P take_slot"
  unfolding take_slot_def by (intro peers_bind_inner peers_bind_ret peers_bind peers_set peers_ret) simp

lemmas peers_intros = peers_bind_inner peers_bind_lock peers_bind_ret peers_set peers_persist peers_slot peers_ret peers_bind

lemma peers_install: "keep_peers P (store_install p ini m key)" "keep_peers P (install_candidate p ini m key)"
  unfolding store_install_def install_candidate_def Let_def drop_keys_def raise_watermark_def
  by (intro peers_intros; simp)+

lemma note_collision_peers:
  assumes "note_collision p m cand col i = Inr i'"
  shows "si_peers i' = si_peers i" "si_failed i' = si_failed i"
  using assms by (auto simp: note_collision_def split: if_splits)

lemma replace_candidate_keeps:
  "si_peers (replace_candidate p a b i) = si_peers i" "si_failed (replace_candidate p a b i) = si_failed i"
  by (simp_all add: replace_candidate_def Let_def drop_keys_def split: option.splits)

lemma peers_calls:
  "keep_peers P (create_inner c en p ek e cand)" "keep_peers P (unwrap_inner c p m cand)" "keep_peers P (discard_candidate p)"
  "keep_peers P (observe_remote_epoch p e)" "keep_peers P (retry_collision c en p)" "keep_peers P (retry_candidate_collision c en p)"
proof -
  show cr: "keep_peers P (create_inner c en p ek e cand)" for ek e cand
    unfolding create_inner_def Let_def by (intro peers_bind_lock peers_bind_ret) (auto intro!: peers_intros peers_install)
  show "keep_peers P (unwrap_inner c p m cand)"
    unfolding unwrap_inner_def
    by (intro peers_bind_lock peers_bind_ret)
      (auto intro!: peers_bind_ret peers_bind peers_set peers_ret peers_install simp: replace_candidate_keeps split: verdict.splits,
        (metis note_collision_peers(1))+)
  show d: "keep_peers P (discard_candidate p)"
    unfolding discard_candidate_def Let_def drop_keys_def by (intro peers_bind_lock) (auto intro!: peers_intros split: option.splits)
  show "keep_peers P (observe_remote_epoch p e)"
    unfolding observe_remote_epoch_def by (intro peers_bind_lock peers_bind_ret) (auto intro!: peers_intros)
  show "keep_peers P (retry_collision c en p)" "keep_peers P (retry_candidate_collision c en p)"
    unfolding retry_collision_def retry_candidate_collision_def by (intro peers_bind_lock peers_bind_ret peers_bind cr d)+
qed

lemma peers_queries:
  "keep_peers P (next_epoch p)" "keep_peers P (peer_epoch p)" "keep_peers P (current_session p)"
  "keep_peers P (candidate_session p)" "keep_peers P (cached_pair p)" "keep_peers P (cached_candidate p)"
  "keep_peers P (retry_epoch p)" "keep_peers P (candidate_retry_epoch p)" "keep_peers P (wrap_retry m)" "keep_peers P store_peer_id"
  unfolding next_epoch_def peer_epoch_def current_session_def candidate_session_def cached_pair_def cached_candidate_def
    retry_epoch_def candidate_retry_epoch_def wrap_retry_def store_peer_id_def
  by (intro peers_bind_lock peers_ret)+

text \<open>The loops keep what is known of the peer; \<open>khold\<close> carries the condition.\<close>

definition knows_peer :: "IdentityDocument \<Rightarrow> keystore \<Rightarrow> bool" where
  "knows_peer d k \<longleftrightarrow> bm_get (si_peers (ks_inner k)) (id_peer_id d) = Some d"

lemma keep_known: "(\<And>P. keep_peers P p) \<Longrightarrow> kt (knows_peer d) p (\<lambda>_. knows_peer d) (knows_peer d)"
  unfolding kt_def knows_peer_def by (fastforce split: sum.splits prod.splits)

lemmas known_intros = khold_bind khold_key khold_try khold_basic khold_link khold_ok_and khold_send keep_known [OF peers_calls(1)]
  keep_known [OF peers_calls(2)] keep_known [OF peers_calls(3)] keep_known [OF peers_calls(4)] keep_known [OF peers_calls(5)]
  keep_known [OF peers_calls(6)] keep_known [OF peers_queries(1)] keep_known [OF peers_queries(2)] keep_known [OF peers_queries(3)]
  keep_known [OF peers_queries(4)] keep_known [OF peers_queries(5)] keep_known [OF peers_queries(6)] keep_known [OF peers_queries(7)]
  keep_known [OF peers_queries(8)] keep_known [OF peers_queries(9)] keep_known [OF peers_queries(10)]

lemma known_handlers:
  "khold (knows_peer d) (initial_wrap c l d' e e')" "khold (knows_peer d) (prepare_incoming_floor c d' m)"
  "khold (knows_peer d) (handle_wrap c d' frame)" "khold (knows_peer d) (offer_candidate c d' e0 e e')"
  "khold (knows_peer d) (handle_candidate c d' frame)"
proof -
  show "khold (knows_peer d) (initial_wrap c l d' e e')"
    unfolding initial_wrap_def Let_def by (intro known_intros khold_if) (auto intro!: known_intros)
  show p: "khold (knows_peer d) (prepare_incoming_floor c d' m)" for m
    unfolding prepare_incoming_floor_def Let_def by (intro known_intros khold_if) (auto intro!: known_intros khold_if split: option.splits)
  show "khold (knows_peer d) (handle_wrap c d' frame)"
    unfolding handle_wrap_def Let_def
    by (intro khold_if known_intros p) (auto intro!: known_intros khold_if split: sum.splits error.splits)
  show "khold (knows_peer d) (offer_candidate c d' e0 e e')"
    unfolding offer_candidate_def Let_def
    by (intro known_intros) (auto intro!: known_intros khold_if split: option.splits)
  show "khold (knows_peer d) (handle_candidate c d' frame)"
    unfolding handle_candidate_def Let_def
    by (intro khold_if known_intros) (auto intro!: known_intros khold_if split: sum.splits error.splits)
qed

section \<open>The session of an accepted wrap\<close>

lemma bm_get_insert_same [simp]: "bm_get (bm_insert k v m) k = Some v"
  by (induction k v m rule: bm_insert.induct) auto

lemma installs_current:
  assumes "store_install p ini m key (os, k) = (Inr s, os', k')"
  shows "\<exists>q. bm_get (si_pairs (ks_inner k')) p = Some q \<and> pp_epoch q = wm_epoch m"
  using assms
  by (auto simp: store_install_def Let_def k_bind_Inr k_simps take_slot_Inr drop_keys_def raise_watermark_def dest!: store_persist_Inr)

lemma installs_candidate:
  assumes "install_candidate p ini m key (os, k) = (Inr s, os', k')"
  shows "\<exists>q. bm_get (si_candidates (ks_inner k')) p = Some q \<and> pp_epoch q = wm_epoch m"
  using assms
  by (auto simp: install_candidate_def Let_def k_bind_Inr k_simps take_slot_Inr raise_watermark_def dest!: store_persist_Inr)

lemma current_sessionI:
  "\<not> si_failed (ks_inner k) \<Longrightarrow> bm_get (si_pairs (ks_inner k)) p = Some q \<Longrightarrow> inner_session (ks_inner k) p (pp_epoch q) = Inr s \<Longrightarrow>
    current_session p (os, k) = (Inr s, os, k)"
  "\<not> si_failed (ks_inner k) \<Longrightarrow> bm_get (si_candidates (ks_inner k)) p = Some q \<Longrightarrow> inner_session (ks_inner k) p (pp_epoch q) = Inr s \<Longrightarrow>
    candidate_session p (os, k) = (Inr s, os, k)"
  by (simp_all add: current_session_def candidate_session_def k_bind_def store_lock_def k_inner_def k_ret_def)

lemma unwrap_check_signed:
  assumes "unwrap_check c i p m cand = Inr v" and "bm_get (si_peers i) p = Some d"
  shows "verify_wrap c d m = Inr ()"
  using assms by (auto simp: unwrap_check_def verify_wrap_def)

lemma unwrap_check_reuse:
  assumes "unwrap_check c i p m cand = Inr Reuse"
  shows "\<exists>q. bm_get (if cand then si_candidates i else si_pairs i) p = Some q \<and> pp_epoch q = wm_epoch m"
proof -
  obtain x where "wrap_verdict (local_peer i) p m cand x (if cand then bm_get (si_candidates i) p else bm_get (si_pairs i) p) = Inr Reuse"
    using assms unfolding unwrap_check_def by (auto split: verdict.splits; metis verdict.exhaust)
  then show ?thesis
    by (cases cand) (auto simp: wrap_verdict_def split: option.splits if_splits)
qed

abbreviation session_of :: "bool \<Rightarrow> PeerId \<Rightarrow> PairSession kop" where
  "session_of cand p \<equiv> (if cand then candidate_session p else current_session p)"

lemma unwrap_session:
  assumes "unwrap_inner c (id_peer_id d) m cand (os, k) = (Inr s, os', k')" and "knows_peer d k"
  shows "verify_wrap c d m = Inr ()" "ses_epoch s = wm_epoch m" "session_of cand (id_peer_id d) (os', k') = (Inr s, os', k')"
proof -
  let ?p = "id_peer_id d"
  obtain v where v: "unwrap_check c (ks_inner k) ?p m cand = Inr v" and ok: "\<not> si_failed (ks_inner k)"
    using assms(1) by (auto simp: unwrap_inner_def k_bind_Inr k_simps store_lock_Inr)
  show "verify_wrap c d m = Inr ()"
    using unwrap_check_signed [OF v] assms(2) by (simp add: knows_peer_def)
  have "\<not> si_failed (ks_inner k') \<and> inner_session (ks_inner k') ?p (wm_epoch m) = Inr s \<and>
      (\<exists>q. bm_get (if cand then si_candidates (ks_inner k') else si_pairs (ks_inner k')) ?p = Some q \<and> pp_epoch q = wm_epoch m)"
  proof (cases v)
    case Reuse
    then show ?thesis
      using assms(1) v ok unwrap_check_reuse [of c "ks_inner k" ?p m cand]
      by (auto simp: unwrap_inner_def k_bind_Inr k_simps store_lock_Inr)
  next
    case (Proceed col spd)
    obtain key j where j: "note_collision ?p m cand col (ks_inner k) = Inr j"
        "(if cand then install_candidate ?p ?p m key else store_install ?p ?p m key)
          (os, k\<lparr>ks_inner := if cand then replace_candidate ?p col spd j else j\<rparr>) = (Inr s, os', k')"
      using assms(1) v ok Proceed by (cases cand) (auto simp: unwrap_inner_def k_bind_Inr k_simps store_lock_Inr)
    then obtain i os'' where i: "\<not> si_failed i"
        "(if cand then install_candidate ?p ?p m key else store_install ?p ?p m key) (os'', k\<lparr>ks_inner := i\<rparr>) = (Inr s, os', k')"
      using ok note_collision_peers(2) [OF j(1)] that [of "if cand then replace_candidate ?p col spd j else j" os]
      by (simp add: replace_candidate_keeps split: if_splits)
    then show ?thesis
      using store_install_Inr [of ?p ?p m key os'' "k\<lparr>ks_inner := i\<rparr>" s os' k'] installs_current [of ?p ?p m key os'' "k\<lparr>ks_inner := i\<rparr>" s os' k']
        install_candidate_Inr [of ?p ?p m key os'' "k\<lparr>ks_inner := i\<rparr>" s os' k'] installs_candidate [of ?p ?p m key os'' "k\<lparr>ks_inner := i\<rparr>" s os' k']
      by (cases cand) auto
  qed
  then obtain q where q: "\<not> si_failed (ks_inner k')" "inner_session (ks_inner k') ?p (wm_epoch m) = Inr s"
      "bm_get (if cand then si_candidates (ks_inner k') else si_pairs (ks_inner k')) ?p = Some q" "pp_epoch q = wm_epoch m"
    by blast
  show "ses_epoch s = wm_epoch m" using q(2) by (rule inner_session_Inr)
  show "session_of cand ?p (os', k') = (Inr s, os', k')"
    using q current_sessionI [of k' ?p q s os'] by (cases cand) auto
qed

section \<open>Returned sessions\<close>

text \<open>Calls that only read the keystore.\<close>

lemma h_query:
  "h_key (k_bind store_lock (\<lambda>i. k_ret (g i))) (l, w) = (Ret (Inr x), s') \<longleftrightarrow>
    \<not> si_failed (ks_inner (wd_keys w)) \<and> g (ks_inner (wd_keys w)) = Inr x \<and> s' = (l, w)"
  by (auto simp: h_key_def k_bind_def store_lock_def k_inner_def k_ret_def split: sum.splits)

lemma ok_and_query:
  "ok_and (k_bind store_lock (\<lambda>i. k_ret (g i))) t (l, w) = (Ret (Inr b), s') \<Longrightarrow> s' = (l, w)"
  by (auto simp: ok_and_def h_bind_def h_try_def h_key_def k_bind_def store_lock_def k_inner_def k_ret_def h_ret_def split: sum.splits if_splits)

lemmas h_queries = h_query [of "\<lambda>i. and_then (ok_or (bm_get (si_pairs i) p) KeyUnavailable) (\<lambda>pair. inner_session i p (pp_epoch pair))" for p, folded current_session_def]
  h_query [of "\<lambda>i. and_then (ok_or (bm_get (si_candidates i) p) KeyUnavailable) (\<lambda>pair. inner_session i p (pp_epoch pair))" for p, folded candidate_session_def]
  h_query [of "\<lambda>i. Inr (bm_get (si_retry_epochs i) p)" for p, folded retry_epoch_def]
  h_query [of "\<lambda>i. Inr (bm_get (si_candidate_retry_epochs i) p)" for p, folded candidate_retry_epoch_def]

lemmas h_identity = h_query [of "\<lambda>i. Inr (li_document (si_local i))", folded store_identity_def]

lemmas h_preserved_queries =
  h_query [of "\<lambda>i. Inr (map_option (\<lambda>pair. (pp_initiator pair, pp_wrap pair)) (bm_get (si_pairs i) p))" for p, folded cached_pair_def]
  h_query [of "\<lambda>i. Inr (local_peer i)", folded store_peer_id_def]
  h_query [of "\<lambda>i. if list_ex (\<lambda>pair. pp_initiator pair = local_peer i \<and> pp_wrap pair = m) (bm_values (si_pairs i) @ bm_values (si_candidates i))
       then Inr m else Inl (State ''wrap is not a cached local ciphertext'')" for m, folded wrap_retry_def]

lemmas ok_and_sessions =
  ok_and_query [of "\<lambda>i. and_then (ok_or (bm_get (si_pairs i) p) KeyUnavailable) (\<lambda>pair. inner_session i p (pp_epoch pair))" for p, folded current_session_def]
  ok_and_query [of "\<lambda>i. and_then (ok_or (bm_get (si_candidates i) p) KeyUnavailable) (\<lambda>pair. inner_session i p (pp_epoch pair))" for p, folded candidate_session_def]

lemma h_session:
  "h_key (session_of cand p) (l, w) = (Ret (Inr x), l', w') \<Longrightarrow> l' = l \<and> w' = w \<and>
    session_of cand p (wd_key_outcomes w, wd_keys w) = (Inr x, wd_key_outcomes w, wd_keys w) \<and> ses_peer_id x = p"
  by (cases cand) (auto simp: h_key_def current_session_def candidate_session_def k_bind_def store_lock_def k_inner_def k_ret_def
      elim: inner_session_Inr split: sum.splits if_splits)

definition confirmed :: "crypto \<Rightarrow> IdentityDocument \<Rightarrow> Epoch \<Rightarrow> Frame \<Rightarrow> Frame list \<Rightarrow> bool" where
  "confirmed c peer e frame sent \<longleftrightarrow>
     fr_kind frame = WRAP_ACK_KIND \<and> decode_wrap_ack (fr_payload frame) = Inr (e, False) \<or>
     fr_kind frame = WRAP_KIND \<and> (\<exists>m. decode_wrap (fr_payload frame) = Inr m \<and> wm_epoch m = e \<and> verify_wrap c peer m = Inr ()) \<and>
       sent \<noteq> [] \<and> List.last sent = \<lparr>fr_kind = WRAP_ACK_KIND, fr_payload = encode_wrap_ack e False\<rparr>"

text \<open>A session the keystore holds for the peer, acknowledged by the frame.\<close>

definition session_settled :: "crypto \<Rightarrow> bool \<Rightarrow> IdentityDocument \<Rightarrow> EstablishedSession \<Rightarrow> Frame \<Rightarrow> link \<Rightarrow> world \<Rightarrow> bool" where
  "session_settled c cand d e frame l w \<longleftrightarrow> es_peer e = d \<and> ses_peer_id (es_session e) = id_peer_id d \<and> hp_wrap_acknowledged (ln_progress l) \<and>
     confirmed c d (ses_epoch (es_session e)) frame (ln_out l) \<and>
     session_of cand (id_peer_id d) (wd_key_outcomes w, wd_keys w) = (Inr (es_session e), wd_key_outcomes w, wd_keys w)"

lemma some_established_Inr:
  "some_established d s (l, w) = (Ret (Inr r), l', w') \<longleftrightarrow> r = Some \<lparr>es_peer = d, es_session = s\<rparr> \<and>
    l' = l\<lparr>ln_progress := (ln_progress l)\<lparr>hp_wrap_acknowledged := True\<rparr>\<rparr> \<and> w' = w"
  by (auto simp: some_established_def established_def h_bind_Inr h_simps note_progress_Inr)

lemma settled_by_ack:
  assumes "decode_wrap_ack (fr_payload frame) = Inr (epoch, False)" and "fr_kind frame = WRAP_ACK_KIND"
    and "h_key (session_of cand (id_peer_id d)) (l, w) = (Ret (Inr s), l1, w1)" and "ses_epoch s = epoch"
    and "some_established d s (l1, w1) = (Ret (Inr (Some e)), l', w')"
  shows "session_settled c cand d e frame l' w' \<and> ln_in l' = ln_in l"
  using assms h_session [OF assms(3)] by (auto simp: some_established_Inr session_settled_def confirmed_def)

lemma settled_by_wrap:
  assumes "decode_wrap (fr_payload frame) = Inr m" and "fr_kind frame = WRAP_KIND" and "knows_peer d (wd_keys w)"
    and "h_try (h_key (unwrap_inner c (id_peer_id d) m cand)) (l, w) = (Ret (Inr (Inr s)), l1, w1)"
    and "send_ack (ses_epoch s) False (l1, w1) = (Ret (Inr ()), l2, w2)"
    and "some_established d s (l2, w2) = (Ret (Inr (Some e)), l', w')"
  shows "session_settled c cand d e frame l' w' \<and> ln_in l' = ln_in l"
proof -
  obtain os k where u: "unwrap_inner c (id_peer_id d) m cand (wd_key_outcomes w, wd_keys w) = (Inr s, os, k)"
      and w1: "l1 = l" "w1 = w\<lparr>wd_key_outcomes := os, wd_keys := k\<rparr>"
    using assms(4) by (auto simp: h_try_def h_key_def split: prod.splits)
  note us = unwrap_session [OF u assms(3)]
  have "ses_peer_id s = id_peer_id d"
    using us(3) by (cases cand) (auto simp: current_session_def candidate_session_def k_bind_Inr k_simps store_lock_Inr elim: inner_session_Inr)
  then show ?thesis
    using assms(1,2,5,6) us w1
    by (auto simp: some_established_Inr session_settled_def confirmed_def send_ack_def put_frame_Inr)
qed

lemma khold_Inr: "khold P p \<Longrightarrow> P (wd_keys w) \<Longrightarrow> p (l, w) = (r, l', w') \<Longrightarrow> P (wd_keys w')"
  unfolding khold_def by (drule spec [of _ "(l, w)"]) (auto split: run.splits)

lemma prepare_incoming_floor_link: "prepare_incoming_floor c d m (l, w) = (Ret (Inr u), l', w') \<Longrightarrow> l' = l"
  unfolding prepare_incoming_floor_def Let_def
  by (auto simp: h_bind_Inr h_simps h_key_Inr dest!: ok_and_sessions split: if_splits option.splits)

text \<open>The end of a handler that accepts a wrap, with or without a losing wrap of its own to retry.\<close>

definition wrap_accepted :: "PeerId \<Rightarrow> IdentityDocument \<Rightarrow> Epoch option kop \<Rightarrow> (entropy \<Rightarrow> (PairSession \<times> WrapMessage) kop) \<Rightarrow> Epoch \<Rightarrow>
    PairSession \<Rightarrow> (link, EstablishedSession option) hop" where
  "wrap_accepted p d pending retry_op ack session =
     h_bind (h_key pending) (\<lambda>retry.
     if retry \<noteq> None then
       h_bind (send_ack ack True) (\<lambda>_.
       h_bind draw_entropy (\<lambda>entropy.
       h_bind (h_key (retry_op entropy)) (\<lambda>(_, retry).
       h_bind (send_wrap retry) (\<lambda>_. continue_loop))))
     else
       h_bind (send_ack (ses_epoch session) False) (\<lambda>_. some_established d session))"

lemma accepted_Inr:
  assumes "wrap_accepted p d pending retry_op ack session (l, w) = (Ret (Inr (Some e)), l', w')"
  shows "\<exists>w1 l2 w2. h_key pending (l, w) = (Ret (Inr None), l, w1) \<and>
    send_ack (ses_epoch session) False (l, w1) = (Ret (Inr ()), l2, w2) \<and> some_established d session (l2, w2) = (Ret (Inr (Some e)), l', w')"
proof -
  obtain retry w1 where q: "h_key pending (l, w) = (Ret (Inr retry), l, w1)" and r: "(if retry \<noteq> None then
       h_bind (send_ack ack True) (\<lambda>_.
       h_bind draw_entropy (\<lambda>entropy.
       h_bind (h_key (retry_op entropy)) (\<lambda>(_, retry).
       h_bind (send_wrap retry) (\<lambda>_. continue_loop))))
     else
       h_bind (send_ack (ses_epoch session) False) (\<lambda>_. some_established d session)) (l, w1) = (Ret (Inr (Some e)), l', w')"
    using assms unfolding wrap_accepted_def h_bind_Inr [of "h_key pending"] by (auto simp: h_key_Inr)
  show ?thesis
  proof (cases retry)
    case None
    with q r show ?thesis by (auto simp: h_bind_Inr)
  next
    case (Some x)
    then show ?thesis using r by (auto simp: h_bind_Inr h_simps case_prod_unfold)
  qed
qed

lemma accepted_done:
  assumes run: "h_bind (h_try (h_key (unwrap_inner c (id_peer_id d) m cand))) (\<lambda>r. case r of
       Inr s \<Rightarrow> wrap_accepted (id_peer_id d) d (k_bind store_lock (\<lambda>i. k_ret (g i))) retry_op (ack s) s
     | Inl (EpochConflict _) \<Rightarrow> continue_loop
     | Inl e \<Rightarrow> h_ret (Inl e)) (l, w) = (Ret (Inr (Some e)), l', w')"
    and m: "decode_wrap (fr_payload frame) = Inr m" and f: "fr_kind frame = WRAP_KIND" and k: "knows_peer d (wd_keys w)"
  shows "session_settled c cand d e frame l' w' \<and> ln_in l' = ln_in l"
proof -
  obtain r l1 w1 where r: "h_try (h_key (unwrap_inner c (id_peer_id d) m cand)) (l, w) = (Ret (Inr r), l1, w1)"
      "(case r of
         Inr s \<Rightarrow> wrap_accepted (id_peer_id d) d (k_bind store_lock (\<lambda>i. k_ret (g i))) retry_op (ack s) s
       | Inl (EpochConflict _) \<Rightarrow> continue_loop
       | Inl e \<Rightarrow> h_ret (Inl e)) (l1, w1) = (Ret (Inr (Some e)), l', w')"
    using run unfolding h_bind_Inr by auto
  then obtain s where s: "r = Inr s"
    by (cases r) (auto simp: h_simps split: error.splits)
  obtain l2 w2 where "send_ack (ses_epoch s) False (l1, w1) = (Ret (Inr ()), l2, w2)"
      "some_established d s (l2, w2) = (Ret (Inr (Some e)), l', w')"
    using accepted_Inr [OF r(2) [unfolded s sum.case]] by (auto simp: h_query)
  with r(1) s show ?thesis using settled_by_wrap [OF m f k] by blast
qed

lemma handle_wrap_done:
  assumes run: "handle_wrap c d frame (l, w) = (Ret (Inr (Some e)), l', w')" and k: "knows_peer d (wd_keys w)"
  shows "session_settled c False d e frame l' w' \<and> ln_in l' = ln_in l"
proof -
  let ?accept = "\<lambda>m. h_bind (h_try (h_key (unwrap_inner c (id_peer_id d) m False))) (\<lambda>r. case r of
       Inr s \<Rightarrow> wrap_accepted (id_peer_id d) d (retry_epoch (id_peer_id d)) (\<lambda>en. retry_collision c en (id_peer_id d)) (wm_epoch m) s
     | Inl (EpochConflict _) \<Rightarrow> continue_loop
     | Inl e \<Rightarrow> h_ret (Inl e))"
  consider (wrap) "fr_kind frame = WRAP_KIND" | (ack) "fr_kind frame \<noteq> WRAP_KIND" "fr_kind frame = WRAP_ACK_KIND"
    using run by (auto simp: handle_wrap_def Let_def h_simps split: if_splits)
  then show ?thesis
  proof cases
    case ack
    then obtain epoch s where "decode_wrap_ack (fr_payload frame) = Inr (epoch, False)"
        "h_key (current_session (id_peer_id d)) (l, w) = (Ret (Inr s), l, w)" "ses_epoch s = epoch"
        "some_established d s (l, w) = (Ret (Inr (Some e)), l', w')"
      using run by (auto simp: handle_wrap_def Let_def h_bind_Inr h_simps h_queries split: if_splits)
    with ack(2) show ?thesis
      using settled_by_ack [of frame _ False d l w s l w e l' w' c] by simp
  next
    case wrap
    then have "h_bind (h_ret (decode_wrap (fr_payload frame))) (\<lambda>message.
        h_bind (ok_and (current_session (id_peer_id d)) (\<lambda>session. wm_epoch message < ses_epoch session)) (\<lambda>stale.
        if stale then h_bind (h_ret (verify_wrap c d message)) (\<lambda>_. continue_loop)
        else h_bind (prepare_incoming_floor c d message) (\<lambda>_. ?accept message))) (l, w) = (Ret (Inr (Some e)), l', w')"
      using run unfolding handle_wrap_def Let_def wrap_accepted_def by simp
    then obtain m b where m: "decode_wrap (fr_payload frame) = Inr m"
        "ok_and (current_session (id_peer_id d)) (\<lambda>session. wm_epoch m < ses_epoch session) (l, w) = (Ret (Inr b), l, w)"
        "(if b then h_bind (h_ret (verify_wrap c d m)) (\<lambda>_. continue_loop)
          else h_bind (prepare_incoming_floor c d m) (\<lambda>_. ?accept m)) (l, w) = (Ret (Inr (Some e)), l', w')"
      by (auto simp: h_bind_Inr [of "h_ret r" for r] h_bind_Inr [of "ok_and p t" for p t] h_simps dest: ok_and_sessions)
    then obtain w1 where p: "prepare_incoming_floor c d m (l, w) = (Ret (Inr ()), l, w1)"
        "?accept m (l, w1) = (Ret (Inr (Some e)), l', w')"
      by (cases b) (auto simp: h_bind_Inr [of "h_ret r" for r] h_bind_Inr [of "prepare_incoming_floor c d m"] h_simps
          dest: prepare_incoming_floor_link)
    show ?thesis
      using accepted_done [OF p(2) [unfolded retry_epoch_def] m(1) wrap khold_Inr [OF known_handlers(2) k p(1)]] .
  qed
qed

lemma handle_candidate_done:
  assumes run: "handle_candidate c d frame (l, w) = (Ret (Inr (Some e)), l', w')" and k: "knows_peer d (wd_keys w)"
  shows "session_settled c True d e frame l' w' \<and> ln_in l' = ln_in l"
proof -
  let ?accept = "\<lambda>m. h_bind (h_try (h_key (unwrap_inner c (id_peer_id d) m True))) (\<lambda>r. case r of
       Inr s \<Rightarrow> wrap_accepted (id_peer_id d) d (candidate_retry_epoch (id_peer_id d)) (\<lambda>en. retry_candidate_collision c en (id_peer_id d)) (ses_epoch s) s
     | Inl (EpochConflict _) \<Rightarrow> continue_loop
     | Inl e \<Rightarrow> h_ret (Inl e))"
  consider (wrap) "fr_kind frame = WRAP_KIND" | (ack) "fr_kind frame \<noteq> WRAP_KIND" "fr_kind frame = WRAP_ACK_KIND"
    using run by (auto simp: handle_candidate_def Let_def h_simps split: if_splits)
  then show ?thesis
  proof cases
    case ack
    then obtain epoch s where "decode_wrap_ack (fr_payload frame) = Inr (epoch, False)"
        "h_key (candidate_session (id_peer_id d)) (l, w) = (Ret (Inr s), l, w)" "ses_epoch s = epoch"
        "some_established d s (l, w) = (Ret (Inr (Some e)), l', w')"
      using run by (auto simp: handle_candidate_def Let_def h_bind_Inr h_simps h_queries split: if_splits)
    with ack(2) show ?thesis
      using settled_by_ack [of frame _ True d l w s l w e l' w' c] by simp
  next
    case wrap
    then have "h_bind (h_ret (decode_wrap (fr_payload frame))) (\<lambda>message.
        h_bind (ok_and (candidate_session (id_peer_id d)) (\<lambda>session. wm_epoch message < ses_epoch session)) (\<lambda>stale.
        if stale then h_bind (h_ret (verify_wrap c d message)) (\<lambda>_. continue_loop)
        else ?accept message)) (l, w) = (Ret (Inr (Some e)), l', w')"
      using run unfolding handle_candidate_def Let_def wrap_accepted_def by simp
    then obtain m b where m: "decode_wrap (fr_payload frame) = Inr m"
        "(if b then h_bind (h_ret (verify_wrap c d m)) (\<lambda>_. continue_loop) else ?accept m) (l, w) = (Ret (Inr (Some e)), l', w')"
      by (auto simp: h_bind_Inr [of "h_ret r" for r] h_bind_Inr [of "ok_and p t" for p t] h_simps dest: ok_and_sessions)
    then have "?accept m (l, w) = (Ret (Inr (Some e)), l', w')"
      by (cases b) (auto simp: h_bind_Inr [of "h_ret r" for r] h_simps)
    from accepted_done [OF this [unfolded candidate_retry_epoch_def] m(1) wrap k] show ?thesis .
  qed
qed

text \<open>A loop that returned read its last frame at the front of what is left.\<close>

lemma loop_settled:
  assumes run: "frame_loop handler (l, w) = (Ret (Inr e), l', w')" and k: "knows_peer d (wd_keys w)"
    and keep: "\<And>f. khold (knows_peer d) (handler f)" and shr: "\<And>f l w l' w'. handler f (l, w) = (Ret (Inr None), l', w') \<Longrightarrow> ln_in l' = ln_in l"
    and stop: "\<And>f l w l' w'. handler f (l, w) = (Ret (Inr (Some e)), l', w') \<Longrightarrow> knows_peer d (wd_keys w) \<Longrightarrow>
      session_settled c cand d e f l' w' \<and> ln_in l' = ln_in l"
  shows "\<exists>rs f. ln_in l = rs @ Inr f # ln_in l' \<and> session_settled c cand d e f l' w'"
proof -
  define I :: "link \<times> world \<Rightarrow> bool" where "I = (\<lambda>s. (\<exists>rs. ln_in l = rs @ ln_in (fst s)) \<and> knows_peer d (wd_keys (snd s)))"
  have "\<exists>s0 f s1. I s0 \<and> next_frame s0 = (Ret (Inr f), s1) \<and> handler f s1 = (Ret (Inr (Some e)), l', w')"
  proof (rule read_loop_Inr)
    show "read_loop (length (ln_in l)) handler (l, w) = (Ret (Inr e), l', w')"
      using run by (simp add: frame_loop_def h_bind_def h_get_def)
    show "I (l, w)" using k by (simp add: I_def)
    fix s f s1 s2 assume s: "I s" "next_frame s = (Ret (Inr f), s1)" "handler f s1 = (Ret (Inr None), s2)"
    obtain l0 w0 l2 w2 where p: "s = (l0, w0)" "s2 = (l2, w2)" by (metis surj_pair)
    then obtain rs where rs: "ln_in l0 = Inr f # rs" "s1 = (l0\<lparr>ln_in := rs\<rparr>, w0)" using s(2) by (auto simp: next_frame_Inr)
    have "ln_in l2 = rs" using s(3) shr [of f "l0\<lparr>ln_in := rs\<rparr>" w0 l2 w2] rs(2) p(2) by simp
    moreover have "knows_peer d (wd_keys w2)"
      using khold_Inr [OF keep, of w0 f "l0\<lparr>ln_in := rs\<rparr>"] s(1,3) rs(2) p by (auto simp: I_def)
    ultimately show "I s2" using s(1) rs(1) p by (fastforce simp: I_def)
  qed
  then obtain l0 w0 f s1 where s: "I (l0, w0)" "next_frame (l0, w0) = (Ret (Inr f), s1)" "handler f s1 = (Ret (Inr (Some e)), l', w')"
    by (metis surj_pair)
  then obtain rs where rs: "ln_in l0 = Inr f # rs" "s1 = (l0\<lparr>ln_in := rs\<rparr>, w0)" by (auto simp: next_frame_Inr)
  have "session_settled c cand d e f l' w' \<and> ln_in l' = rs"
    using stop [of f "l0\<lparr>ln_in := rs\<rparr>" w0 l' w'] s(1,3) rs(2) by (auto simp: I_def)
  with s(1) rs(1) show ?thesis by (auto simp: I_def)
qed

text \<open>The handlers read nothing themselves.\<close>

definition reads_nothing :: "(link, 'a) hop \<Rightarrow> bool" where
  "reads_nothing p \<longleftrightarrow> (\<forall>s. ln_in (fst (snd (p s))) = ln_in (fst s))"

lemma reads_nothingD: "reads_nothing p \<Longrightarrow> p (l, w) = (r, l', w') \<Longrightarrow> ln_in l' = ln_in l"
  unfolding reads_nothing_def by (drule spec [of _ "(l, w)"]) simp

lemma reads_nothingI: "(\<And>l w r l' w'. p (l, w) = (r, l', w') \<Longrightarrow> ln_in l' = ln_in l) \<Longrightarrow> reads_nothing p"
  unfolding reads_nothing_def by (metis prod.collapse)

lemma reads_nothing_bind: "reads_nothing p \<Longrightarrow> (\<And>x. reads_nothing (f x)) \<Longrightarrow> reads_nothing (h_bind p f)"
  by (rule reads_nothingI) (auto simp: h_bind_def dest!: reads_nothingD split: run.splits sum.splits prod.splits, metis reads_nothingD)

lemma reads_nothing_basic: "reads_nothing (h_ret r)" "reads_nothing h_get" "reads_nothing (h_key p)" "reads_nothing draw_entropy"
    "reads_nothing (note_progress g)" "reads_nothing (put_frame k b)"
proof -
  show basic: "reads_nothing (h_ret r)" "reads_nothing h_get" "reads_nothing (h_key p)" "reads_nothing (note_progress g)"
    for r :: "'x result" and p :: "'y kop" and g
    by (auto simp: reads_nothing_def h_ret_def h_get_def h_key_def note_progress_def h_modify_def split: prod.splits)
  have m: "reads_nothing (h_modify g)" if "\<And>l. ln_in (g l) = ln_in l" for g
    using that by (auto simp: reads_nothing_def h_modify_def)
  show "reads_nothing draw_entropy"
    unfolding draw_entropy_def by (auto intro!: reads_nothing_bind basic m split: list.splits)
  show "reads_nothing (put_frame k b)"
    unfolding put_frame_def by (auto intro!: reads_nothing_bind basic m)
qed

lemma reads_nothing_try: "reads_nothing p \<Longrightarrow> reads_nothing (h_try p)"
  by (rule reads_nothingI) (auto simp: h_try_def dest!: reads_nothingD split: run.splits prod.splits)

lemma reads_nothing_send: "reads_nothing (send_wrap m)" "reads_nothing (send_ack e r)" "reads_nothing (established d s)"
    "reads_nothing (some_established d s)" "reads_nothing (ok_and p t)"
  unfolding send_wrap_def send_ack_def some_established_def established_def ok_and_def
  by (auto intro!: reads_nothing_bind reads_nothing_basic reads_nothing_try)

lemma reads_nothing_if: "(b \<Longrightarrow> reads_nothing p) \<Longrightarrow> (\<not> b \<Longrightarrow> reads_nothing q) \<Longrightarrow> reads_nothing (if b then p else q)"
  by simp

lemmas reads_nothing_intros = reads_nothing_bind reads_nothing_basic reads_nothing_try reads_nothing_send

lemma reads_nothing_handlers: "reads_nothing (handle_wrap c d frame)" "reads_nothing (handle_candidate c d frame)"
    "reads_nothing (initial_wrap c d0 d e e')" "reads_nothing (offer_candidate c d e0 e e')" "reads_nothing (confirm_preserved c d s b m frame)"
proof -
  have p: "reads_nothing (prepare_incoming_floor c d m)" for m
    unfolding prepare_incoming_floor_def Let_def
    by (intro reads_nothing_intros reads_nothing_if) (auto intro!: reads_nothing_intros reads_nothing_if split: option.splits)
  show "reads_nothing (handle_wrap c d frame)"
    unfolding handle_wrap_def Let_def
    by (intro reads_nothing_if reads_nothing_intros p) (auto intro!: reads_nothing_intros reads_nothing_if split: sum.splits error.splits)
  show "reads_nothing (handle_candidate c d frame)"
    unfolding handle_candidate_def Let_def
    by (intro reads_nothing_if reads_nothing_intros) (auto intro!: reads_nothing_intros reads_nothing_if split: sum.splits error.splits)
  show "reads_nothing (initial_wrap c d0 d e e')"
    unfolding initial_wrap_def Let_def by (intro reads_nothing_intros reads_nothing_if) (auto intro!: reads_nothing_intros)
  show "reads_nothing (offer_candidate c d e0 e e')"
    unfolding offer_candidate_def Let_def
    by (intro reads_nothing_intros) (auto intro!: reads_nothing_intros reads_nothing_if split: option.splits)
  show "reads_nothing (confirm_preserved c d s b m frame)"
    unfolding confirm_preserved_def by (intro reads_nothing_if reads_nothing_intros) (auto intro!: reads_nothing_intros)
qed

lemma finish_wrap_settled:
  assumes "finish_wrap c d (l, w) = (Ret (Inr e), l', w')" and "knows_peer d (wd_keys w)"
  shows "\<exists>rs f. ln_in l = rs @ Inr f # ln_in l' \<and> session_settled c False d e f l' w'"
  using assms unfolding finish_wrap_def
  by (rule loop_settled [OF _ _ known_handlers(3) reads_nothingD [OF reads_nothing_handlers(1)] handle_wrap_done])

lemma finish_candidate_settled:
  assumes "finish_candidate c d e0 e1 (l, w) = (Ret (Inr e), l', w')" and k: "knows_peer d (wd_keys w)"
  shows "\<exists>rs f. ln_in l = rs @ Inr f # ln_in l' \<and> session_settled c True d e f l' w'"
proof -
  obtain ep l1 w1 where o: "offer_candidate c d ep e0 e1 (l, w) = (Ret (Inr ()), l1, w1)"
      and lp: "frame_loop (handle_candidate c d) (l1, w1) = (Ret (Inr e), l', w')"
    using assms(1) unfolding finish_candidate_def
    by (auto simp: h_bind_Inr [of "h_key p" for p] h_bind_Inr [of "offer_candidate c d e0 e1 e2" for e0 e1 e2] h_queries)
  have "\<exists>rs f. ln_in l1 = rs @ Inr f # ln_in l' \<and> session_settled c True d e f l' w'"
    using lp khold_Inr [OF known_handlers(4) k o]
    by (rule loop_settled [OF _ _ known_handlers(5) reads_nothingD [OF reads_nothing_handlers(2)] handle_candidate_done])
  then show ?thesis using reads_nothingD [OF reads_nothing_handlers(4) o] by simp
qed

lemma established_Inr:
  "established d s (l, w) = (Ret (Inr e), l', w') \<longleftrightarrow> e = \<lparr>es_peer = d, es_session = s\<rparr> \<and>
    l' = l\<lparr>ln_progress := (ln_progress l)\<lparr>hp_wrap_acknowledged := True\<rparr>\<rparr> \<and> w' = w"
  by (auto simp: established_def h_bind_Inr h_simps note_progress_Inr)

text \<open>A pair in use is confirmed as it is: by the peer's acknowledgement or by the wrap already held.\<close>

lemma confirm_preserved_Inr:
  assumes "confirm_preserved c d s mine m frame (l, w) = (Ret (Inr u), l', w')" and "knows_peer d (wd_keys w)"
    and "current_session (id_peer_id d) (wd_key_outcomes w, wd_keys w) = (Inr s, wd_key_outcomes w, wd_keys w)"
  shows "confirmed c d (ses_epoch s) frame (ln_out l') \<and> ln_in l' = ln_in l \<and>
    (\<exists>s'. current_session (id_peer_id d) (wd_key_outcomes w', wd_keys w') = (Inr s', wd_key_outcomes w', wd_keys w') \<and> ses_epoch s' = ses_epoch s)"
proof (cases "fr_kind frame = WRAP_KIND \<and> \<not> mine")
  case True
  then obtain s' os k where m: "decode_wrap (fr_payload frame) = Inr m" "ses_epoch s' = ses_epoch s"
      and u: "unwrap_inner c (id_peer_id d) m False (wd_key_outcomes w, wd_keys w) = (Inr s', os, k)"
      and a: "send_ack (ses_epoch s) False (l, w\<lparr>wd_key_outcomes := os, wd_keys := k\<rparr>) = (Ret (Inr u), l', w')"
    using assms(1) by (auto simp: confirm_preserved_def h_bind_Inr h_simps h_key_Inr)
  with True unwrap_session [OF u assms(2)] show ?thesis
    by (auto simp: send_ack_def put_frame_Inr confirmed_def)
next
  case False
  then show ?thesis
    using assms(1,3) by (auto simp: confirm_preserved_def h_bind_Inr h_simps confirmed_def split: if_splits)
qed

text \<open>
  \<open>authenticated\<close>: the peer and its session as the keystore has them. A new or resumed pair is the one
  returned; in the admission of a known peer it is the candidate, or the pair in use at the same epoch.
\<close>

definition authenticated :: "crypto \<Rightarrow> bool \<Rightarrow> IdentityDocument \<Rightarrow> EstablishedSession \<Rightarrow> Frame \<Rightarrow> link \<Rightarrow> world \<Rightarrow> bool" where
  "authenticated c preserve d e frame l w \<longleftrightarrow>
     es_peer e = d \<and> ses_peer_id (es_session e) = id_peer_id d \<and> hp_wrap_acknowledged (ln_progress l) \<and>
     confirmed c d (ses_epoch (es_session e)) frame (ln_out l) \<and>
     (\<exists>cand s. session_of cand (id_peer_id d) (wd_key_outcomes w, wd_keys w) = (Inr s, wd_key_outcomes w, wd_keys w) \<and>
       ses_epoch s = ses_epoch (es_session e) \<and> (preserve \<or> \<not> cand \<and> s = es_session e))"

lemma settled_authenticated: "session_settled c cand d e f l w \<Longrightarrow> preserve \<or> \<not> cand \<Longrightarrow> authenticated c preserve d e f l w"
  unfolding session_settled_def authenticated_def by (cases cand) (auto intro: exI [of _ True] exI [of _ False])

lemma finish_preserved_settled:
  assumes run: "finish_preserved c d e0 e1 (l, w) = (Ret (Inr e), l', w')" and k: "knows_peer d (wd_keys w)"
  shows "\<exists>rs f. ln_in l = rs @ Inr f # ln_in l' \<and> authenticated c True d e f l' w'"
proof -
  let ?p = "id_peer_id d"
  obtain s where s: "h_key (current_session ?p) (l, w) = (Ret (Inr s), l, w)" and r: "(if e0 \<noteq> ses_epoch s \<or> e1 \<noteq> ses_epoch s then
        finish_candidate c d e0 e1
      else
        h_bind (h_key (cached_pair ?p)) (\<lambda>cached.
        h_bind (h_ret (ok_or cached (State ''active pair has no cached wrap''))) (\<lambda>(initiator, cached).
        h_bind (h_key store_peer_id) (\<lambda>me.
        let local_initiated = (initiator = me) in
        h_bind (if local_initiated then h_bind (h_key (wrap_retry cached)) (\<lambda>m. send_wrap m) else h_ret (Inr ())) (\<lambda>_.
        h_bind next_frame (\<lambda>frame.
        h_bind (confirm_preserved c d s local_initiated cached frame) (\<lambda>_.
        established d s))))))) (l, w) = (Ret (Inr e), l', w')"
    using run unfolding finish_preserved_def Let_def h_bind_Inr [of "h_key (current_session p)" for p] by (auto simp: h_queries)
  have cs: "current_session ?p (wd_key_outcomes w, wd_keys w) = (Inr s, wd_key_outcomes w, wd_keys w)" "ses_peer_id s = ?p"
    using h_session [of False ?p l w s l w] s by simp_all
  show ?thesis
  proof (cases "e0 \<noteq> ses_epoch s \<or> e1 \<noteq> ses_epoch s")
    case True
    then have "finish_candidate c d e0 e1 (l, w) = (Ret (Inr e), l', w')" using r by simp
    from finish_candidate_settled [OF this k] settled_authenticated show ?thesis by blast
  next
    case False
    let ?send = "\<lambda>mine m. if mine then h_bind (h_key (wrap_retry m)) (\<lambda>m. send_wrap m) else h_ret (Inr ())"
    let ?rest = "\<lambda>mine m. h_bind next_frame (\<lambda>frame. h_bind (confirm_preserved c d s mine m frame) (\<lambda>_. established d s))"
    from False obtain m mine where sr: "h_bind (?send mine m) (\<lambda>_. ?rest mine m) (l, w) = (Ret (Inr e), l', w')"
      using r by (auto simp: Let_def h_bind_Inr [of "h_key (cached_pair p)" for p] h_bind_Inr [of "h_ret (ok_or p q)" for p q]
        h_bind_Inr [of "h_key store_peer_id"] h_preserved_queries(1,2) h_simps)
    then obtain l1 w1 where send: "?send mine m (l, w) = (Ret (Inr ()), l1, w1)" and fin: "?rest mine m (l1, w1) = (Ret (Inr e), l', w')"
      unfolding h_bind_Inr [of "?send mine m"] by auto
    have [simp]: "w1 = w"
      using send by (auto simp: h_bind_Inr h_preserved_queries h_simps send_wrap_def put_frame_Inr split: if_splits)
    have l1: "ln_in l1 = ln_in l"
      by (rule reads_nothingD [where p = "?send mine m", OF _ send]) (intro reads_nothing_if reads_nothing_intros)
    obtain f rs l2 w2 where f: "ln_in l1 = Inr f # rs"
        and cp: "confirm_preserved c d s mine m f (l1\<lparr>ln_in := rs\<rparr>, w) = (Ret (Inr ()), l2, w2)"
        and es: "established d s (l2, w2) = (Ret (Inr e), l', w')"
      using fin by (auto simp: h_bind_Inr next_frame_Inr)
    have "authenticated c True d e f l' w' \<and> ln_in l' = rs"
      using confirm_preserved_Inr [OF cp k cs(1)] cs(2) es
      by (auto simp: authenticated_def established_Inr intro!: exI [of _ False])
    then show ?thesis using f l1 by auto
  qed
qed

section \<open>The handshake\<close>

lemma read_identity_Inr:
  "read_identity c expected (l, w) = (Ret (Inr d), l', w') \<longleftrightarrow> w' = w \<and> (\<exists>f rs. ln_in l = Inr f # rs \<and> l' = l\<lparr>ln_in := rs\<rparr> \<and>
    fr_kind f = IDENTITY_KIND \<and> decode_identity (fr_payload f) = Inr d) \<and> identity_verify c d = Inr () \<and>
    (case expected of None \<Rightarrow> True | Some ad \<Rightarrow> da_peer_id ad = id_peer_id d \<and> da_ek ad = id_ek d \<and> da_vk ad = id_vk d)"
  by (auto simp: read_identity_def h_bind_Inr h_simps next_frame_Inr require_kind_def split: option.splits)

lemma note_peer_Inr: "note_peer p (l, w) = (Ret (Inr b), l', w') \<Longrightarrow> w' = w \<and> ln_in l' = ln_in l \<and> ln_out l' = ln_out l"
  by (auto simp: note_peer_def h_bind_Inr h_simps note_progress_Inr h_preserved_queries dest!: ok_and_sessions split: if_splits)

lemma store_persist_peers: "store_persist (os, k) = (Inr u, os', k') \<Longrightarrow> si_peers (ks_inner k') = si_peers (ks_inner k)"
  by (auto dest: store_persist_Inr)

lemma next_epoch_Inr: "next_epoch p (os, k) = (Inr e, os', k') \<Longrightarrow> os' = os \<and> k' = k"
  by (auto simp: next_epoch_def k_bind_Inr store_lock_Inr k_simps)

lemma import_peer_known:
  assumes "import_peer c en d (os, k) = (Inr u, os', k')"
  shows "knows_peer d k'"
proof -
  let ?i = "(ks_inner k)\<lparr>si_peers := bm_insert (id_peer_id d) d (si_peers (ks_inner k))\<rparr>"
  let ?rewrap = "case bm_get (si_peers (ks_inner k)) (id_peer_id d) of None \<Rightarrow> False
    | Some previous \<Rightarrow> id_ek previous \<noteq> id_ek d \<and> bm_contains (si_pairs (ks_inner k)) (id_peer_id d)"
  let ?fin = "if ?rewrap then k_bind (next_epoch (id_peer_id d)) (\<lambda>epoch.
       k_catch (create_inner c en (id_peer_id d) (id_ek d) epoch False) (\<lambda>error.
         k_bind store_lock (\<lambda>inner. k_bind (k_set (inner\<lparr>si_failed := True\<rparr>)) (\<lambda>_. k_ret (Inl error)))))
     else k_ret (Inr ())"
  obtain os1 k1 where p: "store_persist (os, k\<lparr>ks_inner := ?i\<rparr>) = (Inr (), os1, k1)" and f: "?fin (os1, k1) = (Inr (), os', k')"
    using assms unfolding import_peer_def
    by (auto simp: k_bind_Inr [of "k_ret r" for r] k_bind_Inr [of store_lock] k_bind_Inr [of "k_set r" for r] k_bind_Inr [of store_persist]
        k_simps store_lock_Inr Let_def)
  have k1: "knows_peer d k1" using store_persist_peers [OF p] by (simp add: knows_peer_def)
  show ?thesis
  proof (cases ?rewrap)
    case True
    then obtain e where "k_catch (create_inner c en (id_peer_id d) (id_ek d) e False) (\<lambda>error.
         k_bind store_lock (\<lambda>inner. k_bind (k_set (inner\<lparr>si_failed := True\<rparr>)) (\<lambda>_. k_ret (Inl error)))) (os1, k1) = (Inr (), os', k')"
      using f by (auto simp: k_bind_Inr [of "next_epoch p" for p] dest!: next_epoch_Inr)
    then obtain x where "create_inner c en (id_peer_id d) (id_ek d) e False (os1, k1) = (Inr x, os', k')"
      by (auto simp: k_catch_def k_bind_Inr k_simps split: prod.splits sum.splits)
    then show ?thesis
      using keep_known [OF peers_calls(1), of d c en "id_peer_id d" "id_ek d" e False, unfolded kt_def, rule_format, OF k1, of os1] by simp
  next
    case False
    then show ?thesis using f k1 by (simp add: k_simps)
  qed
qed

lemma settle_identity_known:
  assumes "settle_identity c d preserve had (l, w) = (Ret (Inr u), l', w')"
  shows "knows_peer d (wd_keys w') \<and> ln_in l' = ln_in l"
proof (cases preserve)
  case True
  then show ?thesis
    using assms by (auto simp: settle_identity_def h_bind_Inr h_simps load_verified_peer_def h_query knows_peer_def)
next
  case False
  then show ?thesis
    using assms by (auto simp: settle_identity_def h_bind_Inr h_key_Inr dest!: draw_entropy_Inr import_peer_known)
qed

lemma exchange_hints_Inr:
  assumes "exchange_hints me p (l, w) = (Ret (Inr es), l', w')"
  shows "w' = w \<and> (\<exists>r. ln_in l = r # ln_in l')"
  using assms by (auto simp: exchange_hints_def h_bind_Inr h_simps peer_epoch_def h_query put_frame_Inr next_frame_Inr)

lemma establish_authenticated:
  assumes "establish_guarded c expected preserve (l, w) = (Ret (Inr e), l', w')"
  shows "identity_verify c (es_peer e) = Inr () \<and>
    (case expected of None \<Rightarrow> True | Some ad \<Rightarrow> da_peer_id ad = id_peer_id (es_peer e) \<and> da_ek ad = id_ek (es_peer e) \<and> da_vk ad = id_vk (es_peer e)) \<and>
    (\<exists>rs f b. ln_in l = rs @ Inr f # ln_in l' \<and> preserve (id_peer_id (es_peer e)) = Inr b \<and> authenticated c b (es_peer e) e f l' w')"
proof -
  obtain local bs l1 where a: "put_frame IDENTITY_KIND bs (l, w) = (Ret (Inr ()), l1, w)"
    and "h_bind (read_identity c expected) (\<lambda>peer.
     h_bind (note_peer (id_peer_id peer)) (\<lambda>had_pair.
     h_bind (h_ret (preserve (id_peer_id peer))) (\<lambda>preserve.
     h_bind (settle_identity c peer preserve had_pair) (\<lambda>_.
     h_bind (exchange_hints (id_peer_id local) (id_peer_id peer)) (\<lambda>(local_epoch, remote_epoch).
     if preserve then finish_preserved c peer local_epoch remote_epoch
     else
       h_bind (initial_wrap c local peer local_epoch remote_epoch) (\<lambda>message.
       h_bind (case message of None \<Rightarrow> h_ret (Inr ()) | Some m \<Rightarrow> send_wrap m) (\<lambda>_.
       finish_wrap c peer))))))) (l1, w) = (Ret (Inr e), l', w')"
    using assms unfolding establish_guarded_def
    by (auto simp: h_bind_Inr [of "h_key store_identity"] h_bind_Inr [of "h_ret (encode_identity d)" for d]
        h_bind_Inr [of "put_frame IDENTITY_KIND b" for b] h_identity h_simps put_frame_Inr)
  then obtain d l2 where i: "read_identity c expected (l1, w) = (Ret (Inr d), l2, w)"
    and "h_bind (note_peer (id_peer_id d)) (\<lambda>had_pair.
     h_bind (h_ret (preserve (id_peer_id d))) (\<lambda>preserve.
     h_bind (settle_identity c d preserve had_pair) (\<lambda>_.
     h_bind (exchange_hints (id_peer_id local) (id_peer_id d)) (\<lambda>(local_epoch, remote_epoch).
     if preserve then finish_preserved c d local_epoch remote_epoch
     else
       h_bind (initial_wrap c local d local_epoch remote_epoch) (\<lambda>message.
       h_bind (case message of None \<Rightarrow> h_ret (Inr ()) | Some m \<Rightarrow> send_wrap m) (\<lambda>_.
       finish_wrap c d)))))) (l2, w) = (Ret (Inr e), l', w')"
    by (auto simp: h_bind_Inr [of "read_identity c expected"] read_identity_Inr)
  then obtain had l3 b where n: "note_peer (id_peer_id d) (l2, w) = (Ret (Inr had), l3, w)" and b: "preserve (id_peer_id d) = Inr b"
    and "h_bind (settle_identity c d b had) (\<lambda>_.
     h_bind (exchange_hints (id_peer_id local) (id_peer_id d)) (\<lambda>(local_epoch, remote_epoch).
     if b then finish_preserved c d local_epoch remote_epoch
     else
       h_bind (initial_wrap c local d local_epoch remote_epoch) (\<lambda>message.
       h_bind (case message of None \<Rightarrow> h_ret (Inr ()) | Some m \<Rightarrow> send_wrap m) (\<lambda>_.
       finish_wrap c d)))) (l3, w) = (Ret (Inr e), l', w')"
    by (auto simp: h_bind_Inr [of "note_peer p" for p] h_bind_Inr [of "h_ret (preserve p)" for p] h_simps dest: note_peer_Inr)
  then obtain l4 w4 e0 e1 l5 w5 where s: "settle_identity c d b had (l3, w) = (Ret (Inr ()), l4, w4)"
    and x: "exchange_hints (id_peer_id local) (id_peer_id d) (l4, w4) = (Ret (Inr (e0, e1)), l5, w5)"
    and r': "(if b then finish_preserved c d e0 e1
     else
       h_bind (initial_wrap c local d e0 e1) (\<lambda>message.
       h_bind (case message of None \<Rightarrow> h_ret (Inr ()) | Some m \<Rightarrow> send_wrap m) (\<lambda>_.
       finish_wrap c d))) (l5, w5) = (Ret (Inr e), l', w')"
    by (auto simp: h_bind_Inr [of "settle_identity c d b had"] h_bind_Inr [of "exchange_hints p q" for p q])
  note r = r' [unfolded exchange_hints_Inr [OF x, THEN conjunct1]]
  obtain r0 r1 where ins: "ln_in l = r0 # r1 # ln_in l5"
    using a i note_peer_Inr [OF n] settle_identity_known [OF s] exchange_hints_Inr [OF x] by (auto simp: put_frame_Inr read_identity_Inr)
  have k: "knows_peer d (wd_keys w4)" using settle_identity_known [OF s] by simp
  have "\<exists>rs f. ln_in l5 = rs @ Inr f # ln_in l' \<and> authenticated c b d e f l' w'"
  proof (cases b)
    case True
    then show ?thesis using r finish_preserved_settled [OF _ k] by simp
  next
    case False
    then obtain msg l6 w6 l7 w7 where iw: "initial_wrap c local d e0 e1 (l5, w4) = (Ret (Inr msg), l6, w6)"
        and sw: "(case msg of None \<Rightarrow> h_ret (Inr ()) | Some m \<Rightarrow> send_wrap m) (l6, w6) = (Ret (Inr ()), l7, w7)"
        and fw: "finish_wrap c d (l7, w7) = (Ret (Inr e), l', w')"
      using r by (auto simp: h_bind_Inr)
    have w7: "w7 = w6" "ln_in l7 = ln_in l6"
      using sw by (auto simp: h_simps send_wrap_def h_bind_Inr put_frame_Inr split: option.splits)
    then have "knows_peer d (wd_keys w7)"
      using khold_Inr [OF known_handlers(1) k iw] by simp
    moreover have "ln_in l7 = ln_in l5"
      using reads_nothingD [OF reads_nothing_handlers(3) iw] w7 by simp
    ultimately show ?thesis
      using finish_wrap_settled [OF fw] settled_authenticated False by metis
  qed
  then obtain rs f where "ln_in l5 = rs @ Inr f # ln_in l'" and f: "authenticated c b d e f l' w'" by blast
  then have "ln_in l = (r0 # r1 # rs) @ Inr f # ln_in l'" using ins by simp
  moreover have "es_peer e = d" using f by (simp add: authenticated_def)
  moreover have "identity_verify c d = Inr ()" "case expected of None \<Rightarrow> True
      | Some ad \<Rightarrow> da_peer_id ad = id_peer_id d \<and> da_ek ad = id_ek d \<and> da_vk ad = id_vk d"
    using i by (simp_all add: read_identity_Inr)
  ultimately show ?thesis using f b by blast
qed

end
