(* ===== verification/Session_Fresh.thy ===== *)
theory Session_Fresh
  imports Session_Auth
begin

text \<open>
  The handshake of two nodes that have never met: each end's input is what the other end wrote, both
  return, and they hold the same key at the same epoch, one above every epoch either has used for the
  other.
\<close>

section \<open>Running an operation\<close>

lemma h_bind_go: "p s = (Ret (Inr x), s1) \<Longrightarrow> h_bind p f s = f x s1"
  by (simp add: h_bind_def)

lemma h_key_go:
  "wd_key_outcomes w = [] \<Longrightarrow> p ([], wd_keys w) = (Inr x, [], k) \<Longrightarrow> h_key p (l, w) = (Ret (Inr x), l, w\<lparr>wd_keys := k\<rparr>)"
  by (simp add: h_key_def)

lemma h_query_go:
  "\<not> si_failed (ks_inner (wd_keys w)) \<Longrightarrow> g (ks_inner (wd_keys w)) = Inr x \<Longrightarrow>
    h_key (k_bind store_lock (\<lambda>i. k_ret (g i))) (l, w) = (Ret (Inr x), l, w)"
  by (simp add: h_query)

lemma ok_and_go:
  "\<not> si_failed (ks_inner (wd_keys w)) \<Longrightarrow> g (ks_inner (wd_keys w)) = Inl e \<Longrightarrow>
    ok_and (k_bind store_lock (\<lambda>i. k_ret (g i))) t (l, w) = (Ret (Inr False), l, w)"
  by (simp add: ok_and_def h_bind_def h_try_def h_key_def k_bind_def store_lock_def k_inner_def k_ret_def h_ret_def)

lemma put_frame_go:
  "frame_ok \<lparr>fr_kind = kind, fr_payload = p\<rparr> \<Longrightarrow> ln_room l \<noteq> 0 \<Longrightarrow> put_frame kind p (l, w) =
    (Ret (Inr ()), l\<lparr>ln_out := ln_out l @ [\<lparr>fr_kind = kind, fr_payload = p\<rparr>], ln_room := ln_room l - 1\<rparr>, w)"
  by (simp add: put_frame_Inr)

lemma next_frame_go: "ln_in l = Inr f # rs \<Longrightarrow> next_frame (l, w) = (Ret (Inr f), l\<lparr>ln_in := rs\<rparr>, w)"
  by (simp add: next_frame_Inr)

lemma draw_entropy_go: "ln_entropy l = e # es \<Longrightarrow> draw_entropy (l, w) = (Ret (Inr e), l\<lparr>ln_entropy := es\<rparr>, w)"
  by (simp add: draw_entropy_def h_bind_def h_get_def h_modify_def h_ret_def)

lemma h_ret_go: "h_ret (Inr x) s = (Ret (Inr x), s)"
  by (simp add: h_ret_def)

section \<open>Two strangers\<close>

abbreviation inner_of :: "world \<Rightarrow> StoreInner" where
  "inner_of w \<equiv> ks_inner (wd_keys w)"

definition imported :: "IdentityDocument \<Rightarrow> StoreInner \<Rightarrow> StoreInner" where
  "imported d i = i\<lparr>si_peers := bm_insert (id_peer_id d) d (si_peers i)\<rparr>"

definition observed :: "PeerId \<Rightarrow> Epoch \<Rightarrow> StoreInner \<Rightarrow> StoreInner" where
  "observed p e i = (if e > watermark_of i p then i\<lparr>si_epoch_watermarks := bm_insert p e (si_epoch_watermarks i)\<rparr> else i)"

text \<open>A running store that knows nothing of the peer but, perhaps, epochs it once used, and can store it.\<close>

definition stranger :: "crypto \<Rightarrow> IdentityDocument \<Rightarrow> world \<Rightarrow> bool" where
  "stranger c d w \<longleftrightarrow> wd_key_outcomes w = [] \<and> \<not> si_failed (inner_of w) \<and> ksys_inv (wd_keys w, True) \<and>
     bm_get (si_peers (inner_of w)) (id_peer_id d) = None \<and> bm_get (si_pairs (inner_of w)) (id_peer_id d) = None \<and>
     bm_get (si_retry_epochs (inner_of w)) (id_peer_id d) = None \<and> id_peer_id d \<noteq> local_peer (inner_of w) \<and>
     identity_verify c d = Inr () \<and> fits (imported d (inner_of w)) \<and>
     checked_add (si_next_slot (inner_of w)) 1 \<noteq> None"

definition framed :: "byte \<Rightarrow> bytes result \<Rightarrow> Frame \<Rightarrow> bool" where
  "framed kind payload f \<longleftrightarrow> fr_kind f = kind \<and> payload = Inr (fr_payload f) \<and> frame_ok f"

lemma framed_usize: "framed kind p f \<Longrightarrow> length (fr_payload f) \<le> usize_max"
  by (simp add: framed_def frame_ok_def usize_max_def)

lemma framed_put:
  "framed kind (Inr p) f \<Longrightarrow> ln_room l \<noteq> 0 \<Longrightarrow> put_frame kind p (l, w) =
    (Ret (Inr ()), l\<lparr>ln_out := ln_out l @ [f], ln_room := ln_room l - 1\<rparr>, w)"
  using put_frame_go [of kind p l w] by (cases f) (simp add: framed_def)

lemma hint_frame: "\<exists>f. framed EPOCH_HINT_KIND (Inr (epoch_hint_m p e)) f"
  by (rule exI [of _ "\<lparr>fr_kind = EPOCH_HINT_KIND, fr_payload = epoch_hint_m p e\<rparr>"])
    (simp add: framed_def frame_ok_def frame_kinds validate_kind_def epoch_hint_m_def)

lemma ack_frame: "\<exists>f. framed WRAP_ACK_KIND (Inr (encode_wrap_ack e r)) f"
  by (rule exI [of _ "\<lparr>fr_kind = WRAP_ACK_KIND, fr_payload = encode_wrap_ack e r\<rparr>"])
    (simp add: framed_def frame_ok_def frame_kinds validate_kind_def encode_wrap_ack_def)

text \<open>Up to the exchange of epoch hints both ends do the same.\<close>

lemma greeting_done:
  assumes s: "stranger c d w" and l: "ln_in l = Inr fd # Inr fh # rest" "ln_room l \<ge> 2" "ln_entropy l = en # ens"
    and own: "framed IDENTITY_KIND (encode_identity (li_document (si_local (inner_of w)))) fo"
    and peer: "framed IDENTITY_KIND (encode_identity d) fd"
    and oh: "framed EPOCH_HINT_KIND (Inr (epoch_hint_m (local_peer (inner_of w)) (watermark_of (inner_of w) (id_peer_id d)))) fo'"
    and ph: "framed EPOCH_HINT_KIND (Inr (epoch_hint_m (id_peer_id d) we)) fh"
  shows "\<exists>l' w'. establish c None (l, w) =
      h_bind (initial_wrap c (li_document (si_local (inner_of w))) d (watermark_of (inner_of w) (id_peer_id d)) we) (\<lambda>message.
      h_bind (case message of None \<Rightarrow> h_ret (Inr ()) | Some m \<Rightarrow> send_wrap m) (\<lambda>_. finish_wrap c d)) (l', w') \<and>
    ln_in l' = rest \<and> ln_out l' = ln_out l @ [fo, fo'] \<and> ln_room l' = ln_room l - 2 \<and> ln_entropy l' = ens \<and>
    wd_key_outcomes w' = [] \<and> inner_of w' = imported d (inner_of w) \<and> ksys_inv (wd_keys w', True)"
proof -
  let ?a = "li_document (si_local (inner_of w))" and ?p = "id_peer_id d"
  define l1 where "l1 = l\<lparr>ln_out := ln_out l @ [fo], ln_room := ln_room l - 1\<rparr>"
  define l2 where "l2 = l1\<lparr>ln_in := Inr fh # rest\<rparr>"
  note s' = s [unfolded stranger_def]
  have 1: "h_key store_identity (l, w) = (Ret (Inr ?a), l, w)"
    using s' by (simp add: h_identity)
  have 2: "h_ret (encode_identity ?a) (l, w) = (Ret (Inr (fr_payload fo)), l, w)"
    using own by (simp add: framed_def h_ret_def)
  have 3: "put_frame IDENTITY_KIND (fr_payload fo) (l, w) = (Ret (Inr ()), l1, w)"
    using own l(2) unfolding l1_def by (intro framed_put) (auto simp: framed_def)
  have 4: "read_identity c None (l1, w) = (Ret (Inr d), l2, w)"
    using peer l(1) s' decode_identity_iff [OF framed_usize [OF peer], of d] by (simp add: read_identity_Inr framed_def l2_def l1_def)
  obtain pr where "note_peer ?p (l2, w) = (Ret (Inr False), l2\<lparr>ln_progress := pr\<rparr>, w)"
    using s' by (simp add: note_peer_def note_progress_def h_bind_def h_modify_def ok_and_def h_try_def h_key_def current_session_def
        cached_pair_def k_bind_def store_lock_def k_inner_def k_ret_def h_ret_def)
  moreover define l3 where "l3 = l2\<lparr>ln_progress := pr\<rparr>"
  ultimately have 5: "note_peer ?p (l2, w) = (Ret (Inr False), l3, w)" by simp
  obtain b where b: "import_peer c en d ([], wd_keys w) =
      (Inr (), [], (wd_keys w)\<lparr>ks_inner := imported d (inner_of w), ks_state_file := Some b\<rparr>)"
    using import_peer_done [of "wd_keys w" c d en] s' by (auto simp: imported_def)
  define w1 where "w1 = w\<lparr>wd_keys := (wd_keys w)\<lparr>ks_inner := imported d (inner_of w), ks_state_file := Some b\<rparr>\<rparr>"
  define l4 where "l4 = l3\<lparr>ln_entropy := ens\<rparr>"
  have 6: "settle_identity c d False False (l3, w) = (Ret (Inr ()), l4, w1)"
    using h_key_go [of w "import_peer c en d" "()" _ l4] b s' l(3) draw_entropy_go [of l3 en ens w]
    by (simp add: settle_identity_def h_bind_go l4_def w1_def l3_def l2_def l1_def)
  have inv: "ksys_inv (wd_keys w1, True)"
    using ktD [OF import_peer_kinv [rule_format], of "\<lambda>_. Epoch 0" "\<lambda>_. Epoch 0" "wd_keys w" c en d "[]"] b s' by (simp add: ksys_inv_def w1_def)
  define l5 where "l5 = l4\<lparr>ln_in := rest, ln_out := ln_out l @ [fo, fo'], ln_room := ln_room l - 2\<rparr>"
  have 7: "exchange_hints (id_peer_id ?a) ?p (l4, w1) = (Ret (Inr (watermark_of (inner_of w) ?p, we)), l5, w1)"
  proof -
    have "h_key (peer_epoch ?p) (l4, w1) = (Ret (Inr (watermark_of (inner_of w) ?p)), l4, w1)"
      unfolding peer_epoch_def by (rule h_query_go) (use s' in \<open>simp_all add: imported_def w1_def\<close>)
    moreover have "put_frame EPOCH_HINT_KIND (epoch_hint_m (id_peer_id ?a) (watermark_of (inner_of w) ?p)) (l4, w1) =
        (Ret (Inr ()), l4\<lparr>ln_out := ln_out l @ [fo, fo'], ln_room := ln_room l - 2\<rparr>, w1)"
      using framed_put [OF oh, of l4 w1] l(2) by (simp add: numeral_2_eq_2 l4_def l3_def l2_def l1_def)
    moreover have "decode_epoch_hint (fr_payload fh) = Inr (?p, we)" "fr_kind fh = EPOCH_HINT_KIND"
      using ph decode_epoch_hint_iff [OF framed_usize [OF ph], of ?p we] by (simp_all add: framed_def)
    moreover have "next_frame (l4\<lparr>ln_out := ln_out l @ [fo, fo'], ln_room := ln_room l - 2\<rparr>, w1) = (Ret (Inr fh), l5, w1)"
      by (simp add: next_frame_Inr l5_def) (simp add: l4_def l3_def l2_def)
    ultimately show ?thesis
      by (simp add: exchange_hints_def h_bind_go require_kind_def h_ret_go)
  qed
  have "establish c None (l, w) =
      h_bind (initial_wrap c ?a d (watermark_of (inner_of w) ?p) we) (\<lambda>message.
      h_bind (case message of None \<Rightarrow> h_ret (Inr ()) | Some m \<Rightarrow> send_wrap m) (\<lambda>_. finish_wrap c d)) (l5, w1)"
    by (simp add: establish_def establish_guarded_def h_bind_go 1 2 3 4 6 7 h_bind_ret
        h_bind_go [of "note_peer ?p" "(l2, w)" False "(l3, w)", OF 5])
  then show ?thesis
    by (rule exI [of _ l5, OF exI [of _ w1, OF conjI]]) (use inv s' in \<open>auto simp: l5_def l4_def l3_def l2_def l1_def w1_def\<close>)
qed

section \<open>The smaller peer\<close>

lemma observe_done:
  assumes "\<not> si_failed (ks_inner k)" and "bm_contains (si_peers (ks_inner k)) p" and "fits (observed p e (ks_inner k))"
  shows "\<exists>k'. observe_remote_epoch p e ([], k) = (Inr (), [], k') \<and> ks_inner k' = observed p e (ks_inner k)"
proof (cases "e > watermark_of (ks_inner k) p")
  case True
  let ?k = "k\<lparr>ks_inner := observed p e (ks_inner k)\<rparr>"
  obtain b where "store_persist ([], ?k) = (Inr (), [], ?k\<lparr>ks_state_file := Some b\<rparr>)"
    using store_persist_done [of ?k] assms(3) by auto
  with True assms(1,2) show ?thesis
    by (simp add: observe_remote_epoch_def k_bind_def store_lock_def k_inner_def k_ret_def k_set_def observed_def)
next
  case False
  with assms(1,2) show ?thesis
    by (simp add: observe_remote_epoch_def k_bind_def store_lock_def k_inner_def k_ret_def observed_def)
qed

lemma observed_fields [simp]:
  "si_failed (observed p e i) = si_failed i" "si_peers (observed p e i) = si_peers i" "si_pairs (observed p e i) = si_pairs i"
  "si_local (observed p e i) = si_local i" "si_next_slot (observed p e i) = si_next_slot i" "si_retry_epochs (observed p e i) = si_retry_epochs i"
  by (simp_all add: observed_def)

lemma observed_mark: "watermark_of (observed p e i) p = max (watermark_of i p) e"
  by (auto simp: observed_def watermark_of_def bm_or_default_def max_def)

lemma imported_fields [simp]:
  "si_failed (imported d i) = si_failed i" "bm_get (si_peers (imported d i)) (id_peer_id d) = Some d" "si_pairs (imported d i) = si_pairs i"
  "si_local (imported d i) = si_local i" "si_next_slot (imported d i) = si_next_slot i" "si_retry_epochs (imported d i) = si_retry_epochs i"
  "watermark_of (imported d i) = watermark_of i"
  by (simp_all add: imported_def)

lemma installed_fields [simp]:
  "si_failed (installed p ini m key i) = si_failed i" "bm_get (si_pairs (installed p ini m key i)) p = Some (new_pair p ini m)"
  "si_retry_epochs (installed p ini m key i) = si_retry_epochs i"
  by (simp_all add: installed_def Let_def drop_keys_def raise_watermark_def)

text \<open>A session just installed is the current one.\<close>

lemma installed_current:
  assumes "inner_of w = installed p ini m key i" and "\<not> si_failed i" and "inner_session (inner_of w) p (wm_epoch m) = Inr s"
  shows "h_key (current_session p) (l, w) = (Ret (Inr s), l, w)"
  using assms by (simp add: h_queries)

definition low_ready :: "crypto \<Rightarrow> entropy \<Rightarrow> IdentityDocument \<Rightarrow> Epoch \<Rightarrow> Epoch \<Rightarrow> 256 word \<Rightarrow> WrapMessage \<Rightarrow> StoreInner \<Rightarrow> bool" where
  "low_ready c en d remote e key m i \<longleftrightarrow> local_peer i < id_peer_id d \<and>
     checked_add (epoch_raw (max (watermark_of i (id_peer_id d)) remote)) 1 = Some (epoch_raw e) \<and>
     fits (observed (id_peer_id d) remote (imported d i)) \<and> wrap_message c en (si_local i) (id_peer_id d) (id_ek d) e = Inr (key, m) \<and>
     fits (installed (id_peer_id d) (local_peer i) m key (let j = observed (id_peer_id d) remote (imported d i) in
       j\<lparr>si_retry_epochs := bm_remove (id_peer_id d) (si_retry_epochs j)\<rparr>))"

lemma observed_max: "observed p (max (watermark_of i p) e) i = observed p e i"
  by (auto simp: observed_def max_def)

lemma initial_wrap_done:
  assumes r: "low_ready c en d remote e key m i" and w: "wd_key_outcomes w = []" "inner_of w = imported d i" "ksys_inv (wd_keys w, True)"
    and i: "\<not> si_failed i" "bm_get (si_pairs i) (id_peer_id d) = None" "checked_add (si_next_slot i) 1 \<noteq> None"
    and l: "ln_entropy l = en # ens"
  shows "\<exists>w' s. initial_wrap c (li_document (si_local i)) d (watermark_of i (id_peer_id d)) remote (l, w) = (Ret (Inr (Some m)), l\<lparr>ln_entropy := ens\<rparr>, w') \<and>
    wd_key_outcomes w' = [] \<and> (\<exists>j. \<not> si_failed j \<and> inner_of w' = installed (id_peer_id d) (local_peer i) m key j) \<and>
    inner_session (inner_of w') (id_peer_id d) (wm_epoch m) = Inr s \<and> session_key (wd_keys w') s = Some key"
proof -
  let ?p = "id_peer_id d" and ?a = "li_document (si_local i)"
  let ?floor = "max (watermark_of i ?p) remote"
  note r' = r [unfolded low_ready_def Let_def]
  have 1: "h_key (cached_pair ?p) (l, w) = (Ret (Inr None), l, w)"
    using w i by (simp add: h_preserved_queries)
  have 2: "ok_and (current_session ?p) (\<lambda>_. True) (l, w) = (Ret (Inr False), l, w)"
    unfolding current_session_def by (rule ok_and_go) (use w i in simp_all)
  obtain k2 where k2: "observe_remote_epoch ?p ?floor ([], wd_keys w) = (Inr (), [], k2)" "ks_inner k2 = observed ?p remote (imported d i)"
    using observe_done [of "wd_keys w" ?p ?floor] observed_max [of ?p "imported d i" remote] w i r'
    by (auto simp: imported_def)
  define w2 where "w2 = w\<lparr>wd_keys := k2\<rparr>"
  have 3: "h_key (observe_remote_epoch ?p ?floor) (l, w) = (Ret (Inr ()), l, w2)"
    using h_key_go [of w "observe_remote_epoch ?p ?floor" "()" k2 l] w(1) k2(1) by (simp add: w2_def)
  have i2: "inner_of w2 = observed ?p remote (imported d i)" "wd_key_outcomes w2 = []" using k2(2) w(1) by (simp_all add: w2_def)
  have inv2: "ksys_inv (k2, True)"
    using ktD [OF observe_remote_epoch_kinv [rule_format], of "\<lambda>_. Epoch 0" "\<lambda>_. Epoch 0" "wd_keys w" ?p ?floor "[]"] k2(1) w(3)
    by (simp add: ksys_inv_def)
  have 4: "h_key (next_epoch ?p) (l, w2) = (Ret (Inr e), l, w2)"
    unfolding next_epoch_def by (rule h_query_go) (use i2 i r' in \<open>simp_all add: observed_mark\<close>)
  define l5 where "l5 = l\<lparr>ln_entropy := ens\<rparr>"
  have 5: "draw_entropy (l, w2) = (Ret (Inr en), l5, w2)"
    using draw_entropy_go [OF l] by (simp add: l5_def)
  let ?j = "(observed ?p remote (imported d i))\<lparr>si_retry_epochs := bm_remove ?p (si_retry_epochs (observed ?p remote (imported d i)))\<rparr>"
  have chk: "create_check (ks_inner k2) ?p (id_ek d) e False = Inr ()"
    using r' i k2(2) by (simp add: create_check_Inr observed_mark)
  obtain n where n: "checked_add (si_next_slot (ks_inner k2)) 1 = Some n" using i(3) k2(2) by auto
  obtain s b where cr: "create_inner c en ?p (id_ek d) e False ([], k2) =
      (Inr (s, m), [], k2\<lparr>ks_inner := installed ?p (local_peer i) m key ?j, ks_state_file := Some b\<rparr>)"
    using create_inner_done [of k2 ?p "id_ek d" e c en key m n] chk n r' i k2(2) by auto
  define w3 where "w3 = w2\<lparr>wd_keys := k2\<lparr>ks_inner := installed ?p (local_peer i) m key ?j, ks_state_file := Some b\<rparr>\<rparr>"
  have 6: "h_key (create_inner c en ?p (id_ek d) e False) (l5, w2) = (Ret (Inr (s, m)), l5, w3)"
    using h_key_go [of w2 "create_inner c en ?p (id_ek d) e False" "(s, m)" _ l5] cr i2(2) by (simp add: w3_def w2_def)
  have "local_peer i < ?p" using r' by simp
  then have run: "initial_wrap c ?a d (watermark_of i ?p) remote (l, w) = (Ret (Inr (Some m)), l5, w3)"
    by (simp add: initial_wrap_def Let_def h_bind_go [of "ok_and p t" s False s' for p t s s'] h_bind_go 1 2 3 4 5 6 h_ret_go)
  obtain slot where "(slot, pair_key_new key ?p e) \<in> set (si_keys (inner_of w3))" "inner_session (inner_of w3) ?p e = Inr s"
    using create_inner_Inr [OF cr] r' k2(2) by (auto simp: w3_def)
  moreover have "store_inv (inner_of w3)"
    using ktD [OF create_inner_kinv [rule_format], of "\<lambda>_. Epoch 0" "\<lambda>_. Epoch 0" k2 c en ?p "id_ek d" e False "[]"] cr inv2
    by (auto simp: ksys_inv_def w3_def dest: kinvD)
  moreover have "wm_epoch m = e" using r' by (auto dest: wrap_message_epoch)
  ultimately have "inner_session (inner_of w3) ?p (wm_epoch m) = Inr s" "session_key (wd_keys w3) s = Some key"
    using session_key_new [of "wd_keys w3"] by auto
  moreover have "\<not> si_failed ?j \<and> inner_of w3 = installed ?p (local_peer i) m key ?j" using i(1) by (simp add: w3_def)
  moreover have "wd_key_outcomes w3 = []" using i2(2) by (simp add: w3_def)
  ultimately show ?thesis using run unfolding l5_def by blast
qed

lemma send_wrap_done:
  assumes "framed WRAP_KIND (encode_wrap m) f" and "ln_room l \<noteq> 0"
  shows "send_wrap m (l, w) = (Ret (Inr ()), l\<lparr>ln_out := ln_out l @ [f], ln_room := ln_room l - 1\<rparr>, w)"
  using framed_put [of WRAP_KIND "fr_payload f" f l w] assms by (auto simp: send_wrap_def framed_def h_bind_go h_ret_go)

lemma acknowledged_done:
  assumes f: "framed WRAP_ACK_KIND (Inr (encode_wrap_ack (ses_epoch s) False)) f" and l: "ln_in l = [Inr f]"
    and s: "h_key (current_session (id_peer_id d)) (l\<lparr>ln_in := []\<rparr>, w) = (Ret (Inr s), l\<lparr>ln_in := []\<rparr>, w)"
  shows "\<exists>l'. finish_wrap c d (l, w) = (Ret (Inr \<lparr>es_peer = d, es_session = s\<rparr>), l', w) \<and> ln_out l' = ln_out l"
proof -
  define l1 where "l1 = l\<lparr>ln_in := []\<rparr>"
  have 1: "next_frame (l, w) = (Ret (Inr f), l1, w)" using l by (simp add: next_frame_Inr l1_def)
  have d: "decode_wrap_ack (fr_payload f) = Inr (ses_epoch s, False)" and k: "fr_kind f = WRAP_ACK_KIND"
    using f decode_wrap_ack_iff [OF framed_usize [OF f]] by (simp_all add: framed_def)
  have s1: "h_key (current_session (id_peer_id d)) (l1, w) = (Ret (Inr s), l1, w)" using s by (simp add: l1_def)
  have "some_established d s (l1, w) = (Ret (Inr (Some \<lparr>es_peer = d, es_session = s\<rparr>)),
      l1\<lparr>ln_progress := (ln_progress l1)\<lparr>hp_wrap_acknowledged := True\<rparr>\<rparr>, w)"
    by (simp add: some_established_Inr)
  moreover have "WRAP_ACK_KIND \<noteq> WRAP_KIND" by (simp add: frame_kinds)
  ultimately have "handle_wrap c d f (l1, w) = (Ret (Inr (Some \<lparr>es_peer = d, es_session = s\<rparr>)),
      l1\<lparr>ln_progress := (ln_progress l1)\<lparr>hp_wrap_acknowledged := True\<rparr>\<rparr>, w)"
    by (simp add: handle_wrap_def Let_def k d h_bind_ret h_bind_go s1)
  then have "finish_wrap c d (l, w) = (Ret (Inr \<lparr>es_peer = d, es_session = s\<rparr>),
      l1\<lparr>ln_progress := (ln_progress l1)\<lparr>hp_wrap_acknowledged := True\<rparr>\<rparr>, w)"
    by (subst finish_wrap_unfold) (simp add: h_bind_go 1 h_ret_go)
  then show ?thesis by (auto simp: l1_def)
qed

lemma initiator_done:
  assumes s: "stranger c d w" and r: "low_ready c en d remote e key m (inner_of w)"
    and l: "ln_in l = [Inr fd, Inr fh, Inr fa]" "ln_room l \<ge> 3" "ln_entropy l = [en0, en]"
    and fr: "framed IDENTITY_KIND (encode_identity (li_document (si_local (inner_of w)))) fo" "framed IDENTITY_KIND (encode_identity d) fd"
      "framed EPOCH_HINT_KIND (Inr (epoch_hint_m (local_peer (inner_of w)) (watermark_of (inner_of w) (id_peer_id d)))) fo'"
      "framed EPOCH_HINT_KIND (Inr (epoch_hint_m (id_peer_id d) remote)) fh" "framed WRAP_KIND (encode_wrap m) fm"
      "framed WRAP_ACK_KIND (Inr (encode_wrap_ack e False)) fa"
  shows "\<exists>s l' w'. establish c None (l, w) = (Ret (Inr \<lparr>es_peer = d, es_session = s\<rparr>), l', w') \<and>
    ln_out l' = ln_out l @ [fo, fo', fm] \<and> session_key (wd_keys w') s = Some key \<and> ses_epoch s = e"
proof -
  let ?i = "inner_of w" and ?p = "id_peer_id d"
  have room: "2 \<le> ln_room l" using l(2) by simp
  obtain l1 w1 where g: "establish c None (l, w) =
      h_bind (initial_wrap c (li_document (si_local ?i)) d (watermark_of ?i ?p) remote) (\<lambda>message.
      h_bind (case message of None \<Rightarrow> h_ret (Inr ()) | Some m \<Rightarrow> send_wrap m) (\<lambda>_. finish_wrap c d)) (l1, w1)"
    and l1: "ln_in l1 = [Inr fa]" "ln_out l1 = ln_out l @ [fo, fo']" "ln_room l1 = ln_room l - 2" "ln_entropy l1 = [en]"
    and w1: "wd_key_outcomes w1 = []" "inner_of w1 = imported d ?i" "ksys_inv (wd_keys w1, True)"
    using greeting_done [OF s l(1) room l(3) fr(1-4)] by auto
  note s' = s [unfolded stranger_def]
  obtain w2 s j where iw: "initial_wrap c (li_document (si_local ?i)) d (watermark_of ?i ?p) remote (l1, w1) =
        (Ret (Inr (Some m)), l1\<lparr>ln_entropy := []\<rparr>, w2)"
      and j: "\<not> si_failed j" "inner_of w2 = installed ?p (local_peer ?i) m key j"
      and ses: "inner_session (inner_of w2) ?p (wm_epoch m) = Inr s" "session_key (wd_keys w2) s = Some key"
    using initial_wrap_done [OF r w1 _ _ _ l1(4)] s' by auto
  define l2 where "l2 = l1\<lparr>ln_entropy := [], ln_out := ln_out l1 @ [fm], ln_room := ln_room l1 - 1\<rparr>"
  have sw: "send_wrap m (l1\<lparr>ln_entropy := []\<rparr>, w2) = (Ret (Inr ()), l2, w2)"
    using send_wrap_done [OF fr(5), of "l1\<lparr>ln_entropy := []\<rparr>" w2] l(2) l1(3) by (simp add: l2_def)
  have e: "ses_epoch s = e"
    using ses(1) r by (auto simp: low_ready_def dest: wrap_message_epoch elim: inner_session_Inr)
  have "ln_in l2 = [Inr fa]" using l1(1) by (simp add: l2_def)
  then obtain l3 where "finish_wrap c d (l2, w2) = (Ret (Inr \<lparr>es_peer = d, es_session = s\<rparr>), l3, w2)" "ln_out l3 = ln_out l2"
    using acknowledged_done [of s fa l2 d w2 c] fr(6) e installed_current [OF j(2,1) ses(1), of "l2\<lparr>ln_in := []\<rparr>"] by auto
  then have "establish c None (l, w) = (Ret (Inr \<lparr>es_peer = d, es_session = s\<rparr>), l3, w2) \<and> ln_out l3 = ln_out l @ [fo, fo', fm]"
    using l1(2) by (simp add: g h_bind_go iw sw) (simp add: l2_def)
  with e ses(2) show ?thesis by blast
qed

section \<open>The larger peer\<close>

definition high_ready :: "crypto \<Rightarrow> LocalIdentity \<Rightarrow> Epoch \<Rightarrow> Epoch \<Rightarrow> 256 word \<Rightarrow> WrapMessage \<Rightarrow> StoreInner \<Rightarrow> bool" where
  "high_ready c l remote e key m i \<longleftrightarrow> id_peer_id (li_document l) < local_peer i \<and>
     checked_add (epoch_raw (max (watermark_of i (id_peer_id (li_document l))) remote)) 1 = Some (epoch_raw e) \<and>
     fits (observed (id_peer_id (li_document l)) remote (imported (li_document l) i)) \<and>
     id_vk (li_document l) = cr_sign_vk c (li_signing_seed l) \<and>
     (\<exists>en. wrap_message c en l (local_peer i) (cr_kem_ek c (li_kem_seed (si_local i))) e = Inr (key, m)) \<and>
     fits (installed (id_peer_id (li_document l)) (id_peer_id (li_document l)) m key
       (observed (id_peer_id (li_document l)) remote (imported (li_document l) i)))"

lemma checked_sub_one: "checked_add a (1 :: u64) = Some b \<Longrightarrow> checked_sub b 1 = Some a"
  using checked_add_one_less [of a b] by (auto simp: checked_add_Some_iff checked_sub_def word_le_nat_alt word_less_nat_alt)

lemma prepare_incoming_floor_done:
  assumes r: "high_ready c la remote e key m i" and c: "crypto_correct c"
    and w: "wd_key_outcomes w = []" "inner_of w = imported (li_document la) i" "ksys_inv (wd_keys w, True)"
    and i: "\<not> si_failed i" "bm_get (si_pairs i) (id_peer_id (li_document la)) = None"
  shows "\<exists>w'. prepare_incoming_floor c (li_document la) m (l, w) = (Ret (Inr ()), l, w') \<and> wd_key_outcomes w' = [] \<and>
    inner_of w' = observed (id_peer_id (li_document la)) remote (imported (li_document la) i) \<and> ksys_inv (wd_keys w', True)"
proof -
  let ?d = "li_document la" and ?p = "id_peer_id (li_document la)"
  let ?floor = "max (watermark_of i ?p) remote"
  note r' = r [unfolded high_ready_def]
  obtain en where wm: "wrap_message c en la (local_peer i) (cr_kem_ek c (li_kem_seed (si_local i))) e = Inr (key, m)" using r' by blast
  have 1: "ok_and (current_session ?p) (\<lambda>_. True) (l, w) = (Ret (Inr False), l, w)"
    unfolding current_session_def by (rule ok_and_go) (use w i in simp_all)
  have 2: "h_key store_peer_id (l, w) = (Ret (Inr (local_peer i)), l, w)"
    using w(2) i by (simp add: h_preserved_queries)
  have 3: "h_key (peer_epoch ?p) (l, w) = (Ret (Inr (watermark_of i ?p)), l, w)"
    unfolding peer_epoch_def by (rule h_query_go) (use w i in simp_all)
  have ids: "wm_min_id m = min ?p (local_peer i)" "wm_max_id m = max ?p (local_peer i)" "wm_epoch m = e"
    using wrap_message_signed(2,3) [OF c wm] wrap_message_epoch [OF wm] by simp_all
  have sub: "checked_sub (epoch_raw e) 1 = Some (epoch_raw ?floor)"
    using r' by (intro checked_sub_one) simp
  have sig: "verify_wrap c ?d m = Inr ()"
    using wrap_message_signed(1) [OF c wm] r' by (auto simp: verify_wrap_def)
  have op: "prepare_incoming_floor c ?d m (l, w) =
      (if epoch_raw ?floor > epoch_raw (watermark_of i ?p) then h_key (observe_remote_epoch ?p (Epoch (epoch_raw ?floor))) else h_ret (Inr ())) (l, w)"
    using conjunct1 [OF r', unfolded not_le [symmetric]] by (simp add: prepare_incoming_floor_def Let_def h_bind_go [of "ok_and p t" s False s' for p t s s'] h_bind_go 1 2 3 ids sub sig h_bind_ret)
  show ?thesis
  proof (cases "remote > watermark_of i ?p")
    case True
    then have fl: "?floor = remote" "epoch_raw ?floor > epoch_raw (watermark_of i ?p)"
      using max.absorb2 [OF less_imp_le [OF True]] True [unfolded less_Epoch_def] by simp_all
    obtain k2 where k2: "observe_remote_epoch ?p remote ([], wd_keys w) = (Inr (), [], k2)" "ks_inner k2 = observed ?p remote (imported ?d i)"
      using observe_done [of "wd_keys w" ?p remote] w i r' by (auto simp: imported_def)
    have "prepare_incoming_floor c ?d m (l, w) = (Ret (Inr ()), l, w\<lparr>wd_keys := k2\<rparr>)"
      using op fl h_key_go [of w "observe_remote_epoch ?p remote" "()" k2 l] w(1) k2(1) by simp
    moreover have "ksys_inv (k2, True)"
      using ktD [OF observe_remote_epoch_kinv [rule_format], of "\<lambda>_. Epoch 0" "\<lambda>_. Epoch 0" "wd_keys w" ?p remote "[]"] k2(1) w(3)
      by (simp add: ksys_inv_def)
    ultimately show ?thesis using k2(2) w(1) by auto
  next
    case False
    then have "?floor = watermark_of i ?p" by simp
    then have "prepare_incoming_floor c ?d m (l, w) = (Ret (Inr ()), l, w)"
      using op by (simp add: h_ret_go)
    moreover have "observed ?p remote (imported ?d i) = imported ?d i" using False by (simp add: observed_def)
    ultimately show ?thesis using w by auto
  qed
qed

lemma received_done:
  assumes r: "high_ready c la remote e key m i" and c: "crypto_correct c"
    and w: "wd_key_outcomes w = []" "inner_of w = imported (li_document la) i" "ksys_inv (wd_keys w, True)"
    and i: "\<not> si_failed i" "bm_get (si_pairs i) (id_peer_id (li_document la)) = None" "checked_add (si_next_slot i) 1 \<noteq> None"
      "bm_get (si_retry_epochs i) (id_peer_id (li_document la)) = None"
    and l: "ln_in l = [Inr fm]" "ln_room l \<noteq> 0" and fm: "framed WRAP_KIND (encode_wrap m) fm"
    and fa: "framed WRAP_ACK_KIND (Inr (encode_wrap_ack e False)) fa"
  shows "\<exists>s l' w'. finish_wrap c (li_document la) (l, w) = (Ret (Inr \<lparr>es_peer = li_document la, es_session = s\<rparr>), l', w') \<and>
    ln_out l' = ln_out l @ [fa] \<and> session_key (wd_keys w') s = Some key \<and> ses_epoch s = e"
proof -
  let ?d = "li_document la" and ?p = "id_peer_id (li_document la)"
  let ?j = "observed ?p remote (imported ?d i)"
  note r' = r [unfolded high_ready_def]
  obtain en where wm: "wrap_message c en la (local_peer i) (cr_kem_ek c (li_kem_seed (si_local i))) e = Inr (key, m)" using r' by blast
  define l1 where "l1 = l\<lparr>ln_in := []\<rparr>"
  have 1: "next_frame (l, w) = (Ret (Inr fm), l1, w)" using l by (simp add: next_frame_Inr l1_def)
  have dm: "decode_wrap (fr_payload fm) = Inr m" "fr_kind fm = WRAP_KIND"
    using fm decode_wrap_iff [OF framed_usize [OF fm]] by (simp_all add: framed_def)
  have 2: "ok_and (current_session ?p) (\<lambda>session. wm_epoch m < ses_epoch session) (l1, w) = (Ret (Inr False), l1, w)"
    unfolding current_session_def by (rule ok_and_go) (use w i in simp_all)
  obtain w2 where 3: "prepare_incoming_floor c ?d m (l1, w) = (Ret (Inr ()), l1, w2)"
      and w2: "wd_key_outcomes w2 = []" "inner_of w2 = ?j" "ksys_inv (wd_keys w2, True)"
    using prepare_incoming_floor_done [OF r c w i(1,2)] by blast
  have u: "unwrap_check c (inner_of w2) ?p m False = Inr (Proceed False False)"
  proof (rule unwrap_check_accepts [OF c])
    show "wrap_message c en la (local_peer (inner_of w2)) (cr_kem_ek c (li_kem_seed (si_local i))) e = Inr (key, m)" using wm w2(2) by simp
    show "knows c la (inner_of w2)" using w2(2) i(1) r' by (simp add: knows_def)
    show "expects (inner_of w2) ?p e" using w2(2) i(2) r' by (simp add: expects_def observed_mark)
  qed
  have o: "open_wrap c (si_local (inner_of w2)) m = Inr key"
    using wrap_message_opens [OF c wm] w2(2) by simp
  obtain n where n: "checked_add (si_next_slot (inner_of w2)) 1 = Some n" using i(3) w2(2) by auto
  obtain s b where un: "unwrap_inner c ?p m False ([], wd_keys w2) =
      (Inr s, [], (wd_keys w2)\<lparr>ks_inner := installed ?p ?p m key ?j, ks_state_file := Some b\<rparr>)"
    using unwrap_inner_done [of "wd_keys w2" c ?p m False key n] u o n r' i(1) w2(2) by auto
  define w3 where "w3 = w2\<lparr>wd_keys := (wd_keys w2)\<lparr>ks_inner := installed ?p ?p m key ?j, ks_state_file := Some b\<rparr>\<rparr>"
  have 4: "h_try (h_key (unwrap_inner c ?p m False)) (l1, w2) = (Ret (Inr (Inr s)), l1, w3)"
    using h_key_go [of w2 "unwrap_inner c ?p m False" s _ l1] un w2(1) by (simp add: w3_def h_try_def)
  have 5: "h_key (retry_epoch ?p) (l1, w3) = (Ret (Inr None), l1, w3)"
    using i by (simp add: h_queries w3_def)
  obtain slot where ss: "(slot, pair_key_new key ?p e) \<in> set (si_keys (inner_of w3))" "inner_session (inner_of w3) ?p e = Inr s"
    using unwrap_inner_Inr [OF un u] o wrap_message_epoch [OF wm] by (auto simp: w3_def)
  have "store_inv (inner_of w3)"
    using ktD [OF unwrap_inner_kinv [rule_format], of "\<lambda>_. Epoch 0" "\<lambda>_. Epoch 0" "wd_keys w2" c ?p m False "[]"] un w2(3)
    by (auto simp: ksys_inv_def w3_def dest: kinvD)
  then have key: "session_key (wd_keys w3) s = Some key" using ss by (rule session_key_new)
  have e: "ses_epoch s = e" using ss(2) by (rule inner_session_Inr)
  define l2 where "l2 = l1\<lparr>ln_out := ln_out l1 @ [fa], ln_room := ln_room l1 - 1\<rparr>"
  have 6: "send_ack (ses_epoch s) False (l1, w3) = (Ret (Inr ()), l2, w3)"
    using framed_put [OF fa, of l1 w3] l(2) e by (simp add: send_ack_def l2_def l1_def)
  define l3 where "l3 = l2\<lparr>ln_progress := (ln_progress l2)\<lparr>hp_wrap_acknowledged := True\<rparr>\<rparr>"
  have 7: "some_established ?d s (l2, w3) = (Ret (Inr (Some \<lparr>es_peer = ?d, es_session = s\<rparr>)), l3, w3)"
    by (simp add: some_established_Inr l3_def)
  have "handle_wrap c ?d fm (l1, w) = (Ret (Inr (Some \<lparr>es_peer = ?d, es_session = s\<rparr>)), l3, w3)"
    by (simp add: handle_wrap_def Let_def dm h_bind_ret h_bind_go [of "ok_and p t" s False s' for p t s s'] h_bind_go 2 3 4 5 6 7)
  then have "finish_wrap c ?d (l, w) = (Ret (Inr \<lparr>es_peer = ?d, es_session = s\<rparr>), l3, w3)"
    by (subst finish_wrap_unfold) (simp add: h_bind_go 1 h_ret_go)
  then show ?thesis using key e by (auto simp: l3_def l2_def l1_def)
qed

lemma responder_done:
  assumes c: "crypto_correct c" and s: "stranger c (li_document la) w" and r: "high_ready c la remote e key m (inner_of w)"
    and l: "ln_in l = [Inr fd, Inr fh, Inr fm]" "ln_room l \<ge> 3" "ln_entropy l = en # ens"
    and fr: "framed IDENTITY_KIND (encode_identity (li_document (si_local (inner_of w)))) fo"
      "framed IDENTITY_KIND (encode_identity (li_document la)) fd"
      "framed EPOCH_HINT_KIND (Inr (epoch_hint_m (local_peer (inner_of w)) (watermark_of (inner_of w) (id_peer_id (li_document la))))) fo'"
      "framed EPOCH_HINT_KIND (Inr (epoch_hint_m (id_peer_id (li_document la)) remote)) fh" "framed WRAP_KIND (encode_wrap m) fm"
      "framed WRAP_ACK_KIND (Inr (encode_wrap_ack e False)) fa"
  shows "\<exists>s l' w'. establish c None (l, w) = (Ret (Inr \<lparr>es_peer = li_document la, es_session = s\<rparr>), l', w') \<and>
    ln_out l' = ln_out l @ [fo, fo', fa] \<and> session_key (wd_keys w') s = Some key \<and> ses_epoch s = e"
proof -
  let ?i = "inner_of w" and ?d = "li_document la" and ?p = "id_peer_id (li_document la)"
  have room: "2 \<le> ln_room l" using l(2) by simp
  obtain l1 w1 where g: "establish c None (l, w) =
      h_bind (initial_wrap c (li_document (si_local ?i)) ?d (watermark_of ?i ?p) remote) (\<lambda>message.
      h_bind (case message of None \<Rightarrow> h_ret (Inr ()) | Some m \<Rightarrow> send_wrap m) (\<lambda>_. finish_wrap c ?d)) (l1, w1)"
    and l1: "ln_in l1 = [Inr fm]" "ln_out l1 = ln_out l @ [fo, fo']" "ln_room l1 = ln_room l - 2"
    and w1: "wd_key_outcomes w1 = []" "inner_of w1 = imported ?d ?i" "ksys_inv (wd_keys w1, True)"
    using greeting_done [OF s l(1) room l(3) fr(1-4)] by auto
  note s' = s [unfolded stranger_def]
  have 1: "h_key (cached_pair ?p) (l1, w1) = (Ret (Inr None), l1, w1)"
    using w1 s' by (simp add: h_preserved_queries)
  have 2: "ok_and (current_session ?p) (\<lambda>_. True) (l1, w1) = (Ret (Inr False), l1, w1)"
    unfolding current_session_def by (rule ok_and_go) (use w1 s' in simp_all)
  have "\<not> local_peer ?i < ?p" using r [unfolded high_ready_def, THEN conjunct1] by (blast dest: less_not_sym)
  then have iw: "initial_wrap c (li_document (si_local ?i)) ?d (watermark_of ?i ?p) remote (l1, w1) = (Ret (Inr None), l1, w1)"
    by (simp add: initial_wrap_def Let_def h_bind_go [of "ok_and p t" s False s' for p t s s'] h_bind_go 1 2 h_ret_go)
  have "ln_room l1 \<noteq> 0" using l(2) l1(3) by simp
  then obtain s l3 w3 where "finish_wrap c ?d (l1, w1) = (Ret (Inr \<lparr>es_peer = ?d, es_session = s\<rparr>), l3, w3)"
      "ln_out l3 = ln_out l1 @ [fa]" "session_key (wd_keys w3) s = Some key" "ses_epoch s = e"
    using received_done [OF r c w1 _ _ _ _ l1(1) _ fr(5,6)] s' by auto
  then show ?thesis using l1(2) by (simp add: g h_bind_go iw h_ret_go)
qed

section \<open>Both ends\<close>

definition started :: "entropy list \<Rightarrow> Frame list \<Rightarrow> link" where
  "started entropy frames = \<lparr>ln_in = map Inr frames, ln_out = [], ln_room = 3, ln_entropy = entropy,
     ln_progress = \<lparr>hp_peer_id = None, hp_wrap_acknowledged = False, hp_had_pair = False\<rparr>\<rparr>"

abbreviation sendable :: "byte \<Rightarrow> bytes result \<Rightarrow> bool" where
  "sendable kind payload \<equiv> \<exists>f. framed kind payload f"

lemma fresh_handshake:
  fixes wa wb :: world
  defines "a \<equiv> li_document (si_local (inner_of wa))" and "b \<equiv> li_document (si_local (inner_of wb))"
  assumes c: "crypto_correct c" and s: "stranger c b wa" "stranger c a wb"
    and docs: "sendable IDENTITY_KIND (encode_identity a)" "sendable IDENTITY_KIND (encode_identity b)" "sendable WRAP_KIND (encode_wrap m)"
    and low: "low_ready c en b (watermark_of (inner_of wb) (id_peer_id a)) e key m (inner_of wa)"
    and high: "high_ready c (si_local (inner_of wa)) (watermark_of (inner_of wa) (id_peer_id b)) e key m (inner_of wb)"
  shows "\<exists>la lb sa sb wa' wb'.
    establish c None (started [en0, en] (ln_out lb), wa) = (Ret (Inr \<lparr>es_peer = b, es_session = sa\<rparr>), la, wa') \<and>
    establish c None (started [en1] (ln_out la), wb) = (Ret (Inr \<lparr>es_peer = a, es_session = sb\<rparr>), lb, wb') \<and>
    session_key (wd_keys wa') sa = Some key \<and> session_key (wd_keys wb') sb = Some key \<and> ses_epoch sa = e \<and> ses_epoch sb = e"
proof -
  obtain fa fb fm where f: "framed IDENTITY_KIND (encode_identity a) fa" "framed IDENTITY_KIND (encode_identity b) fb"
      "framed WRAP_KIND (encode_wrap m) fm"
    using docs by blast
  obtain ha hb fk where h: "framed EPOCH_HINT_KIND (Inr (epoch_hint_m (id_peer_id a) (watermark_of (inner_of wa) (id_peer_id b)))) ha"
      "framed EPOCH_HINT_KIND (Inr (epoch_hint_m (id_peer_id b) (watermark_of (inner_of wb) (id_peer_id a)))) hb"
      "framed WRAP_ACK_KIND (Inr (encode_wrap_ack e False)) fk"
    using hint_frame ack_frame by meson
  have in_a: "ln_in (started [en0, en] [fb, hb, fk]) = [Inr fb, Inr hb, Inr fk]" "3 \<le> ln_room (started [en0, en] [fb, hb, fk])"
      "ln_entropy (started [en0, en] [fb, hb, fk]) = [en0, en]"
    by (simp_all add: started_def)
  obtain sa la wa' where a': "establish c None (started [en0, en] [fb, hb, fk], wa) = (Ret (Inr \<lparr>es_peer = b, es_session = sa\<rparr>), la, wa')"
      "ln_out la = [fa, ha, fm]" "session_key (wd_keys wa') sa = Some key" "ses_epoch sa = e"
    using initiator_done [OF s(1) low in_a f(1) [unfolded a_def] f(2) h(1) [unfolded a_def] h(2) f(3) h(3)] by (auto simp: started_def)
  have in_b: "ln_in (started [en1] [fa, ha, fm]) = [Inr fa, Inr ha, Inr fm]" "3 \<le> ln_room (started [en1] [fa, ha, fm])"
      "ln_entropy (started [en1] [fa, ha, fm]) = en1 # []"
    by (simp_all add: started_def)
  obtain sb lb wb' where b': "establish c None (started [en1] [fa, ha, fm], wb) = (Ret (Inr \<lparr>es_peer = a, es_session = sb\<rparr>), lb, wb')"
      "ln_out lb = [fb, hb, fk]" "session_key (wd_keys wb') sb = Some key" "ses_epoch sb = e"
    using responder_done [OF c s(2) [unfolded a_def] high in_b f(2) [unfolded b_def] f(1) [unfolded a_def] h(2) [unfolded b_def a_def]
      h(1) [unfolded a_def] f(3) h(3)] by (auto simp: started_def a_def)
  show ?thesis using a' b' by metis
qed

end
