(* ===== verification/Session_Sample.thy ===== *)
theory Session_Sample
  imports Session_Fresh Sample
begin

text \<open>Two concrete nodes that have just been installed.\<close>

definition sample_node :: "256 word \<Rightarrow> keystore \<Rightarrow> world" where
  "sample_node me k = \<lparr>wd_key_outcomes = [], wd_keys = k, wd_outcomes = [], wd_dir = sample_dir\<rparr>"

lemma sample_started:
  assumes "me = 1 \<or> me = 2"
  shows "\<exists>k. ksys_inv (k, True) \<and> ks_inner k = initial_inner (sample_identity me) 0"
proof -
  let ?l = "sample_identity me"
  obtain b where b: "encode_local_identity ?l = Inr b" "length b \<le> MAX_STORE_BYTES" using sample_identity_encodes [OF assms] by blast
  obtain b' where o: "keystore_open sample_crypto (Inr ?l) (Inr 0) (\<lambda>_. sample_entropy) ([], sample_empty) =
      (Inr (), [], \<lparr>ks_inner = initial_inner ?l 0, ks_state_file = Some b', ks_identity_file = Some b\<rparr>)"
    using open_first_time [OF b, of sample_crypto 0] unfolding sample_empty_def by blast
  let ?k = "\<lparr>ks_inner = initial_inner ?l 0, ks_state_file = Some b', ks_identity_file = Some b\<rparr>"
  have "run_steps (kstep sample_crypto) (sample_empty, False) (?k, True)"
    by (rule run_snoc [OF run_refl]) (rule step_open [OF o])
  then have "ksys_inv (?k, True)"
    by (rule keystore_life.runs_inv) (simp add: ksys_inv_def)
  then show ?thesis by fastforce
qed

lemma sample_imported:
  "imported other (initial_inner (sample_identity me) 0) = sample_inner me other"
  by (simp add: imported_def sample_inner_def initial_inner_def)

lemma sample_observed: "watermark_of (initial_inner l n) p = Epoch 0" "watermark_of (sample_inner me other) p = Epoch 0"
    "observed p (Epoch 0) (sample_inner me other) = sample_inner me other"
  by (simp_all add: observed_def initial_inner_def sample_inner_def watermark_of_def bm_or_default_def)

lemma sample_stranger:
  assumes "me = 1 \<and> other = high \<or> me = 2 \<and> other = low" and "ksys_inv (k, True)" and "ks_inner k = initial_inner (sample_identity me) 0"
  shows "stranger sample_crypto other (sample_node me k)"
proof -
  have "fits (imported other (ks_inner k))"
    using assms(1,3) sample_fits by (auto simp: sample_imported)
  with assms sample_documents sample_verify show ?thesis
    by (auto simp: stranger_def sample_node_def initial_inner_def checked_add_def)
qed

lemma sample_sendable: "sendable IDENTITY_KIND (encode_identity low)" "sendable IDENTITY_KIND (encode_identity high)"
    "sendable WRAP_KIND (encode_wrap (sample_wrap (Epoch 1)))"
proof -
  have id: "sendable IDENTITY_KIND (encode_identity d)" if "d = low \<or> d = high" for d
    by (rule exI [of _ "\<lparr>fr_kind = IDENTITY_KIND, fr_payload = var_bytes (identity_bytes d) @ var_bytes (id_signature d)\<rparr>"])
      (use that in \<open>auto simp: framed_def encode_identity_Inr frame_ok_def frame_kinds validate_kind_def identity_ok_def
        short_def sample_document_def identity_bytes_def var_bytes_def len_bytes_def\<close>)
  then show "sendable IDENTITY_KIND (encode_identity low)" "sendable IDENTITY_KIND (encode_identity high)" by blast+
  show "sendable WRAP_KIND (encode_wrap (sample_wrap (Epoch 1)))"
    by (rule exI [of _ "\<lparr>fr_kind = WRAP_KIND, fr_payload = var_bytes (wrap_bytes (sample_wrap (Epoch 1))) @ var_bytes [1]\<rparr>"])
      (use sample_wrap_ok(1) [of "Epoch 1"] in \<open>simp add: framed_def encode_wrap_Inr frame_ok_def frame_kinds validate_kind_def short_def
        wrap_bytes_def var_bytes_def len_bytes_def\<close>)
qed

lemma sample_low_ready:
  "low_ready sample_crypto sample_entropy high (Epoch 0) (Epoch 1) 9 (sample_wrap (Epoch 1)) (initial_inner (sample_identity 1) 0)"
proof -
  have "(sample_inner 1 high)\<lparr>si_retry_epochs := bm_remove p (si_retry_epochs (sample_inner 1 high))\<rparr> = sample_inner 1 high" for p
    by (simp add: sample_inner_def initial_inner_def bm_remove_def)
  moreover have "local_peer (initial_inner (sample_identity 1) 0) = id_peer_id low" "si_local (initial_inner (sample_identity 1) 0) = sample_identity 1"
      "id_ek high = [2]"
    by (simp_all add: initial_inner_def sample_documents(1)) (simp add: sample_document_def)
  ultimately show ?thesis
    using sample_documents(3) sample_fits(2) [of 1] sample_created_fits(1) sample_wrap_message [of "Epoch 1"]
    by (simp add: low_ready_def sample_imported sample_observed checked_add_def sample_first_def)
qed

lemma sample_high_ready:
  "high_ready sample_crypto (sample_identity 1) (Epoch 0) (Epoch 1) 9 (sample_wrap (Epoch 1)) (initial_inner (sample_identity 2) 0)"
proof -
  have l: "local_peer (initial_inner (sample_identity 2) 0) = id_peer_id high"
    by (simp add: initial_inner_def sample_documents(2))
  have "cr_kem_ek sample_crypto s = [2]" for s by (simp add: sample_crypto_def)
  then have "\<exists>en. wrap_message sample_crypto en (sample_identity 1) (id_peer_id high)
      (cr_kem_ek sample_crypto (li_kem_seed (si_local (initial_inner (sample_identity 2) 0)))) (Epoch 1) = Inr (9, sample_wrap (Epoch 1))"
    using sample_wrap_message [of "Epoch 1"] by (intro exI [of _ sample_entropy]) simp
  moreover have "fits (installed (id_peer_id low) (id_peer_id low) (sample_wrap (Epoch 1)) 9 (sample_inner 2 low))"
    using sample_wrap_ok
    by (simp add: sample_size_defs sample_state_defs Let_def pair_valid_def pair_bytes_def key_bytes_def wrap_bytes_def less_Epoch_def
        max_def sample_document_def)
  moreover have "id_vk low = cr_sign_vk sample_crypto (li_signing_seed (sample_identity 1))"
    by (simp add: sample_document_def sample_identity_def sample_crypto_def)
  ultimately show ?thesis
    using sample_documents(3) sample_fits(1) [of 2] l
    by (auto simp: high_ready_def sample_documents(1) sample_imported sample_observed checked_add_def)
qed

lemma sample_pair:
  assumes "ksys_inv (ka, True)" and "ks_inner ka = initial_inner (sample_identity 1) 0"
    and "ksys_inv (kb, True)" and "ks_inner kb = initial_inner (sample_identity 2) 0"
  defines "wa \<equiv> sample_node 1 ka" and "wb \<equiv> sample_node 2 kb"
  shows "li_document (si_local (inner_of wa)) = low \<and> li_document (si_local (inner_of wb)) = high \<and>
    stranger sample_crypto high wa \<and> stranger sample_crypto low wb \<and>
    sendable IDENTITY_KIND (encode_identity low) \<and> sendable IDENTITY_KIND (encode_identity high) \<and>
    sendable WRAP_KIND (encode_wrap (sample_wrap (Epoch 1))) \<and>
    low_ready sample_crypto sample_entropy high (watermark_of (inner_of wb) (id_peer_id low)) (Epoch 1) 9 (sample_wrap (Epoch 1)) (inner_of wa) \<and>
    high_ready sample_crypto (si_local (inner_of wa)) (watermark_of (inner_of wa) (id_peer_id high)) (Epoch 1) 9 (sample_wrap (Epoch 1)) (inner_of wb)"
  using sample_stranger [of 1 high ka] sample_stranger [of 2 low kb] assms(1-4) sample_sendable sample_low_ready sample_high_ready sample_documents(1,2)
  by (simp add: wa_def wb_def sample_node_def sample_observed) (simp add: initial_inner_def)

lemma sample_handshake:
  assumes "ksys_inv (ka, True)" and "ks_inner ka = initial_inner (sample_identity 1) 0"
    and "ksys_inv (kb, True)" and "ks_inner kb = initial_inner (sample_identity 2) 0"
  shows "\<exists>l w e l' w'. establish sample_crypto None (l, w) = (Ret (Inr e), l', w')"
  using fresh_handshake [OF sample_correct, of "sample_node 2 kb" "sample_node 1 ka" "sample_wrap (Epoch 1)" sample_entropy "Epoch 1" 9
      sample_entropy sample_entropy] sample_pair [OF assms] by simp blast

end
