(* ===== verification/Join_Code.thy ===== *)
theory Join_Code
  imports Identity
begin

unbundle bit_operations_syntax

text \<open>
  Join codes and vault identifiers as text: the unpadded Base32 of \<open>backend/src/net/mod.rs\<close>, with its 16-bit
  shift register, and the six-character codes of \<open>backend/src/net/short_code.rs\<close>. Only the uppercase text
  without stray trailing bits is accepted, so that a code has exactly one text.
\<close>

section \<open>Base32\<close>

definition BASE32 :: bytes where
  "BASE32 = ascii ''ABCDEFGHIJKLMNOPQRSTUVWXYZ234567''"

text \<open>The loop \<open>while available >= 5\<close>.\<close>

fun emit_digits :: "16 word \<Rightarrow> nat \<Rightarrow> bytes \<Rightarrow> nat \<times> bytes" where
  "emit_digits bits available out =
     (if available \<ge> 5 then
        emit_digits bits (available - 5) (out @ [BASE32 ! unat (drop_bit (available - 5) bits AND 31)])
      else (available, out))"

declare emit_digits.simps [simp del]

definition encode_byte :: "byte \<Rightarrow> 16 word \<times> nat \<times> bytes \<Rightarrow> 16 word \<times> nat \<times> bytes" where
  "encode_byte b s = (case s of (bits, available, out) \<Rightarrow>
     let bits = push_bit 8 bits OR ucast b in
     case emit_digits bits (available + 8) out of (available, out) \<Rightarrow> (bits, available, out))"

definition encode_base32 :: "bytes \<Rightarrow> bytes" where
  "encode_base32 bs =
     (case fold encode_byte bs (0, 0, []) of (bits, available, out) \<Rightarrow>
        if available \<noteq> 0 then out @ [BASE32 ! unat (push_bit (5 - available) bits AND 31)] else out)"

fun position :: "'a \<Rightarrow> 'a list \<Rightarrow> nat option" where
  "position x [] = None"
| "position x (y # ys) = (if y = x then Some 0 else map_option Suc (position x ys))"

definition decode_char :: "byte \<Rightarrow> 16 word \<times> nat \<times> bytes \<Rightarrow> (16 word \<times> nat \<times> bytes) result" where
  "decode_char b s = (case s of (bits, available, out) \<Rightarrow>
     and_then (ok_or (position b BASE32) (InvalidInput ''invalid Base32 character'')) (\<lambda>digit.
     let bits = push_bit 5 bits OR of_nat digit; available = available + 5 in
     Inr (if available \<ge> 8 then (bits, available - 8, out @ [ucast (drop_bit (available - 8) bits)])
          else (bits, available, out))))"

definition decode_base32 :: "bytes \<Rightarrow> bytes result" where
  "decode_base32 v =
     and_then (fold_ok decode_char v (0, 0, [])) (\<lambda>(bits, available, out).
     and_then (guard_ok (\<not> (available \<noteq> 0 \<and> bits AND (push_bit available 1 - 1) \<noteq> 0))
       (InvalidInput ''non-canonical Base32 trailing bits'')) (\<lambda>_.
     Inr out))"

section \<open>Codes as text\<close>

definition join_code_text :: "JoinCode \<Rightarrow> bytes" where
  "join_code_text code = encode_base32 (to_be_bytes (code_raw code))"

definition join_code_parse :: "bytes \<Rightarrow> JoinCode result" where
  "join_code_parse v =
     and_then (guard_ok (\<not> (length v \<noteq> 26 \<or> \<not> list_all (\<lambda>b. b \<in> set BASE32) v))
       (InvalidInput ''join code must be 26 uppercase RFC 4648 Base32 characters'')) (\<lambda>_.
     and_then (decode_base32 v) (\<lambda>decoded.
     and_then (guard_ok (length decoded = 16) (InvalidInput ''join code must encode exactly 16 bytes'')) (\<lambda>_.
     Inr (JoinCode (from_be_bytes decoded)))))"

definition vault_id_text :: "VaultId \<Rightarrow> bytes" where
  "vault_id_text vault = encode_base32 (to_be_bytes (vault_raw vault))"

definition vault_id_parse :: "bytes \<Rightarrow> VaultId result" where
  "vault_id_parse v =
     and_then (guard_ok (\<not> (length v \<noteq> 52 \<or> \<not> list_all (\<lambda>b. b \<in> set BASE32) v))
       (InvalidInput ''vault id must be 52 uppercase RFC 4648 Base32 characters'')) (\<lambda>_.
     and_then (decode_base32 v) (\<lambda>decoded.
     and_then (guard_ok (length decoded = 32) (InvalidInput ''vault id must encode exactly 32 bytes'')) (\<lambda>_.
     Inr (VaultId (from_be_bytes decoded)))))"

section \<open>Short codes\<close>

definition SHORT_LEN :: nat where "SHORT_LEN = 6"
definition SHORT_CODE_DOMAIN :: bytes where "SHORT_CODE_DOMAIN = ascii ''qfs/v1/short-code/''"

definition short_generate :: "bytes result \<Rightarrow> bytes result" where
  "short_generate random_bytes = and_then random_bytes (\<lambda>bs. Inr (map (\<lambda>b. BASE32 ! unat (b AND 31)) bs))"

text \<open>
  \<open>trim_upper\<close> is \<open>trim().to_uppercase()\<close>, which goes by the tables of Unicode; \<open>trim_upper_ascii\<close> says
  what it does to ASCII text.
\<close>

definition short_normalize :: "(bytes \<Rightarrow> bytes) \<Rightarrow> bytes \<Rightarrow> bytes option" where
  "short_normalize trim_upper v =
     (let upper = trim_upper v in
      if length upper \<noteq> SHORT_LEN \<or> \<not> list_all (\<lambda>b. b \<in> set BASE32) upper then None else Some upper)"

definition short_derive :: "crypto \<Rightarrow> (bytes \<Rightarrow> bytes) \<Rightarrow> bytes \<Rightarrow> JoinCode result" where
  "short_derive c trim_upper v =
     and_then (ok_or (short_normalize trim_upper v) (InvalidInput ''short code must be 6 characters from A-Z2-7'')) (\<lambda>normalized.
     Inr (JoinCode (from_be_bytes (take 16 (to_be_bytes (cr_sha256 c (SHORT_CODE_DOMAIN @ normalized)))))))"

definition ascii_space :: "byte \<Rightarrow> bool" where
  "ascii_space b \<longleftrightarrow> b = 32 \<or> 9 \<le> b \<and> b \<le> 13"

definition ascii_upper :: "byte \<Rightarrow> byte" where
  "ascii_upper b = (if 97 \<le> b \<and> b \<le> 122 then b - 32 else b)"

definition ascii_trim_upper :: "bytes \<Rightarrow> bytes" where
  "ascii_trim_upper v = map ascii_upper (rev (dropWhile ascii_space (rev (dropWhile ascii_space v))))"

definition trim_upper_ascii :: "(bytes \<Rightarrow> bytes) \<Rightarrow> bool" where
  "trim_upper_ascii trim_upper \<longleftrightarrow> (\<forall>v. (\<forall>b \<in> set v. b \<le> 127) \<longrightarrow> trim_upper v = ascii_trim_upper v)"

section \<open>Digits\<close>

lemma BASE32_facts: "length BASE32 = 32" "distinct BASE32"
  by (simp_all add: BASE32_def ascii_def)

lemma position_Some: "position x xs = Some i \<longleftrightarrow> i < length xs \<and> xs ! i = x \<and> (\<forall>j < i. xs ! j \<noteq> x)"
proof (induction xs arbitrary: i)
  case (Cons y ys)
  then show ?case
    by (cases i) (auto simp: less_Suc_eq_0_disj)
qed simp

lemma position_nth: "distinct xs \<Longrightarrow> i < length xs \<Longrightarrow> position (xs ! i) xs = Some i"
  by (auto simp: position_Some nth_eq_iff_index_eq)

lemma position_distinct: "distinct xs \<Longrightarrow> position x xs = Some i \<longleftrightarrow> i < length xs \<and> xs ! i = x"
  by (auto simp: position_Some nth_eq_iff_index_eq)

text \<open>The value of a text read in base 32.\<close>

definition digit_of :: "byte \<Rightarrow> nat" where
  "digit_of b = the (position b BASE32)"

definition text_val :: "bytes \<Rightarrow> nat" where
  "text_val v = foldl (\<lambda>a b. a * 32 + digit_of b) 0 v"

lemma digit_of_nth [simp]: "i < 32 \<Longrightarrow> digit_of (BASE32 ! i) = i"
  using position_nth [OF BASE32_facts(2)] BASE32_facts(1) by (simp add: digit_of_def)

lemma text_val_snoc [simp]: "text_val (v @ [b]) = text_val v * 32 + digit_of b" "text_val [] = 0"
  by (simp_all add: text_val_def)

lemma base32_char: "b \<in> set BASE32 \<Longrightarrow> digit_of b < 32 \<and> BASE32 ! digit_of b = b \<and> position b BASE32 = Some (digit_of b)"
  using position_nth [OF BASE32_facts(2)] BASE32_facts(1) by (auto simp: in_set_conv_nth)

lemma base_split:
  fixes a b m x y :: nat
  assumes "a < m" and "b < m" and "x * m + a = y * m + b"
  shows "x = y \<and> a = b"
proof -
  have "(x * m + a) div m = x" "(y * m + b) div m = y" using assms(1,2) by auto
  with assms(3) show ?thesis by simp
qed

lemma text_val_inject:
  "length v = length v' \<Longrightarrow> set v \<subseteq> set BASE32 \<Longrightarrow> set v' \<subseteq> set BASE32 \<Longrightarrow> text_val v = text_val v' \<Longrightarrow> v = v'"
proof (induction v arbitrary: v' rule: rev_induct)
  case (snoc b v)
  obtain w c where v': "v' = w @ [c]" using snoc.prems(1) by (cases v' rule: rev_cases) auto
  have bc: "digit_of b < 32" "digit_of c < 32" "BASE32 ! digit_of b = b" "BASE32 ! digit_of c = c"
    using snoc.prems(2,3) base32_char by (auto simp: v')
  have "text_val v * 32 + digit_of b = text_val w * 32 + digit_of c"
    using snoc.prems(4) by (simp add: v')
  from base_split [OF bc(1,2) this] have tv: "text_val v = text_val w" and "digit_of b = digit_of c" by blast+
  then have "b = c" using bc(3,4) by metis
  moreover have "v = w"
    by (rule snoc.IH) (use snoc.prems(1-3) tv in \<open>auto simp: v'\<close>)
  ultimately show ?case by (simp only: v')
qed simp

lemma be_val_inject: "length v = length v' \<Longrightarrow> be_val v = be_val v' \<Longrightarrow> v = v'"
  by (metis be_bytes_be_val)


section \<open>What the shift registers compute\<close>

lemma and_31: "unat ((w :: 16 word) AND 31) = unat w mod 32"
proof -
  have "w AND 31 = take_bit 5 w" by (simp add: take_bit_eq_mask mask_eq_exp_minus_1)
  then have "unat (w AND 31) = take_bit 5 (unat w)" by (simp only: unsigned_take_bit_eq)
  then show ?thesis by (simp add: take_bit_eq_mod)
qed

lemma unat_16_less: "unat (w :: 16 word) < 65536"
proof -
  have "unat w < 2 ^ LENGTH(16)" by (rule unsigned_less)
  then show ?thesis by simp
qed

lemma unat_drop: "unat (drop_bit n (w :: 16 word)) = unat w div 2 ^ n"
proof -
  have "unat (drop_bit n w) = drop_bit n (take_bit 16 (unat w))" by (simp only: unsigned_drop_bit_eq) simp
  also have "take_bit 16 (unat w) = unat w" by (simp add: take_bit_nat_eq_self_iff unat_16_less)
  finally show ?thesis by (simp add: drop_bit_eq_div)
qed

lemma unat_push: "unat (push_bit n (w :: 16 word)) = (unat w * 2 ^ n) mod 65536"
proof -
  have "unat (push_bit n w) = take_bit 16 (push_bit n (unat w))" by (simp only: unsigned_push_bit_eq) simp
  then show ?thesis by (simp add: push_bit_eq_mult take_bit_eq_mod)
qed

lemma unat_shift_in:
  assumes "unat (d :: 16 word) < 2 ^ n"
  shows "unat (push_bit n w OR d) = (unat w * 2 ^ n) mod 65536 + unat d"
proof -
  have "\<not> bit (unat d) i" if "n \<le> i" for i
    using assms that by (metis bit_take_bit_iff linorder_not_le take_bit_nat_eq_self)
  then have "\<not> bit (take_bit 16 (push_bit n (unat w))) i \<or> \<not> bit (unat d) i" for i
    by (auto simp: bit_take_bit_iff bit_push_bit_iff)
  then have "take_bit 16 (push_bit n (unat w)) + unat d = take_bit 16 (push_bit n (unat w)) OR unat d"
    by (rule disjunctive_add)
  moreover have "unat (push_bit n w OR d) = take_bit 16 (push_bit n (unat w)) OR unat d"
    by (simp add: unsigned_or_eq unsigned_push_bit_eq)
  ultimately show ?thesis by (simp add: push_bit_eq_mult take_bit_eq_mod)
qed

lemma shift_in_mod:
  assumes "unat (d :: 16 word) < 2 ^ n" and "n + k \<le> 16"
  shows "unat (push_bit n w OR d) mod 2 ^ (n + k) = (unat w mod 2 ^ k) * 2 ^ n + unat d"
proof -
  have "(65536 :: nat) = 2 ^ (n + k) * 2 ^ (16 - (n + k))"
    using assms(2) by (simp flip: power_add)
  then have "(2 :: nat) ^ (n + k) dvd 65536" by (metis dvd_triv_left)
  then have "((unat w * 2 ^ n) mod 65536) mod 2 ^ (n + k) = (unat w * 2 ^ n) mod 2 ^ (n + k)"
    by (rule mod_mod_cancel)
  also have "\<dots> = (unat w mod 2 ^ k) * 2 ^ n"
    by (simp only: mult_mod_left power_add mult.commute [of "2 ^ n" "2 ^ k"])
  finally have e: "((unat w * 2 ^ n) mod 65536) mod 2 ^ (n + k) = (unat w mod 2 ^ k) * 2 ^ n" .
  have "(unat w mod 2 ^ k) * 2 ^ n + unat d < (unat w mod 2 ^ k + 1) * 2 ^ n"
    using assms(1) by simp
  also have "\<dots> \<le> 2 ^ k * 2 ^ n"
    by (intro mult_le_mono1) (simp add: Suc_leI)
  finally have "(unat w mod 2 ^ k) * 2 ^ n + unat d < 2 ^ (n + k)" by (simp add: power_add mult.commute)
  then show ?thesis
    unfolding unat_shift_in [OF assms(1)] by (metis e mod_add_left_eq mod_less)
qed

section \<open>Encoding and decoding as numbers\<close>

text \<open>The digits written so far and the register's pending bits make up the bytes read so far.\<close>

definition encodes :: "bytes \<Rightarrow> 16 word \<times> nat \<times> bytes \<Rightarrow> nat \<Rightarrow> bool" where
  "encodes bs s bound \<longleftrightarrow> (case s of (bits, available, out) \<Rightarrow> available < bound \<and> available \<le> 16 \<and>
     set out \<subseteq> set BASE32 \<and> length out * 5 + available = length bs * 8 \<and>
     text_val out * 2 ^ available + unat bits mod 2 ^ available = be_val bs)"

lemma emit_step:
  assumes "encodes bs (bits, available, out) 17" and "5 \<le> available"
  shows "encodes bs (bits, available - 5, out @ [BASE32 ! unat (drop_bit (available - 5) bits AND 31)]) 17"
proof -
  obtain k where k: "available = k + 5" using assms(2) by (metis add.commute le_Suc_ex)
  let ?d = "unat bits div 2 ^ k mod 32"
  have d: "unat (drop_bit k bits AND 31) = ?d" by (simp add: and_31 unat_drop)
  have "unat bits mod 2 ^ (k + 5) = ?d * 2 ^ k + unat bits mod 2 ^ k"
    by (simp add: power_add mod_mult2_eq mult.commute)
  then have "text_val out * 2 ^ (k + 5) + unat bits mod 2 ^ (k + 5) = (text_val out * 32 + ?d) * 2 ^ k + unat bits mod 2 ^ k"
    by (simp add: power_add algebra_simps)
  moreover have "?d < 32" by simp
  ultimately show ?thesis
    using assms(1) BASE32_facts(1) by (auto simp: encodes_def k d)
qed

lemma emit_digits_encodes:
  assumes "encodes bs (bits, available, out) 17"
  shows "case emit_digits bits available out of (available, out) \<Rightarrow> encodes bs (bits, available, out) 5"
  using assms
proof (induction bits available out rule: emit_digits.induct)
  case (1 bits available out)
  show ?case
  proof (cases "available \<ge> 5")
    case True
    then show ?thesis
      using 1(1) [OF True emit_step [OF 1(2) True]] by (subst emit_digits.simps) simp
  next
    case False
    then show ?thesis using 1(2) by (subst emit_digits.simps) (simp add: encodes_def)
  qed
qed

lemma encode_byte_encodes:
  assumes "encodes bs s 5"
  shows "encodes (bs @ [b]) (encode_byte b s) 5"
proof -
  obtain bits available out where s: "s = (bits, available, out)" by (cases s)
  let ?bits = "push_bit 8 bits OR ucast b"
  have av: "available < 5" using assms by (simp add: s encodes_def)
  have b: "unat (ucast b :: 16 word) = unat b" using unat_byte_less [of b] by (simp add: unsigned_ucast_eq take_bit_nat_eq_self_iff del: unat_byte_less)
  have "unat ?bits mod 2 ^ (8 + available) = (unat bits mod 2 ^ available) * 256 + unat b"
    using shift_in_mod [of "ucast b" 8 available bits] av by (simp add: b)
  then have "text_val out * 2 ^ (available + 8) + unat ?bits mod 2 ^ (available + 8) =
      (text_val out * 2 ^ available + unat bits mod 2 ^ available) * 256 + unat b"
    by (simp only: add.commute [of available] power_add) (simp add: add_mult_distrib)
  then have "encodes (bs @ [b]) (?bits, available + 8, out) 17"
    using assms av by (simp add: s encodes_def)
  from emit_digits_encodes [OF this] show ?thesis
    by (simp add: s encode_byte_def Let_def split: prod.splits)
qed


definition base32_of :: "bytes \<Rightarrow> bytes \<Rightarrow> nat \<Rightarrow> bool" where
  "base32_of bs v k \<longleftrightarrow> set v \<subseteq> set BASE32 \<and> length v * 5 = length bs * 8 + k \<and> text_val v = be_val bs * 2 ^ k"

lemma encode_base32_spec: "\<exists>k < 5. base32_of bs (encode_base32 bs) k"
proof -
  have "encodes xs (fold encode_byte xs (0, 0, [])) 5" for xs
    by (induction xs rule: rev_induct) (simp add: encodes_def, simp add: encode_byte_encodes)
  from this [of bs] obtain bits available out where f: "fold encode_byte bs (0, 0, []) = (bits, available, out)"
    and e: "encodes bs (bits, available, out) 5" by (cases "fold encode_byte bs (0, 0, [])") auto
  show ?thesis
  proof (cases "available = 0")
    case True
    with e f show ?thesis by (intro exI [of _ 0]) (simp add: encodes_def encode_base32_def base32_of_def)
  next
    case False
    have av: "available < 5" and val: "text_val out * 2 ^ available + unat bits mod 2 ^ available = be_val bs"
      using e by (simp_all add: encodes_def)
    let ?k = "5 - available"
    let ?d = "(unat bits mod 2 ^ available) * 2 ^ ?k"
    have two: "(2 :: nat) ^ available * 2 ^ ?k = 32"
      using av by (simp flip: power_add)
    have "unat (push_bit ?k bits AND 31) = (unat bits * 2 ^ ?k) mod 65536 mod 32"
      by (simp add: and_31 unat_push)
    also have "\<dots> = (unat bits * 2 ^ ?k) mod 32" by (simp add: mod_mod_cancel)
    also have "\<dots> = ?d"
      by (simp only: mult_mod_left two)
    finally have d: "unat (push_bit ?k bits AND 31) = ?d" .
    have "?d < 2 ^ available * 2 ^ ?k" by (rule mult_strict_right_mono) simp_all
    then have d32: "?d < 32" by (simp only: two)
    have v: "encode_base32 bs = out @ [BASE32 ! ?d]"
      using False f d by (simp add: encode_base32_def)
    have "text_val (encode_base32 bs) = text_val out * (2 ^ available * 2 ^ ?k) + ?d"
      using d32 by (simp add: v two)
    also have "\<dots> = be_val bs * 2 ^ ?k"
      by (simp add: val [symmetric] add_mult_distrib)
    finally have "text_val (encode_base32 bs) = be_val bs * 2 ^ ?k" .
    moreover have "set (encode_base32 bs) \<subseteq> set BASE32"
      using e d32 BASE32_facts(1) by (auto simp: v encodes_def)
    moreover have "length (encode_base32 bs) * 5 = length bs * 8 + ?k"
    proof -
      have "length out * 5 + available = length bs * 8" using e by (simp add: encodes_def)
      then show ?thesis using av by (simp add: v)
    qed
    ultimately have "base32_of bs (encode_base32 bs) ?k" by (simp add: base32_of_def)
    with False show ?thesis by (intro exI [of _ ?k]) simp
  qed
qed

definition decodes :: "bytes \<Rightarrow> 16 word \<times> nat \<times> bytes \<Rightarrow> bool" where
  "decodes v s \<longleftrightarrow> (case s of (bits, available, out) \<Rightarrow> available < 8 \<and> length v * 5 = length out * 8 + available \<and>
     text_val v = be_val out * 2 ^ available + unat bits mod 2 ^ available)"

lemma decode_char_decodes:
  assumes "decodes v s" and "b \<in> set BASE32"
  shows "\<exists>s'. decode_char b s = Inr s' \<and> decodes (v @ [b]) s'"
proof -
  obtain bits available out where s: "s = (bits, available, out)" by (cases s)
  have d: "digit_of b < 32" "position b BASE32 = Some (digit_of b)" using base32_char [OF assms(2)] by auto
  let ?bits = "push_bit 5 bits OR of_nat (digit_of b)" and ?n = "available + 5"
  have av: "available < 8" and val: "text_val v = be_val out * 2 ^ available + unat bits mod 2 ^ available"
    and len: "length v * 5 = length out * 8 + available"
    using assms(1) by (auto simp: s decodes_def)
  have "unat (of_nat (digit_of b) :: 16 word) = digit_of b"
    using d(1) by (simp add: unat_of_nat take_bit_nat_eq_self_iff)
  then have reg: "unat ?bits mod 2 ^ (5 + available) = (unat bits mod 2 ^ available) * 32 + digit_of b"
    using shift_in_mod [of "of_nat (digit_of b)" 5 available bits] av d(1) by simp
  have all: "text_val (v @ [b]) = be_val out * 2 ^ ?n + unat ?bits mod 2 ^ ?n"
    by (simp only: add.commute [of available] reg) (simp add: val power_add add_mult_distrib)
  show ?thesis
  proof (cases "?n \<ge> 8")
    case False
    then show ?thesis using all av len by (auto simp: s decode_char_def d(2) Let_def decodes_def)
  next
    case True
    then obtain k where k: "?n = k + 8" by (metis add.commute le_Suc_ex)
    let ?c = "ucast (drop_bit k ?bits) :: byte"
    have "unat ?c = unat ?bits div 2 ^ k mod 256"
      by (simp only: unsigned_ucast_eq take_bit_eq_mod unat_drop) simp
    then have "unat ?bits mod 2 ^ ?n = unat ?c * 2 ^ k + unat ?bits mod 2 ^ k"
      by (simp add: k power_add mod_mult2_eq mult.commute)
    then have "text_val (v @ [b]) = be_val (out @ [?c]) * 2 ^ k + unat ?bits mod 2 ^ k"
      unfolding all by (simp add: k power_add add_mult_distrib)
    then have "decodes (v @ [b]) (?bits, k, out @ [?c])"
      using k av len by (simp add: decodes_def)
    moreover have "?n - 8 = k" using k by simp
    ultimately show ?thesis
      using True by (simp add: s decode_char_def d(2) Let_def)
  qed
qed

lemma decode_loop:
  "set v \<subseteq> set BASE32 \<Longrightarrow> \<exists>s. fold_ok decode_char v (0, 0, []) = Inr s \<and> decodes v s"
proof (induction v rule: rev_induct)
  case (snoc b v)
  then obtain s where "fold_ok decode_char v (0, 0, []) = Inr s" "decodes v s" by auto
  with decode_char_decodes [of v s b] snoc.prems show ?case by (auto simp: fold_ok_append)
qed (simp add: decodes_def)

lemma decode_chars: "fold_ok decode_char v s = Inr t \<Longrightarrow> set v \<subseteq> set BASE32"
proof (induction v arbitrary: s)
  case (Cons b v)
  obtain s' where "decode_char b s = Inr s'" "fold_ok decode_char v s' = Inr t" using Cons.prems by auto
  moreover from this(1) have "position b BASE32 \<noteq> None" by (cases s) (auto simp: decode_char_def)
  then have "b \<in> set BASE32" by (auto simp: position_Some)
  ultimately show ?case using Cons.IH by simp
qed simp

lemma low_bits_zero: "k < 8 \<Longrightarrow> (bits :: 16 word) AND (push_bit k 1 - 1) = 0 \<longleftrightarrow> unat bits mod 2 ^ k = 0"
proof -
  have "bits AND (push_bit k 1 - 1) = take_bit k bits"
    by (simp add: take_bit_eq_mask mask_eq_exp_minus_1 push_bit_of_1)
  moreover have "unat (take_bit k bits) = take_bit k (unat bits)" by (simp only: unsigned_take_bit_eq)
  then have "unat (take_bit k bits) = unat bits mod 2 ^ k" by (simp only: take_bit_eq_mod [where 'a = nat])
  ultimately show ?thesis by (metis unat_eq_0)
qed

lemma decode_base32_iff: "decode_base32 v = Inr bs \<longleftrightarrow> (\<exists>k < 8. base32_of bs v k)"
proof (cases "set v \<subseteq> set BASE32")
  case False
  then show ?thesis by (auto simp: decode_base32_def base32_of_def dest: decode_chars)
next
  case True
  then obtain bits available out where f: "fold_ok decode_char v (0, 0, []) = Inr (bits, available, out)"
    and d: "available < 8" "length v * 5 = length out * 8 + available"
      "text_val v = be_val out * 2 ^ available + unat bits mod 2 ^ available"
    using decode_loop [OF True] by (auto simp: decodes_def)
  have dec: "decode_base32 v = Inr bs \<longleftrightarrow> unat bits mod 2 ^ available = 0 \<and> bs = out"
    using low_bits_zero [OF d(1), of bits] by (auto simp: decode_base32_def f)
  show ?thesis
  proof
    assume "decode_base32 v = Inr bs"
    with dec d True show "\<exists>k < 8. base32_of bs v k" by (auto simp: base32_of_def intro!: exI [of _ available])
  next
    assume "\<exists>k < 8. base32_of bs v k"
    then obtain k where k: "k < 8" "length v * 5 = length bs * 8 + k" "text_val v = be_val bs * 2 ^ k"
      by (auto simp: base32_of_def)
    have "length out = length bs \<and> available = k"
      by (rule base_split [OF d(1) k(1)]) (use d(2) k(2) in simp)
    then have l: "length out = length bs" and a: "available = k" by blast+
    have "unat bits mod 2 ^ k < 2 ^ k" "0 < (2 :: nat) ^ k" by simp_all
    from base_split [OF this] d(3) [unfolded a] k(3) have "be_val out = be_val bs \<and> unat bits mod 2 ^ k = 0"
      by (metis add.right_neutral)
    then show "decode_base32 v = Inr bs" using be_val_inject [OF l] by (simp add: dec a)
  qed
qed

text \<open>Every byte string is decoded from its text, and a text with fewer than five padding bits is the one its bytes have.\<close>

lemma decode_encode_base32: "decode_base32 (encode_base32 bs) = Inr bs"
proof -
  obtain k where "k < 5" "base32_of bs (encode_base32 bs) k" using encode_base32_spec by blast
  then show ?thesis by (auto simp: decode_base32_iff intro!: exI [of _ k])
qed

lemma encode_decode_base32:
  assumes "decode_base32 v = Inr bs" and "length v * 5 < length bs * 8 + 5"
  shows "encode_base32 bs = v"
proof -
  obtain k where k: "base32_of bs v k" "k < 5" using assms by (auto simp: decode_base32_iff base32_of_def)
  obtain j where j: "base32_of bs (encode_base32 bs) j" "j < 5" using encode_base32_spec by blast
  have "length (encode_base32 bs) * 5 + k = length v * 5 + j"
    using k(1) j(1) by (simp add: base32_of_def)
  with base_split [of k 5 j "length (encode_base32 bs)" "length v"] k(2) j(2)
  have "length (encode_base32 bs) = length v" "k = j" by auto
  with k(1) j(1) show ?thesis by (intro text_val_inject) (auto simp: base32_of_def)
qed

lemma join_code_text_iff: "join_code_parse v = Inr code \<longleftrightarrow> v = join_code_text code"
proof
  assume "join_code_parse v = Inr code"
  then obtain bs where "length v = 26" "decode_base32 v = Inr bs" "length bs = 16" "code = JoinCode (from_be_bytes bs)"
    by (auto simp: join_code_parse_def)
  then show "v = join_code_text code" by (simp add: join_code_text_def encode_decode_base32)
next
  assume v: "v = join_code_text code"
  obtain k where "k < 5" "base32_of (to_be_bytes (code_raw code)) v k"
    using encode_base32_spec [of "to_be_bytes (code_raw code)"] by (auto simp: v join_code_text_def)
  then have "length v = 26" "set v \<subseteq> set BASE32" by (auto simp: base32_of_def)
  then show "join_code_parse v = Inr code"
    by (auto simp: join_code_parse_def v join_code_text_def decode_encode_base32 list_all_iff)
qed

lemma vault_id_text_iff: "vault_id_parse v = Inr vault \<longleftrightarrow> v = vault_id_text vault"
proof
  assume "vault_id_parse v = Inr vault"
  then obtain bs where "length v = 52" "decode_base32 v = Inr bs" "length bs = 32" "vault = VaultId (from_be_bytes bs)"
    by (auto simp: vault_id_parse_def)
  then show "v = vault_id_text vault" by (simp add: vault_id_text_def encode_decode_base32)
next
  assume v: "v = vault_id_text vault"
  obtain k where "k < 5" "base32_of (to_be_bytes (vault_raw vault)) v k"
    using encode_base32_spec [of "to_be_bytes (vault_raw vault)"] by (auto simp: v vault_id_text_def)
  then have "length v = 52" "set v \<subseteq> set BASE32" by (auto simp: base32_of_def)
  then show "vault_id_parse v = Inr vault"
    by (auto simp: vault_id_parse_def v vault_id_text_def decode_encode_base32 list_all_iff)
qed


section \<open>Short codes\<close>

lemma base32_plain: "b \<in> set BASE32 \<Longrightarrow> b \<le> 127 \<and> \<not> ascii_space b \<and> ascii_upper b = b"
proof -
  have "list_all (\<lambda>b. b \<le> 127 \<and> \<not> ascii_space b \<and> ascii_upper b = b) BASE32"
    by (simp add: BASE32_def ascii_def ascii_space_def ascii_upper_def)
  then show "b \<in> set BASE32 \<Longrightarrow> b \<le> 127 \<and> \<not> ascii_space b \<and> ascii_upper b = b" by (simp add: list_all_iff)
qed

lemma dropWhile_none: "(\<And>x. x \<in> set xs \<Longrightarrow> \<not> P x) \<Longrightarrow> dropWhile P xs = xs"
  by (cases xs) auto

lemma trim_upper_canonical:
  assumes "trim_upper_ascii tu" and "set v \<subseteq> set BASE32"
  shows "tu v = v"
proof -
  have "tu v = ascii_trim_upper v"
    using assms base32_plain by (auto simp: trim_upper_ascii_def)
  moreover have "dropWhile ascii_space v = v" "dropWhile ascii_space (rev v) = rev v"
    using assms(2) base32_plain by (auto intro!: dropWhile_none)
  moreover have "map ascii_upper v = v"
    using assms(2) base32_plain by (intro map_idI) auto
  ultimately show ?thesis by (simp add: ascii_trim_upper_def)
qed

lemma short_normalize_canonical:
  assumes "trim_upper_ascii tu"
  shows "short_normalize tu v = Some v \<longleftrightarrow> length v = 6 \<and> set v \<subseteq> set BASE32"
proof
  assume "short_normalize tu v = Some v"
  then show "length v = 6 \<and> set v \<subseteq> set BASE32"
    by (auto simp: short_normalize_def Let_def SHORT_LEN_def list_all_iff split: if_splits)
next
  assume "length v = 6 \<and> set v \<subseteq> set BASE32"
  with trim_upper_canonical [OF assms, of v] show "short_normalize tu v = Some v"
    by (auto simp: short_normalize_def Let_def SHORT_LEN_def list_all_iff)
qed

lemma short_generate_normal:
  assumes "trim_upper_ascii tu" and "short_generate (Inr bs) = Inr v" and "length bs = 6"
  shows "short_normalize tu v = Some v" and "is_ok (short_derive c tu v)"
proof -
  have "unat (b AND 31) < 32" for b :: byte
    using word_and_le1 [of b 31] by (simp add: word_le_nat_alt)
  then have "set v \<subseteq> set BASE32" "length v = 6"
    using assms(2,3) BASE32_facts(1) by (auto simp: short_generate_def)
  then show "short_normalize tu v = Some v" by (simp add: short_normalize_canonical [OF assms(1)])
  then show "is_ok (short_derive c tu v)" by (simp add: short_derive_def)
qed

text \<open>What is typed counts only up to its canonical form.\<close>

lemma short_derive_typed: "short_normalize tu v = Some w \<Longrightarrow> short_normalize tu w = Some w \<Longrightarrow> short_derive c tu v = short_derive c tu w"
  by (simp add: short_derive_def)

end
