(* ===== verification/Registry.thy ===== *)
theory Registry
  imports Durable Locate
begin

text \<open>
  The vaults of a node on disk, \<open>backend/src/store/vaults.rs\<close>: the layout with one directory per vault under
  \<open>vaults\<close>, its creation and discovery, and the migration of the older layout, in which the data directory
  itself is the only vault. An operation runs on the data directory under a list of outcomes, as the
  operations of one vault directory do. The check that a path lies under the keystore's lock is a parameter,
  \<open>lock\<close>: \<open>None\<close> stands for the data directory and \<open>Some vault\<close> for the directory of a vault.
\<close>

section \<open>Names\<close>

definition HEX_DIGITS :: bytes where "HEX_DIGITS = ascii ''0123456789abcdef''"

definition hex :: "VaultId \<Rightarrow> bytes" where
  "hex vault = concat (map (\<lambda>b. [HEX_DIGITS ! unat (drop_bit 4 b), HEX_DIGITS ! unat (b AND 15)]) (to_be_bytes (vault_raw vault)))"

definition hex_digit :: "byte \<Rightarrow> byte result" where
  "hex_digit b =
     (if 48 \<le> b \<and> b \<le> 57 then Inr (b - 48)
      else if 97 \<le> b \<and> b \<le> 102 then Inr (b - 97 + 10)
      else Inl (InvalidInput ''invalid vault directory name''))"

definition parse_hex_vault_id :: "bytes \<Rightarrow> VaultId result" where
  "parse_hex_vault_id v =
     and_then (guard_ok (length v = 64) (InvalidInput ''invalid vault directory name'')) (\<lambda>_.
     and_then (map_ok (\<lambda>i.
         and_then (hex_digit (v ! (i * 2))) (\<lambda>high.
         and_then (hex_digit (v ! (i * 2 + 1))) (\<lambda>low.
         Inr (push_bit 4 high OR low)))) [0 ..< 32]) (\<lambda>bs.
     Inr (VaultId (from_be_bytes bs))))"

section \<open>The migration marker\<close>

definition encode_vault_migration :: "VaultId \<Rightarrow> byte \<Rightarrow> bytes result" where
  "encode_vault_migration vault phase =
     and_then (guard_ok (\<not> phase > 3) (InvalidInput ''invalid vault migration phase'')) (\<lambda>_.
     Inr (to_be_bytes (vault_raw vault) @ [phase]))"

definition decode_vault_migration :: "bytes \<Rightarrow> (VaultId \<times> byte) result" where
  "decode_vault_migration bs =
     and_then (guard_ok (\<not> (length bs \<noteq> 33 \<or> bs ! 32 > 3)) (InvalidInput ''invalid vault migration marker'')) (\<lambda>_.
     Inr (VaultId (from_be_bytes (take 32 bs)), bs ! 32))"

section \<open>The data directory\<close>

record vault_dir =
  vd_files :: dir
  vd_has_chunks :: bool

datatype vault_entry = VaultDir vault_dir | OtherEntry

datatype vaults_root = NoVaults | NotADirectory | Vaults "(bytes \<times> vault_entry) list"

record data_dir =
  dd_top :: vault_dir
  dd_marker :: "bytes option"
  dd_vaults :: vaults_root

definition empty_vault :: vault_dir where
  "empty_vault = \<lparr>vd_files = \<lparr>d_admission = None, d_replica = None, d_journal = None, d_chunks = []\<rparr>, vd_has_chunks = False\<rparr>"

definition get_vault :: "bytes \<Rightarrow> data_dir \<Rightarrow> vault_entry option" where
  "get_vault name d = (case dd_vaults d of Vaults es \<Rightarrow> map_of es name | _ \<Rightarrow> None)"

definition set_vault :: "bytes \<Rightarrow> vault_dir \<Rightarrow> data_dir \<Rightarrow> data_dir" where
  "set_vault name v d = (case dd_vaults d of
       Vaults es \<Rightarrow> d\<lparr>dd_vaults := Vaults (AList.update name (VaultDir v) es)\<rparr>
     | _ \<Rightarrow> d)"

type_synonym 'a rio = "outcome list \<times> data_dir \<Rightarrow> 'a run \<times> outcome list \<times> data_dir"

definition r_ret :: "'a result \<Rightarrow> 'a rio" where
  "r_ret x s = (Ret x, s)"

definition r_bind :: "'a rio \<Rightarrow> ('a \<Rightarrow> 'b rio) \<Rightarrow> 'b rio" where
  "r_bind p f s = (case p s of
       (Ret (Inr x), s') \<Rightarrow> f x s'
     | (Ret (Inl e), s') \<Rightarrow> (Ret (Inl e), s')
     | (Crashed, s') \<Rightarrow> (Crashed, s'))"

definition r_op :: "(data_dir \<Rightarrow> data_dir) \<Rightarrow> unit rio" where
  "r_op f s = (case s of (os, d) \<Rightarrow>
     (case os of
        [] \<Rightarrow> (Ret (Inr ()), [], f d)
      | Done # os \<Rightarrow> (Ret (Inr ()), os, f d)
      | FailBefore # os \<Rightarrow> (Ret (Inl Io), os, d)
      | FailAfter # os \<Rightarrow> (Ret (Inl Io), os, f d)
      | CrashBefore # os \<Rightarrow> (Crashed, os, d)
      | CrashAfter # os \<Rightarrow> (Crashed, os, f d)))"

definition r_read :: "(data_dir \<Rightarrow> 'a result) \<Rightarrow> 'a rio" where
  "r_read f = r_bind (r_op (\<lambda>d. d)) (\<lambda>_ s. (Ret (f (snd s)), s))"

text \<open>Making a directory entry durable, or setting permissions: nothing the model sees.\<close>

abbreviation r_sync :: "unit rio" where
  "r_sync \<equiv> r_op (\<lambda>d. d)"

text \<open>Operations on the files of the data directory itself, and of one vault.\<close>

definition in_top :: "'a io \<Rightarrow> 'a rio" where
  "in_top p s = (case s of (os, d) \<Rightarrow> (case p (os, vd_files (dd_top d)) of
     (r, os', f) \<Rightarrow> (r, os', d\<lparr>dd_top := (dd_top d)\<lparr>vd_files := f\<rparr>\<rparr>)))"

definition in_vault :: "bytes \<Rightarrow> 'a io \<Rightarrow> 'a rio" where
  "in_vault name p s = (case s of (os, d) \<Rightarrow> (case get_vault name d of
       Some (VaultDir v) \<Rightarrow> (case p (os, vd_files v) of (r, os', f) \<Rightarrow> (r, os', set_vault name (v\<lparr>vd_files := f\<rparr>) d))
     | _ \<Rightarrow> (Ret (Inl Io), s)))"

section \<open>Directories\<close>

definition ensure_vaults_root :: "unit rio" where
  "ensure_vaults_root =
     r_bind (r_read (\<lambda>d. Inr (dd_vaults d))) (\<lambda>root.
     case root of
       Vaults _ \<Rightarrow> r_sync
     | NotADirectory \<Rightarrow> r_ret (Inl (InvalidInput ''vault path must be a real directory''))
     | NoVaults \<Rightarrow>
         r_bind (r_op (\<lambda>d. d\<lparr>dd_vaults := Vaults []\<rparr>)) (\<lambda>_.
         r_bind r_sync (\<lambda>_. r_sync)))"

definition ensure_vault :: "bytes \<Rightarrow> unit rio" where
  "ensure_vault name =
     r_bind (r_read (\<lambda>d. Inr (get_vault name d))) (\<lambda>entry.
     case entry of
       Some (VaultDir _) \<Rightarrow> r_sync
     | Some OtherEntry \<Rightarrow> r_ret (Inl (InvalidInput ''vault path must be a real directory''))
     | None \<Rightarrow>
         r_bind (r_op (set_vault name empty_vault)) (\<lambda>_.
         r_bind r_sync (\<lambda>_. r_sync)))"

definition prepare_vault_directory :: "(VaultId option \<Rightarrow> unit result) \<Rightarrow> VaultId \<Rightarrow> unit rio" where
  "prepare_vault_directory lock vault =
     r_bind (r_ret (lock None)) (\<lambda>_.
     r_bind ensure_vaults_root (\<lambda>_.
     r_bind (ensure_vault (hex vault)) (\<lambda>_.
     r_ret (lock (Some vault)))))"

definition create_vault_dir_with_code ::
  "(VaultId option \<Rightarrow> unit result) \<Rightarrow> VaultId result \<Rightarrow> PeerId result \<Rightarrow> JoinCode \<Rightarrow> VaultId rio" where
  "create_vault_dir_with_code lock generated me code =
     r_bind (r_ret generated) (\<lambda>vault.
     r_bind (r_ret me) (\<lambda>me.
     let metadata = \<lparr>vm_vault_id = vault, vm_join_code = code, vm_issued_at = 0, vm_members = [me], vm_denied = []\<rparr> in
     r_bind (prepare_vault_directory lock vault) (\<lambda>_.
     r_bind (in_vault (hex vault) (io_read (\<lambda>d. Inr (d_admission d \<noteq> None)))) (\<lambda>admission.
     r_bind (if admission then r_ret (Inr True) else in_vault (hex vault) (io_read (\<lambda>d. Inr (d_replica d \<noteq> None)))) (\<lambda>taken.
     r_bind (r_ret (guard_ok (\<not> taken) (State ''generated vault already exists''))) (\<lambda>_.
     r_bind (r_ret (encode_vault_metadata metadata)) (\<lambda>bs.
     r_bind (in_vault (hex vault) (atomic_private_write Admission bs)) (\<lambda>_.
     r_ret (Inr vault)))))))))"

definition create_vault_dir ::
  "(VaultId option \<Rightarrow> unit result) \<Rightarrow> JoinCode result \<Rightarrow> VaultId result \<Rightarrow> PeerId result \<Rightarrow> (VaultId \<times> JoinCode) rio" where
  "create_vault_dir lock code generated me =
     r_bind (r_ret code) (\<lambda>code.
     r_bind (create_vault_dir_with_code lock generated me code) (\<lambda>vault.
     r_ret (Inr (vault, code))))"

section \<open>Migration\<close>

definition verify_replica :: "(bytes \<Rightarrow> 256 word) \<Rightarrow> VaultId \<Rightarrow> unit io" where
  "verify_replica sha256 vault =
     io_bind (read_private Replica) (\<lambda>bs.
     io_bind (io_ret (ok_or bs (State ''vault replica is missing''))) (\<lambda>bs.
     io_bind (io_ret (decode_replica sha256 bs (FileId (vault_raw vault)))) (\<lambda>_.
     io_ret (Inr ()))))"

text \<open>What a phase moves: the snapshot, the directory of chunks, the admission file.\<close>

definition present :: "nat \<Rightarrow> vault_dir \<Rightarrow> bool" where
  "present phase v =
     (if phase = 0 then d_replica (vd_files v) \<noteq> None
      else if phase = 1 then vd_has_chunks v
      else d_admission (vd_files v) \<noteq> None)"

definition take_item :: "nat \<Rightarrow> vault_dir \<Rightarrow> vault_dir \<Rightarrow> vault_dir" where
  "take_item phase source target =
     (if phase = 0 then target\<lparr>vd_files := (vd_files target)\<lparr>d_replica := d_replica (vd_files source)\<rparr>\<rparr>
      else if phase = 1 then target\<lparr>vd_files := (vd_files target)\<lparr>d_chunks := d_chunks (vd_files source)\<rparr>, vd_has_chunks := vd_has_chunks source\<rparr>
      else target\<lparr>vd_files := (vd_files target)\<lparr>d_admission := d_admission (vd_files source)\<rparr>\<rparr>)"

definition rename_item :: "bytes \<Rightarrow> nat \<Rightarrow> data_dir \<Rightarrow> data_dir" where
  "rename_item name phase d = (case get_vault name d of
       Some (VaultDir target) \<Rightarrow>
         (set_vault name (take_item phase (dd_top d) target) d)\<lparr>dd_top := take_item phase empty_vault (dd_top d)\<rparr>
     | _ \<Rightarrow> d)"

definition move_once :: "bytes \<Rightarrow> nat \<Rightarrow> unit rio" where
  "move_once name phase =
     r_bind (r_read (\<lambda>d. Inr (present phase (dd_top d)))) (\<lambda>source_exists.
     r_bind (r_read (\<lambda>d. Inr (case get_vault name d of Some (VaultDir t) \<Rightarrow> present phase t | _ \<Rightarrow> False))) (\<lambda>target_exists.
     if source_exists \<and> \<not> target_exists then
       r_bind (r_op (rename_item name phase)) (\<lambda>_. r_bind r_sync (\<lambda>_. r_sync))
     else if \<not> source_exists \<and> target_exists then r_bind r_sync (\<lambda>_. r_sync)
     else if source_exists \<and> target_exists then
       r_ret (Inl (State ''vault migration source and destination both exist''))
     else r_ret (Inl (State ''vault migration source and destination are missing''))))"

definition write_marker :: "VaultId \<Rightarrow> nat \<Rightarrow> unit rio" where
  "write_marker vault phase =
     r_bind (r_ret (encode_vault_migration vault (of_nat phase))) (\<lambda>bs.
     r_op (\<lambda>d. d\<lparr>dd_marker := Some bs\<rparr>))"

fun run_phases :: "VaultId \<Rightarrow> nat list \<Rightarrow> unit rio" where
  "run_phases vault [] = r_ret (Inr ())"
| "run_phases vault (phase # phases) =
     r_bind (move_once (hex vault) phase) (\<lambda>_.
     r_bind (write_marker vault (phase + 1)) (\<lambda>_.
     run_phases vault phases))"

definition read_marker :: "bytes option rio" where
  "read_marker = r_read (\<lambda>d.
     case dd_marker d of
       None \<Rightarrow> Inr None
     | Some bs \<Rightarrow>
         if length bs > MAX_STORE_BYTES then Inl (InvalidInput ''keystore file is too large'') else Inr (Some bs))"

definition remove_and_sync :: "unit rio" where
  "remove_and_sync s =
     r_bind (r_op (\<lambda>d. d\<lparr>dd_marker := None\<rparr>)) (\<lambda>_.
     if dd_marker (snd s) = None then r_ret (Inr ()) else r_sync) s"

definition resume_migration :: "(bytes \<Rightarrow> 256 word) \<Rightarrow> (VaultId option \<Rightarrow> unit result) \<Rightarrow> unit rio" where
  "resume_migration sha256 lock =
     r_bind (r_ret (lock None)) (\<lambda>_.
     r_bind (in_top (recover_admission_transaction sha256)) (\<lambda>_.
     r_bind read_marker (\<lambda>marker.
     case marker of
       None \<Rightarrow> r_ret (Inr ())
     | Some bs \<Rightarrow>
         r_bind (r_ret (decode_vault_migration bs)) (\<lambda>(vault, phase).
         r_bind (prepare_vault_directory lock vault) (\<lambda>_.
         r_bind (in_vault (hex vault) (recover_admission_transaction sha256)) (\<lambda>_.
         r_bind (r_read (\<lambda>d. Inr (present 0 (dd_top d)))) (\<lambda>at_source.
         r_bind (if at_source then in_top (verify_replica sha256 vault) else in_vault (hex vault) (verify_replica sha256 vault)) (\<lambda>_.
         r_bind (run_phases vault [unat phase ..< 3]) (\<lambda>_.
         remove_and_sync))))))))) "

definition migrate_legacy :: "(bytes \<Rightarrow> 256 word) \<Rightarrow> (VaultId option \<Rightarrow> unit result) \<Rightarrow> unit rio" where
  "migrate_legacy sha256 lock =
     r_bind (r_ret (lock None)) (\<lambda>_.
     r_bind (in_top (recover_admission_transaction sha256)) (\<lambda>_.
     r_bind (r_read (\<lambda>d. Inr (dd_marker d \<noteq> None))) (\<lambda>marked.
     if marked then resume_migration sha256 lock
     else
       r_bind (in_top (read_private Admission)) (\<lambda>admission.
       case admission of
         None \<Rightarrow> r_ret (Inr ())
       | Some bs \<Rightarrow>
           r_bind (r_ret (decode_vault_metadata bs)) (\<lambda>metadata.
           r_bind (in_top (verify_replica sha256 (vm_vault_id metadata))) (\<lambda>_.
           r_bind (prepare_vault_directory lock (vm_vault_id metadata)) (\<lambda>_.
           r_bind (write_marker (vm_vault_id metadata) 0) (\<lambda>_.
           resume_migration sha256 lock))))))))"

section \<open>Discovery\<close>

text \<open>A place is the name of a vault directory, or \<open>None\<close> for the data directory itself.\<close>

type_synonym vault_list = "(VaultId \<times> bytes option) list"

definition discover_entry ::
  "(bytes \<Rightarrow> 256 word) \<Rightarrow> bytes \<times> vault_entry \<Rightarrow> vault_list \<Rightarrow> vault_list rio" where
  "discover_entry sha256 entry vaults =
     r_bind r_sync (\<lambda>_.
     r_bind (r_ret (guard_ok (snd entry \<noteq> OtherEntry) (InvalidInput ''vaults contains a non-directory entry''))) (\<lambda>_.
     let name = fst entry in
     r_bind (r_ret (guard_ok (utf8_ok name) (InvalidInput ''invalid vault directory name''))) (\<lambda>_.
     if name \<noteq> [] \<and> hd name = 46 then r_ret (Inr vaults)
     else
       r_bind (r_ret (parse_hex_vault_id name)) (\<lambda>vault.
       r_bind (in_vault name (recover_admission_transaction sha256)) (\<lambda>_.
       r_bind (in_vault name (read_private Admission)) (\<lambda>bs.
       r_bind (r_ret (and_then (ok_or bs (State ''vault admission file is missing'')) decode_vault_metadata)) (\<lambda>metadata.
       r_bind (r_ret (guard_ok (vm_vault_id metadata = vault) (State ''vault directory id differs from admission file''))) (\<lambda>_.
       r_bind (r_ret (guard_ok (vault \<notin> fst ` set vaults) (State ''duplicate vault id on disk''))) (\<lambda>_.
       r_bind (in_vault name (verify_replica sha256 vault)) (\<lambda>_.
       r_ret (Inr (vaults @ [(vault, Some name)]))))))))))))"

fun discover_entries ::
  "(bytes \<Rightarrow> 256 word) \<Rightarrow> (bytes \<times> vault_entry) list \<Rightarrow> vault_list \<Rightarrow> vault_list rio" where
  "discover_entries sha256 [] vaults = r_ret (Inr vaults)"
| "discover_entries sha256 (entry # entries) vaults =
     r_bind (discover_entry sha256 entry vaults) (\<lambda>vaults. discover_entries sha256 entries vaults)"

definition discover_vaults :: "(bytes \<Rightarrow> 256 word) \<Rightarrow> (VaultId option \<Rightarrow> unit result) \<Rightarrow> vault_list rio" where
  "discover_vaults sha256 lock =
     r_bind (r_ret (lock None)) (\<lambda>_.
     r_bind (in_top (recover_admission_transaction sha256)) (\<lambda>_.
     r_bind (resume_migration sha256 lock) (\<lambda>_.
     r_bind (in_top (read_private Admission)) (\<lambda>legacy.
     r_bind (case legacy of
         None \<Rightarrow> r_ret (Inr [])
       | Some bs \<Rightarrow>
           r_bind (r_ret (decode_vault_metadata bs)) (\<lambda>metadata.
           r_bind (in_top (verify_replica sha256 (vm_vault_id metadata))) (\<lambda>_.
           r_ret (Inr [(vm_vault_id metadata, None)])))) (\<lambda>vaults.
     r_bind (r_read (\<lambda>d. Inr (dd_vaults d))) (\<lambda>root.
     r_bind (case root of
         NoVaults \<Rightarrow> r_ret (Inr vaults)
       | NotADirectory \<Rightarrow> r_ret (Inl (InvalidInput ''vault path must be a real directory''))
       | Vaults entries \<Rightarrow> discover_entries sha256 entries vaults) (\<lambda>vaults.
     r_ret (Inr (sort_key fst vaults)))))))))"

end
