(* ===== verification/Registry_Inv.thy ===== *)
theory Registry_Inv
  imports Registry
begin

text \<open>
  The migration of the older layout can stop anywhere, at a failed operation or in a crash, without losing
  or copying a file: the snapshot, the chunks and the admission file are each in the old or in the new place,
  in the order of the phases, and a later run completes it. Discovery lists each vault once, under the id of
  its admission file, with a snapshot that decodes for it.
\<close>

section \<open>Names and the marker\<close>

lemma hex_digit_digit: "n < 16 \<Longrightarrow> hex_digit (HEX_DIGITS ! n) = Inr (of_nat n)"
proof -
  have "list_all (\<lambda>n. hex_digit (HEX_DIGITS ! n) = Inr (of_nat n)) [0 ..< 16]"
    by (simp add: HEX_DIGITS_def ascii_def hex_digit_def upt_rec)
  then show "n < 16 \<Longrightarrow> hex_digit (HEX_DIGITS ! n) = Inr (of_nat n)" by (simp add: list_all_iff)
qed

lemma hex_digit_Inr: "hex_digit b = Inr x \<longleftrightarrow> unat x < 16 \<and> b = HEX_DIGITS ! unat x"
proof
  assume h: "hex_digit b = Inr x"
  have "list_all (\<lambda>b. \<forall>x. hex_digit b = Inr x \<longrightarrow> unat x < 16 \<and> b = HEX_DIGITS ! unat x) (map of_nat [0 ..< 256])"
    by (simp add: HEX_DIGITS_def ascii_def hex_digit_def upt_rec) (simp add: word_le_nat_alt)
  then have "\<forall>n < 256. \<forall>x. hex_digit (of_nat n) = Inr x \<longrightarrow> unat x < 16 \<and> of_nat n = HEX_DIGITS ! unat x"
    by (simp add: list_all_iff)
  from this [rule_format, of "unat b" x] h show "unat x < 16 \<and> b = HEX_DIGITS ! unat x" using unat_byte_less [of b] by simp
next
  assume "unat x < 16 \<and> b = HEX_DIGITS ! unat x"
  then show "hex_digit b = Inr x" using hex_digit_digit [of "unat x"] by simp
qed

lemma and_15: "(a :: byte) AND 15 = take_bit 4 a"
  by (simp add: take_bit_eq_mask mask_numeral)

lemma unat_drop_4: "unat (drop_bit 4 a) = unat (a :: byte) div 16"
  by (simp add: drop_bit_eq_div unat_div_distrib)

lemma nibbles:
  fixes a b :: byte
  shows "unat (drop_bit 4 a) < 16" "unat (a AND 15) < 16" "push_bit 4 (drop_bit 4 a) OR (a AND 15) = a"
    "unat a < 16 \<Longrightarrow> unat b < 16 \<Longrightarrow> drop_bit 4 (push_bit 4 a OR b) = a" "unat b < 16 \<Longrightarrow> (push_bit 4 a OR b) AND 15 = b"
proof -
  show "unat (drop_bit 4 a) < 16" using less_mult_imp_div_less [of "unat a" 16 16] unat_byte_less [of a] by (simp add: unat_drop_4)
  show "unat (a AND 15) < 16" using take_bit_nat_less_exp [of 4 "unat a"] by (simp add: and_15 unsigned_take_bit_eq)
  show "push_bit 4 (drop_bit 4 a) OR (a AND 15) = a"
    by (rule bit_word_eqI) (auto simp: and_15 bit_simps)
  have small: "bit x n \<longrightarrow> n < 4" if "unat x < 16" for x :: byte and n
  proof -
    have "take_bit 4 x = x" using that by (simp add: word_eq_iff_unsigned [where ?'a = nat] unsigned_take_bit_eq take_bit_nat_eq_self_iff)
    then show ?thesis by (metis bit_take_bit_iff)
  qed
  show "drop_bit 4 (push_bit 4 a OR b) = a" if "unat a < 16" "unat b < 16"
    by (rule bit_word_eqI) (use small [OF that(1)] small [OF that(2)] in \<open>auto simp: bit_simps\<close>)
  show "(push_bit 4 a OR b) AND 15 = b" if "unat b < 16"
    by (rule bit_word_eqI) (use small [OF that] in \<open>auto simp: and_15 bit_simps\<close>)
qed

lemma length_hex: "length (hex v) = 64"
  by (simp add: hex_def length_concat comp_def sum_list_triv)

lemma pairs_nth:
  "i < length xs \<Longrightarrow> concat (map (\<lambda>b. [f b, g b]) xs) ! (i * 2) = f (xs ! i)"
  "i < length xs \<Longrightarrow> concat (map (\<lambda>b. [f b, g b]) xs) ! (i * 2 + 1) = g (xs ! i)"
  by (induction xs arbitrary: i) (auto simp: nth_Cons split: nat.splits)

lemma parse_hex: "parse_hex_vault_id (hex v) = Inr v"
proof -
  let ?b = "to_be_bytes (vault_raw v)"
  have "map_ok (\<lambda>i.
         and_then (hex_digit (hex v ! (i * 2))) (\<lambda>high.
         and_then (hex_digit (hex v ! (i * 2 + 1))) (\<lambda>low.
         Inr (push_bit 4 high OR low)))) [0 ..< 32] = Inr (map (\<lambda>i. ?b ! i) [0 ..< 32])"
    by (rule map_ok_total) (simp add: hex_def pairs_nth [of _ ?b, simplified] hex_digit_digit nibbles)
  moreover have "map (\<lambda>i. ?b ! i) [0 ..< 32] = ?b"
    using map_nth [of ?b] by simp
  ultimately show ?thesis by (cases v) (simp add: parse_hex_vault_id_def length_hex)
qed

lemma parse_hex_iff: "parse_hex_vault_id v = Inr vault \<longleftrightarrow> v = hex vault"
proof
  assume p: "parse_hex_vault_id v = Inr vault"
  then obtain bs where v: "length v = 64" and bs: "vault = VaultId (from_be_bytes bs)"
      and m: "list_all2 (\<lambda>i y. and_then (hex_digit (v ! (i * 2))) (\<lambda>high. and_then (hex_digit (v ! (i * 2 + 1))) (\<lambda>low.
        Inr (push_bit 4 high OR low))) = Inr y) [0 ..< 32] bs"
    by (auto simp: parse_hex_vault_id_def map_ok_Inr_iff)
  have len: "length bs = 32" using list_all2_lengthD [OF m] by simp
  have raw: "to_be_bytes (vault_raw vault) = bs" using len by (simp add: bs)
  have byte: "v ! (i * 2) = HEX_DIGITS ! unat (drop_bit 4 (bs ! i)) \<and> v ! (i * 2 + 1) = HEX_DIGITS ! unat (bs ! i AND 15)" if i: "i < 32" for i
  proof -
    obtain high low where hl: "hex_digit (v ! (i * 2)) = Inr high" "hex_digit (v ! (i * 2 + 1)) = Inr low" "bs ! i = push_bit 4 high OR low"
      using list_all2_nthD [OF m, of i] i by auto
    then have h: "unat high < 16" "v ! (i * 2) = HEX_DIGITS ! unat high" and l: "unat low < 16" "v ! (i * 2 + 1) = HEX_DIGITS ! unat low"
      by (simp_all add: hex_digit_Inr)
    have "drop_bit 4 (bs ! i) = high" "bs ! i AND 15 = low"
      unfolding hl(3) by (rule nibbles(4) [OF h(1) l(1)], rule nibbles(5) [OF l(1)])
    with h(2) l(2) show ?thesis by simp
  qed
  show "v = hex vault"
  proof (rule nth_equalityI)
    show "length v = length (hex vault)" by (simp add: v length_hex)
    fix j assume j: "j < length v"
    obtain i where i: "i < 32" "j = i * 2 \<or> j = i * 2 + 1"
      using j v that [of "j div 2"] by fastforce
    from i(2) show "v ! j = hex vault ! j"
    proof
      assume "j = i * 2"
      then show ?thesis using byte [OF i(1)] pairs_nth(1) [of i bs "\<lambda>b. HEX_DIGITS ! unat (drop_bit 4 b)" "\<lambda>b. HEX_DIGITS ! unat (b AND 15)"] i(1) len by (simp add: hex_def raw)
    next
      assume "j = i * 2 + 1"
      then show ?thesis using byte [OF i(1)] pairs_nth(2) [of i bs "\<lambda>b. HEX_DIGITS ! unat (drop_bit 4 b)" "\<lambda>b. HEX_DIGITS ! unat (b AND 15)"] i(1) len by (simp add: hex_def raw)
    qed
  qed
next
  assume "v = hex vault"
  then show "parse_hex_vault_id v = Inr vault" by (simp add: parse_hex)
qed

lemma marker_roundtrip:
  assumes "encode_vault_migration v ph = Inr bs"
  shows "decode_vault_migration bs = Inr (v, ph)" "length bs = 33"
  using assms by (cases v; auto simp: encode_vault_migration_def decode_vault_migration_def nth_append)+

lemma marker_encodes: "n \<le> 3 \<Longrightarrow> \<exists>bs. encode_vault_migration v (of_nat n) = Inr bs"
  by (auto simp: encode_vault_migration_def word_less_nat_alt unat_of_nat)

section \<open>Triples\<close>

definition rtriple :: "(data_dir \<Rightarrow> bool) \<Rightarrow> 'a rio \<Rightarrow> ('a \<Rightarrow> data_dir \<Rightarrow> bool) \<Rightarrow> (data_dir \<Rightarrow> bool) \<Rightarrow> bool" where
  "rtriple P p Q E \<longleftrightarrow> (\<forall>os d. P d \<longrightarrow> (case p (os, d) of
       (Ret (Inr x), _, d') \<Rightarrow> Q x d'
     | (_, _, d') \<Rightarrow> E d'))"

lemma rtriple_ret: "(\<And>d x. P d \<Longrightarrow> r = Inr x \<Longrightarrow> Q x d) \<Longrightarrow> (\<And>d e. P d \<Longrightarrow> r = Inl e \<Longrightarrow> E d) \<Longrightarrow> rtriple P (r_ret r) Q E"
  by (auto simp: rtriple_def r_ret_def split: sum.splits)

lemma rtriple_bind: "rtriple P p R E \<Longrightarrow> (\<And>x. rtriple (R x) (f x) Q E) \<Longrightarrow> rtriple P (r_bind p f) Q E"
  unfolding rtriple_def r_bind_def by (fastforce split: run.splits sum.splits prod.splits)

lemma rtriple_op: "(\<And>d. P d \<Longrightarrow> Q () (f d) \<and> E d \<and> E (f d)) \<Longrightarrow> rtriple P (r_op f) Q E"
  by (auto simp: rtriple_def r_op_def split: list.splits outcome.splits)

lemma rtriple_read: "(\<And>d. P d \<Longrightarrow> E d) \<Longrightarrow> (\<And>d x. P d \<Longrightarrow> f d = Inr x \<Longrightarrow> Q x d) \<Longrightarrow> rtriple P (r_read f) Q E"
  unfolding r_read_def
  by (rule rtriple_bind [OF rtriple_op [where Q = "\<lambda>_. P"]]) (auto simp: rtriple_def split: sum.splits)

lemma rtriple_weaken:
  "rtriple P p Q E \<Longrightarrow> (\<And>d. P' d \<Longrightarrow> P d) \<Longrightarrow> (\<And>x d. Q x d \<Longrightarrow> Q' x d) \<Longrightarrow> (\<And>d. E d \<Longrightarrow> E' d) \<Longrightarrow> rtriple P' p Q' E'"
  unfolding rtriple_def by (fastforce split: run.splits sum.splits prod.splits)

lemma rtriple_pure: "(b \<Longrightarrow> rtriple P p Q E) \<Longrightarrow> rtriple (\<lambda>d. P d \<and> b) p Q E"
  by (cases b) (auto simp: rtriple_def)

lemma rtriple_always: "rtriple P p Q E \<Longrightarrow> P d \<Longrightarrow> (\<And>x d. Q x d \<Longrightarrow> X d) \<Longrightarrow> (\<And>d. E d \<Longrightarrow> X d) \<Longrightarrow> X (snd (snd (p (os, d))))"
  unfolding rtriple_def
  by (drule spec [of _ os], drule spec [of _ d]) (cases "fst (p (os, d))"; cases "p (os, d)"; fastforce split: sum.splits)

section \<open>Where the files are\<close>

text \<open>The first \<open>n\<close> items of the old vault have been moved: what is left, and what has arrived.\<close>

fun left_behind :: "nat \<Rightarrow> vault_dir \<Rightarrow> vault_dir" where
  "left_behind 0 v = v"
| "left_behind (Suc n) v = take_item n empty_vault (left_behind n v)"

fun arrived :: "nat \<Rightarrow> vault_dir \<Rightarrow> vault_dir" where
  "arrived 0 v = empty_vault"
| "arrived (Suc n) v = take_item n v (arrived n v)"

text \<open>A vault of the older layout: all three items, no journal.\<close>

definition complete :: "vault_dir \<Rightarrow> bool" where
  "complete v \<longleftrightarrow> d_admission (vd_files v) \<noteq> None \<and> d_replica (vd_files v) \<noteq> None \<and> vd_has_chunks v \<and> d_journal (vd_files v) = None"

lemma items_3: "complete v \<Longrightarrow> arrived 3 v = v \<and> left_behind 3 v = empty_vault"
  by (cases v; cases "vd_files v")
    (auto simp: complete_def eval_nat_numeral take_item_def empty_vault_def)

lemma three: "n < 3 \<longleftrightarrow> n = 0 \<or> n = 1 \<or> n = (2 :: nat)"
  by auto

lemma items_present:
  assumes "complete v" and "n < 3" and "k \<le> 3"
  shows "present n (left_behind k v) \<longleftrightarrow> k \<le> n" "present n (arrived k v) \<longleftrightarrow> n < k"
proof -
  have "k = 0 \<or> k = 1 \<or> k = 2 \<or> k = 3" using assms(3) by auto
  with assms(1,2) show "present n (left_behind k v) \<longleftrightarrow> k \<le> n" "present n (arrived k v) \<longleftrightarrow> n < k"
    unfolding three by (auto simp: complete_def present_def take_item_def empty_vault_def eval_nat_numeral)
qed

lemma items_move:
  assumes "complete v" and "n < 3"
  shows "take_item n (left_behind n v) (arrived n v) = arrived (Suc n) v"
  using assms unfolding three by (auto simp: take_item_def empty_vault_def eval_nat_numeral)

lemma items_journal: "d_journal (vd_files v) = None \<Longrightarrow> d_journal (vd_files (left_behind n v)) = None"
    "d_journal (vd_files (arrived n v)) = None"
  by (induction n) (simp_all add: take_item_def empty_vault_def)

lemma items_replica:
  "d_replica (vd_files (left_behind 0 v)) = d_replica (vd_files v)"
  "0 < n \<Longrightarrow> d_replica (vd_files (arrived n v)) = d_replica (vd_files v)"
  by (simp, induction n) (auto simp: take_item_def empty_vault_def split: if_splits)

text \<open>\<open>migrating\<close> is the condition between operations, whatever they were and however they ended.\<close>

definition moved_to :: "VaultId \<Rightarrow> vault_dir \<Rightarrow> nat \<Rightarrow> data_dir \<Rightarrow> bool" where
  "moved_to vault v n d \<longleftrightarrow> dd_top d = left_behind n v \<and> get_vault (hex vault) d = Some (VaultDir (arrived n v))"

definition marked :: "VaultId \<Rightarrow> nat \<Rightarrow> data_dir \<Rightarrow> bool" where
  "marked vault n d \<longleftrightarrow> n \<le> 3 \<and> (\<exists>bs. encode_vault_migration vault (of_nat n) = Inr bs \<and> dd_marker d = Some bs)"

definition unstarted :: "VaultId \<Rightarrow> vault_dir \<Rightarrow> data_dir \<Rightarrow> bool" where
  "unstarted vault v d \<longleftrightarrow> dd_marker d = None \<and> dd_top d = v \<and> dd_vaults d \<noteq> NotADirectory \<and>
     (get_vault (hex vault) d = None \<or> get_vault (hex vault) d = Some (VaultDir empty_vault))"

definition migrating :: "VaultId \<Rightarrow> vault_dir \<Rightarrow> data_dir \<Rightarrow> bool" where
  "migrating vault v d \<longleftrightarrow> unstarted vault v d \<or>
     (\<exists>n. marked vault n d \<and> (moved_to vault v n d \<or> n < 3 \<and> moved_to vault v (Suc n) d)) \<or>
     dd_marker d = None \<and> moved_to vault v 3 d"

text \<open>The old vault is one that can be migrated.\<close>

definition legacy :: "(bytes \<Rightarrow> 256 word) \<Rightarrow> VaultId \<Rightarrow> vault_dir \<Rightarrow> bool" where
  "legacy sha256 vault v \<longleftrightarrow> complete v \<and>
     (\<exists>a m. d_admission (vd_files v) = Some a \<and> length a \<le> MAX_STORE_BYTES \<and> decode_vault_metadata a = Inr m \<and> vm_vault_id m = vault) \<and>
     (\<exists>r x. d_replica (vd_files v) = Some r \<and> length r \<le> MAX_STORE_BYTES \<and> decode_replica sha256 r (FileId (vault_raw vault)) = Inr x)"

section \<open>Steps of the migration\<close>

text \<open>\<open>rfull P p Q E\<close>: as \<open>rtriple\<close>, and without a failing operation \<open>p\<close> succeeds.\<close>

definition rfull :: "(data_dir \<Rightarrow> bool) \<Rightarrow> 'a rio \<Rightarrow> ('a \<Rightarrow> data_dir \<Rightarrow> bool) \<Rightarrow> (data_dir \<Rightarrow> bool) \<Rightarrow> bool" where
  "rfull P p Q E \<longleftrightarrow> (\<forall>os d. P d \<longrightarrow> (case p (os, d) of
       (Ret (Inr x), os', d') \<Rightarrow> Q x d' \<and> (os = [] \<longrightarrow> os' = [])
     | (_, _, d') \<Rightarrow> E d' \<and> os \<noteq> []))"

lemma rfull_rtriple: "rfull P p Q E \<Longrightarrow> rtriple P p Q E"
  unfolding rfull_def rtriple_def by (fastforce split: run.splits sum.splits prod.splits)

lemma rfull_done: "rfull P p Q E \<Longrightarrow> P d \<Longrightarrow> \<exists>x d'. p ([], d) = (Ret (Inr x), [], d') \<and> Q x d'"
  unfolding rfull_def
  by (drule spec [of _ "[]"], drule spec [of _ d]) (cases "fst (p ([], d))"; cases "p ([], d)"; fastforce split: sum.splits)

lemma rfull_ret: "(\<And>d. P d \<Longrightarrow> Q x d) \<Longrightarrow> rfull P (r_ret (Inr x)) Q E"
  by (auto simp: rfull_def r_ret_def)

lemma rfull_bind:
  assumes "rfull P p R E" and "\<And>x. rfull (R x) (f x) Q E"
  shows "rfull P (r_bind p f) Q E"
  unfolding rfull_def
proof (intro allI impI)
  fix os d assume "P d"
  obtain r os' d' where p: "p (os, d) = (r, os', d')" by (metis prod_cases3)
  note 1 = assms(1) [unfolded rfull_def, rule_format, OF \<open>P d\<close>, of os]
  show "case r_bind p f (os, d) of (Ret (Inr x), os', d') \<Rightarrow> Q x d' \<and> (os = [] \<longrightarrow> os' = []) | (_, _, d') \<Rightarrow> E d' \<and> os \<noteq> []"
  proof (cases "\<exists>x. r = Ret (Inr x)")
    case True
    then obtain x where x: "r = Ret (Inr x)" "R x d'" "os = [] \<longrightarrow> os' = []" using 1 p by auto
    from assms(2) [unfolded rfull_def, rule_format, OF x(2), of os'] x(1,3) p show ?thesis
      by (auto simp: r_bind_def split: run.splits sum.splits prod.splits)
  next
    case False
    with 1 p show ?thesis by (auto simp: r_bind_def split: run.splits sum.splits)
  qed
qed

lemma rfull_op: "(\<And>d. P d \<Longrightarrow> Q () (f d) \<and> E d \<and> E (f d)) \<Longrightarrow> rfull P (r_op f) Q E"
  by (auto simp: rfull_def r_op_def split: list.splits outcome.splits)

lemma rfull_read: "(\<And>d. P d \<Longrightarrow> E d \<and> (\<exists>x. f d = Inr x \<and> Q x d)) \<Longrightarrow> rfull P (r_read f) Q E"
  by (fastforce simp: rfull_def r_read_def r_bind_def r_op_def split: list.splits outcome.splits)

lemma rfull_weaken:
  "rfull P p Q E \<Longrightarrow> (\<And>d. P' d \<Longrightarrow> P d) \<Longrightarrow> (\<And>x d. Q x d \<Longrightarrow> Q' x d) \<Longrightarrow> (\<And>d. E d \<Longrightarrow> E' d) \<Longrightarrow> rfull P' p Q' E'"
  unfolding rfull_def by (fastforce split: run.splits sum.splits prod.splits)

lemma rfull_pure: "(b \<Longrightarrow> rfull P p Q E) \<Longrightarrow> rfull (\<lambda>d. P d \<and> b) p Q E"
  by (cases b) (auto simp: rfull_def)

lemma rfull_at: "(\<And>d. P d \<Longrightarrow> rfull (\<lambda>d'. d' = d) p Q E) \<Longrightarrow> rfull P p Q E"
  by (simp add: rfull_def)

lemma rfull_here: "rfull P p Q E \<Longrightarrow> P d \<Longrightarrow> rfull (\<lambda>d'. d' = d) p Q E"
  by (simp add: rfull_def)

lemma rfull_absurd: "(\<And>d. \<not> P d) \<Longrightarrow> rfull P p Q E"
  by (simp add: rfull_def)

lemma rfull_eq: "rfull P p Q E \<Longrightarrow> (\<And>os d. P d \<Longrightarrow> q (os, d) = p (os, d)) \<Longrightarrow> rfull P q Q E"
  by (simp add: rfull_def)

lemma rfull_or: "rfull P p Q E \<Longrightarrow> rfull P' p Q E \<Longrightarrow> rfull (\<lambda>d. P d \<or> P' d) p Q E"
  by (rule rfull_at) (auto intro: rfull_here)

lemma rfull_ex: "(\<And>n. rfull (P n) p Q E) \<Longrightarrow> rfull (\<lambda>d. \<exists>n. P n d) p Q E"
  by (rule rfull_at) (auto intro: rfull_here)

text \<open>Operations on one directory that only read it.\<close>

definition reads_at :: "'a io \<Rightarrow> dir \<Rightarrow> 'a \<Rightarrow> bool" where
  "reads_at p f x \<longleftrightarrow> (\<forall>os. (case p (os, f) of
       (Ret (Inr y), os', f') \<Rightarrow> y = x \<and> f' = f \<and> (os = [] \<longrightarrow> os' = [])
     | (_, _, f') \<Rightarrow> f' = f \<and> os \<noteq> []))"

lemma update_same: "map_of es k = Some v \<Longrightarrow> AList.update k v es = es"
  by (induction es) (auto split: if_splits)

lemma set_vault_same: "get_vault name d = Some (VaultDir v) \<Longrightarrow> set_vault name v d = d"
  by (auto simp: get_vault_def set_vault_def update_same split: vaults_root.splits)

lemma rfull_in_top:
  assumes "\<And>d. P d \<Longrightarrow> \<exists>x. reads_at p (vd_files (dd_top d)) x \<and> Q x d \<and> E d"
  shows "rfull P (in_top p) Q E"
  unfolding rfull_def
proof (intro allI impI)
  fix os d assume "P d"
  then obtain x where x: "reads_at p (vd_files (dd_top d)) x" "Q x d" "E d" using assms by blast
  then show "case in_top p (os, d) of (Ret (Inr x), os', d') \<Rightarrow> Q x d' \<and> (os = [] \<longrightarrow> os' = []) | (_, _, d') \<Rightarrow> E d' \<and> os \<noteq> []"
    using x(1) [unfolded reads_at_def, rule_format, of os] by (auto simp: in_top_def split: run.splits sum.splits prod.splits)
qed

lemma rfull_in_vault:
  assumes "\<And>d. P d \<Longrightarrow> \<exists>v x. get_vault name d = Some (VaultDir v) \<and> reads_at p (vd_files v) x \<and> Q x d \<and> E d"
  shows "rfull P (in_vault name p) Q E"
  unfolding rfull_def
proof (intro allI impI)
  fix os d assume "P d"
  then obtain v x where x: "get_vault name d = Some (VaultDir v)" "reads_at p (vd_files v) x" "Q x d" "E d" using assms by blast
  then show "case in_vault name p (os, d) of (Ret (Inr x), os', d') \<Rightarrow> Q x d' \<and> (os = [] \<longrightarrow> os' = []) | (_, _, d') \<Rightarrow> E d' \<and> os \<noteq> []"
    using x(2) [unfolded reads_at_def, rule_format, of os]
    by (auto simp: in_vault_def set_vault_same split: run.splits sum.splits prod.splits)
qed

lemma reads_at_read: "f d = Inr x \<Longrightarrow> reads_at (io_read f) d x"
  by (auto simp: reads_at_def io_read_def io_bind_def io_op_def split: list.splits outcome.splits)

lemma reads_at_ret: "reads_at (io_ret (Inr x)) d x"
  by (simp add: reads_at_def io_ret_def)

lemma reads_at_bind: "reads_at p d x \<Longrightarrow> reads_at (f x) d y \<Longrightarrow> reads_at (io_bind p f) d y"
  unfolding reads_at_def io_bind_def by (fastforce split: run.splits sum.splits prod.splits)

lemma reads_recover: "d_journal f = None \<Longrightarrow> reads_at (recover_admission_transaction sha256) f ()"
  unfolding recover_admission_transaction_def
  by (rule reads_at_bind [of _ _ None]) (auto simp: read_bounded_def file_get_def intro!: reads_at_read reads_at_ret)

lemma reads_at_admission: "length a \<le> MAX_STORE_BYTES \<Longrightarrow> d_admission f = Some a \<Longrightarrow> reads_at (read_private Admission) f (Some a)"
    "d_admission f = None \<Longrightarrow> reads_at (read_private Admission) f None"
  unfolding read_private_def by (auto simp: file_get_def intro!: reads_at_read)

lemma reads_verify:
  assumes "d_replica f = Some r" and "length r \<le> MAX_STORE_BYTES" and "decode_replica sha256 r (FileId (vault_raw vault)) = Inr x"
  shows "reads_at (verify_replica sha256 vault) f ()"
  unfolding verify_replica_def
  by (rule reads_at_bind [of _ _ "Some r"], use assms in \<open>auto simp: read_private_def file_get_def intro!: reads_at_read\<close>)
    (rule reads_at_bind [of _ _ r], simp add: reads_at_ret, rule reads_at_bind [of _ _ x], simp_all add: assms reads_at_ret)

text \<open>Preparing the new directory.\<close>

lemma get_set_vault:
  "get_vault name d \<noteq> None \<or> (\<exists>es. dd_vaults d = Vaults es) \<Longrightarrow>
    get_vault name' (set_vault name v d) = (if name' = name then Some (VaultDir v) else get_vault name' d)"
  by (auto simp: get_vault_def set_vault_def update_conv split: vaults_root.splits)

lemma set_vault_fields [simp]: "dd_top (set_vault name v d) = dd_top d" "dd_marker (set_vault name v d) = dd_marker d"
  by (simp_all add: set_vault_def split: vaults_root.splits)

lemma set_vault_root: "dd_vaults (set_vault name v d) = NotADirectory \<longleftrightarrow> dd_vaults d = NotADirectory"
  by (auto simp: set_vault_def split: vaults_root.splits)

lemma prepare_existing:
  assumes "\<And>d. P d \<Longrightarrow> \<exists>v. get_vault (hex vault) d = Some (VaultDir v)" and "lock None = Inr ()" "lock (Some vault) = Inr ()"
  shows "rfull P (prepare_vault_directory lock vault) (\<lambda>_. P) P"
proof -
  have root: "rfull P ensure_vaults_root (\<lambda>_. P) P"
    unfolding ensure_vaults_root_def
  proof (rule rfull_bind [OF rfull_read [where Q = "\<lambda>root d. P d \<and> (\<exists>es. root = Vaults es)"]])
    show "P d \<Longrightarrow> P d \<and> (\<exists>x. Inr (dd_vaults d) = Inr x \<and> P d \<and> (\<exists>es. x = Vaults es))" for d
      using assms(1) [of d] by (auto simp: get_vault_def split: vaults_root.splits)
    show "rfull (\<lambda>d. P d \<and> (\<exists>es. root = Vaults es)) (case root of Vaults _ \<Rightarrow> r_sync
        | NotADirectory \<Rightarrow> r_ret (Inl (InvalidInput ''vault path must be a real directory''))
        | NoVaults \<Rightarrow> r_bind (r_op (\<lambda>d. d\<lparr>dd_vaults := Vaults []\<rparr>)) (\<lambda>_. r_bind r_sync (\<lambda>_. r_sync))) (\<lambda>_. P) P" for root
      by (rule rfull_pure) (auto intro: rfull_op)
  qed
  have entry: "rfull P (ensure_vault (hex vault)) (\<lambda>_. P) P"
    unfolding ensure_vault_def
  proof (rule rfull_bind [OF rfull_read [where Q = "\<lambda>e d. P d \<and> (\<exists>v. e = Some (VaultDir v))"]])
    show "P d \<Longrightarrow> P d \<and> (\<exists>x. Inr (get_vault (hex vault) d) = Inr x \<and> P d \<and> (\<exists>v. x = Some (VaultDir v)))" for d
      using assms(1) [of d] by auto
    show "rfull (\<lambda>d. P d \<and> (\<exists>v. e = Some (VaultDir v))) (case e of Some (VaultDir _) \<Rightarrow> r_sync
        | Some OtherEntry \<Rightarrow> r_ret (Inl (InvalidInput ''vault path must be a real directory''))
        | None \<Rightarrow> r_bind (r_op (set_vault (hex vault) empty_vault)) (\<lambda>_. r_bind r_sync (\<lambda>_. r_sync))) (\<lambda>_. P) P" for e
      by (rule rfull_pure) (auto intro: rfull_op)
  qed
  show ?thesis
    unfolding prepare_vault_directory_def assms(2,3)
    by (intro rfull_bind [OF rfull_ret [where Q = "\<lambda>_. P"]] rfull_bind [OF root] rfull_bind [OF entry] rfull_ret)
qed

lemma prepare_unstarted:
  assumes "lock None = Inr ()" "lock (Some vault) = Inr ()"
  shows "rfull (unstarted vault v) (prepare_vault_directory lock vault)
    (\<lambda>_ d. unstarted vault v d \<and> get_vault (hex vault) d = Some (VaultDir empty_vault)) (unstarted vault v)"
proof -
  let ?U = "unstarted vault v" and ?R = "\<lambda>d. unstarted vault v d \<and> (\<exists>es. dd_vaults d = Vaults es)"
  have sync: "rfull P r_sync (\<lambda>_. P) ?U" if "\<And>d. P d \<Longrightarrow> ?U d" for P
    by (rule rfull_op) (use that in auto)
  have root: "rfull ?U ensure_vaults_root (\<lambda>_. ?R) ?U"
    unfolding ensure_vaults_root_def
  proof (rule rfull_bind [OF rfull_read [where Q = "\<lambda>root d. ?U d \<and> dd_vaults d = root"]])
    show "rfull (\<lambda>d. ?U d \<and> dd_vaults d = root) (case root of Vaults _ \<Rightarrow> r_sync
        | NotADirectory \<Rightarrow> r_ret (Inl (InvalidInput ''vault path must be a real directory''))
        | NoVaults \<Rightarrow> r_bind (r_op (\<lambda>d. d\<lparr>dd_vaults := Vaults []\<rparr>)) (\<lambda>_. r_bind r_sync (\<lambda>_. r_sync))) (\<lambda>_. ?R) ?U" for root
    proof (cases root)
      case NoVaults
      then show ?thesis
        by (auto intro!: rfull_bind [OF rfull_op [where Q = "\<lambda>_. ?R"]] rfull_bind [OF sync] sync simp: unstarted_def get_vault_def)
    next
      case NotADirectory
      then show ?thesis by (auto simp: rfull_def unstarted_def)
    next
      case (Vaults es)
      then show ?thesis by (auto intro!: rfull_op)
    qed
  qed auto
  have entry: "rfull ?R (ensure_vault (hex vault)) (\<lambda>_ d. ?U d \<and> get_vault (hex vault) d = Some (VaultDir empty_vault)) ?U"
    unfolding ensure_vault_def
  proof (rule rfull_bind [OF rfull_read [where Q = "\<lambda>e d. ?R d \<and> get_vault (hex vault) d = e"]])
    show "rfull (\<lambda>d. ?R d \<and> get_vault (hex vault) d = e) (case e of Some (VaultDir _) \<Rightarrow> r_sync
        | Some OtherEntry \<Rightarrow> r_ret (Inl (InvalidInput ''vault path must be a real directory''))
        | None \<Rightarrow> r_bind (r_op (set_vault (hex vault) empty_vault)) (\<lambda>_. r_bind r_sync (\<lambda>_. r_sync)))
        (\<lambda>_ d. ?U d \<and> get_vault (hex vault) d = Some (VaultDir empty_vault)) ?U" for e
    proof (cases e)
      case None
      have "rfull (\<lambda>d. ?R d \<and> get_vault (hex vault) d = None) (r_op (set_vault (hex vault) empty_vault))
          (\<lambda>_ d. ?U d \<and> get_vault (hex vault) d = Some (VaultDir empty_vault)) ?U"
        by (rule rfull_op) (auto simp: unstarted_def get_set_vault set_vault_root)
      then show ?thesis
        unfolding None option.case by (rule rfull_bind) (intro rfull_bind [OF sync] sync, auto)
    next
      case (Some x)
      show ?thesis
      proof (cases x)
        case (VaultDir t)
        then show ?thesis unfolding Some by (auto intro!: rfull_op simp: unstarted_def)
      next
        case OtherEntry
        then show ?thesis unfolding Some by (auto simp: rfull_def unstarted_def)
      qed
    qed
  qed auto
  show ?thesis
    unfolding prepare_vault_directory_def assms
    by (intro rfull_bind [OF rfull_ret [where Q = "\<lambda>_. ?U"]] rfull_bind [OF root] rfull_bind [OF entry] rfull_ret)
qed

text \<open>One phase: the rename, and the marker that records it.\<close>

lemma get_vault_top [simp]: "get_vault name (d\<lparr>dd_top := t\<rparr>) = get_vault name d"
  by (simp add: get_vault_def)

lemma rename_moves:
  assumes "complete v" and "n < 3" and "moved_to vault v n d"
  shows "moved_to vault v (Suc n) (rename_item (hex vault) n d)" "dd_marker (rename_item (hex vault) n d) = dd_marker d"
  using assms(3) items_move [OF assms(1,2)] by (auto simp: moved_to_def rename_item_def get_set_vault)

abbreviation between :: "VaultId \<Rightarrow> vault_dir \<Rightarrow> nat \<Rightarrow> data_dir \<Rightarrow> bool" where
  "between vault v n d \<equiv> marked vault n d \<and> (moved_to vault v n d \<or> moved_to vault v (Suc n) d)"

lemma between_migrating: "n < 3 \<Longrightarrow> between vault v n d \<Longrightarrow> migrating vault v d"
  by (auto simp: migrating_def)

lemma move_once_full:
  assumes c: "complete v" and n: "n < 3"
  shows "rfull (between vault v n) (move_once (hex vault) n) (\<lambda>_ d. marked vault n d \<and> moved_to vault v (Suc n) d) (migrating vault v)"
proof -
  let ?M = "migrating vault v"
  have pres: "present n (dd_top d) \<longleftrightarrow> k = n" "(case get_vault (hex vault) d of Some (VaultDir t) \<Rightarrow> present n t | _ \<Rightarrow> False) \<longleftrightarrow> k = Suc n"
    if "moved_to vault v k d" "k = n \<or> k = Suc n" for k d
    using that items_present [OF c n, of k] n by (auto simp: moved_to_def)
  have dn: "rfull (\<lambda>d. marked vault n d \<and> moved_to vault v (Suc n) d) (r_bind r_sync (\<lambda>_. r_sync))
      (\<lambda>_ d. marked vault n d \<and> moved_to vault v (Suc n) d) ?M"
    by (intro rfull_bind [OF rfull_op [where Q = "\<lambda>_ d. marked vault n d \<and> moved_to vault v (Suc n) d"]] rfull_op)
      (auto intro: between_migrating [OF n])
  have ren: "rfull (\<lambda>d. marked vault n d \<and> moved_to vault v n d) (r_op (rename_item (hex vault) n))
      (\<lambda>_ d. marked vault n d \<and> moved_to vault v (Suc n) d) ?M"
    by (rule rfull_op) (auto simp: rename_moves [OF c n] marked_def intro!: between_migrating [OF n])
  let ?Q = "\<lambda>k d. marked vault n d \<and> moved_to vault v k d \<and> (k = n \<or> k = Suc n)"
  have at: "rfull (?Q k) (move_once (hex vault) n) (\<lambda>_ d. marked vault n d \<and> moved_to vault v (Suc n) d) ?M" for k
    unfolding move_once_def
  proof (rule rfull_bind [OF rfull_read [where Q = "\<lambda>s d. ?Q k d \<and> s = (k = n)"]])
    show "?Q k d \<Longrightarrow> ?M d \<and> (\<exists>x. Inr (present n (dd_top d)) = Inr x \<and> ?Q k d \<and> x = (k = n))" for d
      using pres(1) by (auto intro: between_migrating [OF n])
    fix s
    let ?rest = "\<lambda>s t. if s \<and> \<not> t then r_bind (r_op (rename_item (hex vault) n)) (\<lambda>_. r_bind r_sync (\<lambda>_. r_sync))
       else if \<not> s \<and> t then r_bind r_sync (\<lambda>_. r_sync)
       else if s \<and> t then r_ret (Inl (State ''vault migration source and destination both exist''))
       else r_ret (Inl (State ''vault migration source and destination are missing''))"
    show "rfull (\<lambda>d. ?Q k d \<and> s = (k = n)) (r_bind (r_read (\<lambda>d. Inr (case get_vault (hex vault) d of Some (VaultDir t) \<Rightarrow> present n t | _ \<Rightarrow> False)))
        (?rest s)) (\<lambda>_ d. marked vault n d \<and> moved_to vault v (Suc n) d) ?M"
    proof (rule rfull_bind [OF rfull_read [where Q = "\<lambda>t d. (?Q k d \<and> s = (k = n)) \<and> t = (k = Suc n)"]])
      show "?Q k d \<and> s = (k = n) \<Longrightarrow> ?M d \<and> (\<exists>x. Inr (case get_vault (hex vault) d of Some (VaultDir t) \<Rightarrow> present n t | _ \<Rightarrow> False) = Inr x \<and>
          (?Q k d \<and> s = (k = n)) \<and> x = (k = Suc n))" for d
        using pres(2) by (auto intro: between_migrating [OF n])
      show "rfull (\<lambda>d. (?Q k d \<and> s = (k = n)) \<and> t = (k = Suc n)) (?rest s t) (\<lambda>_ d. marked vault n d \<and> moved_to vault v (Suc n) d) ?M" for t
      proof (cases "k = n")
        case True
        then show ?thesis
          by (intro rfull_pure) (auto intro!: rfull_weaken [OF rfull_bind [OF ren dn]])
      next
        case False
        then have vacuous: "\<not> ((?Q k d \<and> s = (k = n)) \<and> t = (k = Suc n))" if "\<not> (k = Suc n \<and> \<not> s \<and> t)" for d
          using that by auto
        show ?thesis
        proof (cases "k = Suc n \<and> \<not> s \<and> t")
          case True
          then show ?thesis by (auto intro: rfull_weaken [OF dn])
        next
          case False
          then show ?thesis using vacuous by (intro rfull_absurd) blast
        qed
      qed
    qed
  qed
  show ?thesis
    by (rule rfull_weaken [OF rfull_ex [of ?Q, OF at]]) auto
qed

lemma write_marker_full:
  assumes "n \<le> 3" and "\<And>d. P d \<Longrightarrow> E d" and "\<And>d bs. P d \<Longrightarrow> encode_vault_migration vault (of_nat n) = Inr bs \<Longrightarrow> R (d\<lparr>dd_marker := Some bs\<rparr>)"
    and "\<And>d. R d \<Longrightarrow> E d"
  shows "rfull P (write_marker vault n) (\<lambda>_. R) E"
proof -
  obtain bs where bs: "encode_vault_migration vault (of_nat n) = Inr bs" using marker_encodes [OF assms(1)] by blast
  show ?thesis
    unfolding write_marker_def bs
    by (rule rfull_bind [OF rfull_ret [where Q = "\<lambda>x d. P d \<and> x = bs"]], simp, rule rfull_op) (auto intro: assms bs)
qed

lemma moved_marker [simp]: "moved_to vault v n (d\<lparr>dd_marker := x\<rparr>) \<longleftrightarrow> moved_to vault v n d"
  by (simp add: moved_to_def get_vault_def)

lemma run_phases_full:
  assumes "complete v" and "n \<le> 3"
  shows "rfull (\<lambda>d. if n < 3 then between vault v n d else marked vault 3 d \<and> moved_to vault v 3 d)
    (run_phases vault [n ..< 3]) (\<lambda>_ d. marked vault 3 d \<and> moved_to vault v 3 d) (migrating vault v)"
  using assms(2)
proof (induction n rule: inc_induct)
  case base
  then show ?case by (auto intro: rfull_ret)
next
  case (step n)
  have "rfull (\<lambda>d. marked vault n d \<and> moved_to vault v (Suc n) d) (write_marker vault (n + 1))
      (\<lambda>_ d. marked vault (Suc n) d \<and> moved_to vault v (Suc n) d) (migrating vault v)"
    by (rule write_marker_full) (use step.hyps in \<open>auto simp: marked_def migrating_def\<close>)
  moreover have "rfull (\<lambda>d. marked vault (Suc n) d \<and> moved_to vault v (Suc n) d) (run_phases vault [Suc n ..< 3])
      (\<lambda>_ d. marked vault 3 d \<and> moved_to vault v 3 d) (migrating vault v)"
    by (rule rfull_weaken [OF step.IH]) (use step.hyps in \<open>auto simp: less_Suc_eq numeral_3_eq_3\<close>)
  ultimately have "rfull (between vault v n) (run_phases vault (n # [Suc n ..< 3]))
      (\<lambda>_ d. marked vault 3 d \<and> moved_to vault v 3 d) (migrating vault v)"
    unfolding run_phases.simps by (rule rfull_bind [OF move_once_full [OF assms(1) step.hyps(2)] rfull_bind])
  then show ?case using step.hyps by (simp add: upt_conv_Cons)
qed

abbreviation finished :: "VaultId \<Rightarrow> vault_dir \<Rightarrow> data_dir \<Rightarrow> bool" where
  "finished vault v d \<equiv> dd_marker d = None \<and> moved_to vault v 3 d"

lemma remove_full: "rfull (\<lambda>d. marked vault 3 d \<and> moved_to vault v 3 d) remove_and_sync (\<lambda>_. finished vault v) (migrating vault v)"
proof (rule rfull_eq)
  show "rfull (\<lambda>d. marked vault 3 d \<and> moved_to vault v 3 d) (r_bind (r_op (\<lambda>d. d\<lparr>dd_marker := None\<rparr>)) (\<lambda>_. r_sync))
      (\<lambda>_. finished vault v) (migrating vault v)"
    by (rule rfull_bind [OF rfull_op [where Q = "\<lambda>_. finished vault v"]]) (auto simp: migrating_def intro!: rfull_op)
qed (auto simp: remove_and_sync_def marked_def)

lemma read_marker_full:
  assumes "\<And>d. P d \<Longrightarrow> E d" and "\<And>d bs. P d \<Longrightarrow> dd_marker d = Some bs \<Longrightarrow> length bs = 33"
  shows "rfull P read_marker (\<lambda>m d. P d \<and> dd_marker d = m) E"
  unfolding read_marker_def
  by (rule rfull_read) (use assms in \<open>auto simp: MAX_STORE_BYTES_def split: option.splits\<close>)

lemma marked_length: "marked vault n d \<Longrightarrow> dd_marker d = Some bs \<Longrightarrow> length bs = 33"
  by (auto simp: marked_def intro: marker_roundtrip(2))

lemma migrating_length: "migrating vault v d \<Longrightarrow> dd_marker d = Some bs \<Longrightarrow> length bs = 33"
  by (auto simp: migrating_def unstarted_def intro: marked_length)

lemma migrating_top: "legacy sha256 vault v \<Longrightarrow> migrating vault v d \<Longrightarrow> d_journal (vd_files (dd_top d)) = None"
  using items_journal(1) [of v] unfolding migrating_def unstarted_def moved_to_def legacy_def complete_def by metis

lemma recover_top_full:
  assumes "legacy sha256 vault v" and "\<And>d. P d \<Longrightarrow> migrating vault v d"
  shows "rfull P (in_top (recover_admission_transaction sha256)) (\<lambda>_. P) (migrating vault v)"
  by (rule rfull_in_top) (use assms in \<open>auto intro: reads_recover migrating_top\<close>)

text \<open>The marker names a phase, and the run that reads it completes the migration.\<close>

lemma verify_full:
  assumes l: "legacy sha256 vault v" and k: "k \<le> 3" and P: "\<And>d. P d \<Longrightarrow> moved_to vault v k d" "\<And>d. P d \<Longrightarrow> migrating vault v d"
  shows "rfull P (r_bind (r_read (\<lambda>d. Inr (present 0 (dd_top d)))) (\<lambda>at_source.
      if at_source then in_top (verify_replica sha256 vault) else in_vault (hex vault) (verify_replica sha256 vault)))
      (\<lambda>_. P) (migrating vault v)"
proof (rule rfull_bind [OF rfull_read [where Q = "\<lambda>s d. P d \<and> s = (k = 0)"]])
  have c: "complete v" using l by (simp add: legacy_def)
  obtain r x where r: "d_replica (vd_files v) = Some r" "length r \<le> MAX_STORE_BYTES" "decode_replica sha256 r (FileId (vault_raw vault)) = Inr x"
    using l unfolding legacy_def by blast
  show "P d \<Longrightarrow> migrating vault v d \<and> (\<exists>x. Inr (present 0 (dd_top d)) = Inr x \<and> P d \<and> x = (k = 0))" for d
    using P(1) [of d] P(2) [of d] items_present(1) [OF c, of 0 k] k by (auto simp: moved_to_def)
  have top: "rfull P (in_top (verify_replica sha256 vault)) (\<lambda>_. P) (migrating vault v)" if "k = 0"
    by (rule rfull_in_top) (use P r that in \<open>auto simp: moved_to_def intro!: reads_verify\<close>)
  have vault: "rfull P (in_vault (hex vault) (verify_replica sha256 vault)) (\<lambda>_. P) (migrating vault v)" if "k \<noteq> 0"
  proof (rule rfull_in_vault)
    fix d assume "P d"
    then show "\<exists>t x. get_vault (hex vault) d = Some (VaultDir t) \<and> reads_at (verify_replica sha256 vault) (vd_files t) x \<and> P d \<and> migrating vault v d"
      using P [of d] reads_verify [OF _ r(2,3), of "vd_files (arrived k v)"] items_replica(2) [of k v] that r(1)
      by (auto simp: moved_to_def)
  qed
  show "rfull (\<lambda>d. P d \<and> s = (k = 0)) (if s then in_top (verify_replica sha256 vault) else in_vault (hex vault) (verify_replica sha256 vault))
      (\<lambda>_. P) (migrating vault v)" for s
    by (rule rfull_pure) (auto intro: top vault)
qed

lemma r_bind_assoc: "r_bind (r_bind p f) g = r_bind p (\<lambda>x. r_bind (f x) g)"
  by (rule ext) (auto simp: r_bind_def split: run.splits sum.splits prod.splits)

text \<open>The marker names a phase, and the run that reads it completes the migration.\<close>

lemma resume_marked:
  assumes l: "legacy sha256 vault v" and lock: "lock None = Inr ()" "lock (Some vault) = Inr ()"
    and k: "k \<le> 3" "k = n \<or> k = Suc n"
  shows "rfull (\<lambda>d. marked vault n d \<and> moved_to vault v k d) (resume_migration sha256 lock) (\<lambda>_. finished vault v) (migrating vault v)"
proof -
  let ?B = "\<lambda>d. marked vault n d \<and> moved_to vault v k d" and ?M = "migrating vault v"
  have c: "complete v" using l by (simp add: legacy_def)
  have n: "n \<le> 3" using k by auto
  have B: "?B d \<Longrightarrow> ?M d" for d using k unfolding migrating_def by auto
  obtain bs where bs: "encode_vault_migration vault (of_nat n) = Inr bs" using marker_encodes [OF n] by blast
  have dec: "decode_vault_migration bs = Inr (vault, of_nat n)" by (rule marker_roundtrip(1) [OF bs])
  have nn: "unat (of_nat n :: byte) = n" using n by (simp add: unat_of_nat)
  have rec: "rfull ?B (in_vault (hex vault) (recover_admission_transaction sha256)) (\<lambda>_. ?B) ?M"
    by (rule rfull_in_vault) (use B in \<open>auto simp: moved_to_def items_journal intro: reads_recover\<close>)
  have prep: "rfull ?B (prepare_vault_directory lock vault) (\<lambda>_. ?B) ?M"
    by (rule rfull_weaken [OF prepare_existing [of ?B]]) (use lock B in \<open>auto simp: moved_to_def\<close>)
  have run: "rfull ?B (run_phases vault [n ..< 3]) (\<lambda>_ d. marked vault 3 d \<and> moved_to vault v 3 d) ?M"
    by (rule rfull_weaken [OF run_phases_full [OF c n]]) (use k in \<open>auto split: if_splits\<close>)
  have tail: "rfull ?B (r_bind (prepare_vault_directory lock vault) (\<lambda>_.
         r_bind (in_vault (hex vault) (recover_admission_transaction sha256)) (\<lambda>_.
         r_bind (r_read (\<lambda>d. Inr (present 0 (dd_top d)))) (\<lambda>at_source.
         r_bind (if at_source then in_top (verify_replica sha256 vault) else in_vault (hex vault) (verify_replica sha256 vault)) (\<lambda>_.
         r_bind (run_phases vault [n ..< 3]) (\<lambda>_. remove_and_sync)))))) (\<lambda>_. finished vault v) ?M"
    unfolding r_bind_assoc [symmetric, of "r_read f" for f]
    by (intro rfull_bind [OF prep] rfull_bind [OF rec] rfull_bind [OF verify_full [OF l k(1)]] rfull_bind [OF run] remove_full) (auto intro: B)
  have mk: "rfull ?B read_marker (\<lambda>m d. ?B d \<and> m = Some bs) ?M"
    by (rule rfull_weaken [OF read_marker_full [of ?B ?M]]) (use B bs in \<open>auto simp: marked_def intro: marked_length [of vault n]\<close>)
  have body: "(case Some bs of None \<Rightarrow> r_ret (Inr ()) | Some bs \<Rightarrow> r_bind (r_ret (decode_vault_migration bs)) f) = f (vault, of_nat n)"
    for f :: "_ \<Rightarrow> unit rio"
    by (rule ext) (simp add: dec r_bind_def r_ret_def)
  show ?thesis
    unfolding resume_migration_def lock(1)
    apply (intro rfull_bind [OF rfull_ret [where Q = "\<lambda>_. ?B"]] rfull_bind [OF recover_top_full [OF l]] rfull_bind [OF mk] B)
    apply assumption
    apply assumption
    apply (rule rfull_pure)
    apply (erule ssubst)
    apply (unfold body prod.case nn)
    apply (rule tail)
    done
qed

text \<open>Without a marker there is nothing to resume.\<close>

lemma resume_idle:
  assumes l: "legacy sha256 vault v" and lock: "lock None = Inr ()"
    and P: "\<And>d. P d \<Longrightarrow> migrating vault v d" "\<And>d. P d \<Longrightarrow> dd_marker d = None"
  shows "rfull P (resume_migration sha256 lock) (\<lambda>_. P) (migrating vault v)"
proof -
  have mk: "rfull P read_marker (\<lambda>m d. P d \<and> m = None) (migrating vault v)"
    by (rule rfull_weaken [OF read_marker_full [of P "migrating vault v"]]) (use P in fastforce)+
  show ?thesis
    unfolding resume_migration_def lock
    apply (intro rfull_bind [OF rfull_ret [where Q = "\<lambda>_. P"]] rfull_bind [OF recover_top_full [OF l]] rfull_bind [OF mk] P(1))
    apply assumption
    apply assumption
    apply (rule rfull_pure)
    apply (auto intro: rfull_ret)
    done
qed

abbreviation migrating_marked :: "VaultId \<Rightarrow> vault_dir \<Rightarrow> data_dir \<Rightarrow> bool" where
  "migrating_marked vault v d \<equiv> \<exists>n k. (marked vault n d \<and> moved_to vault v k d) \<and> k \<le> 3 \<and> (k = n \<or> k = Suc n)"

lemma migrating_cases: "migrating vault v d \<longleftrightarrow> unstarted vault v d \<or> migrating_marked vault v d \<or> finished vault v d"
proof -
  have "(\<exists>n. marked vault n d \<and> (moved_to vault v n d \<or> n < 3 \<and> moved_to vault v (Suc n) d)) \<longleftrightarrow> migrating_marked vault v d"
  proof
    assume "\<exists>n. marked vault n d \<and> (moved_to vault v n d \<or> n < 3 \<and> moved_to vault v (Suc n) d)"
    then obtain n where n: "marked vault n d" "moved_to vault v n d \<or> n < 3 \<and> moved_to vault v (Suc n) d" by blast
    have "n \<le> 3" using n(1) by (simp add: marked_def)
    with n show "migrating_marked vault v d" by (metis Suc_leI)
  qed auto
  then show ?thesis unfolding migrating_def by argo
qed

lemma resume_any:
  assumes l: "legacy sha256 vault v" and lock: "lock None = Inr ()" "lock (Some vault) = Inr ()"
  shows "rfull (migrating vault v) (resume_migration sha256 lock) (\<lambda>_ d. unstarted vault v d \<or> finished vault v d) (migrating vault v)"
proof (rule rfull_at)
  fix d assume "migrating vault v d"
  then consider "unstarted vault v d" | n k where "marked vault n d \<and> moved_to vault v k d" "k \<le> 3" "k = n \<or> k = Suc n" | "finished vault v d"
    unfolding migrating_cases by blast
  then show "rfull (\<lambda>d'. d' = d) (resume_migration sha256 lock) (\<lambda>_ d. unstarted vault v d \<or> finished vault v d) (migrating vault v)"
  proof cases
    case 1
    have "rfull (unstarted vault v) (resume_migration sha256 lock) (\<lambda>_. unstarted vault v) (migrating vault v)"
      by (rule resume_idle [where lock = lock, OF l lock(1)]) (auto simp: migrating_cases unstarted_def)
    then show ?thesis by (rule rfull_weaken) (use 1 in auto)
  next
    case 2
    show ?thesis by (rule rfull_weaken [OF resume_marked [OF l lock 2(2,3)]]) (use 2 in auto)
  next
    case 3
    have "rfull (finished vault v) (resume_migration sha256 lock) (\<lambda>_. finished vault v) (migrating vault v)"
      by (rule resume_idle [where lock = lock, OF l lock(1)]) (auto simp: migrating_cases)
    then show ?thesis by (rule rfull_weaken) (use 3 in auto)
  qed
qed

text \<open>\<open>migrate_legacy\<close> completes the migration from wherever an earlier run left it.\<close>

lemma empty_admission: "d_admission (vd_files empty_vault) = None"
  by (simp add: empty_vault_def)

lemma migrate_unstarted:
  assumes l: "legacy sha256 vault v" and lock: "lock None = Inr ()" "lock (Some vault) = Inr ()"
    and a: "d_admission (vd_files v) = Some a" "length a \<le> MAX_STORE_BYTES" "decode_vault_metadata a = Inr m" "vm_vault_id m = vault"
  shows "rfull (unstarted vault v)
     (r_bind (in_top (read_private Admission)) (\<lambda>admission.
       case admission of
         None \<Rightarrow> r_ret (Inr ())
       | Some bs \<Rightarrow>
           r_bind (r_ret (decode_vault_metadata bs)) (\<lambda>metadata.
           r_bind (in_top (verify_replica sha256 (vm_vault_id metadata))) (\<lambda>_.
           r_bind (prepare_vault_directory lock (vm_vault_id metadata)) (\<lambda>_.
           r_bind (write_marker (vm_vault_id metadata) 0) (\<lambda>_.
           resume_migration sha256 lock))))))
     (\<lambda>_. finished vault v) (migrating vault v)"
proof -
  let ?U = "unstarted vault v" and ?M = "migrating vault v"
  have U: "?U d \<Longrightarrow> ?M d" for d by (simp add: migrating_cases)
  have read: "rfull ?U (in_top (read_private Admission)) (\<lambda>x d. ?U d \<and> x = Some a) ?M"
    by (rule rfull_in_top) (use a U in \<open>auto simp: unstarted_def intro: reads_at_admission\<close>)
  obtain r x where r: "d_replica (vd_files v) = Some r" "length r \<le> MAX_STORE_BYTES" "decode_replica sha256 r (FileId (vault_raw vault)) = Inr x"
    using l unfolding legacy_def by blast
  have verify: "rfull ?U (in_top (verify_replica sha256 vault)) (\<lambda>_. ?U) ?M"
    by (rule rfull_in_top) (use r U in \<open>auto simp: unstarted_def intro!: reads_verify\<close>)
  let ?P = "\<lambda>d. ?U d \<and> get_vault (hex vault) d = Some (VaultDir empty_vault)"
  have prep: "rfull ?U (prepare_vault_directory lock vault) (\<lambda>_. ?P) ?M"
    by (rule rfull_weaken [OF prepare_unstarted [OF lock]]) (auto intro: U)
  have mark: "rfull ?P (write_marker vault 0) (\<lambda>_ d. marked vault 0 d \<and> moved_to vault v 0 d) ?M"
    by (rule write_marker_full) (auto simp: unstarted_def moved_to_def get_vault_def marked_def migrating_def)
  have resume: "rfull (\<lambda>d. marked vault 0 d \<and> moved_to vault v 0 d) (resume_migration sha256 lock) (\<lambda>_. finished vault v) ?M"
    by (rule resume_marked [OF l lock]) auto
  have body: "(case Some a of None \<Rightarrow> r_ret (Inr ()) | Some bs \<Rightarrow> r_bind (r_ret (decode_vault_metadata bs)) f) = f m"
    for f :: "_ \<Rightarrow> unit rio"
    by (rule ext) (simp add: a r_bind_def r_ret_def)
  show ?thesis
    apply (rule rfull_bind [OF read])
    apply (rule rfull_pure)
    apply (erule ssubst)
    apply (unfold body a(4))
    apply (intro rfull_bind [OF verify] rfull_bind [OF prep] rfull_bind [OF mark] resume)
    done
qed

lemma marker_read_full:
  assumes "\<And>d. P d \<Longrightarrow> migrating vault v d" and "\<And>d. P d \<Longrightarrow> (dd_marker d \<noteq> None) = b"
  shows "rfull P (r_read (\<lambda>d. Inr (dd_marker d \<noteq> None))) (\<lambda>x d. P d \<and> x = b) (migrating vault v)"
  by (rule rfull_read) (use assms in auto)

lemma migrate_head:
  assumes l: "legacy sha256 vault v" and lock: "lock None = Inr ()"
    and P: "\<And>d. P d \<Longrightarrow> migrating vault v d" "\<And>d. P d \<Longrightarrow> (dd_marker d \<noteq> None) = b"
    and rest: "rfull P (if b then p else q) Q (migrating vault v)"
  shows "rfull P (r_bind (r_ret (lock None)) (\<lambda>_. r_bind (in_top (recover_admission_transaction sha256)) (\<lambda>_.
     r_bind (r_read (\<lambda>d. Inr (dd_marker d \<noteq> None))) (\<lambda>marked. if marked then p else q)))) Q (migrating vault v)"
  unfolding lock
proof (intro rfull_bind [OF rfull_ret [where Q = "\<lambda>_. P"]] rfull_bind [OF recover_top_full [OF l, of P]] rfull_bind [OF marker_read_full [OF P]])
  show "rfull (\<lambda>d. P d \<and> x = b) (if x then p else q) Q (migrating vault v)" for x
    by (rule rfull_pure) (simp add: rest)
qed (auto intro: P)

lemma migrate_any:
  assumes l: "legacy sha256 vault v" and lock: "lock None = Inr ()" "lock (Some vault) = Inr ()"
  shows "rfull (migrating vault v) (migrate_legacy sha256 lock) (\<lambda>_. finished vault v) (migrating vault v)"
proof (rule rfull_at)
  obtain a m where a: "d_admission (vd_files v) = Some a" "length a \<le> MAX_STORE_BYTES" "decode_vault_metadata a = Inr m" "vm_vault_id m = vault"
    using l unfolding legacy_def by blast
  fix d assume "migrating vault v d"
  then consider "unstarted vault v d" | n k where "marked vault n d \<and> moved_to vault v k d" "k \<le> 3" "k = n \<or> k = Suc n" | "finished vault v d"
    unfolding migrating_cases by blast
  then show "rfull (\<lambda>d'. d' = d) (migrate_legacy sha256 lock) (\<lambda>_. finished vault v) (migrating vault v)"
  proof cases
    case 1
    have "rfull (unstarted vault v) (migrate_legacy sha256 lock) (\<lambda>_. finished vault v) (migrating vault v)"
      unfolding migrate_legacy_def
      by (rule migrate_head [where b = False and lock = lock, OF l lock(1)]) (auto simp: migrating_cases unstarted_def intro!: migrate_unstarted [OF l lock a])
    from rfull_here [OF this 1] show ?thesis .
  next
    case 2
    have "rfull (\<lambda>d. marked vault n d \<and> moved_to vault v k d) (migrate_legacy sha256 lock) (\<lambda>_. finished vault v) (migrating vault v)"
      unfolding migrate_legacy_def
      by (rule migrate_head [where b = True and lock = lock, OF l lock(1)]) (use 2(2,3) resume_marked [OF l lock 2(2,3)] in \<open>auto simp: migrating_cases marked_def\<close>)
    from rfull_here [OF this 2(1)] show ?thesis .
  next
    case 3
    have "left_behind 3 v = empty_vault" using items_3 l by (simp add: legacy_def)
    then have none: "d_admission (vd_files (dd_top d)) = None" if "finished vault v d" for d
      using that by (simp add: moved_to_def empty_vault_def)
    have read: "rfull (finished vault v) (in_top (read_private Admission)) (\<lambda>x d. finished vault v d \<and> x = None) (migrating vault v)"
      by (rule rfull_in_top) (use none in \<open>auto simp: migrating_cases intro: reads_at_admission\<close>)
    have "rfull (finished vault v) (migrate_legacy sha256 lock) (\<lambda>_. finished vault v) (migrating vault v)"
      unfolding migrate_legacy_def
      apply (rule migrate_head [where b = False and lock = lock, OF l lock(1)])
      apply (simp add: migrating_cases)
      apply simp
      apply (unfold if_False)
      apply (rule rfull_bind [OF read])
      apply (rule rfull_pure)
      apply (simp add: rfull_ret)
      done
    from rfull_here [OF this 3] show ?thesis .
  qed
qed

section \<open>Discovery\<close>

text \<open>Discovery recovers and reads; what it changes are journals of other vaults.\<close>

definition harmless :: "'a io \<Rightarrow> bool" where
  "harmless p \<longleftrightarrow> (\<forall>os f. d_journal f = None \<longrightarrow> snd (snd (p (os, f))) = f)"

lemma harmless_recover: "harmless (recover_admission_transaction sha256)"
  unfolding harmless_def
proof (intro allI impI)
  fix os and f :: dir assume "d_journal f = None"
  from reads_recover [OF this, of sha256] show "snd (snd (recover_admission_transaction sha256 (os, f))) = f"
    unfolding reads_at_def by (drule_tac spec [of _ os]) (auto split: prod.splits run.splits sum.splits)
qed

lemma harmless_ret: "harmless (io_ret x)"
  by (simp add: harmless_def io_ret_def)

lemma harmless_read: "harmless (io_read f)"
  by (auto simp: harmless_def io_read_def io_bind_def io_op_def split: list.splits outcome.splits)

lemma harmless_bind: "harmless p \<Longrightarrow> (\<And>x. harmless (f x)) \<Longrightarrow> harmless (io_bind p f)"
  unfolding harmless_def
proof (intro allI impI)
  fix os and d :: dir assume p: "\<forall>os f. d_journal f = None \<longrightarrow> snd (snd (p (os, f))) = f"
    and f: "\<And>x. \<forall>os d. d_journal d = None \<longrightarrow> snd (snd (f x (os, d))) = d" and d: "d_journal d = None"
  obtain r os' d' where r: "p (os, d) = (r, os', d')" by (metis prod_cases3)
  with p d have "d' = d" by (metis snd_conv)
  with f d r show "snd (snd (io_bind p f (os, d))) = d"
    by (auto simp: io_bind_def split: run.splits sum.splits)
qed

lemma harmless_private: "harmless (read_private file)"
  unfolding read_private_def by (rule harmless_read)

lemma harmless_verify: "harmless (verify_replica sha256 vault)"
  unfolding verify_replica_def by (intro harmless_bind harmless_private harmless_ret)

lemma migrating_in_vault:
  assumes "legacy sha256 vault v" and "harmless p"
  shows "rtriple (migrating vault v) (in_vault name p) (\<lambda>_. migrating vault v) (migrating vault v)"
  unfolding rtriple_def
proof (intro allI impI)
  fix os d assume m: "migrating vault v d"
  have "migrating vault v (snd (snd (in_vault name p (os, d))))"
  proof (cases "\<exists>t. get_vault name d = Some (VaultDir t)")
    case False
    then have "snd (snd (in_vault name p (os, d))) = d"
      by (auto simp: in_vault_def split: option.splits vault_entry.splits)
    then show ?thesis using m by simp
  next
    case True
    then obtain t where t: "get_vault name d = Some (VaultDir t)" by blast
    let ?f = "snd (snd (p (os, vd_files t)))"
    have r: "snd (snd (in_vault name p (os, d))) = set_vault name (t\<lparr>vd_files := ?f\<rparr>) d"
      using t by (simp add: in_vault_def split: prod.splits)
    show ?thesis
    proof (cases "name = hex vault")
      case True
      then have "d_journal (vd_files t) = None"
        using m t by (auto simp: migrating_def unstarted_def moved_to_def items_journal(2) empty_vault_def simp del: arrived.simps)
      then have "?f = vd_files t" using assms(2) by (simp add: harmless_def)
      then show ?thesis using m t by (simp add: r set_vault_same)
    next
      case False
      have same: "get_vault (hex vault) (set_vault name w d) = get_vault (hex vault) d" for w
        using t False by (simp add: get_set_vault)
      show ?thesis
        using m unfolding r migrating_def unstarted_def moved_to_def marked_def same set_vault_fields
        by (simp add: set_vault_root)
    qed
  qed
  then show "case in_vault name p (os, d) of (Ret (Inr x), _, d') \<Rightarrow> migrating vault v d' | (_, _, d') \<Rightarrow> migrating vault v d'"
    by (auto split: prod.splits run.splits sum.splits)
qed

lemma migrating_in_top:
  assumes "legacy sha256 vault v" and "harmless p"
  shows "rtriple (migrating vault v) (in_top p) (\<lambda>_. migrating vault v) (migrating vault v)"
  unfolding rtriple_def
proof (intro allI impI)
  fix os d assume m: "migrating vault v d"
  have "snd (snd (p (os, vd_files (dd_top d)))) = vd_files (dd_top d)"
    using assms(2) migrating_top [OF assms(1) m] by (simp add: harmless_def)
  then have "snd (snd (in_top p (os, d))) = d"
    by (auto simp: in_top_def split: prod.splits)
  with m show "case in_top p (os, d) of (Ret (Inr x), _, d') \<Rightarrow> migrating vault v d' | (_, _, d') \<Rightarrow> migrating vault v d'"
    by (auto split: prod.splits run.splits sum.splits)
qed

definition dd_keeps :: "(data_dir \<Rightarrow> bool) \<Rightarrow> 'a rio \<Rightarrow> bool" where
  "dd_keeps P p \<longleftrightarrow> rtriple P p (\<lambda>_. P) P"

lemma dd_keeps_ret: "dd_keeps P (r_ret x)"
  unfolding dd_keeps_def by (rule rtriple_ret) auto

lemma dd_keeps_bind: "dd_keeps P p \<Longrightarrow> (\<And>x. dd_keeps P (f x)) \<Longrightarrow> dd_keeps P (r_bind p f)"
  unfolding dd_keeps_def by (rule rtriple_bind)

lemma dd_keeps_sync: "dd_keeps P r_sync"
  unfolding dd_keeps_def by (rule rtriple_op) auto

lemma dd_keeps_read: "dd_keeps P (r_read f)"
  unfolding dd_keeps_def by (rule rtriple_read) auto

lemma dd_keeps_if: "dd_keeps P p \<Longrightarrow> dd_keeps P q \<Longrightarrow> dd_keeps P (if b then p else q)"
  by simp

lemmas dd_keeps_rules = dd_keeps_ret dd_keeps_bind dd_keeps_sync dd_keeps_read dd_keeps_if

lemma discover_keeps_migrating:
  assumes l: "legacy sha256 vault v" and lock: "lock None = Inr ()" "lock (Some vault) = Inr ()"
  shows "dd_keeps (migrating vault v) (discover_vaults sha256 lock)"
proof -
  let ?M = "migrating vault v"
  note vault = migrating_in_vault [OF l, folded dd_keeps_def]
  note ops = dd_keeps_rules vault [OF harmless_recover] vault [OF harmless_private] vault [OF harmless_verify]
  have entry: "dd_keeps ?M (discover_entry sha256 e vs)" for e vs
    unfolding discover_entry_def Let_def by (intro ops)
  have entries: "dd_keeps ?M (discover_entries sha256 es vs)" for es vs
    by (induction es arbitrary: vs) (simp_all add: dd_keeps_ret dd_keeps_bind entry)
  note top = migrating_in_top [OF l, folded dd_keeps_def]
  have resume: "dd_keeps ?M (resume_migration sha256 lock)"
    unfolding dd_keeps_def by (rule rtriple_weaken [OF rfull_rtriple [OF resume_any [OF l lock]]]) (auto simp: migrating_cases)
  have legacy: "dd_keeps ?M (case x of None \<Rightarrow> r_ret (Inr []) | Some bs \<Rightarrow> r_bind (r_ret (decode_vault_metadata bs)) (\<lambda>metadata.
       r_bind (in_top (verify_replica sha256 (vm_vault_id metadata))) (\<lambda>_. r_ret (Inr [(vm_vault_id metadata, None)]))))" for x
    by (cases x) (auto intro!: dd_keeps_rules top [OF harmless_verify])
  have root: "dd_keeps ?M (case x of NoVaults \<Rightarrow> r_ret (Inr vs) | NotADirectory \<Rightarrow> r_ret (Inl (InvalidInput ''vault path must be a real directory''))
       | Vaults es \<Rightarrow> discover_entries sha256 es vs)" for x vs
    by (cases x) (auto intro!: dd_keeps_rules entries)
  show ?thesis
    unfolding discover_vaults_def
    by (intro dd_keeps_rules top [OF harmless_recover] top [OF harmless_private] resume legacy root)
qed

section \<open>The life of a data directory\<close>

text \<open>Any of the three operations that touch the old layout runs, under any outcomes of its file operations.\<close>

inductive registry_step :: "(bytes \<Rightarrow> 256 word) \<Rightarrow> (VaultId option \<Rightarrow> unit result) \<Rightarrow> data_dir \<Rightarrow> data_dir \<Rightarrow> bool"
  for sha256 lock where
  Migrate: "migrate_legacy sha256 lock (os, d) = (r, os', d') \<Longrightarrow> registry_step sha256 lock d d'"
| Resume: "resume_migration sha256 lock (os, d) = (r, os', d') \<Longrightarrow> registry_step sha256 lock d d'"
| Discover: "discover_vaults sha256 lock (os, d) = (r, os', d') \<Longrightarrow> registry_step sha256 lock d d'"

lemma dd_keeps_end: "dd_keeps P p \<Longrightarrow> P d \<Longrightarrow> p (os, d) = (r, os', d') \<Longrightarrow> P d'"
  using rtriple_always [of P p "\<lambda>_. P" P d P os] by (simp add: dd_keeps_def)

definition can_migrate :: "(bytes \<Rightarrow> 256 word) \<Rightarrow> (VaultId option \<Rightarrow> unit result) \<Rightarrow> VaultId \<Rightarrow> vault_dir \<Rightarrow> bool" where
  "can_migrate sha256 lock vault v \<longleftrightarrow> legacy sha256 vault v \<and> lock None = Inr () \<and> lock (Some vault) = Inr ()"

interpretation registry: transition_system
  "\<lambda>d. can_migrate sha256 lock vault v \<and> unstarted vault v d" "registry_step sha256 lock"
  "\<lambda>d. can_migrate sha256 lock vault v \<and> migrating vault v d" for sha256 lock vault v
proof
  show "can_migrate sha256 lock vault v \<and> unstarted vault v d \<Longrightarrow> can_migrate sha256 lock vault v \<and> migrating vault v d" for d
    by (simp add: migrating_cases)
  fix d d' assume m: "can_migrate sha256 lock vault v \<and> migrating vault v d" and s: "registry_step sha256 lock d d'"
  have l: "legacy sha256 vault v" "lock None = Inr ()" "lock (Some vault) = Inr ()" using m by (simp_all add: can_migrate_def)
  have "dd_keeps (migrating vault v) (migrate_legacy sha256 lock)" "dd_keeps (migrating vault v) (resume_migration sha256 lock)"
    unfolding dd_keeps_def
    by (rule rtriple_weaken [OF rfull_rtriple [OF migrate_any [OF l]]] rtriple_weaken [OF rfull_rtriple [OF resume_any [OF l]]];
        auto simp: migrating_cases)+
  with s m show "can_migrate sha256 lock vault v \<and> migrating vault v d'"
    by (cases rule: registry_step.cases) (auto elim: dd_keeps_end intro: dd_keeps_end [OF discover_keeps_migrating [OF l]])
qed

lemma migration_completes:
  assumes "can_migrate sha256 lock vault v" and "migrating vault v d"
  shows "\<exists>d'. migrate_legacy sha256 lock ([], d) = (Ret (Inr ()), [], d') \<and> finished vault v d'"
  using rfull_done [OF migrate_any] assms by (fastforce simp: can_migrate_def)

end
