(* ===== verification/Registry_Discovery.thy ===== *)
theory Registry_Discovery
  imports Registry_Inv Sample
begin

text \<open>
  What \<open>discover_vaults\<close> returns: each vault of the data directory once, in the order of the ids, under the name
  its id has in hexadecimal, with an admission file for that id and a snapshot that decodes for it; and every
  directory under \<open>vaults\<close> that is not hidden. It also shows what a creation that was cut off does to it.
\<close>

definition files_sound :: "(bytes \<Rightarrow> 256 word) \<Rightarrow> VaultId \<Rightarrow> dir \<Rightarrow> bool" where
  "files_sound sha256 vault f \<longleftrightarrow>
     (\<exists>a m. d_admission f = Some a \<and> decode_vault_metadata a = Inr m \<and> vm_vault_id m = vault) \<and>
     (\<exists>r x. d_replica f = Some r \<and> decode_replica sha256 r (FileId (vault_raw vault)) = Inr x)"

definition place_sound :: "(bytes \<Rightarrow> 256 word) \<Rightarrow> data_dir \<Rightarrow> VaultId \<times> bytes option \<Rightarrow> bool" where
  "place_sound sha256 d e \<longleftrightarrow> (case snd e of
       None \<Rightarrow> files_sound sha256 (fst e) (vd_files (dd_top d))
     | Some name \<Rightarrow> name = hex (fst e) \<and> (\<exists>t. get_vault name d = Some (VaultDir t) \<and> files_sound sha256 (fst e) (vd_files t)))"

abbreviation hidden :: "bytes \<Rightarrow> bool" where
  "hidden name \<equiv> name \<noteq> [] \<and> hd name = 46"

text \<open>Partial correctness only: on success.\<close>

abbreviation yields :: "(data_dir \<Rightarrow> bool) \<Rightarrow> 'a rio \<Rightarrow> ('a \<Rightarrow> data_dir \<Rightarrow> bool) \<Rightarrow> bool" where
  "yields P p Q \<equiv> rtriple P p Q (\<lambda>_. True)"

lemma yields_ret: "(\<And>d x. P d \<Longrightarrow> r = Inr x \<Longrightarrow> Q x d) \<Longrightarrow> yields P (r_ret r) Q"
  by (rule rtriple_ret) auto

lemma yields_in_vault:
  assumes "\<And>d t os os' f' x. P d \<Longrightarrow> get_vault name d = Some (VaultDir t) \<Longrightarrow> p (os, vd_files t) = (Ret (Inr x), os', f') \<Longrightarrow>
    Q x (set_vault name (t\<lparr>vd_files := f'\<rparr>) d)"
  shows "yields P (in_vault name p) Q"
  using assms by (auto simp: rtriple_def in_vault_def split: option.splits vault_entry.splits prod.splits run.splits sum.splits)

lemma yields_in_top:
  assumes "\<And>d os os' f' x. P d \<Longrightarrow> p (os, vd_files (dd_top d)) = (Ret (Inr x), os', f') \<Longrightarrow> Q x (d\<lparr>dd_top := (dd_top d)\<lparr>vd_files := f'\<rparr>\<rparr>)"
  shows "yields P (in_top p) Q"
  using assms by (auto simp: rtriple_def in_top_def split: prod.splits run.splits sum.splits)

lemma private_returns: "read_private file (os, f) = (Ret (Inr x), os', f') \<Longrightarrow> f' = f \<and> x = file_get file f"
  by (auto simp: read_private_def io_read_def io_bind_def io_op_def split: list.splits outcome.splits option.splits if_splits)

lemma verify_returns:
  assumes "verify_replica sha256 vault (os, f) = (Ret (Inr x), os', f')"
  shows "f' = f \<and> (\<exists>r x. d_replica f = Some r \<and> decode_replica sha256 r (FileId (vault_raw vault)) = Inr x)"
proof -
  obtain y os1 f1 where r: "read_private Replica (os, f) = (Ret (Inr y), os1, f1)"
    using assms by (auto simp: verify_replica_def io_bind_def split: prod.splits run.splits sum.splits)
  with assms private_returns [OF r] show ?thesis
    by (auto simp: verify_replica_def io_bind_def io_ret_def file_get_def ok_or_def split: sum.splits option.splits)
qed

section \<open>One directory\<close>

definition vault_names :: "data_dir \<Rightarrow> bytes set" where
  "vault_names d = {name. get_vault name d \<noteq> None}"

text \<open>The vaults listed so far, and the directories seen so far.\<close>

definition listed :: "(bytes \<Rightarrow> 256 word) \<Rightarrow> bytes set \<Rightarrow> bytes set \<Rightarrow> vault_list \<Rightarrow> data_dir \<Rightarrow> bool" where
  "listed sha256 names seen vs d \<longleftrightarrow>
     distinct (map fst vs) \<and> (\<forall>e \<in> set vs. place_sound sha256 d e) \<and>
     vault_names d = names \<and> (\<forall>name \<in> seen. \<not> hidden name \<longrightarrow> Some name \<in> snd ` set vs)"

lemma names_set: "get_vault name d \<noteq> None \<Longrightarrow> vault_names (set_vault name v d) = vault_names d"
  by (auto simp: vault_names_def get_set_vault)

definition others :: "(bytes \<Rightarrow> 256 word) \<Rightarrow> bytes set \<Rightarrow> bytes set \<Rightarrow> vault_list \<Rightarrow> bytes \<Rightarrow> data_dir \<Rightarrow> bool" where
  "others sha256 names seen vs n d \<longleftrightarrow>
     distinct (map fst vs) \<and> (\<forall>e \<in> set vs. if snd e = Some n then n = hex (fst e) else place_sound sha256 d e) \<and>
     vault_names d = names \<and> (\<forall>name \<in> seen. \<not> hidden name \<longrightarrow> Some name \<in> snd ` set vs)"

lemma hex_inj: "hex a = hex b \<longleftrightarrow> a = b"
  using parse_hex_iff [of "hex a" b] by (auto simp: parse_hex)

lemma listed_others:
  assumes "listed sha256 names seen vs d" and "get_vault n d = Some (VaultDir t)"
  shows "others sha256 names seen vs n (set_vault n t' d)"
proof -
  have "if snd e = Some n then n = hex (fst e) else place_sound sha256 (set_vault n t' d) e" if "place_sound sha256 d e" for e
    using that assms(2) by (auto simp: place_sound_def get_set_vault split: option.splits)
  with assms show ?thesis by (auto simp: listed_def others_def names_set)
qed

lemma others_listed:
  assumes o: "others sha256 names seen vs (hex vault) d" and t: "get_vault (hex vault) d = Some (VaultDir t)"
    and s: "files_sound sha256 vault (vd_files t)" and new: "vault \<notin> fst ` set vs"
  shows "listed sha256 names (insert (hex vault) seen) (vs @ [(vault, Some (hex vault))]) d"
proof -
  have "place_sound sha256 d e" if "e \<in> set vs" for e
  proof -
    have "fst e \<noteq> vault" using that new by auto
    then show ?thesis using o that unfolding others_def by (metis hex_inj)
  qed
  with o t s new show ?thesis by (auto simp: listed_def others_def place_sound_def)
qed

lemma entry_listed:
  "yields (listed sha256 names seen vs) (discover_entry sha256 entry vs) (listed sha256 names (insert (fst entry) seen))"
proof (cases "hidden (fst entry)")
  case True
  then show ?thesis
    unfolding discover_entry_def Let_def if_P [OF True]
    by (intro rtriple_bind [OF rtriple_op [where Q = "\<lambda>_. listed sha256 names seen vs"]]
        rtriple_bind [OF yields_ret [where Q = "\<lambda>_. listed sha256 names seen vs"]] yields_ret) (auto simp: listed_def)
next
  case False
  let ?n = "fst entry" and ?L = "listed sha256 names seen vs"
  let ?W = "\<lambda>vault K d. ?n = hex vault \<and> others sha256 names seen vs ?n d \<and> (\<exists>t. get_vault ?n d = Some (VaultDir t) \<and> K t)"
  let ?adm = "\<lambda>vault t. \<exists>a m. d_admission (vd_files t) = Some a \<and> decode_vault_metadata a = Inr m \<and> vm_vault_id m = vault"
  have recover: "yields (\<lambda>d. ?L d \<and> ?n = hex vault) (in_vault ?n (recover_admission_transaction sha256)) (\<lambda>_. ?W vault (\<lambda>_. True))" for vault
    by (rule yields_in_vault) (auto simp: get_set_vault intro: listed_others)
  have read: "yields (?W vault (\<lambda>_. True)) (in_vault ?n (read_private Admission)) (\<lambda>bs. ?W vault (\<lambda>t. d_admission (vd_files t) = bs))" for vault
    by (rule yields_in_vault) (auto simp: set_vault_same file_get_def dest!: private_returns)
  have verify: "yields (\<lambda>d. ?W vault (?adm vault) d \<and> vault \<notin> fst ` set vs) (in_vault ?n (verify_replica sha256 vault))
      (\<lambda>_ d. ?W vault (\<lambda>t. files_sound sha256 vault (vd_files t)) d \<and> vault \<notin> fst ` set vs)" for vault
    by (rule yields_in_vault) (auto simp: set_vault_same files_sound_def dest!: verify_returns)
  have tail: "yields (?W vault (\<lambda>t. d_admission (vd_files t) = bs))
      (r_bind (r_ret (and_then (ok_or bs (State ''vault admission file is missing'')) decode_vault_metadata)) (\<lambda>metadata.
       r_bind (r_ret (guard_ok (vm_vault_id metadata = vault) (State ''vault directory id differs from admission file''))) (\<lambda>_.
       r_bind (r_ret (guard_ok (vault \<notin> fst ` set vs) (State ''duplicate vault id on disk''))) (\<lambda>_.
       r_bind (in_vault ?n (verify_replica sha256 vault)) (\<lambda>_.
       r_ret (Inr (vs @ [(vault, Some ?n)]))))))) (listed sha256 names (insert ?n seen))" for vault bs
    apply (rule rtriple_bind [OF yields_ret [where Q = "\<lambda>m. ?W vault (\<lambda>t. \<exists>a. d_admission (vd_files t) = Some a \<and> decode_vault_metadata a = Inr m)"]])
    apply (force simp: ok_or_def split: option.splits)
    apply (rule rtriple_bind [OF yields_ret [where Q = "\<lambda>_. ?W vault (?adm vault)"]])
    apply (force simp: guard_ok_def split: if_splits)
    apply (rule rtriple_bind [OF yields_ret [where Q = "\<lambda>_ d. ?W vault (?adm vault) d \<and> vault \<notin> fst ` set vs"]])
    apply (simp add: guard_ok_def split: if_splits)
    apply (rule rtriple_bind [OF verify yields_ret])
    apply (auto intro: others_listed)
    done
  show ?thesis
    unfolding discover_entry_def Let_def if_not_P [OF False]
    apply (rule rtriple_bind [OF rtriple_op [where Q = "\<lambda>_. ?L"]], simp)
    apply (rule rtriple_bind [OF yields_ret [where Q = "\<lambda>_. ?L"]], assumption)
    apply (rule rtriple_bind [OF yields_ret [where Q = "\<lambda>_. ?L"]], assumption)
    apply (rule rtriple_bind [OF yields_ret [where Q = "\<lambda>vault d. ?L d \<and> ?n = hex vault"]], simp add: parse_hex_iff)
    apply (rule rtriple_bind [OF recover rtriple_bind [OF read tail]])
    done
qed

section \<open>The whole directory\<close>

lemma entries_listed:
  "yields (listed sha256 names seen vs) (discover_entries sha256 es vs) (listed sha256 names (seen \<union> fst ` set es))"
proof (induction es arbitrary: seen vs)
  case Nil
  then show ?case by (auto intro: yields_ret)
next
  case (Cons e es)
  have "rtriple (listed sha256 names (insert (fst e) seen) vs) (discover_entries sha256 es vs) (listed sha256 names (seen \<union> fst ` set (e # es))) (\<lambda>_. True)" for vs
    using Cons.IH [of "insert (fst e) seen" vs] by simp
  then show ?case
    unfolding discover_entries.simps by (rule rtriple_bind [OF entry_listed])
qed

lemma listed_sorted: "listed sha256 names seen vs d \<Longrightarrow> listed sha256 names seen (sort_key f vs) d"
  by (auto simp: listed_def distinct_map)

lemma vault_names_entries: "dd_vaults d = Vaults es \<Longrightarrow> vault_names d = fst ` set es"
  using map_of_eq_None_iff [of es] by (auto simp: vault_names_def get_vault_def)

lemma discover_listed:
  "yields (\<lambda>_. True) (discover_vaults sha256 lock) (\<lambda>vs d. listed sha256 (vault_names d) (vault_names d) vs d \<and> sorted (map fst vs))"
proof -
  let ?L = "\<lambda>vs d. listed sha256 (vault_names d) {} vs d" and ?T = "\<lambda>_ _. True"
  let ?Q = "\<lambda>vs d. listed sha256 (vault_names d) (vault_names d) vs d"
  have read: "yields (\<lambda>_. True) (in_top (read_private Admission)) (\<lambda>bs d. d_admission (vd_files (dd_top d)) = bs)"
    by (rule yields_in_top) (auto simp: file_get_def dest!: private_returns)
  have old: "yields (\<lambda>d. d_admission (vd_files (dd_top d)) = legacy) (case legacy of
         None \<Rightarrow> r_ret (Inr [])
       | Some bs \<Rightarrow>
           r_bind (r_ret (decode_vault_metadata bs)) (\<lambda>metadata.
           r_bind (in_top (verify_replica sha256 (vm_vault_id metadata))) (\<lambda>_.
           r_ret (Inr [(vm_vault_id metadata, None)])))) ?L" for legacy
  proof (cases legacy)
    case None
    then show ?thesis by (auto simp: listed_def intro: yields_ret)
  next
    case (Some bs)
    have v: "yields (\<lambda>d. d_admission (vd_files (dd_top d)) = Some bs \<and> decode_vault_metadata bs = Inr m) (in_top (verify_replica sha256 (vm_vault_id m)))
        (\<lambda>_ d. files_sound sha256 (vm_vault_id m) (vd_files (dd_top d)))" for m
      by (rule yields_in_top) (auto simp: files_sound_def dest!: verify_returns)
    show ?thesis
      unfolding Some option.case
      by (intro rtriple_bind [OF yields_ret [where Q = "\<lambda>m d. d_admission (vd_files (dd_top d)) = Some bs \<and> decode_vault_metadata bs = Inr m"]] rtriple_bind [OF v] yields_ret)
        (auto simp: listed_def place_sound_def)
  qed
  have root: "yields (\<lambda>d. ?L vs d \<and> dd_vaults d = root) (case root of
         NoVaults \<Rightarrow> r_ret (Inr vs)
       | NotADirectory \<Rightarrow> r_ret (Inl (InvalidInput ''vault path must be a real directory''))
       | Vaults entries \<Rightarrow> discover_entries sha256 entries vs) ?Q" for root vs
  proof (cases root)
    case (Vaults es)
    have "yields (\<lambda>d. ?L vs d \<and> dd_vaults d = root) (discover_entries sha256 es vs) (listed sha256 (fst ` set es) ({} \<union> fst ` set es))"
      by (rule rtriple_weaken [OF entries_listed [where names = "fst ` set es"]]) (auto simp: Vaults vault_names_entries)
    then show ?thesis
      unfolding Vaults vaults_root.case by (rule rtriple_weaken) (auto simp: listed_def)
  qed (auto simp: vault_names_def get_vault_def intro!: yields_ret)
  show ?thesis
    unfolding discover_vaults_def
    apply (rule rtriple_bind [OF yields_ret [where Q = ?T]], simp)
    apply (rule rtriple_bind [OF yields_in_top [where Q = ?T]], simp)
    apply (rule rtriple_bind [where R = ?T], simp add: rtriple_def split: prod.splits run.splits sum.splits)
    apply (rule rtriple_bind [OF read rtriple_bind [OF old]])
    apply (rule rtriple_bind [OF rtriple_read [where Q = "\<lambda>root d. ?L vs d \<and> dd_vaults d = root" for vs]], simp, simp)
    apply (rule rtriple_bind [OF root yields_ret])
    apply (auto intro: listed_sorted)
    done
qed

section \<open>A creation that was cut off\<close>

text \<open>
  A node that stops between making the directory of a vault and writing its admission file leaves a directory
  without one. No operation of discovery gives it one, so discovery refuses it, and with it every vault of the node.
\<close>

definition abandoned :: "VaultId \<Rightarrow> data_dir \<Rightarrow> bool" where
  "abandoned vault d \<longleftrightarrow> dd_marker d = None \<and>
     (\<exists>t. get_vault (hex vault) d = Some (VaultDir t) \<and> d_admission (vd_files t) = None \<and> d_journal (vd_files t) = None)"

lemma dd_keepsI:
  assumes "\<And>os d. P d \<Longrightarrow> P (snd (snd (p (os, d))))"
  shows "dd_keeps P p"
  unfolding dd_keeps_def rtriple_def
proof (intro allI impI)
  fix os d assume "P d"
  then have "P (snd (snd (p (os, d))))" by (rule assms)
  then show "case p (os, d) of (Ret (Inr x), _, d') \<Rightarrow> P d' | (_, _, d') \<Rightarrow> P d'"
    by (auto split: prod.splits run.splits sum.splits)
qed

lemma in_vault_effect:
  "snd (snd (in_vault name p (os, d))) = (case get_vault name d of
     Some (VaultDir t) \<Rightarrow> set_vault name (t\<lparr>vd_files := snd (snd (p (os, vd_files t)))\<rparr>) d | _ \<Rightarrow> d)"
  by (simp add: in_vault_def split: option.splits vault_entry.splits prod.splits)

lemma in_top_effect: "snd (snd (in_top p (os, d))) = d\<lparr>dd_top := (dd_top d)\<lparr>vd_files := snd (snd (p (os, vd_files (dd_top d))))\<rparr>\<rparr>"
  by (simp add: in_top_def split: prod.splits)

lemma abandoned_in_vault:
  assumes "harmless p"
  shows "dd_keeps (abandoned vault) (in_vault name p)"
proof (rule dd_keepsI)
  fix os d assume a: "abandoned vault d"
  then obtain t where t: "get_vault (hex vault) d = Some (VaultDir t)" "d_journal (vd_files t) = None" by (auto simp: abandoned_def)
  show "abandoned vault (snd (snd (in_vault name p (os, d))))"
  proof (cases "name = hex vault")
    case True
    then show ?thesis using a t assms by (simp add: in_vault_effect harmless_def set_vault_same)
  next
    case False
    then show ?thesis
      using a by (auto simp: in_vault_effect abandoned_def get_set_vault set_vault_fields split: option.splits vault_entry.splits)
  qed
qed

lemma abandoned_in_top: "dd_keeps (abandoned vault) (in_top p)"
  by (rule dd_keepsI) (simp add: in_top_effect abandoned_def get_vault_def)

lemma resume_unmarked: "dd_keeps (abandoned vault) (resume_migration sha256 lock)"
proof -
  have marker: "rtriple (abandoned vault) read_marker (\<lambda>marker d. marker = None \<and> abandoned vault d) (abandoned vault)"
    unfolding read_marker_def by (rule rtriple_read) (auto simp: abandoned_def)
  show ?thesis
    unfolding resume_migration_def dd_keeps_def
    apply (rule rtriple_bind [OF dd_keeps_ret [unfolded dd_keeps_def]])
    apply (rule rtriple_bind [OF abandoned_in_top [unfolded dd_keeps_def]])
    apply (rule rtriple_bind [OF marker])
    apply (auto simp: rtriple_def r_ret_def split: option.splits)
    done
qed

lemma abandoned_discovery: "dd_keeps (abandoned vault) (discover_vaults sha256 lock)"
proof -
  let ?A = "abandoned vault"
  note ops = dd_keeps_rules abandoned_in_top resume_unmarked abandoned_in_vault [OF harmless_recover] abandoned_in_vault [OF harmless_private]
    abandoned_in_vault [OF harmless_verify]
  have "dd_keeps ?A (discover_entry sha256 e vs)" for e vs
    unfolding discover_entry_def Let_def by (intro ops)
  then have entries: "dd_keeps ?A (discover_entries sha256 es vs)" for es vs
    by (induction es arbitrary: vs) (simp_all add: dd_keeps_ret dd_keeps_bind)
  have legacy: "dd_keeps ?A (case x of None \<Rightarrow> r_ret (Inr []) | Some bs \<Rightarrow> r_bind (r_ret (decode_vault_metadata bs)) (\<lambda>metadata.
       r_bind (in_top (verify_replica sha256 (vm_vault_id metadata))) (\<lambda>_. r_ret (Inr [(vm_vault_id metadata, None)]))))" for x
    by (cases x) (auto intro!: ops)
  have root: "dd_keeps ?A (case x of NoVaults \<Rightarrow> r_ret (Inr vs) | NotADirectory \<Rightarrow> r_ret (Inl (InvalidInput ''vault path must be a real directory''))
       | Vaults es \<Rightarrow> discover_entries sha256 es vs)" for x vs
    by (cases x) (auto intro!: dd_keeps_rules entries)
  show ?thesis unfolding discover_vaults_def by (intro ops legacy root)
qed

lemma hex_shown: "\<not> hidden (hex vault)"
proof
  assume "hidden (hex vault)"
  then have "hex vault \<noteq> []" "hd (hex vault) = 46" by blast+
  then have "hex vault ! 0 = 46" by (metis hd_conv_nth)
  then have "hex_digit (hex vault ! 0) = Inl (InvalidInput ''invalid vault directory name'')" by (simp add: hex_digit_def)
  then have "is_ok (parse_hex_vault_id (hex vault)) = False"
    by (simp add: parse_hex_vault_id_def upt_conv_Cons [of 0 32] is_ok_iff del: upt_Suc)
  then show False by (simp add: parse_hex is_ok_iff)
qed

lemma abandoned_undiscovered:
  assumes "abandoned vault d"
  shows "discover_vaults sha256 lock (os, d) \<noteq> (Ret (Inr vs), os', d')"
proof
  assume run: "discover_vaults sha256 lock (os, d) = (Ret (Inr vs), os', d')"
  obtain t where t: "get_vault (hex vault) d' = Some (VaultDir t)" "d_admission (vd_files t) = None"
    using dd_keeps_end [OF abandoned_discovery assms run] by (auto simp: abandoned_def)
  have l: "listed sha256 (vault_names d') (vault_names d') vs d'"
    using discover_listed [of sha256 lock, unfolded rtriple_def, rule_format, of os d] run by simp
  have "hex vault \<in> vault_names d'" using t(1) by (simp add: vault_names_def)
  with l hex_shown have "Some (hex vault) \<in> snd ` set vs" unfolding listed_def by blast
  then obtain e where e: "e \<in> set vs" "snd e = Some (hex vault)" by auto
  moreover have "place_sound sha256 d' e" using l e(1) by (simp add: listed_def)
  ultimately have "d_admission (vd_files t) \<noteq> None" using t(1) by (auto simp: place_sound_def files_sound_def)
  with t(2) show False by contradiction
qed

text \<open>Creation writes no journal and no migration marker, wherever it stops.\<close>

definition unjournaled :: "VaultId \<Rightarrow> data_dir \<Rightarrow> bool" where
  "unjournaled vault d \<longleftrightarrow> dd_marker d = None \<and> (\<forall>t. get_vault (hex vault) d = Some (VaultDir t) \<longrightarrow> d_journal (vd_files t) = None)"

lemma unjournaled_in_vault:
  assumes "\<And>os f. d_journal (snd (snd (p (os, f)))) = d_journal f"
  shows "dd_keeps (unjournaled vault) (in_vault name p)"
  by (rule dd_keepsI)
    (use assms in \<open>auto simp: in_vault_effect unjournaled_def get_set_vault set_vault_fields split: option.splits vault_entry.splits if_splits\<close>)

lemma r_bind_known: "r_bind (r_ret (Inr x)) f = f x"
  by (simp add: r_bind_def r_ret_def fun_eq_iff)

lemma create_unjournaled: "dd_keeps (unjournaled vault) (create_vault_dir_with_code lock (Inr vault) me code)"
proof -
  have root: "dd_keeps (unjournaled vault) (r_op (\<lambda>d. d\<lparr>dd_vaults := Vaults []\<rparr>))"
    unfolding dd_keeps_def by (rule rtriple_op) (auto simp: unjournaled_def get_vault_def)
  have made: "dd_keeps (unjournaled vault) (r_op (set_vault (hex vault) empty_vault))"
    unfolding dd_keeps_def by (rule rtriple_op)
      (auto simp: unjournaled_def get_vault_def set_vault_def empty_vault_def update_conv split: vaults_root.splits if_splits)
  have "dd_keeps (unjournaled vault) (prepare_vault_directory lock vault)"
    unfolding prepare_vault_directory_def ensure_vaults_root_def ensure_vault_def
    by (intro dd_keeps_rules) (auto split: vaults_root.splits option.splits vault_entry.splits intro!: dd_keeps_rules root made)
  moreover have "d_journal (snd (snd (io_read g (os, f)))) = d_journal f" for g :: "dir \<Rightarrow> bool result" and os f
    by (auto simp: io_read_def io_bind_def io_op_def split: list.splits outcome.splits)
  moreover have "d_journal (snd (snd (atomic_private_write Admission bs (os, f)))) = d_journal f" for bs os f
    by (auto simp: atomic_private_write_def atomic_private_write_bounded_def io_ret_def io_op_def file_set_def split: list.splits outcome.splits)
  ultimately show ?thesis
    unfolding create_vault_dir_with_code_def Let_def r_bind_known by (intro dd_keeps_rules unjournaled_in_vault)
qed

text \<open>A node without vaults, stopped when the directory of its first vault is there.\<close>

definition bare_node :: data_dir where
  "bare_node = \<lparr>dd_top = empty_vault, dd_marker = None, dd_vaults = NoVaults\<rparr>"

definition cut_off :: data_dir where
  "cut_off = \<lparr>dd_top = empty_vault, dd_marker = None, dd_vaults = Vaults [(hex (VaultId 0), VaultDir empty_vault)]\<rparr>"

lemma hex_zero: "hex (VaultId 0) = replicate 64 48"
  by code_simp

lemma creation_cut_off:
  "create_vault_dir_with_code (\<lambda>_. Inr ()) (Inr (VaultId 0)) (Inr (PeerId 1)) code (replicate 7 Done @ [CrashBefore], bare_node) = (Crashed, [], cut_off)"
  by (simp add: create_vault_dir_with_code_def prepare_vault_directory_def ensure_vaults_root_def ensure_vault_def r_bind_def r_ret_def r_read_def
      r_op_def Let_def bare_node_def cut_off_def get_vault_def set_vault_def in_vault_def io_read_def io_bind_def io_op_def eval_nat_numeral)

lemma reads_at_done: "reads_at p f x \<Longrightarrow> p ([], f) = (Ret (Inr x), [], f)"
  unfolding reads_at_def by (drule spec [of _ "[]"]) (auto split: prod.splits run.splits sum.splits)

section \<open>A vault of the older layout\<close>

definition sample_legacy :: "bytes \<Rightarrow> bytes \<Rightarrow> vault_dir" where
  "sample_legacy a r = \<lparr>vd_files = \<lparr>d_admission = Some a, d_replica = Some r, d_journal = None, d_chunks = []\<rparr>, vd_has_chunks = True\<rparr>"

definition sample_old_node :: "bytes \<Rightarrow> bytes \<Rightarrow> data_dir" where
  "sample_old_node a r = \<lparr>dd_top = sample_legacy a r, dd_marker = None, dd_vaults = NoVaults\<rparr>"

lemma sample_old_node_ready:
  "\<exists>a r. can_migrate (\<lambda>_. 0) (\<lambda>_. Inr ()) (VaultId 1) (sample_legacy a r) \<and> unstarted (VaultId 1) (sample_legacy a r) (sample_old_node a r)"
proof -
  let ?m = "\<lparr>vm_vault_id = VaultId 1, vm_join_code = JoinCode 2, vm_issued_at = 0, vm_members = [PeerId 1], vm_denied = []\<rparr>"
  obtain a where a: "encode_vault_metadata ?m = Inr a"
    by (simp add: encode_vault_metadata_def push_length_def push_variable_def Let_def)
  have len: "length a \<le> MAX_STORE_BYTES"
    using a by (auto simp: encode_vault_metadata_def push_length_def push_variable_def Let_def MAX_STORE_BYTES_def VAULT_METADATA_MAGIC_def)
  have da: "decode_vault_metadata a = Inr ?m"
    by (rule vault_metadata_roundtrip [OF a]) (use len in \<open>auto simp: vault_metadata_wf_def MAX_STORE_BYTES_def usize_max_def\<close>)
  obtain r where r: "encode_replica (\<lambda>_. 0) (replica_new (FileId 1)) 4 = Inr r" using sample_replica_encodes by blast
  have "length r \<le> MAX_STORE_BYTES" using r by (auto simp: encode_replica_Inr MAX_REPLICA_BYTES_def MAX_STORE_BYTES_def)
  moreover have "\<exists>x. decode_replica (\<lambda>_. 0) r (FileId 1) = Inr x"
    using replica_roundtrip [OF r sample_metadata_wf] by (auto simp: replica_new_def)
  ultimately have "legacy (\<lambda>_. 0) (VaultId 1) (sample_legacy a r)"
    using len da by (simp add: legacy_def complete_def sample_legacy_def)
  then show ?thesis
    by (intro exI [of _ a] exI [of _ r]) (simp add: can_migrate_def unstarted_def sample_old_node_def get_vault_def)
qed

lemma sample_old_node_found:
  assumes "can_migrate sha256 (\<lambda>_. Inr ()) vault (sample_legacy a r)"
  shows "discover_vaults sha256 (\<lambda>_. Inr ()) ([], sample_old_node a r) = (Ret (Inr [(vault, None)]), [], sample_old_node a r)"
proof -
  let ?f = "vd_files (sample_legacy a r)"
  obtain m x where m: "length a \<le> MAX_STORE_BYTES" "decode_vault_metadata a = Inr m" "vm_vault_id m = vault"
      and x: "length r \<le> MAX_STORE_BYTES" "decode_replica sha256 r (FileId (vault_raw vault)) = Inr x"
    using assms by (auto simp: can_migrate_def legacy_def sample_legacy_def)
  have "recover_admission_transaction sha256 ([], ?f) = (Ret (Inr ()), [], ?f)"
    by (rule reads_at_done [OF reads_recover]) (simp add: sample_legacy_def)
  moreover have "read_private Admission ([], ?f) = (Ret (Inr (Some a)), [], ?f)"
    by (rule reads_at_done [OF reads_at_admission(1) [OF m(1)]]) (simp add: sample_legacy_def)
  moreover have "verify_replica sha256 vault ([], ?f) = (Ret (Inr ()), [], ?f)"
    by (rule reads_at_done [OF reads_verify [OF _ x]]) (simp add: sample_legacy_def)
  ultimately show ?thesis
    by (simp add: discover_vaults_def resume_migration_def read_marker_def sample_old_node_def r_bind_def r_ret_def r_read_def r_op_def in_top_def m)
qed

text \<open>The same vault in a directory of its own.\<close>

definition sample_new_node :: "bytes \<Rightarrow> bytes \<Rightarrow> data_dir" where
  "sample_new_node a r = \<lparr>dd_top = empty_vault, dd_marker = None, dd_vaults = Vaults [(hex (VaultId 1), VaultDir (sample_legacy a r))]\<rparr>"

lemma sample_new_node_found:
  assumes "can_migrate sha256 (\<lambda>_. Inr ()) (VaultId 1) (sample_legacy a r)"
  shows "discover_vaults sha256 (\<lambda>_. Inr ()) ([], sample_new_node a r) = (Ret (Inr [(VaultId 1, Some (hex (VaultId 1)))]), [], sample_new_node a r)"
proof -
  let ?f = "vd_files (sample_legacy a r)" and ?e = "vd_files empty_vault"
  obtain m x where m: "length a \<le> MAX_STORE_BYTES" "decode_vault_metadata a = Inr m" "vm_vault_id m = VaultId 1"
      and x: "length r \<le> MAX_STORE_BYTES" "decode_replica sha256 r (FileId (vault_raw (VaultId 1))) = Inr x"
    using assms by (auto simp: can_migrate_def legacy_def sample_legacy_def)
  have "recover_admission_transaction sha256 ([], f) = (Ret (Inr ()), [], f)" if "f = ?f \<or> f = ?e" for f
    by (rule reads_at_done [OF reads_recover]) (use that in \<open>auto simp: sample_legacy_def empty_vault_def\<close>)
  moreover have "read_private Admission ([], ?f) = (Ret (Inr (Some a)), [], ?f)"
    by (rule reads_at_done [OF reads_at_admission(1) [OF m(1)]]) (simp add: sample_legacy_def)
  moreover have "read_private Admission ([], ?e) = (Ret (Inr None), [], ?e)"
    by (simp add: read_private_def io_read_def io_bind_def io_op_def file_get_def empty_vault_def)
  moreover have "verify_replica sha256 (VaultId 1) ([], ?f) = (Ret (Inr ()), [], ?f)"
    by (rule reads_at_done [OF reads_verify [OF _ x]]) (simp add: sample_legacy_def)
  moreover have "utf8_ok (hex (VaultId 1))" by code_simp
  ultimately show ?thesis
    using hex_shown [of "VaultId 1"]
    by (auto simp: discover_vaults_def discover_entry_def resume_migration_def read_marker_def sample_new_node_def r_bind_def r_ret_def r_read_def r_op_def
        in_top_def in_vault_def get_vault_def set_vault_def Let_def parse_hex ok_or_def guard_ok_def m)
qed

end
