(* ===== verification/Spec2Isabelle.thy ===== *)
theory Spec2Isabelle
  imports Member_Sample Directory_Sample Session_Sample Join_Code Registry_Discovery
begin

text \<open>
  Quantum-fs is a serverless file system shared by the members of a vault. Every node holds a keystore
  with post-quantum identities and one AES-GCM key per peer, a replica of the vault (a directory tree,
  signed manifests, an instruction log, mailboxes) and the file chunks, addressed by their SHA-256; one
  node, the host, orders the instructions. The sources are under \<open>src/backend/src/\<close>; this development
  models the core of that library and proves the properties that its safety rests on.

  \<^bold>\<open>Foundations.\<close> \<open>Prelude\<close> has the result type (\<open>error + 'a\<close>, one branch per early return), byte lists,
  checked arithmetic on words, and a locale for step systems whose instances give reachable states and
  their invariants. \<open>Ids\<close> has the identifiers of \<open>ids.rs\<close> as words ordered like their bytes and the errors
  of \<open>error.rs\<close>; \<open>BTree\<close> the ordered maps and sets of the standard library as sorted association lists.

  \<^bold>\<open>Encodings.\<close> \<open>Wire\<close> is the reader and writer of \<open>encoding.rs\<close>, with a calculus of parsers (a parser
  reads exactly the bytes that were written) and a locale for codecs of counted and ascending sequences.
  \<open>Messages\<close> holds the protocol's records; \<open>Encoding_Packet\<close>, \<open>Encoding_Control\<close>, \<open>Encoding_Net\<close>,
  \<open>Keystore_State\<close> and \<open>Snapshot\<close> translate the encoders and decoders one by one and prove that they are
  inverse, that decoders accept nothing but what the encoders write, or both. \<open>Frame\<close> is \<open>net/frame.rs\<close>.

  \<^bold>\<open>Pair encryption.\<close> \<open>Replay\<close> is the replay window of \<open>protocol/packet.rs\<close> and its refinement of a set of
  accepted counters. \<open>Aead\<close> is \<open>crypto/aead.rs\<close>: the state of a pair key, sealing and opening, and traces
  of calls. AES-GCM is a parameter, a record of two functions; that decryption inverts encryption is the
  named hypothesis \<open>gcm_correct\<close>, used only where a theorem says that a message arrives.

  \<^bold>\<open>Keys.\<close> \<open>Identity\<close> is \<open>crypto/identity.rs\<close> and \<open>crypto/sign.rs\<close>, over a record of cryptographic
  parameters (\<open>crypto\<close>, with the hypothesis \<open>crypto_correct\<close>: signatures verify and encapsulated secrets
  decapsulate). \<open>Keystore\<close> and \<open>Wrap\<close> are \<open>keystore.rs\<close> and \<open>crypto/wrap.rs\<close>: a store is its memory, its
  two files and a list of outcomes of the coming writes, each of which may succeed, fail without effect or
  fail after it took effect. \<open>Keystore_Inv\<close> and \<open>Keystore_Steps\<close> prove the invariant of every call and of
  opening, and collect the calls, stops and restarts in one step relation; \<open>Agreement\<close> shows what creating
  and unwrapping a wrap achieve together.

  \<^bold>\<open>The replica.\<close> \<open>Dir_Tree\<close> is \<open>store/tree.rs\<close>; loops over parent links are functions with a measure, and
  the one loop without a cycle check, \<open>is_descendant\<close>, runs on fuel (two more than the number of entries,
  which is shown to suffice for well-formed trees). \<open>Replica\<close> is \<open>store/replica.rs\<close>. \<open>Transaction\<close> and
  \<open>Durable\<close> are \<open>store/transaction.rs\<close>, \<open>store/durable.rs\<close> and \<open>store/chunks.rs\<close> over a directory of files
  whose operations succeed, fail before or after their effect, or crash, with a Hoare logic that covers
  all these outcomes. \<open>Locate\<close> is \<open>net/locate.rs\<close> and \<open>sync/locate.rs\<close>.

  \<^bold>\<open>The host.\<close> \<open>Node\<close> is the setting of an operation that uses a keystore and a vault directory and has a
  state of its own, with a program logic for it (\<open>keeps\<close>: from a condition on the own state, what holds when
  the operation succeeds and when it fails). \<open>Instructions\<close> is \<open>sync/host/filesystem.rs\<close> and the bootstrap
  records of \<open>sync/host.rs\<close>: what an instruction does to the content of a vault (\<open>content_step\<close>, the
  specification that the host's commits refine), and that bootstrap instructions rebuild it. \<open>Pull\<close> is
  \<open>protocol/manifest.rs\<close>, \<open>protocol/pull.rs\<close> and \<open>sync/pull.rs\<close>; the exchange with a holder is a parameter.
  \<open>Host\<close> and \<open>Host_Service\<close> are the host service of \<open>sync/host.rs\<close> and its submodules, one definition per
  operation; clocks, random codes and the writer's other keystore are arguments. \<open>Host_Commit\<close> shows that
  commits are all or nothing and what they publish, \<open>Host_Inv\<close> has the invariant as a locale over a
  condition on the host's state, with one lemma per operation, interpreted for well-formedness and for
  revocation, and \<open>Host_Run\<close> the step relation of the operations, the reachable states, snapshots and what
  members can recover from them.

  \<^bold>\<open>Members.\<close> \<open>Member\<close> is the member's replica of \<open>sync/host.rs\<close>: staging and applying instructions, mailboxes
  prepared and committed in two phases, membership, eviction, opening, and the flush between a host and a
  member in one process. \<open>Member_Inv\<close> proves its invariant (the content is the replay of the log) for every
  operation, \<open>Member_Run\<close> has the step relation with outstanding flushes, the reachable states and the
  snapshots, and \<open>Converge\<close> relates a member's content to the history of the host.

  \<^bold>\<open>The directory.\<close> \<open>Socket_Addr\<close> is the text form of numeric socket addresses, printed and parsed as the standard
  library does. \<open>Directory\<close> is \<open>net/directory.rs\<close>: advertisements, the server's store with its private file, the
  requests and the client. \<open>Directory_Inv\<close> has the invariant of the running server and its file (with failed writes
  and restarts, as a \<open>transition_system\<close>), from which the absence of replays follows, and what a lookup returns.
  \<open>Join_Code\<close> is the Base32 text of join codes and vault ids (\<open>net/mod.rs\<close>) and the six-character codes
  of \<open>net/short_code.rs\<close>.

  \<^bold>\<open>The handshake.\<close> \<open>Session\<close> is \<open>net/session.rs\<close>: an operation whose own state is one end of a connection. Its
  loops run once per frame still to be read; \<open>Session_Inv\<close> shows that they satisfy the recursion of the source's
  loops and that the handshake keeps the keystore's invariant, \<open>Session_Auth\<close> what a returned session rests on, and
  \<open>Session_Fresh\<close> that two strangers that read each other's frames end with the same key.

  \<^bold>\<open>The vaults of a node.\<close> \<open>Registry\<close> is \<open>store/vaults.rs\<close>: the data directory with one directory per vault, creation,
  discovery and the migration of the older layout, on the same outcomes of file operations as \<open>Durable\<close>.
  \<open>Registry_Inv\<close> has triples for runs that may stop anywhere and, beside them, for undisturbed runs, the condition
  between the operations of a migration (\<open>migrating\<close>) and its \<open>transition_system\<close>; \<open>Registry_Discovery\<close> shows what
  discovery returns, and what a creation that was cut off does to it.
  \<^bold>\<open>Instances.\<close> \<open>Sample\<close> has the concrete identities, stores, trees and directories at which the theorems
  below are applied, \<open>Host_Sample\<close> a host that commits
  instructions, \<open>Member_Sample\<close> a member that applies them.

  \<^bold>\<open>Not modelled.\<close> Mutexes and the advisory file lock (an operation is one atomic step), memory
  exhaustion, timeouts and task scheduling; the cryptographic primitives and SHA-256 (parameters);
  the asynchronous drivers (join, the accept loops, administration, vault start-up), the
  command line, and the desktop client, which calls this library.
\<close>

section \<open>Packet protection\<close>

text \<open>C1. Whatever sequence of \<open>seal\<close> and \<open>open\<close> calls runs on a freshly installed pair key, no two
  ciphertexts it produces carry the same AES-GCM nonce.\<close>

theorem seal_nonces_unique:
  "distinct (tr_sealed (snd (aead_run g me (pair_key_new key peer epoch) calls)))"
  using aead_run_inv [of me g key peer epoch calls] by (simp add: aead_inv_def sealed_ok_def)

text \<open>C2. The two ends of a pair share one key; no nonce that one end produces is ever produced by the
  other end, whatever either of them seals and opens.\<close>

theorem pair_nonces_disjoint:
  assumes "a \<noteq> b"
  shows "set (tr_sealed (snd (aead_run g a (pair_key_new key b epoch) calls))) \<inter>
    set (tr_sealed (snd (aead_run g' b (pair_key_new key a epoch) calls'))) = {}"
proof -
  let ?A = "aead_run g a (pair_key_new key b epoch) calls"
  let ?B = "aead_run g' b (pair_key_new key a epoch) calls'"
  have A: "\<exists>h t. n = nonce h t \<and> hdr_sender_id h = a \<and> hdr_receiver_id h = b" if "n \<in> set (tr_sealed (snd ?A))" for n
    using aead_run_inv [of a g key b epoch calls] that aead_run_peer [of g a "pair_key_new key b epoch" calls]
    by (fastforce simp: aead_inv_def sealed_ok_def pair_key_new_def)
  have B: "\<exists>h t. n = nonce h t \<and> hdr_sender_id h = b \<and> hdr_receiver_id h = a" if "n \<in> set (tr_sealed (snd ?B))" for n
    using aead_run_inv [of b g' key a epoch calls'] that aead_run_peer [of g' b "pair_key_new key a epoch" calls']
    by (fastforce simp: aead_inv_def sealed_ok_def pair_key_new_def)
  have "False" if "n \<in> set (tr_sealed (snd ?A))" and "n \<in> set (tr_sealed (snd ?B))" for n
    using A [OF that(1)] B [OF that(2)] assms by (auto simp: nonce_eq_iff)
  then show ?thesis by blast
qed

theorem pair_nonces_disjoint_witness:
  "set (tr_sealed (snd (aead_run \<lparr>gcm_encrypt = \<lambda>k n a m. Some m, gcm_decrypt = \<lambda>k n a c. Some c\<rparr> (PeerId 1)
      (pair_key_new 5 (PeerId 2) (Epoch 1)) []))) \<inter>
    set (tr_sealed (snd (aead_run \<lparr>gcm_encrypt = \<lambda>k n a m. Some m, gcm_decrypt = \<lambda>k n a c. Some c\<rparr> (PeerId 2)
      (pair_key_new 5 (PeerId 1) (Epoch 1)) []))) = {}"
  by (rule pair_nonces_disjoint) simp

text \<open>C3. Replay protection: of all packets a pair key accepts, in any interleaving with sealing and
  with rejected or forged packets, no two have the same payload type and counter.\<close>

theorem open_never_replays:
  "distinct (tr_opened (snd (aead_run g me (pair_key_new key peer epoch) calls)))"
  using aead_run_inv [of me g key peer epoch calls] by (simp add: aead_inv_def opened_ok_def)

text \<open>C4. The bitmap of the replay window implements its specification: from the empty window, any
  sequence of counters is accepted and rejected exactly as if the set of all accepted counters were
  remembered, with a counter refused when it is in the set or 1024 or more below an accepted one.\<close>

theorem replay_window_refines: "rw_feed rw_default ss = set_feed {} ss"
  by (rule rw_feed_set [OF window_of_default])

text \<open>C5. What one end of a pair seals, the other end opens: with the same key, epoch and mirrored
  peers, and a counter the receiver's window still accepts, \<open>open\<close> returns the sealed plaintext.\<close>

theorem seal_then_open:
  assumes "gcm_correct g" and "pk_key ra = pk_key rb" and "pk_epoch ra = pk_epoch rb"
    and "pk_peer_id ra = b" and "pk_peer_id rb = a"
    and "seal g a n aad plaintext ra = (Inr ct, ra')"
    and "decode_aad aad = Inr (h, t)" and "rw_check (replay_entry rb (inbound_key rb t)) (hdr_seq h) = Inr ()"
  shows "fst (aead_open g b n aad ct rb) = Inr plaintext"
proof -
  have s: "validate_header a ra h t n Outbound = Inr k \<Longrightarrow> validate_header b rb h t n Inbound = Inr (inbound_key rb t)" for k
    using assms(3-5) by (simp add: validate_header_Inr)
  obtain k where "validate_header a ra h t n Outbound = Inr k" "reserve_send ra t (hdr_seq h) = Inr ra'"
      "gcm_encrypt g (pk_key ra') n aad plaintext = Some ct"
    using assms(6,7) by (auto simp: seal_Inr)
  moreover from this have "pk_key ra' = pk_key rb"
    using reserve_send_frame assms(2) by (fastforce simp: pair_identity_def)
  moreover obtain w where "rw_accept (replay_entry rb (inbound_key rb t)) (hdr_seq h) = Inr w"
    using assms(8) by (auto simp: rw_accept_def)
  ultimately show ?thesis
    using assms(1,7,8) s
    by (auto simp: aead_open_def open_in_def Let_def gcm_correct_def)
qed

theorem seal_then_open_witness:
  "fst (aead_open \<lparr>gcm_encrypt = \<lambda>k n a m. Some m, gcm_decrypt = \<lambda>k n a c. Some c\<rparr> (PeerId 2)
      (nonce \<lparr>hdr_version = PROTOCOL_VERSION, hdr_sender_id = PeerId 1, hdr_receiver_id = PeerId 2, hdr_epoch = Epoch 1,
        hdr_seq = Seq 1\<rparr> Packet)
      (packet_aad \<lparr>hdr_version = PROTOCOL_VERSION, hdr_sender_id = PeerId 1, hdr_receiver_id = PeerId 2, hdr_epoch = Epoch 1,
        hdr_seq = Seq 1\<rparr>) [7] (pair_key_new 5 (PeerId 1) (Epoch 1))) = Inr [7]"
proof (rule seal_then_open)
  let ?h = "\<lparr>hdr_version = PROTOCOL_VERSION, hdr_sender_id = PeerId 1, hdr_receiver_id = PeerId 2, hdr_epoch = Epoch 1, hdr_seq = Seq 1\<rparr>"
  let ?ra = "pair_key_new 5 (PeerId 2) (Epoch 1)"
  show "gcm_correct \<lparr>gcm_encrypt = \<lambda>k n a m. Some m, gcm_decrypt = \<lambda>k n a c. Some c\<rparr>"
    by (simp add: gcm_correct_def)
  show "decode_aad (packet_aad ?h) = Inr (?h, Packet)"
    by (rule decode_aad_packet) simp
  then show "seal \<lparr>gcm_encrypt = \<lambda>k n a m. Some m, gcm_decrypt = \<lambda>k n a c. Some c\<rparr> (PeerId 1) (nonce ?h Packet) (packet_aad ?h) [7] ?ra =
      (Inr [7], ?ra\<lparr>pk_send_packet := Some 1\<rparr>)"
    by (simp add: seal_def seal_in_def validate_header_def pair_key_new_def reserve_send_def last_sent_def)
qed (simp_all add: pair_key_new_def replay_entry_def rw_default_def rw_check_def)

section \<open>Directory tree\<close>

text \<open>C23. Every tree reachable from a new vault by linking, unlinking, renaming, removing and loading
  is well formed: one link per file, directory parents only, and every entry on a path to the root
  within 4096 bytes.\<close>

theorem tree_reachable_ok: "run_steps tree_step (tree_new r) t \<Longrightarrow> tree_ok t"
  by (rule dir_system.reachable_inv) auto

theorem tree_reachable_ok_witness: "tree_ok (tree_new (FileId 1))"
  by (rule tree_reachable_ok) (rule run_refl)

text \<open>C24. Loading a listing: \<open>from_dirents\<close> accepts a non-empty listing exactly when it is the sorted
  listing of a well-formed tree with that root, and returns that tree; the empty listing is a new vault.\<close>

theorem load_exactly_well_formed:
  "from_dirents r ds = Inr t \<longleftrightarrow>
    ds = [] \<and> t = tree_new r \<or> ds \<noteq> [] \<and> tree_ok t \<and> dt_expected_root t = r \<and> dirents t = ds"
  by (rule from_dirents_iff)

text \<open>C25. Paths: in a well-formed tree \<open>resolve\<close> finds a file exactly when the path's components are the
  names from the root down to it, and the canonical path of every linked file resolves to that file.\<close>

theorem resolve_finds_paths:
  assumes "tree_ok t"
  shows "(resolve t p = Inr c \<longleftrightarrow> (\<exists>es. chain t c es \<and> path_components p = Inr (rev (map de_name es)))) \<and>
    (\<forall>e \<in> set (dirents t). de_name e \<noteq> [] \<longrightarrow> (\<exists>es. chain t (de_child e) es \<and> resolve t (canonical_path es) = Inr (de_child e)))"
proof -
  have "\<exists>es. chain t (de_child e) es \<and> resolve t (canonical_path es) = Inr (de_child e)"
    if "e \<in> set (dirents t)" "de_name e \<noteq> []" for e
  proof -
    from assms that obtain es where "chain t (de_child e) es" "path_bytes es \<le> MAX_PATH_BYTES"
      by (auto simp: tree_ok_def anchored_def)
    with resolve_canonical [OF assms] show ?thesis by blast
  qed
  with resolve_iff [OF assms] show ?thesis by blast
qed

theorem resolve_finds_paths_witness:
  "\<exists>es. chain sample_tree (FileId 2) es \<and> resolve sample_tree (canonical_path es) = Inr (FileId 2)"
  using resolve_finds_paths [OF sample_tree_ok] sample_tree_entry by (force simp: sample_entry_def)

text \<open>C26. The walk of \<open>is_descendant\<close> ends on every linked file of a well-formed tree, within one step per
  entry, and says whether the other file is on the way to the root.\<close>

theorem is_descendant_terminates:
  assumes "tree_ok t" and "e \<in> set (dirents t)" and "de_name e \<noteq> []"
  shows "\<exists>es. chain t (de_child e) es \<and> is_descendant t (de_child e) a = Some (a \<in> de_child ` set es)"
  using assms is_descendant_spec by (fastforce simp: tree_ok_def anchored_def)

theorem is_descendant_terminates_witness:
  "\<exists>es. chain sample_tree (de_child sample_entry) es \<and>
    is_descendant sample_tree (de_child sample_entry) (FileId 2) = Some (FileId 2 \<in> de_child ` set es)"
  by (rule is_descendant_terminates [OF sample_tree_ok sample_tree_entry]) (simp add: sample_entry_def)

section \<open>Durable vault state\<close>

text \<open>C6. Publishing is atomic. Whatever the writes of \<open>DurableStore::persist\<close> do (succeed, fail before or
  after taking effect, crash), reopening the vault directory succeeds and yields either the metadata
  that was on disk before or the published one, with every chunk the recovered metadata retains. When it
  reports success, reopening yields the published metadata; when it reports an error, the directory is
  untouched or the store refuses further publications until it is reopened.\<close>

theorem persist_crash_safe:
  assumes "addressed sha256 chunks" and "on_disk chunks d0" and "replica_wf metadata"
    and "disk_state sha256 (rm_expected_root metadata) old d0" and "d_journal d0 = None"
    and "durable_persist sha256 inner metadata chunks (os, d0) = (r, os', d)"
  shows "\<exists>m store d'. open_store sha256 (Inr ()) (rm_expected_root metadata) ([], d) = (Ret (Inr (m, store)), [], d') \<and>
    (m = old \<or> (\<exists>m'. m = Some m' \<and> published metadata chunks m')) \<and>
    fst ` set (mc_chunks store) = held_chunks m \<and> store_ok sha256 store d' \<and>
    (\<forall>inner' chunks' staged. r = Ret (Inr (inner', chunks', Inr staged)) \<longrightarrow> (\<exists>m'. m = Some m' \<and> published metadata chunks m')) \<and>
    (\<forall>inner' chunks' e. r = Ret (Inr (inner', chunks', Inl e)) \<longrightarrow> di_failed inner' \<or> d = d0)"
proof -
  let ?root = "rm_expected_root metadata"
  note after = durable_persist_triple [OF assms(1-4), unfolded triple_def, rule_format, OF refl, of inner os, unfolded assms(6)]
  have "d_journal d = None" and out: "publish_outcome sha256 old metadata chunks d"
    using after assms(5) by (auto split: run.split_asm sum.split_asm)
  obtain m where m: "disk_state sha256 ?root m d" "m = old \<or> (\<exists>m'. m = Some m' \<and> published metadata chunks m')"
    "\<And>inner' chunks' staged. r = Ret (Inr (inner', chunks', Inr staged)) \<Longrightarrow> \<exists>m'. m = Some m' \<and> published metadata chunks m'"
  proof (cases "\<exists>inner' chunks' staged. r = Ret (Inr (inner', chunks', Inr staged))")
    case True
    with after that show ?thesis by (fastforce simp: publish_result_def)
  next
    case False
    with out that show ?thesis unfolding publish_outcome_def by blast
  qed
  moreover have "di_failed inner' \<or> d = d0" if "r = Ret (Inr (inner', chunks', Inl e))" for inner' chunks' e
    using durable_publish_error assms(6) that unfolding durable_persist_def by blast
  moreover obtain store d' where "open_store sha256 (Inr ()) ?root ([], d) = (Ret (Inr (m, store)), [], d')"
      "fst ` set (mc_chunks store) = held_chunks m" "store_ok sha256 store d'"
    using open_store_done [OF recover_nothing [OF \<open>d_journal d = None\<close>] m(1) \<open>d_journal d = None\<close>] by blast
  ultimately show ?thesis
    by (intro exI [of _ m] exI [of _ store] exI [of _ d'] conjI allI impI) auto
qed

theorem persist_crash_safe_witness:
  "\<exists>r os' d m store d'. durable_persist (\<lambda>_. 0) sample_durable (replica_new (FileId 1)) [] ([CrashAfter], sample_dir) = (r, os', d) \<and>
    open_store (\<lambda>_. 0) (Inr ()) (FileId 1) ([], d) = (Ret (Inr (m, store)), [], d') \<and>
    (m = None \<or> (\<exists>m'. m = Some m' \<and> published (replica_new (FileId 1)) [] m')) \<and>
    fst ` set (mc_chunks store) = held_chunks m \<and> store_ok (\<lambda>_. 0) store d'"
proof -
  obtain r os' d where run: "durable_persist (\<lambda>_. 0) sample_durable (replica_new (FileId 1)) [] ([CrashAfter], sample_dir) = (r, os', d)"
    by (metis prod_cases3)
  show ?thesis
    using persist_crash_safe [OF _ _ sample_metadata_wf _ _ run, where old = None] run
    by (fastforce simp: addressed_def on_disk_def sample_dir_def disk_state_def replica_new_def [of "FileId 1"])
qed

text \<open>C7. Two files, one transaction. Publishing together with the vault's admission file is all or
  nothing: whatever its writes do, reopening succeeds and finds both the old metadata and the old
  admission file or both the published metadata and the new admission file.\<close>

theorem admission_crash_safe:
  assumes "addressed sha256 chunks" and "on_disk chunks d0" and "replica_wf metadata"
    and "disk_state sha256 (rm_expected_root metadata) old d0" and "d_journal d0 = None"
  shows "\<exists>m store d'. open_store sha256 (Inr ()) (rm_expected_root metadata)
      ([], snd (snd (persist_with_admission sha256 inner metadata chunks admission (os, d0)))) = (Ret (Inr (m, store)), [], d') \<and>
    (m = old \<and> unwrap_or_default (d_admission d') = unwrap_or_default (d_admission d0) \<or>
     d_admission d' = Some admission \<and> (\<exists>m'. m = Some m' \<and> published metadata chunks m')) \<and>
    fst ` set (mc_chunks store) = held_chunks m \<and> store_ok sha256 store d'"
proof -
  let ?root = "rm_expected_root metadata"
  define d where "d = snd (snd (persist_with_admission sha256 inner metadata chunks admission (os, d0)))"
  have "\<exists>d1 m. recover_admission_transaction sha256 ([], d) = (Ret (Inr ()), [], d1) \<and> d_journal d1 = None \<and>
      disk_state sha256 ?root m d1 \<and>
      (m = old \<and> unwrap_or_default (d_admission d1) = unwrap_or_default (d_admission d0) \<or>
       d_admission d1 = Some admission \<and> (\<exists>m'. m = Some m' \<and> published metadata chunks m'))"
  proof (cases "stage_snapshot sha256 inner metadata chunks")
    case (Inl e)
    then have "d = d0"
      by (auto simp: d_def persist_with_admission_def durable_publish_def io_ret_def)
    then show ?thesis using recover_nothing [OF assms(5)] assms(4,5) by blast
  next
    case (Inr x)
    obtain staged g bs where st: "stage_snapshot sha256 inner metadata chunks = Inr (staged, g, bs)"
      using Inr by (cases x) auto
    have out: "admission_outcome sha256 d0 metadata chunks bs admission d"
      unfolding d_def by (rule triple_always [OF persist_with_admission_triple [OF assms(1-3,5) st]]) auto
    show ?thesis
    proof (rule admission_outcome_recovers [OF out assms(5,4)])
      fix d :: dir assume d: "d_replica d = Some bs" "d_chunks d = d_chunks d0"
      then have "on_disk chunks d"
        using assms(2) by (auto simp: on_disk_def chunk_on_disk_def)
      then show "\<exists>m. published metadata chunks m \<and> disk_state sha256 ?root (Some m) d"
        by (rule snapshot_on_disk [OF st assms(3,1) _ d(1)])
    qed
  qed
  then obtain d1 m where rec: "recover_admission_transaction sha256 ([], d) = (Ret (Inr ()), [], d1)" "d_journal d1 = None"
      "disk_state sha256 ?root m d1" and cases: "m = old \<and> unwrap_or_default (d_admission d1) = unwrap_or_default (d_admission d0) \<or>
       d_admission d1 = Some admission \<and> (\<exists>m'. m = Some m' \<and> published metadata chunks m')"
    by blast
  from open_store_done [OF rec(1,3,2)] obtain store d' where
      "open_store sha256 (Inr ()) ?root ([], d) = (Ret (Inr (m, store)), [], d')" "fst ` set (mc_chunks store) = held_chunks m"
      "store_ok sha256 store d'" "d_admission d' = d_admission d1"
    by blast
  with cases show ?thesis by (auto simp: d_def)
qed

theorem admission_crash_safe_witness:
  "\<exists>m store d'. open_store (\<lambda>_. 0) (Inr ()) (FileId 1)
      ([], snd (snd (persist_with_admission (\<lambda>_. 0) sample_durable (replica_new (FileId 1)) [] [5] ([Done, CrashAfter], sample_dir)))) =
      (Ret (Inr (m, store)), [], d') \<and>
    (m = None \<and> unwrap_or_default (d_admission d') = unwrap_or_default (d_admission sample_dir) \<or>
     d_admission d' = Some [5] \<and> (\<exists>m'. m = Some m' \<and> published (replica_new (FileId 1)) [] m')) \<and>
    fst ` set (mc_chunks store) = held_chunks m \<and> store_ok (\<lambda>_. 0) store d'"
  using admission_crash_safe [of "\<lambda>_. 0" "[]" sample_dir "replica_new (FileId 1)" None sample_durable "[5]" "[Done, CrashAfter]"]
    sample_metadata_wf
  by (simp add: addressed_def on_disk_def sample_dir_def disk_state_def replica_new_def [of "FileId 1"])

text \<open>C8. Moving a vault of the older layout into its own directory survives being stopped anywhere. After any sequence
  of migrations, resumptions and discoveries, each ended by a failed operation, a crash or success at any point, the
  snapshot, the chunks and the admission file are each in exactly one of the two places, in the order of the phases
  (\<open>migrating\<close>), and running \<open>migrate_legacy\<close> undisturbed completes: the vault's directory holds exactly the old
  vault, the data directory nothing of it, and the marker is gone.\<close>

theorem migration_crash_safe:
  assumes "can_migrate sha256 lock vault v" and "unstarted vault v d" and "run_steps (registry_step sha256 lock) d d'"
  shows "migrating vault v d' \<and>
    (\<exists>d''. migrate_legacy sha256 lock ([], d') = (Ret (Inr ()), [], d'') \<and>
      get_vault (hex vault) d'' = Some (VaultDir v) \<and> dd_top d'' = empty_vault \<and> dd_marker d'' = None)"
proof -
  have m: "migrating vault v d'" using registry.reachable_inv [OF _ assms(3)] assms(1,2) by blast
  with migration_completes [OF assms(1) m] items_3 [of v] assms(1) show ?thesis
    by (auto simp: moved_to_def can_migrate_def legacy_def)
qed

theorem migration_crash_safe_witness:
  "\<exists>a r d'. snd (snd (migrate_legacy (\<lambda>_. 0) (\<lambda>_. Inr ()) (replicate 18 Done @ [CrashAfter], sample_old_node a r))) = d' \<and>
    migrating (VaultId 1) (sample_legacy a r) d' \<and>
    (\<exists>d''. migrate_legacy (\<lambda>_. 0) (\<lambda>_. Inr ()) ([], d') = (Ret (Inr ()), [], d'') \<and>
      get_vault (hex (VaultId 1)) d'' = Some (VaultDir (sample_legacy a r)) \<and> dd_top d'' = empty_vault \<and> dd_marker d'' = None)"
proof -
  obtain a r where s: "can_migrate (\<lambda>_. 0) (\<lambda>_. Inr ()) (VaultId 1) (sample_legacy a r)" "unstarted (VaultId 1) (sample_legacy a r) (sample_old_node a r)"
    using sample_old_node_ready by blast
  define d' where "d' = snd (snd (migrate_legacy (\<lambda>_. 0) (\<lambda>_. Inr ()) (replicate 18 Done @ [CrashAfter], sample_old_node a r)))"
  have "registry_step (\<lambda>_. 0) (\<lambda>_. Inr ()) (sample_old_node a r) d'"
    by (rule Migrate) (auto simp: d'_def prod_eq_iff)
  then have "run_steps (registry_step (\<lambda>_. 0) (\<lambda>_. Inr ())) (sample_old_node a r) d'"
    by (rule run_snoc [OF run_refl])
  from migration_crash_safe [OF s this] show ?thesis unfolding d'_def by blast
qed

section \<open>The keystore\<close>

text \<open>C14. Reachable keystores. Whatever calls are made, whatever their writes do, however often the
  process stops and reopens: pairs, candidates and active keys never exceed the peer's epoch watermark,
  each peer and epoch has one active key, and the watermarks on disk are never above those in memory
  and equal to them unless a write has failed.\<close>

theorem keystore_invariant:
  assumes "run_steps (kstep c) (k0, False) (k, True)"
  shows "store_inv (ks_inner k) \<and> (\<forall>p. file_mark k p \<le> wm k p) \<and>
    (\<not> si_failed (ks_inner k) \<longrightarrow> (\<forall>p. file_mark k p = wm k p))"
  using keystore_life.reachable_inv [OF _ assms] by (simp add: ksys_inv_def kinv_def ready_def)

theorem keystore_invariant_witness:
  "\<exists>k. ks_inner k = sample_inner 1 high \<and> store_inv (ks_inner k) \<and> (\<forall>p. file_mark k p \<le> wm k p) \<and>
    (\<not> si_failed (ks_inner k) \<longrightarrow> (\<forall>p. file_mark k p = wm k p))"
proof -
  obtain k where k: "run_steps (kstep sample_crypto) (sample_empty, False) (k, True)" "ks_inner k = sample_inner 1 high"
    using sample_running [of 1 high] by blast
  from keystore_invariant [OF k(1)] k(2) show ?thesis by blast
qed

text \<open>C9. Epochs are never reused. A wrap created for a peer has an epoch above that of every session
  that was ever obtained for that peer, across any calls, write failures, crashes and restarts between.\<close>

theorem epochs_never_reused:
  assumes "run_steps (kstep c) (k0, False) (k1, True)" and "store_session p e (os1, k1) = (Inr s1, t1)"
    and "run_steps (kstep c) (k1, True) (k2, True)" and "create_inner c en p ek e2 cand (os2, k2) = (Inr (s2, m), t2)"
  shows "ses_epoch s1 < ses_epoch s2"
proof -
  have inv: "ksys_inv (k1, True)" by (rule keystore_life.reachable_inv [OF _ assms(1)]) simp
  have "ksys_inv (k2, True)" by (rule keystore_life.runs_inv [OF assms(3) inv])
  with create_above [OF _ assms(4)] session_durable [OF inv assms(2)] kruns_marks [OF assms(3) inv, of p]
  show ?thesis by auto
qed

theorem epochs_never_reused_witness:
  "\<exists>k s1 s2 m t. run_steps (kstep sample_crypto) (sample_empty, False) (k, True) \<and>
    store_session (id_peer_id high) (Epoch 1) ([], k) = (Inr s1, [], k) \<and>
    create_inner sample_crypto sample_entropy (id_peer_id high) [2] (Epoch 2) False ([], k) = (Inr (s2, m), t) \<and>
    ses_epoch s1 = Epoch 1 \<and> ses_epoch s1 < ses_epoch s2"
proof -
  obtain k where k: "run_steps (kstep sample_crypto) (sample_empty, False) (k, True)" "ks_inner k = sample_inner 1 high"
    using sample_running [of 1 high] by blast
  obtain s b where c1: "create_inner sample_crypto sample_entropy (id_peer_id high) [2] (Epoch 1) False ([], k) =
      (Inr (s, sample_wrap (Epoch 1)), [], k\<lparr>ks_inner := sample_first, ks_state_file := Some b\<rparr>)"
    using sample_create [OF k(2)] by blast
  let ?k = "k\<lparr>ks_inner := sample_first, ks_state_file := Some b\<rparr>"
  have run: "run_steps (kstep sample_crypto) (sample_empty, False) (?k, True)"
    by (rule run_snoc [OF k(1)], rule step_call [where call = "Create sample_entropy (id_peer_id high) [2] (Epoch 1) False"
      and os = "[]" and r = "Inr ()" and os' = "[]"])
      (simp add: k_void_def k_bind_def c1 k_ret_def)
  have s: "inner_session sample_first (id_peer_id high) (Epoch 1) = Inr s" "\<not> si_failed sample_first"
    using create_inner_Inr [OF c1] by auto
  then have read: "store_session (id_peer_id high) (Epoch 1) ([], ?k) = (Inr s, [], ?k)"
    by (simp add: store_session_def store_lock_def k_bind_def k_inner_def k_ret_def)
  obtain s2 b2 where c2: "create_inner sample_crypto sample_entropy (id_peer_id high) [2] (Epoch 2) False ([], ?k) =
      (Inr (s2, sample_wrap (Epoch 2)), [], ?k\<lparr>ks_inner := sample_second, ks_state_file := Some b2\<rparr>)"
    using sample_create_again [of ?k] by auto
  have "ses_epoch s < ses_epoch s2" by (rule epochs_never_reused [OF run read run_refl c2])
  moreover have "ses_epoch s = Epoch 1" using s(1) by (rule inner_session_Inr)
  ultimately show ?thesis using run read c2 by blast
qed

text \<open>C10. Both ends agree on the key. When A creates a wrap for B's identity and B knows A's
  verification key and is at the matching epoch, B's checks accept the message and B's decapsulation
  returns exactly the key of A's new session; and B's \<open>unwrap\<close>, if its slot counter and state file have
  room, succeeds with a session of the same epoch that holds that key.\<close>

theorem wrap_agreement:
  assumes "crypto_correct c" and "run_steps (kstep c) (k0, False) (ka, True)" and "run_steps (kstep c) (k1, False) (kb, True)"
    and "create_inner c en (local_peer (ks_inner kb)) (cr_kem_ek c (li_kem_seed (si_local (ks_inner kb)))) e False (os, ka) =
      (Inr (sa, m), os', ka')"
    and "knows c (si_local (ks_inner ka)) (ks_inner kb)" and "expects (ks_inner kb) (local_peer (ks_inner ka)) e"
  shows "\<exists>key. session_key ka' sa = Some key \<and> open_wrap c (si_local (ks_inner kb)) m = Inr key \<and>
    unwrap_check c (ks_inner kb) (local_peer (ks_inner ka)) m False = Inr (Proceed False False) \<and>
    (checked_add (si_next_slot (ks_inner kb)) 1 \<noteq> None \<and>
      fits (installed (local_peer (ks_inner ka)) (local_peer (ks_inner ka)) m key (ks_inner kb)) \<longrightarrow>
     (\<exists>sb kb'. unwrap_inner c (local_peer (ks_inner ka)) m False ([], kb) = (Inr sb, [], kb') \<and>
        session_key kb' sb = Some key \<and> ses_epoch sb = ses_epoch sa))"
proof -
  have inv: "ksys_inv (ka, True)" "ksys_inv (kb, True)"
    by (rule keystore_life.reachable_inv [OF _ assms(2)], simp, rule keystore_life.reachable_inv [OF _ assms(3)], simp)
  obtain key where key: "session_key ka' sa = Some key" "open_wrap c (si_local (ks_inner kb)) m = Inr key"
      "unwrap_check c (ks_inner kb) (local_peer (ks_inner ka)) m False = Inr (Proceed False False)"
      and same: "\<And>os sb os' kb'. unwrap_inner c (local_peer (ks_inner ka)) m False (os, kb) = (Inr sb, os', kb') \<Longrightarrow>
        session_key kb' sb = Some key \<and> ses_epoch sb = ses_epoch sa"
    using create_unwrap_agree [OF assms(1) inv assms(4-6)] by blast
  have "\<not> si_failed (ks_inner kb)" using assms(5) by (simp add: knows_def)
  with unwrap_inner_done [of kb c, OF _ key(3,2)] key same show ?thesis by blast
qed

theorem wrap_agreement_witness:
  "\<exists>key ka (kb :: keystore) sa m. session_key ka sa = Some key \<and> open_wrap sample_crypto (si_local (ks_inner kb)) m = Inr key \<and>
    unwrap_check sample_crypto (ks_inner kb) (id_peer_id low) m False = Inr (Proceed False False)"
proof -
  obtain ka where ka: "run_steps (kstep sample_crypto) (sample_empty, False) (ka, True)" "ks_inner ka = sample_inner 1 high"
    using sample_running [of 1 high] by blast
  obtain kb where kb: "run_steps (kstep sample_crypto) (sample_empty, False) (kb, True)" "ks_inner kb = sample_inner 2 low"
    using sample_running [of 2 low] by blast
  have ids: "local_peer (ks_inner ka) = id_peer_id low" "local_peer (ks_inner kb) = id_peer_id high"
    using sample_documents by (simp_all add: ka(2) kb(2) sample_inner_def initial_inner_def)
  obtain s b where c1: "create_inner sample_crypto sample_entropy (local_peer (ks_inner kb))
      (cr_kem_ek sample_crypto (li_kem_seed (si_local (ks_inner kb)))) (Epoch 1) False ([], ka) =
      (Inr (s, sample_wrap (Epoch 1)), [], ka\<lparr>ks_inner := sample_first, ks_state_file := Some b\<rparr>)"
    using sample_create [OF ka(2)] by (auto simp: ids sample_crypto_def)
  have "knows sample_crypto (si_local (ks_inner ka)) (ks_inner kb)"
    using sample_documents by (simp add: knows_def ka(2) kb(2) sample_inner_def initial_inner_def)
      (simp add: sample_document_def sample_identity_def sample_crypto_def)
  moreover have "expects (ks_inner kb) (local_peer (ks_inner ka)) (Epoch 1)"
    unfolding expects_def ids using sample_documents(3)
    by (simp add: kb(2) sample_inner_def initial_inner_def watermark_of_def bm_or_default_def checked_add_def)
  ultimately obtain key where "session_key (ka\<lparr>ks_inner := sample_first, ks_state_file := Some b\<rparr>) s = Some key"
      "open_wrap sample_crypto (si_local (ks_inner kb)) (sample_wrap (Epoch 1)) = Inr key"
      "unwrap_check sample_crypto (ks_inner kb) (id_peer_id low) (sample_wrap (Epoch 1)) False = Inr (Proceed False False)"
    using wrap_agreement [OF sample_correct ka(1) kb(1) c1] unfolding ids by blast
  then show ?thesis by blast
qed

text \<open>C11. Sessions are authenticated. Whatever the other end sends, a handshake that returns has the session of
  an identity whose document verifies and which is the advertised one if an advertisement is expected. The last
  frame read acknowledges the session's epoch, or it is a wrap for that epoch, signed by the peer, that this end
  has acknowledged as its last frame. The keystore holds the session: as the current pair, or, where an existing
  pair is preserved, as the admission candidate or the pair in use.\<close>

theorem sessions_authenticated:
  assumes "establish_guarded c expected preserve (l, w) = (Ret (Inr e), l', w')"
  shows "identity_verify c (es_peer e) = Inr () \<and>
    (case expected of None \<Rightarrow> True
     | Some ad \<Rightarrow> da_peer_id ad = id_peer_id (es_peer e) \<and> da_ek ad = id_ek (es_peer e) \<and> da_vk ad = id_vk (es_peer e)) \<and>
    (\<exists>rs frame b. ln_in l = rs @ Inr frame # ln_in l' \<and> preserve (id_peer_id (es_peer e)) = Inr b \<and>
      authenticated c b (es_peer e) e frame l' w')"
  using assms by (rule establish_authenticated)

theorem sessions_authenticated_witness:
  "\<exists>l w e l' w'. establish_guarded sample_crypto None (\<lambda>_. Inr False) (l, w) = (Ret (Inr e), l', w') \<and>
    identity_verify sample_crypto (es_peer e) = Inr ()"
proof -
  obtain ka kb where k: "ksys_inv (ka, True)" "ks_inner ka = initial_inner (sample_identity 1) 0"
      "ksys_inv (kb, True)" "ks_inner kb = initial_inner (sample_identity 2) 0"
    using sample_started by metis
  obtain l w e l' w' where run: "establish_guarded sample_crypto None (\<lambda>_. Inr False) (l, w) = (Ret (Inr e), l', w')"
    using sample_handshake [OF k] unfolding establish_def by blast
  from sessions_authenticated [OF run] run show ?thesis by blast
qed

text \<open>C12. A first contact succeeds. Two running nodes that do not know each other, whose writes go through, connect:
  with each end reading what the other end writes, both handshakes return the other's identity, and both keystores
  hold the same key at the same epoch, one above every epoch either has recorded for the other.\<close>

theorem first_contact_agrees:
  fixes wa wb :: world
  defines "a \<equiv> li_document (si_local (inner_of wa))" and "b \<equiv> li_document (si_local (inner_of wb))"
  assumes "crypto_correct c" and "stranger c b wa" and "stranger c a wb"
    and "sendable IDENTITY_KIND (encode_identity a)" and "sendable IDENTITY_KIND (encode_identity b)" and "sendable WRAP_KIND (encode_wrap m)"
    and "low_ready c en b (watermark_of (inner_of wb) (id_peer_id a)) e key m (inner_of wa)"
    and "high_ready c (si_local (inner_of wa)) (watermark_of (inner_of wa) (id_peer_id b)) e key m (inner_of wb)"
  shows "\<exists>la lb sa sb wa' wb'.
    establish c None (started [en0, en] (ln_out lb), wa) = (Ret (Inr \<lparr>es_peer = b, es_session = sa\<rparr>), la, wa') \<and>
    establish c None (started [en1] (ln_out la), wb) = (Ret (Inr \<lparr>es_peer = a, es_session = sb\<rparr>), lb, wb') \<and>
    session_key (wd_keys wa') sa = Some key \<and> session_key (wd_keys wb') sb = Some key \<and> ses_epoch sa = e \<and> ses_epoch sb = e"
  unfolding a_def b_def by (rule fresh_handshake [OF assms(3-10) [unfolded a_def b_def]])

theorem first_contact_agrees_witness:
  "\<exists>wa wb la lb sa sb wa' wb'.
    establish sample_crypto None (started [sample_entropy, sample_entropy] (ln_out lb), wa) = (Ret (Inr \<lparr>es_peer = high, es_session = sa\<rparr>), la, wa') \<and>
    establish sample_crypto None (started [sample_entropy] (ln_out la), wb) = (Ret (Inr \<lparr>es_peer = low, es_session = sb\<rparr>), lb, wb') \<and>
    session_key (wd_keys wa') sa = Some 9 \<and> session_key (wd_keys wb') sb = Some 9 \<and> ses_epoch sa = Epoch 1 \<and> ses_epoch sb = Epoch 1"
proof -
  obtain ka kb where k: "ksys_inv (ka, True)" "ks_inner ka = initial_inner (sample_identity 1) 0"
      "ksys_inv (kb, True)" "ks_inner kb = initial_inner (sample_identity 2) 0"
    using sample_started by metis
  show ?thesis
    by (intro exI [of _ "sample_node 1 ka"] exI [of _ "sample_node 2 kb"],
        use first_contact_agrees [OF sample_correct, of "sample_node 2 kb" "sample_node 1 ka" "sample_wrap (Epoch 1)" sample_entropy "Epoch 1" 9
          sample_entropy sample_entropy] sample_pair [OF k] in simp)
qed

text \<open>C13. A handshake ends and is safe for the keystore. Whatever frames arrive, however many can be written and
  whatever the keystore's writes do, it returns, keeps the keystore's invariant, and lowers no peer's watermark, in memory or on disk. Its two
  loops, of \<open>finish_wrap\<close> and of \<open>finish_candidate\<close>, are the loops of the code: the bound that the model gives them,
  one more read than there are frames, never ends them.\<close>

theorem handshake_keeps_keystore:
  assumes "ksys_inv (wd_keys w, True)"
  shows "(\<exists>r l' w'. establish_guarded c expected preserve (l, w) = (Ret r, l', w') \<and> ksys_inv (wd_keys w', True) \<and>
      (\<forall>p. watermark_of (inner_of w) p \<le> watermark_of (inner_of w') p) \<and> (\<forall>p. file_mark (wd_keys w) p \<le> file_mark (wd_keys w') p)) \<and>
    finish_wrap c d = h_bind next_frame (\<lambda>frame. h_bind (handle_wrap c d frame) (\<lambda>r.
      case r of Some x \<Rightarrow> h_ret (Inr x) | None \<Rightarrow> finish_wrap c d)) \<and>
    frame_loop (handle_candidate c d) = h_bind next_frame (\<lambda>frame. h_bind (handle_candidate c d frame) (\<lambda>r.
      case r of Some x \<Rightarrow> h_ret (Inr x) | None \<Rightarrow> frame_loop (handle_candidate c d)))"
  using establish_keeps [OF assms] finish_wrap_unfold candidate_loop_unfold by blast

theorem handshake_keeps_keystore_witness:
  "\<exists>w r l' w'. establish_guarded sample_crypto None (\<lambda>_. Inr False) (started [] [], w) = (Ret r, l', w') \<and> ksys_inv (wd_keys w', True)"
proof -
  obtain k where k: "ksys_inv (k, True)" using sample_started by blast
  then have "ksys_inv (wd_keys (sample_node 1 k), True)" by (simp add: sample_node_def)
  from handshake_keeps_keystore [OF this] show ?thesis by blast
qed

text \<open>C33. The watermark does not protect a known pair. A wrap that the peer signed for an epoch above the
  current pair's but not above the watermark, such as that of a candidate that was discarded, is accepted
  by \<open>unwrap\<close> and installed with fresh counters and an empty replay window.\<close>

theorem wrap_below_watermark_accepted:
  assumes "\<not> si_failed (ks_inner k)" and "bm_get (si_peers (ks_inner k)) p = Some d"
    and "bm_get (si_pairs (ks_inner k)) p = Some q" and "pp_epoch q < wm_epoch m" and "wm_epoch m \<le> watermark_of (ks_inner k) p"
    and "epoch_raw (watermark_of (ks_inner k) p) < - 1"
    and "wm_min_id m = min (local_peer (ks_inner k)) p" and "wm_max_id m = max (local_peer (ks_inner k)) p"
    and "wrap_m m = Inr b" and "mldsa_verify c (id_vk d) WRAP_CONTEXT b (wm_signature m) = Inr ()"
    and "open_wrap c (si_local (ks_inner k)) m = Inr key"
    and "checked_add (si_next_slot (ks_inner k)) 1 = Some n" and "fits (installed p p m key (ks_inner k))"
  shows "\<exists>s bs i. unwrap_inner c p m False ([], k) = (Inr s, [], k\<lparr>ks_inner := i, ks_state_file := Some bs\<rparr>) \<and>
    (p, new_pair p p m) \<in> set (si_pairs i) \<and> (si_next_slot (ks_inner k), pair_key_new key p (wm_epoch m)) \<in> set (si_keys i)"
proof -
  have "\<exists>n. checked_add (epoch_raw (watermark_of (ks_inner k) p)) 1 = Some n"
    using assms(6) by (auto simp: checked_add_def word_less_nat_alt unsigned_minus_1_eq_mask mask_eq_exp_minus_1)
  then have "unwrap_check c (ks_inner k) p m False = Inr (Proceed False False)"
    using unwrap_ignores_watermark assms by blast
  moreover have "(p, new_pair p p m) \<in> set (si_pairs (installed p p m key (ks_inner k)))"
    by (simp add: installed_def Let_def raise_watermark_def)
  ultimately show ?thesis
    using unwrap_inner_done [OF assms(1) _ assms(11-13)] installed_key [of "ks_inner k" key p m p] by blast
qed

theorem wrap_below_watermark_accepted_witness:
  "\<exists>s bs i. unwrap_inner sample_crypto (id_peer_id low) (sample_wrap (Epoch 2)) False ([], sample_discarded) =
      (Inr s, [], sample_discarded\<lparr>ks_inner := i, ks_state_file := Some bs\<rparr>) \<and>
    (id_peer_id low, new_pair (id_peer_id low) (id_peer_id low) (sample_wrap (Epoch 2))) \<in> set (si_pairs i) \<and>
    (si_next_slot (ks_inner sample_discarded), pair_key_new 9 (id_peer_id low) (wm_epoch (sample_wrap (Epoch 2)))) \<in> set (si_keys i)"
  by (rule wrap_below_watermark_accepted [OF sample_discarded])

text \<open>C35. Send counters never repeat or wrap. Whatever counters have been reserved on a new pair key, those of one
  payload type were strictly increasing; a further one can be reserved exactly when it is above all of them; and a
  next counter is offered exactly until the last one, \<open>2 ^ 64 - 1\<close>, has been used, is above all used ones and can
  be reserved.\<close>

theorem send_counters_bounded:
  assumes "fold_ok (\<lambda>(t, seq) st. reserve_send st t seq) calls (pair_key_new key peer epoch) = Inr st"
  shows "sorted_wrt (<) (used_counters t calls) \<and>
    (\<forall>seq. is_ok (reserve_send st t seq) \<longleftrightarrow> (\<forall>n \<in> set (used_counters t calls). n < seq_raw seq)) \<and>
    (is_ok (next_outbound_seq st t) \<longleftrightarrow> - 1 \<notin> set (used_counters t calls)) \<and>
    (\<forall>seq. next_outbound_seq st t = Inr seq \<longrightarrow>
      (\<forall>n \<in> set (used_counters t calls). n < seq_raw seq) \<and> is_ok (reserve_send st t seq))"
proof -
  let ?us = "used_counters t calls"
  have sorted: "sorted_wrt (<) ?us" and last: "last_sent st t = (if ?us = [] then None else Some (last ?us))"
    using reserved_counters [OF assms] by auto
  have reserve: "is_ok (reserve_send st t seq) \<longleftrightarrow> (\<forall>n \<in> set ?us. n < seq_raw seq)" for seq
    using last sorted_last_greatest [OF sorted] by (cases "?us = []") (auto simp: is_ok_iff reserve_send_Inr intro: le_less_trans)
  have "is_ok (next_outbound_seq st t) \<longleftrightarrow> last_sent st t \<noteq> Some (- 1)"
    by (cases "last_sent st t") (auto simp: next_outbound_seq_def is_ok_iff checked_add_one [symmetric])
  moreover have "last_sent st t = Some (- 1) \<longleftrightarrow> - 1 \<in> set ?us"
    by (cases "?us = []") (simp_all add: last, metis last_in_set sorted_last_greatest [OF sorted] word_order.extremum_unique)
  ultimately show ?thesis
    using sorted reserve next_outbound_seq_reserves by blast
qed

theorem send_counters_bounded_witness:
  "\<exists>st. fold_ok (\<lambda>(t, seq) st. reserve_send st t seq) [(Packet, Seq 1), (ChunkBody, Seq 1), (Packet, Seq 18446744073709551615)] (pair_key_new 5 (PeerId 1) (Epoch 1)) = Inr st \<and>
    sorted_wrt (<) [1, 18446744073709551615 :: u64] \<and> \<not> is_ok (next_outbound_seq st Packet) \<and> is_ok (next_outbound_seq st ChunkBody)"
proof -
  have gt: "\<not> (18446744073709551615 :: u64) \<le> 1" by code_simp
  let ?calls = "[(Packet, Seq 1), (ChunkBody, Seq 1), (Packet, Seq 18446744073709551615)]"
  obtain st where run: "fold_ok (\<lambda>(t, seq) st. reserve_send st t seq) ?calls (pair_key_new 5 (PeerId 1) (Epoch 1)) = Inr st"
    by (simp add: reserve_send_def last_sent_def pair_key_new_def guard_ok_def gt)
  have used: "used_counters Packet ?calls = [1, 18446744073709551615]" "used_counters ChunkBody ?calls = [1]"
    by (simp_all add: used_counters_def)
  from send_counters_bounded [OF run, of Packet] send_counters_bounded [OF run, of ChunkBody] run show ?thesis
    by (auto simp: used)
qed

section \<open>Encodings\<close>

text \<open>C36. Framing. Reading a stream yields a frame exactly when the stream begins with the bytes that
  writing that frame produces, and leaves the rest of the stream untouched.\<close>

theorem frames_read_as_written:
  "read_frame stream = Inr (f, rest) \<longleftrightarrow> (\<exists>b. write_frame f = Inr b \<and> stream = b @ rest)"
  using read_write_frame read_frame_inv by blast

text \<open>C37. Canonical protocol messages. For identities, wraps, join requests, directory forget requests,
  pull requests, have queries and replies, and instructions (with UTF-8 names): the decoder accepts exactly
  the encoder's output and returns what was encoded, so each message has one encoding.\<close>

theorem protocol_messages_canonical:
  assumes "length bs \<le> usize_max"
  shows "(decode_identity bs = Inr d \<longleftrightarrow> encode_identity d = Inr bs) \<and>
    (decode_wrap bs = Inr w \<longleftrightarrow> encode_wrap w = Inr bs) \<and>
    (decode_join_request bs d = Inr j \<longleftrightarrow> jr_document j = d \<and> encode_join_request j = Inr bs) \<and>
    (decode_dir_forget bs = Inr f \<longleftrightarrow> encode_dir_forget f = Inr bs) \<and>
    (decode_pull_request bs = Inr r \<longleftrightarrow> length (pr_chunk_ids r) \<le> 32 \<and> encode_pull_request r = Inr bs) \<and>
    (decode_have_query bs = Inr q \<longleftrightarrow> encode_have_query q = Inr bs) \<and>
    (decode_have_reply bs = Inr a \<longleftrightarrow> encode_have_reply a = Inr bs) \<and>
    (decode_control_record bs = Inr u \<longleftrightarrow> update_utf8 (cr_update u) \<and> encode_control_record u = Inr bs)"
  using decode_identity_iff [OF assms, of d] decode_wrap_iff [OF assms, of w] decode_join_request_iff [OF assms, of d j]
    decode_dir_forget_iff [OF assms, of f] decode_pull_request_iff [OF assms, of r] decode_have_query_iff [OF assms, of q]
    decode_have_reply_iff [OF assms, of a] decode_control_record_iff [OF assms, of u]
  by (intro conjI) simp_all

theorem protocol_messages_canonical_witness:
  "\<exists>bs. encode_wrap (sample_wrap (Epoch 1)) = Inr bs \<and> decode_wrap bs = Inr (sample_wrap (Epoch 1))"
proof -
  let ?w = "sample_wrap (Epoch 1)"
  have "short (wrap_bytes ?w)" "short (wm_signature ?w)"
    by (simp_all add: short_def wrap_bytes_def var_bytes_def len_bytes_def)
  then obtain bs where bs: "encode_wrap ?w = Inr bs" "length bs \<le> usize_max"
    using sample_wrap_ok(1) [of "Epoch 1"]
    by (auto simp: encode_wrap_Inr var_bytes_def len_bytes_def wrap_bytes_def usize_max_def)
  from protocol_messages_canonical [OF bs(2), of undefined ?w] bs(1) show ?thesis by blast
qed

text \<open>C38. Codes as text. A text of 26 Base32 characters is read as a join code, and one of 52 as a vault
  id, exactly when it is the text of that code; the decoder runs in a 16-bit register.\<close>

theorem codes_read_as_written:
  "(join_code_parse v = Inr code \<longleftrightarrow> v = join_code_text code) \<and>
    (vault_id_parse v = Inr vault \<longleftrightarrow> v = vault_id_text vault)"
  by (simp add: join_code_text_iff vault_id_text_iff)

text \<open>C39. Snapshots. The replica file decodes to the generation and metadata it was written from, with the
  directory entries in canonical order.\<close>

theorem replica_file_roundtrip:
  assumes "encode_replica sha256 m g = Inr bs" and "replica_wf m"
  shows "\<exists>t. from_dirents (rm_expected_root m) (rm_dirents m) = Inr t \<and>
    decode_replica sha256 bs (rm_expected_root m) = Inr (g, m\<lparr>rm_dirents := dirents t\<rparr>)"
  by (rule replica_roundtrip [OF assms])

theorem replica_file_roundtrip_witness:
  "\<exists>bs t. from_dirents (FileId 1) (rm_dirents (replica_new (FileId 1))) = Inr t \<and>
    decode_replica (\<lambda>_. 0) bs (FileId 1) = Inr (4, (replica_new (FileId 1))\<lparr>rm_dirents := dirents t\<rparr>)"
proof -
  obtain bs where "encode_replica (\<lambda>_. 0) (replica_new (FileId 1)) 4 = Inr bs"
    using sample_replica_encodes by blast
  from replica_file_roundtrip [OF this sample_metadata_wf] show ?thesis
    by (auto simp: replica_new_def)
qed

text \<open>C40. The node's private files. The identity file is accepted exactly when it encodes an identity whose document
  verifies and belongs to the stored seeds; the keystore's state file and the directory server's state file decode to
  the state they were written from.\<close>

theorem private_files_roundtrip:
  assumes "length b \<le> usize_max"
  shows "(decode_local_identity c b = Inr local \<longleftrightarrow> local_identity_ok c local \<and> encode_local_identity local = Inr b) \<and>
    (encode_store_state st = Inr b \<longrightarrow> decode_store_state b = Inr st) \<and>
    (encode_directory_state d = Inr b \<and> length (dst_ads d) \<le> MAX_DIRECTORY_RECORDS \<and>
      length (dst_watermarks d) \<le> MAX_DIRECTORY_RECORDS \<and> (\<forall>e \<in> set (dst_ads d). addr_plain (da_addr (snd e))) \<longrightarrow>
      decode_directory_state b = Inr d)"
  using decode_local_identity_iff [OF assms] store_state_roundtrip [OF _ assms] directory_state_roundtrip [OF _ assms] by blast

theorem private_files_roundtrip_witness:
  "(\<exists>b. encode_local_identity (sample_identity 1) = Inr b \<and>
      (decode_local_identity sample_crypto b = Inr (sample_identity 1) \<longleftrightarrow> local_identity_ok sample_crypto (sample_identity 1))) \<and>
   (\<exists>b. encode_store_state (persisted sample_first) = Inr b \<and> decode_store_state b = Inr (persisted sample_first)) \<and>
   (\<exists>b. encode_directory_state \<lparr>dst_ads = [(JoinCode 3, sample_ad 100)], dst_watermarks = [sample_watermark 100]\<rparr> = Inr b \<and>
      decode_directory_state b = Inr \<lparr>dst_ads = [(JoinCode 3, sample_ad 100)], dst_watermarks = [sample_watermark 100]\<rparr>)"
proof (intro conjI)
  obtain b where b: "encode_local_identity (sample_identity 1) = Inr b" "length b \<le> MAX_STORE_BYTES"
    using sample_identity_encodes by blast
  then show "\<exists>b. encode_local_identity (sample_identity 1) = Inr b \<and>
      (decode_local_identity sample_crypto b = Inr (sample_identity 1) \<longleftrightarrow> local_identity_ok sample_crypto (sample_identity 1))"
    using private_files_roundtrip [of b sample_crypto "sample_identity 1"] by (simp add: MAX_STORE_BYTES_def usize_max_def)
next
  obtain b where b: "encode_store_state (persisted sample_first) = Inr b" "length b \<le> MAX_STORE_BYTES"
    using sample_created_fits(1) by (auto simp: fits_def)
  then show "\<exists>b. encode_store_state (persisted sample_first) = Inr b \<and> decode_store_state b = Inr (persisted sample_first)"
    using private_files_roundtrip [of b _ _ "persisted sample_first"] by (auto simp add: MAX_STORE_BYTES_def usize_max_def)
next
  obtain b where b: "encode_directory_state \<lparr>dst_ads = [(JoinCode 3, sample_ad 100)], dst_watermarks = [sample_watermark 100]\<rparr> = Inr b"
      "length b \<le> MAX_STATE_BYTES"
    using sample_maps_fit [of 100] by (auto simp: sample_directory_def state_of_def)
  then show "\<exists>b. encode_directory_state \<lparr>dst_ads = [(JoinCode 3, sample_ad 100)], dst_watermarks = [sample_watermark 100]\<rparr> = Inr b \<and>
      decode_directory_state b = Inr \<lparr>dst_ads = [(JoinCode 3, sample_ad 100)], dst_watermarks = [sample_watermark 100]\<rparr>"
    using private_files_roundtrip [of b _ _ _ "\<lparr>dst_ads = [(JoinCode 3, sample_ad 100)], dst_watermarks = [sample_watermark 100]\<rparr>"]
      sample_ad_fits(3) [of 100]
    by (simp add: MAX_STATE_BYTES_def usize_max_def MAX_DIRECTORY_RECORDS_def)
qed

section \<open>The directory\<close>

text \<open>C27. No directory record is accepted twice, and none after a newer one. Through any sequence of requests at
  times that do not decrease, failed writes, crashes and restarts of the server on its file, the records (advertisements
  and retirements) it has accepted for one peer and vault were issued at strictly increasing times, although
  watermarks are dropped when they expire.\<close>

theorem directory_no_replay:
  assumes "directory_start s" and "run_steps (directory_step c) s (now, accepted, running, disk)"
    and "i < j" and "j < length accepted" and "fst (accepted ! i) = fst (accepted ! j)"
  shows "snd (accepted ! i) < snd (accepted ! j)"
  using directory.reachable_inv [OF assms(1,2)] assms(3-5)
  by (auto simp: directory_inv_def increasing_def dest: sorted_wrt_nth_less)

theorem directory_no_replay_witness:
  "\<exists>disk. run_steps (directory_step sample_crypto) (0, [], None, Missing)
      (101, [sample_dir_record 100, sample_dir_record 101], Some (sample_directory (Some 101)), disk) \<and>
    snd ([sample_dir_record 100, sample_dir_record 101] ! 0) < snd ([sample_dir_record 100, sample_dir_record 101] ! 1)"
proof -
  obtain disk where run: "run_steps (directory_step sample_crypto) (0, [], None, Missing)
      (101, [sample_dir_record 100, sample_dir_record 101], Some (sample_directory (Some 101)), disk)"
    using sample_directory_run by blast
  have "snd ([sample_dir_record 100, sample_dir_record 101] ! 0) < snd ([sample_dir_record 100, sample_dir_record 101] ! 1)"
    by (rule directory_no_replay [OF _ run]) (simp_all add: directory_start_def)
  with run show ?thesis by blast
qed

text \<open>C28. The directory's store. In every running server the advertisements are at most 10000, at most 32 of each
  peer, each correctly signed by the key its peer id is the hash of, and none newer than the watermark of its peer
  and vault, of which there are at most 10000.\<close>

theorem directory_reachable_ok:
  assumes "directory_start s" and "run_steps (directory_step c) s (now, accepted, Some self, disk)"
  shows "length (ds_ads self) \<le> 10000 \<and> length (ds_watermarks self) \<le> 10000 \<and> peer_ads pid (ds_ads self) \<le> 32 \<and>
    ((code, ad) \<in> set (ds_ads self) \<longrightarrow> ad_verify_signature c ad = Inr () \<and>
      (\<exists>w. bm_get (ds_watermarks self) (da_peer_id ad, da_vault_id ad) = Some w \<and> da_issued_at ad \<le> dw_issued_at w))"
  using directory.reachable_inv [OF assms]
  by (force simp: directory_inv_def directory_ok_def maps_ok_def ads_ok_def watermarks_ok_def dominated_def MAX_TOTAL_ADS_def
      MAX_ADS_PER_PEER_def)

theorem directory_reachable_ok_witness:
  "peer_ads (id_peer_id low) (ds_ads (sample_directory (Some 101))) \<le> 32 \<and>
    ad_verify_signature sample_crypto (sample_ad 101) = Inr ()"
proof -
  obtain disk where run: "run_steps (directory_step sample_crypto) (0, [], None, Missing)
      (101, [sample_dir_record 100, sample_dir_record 101], Some (sample_directory (Some 101)), disk)"
    using sample_directory_run by blast
  show ?thesis
    using directory_reachable_ok [OF _ run, of "id_peer_id low" "JoinCode 3" "sample_ad 101"]
    by (simp add: directory_start_def sample_directory_def)
qed

text \<open>C30. Discovery lists what is there. When \<open>discover_vaults\<close> succeeds, under whatever outcomes of its file operations,
  the list is in the order of the ids and has each id once; every entry is a directory named by its id in hexadecimal,
  or, for a vault of the older layout, the data directory itself, and the admission file there is for that id and the
  snapshot decodes for it; and every directory under \<open>vaults\<close> whose name does not start with a dot is listed.\<close>

theorem discovery_exact:
  assumes "discover_vaults sha256 lock (os, d) = (Ret (Inr vs), os', d')"
  shows "sorted (map fst vs) \<and> distinct (map fst vs) \<and> (\<forall>e \<in> set vs. place_sound sha256 d' e) \<and>
    (\<forall>name. get_vault name d' \<noteq> None \<and> \<not> (name \<noteq> [] \<and> hd name = 46) \<longrightarrow> Some name \<in> snd ` set vs)"
  using discover_listed [of sha256 lock, unfolded rtriple_def, rule_format, of os d] assms
  by (auto simp: listed_def vault_names_def)

theorem discovery_exact_witness:
  "\<exists>a r. discover_vaults (\<lambda>_. 0) (\<lambda>_. Inr ()) ([], sample_new_node a r) = (Ret (Inr [(VaultId 1, Some (hex (VaultId 1)))]), [], sample_new_node a r) \<and>
    place_sound (\<lambda>_. 0) (sample_new_node a r) (VaultId 1, Some (hex (VaultId 1)))"
proof -
  obtain a r where s: "can_migrate (\<lambda>_. 0) (\<lambda>_. Inr ()) (VaultId 1) (sample_legacy a r)"
    using sample_old_node_ready by blast
  from discovery_exact [OF sample_new_node_found [OF s]] sample_new_node_found [OF s] show ?thesis by fastforce
qed

text \<open>C34. A creation that is cut off makes discovery fail. When \<open>create_vault_dir_with_code\<close> for a vault whose directory
  was not there has stopped or failed, under whatever outcomes, and left the directory without an admission file, then
  \<open>discover_vaults\<close> does not succeed on that node, under any outcomes, whatever other vaults the node has, provided no
  migration was under way.\<close>

theorem interrupted_creation_blocks_discovery:
  assumes "get_vault (hex vault) d0 = None" and "dd_marker d0 = None"
    and "create_vault_dir_with_code lock (Inr vault) me code (os0, d0) = (r, os1, d)"
    and "get_vault (hex vault) d = Some (VaultDir t)" and "d_admission (vd_files t) = None"
  shows "discover_vaults sha256 lock' (os, d) \<noteq> (Ret (Inr vs), os', d')"
proof (rule abandoned_undiscovered)
  have "unjournaled vault d"
    by (rule dd_keeps_end [OF create_unjournaled _ assms(3)]) (simp add: unjournaled_def assms(1,2))
  with assms(4,5) show "abandoned vault d" by (auto simp: abandoned_def unjournaled_def)
qed

theorem interrupted_creation_blocks_discovery_witness:
  "\<exists>os d. create_vault_dir_with_code (\<lambda>_. Inr ()) (Inr (VaultId 0)) (Inr (PeerId 1)) (JoinCode 3) (os, bare_node) = (Crashed, [], d) \<and>
     (\<forall>os vs os' d'. discover_vaults (\<lambda>_. 0) (\<lambda>_. Inr ()) (os, d) \<noteq> (Ret (Inr vs), os', d'))"
proof -
  have "get_vault (hex (VaultId 0)) cut_off = Some (VaultDir empty_vault)" by (simp add: cut_off_def get_vault_def)
  with interrupted_creation_blocks_discovery [OF _ _ creation_cut_off [of "JoinCode 3"]]
  have "discover_vaults (\<lambda>_. 0) (\<lambda>_. Inr ()) (os, cut_off) \<noteq> (Ret (Inr vs), os', d')" for os vs os' d'
    by (simp add: bare_node_def get_vault_def empty_vault_def)
  with creation_cut_off show ?thesis by blast
qed

text \<open>C29. A published route stays found. When the server has acknowledged a client's publication of an advertisement,
  then after any requests at times at which it has not expired, of anyone, except a new advertisement of the same peer
  for the code or a withdrawal of the code, and as long as no write of the server's file has failed, a client that looks
  up the code before the advertisement expires receives it, byte for byte. A server restarted on the file at that
  point has exactly the same state, provided the watermark of each advertisement has its verification key.\<close>

theorem published_route_found:
  assumes "directory_ok c self" and "addr_plain (da_addr ad)" and "client_put_request code ad = Inr request"
    and "handle_request c w (Inr now) request (self, disk) = (Inr response, s)"
    and "\<forall>(w, now, request) \<in> set qs. \<not> is_expired (da_issued_at ad) now \<and> \<not> replaces_route code (da_peer_id ad) request"
    and "fold (\<lambda>(w, now, request) s. snd (handle_request c w (Inr now) request s)) qs s = (self', disk')" and "\<not> ds_failed self'"
  shows "require_empty_ack response DIR_PUT_KIND = Inr () \<and>
    (\<not> is_expired (da_issued_at ad) later \<longrightarrow> client_lookup (server_answer c Written later (self', disk')) code = Inr (Some ad)) \<and>
    (keys_agree (ds_ads self') (ds_watermarks self') \<longrightarrow> directory_open c (Inr ()) False (Inr ()) disk' = Inr self')"
proof (intro conjI impI)
  note put = put_answered [OF assms(1-4)]
  have "routed c code ad s" using put(2,3) by (simp add: routed_def)
  from routed_requests [OF assms(5) this] have now: "healthy c (self', disk')" "bm_get (ds_ads self') code = Some ad"
    using assms(6,7) by (auto simp: routed_def)
  show "require_empty_ack response DIR_PUT_KIND = Inr ()" by (rule put(1))
  show "client_lookup (server_answer c Written later (self', disk')) code = Inr (Some ad)" if fresh: "\<not> is_expired (da_issued_at ad) later"
    using client_lookup_current [OF now(1) _ fresh put(4) assms(2) put(5)] now(2) by simp
  show "directory_open c (Inr ()) False (Inr ()) disk' = Inr self'" if "keys_agree (ds_ads self') (ds_watermarks self')"
    using directory_reopens [OF _ _ that] now(1) by (simp add: healthy_def directory_ok_def)
qed

theorem published_route_found_witness:
  "\<exists>disk. let s = snd (handle_request sample_crypto Written (Inr 103) \<lparr>fr_kind = DIR_LOOKUP_KIND, fr_payload = code_bytes (JoinCode 3)\<rparr>
        (sample_directory (Some 100), disk)) in
    client_lookup (server_answer sample_crypto Written 105 s) (JoinCode 3) = Inr (Some (sample_ad 100)) \<and>
    directory_open sample_crypto (Inr ()) False (Inr ()) (snd s) = Inr (fst s)"
proof -
  obtain disk response where run: "handle_request sample_crypto Written (Inr 100) (sample_put 100) (sample_directory None, Missing) =
      (Inr response, sample_directory (Some 100), disk)"
    using sample_served [OF sample_times(1), of None 0 Missing]
    by (simp add: frame_new_def validate_kind_def frame_kinds usize_max_def usize_add_def) blast
  let ?q = "\<lparr>fr_kind = DIR_LOOKUP_KIND, fr_payload = code_bytes (JoinCode 3)\<rparr>" and ?s = "(sample_directory (Some 100), disk)"
  have ok: "directory_ok sample_crypto (sample_directory None)"
    by (simp add: sample_directory_def directory_ok_def maps_ok_def ads_ok_def watermarks_ok_def dominated_def bm_keyed_def peer_ads_def
        MAX_TOTAL_ADS_def)
  have agree: "keys_agree (ds_ads (sample_directory (Some 100))) (ds_watermarks (sample_directory (Some 100)))"
    by (simp add: keys_agree_def sample_directory_def sample_ad_def sample_watermark_def)
  have fresh: "\<not> is_expired (da_issued_at (sample_ad 100)) 103" "\<not> is_expired (da_issued_at (sample_ad 100)) 105"
    by (simp_all add: is_expired_def sample_ad_def MAX_AD_AGE_SECS_def)
  have same: "snd (handle_request sample_crypto Written (Inr 103) ?q ?s) = ?s"
    by (simp add: handle_request_state directory_lookup_def require_healthy_def pruned_def sample_directory_def bm_retain_def
        is_expired_def sample_ad_def sample_watermark_def MAX_AD_AGE_SECS_def decode_join_code_bytes [of "JoinCode 3", simplified])
  have "\<not> ds_failed (sample_directory (Some 100))" by (simp add: sample_directory_def)
  with published_route_found [OF ok sample_ad_fits(3) sample_put_request run, of "[(Written, 103, ?q)]" "sample_directory (Some 100)" disk 105]
    fresh agree same show ?thesis
    by (intro exI [of _ disk]) (simp add: Let_def replaces_route_def frame_kind_ne)
qed

section \<open>The host\<close>

text \<open>C15. Requests are carried out as the vault's specification says. When a member's instruction is accepted,
  the tree and the manifests of the vault change exactly by the step the instruction stands for, the instruction
  takes the next number, and members and denied peers change only by a kick; a manifest that is already
  current is accepted without an effect.\<close>

theorem accepted_requests_refine:
  assumes "host_wf (h_state self)" and "fan_out_control c env sender update (self, w) = (Ret (Inr ()), self', w')"
  shows "answered update (h_state self) (h_state self')"
  using keeps_Inr [OF fan_out_answered _ assms(2)] assms(1) by (simp add: host_wf_def)

theorem accepted_requests_refine_witness:
  "\<exists>self'. fan_out_control sample_crypto sample_env (id_peer_id low) (Link (FileId 1) [97] (FileId 2) True)
      (sample_host [id_peer_id low], sample_world) = (Ret (Inr ()), self', sample_world) \<and>
    answered (Link (FileId 1) [97] (FileId 2) True) (h_state (sample_host [id_peer_id low])) (h_state self')"
proof -
  obtain self' where run: "fan_out_control sample_crypto sample_env (id_peer_id low) (Link (FileId 1) [97] (FileId 2) True)
    (sample_host [id_peer_id low], sample_world) = (Ret (Inr ()), self', sample_world)"
    using sample_fan_out by blast
  have "host_wf (h_state (sample_host [id_peer_id low]))" using host_reach_wf [OF sample_reached(2)] by simp
  from accepted_requests_refine [OF this run] run show ?thesis by blast
qed

text \<open>C16. Refused requests have no effect. When a request other than a kick returns an error, at whatever point
  (a failed check, a missing session, an exhausted counter, a failed write), the host's state is as before,
  but for the sealing of queued entries and the record kept of the store on disk: its generation and published
  metadata when the entries were sealed again first, and the mark of a failed write, after which it takes no more
  publications until it is opened again.\<close>

theorem refused_requests_without_effect:
  assumes "host_wf (h_state self)" and "\<forall>target. update \<noteq> Kick target"
    and "fan_out_control c env sender update (self, w) = (Ret (Inl e), self', w')"
  shows "host_view self' = host_view self"
proof -
  have "bm_ok (snd (host_view self))" using assms(1) by (simp add: host_wf_def host_view_def)
  from keeps_Inl [OF atomic_fan_out [OF this] _ assms(3)] assms(2) show ?thesis by blast
qed

theorem refused_requests_without_effect_witness:
  "\<exists>self'. fan_out_control sample_crypto sample_env (id_peer_id high) (Unlink (FileId 1) []) (sample_host [id_peer_id low], sample_world) =
    (Ret (Inl AuthenticationFailed), self', sample_world) \<and> host_view self' = host_view (sample_host [id_peer_id low])"
proof -
  have run: "fan_out_control sample_crypto sample_env (id_peer_id high) (Unlink (FileId 1) []) (sample_host [id_peer_id low], sample_world) =
    (Ret (Inl AuthenticationFailed), sample_host [id_peer_id low], sample_world)"
    using sample_pair_ok(2) by (simp add: fan_out_control_def h_bind_def h_get_def h_ret_def require_running_def require_member_def)
  have "host_wf (h_state (sample_host [id_peer_id low]))" using host_reach_wf [OF sample_reached(2)] by simp
  from refused_requests_without_effect [OF this _ run] run show ?thesis by blast
qed

text \<open>C17. The host's invariant. In every state that a host reaches from a new vault or from a well-formed snapshot,
  through any sequence of its operations, failed ones included, the tree is well formed, the host is a
  member, and the log holds consecutive instructions up to the next number, beginning no later than the
  first one some member has neither acknowledged nor received in its bootstrap.\<close>

theorem host_reachable_ok:
  assumes "host_reach c (self, w)"
  shows "host_wf (h_state self)"
  using host_reach_wf [OF assms] by simp

theorem host_reachable_ok_witness:
  "\<exists>self' w'. kick_with_code sample_crypto sample_env (id_peer_id high) None (sample_host sample_pair, sample_world) =
    (Ret (Inr (id_peer_id high)), self', w') \<and> host_wf (h_state self')"
proof -
  obtain self' w' where run: "kick_with_code sample_crypto sample_env (id_peer_id high) None (sample_host sample_pair, sample_world) =
    (Ret (Inr (id_peer_id high)), self', w')"
    using sample_kick by blast
  have "host_reach sample_crypto (self', w')"
    by (rule host_reach.stepped [OF sample_reached(1)]) (rule host_step.kick [OF run])
  from host_reachable_ok [OF this] run show ?thesis by blast
qed

text \<open>C18. Nothing is lost in a restart. A snapshot of a reachable host state holds, in the mailbox of every other
  member, each instruction that the member has neither acknowledged nor received in its bootstrap, and the
  snapshot satisfies the condition under which a host that opens it starts in a well-formed state.\<close>

theorem unacknowledged_recoverable:
  assumes "host_wf st" and "peer \<in> set (hs_members st)" and "peer \<noteq> hs_host_id st" and "covered st peer < n" and "n < hs_next_control st"
  shows "n \<in> cr_id ` set (controls_of (bm_or_default [] (rm_mailboxes (host_metadata st)) peer)) \<and> snapshot_wf (host_metadata st)"
  using recoverable [OF assms] snapshot_wf_host [OF assms(1)] by simp

theorem unacknowledged_recoverable_witness:
  "let st = (sample_state sample_pair)\<lparr>hs_log := [\<lparr>cr_id = 1, cr_update = Clear (FileId 7)\<rparr>], hs_next_control := 2\<rparr> in
    1 \<in> cr_id ` set (controls_of (bm_or_default [] (rm_mailboxes (host_metadata st)) (id_peer_id high))) \<and> snapshot_wf (host_metadata st)"
  unfolding Let_def
  by (rule unacknowledged_recoverable)
    (use sample_pair_ok sample_documents(3) tree_ok_new in
      \<open>auto simp: host_wf_def sample_state_def log_from_def covered_def bm_or_default_def tree_new_def upt_rec intro!: exI [of _ 1]\<close>)

text \<open>C19. Revocation is permanent. After a member has been kicked it is on the list of the denied and not a member,
  and stays so through every later sequence of operations of the host.\<close>

theorem kicked_stays_out:
  assumes "host_wf (h_state self)" and "kick_with_code c env target code (self, w) = (Ret (Inr r), s1)" and "(host_step c)\<^sup>*\<^sup>* s1 s2"
  shows "target \<in> set (hs_denied (h_state (fst s2))) \<and> target \<notin> set (hs_members (h_state (fst s2)))"
proof -
  obtain self1 w1 where s1: "s1 = (self1, w1)" by fastforce
  have wf: "host_wf (h_state self1)" using hw.step [OF host_step.kick [OF assms(2)]] assms(1) by (simp add: s1)
  have "committed (Kick target) (h_state self) (h_state self1)"
    using keeps_Inr [OF kick_committed _ assms(2) [unfolded s1]] assms(1) by (simp add: host_wf_def)
  then have "revoked target (h_state self1)" by (simp add: committed_def when_kick_def revoked_def)
  with wf hr.steps [OF assms(3), of target] show ?thesis by (simp add: s1 revoked_def)
qed

theorem kicked_stays_out_witness:
  "\<exists>s. kick_with_code sample_crypto sample_env (id_peer_id high) None (sample_host sample_pair, sample_world) = (Ret (Inr (id_peer_id high)), s) \<and>
    id_peer_id high \<in> set (hs_denied (h_state (fst s))) \<and> id_peer_id high \<notin> set (hs_members (h_state (fst s)))"
proof -
  obtain s where run: "kick_with_code sample_crypto sample_env (id_peer_id high) None (sample_host sample_pair, sample_world) =
    (Ret (Inr (id_peer_id high)), s)"
    using sample_kick by fastforce
  have "host_wf (h_state (sample_host sample_pair))" using host_reach_wf [OF sample_reached(1)] by simp
  from kicked_stays_out [OF this run rtranclp.rtrancl_refl] run show ?thesis by blast
qed

section \<open>Members\<close>

text \<open>C21. The member's invariant. In every state that a replica reaches from its creation or from a well-formed
  snapshot, through its operations in any order, with flushes prepared and committed at different times, its
  tree and manifests are exactly what replaying its instruction log on an empty vault gives; the log's
  numbers rise and none is applied twice; the host is a member, and no member is denied.\<close>

theorem member_reachable_ok:
  assumes "member_reach c ((self, w), flushes)"
  shows "member_wf self"
  using member_reach_ok [OF assms] by (auto simp: members_ok_def mem_ok_def)

theorem member_reachable_ok_witness:
  "\<exists>self w. mr_log self = [sample_record] \<and> member_wf self \<and> member_reach sample_crypto ((self, w), [])"
proof -
  obtain chunks where c: "member_reach sample_crypto ((sample_member chunks, sample_world), [])" "mc_durable chunks = None"
    using sample_member_reached by blast
  obtain self where run: "apply_authenticated_control sample_crypto sample_record (sample_member chunks, sample_world) = (Ret (Inr ()), self, sample_world)"
    and log: "mr_log self = [sample_record]"
    using sample_member_applies [OF c(2)] by blast
  have "member_reach sample_crypto ((self, sample_world), [])"
    by (rule member_reach.stepped [OF c(1)]) (rule member_step.authenticated [OF run])
  with member_reachable_ok [OF this] log show ?thesis by blast
qed

text \<open>C22. Applied instructions stay applied. Through any sequence of operations the instruction log of a
  replica only grows at its end: what was applied is never undone, reordered or applied again, also when
  operations fail and when a flush is committed late.\<close>

theorem member_log_grows:
  assumes "member_reach c s" and "(member_step c)\<^sup>*\<^sup>* s s'"
  shows "\<exists>rs. mr_log (fst (fst s')) = mr_log (fst (fst s)) @ rs"
proof -
  obtain root host_id where "members_ok root host_id [] s" using member_reach_ok [OF assms(1)] by blast
  then have "members_ok root host_id (mr_log (fst (fst s))) s" by (auto simp: members_ok_def mem_ok_def)
  from members_ok_steps [OF assms(2) this] show ?thesis by (auto simp: members_ok_def mem_ok_def)
qed

theorem member_log_grows_witness:
  "\<exists>chunks self. (member_step sample_crypto)\<^sup>*\<^sup>* ((sample_member chunks, sample_world), []) ((self, sample_world), []) \<and>
    (\<exists>rs. mr_log self = mr_log (sample_member chunks) @ rs)"
proof -
  obtain chunks where c: "member_reach sample_crypto ((sample_member chunks, sample_world), [])" "mc_durable chunks = None"
    using sample_member_reached by blast
  obtain self where run: "apply_authenticated_control sample_crypto sample_record (sample_member chunks, sample_world) = (Ret (Inr ()), self, sample_world)"
    using sample_member_applies [OF c(2)] by blast
  have "(member_step sample_crypto)\<^sup>*\<^sup>* ((sample_member chunks, sample_world), []) ((self, sample_world), [])"
    by (rule r_into_rtranclp) (rule member_step.authenticated [OF run])
  with member_log_grows [OF c(1) this] show ?thesis by auto
qed

text \<open>C20. Replicas agree. A member that has installed the bootstrap made at some state of the host, and then
  applied the instructions that the host has committed since, has the same directory tree and the same
  manifests as the host. For a bootstrap made at the start this is a member that was there from the start.\<close>

theorem replicas_converge:
  assumes "host_content st0 = (tree_new root, [])" and "history us0 st0 st1"
    and "bootstrap_updates root (hs_manifests st1) (hs_tree st1) through = Inr boot" and "history us st1 st2"
    and "member_reach c ((self, w), flushes)" and "mr_expected_root self = root" and "map cr_update (mr_log self) = boot @ us"
  shows "member_content self = host_content st2"
proof -
  obtain host_id where "members_ok root host_id [] ((self, w), flushes)"
    using member_reach_ok [OF assms(5)] assms(6) by (auto simp: members_ok_def mem_ok_def)
  from converged [OF assms(1-4) this] assms(7) show ?thesis by simp
qed

theorem replicas_converge_witness:
  "\<exists>self st. history [cr_update sample_record] (sample_state [id_peer_id low]) st \<and> mr_log self = [sample_record] \<and>
    member_content self = host_content st"
proof -
  obtain st where st: "history [cr_update sample_record] (sample_state [id_peer_id low]) st" using sample_history by blast
  obtain chunks where c: "member_reach sample_crypto ((sample_member chunks, sample_world), [])" "mc_durable chunks = None"
    using sample_member_reached by blast
  obtain self where run: "apply_authenticated_control sample_crypto sample_record (sample_member chunks, sample_world) = (Ret (Inr ()), self, sample_world)"
    and log: "mr_log self = [sample_record]" and root: "mr_expected_root self = sample_root"
    using sample_member_applies [OF c(2)] by blast
  have reach: "member_reach sample_crypto ((self, sample_world), [])"
    by (rule member_reach.stepped [OF c(1)]) (rule member_step.authenticated [OF run])
  have "member_content self = host_content st"
    using replicas_converge [OF _ history.start _ st reach, of sample_root 0 "[]"] log root
    by (simp add: host_content_def sample_state_def plain_def bootstrap_updates_def link_passes.simps root_dirent_def)
  with st log show ?thesis by blast
qed

section \<open>Transfers\<close>

text \<open>C31. A new member receives the whole tree. For every well-formed tree the bootstrap instructions exist, and
  replaying them on an empty tree gives back the tree they were made from; they contain every manifest.\<close>

theorem bootstrap_rebuilds_tree:
  assumes "tree_ok t" and "\<forall>m \<in> set (bm_values ms). mf_file_id (tm_manifest m) \<noteq> dt_expected_root t"
  shows "\<exists>us. bootstrap_updates (dt_expected_root t) ms t through = Inr us \<and>
    tree_after us (tree_new (dt_expected_root t)) = Inr t \<and> (\<forall>m \<in> set (bm_values ms). NewManifest (tm_manifest m) \<in> set us)"
  using bootstrap_updates_rebuild [OF assms, of through] by blast

theorem bootstrap_rebuilds_tree_witness:
  "\<exists>us. bootstrap_updates (FileId 1) [] sample_tree 1 = Inr us \<and> tree_after us (tree_new (FileId 1)) = Inr sample_tree"
  using bootstrap_rebuilds_tree [OF sample_tree_ok, of "[]" 1] by (simp add: sample_tree_def tree_new_def)

text \<open>C32. Pulling from untrusted holders. Whatever the holders answer, a pull that ends reports as missing exactly
  the requested chunks that the store still lacks, keeps every stored chunk under the hash of its content,
  and adds only chunks that the verified manifest lists.\<close>

theorem pull_report_exact:
  assumes "pull_from_holders c fetch request trusted candidates (store, w) = (Ret (Inr report), store', w')"
    and "addressed (cr_sha256 c) (mc_chunks store)"
  shows "rp_missing report = missing_chunks store' request \<and> addressed (cr_sha256 c) (mc_chunks store') \<and>
    (\<forall>cid. chunk_has store' cid \<longrightarrow> chunk_has store cid \<or> cid \<in> set (mf_chunk_ids (tm_manifest trusted)))"
proof -
  let ?start = "\<lparr>rp_chunks_written = 0, rp_holders_tried = 0, rp_missing = missing_chunks store request\<rparr>"
  have "pull_loop c fetch request trusted [] candidates ?start (store, w) = (Ret (Inr report), store', w')"
    using assms(1) by (auto simp: pull_from_holders_def h_bind_Inr h_simps begin_pull_def)
  from pull_loop_Inr [OF this] assms(2) show ?thesis by simp
qed

theorem pull_report_exact_witness:
  "\<exists>fetch trusted report store'. pull_from_holders sample_crypto fetch \<lparr>pr_chunk_ids = [ChunkId 5]\<rparr> trusted [] (memory_new, sample_world) =
    (Ret (Inr report), store', sample_world) \<and> rp_missing report = missing_chunks store' \<lparr>pr_chunk_ids = [ChunkId 5]\<rparr>"
proof -
  let ?manifest = "\<lparr>mf_file_id = FileId 2, mf_chunk_ids = [ChunkId 5], mf_size = 1, mf_writer_id = PeerId 1, mf_version = 1, mf_signature = []\<rparr>"
  let ?report = "\<lparr>rp_chunks_written = 0, rp_holders_tried = 0, rp_missing = missing_chunks memory_new \<lparr>pr_chunk_ids = [ChunkId 5]\<rparr>\<rparr>"
  have run: "pull_from_holders sample_crypto (\<lambda>_ _. Inl AuthenticationFailed) \<lparr>pr_chunk_ids = [ChunkId 5]\<rparr> (TrustedManifest ?manifest) []
      (memory_new, sample_world) = (Ret (Inr ?report), memory_new, sample_world)"
    by (simp add: pull_from_holders_def h_bind_def h_get_def h_ret_def begin_pull_def)
  moreover have "addressed (cr_sha256 sample_crypto) (mc_chunks memory_new)" by (simp add: addressed_def memory_new_def)
  ultimately show ?thesis using pull_report_exact [OF run] by blast
qed

end
